(* ===== verification/Rust_Prelude.thy ===== *)
theory Rust_Prelude
  imports Main "HOL-Library.Word" "HOL-Library.Char_ord" "HOL-Library.List_Lexorder"
    "HOL-Library.Product_Lexorder" "HOL-Library.Option_ord" "HOL-Library.Multiset"
    "HOL-Library.Code_Target_Numeral"
begin

text \<open>
  The parts of the Rust language and of its standard library that the monitor's
  code uses, and the generic lemmas the component theories share.

  \<^item> Machine integers are words: \<open>u32\<close>, \<open>u64\<close>, \<open>u128\<close> and \<open>usize\<close> (64 bits).
    The saturating and checked operations are written out and characterised
    through \<^const>\<open>unat\<close>; the collection \<open>word_nat\<close> carries these facts.
  \<^item> \<open>Result\<close> is a sum with the error on the left; \<open>and_then\<close> is \<open>?\<close>, \<open>ensure\<close> is a
    guard that returns early.  The collection \<open>result_simps\<close> inverts them.
  \<^item> \<open>str\<close> is the list of its UTF-8 bytes; \<open>utf8_chars\<close> splits it into the byte
    groups of its scalar values.
  \<^item> \<open>DateTime<Utc>\<close> and \<open>TimeDelta\<close> are integers of nanoseconds; the range of
    representable instants belongs to the chrono package and is a parameter.
\<close>

named_theorems word_nat \<open>unat characterisations of the integer operations\<close>
named_theorems result_simps \<open>inversion of the error-propagating combinators\<close>

section \<open>Machine integers\<close>

type_synonym u8 = "8 word"
type_synonym u32 = "32 word"
type_synonym u64 = "64 word"
type_synonym u128 = "128 word"
type_synonym usize = "64 word"

definition checked_add :: "'a::len word \<Rightarrow> 'a word \<Rightarrow> 'a word option" where
  "checked_add a b = (if unat a + unat b < 2 ^ LENGTH('a) then Some (a + b) else None)"

definition checked_sub :: "'a::len word \<Rightarrow> 'a word \<Rightarrow> 'a word option" where
  "checked_sub a b = (if b \<le> a then Some (a - b) else None)"

definition checked_mul :: "'a::len word \<Rightarrow> 'a word \<Rightarrow> 'a word option" where
  "checked_mul a b = (if unat a * unat b < 2 ^ LENGTH('a) then Some (a * b) else None)"

definition sat_add :: "'a::len word \<Rightarrow> 'a word \<Rightarrow> 'a word" where
  "sat_add a b = (case checked_add a b of Some c \<Rightarrow> c | None \<Rightarrow> - 1)"

definition sat_sub :: "'a::len word \<Rightarrow> 'a word \<Rightarrow> 'a word" where
  "sat_sub a b = (case checked_sub a b of Some c \<Rightarrow> c | None \<Rightarrow> 0)"

definition sat_mul :: "'a::len word \<Rightarrow> 'a word \<Rightarrow> 'a word" where
  "sat_mul a b = (case checked_mul a b of Some c \<Rightarrow> c | None \<Rightarrow> - 1)"

lemma unat_bound: "unat a < 2 ^ LENGTH('a)" for a :: "'a::len word"
  by (rule unsigned_less)

lemma unat_max_word: "unat (- 1 :: 'a::len word) = 2 ^ LENGTH('a) - 1"
  by (simp add: unsigned_minus_1_eq_mask mask_eq_exp_minus_1)

lemma unat_sat_add [word_nat]:
  "unat (sat_add a b) = min (unat a + unat b) (2 ^ LENGTH('a) - 1)" for a b :: "'a::len word"
  by (auto simp: sat_add_def checked_add_def unat_max_word unat_word_ariths)

lemma unat_sat_sub [word_nat]: "unat (sat_sub a b) = unat a - unat b"
  by (auto simp: sat_sub_def checked_sub_def unat_sub word_le_nat_alt)

lemma unat_sat_mul [word_nat]:
  "unat (sat_mul a b) = min (unat a * unat b) (2 ^ LENGTH('a) - 1)" for a b :: "'a::len word"
  by (auto simp: sat_mul_def checked_mul_def unat_max_word unat_word_ariths)

lemma checked_add_Some_iff:
  "checked_add a b = Some c \<longleftrightarrow> unat c = unat a + unat b" for a b c :: "'a::len word"
  by (auto simp: checked_add_def unat_word_ariths word_unat_eq_iff) (metis unat_bound)

lemma checked_add_None_iff:
  "checked_add a b = None \<longleftrightarrow> 2 ^ LENGTH('a) \<le> unat a + unat b" for a b :: "'a::len word"
  by (auto simp: checked_add_def)

lemma checked_sub_Some_iff:
  "checked_sub a b = Some c \<longleftrightarrow> unat a = unat b + unat c" for a b c :: "'a::len word"
  by (auto simp: checked_sub_def word_le_nat_alt unat_sub word_unat_eq_iff)

lemma checked_sub_None_iff: "checked_sub a b = None \<longleftrightarrow> unat a < unat b"
  by (auto simp: checked_sub_def word_le_nat_alt)

lemma checked_mul_Some_iff:
  "checked_mul a b = Some c \<longleftrightarrow> unat c = unat a * unat b" for a b c :: "'a::len word"
  by (auto simp: checked_mul_def unat_word_ariths word_unat_eq_iff) (metis unat_bound)

lemma checked_mul_None_iff:
  "checked_mul a b = None \<longleftrightarrow> 2 ^ LENGTH('a) \<le> unat a * unat b" for a b :: "'a::len word"
  by (auto simp: checked_mul_def)

lemmas checked_iffs = checked_add_Some_iff checked_add_None_iff checked_sub_Some_iff
  checked_sub_None_iff checked_mul_Some_iff checked_mul_None_iff

lemma unat_le_max: "unat a \<le> 2 ^ LENGTH('a) - 1" for a :: "'a::len word"
  using unat_bound [of a] by linarith

lemma sat_add_0 [simp]: "sat_add 0 a = a" "sat_add a 0 = a"
  by (simp_all add: sat_add_def checked_add_def)

lemma sat_add_commute: "sat_add a b = sat_add b a"
  by (simp add: word_unat_eq_iff unat_sat_add add.commute)

lemma sat_add_assoc: "sat_add (sat_add a b) c = sat_add a (sat_add b c)"
proof -
  have "min (min (x + y) m + z) m = min (x + min (y + z) m) m" for x y z m :: nat
    by auto
  then show ?thesis by (simp add: word_unat_eq_iff unat_sat_add)
qed

lemma sat_add_mono: "a \<le> c \<Longrightarrow> b \<le> d \<Longrightarrow> sat_add a b \<le> sat_add c d"
  by (auto simp: word_le_nat_alt unat_sat_add intro: min.mono add_mono)

lemma le_sat_add: "a \<le> sat_add a b" "b \<le> sat_add a b"
  using unat_le_max [of a] unat_le_max [of b] by (auto simp: word_le_nat_alt unat_sat_add)

lemma sat_add_delta: "b \<le> a \<Longrightarrow> sat_add b (a - b) = a"
  using unat_le_max [of a] by (simp add: word_unat_eq_iff unat_sat_add unat_sub word_le_nat_alt)

lemma sat_add_exact: "unat a = unat b + unat d \<Longrightarrow> sat_add b d = a"
  using unat_le_max [of a] by (simp add: word_unat_eq_iff unat_sat_add)

lemma unat_fold_sat_add:
  "unat (fold (\<lambda>x acc. sat_add acc (f x)) xs a)
    = min (unat a + (\<Sum>x\<leftarrow>xs. unat (f x))) (2 ^ LENGTH('a) - 1)" for a :: "'a::len word"
proof (induction xs arbitrary: a)
  case Nil
  then show ?case using unat_le_max [of a] by simp
next
  case (Cons x xs)
  have "min (min (p + q) m + r) m = min (p + (q + r)) m" for p q r m :: nat by auto
  then show ?case by (simp add: Cons.IH unat_sat_add)
qed

section \<open>Results\<close>

definition and_then :: "'e + 'a \<Rightarrow> ('a \<Rightarrow> 'e + 'b) \<Rightarrow> 'e + 'b" where
  "and_then r f = (case r of Inl e \<Rightarrow> Inl e | Inr x \<Rightarrow> f x)"

definition ensure :: "bool \<Rightarrow> 'e \<Rightarrow> 'e + unit" where
  "ensure b e = (if b then Inr () else Inl e)"

definition ok_or :: "'a option \<Rightarrow> 'e \<Rightarrow> 'e + 'a" where
  "ok_or x e = (case x of None \<Rightarrow> Inl e | Some y \<Rightarrow> Inr y)"

fun result_is_ok :: "'e + 'a \<Rightarrow> bool" where
  "result_is_ok (Inl _) = False"
| "result_is_ok (Inr _) = True"

lemma and_then_simps [simp]:
  "and_then (Inl e) f = Inl e"
  "and_then (Inr x) f = f x"
  by (simp_all add: and_then_def)

lemma and_then_Inr [result_simps]:
  "and_then r f = Inr y \<longleftrightarrow> (\<exists>x. r = Inr x \<and> f x = Inr y)"
  by (cases r) auto

lemma and_then_Inl [result_simps]:
  "and_then r f = Inl e \<longleftrightarrow> r = Inl e \<or> (\<exists>x. r = Inr x \<and> f x = Inl e)"
  by (cases r) auto

lemma ensure_Inr [result_simps]: "ensure b e = Inr u \<longleftrightarrow> b"
  by (simp add: ensure_def)

lemma ensure_Inl [result_simps]: "ensure b e = Inl e' \<longleftrightarrow> \<not> b \<and> e' = e"
  by (auto simp: ensure_def)

lemma ensure_simps [simp]: "ensure True e = Inr ()" "ensure False e = Inl e"
  by (simp_all add: ensure_def)

lemma ok_or_Inr [result_simps]: "ok_or x e = Inr y \<longleftrightarrow> x = Some y"
  by (cases x) (auto simp: ok_or_def)

lemma ok_or_Inl [result_simps]: "ok_or x e = Inl e' \<longleftrightarrow> x = None \<and> e' = e"
  by (cases x) (auto simp: ok_or_def)

lemma ok_or_simps [simp]: "ok_or (Some y) e = Inr y" "ok_or None e = Inl e"
  by (simp_all add: ok_or_def)

lemma result_is_ok_iff: "result_is_ok r \<longleftrightarrow> (\<exists>x. r = Inr x)"
  by (cases r) auto

text \<open>A loop that checks every element and returns the first error.\<close>

fun each_ok :: "('a \<Rightarrow> 'e + unit) \<Rightarrow> 'a list \<Rightarrow> 'e + unit" where
  "each_ok f [] = Inr ()"
| "each_ok f (x # xs) = and_then (f x) (\<lambda>_. each_ok f xs)"

lemma each_ok_Inr [result_simps]: "each_ok f xs = Inr u \<longleftrightarrow> (\<forall>x\<in>set xs. f x = Inr ())"
  by (induction xs) (auto simp: result_simps)

text \<open>A loop that threads a value through fallible steps and returns the first error.\<close>

fun fold_ok :: "('a \<Rightarrow> 'b \<Rightarrow> 'e + 'b) \<Rightarrow> 'a list \<Rightarrow> 'b \<Rightarrow> 'e + 'b" where
  "fold_ok f [] s = Inr s"
| "fold_ok f (x # xs) s = and_then (f x s) (fold_ok f xs)"

lemma fold_ok_append: "fold_ok f (xs @ ys) s = and_then (fold_ok f xs s) (fold_ok f ys)"
  by (induction xs arbitrary: s) (auto simp: and_then_def split: sum.splits)

lemma fold_ok_invariant:
  assumes "fold_ok f xs s = Inr s'" "P s"
    and "\<And>x t t'. x \<in> set xs \<Longrightarrow> P t \<Longrightarrow> f x t = Inr t' \<Longrightarrow> P t'"
  shows "P s'"
  using assms by (induction xs arbitrary: s) (auto simp: result_simps)

fun map_ok :: "('a \<Rightarrow> 'e + 'b) \<Rightarrow> 'a list \<Rightarrow> 'e + 'b list" where
  "map_ok f [] = Inr []"
| "map_ok f (x # xs) = and_then (f x) (\<lambda>y. and_then (map_ok f xs) (\<lambda>ys. Inr (y # ys)))"

lemma map_ok_Inr: "map_ok f xs = Inr ys \<longleftrightarrow> list_all2 (\<lambda>x y. f x = Inr y) xs ys"
  by (induction xs arbitrary: ys) (auto simp: result_simps list_all2_Cons1)

section \<open>Strings\<close>

text \<open>Scalar values of a UTF-8 string as byte groups: a lead byte and its continuation bytes.\<close>

definition byte :: "char \<Rightarrow> nat" where
  "byte c = of_char c"

definition is_continuation :: "char \<Rightarrow> bool" where
  "is_continuation c = (128 \<le> byte c \<and> byte c < 192)"

function utf8_chars :: "string \<Rightarrow> string list" where
  "utf8_chars [] = []"
| "utf8_chars (c # cs) = (c # takeWhile is_continuation cs) # utf8_chars (dropWhile is_continuation cs)"
  by pat_completeness auto
termination
  by (relation "measure length") (auto simp: less_Suc_eq_le length_dropWhile_le)

lemma concat_utf8_chars [simp]: "concat (utf8_chars s) = s"
  by (induction s rule: utf8_chars.induct) auto

text \<open>A splitting into byte groups is determined by its concatenation.\<close>

definition utf8_grouped :: "string list \<Rightarrow> bool" where
  "utf8_grouped gs = (list_all (\<lambda>g. g \<noteq> [] \<and> list_all is_continuation (tl g)) gs
     \<and> list_all (\<lambda>g. \<not> is_continuation (hd g)) (tl gs))"

lemma utf8_chars_concat:
  "utf8_grouped gs \<Longrightarrow> utf8_chars (concat gs) = gs"
proof (induction gs)
  case Nil
  then show ?case by simp
next
  case (Cons g gs)
  obtain c cs where g: "g = c # cs" "list_all is_continuation cs"
    using Cons.prems by (cases g) (auto simp: utf8_grouped_def)
  have rest: "concat gs = [] \<or> \<not> is_continuation (hd (concat gs))"
    using Cons.prems by (cases gs) (auto simp: utf8_grouped_def)
  have cut: "takeWhile is_continuation (cs @ r) = cs \<and> dropWhile is_continuation (cs @ r) = r"
    if "r = [] \<or> \<not> is_continuation (hd r)" for r
    using g(2) that by (cases r) (auto simp: list_all_iff takeWhile_append2 dropWhile_append2)
  note cut [OF rest]
  moreover have "utf8_grouped gs" using Cons.prems by (cases gs) (auto simp: utf8_grouped_def)
  ultimately show ?case using Cons.IH g(1) by simp
qed

lemma utf8_grouped_utf8_chars: "utf8_grouped (utf8_chars s)"
proof (induction s rule: utf8_chars.induct)
  case 1
  then show ?case by (simp add: utf8_grouped_def)
next
  case (2 c cs)
  have "list_all is_continuation (takeWhile is_continuation cs)"
    by (auto simp: list_all_iff dest: set_takeWhileD)
  moreover have "list_all (\<lambda>g. \<not> is_continuation (hd g)) (utf8_chars (dropWhile is_continuation cs))"
  proof (cases "dropWhile is_continuation cs")
    case Nil
    then show ?thesis by (simp only: Nil) simp
  next
    case (Cons a as)
    have "\<not> is_continuation a" using hd_dropWhile [of is_continuation cs] Cons by simp
    then show ?thesis using 2 by (auto simp: Cons utf8_grouped_def)
  qed
  ultimately show ?case using 2 by (auto simp: utf8_grouped_def)
qed

text \<open>\<open>char::is_whitespace\<close>: the Unicode property White\_Space.\<close>

definition char_is_whitespace :: "string \<Rightarrow> bool" where
  "char_is_whitespace g = (case List.map byte g of
      [a] \<Rightarrow> (9 \<le> a \<and> a \<le> 13) \<or> a = 32
    | [a, b] \<Rightarrow> a = 194 \<and> (b = 133 \<or> b = 160)
    | [a, b, c] \<Rightarrow> (a = 225 \<and> b = 154 \<and> c = 128)
        \<or> (a = 226 \<and> b = 128 \<and> ((128 \<le> c \<and> c \<le> 138) \<or> c = 168 \<or> c = 169 \<or> c = 175))
        \<or> (a = 226 \<and> b = 129 \<and> c = 159) \<or> (a = 227 \<and> b = 128 \<and> c = 128)
    | _ \<Rightarrow> False)"

text \<open>\<open>char::is_control\<close>: the general category Cc.\<close>

definition char_is_control :: "string \<Rightarrow> bool" where
  "char_is_control g = (case List.map byte g of
      [a] \<Rightarrow> a < 32 \<or> a = 127
    | [a, b] \<Rightarrow> a = 194 \<and> 128 \<le> b \<and> b < 160
    | _ \<Rightarrow> False)"

definition trim :: "string \<Rightarrow> string" where
  "trim s = concat (rev (dropWhile char_is_whitespace (rev (dropWhile char_is_whitespace (utf8_chars s)))))"

definition ascii_lower :: "char \<Rightarrow> char" where
  "ascii_lower c = (if 65 \<le> byte c \<and> byte c \<le> 90 then char_of (byte c + 32) else c)"

definition to_ascii_lowercase :: "string \<Rightarrow> string" where
  "to_ascii_lowercase s = List.map ascii_lower s"

definition eq_ignore_ascii_case :: "string \<Rightarrow> string \<Rightarrow> bool" where
  "eq_ignore_ascii_case s t = (to_ascii_lowercase s = to_ascii_lowercase t)"

definition contains_char :: "char \<Rightarrow> string \<Rightarrow> bool" where
  "contains_char c s = (c \<in> set s)"

fun strip_prefix :: "string \<Rightarrow> string \<Rightarrow> string option" where
  "strip_prefix [] s = Some s"
| "strip_prefix (p # ps) [] = None"
| "strip_prefix (p # ps) (c # cs) = (if p = c then strip_prefix ps cs else None)"

definition starts_with :: "string \<Rightarrow> string \<Rightarrow> bool" where
  "starts_with p s = (take (length p) s = p)"

definition ends_with :: "string \<Rightarrow> string \<Rightarrow> bool" where
  "ends_with p s = (length p \<le> length s \<and> drop (length s - length p) s = p)"

text \<open>\<open>str::contains\<close>, \<open>str::rfind\<close>, \<open>split_whitespace\<close> and \<open>join\<close>.\<close>

definition match_indices :: "string \<Rightarrow> string \<Rightarrow> nat list" where
  "match_indices p s = filter (\<lambda>i. starts_with p (drop i s)) [0 ..< Suc (length s)]"

definition str_contains :: "string \<Rightarrow> string \<Rightarrow> bool" where
  "str_contains p s = (match_indices p s \<noteq> [])"

definition rfind :: "string \<Rightarrow> string \<Rightarrow> nat option" where
  "rfind p s = (case rev (match_indices p s) of [] \<Rightarrow> None | i # _ \<Rightarrow> Some i)"

fun split_groups :: "('a \<Rightarrow> bool) \<Rightarrow> 'a list \<Rightarrow> 'a list list" where
  "split_groups sep [] = []"
| "split_groups sep (x # xs) =
    (if sep x then split_groups sep xs
     else case xs of
         [] \<Rightarrow> [[x]]
       | y # _ \<Rightarrow> if sep y then [x] # split_groups sep xs
           else (case split_groups sep xs of [] \<Rightarrow> [[x]] | g # gs \<Rightarrow> (x # g) # gs))"

definition split_whitespace :: "string \<Rightarrow> string list" where
  "split_whitespace s = List.map concat (split_groups char_is_whitespace (utf8_chars s))"

fun join_with :: "string \<Rightarrow> string list \<Rightarrow> string" where
  "join_with sep [] = []"
| "join_with sep [w] = w"
| "join_with sep (w # ws) = w @ sep @ join_with sep ws"

text \<open>\<open>str::split\<close> with a single-byte separator.\<close>

fun split_char :: "char \<Rightarrow> string \<Rightarrow> string list" where
  "split_char sep [] = [[]]"
| "split_char sep (c # cs) =
    (if c = sep then [] # split_char sep cs
     else (case split_char sep cs of [] \<Rightarrow> [[c]] | w # ws \<Rightarrow> (c # w) # ws))"

text \<open>\<open>to_be_bytes\<close>: the most significant byte first.\<close>

fun be_bytes :: "nat \<Rightarrow> nat \<Rightarrow> char list" where
  "be_bytes 0 v = []"
| "be_bytes (Suc n) v = char_of (v div 256 ^ n mod 256) # be_bytes n v"

lemma length_be_bytes [simp]: "length (be_bytes n v) = n"
  by (induction n) auto

lemma be_bytes_inj:
  assumes "v < 256 ^ n" "w < 256 ^ n" "be_bytes n v = be_bytes n w"
  shows "v = w"
proof -
  have "be_bytes n v = be_bytes n w \<Longrightarrow> v mod 256 ^ n = w mod 256 ^ n" for v w
  proof (induction n)
    case 0
    then show ?case by simp
  next
    case (Suc n)
    have "(of_char (char_of (v div 256 ^ n mod 256) :: char) :: nat)
        = of_char (char_of (w div 256 ^ n mod 256) :: char)" using Suc.prems by simp
    then have "v div 256 ^ n mod 256 = w div 256 ^ n mod 256" by simp
    moreover have "v mod 256 ^ n = w mod 256 ^ n" using Suc by simp
    ultimately have "v mod (256 ^ n * 256) = w mod (256 ^ n * 256)"
      by (simp only: mod_mult2_eq)
    then show ?case by (simp only: power_Suc2)
  qed
  with assms show ?thesis by fastforce
qed

definition is_ascii_digit :: "char \<Rightarrow> bool" where
  "is_ascii_digit c = (48 \<le> byte c \<and> byte c \<le> 57)"

definition digit_value :: "char \<Rightarrow> nat" where
  "digit_value c = byte c - 48"

definition digit_char :: "nat \<Rightarrow> char" where
  "digit_char d = char_of (48 + d)"

definition is_ascii_alphabetic :: "char \<Rightarrow> bool" where
  "is_ascii_alphabetic c = ((65 \<le> byte c \<and> byte c \<le> 90) \<or> (97 \<le> byte c \<and> byte c \<le> 122))"

definition is_ascii_alphanumeric :: "char \<Rightarrow> bool" where
  "is_ascii_alphanumeric c = (is_ascii_alphabetic c \<or> is_ascii_digit c)"

lemma byte_digit_char: "d < 10 \<Longrightarrow> byte (digit_char d) = 48 + d"
  by (simp add: byte_def digit_char_def)

lemma digit_value_digit_char [simp]: "d < 10 \<Longrightarrow> digit_value (digit_char d) = d"
  by (simp add: digit_value_def byte_digit_char)

lemma is_ascii_digit_digit_char [simp]: "d < 10 \<Longrightarrow> is_ascii_digit (digit_char d)"
  by (simp add: is_ascii_digit_def byte_digit_char)

text \<open>Decimal printing (\<open>to_string\<close>) and parsing (\<open>FromStr\<close> of the unsigned integers).\<close>

fun show_nat :: "nat \<Rightarrow> string" where
  "show_nat n = (if n < 10 then [digit_char n] else show_nat (n div 10) @ [digit_char (n mod 10)])"

declare show_nat.simps [simp del]

definition decimal_value :: "string \<Rightarrow> nat" where
  "decimal_value s = foldl (\<lambda>v c. v * 10 + digit_value c) 0 s"

definition parse_unsigned :: "string \<Rightarrow> 'a::len word option" where
  "parse_unsigned s =
    (let digits = (case s of c # cs \<Rightarrow> if c = CHR ''+'' then cs else s | [] \<Rightarrow> [])
     in if digits = [] \<or> \<not> list_all is_ascii_digit digits then None
        else if decimal_value digits < 2 ^ LENGTH('a) then Some (of_nat (decimal_value digits))
        else None)"

lemma decimal_value_snoc: "decimal_value (s @ [c]) = decimal_value s * 10 + digit_value c"
  by (simp add: decimal_value_def)

lemma show_nat_digits: "list_all is_ascii_digit (show_nat n)"
  by (induction n rule: show_nat.induct) (subst show_nat.simps, simp)

lemma show_nat_nonempty: "show_nat n \<noteq> []"
  by (subst show_nat.simps) simp

lemma decimal_value_show_nat [simp]: "decimal_value (show_nat n) = n"
proof (induction n rule: show_nat.induct)
  case (1 n)
  show ?case
  proof (cases "n < 10")
    case True
    then show ?thesis by (subst show_nat.simps) (simp add: decimal_value_def)
  next
    case False
    then show ?thesis
      using 1 by (subst show_nat.simps) (simp add: decimal_value_snoc)
  qed
qed

lemma parse_unsigned_show_nat:
  assumes "n < 2 ^ LENGTH('a)"
  shows "parse_unsigned (show_nat n) = (Some (of_nat n) :: 'a::len word option)"
proof -
  obtain c cs where s: "show_nat n = c # cs"
    using show_nat_nonempty [of n] by (cases "show_nat n") auto
  have "is_ascii_digit c" using show_nat_digits [of n] s by simp
  then have "c \<noteq> CHR ''+''" by (auto simp: is_ascii_digit_def byte_def)
  then have "(case show_nat n of c # cs \<Rightarrow> if c = CHR ''+'' then cs else show_nat n | [] \<Rightarrow> [])
      = show_nat n" using s by simp
  then show ?thesis
    using assms show_nat_digits [of n] show_nat_nonempty [of n]
    unfolding parse_unsigned_def Let_def by simp
qed

lemma if_of_nat_Some:
  "(if n < 2 ^ LENGTH('a) then Some (of_nat n :: 'a::len word) else None) = Some w \<longleftrightarrow> unat w = n"
  using unat_bound [of w] by (auto simp: unat_of_nat)

lemma parse_digits:
  assumes "list_all is_ascii_digit s" "s \<noteq> []"
  shows "parse_unsigned s = Some (w :: 'a::len word) \<longleftrightarrow> unat w = decimal_value s"
proof -
  obtain c cs where s: "s = c # cs" using assms(2) by (cases s) auto
  then have "c \<noteq> CHR ''+''" using assms(1) by (auto simp: is_ascii_digit_def byte_def)
  then have p: "parse_unsigned s = (if decimal_value s < 2 ^ LENGTH('a)
      then Some (of_nat (decimal_value s) :: 'a word) else None)"
    using assms s by (simp add: parse_unsigned_def Let_def)
  show ?thesis unfolding p by (rule if_of_nat_Some)
qed

section \<open>Time\<close>

text \<open>
  Instants are nanoseconds since the Unix epoch.  The chrono package bounds them;
  the bounds are a parameter record of every definition that adds to or subtracts
  from an instant.
\<close>

type_synonym datetime = int
type_synonym timedelta = int

record chrono_range =
  min_utc :: datetime
  max_utc :: datetime

definition seconds :: "int \<Rightarrow> timedelta" where
  "seconds n = n * 1000000000"

definition minutes :: "int \<Rightarrow> timedelta" where
  "minutes n = seconds (n * 60)"

definition hours :: "int \<Rightarrow> timedelta" where
  "hours n = minutes (n * 60)"

definition checked_add_signed :: "chrono_range \<Rightarrow> datetime \<Rightarrow> timedelta \<Rightarrow> datetime option" where
  "checked_add_signed r t d = (if min_utc r \<le> t + d \<and> t + d \<le> max_utc r then Some (t + d) else None)"

definition checked_sub_signed :: "chrono_range \<Rightarrow> datetime \<Rightarrow> timedelta \<Rightarrow> datetime option" where
  "checked_sub_signed r t d = (if min_utc r \<le> t - d \<and> t - d \<le> max_utc r then Some (t - d) else None)"

text \<open>\<open>DateTime::timestamp\<close> rounds down, \<open>TimeDelta::num_seconds\<close> truncates towards zero.\<close>

definition timestamp_secs :: "datetime \<Rightarrow> int" where
  "timestamp_secs t = t div 1000000000"

definition num_seconds :: "timedelta \<Rightarrow> int" where
  "num_seconds d = (if 0 \<le> d then d div 1000000000 else - ((- d) div 1000000000))"

lemma checked_add_signed_Some:
  "checked_add_signed r t d = Some u \<longleftrightarrow> u = t + d \<and> min_utc r \<le> u \<and> u \<le> max_utc r"
  by (auto simp: checked_add_signed_def)

lemma checked_sub_signed_Some:
  "checked_sub_signed r t d = Some u \<longleftrightarrow> u = t - d \<and> min_utc r \<le> u \<and> u \<le> max_utc r"
  by (auto simp: checked_sub_signed_def)

section \<open>Lists\<close>

text \<open>Stable sorting by a key is \<^const>\<open>sort_key\<close>; two facts used with it.\<close>

lemma sort_key_hd_min: "x \<in> set xs \<Longrightarrow> f (hd (sort_key f xs)) \<le> f x"
proof -
  assume x: "x \<in> set xs"
  then have "x \<in> set (sort_key f xs)" by simp
  moreover have "sorted (List.map f (sort_key f xs))" by simp
  ultimately show ?thesis by (cases "sort_key f xs") auto
qed

lemma filter_partition_mset:
  "mset xs = mset (filter P xs) + mset (filter (\<lambda>x. \<not> P x) xs)"
  by (simp add: mset_filter multiset_partition)

text \<open>\<open>Iterator::find_map\<close>.\<close>

fun find_map :: "('a \<Rightarrow> 'b option) \<Rightarrow> 'a list \<Rightarrow> 'b option" where
  "find_map f [] = None"
| "find_map f (x # xs) = (case f x of Some y \<Rightarrow> Some y | None \<Rightarrow> find_map f xs)"

lemma find_map_Some: "find_map f xs = Some y \<Longrightarrow> \<exists>x\<in>set xs. f x = Some y"
  by (induction xs) (auto split: option.splits)

text \<open>\<open>Option::or_else\<close> and \<open>Option::filter\<close>.\<close>

definition opt_or :: "'a option \<Rightarrow> 'a option \<Rightarrow> 'a option" where
  "opt_or a b = (case a of Some x \<Rightarrow> Some x | None \<Rightarrow> b)"

definition opt_filter :: "('a \<Rightarrow> bool) \<Rightarrow> 'a option \<Rightarrow> 'a option" where
  "opt_filter P a = (case a of Some x \<Rightarrow> if P x then Some x else None | None \<Rightarrow> None)"

lemma opt_or_simps [simp]: "opt_or None b = b" "opt_or (Some x) b = Some x"
  by (simp_all add: opt_or_def)

lemma opt_filter_Some [simp]: "opt_filter P a = Some x \<longleftrightarrow> a = Some x \<and> P x"
  by (auto simp: opt_filter_def split: option.splits)

lemma opt_filter_None [simp]: "opt_filter P None = None"
  by (simp add: opt_filter_def)

text \<open>\<open>Iterator::max\<close> and \<open>Iterator::min\<close>.\<close>

fun list_max :: "'a::linorder list \<Rightarrow> 'a option" where
  "list_max [] = None"
| "list_max (x # xs) = Some (case list_max xs of None \<Rightarrow> x | Some y \<Rightarrow> max x y)"

fun list_min :: "'a::linorder list \<Rightarrow> 'a option" where
  "list_min [] = None"
| "list_min (x # xs) = Some (case list_min xs of None \<Rightarrow> x | Some y \<Rightarrow> min x y)"

lemma list_max_None [simp]: "list_max xs = None \<longleftrightarrow> xs = []"
  by (cases xs) auto

lemma list_max_Some: "list_max xs = Some m \<Longrightarrow> m \<in> set xs \<and> (\<forall>x\<in>set xs. x \<le> m)"
  by (induction xs arbitrary: m) (auto simp: max_def split: option.splits if_splits)

lemma list_min_None [simp]: "list_min xs = None \<longleftrightarrow> xs = []"
  by (cases xs) auto

lemma list_min_Some: "list_min xs = Some m \<Longrightarrow> m \<in> set xs \<and> (\<forall>x\<in>set xs. m \<le> x)"
  by (induction xs arbitrary: m) (auto simp: min_def split: option.splits if_splits)

end
