(* ===== verification/Ordered_Map.thy ===== *)
theory Ordered_Map
  imports Rust_Prelude
begin

text \<open>
  \<open>BTreeMap\<close>: an association list in strictly increasing key order.  The locale
  \<open>keyed_map\<close> is the interface the components use (lookup after insert and remove,
  preservation of the representation invariant) and carries the lemmas on the two
  loop shapes of the code: aggregation into entries with a default, and rebuilding.
  It is interpreted on the ordered association list of this theory.
\<close>

type_synonym ('k, 'v) btree = "('k \<times> 'v) list"

definition bt_wf :: "('k::linorder, 'v) btree \<Rightarrow> bool" where
  "bt_wf m = sorted_wrt (<) (List.map fst m)"

definition bt_get :: "('k, 'v) btree \<Rightarrow> 'k \<Rightarrow> 'v option" where
  "bt_get m k = map_of m k"

fun bt_insert :: "'k::linorder \<Rightarrow> 'v \<Rightarrow> ('k, 'v) btree \<Rightarrow> ('k, 'v) btree" where
  "bt_insert k v [] = [(k, v)]"
| "bt_insert k v ((k', v') # m) =
    (if k < k' then (k, v) # (k', v') # m
     else if k = k' then (k, v) # m
     else (k', v') # bt_insert k v m)"

definition bt_remove :: "'k \<Rightarrow> ('k, 'v) btree \<Rightarrow> ('k, 'v) btree" where
  "bt_remove k m = filter (\<lambda>e. fst e \<noteq> k) m"

definition bt_contains :: "('k, 'v) btree \<Rightarrow> 'k \<Rightarrow> bool" where
  "bt_contains m k = (bt_get m k \<noteq> None)"

definition bt_values :: "('k, 'v) btree \<Rightarrow> 'v list" where
  "bt_values m = List.map snd m"

definition bt_keys :: "('k, 'v) btree \<Rightarrow> 'k list" where
  "bt_keys m = List.map fst m"

text \<open>\<open>entry(k).or_insert(d)\<close> followed by an update of the entry in place.\<close>

definition bt_update :: "'k::linorder \<Rightarrow> 'v \<Rightarrow> ('v \<Rightarrow> 'v) \<Rightarrow> ('k, 'v) btree \<Rightarrow> ('k, 'v) btree" where
  "bt_update k d f m = bt_insert k (f (case bt_get m k of None \<Rightarrow> d | Some v \<Rightarrow> v)) m"

section \<open>The interface\<close>

locale keyed_map =
  fixes empty :: "'m"
    and get :: "'m \<Rightarrow> 'k \<Rightarrow> 'v option"
    and insert :: "'k \<Rightarrow> 'v \<Rightarrow> 'm \<Rightarrow> 'm"
    and remove :: "'k \<Rightarrow> 'm \<Rightarrow> 'm"
    and wf :: "'m \<Rightarrow> bool"
  assumes get_empty: "get empty k = None"
    and get_insert: "wf m \<Longrightarrow> get (insert k v m) k' = (if k' = k then Some v else get m k')"
    and get_remove: "wf m \<Longrightarrow> get (remove k m) k' = (if k' = k then None else get m k')"
    and wf_empty: "wf empty"
    and wf_insert: "wf m \<Longrightarrow> wf (insert k v m)"
    and wf_remove: "wf m \<Longrightarrow> wf (remove k m)"
begin

lemma insert_shadows:
  "wf m \<Longrightarrow> get (insert k v (insert k v' m)) = get (insert k v m)"
  by (rule ext) (simp add: get_insert wf_insert)

lemma insert_swap:
  "wf m \<Longrightarrow> k \<noteq> k' \<Longrightarrow> get (insert k v (insert k' v' m)) = get (insert k' v' (insert k v m))"
  by (rule ext) (simp add: get_insert wf_insert)

lemma wf_fold_entry:
  "wf m \<Longrightarrow>
    wf (fold (\<lambda>x m. insert (key x) (f x (case get m (key x) of None \<Rightarrow> d | Some v \<Rightarrow> v)) m) xs m)"
  by (induction xs arbitrary: m) (auto intro: wf_insert)

lemma get_fold_entry:
  assumes "wf m"
  shows "get (fold (\<lambda>x m. insert (key x) (f x (case get m (key x) of None \<Rightarrow> d | Some v \<Rightarrow> v)) m) xs m) k
    = (if k \<in> key ` set xs
       then Some (fold f (filter (\<lambda>x. key x = k) xs) (case get m k of None \<Rightarrow> d | Some v \<Rightarrow> v))
       else get m k)"
  using assms
proof (induction xs arbitrary: m)
  case Nil
  then show ?case by simp
next
  case (Cons x xs)
  let ?m = "insert (key x) (f x (case get m (key x) of None \<Rightarrow> d | Some v \<Rightarrow> v)) m"
  have "wf ?m" by (rule wf_insert) (rule Cons.prems)
  moreover have "filter (\<lambda>y. key y = key x) xs = []" if "key x \<notin> key ` set xs"
    using that unfolding filter_empty_conv by (metis imageI)
  ultimately show ?case
    using Cons.IH [of ?m] by (auto simp: get_insert [OF Cons.prems])
qed

end

section \<open>The implementation\<close>

lemma bt_wf_Nil [simp]: "bt_wf []"
  by (simp add: bt_wf_def)

lemma bt_wf_Cons [simp]: "bt_wf (e # m) \<longleftrightarrow> (\<forall>e'\<in>set m. fst e < fst e') \<and> bt_wf m"
  by (auto simp: bt_wf_def)

lemma bt_wf_distinct: "bt_wf m \<Longrightarrow> distinct (List.map fst m)"
  by (induction m) auto

lemma bt_get_Nil [simp]: "bt_get [] k = None"
  by (simp add: bt_get_def)

lemma bt_get_Cons [simp]: "bt_get (e # m) k = (if k = fst e then Some (snd e) else bt_get m k)"
  by (cases e) (simp add: bt_get_def)

lemma bt_get_SomeD: "bt_get m k = Some v \<Longrightarrow> (k, v) \<in> set m"
  by (simp add: bt_get_def map_of_SomeD)

lemma bt_get_Some_iff: "bt_wf m \<Longrightarrow> bt_get m k = Some v \<longleftrightarrow> (k, v) \<in> set m"
  unfolding bt_get_def by (rule map_of_eq_Some_iff) (rule bt_wf_distinct)

lemma bt_get_None_iff: "bt_get m k = None \<longleftrightarrow> k \<notin> fst ` set m"
  by (simp add: bt_get_def map_of_eq_None_iff)

lemma set_bt_insert: "bt_wf m \<Longrightarrow> set (bt_insert k v m) = Set.insert (k, v) {e \<in> set m. fst e \<noteq> k}"
  by (induction k v m rule: bt_insert.induct) (auto simp: not_less)

lemma bt_wf_insert: "bt_wf m \<Longrightarrow> bt_wf (bt_insert k v m)"
  by (induction k v m rule: bt_insert.induct) (auto simp: set_bt_insert)

lemma bt_get_insert:
  "bt_wf m \<Longrightarrow> bt_get (bt_insert k v m) k' = (if k' = k then Some v else bt_get m k')"
  by (induction k v m rule: bt_insert.induct) auto

lemma bt_wf_filter: "bt_wf m \<Longrightarrow> bt_wf (filter P m)"
  by (induction m) auto

lemma bt_wf_remove: "bt_wf m \<Longrightarrow> bt_wf (bt_remove k m)"
  by (simp add: bt_remove_def bt_wf_filter)

lemma bt_get_remove: "bt_get (bt_remove k m) k' = (if k' = k then None else bt_get m k')"
  by (induction m) (auto simp: bt_remove_def)

lemma set_bt_remove: "set (bt_remove k m) = {e \<in> set m. fst e \<noteq> k}"
  by (auto simp: bt_remove_def)

interpretation bt: keyed_map "[] :: ('k::linorder, 'v) btree" bt_get bt_insert bt_remove bt_wf
  by unfold_locales (auto simp: bt_get_insert bt_get_remove bt_wf_insert bt_wf_remove)

text \<open>The aggregation loops of the code, written with \<^const>\<open>bt_update\<close>.\<close>

lemma bt_get_fold_update:
  assumes "bt_wf m"
  shows "bt_get (fold (\<lambda>x. bt_update (key x) d (f x)) xs m) k
    = (if k \<in> key ` set xs
       then Some (fold f (filter (\<lambda>x. key x = k) xs) (case bt_get m k of None \<Rightarrow> d | Some v \<Rightarrow> v))
       else bt_get m k)"
  unfolding bt_update_def by (rule bt.get_fold_entry [OF assms])

lemma bt_wf_fold_update:
  "bt_wf m \<Longrightarrow> bt_wf (fold (\<lambda>x. bt_update (key x) d (f x)) xs m)"
  unfolding bt_update_def by (rule bt.wf_fold_entry)

lemma bt_wf_update: "bt_wf m \<Longrightarrow> bt_wf (bt_update k d f m)"
  by (simp add: bt_update_def bt_wf_insert)

lemma bt_get_update:
  "bt_wf m \<Longrightarrow> bt_get (bt_update k d f m) k'
    = (if k' = k then Some (f (case bt_get m k of None \<Rightarrow> d | Some v \<Rightarrow> v)) else bt_get m k')"
  by (simp add: bt_update_def bt_get_insert)

lemma length_bt_insert:
  "bt_wf m \<Longrightarrow> length (bt_insert k v m) = (if bt_get m k = None then Suc (length m) else length m)"
proof (induction k v m rule: bt_insert.induct)
  case (2 k v k' v' m)
  then show ?case
    by (auto simp: bt_get_None_iff bt_get_def [symmetric] dest: bt_get_SomeD)
qed simp

lemma length_bt_remove_le: "length (bt_remove k m) \<le> length m"
  by (simp add: bt_remove_def)

lemma bt_entries: "bt_wf m \<Longrightarrow> m = List.map (\<lambda>k. (k, the (bt_get m k))) (List.map fst m)"
  by (auto simp: bt_get_def bt_wf_distinct intro!: map_idI [symmetric])

lemma bt_ext:
  assumes "bt_wf m" "bt_wf n" "bt_get m = bt_get n"
  shows "m = n"
proof -
  have "fst ` set m = fst ` set n"
    using assms(3) bt_get_None_iff [of m] bt_get_None_iff [of n] by auto
  then have "List.map fst m = List.map fst n"
    using assms(1,2) by (intro strict_sorted_equal) (auto simp: bt_wf_def)
  then show ?thesis
    using bt_entries [OF assms(1)] bt_entries [OF assms(2)] assms(3) by simp
qed

lemma sum_list_by_key:
  fixes f :: "'a \<Rightarrow> nat"
  assumes "finite K" "key ` set xs \<subseteq> K"
  shows "(\<Sum>k\<in>K. \<Sum>x\<leftarrow>filter (\<lambda>x. key x = k) xs. f x) = (\<Sum>x\<leftarrow>xs. f x)"
  using assms(2)
proof (induction xs)
  case Nil
  then show ?case by simp
next
  case (Cons x xs)
  have "(\<Sum>k\<in>K. \<Sum>y\<leftarrow>filter (\<lambda>y. key y = k) (x # xs). f y)
      = (\<Sum>k\<in>K. (if k = key x then f x else 0) + (\<Sum>y\<leftarrow>filter (\<lambda>y. key y = k) xs. f y))"
    by (intro sum.cong) auto
  also have "\<dots> = f x + (\<Sum>y\<leftarrow>xs. f y)"
    using Cons assms(1) by (simp add: sum.distrib)
  finally show ?case by simp
qed

lemma bt_values_sum:
  fixes g :: "'v \<Rightarrow> nat"
  assumes "bt_wf m"
  shows "(\<Sum>v\<leftarrow>bt_values m. g v) = (\<Sum>k\<in>fst ` set m. g (the (bt_get m k)))"
proof -
  have "(\<Sum>v\<leftarrow>bt_values m. g v) = (\<Sum>k\<leftarrow>List.map fst m. g (the (bt_get m k)))"
    by (subst bt_entries [OF assms]) (simp add: bt_values_def comp_def)
  also have "\<dots> = (\<Sum>k\<in>set (List.map fst m). g (the (bt_get m k)))"
    by (rule sum_list_distinct_conv_sum_set) (rule bt_wf_distinct [OF assms])
  finally show ?thesis by simp
qed

lemma bt_keys_fold_update:
  assumes "bt_wf m"
  shows "fst ` set (fold (\<lambda>x. bt_update (key x) d (f x)) xs m) = key ` set xs \<union> fst ` set m"
proof -
  have "k \<in> fst ` set (fold (\<lambda>x. bt_update (key x) d (f x)) xs m) \<longleftrightarrow> k \<in> key ` set xs \<union> fst ` set m" for k
    using bt_get_fold_update [OF assms, of key d f xs k] bt_get_None_iff [of m k]
      bt_get_None_iff [of "fold (\<lambda>x. bt_update (key x) d (f x)) xs m" k]
    by (auto split: if_splits)
  then show ?thesis by blast
qed

text \<open>Conservation: a measure that each update adds to is preserved by aggregation.\<close>

lemma bt_fold_update_sum:
  fixes g :: "'v \<Rightarrow> nat"
  assumes zero: "g d = 0"
    and add: "\<And>ys. (\<Sum>y\<leftarrow>ys. w y) \<le> (\<Sum>x\<leftarrow>xs. w x) \<Longrightarrow> g (fold f ys d) = (\<Sum>y\<leftarrow>ys. w y)"
  shows "(\<Sum>v\<leftarrow>bt_values (fold (\<lambda>x. bt_update (key x) d (f x)) xs []). g v) = (\<Sum>x\<leftarrow>xs. w x)"
proof -
  let ?m = "fold (\<lambda>x. bt_update (key x) d (f x)) xs []"
  have wf: "bt_wf ?m" by (rule bt_wf_fold_update) simp
  have part: "(\<Sum>x\<leftarrow>filter P xs. w x) \<le> (\<Sum>x\<leftarrow>xs. w x)" for P
    by (induction xs) auto
  have "(\<Sum>v\<leftarrow>bt_values ?m. g v) = (\<Sum>k\<in>key ` set xs. g (the (bt_get ?m k)))"
    by (simp add: bt_values_sum [OF wf] bt_keys_fold_update)
  also have "\<dots> = (\<Sum>k\<in>key ` set xs. \<Sum>x\<leftarrow>filter (\<lambda>x. key x = k) xs. w x)"
    by (intro sum.cong) (auto simp: bt_get_fold_update add part)
  also have "\<dots> = (\<Sum>x\<leftarrow>xs. w x)" by (rule sum_list_by_key) auto
  finally show ?thesis .
qed

lemma set_bt_insert_subset: "set (bt_insert k v m) \<subseteq> insert (k, v) (set m)"
  by (induction m) (auto split: if_splits)

lemma bt_get_set: "bt_get m k = Some v \<Longrightarrow> (k, v) \<in> set m"
  by (induction m) (auto split: if_splits)

end
