(* ===== verification/Float64.thy ===== *)
theory Float64
  imports Complex_Main Rust_Prelude
begin

unbundle bit_operations_syntax

text \<open>
  The \<open>f64\<close> operations the code uses, on IEEE-754 binary64 bit patterns: conversion
  from unsigned integers (\<open>as f64\<close>), subtraction, multiplication, division, \<open>clamp\<close> and
  \<open>total_cmp\<close>.  A finite pattern denotes a rational number; every arithmetic result is
  the exact rational rounded to nearest, ties to even.  Shown here: rounding is
  monotone and bounded by a representable bound, so a percentage computed as
  \<open>part / whole * 100.0\<close> from \<open>part \<le> whole\<close> lies between \<open>0.0\<close> and \<open>100.0\<close>.
\<close>

type_synonym f64 = "64 word"

section \<open>Patterns\<close>

abbreviation (input) f64_zero :: f64 where "f64_zero \<equiv> 0"
abbreviation (input) f64_one :: f64 where "f64_one \<equiv> 0x3FF0000000000000"
abbreviation (input) f64_hundred :: f64 where "f64_hundred \<equiv> 0x4059000000000000"
abbreviation (input) f64_nan :: f64 where "f64_nan \<equiv> 0x7FF8000000000000"

definition f64_neg :: "f64 \<Rightarrow> bool" where
  "f64_neg a = (2 ^ 63 \<le> unat a)"

definition f64_mag :: "f64 \<Rightarrow> nat" where
  "f64_mag a = unat a mod 2 ^ 63"

definition f64_inf_mag :: nat where
  "f64_inf_mag = 0x7FF0000000000000"

definition f64_is_nan :: "f64 \<Rightarrow> bool" where
  "f64_is_nan a = (f64_inf_mag < f64_mag a)"

definition f64_is_infinite :: "f64 \<Rightarrow> bool" where
  "f64_is_infinite a = (f64_mag a = f64_inf_mag)"

definition f64_is_finite :: "f64 \<Rightarrow> bool" where
  "f64_is_finite a = (f64_mag a < f64_inf_mag)"

text \<open>The value of a finite magnitude: exponent field above 52 fraction bits.\<close>

definition mag_value :: "nat \<Rightarrow> rat" where
  "mag_value n = (let e = n div 2 ^ 52; f = n mod 2 ^ 52
    in if e = 0 then of_nat f * 2 powi (- 1074)
       else of_nat (2 ^ 52 + f) * 2 powi (int e - 1075))"

definition f64_value :: "f64 \<Rightarrow> rat" where
  "f64_value a = (if f64_neg a then - mag_value (f64_mag a) else mag_value (f64_mag a))"

section \<open>Rounding\<close>

fun bit_length :: "nat \<Rightarrow> nat" where
  "bit_length n = (if n = 0 then 0 else Suc (bit_length (n div 2)))"

declare bit_length.simps [simp del]

text \<open>\<open>floor_log2 x\<close> is the exponent of the leading bit of a positive rational.\<close>

definition floor_log2 :: "rat \<Rightarrow> int" where
  "floor_log2 x = (case quotient_of x of (n, d) \<Rightarrow>
    let k = int (bit_length (nat n)) - int (bit_length (nat d))
    in if 2 powi k \<le> x then k else k - 1)"

definition round_half_even :: "rat \<Rightarrow> int" where
  "round_half_even x = (let n = \<lfloor>x\<rfloor>; r = x - of_int n
    in if r < 1 / 2 then n else if 1 / 2 < r then n + 1 else if even n then n else n + 1)"

definition round_mag :: "rat \<Rightarrow> nat" where
  "round_mag x = (if x \<le> 0 then 0 else
    (let q = max (- 1074) (floor_log2 x - 52)
     in min f64_inf_mag (nat ((q + 1074) * 2 ^ 52 + round_half_even (x / 2 powi q)))))"

definition f64_make :: "bool \<Rightarrow> nat \<Rightarrow> f64" where
  "f64_make neg m = of_nat (if neg then m + 2 ^ 63 else m)"

definition f64_round :: "bool \<Rightarrow> rat \<Rightarrow> f64" where
  "f64_round zero_sign x =
    (if x = 0 then f64_make zero_sign 0 else f64_make (x < 0) (round_mag \<bar>x\<bar>))"

section \<open>Operations\<close>

definition f64_of_nat :: "nat \<Rightarrow> f64" where
  "f64_of_nat n = f64_round False (of_nat n)"

definition f64_negate :: "f64 \<Rightarrow> f64" where
  "f64_negate a = f64_make (\<not> f64_neg a) (f64_mag a)"

definition f64_mul :: "f64 \<Rightarrow> f64 \<Rightarrow> f64" where
  "f64_mul a b =
    (let s = (f64_neg a \<noteq> f64_neg b) in
     if f64_is_nan a \<or> f64_is_nan b then f64_nan
     else if f64_is_infinite a \<or> f64_is_infinite b then
       (if f64_mag a = 0 \<or> f64_mag b = 0 then f64_nan else f64_make s f64_inf_mag)
     else f64_round s (f64_value a * f64_value b))"

definition f64_div :: "f64 \<Rightarrow> f64 \<Rightarrow> f64" where
  "f64_div a b =
    (let s = (f64_neg a \<noteq> f64_neg b) in
     if f64_is_nan a \<or> f64_is_nan b then f64_nan
     else if f64_is_infinite a then (if f64_is_infinite b then f64_nan else f64_make s f64_inf_mag)
     else if f64_is_infinite b then f64_make s 0
     else if f64_mag b = 0 then (if f64_mag a = 0 then f64_nan else f64_make s f64_inf_mag)
     else f64_round s (f64_value a / f64_value b))"

definition f64_add :: "f64 \<Rightarrow> f64 \<Rightarrow> f64" where
  "f64_add a b =
    (if f64_is_nan a \<or> f64_is_nan b then f64_nan
     else if f64_is_infinite a then
       (if f64_is_infinite b \<and> f64_neg a \<noteq> f64_neg b then f64_nan else a)
     else if f64_is_infinite b then b
     else f64_round (f64_neg a \<and> f64_neg b) (f64_value a + f64_value b))"

definition f64_sub :: "f64 \<Rightarrow> f64 \<Rightarrow> f64" where
  "f64_sub a b = f64_add a (f64_negate b)"

text \<open>The partial order \<open><\<close>: false whenever an operand is NaN.\<close>

definition f64_ord_value :: "f64 \<Rightarrow> rat" where
  "f64_ord_value a =
    (if f64_is_infinite a then (if f64_neg a then - (2 ^ 1024) else 2 ^ 1024) else f64_value a)"

definition f64_less :: "f64 \<Rightarrow> f64 \<Rightarrow> bool" where
  "f64_less a b = (\<not> f64_is_nan a \<and> \<not> f64_is_nan b \<and> f64_ord_value a < f64_ord_value b)"

text \<open>\<open>clamp\<close> replaces only values below the minimum or above the maximum.\<close>

definition f64_clamp :: "f64 \<Rightarrow> f64 \<Rightarrow> f64 \<Rightarrow> f64" where
  "f64_clamp lo hi a = (let b = (if f64_less a lo then lo else a) in if f64_less hi b then hi else b)"

text \<open>\<open>total_cmp\<close> compares \<open>bits ^ (((bits >> 63) as u64) >> 1)\<close> as signed integers.\<close>

definition f64_total_key :: "f64 \<Rightarrow> int" where
  "f64_total_key a = (if f64_neg a then - int (f64_mag a) - 1 else int (f64_mag a))"

section \<open>Rounding is monotone\<close>

lemma round_half_even_bounds:
  "\<lfloor>x\<rfloor> \<le> round_half_even x" "round_half_even x \<le> \<lfloor>x\<rfloor> + 1"
  by (auto simp: round_half_even_def Let_def)

lemma round_half_even_mono:
  assumes "x \<le> y"
  shows "round_half_even x \<le> round_half_even y"
proof (cases "\<lfloor>x\<rfloor> = \<lfloor>y\<rfloor>")
  case True
  then show ?thesis using assms by (auto simp: round_half_even_def Let_def)
next
  case False
  then have "\<lfloor>x\<rfloor> + 1 \<le> \<lfloor>y\<rfloor>" using floor_mono [OF assms] by linarith
  then show ?thesis
    using round_half_even_bounds [of x] round_half_even_bounds [of y] by linarith
qed

lemma round_half_even_of_int [simp]: "round_half_even (of_int n) = n"
  by (simp add: round_half_even_def Let_def)

lemma bit_length_bounds:
  "0 < n \<Longrightarrow> 2 ^ (bit_length n - 1) \<le> n \<and> n < 2 ^ bit_length n \<and> 0 < bit_length n"
proof (induction n rule: bit_length.induct)
  case (1 n)
  show ?case
  proof (cases "n = 1")
    case True
    then show ?thesis by (simp add: bit_length.simps)
  next
    case False
    with 1 have h: "0 < n div 2" by auto
    with 1 have ih: "2 ^ (bit_length (n div 2) - 1) \<le> n div 2"
      "n div 2 < 2 ^ bit_length (n div 2)" "0 < bit_length (n div 2)" by auto
    have bl: "bit_length n = Suc (bit_length (n div 2))"
      using 1(2) by (subst bit_length.simps) simp
    obtain k where k: "bit_length (n div 2) = Suc k"
      using ih(3) by (cases "bit_length (n div 2)") auto
    have "2 * 2 ^ k \<le> n" using ih(1) k by simp
    moreover have "n < 2 * 2 ^ Suc k" using ih(2) k by (simp add: div_less_iff_less_mult mult.commute)
    ultimately show ?thesis using bl k by simp
  qed
qed

lemma rat_bit_length_bounds:
  assumes "0 < n"
  shows "(2::rat) ^ (bit_length (nat n) - 1) \<le> of_int n" "of_int n < (2::rat) ^ bit_length (nat n)"
proof -
  have n: "(of_int n :: rat) = of_nat (nat n)" using assms by simp
  have b: "2 ^ (bit_length (nat n) - 1) \<le> nat n" "nat n < 2 ^ bit_length (nat n)"
    using bit_length_bounds [of "nat n"] assms by auto
  have "(of_nat (2 ^ (bit_length (nat n) - 1)) :: rat) \<le> of_nat (nat n)"
    using b(1) by (simp only: of_nat_le_iff)
  then show "(2::rat) ^ (bit_length (nat n) - 1) \<le> of_int n" by (simp only: n of_nat_power of_nat_numeral)
  have "(of_nat (nat n) :: rat) < of_nat (2 ^ bit_length (nat n))"
    using b(2) by (simp only: of_nat_less_iff)
  then show "of_int n < (2::rat) ^ bit_length (nat n)" by (simp only: n of_nat_power of_nat_numeral)
qed

lemma floor_log2_bounds:
  assumes "0 < x"
  shows "2 powi floor_log2 x \<le> x \<and> x < 2 powi (floor_log2 x + 1)"
proof -
  obtain n d where q: "quotient_of x = (n, d)" by (cases "quotient_of x")
  have d: "0 < d" using quotient_of_denom_pos [OF q] .
  have x: "x = of_int n / of_int d" using quotient_of_div [OF q] .
  have n: "0 < n" using assms d x by (simp add: zero_less_divide_iff)
  define k where "k = int (bit_length (nat n)) - int (bit_length (nat d))"
  note bn = bit_length_bounds [of "nat n"] and bd = bit_length_bounds [of "nat d"]
  note n_b = rat_bit_length_bounds [OF n] and d_b = rat_bit_length_bounds [OF d]
  have hi: "x < 2 powi (k + 1)"
  proof -
    have "x < 2 ^ bit_length (nat n) / 2 ^ (bit_length (nat d) - 1)"
      unfolding x using n_b d_b d n by (intro frac_less) auto
    also have "\<dots> = 2 powi (k + 1)"
      using bd d by (simp add: k_def power_int_diff power_int_add of_nat_diff flip: power_int_of_nat)
    finally show ?thesis .
  qed
  have lo: "2 powi (k - 1) \<le> x"
  proof -
    have "2 powi (k - 1) = (2::rat) ^ (bit_length (nat n) - 1) / 2 ^ bit_length (nat d)"
      using bn n by (simp add: k_def power_int_diff of_nat_diff flip: power_int_of_nat)
    also have "\<dots> \<le> x"
      unfolding x using n_b d_b d n by (intro frac_le) auto
    finally show ?thesis .
  qed
  have "floor_log2 x = (if 2 powi k \<le> x then k else k - 1)"
    by (simp add: floor_log2_def q k_def Let_def)
  then show ?thesis using hi lo by (auto simp: not_le)
qed

lemma floor_log2_mono:
  assumes "0 < x" "x \<le> y"
  shows "floor_log2 x \<le> floor_log2 y"
proof (rule ccontr)
  assume "\<not> ?thesis"
  then have "floor_log2 y + 1 \<le> floor_log2 x" by simp
  then have "(2::rat) powi (floor_log2 y + 1) \<le> 2 powi floor_log2 x"
    by (intro power_int_increasing) auto
  then show False
    using floor_log2_bounds [of x] floor_log2_bounds [of y] assms by linarith
qed

lemma round_mag_mono:
  assumes "x \<le> y"
  shows "round_mag x \<le> round_mag y"
proof (cases "0 < x")
  case False
  then show ?thesis by (simp add: round_mag_def)
next
  case True
  define p where "p = max (- 1074) (floor_log2 x - 52)"
  define q where "q = max (- 1074) (floor_log2 y - 52)"
  have y: "0 < y" using True assms by simp
  have pq: "p \<le> q" using floor_log2_mono [OF True assms] by (simp add: p_def q_def)
  have "(p + 1074) * 2 ^ 52 + round_half_even (x / 2 powi p)
      \<le> (q + 1074) * 2 ^ 52 + round_half_even (y / 2 powi q)"
  proof (cases "p = q")
    case True
    have "x / 2 powi q \<le> y / 2 powi q" using assms by (simp add: divide_right_mono)
    with True show ?thesis by (simp add: round_half_even_mono)
  next
    case False
    with pq have lt: "p + 1 \<le> q" by simp
    have x_hi: "x / 2 powi p < of_int (2 ^ 53)"
    proof -
      have "x < 2 powi (floor_log2 x + 1)" using floor_log2_bounds [OF \<open>0 < x\<close>] by simp
      also have "\<dots> \<le> 2 powi (p + 53)"
        by (intro power_int_increasing) (auto simp: p_def)
      also have "\<dots> = 2 powi p * 2 ^ 53" by (simp add: power_int_add)
      finally show ?thesis by (simp add: divide_less_eq mult.commute)
    qed
    have y_lo: "of_int (2 ^ 52) \<le> y / 2 powi q"
    proof -
      have "q = floor_log2 y - 52" using lt by (auto simp: p_def q_def)
      then have "2 powi q * 2 ^ 52 = (2::rat) powi floor_log2 y"
        by (simp add: power_int_diff)
      also have "\<dots> \<le> y" using floor_log2_bounds [OF y] by simp
      finally show ?thesis by (simp add: le_divide_eq mult.commute)
    qed
    have "round_half_even (x / 2 powi p) \<le> 2 ^ 53"
      using round_half_even_mono [OF less_imp_le [OF x_hi]] by (simp only: round_half_even_of_int)
    moreover have "2 ^ 52 \<le> round_half_even (y / 2 powi q)"
      using round_half_even_mono [OF y_lo] by (simp only: round_half_even_of_int)
    ultimately show ?thesis using lt by simp
  qed
  then show ?thesis
    using True y unfolding round_mag_def p_def [symmetric] q_def [symmetric] Let_def
    by (auto intro!: min.mono nat_mono)
qed

lemma round_mag_le_inf: "round_mag x \<le> f64_inf_mag"
  by (simp add: round_mag_def Let_def)

section \<open>Values are monotone\<close>

lemma mag_value_nonneg: "0 \<le> mag_value n"
  by (simp add: mag_value_def Let_def)

lemma mag_value_mono:
  assumes "m \<le> n"
  shows "mag_value m \<le> mag_value n"
proof -
  let ?e = "\<lambda>k::nat. k div 2 ^ 52" and ?f = "\<lambda>k::nat. k mod 2 ^ 52"
  have e: "?e m \<le> ?e n" using assms by (rule div_le_mono)
  show ?thesis
  proof (cases "?e m = ?e n")
    case True
    have "?e m * 2 ^ 52 + ?f m = m" "?e n * 2 ^ 52 + ?f n = n" by (rule div_mult_mod_eq)+
    then have "?f m \<le> ?f n" using True assms by (metis add_le_cancel_left)
    then have "(of_nat (?f m) :: rat) \<le> of_nat (?f n)" by (simp only: of_nat_le_iff)
    then show ?thesis using True by (auto simp: mag_value_def Let_def intro!: mult_right_mono)
  next
    case False
    with e have lt: "?e m < ?e n" by simp
    have f: "?f m < 2 ^ 52" by simp
    then have "(of_nat (?f m) :: rat) < of_nat (2 ^ 52)" by (simp only: of_nat_less_iff)
    then have fr: "(of_nat (?f m) :: rat) \<le> 2 ^ 52" by simp
    have step: "mag_value m \<le> 2 ^ 52 * 2 powi (int (Suc (?e m)) - 1075)"
    proof (cases "?e m = 0")
      case True
      then show ?thesis using fr by (simp add: mag_value_def Let_def)
    next
      case False
      have "(of_nat (2 ^ 52 + ?f m) :: rat) \<le> 2 ^ 53" using fr by simp
      then have "mag_value m \<le> 2 ^ 53 * 2 powi (int (?e m) - 1075)"
        using False by (simp only: mag_value_def Let_def if_False) (intro mult_right_mono, auto)
      also have "\<dots> = 2 ^ 52 * 2 powi (int (Suc (?e m)) - 1075)"
        by (simp add: power_int_add [of 2 1 "int (?e m) - 1075", simplified] algebra_simps)
      finally show ?thesis .
    qed
    have "(2::rat) powi (int (Suc (?e m)) - 1075) \<le> 2 powi (int (?e n) - 1075)"
      using lt by (intro power_int_increasing) auto
    then have "2 ^ 52 * 2 powi (int (Suc (?e m)) - 1075) \<le> 2 ^ 52 * (2::rat) powi (int (?e n) - 1075)"
      by (intro mult_left_mono) auto
    also have "\<dots> \<le> mag_value n"
      using lt by (simp add: mag_value_def Let_def distrib_right)
    finally show ?thesis using step by linarith
  qed
qed

section \<open>Ranges of results\<close>

definition f64_between :: "rat \<Rightarrow> f64 \<Rightarrow> bool" where
  "f64_between b a = (f64_is_finite a \<and> 0 \<le> f64_value a \<and> f64_value a \<le> b)"

lemma f64_make_props:
  assumes "m < 2 ^ 63"
  shows "f64_neg (f64_make s m) = s" "f64_mag (f64_make s m) = m"
proof -
  have "unat (of_nat (if s then m + 2 ^ 63 else m) :: 64 word) = (if s then m + 2 ^ 63 else m)"
    using assms by (auto simp: unat_of_nat)
  then show "f64_neg (f64_make s m) = s" "f64_mag (f64_make s m) = m"
    using assms by (auto simp: f64_make_def f64_neg_def f64_mag_def)
qed

lemma f64_round_between:
  assumes "0 \<le> x" "x \<le> b" "round_mag b < f64_inf_mag" "mag_value (round_mag b) = b"
  shows "f64_between b (f64_round s x)"
proof -
  have lt: "round_mag y < 2 ^ 63" for y
    using round_mag_le_inf [of y] by (simp add: f64_inf_mag_def)
  show ?thesis
  proof (cases "x = 0")
    case True
    then show ?thesis using assms(1,2)
      by (simp add: f64_between_def f64_round_def f64_is_finite_def f64_value_def f64_make_props
          f64_inf_mag_def mag_value_def)
  next
    case False
    with assms(1) have "f64_round s x = f64_make False (round_mag x)" by (simp add: f64_round_def)
    moreover have "round_mag x \<le> round_mag b" by (rule round_mag_mono) (rule assms(2))
    ultimately show ?thesis
      using assms(3,4) lt [of x] mag_value_mono [of "round_mag x" "round_mag b"]
      by (simp add: f64_between_def f64_is_finite_def f64_value_def f64_make_props mag_value_nonneg)
  qed
qed

lemma f64_between_finite:
  "f64_between b a \<Longrightarrow> \<not> f64_is_nan a \<and> \<not> f64_is_infinite a"
  by (auto simp: f64_between_def f64_is_finite_def f64_is_nan_def f64_is_infinite_def)

lemma f64_mul_between:
  assumes "f64_between a x" "f64_between b y" "round_mag (a * b) < f64_inf_mag"
    "mag_value (round_mag (a * b)) = a * b"
  shows "f64_between (a * b) (f64_mul x y)"
proof -
  have "f64_mul x y = f64_round (f64_neg x \<noteq> f64_neg y) (f64_value x * f64_value y)"
    using f64_between_finite [OF assms(1)] f64_between_finite [OF assms(2)] by (simp add: f64_mul_def Let_def)
  moreover have "f64_value x * f64_value y \<le> a * b"
    using assms(1,2) by (intro mult_mono) (auto simp: f64_between_def)
  ultimately show ?thesis
    using assms by (simp add: f64_round_between f64_between_def [of _ x] f64_between_def [of _ y])
qed

lemma f64_div_between:
  assumes "f64_between a x" "f64_is_finite y" "f64_mag y \<noteq> 0" "0 < f64_value y"
    "f64_value x \<le> b * f64_value y" "round_mag b < f64_inf_mag" "mag_value (round_mag b) = b"
  shows "f64_between b (f64_div x y)"
proof -
  have "f64_div x y = f64_round (f64_neg x \<noteq> f64_neg y) (f64_value x / f64_value y)"
    using f64_between_finite [OF assms(1)] assms(2,3)
    by (auto simp: f64_div_def Let_def f64_is_finite_def f64_is_nan_def f64_is_infinite_def)
  moreover have "f64_value x / f64_value y \<le> b" using assms(4,5) by (simp add: divide_le_eq)
  moreover have "0 \<le> f64_value x / f64_value y" using assms(1,4) by (simp add: f64_between_def)
  ultimately show ?thesis using assms(6,7) by (simp add: f64_round_between)
qed

lemma floor_log2_eqI:
  assumes "2 powi k \<le> x" "x < 2 powi (k + 1)"
  shows "floor_log2 x = k"
proof -
  have x: "0 < x" using assms(1) by (rule less_le_trans [rotated]) simp
  have lt: "(2::rat) powi floor_log2 x < 2 powi (k + 1)" "(2::rat) powi k < 2 powi (floor_log2 x + 1)"
    using floor_log2_bounds [OF x] assms by linarith+
  have up: "a < b" if "(2::rat) powi a < 2 powi b" for a b :: int
    using that power_int_increasing [of b a "2::rat"] by (cases "a < b") auto
  show ?thesis using up [OF lt(1)] up [OF lt(2)] by simp
qed

lemma round_mag_exact:
  assumes "x = of_int m * 2 powi q" "2 ^ 52 \<le> m" "m < 2 ^ 53" "- 1074 \<le> q"
  shows "round_mag x = min f64_inf_mag (nat ((q + 1074) * 2 ^ 52 + m))"
proof -
  have m: "(2::rat) ^ 52 \<le> of_int m" "of_int m < (2::rat) ^ 53"
  proof -
    have "(of_int (2 ^ 52) :: rat) \<le> of_int m" using assms(2) by (simp only: of_int_le_iff)
    then show "(2::rat) ^ 52 \<le> of_int m" by simp
    have "(of_int m :: rat) < of_int (2 ^ 53)" using assms(3) by (simp only: of_int_less_iff)
    then show "of_int m < (2::rat) ^ 53" by simp
  qed
  have "2 powi (q + 52) \<le> x" "x < 2 powi (q + 52 + 1)"
    unfolding assms(1) using m by (simp_all add: power_int_add)
  then have fl: "floor_log2 x = q + 52" by (rule floor_log2_eqI)
  have "0 < x" unfolding assms(1) using assms(2) by simp
  moreover have "x / 2 powi q = of_int m" unfolding assms(1) by simp
  ultimately show ?thesis
    unfolding round_mag_def fl using assms(4) by (simp add: Let_def)
qed

lemma round_mag_one: "round_mag 1 = 0x3FF0000000000000"
  using round_mag_exact [of 1 "2 ^ 52" "- 52"] by (simp add: f64_inf_mag_def power_int_minus)

lemma round_mag_hundred: "round_mag 100 = 0x4059000000000000"
  using round_mag_exact [of 100 "100 * 2 ^ 46" "- 46"] by (simp add: f64_inf_mag_def power_int_minus)

lemma round_mag_u128: "round_mag (2 ^ 128) < f64_inf_mag"
  using round_mag_exact [of "2 ^ 128" "2 ^ 52" 76] by (simp add: f64_inf_mag_def)

lemma mag_value_one: "mag_value 0x3FF0000000000000 = 1"
  by (simp add: mag_value_def power_int_minus)

lemma mag_value_hundred: "mag_value 0x4059000000000000 = 100"
  by (simp add: mag_value_def power_int_minus)

lemma round_mag_ten_thousand: "round_mag 10000 = 0x40C3880000000000"
  using round_mag_exact [of 10000 "10000 * 2 ^ 39" "- 39"] by (simp add: f64_inf_mag_def power_int_minus)

lemma mag_value_ten_thousand: "mag_value 0x40C3880000000000 = 10000"
  by (simp add: mag_value_def power_int_minus)

lemmas exact_mags = round_mag_one round_mag_hundred round_mag_ten_thousand mag_value_one
  mag_value_hundred mag_value_ten_thousand f64_inf_mag_def

lemma f64_hundred_props:
  "\<not> f64_neg f64_hundred" "f64_mag f64_hundred = 0x4059000000000000" "f64_value f64_hundred = 100"
  "f64_is_finite f64_hundred"
  by (simp_all add: f64_neg_def f64_mag_def f64_value_def mag_value_hundred f64_is_finite_def f64_inf_mag_def)

lemma f64_between_hundred: "f64_between 100 f64_hundred"
  by (simp add: f64_between_def f64_hundred_props)

lemma f64_between_zero: "0 \<le> b \<Longrightarrow> f64_between b f64_zero"
  by (simp add: f64_between_def f64_is_finite_def f64_value_def f64_neg_def f64_mag_def f64_inf_mag_def
      mag_value_def)

definition f64_percent :: "nat \<Rightarrow> nat \<Rightarrow> f64" where
  "f64_percent part whole = f64_mul (f64_div (f64_of_nat part) (f64_of_nat whole)) f64_hundred"

lemma f64_of_nat_props:
  "\<not> f64_neg (f64_of_nat n)" "f64_mag (f64_of_nat n) = round_mag (of_nat n)"
  "f64_value (f64_of_nat n) = mag_value (round_mag (of_nat n))"
proof -
  have lt: "round_mag (of_nat n) < 2 ^ 63"
    using round_mag_le_inf [of "of_nat n"] by (simp add: f64_inf_mag_def)
  have "f64_of_nat n = f64_make False (round_mag (of_nat n))"
    by (simp add: f64_of_nat_def f64_round_def round_mag_def)
  with lt show "\<not> f64_neg (f64_of_nat n)" "f64_mag (f64_of_nat n) = round_mag (of_nat n)"
    "f64_value (f64_of_nat n) = mag_value (round_mag (of_nat n))"
    by (simp_all add: f64_make_props f64_value_def)
qed

lemma f64_percent_range:
  assumes "part \<le> whole" "0 < whole" "whole < 2 ^ 128"
  shows "f64_between 100 (f64_percent part whole)"
proof -
  let ?a = "f64_of_nat part" and ?b = "f64_of_nat whole"
  have mono: "(of_nat k :: rat) \<le> of_nat l" if "k \<le> l" for k l :: nat
    using that by (simp only: of_nat_le_iff)
  have ab: "f64_mag ?a \<le> f64_mag ?b"
    using assms(1) by (simp add: f64_of_nat_props round_mag_mono)
  have "round_mag (of_nat whole) \<le> round_mag (2 ^ 128)"
    using mono [of whole "2 ^ 128"] assms(3) by (intro round_mag_mono) simp
  then have fin: "f64_mag ?b < f64_inf_mag"
    using round_mag_u128 by (simp add: f64_of_nat_props)
  have "round_mag 1 \<le> f64_mag ?b"
    using mono [of 1 whole] assms(2) unfolding f64_of_nat_props by (intro round_mag_mono) simp
  then have pos: "0x3FF0000000000000 \<le> f64_mag ?b" by (simp add: round_mag_one)
  have b1: "1 \<le> f64_value ?b"
    using mag_value_mono [OF pos] by (simp add: f64_of_nat_props mag_value_one)
  have bt: "f64_between (f64_value ?b) ?a"
    using mag_value_mono [OF ab] ab fin
    by (simp add: f64_between_def f64_is_finite_def f64_of_nat_props mag_value_nonneg)
  have "f64_between 1 (f64_div ?a ?b)"
    by (rule f64_div_between [OF bt])
      (use fin pos b1 bt in \<open>auto simp: f64_is_finite_def f64_between_def exact_mags\<close>)
  then show ?thesis
    using f64_mul_between [OF _ f64_between_hundred, of 1] by (simp add: f64_percent_def exact_mags)
qed

text \<open>\<open>clamp(0.0, 100.0)\<close> of any value that is not NaN is a percentage.\<close>

lemma f64_clamp_range:
  assumes "\<not> f64_is_nan a"
  shows "f64_between 100 (f64_clamp f64_zero f64_hundred a)"
proof -
  have z: "\<not> f64_is_nan f64_zero" "f64_ord_value f64_zero = 0"
    and h: "\<not> f64_is_nan f64_hundred" "f64_ord_value f64_hundred = 100"
    using f64_between_finite [OF f64_between_zero [of 0]] f64_between_finite [OF f64_between_hundred]
      f64_between_zero [of 0]
    by (simp_all add: f64_ord_value_def f64_hundred_props f64_between_def)
  have "f64_between 100 a" if "0 \<le> f64_ord_value a" "f64_ord_value a \<le> 100"
  proof -
    have "\<not> f64_is_infinite a" using that by (auto simp: f64_ord_value_def split: if_splits)
    then show ?thesis
      using that assms by (simp add: f64_between_def f64_ord_value_def f64_is_finite_def f64_is_nan_def
          f64_is_infinite_def)
  qed
  then show ?thesis
    using assms z h f64_between_zero [of 100] f64_between_hundred
    by (auto simp: f64_clamp_def f64_less_def Let_def not_less)
qed

text \<open>A percentage of a percentage.\<close>

lemma f64_scaled_percent_range:
  assumes "f64_between 100 x" "f64_between 100 y"
  shows "f64_between 100 (f64_div (f64_mul x y) f64_hundred)"
proof -
  have m: "f64_between 10000 (f64_mul x y)"
    using f64_mul_between [OF assms] by (simp add: exact_mags)
  show ?thesis
    by (rule f64_div_between [OF m]) (use m in \<open>auto simp: f64_hundred_props f64_between_def exact_mags\<close>)
qed

end
