(* ===== verification/Domain.thy ===== *)
theory Domain
  imports Ordered_Map Float64
begin

text \<open>
  The data model of \<open>src/domain.rs\<close>: token usage, API cost amounts, limits, tasks,
  turns, window analyses and rollout calls, with the operations on them.  The lemmas
  show that token usage and cost amounts form commutative monoids under their
  saturating \<open>add_assign\<close>, that the checked deltas invert it, that the breakdown
  invariant of a token usage is kept, and that the decimal-string encoding of
  \<open>PicoUsd\<close> is a round trip.
\<close>

section \<open>Encoding of 128-bit integers as decimal strings\<close>

(* domain.rs:10-15 u128_string::serialize *)
definition u128_serialize :: "u128 \<Rightarrow> string" where
  "u128_serialize v = show_nat (unat v)"

(* domain.rs:17-23 u128_string::deserialize *)
definition u128_deserialize :: "string \<Rightarrow> u128 option" where
  "u128_deserialize s = parse_unsigned s"

section \<open>Enumerations\<close>

(* domain.rs:26-34 Confidence *)
datatype confidence = High | Medium | Low | ConfidenceUnknown

(* domain.rs:37-45 Confidence::combine *)
fun confidence_combine :: "confidence \<Rightarrow> confidence \<Rightarrow> confidence" where
  "confidence_combine ConfidenceUnknown v = v"
| "confidence_combine v ConfidenceUnknown = v"
| "confidence_combine Low _ = Low"
| "confidence_combine _ Low = Low"
| "confidence_combine Medium _ = Medium"
| "confidence_combine _ Medium = Medium"
| "confidence_combine High High = High"

(* domain.rs:48-58 Provenance *)
datatype provenance = Live | ServerSnapshot | LocalExact | Inferred | Estimated
  | ProvenanceStale | ProvenanceUnknown

(* domain.rs:60-72 TaskStatus *)
datatype task_status = TaskRunning | WaitingApproval | WaitingInput | TaskIdle | TaskCompleted
  | TaskInterrupted | TaskFailed | TaskStale | TaskUnknown

(* domain.rs:75-80 TaskStatus::is_active *)
fun task_is_active :: "task_status \<Rightarrow> bool" where
  "task_is_active TaskRunning = True"
| "task_is_active WaitingApproval = True"
| "task_is_active WaitingInput = True"
| "task_is_active _ = False"

(* domain.rs:82-94 TaskStatus::label *)
fun task_status_label :: "task_status \<Rightarrow> string" where
  "task_status_label TaskRunning = ''RUN''"
| "task_status_label WaitingApproval = ''APPROVAL''"
| "task_status_label WaitingInput = ''INPUT''"
| "task_status_label TaskIdle = ''IDLE''"
| "task_status_label TaskCompleted = ''DONE''"
| "task_status_label TaskInterrupted = ''STOPPED''"
| "task_status_label TaskFailed = ''FAILED''"
| "task_status_label TaskStale = ''STALE''"
| "task_status_label TaskUnknown = ''UNKNOWN''"

(* domain.rs:97-107 TurnStatus *)
datatype turn_status = TurnInProgress | TurnCompleted | TurnInterrupted | TurnFailed
  | TurnStale | TurnUnknown

(* domain.rs:110-119 TurnStatus::label *)
fun turn_status_label :: "turn_status \<Rightarrow> string" where
  "turn_status_label TurnInProgress = ''in_progress''"
| "turn_status_label TurnCompleted = ''completed''"
| "turn_status_label TurnInterrupted = ''interrupted''"
| "turn_status_label TurnFailed = ''failed''"
| "turn_status_label TurnStale = ''stale''"
| "turn_status_label TurnUnknown = ''unknown''"

section \<open>Token usage\<close>

(* domain.rs:122-135 TokenUsage *)
record token_usage =
  input_tokens :: u64
  cached_input_tokens :: u64
  cache_write_input_tokens :: u64
  output_tokens :: u64
  reasoning_output_tokens :: u64
  unclassified_tokens :: u64
  total_tokens :: u64

(* domain.rs:122-122 TokenUsage::default *)
definition token_usage_default :: token_usage where
  "token_usage_default = \<lparr>input_tokens = 0, cached_input_tokens = 0, cache_write_input_tokens = 0,
    output_tokens = 0, reasoning_output_tokens = 0, unclassified_tokens = 0, total_tokens = 0\<rparr>"

(* domain.rs:138-144 TokenUsage::unclassified *)
definition unclassified :: "token_usage \<Rightarrow> u64" where
  "unclassified u =
    (if input_tokens u = 0 \<and> output_tokens u = 0 \<and> unclassified_tokens u = 0
     then total_tokens u else unclassified_tokens u)"

(* domain.rs:146-155 TokenUsage::has_valid_breakdown *)
definition has_valid_breakdown :: "token_usage \<Rightarrow> bool" where
  "has_valid_breakdown u =
    (cached_input_tokens u \<le> input_tokens u
     \<and> cache_write_input_tokens u \<le> input_tokens u
     \<and> reasoning_output_tokens u \<le> output_tokens u
     \<and> Option.bind (checked_add (input_tokens u) (output_tokens u))
         (\<lambda>known. checked_add known (unclassified u)) = Some (total_tokens u))"

(* domain.rs:157-171 TokenUsage::add_assign *)
definition token_add_assign :: "token_usage \<Rightarrow> token_usage \<Rightarrow> token_usage" where
  "token_add_assign u v =
    \<lparr>input_tokens = sat_add (input_tokens u) (input_tokens v),
     cached_input_tokens = sat_add (cached_input_tokens u) (cached_input_tokens v),
     cache_write_input_tokens = sat_add (cache_write_input_tokens u) (cache_write_input_tokens v),
     output_tokens = sat_add (output_tokens u) (output_tokens v),
     reasoning_output_tokens = sat_add (reasoning_output_tokens u) (reasoning_output_tokens v),
     unclassified_tokens = sat_add (unclassified u) (unclassified v),
     total_tokens = sat_add (total_tokens u) (total_tokens v)\<rparr>"

(* domain.rs:173-181 TokenUsage::is_zero *)
definition token_is_zero :: "token_usage \<Rightarrow> bool" where
  "token_is_zero u = (total_tokens u = 0 \<and> input_tokens u = 0 \<and> cached_input_tokens u = 0
    \<and> cache_write_input_tokens u = 0 \<and> output_tokens u = 0 \<and> reasoning_output_tokens u = 0
    \<and> unclassified_tokens u = 0)"

(* domain.rs:183-206 TokenUsage::delta_from *)
definition delta_from :: "token_usage \<Rightarrow> token_usage \<Rightarrow> token_usage option" where
  "delta_from u previous =
    (if input_tokens u < input_tokens previous
        \<or> cached_input_tokens u < cached_input_tokens previous
        \<or> cache_write_input_tokens u < cache_write_input_tokens previous
        \<or> output_tokens u < output_tokens previous
        \<or> reasoning_output_tokens u < reasoning_output_tokens previous
        \<or> total_tokens u < total_tokens previous
        \<or> unclassified u < unclassified previous
     then None
     else Some \<lparr>input_tokens = input_tokens u - input_tokens previous,
       cached_input_tokens = cached_input_tokens u - cached_input_tokens previous,
       cache_write_input_tokens = cache_write_input_tokens u - cache_write_input_tokens previous,
       output_tokens = output_tokens u - output_tokens previous,
       reasoning_output_tokens = reasoning_output_tokens u - reasoning_output_tokens previous,
       unclassified_tokens = unclassified u - unclassified previous,
       total_tokens = total_tokens u - total_tokens previous\<rparr>)"

section \<open>API-equivalent cost\<close>

(* domain.rs:209-225 PicoUsd *)
type_synonym pico_usd = u128

(* domain.rs:227-244 ApiCostAmount *)
record api_cost_amount =
  minimum_pico_usd :: pico_usd
  maximum_pico_usd :: pico_usd
  observed_samples :: u64
  priced_samples :: u64
  observed_tokens :: u64
  priced_tokens :: u64

(* domain.rs:233-233 ApiCostAmount::default *)
definition api_cost_default :: api_cost_amount where
  "api_cost_default = \<lparr>minimum_pico_usd = 0, maximum_pico_usd = 0, observed_samples = 0,
    priced_samples = 0, observed_tokens = 0, priced_tokens = 0\<rparr>"

(* domain.rs:247-260 ApiCostAmount::add_assign *)
definition cost_add_assign :: "api_cost_amount \<Rightarrow> api_cost_amount \<Rightarrow> api_cost_amount" where
  "cost_add_assign a b =
    \<lparr>minimum_pico_usd = sat_add (minimum_pico_usd a) (minimum_pico_usd b),
     maximum_pico_usd = sat_add (maximum_pico_usd a) (maximum_pico_usd b),
     observed_samples = sat_add (observed_samples a) (observed_samples b),
     priced_samples = sat_add (priced_samples a) (priced_samples b),
     observed_tokens = sat_add (observed_tokens a) (observed_tokens b),
     priced_tokens = sat_add (priced_tokens a) (priced_tokens b)\<rparr>"

(* domain.rs:262-285 ApiCostAmount::checked_delta_from *)
definition checked_delta_from :: "api_cost_amount \<Rightarrow> api_cost_amount \<Rightarrow> api_cost_amount option" where
  "checked_delta_from a older =
    Option.bind (checked_sub (minimum_pico_usd a) (minimum_pico_usd older)) (\<lambda>mn.
    Option.bind (checked_sub (maximum_pico_usd a) (maximum_pico_usd older)) (\<lambda>mx.
    Option.bind (checked_sub (observed_samples a) (observed_samples older)) (\<lambda>os.
    Option.bind (checked_sub (priced_samples a) (priced_samples older)) (\<lambda>ps.
    Option.bind (checked_sub (observed_tokens a) (observed_tokens older)) (\<lambda>ot.
    Option.bind (checked_sub (priced_tokens a) (priced_tokens older)) (\<lambda>pt.
      Some \<lparr>minimum_pico_usd = mn, maximum_pico_usd = mx, observed_samples = os,
        priced_samples = ps, observed_tokens = ot, priced_tokens = pt\<rparr>))))))"

(* domain.rs:287-304 ApiCostAmount::componentwise_max *)
definition componentwise_max :: "api_cost_amount \<Rightarrow> api_cost_amount \<Rightarrow> api_cost_amount" where
  "componentwise_max a b =
    \<lparr>minimum_pico_usd = max (minimum_pico_usd a) (minimum_pico_usd b),
     maximum_pico_usd = max (maximum_pico_usd a) (maximum_pico_usd b),
     observed_samples = max (observed_samples a) (observed_samples b),
     priced_samples = max (priced_samples a) (priced_samples b),
     observed_tokens = max (observed_tokens a) (observed_tokens b),
     priced_tokens = max (priced_tokens a) (priced_tokens b)\<rparr>"

(* domain.rs:306-308 ApiCostAmount::is_zero *)
definition cost_is_zero :: "api_cost_amount \<Rightarrow> bool" where
  "cost_is_zero a = (a = api_cost_default)"

(* domain.rs:310-312 ApiCostAmount::range_is_exact *)
definition range_is_exact :: "api_cost_amount \<Rightarrow> bool" where
  "range_is_exact a = (minimum_pico_usd a = maximum_pico_usd a)"

(* domain.rs:314-316 ApiCostAmount::has_priced_usage *)
definition has_priced_usage :: "api_cost_amount \<Rightarrow> bool" where
  "has_priced_usage a = (0 < priced_samples a)"

(* domain.rs:318-328 ApiCostAmount::priced_token_percent *)
definition priced_token_percent :: "api_cost_amount \<Rightarrow> f64" where
  "priced_token_percent a =
    (if observed_tokens a = 0 then
       (if observed_samples a = 0 then f64_hundred
        else f64_percent (unat (priced_samples a)) (unat (observed_samples a)))
     else f64_percent (unat (priced_tokens a)) (unat (observed_tokens a)))"

(* domain.rs:331-337 ApiModelCost *)
record api_model_cost =
  mc_model :: string
  mc_amount :: api_cost_amount

(* domain.rs:339-350 ApiEquivalentCost *)
record api_equivalent_cost =
  ec_amount :: api_cost_amount
  ec_partial_reasons :: "string list"
  ec_model_breakdown :: "api_model_cost list"

(* domain.rs:353-357 ApiEquivalentCost::is_partial *)
definition cost_is_partial :: "api_equivalent_cost \<Rightarrow> bool" where
  "cost_is_partial c =
    (priced_samples (ec_amount c) < observed_samples (ec_amount c)
     \<or> priced_tokens (ec_amount c) < observed_tokens (ec_amount c)
     \<or> ec_partial_reasons c \<noteq> [])"

(* domain.rs:359-361 ApiEquivalentCost::is_fully_exact *)
definition is_fully_exact :: "api_equivalent_cost \<Rightarrow> bool" where
  "is_fully_exact c = (\<not> cost_is_partial c \<and> range_is_exact (ec_amount c))"

(* domain.rs:364-371 ApiPricingMetadata *)
record api_pricing_metadata =
  pm_catalog_revision :: u32
  pm_rates_as_of :: string
  pm_source_url :: string
  pm_basis :: string

section \<open>Limits\<close>

(* domain.rs:373-380 LimitWindow *)
record limit_window =
  lw_used_percent :: f64
  lw_remaining_percent :: f64
  lw_window_duration_mins :: "int option"
  lw_resets_at :: "datetime option"

(* domain.rs:383-394 LimitWindow::new *)
definition limit_window_new :: "f64 \<Rightarrow> int option \<Rightarrow> datetime option \<Rightarrow> limit_window" where
  "limit_window_new used_percent duration resets_at =
    \<lparr>lw_used_percent = used_percent,
     lw_remaining_percent = f64_clamp f64_zero f64_hundred (f64_sub f64_hundred used_percent),
     lw_window_duration_mins = duration, lw_resets_at = resets_at\<rparr>"

definition show_int :: "int \<Rightarrow> string" where
  "show_int i = (if i < 0 then CHR ''-'' # show_nat (nat (- i)) else show_nat (nat i))"

(* domain.rs:396-403 LimitWindow::label *)
definition limit_window_label :: "limit_window \<Rightarrow> string" where
  "limit_window_label w = (case lw_window_duration_mins w of
      Some m \<Rightarrow> (if m = 300 then ''5h'' else if m = 10080 then ''week'' else show_int m @ ''m'')
    | None \<Rightarrow> ''window'')"

(* domain.rs:406-412 CreditsSnapshot *)
record credits_snapshot =
  cs_has_credits :: bool
  cs_unlimited :: bool
  cs_balance :: "string option"

(* domain.rs:433-444 RateLimitResetCredit *)
record rate_limit_reset_credit =
  rc_granted_at :: datetime
  rc_expires_at :: "datetime option"
  rc_status :: string
  rc_reset_type :: string
  rc_title :: "string option"
  rc_description :: "string option"

(* domain.rs:414-423 RateLimitResetCreditsSnapshot *)
record reset_credits_snapshot =
  rs_available_count :: u64
  rs_credits :: "rate_limit_reset_credit list option"
  rs_provenance :: provenance
  rs_as_of :: datetime

(* domain.rs:426-430 RateLimitResetCreditsSnapshot::details_are_truncated *)
definition details_are_truncated :: "reset_credits_snapshot \<Rightarrow> bool" where
  "details_are_truncated s = (case rs_credits s of
      Some credits \<Rightarrow> length credits < unat (rs_available_count s)
    | None \<Rightarrow> False)"

(* domain.rs:446-458 LimitBucket *)
record limit_bucket =
  lb_limit_id :: string
  lb_limit_name :: "string option"
  lb_plan_type :: "string option"
  lb_primary :: "limit_window option"
  lb_secondary :: "limit_window option"
  lb_credits :: "credits_snapshot option"
  lb_rate_limit_reached_type :: "string option"
  lb_provenance :: provenance
  lb_as_of :: datetime

section \<open>Tasks, turns and window analyses\<close>

(* domain.rs:478-504 TaskRecord *)
record task_record =
  tr_thread_id :: string
  tr_parent_thread_id :: "string option"
  tr_archived :: bool
  tr_title :: string
  tr_cwd :: "string option"
  tr_source :: "string option"
  tr_created_at :: "datetime option"
  tr_updated_at :: "datetime option"
  tr_status :: task_status
  tr_status_provenance :: provenance
  tr_status_confidence :: confidence
  tr_token_usage :: token_usage
  tr_turn_count :: nat
  tr_window_token_usage :: token_usage
  tr_local_token_share_percent :: f64
  tr_estimated_quota_percent :: f64
  tr_quota_confidence :: confidence
  tr_api_equivalent_cost :: "api_cost_amount option"

(* domain.rs:506-530 TurnRecord *)
record turn_record =
  tn_thread_id :: string
  tn_turn_id :: string
  tn_model :: "string option"
  tn_reasoning_effort :: "string option"
  tn_service_tier :: "string option"
  tn_message_preview :: "string option"
  tn_started_at :: "datetime option"
  tn_completed_at :: "datetime option"
  tn_duration_ms :: "u64 option"
  tn_status :: turn_status
  tn_token_usage :: token_usage
  tn_window_token_usage :: token_usage
  tn_local_token_share_percent :: f64
  tn_estimated_quota_percent :: f64
  tn_quota_confidence :: confidence
  tn_api_equivalent_cost :: "api_cost_amount option"

(* domain.rs:780-785 is_fast_service_tier *)
definition is_fast_service_tier :: "string option \<Rightarrow> bool" where
  "is_fast_service_tier tier = (case tier of
      None \<Rightarrow> False
    | Some t \<Rightarrow> eq_ignore_ascii_case (trim t) ''fast'' \<or> eq_ignore_ascii_case (trim t) ''priority'')"

(* domain.rs:533-535 TurnRecord::is_fast *)
definition turn_is_fast :: "turn_record \<Rightarrow> bool" where
  "turn_is_fast t = is_fast_service_tier (tn_service_tier t)"

(* domain.rs:591-601 ModelUsage *)
record model_usage =
  mu_model :: string
  mu_token_usage :: token_usage
  mu_local_token_share_percent :: f64
  mu_estimated_quota_percent :: f64
  mu_quota_confidence :: confidence
  mu_api_equivalent_cost :: api_cost_amount

(* domain.rs:603-611 WindowDescriptor *)
record window_descriptor =
  wd_limit_id :: string
  wd_label :: string
  wd_starts_at :: datetime
  wd_ends_at :: datetime
  wd_used_percent :: f64

(* domain.rs:613-631 AttributionSummary *)
record attribution_summary =
  as_window :: "window_descriptor option"
  as_local_token_usage :: token_usage
  as_observed_delta_percent :: f64
  as_estimated_assigned_percent :: f64
  as_proxy_projected_percent :: f64
  as_unattributed_percent :: f64
  as_attribution_coverage_percent :: f64
  as_external_activity_possible :: bool
  as_confidence :: confidence
  as_method :: string
  as_settled :: bool

(* domain.rs:633-649 AttributionSummary::default *)
definition attribution_summary_default :: attribution_summary where
  "attribution_summary_default = \<lparr>as_window = None, as_local_token_usage = token_usage_default,
    as_observed_delta_percent = f64_zero, as_estimated_assigned_percent = f64_zero,
    as_proxy_projected_percent = f64_zero, as_unattributed_percent = f64_zero,
    as_attribution_coverage_percent = f64_zero, as_external_activity_possible = False,
    as_confidence = ConfidenceUnknown, as_method = ''unavailable'', as_settled = False\<rparr>"

(* domain.rs:651-660 WindowUsage *)
record window_usage =
  wu_token_usage :: token_usage
  wu_local_token_share_percent :: f64
  wu_estimated_quota_percent :: f64
  wu_quota_confidence :: confidence
  wu_api_equivalent_cost :: api_cost_amount

(* domain.rs:662-667 ThreadWindowUsage *)
record thread_window_usage =
  thu_thread_id :: string
  thu_usage :: window_usage

(* domain.rs:669-675 TurnWindowUsage *)
record turn_window_usage =
  tnu_thread_id :: string
  tnu_turn_id :: string
  tnu_usage :: window_usage

(* domain.rs:677-697 WindowAnalysis *)
datatype window_analysis = WindowAnalysis
  (wa_duration_mins: int)
  (wa_attribution: attribution_summary)
  (wa_partial: bool)
  (wa_partial_reasons: "string list")
  (wa_threads: "thread_window_usage list")
  (wa_turns: "turn_window_usage list")
  (wa_models: "model_usage list")
  (wa_api_equivalent_cost: api_equivalent_cost)
  (wa_api_pricing: api_pricing_metadata)
  (wa_api_long_context: "window_analysis option")

section \<open>Rollout calls\<close>

(* domain.rs:751-772 UsageCall *)
record usage_call =
  uc_timestamp :: datetime
  uc_thread_id :: string
  uc_turn_id :: "string option"
  uc_usage_event_id :: "string option"
  uc_usage_event_identity_exact :: bool
  uc_model :: "string option"
  uc_service_tier :: "string option"
  uc_tokens :: token_usage
  uc_request_usage_exact :: bool

(* domain.rs:775-777 UsageCall::is_fast *)
definition call_is_fast :: "usage_call \<Rightarrow> bool" where
  "call_is_fast c = is_fast_service_tier (uc_service_tier c)"

(* domain.rs:787-796 RateObservation *)
record rate_observation =
  ro_timestamp :: datetime
  ro_thread_id :: string
  ro_turn_id :: "string option"
  ro_limit_id :: string
  ro_primary :: "limit_window option"
  ro_secondary :: "limit_window option"
  ro_provenance :: provenance

(* domain.rs:822-832 aggregate_tokens_by_model *)
definition aggregate_tokens_by_model :: "usage_call list \<Rightarrow> (string, token_usage) btree" where
  "aggregate_tokens_by_model calls =
    fold (\<lambda>c. bt_update (case uc_model c of Some m \<Rightarrow> m | None \<Rightarrow> ''unknown'') token_usage_default
      (\<lambda>u. token_add_assign u (uc_tokens c))) calls []"

(* domain.rs:847-852 is_bidi_control *)
definition is_bidi_control :: "string \<Rightarrow> bool" where
  "is_bidi_control g = (case List.map byte g of
      [a, b] \<Rightarrow> a = 0xD8 \<and> b = 0x9C
    | [a, b, c] \<Rightarrow> a = 0xE2 \<and>
        ((b = 0x80 \<and> (c = 0x8E \<or> c = 0x8F \<or> (0xAA \<le> c \<and> c \<le> 0xAE)))
         \<or> (b = 0x81 \<and> 0xA6 \<le> c \<and> c \<le> 0xA9))
    | _ \<Rightarrow> False)"

(* domain.rs:834-845 terminal_safe_text *)
definition terminal_safe_text :: "string \<Rightarrow> string" where
  "terminal_safe_text s =
    concat (List.map (\<lambda>g. if char_is_control g \<or> is_bidi_control g then '' '' else g) (utf8_chars s))"

section \<open>Lemmas\<close>

lemma has_valid_breakdown_iff:
  "has_valid_breakdown u \<longleftrightarrow>
    cached_input_tokens u \<le> input_tokens u \<and> cache_write_input_tokens u \<le> input_tokens u
    \<and> reasoning_output_tokens u \<le> output_tokens u
    \<and> unat (total_tokens u) = unat (input_tokens u) + unat (output_tokens u) + unat (unclassified u)"
proof -
  have "Option.bind (checked_add a b) (\<lambda>k. checked_add k c) = Some t
      \<longleftrightarrow> unat t = unat a + unat b + unat c" for a b c t :: u64
    using unat_bound [of t] by (auto simp: bind_eq_Some_conv checked_add_Some_iff)
      (auto simp: checked_add_def unat_word_ariths intro!: exI [of _ "a + b"])
  then show ?thesis by (simp add: has_valid_breakdown_def)
qed

lemma unclassified_of_valid:
  assumes "unat t = unat a + unat b + unat c"
  shows "unclassified \<lparr>input_tokens = a, cached_input_tokens = x, cache_write_input_tokens = y,
    output_tokens = b, reasoning_output_tokens = z, unclassified_tokens = c, total_tokens = t\<rparr> = c"
  using assms by (auto simp: unclassified_def word_unat_eq_iff)

lemma checked_delta_from_Some_iff:
  "checked_delta_from a b = Some d \<longleftrightarrow>
    unat (minimum_pico_usd a) = unat (minimum_pico_usd b) + unat (minimum_pico_usd d)
    \<and> unat (maximum_pico_usd a) = unat (maximum_pico_usd b) + unat (maximum_pico_usd d)
    \<and> unat (observed_samples a) = unat (observed_samples b) + unat (observed_samples d)
    \<and> unat (priced_samples a) = unat (priced_samples b) + unat (priced_samples d)
    \<and> unat (observed_tokens a) = unat (observed_tokens b) + unat (observed_tokens d)
    \<and> unat (priced_tokens a) = unat (priced_tokens b) + unat (priced_tokens d)"
  by (cases d) (auto simp: checked_delta_from_def bind_eq_Some_conv checked_sub_Some_iff)

lemma cost_add_assign_commute: "cost_add_assign a b = cost_add_assign b a"
  by (simp add: cost_add_assign_def sat_add_commute)

lemma cost_add_assign_assoc:
  "cost_add_assign (cost_add_assign a b) c = cost_add_assign a (cost_add_assign b c)"
  by (simp add: cost_add_assign_def sat_add_assoc)

lemma cost_add_assign_default [simp]:
  "cost_add_assign api_cost_default a = a" "cost_add_assign a api_cost_default = a"
  by (simp_all add: cost_add_assign_def api_cost_default_def)

lemma utf8_chars_terminal_safe_text:
  "utf8_chars (terminal_safe_text s)
    = List.map (\<lambda>g. if char_is_control g \<or> is_bidi_control g then '' '' else g) (utf8_chars s)"
  unfolding terminal_safe_text_def
proof (rule utf8_chars_concat)
  have "\<not> is_continuation CHR '' ''" by (simp add: is_continuation_def byte_def)
  then show "utf8_grouped (List.map (\<lambda>g. if char_is_control g \<or> is_bidi_control g then '' '' else g) (utf8_chars s))"
    using utf8_grouped_utf8_chars [of s] 
    by (auto simp: utf8_grouped_def list_all_iff map_tl [symmetric])
qed

lemma total_fold_token_add:
  "total_tokens (fold (\<lambda>c u. token_add_assign u (f c)) cs u) = fold (\<lambda>c acc. sat_add acc (total_tokens (f c))) cs (total_tokens u)"
  by (induction cs arbitrary: u) (simp_all add: token_add_assign_def)


section \<open>Properties\<close>

text \<open>
  Two readings of a cumulative token counter: whenever both have a valid breakdown and
  the later one dominates the earlier one, adding the delta back to the earlier reading
  restores the later one, with its unclassified share made explicit.
\<close>

theorem delta_from_restores:
  assumes "has_valid_breakdown u" "has_valid_breakdown p" "delta_from u p = Some d"
  shows "token_add_assign p d = u\<lparr>unclassified_tokens := unclassified u\<rparr>"
proof -
  have le: "input_tokens p \<le> input_tokens u" "cached_input_tokens p \<le> cached_input_tokens u"
    "cache_write_input_tokens p \<le> cache_write_input_tokens u" "output_tokens p \<le> output_tokens u"
    "reasoning_output_tokens p \<le> reasoning_output_tokens u" "total_tokens p \<le> total_tokens u"
    "unclassified p \<le> unclassified u"
    using assms(3) by (auto simp: delta_from_def not_less split: if_splits)
  have d: "d = \<lparr>input_tokens = input_tokens u - input_tokens p,
      cached_input_tokens = cached_input_tokens u - cached_input_tokens p,
      cache_write_input_tokens = cache_write_input_tokens u - cache_write_input_tokens p,
      output_tokens = output_tokens u - output_tokens p,
      reasoning_output_tokens = reasoning_output_tokens u - reasoning_output_tokens p,
      unclassified_tokens = unclassified u - unclassified p,
      total_tokens = total_tokens u - total_tokens p\<rparr>"
    using assms(3) by (simp add: delta_from_def split: if_splits)
  have "unclassified d = unclassified u - unclassified p"
    unfolding d using assms(1,2) le
    by (intro unclassified_of_valid) (simp add: has_valid_breakdown_iff unat_sub word_le_nat_alt)
  then show ?thesis
    using le by (simp add: token_add_assign_def d sat_add_delta)
qed

theorem delta_from_restores_witness:
  "token_add_assign
     \<lparr>input_tokens = 10, cached_input_tokens = 4, cache_write_input_tokens = 0, output_tokens = 5,
      reasoning_output_tokens = 2, unclassified_tokens = 0, total_tokens = 15\<rparr>
     \<lparr>input_tokens = 20, cached_input_tokens = 3, cache_write_input_tokens = 1, output_tokens = 2,
      reasoning_output_tokens = 0, unclassified_tokens = 7, total_tokens = 29\<rparr>
   = \<lparr>input_tokens = 30, cached_input_tokens = 7, cache_write_input_tokens = 1, output_tokens = 7,
      reasoning_output_tokens = 2, unclassified_tokens = 7, total_tokens = 44\<rparr>"
  using delta_from_restores [of
     "\<lparr>input_tokens = 30, cached_input_tokens = 7, cache_write_input_tokens = 1, output_tokens = 7,
      reasoning_output_tokens = 2, unclassified_tokens = 7, total_tokens = 44\<rparr>"
     "\<lparr>input_tokens = 10, cached_input_tokens = 4, cache_write_input_tokens = 0, output_tokens = 5,
      reasoning_output_tokens = 2, unclassified_tokens = 0, total_tokens = 15\<rparr>"
     "\<lparr>input_tokens = 20, cached_input_tokens = 3, cache_write_input_tokens = 1, output_tokens = 2,
      reasoning_output_tokens = 0, unclassified_tokens = 7, total_tokens = 29\<rparr>"]
  by (simp add: has_valid_breakdown_iff unclassified_def delta_from_def)

text \<open>
  Adding two token usages whose breakdowns are valid keeps the breakdown valid, as long
  as the totals do not overflow 64 bits; saturation of single counters cannot break it.
\<close>

theorem add_assign_valid_breakdown:
  assumes "has_valid_breakdown u" "has_valid_breakdown v"
    and "unat (total_tokens u) + unat (total_tokens v) < 2 ^ 64"
  shows "has_valid_breakdown (token_add_assign u v)"
proof -
  have "unclassified (token_add_assign u v) = sat_add (unclassified u) (unclassified v)"
    unfolding token_add_assign_def using assms
    by (intro unclassified_of_valid) (simp add: has_valid_breakdown_iff unat_sat_add)
  then show ?thesis
    using assms by (simp add: has_valid_breakdown_iff token_add_assign_def unat_sat_add sat_add_mono)
qed

theorem add_assign_valid_breakdown_witness:
  "has_valid_breakdown (token_add_assign
     \<lparr>input_tokens = 10, cached_input_tokens = 4, cache_write_input_tokens = 0, output_tokens = 5,
      reasoning_output_tokens = 2, unclassified_tokens = 0, total_tokens = 15\<rparr>
     \<lparr>input_tokens = 0, cached_input_tokens = 0, cache_write_input_tokens = 0, output_tokens = 0,
      reasoning_output_tokens = 0, unclassified_tokens = 0, total_tokens = 9\<rparr>)"
  using add_assign_valid_breakdown [of
     "\<lparr>input_tokens = 10, cached_input_tokens = 4, cache_write_input_tokens = 0, output_tokens = 5,
      reasoning_output_tokens = 2, unclassified_tokens = 0, total_tokens = 15\<rparr>"
     "\<lparr>input_tokens = 0, cached_input_tokens = 0, cache_write_input_tokens = 0, output_tokens = 0,
      reasoning_output_tokens = 0, unclassified_tokens = 0, total_tokens = 9\<rparr>"]
  by (simp add: has_valid_breakdown_iff unclassified_def)

text \<open>
  The delta of two cost aggregates exists exactly when the newer one dominates the older
  one in every counter, and adding it to the older aggregate restores the newer one.
\<close>

theorem checked_delta_from_restores:
  "case checked_delta_from a b of
     Some d \<Rightarrow> cost_add_assign b d = a
   | None \<Rightarrow> minimum_pico_usd a < minimum_pico_usd b \<or> maximum_pico_usd a < maximum_pico_usd b
       \<or> observed_samples a < observed_samples b \<or> priced_samples a < priced_samples b
       \<or> observed_tokens a < observed_tokens b \<or> priced_tokens a < priced_tokens b"
proof (cases "checked_delta_from a b")
  case None
  then show ?thesis
    by (auto simp: checked_delta_from_def bind_eq_None_conv checked_sub_def not_le split: if_splits)
next
  case (Some d)
  then have "cost_add_assign b d = a"
    by (cases a) (auto simp: checked_delta_from_Some_iff cost_add_assign_def intro!: sat_add_exact)
  with Some show ?thesis by simp
qed

text \<open>
  The decimal-string form of a 128-bit money amount is lossless: parsing what the
  serialiser prints gives back every value.
\<close>

theorem u128_string_roundtrip: "u128_deserialize (u128_serialize v) = Some v"
  using unat_bound [of v] by (simp add: u128_deserialize_def u128_serialize_def parse_unsigned_show_nat)

text \<open>
  Text passed through \<open>terminal_safe_text\<close> holds no control character and no
  bidirectional control character, keeps its number of scalar values, and is a fixed point.
\<close>

theorem terminal_safe_text_safe:
  "list_all (\<lambda>g. \<not> char_is_control g \<and> \<not> is_bidi_control g) (utf8_chars (terminal_safe_text s))
    \<and> terminal_safe_text (terminal_safe_text s) = terminal_safe_text s
    \<and> length (utf8_chars (terminal_safe_text s)) = length (utf8_chars s)"
proof -
  have sp: "\<not> char_is_control '' ''" "\<not> is_bidi_control '' ''"
    by (simp_all add: char_is_control_def is_bidi_control_def byte_def)
  have ok: "list_all (\<lambda>g. \<not> char_is_control g \<and> \<not> is_bidi_control g) (utf8_chars (terminal_safe_text s))"
    using sp by (auto simp: utf8_chars_terminal_safe_text list_all_iff)
  have "terminal_safe_text t = t" if "list_all (\<lambda>g. \<not> char_is_control g \<and> \<not> is_bidi_control g) (utf8_chars t)" for t
  proof -
    have "List.map (\<lambda>g. if char_is_control g \<or> is_bidi_control g then '' '' else g) (utf8_chars t) = utf8_chars t"
      using that by (intro map_idI) (auto simp: list_all_iff)
    then show ?thesis by (simp add: terminal_safe_text_def)
  qed
  then show ?thesis using ok by (simp add: utf8_chars_terminal_safe_text)
qed

text \<open>
  Aggregation by model loses no token: the totals over all models add up to the tokens
  of all calls, as long as that sum fits 64 bits.
\<close>

theorem aggregate_tokens_conserved:
  assumes "(\<Sum>c\<leftarrow>calls. unat (total_tokens (uc_tokens c))) < 2 ^ 64"
  shows "(\<Sum>u\<leftarrow>bt_values (aggregate_tokens_by_model calls). unat (total_tokens u))
    = (\<Sum>c\<leftarrow>calls. unat (total_tokens (uc_tokens c)))"
  unfolding aggregate_tokens_by_model_def
proof (rule bt_fold_update_sum)
  show "unat (total_tokens token_usage_default) = 0" by (simp add: token_usage_default_def)
  show "unat (total_tokens (fold (\<lambda>c u. token_add_assign u (uc_tokens c)) ys token_usage_default))
      = (\<Sum>c\<leftarrow>ys. unat (total_tokens (uc_tokens c)))"
    if "(\<Sum>c\<leftarrow>ys. unat (total_tokens (uc_tokens c))) \<le> (\<Sum>c\<leftarrow>calls. unat (total_tokens (uc_tokens c)))" for ys
    using that assms by (simp add: total_fold_token_add unat_fold_sat_add token_usage_default_def)
qed

theorem aggregate_tokens_conserved_witness:
  "(\<Sum>u\<leftarrow>bt_values (aggregate_tokens_by_model
     [\<lparr>uc_timestamp = 0, uc_thread_id = ''t'', uc_turn_id = None, uc_usage_event_id = None,
       uc_usage_event_identity_exact = False, uc_model = Some ''m'', uc_service_tier = None,
       uc_tokens = token_usage_default\<lparr>input_tokens := 5, total_tokens := 5\<rparr>,
       uc_request_usage_exact = True\<rparr>]). unat (total_tokens u)) = 5"
  using aggregate_tokens_conserved [of
     "[\<lparr>uc_timestamp = 0, uc_thread_id = ''t'', uc_turn_id = None, uc_usage_event_id = None,
       uc_usage_event_identity_exact = False, uc_model = Some ''m'', uc_service_tier = None,
       uc_tokens = token_usage_default\<lparr>input_tokens := 5, total_tokens := 5\<rparr>,
       uc_request_usage_exact = True\<rparr>]"]
  by simp

end
