(* ===== verification/Json_Value.thy ===== *)
theory Json_Value
  imports Domain
begin

text \<open>
  The JSON values of \<open>serde_json\<close> and the field accessors of \<open>src/rollout.rs\<close>.  A map is an
  ordered map from strings.  The text of a value is read by the package \<open>serde_json\<close> and
  instants by \<open>chrono\<close>; both are parameters of the definitions that use them.
\<close>

section \<open>Values\<close>

datatype json_number = PosInt u64 | NegInt int | FloatNumber f64

datatype json =
    JNull
  | JBool bool
  | JNumber json_number
  | JString string
  | JArray "json list"
  | JObject "(string \<times> json) list"

type_synonym json_map = "(string, json) btree"

fun as_object :: "json \<Rightarrow> json_map option" where
  "as_object (JObject m) = Some m"
| "as_object _ = None"

fun as_array :: "json \<Rightarrow> json list option" where
  "as_array (JArray xs) = Some xs"
| "as_array _ = None"

fun as_str :: "json \<Rightarrow> string option" where
  "as_str (JString s) = Some s"
| "as_str _ = None"

definition I64_MAX :: int where "I64_MAX = 2 ^ 63 - 1"
definition I64_MIN :: int where "I64_MIN = - (2 ^ 63)"

fun as_u64 :: "json \<Rightarrow> u64 option" where
  "as_u64 (JNumber (PosInt n)) = Some n"
| "as_u64 _ = None"

fun as_i64 :: "json \<Rightarrow> int option" where
  "as_i64 (JNumber (PosInt n)) = (if uint n \<le> I64_MAX then Some (uint n) else None)"
| "as_i64 (JNumber (NegInt i)) = Some i"
| "as_i64 _ = None"

fun as_f64 :: "json \<Rightarrow> f64 option" where
  "as_f64 (JNumber (PosInt n)) = Some (f64_of_nat (unat n))"
| "as_f64 (JNumber (NegInt i)) = Some (f64_round False (of_int i))"
| "as_f64 (JNumber (FloatNumber x)) = Some x"
| "as_f64 _ = None"

definition json_get :: "json \<Rightarrow> string \<Rightarrow> json option" where
  "json_get v k = Option.bind (as_object v) (\<lambda>m. bt_get m k)"

section \<open>Numbers in strings\<close>

text \<open>\<open>FromStr\<close> of \<open>i64\<close> and of \<open>f64\<close>.\<close>

definition parse_i64 :: "string \<Rightarrow> int option" where
  "parse_i64 s =
    (let (neg, digits) = (case s of
           c # cs \<Rightarrow> if c = CHR ''-'' then (True, cs) else if c = CHR ''+'' then (False, cs) else (False, s)
         | [] \<Rightarrow> (False, []));
         v = (if neg then - int (decimal_value digits) else int (decimal_value digits))
     in if digits = [] \<or> \<not> list_all is_ascii_digit digits then None
        else if I64_MIN \<le> v \<and> v \<le> I64_MAX then Some v else None)"

definition take_sign :: "string \<Rightarrow> bool \<times> string" where
  "take_sign s = (case s of
      c # cs \<Rightarrow> if c = CHR ''-'' then (True, cs) else if c = CHR ''+'' then (False, cs) else (False, s)
    | [] \<Rightarrow> (False, []))"

definition parse_exponent :: "string \<Rightarrow> int option" where
  "parse_exponent s = (case s of
      [] \<Rightarrow> Some 0
    | c # cs \<Rightarrow>
        if c \<noteq> CHR ''e'' \<and> c \<noteq> CHR ''E'' then None
        else let (neg, digits) = take_sign cs in
          if digits = [] \<or> \<not> list_all is_ascii_digit digits then None
          else Some (if neg then - int (decimal_value digits) else int (decimal_value digits)))"

definition parse_f64 :: "string \<Rightarrow> f64 option" where
  "parse_f64 s =
    (let (neg, body) = take_sign s; low = to_ascii_lowercase body in
     if low = ''inf'' \<or> low = ''infinity'' then Some (f64_make neg f64_inf_mag)
     else if low = ''nan'' then Some (if neg then f64_negate f64_nan else f64_nan)
     else
       let whole = takeWhile is_ascii_digit body;
           rest = dropWhile is_ascii_digit body;
           (frac, tail) = (case rest of
               c # cs \<Rightarrow> if c = CHR ''.'' then (takeWhile is_ascii_digit cs, dropWhile is_ascii_digit cs)
                 else ([], rest)
             | [] \<Rightarrow> ([], []))
       in if whole = [] \<and> frac = [] then None
          else map_option (\<lambda>e. f64_round neg
              ((if neg then - 1 else 1) * of_nat (decimal_value (whole @ frac)) * 10 powi (e - int (length frac))))
            (parse_exponent tail))"

text \<open>\<open>trunc\<close>, \<open>fract\<close> and the saturating casts of a double to an integer.\<close>

definition rat_trunc :: "rat \<Rightarrow> int" where
  "rat_trunc x = (if 0 \<le> x then \<lfloor>x\<rfloor> else - \<lfloor>- x\<rfloor>)"

definition f64_cast :: "int \<Rightarrow> int \<Rightarrow> f64 \<Rightarrow> int" where
  "f64_cast lo hi x =
    (if f64_is_nan x then 0
     else if f64_is_infinite x then (if f64_neg x then lo else hi)
     else max lo (min hi (rat_trunc (f64_value x))))"

definition f64_fract :: "f64 \<Rightarrow> f64" where
  "f64_fract x =
    (if f64_is_finite x then f64_round (f64_neg x) (f64_value x - of_int (rat_trunc (f64_value x))) else f64_nan)"

definition f64_abs :: "f64 \<Rightarrow> f64" where
  "f64_abs x = f64_make False (f64_mag x)"

section \<open>Instants\<close>

text \<open>The constructors of \<open>chrono::DateTime\<close> used by the collectors.\<close>

record chrono_lib =
  ch_parse_rfc3339 :: "string \<Rightarrow> datetime option"
  ch_from_timestamp :: "int \<Rightarrow> nat \<Rightarrow> datetime option"
  ch_from_timestamp_millis :: "int \<Rightarrow> datetime option"

(* rollout.rs:7551-7557 timestamp_from_integer *)
definition timestamp_from_integer :: "chrono_lib \<Rightarrow> int \<Rightarrow> datetime option" where
  "timestamp_from_integer ch t =
    (if 100000000000 \<le> \<bar>t\<bar> then ch_from_timestamp_millis ch t else ch_from_timestamp ch t 0)"

(* rollout.rs:7531-7549 parse_timestamp *)
definition parse_timestamp :: "chrono_lib \<Rightarrow> json \<Rightarrow> datetime option" where
  "parse_timestamp ch v = (case as_str v of
      Some s \<Rightarrow> (case ch_parse_rfc3339 ch s of
          Some t \<Rightarrow> Some t
        | None \<Rightarrow> Option.bind (parse_i64 s) (timestamp_from_integer ch))
    | None \<Rightarrow> (case as_i64 v of
          Some t \<Rightarrow> timestamp_from_integer ch t
        | None \<Rightarrow> Option.bind (as_f64 v) (\<lambda>x.
            ch_from_timestamp ch (f64_cast I64_MIN I64_MAX x)
              (nat (f64_cast 0 (2 ^ 32 - 1) (f64_mul (f64_abs (f64_fract x)) 0x41CDCD6500000000))))))"

section \<open>Fields\<close>

(* rollout.rs:7559-7565 value_at *)
fun value_at :: "json \<Rightarrow> string list \<Rightarrow> json option" where
  "value_at v [] = Some v"
| "value_at v (k # ks) = (case json_get v k of None \<Rightarrow> None | Some v' \<Rightarrow> value_at v' ks)"

(* rollout.rs:7567-7569 object_at *)
definition object_at :: "json \<Rightarrow> string list \<Rightarrow> json_map option" where
  "object_at v path = Option.bind (value_at v path) as_object"

(* rollout.rs:7577-7581 string_field_in *)
definition string_field_in :: "json_map \<Rightarrow> string list \<Rightarrow> string option" where
  "string_field_in m names = find_map (\<lambda>k. Option.bind (bt_get m k) as_str) names"

(* rollout.rs:7571-7575 string_field *)
definition string_field :: "json \<Rightarrow> string list \<Rightarrow> string option" where
  "string_field v names = Option.bind (as_object v) (\<lambda>m. string_field_in m names)"

(* rollout.rs:7583-7591 nonempty_string_field_in *)
definition nonempty_string_field_in :: "json_map \<Rightarrow> string list \<Rightarrow> string option" where
  "nonempty_string_field_in m names =
    find_map (\<lambda>k. opt_filter (\<lambda>s. s \<noteq> []) (map_option trim (Option.bind (bt_get m k) as_str))) names"

(* rollout.rs:7593-7601 u64_field_in *)
definition u64_field_in :: "json_map \<Rightarrow> string list \<Rightarrow> u64 option" where
  "u64_field_in m names = find_map (\<lambda>k. Option.bind (bt_get m k)
     (\<lambda>v. opt_or (as_u64 v) (Option.bind (as_str v) parse_unsigned))) names"

(* rollout.rs:7603-7611 i64_field_in *)
definition i64_field_in :: "json_map \<Rightarrow> string list \<Rightarrow> int option" where
  "i64_field_in m names = find_map (\<lambda>k. Option.bind (bt_get m k)
     (\<lambda>v. opt_or (as_i64 v) (Option.bind (as_str v) parse_i64))) names"

(* rollout.rs:7613-7621 f64_field_in *)
definition f64_field_in :: "json_map \<Rightarrow> string list \<Rightarrow> f64 option" where
  "f64_field_in m names = find_map (\<lambda>k. Option.bind (bt_get m k)
     (\<lambda>v. opt_or (as_f64 v) (Option.bind (as_str v) parse_f64))) names"

text \<open>\<open>get(a).or_else(get(b))\<close>: the snake-case or the camel-case name of a field.\<close>

definition get_either :: "json_map \<Rightarrow> string \<Rightarrow> string \<Rightarrow> json option" where
  "get_either m a b = opt_or (bt_get m a) (bt_get m b)"

end
