(* ===== verification/Rollout_Events.thy ===== *)
theory Rollout_Events
  imports Json_Value
begin

text \<open>
  The parser of a session log, \<open>src/rollout.rs\<close> with \<open>src/bounded_io.rs\<close>: bounded lines, the
  records understood by the monitor, ownership of the segments of a forked log, and the
  events a file contributes.

  A file is the list of its bytes and a flag that a read error follows them.  Warnings keep
  their kind and line and not their text; the events of a file are a plain list.  The only
  panic of the parser, the subtraction of two seconds from an instant, is the result
  \<open>None\<close>.
\<close>

section \<open>Bounded lines\<close>

(* bounded_io.rs:4-8 BoundedLine *)
datatype bounded_line = LineRead | LineTooLong | LineEof

text \<open>A byte is appended while the limit allows it; otherwise the line is too long.\<close>

definition push_bounded :: "nat \<Rightarrow> char \<Rightarrow> string \<times> bool \<Rightarrow> string \<times> bool" where
  "push_bounded max_bytes c = (\<lambda>(out, too_long).
     if too_long then (out, True)
     else if length out < max_bytes then (out @ [c], False)
     else ([], True))"

definition CR :: char where "CR = char_of (13 :: nat)"
definition LF :: char where "LF = char_of (10 :: nat)"

(* bounded_io.rs:28-98 read_bounded_line (loop) *)
fun bounded_loop ::
  "nat \<Rightarrow> bool \<Rightarrow> string \<Rightarrow> string \<times> bool \<Rightarrow> bool \<Rightarrow> bool \<Rightarrow> unit + bounded_line \<times> string \<times> string" where
  "bounded_loop max_bytes fails [] acc saw pending_cr =
    (if fails then Inl ()
     else let (out, too_long) = (if pending_cr then push_bounded max_bytes CR acc else acc)
       in Inr (if \<not> saw then LineEof else if too_long then LineTooLong else LineRead, out, []))"
| "bounded_loop max_bytes fails (c # cs) acc saw pending_cr =
    (if c = LF then Inr (if snd acc then LineTooLong else LineRead, fst acc, cs)
     else let acc = (if pending_cr then push_bounded max_bytes CR acc else acc)
       in if c = CR then bounded_loop max_bytes fails cs acc True True
          else bounded_loop max_bytes fails cs (push_bounded max_bytes c acc) True False)"

(* bounded_io.rs:13-98 read_bounded_line *)
definition read_bounded_line :: "nat \<Rightarrow> bool \<Rightarrow> string \<Rightarrow> unit + bounded_line \<times> string \<times> string" where
  "read_bounded_line max_bytes fails bytes = bounded_loop max_bytes fails bytes ([], False) False False"

section \<open>Events\<close>

(* domain.rs:580-585 AgentInteractionKind *)
datatype agent_interaction_kind = UnknownInteraction | SpawnStarted | Interacted

(* rollout.rs:358-361 UserMessageSource *)
datatype user_message_source = ResponseItem | EventMessage

instantiation user_message_source :: linorder
begin

definition less_eq_user_message_source :: "user_message_source \<Rightarrow> user_message_source \<Rightarrow> bool" where
  "a \<le> b = (a = ResponseItem \<or> b = EventMessage)"

definition less_user_message_source :: "user_message_source \<Rightarrow> user_message_source \<Rightarrow> bool" where
  "a < b = (a = ResponseItem \<and> b = EventMessage)"

instance
proof
  fix a b :: user_message_source
  show "a < b \<longleftrightarrow> a \<le> b \<and> \<not> b \<le> a"
    by (cases a; cases b) (simp_all add: less_eq_user_message_source_def less_user_message_source_def)
  show "a \<le> b \<or> b \<le> a" by (cases a; cases b) (simp_all add: less_eq_user_message_source_def)
qed (auto simp: less_eq_user_message_source_def intro: user_message_source.exhaust)

end

(* rollout.rs:364-368 CachedRateLimits *)
record cached_rate_limits =
  rl_limit_id :: string
  rl_primary :: "limit_window option"
  rl_secondary :: "limit_window option"

(* rollout.rs:269-333 ParsedEvent *)
datatype parsed_event =
    RequestUsage datetime string string token_usage "token_usage option"
  | SessionMeta datetime json_map
  | ForeignCounterBaseline datetime token_usage
  | ForeignThreadSettingsBaseline datetime "string option" "string option"
  | UserMessage datetime string "string option" user_message_source
  | AgentCall "datetime option" string string agent_interaction_kind
  | AgentActivity "datetime option" "datetime option" string string agent_interaction_kind
  | ThreadSettingsApplied datetime "string option"
  | Activity datetime
  | TurnContext datetime json_map
  | TaskStarted datetime string "datetime option"
  | TaskComplete datetime string "datetime option" "u64 option"
  | TurnAborted datetime string "datetime option" "u64 option" bool
  | TokenCount datetime usize "token_usage option" "token_usage option" "cached_rate_limits option"

datatype parse_warning =
    UnreadableLine usize
  | OversizedLine usize
  | NonObjectLine usize
  | MalformedLine usize
  | SessionWithoutId usize
  | InvalidRequestUsage usize
  | UnopenedFile
  | UninspectedFile
  | UnguardedFile
  | UnstableFile

(* rollout.rs:377-380 TailGuard *)
record tail_guard =
  tg_len :: "16 word"
  tg_hash :: u64

definition tail_guard_default :: tail_guard where
  "tail_guard_default = \<lparr>tg_len = 0, tg_hash = 0\<rparr>"

(* rollout.rs:383-420 ParsedFile *)
record parsed_file =
  pf_owner_thread_id :: "string option"
  pf_activity_updated_at :: "datetime option"
  pf_events :: "parsed_event list"
  pf_parsed_lines :: usize
  pf_skipped_lines :: usize
  pf_unreadable_files :: usize
  pf_warnings :: "parse_warning list"
  pf_suppressed_warnings :: usize
  pf_complete :: bool
  pf_source_lines :: usize
  pf_owning_created_at :: "datetime option"
  pf_replay_started_at :: "datetime option"
  pf_replay_updated_at :: "datetime option"
  pf_replay_timestamps_complete :: bool
  pf_replaying_foreign_history :: bool
  pf_ends_with_newline :: bool
  pf_tail_guard :: tail_guard
  pf_foreign_baseline_events :: usize
  pf_inherit_foreign_thread_settings :: bool

definition parsed_file_default :: parsed_file where
  "parsed_file_default = \<lparr>pf_owner_thread_id = None, pf_activity_updated_at = None, pf_events = [],
     pf_parsed_lines = 0, pf_skipped_lines = 0, pf_unreadable_files = 0, pf_warnings = [],
     pf_suppressed_warnings = 0, pf_complete = False, pf_source_lines = 0, pf_owning_created_at = None,
     pf_replay_started_at = None, pf_replay_updated_at = None, pf_replay_timestamps_complete = False,
     pf_replaying_foreign_history = False, pf_ends_with_newline = False,
     pf_tail_guard = tail_guard_default, pf_foreign_baseline_events = 0,
     pf_inherit_foreign_thread_settings = False\<rparr>"

(* rollout.rs:69-69 ROLLOUT_MAX_WARNINGS_PER_FILE *)
definition ROLLOUT_MAX_WARNINGS_PER_FILE :: nat where "ROLLOUT_MAX_WARNINGS_PER_FILE = 64"

(* rollout.rs:68-68 ROLLOUT_MAX_LINE_BYTES *)
definition ROLLOUT_MAX_LINE_BYTES :: nat where "ROLLOUT_MAX_LINE_BYTES = 32 * 1024 * 1024"

(* rollout.rs:5781-5787 push_parsed_warning *)
definition push_parsed_warning :: "parse_warning \<Rightarrow> parsed_file \<Rightarrow> parsed_file" where
  "push_parsed_warning w p =
    (if length (pf_warnings p) < ROLLOUT_MAX_WARNINGS_PER_FILE then p\<lparr>pf_warnings := pf_warnings p @ [w]\<rparr>
     else p\<lparr>pf_suppressed_warnings := sat_add (pf_suppressed_warnings p) 1\<rparr>)"

(* rollout.rs:7623-7627 set_min_timestamp *)
definition set_min_timestamp :: "datetime \<Rightarrow> datetime option \<Rightarrow> datetime option" where
  "set_min_timestamp v slot = (case slot of Some t \<Rightarrow> if v < t then Some v else Some t | None \<Rightarrow> Some v)"

(* rollout.rs:7629-7633 set_max_timestamp *)
definition set_max_timestamp :: "datetime \<Rightarrow> datetime option \<Rightarrow> datetime option" where
  "set_max_timestamp v slot = (case slot of Some t \<Rightarrow> if t < v then Some v else Some t | None \<Rightarrow> Some v)"

section \<open>Fields of the records\<close>

(* rollout.rs:6919-6966 parse_token_usage *)
definition parse_token_usage :: "json \<Rightarrow> token_usage option" where
  "parse_token_usage v = Option.bind (as_object v) (\<lambda>m.
    if \<not> list_ex (bt_contains m) [''input_tokens'', ''inputTokens'', ''cached_input_tokens'', ''cachedInputTokens'',
        ''cache_write_input_tokens'', ''cacheWriteInputTokens'', ''output_tokens'', ''outputTokens'',
        ''reasoning_output_tokens'', ''reasoningOutputTokens'', ''total_tokens'', ''totalTokens'']
    then None
    else
      let or_zero = (\<lambda>names. case u64_field_in m names of Some n \<Rightarrow> n | None \<Rightarrow> 0);
          input = or_zero [''input_tokens'', ''inputTokens''];
          output = or_zero [''output_tokens'', ''outputTokens''];
          total_usage = (case u64_field_in m [''total_tokens'', ''totalTokens''] of Some n \<Rightarrow> n | None \<Rightarrow> sat_add input output)
      in Some \<lparr>input_tokens = input,
           cached_input_tokens = or_zero [''cached_input_tokens'', ''cachedInputTokens''],
           cache_write_input_tokens = or_zero [''cache_write_input_tokens'', ''cacheWriteInputTokens''],
           output_tokens = output,
           reasoning_output_tokens = or_zero [''reasoning_output_tokens'', ''reasoningOutputTokens''],
           unclassified_tokens = (if input = 0 \<and> output = 0 then total_usage else 0),
           total_tokens = total_usage\<rparr>)"

text \<open>The usage under \<open>info\<close> or directly in the payload, under either spelling.\<close>

definition usage_under :: "string \<Rightarrow> string \<Rightarrow> json_map \<Rightarrow> token_usage option" where
  "usage_under snake camel payload =
    Option.bind
      (opt_or (opt_or (Option.bind (Option.bind (bt_get payload ''info'') as_object) (\<lambda>info. get_either info snake camel))
         (bt_get payload snake)) (bt_get payload camel))
      parse_token_usage"

(* rollout.rs:6797-6808 total_token_usage *)
definition total_token_usage :: "json_map \<Rightarrow> token_usage option" where
  "total_token_usage = usage_under ''total_token_usage'' ''totalTokenUsage''"

(* rollout.rs:6810-6821 last_token_usage *)
definition last_token_usage :: "json_map \<Rightarrow> token_usage option" where
  "last_token_usage = usage_under ''last_token_usage'' ''lastTokenUsage''"

(* rollout.rs:6897-6917 parse_limit_window *)
definition parse_limit_window :: "chrono_lib \<Rightarrow> json \<Rightarrow> limit_window option" where
  "parse_limit_window ch v = Option.bind (as_object v) (\<lambda>m.
    Option.bind (f64_field_in m [''used_percent'', ''usedPercent'']) (\<lambda>used.
    if \<not> f64_is_finite used then None
    else Some (limit_window_new used
      (i64_field_in m [''window_minutes'', ''windowMinutes'', ''window_duration_mins'', ''windowDurationMins''])
      (Option.bind (get_either m ''resets_at'' ''resetsAt'') (parse_timestamp ch)))))"

(* rollout.rs:6875-6895 parse_cached_rate_limits *)
definition parse_cached_rate_limits :: "chrono_lib \<Rightarrow> json_map \<Rightarrow> cached_rate_limits option" where
  "parse_cached_rate_limits ch m =
    (let primary = Option.bind (bt_get m ''primary'') (parse_limit_window ch);
         secondary = Option.bind (bt_get m ''secondary'') (parse_limit_window ch);
         limit_id = (case string_field_in m [''limit_id'', ''limitId''] of Some s \<Rightarrow> s | None \<Rightarrow> ''codex'')
     in if primary = None \<and> secondary = None \<and> \<not> bt_contains m ''limit_id'' \<and> \<not> bt_contains m ''limitId'' then None
        else Some \<lparr>rl_limit_id = limit_id, rl_primary = primary, rl_secondary = secondary\<rparr>)"

(* rollout.rs:6165-6175 projected_payload *)
definition projected_payload :: "json_map \<Rightarrow> string list \<Rightarrow> json_map" where
  "projected_payload payload names =
    fold (\<lambda>(k, v). bt_insert k v)
      (List.map_filter (\<lambda>k. map_option (Pair k) (bt_get payload k)) names) []"

section \<open>Session metadata\<close>

(* rollout.rs:6155-6163 valid_parent_thread_id *)
definition valid_parent_thread_id :: "string option \<Rightarrow> string option \<Rightarrow> string option" where
  "valid_parent_thread_id candidate owner =
    opt_filter (\<lambda>c. owner \<noteq> Some c) (opt_filter (\<lambda>c. c \<noteq> []) (map_option trim candidate))"

(* rollout.rs:6145-6153 valid_parent_thread_id_in *)
definition valid_parent_thread_id_in :: "json_map \<Rightarrow> string list \<Rightarrow> string option \<Rightarrow> string option" where
  "valid_parent_thread_id_in m names owner =
    find_map (\<lambda>k. valid_parent_thread_id (Option.bind (bt_get m k) as_str) owner) names"

definition object_field :: "json_map \<Rightarrow> string \<Rightarrow> string \<Rightarrow> json_map option" where
  "object_field m a b = Option.bind (get_either m a b) as_object"

definition thread_spawn_of :: "json_map \<Rightarrow> json_map option" where
  "thread_spawn_of payload =
    Option.bind (Option.bind (bt_get payload ''source'') as_object) (\<lambda>source.
    Option.bind (object_field source ''subagent'' ''subAgent'') (\<lambda>subagent.
    object_field subagent ''thread_spawn'' ''threadSpawn''))"

(* rollout.rs:6125-6143 nested_subagent_parent_thread_id *)
definition nested_subagent_parent_thread_id :: "json_map \<Rightarrow> string option \<Rightarrow> string option" where
  "nested_subagent_parent_thread_id payload owner =
    Option.bind (thread_spawn_of payload) (\<lambda>spawn.
    valid_parent_thread_id_in spawn [''parent_thread_id'', ''parentThreadId''] owner)"

definition source_names_subagent :: "json_map \<Rightarrow> bool" where
  "source_names_subagent payload = (case Option.bind (bt_get payload ''source'') as_object of
      Some source \<Rightarrow> bt_contains source ''subagent'' \<or> bt_contains source ''subAgent''
    | None \<Rightarrow> False)"

(* rollout.rs:6114-6123 is_subagent_session *)
definition is_subagent_session :: "json_map \<Rightarrow> bool" where
  "is_subagent_session payload =
    ((case string_field_in payload [''thread_source'', ''threadSource''] of
        Some s \<Rightarrow> eq_ignore_ascii_case s ''subagent'' | None \<Rightarrow> False)
     \<or> source_names_subagent payload)"

(* rollout.rs:6009-6020 is_forked_session *)
definition is_forked_session :: "json_map \<Rightarrow> bool" where
  "is_forked_session payload =
    (list_ex (\<lambda>k. case Option.bind (bt_get payload k) as_str of Some p \<Rightarrow> trim p \<noteq> [] | None \<Rightarrow> False)
       [''parent_thread_id'', ''parentThreadId'', ''forked_from_id'', ''forkedFromId'']
     \<or> is_subagent_session payload)"

(* rollout.rs:6022-6051 inherits_plain_thread_spawn_settings *)
definition inherits_plain_thread_spawn_settings :: "json_map \<Rightarrow> string option \<Rightarrow> bool" where
  "inherits_plain_thread_spawn_settings payload owner =
    (nested_subagent_parent_thread_id payload owner \<noteq> None
     \<and> (case thread_spawn_of payload of
          None \<Rightarrow> False
        | Some spawn \<Rightarrow> get_either spawn ''agent_role'' ''agentRole'' = Some JNull))"

(* rollout.rs:6070-6084 normalized_service_tier *)
definition normalized_service_tier :: "json_map \<Rightarrow> bool \<Rightarrow> string option" where
  "normalized_service_tier settings implicit_default_is_proven =
    (case get_either settings ''service_tier'' ''serviceTier'' of
       None \<Rightarrow> if implicit_default_is_proven then Some ''default'' else None
     | Some JNull \<Rightarrow> if implicit_default_is_proven then Some ''default'' else None
     | Some (JString s) \<Rightarrow> if trim s \<noteq> [] then Some (trim s) else None
     | Some _ \<Rightarrow> None)"

(* rollout.rs:6053-6068 inherited_thread_settings_snapshot *)
definition inherited_thread_settings_snapshot :: "json_map \<Rightarrow> string option \<times> string option" where
  "inherited_thread_settings_snapshot payload =
    (case object_field payload ''thread_settings'' ''threadSettings'' of
       None \<Rightarrow> (None, None)
     | Some settings \<Rightarrow>
         (opt_filter (\<lambda>m. m \<noteq> []) (map_option trim (string_field_in settings [''model''])),
          normalized_service_tier settings True))"

section \<open>Previews\<close>

(* rollout.rs:7473-7489 shorten_preview *)
definition shorten_preview :: "string \<Rightarrow> nat \<Rightarrow> string" where
  "shorten_preview s max_chars =
    (let chars = utf8_chars s in
     if length chars \<le> max_chars then s
     else if max_chars \<le> 3 then replicate max_chars (CHR ''.'')
     else concat (take (max_chars - 3) chars) @ ''...'')"

(* rollout.rs:7465-7471 title_preview *)
definition title_preview :: "string \<Rightarrow> string option" where
  "title_preview message =
    (let normalized = join_with '' '' (split_whitespace message)
     in if normalized = [] then None else Some (shorten_preview normalized 96))"

(* rollout.rs:6001-6007 is_synthetic_user_context *)
definition is_synthetic_user_context :: "string \<Rightarrow> bool" where
  "is_synthetic_user_context s = list_ex (\<lambda>p. starts_with p s)
     [''# AGENTS.md instructions for '', ''<environment_context>'', ''<codex_internal_context'', ''<turn_aborted>'',
      ''<recommended_plugins>'']"

(* rollout.rs:5980-5999 user_authored_input_text *)
definition user_authored_input_text :: "string \<Rightarrow> string option" where
  "user_authored_input_text v =
    (let s = trim v in
     if s = [] \<or> is_synthetic_user_context s then None
     else
       let found = List.map_filter (\<lambda>m. map_option (\<lambda>i. (i, m)) (rfind m s))
             [''## My request:'', ''# My request:'', ''## My request for Codex:'', ''# My request for Codex:''];
           latest = fold (\<lambda>f best. case best of
               None \<Rightarrow> Some f
             | Some b \<Rightarrow> if fst b \<le> fst f then Some f else Some b) found None;
           request = opt_filter (\<lambda>r. r \<noteq> []) (map_option (\<lambda>(i, m). trim (drop (i + length m) s)) latest)
       in opt_or request (Some s))"

section \<open>Event messages\<close>

(* rollout.rs:5840-5912 cache_event_message *)
definition cache_event_message :: "chrono_lib \<Rightarrow> json_map \<Rightarrow> datetime \<Rightarrow> usize \<Rightarrow> parsed_event option" where
  "cache_event_message ch payload timestamp line_number =
    (let turn_id = string_field_in payload [''turn_id'', ''turnId''];
         time = (\<lambda>a b. Option.bind (get_either payload a b) (parse_timestamp ch));
         kind = string_field_in payload [''type'']
     in if kind = Some ''task_started'' then
          map_option (\<lambda>t. TaskStarted timestamp t (time ''started_at'' ''startedAt'')) turn_id
        else if kind = Some ''task_complete'' then
          map_option (\<lambda>t. TaskComplete timestamp t (time ''completed_at'' ''completedAt'')
            (u64_field_in payload [''duration_ms'', ''durationMs''])) turn_id
        else if kind = Some ''turn_aborted'' then
          map_option (\<lambda>t.
            let reason = (case string_field_in payload [''reason''] of Some r \<Rightarrow> r | None \<Rightarrow> [])
            in TurnAborted timestamp t (time ''completed_at'' ''completedAt'')
                 (u64_field_in payload [''duration_ms'', ''durationMs''])
                 (str_contains ''fail'' reason \<or> str_contains ''error'' reason)) turn_id
        else if kind = Some ''token_count'' then
          let total_usage = total_token_usage payload;
              last = last_token_usage payload;
              limits = Option.bind (object_field payload ''rate_limits'' ''rateLimits'') (parse_cached_rate_limits ch)
          in if total_usage \<noteq> None \<or> last \<noteq> None \<or> limits \<noteq> None
             then Some (TokenCount timestamp line_number total_usage last limits) else None
        else None)"

(* rollout.rs:5914-5932 response_item_agent_call *)
definition response_item_agent_call :: "json_map \<Rightarrow> (string \<times> string \<times> agent_interaction_kind) option" where
  "response_item_agent_call payload =
    (if string_field_in payload [''type''] \<noteq> Some ''function_call'' then None
     else Option.bind (nonempty_string_field_in payload [''name'']) (\<lambda>name.
       Option.bind (if name = ''spawn_agent'' then Some SpawnStarted
           else if name = ''followup_task'' \<or> name = ''send_message'' then Some Interacted else None) (\<lambda>kind.
       Option.bind (nonempty_string_field_in payload [''call_id'', ''callId'']) (\<lambda>call_id.
       Option.bind (object_field payload ''internal_chat_message_metadata_passthrough''
           ''internalChatMessageMetadataPassthrough'') (\<lambda>metadata.
       Option.bind (nonempty_string_field_in metadata [''turn_id'', ''turnId'']) (\<lambda>turn.
       Some (call_id, turn, kind)))))))"

(* rollout.rs:5934-5948 subagent_activity *)
definition subagent_activity :: "json_map \<Rightarrow> (string \<times> string \<times> agent_interaction_kind) option" where
  "subagent_activity payload =
    (if string_field_in payload [''type''] \<noteq> Some ''sub_agent_activity'' then None
     else Option.bind (nonempty_string_field_in payload [''kind'']) (\<lambda>name.
       Option.bind (if name = ''started'' then Some SpawnStarted
           else if name = ''interacted'' then Some Interacted else None) (\<lambda>kind.
       Option.bind (nonempty_string_field_in payload [''event_id'', ''eventId'']) (\<lambda>call_id.
       Option.bind (nonempty_string_field_in payload [''agent_thread_id'', ''agentThreadId'']) (\<lambda>child.
       Some (call_id, child, kind))))))"

(* rollout.rs:5950-5978 response_item_user_message *)
definition response_item_user_message :: "json_map \<Rightarrow> (string \<times> string option) option" where
  "response_item_user_message payload =
    (if string_field_in payload [''type''] \<noteq> Some ''message'' \<or> string_field_in payload [''role''] \<noteq> Some ''user'' then None
     else Option.bind (Option.bind (bt_get payload ''content'') as_array) (\<lambda>items.
       let texts = List.map_filter (\<lambda>item. Option.bind (as_object item) (\<lambda>m.
             if string_field_in m [''type''] = Some ''input_text''
             then Option.bind (Option.bind (bt_get m ''text'') as_str) user_authored_input_text else None)) items
       in Option.bind (title_preview (join_with '' '' texts)) (\<lambda>preview.
          Some (preview, opt_or (string_field_in payload [''turn_id'', ''turnId''])
            (Option.bind (object_field payload ''internal_chat_message_metadata_passthrough''
                ''internalChatMessageMetadataPassthrough'')
              (\<lambda>metadata. string_field_in metadata [''turn_id'', ''turnId'']))))))"

section \<open>Segments of a forked log\<close>

definition is_hex_digit :: "char \<Rightarrow> bool" where
  "is_hex_digit c = (is_ascii_digit c \<or> (65 \<le> byte c \<and> byte c \<le> 70) \<or> (97 \<le> byte c \<and> byte c \<le> 102))"

definition hex_digit_value :: "char \<Rightarrow> nat" where
  "hex_digit_value c = (if is_ascii_digit c then byte c - 48 else if byte c \<le> 70 then byte c - 55 else byte c - 87)"

text \<open>\<open>u64::from_str_radix\<close> with radix 16.\<close>

definition parse_hex_u64 :: "string \<Rightarrow> u64 option" where
  "parse_hex_u64 s =
    (let digits = (case s of c # cs \<Rightarrow> if c = CHR ''+'' then cs else s | [] \<Rightarrow> []);
         v = foldl (\<lambda>v c. v * 16 + hex_digit_value c) 0 digits
     in if digits = [] \<or> \<not> list_all is_hex_digit digits \<or> 2 ^ 64 \<le> v then None else Some (of_nat v))"

(* rollout.rs:6859-6873 uuid_v7_timestamp_ms *)
definition uuid_v7_timestamp_ms :: "string \<Rightarrow> u64 option" where
  "uuid_v7_timestamp_ms s =
    (if length s = 36 \<and> s ! 8 = CHR ''-'' \<and> s ! 13 = CHR ''-'' \<and> s ! 14 = CHR ''7'' \<and> s ! 18 = CHR ''-''
        \<and> s ! 23 = CHR ''-''
     then parse_hex_u64 (take 8 s @ take 4 (drop 9 s)) else None)"

text \<open>
  \<open>created_at - 2 s\<close> panics when it leaves the range of instants: the result is then \<open>None\<close>.
\<close>

(* rollout.rs:6823-6857 starts_owning_segment *)
definition starts_owning_segment ::
  "chrono_range \<Rightarrow> chrono_lib \<Rightarrow> string option \<Rightarrow> json_map option \<Rightarrow> string \<Rightarrow> datetime option \<Rightarrow> bool option" where
  "starts_owning_segment rng ch record_type payload owner created =
    (if record_type \<noteq> Some ''event_msg'' then Some False
     else case payload of
         None \<Rightarrow> Some False
       | Some m \<Rightarrow>
           if string_field_in m [''type''] \<noteq> Some ''task_started'' then Some False
           else
             let by_uuid = (case (Option.bind (string_field_in m [''turn_id'', ''turnId'']) uuid_v7_timestamp_ms,
                   uuid_v7_timestamp_ms owner) of
                 (Some turn, Some thread) \<Rightarrow> thread \<le> turn
               | _ \<Rightarrow> False)
             in case (Option.bind (get_either m ''started_at'' ''startedAt'') (parse_timestamp ch), created) of
                 (Some started, Some created_at) \<Rightarrow>
                   map_option (\<lambda>limit. by_uuid \<or> limit \<le> started) (checked_sub_signed rng created_at (seconds 2))
               | _ \<Rightarrow> Some by_uuid)"

text \<open>The last foreign baseline before the end, with only settings and metadata after it.\<close>

fun trailing_baseline :: "parsed_event list \<Rightarrow> nat option" where
  "trailing_baseline [] = None"
| "trailing_baseline (ForeignCounterBaseline _ _ # es) = Some (length es)"
| "trailing_baseline (ForeignThreadSettingsBaseline _ _ _ # es) = trailing_baseline es"
| "trailing_baseline (SessionMeta _ _ # es) = trailing_baseline es"
| "trailing_baseline (_ # es) = None"

(* rollout.rs:5789-5825 retain_latest_foreign_baseline *)
definition retain_latest_foreign_baseline ::
  "datetime \<Rightarrow> token_usage \<Rightarrow> parsed_event list \<Rightarrow> bool \<times> parsed_event list" where
  "retain_latest_foreign_baseline timestamp total_usage events =
    (case trailing_baseline (rev events) of
       Some i \<Rightarrow> (False, events[i := ForeignCounterBaseline timestamp total_usage])
     | None \<Rightarrow> (True, events @ [ForeignCounterBaseline timestamp total_usage]))"

(* rollout.rs:5827-5838 retain_latest_foreign_thread_settings *)
definition retain_latest_foreign_thread_settings ::
  "datetime \<Rightarrow> string option \<Rightarrow> string option \<Rightarrow> parsed_event list \<Rightarrow> parsed_event list" where
  "retain_latest_foreign_thread_settings timestamp model tier events =
    events @ [ForeignThreadSettingsBaseline timestamp model tier]"

section \<open>The reader\<close>

text \<open>What the parser is given: the instants, the JSON decoder, the redaction flag and the file time.\<close>

record parse_env =
  pe_range :: chrono_range
  pe_chrono :: chrono_lib
  pe_from_slice :: "string \<Rightarrow> json option"
  pe_redact_content :: bool
  pe_modified_at :: datetime

text \<open>The parsed file and the local variables of the loop.\<close>

(* rollout.rs:5405-5410 parse_rollout_reader_with_limit (locals) *)
record parse_state =
  pt_parsed :: parsed_file
  pt_owner :: "string option"
  pt_created_at :: "datetime option"
  pt_foreign :: bool
  pt_inherit :: bool

definition on_parsed :: "(parsed_file \<Rightarrow> parsed_file) \<Rightarrow> parse_state \<Rightarrow> parse_state" where
  "on_parsed f st = st\<lparr>pt_parsed := f (pt_parsed st)\<rparr>"

definition push_event :: "parsed_event \<Rightarrow> parsed_file \<Rightarrow> parsed_file" where
  "push_event e p = p\<lparr>pf_events := pf_events p @ [e]\<rparr>"

definition skip_line :: "parse_warning \<Rightarrow> parsed_file \<Rightarrow> parsed_file" where
  "skip_line w p = push_parsed_warning w (p\<lparr>pf_skipped_lines := sat_add (pf_skipped_lines p) 1\<rparr>)"

definition widen_replay :: "datetime \<Rightarrow> parsed_file \<Rightarrow> parsed_file" where
  "widen_replay t p = p\<lparr>pf_replay_started_at := set_min_timestamp t (pf_replay_started_at p),
     pf_replay_updated_at := set_max_timestamp t (pf_replay_updated_at p)\<rparr>"

definition SESSION_FIELDS :: "string list" where
  "SESSION_FIELDS = [''cwd'', ''source'', ''thread_source'', ''threadSource'', ''originator'', ''timestamp'',
     ''parent_thread_id'', ''parentThreadId'', ''forked_from_id'', ''forkedFromId'']"

(* rollout.rs:5508-5533 parse_rollout_reader_with_limit (owned session metadata) *)
definition own_session_meta ::
  "datetime option \<Rightarrow> datetime option \<Rightarrow> datetime \<Rightarrow> json_map \<Rightarrow> parsed_file \<Rightarrow> parsed_file" where
  "own_session_meta explicit payload_time session_time payload p =
    push_event (SessionMeta session_time (projected_payload payload SESSION_FIELDS))
      (case opt_or explicit payload_time of
         Some t \<Rightarrow> widen_replay t p
       | None \<Rightarrow> p\<lparr>pf_replay_timestamps_complete := False\<rparr>)"

(* rollout.rs:5473-5473 parse_rollout_reader_with_limit (explicit timestamp) *)
definition explicit_time :: "parse_env \<Rightarrow> json \<Rightarrow> datetime option" where
  "explicit_time env record = Option.bind (value_at record [''timestamp'']) (parse_timestamp (pe_chrono env))"

(* rollout.rs:5474-5474 parse_rollout_reader_with_limit (timestamp) *)
definition record_time :: "parse_env \<Rightarrow> json \<Rightarrow> datetime" where
  "record_time env record = (case explicit_time env record of Some t \<Rightarrow> t | None \<Rightarrow> pe_modified_at env)"

(* rollout.rs:5476-5572 parse_rollout_reader_with_limit (session_meta) *)
definition parse_session_meta :: "parse_env \<Rightarrow> usize \<Rightarrow> json \<Rightarrow> parse_state \<Rightarrow> parse_state" where
  "parse_session_meta env line_number record st =
    (case object_at record [''payload''] of
       None \<Rightarrow> st
     | Some payload \<Rightarrow> (case string_field_in payload [''id''] of
         None \<Rightarrow> on_parsed (push_parsed_warning (SessionWithoutId line_number)) st
       | Some thread_id \<Rightarrow>
           let explicit = explicit_time env record;
               payload_time = Option.bind (bt_get payload ''timestamp'') (parse_timestamp (pe_chrono env));
               timestamp = record_time env record;
               session_time = (case (explicit, payload_time) of
                   (Some a, Some b) \<Rightarrow> max a b
                 | (Some a, None) \<Rightarrow> a
                 | (None, Some b) \<Rightarrow> b
                 | (None, None) \<Rightarrow> pe_modified_at env)
           in (case pt_owner st of
                 None \<Rightarrow> on_parsed (\<lambda>p. own_session_meta explicit payload_time session_time payload
                     (p\<lparr>pf_owner_thread_id := Some thread_id\<rparr>))
                   (st\<lparr>pt_created_at := opt_or payload_time (Some timestamp), pt_owner := Some thread_id,
                     pt_foreign := is_forked_session payload,
                     pt_inherit := inherits_plain_thread_spawn_settings payload (Some thread_id)\<rparr>)
               | Some owner \<Rightarrow>
                   if owner = thread_id
                   then on_parsed (own_session_meta explicit payload_time session_time payload) (st\<lparr>pt_foreign := False\<rparr>)
                   else st\<lparr>pt_foreign := True\<rparr>)))"

(* rollout.rs:5591-5620 parse_rollout_reader_with_limit (foreign history) *)
definition parse_foreign :: "string option \<Rightarrow> json \<Rightarrow> datetime \<Rightarrow> parse_state \<Rightarrow> parse_state" where
  "parse_foreign record_type record timestamp st =
    (case (if record_type = Some ''event_msg'' then object_at record [''payload''] else None) of
       None \<Rightarrow> st
     | Some payload \<Rightarrow>
         let settings = (if pt_inherit st \<and> string_field_in payload [''type''] = Some ''thread_settings_applied''
               then let (model, tier) = inherited_thread_settings_snapshot payload
                 in on_parsed (\<lambda>p. p\<lparr>pf_events := retain_latest_foreign_thread_settings timestamp model tier
                      (pf_events p)\<rparr>) st
               else st)
         in (case (if string_field_in payload [''type''] = Some ''token_count'' then total_token_usage payload else None) of
               None \<Rightarrow> settings
             | Some total_usage \<Rightarrow>
                 let (added, events) = retain_latest_foreign_baseline timestamp total_usage (pf_events (pt_parsed st));
                     st = on_parsed (\<lambda>p. p\<lparr>pf_events := events\<rparr>) st
                 in if added
                    then on_parsed (\<lambda>p. p\<lparr>pf_foreign_baseline_events := pf_foreign_baseline_events p + 1\<rparr>) st
                    else st))"

(* rollout.rs:5643-5662 parse_rollout_reader_with_limit (request usage) *)
definition parse_request_usage :: "json_map \<Rightarrow> datetime \<Rightarrow> parsed_event option" where
  "parse_request_usage payload timestamp =
    Option.bind (string_field_in payload [''turn_id'']) (\<lambda>turn_id.
    Option.bind (string_field_in payload [''response_id'']) (\<lambda>response_id.
    if turn_id = [] \<or> response_id = [] \<or> 1024 < length response_id then None
    else Option.bind (Option.bind (bt_get payload ''usage'') parse_token_usage) (\<lambda>usage.
      if has_valid_breakdown usage
      then Some (RequestUsage timestamp turn_id response_id usage
        (opt_filter has_valid_breakdown (Option.bind (bt_get payload ''turn_token_usage'') parse_token_usage)))
      else None)))"

(* rollout.rs:5694-5744 parse_rollout_reader_with_limit (event_msg) *)
definition parse_event_msg ::
  "parse_env \<Rightarrow> bool \<Rightarrow> json_map \<Rightarrow> datetime option \<Rightarrow> datetime \<Rightarrow> usize \<Rightarrow> parsed_event list" where
  "parse_event_msg env inherit payload explicit timestamp line_number =
    (let kind = string_field_in payload [''type''] in
     if kind = Some ''user_message'' then
       (case (if pe_redact_content env then None
              else Option.bind (Option.bind (Option.bind (bt_get payload ''message'') as_str) user_authored_input_text)
                title_preview) of
          Some title \<Rightarrow> [UserMessage timestamp title (string_field_in payload [''turn_id'', ''turnId'']) EventMessage]
        | None \<Rightarrow> [])
     else if kind = Some ''thread_settings_applied'' then
       [ThreadSettingsApplied timestamp
          (Option.bind (object_field payload ''thread_settings'' ''threadSettings'')
            (\<lambda>settings. normalized_service_tier settings inherit))]
     else case subagent_activity payload of
         Some (call_id, child, interaction) \<Rightarrow>
           [AgentActivity explicit
              (opt_or (Option.bind (get_either payload ''occurred_at_ms'' ''occurredAtMs'') (parse_timestamp (pe_chrono env)))
                explicit) call_id child interaction]
       | None \<Rightarrow> (case cache_event_message (pe_chrono env) payload timestamp line_number of
             Some e \<Rightarrow> [e] | None \<Rightarrow> []))"

(* rollout.rs:5745-5767 parse_rollout_reader_with_limit (response_item) *)
definition parse_response_item ::
  "parse_env \<Rightarrow> json_map \<Rightarrow> datetime option \<Rightarrow> datetime \<Rightarrow> parsed_event list" where
  "parse_response_item env payload explicit timestamp =
    (case response_item_agent_call payload of
       Some (call_id, turn, kind) \<Rightarrow> [AgentCall explicit call_id turn kind] | None \<Rightarrow> [])
    @ (case (if pe_redact_content env then None else response_item_user_message payload) of
         Some (preview, turn_id) \<Rightarrow> [UserMessage timestamp preview turn_id ResponseItem] | None \<Rightarrow> [])"

(* rollout.rs:5633-5772 parse_rollout_reader_with_limit (events) *)
definition parse_owned ::
  "parse_env \<Rightarrow> usize \<Rightarrow> string \<Rightarrow> string option \<Rightarrow> json \<Rightarrow> datetime option \<Rightarrow> datetime \<Rightarrow> bool \<Rightarrow> parsed_file \<Rightarrow> parsed_file" where
  "parse_owned env line_number owner record_type record explicit timestamp inherit p =
    (let payload = object_at record [''payload''];
         finish = (\<lambda>es. p\<lparr>pf_events := pf_events p @ (if es = [] then [Activity timestamp] else es)\<rparr>)
     in if record_type = Some ''token_usage_record'' then
          (case payload of
             None \<Rightarrow> p
           | Some m \<Rightarrow>
               if string_field_in m [''thread_id''] \<noteq> Some owner then p
               else (case parse_request_usage m timestamp of
                   Some e \<Rightarrow> finish [e]
                 | None \<Rightarrow> push_event (Activity timestamp) (push_parsed_warning (InvalidRequestUsage line_number)
                     (p\<lparr>pf_skipped_lines := pf_skipped_lines p + 1\<rparr>))))
        else case payload of
            None \<Rightarrow> finish []
          | Some m \<Rightarrow> finish
              (if record_type = Some ''turn_context'' then
                 [TurnContext timestamp (projected_payload m
                    [''turn_id'', ''turnId'', ''model'', ''effort'', ''reasoning_effort'', ''reasoningEffort''])]
               else if record_type = Some ''event_msg'' then parse_event_msg env inherit m explicit timestamp line_number
               else if record_type = Some ''response_item'' then parse_response_item env m explicit timestamp
               else []))"

(* rollout.rs:5580-5588 parse_rollout_reader_with_limit (ownership) *)
definition record_owned :: "parse_env \<Rightarrow> json \<Rightarrow> string \<Rightarrow> parse_state \<Rightarrow> bool option" where
  "record_owned env record owner st =
    (let record_type = string_field record [''type''] in
     if \<not> pt_foreign st \<or> (record_type = Some ''token_usage_record''
          \<and> string_field record [''payload'', ''thread_id''] = Some owner)
     then Some True
     else starts_owning_segment (pe_range env) (pe_chrono env) record_type (object_at record [''payload'']) owner
       (pt_created_at st))"

(* rollout.rs:5621-5631 parse_rollout_reader_with_limit (bounds) *)
definition widen_bounds :: "string option \<Rightarrow> datetime option \<Rightarrow> datetime \<Rightarrow> parsed_file \<Rightarrow> parsed_file" where
  "widen_bounds record_type explicit timestamp p =
    (let p = (case explicit of
           Some t \<Rightarrow> widen_replay t p
         | None \<Rightarrow>
             if record_type \<in> {Some ''turn_context'', Some ''event_msg'', Some ''response_item''}
             then p\<lparr>pf_replay_timestamps_complete := False\<rparr> else p)
     in p\<lparr>pf_activity_updated_at := set_max_timestamp timestamp (pf_activity_updated_at p)\<rparr>)"

(* rollout.rs:5472-5772 parse_rollout_reader_with_limit (record) *)
definition parse_record :: "parse_env \<Rightarrow> usize \<Rightarrow> json \<Rightarrow> parse_state \<Rightarrow> parse_state option" where
  "parse_record env line_number record st =
    (let record_type = string_field record [''type''];
         explicit = explicit_time env record;
         timestamp = record_time env record
     in if record_type = Some ''session_meta'' then Some (parse_session_meta env line_number record st)
        else case pt_owner st of
            None \<Rightarrow> Some st
          | Some owner \<Rightarrow> map_option (\<lambda>owned.
              if \<not> owned then parse_foreign record_type record timestamp st
              else on_parsed (\<lambda>p. parse_owned env line_number owner record_type record explicit timestamp (pt_inherit st)
                  (widen_bounds record_type explicit timestamp p)) (st\<lparr>pt_foreign := False\<rparr>))
              (record_owned env record owner st))"

(* rollout.rs:5431-5470 parse_rollout_reader_with_limit (line) *)
definition parse_line :: "parse_env \<Rightarrow> bounded_line \<Rightarrow> string \<Rightarrow> parse_state \<Rightarrow> parse_state option" where
  "parse_line env status line st =
    (let st = on_parsed (\<lambda>p. p\<lparr>pf_source_lines := sat_add (pf_source_lines p) 1\<rparr>) st;
         line_number = pf_source_lines (pt_parsed st)
     in if status = LineTooLong then Some (on_parsed (skip_line (OversizedLine line_number)) st)
        else case pe_from_slice env line of
            None \<Rightarrow> Some (on_parsed (skip_line (MalformedLine line_number)) st)
          | Some v \<Rightarrow> (case as_object v of
                None \<Rightarrow> Some (on_parsed (skip_line (NonObjectLine line_number)) st)
              | Some _ \<Rightarrow> parse_record env line_number v
                  (on_parsed (\<lambda>p. p\<lparr>pf_parsed_lines := pf_parsed_lines p + 1\<rparr>) st)))"

lemma bounded_loop_shrinks:
  "bounded_loop max_bytes fails bytes acc saw pending_cr = Inr (status, out, rest)
    \<Longrightarrow> length rest \<le> length bytes \<and> (bytes \<noteq> [] \<longrightarrow> length rest < length bytes)
      \<and> (bytes = [] \<and> \<not> saw \<longrightarrow> status = LineEof)"
  by (induction max_bytes fails bytes acc saw pending_cr rule: bounded_loop.induct)
    (auto simp: Let_def split: if_splits prod.splits)

lemma read_bounded_line_shrinks:
  "read_bounded_line max_bytes fails bytes = Inr (status, out, rest) \<Longrightarrow> status \<noteq> LineEof
    \<Longrightarrow> length rest < length bytes"
  unfolding read_bounded_line_def using bounded_loop_shrinks by fastforce

text \<open>The loop over the lines; the flag tells that reading failed.\<close>

(* rollout.rs:5412-5773 parse_rollout_reader_with_limit (loop) *)
function parse_lines :: "parse_env \<Rightarrow> nat \<Rightarrow> bool \<Rightarrow> string \<Rightarrow> parse_state \<Rightarrow> (bool \<times> parse_state) option" where
  "parse_lines env max_bytes fails bytes st = (case read_bounded_line max_bytes fails bytes of
      Inl _ \<Rightarrow> Some (True, on_parsed (\<lambda>p. push_parsed_warning (UnreadableLine (sat_add (pf_source_lines p) 1))
          (p\<lparr>pf_skipped_lines := sat_add (pf_skipped_lines p) 1,
             pf_unreadable_files := sat_add (pf_unreadable_files p) 1\<rparr>)) st)
    | Inr (status, line, rest) \<Rightarrow>
        if status = LineEof then Some (False, st)
        else Option.bind (parse_line env status line st) (parse_lines env max_bytes fails rest))"
  by pat_completeness auto
termination
  by (relation "measure (\<lambda>(env, max_bytes, fails, bytes, st). length bytes)") (auto dest: read_bounded_line_shrinks)

declare parse_lines.simps [simp del]

(* rollout.rs:5398-5779 parse_rollout_reader_with_limit *)
definition parse_rollout_reader_with_limit ::
  "parse_env \<Rightarrow> nat \<Rightarrow> bool \<Rightarrow> string \<Rightarrow> parsed_file \<Rightarrow> parsed_file option" where
  "parse_rollout_reader_with_limit env max_bytes fails bytes p =
    map_option (\<lambda>(read_failed, st). (pt_parsed st)\<lparr>pf_owning_created_at := pt_created_at st,
        pf_replaying_foreign_history := pt_foreign st, pf_inherit_foreign_thread_settings := pt_inherit st,
        pf_complete := \<not> read_failed\<rparr>)
      (parse_lines env max_bytes fails bytes \<lparr>pt_parsed = p, pt_owner = pf_owner_thread_id p,
         pt_created_at = pf_owning_created_at p, pt_foreign = pf_replaying_foreign_history p,
         pt_inherit = pf_inherit_foreign_thread_settings p\<rparr>)"

(* rollout.rs:5389-5396 parse_rollout_reader *)
definition parse_rollout_reader :: "parse_env \<Rightarrow> bool \<Rightarrow> string \<Rightarrow> parsed_file \<Rightarrow> parsed_file option" where
  "parse_rollout_reader env = parse_rollout_reader_with_limit env ROLLOUT_MAX_LINE_BYTES"

text \<open>A file that cannot be opened is \<open>None\<close>.\<close>

(* rollout.rs:5365-5387 parse_rollout_file *)
definition parse_rollout_file :: "parse_env \<Rightarrow> (bool \<times> string) option \<Rightarrow> parsed_file option" where
  "parse_rollout_file env handle = (case handle of
      None \<Rightarrow> Some (parsed_file_default\<lparr>pf_unreadable_files := 1, pf_warnings := [UnopenedFile]\<rparr>)
    | Some (fails, bytes) \<Rightarrow>
        parse_rollout_reader env fails bytes (parsed_file_default\<lparr>pf_replay_timestamps_complete := True\<rparr>))"

end
