(* ===== verification/Rollout_Refresh.thy ===== *)
theory Rollout_Refresh
  imports Rollout_Events
begin

text \<open>
  The refresh of one cached session log, \<open>src/rollout.rs\<close>: an appended file is parsed from the
  end of the cached prefix when a guard over the last bytes of the prefix still matches, and a
  file that changes while it is read is read once more.

  A path is the list of its components.  The file system may change between any two
  operations, so each attempt is given what its operations observe, as a record: the bytes of a
  handle, and whether a read error follows them; an operation that fails is \<open>None\<close>.  Seeking in
  an open file succeeds.  A panic of the parser is the result \<open>None\<close>.
\<close>

type_synonym path = "string list"

(* rollout.rs:83-102 FileFingerprint *)
record fingerprint =
  fp_len :: u64
  fp_modified :: datetime
  fp_dev :: u64
  fp_ino :: u64
  fp_ctime :: int
  fp_ctime_nsec :: int

(* rollout.rs:135-139 FileFingerprint::same_source_identity *)
definition same_source_identity :: "fingerprint \<Rightarrow> fingerprint \<Rightarrow> bool" where
  "same_source_identity a b = (fp_dev a = fp_dev b \<and> fp_ino a = fp_ino b)"

(* rollout.rs:154-164 FileFingerprint::eq *)
definition fingerprint_eq :: "fingerprint \<Rightarrow> fingerprint \<Rightarrow> bool" where
  "fingerprint_eq a b =
    (if fp_len a \<noteq> fp_len b \<or> fp_modified a \<noteq> fp_modified b then False
     else fp_dev a = fp_dev b \<and> fp_ino a = fp_ino b \<and> fp_ctime a = fp_ctime b \<and> fp_ctime_nsec a = fp_ctime_nsec b)"

(* rollout.rs:76-80 RolloutFile *)
record rollout_file =
  rf_path :: path
  rf_modified_at :: datetime
  rf_fingerprint :: fingerprint

(* rollout.rs:423-427 CachedFile *)
record cached_file =
  cf_fingerprint :: fingerprint
  cf_parsed :: parsed_file

(* rollout.rs:5108-5114 StableParse *)
record stable_parse =
  sp_cached :: cached_file
  sp_stability_retries :: usize
  sp_tail_parsed :: bool
  sp_parsed_bytes :: u64
  sp_tail_guard_validation_bytes :: u64

text \<open>What the operations of one attempt observe.\<close>

record io_attempt =
  io_tail_handle :: "(bool \<times> string) option"
  io_full_handle :: "(bool \<times> string) option"
  io_after :: "rollout_file option"
  io_guard_handle :: "string option"
  io_final :: "fingerprint option"

section \<open>The guard of a parsed prefix\<close>

definition FNV_OFFSET :: u64 where "FNV_OFFSET = 0xcbf29ce484222325"
definition FNV_PRIME :: u64 where "FNV_PRIME = 0x100000001b3"

definition fnv_step :: "u64 \<Rightarrow> u64 \<Rightarrow> u64" where
  "fnv_step h b = (h XOR b) * FNV_PRIME"

(* rollout.rs:4018-4032 stable_hash *)
definition stable_hash :: "string list \<Rightarrow> u64" where
  "stable_hash parts = fold (\<lambda>part h. fnv_step (fold (\<lambda>c h. fnv_step h (of_nat (byte c))) part h) 0xff) parts FNV_OFFSET"

(* rollout.rs:61-61 TAIL_GUARD_BYTES *)
definition TAIL_GUARD_BYTES :: nat where "TAIL_GUARD_BYTES = 256"

text \<open>\<open>read_exact\<close> of \<open>n\<close> bytes from an offset.\<close>

definition read_exact_at :: "string \<Rightarrow> nat \<Rightarrow> nat \<Rightarrow> string option" where
  "read_exact_at bytes offset n =
    (if length bytes < offset + n then None else Some (take n (drop offset bytes)))"

text \<open>The result and the number of bytes read; a read error of the handle lies after its bytes.\<close>

(* rollout.rs:5309-5334 tail_guard_matches_counted *)
definition tail_guard_matches_counted :: "string \<Rightarrow> u64 \<Rightarrow> tail_guard \<Rightarrow> u64 \<Rightarrow> bool \<times> u64" where
  "tail_guard_matches_counted bytes prefix_len expected bytes_read =
    (let guard_len = unat (tg_len expected) in
     if prefix_len = 0 then (guard_len = 0, bytes_read)
     else if guard_len = 0 \<or> unat prefix_len < guard_len then (False, bytes_read)
     else case read_exact_at bytes (unat prefix_len - guard_len) guard_len of
         None \<Rightarrow> (False, bytes_read)
       | Some guard \<Rightarrow> (stable_hash [guard] = tg_hash expected, sat_add bytes_read (of_nat guard_len)))"

(* rollout.rs:5336-5353 update_tail_guard *)
definition update_tail_guard :: "string option \<Rightarrow> u64 \<Rightarrow> parsed_file \<Rightarrow> parsed_file option" where
  "update_tail_guard handle file_len p =
    (if file_len = 0 then Some (p\<lparr>pf_ends_with_newline := False, pf_tail_guard := tail_guard_default\<rparr>)
     else
       let guard_len = min (unat file_len) TAIL_GUARD_BYTES in
       Option.bind handle (\<lambda>bytes.
       map_option (\<lambda>guard. p\<lparr>pf_ends_with_newline := (guard \<noteq> [] \<and> last guard = LF),
           pf_tail_guard := \<lparr>tg_len = of_nat guard_len, tg_hash = stable_hash [guard]\<rparr>\<rparr>)
         (read_exact_at bytes (unat file_len - guard_len) guard_len)))"

(* rollout.rs:5261-5267 can_tail_parse *)
definition can_tail_parse :: "cached_file \<Rightarrow> rollout_file \<Rightarrow> bool" where
  "can_tail_parse previous file =
    (pf_complete (cf_parsed previous) \<and> pf_ends_with_newline (cf_parsed previous)
     \<and> fp_len (cf_fingerprint previous) < fp_len (rf_fingerprint file)
     \<and> same_source_identity (cf_fingerprint previous) (rf_fingerprint file)
     \<and> (fp_len (cf_fingerprint previous) = 0 \<or> 0 < tg_len (pf_tail_guard (cf_parsed previous))))"

section \<open>Parsing a candidate\<close>

text \<open>The parser is given the modification time of the file it reads.\<close>

definition env_at :: "parse_env \<Rightarrow> rollout_file \<Rightarrow> parse_env" where
  "env_at env file = env\<lparr>pe_modified_at := rf_modified_at file\<rparr>"

(* rollout.rs:5269-5307 parse_rollout_tail *)
definition parse_rollout_tail ::
  "parse_env \<Rightarrow> (bool \<times> string) option \<Rightarrow> rollout_file \<Rightarrow> cached_file \<Rightarrow> (parsed_file option \<times> u64) option" where
  "parse_rollout_tail env handle file previous = (case handle of
      None \<Rightarrow> Some (None, 0)
    | Some (fails, bytes) \<Rightarrow>
        let prefix_len = fp_len (cf_fingerprint previous);
            (matches, guard_bytes) =
              tail_guard_matches_counted bytes prefix_len (pf_tail_guard (cf_parsed previous)) 0
        in if \<not> matches then Some (None, guard_bytes)
           else map_option (\<lambda>p. (Some p, guard_bytes))
             (parse_rollout_reader (env_at env file) fails (drop (unat prefix_len) bytes)
               ((cf_parsed previous)\<lparr>pf_complete := False\<rparr>)))"

(* rollout.rs:5228-5259 parse_rollout_candidate *)
definition parse_rollout_candidate ::
  "parse_env \<Rightarrow> io_attempt \<Rightarrow> rollout_file \<Rightarrow> cached_file option \<Rightarrow> (parsed_file \<times> bool \<times> u64 \<times> u64) option" where
  "parse_rollout_candidate env io file previous =
    (let full = (\<lambda>guard_bytes. map_option (\<lambda>p. (p, False, fp_len (rf_fingerprint file), guard_bytes))
           (parse_rollout_file (env_at env file) (io_full_handle io)))
     in case previous of
         None \<Rightarrow> full 0
       | Some cached \<Rightarrow>
           if can_tail_parse cached file
           then Option.bind (parse_rollout_tail env (io_tail_handle io) file cached) (\<lambda>(parsed, guard_bytes).
             case parsed of
               Some p \<Rightarrow> Some (p, True, sat_sub (fp_len (rf_fingerprint file)) (fp_len (cf_fingerprint cached)), guard_bytes)
             | None \<Rightarrow> full guard_bytes)
           else full 0)"

section \<open>Stability\<close>

definition mark_unreadable :: "parse_warning \<Rightarrow> parsed_file \<Rightarrow> parsed_file" where
  "mark_unreadable w p =
    push_parsed_warning w (p\<lparr>pf_complete := False, pf_unreadable_files := pf_unreadable_files p + 1\<rparr>)"

text \<open>One attempt ends with a result or with the file to read again.\<close>

(* rollout.rs:5131-5223 refresh_stable_rollout_file (attempt) *)
definition refresh_attempt ::
  "parse_env \<Rightarrow> io_attempt \<Rightarrow> nat \<Rightarrow> rollout_file \<Rightarrow> cached_file option \<Rightarrow> u64 \<Rightarrow> u64
    \<Rightarrow> (stable_parse + rollout_file \<times> u64 \<times> u64) option" where
  "refresh_attempt env io attempt candidate previous parsed_bytes guard_bytes =
    Option.bind (parse_rollout_candidate env io candidate previous) (\<lambda>(parsed, tail_parsed, bytes_read, guard_read).
      let parsed_bytes = sat_add parsed_bytes bytes_read;
          guard_bytes = sat_add guard_bytes guard_read;
          result = (\<lambda>fp p tail. Some (Inl \<lparr>sp_cached = \<lparr>cf_fingerprint = fp, cf_parsed = p\<rparr>,
            sp_stability_retries = of_nat attempt, sp_tail_parsed = tail, sp_parsed_bytes = parsed_bytes,
            sp_tail_guard_validation_bytes = guard_bytes\<rparr>))
      in case io_after io of
          None \<Rightarrow> result (rf_fingerprint candidate) (mark_unreadable UninspectedFile parsed) False
        | Some after \<Rightarrow>
            let same = fingerprint_eq (rf_fingerprint after) (rf_fingerprint candidate);
                guarded = (if same \<and> pf_complete parsed
                  then (case update_tail_guard (io_guard_handle io) (fp_len (rf_fingerprint after)) parsed of
                      Some p \<Rightarrow> p | None \<Rightarrow> mark_unreadable UnguardedFile parsed)
                  else parsed);
                final_fp = (case io_final io of Some fp \<Rightarrow> fp | None \<Rightarrow> rf_fingerprint after)
            in if same \<and> fingerprint_eq final_fp (rf_fingerprint after)
               then result (rf_fingerprint after) guarded tail_parsed
               else if attempt = 0
               then Some (Inr (if same
                   then candidate\<lparr>rf_modified_at := fp_modified final_fp, rf_fingerprint := final_fp\<rparr>
                   else after, parsed_bytes, guard_bytes))
               else result (rf_fingerprint after) (mark_unreadable UnstableFile guarded) False)"

text \<open>Two attempts; a third is \<open>unreachable!\<close>, a panic.\<close>

(* rollout.rs:5122-5226 refresh_stable_rollout_file *)
definition refresh_stable_rollout_file ::
  "parse_env \<Rightarrow> (nat \<Rightarrow> io_attempt) \<Rightarrow> rollout_file \<Rightarrow> cached_file option \<Rightarrow> stable_parse option" where
  "refresh_stable_rollout_file env io file previous =
    Option.bind (refresh_attempt env (io 0) 0 file previous 0 0) (\<lambda>first. case first of
        Inl done \<Rightarrow> Some done
      | Inr (candidate, parsed_bytes, guard_bytes) \<Rightarrow>
          Option.bind (refresh_attempt env (io 1) 1 candidate None parsed_bytes guard_bytes) (\<lambda>second. case second of
              Inl done \<Rightarrow> Some done
            | Inr _ \<Rightarrow> None))"

end
