(* ===== verification/Rollout_Replay.thy ===== *)
theory Rollout_Replay
  imports Rollout_Refresh
begin

text \<open>
  The replay of parsed session logs, \<open>src/rollout.rs\<close> and \<open>src/rollout/request_evidence.rs\<close>:
  threads and turns are rebuilt from the events of a file, cumulative token counters become
  calls, request records cover their mirrored counters, files are reduced in full or
  incrementally, and a dataset is materialized as of an instant.

  A hash map is an ordered map whose iteration order is a parameter \<open>order\<close> on its keys.
  SHA-256 is a parameter.
\<close>

section \<open>State\<close>

(* rollout.rs:914-918 ParentThreadRank *)
datatype parent_thread_rank = ForkRank | DirectRank | NestedRank

instantiation parent_thread_rank :: linorder
begin

fun rank_index :: "parent_thread_rank \<Rightarrow> nat" where
  "rank_index ForkRank = 0"
| "rank_index DirectRank = 1"
| "rank_index NestedRank = 2"

definition less_eq_parent_thread_rank :: "parent_thread_rank \<Rightarrow> parent_thread_rank \<Rightarrow> bool" where
  "a \<le> b = (rank_index a \<le> rank_index b)"

definition less_parent_thread_rank :: "parent_thread_rank \<Rightarrow> parent_thread_rank \<Rightarrow> bool" where
  "a < b = (rank_index a < rank_index b)"

instance
proof
  fix a b :: parent_thread_rank
  show "a = b" if "a \<le> b" "b \<le> a"
    using that by (cases a; cases b) (simp_all add: less_eq_parent_thread_rank_def)
qed (auto simp: less_eq_parent_thread_rank_def less_parent_thread_rank_def)

end

(* rollout.rs:949-954 AgentCallEvidence *)
record agent_call_evidence =
  ac_requested_at :: "datetime option"
  ac_call_id :: string
  ac_parent_turn_id :: string
  ac_kind :: agent_interaction_kind

(* rollout.rs:957-962 AgentActivityEvidence *)
record agent_activity_evidence =
  aa_occurred_at :: "datetime option"
  aa_call_id :: string
  aa_child_thread_id :: string
  aa_kind :: agent_interaction_kind

(* rollout.rs:965-977 TurnBuilder *)
record turn_builder =
  tu_turn_id :: string
  tu_model :: "string option"
  tu_reasoning_effort :: "string option"
  tu_service_tier :: "string option"
  tu_message_preview :: "string option"
  tu_message_source :: "user_message_source option"
  tu_started_at :: "datetime option"
  tu_completed_at :: "datetime option"
  tu_duration_ms :: "u64 option"
  tu_status :: turn_status
  tu_token_usage :: token_usage

(* rollout.rs:921-946 ThreadBuilder *)
record thread_builder =
  tb_thread_id :: string
  tb_parent_thread_id :: "string option"
  tb_parent_thread_rank :: "parent_thread_rank option"
  tb_seen_active_file :: bool
  tb_seen_archived_file :: bool
  tb_title :: "string option"
  tb_title_source :: "user_message_source option"
  tb_title_turn_id :: "string option"
  tb_cwd :: "string option"
  tb_source :: "string option"
  tb_created_at :: "datetime option"
  tb_updated_at :: "datetime option"
  tb_session_metadata_updated_at :: "datetime option"
  tb_service_tier :: "string option"
  tb_service_tier_observed :: bool
  tb_inherited_thread_settings :: "(string \<times> string) option"
  tb_active_turn_ids :: "string list"
  tb_last_turn_id :: "string option"
  tb_previous_cumulative :: "token_usage option"
  tb_incomplete_counter_boundary :: bool
  tb_token_usage :: token_usage
  tb_turns :: "(string, turn_builder) btree"
  tb_agent_calls :: "agent_call_evidence list"
  tb_agent_activities :: "agent_activity_evidence list"

definition new_turn :: "string \<Rightarrow> turn_builder" where
  "new_turn t = \<lparr>tu_turn_id = t, tu_model = None, tu_reasoning_effort = None, tu_service_tier = None,
     tu_message_preview = None, tu_message_source = None, tu_started_at = None, tu_completed_at = None,
     tu_duration_ms = None, tu_status = TurnUnknown, tu_token_usage = token_usage_default\<rparr>"

definition new_thread :: "string \<Rightarrow> bool \<Rightarrow> thread_builder" where
  "new_thread t incomplete = \<lparr>tb_thread_id = t, tb_parent_thread_id = None, tb_parent_thread_rank = None,
     tb_seen_active_file = False, tb_seen_archived_file = False, tb_title = None, tb_title_source = None,
     tb_title_turn_id = None, tb_cwd = None, tb_source = None, tb_created_at = None, tb_updated_at = None,
     tb_session_metadata_updated_at = None, tb_service_tier = None, tb_service_tier_observed = False,
     tb_inherited_thread_settings = None, tb_active_turn_ids = [], tb_last_turn_id = None,
     tb_previous_cumulative = None, tb_incomplete_counter_boundary = incomplete,
     tb_token_usage = token_usage_default, tb_turns = [], tb_agent_calls = [], tb_agent_activities = []\<rparr>"

(* domain.rs:708-718 CollectionStats *)
record collection_stats =
  cs_discovered_files :: usize
  cs_scanned_files :: usize
  cs_truncated_files :: usize
  cs_unreadable_files :: usize
  cs_parsed_lines :: usize
  cs_skipped_lines :: usize
  cs_ambiguous_token_resets :: usize

definition collection_stats_default :: collection_stats where
  "collection_stats_default = \<lparr>cs_discovered_files = 0, cs_scanned_files = 0, cs_truncated_files = 0,
     cs_unreadable_files = 0, cs_parsed_lines = 0, cs_skipped_lines = 0, cs_ambiguous_token_resets = 0\<rparr>"

(* domain.rs:547-562 AgentInteraction *)
record agent_interaction =
  ai_kind :: agent_interaction_kind
  ai_parent_thread_id :: string
  ai_parent_turn_id :: string
  ai_child_thread_id :: string
  ai_call_id :: string
  ai_requested_at :: "datetime option"
  ai_occurred_at :: "datetime option"
  ai_provenance :: provenance

datatype rollout_warning =
    FileWarning path parse_warning
  | InvalidBreakdown string path usize
  | OutsideBoundary string path usize
  | CounterReset string path usize
  | ConflictingRequest string
  | AmbiguousOrder string
  | OwnerEvidenceIncomplete
  | DiscoveryWarning string
  | SuppressedWarnings usize

(* domain.rs:799-809 RolloutDataset *)
record rollout_dataset =
  rd_tasks :: "task_record list"
  rd_turns :: "turn_record list"
  rd_agent_interactions :: "agent_interaction list"
  rd_calls :: "usage_call list"
  rd_rate_observations :: "rate_observation list"
  rd_stats :: collection_stats
  rd_warnings :: "rollout_warning list"

definition rollout_dataset_default :: rollout_dataset where
  "rollout_dataset_default = \<lparr>rd_tasks = [], rd_turns = [], rd_agent_interactions = [], rd_calls = [],
     rd_rate_observations = [], rd_stats = collection_stats_default, rd_warnings = []\<rparr>"

section \<open>Visibility\<close>

(* rollout.rs:6392-6429 parsed_event_available_at *)
fun parsed_event_available_at :: "parsed_event \<Rightarrow> datetime option" where
  "parsed_event_available_at (SessionMeta t _) = Some t"
| "parsed_event_available_at (ForeignCounterBaseline t _) = Some t"
| "parsed_event_available_at (ForeignThreadSettingsBaseline t _ _) = Some t"
| "parsed_event_available_at (UserMessage t _ _ _) = Some t"
| "parsed_event_available_at (ThreadSettingsApplied t _) = Some t"
| "parsed_event_available_at (Activity t) = Some t"
| "parsed_event_available_at (TurnContext t _) = Some t"
| "parsed_event_available_at (RequestUsage t _ _ _ _) = Some t"
| "parsed_event_available_at (TokenCount t _ _ _ _) = Some t"
| "parsed_event_available_at (AgentCall requested _ _ _) = requested"
| "parsed_event_available_at (AgentActivity recorded occurred _ _ _) = (case (recorded, occurred) of
     (Some a, Some b) \<Rightarrow> Some (max a b) | (Some a, None) \<Rightarrow> Some a | (None, Some b) \<Rightarrow> Some b | (None, None) \<Rightarrow> None)"
| "parsed_event_available_at (TaskStarted t _ started) = Some (case started of Some s \<Rightarrow> max t s | None \<Rightarrow> t)"
| "parsed_event_available_at (TaskComplete t _ completed _) = Some (case completed of Some s \<Rightarrow> max t s | None \<Rightarrow> t)"
| "parsed_event_available_at (TurnAborted t _ completed _ _) = Some (case completed of Some s \<Rightarrow> max t s | None \<Rightarrow> t)"

(* rollout.rs:6189-6193 replay_rollout_file (event_is_visible) *)
definition event_is_visible :: "datetime option \<Rightarrow> parsed_event \<Rightarrow> bool" where
  "event_is_visible as_of e = (case as_of of
      None \<Rightarrow> True
    | Some now \<Rightarrow> (case parsed_event_available_at e of None \<Rightarrow> True | Some t \<Rightarrow> t \<le> now))"

section \<open>Request records and their mirrored counters\<close>

(* rollout/request_evidence.rs:5-10 TurnRequests *)
record turn_requests =
  tq_requests :: "(string, token_usage) btree"
  tq_sum :: token_usage
  tq_covered_through :: "nat option"
  tq_inconsistent :: bool

definition turn_requests_default :: turn_requests where
  "turn_requests_default = \<lparr>tq_requests = [], tq_sum = token_usage_default, tq_covered_through = None,
     tq_inconsistent = False\<rparr>"

record evidence_state =
  ev_turns :: "(string, turn_requests) btree"
  ev_counters :: "(nat \<times> string) list"
  ev_current_turn :: "string option"
  ev_pending_request :: "(string \<times> token_usage) option"
  ev_covered :: "nat list"

(* rollout/request_evidence.rs:47-62 request_covered_counters (request) *)
definition observe_request :: "nat \<Rightarrow> string \<Rightarrow> token_usage \<Rightarrow> token_usage option \<Rightarrow> turn_requests \<Rightarrow> turn_requests" where
  "observe_request i response_id usage turn_usage q =
    (let q' = (case bt_get (tq_requests q) response_id of
           Some previous \<Rightarrow> if previous \<noteq> usage then q\<lparr>tq_inconsistent := True\<rparr> else q
         | None \<Rightarrow> q\<lparr>tq_sum := token_add_assign (tq_sum q) usage\<rparr>);
         q' = q'\<lparr>tq_requests := bt_insert response_id usage (tq_requests q)\<rparr>
     in case turn_usage of
         None \<Rightarrow> q'
       | Some t \<Rightarrow> if t = tq_sum q' \<and> \<not> tq_inconsistent q' then q'\<lparr>tq_covered_through := Some i\<rparr>
           else q'\<lparr>tq_inconsistent := True\<rparr>)"

(* rollout/request_evidence.rs:21-87 request_covered_counters (event) *)
fun evidence_step :: "nat \<Rightarrow> parsed_event \<Rightarrow> evidence_state \<Rightarrow> evidence_state" where
  "evidence_step i (TaskStarted _ turn _) st = st\<lparr>ev_current_turn := Some turn, ev_pending_request := None\<rparr>"
| "evidence_step i (TurnContext _ payload) st = (case string_field_in payload [''turn_id'', ''turnId''] of
      None \<Rightarrow> st
    | Some turn \<Rightarrow> (if ev_current_turn st \<noteq> Some turn then st\<lparr>ev_pending_request := None\<rparr> else st)
        \<lparr>ev_current_turn := Some turn\<rparr>)"
| "evidence_step i (RequestUsage _ turn response_id usage turn_usage) st =
    st\<lparr>ev_turns := bt_update turn turn_requests_default (observe_request i response_id usage turn_usage) (ev_turns st),
       ev_pending_request := Some (turn, usage)\<rparr>"
| "evidence_step i (TokenCount _ _ total_usage last_usage _) st = (case ev_current_turn st of
      None \<Rightarrow> st
    | Some turn \<Rightarrow>
        let st' = st\<lparr>ev_counters := ev_counters st @ [(i, turn)], ev_pending_request := None\<rparr>
        in (case ev_pending_request st of
              Some (request_turn, usage) \<Rightarrow>
                if request_turn = turn \<and> last_usage = Some usage
                   \<and> (case total_usage of Some t \<Rightarrow> has_valid_breakdown t \<and> total_tokens usage \<le> total_tokens t
                        | None \<Rightarrow> False)
                then st'\<lparr>ev_covered := ev_covered st @ [i]\<rparr> else st'
            | None \<Rightarrow> st'))"
| "evidence_step i _ st = st"

definition evidence_of :: "parsed_event list \<Rightarrow> datetime option \<Rightarrow> evidence_state" where
  "evidence_of events as_of = fold (\<lambda>(i, e) st.
     if event_is_visible as_of e then evidence_step i e st else st\<lparr>ev_pending_request := None\<rparr>)
     (List.enumerate 0 events)
     \<lparr>ev_turns = [], ev_counters = [], ev_current_turn = None, ev_pending_request = None, ev_covered = []\<rparr>"

(* rollout/request_evidence.rs:12-97 request_covered_counters *)
definition request_covered_counters :: "parsed_event list \<Rightarrow> datetime option \<Rightarrow> nat list" where
  "request_covered_counters events as_of =
    (let st = evidence_of events as_of
     in ev_covered st @ List.map fst (filter (\<lambda>(i, turn). case bt_get (ev_turns st) turn of
          Some q \<Rightarrow> \<not> tq_inconsistent q \<and> (case tq_covered_through q of Some through \<Rightarrow> i \<le> through | None \<Rightarrow> False)
        | None \<Rightarrow> False) (ev_counters st)))"

section \<open>Threads and turns\<close>

(* rollout.rs:7438-7446 ensure_turn *)
definition ensure_turn :: "string \<Rightarrow> (turn_builder \<Rightarrow> turn_builder) \<Rightarrow> thread_builder \<Rightarrow> thread_builder" where
  "ensure_turn turn_id f th = th\<lparr>tb_turns := bt_update turn_id (new_turn turn_id) f (tb_turns th)\<rparr>"

(* rollout.rs:7491-7497 source_label *)
fun source_label :: "json \<Rightarrow> string option" where
  "source_label (JString s) = Some s"
| "source_label (JObject m) = (case m of [] \<Rightarrow> None | (k, _) # _ \<Rightarrow> Some k)"
| "source_label _ = None"

(* rollout.rs:7499-7529 session_source_label *)
definition session_source_label :: "json_map \<Rightarrow> string option" where
  "session_source_label payload =
    (if is_subagent_session payload then Some ''subagent''
     else case opt_filter (\<lambda>s. s \<noteq> []) (map_option trim (string_field_in payload [''originator''])) of
         Some originator \<Rightarrow> Some (if eq_ignore_ascii_case originator ''Codex Desktop'' then ''desktop''
           else if eq_ignore_ascii_case originator ''codex-tui'' then ''cli'' else originator)
       | None \<Rightarrow> opt_or (Option.bind (bt_get payload ''source'') source_label)
           (opt_filter (\<lambda>s. \<not> eq_ignore_ascii_case s ''user'')
             (string_field_in payload [''thread_source'', ''threadSource''])))"

(* rollout.rs:6086-6112 session_parent_thread_id *)
definition session_parent_thread_id :: "json_map \<Rightarrow> string option \<Rightarrow> (string \<times> parent_thread_rank) option" where
  "session_parent_thread_id payload owner =
    (if \<not> is_subagent_session payload then None
     else opt_or (opt_or
       (map_option (\<lambda>p. (p, NestedRank)) (nested_subagent_parent_thread_id payload owner))
       (map_option (\<lambda>p. (p, DirectRank))
         (valid_parent_thread_id_in payload [''parent_thread_id'', ''parentThreadId''] owner)))
       (map_option (\<lambda>p. (p, ForkRank))
         (valid_parent_thread_id_in payload [''forked_from_id'', ''forkedFromId''] owner)))"

(* rollout.rs:6431-6465 apply_session_meta *)
definition apply_session_meta :: "chrono_lib \<Rightarrow> json_map \<Rightarrow> datetime \<Rightarrow> thread_builder \<Rightarrow> thread_builder" where
  "apply_session_meta ch payload timestamp th =
    (let th = (if is_subagent_session payload \<and> tb_previous_cumulative th = None
           then th\<lparr>tb_incomplete_counter_boundary := True\<rparr> else th);
         th = th\<lparr>tb_session_metadata_updated_at := set_max_timestamp timestamp (tb_session_metadata_updated_at th)\<rparr>;
         th = (case session_parent_thread_id payload (Some (tb_thread_id th)) of
             None \<Rightarrow> th
           | Some (parent, rank) \<Rightarrow>
               if (case tb_parent_thread_rank th of None \<Rightarrow> True | Some current \<Rightarrow> current < rank)
               then th\<lparr>tb_parent_thread_id := Some parent, tb_parent_thread_rank := Some rank\<rparr> else th);
         th = (if tb_cwd th = None then th\<lparr>tb_cwd := string_field_in payload [''cwd'']\<rparr> else th);
         th = (if tb_source th = None then th\<lparr>tb_source := session_source_label payload\<rparr> else th);
         created = (case Option.bind (bt_get payload ''timestamp'') (parse_timestamp ch) of
             Some t \<Rightarrow> t | None \<Rightarrow> timestamp)
     in th\<lparr>tb_created_at := set_min_timestamp created (tb_created_at th),
          tb_updated_at := set_max_timestamp timestamp (tb_updated_at th)\<rparr>)"

(* rollout.rs:35-35 TURN_MESSAGE_PREVIEW_CHARS *)
definition TURN_MESSAGE_PREVIEW_CHARS :: nat where "TURN_MESSAGE_PREVIEW_CHARS = 72"

(* rollout.rs:6502-6510 response_item_turn_with_preview *)
definition response_item_turn_with_preview :: "thread_builder \<Rightarrow> string \<Rightarrow> string option" where
  "response_item_turn_with_preview th preview =
    find_map (\<lambda>turn_id. Option.bind (bt_get (tb_turns th) turn_id) (\<lambda>t.
      if tu_message_source t = Some ResponseItem \<and> tu_message_preview t = Some preview then Some turn_id else None))
      (rev (tb_active_turn_ids th))"

definition list_last :: "'a list \<Rightarrow> 'a option" where
  "list_last xs = (if xs = [] then None else Some (last xs))"

(* rollout.rs:6467-6500 apply_user_message *)
definition apply_user_message ::
  "string \<Rightarrow> string option \<Rightarrow> user_message_source \<Rightarrow> thread_builder \<Rightarrow> thread_builder" where
  "apply_user_message message explicit_turn_id source th =
    (let preview = shorten_preview message TURN_MESSAGE_PREVIEW_CHARS;
         turn_id = opt_or (opt_or explicit_turn_id
             (if source = EventMessage then response_item_turn_with_preview th preview else None))
           (list_last (tb_active_turn_ids th));
         newer = (\<lambda>current. case current of Some c \<Rightarrow> c < source | None \<Rightarrow> False);
         th = (if tb_title th = None \<or> (tb_title_turn_id th = turn_id \<and> newer (tb_title_source th))
           then th\<lparr>tb_title := Some message, tb_title_source := Some source, tb_title_turn_id := turn_id\<rparr> else th)
     in case turn_id of
         None \<Rightarrow> th
       | Some t \<Rightarrow> ensure_turn t (\<lambda>turn.
           if tu_message_preview turn = None \<or> newer (tu_message_source turn)
           then turn\<lparr>tu_message_preview := Some preview, tu_message_source := Some source\<rparr> else turn) th)"

(* rollout.rs:6565-6584 activate_turn *)
definition activate_turn :: "string \<Rightarrow> datetime \<Rightarrow> thread_builder \<Rightarrow> thread_builder" where
  "activate_turn turn_id started th =
    (let th = ensure_turn turn_id (\<lambda>t. t) th;
         turn = the (bt_get (tb_turns th) turn_id)
     in if tu_status turn \<in> {TurnCompleted, TurnInterrupted, TurnFailed} then th
        else (ensure_turn turn_id (\<lambda>t. t\<lparr>
            tu_service_tier := opt_or (tu_service_tier t) (tb_service_tier th),
            tu_started_at := set_min_timestamp started (tu_started_at t),
            tu_status := (if tu_status t \<in> {TurnUnknown, TurnStale} then TurnInProgress else tu_status t)\<rparr>) th)
          \<lparr>tb_active_turn_ids := filter (\<lambda>a. a \<noteq> turn_id) (tb_active_turn_ids th) @ [turn_id],
           tb_last_turn_id := None\<rparr>)"

text \<open>\<open>num_milliseconds().try_into::<u64>().ok()\<close>.\<close>

definition duration_ms_between :: "datetime \<Rightarrow> datetime \<Rightarrow> u64 option" where
  "duration_ms_between started completed =
    (let d = completed - started; ms = (if 0 \<le> d then d div 1000000 else - ((- d) div 1000000))
     in if 0 \<le> ms then Some (of_int ms) else None)"

(* rollout.rs:6586-6607 finish_turn *)
definition finish_turn ::
  "string \<Rightarrow> datetime \<Rightarrow> u64 option \<Rightarrow> turn_status \<Rightarrow> thread_builder \<Rightarrow> thread_builder" where
  "finish_turn turn_id completed duration status th =
    (ensure_turn turn_id (\<lambda>t. t\<lparr>tu_completed_at := Some completed, tu_status := status,
       tu_duration_ms := opt_or duration
         (Option.bind (tu_started_at t) (\<lambda>started. duration_ms_between started completed))\<rparr>) th)
    \<lparr>tb_active_turn_ids := filter (\<lambda>a. a \<noteq> turn_id) (tb_active_turn_ids th), tb_last_turn_id := Some turn_id\<rparr>"

(* rollout.rs:6552-6563 apply_thread_settings *)
definition apply_thread_settings :: "string option \<Rightarrow> thread_builder \<Rightarrow> thread_builder" where
  "apply_thread_settings tier th =
    fold (\<lambda>turn_id th. case bt_get (tb_turns th) turn_id of
        Some _ \<Rightarrow> ensure_turn turn_id (\<lambda>t. t\<lparr>tu_service_tier := tier\<rparr>) th
      | None \<Rightarrow> th) (tb_active_turn_ids th)
      (th\<lparr>tb_service_tier_observed := True, tb_service_tier := tier\<rparr>)"

(* rollout.rs:6512-6550 apply_turn_context *)
definition apply_turn_context :: "json_map \<Rightarrow> datetime \<Rightarrow> thread_builder \<Rightarrow> thread_builder" where
  "apply_turn_context payload timestamp th =
    (case string_field_in payload [''turn_id'', ''turnId''] of
       None \<Rightarrow> th
     | Some turn_id \<Rightarrow>
         let th = (if turn_id \<in> set (tb_active_turn_ids th) then th else activate_turn turn_id timestamp th);
             inherited = tb_inherited_thread_settings th
         in ensure_turn turn_id (\<lambda>turn.
              let turn = (case string_field_in payload [''model''] of
                    None \<Rightarrow> turn
                  | Some model \<Rightarrow>
                      let turn = turn\<lparr>tu_model := Some model\<rparr> in
                      if tu_service_tier turn \<noteq> None then turn
                      else if tb_service_tier_observed th then turn\<lparr>tu_service_tier := tb_service_tier th\<rparr>
                      else (case inherited of
                          Some (inherited_model, tier) \<Rightarrow>
                            if eq_ignore_ascii_case (trim inherited_model) (trim model)
                            then turn\<lparr>tu_service_tier := Some tier\<rparr> else turn
                        | None \<Rightarrow> turn))
              in case string_field_in payload [''effort'', ''reasoning_effort'', ''reasoningEffort''] of
                  Some effort \<Rightarrow> turn\<lparr>tu_reasoning_effort := Some effort\<rparr>
                | None \<Rightarrow> turn) th)"

section \<open>Calls\<close>

definition hex_of_byte :: "char \<Rightarrow> string" where
  "hex_of_byte c =
    (let h = (\<lambda>d. if d < 10 then char_of (48 + d) else char_of (87 + d :: nat))
     in [h (byte c div 16), h (byte c mod 16)])"

(* rollout.rs:6773-6776 hash_length_prefixed *)
definition hash_length_prefixed :: "string \<Rightarrow> string" where
  "hash_length_prefixed bytes = be_bytes 8 (length bytes) @ bytes"

(* rollout.rs:6778-6789 hash_token_usage *)
definition hash_token_usage :: "token_usage \<Rightarrow> string" where
  "hash_token_usage u = concat (List.map (\<lambda>v. be_bytes 8 (unat v))
     [input_tokens u, cached_input_tokens u, cache_write_input_tokens u, output_tokens u,
      reasoning_output_tokens u, total_tokens u])"

text \<open>The bytes hashed for the identity of a counter call; \<open>USAGE_EVENT_ID_DOMAIN\<close> comes first.\<close>

definition usage_event_preimage :: "string \<Rightarrow> datetime \<Rightarrow> token_usage \<Rightarrow> token_usage option \<Rightarrow> string" where
  "usage_event_preimage thread_id timestamp cumulative last_usage =
    ''codex-usage-monit/usage-event/fallback/v1'' @ [CHR 0x00] @ hash_length_prefixed thread_id
    @ be_bytes 8 (nat (timestamp_secs timestamp mod 2 ^ 64)) @ be_bytes 4 (nat (timestamp mod 1000000000))
    @ hash_token_usage cumulative
    @ (case last_usage of None \<Rightarrow> [CHR 0x00] | Some u \<Rightarrow> CHR 0x01 # hash_token_usage u)"

(* rollout.rs:6746-6771 fallback_usage_event_id *)
definition fallback_usage_event_id ::
  "(string \<Rightarrow> string) \<Rightarrow> string \<Rightarrow> datetime \<Rightarrow> token_usage \<Rightarrow> token_usage option \<Rightarrow> string" where
  "fallback_usage_event_id sha256 thread_id timestamp cumulative last_usage =
    ''usage-sha256-v1-'' @ concat (List.map hex_of_byte
      (sha256 (usage_event_preimage thread_id timestamp cumulative last_usage)))"

(* rollout.rs:73-73 NATIVE_USAGE_EVENT_ID_PREFIX *)
definition NATIVE_USAGE_EVENT_ID_PREFIX :: string where
  "NATIVE_USAGE_EVENT_ID_PREFIX = ''usage-native-sha256-v1-''"

(* rollout.rs:6248-6260 replay_rollout_file (native identity) *)
definition native_usage_event_id :: "(string \<Rightarrow> string) \<Rightarrow> string \<Rightarrow> string \<Rightarrow> string" where
  "native_usage_event_id sha256 thread_id response_id =
    NATIVE_USAGE_EVENT_ID_PREFIX @ concat (List.map hex_of_byte (sha256 (thread_id @ [CHR 0x00] @ response_id)))"

(* rollout.rs:6791-6795 push_replay_warning *)
definition push_replay_warning :: "rollout_warning \<Rightarrow> rollout_dataset \<Rightarrow> rollout_dataset" where
  "push_replay_warning w d = (if length (rd_warnings d) < ROLLOUT_MAX_WARNINGS_PER_FILE
     then d\<lparr>rd_warnings := rd_warnings d @ [w]\<rparr> else d)"

definition count_ambiguous :: "rollout_dataset \<Rightarrow> rollout_dataset" where
  "count_ambiguous d = d\<lparr>rd_stats := (rd_stats d)\<lparr>cs_ambiguous_token_resets := cs_ambiguous_token_resets (rd_stats d) + 1\<rparr>\<rparr>"

definition current_turn_id :: "thread_builder \<Rightarrow> string option" where
  "current_turn_id th = opt_or (list_last (tb_active_turn_ids th)) (tb_last_turn_id th)"

text \<open>The tokens a sample adds and the warning it causes; the caller stores the new baseline.\<close>

(* rollout.rs:6654-6699 apply_token_count (delta) *)
definition counter_delta ::
  "token_usage \<Rightarrow> token_usage option \<Rightarrow> path \<Rightarrow> usize \<Rightarrow> thread_builder \<Rightarrow> rollout_dataset
    \<Rightarrow> token_usage option \<times> thread_builder \<times> rollout_dataset" where
  "counter_delta total_usage last_usage file line_number th d =
    (case tb_previous_cumulative th of
       None \<Rightarrow>
         if tb_incomplete_counter_boundary th then
           let th = th\<lparr>tb_incomplete_counter_boundary := False, tb_previous_cumulative := Some total_usage\<rparr>
           in if last_usage = Some total_usage then (Some total_usage, th, d)
              else (opt_filter (\<lambda>l. total_tokens l \<le> total_tokens total_usage
                     \<and> (unclassified l = total_tokens l \<or> delta_from total_usage l \<noteq> None)) last_usage,
                   th, count_ambiguous (push_replay_warning (OutsideBoundary (tb_thread_id th) file line_number) d))
         else (Some total_usage, th, d)
     | Some previous \<Rightarrow>
         if previous = total_usage then (None, th, d)
         else if last_usage = Some total_usage then (Some total_usage, th, d)
         else (case delta_from total_usage previous of
             Some delta \<Rightarrow> (Some delta, th, d)
           | None \<Rightarrow> (None, th\<lparr>tb_previous_cumulative := Some total_usage\<rparr>,
               count_ambiguous (push_replay_warning (CounterReset (tb_thread_id th) file line_number) d))))"

(* rollout.rs:6704-6743 apply_token_count (call) *)
definition record_call ::
  "(string \<Rightarrow> string) \<Rightarrow> token_usage \<Rightarrow> token_usage \<Rightarrow> token_usage option \<Rightarrow> datetime \<Rightarrow> thread_builder \<Rightarrow> rollout_dataset
    \<Rightarrow> thread_builder \<times> rollout_dataset" where
  "record_call sha256 delta total_usage last_usage timestamp th d =
    (let turn_id = current_turn_id th;
         turn = Option.bind turn_id (bt_get (tb_turns th));
         exact = (case last_usage of Some l \<Rightarrow> l = delta \<and> \<not> 0 < unclassified l | None \<Rightarrow> False);
         th' = th\<lparr>tb_token_usage := token_add_assign (tb_token_usage th) delta\<rparr>;
         th' = (case turn_id of
             None \<Rightarrow> th'
           | Some t \<Rightarrow> ensure_turn t (\<lambda>turn. turn\<lparr>tu_token_usage := token_add_assign (tu_token_usage turn) delta\<rparr>) th')
     in (th', d\<lparr>rd_calls := rd_calls d @ [\<lparr>uc_timestamp = timestamp, uc_thread_id = tb_thread_id th, uc_turn_id = turn_id,
          uc_usage_event_id = Some (fallback_usage_event_id sha256 (tb_thread_id th) timestamp total_usage last_usage),
          uc_usage_event_identity_exact = True, uc_model = Option.bind turn tu_model,
          uc_service_tier = Option.bind turn tu_service_tier, uc_tokens = delta, uc_request_usage_exact = exact\<rparr>]\<rparr>))"

(* rollout.rs:6609-6744 apply_token_count *)
definition apply_token_count ::
  "(string \<Rightarrow> string) \<Rightarrow> token_usage option \<Rightarrow> token_usage option \<Rightarrow> cached_rate_limits option \<Rightarrow> datetime \<Rightarrow> path \<Rightarrow> usize
    \<Rightarrow> thread_builder \<Rightarrow> rollout_dataset \<Rightarrow> thread_builder \<times> rollout_dataset" where
  "apply_token_count sha256 sample last_usage limits timestamp file line_number th d =
    (let d = (case limits of
           None \<Rightarrow> d
         | Some l \<Rightarrow> d\<lparr>rd_rate_observations := rd_rate_observations d @ [\<lparr>ro_timestamp = timestamp,
             ro_thread_id = tb_thread_id th, ro_turn_id = current_turn_id th, ro_limit_id = rl_limit_id l,
             ro_primary = rl_primary l, ro_secondary = rl_secondary l, ro_provenance = LocalExact\<rparr>]\<rparr>)
     in case sample of
         None \<Rightarrow> (th, d)
       | Some total_usage \<Rightarrow>
           if \<not> has_valid_breakdown total_usage \<or> (case last_usage of Some l \<Rightarrow> \<not> has_valid_breakdown l | None \<Rightarrow> False)
           then (th\<lparr>tb_previous_cumulative := None, tb_incomplete_counter_boundary := True\<rparr>,
                 count_ambiguous (push_replay_warning (InvalidBreakdown (tb_thread_id th) file line_number) d))
           else (case counter_delta total_usage last_usage file line_number th d of
               (None, th, d) \<Rightarrow> (th, d)
             | (Some delta, th, d) \<Rightarrow>
                 let th = th\<lparr>tb_previous_cumulative := Some total_usage\<rparr>
                 in if token_is_zero delta then (th, d)
                    else record_call sha256 delta total_usage last_usage timestamp th d))"

section \<open>Replay of a file\<close>

(* config.rs:22-47 CollectConfig *)
record collect_config =
  cc_codex_home :: path
  cc_lookback_days :: int
  cc_max_files :: nat
  cc_active_grace :: nat
  cc_redact_content :: bool

text \<open>What a replay is given: SHA-256, the constructors of instants and the configuration.\<close>

record replay_env =
  ry_sha256 :: "string \<Rightarrow> string"
  ry_chrono :: chrono_lib
  ry_config :: collect_config

definition path_starts_with :: "path \<Rightarrow> path \<Rightarrow> bool" where
  "path_starts_with p prefix = (take (length prefix) p = prefix)"

definition is_archived :: "collect_config \<Rightarrow> path \<Rightarrow> bool" where
  "is_archived c p = path_starts_with p (cc_codex_home c @ [''archived_sessions''])"

(* rollout.rs:6237-6382 replay_rollout_file (event) *)
fun replay_event ::
  "replay_env \<Rightarrow> path \<Rightarrow> string \<Rightarrow> bool \<Rightarrow> parsed_event \<Rightarrow> thread_builder \<Rightarrow> rollout_dataset
    \<Rightarrow> thread_builder \<times> rollout_dataset" where
  "replay_event env file owner covered (RequestUsage timestamp turn_id response_id usage _) th d =
    (let th = ensure_turn turn_id (\<lambda>t. t) th; turn = the (bt_get (tb_turns th) turn_id)
     in (th, d\<lparr>rd_calls := rd_calls d @ [\<lparr>uc_timestamp = timestamp, uc_thread_id = owner, uc_turn_id = Some turn_id,
          uc_usage_event_id = Some (native_usage_event_id (ry_sha256 env) owner response_id),
          uc_usage_event_identity_exact = True, uc_model = tu_model turn, uc_service_tier = tu_service_tier turn,
          uc_tokens = usage, uc_request_usage_exact = (unclassified usage = 0)\<rparr>]\<rparr>))"
| "replay_event env file owner covered (SessionMeta timestamp payload) th d =
    (apply_session_meta (ry_chrono env) payload timestamp th, d)"
| "replay_event env file owner covered (ForeignCounterBaseline _ total_usage) th d =
    (th\<lparr>tb_previous_cumulative := Some total_usage, tb_incomplete_counter_boundary := False\<rparr>, d)"
| "replay_event env file owner covered (ForeignThreadSettingsBaseline _ model tier) th d =
    (th\<lparr>tb_inherited_thread_settings := (case (model, tier) of (Some m, Some t) \<Rightarrow> Some (m, t) | _ \<Rightarrow> None)\<rparr>, d)"
| "replay_event env file owner covered (UserMessage _ preview turn_id source) th d =
    (apply_user_message preview turn_id source th, d)"
| "replay_event env file owner covered (AgentCall requested call_id parent_turn kind) th d =
    (th\<lparr>tb_agent_calls := tb_agent_calls th @ [\<lparr>ac_requested_at = requested, ac_call_id = call_id,
       ac_parent_turn_id = parent_turn, ac_kind = kind\<rparr>]\<rparr>, d)"
| "replay_event env file owner covered (AgentActivity _ occurred call_id child kind) th d =
    (th\<lparr>tb_agent_activities := tb_agent_activities th @ [\<lparr>aa_occurred_at = occurred, aa_call_id = call_id,
       aa_child_thread_id = child, aa_kind = kind\<rparr>]\<rparr>, d)"
| "replay_event env file owner covered (ThreadSettingsApplied _ tier) th d = (apply_thread_settings tier th, d)"
| "replay_event env file owner covered (Activity _) th d = (th, d)"
| "replay_event env file owner covered (TurnContext timestamp payload) th d = (apply_turn_context payload timestamp th, d)"
| "replay_event env file owner covered (TaskStarted timestamp turn_id started) th d =
    (activate_turn turn_id (case started of Some s \<Rightarrow> s | None \<Rightarrow> timestamp) th, d)"
| "replay_event env file owner covered (TaskComplete timestamp turn_id completed duration) th d =
    (finish_turn turn_id (case completed of Some s \<Rightarrow> s | None \<Rightarrow> timestamp) duration TurnCompleted th, d)"
| "replay_event env file owner covered (TurnAborted timestamp turn_id completed duration failed) th d =
    (finish_turn turn_id (case completed of Some s \<Rightarrow> s | None \<Rightarrow> timestamp) duration
      (if failed then TurnFailed else TurnInterrupted) th, d)"
| "replay_event env file owner covered (TokenCount timestamp line_number total_usage last_usage limits) th d =
    (let (th, d) = apply_token_count (ry_sha256 env) (if covered then None else total_usage) last_usage limits timestamp
           file line_number th d
     in (case (covered, total_usage) of
           (True, Some t) \<Rightarrow> (th\<lparr>tb_previous_cumulative := Some t, tb_incomplete_counter_boundary := False\<rparr>, d)
         | _ \<Rightarrow> (th, d)))"

fun carries_counter :: "parsed_event \<Rightarrow> bool" where
  "carries_counter (ForeignCounterBaseline _ _) = True"
| "carries_counter (TokenCount _ _ total_usage _ _) = (total_usage \<noteq> None)"
| "carries_counter _ = False"

fun is_session_meta :: "parsed_event \<Rightarrow> bool" where
  "is_session_meta (SessionMeta _ _) = True"
| "is_session_meta _ = False"

(* rollout.rs:6218-6236 replay_rollout_file (visible or hidden) *)
definition replay_step ::
  "replay_env \<Rightarrow> path \<Rightarrow> string \<Rightarrow> datetime option \<Rightarrow> nat list \<Rightarrow> nat \<times> parsed_event \<Rightarrow> thread_builder \<times> rollout_dataset
    \<Rightarrow> thread_builder \<times> rollout_dataset" where
  "replay_step env file owner as_of covered = (\<lambda>(i, e) (th, d).
     if \<not> event_is_visible as_of e then
       (if carries_counter e then th\<lparr>tb_previous_cumulative := None, tb_incomplete_counter_boundary := True\<rparr> else th, d)
     else
       let th = (case (as_of, parsed_event_available_at e) of
             (Some _, Some t) \<Rightarrow> th\<lparr>tb_updated_at := set_max_timestamp t (tb_updated_at th)\<rparr>
           | _ \<Rightarrow> th)
       in replay_event env file owner (i \<in> set covered) e th d)"

(* rollout.rs:6206-6216 replay_rollout_file (seen) *)
definition mark_seen :: "replay_env \<Rightarrow> path \<Rightarrow> parsed_file \<Rightarrow> datetime option \<Rightarrow> thread_builder \<Rightarrow> thread_builder" where
  "mark_seen env file parsed as_of th =
    (if as_of = None \<or> list_ex (\<lambda>e. is_session_meta e \<and> event_is_visible as_of e) (pf_events parsed)
     then (if is_archived (ry_config env) file then th\<lparr>tb_seen_archived_file := True\<rparr> else th\<lparr>tb_seen_active_file := True\<rparr>)
     else th)"

(* rollout.rs:6385-6389 replay_rollout_file (activity) *)
definition touch_activity :: "parsed_file \<Rightarrow> datetime option \<Rightarrow> thread_builder \<Rightarrow> thread_builder" where
  "touch_activity parsed as_of th = (case (as_of, pf_activity_updated_at parsed) of
      (None, Some t) \<Rightarrow> th\<lparr>tb_updated_at := set_max_timestamp t (tb_updated_at th)\<rparr>
    | _ \<Rightarrow> th)"

(* rollout.rs:6177-6390 replay_rollout_file *)
definition replay_rollout_file ::
  "replay_env \<Rightarrow> path \<Rightarrow> parsed_file \<Rightarrow> datetime option \<Rightarrow> bool \<Rightarrow> (string, thread_builder) btree \<times> rollout_dataset
    \<Rightarrow> (string, thread_builder) btree \<times> rollout_dataset" where
  "replay_rollout_file env file parsed as_of incomplete = (\<lambda>(threads, d).
     case pf_owner_thread_id parsed of
       None \<Rightarrow> (threads, d)
     | Some thread_id \<Rightarrow>
         if \<not> list_ex (event_is_visible as_of) (pf_events parsed) then (threads, d)
         else
           let th = (case bt_get threads thread_id of Some th \<Rightarrow> th | None \<Rightarrow> new_thread thread_id incomplete);
               covered = request_covered_counters (pf_events parsed) as_of;
               (th, d) = fold (replay_step env file thread_id as_of covered) (List.enumerate 0 (pf_events parsed))
                 (mark_seen env file parsed as_of th, d)
           in (bt_insert thread_id (touch_activity parsed as_of th) threads, d))"

section \<open>Reduction of the selected files\<close>

(* rollout.rs:489-493 ReplayRange *)
record replay_range =
  rg_started_at :: "datetime option"
  rg_updated_at :: "datetime option"
  rg_timestamps_complete :: bool

fun is_foreign_baseline :: "parsed_event \<Rightarrow> bool" where
  "is_foreign_baseline (ForeignCounterBaseline _ _) = True"
| "is_foreign_baseline (ForeignThreadSettingsBaseline _ _ _) = True"
| "is_foreign_baseline _ = False"

(* rollout.rs:4266-4303 replay_range *)
definition replay_range_of :: "parsed_file \<Rightarrow> datetime option \<Rightarrow> replay_range option" where
  "replay_range_of parsed as_of = (case as_of of
      None \<Rightarrow> Some \<lparr>rg_started_at = pf_replay_started_at parsed, rg_updated_at = pf_replay_updated_at parsed,
        rg_timestamps_complete = pf_replay_timestamps_complete parsed\<rparr>
    | Some now \<Rightarrow>
        (let (visible, range) = fold (\<lambda>e (visible, range).
               if is_foreign_baseline e then (visible, range)
               else case parsed_event_available_at e of
                   Some t \<Rightarrow> if t \<le> now then (True, range\<lparr>rg_started_at := set_min_timestamp t (rg_started_at range),
                       rg_updated_at := set_max_timestamp t (rg_updated_at range)\<rparr>) else (visible, range)
                 | None \<Rightarrow> (True, range\<lparr>rg_timestamps_complete := False\<rparr>))
               (pf_events parsed)
               (False, \<lparr>rg_started_at = None, rg_updated_at = None,
                  rg_timestamps_complete = pf_replay_timestamps_complete parsed\<rparr>)
         in if visible then Some range else None))"

text \<open>The parsed files of the cache, by path; files are replayed in the given order.\<close>

type_synonym file_cache = "(path, parsed_file) btree"

(* rollout.rs:4676-4705 archived_rollout_is_subsumed_by_active_as_of *)
definition archived_rollout_is_subsumed_by_active_as_of ::
  "collect_config \<Rightarrow> file_cache \<Rightarrow> path list \<Rightarrow> datetime option \<Rightarrow> path \<Rightarrow> parsed_file \<Rightarrow> bool" where
  "archived_rollout_is_subsumed_by_active_as_of c cache files as_of file parsed =
    (if \<not> pf_complete parsed \<or> \<not> is_archived c file then False
     else case pf_owner_thread_id parsed of
         None \<Rightarrow> False
       | Some owner \<Rightarrow> list_ex (\<lambda>candidate.
           path_starts_with candidate (cc_codex_home c @ [''sessions''])
           \<and> (case bt_get cache candidate of
                None \<Rightarrow> False
              | Some p \<Rightarrow> pf_complete p \<and> pf_owner_thread_id p = Some owner \<and> replay_range_of p as_of \<noteq> None
                  \<and> take (length (pf_events parsed)) (pf_events p) = pf_events parsed)) files)"

(* rollout.rs:481-486 ReplayPlan *)
record replay_plan =
  rp_incomplete_counter_threads :: "string list"
  rp_replay_order_warnings :: "(path, rollout_warning list) btree"
  rp_ambiguous_replay_orders :: "(path, usize) btree"
  rp_suppressed_warnings :: usize

(* rollout.rs:455-465 ReducedRollouts *)
record reduced_rollouts =
  re_threads :: "(string, thread_builder) btree"
  re_dataset :: rollout_dataset
  re_replay_warnings :: "(path, rollout_warning list) btree"
  re_ambiguous_token_resets :: "(path, usize) btree"
  re_replay_order_warnings :: "(path, rollout_warning list) btree"
  re_ambiguous_replay_orders :: "(path, usize) btree"
  re_incomplete_counter_threads :: "string list"
  re_suppressed_warnings :: usize
  re_replay_order_suppressed_warnings :: usize

definition with_plan :: "replay_plan \<Rightarrow> reduced_rollouts \<Rightarrow> reduced_rollouts" where
  "with_plan plan r = r\<lparr>re_incomplete_counter_threads := rp_incomplete_counter_threads plan,
     re_replay_order_warnings := rp_replay_order_warnings plan,
     re_ambiguous_replay_orders := rp_ambiguous_replay_orders plan,
     re_replay_order_suppressed_warnings := rp_suppressed_warnings plan\<rparr>"

definition reduced_default :: reduced_rollouts where
  "reduced_default = \<lparr>re_threads = [], re_dataset = rollout_dataset_default, re_replay_warnings = [],
     re_ambiguous_token_resets = [], re_replay_order_warnings = [], re_ambiguous_replay_orders = [],
     re_incomplete_counter_threads = [], re_suppressed_warnings = 0, re_replay_order_suppressed_warnings = 0\<rparr>"

(* rollout.rs:70-70 ROLLOUT_MAX_WARNINGS *)
definition ROLLOUT_MAX_WARNINGS :: nat where "ROLLOUT_MAX_WARNINGS = 128"

(* rollout.rs:4531-4577 replay_file_into_reduced *)
definition replay_file_into_reduced ::
  "replay_env \<Rightarrow> path \<Rightarrow> parsed_file \<Rightarrow> datetime option \<Rightarrow> reduced_rollouts \<Rightarrow> reduced_rollouts" where
  "replay_file_into_reduced env file parsed as_of r =
    (let incomplete = (case pf_owner_thread_id parsed of
           Some t \<Rightarrow> t \<in> set (re_incomplete_counter_threads r) | None \<Rightarrow> False);
         (threads, replay) = replay_rollout_file env file parsed as_of incomplete
           (re_threads r, rollout_dataset_default);
         retained = sum_list (List.map length (bt_values (re_replay_warnings r)));
         warnings = take (ROLLOUT_MAX_WARNINGS - 1 - retained) (rd_warnings replay);
         resets = cs_ambiguous_token_resets (rd_stats replay);
         d = re_dataset r
     in r\<lparr>re_threads := threads,
          re_dataset := d\<lparr>rd_calls := rd_calls d @ rd_calls replay,
            rd_rate_observations := rd_rate_observations d @ rd_rate_observations replay\<rparr>,
          re_replay_warnings := (if warnings = [] then re_replay_warnings r
            else bt_insert file warnings (re_replay_warnings r)),
          re_ambiguous_token_resets := (if 0 < resets then bt_insert file resets (re_ambiguous_token_resets r)
            else re_ambiguous_token_resets r)\<rparr>)"

(* rollout.rs:4653-4664 push_bounded_rollout_warning *)
definition push_bounded_rollout_warning ::
  "rollout_warning \<Rightarrow> rollout_warning list \<times> usize \<Rightarrow> rollout_warning list \<times> usize" where
  "push_bounded_rollout_warning w = (\<lambda>(ws, suppressed).
     if length ws < ROLLOUT_MAX_WARNINGS - 1 then (ws @ [w], suppressed) else (ws, sat_add suppressed 1))"

(* rollout.rs:4643-4651 append_bounded_rollout_warnings *)
definition append_bounded_rollout_warnings ::
  "rollout_warning list \<Rightarrow> rollout_warning list \<times> usize \<Rightarrow> rollout_warning list \<times> usize" where
  "append_bounded_rollout_warnings ws = fold push_bounded_rollout_warning ws"

definition or_none :: "'a list option \<Rightarrow> 'a list" where
  "or_none ws = (case ws of Some xs \<Rightarrow> xs | None \<Rightarrow> [])"

definition or_zero_usize :: "usize option \<Rightarrow> usize" where
  "or_zero_usize n = (case n of Some x \<Rightarrow> x | None \<Rightarrow> 0)"

(* rollout.rs:4599-4640 rebuild_reduced_metadata (file) *)
definition add_file_metadata :: "file_cache \<Rightarrow> path \<Rightarrow> reduced_rollouts \<Rightarrow> reduced_rollouts" where
  "add_file_metadata cache file r =
    (let d = re_dataset r; stats = (rd_stats d)\<lparr>cs_scanned_files := cs_scanned_files (rd_stats d) + 1\<rparr>
     in case bt_get cache file of
         None \<Rightarrow> r\<lparr>re_dataset := d\<lparr>rd_stats := stats\<rparr>\<rparr>
       | Some parsed \<Rightarrow>
           let (warnings, suppressed) =
                 append_bounded_rollout_warnings (or_none (bt_get (re_replay_order_warnings r) file))
                 (append_bounded_rollout_warnings (or_none (bt_get (re_replay_warnings r) file))
                 (append_bounded_rollout_warnings (List.map (FileWarning file) (pf_warnings parsed))
                 (rd_warnings d, sat_add (re_suppressed_warnings r) (pf_suppressed_warnings parsed))))
           in r\<lparr>re_suppressed_warnings := suppressed,
                re_dataset := d\<lparr>rd_warnings := warnings, rd_stats := stats\<lparr>
                  cs_parsed_lines := cs_parsed_lines stats + pf_parsed_lines parsed,
                  cs_skipped_lines := cs_skipped_lines stats + pf_skipped_lines parsed,
                  cs_unreadable_files := cs_unreadable_files stats + pf_unreadable_files parsed,
                  cs_ambiguous_token_resets := cs_ambiguous_token_resets stats
                    + or_zero_usize (bt_get (re_ambiguous_token_resets r) file)
                    + or_zero_usize (bt_get (re_ambiguous_replay_orders r) file)\<rparr>\<rparr>\<rparr>)"

(* rollout.rs:4579-4641 rebuild_reduced_metadata *)
definition rebuild_reduced_metadata :: "file_cache \<Rightarrow> path list \<Rightarrow> reduced_rollouts \<Rightarrow> reduced_rollouts" where
  "rebuild_reduced_metadata cache files r =
    (let total_resets = fold (\<lambda>n acc. sat_add acc n) (bt_values (re_ambiguous_token_resets r)) 0;
         retained = fold (\<lambda>ws acc. sat_add acc (of_nat (length ws))) (bt_values (re_replay_warnings r)) 0;
         d = re_dataset r
     in fold (add_file_metadata cache) files
          (r\<lparr>re_dataset := d\<lparr>rd_stats := collection_stats_default, rd_warnings := []\<rparr>,
             re_suppressed_warnings := sat_add (re_replay_order_suppressed_warnings r) (sat_sub total_resets retained)\<rparr>))"

(* rollout.rs:4406-4415 reduce_cached_files_inner (file) *)
definition reduce_file ::
  "replay_env \<Rightarrow> file_cache \<Rightarrow> path list \<Rightarrow> datetime option \<Rightarrow> path \<Rightarrow> reduced_rollouts \<Rightarrow> reduced_rollouts" where
  "reduce_file env cache files as_of file r = (case bt_get cache file of
      None \<Rightarrow> r
    | Some parsed \<Rightarrow>
        if archived_rollout_is_subsumed_by_active_as_of (ry_config env) cache files as_of file parsed then r
        else replay_file_into_reduced env file parsed as_of r)"

(* rollout.rs:4392-4418 reduce_cached_files_inner *)
definition reduce_cached_files_inner ::
  "replay_env \<Rightarrow> file_cache \<Rightarrow> path list \<Rightarrow> replay_plan \<Rightarrow> datetime option \<Rightarrow> reduced_rollouts" where
  "reduce_cached_files_inner env cache files plan as_of =
    rebuild_reduced_metadata cache files
      (fold (reduce_file env cache files as_of) files (with_plan plan reduced_default))"

(* rollout.rs:4373-4380 reduce_cached_files *)
definition reduce_cached_files :: "replay_env \<Rightarrow> file_cache \<Rightarrow> path list \<Rightarrow> replay_plan \<Rightarrow> reduced_rollouts" where
  "reduce_cached_files env cache files plan = reduce_cached_files_inner env cache files plan None"

(* rollout.rs:4382-4390 reduce_cached_files_as_of *)
definition reduce_cached_files_as_of ::
  "replay_env \<Rightarrow> file_cache \<Rightarrow> path list \<Rightarrow> replay_plan \<Rightarrow> datetime \<Rightarrow> reduced_rollouts" where
  "reduce_cached_files_as_of env cache files plan as_of =
    reduce_cached_files_inner env cache files plan (Some as_of)"

(* rollout.rs:4491-4506 incrementally_reduce_cached_files (retained evidence) *)
definition keeps_replay_of :: "file_cache \<Rightarrow> path list \<Rightarrow> string list \<Rightarrow> path list \<Rightarrow> path \<Rightarrow> bool" where
  "keeps_replay_of cache files changed_threads changed_paths file =
    (file \<notin> set changed_paths \<and> file \<in> set files
     \<and> (case Option.bind (bt_get cache file) pf_owner_thread_id of
          Some t \<Rightarrow> t \<notin> set changed_threads | None \<Rightarrow> True))"

(* rollout.rs:4512-4527 incrementally_reduce_cached_files (file) *)
definition reduce_changed_file ::
  "replay_env \<Rightarrow> file_cache \<Rightarrow> path list \<Rightarrow> string list \<Rightarrow> path list \<Rightarrow> path \<Rightarrow> reduced_rollouts \<Rightarrow> reduced_rollouts" where
  "reduce_changed_file env cache files changed_threads changed_paths file r = (case bt_get cache file of
      None \<Rightarrow> r
    | Some parsed \<Rightarrow>
        let owner_changed = (case pf_owner_thread_id parsed of Some t \<Rightarrow> t \<in> set changed_threads | None \<Rightarrow> False)
        in if (file \<notin> set changed_paths \<and> \<not> owner_changed)
              \<or> archived_rollout_is_subsumed_by_active_as_of (ry_config env) cache files None file parsed
           then r else replay_file_into_reduced env file parsed None r)"

(* rollout.rs:4466-4529 incrementally_reduce_cached_files *)
definition incrementally_reduce_cached_files ::
  "replay_env \<Rightarrow> file_cache \<Rightarrow> path list \<Rightarrow> replay_plan \<Rightarrow> string list \<Rightarrow> path list \<Rightarrow> reduced_rollouts
    \<Rightarrow> reduced_rollouts" where
  "incrementally_reduce_cached_files env cache files plan changed_threads changed_paths r =
    (let d = re_dataset r;
         keep = keeps_replay_of cache files changed_threads changed_paths;
         r = with_plan plan (r\<lparr>re_threads := filter (\<lambda>(t, _). t \<notin> set changed_threads) (re_threads r),
           re_dataset := d\<lparr>rd_calls := filter (\<lambda>c. uc_thread_id c \<notin> set changed_threads) (rd_calls d),
             rd_rate_observations := filter (\<lambda>ob. ro_thread_id ob \<notin> set changed_threads) (rd_rate_observations d)\<rparr>,
           re_replay_warnings := filter (\<lambda>e. keep (fst e)) (re_replay_warnings r),
           re_ambiguous_token_resets := filter (\<lambda>e. keep (fst e)) (re_ambiguous_token_resets r)\<rparr>)
     in rebuild_reduced_metadata cache files
          (fold (reduce_changed_file env cache files changed_threads changed_paths) files r))"

end
