(* ===== verification/Rollout_Dataset.thy ===== *)
theory Rollout_Dataset
  imports Rollout_Replay
begin

text \<open>
  The dataset of a scan, \<open>src/rollout.rs\<close> and \<open>src/rollout/request_evidence.rs\<close>: native
  request records are deduplicated, threads and turns are cut at the instant of the view,
  agent interactions are joined, and the records are sorted.
\<close>

definition hash_values :: "(string list \<Rightarrow> string list) \<Rightarrow> (string, 'v) btree \<Rightarrow> 'v list" where
  "hash_values order m = List.map (\<lambda>k. the (bt_get m k)) (order (bt_keys m))"

section \<open>Native requests\<close>

definition native_id :: "usage_call \<Rightarrow> string option" where
  "native_id call = opt_filter (starts_with NATIVE_USAGE_EVENT_ID_PREFIX) (uc_usage_event_id call)"

text \<open>What identifies a request: its tokens and its turn.\<close>

definition native_value :: "usage_call \<Rightarrow> token_usage \<times> string option" where
  "native_value call = (uc_tokens call, uc_turn_id call)"

(* rollout/request_evidence.rs:108-121 deduplicate_native_calls (call) *)
definition native_step ::
  "usage_call \<Rightarrow> (string, token_usage \<times> string option) btree \<times> string list
    \<Rightarrow> (string, token_usage \<times> string option) btree \<times> string list" where
  "native_step call = (\<lambda>(identities, conflicts). case native_id call of
       None \<Rightarrow> (identities, conflicts)
     | Some k \<Rightarrow> (bt_insert k (native_value call) identities,
          case bt_get identities k of
            Some previous \<Rightarrow> if previous \<noteq> native_value call then List.insert k conflicts else conflicts
          | None \<Rightarrow> conflicts))"

(* rollout/request_evidence.rs:105-122 deduplicate_native_calls (conflicts) *)
definition native_conflicts :: "usage_call list \<Rightarrow> string list" where
  "native_conflicts calls = snd (fold native_step calls ([], []))"

(* rollout/request_evidence.rs:130-140 deduplicate_native_calls (retain) *)
fun retain_native :: "string list \<Rightarrow> string list \<Rightarrow> usage_call list \<Rightarrow> usage_call list" where
  "retain_native conflicts seen [] = []"
| "retain_native conflicts seen (call # calls) = (case native_id call of
      None \<Rightarrow> call # retain_native conflicts seen calls
    | Some k \<Rightarrow>
        if k \<in> set conflicts then retain_native conflicts seen calls
        else if k \<in> set seen then retain_native conflicts seen calls
        else call # retain_native conflicts (k # seen) calls)"

(* rollout/request_evidence.rs:141-157 deduplicate_native_calls (metadata) *)
definition complete_native :: "(string, thread_builder) btree \<Rightarrow> usage_call \<Rightarrow> usage_call" where
  "complete_native threads call =
    (case (native_id call, Option.bind (bt_get threads (uc_thread_id call))
        (\<lambda>th. Option.bind (uc_turn_id call) (bt_get (tb_turns th)))) of
       (Some _, Some turn) \<Rightarrow> call\<lparr>uc_model := opt_or (uc_model call) (tu_model turn),
         uc_service_tier := opt_or (uc_service_tier call) (tu_service_tier turn)\<rparr>
     | _ \<Rightarrow> call)"

text \<open>The conflicts are a hash set; the order of their warnings is \<open>order\<close>.\<close>

(* rollout/request_evidence.rs:99-158 deduplicate_native_calls *)
definition deduplicate_native_calls ::
  "(string list \<Rightarrow> string list) \<Rightarrow> (string, thread_builder) btree \<Rightarrow> rollout_dataset \<Rightarrow> rollout_dataset" where
  "deduplicate_native_calls order threads d =
    (let conflicts = native_conflicts (rd_calls d);
         d = fold (\<lambda>k d. count_ambiguous (push_replay_warning (ConflictingRequest k) d)) (order conflicts) d
     in d\<lparr>rd_calls := List.map (complete_native threads) (retain_native conflicts [] (rd_calls d))\<rparr>)"

section \<open>The view of a thread\<close>

text \<open>\<open>max_by_key\<close> returns the last of the greatest elements.\<close>

definition last_max_by :: "('a \<Rightarrow> 'k::linorder) \<Rightarrow> 'a list \<Rightarrow> 'a option" where
  "last_max_by key xs = fold (\<lambda>x best. case best of
     None \<Rightarrow> Some x | Some b \<Rightarrow> if key b \<le> key x then Some x else Some b) xs None"

definition not_after :: "datetime \<Rightarrow> datetime option \<Rightarrow> bool" where
  "not_after now t = (case t of None \<Rightarrow> True | Some x \<Rightarrow> x \<le> now)"

definition after :: "datetime \<Rightarrow> datetime option \<Rightarrow> bool" where
  "after now t = (case t of None \<Rightarrow> False | Some x \<Rightarrow> now < x)"

type_synonym turn_usage = "(string \<times> string, token_usage) btree"

(* rollout.rs:7224-7233 materialize_thread_as_of (visible turns) *)
definition turn_visible :: "string \<Rightarrow> datetime \<Rightarrow> turn_usage \<Rightarrow> turn_builder \<Rightarrow> bool" where
  "turn_visible thread_id now usage_by_turn t =
    (not_after now (tu_started_at t)
     \<and> \<not> (tu_started_at t = None \<and> after now (tu_completed_at t)
          \<and> bt_get usage_by_turn (thread_id, tu_turn_id t) = None))"

(* rollout.rs:7234-7250 materialize_thread_as_of (turns) *)
definition view_turn :: "string \<Rightarrow> datetime \<Rightarrow> turn_usage \<Rightarrow> turn_builder \<Rightarrow> turn_builder" where
  "view_turn thread_id now usage_by_turn t =
    (let t = (if after now (tu_completed_at t)
           then t\<lparr>tu_completed_at := None, tu_duration_ms := None, tu_status := TurnInProgress\<rparr> else t)
     in t\<lparr>tu_token_usage := (case bt_get usage_by_turn (thread_id, tu_turn_id t) of
          Some u \<Rightarrow> u | None \<Rightarrow> token_usage_default)\<rparr>)"

definition set_max_opt :: "datetime option \<Rightarrow> datetime option \<Rightarrow> datetime option" where
  "set_max_opt t slot = (case t of None \<Rightarrow> slot | Some x \<Rightarrow> set_max_timestamp x slot)"

(* rollout.rs:7189-7205 materialize_thread_as_of (future metadata) *)
definition hide_future_metadata :: "datetime \<Rightarrow> thread_builder \<Rightarrow> thread_builder" where
  "hide_future_metadata now th = (if after now (tb_session_metadata_updated_at th)
     then th\<lparr>tb_parent_thread_id := None, tb_parent_thread_rank := None, tb_seen_active_file := False,
       tb_seen_archived_file := False, tb_title := None, tb_title_source := None, tb_title_turn_id := None,
       tb_cwd := None, tb_source := None, tb_service_tier := None, tb_service_tier_observed := False,
       tb_inherited_thread_settings := None\<rparr>
     else th)"

(* rollout.rs:7181-7294 materialize_thread_as_of *)
definition materialize_thread_as_of ::
  "(string list \<Rightarrow> string list) \<Rightarrow> thread_builder \<Rightarrow> datetime \<Rightarrow> token_usage \<Rightarrow> turn_usage \<Rightarrow> datetime option
    \<Rightarrow> thread_builder option" where
  "materialize_thread_as_of order th now usage usage_by_turn latest_call =
    (let shown = filter (\<lambda>(_, t). turn_visible (tb_thread_id th) now usage_by_turn t) (tb_turns th);
         turns = List.map (\<lambda>(k, t). (k, view_turn (tb_thread_id th) now usage_by_turn t)) shown;
         visible = (hide_future_metadata now th)\<lparr>
           tb_created_at := opt_filter (\<lambda>t. t \<le> now) (tb_created_at th),
           tb_updated_at := opt_filter (\<lambda>t. t \<le> now) (tb_updated_at th),
           tb_token_usage := usage,
           tb_agent_calls := filter (\<lambda>c. not_after now (ac_requested_at c)) (tb_agent_calls th),
           tb_agent_activities := filter (\<lambda>a. not_after now (aa_occurred_at a)) (tb_agent_activities th),
           tb_turns := turns,
           tb_active_turn_ids := List.map tu_turn_id (filter (\<lambda>t. tu_turn_id t \<in> set (tb_active_turn_ids th)
             \<or> after now (tu_completed_at t)) (hash_values order shown)),
           tb_last_turn_id := map_option tu_turn_id (last_max_by tu_completed_at
             (filter (\<lambda>t. tu_completed_at t \<noteq> None) (hash_values order turns)))\<rparr>;
         updated = set_max_opt latest_call (set_max_opt (tb_created_at visible) (tb_updated_at visible));
         updated = fold (\<lambda>t u. set_max_opt (tu_completed_at t) (set_max_opt (tu_started_at t) u))
           (hash_values order turns) updated;
         updated = fold (\<lambda>c. set_max_opt (ac_requested_at c)) (tb_agent_calls visible) updated;
         updated = fold (\<lambda>a. set_max_opt (aa_occurred_at a)) (tb_agent_activities visible) updated;
         visible = visible\<lparr>tb_updated_at := updated\<rparr>;
         evidence = (tb_created_at visible \<noteq> None \<or> tb_updated_at visible \<noteq> None \<or> turns \<noteq> [] \<or> \<not> token_is_zero usage
           \<or> tb_agent_calls visible \<noteq> [] \<or> tb_agent_activities visible \<noteq> []);
         legacy = (tb_created_at th = None \<and> tb_updated_at th = None)
     in if evidence \<or> legacy then Some visible else None)"

(* rollout.rs:7396-7436 task_status *)
definition task_status_of ::
  "(string list \<Rightarrow> string list) \<Rightarrow> datetime \<Rightarrow> thread_builder \<Rightarrow> bool \<Rightarrow> task_status \<times> provenance \<times> confidence" where
  "task_status_of order min_time th active_is_fresh =
    (if tb_active_turn_ids th \<noteq> [] then
       (if active_is_fresh then (TaskRunning, Inferred, Medium) else (TaskStale, ProvenanceStale, Low))
     else case map_option tu_status (last_max_by (\<lambda>t. case opt_or (tu_completed_at t) (tu_started_at t) of
           Some x \<Rightarrow> x | None \<Rightarrow> min_time) (hash_values order (tb_turns th))) of
         Some TurnCompleted \<Rightarrow> (TaskCompleted, LocalExact, High)
       | Some TurnInterrupted \<Rightarrow> (TaskInterrupted, LocalExact, High)
       | Some TurnFailed \<Rightarrow> (TaskFailed, LocalExact, High)
       | Some TurnStale \<Rightarrow> (TaskStale, ProvenanceStale, Low)
       | Some TurnInProgress \<Rightarrow> (TaskStale, ProvenanceStale, Low)
       | Some TurnUnknown \<Rightarrow> (TaskIdle, Inferred, Low)
       | None \<Rightarrow> (TaskIdle, Inferred, Low))"

(* rollout.rs:7448-7463 timestamp_is_fresh *)
definition timestamp_is_fresh :: "datetime option \<Rightarrow> datetime \<Rightarrow> nat \<Rightarrow> bool" where
  "timestamp_is_fresh t now grace = (case t of
      None \<Rightarrow> False
    | Some x \<Rightarrow> if now < x then False else now - x \<le> int grace)"

section \<open>Agent interactions\<close>

(* rollout.rs:7301-7311 append_exact_agent_interactions (grouping) *)
definition group_by_id :: "('a \<Rightarrow> string) \<Rightarrow> 'a list \<Rightarrow> (string, 'a list) btree" where
  "group_by_id key xs = fold (\<lambda>x. bt_update (key x) [] (\<lambda>ys. ys @ [x])) xs []"

(* rollout.rs:7313-7357 append_exact_agent_interactions (join) *)
definition join_interaction ::
  "(string, thread_builder) btree \<Rightarrow> thread_builder \<Rightarrow> string \<Rightarrow> agent_call_evidence list \<Rightarrow> agent_activity_evidence list
    \<Rightarrow> agent_interaction option" where
  "join_interaction threads parent call_id calls activities =
    (let call = hd calls; activity = hd activities in
     if \<not> list_all (\<lambda>c. ac_parent_turn_id c = ac_parent_turn_id call \<and> ac_kind c = ac_kind call) calls
        \<or> \<not> list_all (\<lambda>a. aa_child_thread_id a = aa_child_thread_id activity \<and> aa_kind a = aa_kind activity) activities
        \<or> ac_kind call \<noteq> aa_kind activity
     then None
     else if tb_thread_id parent = aa_child_thread_id activity then None
     else if ac_kind call = SpawnStarted
        \<and> (case Option.bind (bt_get threads (aa_child_thread_id activity)) tb_parent_thread_id of
             Some claimed \<Rightarrow> claimed \<noteq> tb_thread_id parent | None \<Rightarrow> False)
     then None
     else Some \<lparr>ai_kind = ac_kind call, ai_parent_thread_id = tb_thread_id parent,
       ai_parent_turn_id = ac_parent_turn_id call, ai_child_thread_id = aa_child_thread_id activity,
       ai_call_id = call_id, ai_requested_at = list_min (List.map_filter ac_requested_at calls),
       ai_occurred_at = list_min (List.map_filter aa_occurred_at activities), ai_provenance = LocalExact\<rparr>)"

definition thread_interactions :: "(string, thread_builder) btree \<Rightarrow> thread_builder \<Rightarrow> agent_interaction list" where
  "thread_interactions threads parent =
    (let activities = group_by_id aa_call_id (tb_agent_activities parent)
     in List.map_filter (\<lambda>(call_id, calls).
          Option.bind (bt_get activities call_id) (join_interaction threads parent call_id calls))
          (group_by_id ac_call_id (tb_agent_calls parent)))"

(* rollout.rs:7363-7393 append_exact_agent_interactions (spawn edges) *)
definition contradictory_or_repeated :: "agent_interaction list \<Rightarrow> nat list" where
  "contradictory_or_repeated xs =
    (let edges = fold (\<lambda>(i, x). if ai_kind x = SpawnStarted
           then bt_update (ai_child_thread_id x) [] (\<lambda>is. is @ [i]) else (\<lambda>m. m)) (List.enumerate 0 xs) []
     in concat (List.map (\<lambda>(_, indexes).
          let first = xs ! hd indexes in
          if list_ex (\<lambda>i. ai_parent_thread_id (xs ! i) \<noteq> ai_parent_thread_id first
               \<or> ai_parent_turn_id (xs ! i) \<noteq> ai_parent_turn_id first) (tl indexes)
          then indexes else tl indexes) edges))"

(* rollout.rs:7296-7394 append_exact_agent_interactions *)
definition append_exact_agent_interactions ::
  "(string list \<Rightarrow> string list) \<Rightarrow> (string, thread_builder) btree \<Rightarrow> agent_interaction list \<Rightarrow> agent_interaction list" where
  "append_exact_agent_interactions order threads xs =
    (let xs = xs @ concat (List.map (thread_interactions threads) (hash_values order threads));
         removed = contradictory_or_repeated xs
     in List.map snd (filter (\<lambda>(i, _). i \<notin> set removed) (List.enumerate 0 xs)))"

section \<open>The dataset\<close>

(* rollout.rs:6986-7004 finish_dataset (usage) *)
definition usage_by_thread :: "usage_call list \<Rightarrow> (string, token_usage) btree" where
  "usage_by_thread calls = fold (\<lambda>c. bt_update (uc_thread_id c) token_usage_default
     (\<lambda>u. token_add_assign u (uc_tokens c))) calls []"

definition usage_by_turn :: "usage_call list \<Rightarrow> turn_usage" where
  "usage_by_turn calls = fold (\<lambda>c. case uc_turn_id c of
      None \<Rightarrow> (\<lambda>m. m)
    | Some t \<Rightarrow> bt_update (uc_thread_id c, t) token_usage_default (\<lambda>u. token_add_assign u (uc_tokens c))) calls []"

definition latest_call_by_thread :: "usage_call list \<Rightarrow> (string, datetime) btree" where
  "latest_call_by_thread calls = fold (\<lambda>c. bt_update (uc_thread_id c) (uc_timestamp c) (\<lambda>t. max t (uc_timestamp c)))
     calls []"

definition turn_shown :: "(string, thread_builder) btree \<Rightarrow> string \<Rightarrow> string option \<Rightarrow> bool" where
  "turn_shown threads thread_id turn_id = (case turn_id of
      None \<Rightarrow> True
    | Some t \<Rightarrow> (case bt_get threads thread_id of Some th \<Rightarrow> bt_contains (tb_turns th) t | None \<Rightarrow> False))"

(* rollout.rs:7023-7034 finish_dataset (calls) *)
definition hide_call_turn :: "(string, thread_builder) btree \<Rightarrow> usage_call \<Rightarrow> usage_call" where
  "hide_call_turn threads c = (if turn_shown threads (uc_thread_id c) (uc_turn_id c) then c
     else c\<lparr>uc_turn_id := None, uc_model := None, uc_service_tier := None\<rparr>)"

(* rollout.rs:7035-7044 finish_dataset (observations) *)
definition hide_observation_turn :: "(string, thread_builder) btree \<Rightarrow> rate_observation \<Rightarrow> rate_observation" where
  "hide_observation_turn threads ob =
    (if turn_shown threads (ro_thread_id ob) (ro_turn_id ob) then ob else ob\<lparr>ro_turn_id := None\<rparr>)"

(* rollout.rs:7052-7094 finish_dataset (turn) *)
definition turn_record_of :: "thread_builder \<Rightarrow> bool \<Rightarrow> turn_builder \<Rightarrow> turn_record" where
  "turn_record_of th active_is_fresh t =
    \<lparr>tn_thread_id = tb_thread_id th, tn_turn_id = tu_turn_id t, tn_model = tu_model t,
     tn_reasoning_effort = tu_reasoning_effort t, tn_service_tier = tu_service_tier t,
     tn_message_preview = tu_message_preview t, tn_started_at = tu_started_at t, tn_completed_at = tu_completed_at t,
     tn_duration_ms = opt_or (tu_duration_ms t) (case (tu_started_at t, tu_completed_at t) of
         (Some a, Some b) \<Rightarrow> duration_ms_between a b | _ \<Rightarrow> None),
     tn_status = (if tu_turn_id t \<in> set (tb_active_turn_ids th)
       then (if active_is_fresh then TurnInProgress else TurnStale) else tu_status t),
     tn_token_usage = tu_token_usage t, tn_window_token_usage = token_usage_default,
     tn_local_token_share_percent = f64_zero, tn_estimated_quota_percent = f64_zero,
     tn_quota_confidence = ConfidenceUnknown, tn_api_equivalent_cost = None\<rparr>"

(* rollout.rs:7096-7129 finish_dataset (task) *)
definition task_record_of ::
  "replay_env \<Rightarrow> (string list \<Rightarrow> string list) \<Rightarrow> datetime \<Rightarrow> datetime \<Rightarrow> (string, string) btree \<Rightarrow> bool \<Rightarrow> thread_builder
    \<Rightarrow> task_record" where
  "task_record_of env order min_time now titles active_is_fresh th =
    (let (status, prov, conf) = task_status_of order min_time th active_is_fresh;
         title = (if cc_redact_content (ry_config env) then ''[redacted]''
           else if after now (tb_session_metadata_updated_at th) then ''Untitled task''
           else case opt_or (bt_get titles (tb_thread_id th)) (tb_title th) of Some t \<Rightarrow> t | None \<Rightarrow> ''Untitled task'')
     in \<lparr>tr_thread_id = tb_thread_id th, tr_parent_thread_id = tb_parent_thread_id th,
          tr_archived = (tb_seen_archived_file th \<and> \<not> tb_seen_active_file th), tr_title = title, tr_cwd = tb_cwd th,
          tr_source = tb_source th, tr_created_at = tb_created_at th, tr_updated_at = tb_updated_at th,
          tr_status = status, tr_status_provenance = prov, tr_status_confidence = conf,
          tr_token_usage = tb_token_usage th, tr_turn_count = length (tb_turns th),
          tr_window_token_usage = token_usage_default, tr_local_token_share_percent = f64_zero,
          tr_estimated_quota_percent = f64_zero, tr_quota_confidence = ConfidenceUnknown,
          tr_api_equivalent_cost = None\<rparr>)"

text \<open>Descending order of optional instants: the latest first, absent ones last.\<close>

definition descending :: "datetime option \<Rightarrow> nat \<times> int" where
  "descending t = (case t of Some x \<Rightarrow> (0, - x) | None \<Rightarrow> (1, 0))"

(* rollout.rs:7006-7018 finish_dataset (visible threads) *)
definition visible_threads_of ::
  "(string list \<Rightarrow> string list) \<Rightarrow> datetime \<Rightarrow> usage_call list \<Rightarrow> (string, thread_builder) btree
    \<Rightarrow> (string, thread_builder) btree" where
  "visible_threads_of order now calls threads = List.map_filter (\<lambda>(thread_id, th).
     map_option (Pair thread_id) (materialize_thread_as_of order th now
       (case bt_get (usage_by_thread calls) thread_id of Some u \<Rightarrow> u | None \<Rightarrow> token_usage_default)
       (usage_by_turn calls) (bt_get (latest_call_by_thread calls) thread_id))) threads"

(* rollout.rs:6968-7179 finish_dataset *)
definition finish_dataset ::
  "replay_env \<Rightarrow> (string list \<Rightarrow> string list) \<Rightarrow> datetime \<Rightarrow> datetime \<Rightarrow> (string, thread_builder) btree
    \<Rightarrow> (string, string) btree \<Rightarrow> rollout_dataset \<Rightarrow> rollout_dataset" where
  "finish_dataset env order min_time now threads titles d =
    (let d = deduplicate_native_calls order threads (d\<lparr>rd_calls := filter (\<lambda>c. uc_timestamp c \<le> now) (rd_calls d)\<rparr>);
         observations = filter (\<lambda>ob. ro_timestamp ob \<le> now) (rd_rate_observations d);
         visible = visible_threads_of order now (rd_calls d) threads;
         fresh = (\<lambda>th. tb_active_turn_ids th \<noteq> []
           \<and> timestamp_is_fresh (tb_updated_at th) now (cc_active_grace (ry_config env)));
         shown = hash_values order visible;
         interactions = filter (\<lambda>x. not_after now (ai_requested_at x) \<and> not_after now (ai_occurred_at x))
           (append_exact_agent_interactions order visible (rd_agent_interactions d))
     in d\<lparr>rd_calls := sort_key (\<lambda>c. (uc_timestamp c, uc_thread_id c, uc_turn_id c))
            (List.map (hide_call_turn visible) (rd_calls d)),
          rd_rate_observations := sort_key (\<lambda>ob. (ro_timestamp ob, ro_thread_id ob))
            (List.map (hide_observation_turn visible) observations),
          rd_turns := sort_key (\<lambda>t. (descending (tn_started_at t), tn_thread_id t, tn_turn_id t))
            (rd_turns d @ concat (List.map (\<lambda>th. List.map (turn_record_of th (fresh th)) (hash_values order (tb_turns th)))
              shown)),
          rd_tasks := sort_key (\<lambda>t. (descending (tr_updated_at t), tr_thread_id t))
            (rd_tasks d @ List.map (\<lambda>th. task_record_of env order min_time now titles (fresh th) th) shown),
          rd_agent_interactions := sort_key (\<lambda>x. (ai_occurred_at x, ai_requested_at x, ai_parent_thread_id x,
            ai_parent_turn_id x, ai_child_thread_id x, ai_call_id x)) interactions\<rparr>)"

(* rollout.rs:4707-4744 materialize_dataset *)
definition materialize_dataset ::
  "replay_env \<Rightarrow> (string list \<Rightarrow> string list) \<Rightarrow> datetime \<Rightarrow> datetime \<Rightarrow> (string, string) btree \<Rightarrow> reduced_rollouts
    \<Rightarrow> rollout_dataset \<Rightarrow> usize \<Rightarrow> rollout_dataset" where
  "materialize_dataset env order min_time now titles r discovery discovery_suppressed =
    (let stats = rd_stats (re_dataset r);
         (warnings, suppressed) = append_bounded_rollout_warnings (rd_warnings (re_dataset r))
           (append_bounded_rollout_warnings (rd_warnings discovery)
             ([], sat_add (re_suppressed_warnings r) discovery_suppressed));
         warnings = (if 0 < suppressed then warnings @ [SuppressedWarnings suppressed] else warnings)
     in finish_dataset env order min_time now (re_threads r) titles (discovery\<lparr>
          rd_stats := (rd_stats discovery)\<lparr>cs_scanned_files := cs_scanned_files stats,
            cs_parsed_lines := cs_parsed_lines stats, cs_skipped_lines := cs_skipped_lines stats,
            cs_ambiguous_token_resets := cs_ambiguous_token_resets stats,
            cs_unreadable_files := cs_unreadable_files (rd_stats discovery) + cs_unreadable_files stats\<rparr>,
          rd_warnings := warnings, rd_calls := rd_calls (re_dataset r),
          rd_rate_observations := rd_rate_observations (re_dataset r)\<rparr>))"

(* rollout.rs:4746-4761 next_freshness_deadline *)
definition next_freshness_deadline ::
  "chrono_range \<Rightarrow> reduced_rollouts \<Rightarrow> datetime \<Rightarrow> nat \<Rightarrow> datetime option" where
  "next_freshness_deadline rng r now grace =
    list_min (filter (\<lambda>t. now \<le> t) (List.map_filter
      (\<lambda>th. Option.bind (tb_updated_at th) (\<lambda>t. checked_add_signed rng t (int grace)))
      (filter (\<lambda>th. tb_active_turn_ids th \<noteq> []) (bt_values (re_threads r)))))"

(* rollout.rs:4763-4787 next_as_of_evidence_boundary *)
definition next_as_of_evidence_boundary :: "file_cache \<Rightarrow> path list \<Rightarrow> datetime \<Rightarrow> datetime option" where
  "next_as_of_evidence_boundary cache files now =
    fold (\<lambda>t next. if now < t \<and> (case next of None \<Rightarrow> True | Some current \<Rightarrow> t < current) then Some t else next)
      (concat (List.map (\<lambda>p. (case pf_activity_updated_at p of Some t \<Rightarrow> [t] | None \<Rightarrow> [])
          @ List.map_filter parsed_event_available_at (pf_events p))
        (List.map_filter (bt_get cache) files))) None"

(* rollout.rs:4789-4794 crossed_local_coverage_bucket *)
definition crossed_local_coverage_bucket :: "datetime \<Rightarrow> datetime \<Rightarrow> bool" where
  "crossed_local_coverage_bucket materialized now =
    (timestamp_secs materialized div (15 * 60) \<noteq> timestamp_secs now div (15 * 60))"

end
