(* ===== verification/Rollout_Plan.thy ===== *)
theory Rollout_Plan
  imports Rollout_Replay
begin

text \<open>
  The selection and the replay plan of the session logs, \<open>src/rollout.rs\<close>: which files of the
  inventory are read, in which order they are replayed, and for which threads the first
  cumulative counter may not be taken to start at zero.

  Hash maps and hash sets are lists and ordered maps; the order in which the threads of a plan
  and the files of an inventory are visited is the parameter \<open>order\<close>.  The bytes at the head of
  an omitted file are given by \<open>heads\<close>; a file that cannot be opened has none.
\<close>

section \<open>Names\<close>

(* rollout.rs:4317-4332 uuid_text *)
definition uuid_text :: "string \<Rightarrow> bool" where
  "uuid_text s =
    (length s = 36 \<and> list_all (\<lambda>(i, c). if i \<in> {8, 13, 18, 23} then c = CHR ''-'' else is_hex_digit c)
       (List.enumerate 0 s))"

text \<open>\<open>Path::file_stem\<close>: the name up to its last dot, the whole name when that is empty.\<close>

definition file_stem :: "path \<Rightarrow> string option" where
  "file_stem p =
    (if p = [] \<or> last p = ''..'' then None
     else case rfind ''.'' (last p) of
         None \<Rightarrow> Some (last p)
       | Some i \<Rightarrow> Some (if i = 0 then last p else take i (last p)))"

definition is_char_boundary :: "string \<Rightarrow> nat \<Rightarrow> bool" where
  "is_char_boundary s i =
    (i = 0 \<or> i = length s \<or> (i < length s \<and> \<not> (128 \<le> byte (s ! i) \<and> byte (s ! i) < 192)))"

(* rollout.rs:4305-4315 rollout_filename_thread_id *)
definition rollout_filename_thread_id :: "path \<Rightarrow> string option" where
  "rollout_filename_thread_id p = Option.bind (file_stem p) (\<lambda>stem.
     if length stem < 36 then None
     else let start = length stem - 36 in
       if \<not> is_char_boundary stem start then None
       else if 0 < start \<and> stem ! (start - 1) = CHR ''_'' then None
       else if uuid_text (drop start stem) then Some (drop start stem) else None)"

section \<open>Owners of omitted files\<close>

(* rollout.rs:468-472 OwnerProbe *)
datatype owner_probe = OwnerFound string | NoOwner | OwnerUncertain

(* rollout.rs:475-478 CachedOwnerProbe *)
record cached_owner_probe =
  op_fingerprint :: fingerprint
  op_result :: owner_probe

text \<open>UTF-8, as \<open>read_line\<close> checks it.\<close>

definition continuation :: "nat \<Rightarrow> nat \<Rightarrow> char \<Rightarrow> bool" where
  "continuation lo hi c = (lo \<le> byte c \<and> byte c \<le> hi)"

fun valid_utf8 :: "string \<Rightarrow> bool" where
  "valid_utf8 [] = True"
| "valid_utf8 (a # s) =
    (if byte a < 128 then valid_utf8 s
     else case s of
         [] \<Rightarrow> False
       | b # s \<Rightarrow>
           if 194 \<le> byte a \<and> byte a \<le> 223 then continuation 128 191 b \<and> valid_utf8 s
           else (case s of
               [] \<Rightarrow> False
             | c # s \<Rightarrow>
                 if 224 \<le> byte a \<and> byte a \<le> 239
                 then continuation (if byte a = 224 then 160 else 128) (if byte a = 237 then 159 else 191) b
                   \<and> continuation 128 191 c \<and> valid_utf8 s
                 else (case s of
                     [] \<Rightarrow> False
                   | d # s \<Rightarrow> 240 \<le> byte a \<and> byte a \<le> 244
                       \<and> continuation (if byte a = 240 then 144 else 128) (if byte a = 244 then 143 else 191) b
                       \<and> continuation 128 191 c \<and> continuation 128 191 d \<and> valid_utf8 s)))"

(* rollout.rs:62-62 OWNER_PROBE_MAX_BYTES *)
definition OWNER_PROBE_MAX_BYTES :: nat where "OWNER_PROBE_MAX_BYTES = 64 * 1024"

(* rollout.rs:63-63 OWNER_PROBE_MAX_LINES *)
definition OWNER_PROBE_MAX_LINES :: nat where "OWNER_PROBE_MAX_LINES = 32"

(* rollout.rs:64-64 OWNER_PROBE_MAX_FILES_PER_SCAN *)
definition OWNER_PROBE_MAX_FILES_PER_SCAN :: nat where "OWNER_PROBE_MAX_FILES_PER_SCAN = 64"

definition take_line :: "string \<Rightarrow> string \<times> string" where
  "take_line bytes =
    (let l = takeWhile (\<lambda>c. c \<noteq> LF) bytes
     in if length l < length bytes then (l @ [LF], drop (length l + 1) bytes) else (l, []))"

(* rollout.rs:4354-4368 probe_rollout_owner (record) *)
definition session_owner :: "json \<Rightarrow> string option" where
  "session_owner v = Option.bind (as_object v) (\<lambda>m.
     if string_field_in m [''type''] \<noteq> Some ''session_meta'' then None
     else Option.bind (Option.bind (bt_get m ''payload'') as_object) (\<lambda>payload.
       opt_filter (\<lambda>t. t \<noteq> []) (map_option trim (string_field_in payload [''id'']))))"

(* rollout.rs:4341-4370 probe_rollout_owner (lines) *)
fun probe_lines :: "(string \<Rightarrow> json option) \<Rightarrow> bool \<Rightarrow> bool \<Rightarrow> nat \<Rightarrow> string \<Rightarrow> owner_probe" where
  "probe_lines from_str fails limit_reached 0 bytes = OwnerUncertain"
| "probe_lines from_str fails limit_reached (Suc n) bytes =
    (if bytes = [] then (if fails \<or> limit_reached then OwnerUncertain else NoOwner)
     else let (line, rest) = take_line bytes in
       if (fails \<and> last line \<noteq> LF) \<or> \<not> valid_utf8 line then OwnerUncertain
       else case Option.bind (from_str line) session_owner of
           Some t \<Rightarrow> OwnerFound t
         | None \<Rightarrow> probe_lines from_str fails limit_reached n rest)"

(* rollout.rs:4334-4371 probe_rollout_owner *)
definition probe_rollout_owner :: "(string \<Rightarrow> json option) \<Rightarrow> (bool \<times> string) option \<Rightarrow> owner_probe" where
  "probe_rollout_owner from_str handle = (case handle of
      None \<Rightarrow> OwnerUncertain
    | Some (fails, bytes) \<Rightarrow>
        let limit_reached = (OWNER_PROBE_MAX_BYTES \<le> length bytes)
        in probe_lines from_str (fails \<and> \<not> limit_reached) limit_reached OWNER_PROBE_MAX_LINES
             (take OWNER_PROBE_MAX_BYTES bytes))"

section \<open>The inventory\<close>

(* rollout.rs:620-630 DiscoveryOwnerIndex *)
record discovery_owner_index =
  oi_selected_paths :: "path list"
  oi_omitted_filename_threads :: "string list"
  oi_omitted_ambiguous_candidates :: "path list"
  oi_omitted_canonical_candidates :: "path list"

(* rollout.rs:605-617 DiscoveryCache *)
record discovery_cache =
  dc_inventory :: "(path, rollout_file) btree"
  dc_owner_index :: discovery_owner_index
  dc_warnings :: "rollout_warning list"
  dc_suppressed_warnings :: usize
  dc_unreadable_files :: usize
  dc_complete :: bool

(* rollout.rs:5020-5024 push_bounded_owner_candidate *)
definition push_bounded_owner_candidate :: "path \<Rightarrow> path list \<Rightarrow> path list" where
  "push_bounded_owner_candidate p ps = (if length ps \<le> OWNER_PROBE_MAX_FILES_PER_SCAN then ps @ [p] else ps)"

(* rollout.rs:4992-5018 build_discovery_owner_index *)
definition build_discovery_owner_index ::
  "(path list \<Rightarrow> path list) \<Rightarrow> (path, rollout_file) btree \<Rightarrow> path list \<Rightarrow> discovery_owner_index" where
  "build_discovery_owner_index order inventory selected =
    fold (\<lambda>p index.
        if p \<in> set selected then index
        else case rollout_filename_thread_id p of
            Some t \<Rightarrow> index\<lparr>oi_omitted_filename_threads := List.insert t (oi_omitted_filename_threads index),
              oi_omitted_canonical_candidates := push_bounded_owner_candidate p (oi_omitted_canonical_candidates index)\<rparr>
          | None \<Rightarrow> index\<lparr>oi_omitted_ambiguous_candidates :=
              push_bounded_owner_candidate p (oi_omitted_ambiguous_candidates index)\<rparr>)
      (List.map (\<lambda>k. rf_path (the (bt_get inventory k))) (order (bt_keys inventory)))
      \<lparr>oi_selected_paths = selected, oi_omitted_filename_threads = [], oi_omitted_ambiguous_candidates = [],
       oi_omitted_canonical_candidates = []\<rparr>"

text \<open>\<open>i64::MAX\<close> milliseconds bound a \<open>TimeDelta\<close>.\<close>

definition try_days :: "int \<Rightarrow> timedelta option" where
  "try_days n = (if \<bar>n * 86400000\<bar> \<le> 2 ^ 63 - 1 then Some (seconds (n * 86400)) else None)"

(* rollout.rs:5083-5086 select_rollout_files (cutoff) *)
definition lookback_cutoff :: "chrono_range \<Rightarrow> collect_config \<Rightarrow> datetime \<Rightarrow> datetime" where
  "lookback_cutoff rng c now =
    (case Option.bind (try_days (max (cc_lookback_days c) 0)) (checked_sub_signed rng now) of
       Some t \<Rightarrow> t | None \<Rightarrow> min_utc rng)"

(* rollout.rs:5090-5103 select_rollout_files (files) *)
definition recent_files ::
  "chrono_range \<Rightarrow> collect_config \<Rightarrow> datetime \<Rightarrow> (path, rollout_file) btree \<Rightarrow> rollout_file list" where
  "recent_files rng c now inventory =
    sort_key (\<lambda>f. (- rf_modified_at f, rf_path f))
      (filter (\<lambda>f. lookback_cutoff rng c now \<le> rf_modified_at f) (bt_values inventory))"

(* rollout.rs:4966-4990 selected_rollout_inventory_paths *)
definition selected_rollout_inventory_paths ::
  "chrono_range \<Rightarrow> collect_config \<Rightarrow> datetime \<Rightarrow> (path, rollout_file) btree \<Rightarrow> path list" where
  "selected_rollout_inventory_paths rng c now inventory =
    List.map rf_path (take (cc_max_files c) (recent_files rng c now inventory))"

(* rollout.rs:5076-5106 select_rollout_files *)
definition select_rollout_files ::
  "chrono_range \<Rightarrow> collect_config \<Rightarrow> datetime \<Rightarrow> discovery_cache \<Rightarrow> rollout_dataset
    \<Rightarrow> rollout_file list \<times> rollout_dataset \<times> usize" where
  "select_rollout_files rng c now cache d =
    (let files = recent_files rng c now (dc_inventory cache)
     in (take (cc_max_files c) files,
         d\<lparr>rd_stats := (rd_stats d)\<lparr>cs_unreadable_files := dc_unreadable_files cache,
             cs_discovered_files := of_nat (length files),
             cs_truncated_files := of_nat (length files - cc_max_files c)\<rparr>,
           rd_warnings := dc_warnings cache\<rparr>,
         dc_suppressed_warnings cache))"

section \<open>The order of replay\<close>

text \<open>Files with a start come first, by start and path; the others follow, by path.\<close>

definition replay_key :: "file_cache \<Rightarrow> datetime option \<Rightarrow> path \<Rightarrow> nat \<times> datetime \<times> path" where
  "replay_key cache as_of p =
    (case Option.bind (bt_get cache p) (\<lambda>parsed. Option.bind (replay_range_of parsed as_of) rg_started_at) of
       Some t \<Rightarrow> (0, t, p) | None \<Rightarrow> (1, 0, p))"

(* rollout.rs:4038-4073 sort_rollout_files_for_replay_as_of *)
definition sort_rollout_files_for_replay_as_of :: "file_cache \<Rightarrow> datetime option \<Rightarrow> path list \<Rightarrow> path list" where
  "sort_rollout_files_for_replay_as_of cache as_of files = sort_key (replay_key cache as_of) files"

(* rollout.rs:4034-4036 sort_rollout_files_for_replay *)
definition sort_rollout_files_for_replay :: "file_cache \<Rightarrow> path list \<Rightarrow> path list" where
  "sort_rollout_files_for_replay cache files = sort_rollout_files_for_replay_as_of cache None files"

section \<open>The plan\<close>

type_synonym thread_files = "(string, (path \<times> replay_range) list) btree"

(* rollout.rs:4086-4108 build_replay_plan (threads) *)
definition group_thread_file ::
  "collect_config \<Rightarrow> file_cache \<Rightarrow> path list \<Rightarrow> datetime option \<Rightarrow> path
    \<Rightarrow> thread_files \<times> string list \<times> bool \<Rightarrow> thread_files \<times> string list \<times> bool" where
  "group_thread_file c cache files as_of file = (\<lambda>(groups, incomplete, uncertain).
     case bt_get cache file of
       None \<Rightarrow> (groups, incomplete, True)
     | Some parsed \<Rightarrow>
         if archived_rollout_is_subsumed_by_active_as_of c cache files as_of file parsed
         then (groups, incomplete, uncertain)
         else (case pf_owner_thread_id parsed of
             None \<Rightarrow> (groups, incomplete, True)
           | Some t \<Rightarrow> (case replay_range_of parsed as_of of
               None \<Rightarrow> (groups, incomplete, uncertain)
             | Some rg \<Rightarrow>
                 (bt_update t [] (\<lambda>fs. fs @ [(file, rg)]) groups,
                  if \<not> pf_complete parsed \<or> 0 < pf_skipped_lines parsed \<or> 0 < pf_unreadable_files parsed
                  then List.insert t incomplete else incomplete,
                  uncertain))))"

definition thread_groups ::
  "collect_config \<Rightarrow> file_cache \<Rightarrow> path list \<Rightarrow> datetime option \<Rightarrow> thread_files \<times> string list \<times> bool" where
  "thread_groups c cache files as_of = fold (group_thread_file c cache files as_of) files ([], [], False)"

(* rollout.rs:4114-4134 build_replay_plan (order) *)
fun replay_order_ambiguous :: "datetime option \<Rightarrow> replay_range list \<Rightarrow> bool" where
  "replay_order_ambiguous previous_end [] = False"
| "replay_order_ambiguous previous_end (r # rs) =
    (if \<not> rg_timestamps_complete r then True
     else case (rg_started_at r, rg_updated_at r) of
         (Some started, Some updated) \<Rightarrow>
           if (case previous_end of Some e \<Rightarrow> started \<le> e | None \<Rightarrow> False) then True
           else replay_order_ambiguous (Some updated) rs
       | _ \<Rightarrow> True)"

(* rollout.rs:4110-4150 build_replay_plan (thread) *)
definition plan_thread :: "string \<times> (path \<times> replay_range) list \<Rightarrow> replay_plan \<Rightarrow> replay_plan" where
  "plan_thread = (\<lambda>(t, fs) plan.
     if length fs < 2 \<or> \<not> replay_order_ambiguous None (List.map snd fs) then plan
     else
       let p = fst (hd fs);
           plan = plan\<lparr>rp_incomplete_counter_threads := List.insert t (rp_incomplete_counter_threads plan)\<rparr>;
           plan = (if length (rp_replay_order_warnings plan) < ROLLOUT_MAX_WARNINGS - 1
             then plan\<lparr>rp_replay_order_warnings := bt_insert p [AmbiguousOrder t] (rp_replay_order_warnings plan)\<rparr>
             else plan\<lparr>rp_suppressed_warnings := sat_add (rp_suppressed_warnings plan) 1\<rparr>)
       in plan\<lparr>rp_ambiguous_replay_orders := bt_insert p 1 (rp_ambiguous_replay_orders plan)\<rparr>)"

definition mark_incomplete :: "string list \<Rightarrow> replay_plan \<Rightarrow> replay_plan" where
  "mark_incomplete ts plan =
    plan\<lparr>rp_incomplete_counter_threads := fold List.insert ts (rp_incomplete_counter_threads plan)\<rparr>"

(* rollout.rs:4164-4173 build_replay_plan (filenames) *)
definition filenames_are_trustworthy :: "thread_files \<Rightarrow> bool" where
  "filenames_are_trustworthy groups =
    (groups \<noteq> [] \<and> list_all (\<lambda>(t, fs). uuid_text t \<and> list_all (\<lambda>(p, _).
       case rollout_filename_thread_id p of Some owner \<Rightarrow> owner = t | None \<Rightarrow> True) fs) groups)"

(* rollout.rs:4185-4200 build_replay_plan (candidates) *)
definition probe_candidates :: "thread_files \<Rightarrow> discovery_owner_index \<Rightarrow> path list" where
  "probe_candidates groups index = take (OWNER_PROBE_MAX_FILES_PER_SCAN + 1)
    (if filenames_are_trustworthy groups then oi_omitted_ambiguous_candidates index
     else oi_omitted_ambiguous_candidates index @ oi_omitted_canonical_candidates index)"

text \<open>The candidates found in the inventory up to the first that is not.\<close>

(* rollout.rs:4203-4215 build_replay_plan (omitted files) *)
fun omitted_files_of :: "(path, rollout_file) btree \<Rightarrow> path list \<Rightarrow> rollout_file list \<times> bool" where
  "omitted_files_of inventory [] = ([], False)"
| "omitted_files_of inventory (p # ps) = (case bt_get inventory p of
      None \<Rightarrow> ([], True)
    | Some f \<Rightarrow> (case omitted_files_of inventory ps of (fs, missing) \<Rightarrow> (f # fs, missing)))"

type_synonym owner_probes = "(path, cached_owner_probe) btree"

(* rollout.rs:4222-4252 build_replay_plan (probes) *)
fun probe_omitted ::
  "(path \<Rightarrow> owner_probe) \<Rightarrow> string list \<Rightarrow> rollout_file list \<Rightarrow> string list \<Rightarrow> owner_probes \<Rightarrow> nat \<Rightarrow> bool
    \<Rightarrow> string list \<times> owner_probes \<times> bool" where
  "probe_omitted probe selected [] incomplete probes reads uncertain = (incomplete, probes, uncertain)"
| "probe_omitted probe selected (f # fs) incomplete probes reads uncertain =
    (if length incomplete = length selected then (incomplete, probes, uncertain)
     else
       let cached = (case bt_get probes (rf_path f) of
             Some c \<Rightarrow> if fingerprint_eq (op_fingerprint c) (rf_fingerprint f) then Some (op_result c) else None
           | None \<Rightarrow> None)
       in if cached = None \<and> OWNER_PROBE_MAX_FILES_PER_SCAN \<le> reads then (incomplete, probes, True)
          else
            let result = (case cached of Some r \<Rightarrow> r | None \<Rightarrow> probe (rf_path f));
                probes = (if cached = None then bt_insert (rf_path f)
                    \<lparr>op_fingerprint = rf_fingerprint f, op_result = result\<rparr> probes else probes);
                reads = (if cached = None then reads + 1 else reads);
                incomplete = (case result of
                    OwnerFound t \<Rightarrow> if t \<in> set selected then List.insert t incomplete else incomplete
                  | _ \<Rightarrow> incomplete)
            in probe_omitted probe selected fs incomplete probes reads (uncertain \<or> result = OwnerUncertain))"

(* rollout.rs:4157-4262 build_replay_plan (discovery) *)
definition plan_discovery ::
  "(path \<Rightarrow> owner_probe) \<Rightarrow> discovery_cache \<Rightarrow> thread_files \<Rightarrow> path list \<Rightarrow> owner_probes \<Rightarrow> replay_plan
    \<Rightarrow> replay_plan \<times> owner_probes" where
  "plan_discovery probe discovery groups files probes plan =
    (let selected = bt_keys groups;
         index = dc_owner_index discovery;
         plan = (if \<not> dc_complete discovery \<or> 0 < dc_unreadable_files discovery then mark_incomplete selected plan else plan);
         plan = mark_incomplete (filter (\<lambda>t. t \<in> set (oi_omitted_filename_threads index)) selected) plan;
         candidates = probe_candidates groups index;
         (omitted, uncertain) = (if OWNER_PROBE_MAX_FILES_PER_SCAN < length candidates then ([], True)
           else omitted_files_of (dc_inventory discovery) candidates);
         (incomplete, probes, uncertain) = probe_omitted probe selected
           (sort_key (\<lambda>f. (- rf_modified_at f, rf_path f)) omitted) (rp_incomplete_counter_threads plan) probes 0 uncertain;
         plan = plan\<lparr>rp_incomplete_counter_threads := incomplete\<rparr>
     in (if \<not> uncertain then plan
         else let plan = mark_incomplete selected plan in
           case files of
             [] \<Rightarrow> plan
           | p # _ \<Rightarrow> plan\<lparr>rp_replay_order_warnings :=
               bt_update p [] (\<lambda>ws. ws @ [OwnerEvidenceIncomplete]) (rp_replay_order_warnings plan)\<rparr>,
         probes))"

(* rollout.rs:4075-4264 build_replay_plan *)
definition build_replay_plan ::
  "(string list \<Rightarrow> string list) \<Rightarrow> (path \<Rightarrow> owner_probe) \<Rightarrow> collect_config \<Rightarrow> file_cache \<Rightarrow> discovery_cache option
    \<Rightarrow> path list \<Rightarrow> datetime option \<Rightarrow> owner_probes \<Rightarrow> replay_plan \<times> owner_probes" where
  "build_replay_plan order probe c cache discovery files as_of probes =
    (let (groups, incomplete, uncertain) = thread_groups c cache files as_of;
         plan = fold plan_thread (List.map (\<lambda>t. (t, the (bt_get groups t))) (order (bt_keys groups)))
           \<lparr>rp_incomplete_counter_threads = incomplete, rp_replay_order_warnings = [], rp_ambiguous_replay_orders = [],
            rp_suppressed_warnings = 0\<rparr>;
         plan = (if uncertain then mark_incomplete (bt_keys groups) plan else plan)
     in case discovery of
         None \<Rightarrow> (plan, probes)
       | Some dc \<Rightarrow> plan_discovery probe dc groups files probes plan)"

end
