(* ===== verification/Rollout_Scan.thy ===== *)
theory Rollout_Scan
  imports Rollout_Dataset Rollout_Plan
begin

text \<open>
  One scan of the session logs, \<open>scan_inner\<close> of \<open>src/rollout.rs\<close>: files whose fingerprint
  changed are parsed again, the threads they touch are replayed again, and a dataset is
  materialized when something visible changed.

  The state is the part of \<open>RolloutCache\<close> a result depends on; the bookkeeping of the disk
  cache, counters and traces are left out.  What a scan reads is its input: the discovered
  files, entries of the disk cache, what the reads of each file observe, the titles, and the
  ledger of deleted sessions with the function that overlays it.  A panic is \<open>None\<close>.
\<close>

(* rollout.rs:635-666 RolloutCache *)
record rollout_cache =
  rc_key :: "(path \<times> bool) option"
  rc_files :: "(path, cached_file) btree"
  rc_selected :: "(path \<times> fingerprint) list"
  rc_reduced :: "reduced_rollouts option"
  rc_last_materialized_at :: "datetime option"
  rc_last_materialized_active_grace :: "nat option"
  rc_next_freshness_deadline :: "datetime option"
  rc_next_as_of_evidence_boundary :: "datetime option"
  rc_as_of_reduced :: "reduced_rollouts option"
  rc_last_external_materialized_at :: "datetime option"
  rc_next_external_evidence_boundary :: "datetime option"
  rc_last_discovery :: "(collection_stats \<times> rollout_warning list \<times> usize) option"
  rc_omitted_owner_probes :: owner_probes
  rc_local_coverage_started_at :: "datetime option"
  rc_local_coverage_last_complete_at :: "datetime option"
  rc_materialization_pending :: bool
  rc_deleted_ledger_fingerprint :: "string option"

definition rollout_cache_default :: rollout_cache where
  "rollout_cache_default = \<lparr>rc_key = None, rc_files = [], rc_selected = [], rc_reduced = None,
     rc_last_materialized_at = None, rc_last_materialized_active_grace = None, rc_next_freshness_deadline = None,
     rc_next_as_of_evidence_boundary = None, rc_as_of_reduced = None, rc_last_external_materialized_at = None,
     rc_next_external_evidence_boundary = None, rc_last_discovery = None, rc_omitted_owner_probes = [],
     rc_local_coverage_started_at = None, rc_local_coverage_last_complete_at = None,
     rc_materialization_pending = False, rc_deleted_ledger_fingerprint = None\<rparr>"

record scan_input =
  si_files :: "rollout_file list"
  si_discovery :: rollout_dataset
  si_discovery_suppressed :: usize
  si_discovery_cache :: "discovery_cache option"
  si_persistent :: "path \<Rightarrow> cached_file option"
  si_io :: "path \<Rightarrow> nat \<Rightarrow> io_attempt"
  si_probe :: "path \<Rightarrow> owner_probe"
  si_order :: "string list \<Rightarrow> string list"
  si_titles :: "(string, string) btree"
  si_titles_reused :: bool
  si_ledger_fingerprint :: "string + string option"
  si_overlay :: "rollout_dataset \<Rightarrow> string + rollout_dataset"

section \<open>Cached files\<close>

text \<open>A cache for another home or another redaction setting starts over.\<close>

(* rollout.rs:2276-2307 RolloutCache::scan_inner (key) *)
definition reset_for_key :: "collect_config \<Rightarrow> rollout_cache \<Rightarrow> rollout_cache" where
  "reset_for_key c s =
    (let key = Some (cc_codex_home c, cc_redact_content c)
     in if rc_key s = key then s else rollout_cache_default\<lparr>rc_key := key\<rparr>)"

(* rollout.rs:2425-2477 RolloutCache::scan_inner (disk cache) *)
definition load_persistent ::
  "(path \<Rightarrow> cached_file option) \<Rightarrow> rollout_file list \<Rightarrow> (path, cached_file) btree \<Rightarrow> (path, cached_file) btree" where
  "load_persistent persistent files m = fold (\<lambda>f m.
     if bt_contains m (rf_path f) then m
     else case persistent (rf_path f) of Some c \<Rightarrow> bt_insert (rf_path f) c m | None \<Rightarrow> m) files m"

text \<open>The cached files, the threads and the paths that changed, and whether a file was parsed.\<close>

type_synonym parse_progress = "(path, cached_file) btree \<times> string list \<times> path list \<times> bool"

definition insert_owner :: "cached_file option \<Rightarrow> string list \<Rightarrow> string list" where
  "insert_owner c ts = (case Option.bind c (\<lambda>c. pf_owner_thread_id (cf_parsed c)) of
      Some t \<Rightarrow> List.insert t ts | None \<Rightarrow> ts)"

(* rollout.rs:2536-2538 RolloutCache::scan_inner (reusable) *)
definition reusable :: "(path, cached_file) btree \<Rightarrow> rollout_file \<Rightarrow> bool" where
  "reusable m f = (case bt_get m (rf_path f) of
      Some c \<Rightarrow> fingerprint_eq (cf_fingerprint c) (rf_fingerprint f) \<and> pf_complete (cf_parsed c)
    | None \<Rightarrow> False)"

(* rollout.rs:2532-2613 RolloutCache::scan_inner (file) *)
definition refresh_file :: "parse_env \<Rightarrow> (path \<Rightarrow> nat \<Rightarrow> io_attempt) \<Rightarrow> rollout_file \<Rightarrow> parse_progress \<Rightarrow> parse_progress option" where
  "refresh_file env io f = (\<lambda>(m, threads, paths, reparsed).
     if reusable m f then Some (m, threads, paths, reparsed)
     else
       let previous = bt_get m (rf_path f)
       in map_option (\<lambda>sp.
            (bt_insert (rf_path f) (sp_cached sp) (bt_remove (rf_path f) m),
             insert_owner (Some (sp_cached sp)) (insert_owner previous threads),
             List.insert (rf_path f) paths, True))
          (refresh_stable_rollout_file env (io (rf_path f)) f previous))"

(* rollout.rs:2523-2613 RolloutCache::scan_inner (files) *)
definition refresh_files ::
  "parse_env \<Rightarrow> (path \<Rightarrow> nat \<Rightarrow> io_attempt) \<Rightarrow> rollout_file list \<Rightarrow> (path, cached_file) btree \<Rightarrow> parse_progress option" where
  "refresh_files env io files m = fold (\<lambda>f acc. Option.bind acc (refresh_file env io f)) files (Some (m, [], [], False))"

definition parsed_of :: "(path, cached_file) btree \<Rightarrow> file_cache" where
  "parsed_of m = List.map (\<lambda>(p, c). (p, cf_parsed c)) m"

section \<open>What changed\<close>

(* rollout.rs:2731-2739 RolloutCache::scan_inner (selected) *)
definition selected_of :: "(path, cached_file) btree \<Rightarrow> path list \<Rightarrow> (path \<times> fingerprint) list" where
  "selected_of m files = List.map_filter (\<lambda>p. map_option (\<lambda>c. (p, cf_fingerprint c)) (bt_get m p)) files"

definition index_paths :: "(path \<times> fingerprint) list \<Rightarrow> (path, fingerprint) btree" where
  "index_paths xs = fold (\<lambda>(p, fp). bt_insert p fp) xs []"

(* rollout.rs:2750-2764 RolloutCache::scan_inner (changed paths) *)
definition mark_changed ::
  "(path, cached_file) btree \<Rightarrow> (path, fingerprint) btree \<Rightarrow> path \<times> fingerprint \<Rightarrow> string list \<times> path list
    \<Rightarrow> string list \<times> path list" where
  "mark_changed m others = (\<lambda>(p, fp) (threads, paths).
     if (case bt_get others p of None \<Rightarrow> True | Some other \<Rightarrow> \<not> fingerprint_eq other fp)
     then (insert_owner (bt_get m p) threads, List.insert p paths) else (threads, paths))"

(* rollout.rs:2740-2780 RolloutCache::scan_inner (selection) *)
definition mark_selection ::
  "(path, cached_file) btree \<Rightarrow> (path \<times> fingerprint) list \<Rightarrow> (path \<times> fingerprint) list \<Rightarrow> string list \<times> path list
    \<Rightarrow> string list \<times> path list" where
  "mark_selection m previous current acc =
    fold (mark_changed m (index_paths previous)) current (fold (mark_changed m (index_paths current)) previous acc)"

(* rollout.rs:4440-4455 mark_threads_with_changed_file_order (paths_by_thread) *)
definition paths_by_thread :: "(path, cached_file) btree \<Rightarrow> (path \<times> fingerprint) list \<Rightarrow> (string, path list) btree" where
  "paths_by_thread m selected = fold (\<lambda>(p, _) paths.
     case Option.bind (bt_get m p) (\<lambda>c. pf_owner_thread_id (cf_parsed c)) of
       None \<Rightarrow> paths
     | Some t \<Rightarrow> bt_update t [] (\<lambda>ps. ps @ [p]) paths) selected []"

(* rollout.rs:4434-4464 mark_threads_with_changed_file_order *)
definition mark_threads_with_changed_file_order ::
  "(path \<times> fingerprint) list \<Rightarrow> (path \<times> fingerprint) list \<Rightarrow> (path, cached_file) btree \<Rightarrow> string list \<Rightarrow> string list" where
  "mark_threads_with_changed_file_order previous current m threads =
    (let a = paths_by_thread m previous; b = paths_by_thread m current
     in fold (\<lambda>t ts. if bt_get a t \<noteq> bt_get b t then List.insert t ts else ts) (bt_keys a @ bt_keys b) threads)"

text \<open>Hash sets are compared as sets.\<close>

(* rollout.rs:2787-2792 RolloutCache::scan_inner (plan changed) *)
definition replay_plan_changed :: "replay_plan \<Rightarrow> reduced_rollouts option \<Rightarrow> bool" where
  "replay_plan_changed plan reduced = (case reduced of
      None \<Rightarrow> True
    | Some r \<Rightarrow> set (re_incomplete_counter_threads r) \<noteq> set (rp_incomplete_counter_threads plan)
        \<or> re_replay_order_warnings r \<noteq> rp_replay_order_warnings plan
        \<or> re_ambiguous_replay_orders r \<noteq> rp_ambiguous_replay_orders plan
        \<or> re_replay_order_suppressed_warnings r \<noteq> rp_suppressed_warnings plan)"

(* rollout.rs:2793-2812 RolloutCache::scan_inner (threads of a changed plan) *)
definition mark_plan ::
  "(path, cached_file) btree \<Rightarrow> replay_plan \<Rightarrow> reduced_rollouts option \<Rightarrow> string list \<Rightarrow> string list" where
  "mark_plan m plan reduced threads = (case reduced of
      None \<Rightarrow> threads
    | Some r \<Rightarrow>
        if \<not> replay_plan_changed plan reduced then threads
        else
          let old = re_incomplete_counter_threads r; new = rp_incomplete_counter_threads plan;
              threads = fold List.insert (filter (\<lambda>t. t \<notin> set new) old @ filter (\<lambda>t. t \<notin> set old) new) threads
          in fold (\<lambda>p. insert_owner (bt_get m p))
               (bt_keys (re_replay_order_warnings r) @ bt_keys (rp_replay_order_warnings plan)) threads)"

section \<open>Reduction\<close>

(* rollout.rs:4420-4432 replay_warnings_are_truncated *)
definition replay_warnings_are_truncated :: "reduced_rollouts \<Rightarrow> bool" where
  "replay_warnings_are_truncated r =
    (fold (\<lambda>ws acc. sat_add acc (of_nat (length ws))) (bt_values (re_replay_warnings r)) 0
      < fold (\<lambda>n acc. sat_add acc n) (bt_values (re_ambiguous_token_resets r)) 0)"

(* rollout.rs:2827-2861 RolloutCache::scan_inner (reduce) *)
definition reduce_changed ::
  "replay_env \<Rightarrow> file_cache \<Rightarrow> path list \<Rightarrow> replay_plan \<Rightarrow> string list \<Rightarrow> path list \<Rightarrow> reduced_rollouts option \<Rightarrow> reduced_rollouts" where
  "reduce_changed env cache files plan threads paths reduced =
    (let full = reduce_cached_files env cache files plan
     in case reduced of
         None \<Rightarrow> full
       | Some r \<Rightarrow>
           let incremental = incrementally_reduce_cached_files env cache files plan threads paths r
           in if replay_warnings_are_truncated incremental then full else incremental)"

text \<open>The environment of the collector: its parser and its replay.\<close>

record collector_env =
  ce_parse :: parse_env
  ce_replay :: replay_env

(* rollout.rs:2518-2904 RolloutCache::scan_inner (parse and reduce) *)
definition scan_reduce :: "collector_env \<Rightarrow> scan_input \<Rightarrow> rollout_cache \<Rightarrow> (rollout_cache \<times> path list \<times> bool) option" where
  "scan_reduce env inp s =
    (let by_path = sort_key rf_path (si_files inp);
         config = ry_config (ce_replay env)
     in map_option (\<lambda>(m, threads, paths, reparsed).
          let cache = parsed_of m;
              files = sort_rollout_files_for_replay cache (List.map rf_path by_path);
              (plan, probes) = build_replay_plan (si_order inp) (si_probe inp) config cache (si_discovery_cache inp) files
                None (rc_omitted_owner_probes s);
              selected = selected_of m files;
              (threads, paths) = mark_selection m (rc_selected s) selected (threads, paths);
              threads = mark_threads_with_changed_file_order (rc_selected s) selected m threads;
              threads = mark_plan m plan (rc_reduced s) threads;
              must_rebuild = (rc_reduced s = None \<or> selected \<noteq> rc_selected s \<or> reparsed
                \<or> replay_plan_changed plan (rc_reduced s));
              reduced = (if must_rebuild
                then Some (reduce_changed (ce_replay env) cache files plan threads paths (rc_reduced s)) else rc_reduced s)
          in (s\<lparr>rc_files := filter (\<lambda>(p, _). p \<in> set files) m, rc_selected := selected, rc_reduced := reduced,
               rc_omitted_owner_probes := (case si_discovery_cache inp of
                   Some dc \<Rightarrow> filter (\<lambda>(p, _). bt_contains (dc_inventory dc) p) probes
                 | None \<Rightarrow> probes)\<rparr>, files, must_rebuild))
        (refresh_files (ce_parse env) (si_io inp) by_path (load_persistent (si_persistent inp) by_path (rc_files s))))"

section \<open>Materialization\<close>

definition some_and :: "('a \<Rightarrow> bool) \<Rightarrow> 'a option \<Rightarrow> bool" where
  "some_and P x = (case x of Some y \<Rightarrow> P y | None \<Rightarrow> False)"

definition crossed :: "datetime option \<Rightarrow> datetime option \<Rightarrow> datetime \<Rightarrow> bool" where
  "crossed boundary last_at now = some_and (\<lambda>b. some_and (\<lambda>l. l < b \<and> b \<le> now) last_at) boundary"

(* rollout.rs:2308-2316 RolloutCache::scan_inner (external boundary) *)
definition external_boundary_changed :: "rollout_cache \<Rightarrow> datetime \<Rightarrow> bool" where
  "external_boundary_changed s now =
    (some_and (\<lambda>l. now < l) (rc_last_external_materialized_at s)
     \<or> crossed (rc_next_external_evidence_boundary s) (rc_last_external_materialized_at s) now)"

(* rollout.rs:2912-2924 RolloutCache::scan_inner (freshness) *)
definition freshness_changed :: "collect_config \<Rightarrow> rollout_cache \<Rightarrow> datetime \<Rightarrow> bool" where
  "freshness_changed c s now =
    (some_and (\<lambda>l. now < l) (rc_last_materialized_at s)
     \<or> rc_last_materialized_active_grace s \<noteq> Some (cc_active_grace c)
     \<or> (rc_local_coverage_started_at s \<noteq> None
        \<and> some_and (\<lambda>l. crossed_local_coverage_bucket l now) (rc_last_materialized_at s))
     \<or> some_and (\<lambda>d. d < now) (rc_next_freshness_deadline s)
     \<or> crossed (rc_next_as_of_evidence_boundary s) (rc_last_materialized_at s) now)"

(* rollout.rs:60-60 SNAPSHOT_MATERIALIZE_COALESCE_INTERVAL *)
definition SNAPSHOT_MATERIALIZE_COALESCE_INTERVAL :: timedelta where
  "SNAPSHOT_MATERIALIZE_COALESCE_INTERVAL = seconds 10"

(* rollout.rs:2937-2944 RolloutCache::scan_inner (coalescing) *)
definition coalesce_due :: "bool \<Rightarrow> rollout_cache \<Rightarrow> datetime \<Rightarrow> bool" where
  "coalesce_due coalesce s now =
    (\<not> coalesce \<or> (case rc_last_materialized_at s of
        None \<Rightarrow> True
      | Some l \<Rightarrow> now < l \<or> SNAPSHOT_MATERIALIZE_COALESCE_INTERVAL \<le> now - l))"

text \<open>The reduction a dataset is made of: replayed as of now while later evidence is known.\<close>

(* rollout.rs:2979-3016 RolloutCache::scan_inner (as of) *)
definition refresh_as_of ::
  "collector_env \<Rightarrow> scan_input \<Rightarrow> datetime \<Rightarrow> path list \<Rightarrow> bool \<Rightarrow> rollout_cache \<Rightarrow> datetime option \<times> rollout_cache" where
  "refresh_as_of env inp now files rebuilt s =
    (let config = ry_config (ce_replay env); cache = parsed_of (rc_files s);
         reuse = (\<not> rebuilt \<and> rc_as_of_reduced s \<noteq> None \<and> some_and (\<lambda>l. l \<le> now) (rc_last_materialized_at s)
           \<and> some_and (\<lambda>b. now < b) (rc_next_as_of_evidence_boundary s));
         boundary = (if reuse then rc_next_as_of_evidence_boundary s else next_as_of_evidence_boundary cache files now)
     in (boundary,
         if boundary = None then s\<lparr>rc_as_of_reduced := None\<rparr>
         else if reuse then s
         else
           let as_of_files = sort_rollout_files_for_replay_as_of cache (Some now) files;
               (plan, probes) = build_replay_plan (si_order inp) (si_probe inp) config cache (si_discovery_cache inp)
                 as_of_files (Some now) (rc_omitted_owner_probes s)
           in s\<lparr>rc_as_of_reduced := Some (reduce_cached_files_as_of (ce_replay env) cache as_of_files plan now),
                rc_omitted_owner_probes := probes\<rparr>))"

(* rollout.rs:2971-3042 RolloutCache::scan_inner (materialize) *)
definition scan_materialize ::
  "collector_env \<Rightarrow> scan_input \<Rightarrow> datetime \<Rightarrow> path list \<Rightarrow> bool \<Rightarrow> string option \<Rightarrow> rollout_cache
    \<Rightarrow> (rollout_cache \<times> (string + rollout_dataset option)) option" where
  "scan_materialize env inp now files rebuilt ledger s =
    (let rng = pe_range (ce_parse env); grace = cc_active_grace (ry_config (ce_replay env));
         (boundary, s) = refresh_as_of env inp now files rebuilt s
     in map_option (\<lambda>r.
          let deadline = next_freshness_deadline rng r now grace;
              d = materialize_dataset (ce_replay env) (si_order inp) (min_utc rng) now (si_titles inp) r (si_discovery inp)
                (si_discovery_suppressed inp)
          in case si_overlay inp d of
              Inl e \<Rightarrow> (s, Inl e)
            | Inr d \<Rightarrow> (s\<lparr>rc_deleted_ledger_fingerprint := ledger, rc_last_materialized_at := Some now,
                rc_materialization_pending := False, rc_last_materialized_active_grace := Some grace,
                rc_next_freshness_deadline := deadline, rc_next_as_of_evidence_boundary := boundary\<rparr>, Inr (Some d)))
        (opt_or (rc_as_of_reduced s) (rc_reduced s)))"

(* rollout.rs:2905-2969 RolloutCache::scan_inner (publish) *)
definition scan_publish ::
  "collector_env \<Rightarrow> scan_input \<Rightarrow> datetime \<Rightarrow> bool \<Rightarrow> bool \<Rightarrow> bool \<Rightarrow> path list \<Rightarrow> bool \<Rightarrow> rollout_cache
    \<Rightarrow> (rollout_cache \<times> (string + rollout_dataset option)) option" where
  "scan_publish env inp now force coalesce external_changed files rebuilt s =
    (let config = ry_config (ce_replay env);
         discovery_state = Some (rd_stats (si_discovery inp), rd_warnings (si_discovery inp), si_discovery_suppressed inp);
         discovery_changed = (rc_last_discovery s \<noteq> discovery_state);
         title_changed = (\<not> cc_redact_content config \<and> \<not> si_titles_reused inp);
         fresh_changed = freshness_changed config s now
     in case si_ledger_fingerprint inp of
         Inl e \<Rightarrow> Some (s, Inl e)
       | Inr ledger \<Rightarrow>
           let ledger_changed = (rc_deleted_ledger_fingerprint s \<noteq> ledger);
               projection_changed = (rebuilt \<or> discovery_changed \<or> title_changed \<or> ledger_changed);
               pending = (rc_materialization_pending s \<or> projection_changed);
               should = (force \<or> ledger_changed \<or> rc_last_materialized_at s = None \<or> external_changed \<or> fresh_changed
                 \<or> (pending \<and> coalesce_due coalesce s now));
               s = s\<lparr>rc_as_of_reduced := (if projection_changed then None else rc_as_of_reduced s),
                 rc_materialization_pending := pending, rc_last_discovery := discovery_state\<rparr>
           in if \<not> should then Some (s, Inr None)
              else scan_materialize env inp now files rebuilt ledger s)"

(* rollout.rs:2238-3098 RolloutCache::scan_inner *)
definition scan_inner ::
  "collector_env \<Rightarrow> scan_input \<Rightarrow> datetime \<Rightarrow> bool \<Rightarrow> bool \<Rightarrow> datetime option \<Rightarrow> rollout_cache
    \<Rightarrow> (rollout_cache \<times> (string + rollout_dataset option)) option" where
  "scan_inner env inp now force coalesce next_external s =
    (let s = reset_for_key (ry_config (ce_replay env)) s;
         external_changed = external_boundary_changed s now;
         s = s\<lparr>rc_last_external_materialized_at := Some now, rc_next_external_evidence_boundary := next_external\<rparr>
     in Option.bind (scan_reduce env inp s) (\<lambda>(s, files, rebuilt).
       scan_publish env inp now force coalesce external_changed files rebuilt s))"

(* rollout.rs:2180-2184 RolloutCache::scan *)
definition scan ::
  "collector_env \<Rightarrow> scan_input \<Rightarrow> datetime \<Rightarrow> rollout_cache \<Rightarrow> (rollout_cache \<times> (string + rollout_dataset)) option" where
  "scan env inp now s = Option.bind (scan_inner env inp now True False None s) (\<lambda>(s, result).
     case result of
       Inl e \<Rightarrow> Some (s, Inl e)
     | Inr None \<Rightarrow> None
     | Inr (Some d) \<Rightarrow> Some (s, Inr d))"

(* rollout.rs:2199-2205 RolloutCache::scan_if_changed *)
definition scan_if_changed ::
  "collector_env \<Rightarrow> scan_input \<Rightarrow> datetime \<Rightarrow> rollout_cache \<Rightarrow> (rollout_cache \<times> (string + rollout_dataset option)) option" where
  "scan_if_changed env inp now s = scan_inner env inp now False False None s"

(* rollout.rs:2220-2227 RolloutCache::scan_if_changed_coalesced_with_external_boundary *)
definition scan_if_changed_coalesced_with_external_boundary ::
  "collector_env \<Rightarrow> scan_input \<Rightarrow> datetime \<Rightarrow> datetime option \<Rightarrow> rollout_cache
    \<Rightarrow> (rollout_cache \<times> (string + rollout_dataset option)) option" where
  "scan_if_changed_coalesced_with_external_boundary env inp now boundary s = scan_inner env inp now False True boundary s"

(* rollout.rs:2028-2033 RolloutCache::invalidate_after_session_mutation *)
definition invalidate_after_session_mutation :: "rollout_cache \<Rightarrow> rollout_cache" where
  "invalidate_after_session_mutation s =
    s\<lparr>rc_last_discovery := None, rc_last_materialized_at := None, rc_materialization_pending := True\<rparr>"

(* rollout.rs:2038-2044 RolloutCache::fork_for_history_scan *)
definition fork_for_history_scan :: "rollout_cache \<Rightarrow> rollout_cache" where
  "fork_for_history_scan s = rollout_cache_default\<lparr>rc_key := rc_key s, rc_files := rc_files s\<rparr>"

(* rollout.rs:2056-2060 RolloutCache::has_live_thread *)
definition has_live_thread :: "rollout_cache \<Rightarrow> string \<Rightarrow> bool" where
  "has_live_thread s thread_id = some_and (\<lambda>r. bt_contains (re_threads r) thread_id) (rc_reduced s)"

(* rollout.rs:2229-2236 RolloutCache::set_external_boundary *)
definition set_external_boundary :: "datetime \<Rightarrow> datetime option \<Rightarrow> rollout_cache \<Rightarrow> rollout_cache" where
  "set_external_boundary now boundary s =
    s\<lparr>rc_last_external_materialized_at := Some now, rc_next_external_evidence_boundary := boundary\<rparr>"

text \<open>The discovery cache is given by its completeness and the lookback of its key.\<close>

(* rollout.rs:2070-2101 RolloutCache::update_local_coverage *)
definition update_local_coverage ::
  "datetime \<Rightarrow> bool \<Rightarrow> (bool \<times> int) option \<Rightarrow> rollout_cache \<Rightarrow> datetime option \<times> rollout_cache" where
  "update_local_coverage now whole discovery s =
    (if \<not> whole \<or> \<not> some_and fst discovery
     then (None, s\<lparr>rc_local_coverage_started_at := None, rc_local_coverage_last_complete_at := None\<rparr>)
     else
       let lookback = Option.bind discovery (\<lambda>(_, days). try_days (max days 0));
           continuous = some_and (\<lambda>l. l \<le> now \<and> (case lookback of None \<Rightarrow> True | Some d \<Rightarrow> now - l \<le> d))
             (rc_local_coverage_last_complete_at s);
           started = (if continuous then rc_local_coverage_started_at s else Some now)
       in (started, s\<lparr>rc_local_coverage_started_at := started, rc_local_coverage_last_complete_at := Some now\<rparr>))"

end
