(* ===== verification/Rollout_Parse_Safety.thy ===== *)
theory Rollout_Parse_Safety
  imports Rollout_Refresh
begin

text \<open>
  Properties of the log parser and of the refresh of a cached log.  The loop over the lines is a
  fold over complete lines, so a prefix and its continuation can be parsed one after the other.
  The locale \<open>parse_invariant\<close> carries an invariant of one record to the whole loop; the locale
  \<open>event_invariant\<close> gives such an invariant from a property of the events each rule emits, and
  \<open>log_invariant\<close> carries a property of the events of a file through every refresh.
\<close>

section \<open>Specification\<close>

definition ends_line :: "string \<Rightarrow> bool" where
  "ends_line a = (a = [] \<or> last a = LF)"

definition restamp ::
  "datetime option \<Rightarrow> bool \<Rightarrow> bool \<Rightarrow> bool \<Rightarrow> bool \<Rightarrow> tail_guard \<Rightarrow> parsed_file \<Rightarrow> parsed_file" where
  "restamp created foreign inherit whole newline guard p = p\<lparr>pf_owning_created_at := created,
     pf_replaying_foreign_history := foreign, pf_inherit_foreign_thread_settings := inherit, pf_complete := whole,
     pf_ends_with_newline := newline, pf_tail_guard := guard\<rparr>"

abbreviation restamp_state where
  "restamp_state c f i k l g \<equiv> on_parsed (restamp c f i k l g)"

definition owner_agrees :: "parse_state \<Rightarrow> bool" where
  "owner_agrees st = (pf_owner_thread_id (pt_parsed st) = pt_owner st)"

definition line_timestamped :: "parse_env \<Rightarrow> string \<Rightarrow> bool" where
  "line_timestamped env line = (case pe_from_slice env line of
      None \<Rightarrow> True
    | Some v \<Rightarrow> as_object v = None \<or> explicit_time env v \<noteq> None)"

text \<open>The lines the reader delivers.\<close>

function log_lines :: "nat \<Rightarrow> string \<Rightarrow> string list" where
  "log_lines max_bytes bytes = (case read_bounded_line max_bytes False bytes of
      Inl _ \<Rightarrow> []
    | Inr (status, line, rest) \<Rightarrow> if status = LineEof then [] else line # log_lines max_bytes rest)"
  by pat_completeness auto

termination
  by (relation "measure (\<lambda>(max_bytes, bytes). length bytes)") (auto dest: read_bounded_line_shrinks)

declare log_lines.simps [simp del]

text \<open>A cache entry that describes the bytes \<open>a\<close>, read when the file was \<open>old\<close>.\<close>

definition cached_for :: "parse_env \<Rightarrow> rollout_file \<Rightarrow> string \<Rightarrow> cached_file \<Rightarrow> bool" where
  "cached_for env old a c =
    (case parse_rollout_file (env_at env old) (Some (False, a)) of
       None \<Rightarrow> False
     | Some p0 \<Rightarrow> update_tail_guard (Some a) (of_nat (length a)) p0 = Some (cf_parsed c)
         \<and> fp_len (cf_fingerprint c) = of_nat (length a) \<and> length a < 2 ^ 64)"

definition prefix_timestamped :: "parse_env \<Rightarrow> string \<Rightarrow> bool" where
  "prefix_timestamped env a = list_all (line_timestamped env) (log_lines ROLLOUT_MAX_LINE_BYTES a)"

text \<open>
  A record without a time of its own takes the modification time of the file, and a tail
  refresh keeps what the prefix was given when it was parsed.
\<close>

definition times_settled :: "parse_env \<Rightarrow> string \<Rightarrow> rollout_file \<Rightarrow> rollout_file \<Rightarrow> bool" where
  "times_settled env a old new = (prefix_timestamped env a \<or> rf_modified_at old = rf_modified_at new)"

text \<open>Two parses that differ at most in the fields of the guard, which the caller then sets.\<close>

definition guard_update :: "(parsed_file \<Rightarrow> parsed_file) \<Rightarrow> bool" where
  "guard_update h = (h = id \<or> (\<exists>l g. h = (\<lambda>q. q\<lparr>pf_ends_with_newline := l, pf_tail_guard := g\<rparr>)))"

fun is_user_message :: "parsed_event \<Rightarrow> bool" where
  "is_user_message (UserMessage _ _ _ _) = True"
| "is_user_message _ = False"

definition no_messages :: "parsed_file \<Rightarrow> bool" where
  "no_messages p = list_all (\<lambda>e. \<not> is_user_message e) (pf_events p)"

text \<open>Validated events: identities are present, requests have consistent usage, counters carry evidence.\<close>

fun valid_event :: "parsed_event \<Rightarrow> bool" where
  "valid_event (RequestUsage _ turn response usage turn_usage) =
    (turn \<noteq> [] \<and> response \<noteq> [] \<and> length response \<le> 1024 \<and> has_valid_breakdown usage
     \<and> (case turn_usage of Some u \<Rightarrow> has_valid_breakdown u | None \<Rightarrow> True))"
| "valid_event (AgentCall _ call_id turn kind) = (call_id \<noteq> [] \<and> turn \<noteq> [] \<and> kind \<noteq> UnknownInteraction)"
| "valid_event (AgentActivity _ _ call_id child kind) = (call_id \<noteq> [] \<and> child \<noteq> [] \<and> kind \<noteq> UnknownInteraction)"
| "valid_event (TokenCount _ _ sample last_usage limits) = (sample \<noteq> None \<or> last_usage \<noteq> None \<or> limits \<noteq> None)"
| "valid_event _ = True"

definition valid_events :: "parsed_file \<Rightarrow> bool" where
  "valid_events p = list_all valid_event (pf_events p)"

text \<open>The files a collector may hold: each was refreshed from nothing or from an earlier one.\<close>

inductive refreshed_file :: "(parse_env \<Rightarrow> bool) \<Rightarrow> parsed_file \<Rightarrow> bool" for E where
  first_refresh: "E env \<Longrightarrow> refresh_stable_rollout_file env io file None = Some sp
    \<Longrightarrow> refreshed_file E (cf_parsed (sp_cached sp))"
| next_refresh: "refreshed_file E (cf_parsed c) \<Longrightarrow> E env
    \<Longrightarrow> refresh_stable_rollout_file env io file (Some c) = Some sp \<Longrightarrow> refreshed_file E (cf_parsed (sp_cached sp))"

text \<open>Instants from which two seconds can be taken.\<close>

definition safe_instant :: "chrono_range \<Rightarrow> datetime \<Rightarrow> bool" where
  "safe_instant rng t = (min_utc rng + seconds 2 \<le> t \<and> t \<le> max_utc rng + seconds 2)"

definition safe_instants :: "parse_env \<Rightarrow> bool" where
  "safe_instants env = (\<forall>v t. parse_timestamp (pe_chrono env) v = Some t \<longrightarrow> safe_instant (pe_range env) t)"

definition safe_option :: "chrono_range \<Rightarrow> datetime option \<Rightarrow> bool" where
  "safe_option rng t = (case t of None \<Rightarrow> True | Some x \<Rightarrow> safe_instant rng x)"

definition safe_log :: "chrono_range \<Rightarrow> parsed_file \<Rightarrow> bool" where
  "safe_log rng p = safe_option rng (pf_owning_created_at p)"

definition safe_previous :: "chrono_range \<Rightarrow> cached_file option \<Rightarrow> bool" where
  "safe_previous rng previous = (case previous of None \<Rightarrow> True | Some c \<Rightarrow> safe_log rng (cf_parsed c))"

text \<open>What the operations of a refresh report about the time of the file.\<close>

definition safe_io :: "chrono_range \<Rightarrow> (nat \<Rightarrow> io_attempt) \<Rightarrow> bool" where
  "safe_io rng io = list_all (\<lambda>i. (case io_after (io i) of None \<Rightarrow> True | Some f \<Rightarrow> safe_instant rng (rf_modified_at f))
     \<and> (case io_final (io i) of None \<Rightarrow> True | Some fp \<Rightarrow> safe_instant rng (fp_modified fp))) [0, 1]"

text \<open>A session with a message, read by a small parser; instants are numbers in strings.\<close>

definition example_chrono :: chrono_lib where
  "example_chrono = \<lparr>ch_parse_rfc3339 = (\<lambda>s. Some (int (length s))), ch_from_timestamp = (\<lambda>s n. None),
     ch_from_timestamp_millis = (\<lambda>t. None)\<rparr>"

definition example_meta :: json where
  "example_meta = JObject [(''payload'', JObject [(''id'', JString ''t'')]), (''timestamp'', JString ''a''),
     (''type'', JString ''session_meta'')]"

definition example_message :: json where
  "example_message = JObject [(''payload'', JObject [(''message'', JString ''x''), (''type'', JString ''user_message'')]),
     (''timestamp'', JString ''ab''), (''type'', JString ''event_msg'')]"

definition example_json :: "string \<Rightarrow> json option" where
  "example_json line = (if line = ''m'' then Some example_meta else if line = ''u'' then Some example_message else None)"

definition example_parse_env :: "bool \<Rightarrow> parse_env" where
  "example_parse_env redact = \<lparr>pe_range = \<lparr>min_utc = - seconds 2, max_utc = seconds 1000\<rparr>,
     pe_chrono = example_chrono\<lparr>ch_parse_rfc3339 := (\<lambda>s. if length s < 100 then Some (int (length s)) else None)\<rparr>,
     pe_from_slice = example_json, pe_redact_content = redact, pe_modified_at = 0\<rparr>"

definition example_prefix :: string where "example_prefix = ''m'' @ [LF]"

definition example_suffix :: string where "example_suffix = ''u'' @ [LF]"

definition example_file :: "string \<Rightarrow> rollout_file" where
  "example_file bytes = \<lparr>rf_path = [''home'', ''sessions'', ''log''], rf_modified_at = 3,
     rf_fingerprint = \<lparr>fp_len = of_nat (length bytes), fp_modified = 3, fp_dev = 1, fp_ino = 1, fp_ctime = 0, fp_ctime_nsec = 0\<rparr>\<rparr>"

definition example_io :: "string \<Rightarrow> nat \<Rightarrow> io_attempt" where
  "example_io bytes attempt = \<lparr>io_tail_handle = Some (False, bytes), io_full_handle = Some (False, bytes),
     io_after = Some (example_file bytes), io_guard_handle = Some bytes, io_final = None\<rparr>"

definition example_cached :: "bool \<Rightarrow> string \<Rightarrow> cached_file" where
  "example_cached redact bytes = \<lparr>cf_fingerprint = rf_fingerprint (example_file bytes),
     cf_parsed = the (Option.bind (parse_rollout_file (env_at (example_parse_env redact) (example_file bytes)) (Some (False, bytes)))
       (update_tail_guard (Some bytes) (of_nat (length bytes))))\<rparr>"

definition example_log :: "bool \<Rightarrow> parsed_file" where
  "example_log redact = cf_parsed (sp_cached (the (refresh_stable_rollout_file (example_parse_env redact)
     (example_io (example_prefix @ example_suffix)) (example_file (example_prefix @ example_suffix)) None)))"

section \<open>Lines\<close>

lemma bounded_loop_line:
  assumes "LF \<notin> set l"
  shows "\<exists>s out. s \<noteq> LineEof \<and>
    (\<forall>f b saw. bounded_loop n f (l @ LF # b) acc saw cr = Inr (s, out, b))"
  using assms
proof (induction l arbitrary: acc cr)
  case Nil
  then show ?case by auto
next
  case (Cons c l)
  let ?acc = "if cr then push_bounded n CR acc else acc"
  from Cons.prems have c: "c \<noteq> LF" "LF \<notin> set l" by auto
  from Cons.IH [OF c(2), of ?acc True] Cons.IH [OF c(2), of "push_bounded n c ?acc" False]
  show ?case using c(1) by (cases cr; cases "c = CR") auto
qed

lemma bounded_loop_reads: "\<exists>y. bounded_loop n False l acc saw cr = Inr y"
  by (induction n False l acc saw cr rule: bounded_loop.induct) (auto simp: Let_def split: prod.splits)

lemma parse_lines_no_failure: "parse_lines env n False a st = Some (x, st') \<Longrightarrow> \<not> x"
proof (induction "length a" arbitrary: a st rule: less_induct)
  case less
  obtain s out rest where r: "read_bounded_line n False a = Inr (s, out, rest)"
    unfolding read_bounded_line_def using bounded_loop_reads [of n a "([], False)" False False] by fastforce
  show ?case
  proof (cases "s = LineEof")
    case True
    with less.prems r show ?thesis by (simp add: parse_lines.simps [of env n False a])
  next
    case False
    from read_bounded_line_shrinks [OF r False] have "length rest < length a" .
    with False less.prems less.hyps [of rest] r show ?thesis
      by (auto simp: parse_lines.simps [of env n False a] bind_eq_Some_conv)
  qed
qed

lemma parse_lines_Nil [simp]: "parse_lines env n False [] st = Some (False, st)"
  by (subst parse_lines.simps) (simp add: read_bounded_line_def)

lemma parse_lines_line:
  assumes "LF \<notin> set l"
  obtains s out where "s \<noteq> LineEof"
    "\<And>env f b st. parse_lines env n f (l @ LF # b) st = Option.bind (parse_line env s out st) (parse_lines env n f b)"
proof -
  from bounded_loop_line [OF assms, of n "([], False)" False] obtain s out where
    s: "s \<noteq> LineEof" "\<And>f b saw. bounded_loop n f (l @ LF # b) ([], False) saw False = Inr (s, out, b)" by blast
  show ?thesis by (rule that [OF s(1)]) (subst parse_lines.simps, simp add: read_bounded_line_def s)
qed

lemma ends_line_split:
  assumes "ends_line a" "a \<noteq> []"
  obtains l rest where "a = l @ LF # rest" "LF \<notin> set l" "ends_line rest" "length rest < length a"
proof -
  from assms have "LF \<in> set a" using last_in_set [of a] by (auto simp: ends_line_def)
  then obtain l rest where "a = l @ LF # rest" "LF \<notin> set l" by (meson split_list_first)
  with assms(1) that [of l rest] show ?thesis by (auto simp: ends_line_def split: if_splits)
qed

lemma parse_lines_append:
  "ends_line a \<Longrightarrow> parse_lines env n f (a @ b) st =
    Option.bind (parse_lines env n False a st) (\<lambda>(_, st'). parse_lines env n f b st')"
proof (induction "length a" arbitrary: a st rule: less_induct)
  case less
  show ?case
  proof (cases "a = []")
    case False
    obtain l rest where a: "a = l @ LF # rest" "LF \<notin> set l" "ends_line rest" "length rest < length a"
      by (rule ends_line_split [OF less.prems False])
    obtain s out where step:
      "\<And>env f b st. parse_lines env n f (l @ LF # b) st = Option.bind (parse_line env s out st) (parse_lines env n f b)"
      by (rule parse_lines_line [OF a(2)]) blast
    from less.hyps [OF a(4) a(3)] show ?thesis
      unfolding a(1) by (simp add: step split: Option.bind_splits)
  qed simp
qed

section \<open>Fields the loop does not touch\<close>

lemma restamp_simps [simp]:
  "pf_events (restamp c f i k l g p) = pf_events p"
  "pf_warnings (restamp c f i k l g p) = pf_warnings p"
  "pf_source_lines (restamp c f i k l g p) = pf_source_lines p"
  "pf_owner_thread_id (restamp c f i k l g p) = pf_owner_thread_id p"
  by (simp_all add: restamp_def)

lemma push_parsed_warning_restamp [simp]:
  "push_parsed_warning w (restamp c f i k l g p) = restamp c f i k l g (push_parsed_warning w p)"
  by (simp add: push_parsed_warning_def restamp_def)

lemma skip_line_restamp [simp]: "skip_line w (restamp c f i k l g p) = restamp c f i k l g (skip_line w p)"
  by (simp add: skip_line_def restamp_def push_parsed_warning_def)

lemma own_session_meta_restamp [simp]:
  "own_session_meta a b t m (restamp c f i k l g p) = restamp c f i k l g (own_session_meta a b t m p)"
  by (simp add: own_session_meta_def push_event_def widen_replay_def restamp_def split: option.split)

lemma parse_owned_restamp [simp]:
  "parse_owned env n owner rt r e t inh (restamp c f i k l g p) = restamp c f i k l g (parse_owned env n owner rt r e t inh p)"
  by (simp add: parse_owned_def Let_def push_event_def push_parsed_warning_def restamp_def split: option.split)

lemma parse_session_meta_restamp:
  "parse_session_meta env n r (restamp_state c f i k l g st) = restamp_state c f i k l g (parse_session_meta env n r st)"
  by (auto simp: parse_session_meta_def Let_def on_parsed_def own_session_meta_def push_event_def widen_replay_def
      push_parsed_warning_def restamp_def split: option.splits)

lemma parse_foreign_restamp:
  "parse_foreign rt r t (restamp_state c f i k l g st) = restamp_state c f i k l g (parse_foreign rt r t st)"
  by (auto simp: parse_foreign_def Let_def on_parsed_def restamp_def split: option.splits prod.splits)

lemma on_parsed_simps [simp]:
  "pt_owner (on_parsed h st) = pt_owner st"
  "pt_created_at (on_parsed h st) = pt_created_at st"
  "pt_foreign (on_parsed h st) = pt_foreign st"
  "pt_inherit (on_parsed h st) = pt_inherit st"
  "pt_parsed (on_parsed h st) = h (pt_parsed st)"
  by (simp_all add: on_parsed_def)

lemma on_parsed_commute:
  "(\<And>p. h (g p) = g (h p)) \<Longrightarrow> on_parsed h (on_parsed g st) = on_parsed g (on_parsed h st)"
  by (simp add: on_parsed_def)

lemma widen_bounds_restamp [simp]:
  "widen_bounds rt e t (restamp c f i k l g p) = restamp c f i k l g (widen_bounds rt e t p)"
  by (simp add: widen_bounds_def Let_def widen_replay_def restamp_def split: option.split)

lemma record_owned_on_parsed [simp]: "record_owned env r owner (on_parsed h st) = record_owned env r owner st"
  by (simp add: record_owned_def Let_def)

lemma on_parsed_foreign: "(on_parsed h st)\<lparr>pt_foreign := b\<rparr> = on_parsed h (st\<lparr>pt_foreign := b\<rparr>)"
  by (simp add: on_parsed_def)

lemma parse_record_restamp:
  "parse_record env n r (restamp_state c f i k l g st)
    = map_option (restamp_state c f i k l g) (parse_record env n r st)"
proof (cases "pt_owner st")
  case (Some owner)
  show ?thesis
  proof (cases "record_owned env r owner st")
    case (Some owned)
    with \<open>pt_owner st = Some owner\<close> show ?thesis
      by (cases owned) (simp_all add: parse_record_def Let_def parse_session_meta_restamp parse_foreign_restamp
          on_parsed_foreign on_parsed_commute [of _ "restamp c f i k l g"])
  qed (simp add: parse_record_def Let_def parse_session_meta_restamp \<open>pt_owner st = Some owner\<close>)
qed (simp add: parse_record_def Let_def parse_session_meta_restamp)

lemma parse_line_restamp:
  "parse_line env s out (restamp_state c f i k l g st)
    = map_option (restamp_state c f i k l g) (parse_line env s out st)"
proof -
  have lines: "(restamp c f i k l g p)\<lparr>pf_source_lines := n\<rparr> = restamp c f i k l g (p\<lparr>pf_source_lines := n\<rparr>)"
    "(restamp c f i k l g p)\<lparr>pf_parsed_lines := m\<rparr> = restamp c f i k l g (p\<lparr>pf_parsed_lines := m\<rparr>)"
    "pf_parsed_lines (restamp c f i k l g p) = pf_parsed_lines p" for p n m
    by (simp_all add: restamp_def)
  show ?thesis
    by (simp add: parse_line_def Let_def lines parse_record_restamp on_parsed_commute [of _ "restamp c f i k l g"]
        split: option.split)
qed

lemma parse_lines_restamp:
  "parse_lines env n fails bytes (restamp_state c f i k l g st)
    = map_option (apsnd (restamp_state c f i k l g)) (parse_lines env n fails bytes st)"
proof (induction "length bytes" arbitrary: bytes st rule: less_induct)
  case less
  show ?case
  proof (cases "read_bounded_line n fails bytes")
    case (Inl e)
    have skip: "(restamp c f i k l g p)\<lparr>pf_skipped_lines := n, pf_unreadable_files := m\<rparr>
        = restamp c f i k l g (p\<lparr>pf_skipped_lines := n, pf_unreadable_files := m\<rparr>)"
      "pf_skipped_lines (restamp c f i k l g p) = pf_skipped_lines p"
      "pf_unreadable_files (restamp c f i k l g p) = pf_unreadable_files p" for p n m
      by (simp_all add: restamp_def)
    with Inl show ?thesis
      by (simp add: parse_lines.simps [of env n fails bytes] on_parsed_def)
  next
    case (Inr y)
    obtain s out rest where y: "y = (s, out, rest)" by (cases y)
    with Inr less.hyps [of rest] show ?thesis
      by (cases "s = LineEof"; cases "parse_line env s out st")
        (simp_all add: parse_lines.simps [of env n fails bytes] parse_line_restamp read_bounded_line_shrinks)
  qed
qed

section \<open>Ownership of the parsed file\<close>

lemma owner_untouched [simp]:
  "pf_owner_thread_id (push_parsed_warning w p) = pf_owner_thread_id p"
  "pf_owner_thread_id (skip_line w p) = pf_owner_thread_id p"
  "pf_owner_thread_id (own_session_meta e t' t m p) = pf_owner_thread_id p"
  "pf_owner_thread_id (widen_bounds rt e t p) = pf_owner_thread_id p"
  "pf_owner_thread_id (parse_owned env n owner rt r e t inh p) = pf_owner_thread_id p"
  by (simp_all add: push_parsed_warning_def skip_line_def own_session_meta_def push_event_def widen_bounds_def
      widen_replay_def parse_owned_def Let_def split: option.split)

lemma parse_session_meta_owner: "owner_agrees st \<Longrightarrow> owner_agrees (parse_session_meta env n r st)"
  by (auto simp: owner_agrees_def parse_session_meta_def Let_def split: option.split)

lemma parse_foreign_owner: "owner_agrees st \<Longrightarrow> owner_agrees (parse_foreign rt r t st)"
  by (auto simp: owner_agrees_def parse_foreign_def Let_def split: option.split prod.split)

lemma parse_record_owner: "owner_agrees st \<Longrightarrow> parse_record env n r st = Some st' \<Longrightarrow> owner_agrees st'"
  by (auto simp: parse_record_def Let_def parse_session_meta_owner parse_foreign_owner owner_agrees_def
      split: if_splits option.splits) (metis owner_agrees_def parse_session_meta_owner parse_foreign_owner)+

section \<open>Invariants of the parser\<close>

locale parse_invariant =
  fixes env :: parse_env and I :: "parse_state \<Rightarrow> bool"
  assumes record_step: "I st \<Longrightarrow> parse_record env n r st = Some st' \<Longrightarrow> I st'"
    and counters: "I st \<Longrightarrow> (\<And>p. pf_events (h p) = pf_events p \<and> pf_owner_thread_id (h p) = pf_owner_thread_id p)
      \<Longrightarrow> I (on_parsed h st)"
begin

lemma line_step: "I st \<Longrightarrow> parse_line env s out st = Some st' \<Longrightarrow> I st'"
  unfolding parse_line_def Let_def
  by (auto split: if_splits option.splits elim!: record_step [rotated]
      intro!: counters simp: skip_line_def push_parsed_warning_def)

lemma lines_step: "I st \<Longrightarrow> parse_lines env n fails bytes st = Some (x, st') \<Longrightarrow> I st'"
proof (induction "length bytes" arbitrary: bytes st rule: less_induct)
  case less
  show ?case
  proof (cases "read_bounded_line n fails bytes")
    case (Inl e)
    with less.prems show ?thesis
      by (auto simp: parse_lines.simps [of env n fails bytes] push_parsed_warning_def intro!: counters)
  next
    case (Inr y)
    obtain s out rest where y: "y = (s, out, rest)" by (cases y)
    with Inr less.prems less.hyps [of rest] show ?thesis
      by (cases "s = LineEof")
        (auto simp: parse_lines.simps [of env n fails bytes] bind_eq_Some_conv read_bounded_line_shrinks dest: line_step)
  qed
qed

end

interpretation owner: parse_invariant env owner_agrees for env
  by unfold_locales (fact parse_record_owner, simp add: owner_agrees_def)

section \<open>The modification time\<close>

lemma parse_record_modified:
  assumes "explicit_time env r \<noteq> None"
  shows "parse_record (env\<lparr>pe_modified_at := m\<rparr>) n r st = parse_record env n r st"
proof -
  have times: "explicit_time (env\<lparr>pe_modified_at := m\<rparr>) r = explicit_time env r"
    "record_time (env\<lparr>pe_modified_at := m\<rparr>) r = record_time env r"
    using assms by (auto simp: explicit_time_def record_time_def)
  have owned: "parse_owned (env\<lparr>pe_modified_at := m\<rparr>) = parse_owned env"
  proof -
    have chrono: "pe_chrono (env\<lparr>pe_modified_at := m\<rparr>) = pe_chrono env"
      "pe_redact_content (env\<lparr>pe_modified_at := m\<rparr>) = pe_redact_content env" by simp_all
    have "parse_event_msg (env\<lparr>pe_modified_at := m\<rparr>) = parse_event_msg env"
      "parse_response_item (env\<lparr>pe_modified_at := m\<rparr>) = parse_response_item env"
      unfolding parse_event_msg_def [abs_def] parse_response_item_def [abs_def] chrono by (rule refl)+
    then show ?thesis unfolding parse_owned_def [abs_def] by (simp only:)
  qed
  have "parse_session_meta (env\<lparr>pe_modified_at := m\<rparr>) n r st = parse_session_meta env n r st"
    using assms by (auto simp: parse_session_meta_def times Let_def split: option.split)
  moreover have "record_owned (env\<lparr>pe_modified_at := m\<rparr>) = record_owned env"
    by (intro ext) (simp add: record_owned_def Let_def)
  ultimately show ?thesis
    unfolding parse_record_def times owned by (simp only:)
qed

lemma parse_line_modified:
  assumes "line_timestamped env out"
  shows "parse_line (env\<lparr>pe_modified_at := m\<rparr>) s out st = parse_line env s out st"
  using assms by (auto simp: parse_line_def line_timestamped_def Let_def parse_record_modified split: option.splits)

lemma parse_lines_modified:
  "list_all (line_timestamped env) (log_lines n bytes) \<Longrightarrow>
    parse_lines (env\<lparr>pe_modified_at := m\<rparr>) n False bytes st = parse_lines env n False bytes st"
proof (induction "length bytes" arbitrary: bytes st rule: less_induct)
  case less
  show ?case
  proof (cases "read_bounded_line n False bytes")
    case (Inr y)
    obtain s out rest where y: "y = (s, out, rest)" by (cases y)
    with Inr less.prems less.hyps [of rest] show ?thesis
      by (cases "s = LineEof"; cases "parse_line env s out st")
        (auto simp: parse_lines.simps [of _ n False bytes] log_lines.simps [of n bytes] parse_line_modified
          read_bounded_line_shrinks)
  qed (simp add: parse_lines.simps [of _ n False bytes])
qed

section \<open>The refresh of an appended file\<close>

lemma parse_reader_append:
  assumes a: "ends_line a" and p0: "parse_rollout_reader_with_limit env n False a p = Some p0"
  shows "parse_rollout_reader_with_limit env n fails b
      (p0\<lparr>pf_ends_with_newline := l, pf_tail_guard := g, pf_complete := k\<rparr>)
    = map_option (\<lambda>q. q\<lparr>pf_ends_with_newline := l, pf_tail_guard := g\<rparr>)
        (parse_rollout_reader_with_limit env n fails (a @ b) p)"
proof -
  let ?start = "\<lparr>pt_parsed = p, pt_owner = pf_owner_thread_id p, pt_created_at = pf_owning_created_at p,
    pt_foreign = pf_replaying_foreign_history p, pt_inherit = pf_inherit_foreign_thread_settings p\<rparr>"
  from p0 obtain x st where st: "parse_lines env n False a ?start = Some (x, st)"
    by (auto simp: parse_rollout_reader_with_limit_def)
  then have x: "\<not> x" by (rule parse_lines_no_failure)
  have owner: "owner_agrees st" by (rule owner.lines_step [OF _ st]) (simp add: owner_agrees_def)
  from p0 st x have p0': "p0 = (pt_parsed st)\<lparr>pf_owning_created_at := pt_created_at st,
      pf_replaying_foreign_history := pt_foreign st, pf_inherit_foreign_thread_settings := pt_inherit st, pf_complete := True\<rparr>"
    by (simp add: parse_rollout_reader_with_limit_def)
  let ?h = "restamp (pt_created_at st) (pt_foreign st) (pt_inherit st) k l g"
  have resume: "\<lparr>pt_parsed = p0\<lparr>pf_ends_with_newline := l, pf_tail_guard := g, pf_complete := k\<rparr>,
      pt_owner = pf_owner_thread_id p0, pt_created_at = pf_owning_created_at p0,
      pt_foreign = pf_replaying_foreign_history p0, pt_inherit = pf_inherit_foreign_thread_settings p0\<rparr> = on_parsed ?h st"
    using owner by (simp add: p0' owner_agrees_def on_parsed_def restamp_def)
  show ?thesis
    using st by (auto simp: parse_rollout_reader_with_limit_def resume parse_lines_restamp parse_lines_append [OF a]
        option.map_comp comp_def restamp_def split: prod.split intro!: option.map_cong)
qed

lemma env_at_parts: "env_at env old = env\<lparr>pe_modified_at := rf_modified_at old\<rparr>"
  by (simp add: env_at_def)

lemma line_timestamped_modified [simp]: "line_timestamped (env\<lparr>pe_modified_at := m\<rparr>) = line_timestamped env"
  by (intro ext) (simp add: line_timestamped_def explicit_time_def split: option.split)

lemma parse_file_modified:
  assumes "times_settled env a old new"
  shows "parse_rollout_file (env_at env old) (Some (False, a)) = parse_rollout_file (env_at env new) (Some (False, a))"
proof -
  have "parse_lines (env_at env old) ROLLOUT_MAX_LINE_BYTES False a st = parse_lines (env_at env new) ROLLOUT_MAX_LINE_BYTES False a st" for st
    using assms unfolding env_at_def prefix_timestamped_def times_settled_def by (auto simp: parse_lines_modified)
  then show ?thesis
    by (simp add: parse_rollout_file_def parse_rollout_reader_def parse_rollout_reader_with_limit_def)
qed

lemma update_tail_guard_newline:
  assumes "update_tail_guard (Some a) (of_nat (length a)) p0 = Some p" "length a < 2 ^ 64"
  shows "ends_line a \<or> \<not> pf_ends_with_newline p"
    and "p = p0\<lparr>pf_ends_with_newline := pf_ends_with_newline p, pf_tail_guard := pf_tail_guard p\<rparr>"
proof -
  have len: "unat (of_nat (length a) :: u64) = length a"
    using assms(2) by (simp add: unat_of_nat)
  show "ends_line a \<or> \<not> pf_ends_with_newline p"
    using assms(1) len
    by (auto simp: update_tail_guard_def ends_line_def Let_def read_exact_at_def last_drop split: if_splits)
  show "p = p0\<lparr>pf_ends_with_newline := pf_ends_with_newline p, pf_tail_guard := pf_tail_guard p\<rparr>"
    using assms(1) by (auto simp: update_tail_guard_def Let_def split: if_splits)
qed

lemma update_tail_guard_absorbs: "guard_update h \<Longrightarrow> update_tail_guard handle n (h q) = update_tail_guard handle n q"
  by (cases handle) (auto simp: guard_update_def update_tail_guard_def Let_def intro!: option.map_cong)

lemma guard_update_complete: "guard_update h \<Longrightarrow> pf_complete (h q) = pf_complete q"
  by (auto simp: guard_update_def)

lemma parse_file_complete: "parse_rollout_file env (Some (False, a)) = Some q \<Longrightarrow> pf_complete q"
  by (auto simp: parse_rollout_file_def parse_rollout_reader_def parse_rollout_reader_with_limit_def
      dest: parse_lines_no_failure)

lemma candidate_of_appended:
  assumes c: "cached_for env old a c" and t: "times_settled env a old file"
    and io: "io_tail_handle io = Some (fails, a @ b)" "io_full_handle io = Some (fails, a @ b)"
  shows "\<exists>h. guard_update h \<and> map_option fst (parse_rollout_candidate env io file (Some c))
    = map_option h (parse_rollout_file (env_at env file) (Some (fails, a @ b)))"
proof -
  let ?full = "parse_rollout_file (env_at env file) (Some (fails, a @ b))"
  have full: "\<exists>h. guard_update h \<and> map_option fst (map_option (\<lambda>p. (p, y)) ?full) = map_option h ?full" for y
    by (rule exI [of _ id]) (simp add: guard_update_def option.map_comp comp_def option.map_ident option.map_id)
  show ?thesis
  proof (cases "can_tail_parse c file \<and> fst (tail_guard_matches_counted (a @ b) (fp_len (cf_fingerprint c)) (pf_tail_guard (cf_parsed c)) 0)")
    case False
    with io show ?thesis
      using full
      by (auto simp: parse_rollout_candidate_def parse_rollout_tail_def Let_def split: prod.split)
  next
    case True
    from c obtain p0 where p0: "parse_rollout_file (env_at env old) (Some (False, a)) = Some p0"
      "update_tail_guard (Some a) (of_nat (length a)) p0 = Some (cf_parsed c)"
      "fp_len (cf_fingerprint c) = of_nat (length a)" "length a < 2 ^ 64"
      by (auto simp: cached_for_def split: option.splits)
    have len: "unat (of_nat (length a) :: u64) = length a" using p0(4) by (simp add: unat_of_nat)
    from update_tail_guard_newline [OF p0(2,4)] True have a: "ends_line a"
      by (auto simp: can_tail_parse_def)
    let ?l = "pf_ends_with_newline (cf_parsed c)" and ?g = "pf_tail_guard (cf_parsed c)"
    have p: "(cf_parsed c)\<lparr>pf_complete := False\<rparr>
        = p0\<lparr>pf_ends_with_newline := ?l, pf_tail_guard := ?g, pf_complete := False\<rparr>"
      by (subst update_tail_guard_newline(2) [OF p0(2,4)]) simp
    from p0(1) have p0': "parse_rollout_file (env_at env file) (Some (False, a)) = Some p0"
      using parse_file_modified [OF t] by metis
    have "map_option fst (parse_rollout_candidate env io file (Some c))
        = parse_rollout_reader (env_at env file) fails b ((cf_parsed c)\<lparr>pf_complete := False\<rparr>)"
      using True io p0(3) len
      by (auto simp: parse_rollout_candidate_def parse_rollout_tail_def Let_def split: prod.splits option.splits
          Option.bind_splits)
    also have "\<dots> = map_option (\<lambda>q. q\<lparr>pf_ends_with_newline := ?l, pf_tail_guard := ?g\<rparr>) ?full"
      using p0' unfolding p parse_rollout_file_def parse_rollout_reader_def option.case prod.case
      by (rule parse_reader_append [OF a])
    finally show ?thesis by (auto simp: guard_update_def)
  qed
qed

lemma attempt_counters_irrelevant:
  "map_option (map_sum sp_cached fst) (refresh_attempt env io n file prev x y)
    = map_option (map_sum sp_cached fst) (refresh_attempt env io n file prev x' y')"
  by (cases "parse_rollout_candidate env io file prev"; cases "io_after io")
    (auto simp: refresh_attempt_def Let_def split: prod.split)

lemma refresh_cached_from_attempts:
  assumes "map_option (map_sum sp_cached fst) (refresh_attempt env (io 0) 0 file p 0 0)
    = map_option (map_sum sp_cached fst) (refresh_attempt env (io 0) 0 file q 0 0)"
  shows "map_option sp_cached (refresh_stable_rollout_file env io file p)
    = map_option sp_cached (refresh_stable_rollout_file env io file q)"
proof -
  have *: "map_option sp_cached (refresh_stable_rollout_file env io file p) =
      Option.bind (map_option (map_sum sp_cached fst) (refresh_attempt env (io 0) 0 file p 0 0)) (\<lambda>first. case first of
        Inl cached \<Rightarrow> Some cached
      | Inr candidate \<Rightarrow> Option.bind (map_option (map_sum sp_cached fst) (refresh_attempt env (io 1) 1 candidate None 0 0))
          (\<lambda>second. case second of Inl cached \<Rightarrow> Some cached | Inr _ \<Rightarrow> None))" for p
  proof -
    have second: "map_option sp_cached (Option.bind (refresh_attempt env (io 1) 1 candidate None x y)
          (\<lambda>second. case second of Inl done \<Rightarrow> Some done | Inr _ \<Rightarrow> None))
        = Option.bind (map_option (map_sum sp_cached fst) (refresh_attempt env (io 1) 1 candidate None 0 0))
          (\<lambda>second. case second of Inl cached \<Rightarrow> Some cached | Inr _ \<Rightarrow> None)" for candidate x y
      by (subst attempt_counters_irrelevant [of env "io 1" 1 candidate None 0 0 x y])
        (cases "refresh_attempt env (io 1) 1 candidate None x y", auto split: sum.split)
    show ?thesis
      by (cases "refresh_attempt env (io 0) 0 file p 0 0")
        (auto simp: refresh_stable_rollout_file_def second [simplified] split: sum.split)
  qed
  show ?thesis unfolding * assms ..
qed

text \<open>C3. Refreshing a log that only grew, from a cached parse of its prefix, caches exactly what parsing
  the whole file caches, whether or not the guard of the prefix lets the appended bytes be parsed alone,
  under two conditions.  Every record of the prefix carries its own time, or the modification time is the
  one of the first parse: other records take the modification time, and the tail refresh keeps the
  old one.  The handles of the refresh read the same bytes: the file does not change during the refresh.\<close>

theorem tail_refresh_is_full_refresh:
  assumes c: "cached_for env old a c" and t: "times_settled env a old file"
    and io: "io_tail_handle (io 0) = Some (False, a @ b)" "io_full_handle (io 0) = Some (False, a @ b)"
      "io_guard_handle (io 0) = Some (a @ b)" "io_after (io 0) \<noteq> None"
    and len: "fp_len (rf_fingerprint file) = of_nat (length (a @ b))" "length (a @ b) < 2 ^ 64"
  shows "map_option sp_cached (refresh_stable_rollout_file env io file (Some c))
    = map_option sp_cached (refresh_stable_rollout_file env io file None)"
proof (rule refresh_cached_from_attempts)
  obtain h where h: "guard_update h" "map_option fst (parse_rollout_candidate env (io 0) file (Some c))
      = map_option h (parse_rollout_file (env_at env file) (Some (False, a @ b)))"
    using candidate_of_appended [OF c t io(1,2)] by blast
  have none: "parse_rollout_candidate env (io 0) file None = map_option (\<lambda>p. (p, False, fp_len (rf_fingerprint file), 0))
      (parse_rollout_file (env_at env file) (Some (False, a @ b)))"
    by (simp add: parse_rollout_candidate_def io)
  have guarded: "update_tail_guard (Some (a @ b)) (fp_len fp) q \<noteq> None"
    if "fingerprint_eq fp (rf_fingerprint file)" for fp q
  proof -
    have "unat (fp_len fp) = length (a @ b)"
      using that len by (simp add: fingerprint_eq_def unat_of_nat del: length_append of_nat_add split: if_splits)
    then show ?thesis by (auto simp: update_tail_guard_def Let_def read_exact_at_def)
  qed
  show "map_option (map_sum sp_cached fst) (refresh_attempt env (io 0) 0 file (Some c) 0 0)
      = map_option (map_sum sp_cached fst) (refresh_attempt env (io 0) 0 file None 0 0)"
  proof (cases "parse_rollout_file (env_at env file) (Some (False, a @ b))")
    case None
    with h none show ?thesis by (simp add: refresh_attempt_def)
  next
    case (Some q)
    with h obtain y where "parse_rollout_candidate env (io 0) file (Some c) = Some (h q, y)" by auto
    moreover from Some have "pf_complete q" by (rule parse_file_complete)
    ultimately show ?thesis
      using Some none io(3,4) guarded
      by (auto simp: refresh_attempt_def Let_def guard_update_complete [OF h(1)] update_tail_guard_absorbs [OF h(1)]
          split: prod.split option.split) (metis guarded)+
  qed
qed

section \<open>Events of a parsed file\<close>

text \<open>A predicate on events that every rule of the parser keeps.\<close>

locale event_invariant =
  fixes env :: parse_env and P :: "parsed_event \<Rightarrow> bool"
  assumes session: "P (SessionMeta t m)"
    and activity: "P (Activity t)"
    and baseline: "P (ForeignCounterBaseline t u)"
    and settings: "P (ForeignThreadSettingsBaseline t model tier)"
    and context_: "P (TurnContext t m)"
    and request: "parse_request_usage m t = Some e \<Longrightarrow> P e"
    and message: "e \<in> set (parse_event_msg env inherit m explicit t n) \<Longrightarrow> P e"
    and item: "e \<in> set (parse_response_item env m explicit t) \<Longrightarrow> P e"
begin

definition holds :: "parse_state \<Rightarrow> bool" where
  "holds st = list_all P (pf_events (pt_parsed st))"

lemma parse_owned_events:
  assumes p: "list_all P (pf_events p)"
  shows "list_all P (pf_events (parse_owned env n owner rt r e t inherit p))"
proof (cases "object_at r [''payload'']")
  case None
  with p show ?thesis by (simp add: parse_owned_def activity)
next
  case (Some m)
  have finish: "list_all P (pf_events (p\<lparr>pf_events := pf_events p @ (if es = [] then [Activity t] else es)\<rparr>))"
    if "list_all P es" for es
    using p that by (simp add: activity)
  have es: "list_all P (parse_event_msg env inherit m e t n)" "list_all P (parse_response_item env m e t)"
    using message item by (auto simp: list_all_iff)
  show ?thesis
  proof (cases "rt = Some ''token_usage_record''")
    case True
    with Some p show ?thesis
      by (auto simp: parse_owned_def push_event_def push_parsed_warning_def activity request split: option.split)
  next
    case False
    with Some show ?thesis
      unfolding parse_owned_def Let_def
      by (simp only: if_False option.case, intro finish) (simp add: es context_)
  qed
qed

lemma parse_session_meta_events: "holds st \<Longrightarrow> holds (parse_session_meta env n r st)"
  by (auto simp: session holds_def list_all_iff parse_session_meta_def Let_def own_session_meta_def push_event_def widen_replay_def
      push_parsed_warning_def split: option.split)

lemma parse_foreign_events: "holds st \<Longrightarrow> holds (parse_foreign rt r t st)"
  by (auto simp: baseline settings holds_def list_all_iff parse_foreign_def Let_def retain_latest_foreign_baseline_def
      retain_latest_foreign_thread_settings_def dest!: subsetD [OF set_update_subset_insert]
      split: option.split prod.split option.splits)

lemma parse_record_events: "holds st \<Longrightarrow> parse_record env n r st = Some st' \<Longrightarrow> holds st'"
  by (auto simp: parse_record_def Let_def parse_session_meta_events parse_foreign_events
      split: if_splits option.splits)
    (auto simp: holds_def widen_bounds_def widen_replay_def Let_def intro!: parse_owned_events split: option.split)

sublocale parse_invariant env holds
  by unfold_locales (fact parse_record_events, simp add: holds_def)

lemma reader_events:
  assumes p: "list_all P (pf_events p)" and r: "parse_rollout_reader env fails bytes p = Some p'"
  shows "list_all P (pf_events p')"
proof -
  let ?start = "\<lparr>pt_parsed = p, pt_owner = pf_owner_thread_id p, pt_created_at = pf_owning_created_at p,
    pt_foreign = pf_replaying_foreign_history p, pt_inherit = pf_inherit_foreign_thread_settings p\<rparr>"
  from r obtain x st where "parse_lines env ROLLOUT_MAX_LINE_BYTES fails bytes ?start = Some (x, st)"
    "pf_events p' = pf_events (pt_parsed st)"
    by (auto simp: parse_rollout_reader_def parse_rollout_reader_with_limit_def)
  with lines_step [OF _ this(1)] p show ?thesis by (simp add: holds_def)
qed

end

section \<open>What the events of a log satisfy\<close>

lemma nonempty_string_field: "nonempty_string_field_in m ks = Some s \<Longrightarrow> s \<noteq> []"
  unfolding nonempty_string_field_in_def by (induction ks) (auto simp: opt_filter_Some split: option.splits)

lemma cache_event_message_kinds:
  assumes "cache_event_message ch m t n = Some e"
  shows "\<not> is_user_message e" "valid_event e"
  using assms by (auto simp: cache_event_message_def Let_def split: if_splits)

lemma parse_request_usage_kinds:
  assumes "parse_request_usage m t = Some e"
  shows "\<not> is_user_message e" "valid_event e"
  using assms by (auto simp: parse_request_usage_def bind_eq_Some_conv opt_filter_Some split: if_splits option.split)

lemma agent_evidence_valid:
  "response_item_agent_call m = Some (c, turn, kind) \<Longrightarrow> c \<noteq> [] \<and> turn \<noteq> [] \<and> kind \<noteq> UnknownInteraction"
  "subagent_activity m = Some (c, child, kind) \<Longrightarrow> c \<noteq> [] \<and> child \<noteq> [] \<and> kind \<noteq> UnknownInteraction"
  by (auto simp: response_item_agent_call_def subagent_activity_def bind_eq_Some_conv nonempty_string_field
      split: if_splits dest: nonempty_string_field)

interpretation redaction: event_invariant env "\<lambda>e. pe_redact_content env \<longrightarrow> \<not> is_user_message e" for env
  by unfold_locales (auto simp: parse_event_msg_def parse_response_item_def Let_def parse_request_usage_kinds(1)
      cache_event_message_kinds(1) split: if_splits option.splits)

interpretation validation: event_invariant env valid_event for env
  by unfold_locales (auto simp: parse_event_msg_def parse_response_item_def Let_def parse_request_usage_kinds(2)
      cache_event_message_kinds(2) dest: agent_evidence_valid agent_evidence_valid [OF sym] split: if_splits option.splits)

section \<open>What a refresh keeps\<close>

text \<open>A property of the events of a file that the reader keeps is kept by every refresh of the file.\<close>

locale log_invariant =
  fixes env :: parse_env and Q :: "parsed_event list \<Rightarrow> bool"
  assumes empty_log: "Q []"
    and reads: "Q (pf_events p) \<Longrightarrow> parse_rollout_reader (env_at env file) fails bytes p = Some p' \<Longrightarrow> Q (pf_events p')"
begin

lemma parses: "parse_rollout_file (env_at env file) handle = Some p \<Longrightarrow> Q (pf_events p)"
  by (cases handle) (auto simp: parse_rollout_file_def parsed_file_default_def empty_log dest!: reads [rotated] split: prod.splits)

lemma candidate:
  assumes "parse_rollout_candidate env io file previous = Some (p, x)"
    "\<And>c. previous = Some c \<Longrightarrow> Q (pf_events (cf_parsed c))"
  shows "Q (pf_events p)"
proof (cases "map_option (\<lambda>p. (p, x)) (parse_rollout_file (env_at env file) (io_full_handle io)) = Some (p, x)")
  case True
  then show ?thesis by (auto intro: parses)
next
  case False
  with assms(1) obtain c bytes fails where c: "previous = Some c"
    and "parse_rollout_reader (env_at env file) fails bytes ((cf_parsed c)\<lparr>pf_complete := False\<rparr>) = Some p"
    by (auto simp: parse_rollout_candidate_def parse_rollout_tail_def Let_def bind_eq_Some_conv
      split: option.splits if_splits prod.splits)
  with reads [OF _ this(2)] assms(2) [OF c] show ?thesis by simp
qed

lemma guarded: "update_tail_guard handle n p = Some p' \<Longrightarrow> pf_events p' = pf_events p"
  by (auto simp: update_tail_guard_def Let_def bind_eq_Some_conv split: if_splits)

lemma unreadable: "pf_events (mark_unreadable w p) = pf_events p"
  by (simp add: mark_unreadable_def push_parsed_warning_def)

lemma attempt:
  assumes "refresh_attempt env io n file previous x y = Some (Inl sp)"
    "\<And>c. previous = Some c \<Longrightarrow> Q (pf_events (cf_parsed c))"
  shows "Q (pf_events (cf_parsed (sp_cached sp)))"
proof -
  from assms(1) obtain p tail a b where c: "parse_rollout_candidate env io file previous = Some (p, tail, a, b)"
    by (auto simp: refresh_attempt_def bind_eq_Some_conv)
  have "Q (pf_events p)" by (rule candidate [OF c assms(2)])
  with assms(1) c show ?thesis
    by (auto simp: refresh_attempt_def Let_def unreadable dest!: guarded split: option.splits if_splits)
qed

lemma refresh_keeps:
  assumes r: "refresh_stable_rollout_file env io file previous = Some sp"
    and c: "\<And>c. previous = Some c \<Longrightarrow> Q (pf_events (cf_parsed c))"
  shows "Q (pf_events (cf_parsed (sp_cached sp)))"
proof -
  from r obtain first where f: "refresh_attempt env (io 0) 0 file previous 0 0 = Some first"
    by (auto simp: refresh_stable_rollout_file_def bind_eq_Some_conv)
  show ?thesis
  proof (cases first)
    case (Inl a)
    with r f c show ?thesis by (auto simp: refresh_stable_rollout_file_def intro: attempt)
  next
    case (Inr b)
    obtain candidate x y where b: "b = (candidate, x, y)" by (cases b)
    with Inr r f have "refresh_attempt env (io 1) 1 candidate None x y = Some (Inl sp)"
      by (cases "refresh_attempt env (io 1) 1 candidate None x y")
        (auto simp: refresh_stable_rollout_file_def split: sum.splits)
    then show ?thesis by (rule attempt) simp
  qed
qed

end

interpretation redacted_log: log_invariant env "list_all (\<lambda>e. pe_redact_content env \<longrightarrow> \<not> is_user_message e)" for env
proof unfold_locales
  fix p p' :: parsed_file and log fails bytes
  assume "list_all (\<lambda>e. pe_redact_content env \<longrightarrow> \<not> is_user_message e) (pf_events p)"
    "parse_rollout_reader (env_at env log) fails bytes p = Some p'"
  then show "list_all (\<lambda>e. pe_redact_content env \<longrightarrow> \<not> is_user_message e) (pf_events p')"
    using redaction.reader_events [of "env_at env log" p fails bytes p'] by (simp add: env_at_def)
qed simp

interpretation valid_log: log_invariant env "list_all valid_event" for env
  by unfold_locales (auto intro: validation.reader_events)

lemma refreshed_no_messages: "refreshed_file pe_redact_content p \<Longrightarrow> no_messages p"
proof (induction rule: refreshed_file.induct)
  case (first_refresh env io log sp)
  then show ?case using redacted_log.refresh_keeps [OF first_refresh(2)] by (simp add: no_messages_def)
next
  case (next_refresh c env io log sp)
  then show ?case using redacted_log.refresh_keeps [OF next_refresh(3)] by (simp add: no_messages_def)
qed

text \<open>The events of a cached log, refreshed any number of times, are validated: requests name their turn and
  a response of at most 1024 bytes and have consistent usage, agent calls and activities have identities and
  a known kind, and counters carry evidence.\<close>

theorem refreshed_events_valid: "refreshed_file E p \<Longrightarrow> valid_events p"
proof (induction rule: refreshed_file.induct)
  case (first_refresh env io log sp)
  then show ?case using valid_log.refresh_keeps [OF first_refresh(2)] by (simp add: valid_events_def)
next
  case (next_refresh c env io log sp)
  then show ?case using valid_log.refresh_keeps [OF next_refresh(3)] by (simp add: valid_events_def)
qed

section \<open>Native records inside a foreign segment\<close>

text \<open>A record whose \<open>thread_id\<close> sits only in its payload does not end a foreign segment.\<close>

lemma object_not_string: "as_object v = Some m \<Longrightarrow> as_str v = None"
  by (cases v) simp_all

lemma string_field_payload_names:
  assumes "object_at r [''payload''] = Some payload" "string_field r [''thread_id''] = None"
  shows "string_field r [''payload'', ''thread_id''] = None"
  using assms by (cases r) (auto simp: string_field_def string_field_in_def object_at_def json_get_def object_not_string split: option.splits)

theorem native_record_ignored_in_foreign_segment:
  assumes "pt_foreign st" "pt_owner st = Some owner" "string_field r [''type''] = Some ''token_usage_record''"
    and "object_at r [''payload''] = Some payload" "string_field payload_json [''thread_id''] = Some owner"
    and "payload_json = JObject payload" "string_field r [''thread_id''] = None"
  shows "parse_record env n r st = Some st"
  using assms string_field_payload_names [OF assms(4,7)]
  by (simp add: parse_record_def record_owned_def starts_owning_segment_def parse_foreign_def Let_def)

section \<open>The parser does not panic\<close>

lemma safe_sub: "safe_instant rng t \<Longrightarrow> checked_sub_signed rng t (seconds 2) \<noteq> None"
  by (simp add: safe_instant_def checked_sub_signed_def)

lemma record_owned_returns:
  assumes "safe_option (pe_range env) (pt_created_at st)"
  shows "\<exists>b. record_owned env r owner st = Some b"
proof -
  have "starts_owning_segment (pe_range env) ch rt m owner (pt_created_at st) \<noteq> None" for ch rt m
    using assms safe_sub by (auto simp: starts_owning_segment_def safe_option_def Let_def split: option.splits)
  then show ?thesis by (auto simp: record_owned_def Let_def)
qed

lemma record_time_safe:
  assumes "safe_instants env" "safe_instant (pe_range env) (pe_modified_at env)"
  shows "safe_instant (pe_range env) (record_time env r)"
  using assms by (auto simp: record_time_def explicit_time_def safe_instants_def bind_eq_Some_conv split: option.split)

lemma parse_session_meta_created:
  assumes "safe_instants env" "safe_instant (pe_range env) (pe_modified_at env)"
    "safe_option (pe_range env) (pt_created_at st)"
  shows "safe_option (pe_range env) (pt_created_at (parse_session_meta env n r st))"
  using assms record_time_safe [OF assms(1,2), of r]
  by (auto simp: parse_session_meta_def Let_def safe_option_def safe_instants_def opt_or_def bind_eq_Some_conv
      split: option.splits)

lemma parse_foreign_created: "pt_created_at (parse_foreign rt r t st) = pt_created_at st"
  by (simp add: parse_foreign_def Let_def split: option.split prod.split)

lemma parse_record_returns:
  assumes "safe_instants env" "safe_instant (pe_range env) (pe_modified_at env)"
    "safe_option (pe_range env) (pt_created_at st)"
  shows "\<exists>st'. parse_record env n r st = Some st' \<and> safe_option (pe_range env) (pt_created_at st')"
proof (cases "pt_owner st")
  case None
  with assms show ?thesis by (simp add: parse_record_def Let_def parse_session_meta_created)
next
  case (Some owner)
  from record_owned_returns [OF assms(3)] obtain b where "record_owned env r owner st = Some b" ..
  with Some assms show ?thesis
    by (simp add: parse_record_def Let_def parse_session_meta_created parse_foreign_created)
qed

lemma parse_line_returns:
  assumes "safe_instants env" "safe_instant (pe_range env) (pe_modified_at env)"
    "safe_option (pe_range env) (pt_created_at st)"
  shows "\<exists>st'. parse_line env s out st = Some st' \<and> safe_option (pe_range env) (pt_created_at st')"
  using assms by (simp add: parse_line_def Let_def parse_record_returns split: option.split)

lemma parse_lines_returns:
  assumes "safe_instants env" "safe_instant (pe_range env) (pe_modified_at env)"
  shows "safe_option (pe_range env) (pt_created_at st)
    \<Longrightarrow> \<exists>x st'. parse_lines env n fails bytes st = Some (x, st') \<and> safe_option (pe_range env) (pt_created_at st')"
proof (induction "length bytes" arbitrary: bytes st rule: less_induct)
  case less
  show ?case
  proof (cases "read_bounded_line n fails bytes")
    case (Inl e)
    with less.prems show ?thesis by (auto simp: parse_lines.simps [of env n fails bytes])
  next
    case (Inr y)
    obtain s out rest where y: "y = (s, out, rest)" by (cases y)
    obtain st1 where "parse_line env s out st = Some st1" "safe_option (pe_range env) (pt_created_at st1)"
      using parse_line_returns [OF assms less.prems] by blast
    with y Inr less show ?thesis
      by (cases "s = LineEof") (auto simp: parse_lines.simps [of env n fails bytes] read_bounded_line_shrinks)
  qed
qed

lemma parse_reader_returns:
  assumes "safe_instants env" "safe_instant (pe_range env) (rf_modified_at rf)" "safe_log (pe_range env) p"
  shows "\<exists>p'. parse_rollout_reader (env_at env rf) fails bytes p = Some p' \<and> safe_log (pe_range env) p'"
proof -
  let ?start = "\<lparr>pt_parsed = p, pt_owner = pf_owner_thread_id p, pt_created_at = pf_owning_created_at p,
    pt_foreign = pf_replaying_foreign_history p, pt_inherit = pf_inherit_foreign_thread_settings p\<rparr>"
  have "safe_instants (env_at env rf)" "safe_instant (pe_range (env_at env rf)) (pe_modified_at (env_at env rf))"
    "safe_option (pe_range (env_at env rf)) (pt_created_at ?start)"
    using assms by (simp_all add: env_at_def safe_instants_def safe_log_def)
  from parse_lines_returns [OF this, of ROLLOUT_MAX_LINE_BYTES fails bytes] show ?thesis
    by (auto simp: parse_rollout_reader_def parse_rollout_reader_with_limit_def safe_log_def env_at_def)
qed

lemma parse_file_returns:
  assumes "safe_instants env" "safe_instant (pe_range env) (rf_modified_at rf)"
  shows "\<exists>p. parse_rollout_file (env_at env rf) handle = Some p \<and> safe_log (pe_range env) p"
proof (cases handle)
  case None
  then show ?thesis by (simp add: parse_rollout_file_def parsed_file_default_def safe_log_def safe_option_def)
next
  case (Some h)
  obtain fails bytes where "h = (fails, bytes)" by (cases h)
  with Some parse_reader_returns [OF assms, of "parsed_file_default\<lparr>pf_replay_timestamps_complete := True\<rparr>" fails bytes]
  show ?thesis by (simp add: parse_rollout_file_def parsed_file_default_def safe_log_def safe_option_def)
qed

lemma parse_candidate_returns:
  assumes env: "safe_instants env" "safe_instant (pe_range env) (rf_modified_at rf)"
    and c: "safe_previous (pe_range env) previous"
  shows "\<exists>p x. parse_rollout_candidate env io rf previous = Some (p, x) \<and> safe_log (pe_range env) p"
proof -
  obtain p where p: "parse_rollout_file (env_at env rf) (io_full_handle io) = Some p" "safe_log (pe_range env) p"
    using parse_file_returns [OF env] by blast
  have tail: "\<exists>q. parse_rollout_reader (env_at env rf) fails bytes ((cf_parsed k)\<lparr>pf_complete := False\<rparr>) = Some q
      \<and> safe_log (pe_range env) q" if "previous = Some k" for k fails bytes
    using parse_reader_returns [OF env, of "(cf_parsed k)\<lparr>pf_complete := False\<rparr>" fails bytes] c that
    by (simp add: safe_previous_def safe_log_def)
  show ?thesis
  proof (cases "\<exists>k fails bytes. previous = Some k \<and> can_tail_parse k rf \<and> io_tail_handle io = Some (fails, bytes)
      \<and> fst (tail_guard_matches_counted bytes (fp_len (cf_fingerprint k)) (pf_tail_guard (cf_parsed k)) 0)")
    case True
    then obtain k fails bytes where k: "previous = Some k" "can_tail_parse k rf" "io_tail_handle io = Some (fails, bytes)"
      "fst (tail_guard_matches_counted bytes (fp_len (cf_fingerprint k)) (pf_tail_guard (cf_parsed k)) 0)" by blast
    with tail [OF k(1), of fails "drop (unat (fp_len (cf_fingerprint k))) bytes"] show ?thesis
      by (auto simp: parse_rollout_candidate_def parse_rollout_tail_def Let_def split: prod.split)
  next
    case False
    with p show ?thesis
      by (cases previous; cases "io_tail_handle io")
        (auto simp: parse_rollout_candidate_def parse_rollout_tail_def Let_def split: prod.split)
  qed
qed

lemma safe_log_fields [simp]:
  "safe_log rng (mark_unreadable w p) = safe_log rng p"
  "safe_log rng (p\<lparr>pf_ends_with_newline := l, pf_tail_guard := g\<rparr>) = safe_log rng p"
  by (simp_all add: safe_log_def mark_unreadable_def push_parsed_warning_def)

lemma update_tail_guard_safe: "update_tail_guard handle n p = Some p' \<Longrightarrow> safe_log rng p' = safe_log rng p"
  by (auto simp: update_tail_guard_def Let_def bind_eq_Some_conv split: if_splits)

lemma fingerprint_eq_refl [simp]: "fingerprint_eq a a"
  by (simp add: fingerprint_eq_def)

lemma refresh_attempt_returns:
  assumes env: "safe_instants env" "safe_instant (pe_range env) (rf_modified_at rf)"
    and c: "safe_previous (pe_range env) previous" and io: "safe_io (pe_range env) io" and i: "i < 2"
  shows "\<exists>res. refresh_attempt env (io i) i rf previous x y = Some res
    \<and> (case res of Inl sp \<Rightarrow> safe_log (pe_range env) (cf_parsed (sp_cached sp))
       | Inr (rf', _) \<Rightarrow> i = 0 \<and> safe_instant (pe_range env) (rf_modified_at rf'))"
proof -
  obtain p tail a b where p: "parse_rollout_candidate env (io i) rf previous = Some (p, tail, a, b)" "safe_log (pe_range env) p"
    using parse_candidate_returns [OF env c, of "io i"] by auto
  have io': "\<And>f. io_after (io i) = Some f \<Longrightarrow> safe_instant (pe_range env) (rf_modified_at f)"
    "\<And>fp. io_final (io i) = Some fp \<Longrightarrow> safe_instant (pe_range env) (fp_modified fp)"
    using io i by (auto simp: safe_io_def less_2_cases_iff)
  show ?thesis
  proof (cases "io_after (io i)")
    case None
    with p show ?thesis by (simp add: refresh_attempt_def Let_def)
  next
    case (Some f)
    show ?thesis
    proof (cases "fingerprint_eq (rf_fingerprint f) (rf_fingerprint rf)")
      case True
      let ?g = "if pf_complete p then (case update_tail_guard (io_guard_handle (io i)) (fp_len (rf_fingerprint f)) p of
          Some p \<Rightarrow> p | None \<Rightarrow> mark_unreadable UnguardedFile p) else p"
      have "safe_log (pe_range env) ?g" using p(2) update_tail_guard_safe by (auto split: option.split)
      with True Some p io' i show ?thesis
        by (cases "io_final (io i)") (auto simp: refresh_attempt_def Let_def fingerprint_eq_refl)
    qed (use Some p io' i in \<open>simp add: refresh_attempt_def Let_def\<close>)
  qed
qed

lemma refresh_returns:
  assumes env: "safe_instants env" "safe_instant (pe_range env) (rf_modified_at rf)"
    and c: "safe_previous (pe_range env) previous" and io: "safe_io (pe_range env) io"
  shows "\<exists>sp. refresh_stable_rollout_file env io rf previous = Some sp \<and> safe_log (pe_range env) (cf_parsed (sp_cached sp))"
proof -
  obtain first where f: "refresh_attempt env (io 0) 0 rf previous 0 0 = Some first"
    "case first of Inl sp \<Rightarrow> safe_log (pe_range env) (cf_parsed (sp_cached sp))
     | Inr (rf', _) \<Rightarrow> safe_instant (pe_range env) (rf_modified_at rf')"
  proof -
    obtain res where "refresh_attempt env (io 0) 0 rf previous 0 0 = Some res"
      "case res of Inl sp \<Rightarrow> safe_log (pe_range env) (cf_parsed (sp_cached sp))
       | Inr (rf', _) \<Rightarrow> 0 = (0 :: nat) \<and> safe_instant (pe_range env) (rf_modified_at rf')"
      using refresh_attempt_returns [OF env c io, of 0 0 0] by (simp only: zero_less_numeral) blast
    then show ?thesis by (intro that [of res]) (auto split: sum.splits)
  qed
  show ?thesis
  proof (cases first)
    case (Inl sp)
    with f show ?thesis by (simp add: refresh_stable_rollout_file_def)
  next
    case (Inr y)
    obtain rf' a b where y: "y = (rf', a, b)" by (cases y)
    with f Inr have "safe_instant (pe_range env) (rf_modified_at rf')" by simp
    then obtain res where res: "refresh_attempt env (io 1) 1 rf' None a b = Some res"
      "case res of Inl sp \<Rightarrow> safe_log (pe_range env) (cf_parsed (sp_cached sp)) | Inr (rf'', _) \<Rightarrow> 1 = (0 :: nat)"
      using refresh_attempt_returns [OF env(1) _ _ io, of rf' None 1 a b] by (fastforce simp: safe_previous_def split: sum.splits)
    then obtain second where "refresh_attempt env (io 1) 1 rf' None a b = Some (Inl second)"
      "safe_log (pe_range env) (cf_parsed (sp_cached second))"
      by (cases res) (auto split: prod.splits)
    with f Inr y show ?thesis by (simp add: refresh_stable_rollout_file_def)
  qed
qed

section \<open>An example log\<close>

lemma example_safe:
  "safe_instants (example_parse_env redact)" "safe_instant (pe_range (example_parse_env redact)) (rf_modified_at (example_file bytes))"
  "safe_io (pe_range (example_parse_env redact)) (example_io bytes)"
  by (auto simp: safe_instants_def safe_instant_def safe_io_def example_parse_env_def example_chrono_def example_file_def
      example_io_def seconds_def parse_timestamp_def timestamp_from_integer_def bind_eq_Some_conv split: option.splits if_splits)

lemma example_cached_for: "cached_for (example_parse_env redact) (example_file example_prefix) example_prefix
    (example_cached redact example_prefix)"
proof -
  obtain p where "parse_rollout_file (env_at (example_parse_env redact) (example_file example_prefix))
      (Some (False, example_prefix)) = Some p"
    using parse_file_returns [OF example_safe(1,2)] by blast
  then show ?thesis
    by (simp add: cached_for_def example_cached_def example_file_def update_tail_guard_def example_prefix_def Let_def
        TAIL_GUARD_BYTES_def read_exact_at_def)
qed

lemma LF_letters [simp]: "CHR ''m'' \<noteq> LF" "CHR ''u'' \<noteq> LF" "CHR ''m'' \<noteq> CR" "CHR ''u'' \<noteq> CR"
  unfolding LF_def CR_def by code_simp+

lemma example_timestamped: "prefix_timestamped (example_parse_env redact) example_prefix"
  by (simp add: prefix_timestamped_def example_prefix_def log_lines.simps read_bounded_line_def push_bounded_def
      ROLLOUT_MAX_LINE_BYTES_def line_timestamped_def example_parse_env_def example_json_def example_meta_def explicit_time_def
      json_get_def parse_timestamp_def)

theorem tail_refresh_is_full_refresh_witness:
  "map_option sp_cached (refresh_stable_rollout_file (example_parse_env False) (example_io (example_prefix @ example_suffix))
      (example_file (example_prefix @ example_suffix)) (Some (example_cached False example_prefix)))
    = map_option sp_cached (refresh_stable_rollout_file (example_parse_env False) (example_io (example_prefix @ example_suffix))
      (example_file (example_prefix @ example_suffix)) None)"
  by (rule tail_refresh_is_full_refresh [OF example_cached_for])
    (simp_all add: times_settled_def example_timestamped example_io_def example_file_def, simp_all add: example_prefix_def example_suffix_def numeral_2_eq_2 [symmetric] del: Suc_1)

lemma example_log_refreshed: "E (example_parse_env redact) \<Longrightarrow> refreshed_file E (example_log redact)"
proof -
  assume E: "E (example_parse_env redact)"
  have "safe_previous (pe_range (example_parse_env redact)) None" by (simp add: safe_previous_def)
  from refresh_returns [OF example_safe(1,2) this example_safe(3)] obtain sp where
    "refresh_stable_rollout_file (example_parse_env redact) (example_io (example_prefix @ example_suffix))
      (example_file (example_prefix @ example_suffix)) None = Some sp" by blast
  with first_refresh [of E, OF E this] show ?thesis by (simp add: example_log_def)
qed

theorem refreshed_events_valid_witness: "valid_events (example_log False)"
  by (rule refreshed_events_valid [OF example_log_refreshed [of "\<lambda>_. True"]]) simp

end
