(* ===== verification/Rollout_Replay_Safety.thy ===== *)
theory Rollout_Replay_Safety
  imports Rollout_Replay Rollout_Parse_Safety
begin

text \<open>
  Properties of the replay of one log: threads stay well formed, every call and observation
  belongs to its thread, and the calls of a counter add up to its increase.
\<close>

section \<open>Specification\<close>

definition finished :: "turn_status \<Rightarrow> bool" where
  "finished s = (s \<in> {TurnCompleted, TurnInterrupted, TurnFailed})"

definition turn_wf :: "string \<Rightarrow> turn_builder \<Rightarrow> bool" where
  "turn_wf k t = (tu_turn_id t = k \<and> (tu_completed_at t \<noteq> None) = finished (tu_status t))"

definition thread_wf :: "string \<Rightarrow> thread_builder \<Rightarrow> bool" where
  "thread_wf owner th =
    (tb_thread_id th = owner \<and> bt_wf (tb_turns th) \<and> list_all (\<lambda>(k, t). turn_wf k t) (tb_turns th)
     \<and> distinct (tb_active_turn_ids th)
     \<and> list_all (\<lambda>a. case bt_get (tb_turns th) a of Some t \<Rightarrow> \<not> finished (tu_status t) | None \<Rightarrow> False) (tb_active_turn_ids th)
     \<and> (case tb_last_turn_id th of None \<Rightarrow> True | Some t \<Rightarrow> bt_contains (tb_turns th) t))"

definition in_thread :: "string \<Rightarrow> thread_builder \<Rightarrow> string \<Rightarrow> string option \<Rightarrow> bool" where
  "in_thread owner th thread_id turn_id =
    (thread_id = owner \<and> (case turn_id of None \<Rightarrow> True | Some t \<Rightarrow> bt_contains (tb_turns th) t))"

definition dataset_wf :: "string \<Rightarrow> thread_builder \<Rightarrow> rollout_dataset \<Rightarrow> bool" where
  "dataset_wf owner th d =
    (list_all (\<lambda>c. in_thread owner th (uc_thread_id c) (uc_turn_id c)) (rd_calls d)
     \<and> list_all (\<lambda>ob. in_thread owner th (ro_thread_id ob) (ro_turn_id ob)) (rd_rate_observations d))"

definition turns_grow :: "thread_builder \<Rightarrow> thread_builder \<Rightarrow> bool" where
  "turns_grow th th' = (\<forall>t. bt_contains (tb_turns th) t \<longrightarrow> bt_contains (tb_turns th') t)"

definition turn_or_new :: "thread_builder \<Rightarrow> string \<Rightarrow> turn_builder" where
  "turn_or_new th k = (case bt_get (tb_turns th) k of None \<Rightarrow> new_turn k | Some t \<Rightarrow> t)"

definition thread_core :: "thread_builder \<Rightarrow> string \<times> (string, turn_builder) btree \<times> string list \<times> string option" where
  "thread_core th = (tb_thread_id th, tb_turns th, tb_active_turn_ids th, tb_last_turn_id th)"

definition replay_wf :: "string \<Rightarrow> thread_builder \<Rightarrow> thread_builder \<Rightarrow> rollout_dataset \<Rightarrow> bool" where
  "replay_wf owner start th d = (thread_wf owner th \<and> dataset_wf owner th d \<and> turns_grow start th)"

fun emits :: "parsed_event \<Rightarrow> bool" where
  "emits (RequestUsage _ _ _ _ _) = True"
| "emits (TokenCount _ _ _ _ _) = True"
| "emits _ = False"

definition replay_owned ::
  "replay_env \<Rightarrow> path \<Rightarrow> parsed_file \<Rightarrow> datetime option \<Rightarrow> bool \<Rightarrow> string \<Rightarrow> thread_builder option
    \<Rightarrow> thread_builder option \<times> rollout_dataset" where
  "replay_owned env file parsed as_of incomplete owner previous =
    (if \<not> list_ex (event_is_visible as_of) (pf_events parsed) then (previous, rollout_dataset_default)
     else
       let start = (case previous of Some th \<Rightarrow> th | None \<Rightarrow> new_thread owner incomplete);
           (th, d) = fold (replay_step env file owner as_of (request_covered_counters (pf_events parsed) as_of))
             (List.enumerate 0 (pf_events parsed)) (mark_seen env file parsed as_of start, rollout_dataset_default)
       in (Some (touch_activity parsed as_of th), d))"

text \<open>A sample of the cumulative counter: time, line, total, last call and limits.\<close>

type_synonym counter_sample = "datetime \<times> usize \<times> token_usage \<times> token_usage option \<times> cached_rate_limits option"

definition sample_total :: "counter_sample \<Rightarrow> token_usage" where
  "sample_total = (\<lambda>(_, _, total_usage, _, _). total_usage)"

definition replay_sample ::
  "replay_env \<Rightarrow> path \<Rightarrow> string \<Rightarrow> counter_sample \<Rightarrow> thread_builder \<times> rollout_dataset \<Rightarrow> thread_builder \<times> rollout_dataset" where
  "replay_sample env file owner = (\<lambda>(t, n, total_usage, last_usage, limits) (th, d).
     replay_event env file owner False (TokenCount t n (Some total_usage) last_usage limits) th d)"

definition valid_sample :: "counter_sample \<Rightarrow> bool" where
  "valid_sample = (\<lambda>(_, _, total_usage, last_usage, _). has_valid_breakdown total_usage
     \<and> (case last_usage of None \<Rightarrow> True | Some l \<Rightarrow> has_valid_breakdown l))"

text \<open>
  A sample restarts the counter when its last call is the whole new total; it resets the counter when
  a field decreased and nothing says what was used since.  Every other sample continues the counter.
\<close>

definition restarts :: "token_usage \<Rightarrow> counter_sample \<Rightarrow> bool" where
  "restarts previous = (\<lambda>(_, _, total_usage, last_usage, _). previous \<noteq> total_usage \<and> last_usage = Some total_usage)"

definition resets :: "token_usage \<Rightarrow> counter_sample \<Rightarrow> bool" where
  "resets previous = (\<lambda>(_, _, total_usage, last_usage, _). previous \<noteq> total_usage \<and> last_usage \<noteq> Some total_usage
     \<and> delta_from total_usage previous = None)"

text \<open>The readings given up at restarts and resets, and those taken over uncounted at resets.\<close>

fun abandoned :: "(token_usage \<Rightarrow> u64) \<Rightarrow> token_usage \<Rightarrow> counter_sample list \<Rightarrow> nat" where
  "abandoned f previous [] = 0"
| "abandoned f previous (s # ss) =
    (if restarts previous s \<or> resets previous s then unat (f previous) else 0) + abandoned f (sample_total s) ss"

fun uncounted :: "(token_usage \<Rightarrow> u64) \<Rightarrow> token_usage \<Rightarrow> counter_sample list \<Rightarrow> nat" where
  "uncounted f previous [] = 0"
| "uncounted f previous (s # ss) =
    (if resets previous s then unat (f (sample_total s)) else 0) + uncounted f (sample_total s) ss"

definition counter_fields :: "(token_usage \<Rightarrow> u64) list" where
  "counter_fields = [input_tokens, cached_input_tokens, cache_write_input_tokens, output_tokens, reasoning_output_tokens,
     unclassified, total_tokens]"

definition example_replay_env :: "bool \<Rightarrow> replay_env" where
  "example_replay_env redact = \<lparr>ry_sha256 = (\<lambda>s. []), ry_chrono = pe_chrono (example_parse_env redact),
     ry_config = \<lparr>cc_codex_home = [''home''], cc_lookback_days = 7, cc_max_files = 100, cc_active_grace = 60,
       cc_redact_content = redact\<rparr>\<rparr>"

definition example_usage :: "u64 \<Rightarrow> token_usage" where
  "example_usage n = token_usage_default\<lparr>input_tokens := n, total_tokens := n\<rparr>"

definition example_thread :: thread_builder where
  "example_thread = (new_thread ''t'' False)\<lparr>tb_previous_cumulative := Some (example_usage 2)\<rparr>"

definition example_samples :: "counter_sample list" where
  "example_samples = [(1, 1, example_usage 5, None, None), (2, 2, example_usage 9, Some (example_usage 9), None),
     (3, 3, example_usage 4, None, None), (4, 4, example_usage 10, Some (example_usage 6), None)]"

section \<open>Well-formed threads\<close>

lemma turns_grow_refl [simp]: "turns_grow th th"
  by (simp add: turns_grow_def)

lemma turns_grow_trans [trans]: "turns_grow a b \<Longrightarrow> turns_grow b c \<Longrightarrow> turns_grow a c"
  by (simp add: turns_grow_def)

lemma bt_all_iff: "bt_wf m \<Longrightarrow> list_all (\<lambda>(k, v). P k v) m \<longleftrightarrow> (\<forall>k v. bt_get m k = Some v \<longrightarrow> P k v)"
  by (auto simp: list_all_iff bt_get_Some_iff)

lemma thread_wf_iff:
  "thread_wf owner th \<longleftrightarrow> tb_thread_id th = owner \<and> bt_wf (tb_turns th)
    \<and> (\<forall>k t. bt_get (tb_turns th) k = Some t \<longrightarrow> turn_wf k t) \<and> distinct (tb_active_turn_ids th)
    \<and> (\<forall>a\<in>set (tb_active_turn_ids th). \<exists>t. bt_get (tb_turns th) a = Some t \<and> \<not> finished (tu_status t))
    \<and> (\<forall>t. tb_last_turn_id th = Some t \<longrightarrow> bt_contains (tb_turns th) t)"
  by (simp add: thread_wf_def bt_all_iff cong: conj_cong) (auto simp: list_all_iff split: option.splits)

lemma thread_wfD:
  assumes "thread_wf owner th"
  shows "tb_thread_id th = owner" "bt_wf (tb_turns th)" "\<And>k t. bt_get (tb_turns th) k = Some t \<Longrightarrow> turn_wf k t"
    "distinct (tb_active_turn_ids th)"
    "\<And>a. a \<in> set (tb_active_turn_ids th) \<Longrightarrow> \<exists>t. bt_get (tb_turns th) a = Some t \<and> \<not> finished (tu_status t)"
    "\<And>t. tb_last_turn_id th = Some t \<Longrightarrow> bt_contains (tb_turns th) t"
  using assms by (simp_all add: thread_wf_iff)

lemma bt_contains_get: "bt_contains m k \<longleftrightarrow> (\<exists>v. bt_get m k = Some v)"
  by (auto simp: bt_contains_def)

lemma turns_ensure_turn [simp]:
  "tb_turns (ensure_turn k f th) = bt_update k (new_turn k) f (tb_turns th)"
  "tb_thread_id (ensure_turn k f th) = tb_thread_id th"
  "tb_active_turn_ids (ensure_turn k f th) = tb_active_turn_ids th"
  "tb_last_turn_id (ensure_turn k f th) = tb_last_turn_id th"
  by (simp_all add: ensure_turn_def)

lemma new_turn_wf [simp]: "turn_wf k (new_turn k)" "tu_status (new_turn k) = TurnUnknown"
  "tu_completed_at (new_turn k) = None" "tu_turn_id (new_turn k) = k"
  by (simp_all add: turn_wf_def new_turn_def finished_def)

lemma contains_update: "bt_wf m \<Longrightarrow> bt_contains (bt_update k d f m) k' \<longleftrightarrow> k' = k \<or> bt_contains m k'"
  by (auto simp: bt_contains_get bt_get_update)

lemma turn_or_new_wf: "thread_wf owner th \<Longrightarrow> turn_wf k (turn_or_new th k)"
  using thread_wfD(3) by (fastforce simp: turn_or_new_def split: option.split)

lemma get_ensure_turn:
  "bt_wf (tb_turns th) \<Longrightarrow> bt_get (tb_turns (ensure_turn k f th)) a
    = (if a = k then Some (f (turn_or_new th k)) else bt_get (tb_turns th) a)"
  by (simp add: bt_get_update turn_or_new_def)

lemma set_turn_wf:
  assumes wf: "thread_wf owner th" and turn: "turn_wf k (f (turn_or_new th k))"
    and active: "distinct active" "set active - {k} \<subseteq> set (tb_active_turn_ids th)"
      "k \<in> set active \<Longrightarrow> \<not> finished (tu_status (f (turn_or_new th k)))"
    and last_turn: "last_turn \<in> {None, Some k, tb_last_turn_id th}"
  shows "thread_wf owner ((ensure_turn k f th)\<lparr>tb_active_turn_ids := active, tb_last_turn_id := last_turn\<rparr>)"
proof -
  note w = thread_wfD [OF wf]
  let ?turns = "tb_turns (ensure_turn k f th)"
  have "turn_wf k' t" if "bt_get ?turns k' = Some t" for k' t
    using that turn w(2,3) by (auto simp only: get_ensure_turn split: if_splits)
  moreover have "\<exists>t. bt_get ?turns a = Some t \<and> \<not> finished (tu_status t)" if "a \<in> set active" for a
    using that active w(2,5) by (cases "a = k") (auto simp only: get_ensure_turn split: if_splits)
  ultimately show ?thesis
    using w active(1) last_turn by (auto simp: thread_wf_iff bt_wf_update contains_update)
qed

lemma ensure_turn_wf:
  assumes wf: "thread_wf owner th"
    and f: "\<And>t. tu_turn_id (f t) = tu_turn_id t" "\<And>t. tu_status (f t) = tu_status t"
      "\<And>t. tu_completed_at (f t) = tu_completed_at t"
  shows "thread_wf owner (ensure_turn k f th)"
proof -
  have "turn_wf k (f (turn_or_new th k))"
    using turn_or_new_wf [OF wf] f by (simp add: turn_wf_def)
  moreover have "\<not> finished (tu_status (f (turn_or_new th k)))" if "k \<in> set (tb_active_turn_ids th)"
    using thread_wfD(5) [OF wf that] f by (auto simp: turn_or_new_def)
  ultimately have "thread_wf owner ((ensure_turn k f th)\<lparr>tb_active_turn_ids := tb_active_turn_ids th,
      tb_last_turn_id := tb_last_turn_id th\<rparr>)"
    using thread_wfD(4) [OF wf] by (intro set_turn_wf [OF wf]) auto
  then show ?thesis by (simp add: ensure_turn_def)
qed

lemma ensure_turn_grows: "bt_wf (tb_turns th) \<Longrightarrow> turns_grow th (ensure_turn k f th)"
  by (simp add: turns_grow_def contains_update)

lemma turns_grow_fields [simp]:
  "turns_grow th (th'\<lparr>tb_active_turn_ids := a\<rparr>) = turns_grow th th'"
  "turns_grow th (th'\<lparr>tb_last_turn_id := l\<rparr>) = turns_grow th th'"
  by (simp_all add: turns_grow_def)

lemma finish_turn_wf:
  assumes wf: "thread_wf owner th" and s: "finished status"
  shows "thread_wf owner (finish_turn k completed duration status th)
    \<and> turns_grow th (finish_turn k completed duration status th)"
proof -
  have "turn_wf k (turn_or_new th k)" by (rule turn_or_new_wf [OF wf])
  then show ?thesis
    unfolding finish_turn_def using thread_wfD(2,4) [OF wf] s
    by (intro conjI set_turn_wf [OF wf]) (auto simp: turn_wf_def ensure_turn_grows)
qed

lemma activate_turn_wf:
  assumes wf: "thread_wf owner th"
  shows "thread_wf owner (activate_turn k started th) \<and> turns_grow th (activate_turn k started th)"
proof -
  let ?e = "ensure_turn k (\<lambda>t. t) th"
  have e: "thread_wf owner ?e" by (rule ensure_turn_wf [OF wf]) simp_all
  note w = thread_wfD [OF wf] and we = thread_wfD [OF e]
  have t: "bt_get (tb_turns ?e) k = Some (turn_or_new th k)" "turn_or_new ?e k = turn_or_new th k"
    using w(2) by (simp_all add: turn_or_new_def bt_get_update)
  have grow: "turns_grow th (ensure_turn k f ?e)" for f
    using ensure_turn_grows [OF w(2), of k "\<lambda>t. t"] ensure_turn_grows [OF we(2), of k f] by (rule turns_grow_trans)
  show ?thesis
  proof (cases "finished (tu_status (turn_or_new th k))")
    case True
    with t e w(2) show ?thesis by (simp add: activate_turn_def finished_def ensure_turn_grows del: turns_ensure_turn)
  next
    case False
    let ?f = "\<lambda>t. t\<lparr>tu_service_tier := opt_or (tu_service_tier t) (tb_service_tier ?e),
        tu_started_at := set_min_timestamp started (tu_started_at t),
        tu_status := (if tu_status t \<in> {TurnUnknown, TurnStale} then TurnInProgress else tu_status t)\<rparr>"
    have f: "turn_wf k (?f (turn_or_new ?e k))" "\<not> finished (tu_status (?f (turn_or_new ?e k)))"
      using False turn_or_new_wf [OF e, of k] by (auto simp: t(2) turn_wf_def finished_def)
    have "activate_turn k started th = (ensure_turn k ?f ?e)
        \<lparr>tb_active_turn_ids := filter (\<lambda>a. a \<noteq> k) (tb_active_turn_ids ?e) @ [k], tb_last_turn_id := None\<rparr>"
      using False t(1) by (simp only: activate_turn_def Let_def finished_def option.sel if_False)
    moreover have "thread_wf owner \<dots>"
      using f we(4) by (intro set_turn_wf [OF e]) auto
    ultimately show ?thesis using grow by (simp only: turns_grow_fields) 
  qed
qed

section \<open>Replay keeps threads well formed\<close>

lemma core_wf: "thread_core th' = thread_core th \<Longrightarrow> thread_wf owner th' = thread_wf owner th"
  by (simp add: thread_core_def thread_wf_iff)

lemma core_grows: "thread_core th' = thread_core th \<Longrightarrow> turns_grow th th'"
  by (simp add: thread_core_def turns_grow_def)

lemma dataset_grows: "dataset_wf owner th d \<Longrightarrow> turns_grow th th' \<Longrightarrow> dataset_wf owner th' d"
  by (auto simp: dataset_wf_def in_thread_def turns_grow_def list_all_iff split: option.splits)

lemma apply_session_meta_core: "thread_core (apply_session_meta ch m t th) = thread_core th"
  by (simp add: apply_session_meta_def Let_def thread_core_def split: option.split)

lemma apply_user_message_wf:
  assumes wf: "thread_wf owner th"
  shows "thread_wf owner (apply_user_message m e src th) \<and> turns_grow th (apply_user_message m e src th)"
proof -
  have titled: "thread_wf owner (th\<lparr>tb_title := a, tb_title_source := b, tb_title_turn_id := c\<rparr>)"
    "turns_grow th (th\<lparr>tb_title := a, tb_title_source := b, tb_title_turn_id := c\<rparr>)" for a b c
    using wf by (auto simp: thread_core_def turns_grow_def intro: core_wf [THEN iffD2])
  show ?thesis
    unfolding apply_user_message_def Let_def
    using wf titled thread_wfD(2) [OF titled(1)] thread_wfD(2) [OF wf]
    by (auto split: option.split intro!: ensure_turn_wf ensure_turn_grows [THEN turns_grow_trans [rotated]]
        intro: ensure_turn_grows)
qed

lemma apply_thread_settings_wf:
  assumes wf: "thread_wf owner th"
  shows "thread_wf owner (apply_thread_settings tier th) \<and> turns_grow th (apply_thread_settings tier th)"
proof -
  let ?g = "\<lambda>turn_id th. case bt_get (tb_turns th) turn_id of
      Some _ \<Rightarrow> ensure_turn turn_id (\<lambda>t. t\<lparr>tu_service_tier := tier\<rparr>) th | None \<Rightarrow> th"
  have step: "thread_wf owner (?g k x) \<and> turns_grow th (?g k x)" if "thread_wf owner x" "turns_grow th x" for k x
    using that thread_wfD(2) [OF that(1)]
    by (auto split: option.split intro!: ensure_turn_wf intro: turns_grow_trans ensure_turn_grows)
  have "thread_wf owner x \<and> turns_grow th x \<Longrightarrow> thread_wf owner (fold ?g ks x) \<and> turns_grow th (fold ?g ks x)" for ks x
    by (induction ks arbitrary: x) (use step in simp_all)
  moreover have "thread_wf owner (th\<lparr>tb_service_tier_observed := True, tb_service_tier := tier\<rparr>)"
    "turns_grow th (th\<lparr>tb_service_tier_observed := True, tb_service_tier := tier\<rparr>)"
    using wf by (auto simp: thread_core_def turns_grow_def intro: core_wf [THEN iffD2])
  ultimately show ?thesis unfolding apply_thread_settings_def by blast
qed

lemma apply_turn_context_wf:
  assumes wf: "thread_wf owner th"
  shows "thread_wf owner (apply_turn_context m t th) \<and> turns_grow th (apply_turn_context m t th)"
proof (cases "string_field_in m [''turn_id'', ''turnId'']")
  case (Some k)
  let ?a = "if k \<in> set (tb_active_turn_ids th) then th else activate_turn k t th"
  have a: "thread_wf owner ?a" "turns_grow th ?a" using wf activate_turn_wf [OF wf, of k t] by auto
  have g: "turns_grow th (ensure_turn k f ?a)" for f
    using a(2) ensure_turn_grows [OF thread_wfD(2) [OF a(1)]] by (rule turns_grow_trans)
  show ?thesis
    unfolding apply_turn_context_def Some option.case Let_def
    by (intro conjI g ensure_turn_wf [OF a(1)]) (simp_all split: option.split)
qed (use wf in \<open>simp add: apply_turn_context_def\<close>)

lemma replay_wf_thread:
  assumes "replay_wf owner start th d" "thread_wf owner th'" "turns_grow th th'"
  shows "replay_wf owner start th' d"
  using assms dataset_grows turns_grow_trans unfolding replay_wf_def by blast

lemma replay_wf_core: "replay_wf owner start th d \<Longrightarrow> thread_core th' = thread_core th \<Longrightarrow> replay_wf owner start th' d"
  using core_wf core_grows replay_wf_thread unfolding replay_wf_def by blast

lemma dataset_wf_warn [simp]:
  "dataset_wf owner th (count_ambiguous d) = dataset_wf owner th d"
  "dataset_wf owner th (push_replay_warning w d) = dataset_wf owner th d"
  by (simp_all add: dataset_wf_def count_ambiguous_def push_replay_warning_def)

lemma replay_wf_warn [simp]:
  "replay_wf owner start th (count_ambiguous d) = replay_wf owner start th d"
  "replay_wf owner start th (push_replay_warning w d) = replay_wf owner start th d"
  by (simp_all add: replay_wf_def)

lemma current_turn_in_thread: "thread_wf owner th \<Longrightarrow> in_thread owner th (tb_thread_id th) (current_turn_id th)"
  by (auto simp: thread_wf_iff in_thread_def current_turn_id_def opt_or_def list_last_def bt_contains_get
      dest: last_in_set split: option.splits)

lemma in_thread_grows: "in_thread owner th a b \<Longrightarrow> turns_grow th th' \<Longrightarrow> in_thread owner th' a b"
  by (auto simp: in_thread_def turns_grow_def split: option.splits)

lemma record_call_parts:
  assumes "record_call sha delta total_usage last_usage t th d = (th', d')"
  obtains c where "d' = d\<lparr>rd_calls := rd_calls d @ [c]\<rparr>" "uc_thread_id c = tb_thread_id th"
    "uc_turn_id c = current_turn_id th" "uc_tokens c = delta" "uc_timestamp c = t"
  using assms by (auto simp: record_call_def Let_def)

lemma record_call_wf:
  assumes wf: "replay_wf owner start th d"
    and r: "record_call sha delta total_usage last_usage t th d = (th', d')"
  shows "replay_wf owner start th' d'"
proof -
  let ?th = "th\<lparr>tb_token_usage := token_add_assign (tb_token_usage th) delta\<rparr>"
  have th: "thread_wf owner th" using wf by (simp add: replay_wf_def)
  have u: "replay_wf owner start ?th d" by (rule replay_wf_core [OF wf]) (simp add: thread_core_def)
  then have ut: "thread_wf owner ?th" by (simp add: replay_wf_def)
  have "replay_wf owner start th' d"
    using r u ut
    by (auto simp: record_call_def Let_def intro!: replay_wf_thread [OF u] ensure_turn_wf ensure_turn_grows
        thread_wfD(2) [OF ut] split: option.splits)
  moreover have "turns_grow th th'"
    using r by (auto simp: record_call_def Let_def turns_grow_def contains_update thread_wfD(2) [OF th] split: option.splits)
  moreover obtain c where "d' = d\<lparr>rd_calls := rd_calls d @ [c]\<rparr>" "uc_thread_id c = tb_thread_id th"
    "uc_turn_id c = current_turn_id th" by (rule record_call_parts [OF r])
  ultimately show ?thesis
    using in_thread_grows [OF current_turn_in_thread [OF th]] by (simp add: replay_wf_def dataset_wf_def)
qed

lemma counter_delta_core:
  assumes "counter_delta total_usage last_usage file n th d = (delta, th', d')"
  shows "thread_core th' = thread_core th" "replay_wf owner start th' d' = replay_wf owner start th' d"
  using assms by (auto simp: counter_delta_def Let_def thread_core_def split: option.splits if_splits)

lemma apply_token_count_wf:
  assumes wf: "replay_wf owner start th d"
    and r: "apply_token_count sha sample last_usage limits t file n th d = (th', d')"
  shows "replay_wf owner start th' d'"
proof -
  let ?d = "case limits of None \<Rightarrow> d
    | Some l \<Rightarrow> d\<lparr>rd_rate_observations := rd_rate_observations d @ [\<lparr>ro_timestamp = t,
        ro_thread_id = tb_thread_id th, ro_turn_id = current_turn_id th, ro_limit_id = rl_limit_id l,
        ro_primary = rl_primary l, ro_secondary = rl_secondary l, ro_provenance = LocalExact\<rparr>]\<rparr>"
  have th: "thread_wf owner th" using wf by (simp add: replay_wf_def)
  have d: "replay_wf owner start th ?d"
    using wf current_turn_in_thread [OF th] by (simp add: replay_wf_def dataset_wf_def split: option.split)
  show ?thesis
  proof (cases sample)
    case None
    with r d show ?thesis by (simp add: apply_token_count_def)
  next
    case (Some total_usage)
    show ?thesis
    proof (cases "\<not> has_valid_breakdown total_usage \<or> (case last_usage of Some l \<Rightarrow> \<not> has_valid_breakdown l | None \<Rightarrow> False)")
      case True
      with r Some have "th' = th\<lparr>tb_previous_cumulative := None, tb_incomplete_counter_boundary := True\<rparr>"
        "replay_wf owner start th' d' = replay_wf owner start th' ?d"
        by (auto simp: apply_token_count_def Let_def)
      with replay_wf_core [OF d, of th'] show ?thesis by (simp add: thread_core_def)
    next
      case False
      obtain delta th1 d1 where c: "counter_delta total_usage last_usage file n th ?d = (delta, th1, d1)"
        by (cases "counter_delta total_usage last_usage file n th ?d") auto
      have wf1: "replay_wf owner start th1 d1"
        using replay_wf_core [OF d counter_delta_core(1) [OF c]] counter_delta_core(2) [OF c] by simp
      show ?thesis
      proof (cases delta)
        case None
        with r Some False c wf1 show ?thesis by (simp add: apply_token_count_def Let_def)
      next
        case (Some x)
        let ?th = "th1\<lparr>tb_previous_cumulative := Some total_usage\<rparr>"
        have "replay_wf owner start ?th d1" by (rule replay_wf_core [OF wf1]) (simp add: thread_core_def)
        with r \<open>sample = _\<close> False c Some show ?thesis
          by (auto simp: apply_token_count_def Let_def split: if_splits dest: record_call_wf)
      qed
    qed
  qed
qed

lemma replay_event_silent:
  assumes th: "thread_wf owner th" and e: "\<not> emits e" and r: "replay_event env file owner covered e th d = (th', d')"
  shows "thread_wf owner th' \<and> turns_grow th th' \<and> d' = d"
proof -
  have "thread_core (apply_session_meta ch m t th) = thread_core th" for ch m t by (rule apply_session_meta_core)
  then have meta: "thread_wf owner (apply_session_meta ch m t th)" "turns_grow th (apply_session_meta ch m t th)" for ch m t
    using th core_wf core_grows by metis+
  have fields: "thread_wf owner th'' \<and> turns_grow th th''" if "thread_core th'' = thread_core th" for th''
    using that th core_wf core_grows by metis
  have fin: "finished TurnCompleted" "finished TurnFailed" "finished TurnInterrupted" by (simp_all add: finished_def)
  from e r show ?thesis
    by (cases e) (auto simp: meta th fields thread_core_def fin activate_turn_wf [OF th] finish_turn_wf [OF th]
        apply_turn_context_wf [OF th] apply_thread_settings_wf [OF th] apply_user_message_wf [OF th])
qed

lemma replay_event_wf:
  assumes wf: "replay_wf owner start th d" and r: "replay_event env file owner covered e th d = (th', d')"
  shows "replay_wf owner start th' d'"
proof -
  have th: "thread_wf owner th" using wf by (simp add: replay_wf_def)
  show ?thesis
  proof (cases "emits e")
    case False
    from replay_event_silent [OF th this r] replay_wf_thread [OF wf] show ?thesis by blast
  next
    case True
    then consider (request) t k i u v where "e = RequestUsage t k i u v"
      | (count) t n total_usage last_usage limits where "e = TokenCount t n total_usage last_usage limits"
      by (cases e) auto
    then show ?thesis
    proof cases
      case request
      have e: "thread_wf owner (ensure_turn k (\<lambda>t. t) th)" "turns_grow th (ensure_turn k (\<lambda>t. t) th)"
        using th by (auto intro!: ensure_turn_wf ensure_turn_grows thread_wfD(2))
      have "replay_wf owner start (ensure_turn k (\<lambda>t. t) th) d" by (rule replay_wf_thread [OF wf e])
      with r request show ?thesis
        by (auto simp: replay_wf_def dataset_wf_def Let_def in_thread_def contains_update thread_wfD(2) [OF th])
    next
      case count
      obtain th1 d1 where a: "apply_token_count (ry_sha256 env) (if covered then None else total_usage) last_usage limits t
          file n th d = (th1, d1)" by fastforce
      have "replay_wf owner start th1 d1" by (rule apply_token_count_wf [OF wf a])
      moreover have "thread_core th' = thread_core th1" "d' = d1"
        using r count a by (auto simp: thread_core_def split: bool.splits option.splits)
      ultimately show ?thesis using replay_wf_core by blast
    qed
  qed
qed

lemma replay_step_wf:
  assumes "replay_wf owner start th d" "replay_step env file owner as_of covered (i, e) (th, d) = (th', d')"
  shows "replay_wf owner start th' d'"
proof -
  have core: "replay_wf owner start th'' d" if "thread_core th'' = thread_core th" for th''
    using replay_wf_core [OF assms(1) that] .
  show ?thesis
    using assms(2) core
    by (auto simp: replay_step_def Let_def thread_core_def split: if_splits option.splits intro: replay_event_wf [rotated])
qed

lemma replay_steps_wf:
  "replay_wf owner start (fst s) (snd s)
    \<Longrightarrow> replay_wf owner start (fst (fold (replay_step env file owner as_of covered) es s))
      (snd (fold (replay_step env file owner as_of covered) es s))"
proof (induction es arbitrary: s)
  case (Cons e es)
  let ?s = "replay_step env file owner as_of covered e s"
  have "replay_wf owner start (fst ?s) (snd ?s)"
    by (rule replay_step_wf [OF Cons.prems, where i = "fst e" and e = "snd e"]) simp
  from Cons.IH [OF this] show ?case by simp
qed simp

section \<open>The view of one thread\<close>

lemma replay_rollout_file_owned:
  assumes "pf_owner_thread_id parsed = Some owner" "bt_wf threads"
    "replay_rollout_file env file parsed as_of incomplete (threads, rollout_dataset_default) = (threads', d)"
  shows "bt_wf threads' \<and> (bt_get threads' owner, d) = replay_owned env file parsed as_of incomplete owner (bt_get threads owner)
    \<and> (\<forall>t. t \<noteq> owner \<longrightarrow> bt_get threads' t = bt_get threads t)"
proof -
  let ?start = "mark_seen env file parsed as_of (case bt_get threads owner of Some th \<Rightarrow> th | None \<Rightarrow> new_thread owner incomplete)"
  obtain th d' where f: "fold (replay_step env file owner as_of (request_covered_counters (pf_events parsed) as_of))
      (List.enumerate 0 (pf_events parsed)) (?start, rollout_dataset_default) = (th, d')" by fastforce
  show ?thesis
  proof (cases "list_ex (event_is_visible as_of) (pf_events parsed)")
    case True
    have "(threads', d) = (bt_insert owner (touch_activity parsed as_of th) threads, d')"
      using assms(3) f True
      by (simp only: replay_rollout_file_def prod.case assms(1) option.case not_True_eq_False if_False Let_def)
    with True f assms(2) show ?thesis
      by (simp add: replay_owned_def Let_def bt_wf_insert bt_get_insert)
  qed (use assms in \<open>simp add: replay_rollout_file_def replay_owned_def\<close>)
qed

lemma new_thread_wf [simp]: "thread_wf owner (new_thread owner b)"
  by (simp add: thread_wf_def new_thread_def)

lemma dataset_default_wf [simp]: "dataset_wf owner th rollout_dataset_default"
  by (simp add: dataset_wf_def rollout_dataset_default_def)

lemma mark_seen_core [simp]: "thread_core (mark_seen env file parsed as_of th) = thread_core th"
  by (simp add: mark_seen_def thread_core_def)

lemma touch_activity_core [simp]: "thread_core (touch_activity parsed as_of th) = thread_core th"
  by (simp add: touch_activity_def thread_core_def split: option.split)

lemma replay_owned_wf:
  assumes prev: "\<And>th. previous = Some th \<Longrightarrow> thread_wf owner th"
    and r: "replay_owned env file parsed as_of incomplete owner previous = (th', d)"
  shows "case th' of None \<Rightarrow> previous = None \<and> d = rollout_dataset_default
    | Some th \<Rightarrow> thread_wf owner th \<and> dataset_wf owner th d
        \<and> (case previous of None \<Rightarrow> True | Some p \<Rightarrow> turns_grow p th)"
proof (cases "list_ex (event_is_visible as_of) (pf_events parsed)")
  case False
  with r prev show ?thesis by (auto simp: replay_owned_def split: option.split)
next
  case True
  let ?p = "case previous of Some th \<Rightarrow> th | None \<Rightarrow> new_thread owner incomplete"
  let ?s = "mark_seen env file parsed as_of ?p"
  have "thread_wf owner ?p" using prev by (simp split: option.split)
  then have "replay_wf owner ?p ?s rollout_dataset_default"
    using core_wf [OF mark_seen_core] core_grows [OF mark_seen_core] by (simp add: replay_wf_def)
  from replay_steps_wf [of owner ?p "(?s, rollout_dataset_default)"] this
  have "replay_wf owner ?p (the th') d"
    using r True by (auto simp: replay_owned_def Let_def split: prod.splits intro: replay_wf_core)
      (metis fst_conv snd_conv replay_wf_core touch_activity_core)+
  moreover have "th' = Some (the th')" using r True by (auto simp: replay_owned_def Let_def split: prod.splits)
  ultimately show ?thesis by (cases th') (auto simp: replay_wf_def split: option.split)
qed

section \<open>Cumulative counters\<close>

lemma delta_from_unclassified:
  assumes "has_valid_breakdown q" "has_valid_breakdown p" "delta_from q p = Some d"
  shows "unclassified p \<le> unclassified q" "unclassified d = unclassified q - unclassified p"
proof -
  have le: "input_tokens p \<le> input_tokens q" "output_tokens p \<le> output_tokens q" "total_tokens p \<le> total_tokens q"
    using assms(3) by (auto simp: delta_from_def not_less split: if_splits)
  show *: "unclassified p \<le> unclassified q"
    using assms(3) by (auto simp: delta_from_def not_less split: if_splits)
  have "d = \<lparr>input_tokens = input_tokens q - input_tokens p,
      cached_input_tokens = cached_input_tokens q - cached_input_tokens p,
      cache_write_input_tokens = cache_write_input_tokens q - cache_write_input_tokens p,
      output_tokens = output_tokens q - output_tokens p,
      reasoning_output_tokens = reasoning_output_tokens q - reasoning_output_tokens p,
      unclassified_tokens = unclassified q - unclassified p,
      total_tokens = total_tokens q - total_tokens p\<rparr>"
    using assms(3) by (simp add: delta_from_def split: if_splits)
  then show "unclassified d = unclassified q - unclassified p"
    using assms(1,2) le *
    by (simp only:) (intro unclassified_of_valid, simp add: has_valid_breakdown_iff unat_sub word_le_nat_alt)
qed

lemma delta_from_field:
  assumes "has_valid_breakdown q" "has_valid_breakdown p" "delta_from q p = Some d" "f \<in> set counter_fields"
  shows "unat (f p) + unat (f d) = unat (f q)"
proof (cases "f = unclassified")
  case True
  with delta_from_unclassified [OF assms(1-3)] show ?thesis by (simp add: unat_sub word_le_nat_alt)
next
  case False
  with assms(3,4) show ?thesis
    by (auto simp: delta_from_def counter_fields_def unat_sub word_le_nat_alt not_less split: if_splits)
qed

lemma zero_field: "token_is_zero d \<Longrightarrow> f \<in> set counter_fields \<Longrightarrow> unat (f d) = 0"
  by (auto simp: token_is_zero_def counter_fields_def unclassified_def)

text \<open>What a valid sample adds, on each branch of the code.\<close>

lemma replay_sample_calls:
  assumes p: "tb_previous_cumulative th = Some p" and s: "valid_sample s"
    and r: "replay_sample env file owner s (th, d) = (th', d')"
  obtains new where "tb_previous_cumulative th' = Some (sample_total s)" "rd_calls d' = rd_calls d @ new"
    "sample_total s = p \<or> resets p s \<Longrightarrow> new = []"
    "\<And>f. f \<in> set counter_fields \<Longrightarrow> restarts p s
      \<Longrightarrow> sum_list (List.map (\<lambda>c. unat (f (uc_tokens c))) new) = unat (f (sample_total s))"
    "\<And>f delta. f \<in> set counter_fields \<Longrightarrow> sample_total s \<noteq> p \<Longrightarrow> \<not> restarts p s \<Longrightarrow> delta_from (sample_total s) p = Some delta
      \<Longrightarrow> sum_list (List.map (\<lambda>c. unat (f (uc_tokens c))) new) = unat (f delta)"
proof -
  note result = that
  obtain t n q l lim where s': "s = (t, n, q, l, lim)" by (cases s)
  let ?d = "case lim of None \<Rightarrow> d
    | Some x \<Rightarrow> d\<lparr>rd_rate_observations := rd_rate_observations d @ [\<lparr>ro_timestamp = t,
        ro_thread_id = tb_thread_id th, ro_turn_id = current_turn_id th, ro_limit_id = rl_limit_id x,
        ro_primary = rl_primary x, ro_secondary = rl_secondary x, ro_provenance = LocalExact\<rparr>]\<rparr>"
  let ?th = "th\<lparr>tb_previous_cumulative := Some q\<rparr>"
  have d: "rd_calls ?d = rd_calls d" by (simp split: option.split)
  have ok: "\<not> (\<not> has_valid_breakdown q \<or> (case l of Some x \<Rightarrow> \<not> has_valid_breakdown x | None \<Rightarrow> False))"
    using s by (auto simp: s' valid_sample_def split: option.splits)
  have app: "apply_token_count (ry_sha256 env) (Some q) l lim t file n th d = (th', d')"
    using r by (simp add: s' replay_sample_def split: prod.splits)
  have counted: thesis if delta: "(th', d') = (if token_is_zero delta then (?th, ?d)
        else record_call (ry_sha256 env) delta q l t ?th ?d)"
    and which: "restarts p s \<and> delta = q \<or> \<not> restarts p s \<and> delta_from q p = Some delta" "q \<noteq> p" for delta
  proof -
    have "\<exists>new. tb_previous_cumulative th' = Some q \<and> rd_calls d' = rd_calls d @ new
      \<and> (\<forall>f\<in>set counter_fields. sum_list (List.map (\<lambda>c. unat (f (uc_tokens c))) new) = unat (f delta))"
    proof (cases "token_is_zero delta")
      case True
      with delta d zero_field show ?thesis by auto
    next
      case False
      with delta have rc: "record_call (ry_sha256 env) delta q l t ?th ?d = (th', d')" by simp
      obtain c where "d' = ?d\<lparr>rd_calls := rd_calls ?d @ [c]\<rparr>" "uc_tokens c = delta" by (rule record_call_parts [OF rc])
      moreover have "tb_previous_cumulative th' = Some q"
        using rc by (auto simp: record_call_def Let_def ensure_turn_def split: option.splits)
      ultimately show ?thesis using d by simp
    qed
    then obtain new where "tb_previous_cumulative th' = Some q" "rd_calls d' = rd_calls d @ new"
      "\<And>f. f \<in> set counter_fields \<Longrightarrow> sum_list (List.map (\<lambda>c. unat (f (uc_tokens c))) new) = unat (f delta)"
      by blast
    with which show thesis by (intro result [of new]) (auto simp: sample_total_def resets_def s' restarts_def)
  qed
  consider "q = p" | (restart) "q \<noteq> p" "l = Some q" | (delta) delta where "q \<noteq> p" "l \<noteq> Some q" "delta_from q p = Some delta"
    | (reset) "q \<noteq> p" "l \<noteq> Some q" "delta_from q p = None" by fastforce
  then show thesis
  proof cases
    case 1
    with app ok p have "th' = th" "d' = ?d" by (auto simp: apply_token_count_def counter_delta_def Let_def)
    with 1 p d show thesis by (intro result [of "[]"]) (auto simp: s' sample_total_def restarts_def)
  next
    case restart
    with app ok p show thesis
      by (intro counted [of q]) (auto simp: apply_token_count_def counter_delta_def Let_def s' restarts_def)
  next
    case delta
    with app ok p show thesis
      by (intro counted [of delta]) (auto simp: apply_token_count_def counter_delta_def Let_def s' restarts_def)
  next
    case reset
    with app ok p have "th' = ?th" "rd_calls d' = rd_calls ?d"
      by (auto simp: apply_token_count_def counter_delta_def Let_def count_ambiguous_def push_replay_warning_def)
    with reset d show thesis by (intro result [of "[]"]) (auto simp: s' sample_total_def restarts_def)
  qed
qed

lemma replay_sample_account:
  assumes p: "tb_previous_cumulative th = Some p" and s: "valid_sample s" and valid: "has_valid_breakdown p"
    and r: "replay_sample env file owner s (th, d) = (th', d')"
  obtains new where "tb_previous_cumulative th' = Some (sample_total s)" "rd_calls d' = rd_calls d @ new"
    "\<And>f. f \<in> set counter_fields \<Longrightarrow> unat (f p) + sum_list (List.map (\<lambda>c. unat (f (uc_tokens c))) new)
        + (if resets p s then unat (f (sample_total s)) else 0)
      = unat (f (sample_total s)) + (if restarts p s \<or> resets p s then unat (f p) else 0)"
proof -
  have q: "has_valid_breakdown (sample_total s)" using s by (auto simp: valid_sample_def sample_total_def split: prod.splits)
  have kinds: "sample_total s = p \<or> restarts p s \<or> resets p s \<or> (\<exists>delta. delta_from (sample_total s) p = Some delta)"
    "sample_total s = p \<Longrightarrow> \<not> restarts p s \<and> \<not> resets p s" "restarts p s \<Longrightarrow> \<not> resets p s"
    by (auto simp: restarts_def resets_def sample_total_def split: prod.splits)
  obtain new where new: "tb_previous_cumulative th' = Some (sample_total s)" "rd_calls d' = rd_calls d @ new"
    "sample_total s = p \<or> resets p s \<Longrightarrow> new = []"
    "\<And>f. f \<in> set counter_fields \<Longrightarrow> restarts p s
      \<Longrightarrow> sum_list (List.map (\<lambda>c. unat (f (uc_tokens c))) new) = unat (f (sample_total s))"
    "\<And>f delta. f \<in> set counter_fields \<Longrightarrow> sample_total s \<noteq> p \<Longrightarrow> \<not> restarts p s \<Longrightarrow> delta_from (sample_total s) p = Some delta
      \<Longrightarrow> sum_list (List.map (\<lambda>c. unat (f (uc_tokens c))) new) = unat (f delta)"
    using replay_sample_calls [OF p s r] by blast
  have delta: "unat (f p) + sum_list (List.map (\<lambda>c. unat (f (uc_tokens c))) new) = unat (f (sample_total s))"
    if "f \<in> set counter_fields" "sample_total s \<noteq> p" "\<not> restarts p s" "\<not> resets p s" for f
    using kinds(1) that new(5) [OF that(1-3)] delta_from_field [OF q valid _ that(1)] by auto
  show thesis
    by (rule that [OF new(1,2)]) (use kinds(2,3) new(3,4) delta in \<open>cases "sample_total s = p"; cases "restarts p s"; cases "resets p s"; simp\<close>)
qed

text \<open>
  C6. The books of a cumulative counter balance, in each of its seven fields (the unclassified share included): after any
  sequence of samples with valid breakdowns, whatever their order, the new baseline is the last sample, and the old
  baseline, the calls recorded and the readings taken over uncounted at a reset add up to the new baseline and the readings
  given up at restarts and resets.  Without a restart or a reset the calls add up to the increase of the counter.
\<close>

theorem counters_balance:
  assumes "tb_previous_cumulative th = Some base" "has_valid_breakdown base" "list_all valid_sample samples"
    "fold (replay_sample env file owner) samples (th, d) = (th', d')"
  shows "tb_previous_cumulative th' = Some (last (base # List.map sample_total samples))
    \<and> (\<exists>new. rd_calls d' = rd_calls d @ new
      \<and> (\<forall>f\<in>set counter_fields. unat (f base) + sum_list (List.map (\<lambda>c. unat (f (uc_tokens c))) new) + uncounted f base samples
          = unat (f (last (base # List.map sample_total samples))) + abandoned f base samples))"
  using assms
proof (induction samples arbitrary: base th d)
  case (Cons s ss)
  obtain th1 d1 where s: "replay_sample env file owner s (th, d) = (th1, d1)" by fastforce
  have v: "valid_sample s" "list_all valid_sample ss" using Cons.prems(3) by simp_all
  obtain new1 where p: "tb_previous_cumulative th1 = Some (sample_total s)" and n1: "rd_calls d1 = rd_calls d @ new1"
      "\<And>f. f \<in> set counter_fields \<Longrightarrow> unat (f base) + sum_list (List.map (\<lambda>c. unat (f (uc_tokens c))) new1)
        + (if resets base s then unat (f (sample_total s)) else 0)
      = unat (f (sample_total s)) + (if restarts base s \<or> resets base s then unat (f base) else 0)"
    using replay_sample_account [OF Cons.prems(1) v(1) Cons.prems(2) s] by blast
  have q: "has_valid_breakdown (sample_total s)" using v(1) by (auto simp: valid_sample_def sample_total_def split: prod.splits)
  have rest: "fold (replay_sample env file owner) ss (th1, d1) = (th', d')" using Cons.prems(4) s by simp
  from Cons.IH [OF p q v(2) rest] obtain new2 where
    IH: "tb_previous_cumulative th' = Some (last (sample_total s # List.map sample_total ss))" "rd_calls d' = rd_calls d1 @ new2"
    "\<And>f. f \<in> set counter_fields \<Longrightarrow> unat (f (sample_total s)) + sum_list (List.map (\<lambda>c. unat (f (uc_tokens c))) new2)
        + uncounted f (sample_total s) ss
      = unat (f (last (sample_total s # List.map sample_total ss))) + abandoned f (sample_total s) ss"
    by blast
  have "unat (f base) + sum_list (List.map (\<lambda>c. unat (f (uc_tokens c))) (new1 @ new2)) + uncounted f base (s # ss)
      = unat (f (last (base # List.map sample_total (s # ss)))) + abandoned f base (s # ss)"
    if "f \<in> set counter_fields" for f
    using n1(2) [OF that] IH(3) [OF that] by simp
  with IH(1,2) n1(1) show ?case by (intro conjI exI [of _ "new1 @ new2"]) auto
qed simp

section \<open>Example counters\<close>

text \<open>The example counter goes on from 2 to 5, restarts at 9, is reset to 4 and goes on to 10.\<close>

lemma example_samples_valid: "list_all valid_sample example_samples" "has_valid_breakdown (example_usage 2)"
  by code_simp+

lemma example_samples_sums:
  "uncounted input_tokens (example_usage 2) example_samples = 4" "abandoned input_tokens (example_usage 2) example_samples = 14"
  by code_simp+

theorem counters_balance_witness:
  "\<exists>new. rd_calls (snd (fold (replay_sample (example_replay_env False) [''f''] ''t'') example_samples
      (example_thread, rollout_dataset_default))) = new \<and> sum_list (List.map (\<lambda>c. unat (input_tokens (uc_tokens c))) new) = 18"
proof -
  have "tb_previous_cumulative example_thread = Some (example_usage 2)" by (simp add: example_thread_def)
  from counters_balance [OF this example_samples_valid(2,1) prod.collapse [symmetric], of "example_replay_env False" "[''f'']" "''t''"
      rollout_dataset_default]
  obtain new where new: "rd_calls (snd (fold (replay_sample (example_replay_env False) [''f''] ''t'') example_samples
      (example_thread, rollout_dataset_default))) = new"
    "\<And>f. f \<in> set counter_fields \<Longrightarrow> unat (f (example_usage 2)) + sum_list (List.map (\<lambda>c. unat (f (uc_tokens c))) new)
        + uncounted f (example_usage 2) example_samples
      = unat (f (last (example_usage 2 # List.map sample_total example_samples))) + abandoned f (example_usage 2) example_samples"
    by (auto simp: rollout_dataset_default_def)
  have "last (example_usage 2 # List.map sample_total example_samples) = example_usage 10"
    by (simp add: example_samples_def sample_total_def)
  from new(2) [of input_tokens, unfolded this example_samples_sums] have "sum_list (List.map (\<lambda>c. unat (input_tokens (uc_tokens c))) new) = 18"
    by (simp add: counter_fields_def example_usage_def)
  with new(1) show ?thesis by blast
qed

end
