(* ===== verification/Rollout_Scan_Safety.thy ===== *)
theory Rollout_Scan_Safety
  imports Rollout_Scan Rollout_Replay_Safety
begin

text \<open>
  Properties of the reduction and of the scans.  What a reduction knows of one thread is a fold over
  the logs of that thread; the incremental reduction of a scan keeps this view for every thread, so
  every reachable collector state agrees with a reduction from scratch.
\<close>

section \<open>Specification\<close>

definition reduced_wf :: "reduced_rollouts \<Rightarrow> bool" where
  "reduced_wf r = (bt_wf (re_threads r) \<and> list_all (\<lambda>(k, th). thread_wf k th) (re_threads r))"

type_synonym thread_state = "thread_builder option \<times> usage_call list \<times> rate_observation list"

definition thread_view :: "string \<Rightarrow> reduced_rollouts \<Rightarrow> thread_state" where
  "thread_view t r = (bt_get (re_threads r) t, filter (\<lambda>c. uc_thread_id c = t) (rd_calls (re_dataset r)),
     filter (\<lambda>ob. ro_thread_id ob = t) (rd_rate_observations (re_dataset r)))"

definition replay_view ::
  "replay_env \<Rightarrow> datetime option \<Rightarrow> bool \<Rightarrow> string \<Rightarrow> path \<times> parsed_file \<Rightarrow> thread_state \<Rightarrow> thread_state" where
  "replay_view env as_of incomplete t = (\<lambda>(file, parsed) (previous, calls, obs).
     case replay_owned env file parsed as_of incomplete t previous of
       (th, d) \<Rightarrow> (th, calls @ rd_calls d, obs @ rd_rate_observations d))"

text \<open>The files replayed for a thread, in order.\<close>

definition thread_log ::
  "collect_config \<Rightarrow> file_cache \<Rightarrow> path list \<Rightarrow> datetime option \<Rightarrow> string \<Rightarrow> path list \<Rightarrow> (path \<times> parsed_file) list" where
  "thread_log c cache files as_of t fs = List.map_filter (\<lambda>file. case bt_get cache file of
      None \<Rightarrow> None
    | Some parsed \<Rightarrow>
        if pf_owner_thread_id parsed = Some t
           \<and> \<not> archived_rollout_is_subsumed_by_active_as_of c cache files as_of file parsed
        then Some (file, parsed) else None) fs"

definition full_view :: "replay_env \<Rightarrow> file_cache \<Rightarrow> path list \<Rightarrow> string list \<Rightarrow> datetime option \<Rightarrow> string \<Rightarrow> thread_state" where
  "full_view env cache files incomplete as_of t =
    fold (replay_view env as_of (t \<in> set incomplete) t) (thread_log (ry_config env) cache files as_of t files) (None, [], [])"

definition owner_of :: "file_cache \<Rightarrow> path \<Rightarrow> string option" where
  "owner_of cache p = Option.bind (bt_get cache p) pf_owner_thread_id"

definition owned_files :: "file_cache \<Rightarrow> string \<Rightarrow> path list \<Rightarrow> (path \<times> parsed_file) list" where
  "owned_files cache t files = List.map (\<lambda>p. (p, the (bt_get cache p))) (filter (\<lambda>p. owner_of cache p = Some t) files)"

definition subsumed_by :: "collect_config \<Rightarrow> datetime option \<Rightarrow> (path \<times> parsed_file) list \<Rightarrow> path \<Rightarrow> parsed_file \<Rightarrow> bool" where
  "subsumed_by c as_of owned file parsed = (pf_complete parsed \<and> is_archived c file \<and>
     list_ex (\<lambda>(candidate, p). path_starts_with candidate (cc_codex_home c @ [''sessions'']) \<and> pf_complete p
       \<and> replay_range_of p as_of \<noteq> None \<and> take (length (pf_events parsed)) (pf_events p) = pf_events parsed) owned)"

definition file_owner :: "(path, cached_file) btree \<Rightarrow> path \<Rightarrow> string option" where
  "file_owner m p = Option.bind (bt_get m p) (\<lambda>c. pf_owner_thread_id (cf_parsed c))"

text \<open>What the loop over the files keeps: a path is untouched, or its owners and itself are marked.\<close>

definition refreshed :: "(path, cached_file) btree \<Rightarrow> parse_progress \<Rightarrow> bool" where
  "refreshed m0 = (\<lambda>(m, threads, paths, reparsed). bt_wf m
     \<and> (\<forall>p. p \<notin> set paths \<longrightarrow> bt_get m p = bt_get m0 p)
     \<and> (\<forall>p\<in>set paths. set_option (file_owner m0 p) \<subseteq> set threads \<and> set_option (file_owner m p) \<subseteq> set threads)
     \<and> (\<forall>p. bt_get m0 p \<noteq> None \<longrightarrow> bt_get m p \<noteq> None)
     \<and> (\<not> reparsed \<longrightarrow> paths = []))"

definition paths_marked :: "(path, cached_file) btree \<Rightarrow> string list \<times> path list \<Rightarrow> bool" where
  "paths_marked m = (\<lambda>(threads, paths). \<forall>p\<in>set paths. set_option (file_owner m p) \<subseteq> set threads)"

definition collector_inv :: "replay_env \<Rightarrow> rollout_cache \<Rightarrow> bool" where
  "collector_inv env s = (bt_wf (rc_files s)
     \<and> (\<forall>p\<in>set (List.map fst (rc_selected s)). bt_get (rc_files s) p \<noteq> None)
     \<and> (case rc_reduced s of None \<Rightarrow> True | Some r \<Rightarrow> reduced_wf r
       \<and> (\<forall>t. thread_view t r = full_view env (parsed_of (rc_files s)) (List.map fst (rc_selected s))
             (re_incomplete_counter_threads r) None t)))"

text \<open>What a replay takes from its environment besides the redaction and selection settings.\<close>

definition same_replay :: "replay_env \<Rightarrow> replay_env \<Rightarrow> bool" where
  "same_replay a b = (ry_sha256 a = ry_sha256 b \<and> ry_chrono a = ry_chrono b
     \<and> cc_codex_home (ry_config a) = cc_codex_home (ry_config b))"

text \<open>The environment a state was filled with, up to what its key does not fix.\<close>

definition collector_ok :: "(string \<Rightarrow> string) \<Rightarrow> chrono_lib \<Rightarrow> rollout_cache \<Rightarrow> bool" where
  "collector_ok sha ch s = (case rc_key s of
      None \<Rightarrow> rc_reduced s = None
    | Some (home, redact) \<Rightarrow> (\<forall>env. ry_sha256 env = sha \<and> ry_chrono env = ch \<and> cc_codex_home (ry_config env) = home
        \<longrightarrow> collector_inv env s))"

inductive collector_reachable :: "(string \<Rightarrow> string) \<Rightarrow> chrono_lib \<Rightarrow> rollout_cache \<Rightarrow> bool" for sha ch where
  collector_start: "collector_reachable sha ch rollout_cache_default"
| collector_scan: "collector_reachable sha ch s \<Longrightarrow> ry_sha256 (ce_replay env) = sha \<Longrightarrow> ry_chrono (ce_replay env) = ch
    \<Longrightarrow> scan_inner env inp now force coalesce ext s = Some (s', res) \<Longrightarrow> collector_reachable sha ch s'"
| collector_invalidate: "collector_reachable sha ch s \<Longrightarrow> collector_reachable sha ch (invalidate_after_session_mutation s)"
| collector_fork: "collector_reachable sha ch s \<Longrightarrow> collector_reachable sha ch (fork_for_history_scan s)"
| collector_boundary: "collector_reachable sha ch s \<Longrightarrow> collector_reachable sha ch (set_external_boundary now b s)"
| collector_coverage: "collector_reachable sha ch s \<Longrightarrow> collector_reachable sha ch (snd (update_local_coverage now w d s))"

definition in_threads :: "(string, thread_builder) btree \<Rightarrow> string \<Rightarrow> string option \<Rightarrow> bool" where
  "in_threads threads thread_id turn_id = (case bt_get threads thread_id of
      None \<Rightarrow> False | Some th \<Rightarrow> in_thread thread_id th thread_id turn_id)"

definition reduced_sound :: "reduced_rollouts \<Rightarrow> bool" where
  "reduced_sound r = (reduced_wf r
     \<and> list_all (\<lambda>c. in_threads (re_threads r) (uc_thread_id c) (uc_turn_id c)) (rd_calls (re_dataset r))
     \<and> list_all (\<lambda>ob. in_threads (re_threads r) (ro_thread_id ob) (ro_turn_id ob)) (rd_rate_observations (re_dataset r)))"

definition view_sound :: "string \<Rightarrow> thread_state \<Rightarrow> bool" where
  "view_sound t = (\<lambda>(th, calls, obs). case th of
      None \<Rightarrow> calls = [] \<and> obs = []
    | Some th \<Rightarrow> thread_wf t th \<and> list_all (\<lambda>c. in_thread t th (uc_thread_id c) (uc_turn_id c)) calls
        \<and> list_all (\<lambda>ob. in_thread t th (ro_thread_id ob) (ro_turn_id ob)) obs)"

definition safe_files :: "chrono_range \<Rightarrow> (path, cached_file) btree \<Rightarrow> bool" where
  "safe_files rng m = list_all (\<lambda>(_, c). safe_log rng (cf_parsed c)) m"

definition safe_input :: "chrono_range \<Rightarrow> scan_input \<Rightarrow> bool" where
  "safe_input rng inp = list_all (\<lambda>f. safe_instant rng (rf_modified_at f)
     \<and> safe_previous rng (si_persistent inp (rf_path f)) \<and> safe_io rng (si_io inp (rf_path f))) (si_files inp)"

text \<open>A sequence of scans, each with its own input and options.\<close>

type_synonym scan_call = "scan_input \<times> datetime \<times> bool \<times> bool \<times> datetime option"

fun scan_all :: "collector_env \<Rightarrow> scan_call list \<Rightarrow> rollout_cache \<Rightarrow> rollout_cache option" where
  "scan_all env [] s = Some s"
| "scan_all env ((inp, now, force, coalesce, ext) # calls) s =
    Option.bind (scan_inner env inp now force coalesce ext s) (\<lambda>(s', _). scan_all env calls s')"

definition example_collector :: "bool \<Rightarrow> collector_env" where
  "example_collector redact = \<lparr>ce_parse = example_parse_env redact, ce_replay = example_replay_env redact\<rparr>"

definition example_input :: scan_input where
  "example_input = \<lparr>si_files = [example_file (example_prefix @ example_suffix)], si_discovery = rollout_dataset_default,
     si_discovery_suppressed = 0, si_discovery_cache = None, si_persistent = (\<lambda>_. None),
     si_io = (\<lambda>_. example_io (example_prefix @ example_suffix)), si_probe = (\<lambda>_. NoOwner), si_order = (\<lambda>ks. ks),
     si_titles = [], si_titles_reused = False, si_ledger_fingerprint = Inr None, si_overlay = Inr\<rparr>"

definition example_state :: rollout_cache where
  "example_state = fst (the (scan_inner (example_collector False) example_input 5 True False None rollout_cache_default))"

definition example_reduced :: reduced_rollouts where
  "example_reduced = the (rc_reduced example_state)"

definition example_plan :: replay_plan where
  "example_plan = \<lparr>rp_incomplete_counter_threads = re_incomplete_counter_threads example_reduced, rp_replay_order_warnings = [],
     rp_ambiguous_replay_orders = [], rp_suppressed_warnings = 0\<rparr>"

section \<open>The view of one thread\<close>

lemma reduced_wf_iff:
  "reduced_wf r \<longleftrightarrow> bt_wf (re_threads r) \<and> (\<forall>k th. bt_get (re_threads r) k = Some th \<longrightarrow> thread_wf k th)"
  by (simp add: reduced_wf_def bt_all_iff cong: conj_cong)

lemma in_thread_filter:
  assumes "dataset_wf owner th d"
  shows "filter (\<lambda>c. uc_thread_id c = t) (rd_calls d) = (if t = owner then rd_calls d else [])"
    "filter (\<lambda>ob. ro_thread_id ob = t) (rd_rate_observations d) = (if t = owner then rd_rate_observations d else [])"
  using assms by (auto simp: dataset_wf_def in_thread_def list_all_iff filter_id_conv filter_empty_conv)

lemma default_empty [simp]: "rd_calls rollout_dataset_default = []" "rd_rate_observations rollout_dataset_default = []"
  by (simp_all add: rollout_dataset_default_def)

lemma replay_file_view:
  assumes r: "reduced_wf r" and owner: "pf_owner_thread_id parsed = Some owner"
  shows "reduced_wf (replay_file_into_reduced env file parsed as_of r)"
    and "thread_view t (replay_file_into_reduced env file parsed as_of r)
      = (if t = owner then replay_view env as_of (t \<in> set (re_incomplete_counter_threads r)) t (file, parsed) (thread_view t r)
         else thread_view t r)"
proof -
  let ?inc = "owner \<in> set (re_incomplete_counter_threads r)"
  obtain threads d where f: "replay_rollout_file env file parsed as_of ?inc (re_threads r, rollout_dataset_default)
      = (threads, d)" by fastforce
  from r have wf: "bt_wf (re_threads r)" by (simp add: reduced_wf_def)
  note o = replay_rollout_file_owned [OF owner wf f]
  then obtain th where th: "replay_owned env file parsed as_of ?inc owner (bt_get (re_threads r) owner) = (th, d)"
    "bt_get threads owner = th" by (metis fst_conv prod.collapse snd_conv)
  have prev: "thread_wf owner p" if "bt_get (re_threads r) owner = Some p" for p
    using r that by (simp add: reduced_wf_iff)
  note w = replay_owned_wf [OF prev th(1), simplified]
  have shape: "re_threads (replay_file_into_reduced env file parsed as_of r) = threads"
    "rd_calls (re_dataset (replay_file_into_reduced env file parsed as_of r)) = rd_calls (re_dataset r) @ rd_calls d"
    "rd_rate_observations (re_dataset (replay_file_into_reduced env file parsed as_of r))
      = rd_rate_observations (re_dataset r) @ rd_rate_observations d"
    using f owner by (simp_all add: replay_file_into_reduced_def Let_def)
  have d: "filter (\<lambda>c. uc_thread_id c = t) (rd_calls d) = (if t = owner then rd_calls d else [])"
    "filter (\<lambda>ob. ro_thread_id ob = t) (rd_rate_observations d) = (if t = owner then rd_rate_observations d else [])"
    using w in_thread_filter [of owner _ d t] by (auto split: option.splits)
  show "reduced_wf (replay_file_into_reduced env file parsed as_of r)"
    using o w th(2) r by (auto simp: reduced_wf_iff shape) (metis (no_types, lifting) option.simps(5))
  show "thread_view t (replay_file_into_reduced env file parsed as_of r)
      = (if t = owner then replay_view env as_of (t \<in> set (re_incomplete_counter_threads r)) t (file, parsed) (thread_view t r)
         else thread_view t r)"
    using o th by (auto simp: thread_view_def shape d replay_view_def)
qed

lemma replay_file_no_owner:
  "pf_owner_thread_id parsed = None \<Longrightarrow> thread_view t (replay_file_into_reduced env file parsed as_of r) = thread_view t r
    \<and> (reduced_wf (replay_file_into_reduced env file parsed as_of r) = reduced_wf r)"
  by (simp add: replay_file_into_reduced_def replay_rollout_file_def thread_view_def reduced_wf_def Let_def)

lemma replay_file_plan [simp]:
  "re_incomplete_counter_threads (replay_file_into_reduced env file parsed as_of r) = re_incomplete_counter_threads r"
  by (simp add: replay_file_into_reduced_def Let_def split: prod.split)

section \<open>The files of one thread\<close>

lemma thread_log_Nil [simp]: "thread_log c cache files as_of t [] = []"
  by (simp add: thread_log_def List.map_filter_def)

lemma reduce_file_plan [simp]:
  "re_incomplete_counter_threads (reduce_file env cache files as_of file r) = re_incomplete_counter_threads r"
  by (simp add: reduce_file_def split: option.split)

lemma reduce_files_view:
  "reduced_wf r \<Longrightarrow> reduced_wf (fold (reduce_file env cache files as_of) fs r)
    \<and> thread_view t (fold (reduce_file env cache files as_of) fs r)
      = fold (replay_view env as_of (t \<in> set (re_incomplete_counter_threads r)) t)
          (thread_log (ry_config env) cache files as_of t fs) (thread_view t r)"
proof (induction fs arbitrary: r)
  case (Cons f fs)
  let ?r = "reduce_file env cache files as_of f r"
  have "reduced_wf ?r \<and> thread_view t ?r = fold (replay_view env as_of (t \<in> set (re_incomplete_counter_threads r)) t)
      (thread_log (ry_config env) cache files as_of t [f]) (thread_view t r)"
  proof (cases "bt_get cache f")
    case None
    with Cons.prems show ?thesis by (simp add: reduce_file_def thread_log_def List.map_filter_def)
  next
    case (Some parsed)
    show ?thesis
      using Some Cons.prems replay_file_view [OF Cons.prems, of parsed] replay_file_no_owner [of parsed]
      by (cases "pf_owner_thread_id parsed") (auto simp: reduce_file_def thread_log_def List.map_filter_def)
  qed
  moreover have "thread_log (ry_config env) cache files as_of t (f # fs)
      = thread_log (ry_config env) cache files as_of t [f] @ thread_log (ry_config env) cache files as_of t fs"
    by (simp add: thread_log_def List.map_filter_def)
  ultimately show ?case using Cons.IH [of ?r] by simp
qed simp

lemma add_file_metadata_keeps [simp]:
  "re_threads (add_file_metadata cache file r) = re_threads r"
  "rd_calls (re_dataset (add_file_metadata cache file r)) = rd_calls (re_dataset r)"
  "rd_rate_observations (re_dataset (add_file_metadata cache file r)) = rd_rate_observations (re_dataset r)"
  "re_incomplete_counter_threads (add_file_metadata cache file r) = re_incomplete_counter_threads r"
  by (auto simp: add_file_metadata_def Let_def split: option.split prod.split)

lemma metadata_view [simp]:
  "thread_view t (rebuild_reduced_metadata cache files r) = thread_view t r"
  "reduced_wf (rebuild_reduced_metadata cache files r) = reduced_wf r"
  "re_incomplete_counter_threads (rebuild_reduced_metadata cache files r) = re_incomplete_counter_threads r"
proof -
  have "re_threads (fold (add_file_metadata cache) fs x) = re_threads x
      \<and> rd_calls (re_dataset (fold (add_file_metadata cache) fs x)) = rd_calls (re_dataset x)
      \<and> rd_rate_observations (re_dataset (fold (add_file_metadata cache) fs x)) = rd_rate_observations (re_dataset x)
      \<and> re_incomplete_counter_threads (fold (add_file_metadata cache) fs x) = re_incomplete_counter_threads x" for fs x
    by (induction fs arbitrary: x) simp_all
  then show "thread_view t (rebuild_reduced_metadata cache files r) = thread_view t r"
    "reduced_wf (rebuild_reduced_metadata cache files r) = reduced_wf r"
    "re_incomplete_counter_threads (rebuild_reduced_metadata cache files r) = re_incomplete_counter_threads r"
    by (simp_all add: rebuild_reduced_metadata_def Let_def thread_view_def reduced_wf_def)
qed

lemma reduce_cached_files_view:
  "reduced_wf (reduce_cached_files_inner env cache files plan as_of)
    \<and> thread_view t (reduce_cached_files_inner env cache files plan as_of)
      = full_view env cache files (rp_incomplete_counter_threads plan) as_of t"
proof -
  have "reduced_wf (with_plan plan reduced_default)" "thread_view t (with_plan plan reduced_default) = (None, [], [])"
    "re_incomplete_counter_threads (with_plan plan reduced_default) = rp_incomplete_counter_threads plan"
    by (simp_all add: with_plan_def reduced_default_def reduced_wf_def thread_view_def)
  then show ?thesis
    using reduce_files_view [of "with_plan plan reduced_default" env cache files as_of files t]
    by (simp add: reduce_cached_files_inner_def full_view_def)
qed

section \<open>Incremental reduction\<close>

lemma reduce_changed_view:
  assumes r: "reduced_wf r"
    and paths: "\<And>f p owner. f \<in> set paths \<Longrightarrow> bt_get cache f = Some p \<Longrightarrow> pf_owner_thread_id p = Some owner \<Longrightarrow> owner \<in> set threads"
  shows "reduced_wf (fold (reduce_changed_file env cache files threads paths) fs r)
    \<and> thread_view t (fold (reduce_changed_file env cache files threads paths) fs r)
      = (if t \<in> set threads then fold (replay_view env None (t \<in> set (re_incomplete_counter_threads r)) t)
          (thread_log (ry_config env) cache files None t fs) (thread_view t r) else thread_view t r)"
  using r
proof (induction fs arbitrary: r)
  case (Cons f fs)
  let ?r = "reduce_changed_file env cache files threads paths f r"
  have plan: "re_incomplete_counter_threads ?r = re_incomplete_counter_threads r"
    by (simp add: reduce_changed_file_def Let_def split: option.split)
  have "reduced_wf ?r \<and> thread_view t ?r = (if t \<in> set threads
      then fold (replay_view env None (t \<in> set (re_incomplete_counter_threads r)) t)
        (thread_log (ry_config env) cache files None t [f]) (thread_view t r) else thread_view t r)"
  proof (cases "bt_get cache f")
    case None
    with Cons.prems show ?thesis by (simp add: reduce_changed_file_def thread_log_def List.map_filter_def)
  next
    case (Some parsed)
    show ?thesis
      using Some Cons.prems replay_file_view [OF Cons.prems, of parsed] replay_file_no_owner [of parsed] paths [of f parsed]
      by (cases "pf_owner_thread_id parsed") (auto simp: reduce_changed_file_def thread_log_def List.map_filter_def)
  qed
  moreover have "thread_log (ry_config env) cache files None t (f # fs)
      = thread_log (ry_config env) cache files None t [f] @ thread_log (ry_config env) cache files None t fs"
    by (simp add: thread_log_def List.map_filter_def)
  ultimately show ?case using Cons.IH [of ?r] plan by simp
qed simp

lemma bt_get_filter: "bt_get (filter (\<lambda>(k, _). P k) m) k = (if P k then bt_get m k else None)"
  by (induction m) auto

lemma incremental_view:
  assumes r: "reduced_wf r"
    and paths: "\<And>f p owner. f \<in> set paths \<Longrightarrow> bt_get cache f = Some p \<Longrightarrow> pf_owner_thread_id p = Some owner \<Longrightarrow> owner \<in> set threads"
    and kept: "\<And>t. t \<notin> set threads \<Longrightarrow> thread_view t r = full_view env cache files (rp_incomplete_counter_threads plan) None t"
  shows "reduced_wf (incrementally_reduce_cached_files env cache files plan threads paths r)
    \<and> thread_view t (incrementally_reduce_cached_files env cache files plan threads paths r)
      = full_view env cache files (rp_incomplete_counter_threads plan) None t"
proof -
  let ?keep = "keeps_replay_of cache files threads paths"
  let ?r = "with_plan plan (r\<lparr>re_threads := filter (\<lambda>(t, _). t \<notin> set threads) (re_threads r),
    re_dataset := (re_dataset r)\<lparr>rd_calls := filter (\<lambda>c. uc_thread_id c \<notin> set threads) (rd_calls (re_dataset r)),
      rd_rate_observations := filter (\<lambda>ob. ro_thread_id ob \<notin> set threads) (rd_rate_observations (re_dataset r))\<rparr>,
    re_replay_warnings := filter (\<lambda>e. ?keep (fst e)) (re_replay_warnings r),
    re_ambiguous_token_resets := filter (\<lambda>e. ?keep (fst e)) (re_ambiguous_token_resets r)\<rparr>)"
  have wf: "reduced_wf ?r"
    using r by (auto simp: reduced_wf_def with_plan_def list_all_iff intro: bt_wf_filter)
  have "thread_view t ?r = (if t \<in> set threads then (None, [], []) else thread_view t r)"
    by (auto simp: thread_view_def with_plan_def bt_get_filter filter_empty_conv intro!: filter_cong)
  moreover have "re_incomplete_counter_threads ?r = rp_incomplete_counter_threads plan" by (simp add: with_plan_def)
  ultimately show ?thesis
    using reduce_changed_view [OF wf paths, where env = env and files = files and fs = files and t = t] kept [of t]
    by (simp add: incrementally_reduce_cached_files_def Let_def full_view_def)
qed

section \<open>What a view depends on\<close>

lemma subsumed_owned:
  "pf_owner_thread_id parsed = Some t \<Longrightarrow> archived_rollout_is_subsumed_by_active_as_of c cache files as_of file parsed
    = subsumed_by c as_of (owned_files cache t files) file parsed"
  by (auto simp: archived_rollout_is_subsumed_by_active_as_of_def subsumed_by_def owned_files_def owner_of_def
      list_ex_iff bind_eq_Some_conv split: option.splits)

lemma thread_log_owned:
  "thread_log c cache files as_of t fs
    = filter (\<lambda>(p, parsed). \<not> subsumed_by c as_of (owned_files cache t files) p parsed) (owned_files cache t fs)"
proof (induction fs)
  case (Cons f fs)
  show ?case
  proof (cases "bt_get cache f")
    case None
    with Cons show ?thesis by (simp add: thread_log_def List.map_filter_def owned_files_def owner_of_def)
  next
    case (Some parsed)
    with Cons show ?thesis
      by (cases "pf_owner_thread_id parsed = Some t")
        (simp_all add: thread_log_def List.map_filter_def owned_files_def owner_of_def subsumed_owned)
  qed
qed (simp add: owned_files_def)

lemma full_view_owned:
  assumes "owned_files cache t files = owned_files cache' t files'" "(t \<in> set inc) = (t \<in> set inc')"
  shows "full_view env cache files inc as_of t = full_view env cache' files' inc' as_of t"
  using assms by (simp add: full_view_def thread_log_owned)

lemma owned_files_cong:
  "(\<And>p. p \<in> set files \<Longrightarrow> bt_get cache p = bt_get cache' p) \<Longrightarrow> owned_files cache t files = owned_files cache' t files"
  by (induction files) (auto simp: owned_files_def owner_of_def)

section \<open>Refreshing the cached files\<close>

lemma get_parsed_of: "bt_get (parsed_of m) p = map_option cf_parsed (bt_get m p)"
  by (induction m) (auto simp: parsed_of_def)

lemma owner_of_parsed_of: "owner_of (parsed_of m) p = file_owner m p"
  by (simp add: owner_of_def file_owner_def get_parsed_of Option.bind_map_option comp_def)

lemma insert_owner_set:
  "set (insert_owner c ts) = set ts \<union> set_option (Option.bind c (\<lambda>c. pf_owner_thread_id (cf_parsed c)))"
  by (cases "Option.bind c (\<lambda>c. pf_owner_thread_id (cf_parsed c))") (auto simp: insert_owner_def)

lemma load_persistent_keeps:
  "bt_wf m \<Longrightarrow> bt_wf (load_persistent persistent files m)
    \<and> (\<forall>p c. bt_get m p = Some c \<longrightarrow> bt_get (load_persistent persistent files m) p = Some c)"
  unfolding load_persistent_def
proof (induction files arbitrary: m)
  case (Cons f files)
  let ?m = "if bt_contains m (rf_path f) then m
     else case persistent (rf_path f) of Some c \<Rightarrow> bt_insert (rf_path f) c m | None \<Rightarrow> m"
  have "bt_wf ?m \<and> (\<forall>p c. bt_get m p = Some c \<longrightarrow> bt_get ?m p = Some c)"
    using Cons.prems by (auto simp: bt_wf_insert bt_get_insert bt_contains_def split: option.split)
  with Cons.IH [of ?m] show ?case by simp
qed simp

lemma refresh_file_refreshed:
  assumes "refreshed m0 acc" "refresh_file env io f acc = Some acc'"
  shows "refreshed m0 acc' \<and> bt_get (fst acc') (rf_path f) \<noteq> None
    \<and> (\<forall>p. bt_get (fst acc) p \<noteq> None \<longrightarrow> bt_get (fst acc') p \<noteq> None)"
proof -
  obtain m threads paths reparsed where acc: "acc = (m, threads, paths, reparsed)" by (cases acc) auto
  show ?thesis
  proof (cases "reusable m f")
    case True
    with assms show ?thesis by (auto simp: acc refresh_file_def reusable_def split: option.splits)
  next
    case False
    obtain sp where "refresh_stable_rollout_file env (io (rf_path f)) f (bt_get m (rf_path f)) = Some sp"
      using assms(2) False by (auto simp: acc refresh_file_def Let_def)
    then have sp: "acc' = (bt_insert (rf_path f) (sp_cached sp) (bt_remove (rf_path f) m),
        insert_owner (Some (sp_cached sp)) (insert_owner (bt_get m (rf_path f)) threads),
        List.insert (rf_path f) paths, True)"
      using assms(2) False by (simp add: acc refresh_file_def Let_def)
    from assms(1) have wf: "bt_wf m" by (simp add: acc refreshed_def)
    then have get: "bt_get (bt_insert (rf_path f) (sp_cached sp) (bt_remove (rf_path f) m)) p
        = (if p = rf_path f then Some (sp_cached sp) else bt_get m p)" for p
      by (simp add: bt_get_insert bt_wf_remove bt_get_remove)
    have old: "set_option (file_owner m0 (rf_path f)) \<subseteq> set threads \<union> set_option (file_owner m (rf_path f))"
      using assms(1) by (cases "rf_path f \<in> set paths") (auto simp: acc refreshed_def file_owner_def)
    show ?thesis
      using assms(1) wf old
      by (auto simp: sp acc refreshed_def get bt_wf_insert bt_wf_remove insert_owner_set file_owner_def)
  qed
qed

lemma refresh_files_refreshed:
  assumes "bt_wf m0" "refresh_files env io files m0 = Some acc"
  shows "refreshed m0 acc \<and> (\<forall>f\<in>set files. bt_get (fst acc) (rf_path f) \<noteq> None)"
proof -
  let ?g = "\<lambda>f acc. Option.bind acc (refresh_file env io f)"
  have none: "fold ?g fs None = None" for fs by (induction fs) auto
  have "refreshed m0 a \<Longrightarrow> fold ?g fs (Some a) = Some b \<Longrightarrow>
      refreshed m0 b \<and> (\<forall>f\<in>set fs. bt_get (fst b) (rf_path f) \<noteq> None)
      \<and> (\<forall>p. bt_get (fst a) p \<noteq> None \<longrightarrow> bt_get (fst b) p \<noteq> None)" for fs a b
  proof (induction fs arbitrary: a)
    case (Cons f fs)
    from Cons.prems(2) obtain a' where a': "refresh_file env io f a = Some a'" "fold ?g fs (Some a') = Some b"
      by (cases "refresh_file env io f a") (auto simp: none)
    from refresh_file_refreshed [OF Cons.prems(1) a'(1)] Cons.IH [OF _ a'(2)] show ?case by auto
  qed simp
  moreover have "refreshed m0 (m0, [], [], False)" using assms(1) by (simp add: refreshed_def)
  ultimately show ?thesis using assms(2) unfolding refresh_files_def by blast
qed

section \<open>Marking what changed\<close>

lemma mark_changed_marked:
  assumes "paths_marked m acc"
  shows "paths_marked m (mark_changed m others x acc) \<and> set (fst acc) \<subseteq> set (fst (mark_changed m others x acc))"
  using assms by (cases acc; cases x) (auto simp: paths_marked_def mark_changed_def insert_owner_set file_owner_def)

lemma mark_selection_marked:
  assumes "paths_marked m acc"
  shows "paths_marked m (mark_selection m previous current acc)
    \<and> set (fst acc) \<subseteq> set (fst (mark_selection m previous current acc))"
proof -
  have "paths_marked m a \<Longrightarrow> paths_marked m (fold (mark_changed m others) xs a)
      \<and> set (fst a) \<subseteq> set (fst (fold (mark_changed m others) xs a))" for others xs a
  proof (induction xs arbitrary: a)
    case (Cons x xs)
    from mark_changed_marked [OF Cons.prems, of others x] Cons.IH [of "mark_changed m others x a"] show ?case by auto
  qed simp
  then show ?thesis using assms unfolding mark_selection_def by (meson order_trans)
qed

lemma get_paths_by_thread:
  "bt_get (paths_by_thread m selected) t
    = (let ps = filter (\<lambda>p. file_owner m p = Some t) (List.map fst selected) in if ps = [] then None else Some ps)"
proof -
  let ?g = "\<lambda>(p, _ :: fingerprint) paths. case Option.bind (bt_get m p) (\<lambda>c. pf_owner_thread_id (cf_parsed c)) of
       None \<Rightarrow> paths | Some t \<Rightarrow> bt_update t [] (\<lambda>ps. ps @ [p]) paths"
  have "bt_wf acc \<Longrightarrow> bt_get (fold ?g xs acc) t = (let ps = filter (\<lambda>p. file_owner m p = Some t) (List.map fst xs)
      in case bt_get acc t of Some qs \<Rightarrow> Some (qs @ ps) | None \<Rightarrow> if ps = [] then None else Some ps)" for acc xs
  proof (induction xs arbitrary: acc)
    case (Cons x xs)
    obtain p fp where x: "x = (p, fp)" by (cases x)
    show ?case
    proof (cases "file_owner m p")
      case None
      with Cons x show ?thesis by (simp add: file_owner_def)
    next
      case (Some u)
      let ?acc = "bt_update u [] (\<lambda>ps. ps @ [p]) acc"
      have "bt_wf ?acc" using Cons.prems by (simp add: bt_wf_update)
      from Cons.IH [OF this] show ?thesis
        using Some Cons.prems by (simp add: x file_owner_def bt_get_update Let_def split: option.split)
    qed
  qed (simp add: Let_def split: option.split)
  from this [of "[]" selected] show ?thesis by (simp add: paths_by_thread_def)
qed

lemma mark_order_marked:
  assumes "t \<notin> set (mark_threads_with_changed_file_order previous current m threads)"
  shows "t \<notin> set threads \<and> filter (\<lambda>p. file_owner m p = Some t) (List.map fst previous)
    = filter (\<lambda>p. file_owner m p = Some t) (List.map fst current)"
proof -
  let ?a = "paths_by_thread m previous" and ?b = "paths_by_thread m current"
  have fold_set: "set (fold (\<lambda>t ts. if bt_get ?a t \<noteq> bt_get ?b t then List.insert t ts else ts) xs ts)
      = set ts \<union> {t \<in> set xs. bt_get ?a t \<noteq> bt_get ?b t}" for xs ts
    by (induction xs arbitrary: ts) auto
  have keys: "t \<in> set (bt_keys x)" if "bt_get x t \<noteq> None" for x :: "(string, path list) btree"
    using that by (auto simp: bt_keys_def bt_get_None_iff)
  from assms have t: "t \<notin> set threads" "t \<in> set (bt_keys ?a @ bt_keys ?b) \<Longrightarrow> bt_get ?a t = bt_get ?b t"
    unfolding mark_threads_with_changed_file_order_def Let_def fold_set by blast+
  moreover have "bt_get ?a t = bt_get ?b t"
    using t(2) keys [of ?a] keys [of ?b] by (cases "bt_get ?a t"; cases "bt_get ?b t") auto
  ultimately have "t \<notin> set threads" "bt_get ?a t = bt_get ?b t" by simp_all
  then show ?thesis by (simp add: get_paths_by_thread Let_def split: if_splits)
qed

lemma mark_plan_marked:
  assumes "t \<notin> set (mark_plan m plan (Some r) threads)"
  shows "t \<notin> set threads \<and> (t \<in> set (re_incomplete_counter_threads r)) = (t \<in> set (rp_incomplete_counter_threads plan))"
proof -
  have owners: "set ts \<subseteq> set (fold (\<lambda>p. insert_owner (bt_get m p)) ps ts)" for ps ts
  proof (induction ps arbitrary: ts)
    case (Cons p ps)
    from Cons.IH [of "insert_owner (bt_get m p) ts"] show ?case by (auto simp: insert_owner_set)
  qed simp
  have inserts: "set (fold List.insert xs ts) = set xs \<union> set ts" for xs ts :: "string list"
    by (induction xs arbitrary: ts) auto
  show ?thesis
  proof (cases "replay_plan_changed plan (Some r)")
    case True
    let ?old = "re_incomplete_counter_threads r" and ?new = "rp_incomplete_counter_threads plan"
    let ?marked = "fold List.insert (filter (\<lambda>t. t \<notin> set ?new) ?old @ filter (\<lambda>t. t \<notin> set ?old) ?new) threads"
    have "t \<notin> set (fold (\<lambda>p. insert_owner (bt_get m p))
        (bt_keys (re_replay_order_warnings r) @ bt_keys (rp_replay_order_warnings plan)) ?marked)"
      using assms True unfolding mark_plan_def option.case Let_def by (simp only: not_True_eq_False if_False not_False_eq_True)
    then have "t \<notin> set ?marked" using owners by blast
    then show ?thesis by (auto simp: inserts)
  next
    case False
    with assms show ?thesis by (simp add: mark_plan_def replay_plan_changed_def)
  qed
qed

section \<open>The collector\<close>

lemma unchanged_thread_files:
  assumes kept: "\<And>p c. bt_get old p = Some c \<Longrightarrow> bt_get m0 p = Some c"
    and m: "refreshed m0 (m, threads, paths, reparsed)"
    and previous: "\<And>p. p \<in> set previous \<Longrightarrow> bt_get old p \<noteq> None"
    and t: "t \<notin> set threads"
    and order: "filter (\<lambda>p. file_owner m p = Some t) previous = filter (\<lambda>p. file_owner m p = Some t) files"
  shows "owned_files (parsed_of old) t previous = owned_files (parsed_of m) t files"
proof -
  have same: "(file_owner old p = Some t) = (file_owner m p = Some t)
      \<and> (file_owner m p = Some t \<longrightarrow> bt_get old p = bt_get m p)" if "p \<in> set previous" for p
  proof (cases "p \<in> set paths")
    case True
    with m t have "file_owner m0 p \<noteq> Some t" "file_owner m p \<noteq> Some t" by (auto simp: refreshed_def)
    moreover have "bt_get old p = bt_get m0 p" using kept previous [OF that] by auto
    ultimately show ?thesis by (simp add: file_owner_def)
  next
    case False
    with m have "bt_get m p = bt_get m0 p" by (simp add: refreshed_def)
    then show ?thesis using kept previous [OF that] by (auto simp: file_owner_def)
  qed
  have "owned_files (parsed_of old) t previous
      = List.map (\<lambda>p. (p, the (bt_get (parsed_of m) p))) (filter (\<lambda>p. file_owner m p = Some t) previous)"
    unfolding owned_files_def owner_of_parsed_of
    using same by (auto simp: get_parsed_of cong: filter_cong)
  then show ?thesis by (simp add: order owned_files_def owner_of_parsed_of)
qed

lemma selected_of_paths:
  "(\<And>p. p \<in> set files \<Longrightarrow> bt_get m p \<noteq> None) \<Longrightarrow> List.map fst (selected_of m files) = files"
  by (induction files) (fastforce simp: selected_of_def List.map_filter_def)+

lemma set_replay_files [simp]: "set (sort_rollout_files_for_replay cache ps) = set ps"
  by (simp add: sort_rollout_files_for_replay_def sort_rollout_files_for_replay_as_of_def)

lemma reduce_plan:
  "re_incomplete_counter_threads (reduce_cached_files_inner env cache files plan as_of) = rp_incomplete_counter_threads plan"
  "re_incomplete_counter_threads (incrementally_reduce_cached_files env cache files plan threads paths r)
    = rp_incomplete_counter_threads plan"
proof -
  have "re_incomplete_counter_threads (fold (reduce_file env cache files as_of) fs x) = re_incomplete_counter_threads x" for fs x
    by (induction fs arbitrary: x) simp_all
  then show "re_incomplete_counter_threads (reduce_cached_files_inner env cache files plan as_of) = rp_incomplete_counter_threads plan"
    by (simp add: reduce_cached_files_inner_def with_plan_def)
  have "re_incomplete_counter_threads (reduce_changed_file env cache files threads paths f x) = re_incomplete_counter_threads x" for f x
    by (simp add: reduce_changed_file_def Let_def split: option.split)
  then have "re_incomplete_counter_threads (fold (reduce_changed_file env cache files threads paths) fs x)
      = re_incomplete_counter_threads x" for fs x
    by (induction fs arbitrary: x) simp_all
  then show "re_incomplete_counter_threads (incrementally_reduce_cached_files env cache files plan threads paths r)
      = rp_incomplete_counter_threads plan"
    by (simp add: incrementally_reduce_cached_files_def Let_def with_plan_def)
qed

lemma reduce_changed_full:
  assumes r: "\<And>x. reduced = Some x \<Longrightarrow> reduced_wf x"
    and paths: "paths_marked m (threads, paths)"
    and kept: "\<And>x t. reduced = Some x \<Longrightarrow> t \<notin> set threads
      \<Longrightarrow> thread_view t x = full_view env (parsed_of m) files (rp_incomplete_counter_threads plan) None t"
  defines "r' \<equiv> reduce_changed env (parsed_of m) files plan threads paths reduced"
  shows "reduced_wf r' \<and> re_incomplete_counter_threads r' = rp_incomplete_counter_threads plan
    \<and> thread_view t r' = full_view env (parsed_of m) files (rp_incomplete_counter_threads plan) None t"
proof -
  have full: "reduced_wf (reduce_cached_files env (parsed_of m) files plan)
      \<and> re_incomplete_counter_threads (reduce_cached_files env (parsed_of m) files plan) = rp_incomplete_counter_threads plan
      \<and> thread_view t (reduce_cached_files env (parsed_of m) files plan)
        = full_view env (parsed_of m) files (rp_incomplete_counter_threads plan) None t"
    using reduce_cached_files_view by (simp add: reduce_cached_files_def reduce_plan)
  show ?thesis
  proof (cases reduced)
    case None
    with full show ?thesis by (simp add: r'_def reduce_changed_def)
  next
    case (Some x)
    have marked: "owner \<in> set threads"
      if "f \<in> set paths" "bt_get (parsed_of m) f = Some p" "pf_owner_thread_id p = Some owner" for f p owner
      using that paths by (fastforce simp: paths_marked_def get_parsed_of file_owner_def)
    from incremental_view [OF r [OF Some] marked kept [OF Some], where t = t] full Some show ?thesis
      by (simp add: r'_def reduce_changed_def Let_def reduce_plan)
  qed
qed

lemma unmarked_threads_keep_view:
  assumes kept: "\<And>p c. bt_get old p = Some c \<Longrightarrow> bt_get m0 p = Some c"
    and ref: "refreshed m0 (m, threads, paths, reparsed)"
    and previous: "\<And>p. p \<in> set (List.map fst selected) \<Longrightarrow> bt_get old p \<noteq> None"
    and current: "List.map fst current = files"
    and sub: "set threads \<subseteq> set threads1"
    and view: "thread_view t x = full_view env (parsed_of old) (List.map fst selected) (re_incomplete_counter_threads x) None t"
    and t: "t \<notin> set (mark_plan m plan (Some x) (mark_threads_with_changed_file_order selected current m threads1))"
  shows "thread_view t x = full_view env (parsed_of m) files (rp_incomplete_counter_threads plan) None t"
proof -
  from mark_plan_marked [OF t] have p: "(t \<in> set (re_incomplete_counter_threads x)) = (t \<in> set (rp_incomplete_counter_threads plan))"
    and o: "t \<notin> set (mark_threads_with_changed_file_order selected current m threads1)" by auto
  from mark_order_marked [OF o] sub current have "t \<notin> set threads"
    "filter (\<lambda>p. file_owner m p = Some t) (List.map fst selected) = filter (\<lambda>p. file_owner m p = Some t) files" by auto
  from unchanged_thread_files [OF kept ref previous this] show ?thesis
    unfolding view by (rule full_view_owned [OF _ p])
qed

lemma marks_accumulate:
  "set threads \<subseteq> set (mark_plan m plan reduced (mark_threads_with_changed_file_order previous current m threads))"
proof (cases reduced)
  case None
  then show ?thesis using mark_order_marked by (fastforce simp: mark_plan_def)
next
  case (Some r)
  then show ?thesis using mark_order_marked mark_plan_marked by blast
qed

lemma no_change_keeps_view:
  assumes kept: "\<And>p c. bt_get old p = Some c \<Longrightarrow> bt_get m0 p = Some c"
    and ref: "refreshed m0 (m, threads, paths, False)"
    and previous: "\<And>p. p \<in> set files \<Longrightarrow> bt_get old p \<noteq> None"
  shows "full_view env (parsed_of old) files inc as_of t = full_view env (parsed_of m) files inc as_of t"
proof -
  have "bt_get old p = bt_get m p" if "p \<in> set files" for p
    using ref kept previous [OF that] by (auto simp: refreshed_def)
  then show ?thesis by (intro full_view_owned owned_files_cong) (simp_all add: get_parsed_of)
qed

theorem scan_reduce_inv:
  assumes inv: "collector_inv (ce_replay env) s" and scan: "scan_reduce env inp s = Some (s', files, rebuilt)"
  shows "collector_inv (ce_replay env) s'" and "rc_key s' = rc_key s"
proof -
  let ?by_path = "sort_key rf_path (si_files inp)" and ?config = "ry_config (ce_replay env)"
  let ?m0 = "load_persistent (si_persistent inp) ?by_path (rc_files s)"
  from inv have old: "bt_wf (rc_files s)" by (simp add: collector_inv_def)
  note m0 = load_persistent_keeps [OF old, of "si_persistent inp" ?by_path]
  from scan obtain m threads paths reparsed where
    refresh: "refresh_files (ce_parse env) (si_io inp) ?by_path ?m0 = Some (m, threads, paths, reparsed)"
    by (auto simp: scan_reduce_def Let_def)
  from refresh_files_refreshed [OF conjunct1 [OF m0] refresh] have ref: "refreshed ?m0 (m, threads, paths, reparsed)"
    and present: "\<And>f. f \<in> set (si_files inp) \<Longrightarrow> bt_get m (rf_path f) \<noteq> None" by auto
  obtain plan probes where plan: "build_replay_plan (si_order inp) (si_probe inp) ?config (parsed_of m) (si_discovery_cache inp)
      (sort_rollout_files_for_replay (parsed_of m) (List.map rf_path ?by_path)) None (rc_omitted_owner_probes s) = (plan, probes)"
    by fastforce
  obtain threads1 paths1 where sel: "mark_selection m (rc_selected s) (selected_of m
      (sort_rollout_files_for_replay (parsed_of m) (List.map rf_path ?by_path))) (threads, paths) = (threads1, paths1)"
    by fastforce
  let ?threads = "mark_plan m plan (rc_reduced s) (mark_threads_with_changed_file_order (rc_selected s) (selected_of m files) m threads1)"
  from scan refresh plan sel have files: "files = sort_rollout_files_for_replay (parsed_of m) (List.map rf_path ?by_path)"
    and s': "rc_files s' = filter (\<lambda>(p, _). p \<in> set files) m" "rc_selected s' = selected_of m files" "rc_key s' = rc_key s"
      "rc_reduced s' = (if rc_reduced s = None \<or> selected_of m files \<noteq> rc_selected s \<or> reparsed
         \<or> replay_plan_changed plan (rc_reduced s)
       then Some (reduce_changed (ce_replay env) (parsed_of m) files plan ?threads paths1 (rc_reduced s)) else rc_reduced s)"
    by (auto simp: scan_reduce_def Let_def)
  show "rc_key s' = rc_key s" by (fact s'(3))
  have paths_in: "List.map fst (selected_of m files) = files"
    by (rule selected_of_paths) (use present in \<open>auto simp: files\<close>)
  have m: "bt_wf m" using ref by (simp add: refreshed_def)
  have owned: "owned_files (parsed_of (rc_files s')) t files = owned_files (parsed_of m) t files" for t
    by (rule owned_files_cong) (simp add: s'(1) get_parsed_of bt_get_filter)
  have previous: "\<And>p. p \<in> set (List.map fst (rc_selected s)) \<Longrightarrow> bt_get (rc_files s) p \<noteq> None"
    using inv by (auto simp: collector_inv_def)
  have marked: "paths_marked m (threads, paths)" using ref by (auto simp: refreshed_def paths_marked_def)
  have view: "reduced_wf x" "thread_view t x = full_view (ce_replay env) (parsed_of (rc_files s)) (List.map fst (rc_selected s))
      (re_incomplete_counter_threads x) None t" if "rc_reduced s = Some x" for x t
    using inv that by (auto simp: collector_inv_def)
  have full: "full_view (ce_replay env) (parsed_of (rc_files s')) files inc None t
      = full_view (ce_replay env) (parsed_of m) files inc None t" for inc t
    by (rule full_view_owned [OF owned]) (rule refl)
  have in_files: "\<forall>p\<in>set files. bt_get (rc_files s') p \<noteq> None"
    using present by (auto simp: s'(1) files bt_get_filter)
  have "\<exists>r. rc_reduced s' = Some r \<and> reduced_wf r \<and> (\<forall>t. thread_view t r
      = full_view (ce_replay env) (parsed_of m) files (re_incomplete_counter_threads r) None t)"
  proof (cases "rc_reduced s = None \<or> selected_of m files \<noteq> rc_selected s \<or> reparsed \<or> replay_plan_changed plan (rc_reduced s)")
    case True
    from mark_selection_marked [OF marked] have sub: "paths_marked m (threads1, paths1)" "set threads \<subseteq> set threads1"
      by (metis sel [folded files], metis fst_conv sel [folded files])
    have all: "paths_marked m (?threads, paths1)"
      using sub(1) marks_accumulate by (fastforce simp: paths_marked_def)
    have kept: "thread_view t x = full_view (ce_replay env) (parsed_of m) files (rp_incomplete_counter_threads plan) None t"
      if "rc_reduced s = Some x" "t \<notin> set ?threads" for x t
      by (rule unmarked_threads_keep_view [OF _ ref previous paths_in sub(2) view(2) [OF that(1)]])
        (use m0 that in auto)
    from reduce_changed_full [OF view(1) all kept] True show ?thesis by (simp add: s'(4))
  next
    case False
    then obtain x where x: "rc_reduced s = Some x" and same: "List.map fst (rc_selected s) = files" "\<not> reparsed"
      using paths_in by auto
    from no_change_keeps_view [of "rc_files s" ?m0 m threads paths files] m0 ref previous same view [OF x] False x
    show ?thesis by (auto simp: s'(4))
  qed
  moreover have "bt_wf (rc_files s')" using m by (simp add: s'(1) bt_wf_filter)
  ultimately show "collector_inv (ce_replay env) s'"
    using in_files unfolding collector_inv_def s'(2) paths_in full by auto
qed

section \<open>Scans of one home\<close>

lemma replay_event_same: "same_replay a b \<Longrightarrow> replay_event a file owner covered e th d = replay_event b file owner covered e th d"
  by (cases e) (simp_all add: same_replay_def)

lemma replay_step_same: "same_replay a b \<Longrightarrow> replay_step a = replay_step b"
  by (intro ext) (simp add: replay_step_def replay_event_same split: prod.split)

lemma mark_seen_same: "same_replay a b \<Longrightarrow> mark_seen a = mark_seen b"
  by (intro ext) (simp add: mark_seen_def is_archived_def same_replay_def)

lemma full_view_same:
  assumes "same_replay a b"
  shows "full_view a cache files inc as_of t = full_view b cache files inc as_of t"
proof -
  have "replay_owned a = replay_owned b"
    unfolding replay_owned_def [abs_def] replay_step_same [OF assms] mark_seen_same [OF assms] ..
  then have view: "replay_view a = replay_view b" unfolding replay_view_def [abs_def] by (simp only:)
  have "subsumed_by (ry_config a) = subsumed_by (ry_config b)"
    using assms by (intro ext) (simp add: subsumed_by_def is_archived_def same_replay_def)
  then show ?thesis unfolding full_view_def thread_log_owned view by (simp only:)
qed

lemma collector_inv_same: "same_replay a b \<Longrightarrow> collector_inv a s = collector_inv b s"
  by (cases "rc_reduced s") (simp_all add: collector_inv_def full_view_same [of a b])

lemma collector_inv_parts:
  "rc_files s' = rc_files s \<Longrightarrow> rc_selected s' = rc_selected s \<Longrightarrow> rc_reduced s' = rc_reduced s
    \<Longrightarrow> collector_inv env s' = collector_inv env s"
  by (cases "rc_reduced s") (simp_all add: collector_inv_def)

lemma scan_materialize_keeps:
  assumes "scan_materialize env inp now files rebuilt ledger s = Some (s', res)"
  shows "rc_files s' = rc_files s \<and> rc_selected s' = rc_selected s \<and> rc_reduced s' = rc_reduced s \<and> rc_key s' = rc_key s"
proof -
  obtain boundary s1 where r: "refresh_as_of env inp now files rebuilt s = (boundary, s1)" by fastforce
  then have s1: "rc_files s1 = rc_files s \<and> rc_selected s1 = rc_selected s \<and> rc_reduced s1 = rc_reduced s \<and> rc_key s1 = rc_key s"
    by (auto simp: refresh_as_of_def Let_def split: if_splits prod.splits)
  obtain z where z: "opt_or (rc_as_of_reduced s1) (rc_reduced s1) = Some z"
    using assms r by (auto simp: scan_materialize_def Let_def)
  let ?d = "materialize_dataset (ce_replay env) (si_order inp) (min_utc (pe_range (ce_parse env))) now (si_titles inp) z
    (si_discovery inp) (si_discovery_suppressed inp)"
  show ?thesis
    by (cases "si_overlay inp ?d") (use assms r s1 z in \<open>auto simp: scan_materialize_def Let_def\<close>)
qed

lemma scan_publish_keeps:
  assumes "scan_publish env inp now force coalesce ext files rebuilt s = Some (s', res)"
  shows "rc_files s' = rc_files s \<and> rc_selected s' = rc_selected s \<and> rc_reduced s' = rc_reduced s \<and> rc_key s' = rc_key s"
proof (cases "si_ledger_fingerprint inp")
  case (Inl e)
  with assms show ?thesis by (simp add: scan_publish_def Let_def)
next
  case (Inr ledger)
  with assms show ?thesis
    by (auto simp: scan_publish_def Let_def split: if_splits dest!: scan_materialize_keeps)
qed

lemma scan_inner_key:
  assumes scan: "scan_inner env inp now force coalesce ext s = Some (s', res)"
    and inv: "collector_inv (ce_replay env) (reset_for_key (ry_config (ce_replay env)) s)"
  shows "collector_inv (ce_replay env) s'"
    and "rc_key s' = Some (cc_codex_home (ry_config (ce_replay env)), cc_redact_content (ry_config (ce_replay env)))"
proof -
  let ?s = "(reset_for_key (ry_config (ce_replay env)) s)\<lparr>rc_last_external_materialized_at := Some now,
    rc_next_external_evidence_boundary := ext\<rparr>"
  from scan obtain s1 files rebuilt x where r: "scan_reduce env inp ?s = Some (s1, files, rebuilt)"
    and p: "scan_publish env inp now force coalesce x files rebuilt s1 = Some (s', res)"
    by (auto simp: scan_inner_def Let_def bind_eq_Some_conv)
  have "collector_inv (ce_replay env) ?s" using inv by (subst collector_inv_parts) simp_all
  note s1 = scan_reduce_inv [OF this r]
  note k = scan_publish_keeps [OF p]
  show "collector_inv (ce_replay env) s'" using s1(1) k collector_inv_parts [of s' s1] by simp
  show "rc_key s' = Some (cc_codex_home (ry_config (ce_replay env)), cc_redact_content (ry_config (ce_replay env)))"
    using s1(2) k by (simp add: reset_for_key_def Let_def)
qed

lemma collector_ok_parts:
  assumes "collector_ok sha ch s" "rc_key s' = rc_key s" "rc_files s' = rc_files s" "rc_selected s' = rc_selected s"
    "rc_reduced s' = rc_reduced s"
  shows "collector_ok sha ch s'"
  using assms collector_inv_parts [of s' s] by (cases "rc_key s") (auto simp: collector_ok_def)

lemma collector_scan_ok:
  assumes ok: "collector_ok (ry_sha256 (ce_replay env)) (ry_chrono (ce_replay env)) s"
    and scan: "scan_inner env inp now force coalesce ext s = Some (s', res)"
  shows "collector_ok (ry_sha256 (ce_replay env)) (ry_chrono (ce_replay env)) s'"
proof -
  let ?env = "ce_replay env"
  have "collector_inv ?env (reset_for_key (ry_config ?env) s)"
  proof (cases "rc_key s = Some (cc_codex_home (ry_config ?env), cc_redact_content (ry_config ?env))")
    case True
    with ok show ?thesis by (simp add: reset_for_key_def collector_ok_def)
  qed (simp add: reset_for_key_def collector_inv_def rollout_cache_default_def)
  note s' = scan_inner_key [OF scan this]
  have "collector_inv e s'" if "same_replay ?env e" for e
    using s'(1) collector_inv_same [OF that] by simp
  then show ?thesis by (simp add: collector_ok_def s'(2) same_replay_def)
qed

lemma reachable_ok: "collector_reachable sha ch s \<Longrightarrow> collector_ok sha ch s"
proof (induction rule: collector_reachable.induct)
  case collector_start
  then show ?case by (simp add: collector_ok_def rollout_cache_default_def)
next
  case (collector_scan s env inp now force coalesce ext s' res)
  then show ?case using collector_scan_ok by blast
next
  case (collector_fork s)
  then show ?case
    by (auto simp: fork_for_history_scan_def collector_ok_def collector_inv_def rollout_cache_default_def split: option.splits)
next
  case (collector_invalidate s)
  show ?case
    by (rule collector_ok_parts [OF collector_invalidate.IH]) (simp_all add: invalidate_after_session_mutation_def)
next
  case (collector_boundary s now b)
  show ?case by (rule collector_ok_parts [OF collector_boundary.IH]) (simp_all add: set_external_boundary_def)
next
  case (collector_coverage s now w d)
  show ?case by (rule collector_ok_parts [OF collector_coverage.IH]) (simp_all add: update_local_coverage_def Let_def)
qed

text \<open>C1. In every state a collector reaches by scans, invalidations, forks and boundary updates, the
  incrementally maintained reduction has the threads, the calls and the observations of every thread that a
  reduction of all selected files from scratch has.\<close>

theorem scans_match_full_rebuild:
  assumes reach: "collector_reachable (ry_sha256 env) (ry_chrono env) s"
    and key: "rc_key s = Some (cc_codex_home (ry_config env), redact)" and r: "rc_reduced s = Some r"
    and plan: "set (rp_incomplete_counter_threads plan) = set (re_incomplete_counter_threads r)"
  defines "full \<equiv> reduce_cached_files env (parsed_of (rc_files s)) (List.map fst (rc_selected s)) plan"
  shows "re_threads r = re_threads full
    \<and> filter (\<lambda>c. uc_thread_id c = t) (rd_calls (re_dataset r)) = filter (\<lambda>c. uc_thread_id c = t) (rd_calls (re_dataset full))
    \<and> filter (\<lambda>ob. ro_thread_id ob = t) (rd_rate_observations (re_dataset r))
      = filter (\<lambda>ob. ro_thread_id ob = t) (rd_rate_observations (re_dataset full))"
proof -
  from reachable_ok [OF reach] key r have wf: "reduced_wf r"
    and view: "\<And>t. thread_view t r = full_view env (parsed_of (rc_files s)) (List.map fst (rc_selected s))
      (re_incomplete_counter_threads r) None t"
    by (auto simp: collector_ok_def collector_inv_def)
  have f: "reduced_wf full" "thread_view t full = thread_view t r" for t
    using reduce_cached_files_view [of env "parsed_of (rc_files s)" "List.map fst (rc_selected s)" plan None] view plan
    by (simp_all add: full_def reduce_cached_files_def full_view_def)
  have "re_threads r = re_threads full"
    by (rule bt_ext) (use wf f in \<open>auto simp: reduced_wf_def thread_view_def fun_eq_iff\<close>)
  with f(2) [of t] show ?thesis by (simp add: thread_view_def)
qed

section \<open>Calls belong to threads\<close>

lemma replay_view_sound: "view_sound t v \<Longrightarrow> view_sound t (replay_view env as_of inc t f v)"
proof -
  assume v: "view_sound t v"
  obtain previous calls obs where v': "v = (previous, calls, obs)" by (cases v)
  obtain p parsed where f: "f = (p, parsed)" by (cases f)
  obtain th d where r: "replay_owned env p parsed as_of inc t previous = (th, d)" by fastforce
  have "\<And>x. previous = Some x \<Longrightarrow> thread_wf t x" using v by (simp add: v' view_sound_def)
  from replay_owned_wf [OF this r] v show ?thesis
    by (auto simp: v' f r replay_view_def view_sound_def dataset_wf_def list_all_iff intro: in_thread_grows split: option.splits)
qed

lemma full_view_sound: "view_sound t (full_view env cache files inc as_of t)"
proof -
  have "view_sound t v \<Longrightarrow> view_sound t (fold (replay_view env as_of b t) fs v)" for b fs v
    by (induction fs arbitrary: v) (simp_all add: replay_view_sound)
  then show ?thesis by (simp add: full_view_def view_sound_def)
qed

lemma reduced_sound_of_views:
  assumes "reduced_wf r" "\<And>t. view_sound t (thread_view t r)"
  shows "reduced_sound r"
proof -
  have calls: "in_threads (re_threads r) (uc_thread_id c) (uc_turn_id c)" if "c \<in> set (rd_calls (re_dataset r))" for c
    using that assms(2) [of "uc_thread_id c"]
    by (auto simp: view_sound_def thread_view_def in_threads_def list_all_iff filter_empty_conv split: option.splits)
  have obs: "in_threads (re_threads r) (ro_thread_id ob) (ro_turn_id ob)" if "ob \<in> set (rd_rate_observations (re_dataset r))" for ob
    using that assms(2) [of "ro_thread_id ob"]
    by (auto simp: view_sound_def thread_view_def in_threads_def list_all_iff filter_empty_conv split: option.splits)
  show ?thesis using assms(1) calls obs by (simp add: reduced_sound_def list_all_iff)
qed

lemma reduction_sound: "reduced_sound (reduce_cached_files_inner env cache files plan as_of)"
  using reduce_cached_files_view full_view_sound by (metis reduced_sound_of_views)

text \<open>C7. In every reachable state all threads are well formed (turns under their identity, a completion
  time exactly on finished turns, active turns distinct, present and unfinished) and every call and
  observation belongs to a known thread and, when it names a turn, to a turn of that thread.\<close>

theorem collector_sound:
  fixes env :: replay_env
  assumes "collector_reachable (ry_sha256 env) (ry_chrono env) s"
    "rc_key s = Some (cc_codex_home (ry_config env), redact)" "rc_reduced s = Some r"
  shows "reduced_sound r"
proof (rule reduced_sound_of_views)
  from reachable_ok [OF assms(1)] assms(2,3) have "reduced_wf r"
    and view: "\<And>t. thread_view t r = full_view env (parsed_of (rc_files s)) (List.map fst (rc_selected s))
      (re_incomplete_counter_threads r) None t"
    by (auto simp: collector_ok_def collector_inv_def)
  then show "reduced_wf r" "\<And>t. view_sound t (thread_view t r)" by (simp_all add: full_view_sound)
qed

section \<open>A scan does not panic\<close>

lemma safe_files_insert: "safe_files rng m \<Longrightarrow> safe_log rng (cf_parsed c) \<Longrightarrow> safe_files rng (bt_insert p c m)"
  using set_bt_insert_subset [of p c m] by (auto simp: safe_files_def list_all_iff)

lemma safe_files_get: "safe_files rng m \<Longrightarrow> safe_previous rng (bt_get m p)"
  by (auto simp: safe_files_def safe_previous_def list_all_iff dest: bt_get_set split: option.split)

lemma load_persistent_safe:
  assumes "\<And>f. f \<in> set files \<Longrightarrow> safe_previous rng (persistent (rf_path f))" "safe_files rng m"
  shows "safe_files rng (load_persistent persistent files m)"
  using assms unfolding load_persistent_def
proof (induction files arbitrary: m)
  case (Cons f files)
  let ?m = "if bt_contains m (rf_path f) then m
    else case persistent (rf_path f) of Some c \<Rightarrow> bt_insert (rf_path f) c m | None \<Rightarrow> m"
  have "safe_files rng ?m"
    using Cons.prems(1) [of f] Cons.prems(2) by (auto simp: safe_previous_def intro: safe_files_insert split: option.split)
  from Cons.IH [OF _ this] Cons.prems(1) show ?case by simp
qed simp

lemma refresh_files_returns:
  assumes env: "safe_instants env" and m: "safe_files (pe_range env) m"
    and files: "\<And>f. f \<in> set files \<Longrightarrow> safe_instant (pe_range env) (rf_modified_at f) \<and> safe_io (pe_range env) (io (rf_path f))"
  shows "\<exists>m' x. refresh_files env io files m = Some (m', x) \<and> safe_files (pe_range env) m'"
proof -
  have "\<exists>m' x. fold (\<lambda>f acc. Option.bind acc (refresh_file env io f)) fs (Some (m, y)) = Some (m', x) \<and> safe_files (pe_range env) m'"
    if "set fs \<subseteq> set files" "safe_files (pe_range env) m" for fs m y
    using that
  proof (induction fs arbitrary: m y)
    case (Cons f fs)
    obtain threads paths reparsed where y: "y = (threads, paths, reparsed)" by (cases y)
    have f: "safe_instant (pe_range env) (rf_modified_at f)" "safe_io (pe_range env) (io (rf_path f))"
      using files Cons.prems(1) by auto
    obtain sp where sp: "refresh_stable_rollout_file env (io (rf_path f)) f (bt_get m (rf_path f)) = Some sp"
      "safe_log (pe_range env) (cf_parsed (sp_cached sp))"
      using refresh_returns [OF env f(1) safe_files_get [OF Cons.prems(2)] f(2)] by blast
    have rem: "safe_files (pe_range env) (bt_remove (rf_path f) m)"
      using Cons.prems(2) by (auto simp: safe_files_def list_all_iff bt_remove_def)
    have "\<exists>m1 y1. refresh_file env io f (m, y) = Some (m1, y1) \<and> safe_files (pe_range env) m1"
      using sp Cons.prems(2) safe_files_insert [OF rem sp(2)] by (auto simp: refresh_file_def y Let_def)
    with Cons show ?case by auto
  qed auto
  from this [OF _ m, of files] show ?thesis by (simp add: refresh_files_def)
qed

lemma scan_reduce_returns:
  assumes r: "refresh_files (ce_parse env) (si_io inp) (sort_key rf_path (si_files inp))
      (load_persistent (si_persistent inp) (sort_key rf_path (si_files inp)) (rc_files s)) = Some (m, x)"
    and m: "safe_files rng m"
  shows "\<exists>s1 files rebuilt. scan_reduce env inp s = Some (s1, files, rebuilt) \<and> safe_files rng (rc_files s1) \<and> rc_reduced s1 \<noteq> None"
proof -
  obtain threads paths reparsed where x: "x = (threads, paths, reparsed)" by (cases x)
  let ?files = "sort_rollout_files_for_replay (parsed_of m) (List.map rf_path (sort_key rf_path (si_files inp)))"
  obtain plan probes where p: "build_replay_plan (si_order inp) (si_probe inp) (ry_config (ce_replay env)) (parsed_of m)
      (si_discovery_cache inp) ?files None (rc_omitted_owner_probes s) = (plan, probes)" by fastforce
  obtain threads' paths' where c: "mark_selection m (rc_selected s) (selected_of m ?files) (threads, paths) = (threads', paths')"
    by fastforce
  have "safe_files rng (filter (\<lambda>(p, _). p \<in> set ?files) m)" using m by (auto simp: safe_files_def list_all_iff)
  with r x p c show ?thesis unfolding scan_reduce_def Let_def by simp
qed

lemma scan_publish_returns:
  assumes "rc_reduced s \<noteq> None"
  shows "\<exists>s' res. scan_publish env inp now force coalesce ext files rebuilt s = Some (s', res)"
proof -
  have "\<exists>s' res. scan_materialize env inp now files rebuilt ledger s1 = Some (s', res)" if "rc_reduced s1 \<noteq> None" for ledger s1
  proof -
    obtain boundary s2 where r: "refresh_as_of env inp now files rebuilt s1 = (boundary, s2)" by fastforce
    then have "rc_reduced s2 = rc_reduced s1"
      by (auto simp: refresh_as_of_def Let_def split: if_splits prod.splits)
    with that obtain z where "opt_or (rc_as_of_reduced s2) (rc_reduced s2) = Some z" by (cases "rc_as_of_reduced s2") (auto simp: opt_or_def)
    with r show ?thesis by (simp add: scan_materialize_def Let_def split: sum.split)
  qed
  with assms show ?thesis by (auto simp: scan_publish_def Let_def split: sum.split)
qed

lemma scan_returns_safe:
  assumes env: "safe_instants (ce_parse env)" and inp: "safe_input (pe_range (ce_parse env)) inp"
    and s: "safe_files (pe_range (ce_parse env)) (rc_files s)"
  shows "\<exists>s' res. scan_inner env inp now force coalesce ext s = Some (s', res)
    \<and> safe_files (pe_range (ce_parse env)) (rc_files s') \<and> rc_reduced s' \<noteq> None"
proof -
  let ?rng = "pe_range (ce_parse env)" and ?files = "sort_key rf_path (si_files inp)"
  let ?s = "(reset_for_key (ry_config (ce_replay env)) s)\<lparr>rc_last_external_materialized_at := Some now,
    rc_next_external_evidence_boundary := ext\<rparr>"
  have s0: "safe_files ?rng (rc_files ?s)"
    using s by (simp add: reset_for_key_def Let_def safe_files_def rollout_cache_default_def)
  have "safe_files ?rng (load_persistent (si_persistent inp) ?files (rc_files ?s))"
    using inp s0 by (intro load_persistent_safe) (auto simp: safe_input_def list_all_iff)
  from refresh_files_returns [OF env this, of ?files "si_io inp"] inp obtain m x where
    "refresh_files (ce_parse env) (si_io inp) ?files (load_persistent (si_persistent inp) ?files (rc_files ?s)) = Some (m, x)"
    "safe_files ?rng m" by (auto simp: safe_input_def list_all_iff)
  then obtain s1 files rebuilt where r: "scan_reduce env inp ?s = Some (s1, files, rebuilt)"
    "safe_files ?rng (rc_files s1)" "rc_reduced s1 \<noteq> None"
    using scan_reduce_returns [where s = ?s] by blast
  from scan_publish_returns [OF r(3)] obtain s' res where
    p: "scan_publish env inp now force coalesce (external_boundary_changed (reset_for_key (ry_config (ce_replay env)) s) now)
      files rebuilt s1 = Some (s', res)" by blast
  with r scan_publish_keeps [OF p] show ?thesis by (simp add: scan_inner_def Let_def)
qed

text \<open>C19. While every parsed instant and every file time lies at least two seconds after the earliest
  representable one, no sequence of scans panics, and each leaves a reduction.\<close>

theorem scans_return:
  assumes "safe_instants (ce_parse env)" "list_all (\<lambda>(inp, _). safe_input (pe_range (ce_parse env)) inp) calls"
    "safe_files (pe_range (ce_parse env)) (rc_files s)"
  shows "\<exists>s'. scan_all env calls s = Some s' \<and> safe_files (pe_range (ce_parse env)) (rc_files s')
    \<and> (calls = [] \<or> rc_reduced s' \<noteq> None)"
  using assms(2,3)
proof (induction calls arbitrary: s)
  case (Cons call calls)
  obtain inp now force coalesce ext where c: "call = (inp, now, force, coalesce, ext)" by (cases call)
  obtain s1 res where s1: "scan_inner env inp now force coalesce ext s = Some (s1, res)"
    "safe_files (pe_range (ce_parse env)) (rc_files s1)" "rc_reduced s1 \<noteq> None"
    using scan_returns_safe [OF assms(1) _ Cons.prems(2), of inp now force coalesce ext] Cons.prems(1) by (auto simp: c)
  from Cons.IH [OF _ s1(2)] Cons.prems(1) obtain s' where "scan_all env calls s1 = Some s'"
    "safe_files (pe_range (ce_parse env)) (rc_files s')" "calls = [] \<or> rc_reduced s' \<noteq> None" by auto
  with s1 show ?case by (cases calls) (simp_all add: c)
qed simp

section \<open>An example scan\<close>

lemma example_input_safe:
  "safe_instants (ce_parse (example_collector redact))" "safe_input (pe_range (ce_parse (example_collector redact))) example_input"
  "safe_files rng (rc_files rollout_cache_default)"
  using example_safe by (simp_all add: example_collector_def example_input_def safe_input_def safe_previous_def
      rollout_cache_default_def safe_files_def)

theorem scans_return_witness:
  "\<exists>s'. scan_all (example_collector True) [(example_input, 5, True, False, None), (example_input, 6, False, True, Some 9)]
      rollout_cache_default = Some s' \<and> rc_reduced s' \<noteq> None"
  using scans_return [where env = "example_collector True"
      and calls = "[(example_input, 5, True, False, None), (example_input, 6, False, True, Some 9)]",
      OF example_input_safe(1) _ example_input_safe(3)] example_input_safe(2) by auto

lemma example_scan:
  obtains res where "scan_inner (example_collector False) example_input 5 True False None rollout_cache_default = Some (example_state, res)"
    "rc_reduced example_state \<noteq> None"
proof -
  have "\<exists>s' res. scan_inner (example_collector False) example_input 5 True False None rollout_cache_default = Some (s', res)
      \<and> safe_files (pe_range (ce_parse (example_collector False))) (rc_files s') \<and> rc_reduced s' \<noteq> None"
    by (rule scan_returns_safe [OF example_input_safe])
  then show ?thesis using that by (auto simp: example_state_def)
qed

lemma example_reachable:
  "collector_reachable (ry_sha256 (example_replay_env False)) (ry_chrono (example_replay_env False)) example_state"
  "rc_key example_state = Some (cc_codex_home (ry_config (example_replay_env False)), False)"
  "\<exists>r. rc_reduced example_state = Some r"
proof -
  obtain res where s: "scan_inner (example_collector False) example_input 5 True False None rollout_cache_default
      = Some (example_state, res)" "rc_reduced example_state \<noteq> None" by (rule example_scan)
  show "collector_reachable (ry_sha256 (example_replay_env False)) (ry_chrono (example_replay_env False)) example_state"
    by (rule collector_scan [OF collector_start _ _ s(1)]) (simp_all add: example_collector_def)
  have "collector_inv (ce_replay (example_collector False))
      (reset_for_key (ry_config (ce_replay (example_collector False))) rollout_cache_default)"
    by (simp add: reset_for_key_def collector_inv_def rollout_cache_default_def)
  from scan_inner_key(2) [OF s(1) this]
  show "rc_key example_state = Some (cc_codex_home (ry_config (example_replay_env False)), False)"
    by (simp add: example_collector_def example_replay_env_def)
  show "\<exists>r. rc_reduced example_state = Some r" using s(2) by auto
qed

lemma example_reduced: "rc_reduced example_state = Some example_reduced"
  using example_reachable(3) by (auto simp: example_reduced_def)

theorem scans_match_full_rebuild_witness:
  "re_threads example_reduced = re_threads (reduce_cached_files (example_replay_env False)
      (parsed_of (rc_files example_state)) (List.map fst (rc_selected example_state)) example_plan)"
  using scans_match_full_rebuild [OF example_reachable(1,2) example_reduced, where plan = example_plan and t = "''t''"]
  by (simp add: example_plan_def)

theorem collector_sound_witness: "reduced_sound example_reduced"
  by (rule collector_sound [OF example_reachable(1,2) example_reduced])

end
