(* ===== verification/Rollout_Dataset_Safety.thy ===== *)
theory Rollout_Dataset_Safety
  imports Rollout_Scan_Safety
begin

text \<open>
  Properties of the materialized dataset: it shows nothing later than its instant, counts every
  native request once, conserves the tokens of each thread and respects redaction.
\<close>

section \<open>Specification\<close>

definition permutes :: "(string list \<Rightarrow> string list) \<Rightarrow> bool" where
  "permutes order = (\<forall>ks. mset (order ks) = mset ks)"

definition turn_before :: "datetime \<Rightarrow> turn_builder \<Rightarrow> bool" where
  "turn_before now t = (not_after now (tu_started_at t) \<and> not_after now (tu_completed_at t))"

definition thread_before :: "datetime \<Rightarrow> thread_builder \<Rightarrow> bool" where
  "thread_before now th = (not_after now (tb_created_at th) \<and> not_after now (tb_updated_at th)
     \<and> list_all (\<lambda>(_, t). turn_before now t) (tb_turns th))"

definition disagree :: "usage_call list \<Rightarrow> string \<Rightarrow> bool" where
  "disagree calls k = (\<exists>a\<in>set calls. \<exists>b\<in>set calls. native_id a = Some k \<and> native_id b = Some k \<and> native_value a \<noteq> native_value b)"

definition latest_native :: "usage_call list \<Rightarrow> string \<Rightarrow> (token_usage \<times> string option) option" where
  "latest_native cs k = (case rev (filter (\<lambda>c. native_id c = Some k) cs) of [] \<Rightarrow> None | c # _ \<Rightarrow> Some (native_value c))"

text \<open>The calls a view shows before they are sorted.\<close>

definition shown_calls :: "datetime \<Rightarrow> (string, thread_builder) btree \<Rightarrow> usage_call list \<Rightarrow> usage_call list" where
  "shown_calls now threads calls =
    (let visible = filter (\<lambda>c. uc_timestamp c \<le> now) calls
     in List.map (complete_native threads) (retain_native (native_conflicts visible) [] visible))"

definition shown_threads ::
  "(string list \<Rightarrow> string list) \<Rightarrow> datetime \<Rightarrow> (string, thread_builder) btree \<Rightarrow> usage_call list \<Rightarrow> (string, thread_builder) btree" where
  "shown_threads order now threads calls = visible_threads_of order now (shown_calls now threads calls) threads"

text \<open>A dataset that shows nothing later than \<open>now\<close>.\<close>

definition dataset_before :: "datetime \<Rightarrow> rollout_dataset \<Rightarrow> bool" where
  "dataset_before now d =
    (list_all (\<lambda>c. uc_timestamp c \<le> now) (rd_calls d) \<and> list_all (\<lambda>ob. ro_timestamp ob \<le> now) (rd_rate_observations d)
     \<and> list_all (\<lambda>x. not_after now (ai_requested_at x) \<and> not_after now (ai_occurred_at x)) (rd_agent_interactions d)
     \<and> list_all (\<lambda>t. not_after now (tn_started_at t) \<and> not_after now (tn_completed_at t)) (rd_turns d)
     \<and> list_all (\<lambda>t. not_after now (tr_created_at t) \<and> not_after now (tr_updated_at t)) (rd_tasks d))"

definition saturated :: "nat \<Rightarrow> nat" where
  "saturated n = min n (2 ^ 64 - 1)"

definition thread_tokens :: "usage_call list \<Rightarrow> string \<Rightarrow> nat" where
  "thread_tokens calls t = sum_list (List.map (\<lambda>c. unat (total_tokens (uc_tokens c))) (filter (\<lambda>c. uc_thread_id c = t) calls))"

text \<open>A thread without text of its user.\<close>

definition silent_thread :: "thread_builder \<Rightarrow> bool" where
  "silent_thread th = (tb_title th = None \<and> list_all (\<lambda>(k, t). tu_message_preview t = None) (tb_turns th))"

definition silent_threads :: "(string, thread_builder) btree \<Rightarrow> bool" where
  "silent_threads threads = list_all (\<lambda>(k, th). silent_thread th) threads"

definition example_cache :: file_cache where
  "example_cache = [([''home'', ''sessions'', ''log''], example_log True)]"

text \<open>A session whose counter is sampled twice: the log, what its parse gives, and the dataset of it.\<close>

definition usage_json :: "string \<Rightarrow> u64 \<Rightarrow> json" where
  "usage_json time n = JObject [(''payload'', JObject [(''info'', JObject [(''total_token_usage'',
       JObject [(''input_tokens'', JNumber (PosInt n)), (''total_tokens'', JNumber (PosInt n))])]),
       (''type'', JString ''token_count'')]), (''timestamp'', JString time), (''type'', JString ''event_msg'')]"

definition usage_env :: parse_env where
  "usage_env = (example_parse_env False)\<lparr>pe_from_slice := (\<lambda>line. if line = ''p'' then Some (usage_json ''ab'' 5)
     else if line = ''q'' then Some (usage_json ''abc'' 9) else example_json line)\<rparr>"

definition usage_log :: parsed_file where
  "usage_log = the (parse_rollout_file usage_env (Some (False, example_prefix @ ''p'' @ [LF] @ ''q'' @ [LF])))"

definition usage_parsed :: parsed_file where
  "usage_parsed = parsed_file_default\<lparr>pf_owner_thread_id := Some ''t'', pf_activity_updated_at := Some 3,
     pf_events := [SessionMeta 1 [], TokenCount 2 2 (Some (example_usage 5)) None None,
       TokenCount 3 3 (Some (example_usage 9)) None None],
     pf_parsed_lines := 3, pf_source_lines := 3, pf_owning_created_at := Some 1, pf_replay_started_at := Some 1,
     pf_replay_updated_at := Some 3, pf_complete := True, pf_replay_timestamps_complete := True\<rparr>"

definition usage_plan :: replay_plan where
  "usage_plan = \<lparr>rp_incomplete_counter_threads = [], rp_replay_order_warnings = [],
     rp_ambiguous_replay_orders = [], rp_suppressed_warnings = 0\<rparr>"

definition usage_reduced :: reduced_rollouts where
  "usage_reduced = reduce_cached_files_inner (example_replay_env False) [([''home'', ''sessions'', ''log''], usage_log)]
     [[''home'', ''sessions'', ''log'']] usage_plan None"

definition usage_result :: rollout_dataset where
  "usage_result = materialize_dataset (example_replay_env False) (\<lambda>ks. ks) 0 5 [] usage_reduced rollout_dataset_default 0"

section \<open>Nothing later than the view\<close>

lemma not_after_simps [simp]: "not_after now None" "not_after now (Some t) \<longleftrightarrow> t \<le> now"
  by (simp_all add: not_after_def)

lemma not_after_filter [simp]: "not_after now (opt_filter (\<lambda>t. t \<le> now) x)"
  by (cases x) (simp_all add: opt_filter_def)

lemma set_max_opt_not_after: "not_after now a \<Longrightarrow> not_after now b \<Longrightarrow> not_after now (set_max_opt a b)"
  by (cases a; cases b) (auto simp: set_max_opt_def set_max_timestamp_def)

lemma fold_not_after:
  "(\<And>x u. x \<in> set xs \<Longrightarrow> not_after now u \<Longrightarrow> not_after now (f x u)) \<Longrightarrow> not_after now u \<Longrightarrow> not_after now (fold f xs u)"
  by (induction xs arbitrary: u) auto

lemma view_turn_not_after:
  assumes "turn_visible tid now usage t"
  shows "not_after now (tu_started_at (view_turn tid now usage t)) \<and> not_after now (tu_completed_at (view_turn tid now usage t))"
  using assms by (auto simp: turn_visible_def view_turn_def Let_def not_after_def after_def split: option.splits)

lemma permutes_set: "permutes order \<Longrightarrow> set (order ks) = set ks"
  by (metis permutes_def set_mset_mset)

lemma hash_values_member: "permutes order \<Longrightarrow> x \<in> set (hash_values order m) \<Longrightarrow> \<exists>k. (k, x) \<in> set m"
  by (auto simp: hash_values_def permutes_set bt_keys_def) (metis bt_get_None_iff bt_get_SomeD fst_conv image_eqI not_None_eq option.sel)

lemma materialize_thread_before:
  assumes order: "permutes order" and call: "not_after now latest_call"
    and v: "materialize_thread_as_of order th now usage by_turn latest_call = Some v"
  shows "thread_before now v"
proof -
  let ?shown = "filter (\<lambda>(_, t). turn_visible (tb_thread_id th) now by_turn t) (tb_turns th)"
  let ?turns = "List.map (\<lambda>(k, t). (k, view_turn (tb_thread_id th) now by_turn t)) ?shown"
  let ?calls = "filter (\<lambda>c. not_after now (ac_requested_at c)) (tb_agent_calls th)"
  let ?acts = "filter (\<lambda>a. not_after now (aa_occurred_at a)) (tb_agent_activities th)"
  have all: "list_all (\<lambda>(_, t). turn_before now t) ?turns"
    using view_turn_not_after by (auto simp: list_all_iff turn_before_def)
  then have turns: "turn_before now t" if "(k, t) \<in> set ?turns" for k t
    using that unfolding list_all_iff by blast
  let ?u0 = "set_max_opt latest_call (set_max_opt (opt_filter (\<lambda>t. t \<le> now) (tb_created_at th)) (opt_filter (\<lambda>t. t \<le> now) (tb_updated_at th)))"
  let ?u1 = "fold (\<lambda>t u. set_max_opt (tu_completed_at t) (set_max_opt (tu_started_at t) u)) (hash_values order ?turns) ?u0"
  let ?u2 = "fold (\<lambda>c. set_max_opt (ac_requested_at c)) ?calls ?u1"
  let ?u3 = "fold (\<lambda>a. set_max_opt (aa_occurred_at a)) ?acts ?u2"
  have u1: "not_after now ?u1"
  proof (rule fold_not_after)
    fix t u assume t: "t \<in> set (hash_values order ?turns)" "not_after now u"
    obtain k where "(k, t) \<in> set ?turns" using hash_values_member [OF order t(1)] ..
    from turns [OF this] t(2) show "not_after now (set_max_opt (tu_completed_at t) (set_max_opt (tu_started_at t) u))"
      by (auto simp: turn_before_def intro!: set_max_opt_not_after)
  qed (intro set_max_opt_not_after call not_after_filter)
  have u2: "not_after now ?u2" by (rule fold_not_after [OF _ u1]) (simp add: set_max_opt_not_after)
  have u3: "not_after now ?u3" by (rule fold_not_after [OF _ u2]) (simp add: set_max_opt_not_after)
  have v': "tb_created_at v = opt_filter (\<lambda>t. t \<le> now) (tb_created_at th)" "tb_updated_at v = ?u3" "tb_turns v = ?turns"
    using v unfolding materialize_thread_as_of_def Let_def
    by (auto split: if_splits)
  show ?thesis unfolding thread_before_def v' using u3 all by (intro conjI not_after_filter)
qed

lemma fold_update_max_not_after:
  assumes "\<And>c. c \<in> set calls \<Longrightarrow> uc_timestamp c \<le> now"
  shows "not_after now (bt_get (latest_call_by_thread calls) t)"
proof -
  have "bt_wf m \<Longrightarrow> (\<forall>t. not_after now (bt_get m t)) \<Longrightarrow> (\<And>c. c \<in> set cs \<Longrightarrow> uc_timestamp c \<le> now)
      \<Longrightarrow> not_after now (bt_get (fold (\<lambda>c. bt_update (uc_thread_id c) (uc_timestamp c) (\<lambda>t. max t (uc_timestamp c))) cs m) t)" for cs m
  proof (induction cs arbitrary: m)
    case (Cons c cs)
    let ?m = "bt_update (uc_thread_id c) (uc_timestamp c) (\<lambda>t. max t (uc_timestamp c)) m"
    have "bt_wf ?m" "\<forall>t. not_after now (bt_get ?m t)"
      using Cons.prems by (auto simp: bt_wf_update bt_get_update not_after_def split: option.splits)
    with Cons show ?case by simp
  qed simp
  from this [of "[]" calls] assms show ?thesis by (simp add: latest_call_by_thread_def)
qed

lemma visible_threads_before:
  assumes "permutes order" "\<And>c. c \<in> set calls \<Longrightarrow> uc_timestamp c \<le> now"
    "(k, v) \<in> set (visible_threads_of order now calls threads)"
  shows "thread_before now v"
  using assms materialize_thread_before [OF assms(1) fold_update_max_not_after [OF assms(2)]]
  by (auto simp: visible_threads_of_def List.map_filter_def)

section \<open>Native requests are counted once\<close>

lemma native_id_complete [simp]: "native_id (complete_native threads c) = native_id c"
  "uc_timestamp (complete_native threads c) = uc_timestamp c" "uc_tokens (complete_native threads c) = uc_tokens c"
  "uc_thread_id (complete_native threads c) = uc_thread_id c" "uc_turn_id (complete_native threads c) = uc_turn_id c"
  by (auto simp: complete_native_def native_id_def split: option.splits)

lemma retain_native_subset: "set (retain_native conflicts seen calls) \<subseteq> set calls"
  by (induction conflicts seen calls rule: retain_native.induct) (auto split: option.splits)

lemma retain_native_ids:
  "distinct (List.map_filter native_id (retain_native conflicts seen calls))
    \<and> set (List.map_filter native_id (retain_native conflicts seen calls))
      = set (List.map_filter native_id calls) - set conflicts - set seen"
  by (induction conflicts seen calls rule: retain_native.induct)
    (auto simp: List.map_filter_simps split: option.splits)

lemma retain_native_others:
  "filter (\<lambda>c. native_id c = None) (retain_native conflicts seen calls) = filter (\<lambda>c. native_id c = None) calls"
  by (induction conflicts seen calls rule: retain_native.induct) (auto split: option.splits)

lemma disagree_snoc:
  "disagree (cs @ [c]) k \<longleftrightarrow> disagree cs k
    \<or> (native_id c = Some k \<and> (\<exists>a\<in>set cs. native_id a = Some k \<and> native_value a \<noteq> native_value c))"
proof
  assume "disagree (cs @ [c]) k"
  then obtain a b where ab: "a \<in> set cs \<or> a = c" "b \<in> set cs \<or> b = c" "native_id a = Some k" "native_id b = Some k"
    "native_value a \<noteq> native_value b" by (auto simp: disagree_def)
  show "disagree cs k
    \<or> (native_id c = Some k \<and> (\<exists>a\<in>set cs. native_id a = Some k \<and> native_value a \<noteq> native_value c))"
  proof (cases "a \<in> set cs \<and> b \<in> set cs")
    case True
    with ab(3-5) show ?thesis unfolding disagree_def by blast
  next
    case False
    with ab have "(a = c \<and> b \<in> set cs) \<or> (a \<in> set cs \<and> b = c)" by blast
    with ab(3-5) show ?thesis by metis
  qed
qed (unfold disagree_def set_append list.set, metis Un_iff insertI1)

lemma latest_native_simps [simp]:
  "latest_native [] k = None"
  "latest_native (cs @ [c]) k = (if native_id c = Some k then Some (native_value c) else latest_native cs k)"
  by (simp_all add: latest_native_def)

lemma latest_native_member:
  "latest_native cs k = Some v \<Longrightarrow> \<exists>a\<in>set cs. native_id a = Some k \<and> native_value a = v"
  by (induction cs rule: rev_induct) (auto split: if_splits)

lemma latest_native_None: "latest_native cs k = None \<Longrightarrow> a \<in> set cs \<Longrightarrow> native_id a \<noteq> Some k"
  by (induction cs rule: rev_induct) (auto split: if_splits)

lemma native_fold:
  "bt_wf (fst (fold native_step cs ([], []))) \<and> (\<forall>k. bt_get (fst (fold native_step cs ([], []))) k = latest_native cs k)
    \<and> (\<forall>k. k \<in> set (snd (fold native_step cs ([], []))) \<longleftrightarrow> disagree cs k)"
proof (induction cs rule: rev_induct)
  case Nil
  show ?case by (simp add: disagree_def)
next
  case (snoc c cs)
  obtain ids conf where f: "fold native_step cs ([], []) = (ids, conf)" by fastforce
  show ?case
  proof (cases "native_id c")
    case None
    with snoc f show ?thesis by (simp add: native_step_def disagree_snoc)
  next
    case (Some j)
    have ids: "bt_wf ids" "\<And>k. bt_get ids k = latest_native cs k" "\<And>k. k \<in> set conf \<longleftrightarrow> disagree cs k" using snoc f by auto
    have "disagree (cs @ [c]) k \<longleftrightarrow> disagree cs k
        \<or> (k = j \<and> (case latest_native cs j of None \<Rightarrow> False | Some v \<Rightarrow> v \<noteq> native_value c))" for k
    proof (cases "latest_native cs j")
      case None
      with Some show ?thesis using latest_native_None [OF None] by (auto simp: disagree_snoc)
    next
      case (Some v)
      obtain a where a: "a \<in> set cs" "native_id a = Some j" "native_value a = v"
        using latest_native_member [OF Some] by blast
      have "(\<exists>b\<in>set cs. native_id b = Some j \<and> native_value b \<noteq> native_value c)
          \<longleftrightarrow> v \<noteq> native_value c \<or> (\<exists>b\<in>set cs. native_id b = Some j \<and> native_value b \<noteq> native_value c \<and> disagree cs j)"
        using a unfolding disagree_def by metis
      then show ?thesis using Some \<open>native_id c = Some j\<close> by (simp add: disagree_snoc) blast
    qed
    moreover have "fold native_step (cs @ [c]) ([], []) = (bt_insert j (native_value c) ids,
        case latest_native cs j of None \<Rightarrow> conf
        | Some previous \<Rightarrow> if previous \<noteq> native_value c then List.insert j conf else conf)"
      using f Some ids(2) by (simp add: native_step_def [of c])
    ultimately show ?thesis
      using Some ids by (auto simp: bt_wf_insert bt_get_insert split: option.splits)
  qed
qed

lemma native_conflicts_iff: "k \<in> set (native_conflicts calls) \<longleftrightarrow> disagree calls k"
  using native_fold by (simp add: native_conflicts_def)

section \<open>The dataset\<close>

lemma dedup_fields [simp]:
  "rd_calls (deduplicate_native_calls order threads d)
    = List.map (complete_native threads) (retain_native (native_conflicts (rd_calls d)) [] (rd_calls d))"
  "rd_rate_observations (deduplicate_native_calls order threads d) = rd_rate_observations d"
  "rd_agent_interactions (deduplicate_native_calls order threads d) = rd_agent_interactions d"
  "rd_turns (deduplicate_native_calls order threads d) = rd_turns d"
  "rd_tasks (deduplicate_native_calls order threads d) = rd_tasks d"
proof -
  let ?w = "\<lambda>k d. count_ambiguous (push_replay_warning (ConflictingRequest k) d)"
  have "rd_calls (fold ?w ks x) = rd_calls x \<and> rd_rate_observations (fold ?w ks x) = rd_rate_observations x
      \<and> rd_agent_interactions (fold ?w ks x) = rd_agent_interactions x \<and> rd_turns (fold ?w ks x) = rd_turns x
      \<and> rd_tasks (fold ?w ks x) = rd_tasks x" for ks x
    by (induction ks arbitrary: x) (simp_all add: count_ambiguous_def push_replay_warning_def)
  then show "rd_calls (deduplicate_native_calls order threads d)
      = List.map (complete_native threads) (retain_native (native_conflicts (rd_calls d)) [] (rd_calls d))"
    "rd_rate_observations (deduplicate_native_calls order threads d) = rd_rate_observations d"
    "rd_agent_interactions (deduplicate_native_calls order threads d) = rd_agent_interactions d"
    "rd_turns (deduplicate_native_calls order threads d) = rd_turns d"
    "rd_tasks (deduplicate_native_calls order threads d) = rd_tasks d"
    by (simp_all add: deduplicate_native_calls_def Let_def)
qed

lemma hide_call_turn_keeps [simp]:
  "uc_timestamp (hide_call_turn vis c) = uc_timestamp c" "uc_thread_id (hide_call_turn vis c) = uc_thread_id c"
  "uc_tokens (hide_call_turn vis c) = uc_tokens c" "native_id (hide_call_turn vis c) = native_id c"
  by (simp_all add: hide_call_turn_def native_id_def)

lemma hide_observation_turn_keeps [simp]: "ro_timestamp (hide_observation_turn vis ob) = ro_timestamp ob"
  by (simp add: hide_observation_turn_def)

lemma finish_dataset_calls:
  "mset (rd_calls (finish_dataset env order min_time now threads titles d))
    = mset (List.map (hide_call_turn (shown_threads order now threads (rd_calls d))) (shown_calls now threads (rd_calls d)))"
  by (simp add: finish_dataset_def Let_def shown_calls_def shown_threads_def)

lemma finish_dataset_tasks:
  "mset (rd_tasks (finish_dataset env order min_time now threads titles d)) = mset (rd_tasks d)
    + mset (List.map (\<lambda>th. task_record_of env order min_time now titles (tb_active_turn_ids th \<noteq> []
        \<and> timestamp_is_fresh (tb_updated_at th) now (cc_active_grace (ry_config env))) th)
      (hash_values order (shown_threads order now threads (rd_calls d))))"
  by (simp add: finish_dataset_def Let_def shown_calls_def shown_threads_def)

lemma finish_dataset_turns:
  "mset (rd_turns (finish_dataset env order min_time now threads titles d)) = mset (rd_turns d)
    + mset (concat (List.map (\<lambda>th. List.map (turn_record_of th (tb_active_turn_ids th \<noteq> []
        \<and> timestamp_is_fresh (tb_updated_at th) now (cc_active_grace (ry_config env)))) (hash_values order (tb_turns th)))
      (hash_values order (shown_threads order now threads (rd_calls d)))))"
  by (simp add: finish_dataset_def Let_def shown_calls_def shown_threads_def)

lemma shown_calls_before: "c \<in> set (shown_calls now threads calls) \<Longrightarrow> uc_timestamp c \<le> now"
  using retain_native_subset by (fastforce simp: shown_calls_def Let_def)

lemma shown_threads_before:
  assumes "permutes order" "th \<in> set (hash_values order (shown_threads order now threads calls))"
  shows "thread_before now th"
proof -
  obtain k where "(k, th) \<in> set (visible_threads_of order now (shown_calls now threads calls) threads)"
    using hash_values_member [OF assms] by (auto simp: shown_threads_def)
  from visible_threads_before [OF assms(1) _ this] shown_calls_before show ?thesis by blast
qed

lemma turn_of_thread_before:
  "permutes order \<Longrightarrow> thread_before now th \<Longrightarrow> t \<in> set (hash_values order (tb_turns th)) \<Longrightarrow> turn_before now t"
  using hash_values_member [of order t "tb_turns th"] by (auto simp: thread_before_def list_all_iff)

lemma finish_dataset_before:
  assumes order: "permutes order" and d: "rd_turns d = []" "rd_tasks d = []"
  shows "dataset_before now (finish_dataset env order min_time now threads titles d)" (is "dataset_before now ?d")
proof -
  have calls: "uc_timestamp c \<le> now" if "c \<in> set (rd_calls ?d)" for c
    using that shown_calls_before arg_cong [OF finish_dataset_calls, of set_mset] by fastforce
  have obs: "list_all (\<lambda>ob. ro_timestamp ob \<le> now) (rd_rate_observations ?d)"
    by (auto simp: finish_dataset_def Let_def list_all_iff)
  have ai: "list_all (\<lambda>x. not_after now (ai_requested_at x) \<and> not_after now (ai_occurred_at x)) (rd_agent_interactions ?d)"
    by (auto simp: finish_dataset_def Let_def list_all_iff)
  have turns: "not_after now (tn_started_at t) \<and> not_after now (tn_completed_at t)" if "t \<in> set (rd_turns ?d)" for t
  proof -
    from that arg_cong [OF finish_dataset_turns, of set_mset] d obtain th x b where
      "th \<in> set (hash_values order (shown_threads order now threads (rd_calls d)))" "x \<in> set (hash_values order (tb_turns th))"
      "t = turn_record_of th b x" by auto
    then show ?thesis using turn_of_thread_before [OF order shown_threads_before [OF order]]
      by (auto simp: turn_record_of_def turn_before_def)
  qed
  have tasks: "not_after now (tr_created_at t) \<and> not_after now (tr_updated_at t)" if "t \<in> set (rd_tasks ?d)" for t
  proof -
    from that arg_cong [OF finish_dataset_tasks, of set_mset] d obtain th b where
      "th \<in> set (hash_values order (shown_threads order now threads (rd_calls d)))"
      "t = task_record_of env order min_time now titles b th" by auto
    then show ?thesis using shown_threads_before [OF order]
      by (auto simp: task_record_of_def thread_before_def Let_def split: prod.splits)
  qed
  show ?thesis using calls obs ai turns tasks by (simp add: dataset_before_def list_all_iff)
qed

section \<open>Native requests of a dataset\<close>

lemma map_filter_mset: "mset (List.map_filter f xs) = image_mset (\<lambda>x. the (f x)) (filter_mset (\<lambda>x. f x \<noteq> None) (mset xs))"
  by (induction xs) (auto simp: List.map_filter_simps split: option.split)

lemma map_filter_map: "List.map_filter f (List.map g xs) = List.map_filter (\<lambda>x. f (g x)) xs"
  by (induction xs) (auto simp: List.map_filter_simps split: option.split)

lemma finish_dataset_native_ids:
  "mset (List.map_filter native_id (rd_calls (finish_dataset env order min_time now threads titles d)))
    = mset (List.map_filter native_id (retain_native (native_conflicts (filter (\<lambda>c. uc_timestamp c \<le> now) (rd_calls d))) []
        (filter (\<lambda>c. uc_timestamp c \<le> now) (rd_calls d))))"
  unfolding map_filter_mset [of native_id "rd_calls (finish_dataset _ _ _ _ _ _ _)"] finish_dataset_calls
  unfolding map_filter_mset [symmetric] by (simp add: map_filter_map shown_calls_def Let_def)

text \<open>C5. Of the calls with a native request identity a dataset shows each identity at most once, and shows
  it exactly when a visible call has it and no two visible calls with it disagree in tokens or turn; the
  other calls are kept as they are.\<close>

theorem native_requests_counted_once:
  fixes env :: replay_env and d :: rollout_dataset and now :: datetime and order min_time threads titles
  defines "visible \<equiv> filter (\<lambda>c. uc_timestamp c \<le> now) (rd_calls d)"
    and "result \<equiv> rd_calls (finish_dataset env order min_time now threads titles d)"
  shows "distinct (List.map_filter native_id result)
    \<and> set (List.map_filter native_id result) = {k \<in> set (List.map_filter native_id visible). \<not> disagree visible k}
    \<and> length (filter (\<lambda>c. native_id c = None) result) = length (filter (\<lambda>c. native_id c = None) visible)"
proof -
  have ids: "mset (List.map_filter native_id result)
      = mset (List.map_filter native_id (retain_native (native_conflicts visible) [] visible))"
    unfolding result_def visible_def by (rule finish_dataset_native_ids)
  have "distinct (List.map_filter native_id result)"
    using retain_native_ids ids by (metis mset_eq_imp_distinct_iff)
  moreover have "set (List.map_filter native_id result) = {k \<in> set (List.map_filter native_id visible). \<not> disagree visible k}"
    using retain_native_ids [of "native_conflicts visible" "[]" visible] native_conflicts_iff [of _ visible] mset_eq_setD [OF ids] by auto
  moreover have "length (filter (\<lambda>c. native_id c = None) result) = length (filter (\<lambda>c. native_id c = None) visible)"
  proof -
    have "length (filter (\<lambda>c. native_id c = None) result) = size (filter_mset (\<lambda>c. native_id c = None) (mset result))"
      by (metis mset_filter size_mset)
    also have "\<dots> = length (filter (\<lambda>c. native_id c = None) (retain_native (native_conflicts visible) [] visible))"
      unfolding result_def finish_dataset_calls
      by (simp add: shown_calls_def visible_def Let_def filter_map comp_def image_mset_filter_mset_swap [symmetric] filter_mset_image_mset)
        (metis mset_filter size_mset)
    finally show ?thesis by (simp add: retain_native_others)
  qed
  ultimately show ?thesis by blast
qed

section \<open>Tokens of a dataset\<close>

lemma saturated_add: "saturated (saturated a + b) = saturated (a + b)"
  by (simp add: saturated_def min_def)

lemma thread_tokens_mset:
  "mset calls = mset (List.map g cs) \<Longrightarrow> (\<And>c. uc_thread_id (g c) = uc_thread_id c \<and> uc_tokens (g c) = uc_tokens c)
    \<Longrightarrow> thread_tokens calls t = thread_tokens cs t"
proof -
  assume m: "mset calls = mset (List.map g cs)" and g: "\<And>c. uc_thread_id (g c) = uc_thread_id c \<and> uc_tokens (g c) = uc_tokens c"
  have eq: "thread_tokens xs t = sum_mset (image_mset (\<lambda>c. unat (total_tokens (uc_tokens c))) (filter_mset (\<lambda>c. uc_thread_id c = t) (mset xs)))" for xs
    by (simp add: thread_tokens_def sum_mset_sum_list [symmetric])
  show ?thesis unfolding eq [of calls] m unfolding eq [symmetric] using g by (simp add: thread_tokens_def filter_map comp_def)
qed

lemma usage_by_thread_total:
  "unat (total_tokens (case bt_get (usage_by_thread calls) t of Some u \<Rightarrow> u | None \<Rightarrow> token_usage_default))
    = saturated (thread_tokens calls t)"
proof -
  let ?g = "\<lambda>c. bt_update (uc_thread_id c) token_usage_default (\<lambda>u. token_add_assign u (uc_tokens c))"
  let ?v = "\<lambda>m. unat (total_tokens (case bt_get m t of Some u \<Rightarrow> u | None \<Rightarrow> token_usage_default))"
  have "bt_wf m \<Longrightarrow> ?v (fold ?g cs m) = saturated (?v m + thread_tokens cs t)" for cs m
  proof (induction cs arbitrary: m)
    case Nil
    have "?v m < 2 ^ 64" using unat_bound [where 'a = 64] by simp
    then show ?case by (simp add: thread_tokens_def saturated_def)
  next
    case (Cons c cs)
    have "bt_wf (?g c m)" using Cons.prems by (simp add: bt_wf_update)
    moreover have "?v (?g c m) = (if uc_thread_id c = t then saturated (?v m + unat (total_tokens (uc_tokens c))) else ?v m)"
      using Cons.prems by (simp add: bt_get_update token_add_assign_def unat_sat_add saturated_def)
    moreover have "thread_tokens (c # cs) t = (if uc_thread_id c = t then unat (total_tokens (uc_tokens c)) else 0) + thread_tokens cs t"
      by (simp add: thread_tokens_def)
    ultimately show ?case using Cons.IH [of "?g c m"] by (simp add: saturated_add add.assoc)
  qed
  from this [of "[]" calls] show ?thesis by (simp add: usage_by_thread_def token_usage_default_def)
qed

lemma materialize_thread_shown:
  assumes "latest_call \<noteq> None"
  shows "materialize_thread_as_of order th now usage by_turn latest_call \<noteq> None"
proof -
  have some: "set_max_opt a b \<noteq> None" if "a \<noteq> None \<or> b \<noteq> None" for a b
    using that by (cases a; cases b) (auto simp: set_max_opt_def set_max_timestamp_def)
  have fold_some: "fold f xs u \<noteq> None" if "\<And>x u. u \<noteq> None \<Longrightarrow> f x u \<noteq> None" "u \<noteq> None"
    for f :: "'x \<Rightarrow> datetime option \<Rightarrow> datetime option" and xs u
    using that by (induction xs arbitrary: u) auto
  have call: "fold (\<lambda>t u. set_max_opt (tu_completed_at t) (set_max_opt (tu_started_at t) u)) turns (set_max_opt latest_call z) \<noteq> None"
    for turns z
  proof -
    have "set_max_opt latest_call z \<noteq> None" using some assms by blast
    then show ?thesis by (intro fold_some) (simp_all add: some [simplified])
  qed
  have "fold (\<lambda>a. set_max_opt (aa_occurred_at a)) acts (fold (\<lambda>c. set_max_opt (ac_requested_at c)) calls
      (fold (\<lambda>t u. set_max_opt (tu_completed_at t) (set_max_opt (tu_started_at t) u)) turns (set_max_opt latest_call z))) \<noteq> None"
    for acts calls turns z
    by (intro fold_some call) (simp_all add: some [simplified])
  with call show ?thesis by (auto simp: materialize_thread_as_of_def Let_def)
qed

lemma latest_call_present: "c \<in> set calls \<Longrightarrow> bt_get (latest_call_by_thread calls) (uc_thread_id c) \<noteq> None"
proof -
  let ?g = "\<lambda>c. bt_update (uc_thread_id c) (uc_timestamp c) (\<lambda>t. max t (uc_timestamp c))"
  have "bt_wf m \<Longrightarrow> c \<in> set cs \<or> bt_get m (uc_thread_id c) \<noteq> None \<Longrightarrow> bt_get (fold ?g cs m) (uc_thread_id c) \<noteq> None" for cs m
  proof (induction cs arbitrary: m)
    case (Cons x cs)
    have "bt_wf (?g x m)" using Cons.prems by (simp add: bt_wf_update)
    from Cons.IH [OF this] Cons.prems show ?case by (auto simp: bt_get_update)
  qed simp
  then show "c \<in> set calls \<Longrightarrow> bt_get (latest_call_by_thread calls) (uc_thread_id c) \<noteq> None"
    by (simp add: latest_call_by_thread_def)
qed

lemma visible_threads_wf:
  assumes "bt_wf threads"
  shows "bt_wf (visible_threads_of order now calls threads)"
    and "bt_get (visible_threads_of order now calls threads) k = Option.bind (bt_get threads k) (\<lambda>th.
      materialize_thread_as_of order th now (case bt_get (usage_by_thread calls) k of Some u \<Rightarrow> u | None \<Rightarrow> token_usage_default)
        (usage_by_turn calls) (bt_get (latest_call_by_thread calls) k))"
proof -
  have "bt_wf m \<Longrightarrow> bt_wf (List.map_filter (\<lambda>(k, th). map_option (Pair k) (f k th)) m)
      \<and> bt_get (List.map_filter (\<lambda>(k, th). map_option (Pair k) (f k th)) m) k = Option.bind (bt_get m k) (f k)
      \<and> fst ` set (List.map_filter (\<lambda>(k, th). map_option (Pair k) (f k th)) m) \<subseteq> fst ` set m"
    for m and f :: "string \<Rightarrow> thread_builder \<Rightarrow> thread_builder option"
  proof (induction m)
    case (Cons e m)
    obtain j th where e: "e = (j, th)" by (cases e)
    from Cons have IH: "bt_wf (List.map_filter (\<lambda>(k, th). map_option (Pair k) (f k th)) m)"
      "bt_get (List.map_filter (\<lambda>(k, th). map_option (Pair k) (f k th)) m) k = Option.bind (bt_get m k) (f k)"
      "fst ` set (List.map_filter (\<lambda>(k, th). map_option (Pair k) (f k th)) m) \<subseteq> fst ` set m"
      and less: "\<And>x. x \<in> fst ` set m \<Longrightarrow> j < x" by (auto simp: e)
    have none: "bt_get m j = None" using less by (auto simp: bt_get_None_iff)
    show ?case
      using IH less none by (auto simp: e List.map_filter_simps split: option.splits)
  qed (simp add: List.map_filter_simps)
  from this [OF assms] show "bt_wf (visible_threads_of order now calls threads)"
    "bt_get (visible_threads_of order now calls threads) k = Option.bind (bt_get threads k) (\<lambda>th.
      materialize_thread_as_of order th now (case bt_get (usage_by_thread calls) k of Some u \<Rightarrow> u | None \<Rightarrow> token_usage_default)
        (usage_by_turn calls) (bt_get (latest_call_by_thread calls) k))"
    by (simp_all add: visible_threads_of_def)
qed

lemma materialize_thread_keeps:
  assumes "materialize_thread_as_of order th now usage by_turn latest = Some v"
  shows "tb_thread_id v = tb_thread_id th" "tb_token_usage v = usage"
  using assms by (auto simp: materialize_thread_as_of_def Let_def hide_future_metadata_def split: if_splits)

section \<open>The materialized dataset\<close>

lemma materialize_dataset_finish:
  "\<exists>d. materialize_dataset env order min_time now titles r discovery n
      = finish_dataset env order min_time now (re_threads r) titles d
    \<and> rd_calls d = rd_calls (re_dataset r) \<and> rd_tasks d = rd_tasks discovery \<and> rd_turns d = rd_turns discovery"
proof -
  obtain ws suppressed where w: "append_bounded_rollout_warnings (rd_warnings (re_dataset r))
      (append_bounded_rollout_warnings (rd_warnings discovery) ([], sat_add (re_suppressed_warnings r) n)) = (ws, suppressed)"
    by fastforce
  show ?thesis unfolding materialize_dataset_def Let_def w prod.case by (intro exI conjI, rule refl) simp_all
qed

text \<open>A materialized dataset has no call, observation, interaction, turn or thread time later than
  the instant it is materialized for.\<close>

theorem materialized_view_shows_the_past:
  assumes "permutes order" "rd_turns discovery = []" "rd_tasks discovery = []"
  shows "dataset_before now (materialize_dataset env order min_time now titles r discovery n)"
proof -
  obtain d where "materialize_dataset env order min_time now titles r discovery n
      = finish_dataset env order min_time now (re_threads r) titles d" "rd_tasks d = []" "rd_turns d = []"
    using materialize_dataset_finish [of env order min_time now titles r discovery n] assms by metis
  with finish_dataset_before [OF assms(1)] show ?thesis by simp
qed

lemma shown_thread_of_call:
  assumes r: "reduced_sound r" and c: "c \<in> set (shown_calls now (re_threads r) (rd_calls (re_dataset r)))"
  shows "bt_get (shown_threads order now (re_threads r) (rd_calls (re_dataset r))) (uc_thread_id c) \<noteq> None"
proof -
  from c obtain c0 where c0: "c0 \<in> set (rd_calls (re_dataset r))" "uc_thread_id c0 = uc_thread_id c"
    using retain_native_subset by (fastforce simp: shown_calls_def Let_def)
  with r obtain th where "bt_get (re_threads r) (uc_thread_id c) = Some th"
    by (fastforce simp: reduced_sound_def list_all_iff in_threads_def split: option.splits)
  moreover have "bt_wf (re_threads r)" using r by (simp add: reduced_sound_def reduced_wf_def)
  ultimately show ?thesis
    using latest_call_present [OF c] materialize_thread_shown by (simp add: shown_threads_def visible_threads_wf(2))
qed

lemma shown_thread_fields:
  assumes r: "reduced_wf r" and v: "bt_get (shown_threads order now (re_threads r) calls) k = Some v"
  shows "tb_thread_id v = k"
    and "unat (total_tokens (tb_token_usage v)) = saturated (thread_tokens (shown_calls now (re_threads r) calls) k)"
proof -
  have wf: "bt_wf (re_threads r)" using r by (simp add: reduced_wf_def)
  from v obtain th where th: "bt_get (re_threads r) k = Some th"
    and m: "materialize_thread_as_of order th now (case bt_get (usage_by_thread (shown_calls now (re_threads r) calls)) k of
        Some u \<Rightarrow> u | None \<Rightarrow> token_usage_default) (usage_by_turn (shown_calls now (re_threads r) calls))
      (bt_get (latest_call_by_thread (shown_calls now (re_threads r) calls)) k) = Some v"
    by (auto simp: shown_threads_def visible_threads_wf(2) [OF wf] bind_eq_Some_conv)
  have "tb_thread_id th = k" using r th by (simp add: reduced_wf_iff thread_wf_iff)
  with materialize_thread_keeps [OF m] usage_by_thread_total show "tb_thread_id v = k"
    "unat (total_tokens (tb_token_usage v)) = saturated (thread_tokens (shown_calls now (re_threads r) calls) k)" by simp_all
qed

text \<open>C4. A dataset lists every thread at most once, every shown call belongs to a listed thread, and the
  total of a listed thread is the saturated sum of the totals of its shown calls.\<close>

theorem dataset_conserves_tokens:
  fixes env :: replay_env and discovery :: rollout_dataset and now :: datetime and order min_time titles r n
  assumes order: "permutes order" and r: "reduced_sound r" and d: "rd_tasks discovery = []"
  defines "result \<equiv> materialize_dataset env order min_time now titles r discovery n"
  shows "distinct (List.map tr_thread_id (rd_tasks result))
    \<and> (\<forall>c\<in>set (rd_calls result). uc_thread_id c \<in> set (List.map tr_thread_id (rd_tasks result)))
    \<and> (\<forall>task\<in>set (rd_tasks result). unat (total_tokens (tr_token_usage task))
        = saturated (thread_tokens (rd_calls result) (tr_thread_id task)))"
proof -
  let ?threads = "re_threads r" and ?calls = "rd_calls (re_dataset r)"
  let ?shown = "shown_threads order now ?threads ?calls"
  obtain d0 where d0: "result = finish_dataset env order min_time now ?threads titles d0" "rd_calls d0 = ?calls" "rd_tasks d0 = []"
    unfolding result_def using materialize_dataset_finish [of env order min_time now titles r discovery n] d by metis
  have rw: "reduced_wf r" and wf: "bt_wf ?threads" using r by (simp_all add: reduced_sound_def reduced_wf_def)
  have swf: "bt_wf ?shown" unfolding shown_threads_def by (rule visible_threads_wf(1) [OF wf])
  let ?f = "\<lambda>th. task_record_of env order min_time now titles (tb_active_turn_ids th \<noteq> []
    \<and> timestamp_is_fresh (tb_updated_at th) now (cc_active_grace (ry_config env))) th"
  have f: "tr_thread_id (?f th) = tb_thread_id th" "tr_token_usage (?f th) = tb_token_usage th" for th
    by (simp_all add: task_record_of_def Let_def split: prod.split)
  have tasks: "mset (rd_tasks result) = mset (List.map (\<lambda>k. ?f (the (bt_get ?shown k))) (order (bt_keys ?shown)))"
    unfolding d0(1) finish_dataset_tasks by (simp add: d0 hash_values_def comp_def)
  have key: "tr_thread_id (?f (the (bt_get ?shown k))) = k" "unat (total_tokens (tr_token_usage (?f (the (bt_get ?shown k)))))
      = saturated (thread_tokens (shown_calls now ?threads ?calls) k)" if "k \<in> set (bt_keys ?shown)" for k
    using that shown_thread_fields [OF rw] by (auto simp: f bt_keys_def bt_get_Some_iff [OF swf, symmetric])
  have ids: "mset (List.map tr_thread_id (rd_tasks result)) = mset (bt_keys ?shown)"
  proof -
    have "mset (List.map tr_thread_id (rd_tasks result))
        = mset (List.map tr_thread_id (List.map (\<lambda>k. ?f (the (bt_get ?shown k))) (order (bt_keys ?shown))))"
      using tasks by (simp only: mset_map)
    also have "List.map tr_thread_id (List.map (\<lambda>k. ?f (the (bt_get ?shown k))) (order (bt_keys ?shown))) = order (bt_keys ?shown)"
      unfolding map_map by (rule map_idI) (use key(1) permutes_set [OF order] in \<open>simp add: comp_def\<close>)
    finally show ?thesis using order by (simp add: permutes_def)
  qed
  have calls: "thread_tokens (rd_calls result) t = thread_tokens (shown_calls now ?threads ?calls) t" for t
    using finish_dataset_calls [of env order min_time now ?threads titles d0] unfolding d0(1,2) by (rule thread_tokens_mset) simp
  have "distinct (List.map tr_thread_id (rd_tasks result))"
    using mset_eq_imp_distinct_iff [OF ids] bt_wf_distinct [OF swf] by (simp add: bt_keys_def)
  moreover have "uc_thread_id c \<in> set (List.map tr_thread_id (rd_tasks result))" if "c \<in> set (rd_calls result)" for c
  proof -
    have "set (rd_calls result) = set (List.map (hide_call_turn ?shown) (shown_calls now ?threads ?calls))"
      using mset_eq_setD [OF finish_dataset_calls [of env order min_time now ?threads titles d0]] by (simp add: d0)
    with that obtain c1 where "c1 \<in> set (shown_calls now ?threads ?calls)" "uc_thread_id c1 = uc_thread_id c" by auto
    then have "uc_thread_id c \<in> set (bt_keys ?shown)"
      using shown_thread_of_call [OF r, of c1 now order] bt_get_None_iff [of ?shown] by (auto simp: bt_keys_def)
    then show ?thesis using mset_eq_setD [OF ids] by simp
  qed
  moreover have "unat (total_tokens (tr_token_usage task)) = saturated (thread_tokens (rd_calls result) (tr_thread_id task))"
    if "task \<in> set (rd_tasks result)" for task
    using that mset_eq_setD [OF tasks] key permutes_set [OF order] by (auto simp: calls)
  ultimately show ?thesis by blast
qed

section \<open>Redaction\<close>

lemma silent_threadI [intro]:
  "tb_title th = None \<Longrightarrow> (\<And>k t. (k, t) \<in> set (tb_turns th) \<Longrightarrow> tu_message_preview t = None) \<Longrightarrow> silent_thread th"
  by (auto simp: silent_thread_def list_all_iff)

lemma ensure_turn_silent:
  assumes "silent_thread th" "\<And>t. tu_message_preview t = None \<Longrightarrow> tu_message_preview (f t) = None"
  shows "silent_thread (ensure_turn k f th)"
proof
  show "tb_title (ensure_turn k f th) = None" using assms(1) by (simp add: silent_thread_def ensure_turn_def)
  fix j t
  assume "(j, t) \<in> set (tb_turns (ensure_turn k f th))"
  then have "(j, t) \<in> set (tb_turns th) \<or> t = f (turn_or_new th k)"
    using set_bt_insert_subset by (fastforce simp: bt_update_def turn_or_new_def split: option.splits)
  moreover have "tu_message_preview (turn_or_new th k) = None"
    using assms(1) bt_get_set
    by (fastforce simp: turn_or_new_def new_turn_def silent_thread_def list_all_iff split: option.splits)
  ultimately show "tu_message_preview t = None"
    using assms by (auto simp: silent_thread_def list_all_iff)
qed

lemma silent_fields:
  "tb_title th' = tb_title th \<Longrightarrow> tb_turns th' = tb_turns th \<Longrightarrow> silent_thread th' = silent_thread th"
  by (simp add: silent_thread_def)

lemma silent_updates [simp]:
  "silent_thread (th\<lparr>tb_active_turn_ids := a\<rparr>) = silent_thread th"
  "silent_thread (th\<lparr>tb_last_turn_id := l\<rparr>) = silent_thread th"
  "silent_thread (th\<lparr>tb_previous_cumulative := c\<rparr>) = silent_thread th"
  "silent_thread (th\<lparr>tb_incomplete_counter_boundary := b\<rparr>) = silent_thread th"
  "silent_thread (th\<lparr>tb_updated_at := u\<rparr>) = silent_thread th"
  "silent_thread (th\<lparr>tb_token_usage := n\<rparr>) = silent_thread th"
  "silent_thread (th\<lparr>tb_service_tier := s\<rparr>) = silent_thread th"
  "silent_thread (th\<lparr>tb_service_tier_observed := o'\<rparr>) = silent_thread th"
  "silent_thread (th\<lparr>tb_inherited_thread_settings := i\<rparr>) = silent_thread th"
  "silent_thread (th\<lparr>tb_agent_calls := ac\<rparr>) = silent_thread th"
  "silent_thread (th\<lparr>tb_agent_activities := aa\<rparr>) = silent_thread th"
  by (simp_all add: silent_thread_def)

lemma activate_turn_silent: "silent_thread th \<Longrightarrow> silent_thread (activate_turn k s th)"
  by (auto simp: activate_turn_def Let_def intro!: ensure_turn_silent)

lemma apply_thread_settings_silent:
  assumes "silent_thread th"
  shows "silent_thread (apply_thread_settings tier th)"
proof -
  have "silent_thread x \<Longrightarrow> silent_thread (fold (\<lambda>turn_id th. case bt_get (tb_turns th) turn_id of
      Some _ \<Rightarrow> ensure_turn turn_id (\<lambda>t. t\<lparr>tu_service_tier := tier\<rparr>) th | None \<Rightarrow> th) ks x)" for ks x
    by (induction ks arbitrary: x) (simp_all add: ensure_turn_silent split: option.split)
  with assms show ?thesis by (simp add: apply_thread_settings_def)
qed

lemma apply_turn_context_silent: "silent_thread th \<Longrightarrow> silent_thread (apply_turn_context m t th)"
  unfolding apply_turn_context_def Let_def
  by (auto intro!: ensure_turn_silent activate_turn_silent split: option.split)

lemma apply_session_meta_silent: "silent_thread (apply_session_meta ch m t th) = silent_thread th"
  by (rule silent_fields) (simp_all add: apply_session_meta_def Let_def split: option.split)

lemma apply_token_count_silent:
  assumes "silent_thread th" "apply_token_count sha sample last_usage limits t file n th d = (th', d')"
  shows "silent_thread th'"
proof -
  have delta: "silent_thread x'" if "counter_delta a b file n th y = (c, x', y')" for a b c x' y y'
    using that assms(1) by (auto simp: counter_delta_def Let_def split: option.splits if_splits)
  have call: "silent_thread x'" if "record_call sha a b c t x y = (x', y')" "silent_thread x" for a b c x y x' y'
    using that by (auto simp: record_call_def Let_def intro!: ensure_turn_silent split: option.splits)
  show ?thesis
    using assms delta call
    by (auto simp: apply_token_count_def Let_def split: option.splits if_splits prod.splits)
qed

lemma replay_event_silent_text:
  assumes th: "silent_thread th" and e: "\<not> is_user_message e" and r: "replay_event env file owner covered e th d = (th', d')"
  shows "silent_thread th'"
proof (cases "\<exists>t n s l lim. e = TokenCount t n s l lim")
  case True
  then obtain t n s l lim where e': "e = TokenCount t n s l lim" by blast
  obtain th1 d1 where a: "apply_token_count (ry_sha256 env) (if covered then None else s) l lim t file n th d = (th1, d1)"
    by fastforce
  with th have "silent_thread th1" by (rule apply_token_count_silent)
  with r e' a show ?thesis by (auto split: bool.splits option.splits)
next
  case False
  with e r th show ?thesis
    by (cases e) (auto simp: Let_def finish_turn_def apply_session_meta_silent activate_turn_silent
        apply_thread_settings_silent apply_turn_context_silent intro!: ensure_turn_silent)
qed

lemma replay_step_silent:
  assumes "silent_thread (fst s)" "\<not> is_user_message (snd x)"
  shows "silent_thread (fst (replay_step env file owner as_of covered x s))"
proof -
  obtain th d where s: "s = (th, d)" by (cases s)
  obtain i e where x: "x = (i, e)" by (cases x)
  have event: "silent_thread (fst (replay_event env file owner c e th' d))" if "silent_thread th'" for c th'
    using replay_event_silent_text [OF that, of e env _ owner c d] assms(2)
    by (cases "replay_event env file owner c e th' d") (simp add: x)
  show ?thesis using assms(1) by (auto simp: s x replay_step_def Let_def event split: option.split)
qed

lemma replay_steps_silent:
  "silent_thread (fst s) \<Longrightarrow> list_all (\<lambda>x. \<not> is_user_message (snd x)) es
    \<Longrightarrow> silent_thread (fst (fold (replay_step env file owner as_of covered) es s))"
  by (induction es arbitrary: s) (simp_all add: replay_step_silent)

lemma replay_file_silent:
  assumes t: "silent_threads threads" and p: "no_messages parsed"
    and r: "replay_rollout_file env file parsed as_of incomplete (threads, d) = (threads', d')"
  shows "silent_threads threads'"
proof (cases "pf_owner_thread_id parsed")
  case (Some owner)
  let ?th = "case bt_get threads owner of Some th \<Rightarrow> th | None \<Rightarrow> new_thread owner incomplete"
  let ?r = "fold (replay_step env file owner as_of (request_covered_counters (pf_events parsed) as_of))
    (List.enumerate 0 (pf_events parsed)) (mark_seen env file parsed as_of ?th, d)"
  have "silent_thread ?th"
    using t bt_get_set by (fastforce simp: silent_threads_def silent_thread_def new_thread_def list_all_iff split: option.split)
  then have "silent_thread (mark_seen env file parsed as_of ?th)"
    by (simp add: silent_thread_def mark_seen_def)
  moreover have "list_all (\<lambda>x. \<not> is_user_message (snd x)) (List.enumerate 0 (pf_events parsed))"
    using p by (auto simp: no_messages_def list_all_iff in_set_enumerate_eq)
  ultimately have "silent_thread (fst ?r)" by (simp add: replay_steps_silent)
  then have a: "silent_thread (touch_activity parsed as_of (fst ?r))"
    by (subst silent_fields [of _ "fst ?r"]) (simp_all add: touch_activity_def split: option.split)
  show ?thesis
    using r Some t a set_bt_insert_subset [of owner "touch_activity parsed as_of (fst ?r)" threads]
    by (auto simp: replay_rollout_file_def Let_def silent_threads_def list_all_iff split: if_splits prod.splits)
qed (use t r in \<open>simp add: replay_rollout_file_def\<close>)

lemma reduce_files_silent:
  assumes cache: "\<And>f p. bt_get cache f = Some p \<Longrightarrow> no_messages p"
  shows "silent_threads (re_threads r) \<Longrightarrow> silent_threads (re_threads (fold (reduce_file env cache files as_of) fs r))"
proof (induction fs arbitrary: r)
  case (Cons f fs)
  have "silent_threads (re_threads (reduce_file env cache files as_of f r))"
    using Cons.prems cache [of f]
    by (auto simp: reduce_file_def replay_file_into_reduced_def Let_def split: option.split prod.split
        intro: replay_file_silent)
  from Cons.IH [OF this] show ?case by simp
qed simp

lemma reduced_silent:
  assumes "\<And>f p. bt_get cache f = Some p \<Longrightarrow> no_messages p"
  shows "silent_threads (re_threads (reduce_cached_files_inner env cache files plan as_of))"
proof -
  have "re_threads (fold (add_file_metadata cache) fs x) = re_threads x" for fs x
    by (induction fs arbitrary: x) simp_all
  then have "re_threads (rebuild_reduced_metadata cache files x) = re_threads x" for x
    by (simp add: rebuild_reduced_metadata_def Let_def)
  moreover have "silent_threads (re_threads (with_plan plan reduced_default))"
    by (simp add: with_plan_def reduced_default_def silent_threads_def)
  ultimately show ?thesis
    using reduce_files_silent [OF assms] by (simp add: reduce_cached_files_inner_def)
qed

lemma materialize_thread_text:
  assumes "materialize_thread_as_of order th now usage by_turn latest = Some v"
  shows "tb_title v \<in> {None, tb_title th}"
    and "set (tb_turns v) \<subseteq> (\<lambda>(k, t). (k, view_turn (tb_thread_id th) now by_turn t)) ` set (tb_turns th)"
  using assms
  by (auto simp only: materialize_thread_as_of_def Let_def hide_future_metadata_def option.inject option.distinct
      split: if_splits) auto

lemma materialize_thread_silent:
  assumes th: "silent_thread th" and v: "materialize_thread_as_of order th now usage by_turn latest = Some v"
  shows "silent_thread v"
proof
  show "tb_title v = None" using th materialize_thread_text(1) [OF v] by (auto simp: silent_thread_def)
  fix k t
  assume "(k, t) \<in> set (tb_turns v)"
  with materialize_thread_text(2) [OF v] obtain t0 where "(k, t0) \<in> set (tb_turns th)"
    "t = view_turn (tb_thread_id th) now by_turn t0" by auto
  with th show "tu_message_preview t = None" by (auto simp: silent_thread_def list_all_iff view_turn_def Let_def)
qed

lemma shown_threads_silent: "silent_threads threads \<Longrightarrow> silent_threads (shown_threads order now threads calls)"
  by (fastforce simp: silent_threads_def shown_threads_def visible_threads_of_def list_all_iff List.map_filter_def
      dest: materialize_thread_silent)

text \<open>C8. With redaction on, files that were refreshed with redaction on give a dataset in which every task has
  the redacted title and no turn has a preview, whatever titles the session index offers.\<close>

theorem redaction_hides_messages:
  fixes env :: replay_env and discovery :: rollout_dataset and now :: datetime and order min_time titles files plan as_of n
  assumes redact: "cc_redact_content (ry_config env)" and order: "permutes order"
    and cache: "\<And>f p. bt_get cache f = Some p \<Longrightarrow> refreshed_file pe_redact_content p"
    and d: "rd_tasks discovery = []" "rd_turns discovery = []"
  defines "result \<equiv> materialize_dataset env order min_time now titles
    (reduce_cached_files_inner env cache files plan as_of) discovery n"
  shows "(\<forall>task\<in>set (rd_tasks result). tr_title task = ''[redacted]'')
    \<and> (\<forall>turn\<in>set (rd_turns result). tn_message_preview turn = None)"
proof -
  let ?r = "reduce_cached_files_inner env cache files plan as_of"
  let ?shown = "shown_threads order now (re_threads ?r) (rd_calls (re_dataset ?r))"
  obtain d0 where d0: "result = finish_dataset env order min_time now (re_threads ?r) titles d0"
    "rd_calls d0 = rd_calls (re_dataset ?r)" "rd_tasks d0 = []" "rd_turns d0 = []"
    unfolding result_def using materialize_dataset_finish [of env order min_time now titles ?r discovery n] d by metis
  have shown: "silent_threads ?shown"
    using reduced_silent [of cache env files plan as_of] cache refreshed_no_messages shown_threads_silent by blast
  have silent: "tu_message_preview t = None" if "th \<in> set (hash_values order ?shown)" "t \<in> set (hash_values order (tb_turns th))" for th t
  proof -
    from hash_values_member [OF order that(1)] obtain k where "(k, th) \<in> set ?shown" ..
    with shown have "silent_thread th" by (auto simp: silent_threads_def list_all_iff)
    moreover from hash_values_member [OF order that(2)] obtain j where "(j, t) \<in> set (tb_turns th)" ..
    ultimately show ?thesis by (auto simp: silent_thread_def list_all_iff)
  qed
  have tasks: "set (rd_tasks result) = (\<lambda>th. task_record_of env order min_time now titles (tb_active_turn_ids th \<noteq> []
      \<and> timestamp_is_fresh (tb_updated_at th) now (cc_active_grace (ry_config env))) th) ` set (hash_values order ?shown)"
    using mset_eq_setD [OF finish_dataset_tasks [of env order min_time now "re_threads ?r" titles d0, unfolded d0(3) mset.simps add_0]]
    by (simp add: d0)
  have "tr_title (task_record_of env order min_time now titles b th) = ''[redacted]''" for b th
    using redact by (simp add: task_record_of_def Let_def split: prod.split)
  moreover have "tn_message_preview turn = None" if "turn \<in> set (rd_turns result)" for turn
    using that silent mset_eq_setD [OF finish_dataset_turns [of env order min_time now "re_threads ?r" titles d0, unfolded d0(4) mset.simps add_0]]
    by (auto simp: d0 turn_record_of_def)
  ultimately show ?thesis using tasks by auto
qed

section \<open>An example dataset\<close>

lemma identity_permutes: "permutes (\<lambda>ks. ks)"
  by (simp add: permutes_def)

theorem materialized_view_shows_the_past_witness:
  "dataset_before 5 (materialize_dataset (example_replay_env False) (\<lambda>ks. ks) 0 5 [] example_reduced rollout_dataset_default 0)"
  by (rule materialized_view_shows_the_past [OF identity_permutes]) (simp_all add: rollout_dataset_default_def)

lemma usage_log_parsed [code]: "usage_log = usage_parsed"
  by code_simp

lemma usage_result_tasks: "List.map tr_thread_id (rd_tasks usage_result) = [''t'']"
  by code_simp

lemma usage_result_calls:
  "List.map (\<lambda>c. (uc_thread_id c, total_tokens (uc_tokens c))) (rd_calls usage_result) = [(''t'', 5), (''t'', 4)]"
  by code_simp

theorem dataset_conserves_tokens_witness:
  "List.map (\<lambda>task. (tr_thread_id task, unat (total_tokens (tr_token_usage task)))) (rd_tasks usage_result) = [(''t'', 9)]
    \<and> List.map (\<lambda>c. (uc_thread_id c, total_tokens (uc_tokens c))) (rd_calls usage_result) = [(''t'', 5), (''t'', 4)]
    \<and> list_all (\<lambda>c. uc_thread_id c \<in> set (List.map tr_thread_id (rd_tasks usage_result))) (rd_calls usage_result)"
proof -
  obtain task where task: "rd_tasks usage_result = [task]" "tr_thread_id task = ''t''"
    using usage_result_tasks by (auto simp: map_eq_Cons_conv)
  have tokens: "thread_tokens (rd_calls usage_result) ''t'' = 9"
    using usage_result_calls by (auto simp: thread_tokens_def map_eq_Cons_conv)
  have "reduced_sound usage_reduced" "rd_tasks rollout_dataset_default = []"
    by (simp_all add: usage_reduced_def reduction_sound rollout_dataset_default_def)
  from dataset_conserves_tokens [OF identity_permutes this, of "example_replay_env False" 0 5 "[]" 0, folded usage_result_def]
  show ?thesis using task tokens usage_result_calls by (simp add: saturated_def list_all_iff)
qed

theorem redaction_hides_messages_witness:
  "list_all (\<lambda>task. tr_title task = ''[redacted]'') (rd_tasks (materialize_dataset (example_replay_env True) (\<lambda>ks. ks) 0 5 []
      (reduce_cached_files_inner (example_replay_env True) example_cache [[''home'', ''sessions'', ''log'']] example_plan None)
      rollout_dataset_default 0))"
proof -
  have "refreshed_file pe_redact_content (example_log True)"
    by (rule example_log_refreshed) (simp add: example_parse_env_def)
  then have cache: "refreshed_file pe_redact_content p" if "bt_get example_cache f = Some p" for f p
    using that by (simp add: example_cache_def split: if_splits)
  show ?thesis
    using redaction_hides_messages [where env = "example_replay_env True" and discovery = rollout_dataset_default and now = 5
        and min_time = 0 and titles = "[]" and files = "[[''home'', ''sessions'', ''log'']]" and plan = example_plan
        and as_of = None and n = 0, OF _ identity_permutes cache]
    by (simp add: example_replay_env_def rollout_dataset_default_def list_all_iff)
qed

end
