(* ===== verification/Model_Catalog.thy ===== *)
theory Model_Catalog
  imports Domain
begin

text \<open>
  The model catalog of \<open>src/model_catalog.rs\<close>: credit and API token rates by model name,
  the bundled catalog, the validation that turns a parsed configuration file into a
  catalog, discovery with fallback to the bundled catalog, and the fingerprint.

  The JSON decoder and SHA-256 are packages: \<open>parse_json\<close> and \<open>sha256_hex\<close> are
  parameters.  The filesystem calls of \<open>load_catalog\<close> are given by their outcomes.
  A \<open>serde_json\<close> number is held as the text its \<open>to_string\<close> prints, the only use the
  code makes of it.  The process-wide \<open>OnceLock\<close> is explicit state of \<open>initialize\<close>;
  the readers take the active catalog as an argument.  The branch for unit tests is
  left out.  A violated \<open>expect\<close> is \<^const>\<open>None\<close>.
\<close>

section \<open>Rates\<close>

(* model_catalog.rs:35-40 CreditTokenRates *)
record credit_token_rates =
  cr_input :: u128
  cr_cached_input :: u128
  cr_output :: u128

(* model_catalog.rs:43-49 CreditTokenRates::new *)
definition credit_rates_new :: "u128 \<Rightarrow> u128 \<Rightarrow> u128 \<Rightarrow> credit_token_rates" where
  "credit_rates_new i c out = \<lparr>cr_input = i, cr_cached_input = c, cr_output = out\<rparr>"

(* model_catalog.rs:51-57 CreditTokenRates::long_context *)
definition long_context :: "credit_token_rates \<Rightarrow> credit_token_rates" where
  "long_context r =
    \<lparr>cr_input = sat_mul (cr_input r) 2, cr_cached_input = sat_mul (cr_cached_input r) 2,
     cr_output = sat_mul (cr_output r) 3 div 2\<rparr>"

(* model_catalog.rs:60-65 CreditModelRates *)
record credit_model_rates =
  cm_standard :: credit_token_rates
  cm_fast :: "credit_token_rates option"
  cm_long_context_pricing :: bool

(* model_catalog.rs:67-73 ApiTokenRates *)
record api_token_rates =
  ar_input :: u128
  ar_cached_input :: u128
  ar_cache_write :: "u128 option"
  ar_output :: u128

(* model_catalog.rs:76-83 ApiTokenRates::new *)
definition api_rates_new :: "u128 \<Rightarrow> u128 \<Rightarrow> u128 option \<Rightarrow> u128 \<Rightarrow> api_token_rates" where
  "api_rates_new i c w out =
    \<lparr>ar_input = i, ar_cached_input = c, ar_cache_write = w, ar_output = out\<rparr>"

(* model_catalog.rs:86-91 ApiLongContextRates *)
datatype api_long_context_rates = Published api_token_rates | Flat | Unavailable

(* model_catalog.rs:93-97 ApiTierRates *)
record api_tier_rates =
  at_short :: api_token_rates
  at_long :: api_long_context_rates

(* model_catalog.rs:99-103 ApiModelRates *)
record api_model_rates =
  am_standard :: api_tier_rates
  am_fast :: "api_tier_rates option"

(* model_catalog.rs:105-109 ModelEntry *)
record model_entry =
  me_credit :: "credit_model_rates option"
  me_api :: "api_model_rates option"

(* model_catalog.rs:111-120 ModelCatalog *)
record model_catalog =
  mcat_estimator_revision :: u32
  mcat_api_pricing_catalog_revision :: u32
  mcat_rates_as_of :: string
  mcat_source_url :: string
  mcat_long_context_input_threshold :: u64
  mcat_credit_fallback_model :: string
  mcat_models :: "(string, model_entry) btree"

section \<open>Constants\<close>

(* model_catalog.rs:10-10 MODEL_CATALOG_VERSION *)
definition MODEL_CATALOG_VERSION :: u32 where "MODEL_CATALOG_VERSION = 1"

(* model_catalog.rs:11-11 BUNDLED_ESTIMATOR_REVISION *)
definition BUNDLED_ESTIMATOR_REVISION :: u32 where "BUNDLED_ESTIMATOR_REVISION = 8"

(* model_catalog.rs:12-12 BUNDLED_API_PRICING_CATALOG_REVISION *)
definition BUNDLED_API_PRICING_CATALOG_REVISION :: u32 where
  "BUNDLED_API_PRICING_CATALOG_REVISION = 5"

(* model_catalog.rs:18-18 MAX_CATALOG_BYTES *)
definition MAX_CATALOG_BYTES :: nat where "MAX_CATALOG_BYTES = 1048576"

(* model_catalog.rs:19-19 MAX_MODELS *)
definition MAX_MODELS :: nat where "MAX_MODELS = 256"

(* model_catalog.rs:20-20 MAX_ALIASES_PER_MODEL *)
definition MAX_ALIASES_PER_MODEL :: nat where "MAX_ALIASES_PER_MODEL = 64"

(* model_catalog.rs:21-21 MAX_MODEL_NAME_BYTES *)
definition MAX_MODEL_NAME_BYTES :: nat where "MAX_MODEL_NAME_BYTES = 128"

(* model_catalog.rs:22-22 MAX_METADATA_BYTES *)
definition MAX_METADATA_BYTES :: nat where "MAX_METADATA_BYTES = 2048"

(* model_catalog.rs:23-23 CREDIT_UNITS_PER_CREDIT *)
definition CREDIT_UNITS_PER_CREDIT :: u128 where "CREDIT_UNITS_PER_CREDIT = 8"

(* model_catalog.rs:24-24 MICRO_USD_PER_USD *)
definition MICRO_USD_PER_USD :: u128 where "MICRO_USD_PER_USD = 1000000"

(* model_catalog.rs:25-29 MAX_CONFIGURED_RATE_UNITS *)
definition MAX_CONFIGURED_RATE_UNITS :: u128 where
  "MAX_CONFIGURED_RATE_UNITS = (- 1) div ucast (- 1 :: u64) div 6"

section \<open>Configuration\<close>

(* model_catalog.rs:976-981 DecimalValue *)
datatype decimal_value = DecimalString string | DecimalNumber string

(* model_catalog.rs:984-989 DecimalValue::to_plain_string *)
fun to_plain_string :: "decimal_value \<Rightarrow> string" where
  "to_plain_string (DecimalString v) = v"
| "to_plain_string (DecimalNumber v) = v"

(* model_catalog.rs:935-941 CreditTokenRatesConfig *)
record credit_token_rates_config =
  crc_input :: decimal_value
  crc_cached_input :: decimal_value
  crc_output :: decimal_value

(* model_catalog.rs:925-933 CreditModelConfig *)
record credit_model_config =
  cmc_standard :: credit_token_rates_config
  cmc_fast :: "credit_token_rates_config option"
  cmc_long_context_pricing :: bool

(* model_catalog.rs:966-974 ApiTokenRatesConfig *)
record api_token_rates_config =
  arc_input :: decimal_value
  arc_cached_input :: decimal_value
  arc_cache_write :: "decimal_value option"
  arc_output :: decimal_value

(* model_catalog.rs:958-964 ApiLongContextConfig *)
datatype api_long_context_config = PublishedConfig api_token_rates_config | FlatConfig
  | UnavailableConfig

(* model_catalog.rs:951-956 ApiTierConfig *)
record api_tier_config =
  atc_short :: api_token_rates_config
  atc_long :: api_long_context_config

(* model_catalog.rs:943-949 ApiModelConfig *)
record api_model_config =
  amc_standard :: api_tier_config
  amc_fast :: "api_tier_config option"

(* model_catalog.rs:913-923 ModelConfig *)
record model_config =
  mcf_id :: string
  mcf_aliases :: "string list"
  mcf_credit :: "credit_model_config option"
  mcf_api :: "api_model_config option"

(* model_catalog.rs:900-911 CatalogConfig *)
record catalog_config =
  cc_version :: u32
  cc_estimator_revision :: u32
  cc_api_pricing_catalog_revision :: u32
  cc_rates_as_of :: string
  cc_source_url :: string
  cc_long_context_input_threshold :: u64
  cc_credit_fallback_model :: string
  cc_models :: "model_config list"

section \<open>Validation\<close>

text \<open>One constructor per error the code raises; the string names the field.\<close>

(* model_catalog.rs:896-898 invalid_config *)
datatype catalog_error =
    UnsupportedVersion u32
  | EstimatorRevisionTooLow
  | ApiPricingRevisionTooLow
  | MetadataLength string
  | MetadataControl string
  | ThresholdZero
  | NameLength string
  | NameControl string
  | ModelCount
  | TooManyAliases string
  | NoRates string
  | DuplicateName string
  | FallbackWithoutCredit
  | FallbackWithoutFast
  | LongContextOutputOdd
  | RateZero string
  | RateTooLarge string string
  | NotPlainDecimal string
  | DecimalTooLarge string
  | TooManyDecimalPlaces string
  | NotExact string
  | InvalidJson
  | NotRegularFile
  | SymbolicLink
  | CatalogTooLarge
  | CatalogIo

(* model_catalog.rs:756-758 normalize_model_name *)
definition normalize_model_name :: "string \<Rightarrow> string" where
  "normalize_model_name v = to_ascii_lowercase (trim v)"

(* model_catalog.rs:727-740 validate_model_name *)
definition validate_model_name :: "string \<Rightarrow> string \<Rightarrow> catalog_error + unit" where
  "validate_model_name field v =
    (let t = trim v in
     if t = [] \<or> MAX_MODEL_NAME_BYTES < length t then Inl (NameLength field)
     else if list_ex char_is_control (utf8_chars t) then Inl (NameControl field)
     else Inr ())"

(* model_catalog.rs:742-754 validate_metadata *)
definition validate_metadata :: "string \<Rightarrow> string \<Rightarrow> catalog_error + unit" where
  "validate_metadata field v =
    (if trim v = [] \<or> MAX_METADATA_BYTES < length v then Inl (MetadataLength field)
     else if list_ex char_is_control (utf8_chars v) then Inl (MetadataControl field)
     else Inr ())"

(* model_catalog.rs:652-665 validate_required_rates *)
definition validate_required_rates :: "string \<Rightarrow> u128 \<Rightarrow> u128 \<Rightarrow> u128 \<Rightarrow> catalog_error + unit" where
  "validate_required_rates field i c out =
    (if i = 0 \<or> out = 0 then Inl (RateZero field) else Inr ())"

(* model_catalog.rs:667-677 validate_rate_bounds *)
definition validate_rate_bounds :: "string \<Rightarrow> (string \<times> u128) list \<Rightarrow> catalog_error + unit" where
  "validate_rate_bounds field rates =
    (case List.find (\<lambda>r. MAX_CONFIGURED_RATE_UNITS < snd r) rates of
       Some r \<Rightarrow> Inl (RateTooLarge field (fst r))
     | None \<Rightarrow> Inr ())"

definition checked_pow10 :: "nat \<Rightarrow> u128 option" where
  "checked_pow10 e = (if 10 ^ e < (2::nat) ^ 128 then Some (of_nat (10 ^ e)) else None)"

(* model_catalog.rs:700-725 parse_scaled_decimal (digits) *)
definition scale_decimal :: "string \<Rightarrow> string option \<Rightarrow> u128 \<Rightarrow> string \<Rightarrow> catalog_error + u128" where
  "scale_decimal whole fraction scale field =
    and_then (ok_or (parse_unsigned whole) (DecimalTooLarge field)) (\<lambda>w.
    and_then
      (case fraction of
         Some f \<Rightarrow>
           and_then (ok_or (checked_pow10 (min (length f) (2 ^ 32 - 1))) (TooManyDecimalPlaces field)) (\<lambda>d.
           and_then (ok_or (parse_unsigned f) (DecimalTooLarge field)) (\<lambda>n. Inr (n, d)))
       | None \<Rightarrow> Inr (0, 1)) (\<lambda>(n, d).
    and_then (ok_or (Option.bind (checked_mul w d) (\<lambda>v.
        Option.bind (checked_add v n) (\<lambda>v. checked_mul v scale))) (DecimalTooLarge field)) (\<lambda>num.
    if num mod d \<noteq> 0 then Inl (NotExact field) else Inr (num div d))))"

(* model_catalog.rs:679-725 parse_scaled_decimal *)
definition parse_scaled_decimal :: "decimal_value \<Rightarrow> u128 \<Rightarrow> string \<Rightarrow> catalog_error + u128" where
  "parse_scaled_decimal v scale field =
    (let raw = trim (to_plain_string v) in
     if raw = [] \<or> hd raw = CHR ''-'' \<or> hd raw = CHR ''+'' then Inl (NotPlainDecimal field)
     else (let pieces = split_char CHR ''.'' raw; whole = hd pieces;
               fraction = (if 2 \<le> length pieces then Some (pieces ! 1) else None)
           in if 3 \<le> length pieces \<or> whole = [] \<or> \<not> list_all is_ascii_digit whole
                \<or> (case fraction of Some f \<Rightarrow> f = [] \<or> \<not> list_all is_ascii_digit f | None \<Rightarrow> False)
              then Inl (NotPlainDecimal field)
              else scale_decimal whole fraction scale field))"

(* model_catalog.rs:555-583 CreditTokenRates::from_config *)
definition credit_token_rates_from_config ::
  "credit_token_rates_config \<Rightarrow> string \<Rightarrow> catalog_error + credit_token_rates" where
  "credit_token_rates_from_config c field =
    and_then (parse_scaled_decimal (crc_input c) CREDIT_UNITS_PER_CREDIT (field @ ''.input'')) (\<lambda>i.
    and_then (parse_scaled_decimal (crc_cached_input c) CREDIT_UNITS_PER_CREDIT (field @ ''.cachedInput'')) (\<lambda>ci.
    and_then (parse_scaled_decimal (crc_output c) CREDIT_UNITS_PER_CREDIT (field @ ''.output'')) (\<lambda>out.
    and_then (validate_required_rates field i ci out) (\<lambda>_.
    and_then (validate_rate_bounds field [(''input'', i), (''cachedInput'', ci), (''output'', out)]) (\<lambda>_.
      Inr \<lparr>cr_input = i, cr_cached_input = ci, cr_output = out\<rparr>)))))"

text \<open>\<open>Option::map(f).transpose()?\<close>.\<close>

definition transpose_ok :: "('a \<Rightarrow> 'e + 'b) \<Rightarrow> 'a option \<Rightarrow> 'e + 'b option" where
  "transpose_ok f x = (case x of None \<Rightarrow> Inr None | Some y \<Rightarrow> and_then (f y) (\<lambda>z. Inr (Some z)))"

(* model_catalog.rs:531-551 CreditModelRates::from_config *)
definition credit_model_rates_from_config ::
  "credit_model_config \<Rightarrow> catalog_error + credit_model_rates" where
  "credit_model_rates_from_config c =
    and_then (credit_token_rates_from_config (cmc_standard c) ''credit.standard'') (\<lambda>std.
    and_then (transpose_ok (\<lambda>r. credit_token_rates_from_config r ''credit.fast'') (cmc_fast c)) (\<lambda>fast.
    if cmc_long_context_pricing c
       \<and> (odd (unat (cr_output std)) \<or> (case fast of Some f \<Rightarrow> odd (unat (cr_output f)) | None \<Rightarrow> False))
    then Inl LongContextOutputOdd
    else Inr \<lparr>cm_standard = std, cm_fast = fast, cm_long_context_pricing = cmc_long_context_pricing c\<rparr>))"

(* model_catalog.rs:613-649 ApiTokenRates::from_config *)
definition api_token_rates_from_config ::
  "api_token_rates_config \<Rightarrow> string \<Rightarrow> catalog_error + api_token_rates" where
  "api_token_rates_from_config c field =
    and_then (parse_scaled_decimal (arc_input c) MICRO_USD_PER_USD (field @ ''.input'')) (\<lambda>i.
    and_then (parse_scaled_decimal (arc_cached_input c) MICRO_USD_PER_USD (field @ ''.cachedInput'')) (\<lambda>ci.
    and_then (transpose_ok (\<lambda>v. parse_scaled_decimal v MICRO_USD_PER_USD (field @ ''.cacheWrite''))
      (arc_cache_write c)) (\<lambda>cw.
    and_then (parse_scaled_decimal (arc_output c) MICRO_USD_PER_USD (field @ ''.output'')) (\<lambda>out.
    and_then (validate_required_rates field i ci out) (\<lambda>_.
    and_then (validate_rate_bounds field [(''input'', i), (''cachedInput'', ci),
      (''cacheWrite'', case cw of Some w \<Rightarrow> w | None \<Rightarrow> 0), (''output'', out)]) (\<lambda>_.
      Inr \<lparr>ar_input = i, ar_cached_input = ci, ar_cache_write = cw, ar_output = out\<rparr>))))))"

(* model_catalog.rs:599-609 ApiTierRates::from_config *)
definition api_tier_rates_from_config :: "api_tier_config \<Rightarrow> string \<Rightarrow> catalog_error + api_tier_rates" where
  "api_tier_rates_from_config c field =
    and_then (api_token_rates_from_config (atc_short c) (field @ ''.short'')) (\<lambda>short.
    and_then (case atc_long c of
        PublishedConfig r \<Rightarrow>
          and_then (api_token_rates_from_config r (field @ ''.long.rates'')) (\<lambda>l. Inr (Published l))
      | FlatConfig \<Rightarrow> Inr Flat
      | UnavailableConfig \<Rightarrow> Inr Unavailable) (\<lambda>long.
      Inr \<lparr>at_short = short, at_long = long\<rparr>))"

(* model_catalog.rs:587-595 ApiModelRates::from_config *)
definition api_model_rates_from_config :: "api_model_config \<Rightarrow> catalog_error + api_model_rates" where
  "api_model_rates_from_config c =
    and_then (api_tier_rates_from_config (amc_standard c) ''api.standard'') (\<lambda>std.
    and_then (transpose_ok (\<lambda>r. api_tier_rates_from_config r ''api.fast'') (amc_fast c)) (\<lambda>fast.
      Inr \<lparr>am_standard = std, am_fast = fast\<rparr>))"

(* model_catalog.rs:512-520 ModelCatalog::insert_name *)
definition insert_name :: "string \<Rightarrow> model_entry \<Rightarrow> model_catalog \<Rightarrow> catalog_error + model_catalog" where
  "insert_name name entry cat =
    (let n = normalize_model_name name; previous = bt_get (mcat_models cat) n;
         cat' = cat\<lparr>mcat_models := bt_insert n entry (mcat_models cat)\<rparr>
     in if previous \<noteq> None then Inl (DuplicateName n) else Inr cat')"

(* model_catalog.rs:482-510 ModelCatalog::insert_configured *)
definition insert_configured :: "model_config \<Rightarrow> model_catalog \<Rightarrow> catalog_error + model_catalog" where
  "insert_configured m cat =
    and_then (validate_model_name ''model id'' (mcf_id m)) (\<lambda>_.
    if MAX_ALIASES_PER_MODEL < length (mcf_aliases m) then Inl (TooManyAliases (mcf_id m))
    else if mcf_credit m = None \<and> mcf_api m = None then Inl (NoRates (mcf_id m))
    else
      and_then (transpose_ok credit_model_rates_from_config (mcf_credit m)) (\<lambda>credit.
      and_then (transpose_ok api_model_rates_from_config (mcf_api m)) (\<lambda>api.
      let entry = \<lparr>me_credit = credit, me_api = api\<rparr> in
      and_then (insert_name (mcf_id m) entry cat) (\<lambda>cat.
      fold_ok (\<lambda>alias cat.
        and_then (validate_model_name ''model alias'' alias) (\<lambda>_. insert_name alias entry cat))
        (mcf_aliases m) cat))))"

(* model_catalog.rs:424-480 ModelCatalog::from_config *)
definition from_config :: "catalog_config \<Rightarrow> catalog_error + model_catalog" where
  "from_config c =
    and_then (ensure (cc_version c = MODEL_CATALOG_VERSION) (UnsupportedVersion (cc_version c))) (\<lambda>_.
    and_then (ensure (BUNDLED_ESTIMATOR_REVISION < cc_estimator_revision c) EstimatorRevisionTooLow) (\<lambda>_.
    and_then (ensure (BUNDLED_API_PRICING_CATALOG_REVISION < cc_api_pricing_catalog_revision c)
      ApiPricingRevisionTooLow) (\<lambda>_.
    and_then (validate_metadata ''ratesAsOf'' (cc_rates_as_of c)) (\<lambda>_.
    and_then (validate_metadata ''sourceUrl'' (cc_source_url c)) (\<lambda>_.
    and_then (ensure (cc_long_context_input_threshold c \<noteq> 0) ThresholdZero) (\<lambda>_.
    and_then (validate_model_name ''creditFallbackModel'' (cc_credit_fallback_model c)) (\<lambda>_.
    and_then (ensure (cc_models c \<noteq> [] \<and> length (cc_models c) \<le> MAX_MODELS) ModelCount) (\<lambda>_.
    and_then (fold_ok insert_configured (cc_models c)
      \<lparr>mcat_estimator_revision = cc_estimator_revision c,
       mcat_api_pricing_catalog_revision = cc_api_pricing_catalog_revision c,
       mcat_rates_as_of = cc_rates_as_of c,
       mcat_source_url = cc_source_url c,
       mcat_long_context_input_threshold = cc_long_context_input_threshold c,
       mcat_credit_fallback_model = normalize_model_name (cc_credit_fallback_model c),
       mcat_models = []\<rparr>) (\<lambda>cat.
    and_then (ok_or (Option.bind (bt_get (mcat_models cat) (mcat_credit_fallback_model cat)) me_credit)
      FallbackWithoutCredit) (\<lambda>fallback.
    and_then (ensure (cm_fast fallback \<noteq> None) FallbackWithoutFast) (\<lambda>_. Inr cat)))))))))))"

(* model_catalog.rs:417-421 parse_catalog *)
definition parse_catalog ::
  "(string \<Rightarrow> catalog_config option) \<Rightarrow> string \<Rightarrow> catalog_error + model_catalog" where
  "parse_catalog parse_json contents = and_then (ok_or (parse_json contents) InvalidJson) from_config"

section \<open>The bundled catalog\<close>

(* model_catalog.rs:992-1002 credit_model *)
definition credit_model ::
  "credit_token_rates \<Rightarrow> credit_token_rates option \<Rightarrow> bool \<Rightarrow> credit_model_rates option" where
  "credit_model std fast lc =
    Some \<lparr>cm_standard = std, cm_fast = fast, cm_long_context_pricing = lc\<rparr>"

(* model_catalog.rs:1004-1006 api_tier *)
definition api_tier :: "api_token_rates \<Rightarrow> api_long_context_rates \<Rightarrow> api_tier_rates" where
  "api_tier short long = \<lparr>at_short = short, at_long = long\<rparr>"

(* model_catalog.rs:1008-1029 luna_api_rates *)
definition luna_api_rates :: api_model_rates where
  "luna_api_rates =
    \<lparr>am_standard = api_tier (api_rates_new 200000 20000 (Some 250000) 1200000)
       (Published (api_rates_new 400000 40000 (Some 500000) 1800000)),
     am_fast = Some (api_tier (api_rates_new 400000 40000 (Some 500000) 2400000)
       (Published (api_rates_new 800000 80000 (Some 1000000) 3600000)))\<rparr>"

(* model_catalog.rs:522-527 ModelCatalog::insert_builtin *)
definition insert_builtin ::
  "string list \<times> model_entry \<Rightarrow> (string, model_entry) btree \<Rightarrow> (string, model_entry) btree" where
  "insert_builtin = (\<lambda>(names, entry) models.
    fold (\<lambda>name. bt_insert (normalize_model_name name) entry) names models)"

(* model_catalog.rs:1042-1071 bundled_catalog (gpt-6-astra) *)
definition bundled_gpt_6_astra :: "string list \<times> model_entry" where
  "bundled_gpt_6_astra = ([''gpt-6-astra''],
    \<lparr>me_credit = (credit_model (credit_rates_new 2000 200 10000)
       (Some (credit_rates_new 5000 500 25000)) True),
     me_api = Some (\<lparr>am_standard = (api_tier (api_rates_new 10000000 1000000 (Some 12500000) 50000000) (Published (api_rates_new 20000000 2000000 (Some 25000000) 75000000))),
       am_fast = (Some (api_tier (api_rates_new 20000000 2000000 (Some 25000000) 100000000) (Published (api_rates_new 40000000 4000000 (Some 50000000) 150000000))))\<rparr>)\<rparr>)"

(* model_catalog.rs:1076-1105 bundled_catalog (gpt-6.1-sol) *)
definition bundled_gpt_6_1_sol :: "string list \<times> model_entry" where
  "bundled_gpt_6_1_sol = ([''gpt-6.1-sol''],
    \<lparr>me_credit = (credit_model (credit_rates_new 400 20 2000)
       (Some (credit_rates_new 1000 50 5000)) True),
     me_api = Some (\<lparr>am_standard = (api_tier (api_rates_new 2000000 100000 (Some 2500000) 10000000) (Published (api_rates_new 4000000 200000 (Some 5000000) 15000000))),
       am_fast = (Some (api_tier (api_rates_new 4000000 200000 (Some 5000000) 20000000) (Published (api_rates_new 8000000 400000 (Some 10000000) 30000000))))\<rparr>)\<rparr>)"

(* model_catalog.rs:1106-1135 bundled_catalog (gpt-6-sol) *)
definition bundled_gpt_6_sol :: "string list \<times> model_entry" where
  "bundled_gpt_6_sol = ([''gpt-6-sol''],
    \<lparr>me_credit = (credit_model (credit_rates_new 400 40 2000)
       (Some (credit_rates_new 1000 100 5000)) True),
     me_api = Some (\<lparr>am_standard = (api_tier (api_rates_new 2000000 200000 (Some 2500000) 10000000) (Published (api_rates_new 4000000 400000 (Some 5000000) 15000000))),
       am_fast = (Some (api_tier (api_rates_new 4000000 400000 (Some 5000000) 20000000) (Published (api_rates_new 8000000 800000 (Some 10000000) 30000000))))\<rparr>)\<rparr>)"

(* model_catalog.rs:1136-1165 bundled_catalog (gpt-6-luna) *)
definition bundled_gpt_6_luna :: "string list \<times> model_entry" where
  "bundled_gpt_6_luna = ([''gpt-6-luna''],
    \<lparr>me_credit = (credit_model (credit_rates_new 20 2 100)
       (Some (credit_rates_new 50 5 250)) True),
     me_api = Some (\<lparr>am_standard = (api_tier (api_rates_new 100000 10000 (Some 125000) 500000) (Published (api_rates_new 200000 20000 (Some 250000) 750000))),
       am_fast = (Some (api_tier (api_rates_new 200000 20000 (Some 250000) 1000000) (Published (api_rates_new 400000 40000 (Some 500000) 1500000))))\<rparr>)\<rparr>)"

(* model_catalog.rs:1166-1200 bundled_catalog (gpt-5.6-sol) *)
definition bundled_gpt_5_6_sol :: "string list \<times> model_entry" where
  "bundled_gpt_5_6_sol = ([''gpt-5.6-sol'', ''gpt-5.6'', ''daybreak-blue-latest'', ''gpt-daybreak-blue-latest''],
    \<lparr>me_credit = (credit_model (credit_rates_new 800 80 4000)
       (Some (credit_rates_new 2000 200 10000)) True),
     me_api = Some (\<lparr>am_standard = (api_tier (api_rates_new 4000000 400000 (Some 5000000) 20000000) (Published (api_rates_new 8000000 800000 (Some 10000000) 30000000))),
       am_fast = (Some (api_tier (api_rates_new 8000000 800000 (Some 10000000) 40000000) (Published (api_rates_new 16000000 1600000 (Some 20000000) 60000000))))\<rparr>)\<rparr>)"

(* model_catalog.rs:1201-1230 bundled_catalog (gpt-5.6-terra) *)
definition bundled_gpt_5_6_terra :: "string list \<times> model_entry" where
  "bundled_gpt_5_6_terra = ([''gpt-5.6-terra''],
    \<lparr>me_credit = (credit_model (credit_rates_new 400 40 2400)
       (Some (credit_rates_new 1000 100 6000)) True),
     me_api = Some (\<lparr>am_standard = (api_tier (api_rates_new 2000000 200000 (Some 2500000) 12000000) (Published (api_rates_new 4000000 400000 (Some 5000000) 18000000))),
       am_fast = (Some (api_tier (api_rates_new 4000000 400000 (Some 5000000) 24000000) (Published (api_rates_new 8000000 800000 (Some 10000000) 36000000))))\<rparr>)\<rparr>)"

(* model_catalog.rs:1231-1241 bundled_catalog (gpt-5.6-luna) *)
definition bundled_gpt_5_6_luna :: "string list \<times> model_entry" where
  "bundled_gpt_5_6_luna = ([''gpt-5.6-luna''],
    \<lparr>me_credit = (credit_model (credit_rates_new 40 4 240)
       (Some (credit_rates_new 100 10 600)) True),
     me_api = (Some luna_api_rates)\<rparr>)"

(* model_catalog.rs:1242-1248 bundled_catalog (codex-auto-review) *)
definition bundled_codex_auto_review :: "string list \<times> model_entry" where
  "bundled_codex_auto_review = ([''codex-auto-review''],
    \<lparr>me_credit = None,
     me_api = (Some luna_api_rates)\<rparr>)"

(* model_catalog.rs:1249-1270 bundled_catalog (gpt-5.5) *)
definition bundled_gpt_5_5 :: "string list \<times> model_entry" where
  "bundled_gpt_5_5 = ([''gpt-5.5''],
    \<lparr>me_credit = (credit_model (credit_rates_new 1000 100 6000)
       (Some (credit_rates_new 2500 250 15000)) True),
     me_api = Some (\<lparr>am_standard = (api_tier (api_rates_new 5000000 500000 None 30000000) (Published (api_rates_new 10000000 1000000 None 45000000))),
       am_fast = (Some (api_tier (api_rates_new 12500000 1250000 None 75000000) Unavailable))\<rparr>)\<rparr>)"

(* model_catalog.rs:1271-1292 bundled_catalog (gpt-5.4) *)
definition bundled_gpt_5_4 :: "string list \<times> model_entry" where
  "bundled_gpt_5_4 = ([''gpt-5.4''],
    \<lparr>me_credit = (credit_model (credit_rates_new 500 50 3000)
       (Some (credit_rates_new 1000 100 6000)) True),
     me_api = Some (\<lparr>am_standard = (api_tier (api_rates_new 2500000 250000 None 15000000) (Published (api_rates_new 5000000 500000 None 22500000))),
       am_fast = (Some (api_tier (api_rates_new 5000000 500000 None 30000000) Unavailable))\<rparr>)\<rparr>)"

(* model_catalog.rs:1293-1312 bundled_catalog (gpt-5.4-mini) *)
definition bundled_gpt_5_4_mini :: "string list \<times> model_entry" where
  "bundled_gpt_5_4_mini = ([''gpt-5.4-mini''],
    \<lparr>me_credit = (credit_model (credit_rates_new 150 15 904)
       (Some (credit_rates_new 300 30 1808)) False),
     me_api = Some (\<lparr>am_standard = (api_tier (api_rates_new 750000 75000 None 4500000) Flat),
       am_fast = (Some (api_tier (api_rates_new 1500000 150000 None 9000000) Flat))\<rparr>)\<rparr>)"

(* model_catalog.rs:1313-1332 bundled_catalog (gpt-5.3-codex) *)
definition bundled_gpt_5_3_codex :: "string list \<times> model_entry" where
  "bundled_gpt_5_3_codex = ([''gpt-5.3-codex'', ''gpt-5.2''],
    \<lparr>me_credit = (credit_model (credit_rates_new 350 35 2800)
       (Some (credit_rates_new 350 35 2800)) False),
     me_api = Some (\<lparr>am_standard = (api_tier (api_rates_new 1750000 175000 None 14000000) Flat),
       am_fast = (Some (api_tier (api_rates_new 3500000 350000 None 28000000) Flat))\<rparr>)\<rparr>)"

(* model_catalog.rs:1333-1349 bundled_catalog (gpt-5.2-codex) *)
definition bundled_gpt_5_2_codex :: "string list \<times> model_entry" where
  "bundled_gpt_5_2_codex = ([''gpt-5.2-codex''],
    \<lparr>me_credit = (credit_model (credit_rates_new 350 35 2800)
       (Some (credit_rates_new 350 35 2800)) False),
     me_api = Some (\<lparr>am_standard = (api_tier (api_rates_new 1750000 175000 None 14000000) Flat),
       am_fast = None\<rparr>)\<rparr>)"

(* model_catalog.rs:1350-1370 bundled_catalog (gpt-5.6-cyber) *)
definition bundled_gpt_5_6_cyber :: "string list \<times> model_entry" where
  "bundled_gpt_5_6_cyber = ([''gpt-5.6-cyber'', ''daybreak-red-latest'', ''gpt-daybreak-red-latest''],
    \<lparr>me_credit = (credit_model (credit_rates_new 2500 250 15000)
       (Some (credit_rates_new 6250 625 37500)) True),
     me_api = Some (\<lparr>am_standard = (api_tier (api_rates_new 12500000 1250000 (Some 15625000) 75000000) Unavailable),
       am_fast = None\<rparr>)\<rparr>)"

(* model_catalog.rs:1371-1387 bundled_catalog (gpt-5.5-cyber) *)
definition bundled_gpt_5_5_cyber :: "string list \<times> model_entry" where
  "bundled_gpt_5_5_cyber = ([''gpt-5.5-cyber''],
    \<lparr>me_credit = (credit_model (credit_rates_new 2500 250 15000)
       (Some (credit_rates_new 6250 625 37500)) False),
     me_api = Some (\<lparr>am_standard = (api_tier (api_rates_new 12500000 1250000 None 75000000) Unavailable),
       am_fast = None\<rparr>)\<rparr>)"

definition bundled_entries :: "(string list \<times> model_entry) list" where
  "bundled_entries = [bundled_gpt_6_astra,
    bundled_gpt_6_1_sol,
    bundled_gpt_6_sol,
    bundled_gpt_6_luna,
    bundled_gpt_5_6_sol,
    bundled_gpt_5_6_terra,
    bundled_gpt_5_6_luna,
    bundled_codex_auto_review,
    bundled_gpt_5_5,
    bundled_gpt_5_4,
    bundled_gpt_5_4_mini,
    bundled_gpt_5_3_codex,
    bundled_gpt_5_2_codex,
    bundled_gpt_5_6_cyber,
    bundled_gpt_5_5_cyber]"

(* model_catalog.rs:1031-1041 bundled_catalog *)
definition bundled_catalog :: model_catalog where
  "bundled_catalog =
    \<lparr>mcat_estimator_revision = BUNDLED_ESTIMATOR_REVISION,
     mcat_api_pricing_catalog_revision = BUNDLED_API_PRICING_CATALOG_REVISION,
     mcat_rates_as_of = ''2026-10-01'',
     mcat_source_url = ''https://developers.openai.com/api/docs/pricing'',
     mcat_long_context_input_threshold = 272000,
     mcat_credit_fallback_model = ''gpt-5.6-luna'',
     mcat_models = fold insert_builtin bundled_entries []\<rparr>"

section \<open>Lookup\<close>

(* model_catalog.rs:226-232 lookup *)
definition lookup_model :: "model_catalog \<Rightarrow> string option \<Rightarrow> model_entry option" where
  "lookup_model cat model = (case model of
      None \<Rightarrow> None
    | Some m \<Rightarrow> (let n = normalize_model_name m in if n = [] then None else bt_get (mcat_models cat) n))"

(* model_catalog.rs:167-174 credit_rates *)
definition credit_rates :: "model_catalog \<Rightarrow> string option \<Rightarrow> bool \<Rightarrow> credit_token_rates option" where
  "credit_rates cat model fast =
    Option.bind (Option.bind (lookup_model cat model) me_credit) (\<lambda>r.
      if fast then cm_fast r else Some (cm_standard r))"

(* model_catalog.rs:176-190 fallback_credit_rates *)
definition fallback_credit_rates :: "model_catalog \<Rightarrow> bool \<Rightarrow> credit_token_rates option" where
  "fallback_credit_rates cat fast =
    Option.bind (Option.bind (bt_get (mcat_models cat) (mcat_credit_fallback_model cat)) me_credit) (\<lambda>r.
      if fast then cm_fast r else Some (cm_standard r))"

(* model_catalog.rs:192-196 model_supports_credit_long_context *)
definition model_supports_credit_long_context :: "model_catalog \<Rightarrow> string option \<Rightarrow> bool" where
  "model_supports_credit_long_context cat model =
    (case Option.bind (lookup_model cat model) me_credit of
       Some r \<Rightarrow> cm_long_context_pricing r | None \<Rightarrow> False)"

(* model_catalog.rs:198-200 api_model_rates *)
definition api_model_rates_of :: "model_catalog \<Rightarrow> string option \<Rightarrow> api_model_rates option" where
  "api_model_rates_of cat model = Option.bind (lookup_model cat model) me_api"

section \<open>Fingerprint\<close>

text \<open>The bytes fed to the digest: every field is framed by its label and its length.\<close>

(* model_catalog.rs:881-894 fingerprint_bytes *)
definition fingerprint_bytes :: "string \<Rightarrow> string \<Rightarrow> string" where
  "fingerprint_bytes label v = be_bytes 8 (length label) @ label @ be_bytes 8 (length v) @ v"

(* model_catalog.rs:865-867 fingerprint_bool *)
definition fingerprint_bool :: "string \<Rightarrow> bool \<Rightarrow> string" where
  "fingerprint_bool label v = fingerprint_bytes label [char_of (of_bool v :: nat)]"

(* model_catalog.rs:869-871 fingerprint_u32 *)
definition fingerprint_u32 :: "string \<Rightarrow> u32 \<Rightarrow> string" where
  "fingerprint_u32 label v = fingerprint_bytes label (be_bytes 4 (unat v))"

(* model_catalog.rs:873-875 fingerprint_u64 *)
definition fingerprint_u64 :: "string \<Rightarrow> u64 \<Rightarrow> string" where
  "fingerprint_u64 label v = fingerprint_bytes label (be_bytes 8 (unat v))"

(* model_catalog.rs:877-879 fingerprint_u128 *)
definition fingerprint_u128 :: "string \<Rightarrow> u128 \<Rightarrow> string" where
  "fingerprint_u128 label v = fingerprint_bytes label (be_bytes 16 (unat v))"

(* model_catalog.rs:816-821 fingerprint_credit_rates *)
definition fingerprint_credit_rates :: "string \<Rightarrow> credit_token_rates \<Rightarrow> string" where
  "fingerprint_credit_rates label r =
    fingerprint_bytes label []
    @ fingerprint_u128 ''credit-input'' (cr_input r)
    @ fingerprint_u128 ''credit-cached-input'' (cr_cached_input r)
    @ fingerprint_u128 ''credit-output'' (cr_output r)"

(* model_catalog.rs:799-814 fingerprint_credit_model *)
definition fingerprint_credit_model :: "credit_model_rates option \<Rightarrow> string" where
  "fingerprint_credit_model rates =
    fingerprint_bool ''credit-present'' (rates \<noteq> None)
    @ (case rates of None \<Rightarrow> [] | Some r \<Rightarrow>
        fingerprint_credit_rates ''credit-standard'' (cm_standard r)
        @ fingerprint_bool ''credit-fast-present'' (cm_fast r \<noteq> None)
        @ (case cm_fast r of None \<Rightarrow> [] | Some f \<Rightarrow> fingerprint_credit_rates ''credit-fast'' f)
        @ fingerprint_bool ''credit-long-context-pricing'' (cm_long_context_pricing r))"

(* model_catalog.rs:850-863 fingerprint_api_rates *)
definition fingerprint_api_rates :: "string \<Rightarrow> api_token_rates \<Rightarrow> string" where
  "fingerprint_api_rates label r =
    fingerprint_bytes label []
    @ fingerprint_u128 ''api-input'' (ar_input r)
    @ fingerprint_u128 ''api-cached-input'' (ar_cached_input r)
    @ fingerprint_bool ''api-cache-write-present'' (ar_cache_write r \<noteq> None)
    @ (case ar_cache_write r of None \<Rightarrow> [] | Some w \<Rightarrow> fingerprint_u128 ''api-cache-write'' w)
    @ fingerprint_u128 ''api-output'' (ar_output r)"

(* model_catalog.rs:835-848 fingerprint_api_tier *)
definition fingerprint_api_tier :: "string \<Rightarrow> api_tier_rates \<Rightarrow> string" where
  "fingerprint_api_tier label r =
    fingerprint_bytes label []
    @ fingerprint_api_rates ''api-short'' (at_short r)
    @ (case at_long r of
         Published l \<Rightarrow> fingerprint_bytes ''api-long-mode'' ''published''
           @ fingerprint_api_rates ''api-long'' l
       | Flat \<Rightarrow> fingerprint_bytes ''api-long-mode'' ''flat''
       | Unavailable \<Rightarrow> fingerprint_bytes ''api-long-mode'' ''unavailable'')"

(* model_catalog.rs:823-833 fingerprint_api_model *)
definition fingerprint_api_model :: "api_model_rates option \<Rightarrow> string" where
  "fingerprint_api_model rates =
    fingerprint_bool ''api-present'' (rates \<noteq> None)
    @ (case rates of None \<Rightarrow> [] | Some r \<Rightarrow>
        fingerprint_api_tier ''api-standard'' (am_standard r)
        @ fingerprint_bool ''api-fast-present'' (am_fast r \<noteq> None)
        @ (case am_fast r of None \<Rightarrow> [] | Some f \<Rightarrow> fingerprint_api_tier ''api-fast'' f))"

(* model_catalog.rs:791-795 catalog_fingerprint (entry) *)
definition fingerprint_entry :: "string \<times> model_entry \<Rightarrow> string" where
  "fingerprint_entry = (\<lambda>(name, entry). fingerprint_bytes ''model-name'' name
    @ fingerprint_credit_model (me_credit entry) @ fingerprint_api_model (me_api entry))"

(* model_catalog.rs:760-797 catalog_fingerprint *)
definition catalog_preimage :: "model_catalog \<Rightarrow> string" where
  "catalog_preimage cat =
    ''codex-usage-monit/model-catalog/v1'' @ [CHR 0x00]
    @ fingerprint_u32 ''catalog-version'' MODEL_CATALOG_VERSION
    @ fingerprint_u32 ''estimator-revision'' (mcat_estimator_revision cat)
    @ fingerprint_u32 ''api-pricing-catalog-revision'' (mcat_api_pricing_catalog_revision cat)
    @ fingerprint_bytes ''rates-as-of'' (mcat_rates_as_of cat)
    @ fingerprint_bytes ''source-url'' (mcat_source_url cat)
    @ fingerprint_u64 ''long-context-input-threshold'' (mcat_long_context_input_threshold cat)
    @ fingerprint_bytes ''credit-fallback-model'' (mcat_credit_fallback_model cat)
    @ fingerprint_u64 ''model-name-count'' (of_nat (length (mcat_models cat)))
    @ concat (List.map fingerprint_entry (mcat_models cat))"

(* model_catalog.rs:796-796 catalog_fingerprint (digest) *)
definition catalog_fingerprint :: "(string \<Rightarrow> string) \<Rightarrow> model_catalog \<Rightarrow> string" where
  "catalog_fingerprint sha256_hex cat = ''model-catalog-sha256-v1-'' @ sha256_hex (catalog_preimage cat)"

section \<open>Discovery\<close>

text \<open>Outcomes of the filesystem calls \<open>load_catalog\<close> makes, in its order.\<close>

datatype fs_stat = StatNotFound | StatError | StatOk bool
datatype fs_open = OpenNotFound | OpenSymlinkLoop | OpenError | OpenOk

record catalog_file =
  cf_stat :: fs_stat
  cf_open :: fs_open
  cf_handle_stat :: "bool option"
  cf_handle_len :: nat
  cf_read :: "string option"

(* model_catalog.rs:319-370 load_catalog *)
definition load_catalog ::
  "(string \<Rightarrow> catalog_config option) \<Rightarrow> catalog_file \<Rightarrow> catalog_error + model_catalog option" where
  "load_catalog parse_json f = (case cf_stat f of
      StatNotFound \<Rightarrow> Inr None
    | StatError \<Rightarrow> Inl CatalogIo
    | StatOk regular \<Rightarrow>
        if \<not> regular then Inl NotRegularFile
        else (case cf_open f of
            OpenNotFound \<Rightarrow> Inr None
          | OpenSymlinkLoop \<Rightarrow> Inl SymbolicLink
          | OpenError \<Rightarrow> Inl CatalogIo
          | OpenOk \<Rightarrow> (case cf_handle_stat f of
                None \<Rightarrow> Inl CatalogIo
              | Some handle_regular \<Rightarrow>
                  if \<not> handle_regular then Inl NotRegularFile
                  else if MAX_CATALOG_BYTES < cf_handle_len f then Inl CatalogTooLarge
                  else (case cf_read f of
                      None \<Rightarrow> Inl CatalogIo
                    | Some contents \<Rightarrow>
                        (let taken = take (MAX_CATALOG_BYTES + 1) contents in
                         if MAX_CATALOG_BYTES < length taken then Inl CatalogTooLarge
                         else and_then (parse_catalog parse_json taken) (\<lambda>cat. Inr (Some cat)))))))"

(* model_catalog.rs:122-129 CatalogState *)
record catalog_state =
  cst_catalog :: model_catalog
  cst_fingerprint :: string
  cst_configured_path :: "string option"
  cst_external :: bool
  cst_error :: "catalog_error option"

(* model_catalog.rs:131-138 CatalogStatus *)
record catalog_status =
  css_configured_path :: "string option"
  css_external :: bool
  css_estimator_revision :: u32
  css_api_pricing_catalog_revision :: u32
  css_fingerprint :: string

(* model_catalog.rs:305-311 configured_catalog_path *)
definition configured_catalog_path :: "string option \<Rightarrow> string option \<Rightarrow> string option" where
  "configured_catalog_path default_path path_override =
    (if path_override \<noteq> None then path_override else default_path)"

(* model_catalog.rs:255-303 discover_catalog *)
definition discover_catalog ::
  "(string \<Rightarrow> string) \<Rightarrow> (string \<Rightarrow> catalog_config option) \<Rightarrow> (string \<Rightarrow> catalog_file)
    \<Rightarrow> string option \<Rightarrow> string option \<Rightarrow> catalog_state" where
  "discover_catalog sha256_hex parse_json files default_path path_override =
    (let bundled = (\<lambda>path err. \<lparr>cst_catalog = bundled_catalog,
        cst_fingerprint = catalog_fingerprint sha256_hex bundled_catalog,
        cst_configured_path = path, cst_external = False, cst_error = err\<rparr>)
     in case configured_catalog_path default_path path_override of
          None \<Rightarrow> bundled None None
        | Some path \<Rightarrow> (case load_catalog parse_json (files path) of
              Inr (Some cat) \<Rightarrow> \<lparr>cst_catalog = cat,
                cst_fingerprint = catalog_fingerprint sha256_hex cat,
                cst_configured_path = Some path, cst_external = True, cst_error = None\<rparr>
            | Inr None \<Rightarrow> bundled (Some path) None
            | Inl e \<Rightarrow> bundled (Some path) (Some e)))"

(* model_catalog.rs:140-165 initialize *)
definition initialize ::
  "(string \<Rightarrow> string) \<Rightarrow> (string \<Rightarrow> catalog_config option) \<Rightarrow> (string \<Rightarrow> catalog_file)
    \<Rightarrow> string option \<Rightarrow> string option \<Rightarrow> catalog_state option
    \<Rightarrow> (catalog_error + catalog_status) \<times> catalog_state option" where
  "initialize sha256_hex parse_json files default_path path_override active =
    (let state = (case active of Some s \<Rightarrow> s
        | None \<Rightarrow> discover_catalog sha256_hex parse_json files default_path path_override)
     in (case cst_error state of
           Some e \<Rightarrow> Inl e
         | None \<Rightarrow> Inr \<lparr>css_configured_path = cst_configured_path state,
             css_external = cst_external state,
             css_estimator_revision = mcat_estimator_revision (cst_catalog state),
             css_api_pricing_catalog_revision = mcat_api_pricing_catalog_revision (cst_catalog state),
             css_fingerprint = cst_fingerprint state\<rparr>, Some state))"

section \<open>Invariant\<close>

definition credit_rates_bounded :: "credit_token_rates \<Rightarrow> bool" where
  "credit_rates_bounded r = (cr_input r \<le> MAX_CONFIGURED_RATE_UNITS
    \<and> cr_cached_input r \<le> MAX_CONFIGURED_RATE_UNITS \<and> cr_output r \<le> MAX_CONFIGURED_RATE_UNITS)"

definition api_rates_bounded :: "api_token_rates \<Rightarrow> bool" where
  "api_rates_bounded r = (ar_input r \<le> MAX_CONFIGURED_RATE_UNITS
    \<and> ar_cached_input r \<le> MAX_CONFIGURED_RATE_UNITS
    \<and> pred_option (\<lambda>w. w \<le> MAX_CONFIGURED_RATE_UNITS) (ar_cache_write r)
    \<and> ar_output r \<le> MAX_CONFIGURED_RATE_UNITS)"

fun api_long_bounded :: "api_long_context_rates \<Rightarrow> bool" where
  "api_long_bounded (Published r) = api_rates_bounded r"
| "api_long_bounded _ = True"

definition api_tier_bounded :: "api_tier_rates \<Rightarrow> bool" where
  "api_tier_bounded t = (api_rates_bounded (at_short t) \<and> api_long_bounded (at_long t))"

definition credit_model_ok :: "credit_model_rates \<Rightarrow> bool" where
  "credit_model_ok r = (credit_rates_bounded (cm_standard r) \<and> pred_option credit_rates_bounded (cm_fast r)
    \<and> (cm_long_context_pricing r \<longrightarrow> even (unat (cr_output (cm_standard r)))
        \<and> pred_option (\<lambda>f. even (unat (cr_output f))) (cm_fast r)))"

definition api_model_ok :: "api_model_rates \<Rightarrow> bool" where
  "api_model_ok r = (api_tier_bounded (am_standard r) \<and> pred_option api_tier_bounded (am_fast r))"

definition entry_ok :: "model_entry \<Rightarrow> bool" where
  "entry_ok e = (pred_option credit_model_ok (me_credit e) \<and> pred_option api_model_ok (me_api e))"

definition models_ok :: "(string, model_entry) btree \<Rightarrow> bool" where
  "models_ok m = (bt_wf m \<and> list_all (\<lambda>e. entry_ok (snd e)) m)"

definition catalog_ok :: "model_catalog \<Rightarrow> bool" where
  "catalog_ok cat = (models_ok (mcat_models cat) \<and> 0 < mcat_long_context_input_threshold cat
    \<and> fallback_credit_rates cat False \<noteq> None \<and> fallback_credit_rates cat True \<noteq> None)"

lemma transpose_ok_Inr:
  "transpose_ok f x = Inr y \<longleftrightarrow> (case x of None \<Rightarrow> y = None | Some v \<Rightarrow> \<exists>z. f v = Inr z \<and> y = Some z)"
  by (auto simp: transpose_ok_def result_simps split: option.splits)

lemma validate_rate_bounds_Inr:
  "validate_rate_bounds field rates = Inr u \<longleftrightarrow> (\<forall>r\<in>set rates. snd r \<le> MAX_CONFIGURED_RATE_UNITS)"
  by (auto simp: validate_rate_bounds_def find_None_iff find_Some_iff not_less not_le split: option.splits)

lemma credit_token_rates_from_config_bounded:
  "credit_token_rates_from_config c field = Inr r \<Longrightarrow> credit_rates_bounded r"
  by (auto simp: credit_token_rates_from_config_def result_simps validate_rate_bounds_Inr credit_rates_bounded_def)

lemma api_token_rates_from_config_bounded:
  "api_token_rates_from_config c field = Inr r \<Longrightarrow> api_rates_bounded r"
  by (auto simp: api_token_rates_from_config_def result_simps validate_rate_bounds_Inr api_rates_bounded_def
      transpose_ok_Inr split: option.splits)

lemma credit_model_rates_from_config_ok:
  "credit_model_rates_from_config c = Inr r \<Longrightarrow> credit_model_ok r"
  by (auto simp: credit_model_rates_from_config_def result_simps transpose_ok_Inr credit_model_ok_def
      credit_token_rates_from_config_bounded split: option.splits if_splits)

lemma api_tier_rates_from_config_bounded:
  "api_tier_rates_from_config c field = Inr r \<Longrightarrow> api_tier_bounded r"
  by (auto simp: api_tier_rates_from_config_def result_simps api_tier_bounded_def
      api_token_rates_from_config_bounded split: api_long_context_config.splits)

lemma api_model_rates_from_config_ok:
  "api_model_rates_from_config c = Inr r \<Longrightarrow> api_model_ok r"
  by (auto simp: api_model_rates_from_config_def result_simps transpose_ok_Inr api_model_ok_def
      api_tier_rates_from_config_bounded split: option.splits)

lemma list_all_bt_insert:
  "bt_wf m \<Longrightarrow> list_all (\<lambda>e. P (snd e)) m \<Longrightarrow> P v \<Longrightarrow> list_all (\<lambda>e. P (snd e)) (bt_insert k v m)"
  by (auto simp: list_all_iff set_bt_insert)

lemma insert_name_Inr:
  "insert_name name entry cat = Inr cat' \<longleftrightarrow>
    bt_get (mcat_models cat) (normalize_model_name name) = None
    \<and> cat' = cat\<lparr>mcat_models := bt_insert (normalize_model_name name) entry (mcat_models cat)\<rparr>"
  by (auto simp: insert_name_def Let_def)

text \<open>Inserting a model keeps the invariant, the header fields, and every name already there.\<close>

definition catalog_extends :: "model_catalog \<Rightarrow> model_catalog \<Rightarrow> bool" where
  "catalog_extends cat cat' = (bt_get (mcat_models cat) \<subseteq>\<^sub>m bt_get (mcat_models cat')
    \<and> cat'\<lparr>mcat_models := []\<rparr> = cat\<lparr>mcat_models := []\<rparr> \<and> models_ok (mcat_models cat'))"

lemma catalog_extends_trans:
  "catalog_extends a b \<Longrightarrow> catalog_extends b c \<Longrightarrow> catalog_extends a c"
  by (auto simp: catalog_extends_def intro: map_le_trans)

lemma insert_name_extends:
  assumes "insert_name name entry cat = Inr cat'" "entry_ok entry" "models_ok (mcat_models cat)"
  shows "catalog_extends cat cat'
    \<and> bt_get (mcat_models cat') (normalize_model_name name) = Some entry"
  using assms by (auto simp: insert_name_Inr catalog_extends_def models_ok_def bt_wf_insert
      bt_get_insert list_all_bt_insert map_le_def dom_def)

definition insert_aliases :: "model_entry \<Rightarrow> string list \<Rightarrow> model_catalog \<Rightarrow> catalog_error + model_catalog" where
  "insert_aliases entry = fold_ok (\<lambda>alias cat.
     and_then (validate_model_name ''model alias'' alias) (\<lambda>_. insert_name alias entry cat))"

lemma insert_aliases_extends:
  assumes "insert_aliases entry aliases cat = Inr cat'" "entry_ok entry" "models_ok (mcat_models cat)"
  shows "catalog_extends cat cat'
    \<and> (\<forall>a\<in>set aliases. bt_get (mcat_models cat') (normalize_model_name a) = Some entry)"
  using assms
proof (induction aliases arbitrary: cat)
  case Nil
  then show ?case by (simp add: insert_aliases_def catalog_extends_def)
next
  case (Cons a as)
  obtain mid where mid: "insert_name a entry cat = Inr mid" "insert_aliases entry as mid = Inr cat'"
    using Cons.prems(1) by (auto simp: insert_aliases_def result_simps)
  note first = insert_name_extends [OF mid(1) Cons.prems(2,3)]
  have rest: "catalog_extends mid cat'
      \<and> (\<forall>a\<in>set as. bt_get (mcat_models cat') (normalize_model_name a) = Some entry)"
    using first by (intro Cons.IH mid(2) Cons.prems(2)) (simp add: catalog_extends_def)
  then have "bt_get (mcat_models cat') (normalize_model_name a) = Some entry"
    using first by (auto simp: catalog_extends_def map_le_def dom_def)
  with first rest show ?case by (auto intro: catalog_extends_trans)
qed

lemma insert_configured_extends:
  assumes "insert_configured m cat = Inr cat'" "models_ok (mcat_models cat)"
  shows "catalog_extends cat cat' \<and> (\<exists>entry. entry_ok entry
    \<and> (\<forall>n\<in>set (mcf_id m # mcf_aliases m). bt_get (mcat_models cat') (normalize_model_name n) = Some entry))"
proof -
  obtain credit api mid where m:
    "transpose_ok credit_model_rates_from_config (mcf_credit m) = Inr credit"
    "transpose_ok api_model_rates_from_config (mcf_api m) = Inr api"
    "insert_name (mcf_id m) \<lparr>me_credit = credit, me_api = api\<rparr> cat = Inr mid"
    "insert_aliases \<lparr>me_credit = credit, me_api = api\<rparr> (mcf_aliases m) mid = Inr cat'"
    using assms(1) by (auto simp: insert_configured_def insert_aliases_def result_simps Let_def split: if_splits)
  let ?e = "\<lparr>me_credit = credit, me_api = api\<rparr>"
  have ok: "entry_ok ?e"
    using m(1,2) by (auto simp: entry_ok_def transpose_ok_Inr credit_model_rates_from_config_ok
        api_model_rates_from_config_ok split: option.splits)
  note first = insert_name_extends [OF m(3) ok assms(2)]
  have rest: "catalog_extends mid cat'
      \<and> (\<forall>a\<in>set (mcf_aliases m). bt_get (mcat_models cat') (normalize_model_name a) = Some ?e)"
    using first by (intro insert_aliases_extends m(4) ok) (simp add: catalog_extends_def)
  then have "bt_get (mcat_models cat') (normalize_model_name (mcf_id m)) = Some ?e"
    using first by (auto simp: catalog_extends_def map_le_def dom_def)
  with first rest ok show ?thesis by (auto intro: catalog_extends_trans)
qed

lemma insert_all_extends:
  assumes "fold_ok insert_configured ms cat = Inr cat'" "models_ok (mcat_models cat)"
  shows "catalog_extends cat cat' \<and> (\<forall>m\<in>set ms. \<exists>entry. entry_ok entry
    \<and> (\<forall>n\<in>set (mcf_id m # mcf_aliases m). bt_get (mcat_models cat') (normalize_model_name n) = Some entry))"
  using assms
proof (induction ms arbitrary: cat)
  case Nil
  then show ?case by (simp add: catalog_extends_def)
next
  case (Cons m ms)
  obtain mid where mid: "insert_configured m cat = Inr mid" "fold_ok insert_configured ms mid = Inr cat'"
    using Cons.prems(1) by (auto simp: result_simps)
  note first = insert_configured_extends [OF mid(1) Cons.prems(2)]
  have rest: "catalog_extends mid cat' \<and> (\<forall>m\<in>set ms. \<exists>entry. entry_ok entry
    \<and> (\<forall>n\<in>set (mcf_id m # mcf_aliases m). bt_get (mcat_models cat') (normalize_model_name n) = Some entry))"
    using first by (intro Cons.IH mid(2)) (simp add: catalog_extends_def)
  have keep: "bt_get (mcat_models cat') k = Some e" if "bt_get (mcat_models mid) k = Some e" for k e
    using rest that by (auto simp: catalog_extends_def map_le_def dom_def)
  show ?case using first rest keep catalog_extends_trans by (auto 0 3)
qed


lemma from_config_extends:
  assumes "from_config c = Inr cat"
  shows "catalog_ok cat \<and> (\<forall>m\<in>set (cc_models c). \<exists>entry. entry_ok entry
    \<and> (\<forall>n\<in>set (mcf_id m # mcf_aliases m). bt_get (mcat_models cat) (normalize_model_name n) = Some entry))"
proof -
  define cat0 where "cat0 = \<lparr>mcat_estimator_revision = cc_estimator_revision c,
       mcat_api_pricing_catalog_revision = cc_api_pricing_catalog_revision c,
       mcat_rates_as_of = cc_rates_as_of c,
       mcat_source_url = cc_source_url c,
       mcat_long_context_input_threshold = cc_long_context_input_threshold c,
       mcat_credit_fallback_model = normalize_model_name (cc_credit_fallback_model c),
       mcat_models = []\<rparr>"
  obtain fb where f: "fold_ok insert_configured (cc_models c) cat0 = Inr cat"
    "cc_long_context_input_threshold c \<noteq> 0"
    "Option.bind (bt_get (mcat_models cat) (mcat_credit_fallback_model cat)) me_credit = Some fb"
    "cm_fast fb \<noteq> None"
    using assms unfolding from_config_def cat0_def [symmetric] by (auto simp: result_simps)
  have "models_ok (mcat_models cat0)" by (simp add: cat0_def models_ok_def)
  note ext = insert_all_extends [OF f(1) this]
  then have "mcat_long_context_input_threshold cat = cc_long_context_input_threshold c"
    by (cases cat) (simp add: catalog_extends_def cat0_def)
  then show ?thesis
    using ext f by (auto simp: catalog_ok_def fallback_credit_rates_def catalog_extends_def word_gt_0)
qed

lemma models_ok_insert: "models_ok m \<Longrightarrow> entry_ok e \<Longrightarrow> models_ok (bt_insert k e m)"
  by (simp add: models_ok_def bt_wf_insert list_all_bt_insert)

lemma models_ok_insert_builtin:
  "models_ok m \<Longrightarrow> entry_ok (snd ne) \<Longrightarrow> models_ok (insert_builtin ne m)"
proof (cases ne)
  case (Pair names e)
  assume "models_ok m" "entry_ok (snd ne)"
  then show ?thesis unfolding Pair insert_builtin_def
    by (simp, induction names arbitrary: m) (auto intro: models_ok_insert)
qed

lemma models_ok_fold_builtin:
  "models_ok m \<Longrightarrow> list_all (\<lambda>ne. entry_ok (snd ne)) nes \<Longrightarrow> models_ok (fold insert_builtin nes m)"
  by (induction nes arbitrary: m) (auto intro: models_ok_insert_builtin)

lemmas bundled_defs = bundled_gpt_6_astra_def bundled_gpt_6_1_sol_def bundled_gpt_6_sol_def
  bundled_gpt_6_luna_def bundled_gpt_5_6_sol_def bundled_gpt_5_6_terra_def bundled_gpt_5_6_luna_def
  bundled_codex_auto_review_def bundled_gpt_5_5_def bundled_gpt_5_4_def bundled_gpt_5_4_mini_def
  bundled_gpt_5_3_codex_def bundled_gpt_5_2_codex_def bundled_gpt_5_6_cyber_def bundled_gpt_5_5_cyber_def

lemma MAX_CONFIGURED_RATE_UNITS_value: "MAX_CONFIGURED_RATE_UNITS = 3074457345618258602"
  by (simp add: MAX_CONFIGURED_RATE_UNITS_def word_unat_eq_iff unat_div unat_max_word unsigned_ucast_eq take_bit_eq_mod)

lemma bundled_entries_ok: "list_all (\<lambda>ne. entry_ok (snd ne)) bundled_entries"
  by (simp add: bundled_entries_def bundled_defs entry_ok_def credit_model_ok_def api_model_ok_def
      credit_model_def api_tier_def luna_api_rates_def credit_rates_new_def api_rates_new_def
      credit_rates_bounded_def api_rates_bounded_def api_tier_bounded_def MAX_CONFIGURED_RATE_UNITS_value)

lemma bundled_catalog_names:
  "bt_keys (mcat_models bundled_catalog) =
    [''codex-auto-review'', ''daybreak-blue-latest'', ''daybreak-red-latest'', ''gpt-5.2'',
     ''gpt-5.2-codex'', ''gpt-5.3-codex'', ''gpt-5.4'', ''gpt-5.4-mini'', ''gpt-5.5'', ''gpt-5.5-cyber'',
     ''gpt-5.6'', ''gpt-5.6-cyber'', ''gpt-5.6-luna'', ''gpt-5.6-sol'', ''gpt-5.6-terra'', ''gpt-6-astra'',
     ''gpt-6-luna'', ''gpt-6-sol'', ''gpt-6.1-sol'', ''gpt-daybreak-blue-latest'', ''gpt-daybreak-red-latest'']"
  by code_simp

lemma fallback_bundled:
  "fallback_credit_rates bundled_catalog fast
    = Some (if fast then credit_rates_new 100 10 600 else credit_rates_new 40 4 240)"
  by (cases fast) (simp, code_simp)+

lemma bundled_catalog_ok: "catalog_ok bundled_catalog"
proof -
  have "models_ok (mcat_models bundled_catalog)"
    by (simp add: bundled_catalog_def models_ok_fold_builtin bundled_entries_ok models_ok_def [of "[]"])
  then show ?thesis
    by (simp add: catalog_ok_def fallback_bundled) (simp add: bundled_catalog_def)
qed

lemma load_catalog_ok:
  "load_catalog parse_json f = Inr (Some cat) \<Longrightarrow> catalog_ok cat"
  by (auto simp: load_catalog_def parse_catalog_def Let_def result_simps dest: from_config_extends
      split: fs_stat.splits fs_open.splits option.splits if_splits)

section \<open>Decimal rates\<close>

lemma checked_pow10_Some: "checked_pow10 e = Some d \<longleftrightarrow> unat d = 10 ^ e"
  using if_of_nat_Some [of "10 ^ e" d] by (simp add: checked_pow10_def del: of_nat_power)

lemma pow10_small: "10 ^ e < (2::nat) ^ 128 \<Longrightarrow> e < 39"
proof (rule ccontr)
  assume "10 ^ e < (2::nat) ^ 128" "\<not> e < 39"
  then have "(10::nat) ^ 39 \<le> 10 ^ e" by (intro power_increasing) auto
  with \<open>10 ^ e < (2::nat) ^ 128\<close> show False by simp
qed

lemma pow10_length:
  assumes "unat (d :: u128) = 10 ^ min n (2 ^ 32 - 1)"
  shows "unat d = 10 ^ n"
proof -
  have "min n (2 ^ 32 - 1) < 39" using assms unat_bound [of d] by (intro pow10_small) simp
  then have "min n (2 ^ 32 - 1) = n" by simp
  with assms show ?thesis by simp
qed

lemma exact_quotient:
  assumes "(num :: u128) mod d = 0" shows "unat (num div d) * unat d = unat num"
proof -
  have "unat (num mod d) = 0" by (simp only: assms unsigned_0)
  then have "unat num mod unat d = 0" by (simp add: unat_mod)
  then show ?thesis by (auto simp: unat_div)
qed

lemma scaled_quotient:
  assumes "(case Option.bind (checked_mul w d) (\<lambda>v. Option.bind (checked_add v n) (\<lambda>v. checked_mul v scale)) of
      None \<Rightarrow> Inl e | Some num \<Rightarrow> if num mod d \<noteq> 0 then Inl e' else Inr (num div d)) = Inr (v :: u128)"
  shows "unat v * unat d = (unat w * unat d + unat n) * unat scale"
proof -
  obtain num where num: "Option.bind (checked_mul w d) (\<lambda>v. Option.bind (checked_add v n) (\<lambda>v. checked_mul v scale)) = Some num"
    "num mod d = 0" "v = num div d"
    using assms by (simp split: option.splits if_splits)
  from num(1) have "unat num = (unat w * unat d + unat n) * unat scale"
    by (auto simp: bind_eq_Some_conv checked_iffs)
  with exact_quotient [OF num(2)] num(3) show ?thesis by simp
qed

lemma scale_decimal_exact:
  assumes "scale_decimal whole fraction scale field = Inr v"
    and "list_all is_ascii_digit whole" "whole \<noteq> []"
    and "pred_option (\<lambda>f. list_all is_ascii_digit f \<and> f \<noteq> []) fraction"
    and digits: "digits = (case fraction of Some f \<Rightarrow> f | None \<Rightarrow> [])"
  shows "unat v * 10 ^ length digits
    = (decimal_value whole * 10 ^ length digits + decimal_value digits) * unat scale"
proof (cases fraction)
  case None
  obtain w where w: "parse_unsigned whole = Some w"
    and q: "(case Option.bind (checked_mul w 1) (\<lambda>v. Option.bind (checked_add v 0) (\<lambda>v. checked_mul v scale)) of
      None \<Rightarrow> Inl (DecimalTooLarge field) | Some num \<Rightarrow> if num mod 1 \<noteq> 0 then Inl (NotExact field) else Inr (num div 1)) = Inr v"
    using assms(1) unfolding scale_decimal_def None
    by (cases "parse_unsigned whole :: u128 option") (auto simp: ok_or_def and_then_def split: option.splits)
  have "unat w = decimal_value whole" using w parse_digits [OF assms(2,3)] by blast
  with scaled_quotient [OF q] show ?thesis by (simp add: digits None decimal_value_def)
next
  case (Some f)
  have f: "list_all is_ascii_digit f" "f \<noteq> []" using assms(4) Some by auto
  obtain w d n where w: "parse_unsigned whole = Some w"
    and d: "checked_pow10 (min (length f) (2 ^ 32 - 1)) = Some d" and n: "parse_unsigned f = Some n"
    and q: "(case Option.bind (checked_mul w d) (\<lambda>v. Option.bind (checked_add v n) (\<lambda>v. checked_mul v scale)) of
      None \<Rightarrow> Inl (DecimalTooLarge field) | Some num \<Rightarrow> if num mod d \<noteq> 0 then Inl (NotExact field) else Inr (num div d)) = Inr v"
    using assms(1) unfolding scale_decimal_def Some
    by (cases "parse_unsigned whole :: u128 option"; cases "checked_pow10 (min (length f) (2 ^ 32 - 1))";
        cases "parse_unsigned f :: u128 option"; simp add: ok_or_def and_then_def split: option.splits)
  have "unat w = decimal_value whole" "unat n = decimal_value f"
    by (rule iffD1 [OF parse_digits [OF assms(2,3)] w], rule iffD1 [OF parse_digits [OF f] n])
  moreover have "unat d = 10 ^ length f"
    by (rule pow10_length) (rule iffD1 [OF checked_pow10_Some d])
  ultimately show ?thesis using scaled_quotient [OF q] by (simp add: digits Some)
qed

section \<open>The fingerprint preimage\<close>

lemma frame_cancel:
  assumes "length v < 2 ^ 64" "length v' < 2 ^ 64"
  shows "fingerprint_bytes l v @ x = fingerprint_bytes l v' @ y \<longleftrightarrow> v = v' \<and> x = y"
proof -
  have pow: "(2::nat) ^ 64 = 256 ^ 8" by simp
  have "be_bytes 8 (length v) = be_bytes 8 (length v') \<Longrightarrow> length v = length v'"
    using assms unfolding pow by (rule be_bytes_inj)
  then show ?thesis by (auto simp: fingerprint_bytes_def append_eq_append_conv)
qed

lemma frame_bool [simp]:
  "fingerprint_bool l b @ x = fingerprint_bool l b' @ y \<longleftrightarrow> b = b' \<and> x = y"
  by (cases b; cases b') (auto simp: fingerprint_bool_def frame_cancel)

lemma frame_u32 [simp]:
  "fingerprint_u32 l v @ x = fingerprint_u32 l v' @ y \<longleftrightarrow> v = v' \<and> x = y"
  using be_bytes_inj [of "unat v" 4 "unat v'"] unat_bound [of v] unat_bound [of v']
  by (auto simp: fingerprint_u32_def frame_cancel word_unat_eq_iff)

lemma frame_u64 [simp]:
  "fingerprint_u64 l v @ x = fingerprint_u64 l v' @ y \<longleftrightarrow> v = v' \<and> x = y"
  using be_bytes_inj [of "unat v" 8 "unat v'"] unat_bound [of v] unat_bound [of v']
  by (auto simp: fingerprint_u64_def frame_cancel word_unat_eq_iff)

lemma frame_u128 [simp]:
  "fingerprint_u128 l v @ x = fingerprint_u128 l v' @ y \<longleftrightarrow> v = v' \<and> x = y"
  using be_bytes_inj [of "unat v" 16 "unat v'"] unat_bound [of v] unat_bound [of v']
  by (auto simp: fingerprint_u128_def frame_cancel word_unat_eq_iff)

lemma frame_credit_rates [simp]:
  "fingerprint_credit_rates l r @ x = fingerprint_credit_rates l r' @ y \<longleftrightarrow> r = r' \<and> x = y"
  by (cases r; cases r') (auto simp: fingerprint_credit_rates_def)

lemma frame_credit_model [simp]:
  "fingerprint_credit_model r @ x = fingerprint_credit_model r' @ y \<longleftrightarrow> r = r' \<and> x = y"
  by (cases r; cases r') (auto simp: fingerprint_credit_model_def split: option.splits
      intro!: credit_model_rates.equality)

lemma frame_api_rates [simp]:
  "fingerprint_api_rates l r @ x = fingerprint_api_rates l r' @ y \<longleftrightarrow> r = r' \<and> x = y"
  by (cases r; cases r') (auto simp: fingerprint_api_rates_def split: option.splits)

lemma frame_api_tier [simp]:
  "fingerprint_api_tier l r @ x = fingerprint_api_tier l r' @ y \<longleftrightarrow> r = r' \<and> x = y"
  by (cases r; cases r') (auto simp: fingerprint_api_tier_def frame_cancel split: api_long_context_rates.splits)

lemma frame_api_model [simp]:
  "fingerprint_api_model r @ x = fingerprint_api_model r' @ y \<longleftrightarrow> r = r' \<and> x = y"
  by (cases r; cases r') (auto simp: fingerprint_api_model_def split: option.splits
      intro!: api_model_rates.equality)

lemma frame_entries:
  assumes "length ms = length ms'" "list_all (\<lambda>e. length (fst e) < 2 ^ 64) ms"
    "list_all (\<lambda>e. length (fst e) < 2 ^ 64) ms'"
    "concat (List.map fingerprint_entry ms) = concat (List.map fingerprint_entry ms')"
  shows "ms = ms'"
  using assms
proof (induction ms ms' rule: list_induct2)
  case Nil
  then show ?case by simp
next
  case (Cons e ms e' ms')
  obtain n r n' r' where e: "e = (n, r)" "e' = (n', r')" by (cases e, cases e')
  have "n = n' \<and> me_credit r = me_credit r' \<and> me_api r = me_api r'
      \<and> concat (List.map fingerprint_entry ms) = concat (List.map fingerprint_entry ms')"
    using Cons.prems by (simp add: e fingerprint_entry_def frame_cancel)
  then show ?case using Cons.IH Cons.prems by (simp add: e)
qed

definition catalog_sized :: "model_catalog \<Rightarrow> bool" where
  "catalog_sized cat = (length (mcat_rates_as_of cat) < 2 ^ 64 \<and> length (mcat_source_url cat) < 2 ^ 64
    \<and> length (mcat_credit_fallback_model cat) < 2 ^ 64 \<and> length (mcat_models cat) < 2 ^ 64
    \<and> list_all (\<lambda>e. length (fst e) < 2 ^ 64) (mcat_models cat))"

lemma normalize_nonempty: "trim v \<noteq> [] \<Longrightarrow> normalize_model_name v \<noteq> []"
  by (simp add: normalize_model_name_def to_ascii_lowercase_def)

lemma validate_model_name_Inr: "validate_model_name f v = Inr u \<Longrightarrow> normalize_model_name v \<noteq> []"
  by (auto simp: validate_model_name_def Let_def normalize_nonempty split: if_splits)

lemma insert_aliases_validated:
  "insert_aliases entry as cat = Inr cat' \<Longrightarrow> a \<in> set as \<Longrightarrow> normalize_model_name a \<noteq> []"
  by (induction as arbitrary: cat)
    (auto simp: insert_aliases_def result_simps dest: validate_model_name_Inr)

lemma insert_configured_validated:
  "insert_configured m cat = Inr cat' \<Longrightarrow> n \<in> set (mcf_id m # mcf_aliases m) \<Longrightarrow> normalize_model_name n \<noteq> []"
  by (auto simp: insert_configured_def result_simps Let_def insert_aliases_def [symmetric]
      dest: validate_model_name_Inr insert_aliases_validated split: if_splits)

lemma from_config_names_nonempty:
  assumes "from_config c = Inr cat" "m \<in> set (cc_models c)" "n \<in> set (mcf_id m # mcf_aliases m)"
  shows "normalize_model_name n \<noteq> []"
proof -
  have all: "fold_ok insert_configured ms cat0 = Inr cat' \<Longrightarrow> m \<in> set ms \<Longrightarrow> normalize_model_name n \<noteq> []"
    for ms cat0 cat'
    by (induction ms arbitrary: cat0)
      (auto simp: result_simps dest: insert_configured_validated [OF _ assms(3)])
  show ?thesis
    using assms(1,2) by (auto simp: from_config_def result_simps dest: all)
qed

text \<open>A small accepted configuration.\<close>

definition sample_rates :: credit_token_rates_config where
  "sample_rates = \<lparr>crc_input = DecimalString ''5'', crc_cached_input = DecimalNumber ''0.5'',
     crc_output = DecimalString ''30.25''\<rparr>"

definition sample_config :: catalog_config where
  "sample_config = \<lparr>cc_version = 1, cc_estimator_revision = 9, cc_api_pricing_catalog_revision = 6,
     cc_rates_as_of = ''2026-10-02'', cc_source_url = ''file'', cc_long_context_input_threshold = 200000,
     cc_credit_fallback_model = ''Luna'',
     cc_models = [\<lparr>mcf_id = ''luna'', mcf_aliases = [''Moon''],
       mcf_credit = Some \<lparr>cmc_standard = sample_rates, cmc_fast = Some sample_rates,
         cmc_long_context_pricing = True\<rparr>, mcf_api = None\<rparr>]\<rparr>"

lemma sample_rates_ok:
  "credit_token_rates_from_config sample_rates field
    = Inr \<lparr>cr_input = 40, cr_cached_input = 4, cr_output = 242\<rparr>"
proof -
  have "parse_scaled_decimal (DecimalString ''5'') 8 f = Inr 40" for f
    by (simp add: parse_scaled_decimal_def trim_def char_is_whitespace_def byte_def is_continuation_def Let_def is_ascii_digit_def
      scale_decimal_def parse_unsigned_def decimal_value_def digit_value_def checked_mul_def checked_add_def)
  moreover have "parse_scaled_decimal (DecimalNumber ''0.5'') 8 f = Inr 4" for f
    by (simp add: parse_scaled_decimal_def trim_def char_is_whitespace_def byte_def is_continuation_def Let_def is_ascii_digit_def
      scale_decimal_def parse_unsigned_def decimal_value_def digit_value_def checked_mul_def checked_add_def checked_pow10_def)
  moreover have "parse_scaled_decimal (DecimalString ''30.25'') 8 f = Inr 242" for f
    by (simp add: parse_scaled_decimal_def trim_def char_is_whitespace_def byte_def is_continuation_def Let_def is_ascii_digit_def
      scale_decimal_def parse_unsigned_def decimal_value_def digit_value_def checked_mul_def checked_add_def checked_pow10_def)
  ultimately show ?thesis
    by (simp add: credit_token_rates_from_config_def sample_rates_def CREDIT_UNITS_PER_CREDIT_def
      validate_required_rates_def validate_rate_bounds_def MAX_CONFIGURED_RATE_UNITS_value)
qed

lemma sample_names:
  "validate_model_name f ''luna'' = Inr ()" "validate_model_name f ''Moon'' = Inr ()" "validate_model_name f ''Luna'' = Inr ()"
  "normalize_model_name ''luna'' = ''luna''" "normalize_model_name ''Moon'' = ''moon''" "normalize_model_name ''Luna'' = ''luna''"
  by (simp_all add: validate_model_name_def trim_def char_is_whitespace_def byte_def is_continuation_def
      Let_def char_is_control_def MAX_MODEL_NAME_BYTES_def) code_simp+

lemma sample_meta: "validate_metadata f ''2026-10-02'' = Inr ()" "validate_metadata f ''file'' = Inr ()"
  by (simp_all add: validate_metadata_def  trim_def char_is_whitespace_def byte_def is_continuation_def
       char_is_control_def MAX_METADATA_BYTES_def)

lemma sample_config_accepted: "\<exists>cat. from_config sample_config = Inr cat"
  by (simp add: from_config_def sample_config_def sample_names sample_meta MODEL_CATALOG_VERSION_def
      BUNDLED_ESTIMATOR_REVISION_def BUNDLED_API_PRICING_CATALOG_REVISION_def MAX_MODELS_def
      insert_configured_def transpose_ok_def credit_model_rates_from_config_def sample_rates_ok
      MAX_ALIASES_PER_MODEL_def insert_name_def Let_def)

section \<open>Properties\<close>

text \<open>
  Whatever the configuration path, the file and its contents are, the catalog that
  \<open>initialize\<close> activates is well formed: every rate is within the safe bound, long-context
  output rates are even, and the fallback model has Standard and Fast credit rates, so the
  \<open>expect\<close> calls of \<open>fallback_credit_rates\<close> cannot fail.  Later calls keep that catalog.
\<close>

theorem initialize_catalog_ok:
  "case snd (initialize sha parse files dflt path None) of
     Some s \<Rightarrow> catalog_ok (cst_catalog s)
       \<and> (\<forall>fast. fallback_credit_rates (cst_catalog s) fast \<noteq> None)
       \<and> (\<forall>files' dflt' path'. snd (initialize sha parse files' dflt' path' (Some s)) = Some s)
   | None \<Rightarrow> False"
proof -
  let ?s = "discover_catalog sha parse files dflt path"
  have ok: "catalog_ok (cst_catalog ?s)"
    using bundled_catalog_ok
    by (auto simp: discover_catalog_def Let_def load_catalog_ok split: option.splits sum.splits)
  moreover have "\<forall>fast. fallback_credit_rates (cst_catalog ?s) fast \<noteq> None"
    using ok unfolding catalog_ok_def by (metis (full_types))
  ultimately show ?thesis by (simp add: initialize_def Let_def)
qed

text \<open>
  In a catalog built from a configuration, the id and every alias of a model, in any
  spelling that normalises to them, look up one and the same entry.
\<close>

theorem from_config_names_resolve:
  assumes "from_config c = Inr cat" "m \<in> set (cc_models c)"
    and "n \<in> set (mcf_id m # mcf_aliases m)" "normalize_model_name n' = normalize_model_name n"
  shows "lookup_model cat (Some n') = lookup_model cat (Some (mcf_id m))
    \<and> lookup_model cat (Some n') \<noteq> None"
proof -
  obtain entry where e: "\<forall>n\<in>set (mcf_id m # mcf_aliases m).
      bt_get (mcat_models cat) (normalize_model_name n) = Some entry"
    using from_config_extends [OF assms(1)] assms(2) by blast
  have "normalize_model_name k \<noteq> []" if "k \<in> set (mcf_id m # mcf_aliases m)" for k
    using from_config_names_nonempty [OF assms(1,2) that] .
  then show ?thesis using e assms(3,4) by (auto simp: lookup_model_def Let_def)
qed

theorem from_config_names_resolve_witness:
  "\<exists>cat. from_config sample_config = Inr cat
     \<and> lookup_model cat (Some '' MOON'') = lookup_model cat (Some ''luna'')
     \<and> lookup_model cat (Some '' MOON'') \<noteq> None"
proof -
  obtain cat where cat: "from_config sample_config = Inr cat" using sample_config_accepted by blast
  have n: "normalize_model_name '' MOON'' = normalize_model_name ''Moon''" by code_simp
  have id: "mcf_id (hd (cc_models sample_config)) = ''luna''" by (simp add: sample_config_def)
  have "lookup_model cat (Some '' MOON'') = lookup_model cat (Some (mcf_id (hd (cc_models sample_config))))
     \<and> lookup_model cat (Some '' MOON'') \<noteq> None"
    by (rule from_config_names_resolve [OF cat _ _ n]) (simp_all add: sample_config_def)
  then show ?thesis using cat unfolding id by blast
qed

text \<open>
  A configured rate is read exactly: the accepted text is a plain decimal
  \<open>whole[.digits]\<close>, and the stored integer is its value times the scale, with no rounding.
\<close>

theorem parse_scaled_decimal_exact:
  assumes "parse_scaled_decimal v scale field = Inr r"
  shows "\<exists>whole digits. (trim (to_plain_string v) = whole \<and> digits = []
        \<or> trim (to_plain_string v) = whole @ CHR ''.'' # digits)
      \<and> list_all is_ascii_digit (whole @ digits)
      \<and> unat r * 10 ^ length digits
        = (decimal_value whole * 10 ^ length digits + decimal_value digits) * unat scale"
proof -
  let ?raw = "trim (to_plain_string v)"
  have join: "(\<exists>w ws. split_char c s = w # ws) \<and> s = hd (split_char c s) @ concat (List.map (\<lambda>p. c # p) (tl (split_char c s)))" for c s
    by (induction s) (auto split: list.splits)
  obtain whole rest where sp: "split_char CHR ''.'' ?raw = whole # rest"
    using join [of "CHR ''.''" ?raw] by auto
  have raw: "?raw = whole @ concat (List.map (\<lambda>p. CHR ''.'' # p) rest)"
    using join [of "CHR ''.''" ?raw] sp by simp
  have "length rest \<le> 1" and wd: "list_all is_ascii_digit whole" "whole \<noteq> []"
    using assms by (auto simp: parse_scaled_decimal_def Let_def sp split: if_splits)
  then consider "rest = []" | f where "rest = [f]" by (cases rest) auto
  then show ?thesis
  proof cases
    case 1
    then have "scale_decimal whole None scale field = Inr r"
      using assms by (simp add: parse_scaled_decimal_def Let_def sp split: if_splits)
    from scale_decimal_exact [OF this wd] show ?thesis
      using raw 1 wd by (intro exI [of _ whole] exI [of _ "[]"]) simp
  next
    case (2 f)
    then have sc: "scale_decimal whole (Some f) scale field = Inr r"
      and f: "list_all is_ascii_digit f" "f \<noteq> []"
      using assms by (auto simp: parse_scaled_decimal_def Let_def sp split: if_splits)
    from scale_decimal_exact [OF sc wd] show ?thesis
      using raw 2 wd f by (intro exI [of _ whole] exI [of _ f]) simp
  qed
qed

theorem parse_scaled_decimal_exact_witness:
  "\<exists>whole digits. (''30.25'' = whole \<and> digits = [] \<or> ''30.25'' = whole @ CHR ''.'' # digits)
      \<and> list_all is_ascii_digit (whole @ digits)
      \<and> unat (242 :: u128) * 10 ^ length digits
        = (decimal_value whole * 10 ^ length digits + decimal_value digits) * unat (8 :: u128)"
proof -
  have "parse_scaled_decimal (DecimalString ''30.25'') 8 ''input'' = Inr 242" by code_simp
  moreover have "trim (to_plain_string (DecimalString ''30.25'')) = ''30.25''" by code_simp
  ultimately show ?thesis
    using parse_scaled_decimal_exact [of "DecimalString ''30.25''" 8 "''input''" 242] by simp
qed

text \<open>
  The fingerprint covers the whole catalog: two catalogs with the same digest input are
  equal, so catalogs that differ anywhere can share a fingerprint only by a SHA-256 collision.
\<close>

theorem catalog_preimage_injective:
  assumes "catalog_sized a" "catalog_sized b" "catalog_preimage a = catalog_preimage b"
  shows "a = b"
proof -
  have ab: "mcat_estimator_revision a = mcat_estimator_revision b
    \<and> mcat_api_pricing_catalog_revision a = mcat_api_pricing_catalog_revision b
    \<and> mcat_rates_as_of a = mcat_rates_as_of b \<and> mcat_source_url a = mcat_source_url b
    \<and> mcat_long_context_input_threshold a = mcat_long_context_input_threshold b
    \<and> mcat_credit_fallback_model a = mcat_credit_fallback_model b
    \<and> (of_nat (length (mcat_models a)) :: u64) = of_nat (length (mcat_models b))
    \<and> concat (List.map fingerprint_entry (mcat_models a)) = concat (List.map fingerprint_entry (mcat_models b))"
    using assms by (simp add: catalog_preimage_def catalog_sized_def frame_cancel)
  have "unat (of_nat (length (mcat_models a)) :: u64) = unat (of_nat (length (mcat_models b)) :: u64)"
    using ab by simp
  then have "length (mcat_models a) = length (mcat_models b)"
    using assms(1,2) by (simp add: unat_of_nat catalog_sized_def)
  then have "mcat_models a = mcat_models b"
    using assms(1,2) ab by (intro frame_entries) (auto simp: catalog_sized_def)
  with ab show ?thesis by (intro model_catalog.equality) auto
qed

theorem catalog_preimage_injective_witness:
  "catalog_preimage \<lparr>mcat_estimator_revision = 9, mcat_api_pricing_catalog_revision = 6,
      mcat_rates_as_of = ''a'', mcat_source_url = ''b'', mcat_long_context_input_threshold = 7,
      mcat_credit_fallback_model = ''m'', mcat_models = [(''m'', \<lparr>me_credit = None, me_api = None\<rparr>)]\<rparr>
   \<noteq> catalog_preimage \<lparr>mcat_estimator_revision = 9, mcat_api_pricing_catalog_revision = 6,
      mcat_rates_as_of = ''a'', mcat_source_url = ''b'', mcat_long_context_input_threshold = 7,
      mcat_credit_fallback_model = ''m'', mcat_models = [(''n'', \<lparr>me_credit = None, me_api = None\<rparr>)]\<rparr>"
  by (rule notI, drule catalog_preimage_injective [rotated 2]) (simp_all add: catalog_sized_def)

end
