(* ===== verification/Api_Cost.thy ===== *)
theory Api_Cost
  imports Model_Catalog
begin

text \<open>
  API-equivalent pricing of rollout calls (\<open>src/api_cost.rs\<close>): the price of one call, the
  accumulators that add calls up by thread, turn and model, and the display format.
  Every function takes the active catalog as its first argument.

  The lemmas show that no product or sum saturates while the rates are bounded, that
  accumulators keep their coverage invariant, that each keyed accumulator equals the
  accumulator of the calls filtered by that key, and that the display rounds to nearest.
\<close>

section \<open>Pricing one call\<close>

(* api_cost.rs:34-38 ServiceTier *)
datatype service_tier = StandardTier | FastTier

(* api_cost.rs:40-48 CallCost *)
record call_cost =
  ck_minimum_pico_usd :: u128
  ck_maximum_pico_usd :: u128
  ck_observed_tokens :: u64
  ck_priced :: bool
  ck_partial_reason :: "string option"
  ck_assumption_reason :: "string option"

(* api_cost.rs:303-308 coverage_tokens *)
definition coverage_tokens :: "token_usage \<Rightarrow> u64" where
  "coverage_tokens t = max (sat_add (input_tokens t) (output_tokens t)) (total_tokens t)"

(* api_cost.rs:310-329 price_tokens *)
definition price_tokens :: "u64 \<Rightarrow> u64 \<Rightarrow> u64 \<Rightarrow> u64 \<Rightarrow> api_token_rates \<Rightarrow> u128 option" where
  "price_tokens inp cached_input cache_write out rates =
    Option.bind
      (if cache_write = 0 then Some 0
       else case ar_cache_write rates of
           Some rate \<Rightarrow> Some (sat_mul (ucast cache_write) rate)
         | None \<Rightarrow> None) (\<lambda>cache_write_cost.
    Some (sat_add (sat_add (sat_add (sat_mul (ucast inp) (ar_input rates))
        (sat_mul (ucast cached_input) (ar_cached_input rates)))
        cache_write_cost)
        (sat_mul (ucast out) (ar_output rates))))"

(* api_cost.rs:331-345 priced *)
definition priced :: "u64 \<Rightarrow> u128 \<Rightarrow> u128 \<Rightarrow> string option \<Rightarrow> call_cost" where
  "priced observed mn mx reason = \<lparr>ck_minimum_pico_usd = mn, ck_maximum_pico_usd = mx,
    ck_observed_tokens = observed, ck_priced = True, ck_partial_reason = reason,
    ck_assumption_reason = None\<rparr>"

(* api_cost.rs:347-356 unpriced *)
definition unpriced :: "u64 \<Rightarrow> string \<Rightarrow> call_cost" where
  "unpriced observed reason = \<lparr>ck_minimum_pico_usd = 0, ck_maximum_pico_usd = 0,
    ck_observed_tokens = observed, ck_priced = False, ck_partial_reason = Some reason,
    ck_assumption_reason = None\<rparr>"

text \<open>\<open>.map(str::trim).filter(|value| !value.is_empty())\<close>.\<close>

definition trimmed_nonempty :: "string option \<Rightarrow> string option" where
  "trimmed_nonempty s = (case s of None \<Rightarrow> None | Some v \<Rightarrow> if trim v = [] then None else Some (trim v))"

(* api_cost.rs:370-379 service_tier *)
definition service_tier_of :: "string option \<Rightarrow> service_tier option" where
  "service_tier_of s = Option.bind (trimmed_nonempty s) (\<lambda>v.
    if eq_ignore_ascii_case v ''default'' \<or> eq_ignore_ascii_case v ''standard'' then Some StandardTier
    else if eq_ignore_ascii_case v ''fast'' \<or> eq_ignore_ascii_case v ''priority'' then Some FastTier
    else None)"

(* api_cost.rs:389-391 is_codex_auto_review *)
definition is_codex_auto_review :: "string option \<Rightarrow> bool" where
  "is_codex_auto_review m = (case m of
      Some v \<Rightarrow> eq_ignore_ascii_case (trim v) ''codex-auto-review'' | None \<Rightarrow> False)"

(* api_cost.rs:358-368 service_tier_for_call *)
definition service_tier_for_call :: "usage_call \<Rightarrow> service_tier option" where
  "service_tier_for_call c =
    (let recorded = trimmed_nonempty (uc_service_tier c) in
     if recorded = None \<and> is_codex_auto_review (uc_model c) then Some StandardTier
     else service_tier_of recorded)"

(* api_cost.rs:381-387 model_name *)
definition model_name :: "usage_call \<Rightarrow> string" where
  "model_name c = (case trimmed_nonempty (uc_model c) of Some m \<Rightarrow> m | None \<Rightarrow> ''unknown'')"

(* api_cost.rs:401-409 api_rates_match_luna_proxy *)
definition api_rates_match_luna_proxy :: "api_model_rates option \<Rightarrow> api_model_rates option \<Rightarrow> bool" where
  "api_rates_match_luna_proxy a l = (a \<noteq> None \<and> l \<noteq> None \<and> a = l)"

(* api_cost.rs:393-399 auto_review_uses_luna_api_rates *)
definition auto_review_uses_luna_api_rates :: "model_catalog \<Rightarrow> string option \<Rightarrow> bool" where
  "auto_review_uses_luna_api_rates cat model =
    (is_codex_auto_review model
     \<and> api_rates_match_luna_proxy (api_model_rates_of cat (Some ''codex-auto-review''))
         (api_model_rates_of cat (Some ''gpt-5.6-luna'')))"

(* api_cost.rs:243-301 price_call_inner (tier rates known) *)
definition price_in_tier :: "model_catalog \<Rightarrow> usage_call \<Rightarrow> api_tier_rates \<Rightarrow> call_cost" where
  "price_in_tier cat c tier_rates =
    (let observed = coverage_tokens (uc_tokens c); tokens = uc_tokens c in
     if 0 < unclassified tokens then unpriced observed ''api_price_token_breakdown_missing''
     else if 0 < total_tokens tokens
       \<and> total_tokens tokens \<noteq> sat_add (input_tokens tokens) (output_tokens tokens)
     then unpriced observed ''api_price_token_breakdown_inconsistent''
     else case Option.bind (checked_sub (input_tokens tokens) (cached_input_tokens tokens))
         (\<lambda>v. checked_sub v (cache_write_input_tokens tokens)) of
       None \<Rightarrow> unpriced observed ''api_price_token_breakdown_inconsistent''
     | Some regular \<Rightarrow>
       (let price = price_tokens regular (cached_input_tokens tokens)
              (cache_write_input_tokens tokens) (output_tokens tokens)
        in case price (at_short tier_rates) of
          None \<Rightarrow> unpriced observed ''api_price_cache_write_rate_unavailable''
        | Some short_cost \<Rightarrow>
          if input_tokens tokens \<le> mcat_long_context_input_threshold cat
          then priced observed short_cost short_cost None
          else (case at_long tier_rates of
              Flat \<Rightarrow> priced observed short_cost short_cost None
            | Unavailable \<Rightarrow> unpriced observed ''api_price_long_context_unavailable''
            | Published long_rates \<Rightarrow>
              (case price long_rates of
                None \<Rightarrow> unpriced observed ''api_price_cache_write_rate_unavailable''
              | Some long_cost \<Rightarrow>
                if uc_request_usage_exact c then priced observed long_cost long_cost None
                else priced observed (min short_cost long_cost) (max short_cost long_cost)
                  (Some ''api_price_long_context_ambiguous'')))))"

(* api_cost.rs:226-242 price_call_inner *)
definition price_call_inner :: "model_catalog \<Rightarrow> usage_call \<Rightarrow> call_cost" where
  "price_call_inner cat c =
    (let observed = coverage_tokens (uc_tokens c) in
     case api_model_rates_of cat (uc_model c) of
       None \<Rightarrow> unpriced observed ''api_price_model_unknown''
     | Some rates \<Rightarrow>
       (case service_tier_for_call c of
          None \<Rightarrow> unpriced observed ''api_price_service_tier_unknown''
        | Some StandardTier \<Rightarrow> price_in_tier cat c (am_standard rates)
        | Some FastTier \<Rightarrow>
          (case am_fast rates of
             None \<Rightarrow> unpriced observed ''api_price_service_tier_unavailable''
           | Some fast \<Rightarrow> price_in_tier cat c fast)))"

(* api_cost.rs:218-224 price_call *)
definition price_call :: "model_catalog \<Rightarrow> usage_call \<Rightarrow> call_cost" where
  "price_call cat c =
    (let cost = price_call_inner cat c in
     if auto_review_uses_luna_api_rates cat (uc_model c)
     then cost\<lparr>ck_assumption_reason := Some ''api_price_codex_auto_review_luna_proxy''\<rparr> else cost)"

section \<open>Accumulators\<close>

text \<open>\<open>BTreeSet<String>\<close> is the key set of an ordered map to unit.\<close>

(* api_cost.rs:50-59 ApiCostAccumulator *)
record api_cost_accumulator =
  aa_minimum_pico_usd :: u128
  aa_maximum_pico_usd :: u128
  aa_observed_samples :: u64
  aa_priced_samples :: u64
  aa_observed_tokens :: u64
  aa_priced_tokens :: u64
  aa_partial_reasons :: "(string, unit) btree"

(* api_cost.rs:50-50 ApiCostAccumulator::default *)
definition accumulator_default :: api_cost_accumulator where
  "accumulator_default = \<lparr>aa_minimum_pico_usd = 0, aa_maximum_pico_usd = 0, aa_observed_samples = 0,
    aa_priced_samples = 0, aa_observed_tokens = 0, aa_priced_tokens = 0, aa_partial_reasons = []\<rparr>"

definition insert_reason :: "string option \<Rightarrow> (string, unit) btree \<Rightarrow> (string, unit) btree" where
  "insert_reason r m = (case r of Some v \<Rightarrow> bt_insert v () m | None \<Rightarrow> m)"

(* api_cost.rs:66-81 ApiCostAccumulator::add *)
definition accumulator_add :: "call_cost \<Rightarrow> api_cost_accumulator \<Rightarrow> api_cost_accumulator" where
  "accumulator_add cost a =
    (let p = ck_priced cost in
     \<lparr>aa_minimum_pico_usd =
        (if p then sat_add (aa_minimum_pico_usd a) (ck_minimum_pico_usd cost) else aa_minimum_pico_usd a),
      aa_maximum_pico_usd =
        (if p then sat_add (aa_maximum_pico_usd a) (ck_maximum_pico_usd cost) else aa_maximum_pico_usd a),
      aa_observed_samples = sat_add (aa_observed_samples a) 1,
      aa_priced_samples = (if p then sat_add (aa_priced_samples a) 1 else aa_priced_samples a),
      aa_observed_tokens = sat_add (aa_observed_tokens a) (ck_observed_tokens cost),
      aa_priced_tokens =
        (if p then sat_add (aa_priced_tokens a) (ck_observed_tokens cost) else aa_priced_tokens a),
      aa_partial_reasons = insert_reason (ck_assumption_reason cost)
        (insert_reason (ck_partial_reason cost) (aa_partial_reasons a))\<rparr>)"

(* api_cost.rs:62-64 ApiCostAccumulator::add_call *)
definition accumulator_add_call :: "model_catalog \<Rightarrow> usage_call \<Rightarrow> api_cost_accumulator \<Rightarrow> api_cost_accumulator" where
  "accumulator_add_call cat c = accumulator_add (price_call cat c)"

(* api_cost.rs:91-100 ApiCostAccumulator::amount *)
definition accumulator_amount :: "api_cost_accumulator \<Rightarrow> api_cost_amount" where
  "accumulator_amount a = \<lparr>minimum_pico_usd = aa_minimum_pico_usd a,
    maximum_pico_usd = aa_maximum_pico_usd a, observed_samples = aa_observed_samples a,
    priced_samples = aa_priced_samples a, observed_tokens = aa_observed_tokens a,
    priced_tokens = aa_priced_tokens a\<rparr>"

(* api_cost.rs:83-89 ApiCostAccumulator::summary *)
definition accumulator_summary :: "api_cost_accumulator \<Rightarrow> api_equivalent_cost" where
  "accumulator_summary a = \<lparr>ec_amount = accumulator_amount a,
    ec_partial_reasons = bt_keys (aa_partial_reasons a), ec_model_breakdown = []\<rparr>"

(* api_cost.rs:103-109 ApiCostAggregation *)
record api_cost_aggregation =
  ag_total :: api_cost_accumulator
  ag_threads :: "(string, api_cost_accumulator) btree"
  ag_turns :: "(string \<times> string, api_cost_accumulator) btree"
  ag_models :: "(string, api_cost_accumulator) btree"

(* api_cost.rs:103-103 ApiCostAggregation::default *)
definition aggregation_default :: api_cost_aggregation where
  "aggregation_default = \<lparr>ag_total = accumulator_default, ag_threads = [], ag_turns = [], ag_models = []\<rparr>"

(* api_cost.rs:112-129 ApiCostAggregation::add_call *)
definition aggregation_add_call :: "model_catalog \<Rightarrow> usage_call \<Rightarrow> api_cost_aggregation \<Rightarrow> api_cost_aggregation" where
  "aggregation_add_call cat c g =
    (let cost = price_call cat c in
     \<lparr>ag_total = accumulator_add cost (ag_total g),
      ag_threads = bt_update (uc_thread_id c) accumulator_default (accumulator_add cost) (ag_threads g),
      ag_turns = (case uc_turn_id c of
          Some t \<Rightarrow> bt_update (uc_thread_id c, t) accumulator_default (accumulator_add cost) (ag_turns g)
        | None \<Rightarrow> ag_turns g),
      ag_models = bt_update (model_name c) accumulator_default (accumulator_add cost) (ag_models g)\<rparr>)"

(* api_cost.rs:131-142 ApiCostAggregation::total *)
definition aggregation_total :: "api_cost_aggregation \<Rightarrow> api_equivalent_cost" where
  "aggregation_total g = (accumulator_summary (ag_total g))
    \<lparr>ec_model_breakdown := List.map (\<lambda>(m, a). \<lparr>mc_model = m, mc_amount = accumulator_amount a\<rparr>) (ag_models g)\<rparr>"

definition amount_or_default :: "api_cost_accumulator option \<Rightarrow> api_cost_amount" where
  "amount_or_default a = (case a of Some v \<Rightarrow> accumulator_amount v | None \<Rightarrow> api_cost_default)"

(* api_cost.rs:144-149 ApiCostAggregation::thread *)
definition aggregation_thread :: "api_cost_aggregation \<Rightarrow> string \<Rightarrow> api_cost_amount" where
  "aggregation_thread g t = amount_or_default (bt_get (ag_threads g) t)"

(* api_cost.rs:151-156 ApiCostAggregation::turn *)
definition aggregation_turn :: "api_cost_aggregation \<Rightarrow> string \<Rightarrow> string \<Rightarrow> api_cost_amount" where
  "aggregation_turn g t u = amount_or_default (bt_get (ag_turns g) (t, u))"

(* api_cost.rs:158-163 ApiCostAggregation::model *)
definition aggregation_model :: "api_cost_aggregation \<Rightarrow> string \<Rightarrow> api_cost_amount" where
  "aggregation_model g m = amount_or_default (bt_get (ag_models g) m)"

(* api_cost.rs:166-173 pricing_metadata *)
definition pricing_metadata :: "model_catalog \<Rightarrow> api_pricing_metadata" where
  "pricing_metadata cat = \<lparr>pm_catalog_revision = mcat_api_pricing_catalog_revision cat,
    pm_rates_as_of = mcat_rates_as_of cat, pm_source_url = mcat_source_url cat,
    pm_basis = ''current_api_rates_model_tokens_only''\<rparr>"

section \<open>Display\<close>

definition PICO_USD_PER_USD :: u128 where "PICO_USD_PER_USD = 1000000000000"

definition pad_left :: "nat \<Rightarrow> string \<Rightarrow> string" where
  "pad_left w s = replicate (w - length s) CHR ''0'' @ s"

(* api_cost.rs:200-206 format_pico_usd (decimals) *)
definition pico_usd_decimals :: "pico_usd \<Rightarrow> nat" where
  "pico_usd_decimals v =
    (if 0 < v \<and> v < PICO_USD_PER_USD div 10000 then 6
     else if v < PICO_USD_PER_USD * 1000 then 4 else 2)"

(* api_cost.rs:195-216 format_pico_usd *)
definition format_pico_usd :: "pico_usd \<Rightarrow> string" where
  "format_pico_usd v =
    (if 0 < v \<and> v < PICO_USD_PER_USD div 1000000 then ''<$0.000001''
     else (let decimals = pico_usd_decimals v;
               divisor = 10 ^ (12 - decimals);
               rounded = sat_add v (divisor div 2) div divisor;
               scale = 10 ^ decimals
           in ''$'' @ show_nat (unat (rounded div scale)) @ ''.''
              @ pad_left decimals (show_nat (unat (rounded mod scale)))))"

(* api_cost.rs:175-189 format_api_cost_amount *)
definition format_api_cost_amount :: "api_cost_amount \<Rightarrow> string" where
  "format_api_cost_amount c =
    (if (0 < observed_samples c \<or> 0 < observed_tokens c) \<and> priced_samples c = 0 then ''-''
     else (let mn = format_pico_usd (minimum_pico_usd c);
               formatted = (if range_is_exact c then mn
                 else mn @ [CHR 0xE2, CHR 0x80, CHR 0x93] @ format_pico_usd (maximum_pico_usd c))
           in if priced_samples c < observed_samples c \<or> priced_tokens c < observed_tokens c
              then formatted @ ''+'' else formatted))"

(* api_cost.rs:191-193 format_api_equivalent_cost *)
definition format_api_equivalent_cost :: "api_equivalent_cost \<Rightarrow> string" where
  "format_api_equivalent_cost c = format_api_cost_amount (ec_amount c)"

section \<open>Prices are exact\<close>

lemma unat_ucast_u64 [simp]: "unat (ucast (x :: u64) :: u128) = unat x"
  using unat_bound [of x] by (simp add: unsigned_ucast_eq take_bit_eq_mod)

lemma rate_product_bound:
  assumes "r \<le> MAX_CONFIGURED_RATE_UNITS"
  shows "unat (x :: u64) * unat r \<le> (2 ^ 64 - 1) * 3074457345618258602"
proof (rule mult_le_mono)
  show "unat x \<le> 2 ^ 64 - 1" using unat_le_max [of x] by simp
  show "unat r \<le> 3074457345618258602"
    using assms by (simp add: MAX_CONFIGURED_RATE_UNITS_value word_le_nat_alt)
qed

lemma unat_sat_mul_rate:
  assumes "r \<le> MAX_CONFIGURED_RATE_UNITS"
  shows "unat (sat_mul (ucast (x :: u64)) r) = unat x * unat r"
  using rate_product_bound [OF assms, of x] by (simp add: unat_sat_mul)

definition price_tokens_spec :: "u64 \<Rightarrow> u64 \<Rightarrow> u64 \<Rightarrow> u64 \<Rightarrow> api_token_rates \<Rightarrow> nat" where
  "price_tokens_spec inp cached cw out r =
    unat inp * unat (ar_input r) + unat cached * unat (ar_cached_input r)
    + unat cw * (case ar_cache_write r of Some w \<Rightarrow> unat w | None \<Rightarrow> 0) + unat out * unat (ar_output r)"

lemma price_tokens_exact:
  assumes "api_rates_bounded r" "price_tokens inp cached cw out r = Some v"
  shows "unat v = price_tokens_spec inp cached cw out r"
proof -
  have b: "ar_input r \<le> MAX_CONFIGURED_RATE_UNITS" "ar_cached_input r \<le> MAX_CONFIGURED_RATE_UNITS"
    "ar_output r \<le> MAX_CONFIGURED_RATE_UNITS"
    "ar_cache_write r = Some w \<Longrightarrow> w \<le> MAX_CONFIGURED_RATE_UNITS" for w
    using assms(1) by (auto simp: api_rates_bounded_def)
  obtain w where w: "(if cw = 0 then Some 0 else case ar_cache_write r of
      Some rate \<Rightarrow> Some (sat_mul (ucast cw) rate) | None \<Rightarrow> None) = Some w"
    and v: "v = sat_add (sat_add (sat_add (sat_mul (ucast inp) (ar_input r))
        (sat_mul (ucast cached) (ar_cached_input r))) w) (sat_mul (ucast out) (ar_output r))"
    using assms(2) by (auto simp: price_tokens_def bind_eq_Some_conv simp del: if_split_asm)
  have wv: "unat w = unat cw * (case ar_cache_write r of Some w \<Rightarrow> unat w | None \<Rightarrow> 0)"
    and wb: "unat w \<le> (2 ^ 64 - 1) * 3074457345618258602"
    using w rate_product_bound [OF b(4), of _ cw]
    by (auto simp: unat_sat_mul_rate [OF b(4)] split: if_splits option.splits)
  show ?thesis
    unfolding v price_tokens_spec_def wv [symmetric]
    using rate_product_bound [OF b(1), of inp] rate_product_bound [OF b(2), of cached]
      rate_product_bound [OF b(3), of out] wb
    by (simp add: unat_sat_add unat_sat_mul_rate b)
qed

section \<open>Costs and accumulators\<close>

definition call_cost_ok :: "call_cost \<Rightarrow> bool" where
  "call_cost_ok k = (ck_minimum_pico_usd k \<le> ck_maximum_pico_usd k
    \<and> (ck_partial_reason k = None \<longrightarrow> ck_priced k \<and> ck_minimum_pico_usd k = ck_maximum_pico_usd k))"

lemma call_cost_ok_priced [simp]: "call_cost_ok (priced t a b r) \<longleftrightarrow> a \<le> b \<and> (r = None \<longrightarrow> a = b)"
  by (auto simp: call_cost_ok_def priced_def)

lemma call_cost_ok_unpriced [simp]: "call_cost_ok (unpriced t r)"
  by (simp add: call_cost_ok_def unpriced_def)

lemma price_in_tier_ok: "call_cost_ok (price_in_tier cat c r)"
  by (simp add: price_in_tier_def Let_def min_le_iff_disj split: option.split api_long_context_rates.split)

lemma price_call_ok: "call_cost_ok (price_call cat c)"
proof -
  have "call_cost_ok (price_call_inner cat c)"
    by (simp add: price_call_inner_def Let_def price_in_tier_ok split: option.split service_tier.split)
  then show ?thesis by (simp add: price_call_def Let_def call_cost_ok_def)
qed

lemma price_call_observed: "ck_observed_tokens (price_call cat c) = coverage_tokens (uc_tokens c)"
proof -
  have "ck_observed_tokens (price_in_tier cat c r) = coverage_tokens (uc_tokens c)" for r
    by (simp add: price_in_tier_def Let_def priced_def unpriced_def split: option.split api_long_context_rates.split)
  then show ?thesis
    by (simp add: price_call_def price_call_inner_def Let_def priced_def unpriced_def split: option.split service_tier.split)
qed

definition accumulator_ok :: "api_cost_accumulator \<Rightarrow> bool" where
  "accumulator_ok a = (aa_minimum_pico_usd a \<le> aa_maximum_pico_usd a
    \<and> aa_priced_samples a \<le> aa_observed_samples a \<and> aa_priced_tokens a \<le> aa_observed_tokens a
    \<and> bt_wf (aa_partial_reasons a)
    \<and> (aa_partial_reasons a = [] \<longrightarrow> aa_minimum_pico_usd a = aa_maximum_pico_usd a
        \<and> aa_priced_samples a = aa_observed_samples a \<and> aa_priced_tokens a = aa_observed_tokens a))"

lemma accumulator_default_ok: "accumulator_ok accumulator_default"
  by (simp add: accumulator_ok_def accumulator_default_def)

lemma bt_insert_nonempty: "bt_insert k v m \<noteq> []"
  by (cases m) (auto split: if_splits)

lemma insert_reason_Nil: "insert_reason r m = [] \<longleftrightarrow> r = None \<and> m = []"
  by (cases r) (auto simp: insert_reason_def bt_insert_nonempty)

lemma bt_wf_insert_reason: "bt_wf m \<Longrightarrow> bt_wf (insert_reason r m)"
  by (cases r) (auto simp: insert_reason_def bt_wf_insert)

lemma le_sat_add_trans: "a \<le> b \<Longrightarrow> a \<le> sat_add b c"
  using le_sat_add(1) order.trans by blast

lemma accumulator_add_ok:
  assumes "accumulator_ok a" "call_cost_ok k"
  shows "accumulator_ok (accumulator_add k a)"
  using assms unfolding accumulator_ok_def accumulator_add_def call_cost_ok_def Let_def
  by (simp add: insert_reason_Nil bt_wf_insert_reason sat_add_mono le_sat_add_trans)

lemma fold_accumulator_ok:
  "accumulator_ok a \<Longrightarrow> accumulator_ok (fold (accumulator_add_call cat) calls a)"
  by (induction calls arbitrary: a)
    (auto simp: accumulator_add_call_def intro: accumulator_add_ok price_call_ok)

section \<open>Keyed accumulators\<close>

lemma aggregation_fold:
  "ag_total (fold (aggregation_add_call cat) calls g) = fold (accumulator_add_call cat) calls (ag_total g)"
  "ag_threads (fold (aggregation_add_call cat) calls g)
    = fold (\<lambda>c. bt_update (uc_thread_id c) accumulator_default (accumulator_add_call cat c)) calls (ag_threads g)"
  "ag_models (fold (aggregation_add_call cat) calls g)
    = fold (\<lambda>c. bt_update (model_name c) accumulator_default (accumulator_add_call cat c)) calls (ag_models g)"
  "ag_turns (fold (aggregation_add_call cat) calls g)
    = fold (\<lambda>c. bt_update (uc_thread_id c, the (uc_turn_id c)) accumulator_default (accumulator_add_call cat c))
        (filter (\<lambda>c. uc_turn_id c \<noteq> None) calls) (ag_turns g)"
  by (induction calls arbitrary: g)
    (auto simp: aggregation_add_call_def accumulator_add_call_def Let_def)

definition calls_amount :: "model_catalog \<Rightarrow> usage_call list \<Rightarrow> api_cost_amount" where
  "calls_amount cat calls = accumulator_amount (fold (accumulator_add_call cat) calls accumulator_default)"

lemma calls_amount_Nil: "calls_amount cat [] = api_cost_default"
  by (simp add: calls_amount_def accumulator_amount_def accumulator_default_def api_cost_default_def)

lemma keyed_amount:
  "amount_or_default (bt_get (fold (\<lambda>c. bt_update (key c) accumulator_default (accumulator_add_call cat c)) calls []) k)
    = calls_amount cat (filter (\<lambda>c. key c = k) calls)"
proof (cases "k \<in> key ` set calls")
  case True
  then show ?thesis by (simp add: amount_or_default_def calls_amount_def bt_get_fold_update)
next
  case False
  then have "filter (\<lambda>c. key c = k) calls = []" unfolding filter_empty_conv by (metis imageI)
  with False show ?thesis by (simp add: amount_or_default_def calls_amount_Nil bt_get_fold_update)
qed

section \<open>Rounding\<close>

lemma u128_pow10: "e \<le> 12 \<Longrightarrow> unat ((10::u128) ^ e) = 10 ^ e"
proof -
  assume "e \<le> 12"
  then have "(10::nat) ^ e \<le> 10 ^ 12" by (intro power_increasing) auto
  then have "unat (of_nat (10 ^ e) :: u128) = 10 ^ e" by (simp add: unat_of_nat del: of_nat_power)
  then show ?thesis by simp
qed

lemma decimals_cases: "pico_usd_decimals v = 6 \<or> pico_usd_decimals v = 4 \<or> pico_usd_decimals v = 2"
  by (simp add: pico_usd_decimals_def)

lemma rounds_to_nearest:
  fixes d v r :: nat
  assumes "0 < d" "r = (v + d div 2) div d"
  shows "r * d \<le> v + d div 2" "v < r * d + d - d div 2"
proof -
  show "r * d \<le> v + d div 2" unfolding assms(2) by (metis div_times_less_eq_dividend)
  have "(v + d div 2) mod d < d" using assms(1) by simp
  then have "v + d div 2 < r * d + d" unfolding assms(2) using div_mult_mod_eq [of "v + d div 2" d] by linarith
  then show "v < r * d + d - d div 2" by linarith
qed

lemma abs_half_unit:
  fixes a d v :: nat
  assumes "even d" "a \<le> v + d div 2" "v < a + d - d div 2"
  shows "2 * \<bar>int a - int v\<bar> \<le> int d"
proof -
  obtain b where b: "d = 2 * b" using assms(1) by (elim evenE)
  then have "a \<le> v + b" "v < a + b" using assms(2,3) by simp_all
  then have "int a \<le> int v + int b" "int v < int a + int b" by linarith+
  then have "\<bar>int a - int v\<bar> \<le> int b" unfolding abs_le_iff by linarith
  then show ?thesis unfolding b by simp
qed

lemma catalog_rates_bounded:
  assumes "catalog_ok cat" "api_model_rates_of cat m = Some rates"
    and "tier = am_standard rates \<or> am_fast rates = Some tier"
    and "r = at_short tier \<or> at_long tier = Published r"
  shows "api_rates_bounded r"
proof -
  obtain k e where e: "bt_get (mcat_models cat) k = Some e" "me_api e = Some rates"
    using assms(2) by (auto simp: api_model_rates_of_def lookup_model_def Let_def bind_eq_Some_conv
        split: option.splits if_splits)
  then have "entry_ok e"
    using assms(1) bt_get_SomeD [OF e(1)] by (auto simp: catalog_ok_def models_ok_def list_all_iff)
  then show ?thesis
    using e(2) assms(3,4) by (auto simp: entry_ok_def api_model_ok_def api_tier_bounded_def)
qed

section \<open>Properties\<close>

text \<open>
  With the rates of a well-formed catalog no product and no sum of a price saturates: the
  price of any 64-bit token counts is the exact sum of tokens times rates.
\<close>

theorem catalog_prices_exact:
  assumes "catalog_ok cat" "api_model_rates_of cat m = Some rates"
    and "tier = am_standard rates \<or> am_fast rates = Some tier"
    and "r = at_short tier \<or> at_long tier = Published r"
    and "price_tokens inp cached cw out r = Some v"
  shows "unat v = price_tokens_spec inp cached cw out r"
  by (rule price_tokens_exact [OF catalog_rates_bounded [OF assms(1-4)] assms(5)])

theorem catalog_prices_exact_witness:
  "unat (1170000 :: u128) = price_tokens_spec 2 1 3 0 (api_rates_new 200000 20000 (Some 250000) 1200000)"
proof -
  have m: "api_model_rates_of bundled_catalog (Some ''gpt-5.6-luna'') = Some luna_api_rates" by code_simp
  have r: "api_rates_new 200000 20000 (Some 250000) 1200000 = at_short (am_standard luna_api_rates)"
    by (simp add: luna_api_rates_def api_tier_def)
  have p: "price_tokens 2 1 3 0 (api_rates_new 200000 20000 (Some 250000) 1200000) = Some 1170000"
    by code_simp
  show ?thesis
    using catalog_prices_exact [OF bundled_catalog_ok m disjI1 [OF refl] disjI1 [OF r] p] by simp
qed

text \<open>
  C40. The aggregated cost of any list of calls is a sound range with sound coverage: the
  minimum is at most the maximum, priced counts are at most observed counts, and the result
  is fully exact precisely when no partial reason was recorded.
\<close>

theorem aggregation_total_sound:
  "let c = aggregation_total (fold (aggregation_add_call cat) calls aggregation_default) in
     minimum_pico_usd (ec_amount c) \<le> maximum_pico_usd (ec_amount c)
     \<and> priced_samples (ec_amount c) \<le> observed_samples (ec_amount c)
     \<and> priced_tokens (ec_amount c) \<le> observed_tokens (ec_amount c)
     \<and> (is_fully_exact c \<longleftrightarrow> ec_partial_reasons c = [])
     \<and> (cost_is_partial c \<longleftrightarrow> ec_partial_reasons c \<noteq> [])"
  using fold_accumulator_ok [OF accumulator_default_ok, of cat calls]
  by (auto simp: Let_def aggregation_total_def accumulator_summary_def accumulator_amount_def
      aggregation_fold aggregation_default_def accumulator_ok_def is_fully_exact_def
      cost_is_partial_def range_is_exact_def bt_keys_def)

text \<open>
  One pass over the calls computes what filtering would: the total, every thread, every
  turn and every model hold exactly the cost of their own calls.
\<close>

theorem aggregation_refines_filter:
  "let g = fold (aggregation_add_call cat) calls aggregation_default in
     ec_amount (aggregation_total g) = calls_amount cat calls
     \<and> aggregation_thread g t = calls_amount cat (filter (\<lambda>c. uc_thread_id c = t) calls)
     \<and> aggregation_turn g t u
         = calls_amount cat (filter (\<lambda>c. uc_thread_id c = t \<and> uc_turn_id c = Some u) calls)
     \<and> aggregation_model g m = calls_amount cat (filter (\<lambda>c. model_name c = m) calls)"
proof -
  define g where "g = fold (aggregation_add_call cat) calls aggregation_default"
  have "filter (\<lambda>c. (uc_thread_id c, the (uc_turn_id c)) = (t, u)) (filter (\<lambda>c. uc_turn_id c \<noteq> None) calls)
      = filter (\<lambda>c. uc_thread_id c = t \<and> uc_turn_id c = Some u) calls"
    by (auto simp: intro!: filter_cong)
  then have "aggregation_turn g t u = calls_amount cat (filter (\<lambda>c. uc_thread_id c = t \<and> uc_turn_id c = Some u) calls)"
    unfolding aggregation_turn_def g_def aggregation_fold by (simp add: aggregation_default_def keyed_amount)
  then show ?thesis unfolding g_def [symmetric] Let_def
    by (simp add: g_def aggregation_total_def accumulator_summary_def aggregation_default_def
        aggregation_thread_def aggregation_model_def aggregation_fold keyed_amount)
      (simp add: calls_amount_def)
qed

text \<open>
  The displayed dollar amount is the nearest multiple of its last digit: it differs from
  the exact amount by at most half a unit of the last displayed decimal.
\<close>

theorem format_pico_usd_rounds:
  assumes "v = 0 \<or> 1000000 \<le> v" "unat v + 5000000000 < 2 ^ 128"
  shows "\<exists>w f. format_pico_usd v
      = ''$'' @ show_nat w @ ''.'' @ pad_left (pico_usd_decimals v) (show_nat f)
    \<and> f < 10 ^ pico_usd_decimals v
    \<and> 2 * \<bar>int ((w * 10 ^ pico_usd_decimals v + f) * 10 ^ (12 - pico_usd_decimals v)) - int (unat v)\<bar>
        \<le> 10 ^ (12 - pico_usd_decimals v)"
proof -
  define n where "n = pico_usd_decimals v"
  define d :: nat where "d = 10 ^ (12 - n)"
  define r where "r = (unat v + d div 2) div d"
  have n: "n = 6 \<or> n = 4 \<or> n = 2" using decimals_cases [of v] by (simp add: n_def)
  have d: "0 < d" "even d" "d div 2 \<le> 5000000000" using n by (auto simp: d_def)
  have divisor: "unat ((10::u128) ^ (12 - n)) = d" by (simp add: u128_pow10 d_def)
  have scale: "unat ((10::u128) ^ n) = 10 ^ n" using n by (intro u128_pow10) auto
  have half: "unat ((10::u128) ^ (12 - n) div 2) = d div 2" by (simp add: unat_div divisor)
  have rounded: "unat (sat_add v (10 ^ (12 - n) div 2) div 10 ^ (12 - n)) = r"
    using assms(2) d(3) by (simp add: unat_div unat_sat_add half divisor r_def)
  have "format_pico_usd v = ''$'' @ show_nat (r div 10 ^ n) @ ''.'' @ pad_left n (show_nat (r mod 10 ^ n))"
  proof -
    have big: "\<not> (0 < v \<and> v < PICO_USD_PER_USD div 1000000)"
      using assms(1) by (auto simp: PICO_USD_PER_USD_def)
    have q: "unat (sat_add v (10 ^ (12 - n) div 2) div 10 ^ (12 - n) div 10 ^ n) = r div 10 ^ n"
      "unat (sat_add v (10 ^ (12 - n) div 2) div 10 ^ (12 - n) mod 10 ^ n) = r mod 10 ^ n"
      by (simp_all only: unat_div [of _ "10 ^ n"] unat_mod [of _ "10 ^ n"] rounded scale)
    show ?thesis
      by (simp only: format_pico_usd_def n_def [symmetric] Let_def big if_False q)
  qed
  moreover have "2 * \<bar>int (r * d) - int (unat v)\<bar> \<le> int d"
    using rounds_to_nearest [OF d(1) r_def] by (intro abs_half_unit d(2))
  moreover have "(r div 10 ^ n * 10 ^ n + r mod 10 ^ n) * 10 ^ (12 - n) = r * d"
    by (simp only: div_mult_mod_eq d_def)
  moreover have "int d = 10 ^ (12 - n)" by (simp add: d_def)
  moreover have "r mod 10 ^ n < 10 ^ n" by simp
  ultimately show ?thesis
    unfolding n_def [symmetric] by metis
qed

theorem format_pico_usd_rounds_witness:
  "\<exists>w f. format_pico_usd 1234567890123
      = ''$'' @ show_nat w @ ''.'' @ pad_left 4 (show_nat f)
    \<and> f < 10 ^ 4 \<and> 2 * \<bar>int ((w * 10 ^ 4 + f) * 10 ^ 8) - 1234567890123\<bar> \<le> 10 ^ 8"
proof -
  have d: "pico_usd_decimals 1234567890123 = 4" by (simp add: pico_usd_decimals_def PICO_USD_PER_USD_def)
  show ?thesis using format_pico_usd_rounds [of 1234567890123] unfolding d by simp
qed

end
