(* ===== verification/Attribution.thy ===== *)
theory Attribution
  imports Api_Cost
begin

text \<open>
  Attribution of local usage to the current Codex quota windows (\<open>src/attribution.rs\<close>):
  selection of the five-hour and weekly windows, the credit-weighted aggregation of the
  calls inside a window, the window analyses with their percentages, and the projection of
  the five-hour analysis onto tasks and turns.

  The active catalog and the range of representable instants are arguments.  The trace
  span for invalid windows is logging and left out.  \<open>Duration::try_minutes\<close> bounds the
  minutes by \<open>i64::MAX\<close> milliseconds; only 300 and 10080 reach it.
\<close>

(* attribution.rs:16-18 ANALYZED_WINDOW_DURATIONS *)
definition ANALYZED_WINDOW_DURATIONS :: "int list" where
  "ANALYZED_WINDOW_DURATIONS = [300, 10080]"

definition FIVE_HOURS_MINS :: int where "FIVE_HOURS_MINS = 300"
definition RESET_DRIFT_SECS :: int where "RESET_DRIFT_SECS = 120"

section \<open>Weights\<close>

(* attribution.rs:32-42 EstimatedUsageWeight *)
record estimated_usage_weight =
  ew_units :: u128
  ew_api_long_context_extra_units :: u128
  ew_used_model_fallback :: bool
  ew_used_token_breakdown_fallback :: bool
  ew_used_long_context_pricing :: bool
  ew_used_long_context_detection_fallback :: bool

(* attribution.rs:51-56 UsageAccumulator *)
record usage_accumulator =
  ua_tokens :: token_usage
  ua_estimated_cost_units :: u128
  ua_api_long_context_extra_cost_units :: u128

(* attribution.rs:51-51 UsageAccumulator::default *)
definition usage_accumulator_default :: usage_accumulator where
  "usage_accumulator_default = \<lparr>ua_tokens = token_usage_default, ua_estimated_cost_units = 0,
    ua_api_long_context_extra_cost_units = 0\<rparr>"

(* attribution.rs:59-65 UsageAccumulator::add_call *)
definition usage_add_call ::
  "usage_call \<Rightarrow> estimated_usage_weight \<Rightarrow> usage_accumulator \<Rightarrow> usage_accumulator" where
  "usage_add_call c e a =
    \<lparr>ua_tokens = token_add_assign (ua_tokens a) (uc_tokens c),
     ua_estimated_cost_units = sat_add (ua_estimated_cost_units a) (ew_units e),
     ua_api_long_context_extra_cost_units =
       sat_add (ua_api_long_context_extra_cost_units a) (ew_api_long_context_extra_units e)\<rparr>"

(* attribution.rs:67-74 UsageAccumulator::projected_cost_units *)
definition projected_cost_units :: "usage_accumulator \<Rightarrow> bool \<Rightarrow> u128" where
  "projected_cost_units a api_long_context =
    (if api_long_context
     then sat_add (ua_estimated_cost_units a) (ua_api_long_context_extra_cost_units a)
     else ua_estimated_cost_units a)"

(* attribution.rs:480-482 is_spark_model *)
definition is_spark_model :: "string option \<Rightarrow> bool" where
  "is_spark_model m = (case m of
      Some v \<Rightarrow> eq_ignore_ascii_case (trim v) ''gpt-5.3-codex-spark'' | None \<Rightarrow> False)"

(* attribution.rs:562-571 estimate_call_weight (units) *)
definition weight_units :: "u64 \<Rightarrow> u64 \<Rightarrow> u64 \<Rightarrow> credit_token_rates \<Rightarrow> u128" where
  "weight_units inp cached out r =
    sat_add (sat_add (sat_mul (ucast inp) (cr_input r)) (sat_mul (ucast cached) (cr_cached_input r)))
      (sat_mul (ucast out) (cr_output r))"

(* attribution.rs:534-555 estimate_call_weight (long context) *)
definition long_context_decision :: "model_catalog \<Rightarrow> usage_call \<Rightarrow> bool \<times> bool" where
  "long_context_decision cat c =
    (let tokens = uc_tokens c;
         used_token_breakdown_fallback = (0 < unclassified tokens);
         supports = (credit_rates cat (uc_model c) (call_is_fast c) \<noteq> None
           \<and> model_supports_credit_long_context cat (uc_model c));
         exact_request_input_tokens =
           (if uc_request_usage_exact c \<and> \<not> used_token_breakdown_fallback
            then Some (input_tokens tokens) else None);
         upper_bound =
           (if used_token_breakdown_fallback then total_tokens tokens else input_tokens tokens)
     in if \<not> supports \<or> token_is_zero tokens then (False, False)
        else case exact_request_input_tokens of
            Some request \<Rightarrow> (mcat_long_context_input_threshold cat < request, False)
          | None \<Rightarrow>
              if upper_bound \<le> mcat_long_context_input_threshold cat then (False, False)
              else (False, True))"

(* attribution.rs:522-581 estimate_call_weight *)
definition estimate_call_weight :: "model_catalog \<Rightarrow> usage_call \<Rightarrow> estimated_usage_weight option" where
  "estimate_call_weight cat c =
    (let published = credit_rates cat (uc_model c) (call_is_fast c);
         tokens = uc_tokens c;
         cached = min (cached_input_tokens tokens) (input_tokens tokens);
         inp = sat_add (input_tokens tokens - cached) (unclassified tokens);
         out = output_tokens tokens
     in Option.bind (case published of Some r \<Rightarrow> Some r
            | None \<Rightarrow> fallback_credit_rates cat (call_is_fast c)) (\<lambda>base_rates.
        let (used_long, detection_fallback) = long_context_decision cat c;
            long_rates = (if used_long then long_context base_rates else base_rates);
            units = weight_units inp cached out base_rates
        in Some \<lparr>ew_units = units,
             ew_api_long_context_extra_units = sat_sub (weight_units inp cached out long_rates) units,
             ew_used_model_fallback = (published = None \<and> \<not> token_is_zero tokens),
             ew_used_token_breakdown_fallback = (0 < unclassified tokens),
             ew_used_long_context_pricing = used_long,
             ew_used_long_context_detection_fallback = detection_fallback\<rparr>))"

section \<open>Window selection\<close>

(* attribution.rs:89-95 SelectedWindow *)
record selected_window =
  sw_bucket :: limit_bucket
  sw_window :: limit_window
  sw_starts_at :: datetime
  sw_ends_at :: datetime

(* attribution.rs:468-478 bucket_priority *)
fun bucket_priority :: "provenance \<Rightarrow> int" where
  "bucket_priority ServerSnapshot = 0"
| "bucket_priority Live = 1"
| "bucket_priority LocalExact = 2"
| "bucket_priority Inferred = 3"
| "bucket_priority Estimated = 4"
| "bucket_priority ProvenanceStale = 5"
| "bucket_priority ProvenanceUnknown = 6"

(* attribution.rs:484-490 is_current_window *)
definition is_current_window :: "chrono_range \<Rightarrow> selected_window \<Rightarrow> datetime \<Rightarrow> bool" where
  "is_current_window rng w now =
    (let earliest = (case checked_sub_signed rng (sw_starts_at w) (seconds RESET_DRIFT_SECS) of
        Some t \<Rightarrow> t | None \<Rightarrow> min_utc rng)
     in earliest \<le> now \<and> now < sw_ends_at w)"

(* attribution.rs:492-504 usable_window *)
definition usable_window :: "chrono_range \<Rightarrow> limit_bucket \<Rightarrow> limit_window \<Rightarrow> selected_window option" where
  "usable_window rng bucket window =
    Option.bind (case lw_window_duration_mins window of
        Some m \<Rightarrow> if 0 < m then Some m else None | None \<Rightarrow> None) (\<lambda>duration.
    Option.bind (lw_resets_at window) (\<lambda>ends_at.
    Option.bind (checked_sub_signed rng ends_at (minutes duration)) (\<lambda>starts_at.
      Some \<lparr>sw_bucket = bucket, sw_window = window, sw_starts_at = starts_at, sw_ends_at = ends_at\<rparr>)))"

(* attribution.rs:425-437 select_windows (one window) *)
definition candidate_window ::
  "chrono_range \<Rightarrow> datetime \<Rightarrow> limit_bucket \<Rightarrow> limit_window \<Rightarrow> selected_window option" where
  "candidate_window rng now bucket w =
    (if \<not> (case lw_window_duration_mins w of
          Some d \<Rightarrow> d \<in> set ANALYZED_WINDOW_DURATIONS | None \<Rightarrow> False) then None
     else case usable_window rng bucket w of
         Some selected \<Rightarrow> if is_current_window rng selected now then Some selected else None
       | None \<Rightarrow> None)"

(* attribution.rs:414-438 select_windows (candidates) *)
definition window_candidates :: "chrono_range \<Rightarrow> limit_bucket list \<Rightarrow> datetime \<Rightarrow> selected_window list" where
  "window_candidates rng limits now =
    concat (List.map (\<lambda>bucket.
      if \<not> eq_ignore_ascii_case (trim (lb_limit_id bucket)) ''codex'' then []
      else List.map_filter (\<lambda>window. Option.bind window (candidate_window rng now bucket))
        [lb_primary bucket, lb_secondary bucket]) limits)"

text \<open>The comparison chain as one lexicographic key; a reversed component is negated.\<close>

(* attribution.rs:448-455 select_windows (order) *)
definition window_key :: "selected_window \<Rightarrow> int option \<times> int \<times> int \<times> int" where
  "window_key w = (lw_window_duration_mins (sw_window w), bucket_priority (lb_provenance (sw_bucket w)),
    - lb_as_of (sw_bucket w), sw_ends_at w)"

(* attribution.rs:456-464 select_windows (first of each duration) *)
definition first_per_duration :: "selected_window list \<Rightarrow> selected_window list" where
  "first_per_duration ws = foldl (\<lambda>selected w.
    if list_ex (\<lambda>p. lw_window_duration_mins (sw_window p) = lw_window_duration_mins (sw_window w)) selected
    then selected else selected @ [w]) [] ws"

(* attribution.rs:414-466 select_windows *)
definition select_windows :: "chrono_range \<Rightarrow> limit_bucket list \<Rightarrow> datetime \<Rightarrow> selected_window list" where
  "select_windows rng limits now =
    first_per_duration (sort_key window_key (window_candidates rng limits now))"

section \<open>Aggregation inside a window\<close>

(* attribution.rs:77-87 WindowAggregation *)
record window_aggregation =
  wg_local_usage :: usage_accumulator
  wg_task_usage :: "(string, usage_accumulator) btree"
  wg_turn_usage :: "(string \<times> string, usage_accumulator) btree"
  wg_model_usage :: "(string, usage_accumulator) btree"
  wg_used_model_fallback :: bool
  wg_used_token_breakdown_fallback :: bool
  wg_used_long_context_detection_fallback :: bool
  wg_api_cost :: api_cost_aggregation

(* attribution.rs:77-77 WindowAggregation::default *)
definition window_aggregation_default :: window_aggregation where
  "window_aggregation_default = \<lparr>wg_local_usage = usage_accumulator_default, wg_task_usage = [],
    wg_turn_usage = [], wg_model_usage = [], wg_used_model_fallback = False,
    wg_used_token_breakdown_fallback = False, wg_used_long_context_detection_fallback = False,
    wg_api_cost = aggregation_default\<rparr>"

text \<open>One call of the loop; \<^const>\<open>None\<close> is the panic of a catalog without fallback rates.\<close>

(* attribution.rs:220-256 analyze_selected_window (loop body) *)
definition window_add_call :: "model_catalog \<Rightarrow> usage_call \<Rightarrow> window_aggregation \<Rightarrow> window_aggregation option" where
  "window_add_call cat c g =
    (let g = g\<lparr>wg_api_cost := aggregation_add_call cat c (wg_api_cost g)\<rparr>;
         touch = (\<lambda>f g. g\<lparr>
           wg_task_usage := bt_update (uc_thread_id c) usage_accumulator_default f (wg_task_usage g),
           wg_turn_usage := (case uc_turn_id c of
               Some t \<Rightarrow> bt_update (uc_thread_id c, t) usage_accumulator_default f (wg_turn_usage g)
             | None \<Rightarrow> wg_turn_usage g)\<rparr>)
     in if is_spark_model (uc_model c) then Some (touch (\<lambda>a. a) g)
        else case estimate_call_weight cat c of
            None \<Rightarrow> None
          | Some e \<Rightarrow>
              (let add = usage_add_call c e; g = touch add g
               in Some (g\<lparr>
                 wg_used_model_fallback := wg_used_model_fallback g \<or> ew_used_model_fallback e,
                 wg_used_token_breakdown_fallback :=
                   wg_used_token_breakdown_fallback g \<or> ew_used_token_breakdown_fallback e,
                 wg_used_long_context_detection_fallback :=
                   wg_used_long_context_detection_fallback g \<or> ew_used_long_context_detection_fallback e,
                 wg_local_usage := add (wg_local_usage g),
                 wg_model_usage := bt_update (model_name c) usage_accumulator_default add (wg_model_usage g)\<rparr>)))"

fun window_add_calls :: "model_catalog \<Rightarrow> usage_call list \<Rightarrow> window_aggregation \<Rightarrow> window_aggregation option" where
  "window_add_calls cat [] g = Some g"
| "window_add_calls cat (c # cs) g = Option.bind (window_add_call cat c g) (window_add_calls cat cs)"

(* attribution.rs:215-219 analyze_selected_window (filter) *)
definition calls_in_window :: "selected_window \<Rightarrow> datetime \<Rightarrow> usage_call list \<Rightarrow> usage_call list" where
  "calls_in_window w now calls =
    filter (\<lambda>c. sw_starts_at w \<le> uc_timestamp c \<and> uc_timestamp c \<le> now
      \<and> uc_timestamp c \<le> sw_ends_at w) calls"

(* attribution.rs:506-512 token_share *)
definition token_share :: "token_usage \<Rightarrow> u64 \<Rightarrow> f64" where
  "token_share tokens all_tokens =
    (if all_tokens = 0 then f64_zero else f64_percent (unat (total_tokens tokens)) (unat all_tokens))"

(* attribution.rs:514-520 cost_share *)
definition cost_share :: "u128 \<Rightarrow> u128 \<Rightarrow> f64" where
  "cost_share units all_units =
    (if all_units = 0 then f64_zero else f64_percent (unat units) (unat all_units))"

section \<open>Analyses\<close>

(* attribution.rs:280-305 build_window_analysis (usage) *)
definition usage_for ::
  "selected_window \<Rightarrow> bool \<Rightarrow> window_aggregation \<Rightarrow> usage_accumulator \<Rightarrow> api_cost_amount \<Rightarrow> window_usage" where
  "usage_for w api_long_context g usage cost =
    (let total = total_tokens (ua_tokens (wg_local_usage g));
         used_percent = f64_clamp f64_zero f64_hundred (lw_used_percent (sw_window w));
         confidence = (if total = 0 then ConfidenceUnknown else Low)
     in \<lparr>wu_token_usage = ua_tokens usage,
         wu_local_token_share_percent = token_share (ua_tokens usage) total,
         wu_estimated_quota_percent =
           f64_div (f64_mul used_percent (cost_share (projected_cost_units usage api_long_context)
             (projected_cost_units (wg_local_usage g) api_long_context))) f64_hundred,
         wu_quota_confidence = (if token_is_zero (ua_tokens usage) then ConfidenceUnknown else confidence),
         wu_api_equivalent_cost = cost\<rparr>)"

(* attribution.rs:324-340 build_window_analysis (models) *)
definition model_usage_for ::
  "selected_window \<Rightarrow> bool \<Rightarrow> window_aggregation \<Rightarrow> string \<times> usage_accumulator \<Rightarrow> model_usage" where
  "model_usage_for w api_long_context g = (\<lambda>(model, usage).
    let total = total_tokens (ua_tokens (wg_local_usage g));
        used_percent = f64_clamp f64_zero f64_hundred (lw_used_percent (sw_window w))
    in \<lparr>mu_model = model, mu_token_usage = ua_tokens usage,
        mu_local_token_share_percent = token_share (ua_tokens usage) total,
        mu_estimated_quota_percent =
          f64_div (f64_mul used_percent (cost_share (projected_cost_units usage api_long_context)
            (projected_cost_units (wg_local_usage g) api_long_context))) f64_hundred,
        mu_quota_confidence = (if total = 0 then ConfidenceUnknown else Low),
        mu_api_equivalent_cost = aggregation_model (wg_api_cost g) model\<rparr>)"

(* attribution.rs:342-364 build_window_analysis (summary) *)
definition attribution_summary_for :: "selected_window \<Rightarrow> bool \<Rightarrow> window_aggregation \<Rightarrow> attribution_summary" where
  "attribution_summary_for w settled g =
    (let total = total_tokens (ua_tokens (wg_local_usage g));
         used_percent = f64_clamp f64_zero f64_hundred (lw_used_percent (sw_window w))
     in \<lparr>as_window = Some \<lparr>wd_limit_id = lb_limit_id (sw_bucket w),
           wd_label = limit_window_label (sw_window w), wd_starts_at = sw_starts_at w,
           wd_ends_at = sw_ends_at w, wd_used_percent = used_percent\<rparr>,
         as_local_token_usage = ua_tokens (wg_local_usage g),
         as_observed_delta_percent = f64_zero,
         as_estimated_assigned_percent = f64_zero,
         as_proxy_projected_percent = (if total = 0 then f64_zero else used_percent),
         as_unattributed_percent = used_percent,
         as_attribution_coverage_percent = f64_zero,
         as_external_activity_possible = True,
         as_confidence = (if total = 0 then ConfidenceUnknown else Low),
         as_method = (if total = 0 then ''codex_gauge_without_local_tokens''
           else ''current_codex_gauge_credit_rate_weighted_proxy''),
         as_settled = settled\<rparr>)"

(* attribution.rs:366-378 build_window_analysis (partial reasons) *)
definition window_partial_reasons :: "bool \<Rightarrow> window_aggregation \<Rightarrow> bool \<Rightarrow> string list" where
  "window_partial_reasons api_long_context g stale =
    (if stale then [''quota_window_stale''] else [])
    @ (if wg_used_model_fallback g then [''unpriced_model_rate_fallback''] else [])
    @ (if wg_used_token_breakdown_fallback g then [''token_breakdown_missing''] else [])
    @ (if api_long_context \<and> wg_used_long_context_detection_fallback g
       then [''long_context_usage_unknown''] else [])"

(* attribution.rs:267-395 build_window_analysis *)
definition build_window_analysis ::
  "model_catalog \<Rightarrow> selected_window \<Rightarrow> bool \<Rightarrow> bool \<Rightarrow> window_aggregation \<Rightarrow> bool \<Rightarrow> window_analysis option" where
  "build_window_analysis cat w settled api_long_context g stale =
    (case lw_window_duration_mins (sw_window w) of
       None \<Rightarrow> None
     | Some duration \<Rightarrow>
       (let reasons = window_partial_reasons api_long_context g stale in
        Some (WindowAnalysis duration (attribution_summary_for w settled g) (reasons \<noteq> []) reasons
          (List.map (\<lambda>(t, u). \<lparr>thu_thread_id = t,
             thu_usage = usage_for w api_long_context g u (aggregation_thread (wg_api_cost g) t)\<rparr>)
             (wg_task_usage g))
          (List.map (\<lambda>((t, n), u). \<lparr>tnu_thread_id = t, tnu_turn_id = n,
             tnu_usage = usage_for w api_long_context g u (aggregation_turn (wg_api_cost g) t n)\<rparr>)
             (wg_turn_usage g))
          (List.map (model_usage_for w api_long_context g) (wg_model_usage g))
          (aggregation_total (wg_api_cost g)) (pricing_metadata cat) None)))"

fun with_api_long_context :: "window_analysis \<Rightarrow> window_analysis option \<Rightarrow> window_analysis" where
  "with_api_long_context (WindowAnalysis d a p r th tn m c pr _) l = WindowAnalysis d a p r th tn m c pr l"

(* attribution.rs:203-265 analyze_selected_window *)
definition analyze_selected_window ::
  "model_catalog \<Rightarrow> usage_call list \<Rightarrow> selected_window \<Rightarrow> datetime \<Rightarrow> bool \<Rightarrow> window_analysis option" where
  "analyze_selected_window cat calls w now settled =
    (let stale = (lb_provenance (sw_bucket w) = ProvenanceStale
           \<or> lb_provenance (sw_bucket w) = ProvenanceUnknown)
     in Option.bind (window_add_calls cat (calls_in_window w now calls) window_aggregation_default) (\<lambda>g.
        Option.bind (build_window_analysis cat w settled True g stale) (\<lambda>long.
        Option.bind (build_window_analysis cat w settled False g stale) (\<lambda>base.
          Some (with_api_long_context base (Some long))))))"

(* attribution.rs:191-201 is_settled *)
definition is_settled :: "task_record list \<Rightarrow> bool" where
  "is_settled tasks = list_all (\<lambda>t. tr_status t \<in> {TaskIdle, TaskCompleted, TaskInterrupted, TaskFailed}) tasks"

fun map_option_list :: "('a \<Rightarrow> 'b option) \<Rightarrow> 'a list \<Rightarrow> 'b list option" where
  "map_option_list f [] = Some []"
| "map_option_list f (x # xs) = Option.bind (f x) (\<lambda>y. map_option (Cons y) (map_option_list f xs))"

(* attribution.rs:102-115 analyze_windows *)
definition analyze_windows ::
  "model_catalog \<Rightarrow> chrono_range \<Rightarrow> task_record list \<Rightarrow> turn_record list \<Rightarrow> usage_call list
    \<Rightarrow> rate_observation list \<Rightarrow> limit_bucket list \<Rightarrow> datetime \<Rightarrow> window_analysis list option" where
  "analyze_windows cat rng tasks turns calls observations limits now =
    map_option_list (\<lambda>w. analyze_selected_window cat calls w now (is_settled tasks))
      (select_windows rng limits now)"

section \<open>Projection onto tasks and turns\<close>

(* attribution.rs:397-404 reset_records (tasks) *)
definition reset_task :: "task_record \<Rightarrow> task_record" where
  "reset_task t = t\<lparr>tr_window_token_usage := token_usage_default, tr_local_token_share_percent := f64_zero,
    tr_estimated_quota_percent := f64_zero, tr_quota_confidence := ConfidenceUnknown,
    tr_api_equivalent_cost := None\<rparr>"

(* attribution.rs:405-412 reset_records (turns) *)
definition reset_turn :: "turn_record \<Rightarrow> turn_record" where
  "reset_turn t = t\<lparr>tn_window_token_usage := token_usage_default, tn_local_token_share_percent := f64_zero,
    tn_estimated_quota_percent := f64_zero, tn_quota_confidence := ConfidenceUnknown,
    tn_api_equivalent_cost := None\<rparr>"

(* attribution.rs:166-174 project_five_hour_analysis (task) *)
definition project_task :: "(string, window_usage) btree \<Rightarrow> task_record \<Rightarrow> task_record" where
  "project_task usage t = (case bt_get usage (tr_thread_id t) of
      None \<Rightarrow> t
    | Some u \<Rightarrow> t\<lparr>tr_window_token_usage := wu_token_usage u,
        tr_local_token_share_percent := wu_local_token_share_percent u,
        tr_estimated_quota_percent := wu_estimated_quota_percent u,
        tr_quota_confidence := wu_quota_confidence u,
        tr_api_equivalent_cost := Some (wu_api_equivalent_cost u)\<rparr>)"

(* attribution.rs:175-186 project_five_hour_analysis (turn) *)
definition project_turn :: "(string \<times> string, window_usage) btree \<Rightarrow> turn_record \<Rightarrow> turn_record" where
  "project_turn usage t = (case bt_get usage (tn_thread_id t, tn_turn_id t) of
      None \<Rightarrow> t
    | Some u \<Rightarrow> t\<lparr>tn_window_token_usage := wu_token_usage u,
        tn_local_token_share_percent := wu_local_token_share_percent u,
        tn_estimated_quota_percent := wu_estimated_quota_percent u,
        tn_quota_confidence := wu_quota_confidence u,
        tn_api_equivalent_cost := Some (wu_api_equivalent_cost u)\<rparr>)"

(* attribution.rs:131-189 project_five_hour_analysis *)
definition project_five_hour_analysis ::
  "task_record list \<Rightarrow> turn_record list \<Rightarrow> window_analysis list
    \<Rightarrow> (model_usage list \<times> attribution_summary) \<times> task_record list \<times> turn_record list" where
  "project_five_hour_analysis tasks turns analyses =
    (let tasks = List.map reset_task tasks; turns = List.map reset_turn turns in
     case List.find (\<lambda>a. wa_duration_mins a = FIVE_HOURS_MINS
         \<and> (case as_window (wa_attribution a) of
              Some w \<Rightarrow> eq_ignore_ascii_case (trim (wd_limit_id w)) ''codex'' | None \<Rightarrow> False)) analyses of
       None \<Rightarrow> (([], attribution_summary_default\<lparr>as_settled := is_settled tasks\<rparr>), tasks, turns)
     | Some a \<Rightarrow>
       (let thread_usage = fold (\<lambda>t. bt_insert (thu_thread_id t) (thu_usage t)) (wa_threads a) [];
            turn_usage = fold (\<lambda>t. bt_insert (tnu_thread_id t, tnu_turn_id t) (tnu_usage t)) (wa_turns a) []
        in ((wa_models a, wa_attribution a), List.map (project_task thread_usage) tasks,
            List.map (project_turn turn_usage) turns)))"

(* attribution.rs:119-129 analyze_current_window *)
definition analyze_current_window ::
  "model_catalog \<Rightarrow> chrono_range \<Rightarrow> task_record list \<Rightarrow> turn_record list \<Rightarrow> usage_call list
    \<Rightarrow> rate_observation list \<Rightarrow> limit_bucket list \<Rightarrow> datetime
    \<Rightarrow> ((model_usage list \<times> attribution_summary) \<times> task_record list \<times> turn_record list) option" where
  "analyze_current_window cat rng tasks turns calls observations limits now =
    map_option (project_five_hour_analysis tasks turns)
      (analyze_windows cat rng tasks turns calls observations limits now)"

section \<open>Selection of windows: lemmas\<close>

abbreviation (input) window_duration :: "selected_window \<Rightarrow> int option" where
  "window_duration w \<equiv> lw_window_duration_mins (sw_window w)"

definition add_window :: "selected_window list \<Rightarrow> selected_window \<Rightarrow> selected_window list" where
  "add_window selected w = (if list_ex (\<lambda>p. window_duration p = window_duration w) selected
    then selected else selected @ [w])"

lemma first_per_duration_snoc:
  "first_per_duration (ws @ [w]) = add_window (first_per_duration ws) w"
  by (simp add: first_per_duration_def add_window_def)

lemma first_per_duration_props:
  "distinct (List.map window_duration (first_per_duration ws))
   \<and> set (first_per_duration ws) \<subseteq> set ws
   \<and> window_duration ` set (first_per_duration ws) = window_duration ` set ws"
proof (induction ws rule: rev_induct)
  case Nil
  then show ?case by (simp add: first_per_duration_def)
next
  case (snoc w ws)
  show ?case
  proof (cases "list_ex (\<lambda>p. window_duration p = window_duration w) (first_per_duration ws)")
    case True
    then have "window_duration w \<in> window_duration ` set (first_per_duration ws)"
      by (auto simp: list_ex_iff image_iff) metis
    then have "window_duration ` set (ws @ [w]) = window_duration ` set ws"
      using snoc by (simp add: insert_absorb)
    with snoc True show ?thesis by (auto simp: first_per_duration_snoc add_window_def)
  next
    case False
    then have "window_duration w \<notin> window_duration ` set (first_per_duration ws)"
      by (auto simp: list_ex_iff)
    with snoc False show ?thesis by (simp add: first_per_duration_snoc add_window_def) blast
  qed
qed

lemma first_per_duration_best:
  assumes "sorted (List.map window_key ws)" "w \<in> set ws"
  shows "\<exists>p\<in>set (first_per_duration ws). window_duration p = window_duration w \<and> window_key p \<le> window_key w"
  using assms
proof (induction ws arbitrary: w rule: rev_induct)
  case Nil
  then show ?case by simp
next
  case (snoc v ws)
  have IH: "\<exists>p\<in>set (first_per_duration ws). window_duration p = window_duration u \<and> window_key p \<le> window_key u"
    if "u \<in> set ws" for u
    using snoc.IH snoc.prems(1) that by (simp add: sorted_append)
  have le: "window_key u \<le> window_key v" if "u \<in> set ws" for u
    using snoc.prems(1) that by (auto simp: sorted_append)
  show ?case
  proof (cases "w = v")
    case True
    show ?thesis
    proof (cases "list_ex (\<lambda>p. window_duration p = window_duration v) (first_per_duration ws)")
      case True
      then obtain p where "p \<in> set (first_per_duration ws)" "window_duration p = window_duration v"
        by (auto simp: list_ex_iff)
      then show ?thesis
        using le first_per_duration_props [of ws] \<open>w = v\<close> True
        by (intro bexI [of _ p]) (auto simp: first_per_duration_snoc add_window_def)
    next
      case False
      then show ?thesis using \<open>w = v\<close> by (simp add: first_per_duration_snoc add_window_def)
    qed
  next
    case False
    then have "w \<in> set ws" using snoc.prems(2) by simp
    from IH [OF this] show ?thesis by (auto simp: first_per_duration_snoc add_window_def)
  qed
qed

lemma sorted_first_per_duration:
  "sorted (List.map window_key ws) \<Longrightarrow> sorted (List.map window_key (first_per_duration ws))"
proof (induction ws rule: rev_induct)
  case Nil
  then show ?case by (simp add: first_per_duration_def)
next
  case (snoc w ws)
  then show ?case
    using first_per_duration_props [of ws]
    by (auto simp: first_per_duration_snoc add_window_def sorted_append)
qed

lemma in_set_map_filter: "y \<in> set (List.map_filter f xs) \<longleftrightarrow> (\<exists>x\<in>set xs. f x = Some y)"
  by (force simp: List.map_filter_def)

lemma usable_window_Some:
  "usable_window rng b v = Some w \<Longrightarrow> sw_bucket w = b \<and> sw_window w = v
    \<and> (\<exists>d. lw_window_duration_mins v = Some d \<and> sw_starts_at w = sw_ends_at w - minutes d)"
  by (auto simp: usable_window_def bind_eq_Some_conv checked_sub_signed_Some split: option.splits if_splits)

lemma window_candidates_props:
  assumes "w \<in> set (window_candidates rng limits now)"
  shows "sw_bucket w \<in> set limits
    \<and> eq_ignore_ascii_case (trim (lb_limit_id (sw_bucket w))) ''codex''
    \<and> is_current_window rng w now
    \<and> (\<exists>d\<in>{300, 10080}. window_duration w = Some d \<and> sw_starts_at w = sw_ends_at w - minutes d)
    \<and> Some (sw_window w) \<in> {lb_primary (sw_bucket w), lb_secondary (sw_bucket w)}"
proof -
  obtain b where b: "b \<in> set limits"
    and wb: "w \<in> set (if \<not> eq_ignore_ascii_case (trim (lb_limit_id b)) ''codex'' then []
      else List.map_filter (\<lambda>window. Option.bind window (candidate_window rng now b)) [lb_primary b, lb_secondary b])"
    using assms unfolding window_candidates_def set_concat set_map by blast
  have codex: "eq_ignore_ascii_case (trim (lb_limit_id b)) ''codex''"
    using wb by (auto simp del: List.map_filter_simps split: if_split_asm)
  then obtain v where "candidate_window rng now b v = Some w"
    and src: "Some v \<in> {lb_primary b, lb_secondary b}"
    using wb by (simp only: if_False not_True_eq_False in_set_map_filter bind_eq_Some_conv) auto
  then have v: "(case lw_window_duration_mins v of Some d \<Rightarrow> d \<in> set ANALYZED_WINDOW_DURATIONS | None \<Rightarrow> False)"
    and w: "(case usable_window rng b v of
            Some selected \<Rightarrow> if is_current_window rng selected now then Some selected else None
          | None \<Rightarrow> None) = Some w"
    by (simp_all add: candidate_window_def split: if_split_asm)
  have u: "usable_window rng b v = Some w" "is_current_window rng w now"
    using w by (simp_all split: option.split_asm if_split_asm)
  then show ?thesis
    using b codex v src usable_window_Some [OF u(1)] by (auto simp: ANALYZED_WINDOW_DURATIONS_def split: option.split_asm)
qed

section \<open>Exact weights\<close>

lemma credit_rates_ok:
  assumes "catalog_ok cat"
    "(case credit_rates cat m fast of Some r \<Rightarrow> Some r | None \<Rightarrow> fallback_credit_rates cat fast) = Some r"
  shows "credit_rates_bounded r"
proof -
  have entry: "credit_rates_bounded r" if "bt_get (mcat_models cat) k = Some e" "me_credit e = Some cm"
    "(if fast then cm_fast cm else Some (cm_standard cm)) = Some r" for k e cm r
  proof -
    have "entry_ok e" using assms(1) bt_get_SomeD [OF that(1)]
      by (auto simp: catalog_ok_def models_ok_def list_all_iff)
    then show ?thesis using that(2,3) by (auto simp: entry_ok_def credit_model_ok_def split: if_splits)
  qed
  show ?thesis
    using assms(2) entry
    by (auto simp: credit_rates_def fallback_credit_rates_def lookup_model_def Let_def bind_eq_Some_conv
        split: option.splits if_splits simp del: if_split_asm)
qed

definition weight_spec :: "u64 \<Rightarrow> u64 \<Rightarrow> u64 \<Rightarrow> credit_token_rates \<Rightarrow> nat" where
  "weight_spec inp cached out r =
    unat inp * unat (cr_input r) + unat cached * unat (cr_cached_input r) + unat out * unat (cr_output r)"

lemma weight_units_exact:
  assumes "credit_rates_bounded r"
  shows "unat (weight_units inp cached out r) = weight_spec inp cached out r"
    and "weight_spec inp cached out r \<le> 3 * ((2 ^ 64 - 1) * 3074457345618258602)"
proof -
  have b: "cr_input r \<le> MAX_CONFIGURED_RATE_UNITS" "cr_cached_input r \<le> MAX_CONFIGURED_RATE_UNITS"
    "cr_output r \<le> MAX_CONFIGURED_RATE_UNITS"
    using assms by (auto simp: credit_rates_bounded_def)
  note pb = rate_product_bound [OF b(1), of inp] rate_product_bound [OF b(2), of cached]
    rate_product_bound [OF b(3), of out]
  show "weight_spec inp cached out r \<le> 3 * ((2 ^ 64 - 1) * 3074457345618258602)"
    unfolding weight_spec_def using pb by simp
  show "unat (weight_units inp cached out r) = weight_spec inp cached out r"
    unfolding weight_units_def weight_spec_def using pb by (simp add: unat_sat_add unat_sat_mul_rate b)
qed

lemma unat_long_context:
  assumes "credit_rates_bounded r"
  shows "unat (cr_input (long_context r)) = 2 * unat (cr_input r)"
    "unat (cr_cached_input (long_context r)) = 2 * unat (cr_cached_input r)"
    "unat (cr_output (long_context r)) = 3 * unat (cr_output r) div 2"
  using assms by (auto simp: credit_rates_bounded_def MAX_CONFIGURED_RATE_UNITS_value long_context_def
      unat_sat_mul unat_div word_le_nat_alt)

lemma long_weight_exact:
  assumes "credit_rates_bounded r" "even (unat (cr_output r))"
  shows "unat (weight_units inp cached out (long_context r))
    = weight_spec inp cached out r
      + (unat inp * unat (cr_input r) + unat cached * unat (cr_cached_input r) + unat out * (unat (cr_output r) div 2))"
proof -
  have b: "cr_input r \<le> MAX_CONFIGURED_RATE_UNITS" "cr_cached_input r \<le> MAX_CONFIGURED_RATE_UNITS"
    "cr_output r \<le> MAX_CONFIGURED_RATE_UNITS"
    using assms(1) by (auto simp: credit_rates_bounded_def)
  obtain h where h: "unat (cr_output r) = 2 * h" using assms(2) by (elim evenE)
  note pb = rate_product_bound [OF b(1), of inp] rate_product_bound [OF b(2), of cached]
    rate_product_bound [OF b(3), of out]
  have out3: "unat (cr_output (long_context r)) = 3 * h"
    using h unat_long_context(3) [OF assms(1)] by simp
  have oh: "2 * (unat out * h) \<le> (2 ^ 64 - 1) * 3074457345618258602" using pb(3) h by simp
  have m: "unat (sat_mul (ucast inp) (cr_input (long_context r))) = 2 * (unat inp * unat (cr_input r))"
    "unat (sat_mul (ucast cached) (cr_cached_input (long_context r))) = 2 * (unat cached * unat (cr_cached_input r))"
    "unat (sat_mul (ucast out) (cr_output (long_context r))) = 3 * (unat out * h)"
    using pb oh by (simp_all add: unat_sat_mul unat_long_context(1,2) [OF assms(1)] out3)
  show ?thesis
    unfolding weight_units_def weight_spec_def unat_sat_add m h using pb(1,2) oh by (simp add: mult.commute [of h])
qed

definition effective_rates :: "model_catalog \<Rightarrow> usage_call \<Rightarrow> credit_token_rates option" where
  "effective_rates cat c = (case credit_rates cat (uc_model c) (call_is_fast c) of Some r \<Rightarrow> Some r
     | None \<Rightarrow> fallback_credit_rates cat (call_is_fast c))"

lemma effective_rates_ok:
  assumes "catalog_ok cat"
  shows "\<exists>r. effective_rates cat c = Some r \<and> credit_rates_bounded r"
proof -
  have "effective_rates cat c \<noteq> None"
    using assms unfolding effective_rates_def catalog_ok_def
    by (cases "call_is_fast c") (auto split: option.splits)
  then show ?thesis using credit_rates_ok [OF assms] by (auto simp: effective_rates_def)
qed

lemma long_context_even:
  assumes "catalog_ok cat" "fst (long_context_decision cat c)" "effective_rates cat c = Some r"
  shows "even (unat (cr_output r))"
proof -
  have d: "credit_rates cat (uc_model c) (call_is_fast c) = Some r"
    "model_supports_credit_long_context cat (uc_model c)"
    using assms(2,3) by (auto simp: long_context_decision_def Let_def effective_rates_def split: if_splits option.splits)
  then obtain k e cm where e: "bt_get (mcat_models cat) k = Some e" "me_credit e = Some cm"
    "(if call_is_fast c then cm_fast cm else Some (cm_standard cm)) = Some r" "cm_long_context_pricing cm"
    by (auto simp: credit_rates_def model_supports_credit_long_context_def lookup_model_def Let_def
        bind_eq_Some_conv simp del: if_split_asm split: option.splits)
       (auto split: if_splits)
  have "entry_ok e" using assms(1) bt_get_SomeD [OF e(1)]
    by (auto simp: catalog_ok_def models_ok_def list_all_iff)
  then show ?thesis using e by (auto simp: entry_ok_def credit_model_ok_def split: if_splits)
qed

lemma estimate_call_weight_total: "catalog_ok cat \<Longrightarrow> \<exists>e. estimate_call_weight cat c = Some e"
  using effective_rates_ok [of cat c]
  by (auto simp: estimate_call_weight_def effective_rates_def Let_def split: prod.splits)

section \<open>Aggregation: lemmas\<close>

definition call_weight_step :: "model_catalog \<Rightarrow> usage_call \<Rightarrow> usage_accumulator \<Rightarrow> usage_accumulator" where
  "call_weight_step cat c = (if is_spark_model (uc_model c) then (\<lambda>a. a)
     else usage_add_call c (the (estimate_call_weight cat c)))"

definition quota_usage :: "model_catalog \<Rightarrow> usage_call list \<Rightarrow> usage_accumulator" where
  "quota_usage cat calls = fold (\<lambda>c. usage_add_call c (the (estimate_call_weight cat c)))
     (filter (\<lambda>c. \<not> is_spark_model (uc_model c)) calls) usage_accumulator_default"

lemma fold_call_weight_step:
  "fold (call_weight_step cat) calls a = fold (\<lambda>c. usage_add_call c (the (estimate_call_weight cat c)))
     (filter (\<lambda>c. \<not> is_spark_model (uc_model c)) calls) a"
  by (induction calls arbitrary: a) (auto simp: call_weight_step_def)

lemma fold_call_weight_quota:
  "fold (call_weight_step cat) calls usage_accumulator_default = quota_usage cat calls"
  by (simp add: fold_call_weight_step quota_usage_def)

definition window_step :: "model_catalog \<Rightarrow> usage_call \<Rightarrow> window_aggregation \<Rightarrow> window_aggregation" where
  "window_step cat c g = the (window_add_call cat c g)"

lemma window_add_call_step:
  assumes "catalog_ok cat"
  shows "window_add_call cat c g = Some (window_step cat c g)"
    and "wg_api_cost (window_step cat c g) = aggregation_add_call cat c (wg_api_cost g)"
    and "wg_local_usage (window_step cat c g) = call_weight_step cat c (wg_local_usage g)"
    and "wg_task_usage (window_step cat c g)
      = bt_update (uc_thread_id c) usage_accumulator_default (call_weight_step cat c) (wg_task_usage g)"
    and "wg_turn_usage (window_step cat c g) = (case uc_turn_id c of
         Some t \<Rightarrow> bt_update (uc_thread_id c, t) usage_accumulator_default (call_weight_step cat c) (wg_turn_usage g)
       | None \<Rightarrow> wg_turn_usage g)"
    and "wg_model_usage (window_step cat c g) = (if is_spark_model (uc_model c) then wg_model_usage g
       else bt_update (model_name c) usage_accumulator_default (call_weight_step cat c) (wg_model_usage g))"
  using estimate_call_weight_total [OF assms, of c]
  by (auto simp: window_add_call_def window_step_def call_weight_step_def Let_def split: option.split)

lemma window_add_calls_fold:
  assumes "catalog_ok cat"
  shows "window_add_calls cat calls g = Some (fold (window_step cat) calls g)"
  by (induction calls arbitrary: g) (simp_all add: window_add_call_step(1) [OF assms])

lemma window_fold:
  assumes "catalog_ok cat"
  shows "wg_api_cost (fold (window_step cat) calls g) = fold (aggregation_add_call cat) calls (wg_api_cost g)"
    and "wg_local_usage (fold (window_step cat) calls g) = fold (call_weight_step cat) calls (wg_local_usage g)"
    and "wg_task_usage (fold (window_step cat) calls g)
      = fold (\<lambda>c. bt_update (uc_thread_id c) usage_accumulator_default (call_weight_step cat c)) calls (wg_task_usage g)"
    and "wg_model_usage (fold (window_step cat) calls g)
      = fold (\<lambda>c. bt_update (model_name c) usage_accumulator_default (call_weight_step cat c))
          (filter (\<lambda>c. \<not> is_spark_model (uc_model c)) calls) (wg_model_usage g)"
    and "wg_turn_usage (fold (window_step cat) calls g)
      = fold (\<lambda>c. bt_update (uc_thread_id c, the (uc_turn_id c)) usage_accumulator_default (call_weight_step cat c))
          (filter (\<lambda>c. uc_turn_id c \<noteq> None) calls) (wg_turn_usage g)"
  by (induction calls arbitrary: g) (auto simp: window_add_call_step [OF assms])

lemma window_aggregation_default_simps [simp]:
  "wg_local_usage window_aggregation_default = usage_accumulator_default"
  "wg_task_usage window_aggregation_default = []" "wg_turn_usage window_aggregation_default = []"
  "wg_model_usage window_aggregation_default = []"
  "wg_api_cost window_aggregation_default = aggregation_default"
  by (simp_all add: window_aggregation_default_def)

section \<open>Shares\<close>

definition usage_le :: "usage_accumulator \<Rightarrow> usage_accumulator \<Rightarrow> bool" where
  "usage_le a b = (total_tokens (ua_tokens a) \<le> total_tokens (ua_tokens b)
    \<and> ua_estimated_cost_units a \<le> ua_estimated_cost_units b
    \<and> ua_api_long_context_extra_cost_units a \<le> ua_api_long_context_extra_cost_units b)"

lemma usage_le_default: "usage_le usage_accumulator_default b"
  by (simp add: usage_le_def usage_accumulator_default_def token_usage_default_def)

lemma usage_le_step:
  "usage_le a b \<Longrightarrow> usage_le (call_weight_step cat c a) (call_weight_step cat c b)"
  "usage_le a b \<Longrightarrow> usage_le a (call_weight_step cat c b)"
  by (auto simp: usage_le_def call_weight_step_def usage_add_call_def token_add_assign_def
      intro: sat_add_mono le_sat_add_trans)

text \<open>Folding over fewer calls gives less usage.\<close>

lemma usage_le_filter:
  "usage_le a b \<Longrightarrow> usage_le (fold (call_weight_step cat) (filter P calls) a) (fold (call_weight_step cat) calls b)"
  by (induction calls arbitrary: a b) (auto simp: usage_le_step)

lemma keyed_usage_le:
  assumes "(k, u) \<in> set (fold (\<lambda>c. bt_update (key c) usage_accumulator_default (call_weight_step cat c)) (filter P calls) [])"
  shows "usage_le u (fold (call_weight_step cat) calls usage_accumulator_default)"
proof -
  have "bt_get (fold (\<lambda>c. bt_update (key c) usage_accumulator_default (call_weight_step cat c)) (filter P calls) []) k = Some u"
    using assms by (simp add: bt_get_Some_iff bt_wf_fold_update)
  then have "u = fold (call_weight_step cat) (filter (\<lambda>c. key c = k) (filter P calls)) usage_accumulator_default"
    by (auto simp: bt_get_fold_update split: if_splits)
  then show ?thesis by (simp add: usage_le_filter usage_le_default)
qed

lemma projected_cost_units_mono:
  "usage_le a b \<Longrightarrow> projected_cost_units a l \<le> projected_cost_units b l"
  by (auto simp: usage_le_def projected_cost_units_def intro: sat_add_mono)

lemma token_share_range: "usage_le a b \<Longrightarrow> f64_between 100 (token_share (ua_tokens a) (total_tokens (ua_tokens b)))"
  using unat_bound [of "total_tokens (ua_tokens b)"]
  by (auto simp: token_share_def usage_le_def word_le_nat_alt unat_gt_0 f64_between_zero intro!: f64_percent_range)

lemma cost_share_range: "a \<le> b \<Longrightarrow> f64_between 100 (cost_share a b)"
  using unat_bound [of b]
  by (auto simp: cost_share_def word_le_nat_alt unat_gt_0 f64_between_zero intro!: f64_percent_range)

lemma usage_for_range:
  assumes "usage_le u (wg_local_usage g)" "\<not> f64_is_nan (lw_used_percent (sw_window w))"
  shows "f64_between 100 (wu_local_token_share_percent (usage_for w l g u cost))
    \<and> f64_between 100 (wu_estimated_quota_percent (usage_for w l g u cost))"
  using assms by (simp add: usage_for_def Let_def token_share_range f64_scaled_percent_range f64_clamp_range
      cost_share_range projected_cost_units_mono)

lemma model_usage_for_range:
  assumes "usage_le u (wg_local_usage g)" "\<not> f64_is_nan (lw_used_percent (sw_window w))"
  shows "f64_between 100 (mu_local_token_share_percent (model_usage_for w l g (m, u)))
    \<and> f64_between 100 (mu_estimated_quota_percent (model_usage_for w l g (m, u)))"
  using assms by (simp add: model_usage_for_def Let_def token_share_range f64_scaled_percent_range f64_clamp_range
      cost_share_range projected_cost_units_mono)


definition analysis_in_range :: "window_analysis \<Rightarrow> bool" where
  "analysis_in_range a =
    (list_all (\<lambda>t. f64_between 100 (wu_local_token_share_percent (thu_usage t))
        \<and> f64_between 100 (wu_estimated_quota_percent (thu_usage t))) (wa_threads a)
     \<and> list_all (\<lambda>t. f64_between 100 (wu_local_token_share_percent (tnu_usage t))
        \<and> f64_between 100 (wu_estimated_quota_percent (tnu_usage t))) (wa_turns a)
     \<and> list_all (\<lambda>m. f64_between 100 (mu_local_token_share_percent m)
        \<and> f64_between 100 (mu_estimated_quota_percent m)) (wa_models a))"

lemma build_window_analysis_in_range:
  assumes "catalog_ok cat" "g = fold (window_step cat) calls window_aggregation_default"
    and "\<not> f64_is_nan (lw_used_percent (sw_window w))" "window_duration w = Some d"
  shows "\<exists>a. build_window_analysis cat w settled l g stale = Some a \<and> analysis_in_range a
    \<and> wa_duration_mins a = d"
proof -
  have loc: "wg_local_usage g = fold (call_weight_step cat) calls usage_accumulator_default"
    by (simp add: assms(2) window_fold [OF assms(1)])
  have th: "usage_le u (wg_local_usage g)" if "(k, u) \<in> set (wg_task_usage g)" for k u
    using keyed_usage_le [of k u uc_thread_id cat "\<lambda>_. True" calls] that
    by (simp add: loc assms(2) window_fold [OF assms(1)])
  have tn: "usage_le u (wg_local_usage g)" if "(k, u) \<in> set (wg_turn_usage g)" for k u
    using keyed_usage_le [of k u "\<lambda>c. (uc_thread_id c, the (uc_turn_id c))" cat "\<lambda>c. uc_turn_id c \<noteq> None" calls] that
    by (simp add: loc assms(2) window_fold [OF assms(1)])
  have md: "usage_le u (wg_local_usage g)" if "(k, u) \<in> set (wg_model_usage g)" for k u
    using keyed_usage_le [of k u model_name cat "\<lambda>c. \<not> is_spark_model (uc_model c)" calls] that
    by (simp add: loc assms(2) window_fold [OF assms(1)])
  show ?thesis
    using assms(4) usage_for_range [OF th assms(3)] usage_for_range [OF tn assms(3)]
      model_usage_for_range [OF md assms(3)]
    by (simp add: build_window_analysis_def Let_def analysis_in_range_def list_all_iff split_beta)
      (fastforce simp: split_beta)
qed

lemma map_option_list_all:
  "(\<And>x. x \<in> set xs \<Longrightarrow> \<exists>y. f x = Some y \<and> P y) \<Longrightarrow>
    \<exists>ys. map_option_list f xs = Some ys \<and> length ys = length xs \<and> list_all P ys"
proof (induction xs)
  case (Cons x xs)
  then obtain y ys where "f x = Some y" "P y" "map_option_list f xs = Some ys" "length ys = length xs" "list_all P ys"
    by fastforce
  then show ?case by simp
qed simp

definition bucket_not_nan :: "limit_bucket \<Rightarrow> bool" where
  "bucket_not_nan b = (pred_option (\<lambda>w. \<not> f64_is_nan (lw_used_percent w)) (lb_primary b)
    \<and> pred_option (\<lambda>w. \<not> f64_is_nan (lw_used_percent w)) (lb_secondary b))"

text \<open>A concrete call and a concrete five-hour gauge at 42.0 percent.\<close>

definition sample_call :: usage_call where
  "sample_call = \<lparr>uc_timestamp = hours 1, uc_thread_id = ''t'', uc_turn_id = Some ''n'',
     uc_usage_event_id = None, uc_usage_event_identity_exact = False, uc_model = Some ''gpt-5.5'',
     uc_service_tier = Some ''fast'',
     uc_tokens = \<lparr>input_tokens = 300000, cached_input_tokens = 1000, cache_write_input_tokens = 0,
       output_tokens = 50, reasoning_output_tokens = 0, unclassified_tokens = 0, total_tokens = 300050\<rparr>,
     uc_request_usage_exact = True\<rparr>"

definition sample_bucket :: limit_bucket where
  "sample_bucket = \<lparr>lb_limit_id = ''Codex'', lb_limit_name = None, lb_plan_type = None,
     lb_primary = Some (limit_window_new 0x4045000000000000 (Some 300) (Some (hours 5))),
     lb_secondary = None, lb_credits = None, lb_rate_limit_reached_type = None,
     lb_provenance = Live, lb_as_of = 0\<rparr>"

section \<open>Properties\<close>

text \<open>
  C21. The selected windows are windows of a normal Codex bucket, last five hours or one week,
  are current (up to the reset drift) and start one duration before they end.  There is at
  most one per duration, one for every duration that has a candidate, and it comes first in
  the order of provenance, recency and end.
\<close>

theorem select_windows_correct:
  "list_all (\<lambda>w. sw_bucket w \<in> set limits
      \<and> eq_ignore_ascii_case (trim (lb_limit_id (sw_bucket w))) ''codex''
      \<and> is_current_window rng w now
      \<and> (\<exists>d. (d = 300 \<or> d = 10080) \<and> lw_window_duration_mins (sw_window w) = Some d
          \<and> sw_starts_at w = sw_ends_at w - minutes d)) (select_windows rng limits now)
   \<and> distinct (List.map (\<lambda>w. lw_window_duration_mins (sw_window w)) (select_windows rng limits now))
   \<and> list_all (\<lambda>c. list_ex (\<lambda>w. lw_window_duration_mins (sw_window w) = lw_window_duration_mins (sw_window c)
        \<and> window_key w \<le> window_key c) (select_windows rng limits now)) (window_candidates rng limits now)"
proof -
  let ?ws = "sort_key window_key (window_candidates rng limits now)"
  have sub: "set (select_windows rng limits now) \<subseteq> set (window_candidates rng limits now)"
    using first_per_duration_props [of ?ws] by (simp add: select_windows_def)
  have sorted: "sorted (List.map window_key ?ws)" by simp
  have "\<exists>w\<in>set (select_windows rng limits now). window_duration w = window_duration c \<and> window_key w \<le> window_key c"
    if "c \<in> set (window_candidates rng limits now)" for c
    unfolding select_windows_def by (rule first_per_duration_best [OF sorted]) (simp add: that)
  moreover have "distinct (List.map window_duration (select_windows rng limits now))"
    unfolding select_windows_def using first_per_duration_props by blast
  moreover have "sw_bucket w \<in> set limits
      \<and> eq_ignore_ascii_case (trim (lb_limit_id (sw_bucket w))) ''codex'' \<and> is_current_window rng w now
      \<and> (\<exists>d. (d = 300 \<or> d = 10080) \<and> window_duration w = Some d \<and> sw_starts_at w = sw_ends_at w - minutes d)"
    if "w \<in> set (select_windows rng limits now)" for w
    using window_candidates_props [OF subsetD [OF sub that]] by blast
  ultimately show ?thesis by (simp add: list_all_iff list_ex_iff)
qed

text \<open>
  With a well-formed catalog the estimated weight of every call exists and is exact: no
  product or sum saturates, the base units are tokens times rates, and the optional
  long-context surcharge is exactly the doubled input and the 1.5-fold output.
\<close>

theorem estimate_call_weight_exact:
  assumes "catalog_ok cat"
  shows "\<exists>e r. estimate_call_weight cat c = Some e \<and> effective_rates cat c = Some r
    \<and> (let t = uc_tokens c; cached = min (cached_input_tokens t) (input_tokens t);
           inp = sat_add (input_tokens t - cached) (unclassified t); out = output_tokens t
       in unat (ew_units e) = weight_spec inp cached out r
        \<and> unat (ew_api_long_context_extra_units e) = (if ew_used_long_context_pricing e
            then unat inp * unat (cr_input r) + unat cached * unat (cr_cached_input r)
              + unat out * (unat (cr_output r) div 2) else 0))"
proof -
  obtain r where r: "effective_rates cat c = Some r" "credit_rates_bounded r"
    using effective_rates_ok [OF assms] by blast
  obtain u f where d: "long_context_decision cat c = (u, f)" by (cases "long_context_decision cat c")
  have even: "even (unat (cr_output r))" if u
    using long_context_even [OF assms _ r(1)] d that by simp
  show ?thesis
    using r even unfolding estimate_call_weight_def effective_rates_def [symmetric] Let_def
    by (auto simp: d weight_units_exact(1) unat_sat_sub long_weight_exact)
qed

theorem estimate_call_weight_exact_witness:
  "\<exists>e r. estimate_call_weight bundled_catalog sample_call = Some e
    \<and> effective_rates bundled_catalog sample_call = Some r
    \<and> (let t = uc_tokens sample_call; cached = min (cached_input_tokens t) (input_tokens t);
           inp = sat_add (input_tokens t - cached) (unclassified t); out = output_tokens t
       in unat (ew_units e) = weight_spec inp cached out r
        \<and> unat (ew_api_long_context_extra_units e) = (if ew_used_long_context_pricing e
            then unat inp * unat (cr_input r) + unat cached * unat (cr_cached_input r)
              + unat out * (unat (cr_output r) div 2) else 0))"
  by (rule estimate_call_weight_exact) (rule bundled_catalog_ok)

text \<open>
  C22. Aggregating the calls of a window: the quota usage of the window, of a thread and of a
  turn is the usage of exactly their calls without Spark calls, a thread or turn seen only
  through Spark calls is still listed, and the API cost covers all calls.  It never panics
  with a well-formed catalog.
\<close>

theorem window_aggregation_refines:
  assumes "catalog_ok cat"
  shows "\<exists>g. window_add_calls cat calls window_aggregation_default = Some g
    \<and> wg_local_usage g = quota_usage cat calls
    \<and> bt_get (wg_task_usage g) t = (if t \<in> uc_thread_id ` set calls
        then Some (quota_usage cat (filter (\<lambda>c. uc_thread_id c = t) calls)) else None)
    \<and> bt_get (wg_turn_usage g) (t, n) = (if \<exists>c\<in>set calls. uc_thread_id c = t \<and> uc_turn_id c = Some n
        then Some (quota_usage cat (filter (\<lambda>c. uc_thread_id c = t \<and> uc_turn_id c = Some n) calls)) else None)
    \<and> wg_api_cost g = fold (aggregation_add_call cat) calls aggregation_default"
proof -
  let ?g = "fold (window_step cat) calls window_aggregation_default"
  have key: "(t, n) \<in> (\<lambda>c. (uc_thread_id c, the (uc_turn_id c))) ` set (filter (\<lambda>c. uc_turn_id c \<noteq> None) calls)
      \<longleftrightarrow> (\<exists>c\<in>set calls. uc_thread_id c = t \<and> uc_turn_id c = Some n)"
    by (auto simp: image_iff)
  have flt: "filter (\<lambda>c. (uc_thread_id c, the (uc_turn_id c)) = (t, n)) (filter (\<lambda>c. uc_turn_id c \<noteq> None) calls)
      = filter (\<lambda>c. uc_thread_id c = t \<and> uc_turn_id c = Some n) calls"
    by (auto simp: intro!: filter_cong)
  have turn: "bt_get (wg_turn_usage ?g) (t, n) = (if \<exists>c\<in>set calls. uc_thread_id c = t \<and> uc_turn_id c = Some n
        then Some (quota_usage cat (filter (\<lambda>c. uc_thread_id c = t \<and> uc_turn_id c = Some n) calls)) else None)"
    unfolding window_fold(5) [OF assms]
    by (simp only: bt_get_fold_update [OF bt_wf_Nil] window_aggregation_default_simps
        key flt fold_call_weight_quota bt_get_Nil option.case)
  show ?thesis
    by (intro exI [of _ ?g])
      (simp add: turn window_add_calls_fold [OF assms] window_fold(1,2,3) [OF assms]
        bt_get_fold_update fold_call_weight_quota)
qed

theorem window_aggregation_refines_witness:
  "\<exists>g. window_add_calls bundled_catalog [sample_call] window_aggregation_default = Some g
    \<and> bt_get (wg_task_usage g) ''t'' = Some (quota_usage bundled_catalog [sample_call])"
  using window_aggregation_refines [OF bundled_catalog_ok, of "[sample_call]" "''t''" "''n''"]
  by (auto simp: sample_call_def)

text \<open>
  C20. With a well-formed catalog and gauges that are numbers, the analysis of every selected
  window is produced, and every token share and every estimated quota percentage of its
  threads, turns and models lies between 0.0 and 100.0, with and without the long-context
  projection.
\<close>

theorem analyze_windows_in_range:
  assumes "catalog_ok cat" "list_all bucket_not_nan limits"
  shows "\<exists>analyses. analyze_windows cat rng tasks turns calls observations limits now = Some analyses
    \<and> length analyses = length (select_windows rng limits now)
    \<and> list_all (\<lambda>a. analysis_in_range a \<and> pred_option analysis_in_range (wa_api_long_context a)) analyses"
  unfolding analyze_windows_def
proof (rule map_option_list_all)
  fix w assume w: "w \<in> set (select_windows rng limits now)"
  have "w \<in> set (window_candidates rng limits now)"
    using w first_per_duration_props [of "sort_key window_key (window_candidates rng limits now)"]
    by (auto simp: select_windows_def)
  note props = window_candidates_props [OF this]
  then obtain d where d: "window_duration w = Some d" by blast
  have nan: "\<not> f64_is_nan (lw_used_percent (sw_window w))"
  proof -
    have "bucket_not_nan (sw_bucket w)" using props assms(2) by (auto simp: list_all_iff)
    moreover have "lb_primary (sw_bucket w) = Some (sw_window w) \<or> lb_secondary (sw_bucket w) = Some (sw_window w)"
      using props by auto
    ultimately show ?thesis by (auto simp: bucket_not_nan_def)
  qed
  let ?g = "fold (window_step cat) (calls_in_window w now calls) window_aggregation_default"
  note range = build_window_analysis_in_range [OF assms(1) refl nan d]
  have long: "analysis_in_range (with_api_long_context a l) = analysis_in_range a"
    "wa_api_long_context (with_api_long_context a l) = l" for a l
    by (cases a; simp add: analysis_in_range_def)+
  show "\<exists>a. analyze_selected_window cat calls w now (is_settled tasks) = Some a
      \<and> analysis_in_range a \<and> pred_option analysis_in_range (wa_api_long_context a)"
    using range [of "is_settled tasks" True "calls_in_window w now calls"
        "lb_provenance (sw_bucket w) = ProvenanceStale \<or> lb_provenance (sw_bucket w) = ProvenanceUnknown"]
      range [of "is_settled tasks" False "calls_in_window w now calls"
        "lb_provenance (sw_bucket w) = ProvenanceStale \<or> lb_provenance (sw_bucket w) = ProvenanceUnknown"]
    by (auto simp: analyze_selected_window_def Let_def window_add_calls_fold [OF assms(1)] long)
qed

theorem analyze_windows_in_range_witness:
  "\<exists>analyses. analyze_windows bundled_catalog \<lparr>min_utc = - (10 ^ 20), max_utc = 10 ^ 20\<rparr> [] []
      [sample_call] [] [sample_bucket] (hours 2) = Some analyses
    \<and> length analyses = length (select_windows \<lparr>min_utc = - (10 ^ 20), max_utc = 10 ^ 20\<rparr>
        [sample_bucket] (hours 2))
    \<and> list_all (\<lambda>a. analysis_in_range a \<and> pred_option analysis_in_range (wa_api_long_context a)) analyses"
  by (rule analyze_windows_in_range) (rule bundled_catalog_ok,
    simp add: sample_bucket_def bucket_not_nan_def limit_window_new_def f64_is_nan_def f64_mag_def f64_inf_mag_def)

end
