(* ===== verification/Sync_Types.thy ===== *)
theory Sync_Types
  imports Domain
begin

text \<open>
  Types of the remote synchronization shared by the bandwidth ledger, the bounded run and
  the health store: source identities, request positions, limits and reports.
\<close>

type_synonym node_id = string

(* remote_protocol.rs:632-638 SourceGeneration *)
record source_generation =
  sg_node_id :: node_id
  sg_generation :: u64

(* remote_protocol.rs:709-715 DeltaCursor *)
record delta_cursor =
  dc_generation :: u64
  dc_sequence :: u64

(* remote_protocol.rs:820-825 ExportRange *)
record export_range =
  er_from :: datetime
  er_to :: datetime

(* remote_ingest_state.rs:387-392 RemoteDeltaNextRequestPosition *)
record request_position =
  rp_delta_cursor :: "delta_cursor option"
  rp_exact_range :: "export_range option"
  rp_known_live_revision :: "u64 option"

(* remote_sync.rs:420-429 RemoteSyncCompletion *)
datatype sync_completion = Complete | Continuation request_position | BootstrapRestarted request_position

(* remote_sync.rs:431-449 RemoteSyncReport *)
record sync_report =
  rr_exchanges :: usize
  rr_pages_committed :: usize
  rr_changes_committed :: usize
  rr_live_state_changed :: bool
  rr_response_bytes :: usize
  rr_completion :: sync_completion

(* remote_sync.rs:452-454 RemoteSyncReport::has_activity *)
definition report_has_activity :: "sync_report \<Rightarrow> bool" where
  "report_has_activity r = (0 < rr_changes_committed r \<or> rr_live_state_changed r)"

(* remote_sync.rs:375-382 RemoteSyncLimits *)
record sync_limits =
  sl_max_pages :: usize
  sl_max_response_bytes :: usize
  sl_exchange_timeout :: timedelta

(* remote_sync.rs:51-51 REMOTE_FRAME_HEADER_BYTES *)
definition REMOTE_FRAME_HEADER_BYTES :: usize where "REMOTE_FRAME_HEADER_BYTES = 20"

(* remote_protocol.rs:38-38 MIN_REMOTE_RESPONSE_ENCODED_BYTES *)
definition MIN_REMOTE_RESPONSE_ENCODED_BYTES :: usize where
  "MIN_REMOTE_RESPONSE_ENCODED_BYTES = 4 * 1024"

(* remote_protocol.rs:34-34 MAX_REMOTE_FRAME_ENCODED_BYTES *)
definition MAX_REMOTE_FRAME_ENCODED_BYTES :: usize where
  "MAX_REMOTE_FRAME_ENCODED_BYTES = 4 * 1024 * 1024"

(* remote_sync.rs:63-69 MIN_REMOTE_SYNC_RESPONSE_BYTES *)
definition MIN_REMOTE_SYNC_RESPONSE_BYTES :: usize where
  "MIN_REMOTE_SYNC_RESPONSE_BYTES = MIN_REMOTE_RESPONSE_ENCODED_BYTES + REMOTE_FRAME_HEADER_BYTES"

end
