(* ===== verification/Bandwidth_Budget.thy ===== *)
theory Bandwidth_Budget
  imports Sync_Types
begin

text \<open>
  The rolling 24-hour bandwidth ledger of \<open>src/remote_bandwidth_budget.rs\<close>: validation,
  clock handling and pruning, usage, minute compaction, admission, settlement and
  cancellation of reservations, and the read-only policy check.

  The store is the decoded ledger file, \<^const>\<open>None\<close> when the file is absent; an operation
  that fails leaves it unchanged, as the code writes only after the operation and its
  validation succeeded.  The environment record holds what is not under \<open>src/\<close>: chrono's
  range, the encoded size of a ledger as JSON, and the outcomes of the random generator.
  Locking, directories and the atomic rename are left out.  The hash maps of the code are
  only read by key, so they are ordered maps here.
\<close>

section \<open>Types\<close>

(* remote_bandwidth_budget.rs:90-104 RemoteBandwidthTransferKind *)
datatype transfer_kind = AutomaticBulk | AutomaticIncremental | AutomaticProbe | Manual | ManualOverride

(* remote_bandwidth_budget.rs:106-111 RemoteBandwidthBudgetLevel *)
datatype budget_level = SoftLevel | HardLevel

(* remote_bandwidth_budget.rs:113-120 RemoteBandwidthPauseReason *)
datatype pause_reason = LimitReached | ClockAnomaly | LedgerCapacity

(* remote_bandwidth_budget.rs:122-129 RemoteBandwidthUsage *)
record bandwidth_usage =
  bu_host_id :: string
  bu_node_id :: "node_id option"
  bu_committed_bytes :: u64
  bu_reserved_bytes :: u64
  bu_oldest_expiry_at :: "datetime option"

(* remote_bandwidth_budget.rs:144-146 RemoteBandwidthUsage::rolling_bytes *)
definition rolling_bytes :: "bandwidth_usage \<Rightarrow> u64" where
  "rolling_bytes u = sat_add (bu_committed_bytes u) (bu_reserved_bytes u)"

(* remote_bandwidth_budget.rs:152-160 RemoteBandwidthBudgetPause *)
record budget_pause =
  bp_usage :: bandwidth_usage
  bp_level :: budget_level
  bp_reason :: pause_reason
  bp_limit_bytes :: u64
  bp_resume_at :: "datetime option"

(* remote_bandwidth_budget.rs:183-194 RemoteBandwidthReservation *)
record reservation =
  rv_id :: string
  rv_host_id :: string
  rv_node_id :: "node_id option"
  rv_started_at :: datetime
  rv_reserved_bytes :: u64
  rv_reserved_transport_overhead_bytes :: u64
  rv_kind :: transfer_kind

(* remote_bandwidth_budget.rs:223-227 RemoteBandwidthAdmission *)
datatype admission = Granted reservation | Paused budget_pause

(* remote_bandwidth_budget.rs:229-234 ReservationByteRequest *)
record byte_request =
  br_requested_total_bytes :: usize
  br_reserved_transport_overhead_bytes :: usize
  br_minimum_grant_bytes :: usize

(* remote_bandwidth_budget.rs:273-278 LedgerEntryKind *)
datatype entry_kind = Committed | Reserved

(* remote_bandwidth_budget.rs:280-290 LedgerEntry *)
record ledger_entry =
  le_id :: string
  le_host_id :: string
  le_node_id :: "node_id option"
  le_recorded_at :: datetime
  le_bytes :: u64
  le_kind :: entry_kind

(* remote_bandwidth_budget.rs:319-326 StoredRemoteBandwidthLedger *)
record ledger =
  ld_schema_version :: u32
  ld_last_observed_at :: "datetime option"
  ld_entries :: "ledger_entry list"

(* remote_bandwidth_budget.rs:328-336 StoredRemoteBandwidthLedger::default *)
definition ledger_default :: ledger where
  "ledger_default = \<lparr>ld_schema_version = 1, ld_last_observed_at = None, ld_entries = []\<rparr>"

text \<open>One constructor per error the code raises.\<close>

(* remote_bandwidth_budget.rs:1291-1297 invalid_data *)
datatype bandwidth_error =
    InvalidExchangeCount | OverheadOverflow | NetworkBytesOverflow
  | ReservationOverheadInvalid | ExpiryOverflow | StoredHostIdInvalid | EntryIdInvalid
  | EntryBytesOutOfRange | SchemaMismatch | TooManyEntries | DuplicateEntryId
  | TooManySourceEntries | EntriesNotSorted | LastObservedPrecedesEntry
  | ClockMovedBackwards | WindowUnderflow | CompactedBytesOverflow
  | ExchangeRequired | ReservationOverheadOverflow | ReservationTotalOverflow
  | MinimumOverflow | ProbeOverflow | HostIdInvalid | RequestOutOfRange
  | ProbeNotFixed | TotalTooLarge | NotAProbe | ProbeResponseTooLarge
  | CompletionClockBackwards | ReservationMissing | RandomUnavailable | NoUniqueId
  | LedgerFileTooLarge

record bandwidth_env =
  be_chrono :: chrono_range
  be_json_len :: "ledger \<Rightarrow> nat"
  be_random :: "nat \<Rightarrow> string option"

section \<open>Constants\<close>

(* remote_bandwidth_budget.rs:25-25 REMOTE_BANDWIDTH_SOFT_LIMIT_BYTES *)
definition SOFT_LIMIT_BYTES :: u64 where "SOFT_LIMIT_BYTES = 150 * 1024 * 1024"

(* remote_bandwidth_budget.rs:26-26 REMOTE_BANDWIDTH_HARD_LIMIT_BYTES *)
definition HARD_LIMIT_BYTES :: u64 where "HARD_LIMIT_BYTES = 250 * 1024 * 1024"

(* remote_bandwidth_budget.rs:27-33 REMOTE_BANDWIDTH_ESTIMATED_SSH_EXCHANGE_OVERHEAD_BYTES *)
definition SSH_EXCHANGE_OVERHEAD_BYTES :: usize where
  "SSH_EXCHANGE_OVERHEAD_BYTES = 100 * 1024 * 3"

(* remote_bandwidth_budget.rs:34-38 REMOTE_BANDWIDTH_AUTOMATIC_PROBE_MAX_RESPONSE_BYTES *)
definition PROBE_MAX_RESPONSE_BYTES :: usize where
  "PROBE_MAX_RESPONSE_BYTES = MIN_REMOTE_SYNC_RESPONSE_BYTES"

(* remote_bandwidth_budget.rs:43-50 MAX_LEDGER_ENTRIES *)
definition MAX_LEDGER_ENTRIES :: nat where "MAX_LEDGER_ENTRIES = 65536"

definition MAX_BUDGET_FILE_BYTES :: nat where "MAX_BUDGET_FILE_BYTES = 32 * 1024 * 1024"
definition MAX_ENTRIES_PER_SOURCE :: nat where "MAX_ENTRIES_PER_SOURCE = 2048"
definition MAX_HOST_ID_BYTES :: nat where "MAX_HOST_ID_BYTES = 64"
definition MAX_BYTES_PER_ENTRY :: u64 where "MAX_BYTES_PER_ENTRY = 512 * 1024 * 1024"
definition ENTRY_ID_ATTEMPTS :: nat where "ENTRY_ID_ATTEMPTS = 128"

(* remote_bandwidth_budget.rs:1156-1158 window_duration *)
definition window_duration_24h :: timedelta where "window_duration_24h = hours 24"

(* remote_bandwidth_budget.rs:1160-1162 utc_minute_key *)
definition utc_minute_key :: "datetime \<Rightarrow> int" where
  "utc_minute_key t = timestamp_secs t div 60"

section \<open>Estimates and identifiers\<close>

(* remote_bandwidth_budget.rs:63-88 estimated_remote_sync_network_bytes *)
definition estimated_network_bytes :: "sync_report \<Rightarrow> bandwidth_error + usize" where
  "estimated_network_bytes r =
    (let requires_exchange = (case rr_completion r of BootstrapRestarted _ \<Rightarrow> True | _ \<Rightarrow> False) in
     if rr_exchanges r < rr_pages_committed r
        \<or> ((0 < rr_response_bytes r \<or> requires_exchange) \<and> rr_exchanges r = 0)
     then Inl InvalidExchangeCount
     else and_then (ok_or (checked_mul (rr_exchanges r) SSH_EXCHANGE_OVERHEAD_BYTES) OverheadOverflow)
       (\<lambda>overhead. ok_or (checked_add (rr_response_bytes r) overhead) NetworkBytesOverflow))"

(* remote_bandwidth_budget.rs:209-216 RemoteBandwidthReservation::granted_response_bytes *)
definition granted_response_bytes :: "reservation \<Rightarrow> bandwidth_error + usize" where
  "granted_response_bytes v =
    ok_or (checked_sub (rv_reserved_bytes v) (rv_reserved_transport_overhead_bytes v))
      ReservationOverheadInvalid"

(* remote_bandwidth_budget.rs:1223-1232 host_id_has_valid_shape *)
definition host_id_has_valid_shape :: "string \<Rightarrow> bool" where
  "host_id_has_valid_shape s =
    (s \<noteq> [] \<and> length s \<le> MAX_HOST_ID_BYTES \<and> is_ascii_alphanumeric (hd s)
     \<and> list_all (\<lambda>c. is_ascii_alphanumeric c \<or> c = CHR ''-'' \<or> c = CHR ''_'') s)"

(* remote_bandwidth_budget.rs:1203-1211 validate_host_id *)
definition validate_host_id :: "string \<Rightarrow> bandwidth_error + unit" where
  "validate_host_id s = ensure (host_id_has_valid_shape s) HostIdInvalid"

(* remote_bandwidth_budget.rs:1213-1221 validate_stored_host_id *)
definition validate_stored_host_id :: "string \<Rightarrow> bandwidth_error + unit" where
  "validate_stored_host_id s = ensure (host_id_has_valid_shape s) StoredHostIdInvalid"

definition entry_id_has_valid_shape :: "string \<Rightarrow> bool" where
  "entry_id_has_valid_shape s =
    (length s = 32 \<and> list_all (\<lambda>c. is_ascii_digit c \<or> (97 \<le> byte c \<and> byte c \<le> 102)) s
     \<and> \<not> list_all (\<lambda>c. c = CHR ''0'') s)"

(* remote_bandwidth_budget.rs:1188-1201 validate_entry_id *)
definition validate_entry_id :: "string \<Rightarrow> bandwidth_error + unit" where
  "validate_entry_id s = ensure (entry_id_has_valid_shape s) EntryIdInvalid"

(* remote_bandwidth_budget.rs:1234-1239 source_storage_key *)
definition source_storage_key :: "string \<Rightarrow> node_id option \<Rightarrow> string" where
  "source_storage_key host node = (case node of Some n \<Rightarrow> ''node:'' @ n | None \<Rightarrow> ''host:'' @ host)"

definition hex_digit :: "nat \<Rightarrow> char" where
  "hex_digit n = ''0123456789abcdef'' ! n"

definition hex_of_bytes :: "string \<Rightarrow> string" where
  "hex_of_bytes bs = concat (List.map (\<lambda>b. [hex_digit (byte b div 16), hex_digit (byte b mod 16)]) bs)"

text \<open>\<open>draws i\<close> is the outcome of the \<open>i\<close>-th call of the random generator.\<close>

(* remote_bandwidth_budget.rs:1164-1186 allocate_entry_id *)
fun allocate_entry_id :: "(nat \<Rightarrow> string option) \<Rightarrow> ledger_entry list \<Rightarrow> nat \<Rightarrow> nat \<Rightarrow> bandwidth_error + string" where
  "allocate_entry_id draws entries i 0 = Inl NoUniqueId"
| "allocate_entry_id draws entries i (Suc left) = (case draws i of
      None \<Rightarrow> Inl RandomUnavailable
    | Some bytes \<Rightarrow>
        if list_all (\<lambda>b. byte b = 0) bytes then allocate_entry_id draws entries (Suc i) left
        else if list_ex (\<lambda>e. le_id e = hex_of_bytes bytes) entries
             then allocate_entry_id draws entries (Suc i) left
             else Inr (hex_of_bytes bytes))"

section \<open>Ledger entries\<close>

(* remote_bandwidth_budget.rs:293-298 LedgerEntry::matches_source *)
definition matches_source :: "string \<Rightarrow> node_id option \<Rightarrow> ledger_entry \<Rightarrow> bool" where
  "matches_source host node e = (case node of
      Some n \<Rightarrow> le_node_id e = Some n
    | None \<Rightarrow> le_node_id e = None \<and> le_host_id e = host)"

(* remote_bandwidth_budget.rs:300-304 LedgerEntry::expires_at *)
definition expires_at :: "chrono_range \<Rightarrow> ledger_entry \<Rightarrow> bandwidth_error + datetime" where
  "expires_at rng e = ok_or (checked_add_signed rng (le_recorded_at e) window_duration_24h) ExpiryOverflow"

(* remote_bandwidth_budget.rs:306-316 LedgerEntry::validate *)
definition entry_validate :: "chrono_range \<Rightarrow> ledger_entry \<Rightarrow> bandwidth_error + unit" where
  "entry_validate rng e =
    and_then (validate_stored_host_id (le_host_id e)) (\<lambda>_.
    and_then (validate_entry_id (le_id e)) (\<lambda>_.
    and_then (ensure (le_bytes e \<noteq> 0 \<and> le_bytes e \<le> MAX_BYTES_PER_ENTRY) EntryBytesOutOfRange) (\<lambda>_.
    and_then (expires_at rng e) (\<lambda>_. Inr ()))))"

definition entry_key :: "ledger_entry \<Rightarrow> datetime \<times> string" where
  "entry_key e = (le_recorded_at e, le_id e)"

text \<open>State of the validation loop: seen ids, entries per source, previous key.\<close>

record validation_state =
  vs_ids :: "string list"
  vs_counts :: "(string, nat) btree"
  vs_previous :: "(datetime \<times> string) option"

(* remote_bandwidth_budget.rs:357-379 StoredRemoteBandwidthLedger::validate (loop) *)
definition validate_step ::
  "chrono_range \<Rightarrow> ledger_entry \<Rightarrow> validation_state \<Rightarrow> bandwidth_error + validation_state" where
  "validate_step rng e s =
    and_then (entry_validate rng e) (\<lambda>_.
    and_then (ensure (le_id e \<notin> set (vs_ids s)) DuplicateEntryId) (\<lambda>_.
    let key = source_storage_key (le_host_id e) (le_node_id e);
        counts = bt_update key 0 Suc (vs_counts s);
        count = (case bt_get counts key of Some n \<Rightarrow> n | None \<Rightarrow> 0)
    in and_then (ensure (count \<le> MAX_ENTRIES_PER_SOURCE) TooManySourceEntries) (\<lambda>_.
       and_then (ensure (case vs_previous s of Some p \<Rightarrow> p < entry_key e | None \<Rightarrow> True) EntriesNotSorted) (\<lambda>_.
       Inr \<lparr>vs_ids = le_id e # vs_ids s, vs_counts = counts, vs_previous = Some (entry_key e)\<rparr>))))"

(* remote_bandwidth_budget.rs:339-389 StoredRemoteBandwidthLedger::validate *)
definition ledger_validate :: "chrono_range \<Rightarrow> ledger \<Rightarrow> bandwidth_error + unit" where
  "ledger_validate rng l =
    and_then (ensure (ld_schema_version l = 1) SchemaMismatch) (\<lambda>_.
    and_then (ensure (length (ld_entries l) \<le> MAX_LEDGER_ENTRIES) TooManyEntries) (\<lambda>_.
    and_then (fold_ok (validate_step rng) (ld_entries l)
      \<lparr>vs_ids = [], vs_counts = [], vs_previous = None\<rparr>) (\<lambda>_.
    ensure (\<not> (case ld_last_observed_at l of
        Some t \<Rightarrow> ld_entries l \<noteq> [] \<and> t < le_recorded_at (last (ld_entries l)) | None \<Rightarrow> False))
      LastObservedPrecedesEntry)))"

(* remote_bandwidth_budget.rs:391-394 StoredRemoteBandwidthLedger::sort_entries *)
definition sort_entries :: "ledger_entry list \<Rightarrow> ledger_entry list" where
  "sort_entries es = sort_key entry_key es"

(* remote_bandwidth_budget.rs:396-407 StoredRemoteBandwidthLedger::clock_anomaly_at *)
definition clock_anomaly_at :: "ledger \<Rightarrow> datetime \<Rightarrow> datetime option" where
  "clock_anomaly_at l now =
    list_max ((case ld_last_observed_at l of Some t \<Rightarrow> if now < t then [t] else [] | None \<Rightarrow> [])
      @ List.map le_recorded_at (filter (\<lambda>e. now < le_recorded_at e) (ld_entries l)))"

(* remote_bandwidth_budget.rs:409-422 StoredRemoteBandwidthLedger::advance_clock_and_prune *)
definition advance_clock_and_prune :: "chrono_range \<Rightarrow> datetime \<Rightarrow> ledger \<Rightarrow> bandwidth_error + ledger" where
  "advance_clock_and_prune rng now l =
    (if clock_anomaly_at l now \<noteq> None then Inl ClockMovedBackwards
     else and_then (ok_or (checked_sub_signed rng now window_duration_24h) WindowUnderflow) (\<lambda>cutoff.
       Inr (l\<lparr>ld_entries := filter (\<lambda>e. cutoff < le_recorded_at e) (ld_entries l),
              ld_last_observed_at := Some now\<rparr>)))"

(* remote_bandwidth_budget.rs:424-432 StoredRemoteBandwidthLedger::source_entries *)
definition source_entries :: "ledger \<Rightarrow> string \<Rightarrow> node_id option \<Rightarrow> ledger_entry list" where
  "source_entries l host node = filter (matches_source host node) (ld_entries l)"

(* remote_bandwidth_budget.rs:438-451 StoredRemoteBandwidthLedger::usage (loop) *)
definition usage_add :: "chrono_range \<Rightarrow> ledger_entry \<Rightarrow> bandwidth_usage \<Rightarrow> bandwidth_usage" where
  "usage_add rng e u =
    (let u = (case le_kind e of
         Committed \<Rightarrow> u\<lparr>bu_committed_bytes := sat_add (bu_committed_bytes u) (le_bytes e)\<rparr>
       | Reserved \<Rightarrow> u\<lparr>bu_reserved_bytes := sat_add (bu_reserved_bytes u) (le_bytes e)\<rparr>)
     in case expires_at rng e of
          Inr expiry \<Rightarrow> u\<lparr>bu_oldest_expiry_at := Some (case bu_oldest_expiry_at u of
              None \<Rightarrow> expiry | Some oldest \<Rightarrow> min oldest expiry)\<rparr>
        | Inl _ \<Rightarrow> u)"

(* remote_bandwidth_budget.rs:434-459 StoredRemoteBandwidthLedger::usage *)
definition ledger_usage :: "chrono_range \<Rightarrow> ledger \<Rightarrow> string \<Rightarrow> node_id option \<Rightarrow> bandwidth_usage" where
  "ledger_usage rng l host node =
    fold (usage_add rng) (source_entries l host node)
      \<lparr>bu_host_id = host, bu_node_id = node, bu_committed_bytes = 0, bu_reserved_bytes = 0,
       bu_oldest_expiry_at = None\<rparr>"

(* remote_bandwidth_budget.rs:470-481 StoredRemoteBandwidthLedger::resume_below (loop) *)
function resume_loop :: "chrono_range \<Rightarrow> ledger_entry list \<Rightarrow> u64 \<Rightarrow> u64 \<Rightarrow> datetime option" where
  "resume_loop rng [] remaining threshold = None"
| "resume_loop rng (e # es) remaining threshold =
    (let instant = le_recorded_at e;
         same = takeWhile (\<lambda>x. le_recorded_at x = instant) (e # es);
         rest = dropWhile (\<lambda>x. le_recorded_at x = instant) (e # es);
         remaining = fold (\<lambda>x r. sat_sub r (le_bytes x)) same remaining
     in if remaining < threshold then checked_add_signed rng instant window_duration_24h
        else resume_loop rng rest remaining threshold)"
  by pat_completeness auto
termination
  by (relation "measure (\<lambda>(_, es, _, _). length es)")
    (auto simp: less_Suc_eq_le length_dropWhile_le)

(* remote_bandwidth_budget.rs:461-482 StoredRemoteBandwidthLedger::resume_below *)
definition resume_below ::
  "chrono_range \<Rightarrow> ledger \<Rightarrow> string \<Rightarrow> node_id option \<Rightarrow> u64 \<Rightarrow> datetime option" where
  "resume_below rng l host node threshold =
    resume_loop rng (sort_key le_recorded_at (source_entries l host node))
      (rolling_bytes (ledger_usage rng l host node)) threshold"

(* remote_bandwidth_budget.rs:484-486 StoredRemoteBandwidthLedger::source_entry_count *)
definition source_entry_count :: "ledger \<Rightarrow> string \<Rightarrow> node_id option \<Rightarrow> nat" where
  "source_entry_count l host node = length (source_entries l host node)"

section \<open>Compaction\<close>

definition group_key :: "ledger_entry \<Rightarrow> string \<times> int" where
  "group_key e = (source_storage_key (le_host_id e) (le_node_id e), utc_minute_key (le_recorded_at e))"

type_synonym compaction = "ledger_entry list \<times> (string \<times> int, nat list) btree"

(* remote_bandwidth_budget.rs:494-531 StoredRemoteBandwidthLedger::merge_committed_minute_buckets (loop) *)
definition merge_step :: "ledger_entry \<Rightarrow> compaction \<Rightarrow> bandwidth_error + compaction" where
  "merge_step e = (\<lambda>(compacted, groups).
    if le_kind e = Reserved then Inr (compacted @ [e], groups)
    else
      (let push = Inr (compacted @ [e],
             bt_update (group_key e) [] (\<lambda>is. is @ [length compacted]) groups);
           previous = (case bt_get groups (group_key e) of
               Some is \<Rightarrow> if is = [] then None else Some (last is) | None \<Rightarrow> None)
       in case previous of
            None \<Rightarrow> push
          | Some i \<Rightarrow>
              and_then (ok_or (checked_add (le_bytes (compacted ! i)) (le_bytes e)) CompactedBytesOverflow)
                (\<lambda>combined.
                  if combined \<le> MAX_BYTES_PER_ENTRY
                  then Inr (compacted[i := (compacted ! i)\<lparr>le_bytes := combined,
                    le_recorded_at := max (le_recorded_at (compacted ! i)) (le_recorded_at e)\<rparr>], groups)
                  else push)))"

(* remote_bandwidth_budget.rs:488-535 StoredRemoteBandwidthLedger::merge_committed_minute_buckets *)
definition merge_committed_minute_buckets :: "ledger \<Rightarrow> bandwidth_error + ledger" where
  "merge_committed_minute_buckets l =
    and_then (fold_ok merge_step (sort_entries (ld_entries l)) ([], [])) (\<lambda>(compacted, _).
      Inr (l\<lparr>ld_entries := sort_entries compacted\<rparr>))"

section \<open>The store\<close>

type_synonym bandwidth_store = "ledger option"

(* remote_bandwidth_budget.rs:1278-1284 read_optional_ledger *)
definition read_optional_ledger :: "bandwidth_env \<Rightarrow> bandwidth_store \<Rightarrow> bandwidth_error + ledger" where
  "read_optional_ledger env store = (case store of
      None \<Rightarrow> Inr ledger_default
    | Some l \<Rightarrow> and_then (ledger_validate (be_chrono env) l) (\<lambda>_. Inr l))"

(* remote_bandwidth_budget.rs:1241-1250 serialize_ledger *)
definition serialize_ledger :: "bandwidth_env \<Rightarrow> ledger \<Rightarrow> bandwidth_error + unit" where
  "serialize_ledger env l =
    and_then (ledger_validate (be_chrono env) l) (\<lambda>_.
    ensure (be_json_len env l + 1 \<le> MAX_BUDGET_FILE_BYTES) LedgerFileTooLarge)"

(* remote_bandwidth_budget.rs:1049-1062 RemoteBandwidthBudgetStore::mutate *)
definition mutate ::
  "bandwidth_env \<Rightarrow> (ledger \<Rightarrow> bandwidth_error + 'r \<times> ledger) \<Rightarrow> bandwidth_store
    \<Rightarrow> (bandwidth_error + 'r) \<times> bandwidth_store" where
  "mutate env operation store =
    (case and_then (read_optional_ledger env store) (\<lambda>l.
          and_then (operation l) (\<lambda>(r, l).
          and_then (ledger_validate (be_chrono env) l) (\<lambda>_.
          and_then (serialize_ledger env l) (\<lambda>_. Inr (r, l))))) of
       Inl e \<Rightarrow> (Inl e, store)
     | Inr (r, l) \<Rightarrow> (Inr r, Some l))"

(* remote_bandwidth_budget.rs:1100-1114 pause *)
definition pause ::
  "bandwidth_usage \<Rightarrow> budget_level \<Rightarrow> pause_reason \<Rightarrow> u64 \<Rightarrow> datetime option \<Rightarrow> budget_pause" where
  "pause u level reason limit resume = \<lparr>bp_usage = u, bp_level = level, bp_reason = reason,
    bp_limit_bytes = limit, bp_resume_at = resume\<rparr>"

section \<open>Admission\<close>

(* remote_bandwidth_budget.rs:655-694 RemoteBandwidthBudgetStore::begin_attempt_inner (request) *)
definition validate_request :: "string \<Rightarrow> transfer_kind \<Rightarrow> byte_request \<Rightarrow> bandwidth_error + unit" where
  "validate_request host kind b =
    (let requested = br_requested_total_bytes b; overhead = br_reserved_transport_overhead_bytes b;
         minimum_grant = br_minimum_grant_bytes b
     in and_then (validate_host_id host) (\<lambda>_.
        and_then (ensure (\<not> (requested = 0 \<or> MAX_BYTES_PER_ENTRY < requested \<or> minimum_grant = 0
            \<or> requested < minimum_grant \<or> minimum_grant \<le> overhead)) RequestOutOfRange) (\<lambda>_.
        if kind = AutomaticProbe
        then and_then (ok_or (checked_add PROBE_MAX_RESPONSE_BYTES SSH_EXCHANGE_OVERHEAD_BYTES) ProbeOverflow)
          (\<lambda>expected. ensure (requested = expected \<and> minimum_grant = expected
            \<and> overhead = SSH_EXCHANGE_OVERHEAD_BYTES) ProbeNotFixed)
        else Inr ())))"

definition override_hard :: "transfer_kind \<Rightarrow> bool" where
  "override_hard kind = (kind = ManualOverride \<or> kind = AutomaticProbe)"

(* remote_bandwidth_budget.rs:777-784 RemoteBandwidthBudgetStore::begin_attempt_inner (grant) *)
definition grant_bytes :: "transfer_kind \<Rightarrow> u64 \<Rightarrow> u64 \<Rightarrow> u64" where
  "grant_bytes kind requested rolling =
    (let granted = (if override_hard kind then requested
           else min requested (sat_sub HARD_LIMIT_BYTES rolling))
     in if kind = AutomaticBulk then min granted (sat_sub SOFT_LIMIT_BYTES rolling) else granted)"

definition valid_expiries :: "chrono_range \<Rightarrow> ledger_entry list \<Rightarrow> datetime list" where
  "valid_expiries rng es = List.map_filter (\<lambda>e. case expires_at rng e of Inr t \<Rightarrow> Some t | Inl _ \<Rightarrow> None) es"

(* remote_bandwidth_budget.rs:711-827 RemoteBandwidthBudgetStore::begin_attempt_inner (policy) *)
definition admit ::
  "bandwidth_env \<Rightarrow> string \<Rightarrow> node_id option \<Rightarrow> datetime \<Rightarrow> transfer_kind \<Rightarrow> byte_request \<Rightarrow> ledger
    \<Rightarrow> bandwidth_error + admission \<times> ledger" where
  "admit env host node now kind b l =
    (let rng = be_chrono env; usage = ledger_usage rng l host node; rolling = rolling_bytes usage;
         refuse = (\<lambda>level reason limit resume. Inr (Paused (pause usage level reason limit resume), l));
         global_full = (MAX_LEDGER_ENTRIES \<le> length (ld_entries l));
         source_full = (MAX_ENTRIES_PER_SOURCE \<le> source_entry_count l host node);
         granted = grant_bytes kind (br_requested_total_bytes b) rolling
     in if \<not> override_hard kind \<and> HARD_LIMIT_BYTES \<le> rolling
        then refuse HardLevel LimitReached HARD_LIMIT_BYTES (resume_below rng l host node HARD_LIMIT_BYTES)
        else if kind = AutomaticBulk \<and> SOFT_LIMIT_BYTES \<le> rolling
        then refuse SoftLevel LimitReached SOFT_LIMIT_BYTES (resume_below rng l host node SOFT_LIMIT_BYTES)
        else if global_full \<or> source_full
        then refuse HardLevel LedgerCapacity HARD_LIMIT_BYTES
          (list_min (valid_expiries rng (if global_full then ld_entries l else source_entries l host node)))
        else if granted < br_minimum_grant_bytes b
        then (let (level, limit) = (if kind = AutomaticBulk then (SoftLevel, SOFT_LIMIT_BYTES)
                else (HardLevel, HARD_LIMIT_BYTES))
              in refuse level LimitReached limit (resume_below rng l host node limit))
        else and_then (allocate_entry_id (be_random env) (ld_entries l) 0 ENTRY_ID_ATTEMPTS) (\<lambda>id.
          Inr (Granted \<lparr>rv_id = id, rv_host_id = host, rv_node_id = node, rv_started_at = now,
                 rv_reserved_bytes = granted,
                 rv_reserved_transport_overhead_bytes = br_reserved_transport_overhead_bytes b,
                 rv_kind = kind\<rparr>,
               l\<lparr>ld_entries := sort_entries (ld_entries l @
                 [\<lparr>le_id = id, le_host_id = host, le_node_id = node, le_recorded_at = now,
                   le_bytes = granted, le_kind = Reserved\<rparr>])\<rparr>)))"

(* remote_bandwidth_budget.rs:695-710 RemoteBandwidthBudgetStore::begin_attempt_inner (operation) *)
definition begin_operation ::
  "bandwidth_env \<Rightarrow> string \<Rightarrow> node_id option \<Rightarrow> datetime \<Rightarrow> transfer_kind \<Rightarrow> byte_request \<Rightarrow> ledger
    \<Rightarrow> bandwidth_error + admission \<times> ledger" where
  "begin_operation env host node now kind b l = (case clock_anomaly_at l now of
      Some resume_at \<Rightarrow> Inr (Paused (pause (ledger_usage (be_chrono env) l host node) HardLevel
        ClockAnomaly HARD_LIMIT_BYTES (Some resume_at)), l)
    | None \<Rightarrow>
        and_then (advance_clock_and_prune (be_chrono env) now l) (\<lambda>l.
        and_then (merge_committed_minute_buckets l) (admit env host node now kind b)))"

(* remote_bandwidth_budget.rs:647-828 RemoteBandwidthBudgetStore::begin_attempt_inner *)
definition begin_attempt_inner ::
  "bandwidth_env \<Rightarrow> string \<Rightarrow> node_id option \<Rightarrow> datetime \<Rightarrow> transfer_kind \<Rightarrow> byte_request
    \<Rightarrow> bandwidth_store \<Rightarrow> (bandwidth_error + admission) \<times> bandwidth_store" where
  "begin_attempt_inner env host node now kind b store = (case validate_request host kind b of
      Inl e \<Rightarrow> (Inl e, store)
    | Inr _ \<Rightarrow> mutate env (begin_operation env host node now kind b) store)"

(* remote_bandwidth_budget.rs:552-574 RemoteBandwidthBudgetStore::begin_attempt *)
definition begin_attempt ::
  "bandwidth_env \<Rightarrow> string \<Rightarrow> node_id option \<Rightarrow> datetime \<Rightarrow> transfer_kind \<Rightarrow> usize
    \<Rightarrow> bandwidth_store \<Rightarrow> (bandwidth_error + admission) \<times> bandwidth_store" where
  "begin_attempt env host node now kind requested =
    begin_attempt_inner env host node now kind \<lparr>br_requested_total_bytes = requested,
      br_reserved_transport_overhead_bytes = 0, br_minimum_grant_bytes = 1\<rparr>"

(* remote_bandwidth_budget.rs:591-606 RemoteBandwidthBudgetStore::begin_sync_attempt (request) *)
definition sync_byte_request :: "usize \<Rightarrow> usize \<Rightarrow> bandwidth_error + byte_request" where
  "sync_byte_request max_response max_exchanges =
    and_then (ensure (max_exchanges \<noteq> 0) ExchangeRequired) (\<lambda>_.
    and_then (ok_or (checked_mul max_exchanges SSH_EXCHANGE_OVERHEAD_BYTES) ReservationOverheadOverflow) (\<lambda>overhead.
    and_then (ok_or (checked_add max_response overhead) ReservationTotalOverflow) (\<lambda>requested.
    and_then (ok_or (checked_add MIN_REMOTE_SYNC_RESPONSE_BYTES overhead) MinimumOverflow) (\<lambda>minimum_total.
      Inr \<lparr>br_requested_total_bytes = requested, br_reserved_transport_overhead_bytes = overhead,
        br_minimum_grant_bytes = minimum_total\<rparr>))))"

(* remote_bandwidth_budget.rs:576-618 RemoteBandwidthBudgetStore::begin_sync_attempt *)
definition begin_sync_attempt ::
  "bandwidth_env \<Rightarrow> string \<Rightarrow> node_id option \<Rightarrow> datetime \<Rightarrow> transfer_kind \<Rightarrow> usize \<Rightarrow> usize
    \<Rightarrow> bandwidth_store \<Rightarrow> (bandwidth_error + admission) \<times> bandwidth_store" where
  "begin_sync_attempt env host node now kind max_response max_exchanges store =
    (case sync_byte_request max_response max_exchanges of
       Inl e \<Rightarrow> (Inl e, store)
     | Inr b \<Rightarrow> begin_attempt_inner env host node now kind b store)"

(* remote_bandwidth_budget.rs:620-645 RemoteBandwidthBudgetStore::begin_automatic_probe_attempt *)
definition begin_automatic_probe_attempt ::
  "bandwidth_env \<Rightarrow> string \<Rightarrow> node_id option \<Rightarrow> datetime \<Rightarrow> bandwidth_store
    \<Rightarrow> (bandwidth_error + admission) \<times> bandwidth_store" where
  "begin_automatic_probe_attempt env host node now store =
    (case checked_add PROBE_MAX_RESPONSE_BYTES SSH_EXCHANGE_OVERHEAD_BYTES of
       None \<Rightarrow> (Inl ProbeOverflow, store)
     | Some requested \<Rightarrow> begin_attempt_inner env host node now AutomaticProbe
         \<lparr>br_requested_total_bytes = requested,
          br_reserved_transport_overhead_bytes = SSH_EXCHANGE_OVERHEAD_BYTES,
          br_minimum_grant_bytes = requested\<rparr> store)"

section \<open>Settlement\<close>

(* remote_bandwidth_budget.rs:1116-1131 ensure_completion_clock *)
definition ensure_completion_clock :: "reservation \<Rightarrow> datetime \<Rightarrow> bandwidth_error + unit" where
  "ensure_completion_clock v completed_at = ensure (rv_started_at v \<le> completed_at) CompletionClockBackwards"

definition is_reservation_entry :: "reservation \<Rightarrow> ledger_entry \<Rightarrow> bool" where
  "is_reservation_entry v e = (le_id e = rv_id v \<and> le_host_id e = rv_host_id v
    \<and> le_node_id e = rv_node_id v \<and> le_recorded_at e = rv_started_at v
    \<and> le_bytes e = rv_reserved_bytes v \<and> le_kind e = Reserved)"

text \<open>The position of the first entry that is the reservation.\<close>

(* remote_bandwidth_budget.rs:1133-1154 find_reservation *)
fun find_reservation :: "reservation \<Rightarrow> ledger_entry list \<Rightarrow> bandwidth_error + nat" where
  "find_reservation v [] = Inl ReservationMissing"
| "find_reservation v (e # es) = (if is_reservation_entry v e then Inr 0
    else and_then (find_reservation v es) (\<lambda>i. Inr (Suc i)))"

definition remove_at :: "nat \<Rightarrow> 'a list \<Rightarrow> 'a list" where
  "remove_at i xs = take i xs @ drop (Suc i) xs"

definition observe :: "datetime \<Rightarrow> datetime option \<Rightarrow> datetime option" where
  "observe t previous = Some (case previous of None \<Rightarrow> t | Some s \<Rightarrow> max s t)"

(* remote_bandwidth_budget.rs:850-871 RemoteBandwidthBudgetStore::complete_attempt (operation) *)
definition complete_operation ::
  "bandwidth_env \<Rightarrow> reservation \<Rightarrow> datetime \<Rightarrow> u64 \<Rightarrow> ledger \<Rightarrow> bandwidth_error + bandwidth_usage \<times> ledger" where
  "complete_operation env v completed_at actual l =
    and_then (ensure_completion_clock v completed_at) (\<lambda>_.
    and_then (find_reservation v (ld_entries l)) (\<lambda>i.
    let entries = remove_at i (ld_entries l);
        entries = (if 0 < actual then entries @ [\<lparr>le_id = rv_id v, le_host_id = rv_host_id v,
            le_node_id = rv_node_id v, le_recorded_at = completed_at, le_bytes = actual,
            le_kind = Committed\<rparr>] else entries)
    in and_then (merge_committed_minute_buckets (l\<lparr>ld_entries := entries,
          ld_last_observed_at := observe completed_at (ld_last_observed_at l)\<rparr>)) (\<lambda>l.
       Inr (ledger_usage (be_chrono env) l (rv_host_id v) (rv_node_id v), l))))"

(* remote_bandwidth_budget.rs:830-872 RemoteBandwidthBudgetStore::complete_attempt *)
definition complete_attempt ::
  "bandwidth_env \<Rightarrow> reservation \<Rightarrow> datetime \<Rightarrow> usize \<Rightarrow> bandwidth_store
    \<Rightarrow> (bandwidth_error + bandwidth_usage) \<times> bandwidth_store" where
  "complete_attempt env v completed_at actual store =
    (if MAX_BYTES_PER_ENTRY < actual then (Inl TotalTooLarge, store)
     else mutate env (complete_operation env v completed_at actual) store)"

(* remote_bandwidth_budget.rs:874-888 RemoteBandwidthBudgetStore::complete_report *)
definition complete_report ::
  "bandwidth_env \<Rightarrow> reservation \<Rightarrow> datetime \<Rightarrow> sync_report \<Rightarrow> bandwidth_store
    \<Rightarrow> (bandwidth_error + bandwidth_usage) \<times> bandwidth_store" where
  "complete_report env v completed_at report store = (case estimated_network_bytes report of
      Inl e \<Rightarrow> (Inl e, store)
    | Inr total_bytes \<Rightarrow> complete_attempt env v completed_at total_bytes store)"

(* remote_bandwidth_budget.rs:890-913 RemoteBandwidthBudgetStore::complete_automatic_probe_attempt *)
definition complete_automatic_probe_attempt ::
  "bandwidth_env \<Rightarrow> reservation \<Rightarrow> datetime \<Rightarrow> usize \<Rightarrow> bandwidth_store
    \<Rightarrow> (bandwidth_error + bandwidth_usage) \<times> bandwidth_store" where
  "complete_automatic_probe_attempt env v completed_at response store =
    (if rv_kind v \<noteq> AutomaticProbe then (Inl NotAProbe, store)
     else if PROBE_MAX_RESPONSE_BYTES < response then (Inl ProbeResponseTooLarge, store)
     else case checked_add response SSH_EXCHANGE_OVERHEAD_BYTES of
         None \<Rightarrow> (Inl ProbeOverflow, store)
       | Some total_bytes \<Rightarrow> complete_attempt env v completed_at total_bytes store)"

(* remote_bandwidth_budget.rs:922-932 RemoteBandwidthBudgetStore::cancel_attempt (operation) *)
definition cancel_operation ::
  "bandwidth_env \<Rightarrow> reservation \<Rightarrow> datetime \<Rightarrow> ledger \<Rightarrow> bandwidth_error + bandwidth_usage \<times> ledger" where
  "cancel_operation env v cancelled_at l =
    and_then (ensure_completion_clock v cancelled_at) (\<lambda>_.
    and_then (find_reservation v (ld_entries l)) (\<lambda>i.
    let l = l\<lparr>ld_entries := remove_at i (ld_entries l),
          ld_last_observed_at := observe cancelled_at (ld_last_observed_at l)\<rparr>
    in Inr (ledger_usage (be_chrono env) l (rv_host_id v) (rv_node_id v), l)))"

(* remote_bandwidth_budget.rs:915-933 RemoteBandwidthBudgetStore::cancel_attempt *)
definition cancel_attempt ::
  "bandwidth_env \<Rightarrow> reservation \<Rightarrow> datetime \<Rightarrow> bandwidth_store
    \<Rightarrow> (bandwidth_error + bandwidth_usage) \<times> bandwidth_store" where
  "cancel_attempt env v cancelled_at = mutate env (cancel_operation env v cancelled_at)"

section \<open>Status\<close>

(* remote_bandwidth_budget.rs:1065-1098 check_loaded_policy *)
definition check_loaded_policy ::
  "chrono_range \<Rightarrow> ledger \<Rightarrow> string \<Rightarrow> node_id option \<Rightarrow> transfer_kind \<Rightarrow> budget_pause + bandwidth_usage" where
  "check_loaded_policy rng l host node kind =
    (let usage = ledger_usage rng l host node; rolling = rolling_bytes usage in
     if \<not> override_hard kind \<and> HARD_LIMIT_BYTES \<le> rolling
     then Inl (pause usage HardLevel LimitReached HARD_LIMIT_BYTES
       (resume_below rng l host node HARD_LIMIT_BYTES))
     else if kind = AutomaticBulk \<and> SOFT_LIMIT_BYTES \<le> rolling
     then Inl (pause usage SoftLevel LimitReached SOFT_LIMIT_BYTES
       (resume_below rng l host node SOFT_LIMIT_BYTES))
     else Inr usage)"

definition observed_policy ::
  "bandwidth_env \<Rightarrow> string \<Rightarrow> node_id option \<Rightarrow> datetime
    \<Rightarrow> (ledger \<Rightarrow> budget_pause + bandwidth_usage) \<Rightarrow> ledger
    \<Rightarrow> bandwidth_error + (budget_pause + bandwidth_usage) \<times> ledger" where
  "observed_policy env host node now policy l = (case clock_anomaly_at l now of
      Some resume_at \<Rightarrow> Inr (Inl (pause (ledger_usage (be_chrono env) l host node) HardLevel
        ClockAnomaly HARD_LIMIT_BYTES (Some resume_at)), l)
    | None \<Rightarrow> and_then (advance_clock_and_prune (be_chrono env) now l) (\<lambda>l. Inr (policy l, l)))"

(* remote_bandwidth_budget.rs:935-958 RemoteBandwidthBudgetStore::usage *)
definition store_usage ::
  "bandwidth_env \<Rightarrow> string \<Rightarrow> node_id option \<Rightarrow> datetime \<Rightarrow> bandwidth_store
    \<Rightarrow> (bandwidth_error + (budget_pause + bandwidth_usage)) \<times> bandwidth_store" where
  "store_usage env host node now store = (case validate_host_id host of
      Inl e \<Rightarrow> (Inl e, store)
    | Inr _ \<Rightarrow> mutate env (observed_policy env host node now
        (\<lambda>l. Inr (ledger_usage (be_chrono env) l host node))) store)"

(* remote_bandwidth_budget.rs:960-986 RemoteBandwidthBudgetStore::check *)
definition check ::
  "bandwidth_env \<Rightarrow> string \<Rightarrow> node_id option \<Rightarrow> datetime \<Rightarrow> transfer_kind \<Rightarrow> bandwidth_store
    \<Rightarrow> (bandwidth_error + (budget_pause + bandwidth_usage)) \<times> bandwidth_store" where
  "check env host node now kind store = (case validate_host_id host of
      Inl e \<Rightarrow> (Inl e, store)
    | Inr _ \<Rightarrow> mutate env (observed_policy env host node now
        (\<lambda>l. check_loaded_policy (be_chrono env) l host node kind)) store)"

(* remote_bandwidth_budget.rs:988-1024 RemoteBandwidthBudgetStore::check_many_read_only *)
definition check_many_read_only ::
  "bandwidth_env \<Rightarrow> (string \<times> node_id option) list \<Rightarrow> datetime \<Rightarrow> transfer_kind \<Rightarrow> bandwidth_store
    \<Rightarrow> bandwidth_error + (budget_pause + bandwidth_usage) list" where
  "check_many_read_only env sources now kind store =
    and_then (each_ok (\<lambda>(host, _). validate_host_id host) sources) (\<lambda>_.
    and_then (read_optional_ledger env store) (\<lambda>l. case clock_anomaly_at l now of
        Some resume_at \<Rightarrow> Inr (List.map (\<lambda>(host, node). Inl (pause
          (ledger_usage (be_chrono env) l host node) HardLevel ClockAnomaly HARD_LIMIT_BYTES (Some resume_at)))
          sources)
      | None \<Rightarrow> and_then (advance_clock_and_prune (be_chrono env) now l) (\<lambda>l.
          Inr (List.map (\<lambda>(host, node). check_loaded_policy (be_chrono env) l host node kind) sources))))"

end
