(* ===== verification/Bandwidth_Ledger.thy ===== *)
theory Bandwidth_Ledger
  imports Bandwidth_Budget
begin

text \<open>
  The laws of the bandwidth ledger: exact sums over entries, what \<open>validate\<close> accepts, and
  what minute compaction keeps.  A charge is a natural-number sum of entry bytes, so the
  saturating and wrapping arithmetic of the code is compared with exact arithmetic.
\<close>

section \<open>Specification\<close>

definition charge :: "ledger_entry list \<Rightarrow> nat" where
  "charge es = (\<Sum>e\<leftarrow>es. unat (le_bytes e))"

definition charge_of :: "(ledger_entry \<Rightarrow> bool) \<Rightarrow> ledger_entry list \<Rightarrow> nat" where
  "charge_of P es = charge (filter P es)"

definition valid_entry :: "chrono_range \<Rightarrow> ledger_entry \<Rightarrow> bool" where
  "valid_entry rng e = (host_id_has_valid_shape (le_host_id e) \<and> entry_id_has_valid_shape (le_id e)
    \<and> le_bytes e \<noteq> 0 \<and> le_bytes e \<le> MAX_BYTES_PER_ENTRY
    \<and> min_utc rng \<le> le_recorded_at e + window_duration_24h
    \<and> le_recorded_at e + window_duration_24h \<le> max_utc rng)"

definition source_key :: "ledger_entry \<Rightarrow> string" where
  "source_key e = source_storage_key (le_host_id e) (le_node_id e)"

definition key_count :: "string \<Rightarrow> ledger_entry list \<Rightarrow> nat" where
  "key_count k es = length (filter (\<lambda>e. source_key e = k) es)"

definition valid_entries :: "chrono_range \<Rightarrow> ledger_entry list \<Rightarrow> bool" where
  "valid_entries rng es = (list_all (valid_entry rng) es \<and> distinct (List.map le_id es)
    \<and> (\<forall>k. key_count k es \<le> MAX_ENTRIES_PER_SOURCE) \<and> sorted_wrt (<) (List.map entry_key es))"

definition validation_result :: "ledger_entry list \<Rightarrow> validation_state \<Rightarrow> bool" where
  "validation_result es s = (set (vs_ids s) = le_id ` set es \<and> bt_wf (vs_counts s)
    \<and> (\<forall>k. (case bt_get (vs_counts s) k of Some n \<Rightarrow> n | None \<Rightarrow> 0) = key_count k es)
    \<and> vs_previous s = (if es = [] then None else Some (entry_key (last es))))"

definition observed_ok :: "ledger \<Rightarrow> bool" where
  "observed_ok l = (case ld_last_observed_at l of
     Some t \<Rightarrow> list_all (\<lambda>e. le_recorded_at e \<le> t) (ld_entries l) | None \<Rightarrow> True)"

definition bucket :: "ledger_entry \<Rightarrow> string \<times> entry_kind \<times> int" where
  "bucket e = (source_key e, le_kind e, utc_minute_key (le_recorded_at e))"

definition valid_bytes :: "ledger_entry \<Rightarrow> bool" where
  "valid_bytes e = (le_bytes e \<noteq> 0 \<and> le_bytes e \<le> MAX_BYTES_PER_ENTRY)"

text \<open>What \<open>c\<close> keeps of the processed entries \<open>es\<close>.\<close>

definition compacts :: "ledger_entry list \<Rightarrow> ledger_entry list \<Rightarrow> bool" where
  "compacts es c = (
    (\<forall>P. charge_of (\<lambda>e. P (bucket e)) c = charge_of (\<lambda>e. P (bucket e)) es)
    \<and> (\<forall>P t. charge_of (\<lambda>e. P (bucket e) \<and> t < le_recorded_at e) es
         \<le> charge_of (\<lambda>e. P (bucket e) \<and> t < le_recorded_at e) c)
    \<and> mset (filter (\<lambda>e. le_kind e = Reserved) c) = mset (filter (\<lambda>e. le_kind e = Reserved) es)
    \<and> mset (List.map le_id c) \<subseteq># mset (List.map le_id es)
    \<and> (\<forall>k. key_count k c \<le> key_count k es)
    \<and> le_recorded_at ` set c \<subseteq> le_recorded_at ` set es
    \<and> (\<forall>e\<in>set c. valid_bytes e \<and> le_host_id e \<in> le_host_id ` set es))"

text \<open>Every recorded index is a committed entry of its group.\<close>

definition group_index_ok :: "ledger_entry list \<Rightarrow> (string \<times> int, nat list) btree \<Rightarrow> bool" where
  "group_index_ok c g = (bt_wf g \<and> (\<forall>k is. bt_get g k = Some is \<longrightarrow>
    (\<forall>i\<in>set is. i < length c \<and> le_kind (c ! i) = Committed \<and> group_key (c ! i) = k)))"

lemma charge_simps [simp]:
  "charge [] = 0" "charge (e # es) = unat (le_bytes e) + charge es"
  "charge (es @ fs) = charge es + charge fs"
  by (simp_all add: charge_def)

lemma charge_mset: "mset es = mset fs \<Longrightarrow> charge es = charge fs"
  unfolding charge_def by (metis mset_map sum_mset_sum_list)

lemma charge_of_mset: "mset es = mset fs \<Longrightarrow> charge_of P es = charge_of P fs"
  unfolding charge_of_def by (rule charge_mset) (simp add: mset_filter)

lemma charge_of_simps [simp]:
  "charge_of P [] = 0" "charge_of P (e # es) = (if P e then unat (le_bytes e) else 0) + charge_of P es"
  "charge_of P (es @ fs) = charge_of P es + charge_of P fs"
  by (simp_all add: charge_of_def)

lemma charge_of_sort [simp]: "charge_of P (sort_entries es) = charge_of P es"
  by (rule charge_of_mset) (simp add: sort_entries_def)

lemma charge_of_le: "(\<And>e. e \<in> set es \<Longrightarrow> P e \<Longrightarrow> Q e) \<Longrightarrow> charge_of P es \<le> charge_of Q es"
  by (induction es) (auto intro: add_mono)

text \<open>A source is its storage key.\<close>

lemma source_storage_key_eq_iff:
  "source_storage_key h n = source_storage_key h' n'
    \<longleftrightarrow> n = n' \<and> (n = None \<longrightarrow> h = h')"
  by (auto simp: source_storage_key_def split: option.splits)

lemma matches_source_iff:
  "matches_source host node e
    \<longleftrightarrow> source_storage_key (le_host_id e) (le_node_id e) = source_storage_key host node"
  by (auto simp: matches_source_def source_storage_key_eq_iff split: option.splits)

section \<open>Usage\<close>

lemma usage_add_fields [simp]:
  "bu_committed_bytes (usage_add rng e u) = sat_add (bu_committed_bytes u) (if le_kind e = Committed then le_bytes e else 0)"
  "bu_reserved_bytes (usage_add rng e u) = sat_add (bu_reserved_bytes u) (if le_kind e = Reserved then le_bytes e else 0)"
  "bu_host_id (usage_add rng e u) = bu_host_id u" "bu_node_id (usage_add rng e u) = bu_node_id u"
  by (auto simp: usage_add_def Let_def split: entry_kind.splits sum.splits)

lemma fold_usage_fields:
  "bu_committed_bytes (fold (usage_add rng) es u)
    = fold (\<lambda>e acc. sat_add acc (if le_kind e = Committed then le_bytes e else 0)) es (bu_committed_bytes u)"
  "bu_reserved_bytes (fold (usage_add rng) es u)
    = fold (\<lambda>e acc. sat_add acc (if le_kind e = Reserved then le_bytes e else 0)) es (bu_reserved_bytes u)"
  by (induction es arbitrary: u) auto

lemma sum_if_charge: "(\<Sum>e\<leftarrow>es. unat (if P e then le_bytes e else 0)) = charge_of P es"
  by (induction es) auto

lemma charge_kinds: "charge_of (\<lambda>e. le_kind e = Committed) es + charge_of (\<lambda>e. le_kind e = Reserved) es = charge es"
proof (induction es)
  case (Cons e es)
  then show ?case by (cases "le_kind e") auto
qed simp

lemma unat_rolling_bytes:
  "unat (rolling_bytes (ledger_usage rng l host node))
    = min (charge_of (matches_source host node) (ld_entries l)) (2 ^ 64 - 1)"
proof -
  have "min (min a m + min b m) m = min (a + b) m" for a b m :: nat by auto
  then show ?thesis
    using charge_kinds [of "filter (matches_source host node) (ld_entries l)"]
    by (simp add: rolling_bytes_def ledger_usage_def fold_usage_fields unat_sat_add
        unat_fold_sat_add sum_if_charge source_entries_def charge_of_def [of "matches_source host node"]
        cong: if_cong)
qed

section \<open>Validity\<close>

lemma entry_validate_iff: "entry_validate rng e = Inr u \<longleftrightarrow> valid_entry rng e"
  by (auto simp: entry_validate_def valid_entry_def result_simps validate_stored_host_id_def
      validate_entry_id_def expires_at_def checked_add_signed_Some)

lemma key_count_simps [simp]:
  "key_count k [] = 0"
  "key_count k (e # es) = (if source_key e = k then 1 else 0) + key_count k es"
  "key_count k (es @ fs) = key_count k es + key_count k fs"
  by (auto simp: key_count_def)

lemma validate_step_iff:
  assumes "validation_result es s"
  shows "validate_step rng e s = Inr s' \<longleftrightarrow>
    valid_entry rng e \<and> le_id e \<notin> le_id ` set es \<and> key_count (source_key e) (es @ [e]) \<le> MAX_ENTRIES_PER_SOURCE
    \<and> (es = [] \<or> entry_key (last es) < entry_key e)
    \<and> s' = \<lparr>vs_ids = le_id e # vs_ids s, vs_counts = bt_update (source_key e) 0 Suc (vs_counts s),
        vs_previous = Some (entry_key e)\<rparr>"
  using assms
  by (auto simp: validate_step_def validation_result_def Let_def result_simps entry_validate_iff
      bt_get_update source_key_def [symmetric] split: if_splits)

lemma validation_result_step:
  assumes "validation_result es s"
  shows "validation_result (es @ [e]) \<lparr>vs_ids = le_id e # vs_ids s,
    vs_counts = bt_update (source_key e) 0 Suc (vs_counts s), vs_previous = Some (entry_key e)\<rparr>"
  using assms by (auto simp: validation_result_def bt_wf_update bt_get_update)

lemma valid_entries_snoc:
  "valid_entries rng (es @ [e]) \<longleftrightarrow> valid_entries rng es \<and> valid_entry rng e \<and> le_id e \<notin> le_id ` set es
    \<and> key_count (source_key e) (es @ [e]) \<le> MAX_ENTRIES_PER_SOURCE
    \<and> (es = [] \<or> entry_key (last es) < entry_key e)"
proof -
  have "(\<forall>x\<in>set es. entry_key x < entry_key e) \<longleftrightarrow> es = [] \<or> entry_key (last es) < entry_key e"
    if "sorted_wrt (<) (List.map entry_key es)"
    using that by (induction es rule: rev_induct) (auto simp: sorted_wrt_append intro: less_trans)
  moreover have "(\<forall>k. key_count k (es @ [e]) \<le> MAX_ENTRIES_PER_SOURCE)
    \<longleftrightarrow> (\<forall>k. key_count k es \<le> MAX_ENTRIES_PER_SOURCE) \<and> key_count (source_key e) (es @ [e]) \<le> MAX_ENTRIES_PER_SOURCE"
    by (auto intro: order_trans [OF le_add1])
  ultimately show ?thesis
    by (auto simp: valid_entries_def sorted_wrt_append)
qed

lemma validate_fold:
  "(case fold_ok (validate_step rng) es \<lparr>vs_ids = [], vs_counts = [], vs_previous = None\<rparr> of
      Inl _ \<Rightarrow> \<not> valid_entries rng es | Inr s \<Rightarrow> valid_entries rng es \<and> validation_result es s)"
proof (induction es rule: rev_induct)
  case Nil
  then show ?case by (simp add: valid_entries_def validation_result_def)
next
  case (snoc e es)
  show ?case
  proof (cases "fold_ok (validate_step rng) es \<lparr>vs_ids = [], vs_counts = [], vs_previous = None\<rparr>")
    case (Inl x)
    with snoc show ?thesis by (simp add: fold_ok_append valid_entries_snoc)
  next
    case (Inr s)
    with snoc have es: "valid_entries rng es" "validation_result es s" by auto
    note step = validate_step_iff [OF es(2), of rng e]
    show ?thesis
    proof (cases "validate_step rng e s")
      case (Inl x)
      then have "\<not> valid_entries rng (es @ [e])"
        using step by (simp only: valid_entries_snoc) (metis Inl_Inr_False)
      with Inl show ?thesis by (simp add: fold_ok_append Inr)
    next
      case next_state: (Inr s')
      then have "valid_entries rng (es @ [e]) \<and> validation_result (es @ [e]) s'"
        using step [of s'] es validation_result_step [OF es(2), of e]
        by (simp only: valid_entries_snoc simp_thms)
      with next_state show ?thesis by (simp add: fold_ok_append Inr)
    qed
  qed
qed

lemma validate_fold_Inr:
  "(\<exists>s. fold_ok (validate_step rng) es \<lparr>vs_ids = [], vs_counts = [], vs_previous = None\<rparr> = Inr s)
    \<longleftrightarrow> valid_entries rng es"
  using validate_fold [of rng es] by (auto split: sum.splits)

lemma sorted_last_recorded:
  assumes "sorted_wrt (<) (List.map entry_key es)" "es \<noteq> []"
  shows "le_recorded_at (last es) \<le> t \<longleftrightarrow> list_all (\<lambda>e. le_recorded_at e \<le> t) es"
proof
  show "le_recorded_at (last es) \<le> t \<Longrightarrow> list_all (\<lambda>e. le_recorded_at e \<le> t) es"
    using assms(1)
  proof (induction es rule: rev_induct)
    case (snoc e es)
    have "le_recorded_at x \<le> le_recorded_at e" if "x \<in> set es" for x
      using snoc.prems(2) that by (force simp: sorted_wrt_append entry_key_def less_prod_def)
    with snoc.prems(1) show ?case by (auto simp: list_all_iff intro: order_trans)
  qed simp
qed (use assms(2) in \<open>simp add: list_all_iff\<close>)

lemma ledger_validate_iff:
  "ledger_validate rng l = Inr u \<longleftrightarrow> ld_schema_version l = 1 \<and> length (ld_entries l) \<le> MAX_LEDGER_ENTRIES
    \<and> valid_entries rng (ld_entries l) \<and> observed_ok l"
proof -
  have "(\<not> (case ld_last_observed_at l of
        Some t \<Rightarrow> ld_entries l \<noteq> [] \<and> t < le_recorded_at (last (ld_entries l)) | None \<Rightarrow> False)) = observed_ok l"
    if "valid_entries rng (ld_entries l)"
    using that sorted_last_recorded [of "ld_entries l"]
    by (cases "ld_entries l = []") (auto simp: observed_ok_def valid_entries_def not_less split: option.splits)
  then show ?thesis
    using validate_fold_Inr [of rng "ld_entries l"]
    by (auto simp: ledger_validate_def result_simps)
qed

lemma charge_of_bound:
  assumes "list_all (\<lambda>e. le_bytes e \<le> MAX_BYTES_PER_ENTRY) es"
  shows "charge_of P es \<le> length es * 2 ^ 29"
  using assms
proof (induction es)
  case (Cons e es)
  then have "unat (le_bytes e) \<le> 2 ^ 29"
    by (simp add: MAX_BYTES_PER_ENTRY_def word_le_nat_alt)
  with Cons show ?case by simp
qed simp

lemma valid_charge_bound:
  assumes "valid_entries rng (ld_entries l)" "length (ld_entries l) \<le> MAX_LEDGER_ENTRIES"
  shows "charge_of P (ld_entries l) \<le> 2 ^ 45"
proof -
  have "charge_of P (ld_entries l) \<le> length (ld_entries l) * 2 ^ 29"
    using assms(1) by (intro charge_of_bound) (auto simp: valid_entries_def valid_entry_def list_all_iff)
  also have "\<dots> \<le> 65536 * 2 ^ 29"
    using assms(2) by (simp add: MAX_LEDGER_ENTRIES_def)
  finally show ?thesis by simp
qed

text \<open>On a valid ledger the saturating sums of the code are exact.\<close>

lemma rolling_exact:
  assumes "valid_entries rng (ld_entries l)" "length (ld_entries l) \<le> MAX_LEDGER_ENTRIES"
  shows "unat (rolling_bytes (ledger_usage rng l host node))
    = charge_of (matches_source host node) (ld_entries l)"
  using valid_charge_bound [OF assms, of "matches_source host node"]
  by (simp add: unat_rolling_bytes)

section \<open>Compaction\<close>

lemma group_index_okD:
  assumes "group_index_ok c g" "bt_get g k = Some is" "i \<in> set is"
  shows "i < length c" "le_kind (c ! i) = Committed" "group_key (c ! i) = k"
  using assms unfolding group_index_ok_def by blast+

lemma group_index_okI:
  assumes "bt_wf g" and "\<And>k is i. bt_get g k = Some is \<Longrightarrow> i \<in> set is \<Longrightarrow>
    i < length c \<and> le_kind (c ! i) = Committed \<and> group_key (c ! i) = k"
  shows "group_index_ok c g"
  using assms unfolding group_index_ok_def by blast

lemma charge_of_update:
  assumes "i < length es"
  shows "charge_of P (es[i := e]) + (if P (es ! i) then unat (le_bytes (es ! i)) else 0)
    = charge_of P es + (if P e then unat (le_bytes e) else 0)"
  using assms
proof (induction es arbitrary: i)
  case (Cons a es)
  then show ?case by (cases i) (force+)
qed simp

lemma key_count_update:
  "i < length es \<Longrightarrow> source_key e = source_key (es ! i) \<Longrightarrow> key_count k (es[i := e]) = key_count k es"
  by (induction es arbitrary: i) (auto split: nat.splits)

lemma bucket_group_key: "le_kind e = Committed \<Longrightarrow> le_kind e' = Committed
    \<Longrightarrow> bucket e = bucket e' \<longleftrightarrow> group_key e = group_key e'"
  by (simp add: bucket_def group_key_def source_key_def)

lemma group_index_push:
  assumes ok: "group_index_ok c g"
  shows "group_index_ok (c @ [e]) g"
    and "le_kind e = Committed \<Longrightarrow> group_index_ok (c @ [e]) (bt_update (group_key e) [] (\<lambda>is. is @ [length c]) g)"
proof -
  have old: "i < length (c @ [e]) \<and> le_kind ((c @ [e]) ! i) = Committed \<and> group_key ((c @ [e]) ! i) = k"
    if "bt_get g k = Some is" "i \<in> set is" for k "is" i
    using group_index_okD [OF ok that] by (simp add: nth_append)
  show "group_index_ok (c @ [e]) g"
    using ok old by (intro group_index_okI) (simp_all add: group_index_ok_def)
  have wf: "bt_wf g" using ok by (simp add: group_index_ok_def)
  show "group_index_ok (c @ [e]) (bt_update (group_key e) [] (\<lambda>is. is @ [length c]) g)"
    if "le_kind e = Committed"
  proof (rule group_index_okI)
    fix k "is" i
    assume "bt_get (bt_update (group_key e) [] (\<lambda>is. is @ [length c]) g) k = Some is" "i \<in> set is"
    then have "(\<exists>is'. bt_get g k = Some is' \<and> i \<in> set is') \<or> i = length c \<and> k = group_key e"
      by (auto simp: bt_get_update [OF wf] split: if_splits option.splits)
    then show "i < length (c @ [e]) \<and> le_kind ((c @ [e]) ! i) = Committed \<and> group_key ((c @ [e]) ! i) = k"
    proof (elim disjE exE conjE)
      show ?thesis if "bt_get g k = Some is'" "i \<in> set is'" for is' using old [OF that] .
    qed (simp add: that)
  qed (rule bt_wf_update [OF wf])
qed

lemma compacts_entry:
  assumes "compacts es c" "e \<in> set c"
  shows "valid_bytes e" "le_host_id e \<in> le_host_id ` set es" "le_recorded_at e \<in> le_recorded_at ` set es"
  using assms unfolding compacts_def by blast+

lemma compacts_push: "compacts es c \<Longrightarrow> valid_bytes e \<Longrightarrow> compacts (es @ [e]) (c @ [e])"
  by (auto simp: compacts_def)

lemma valid_bytes_sum:
  assumes "valid_bytes a" "valid_bytes b"
  shows "\<exists>s. checked_add (le_bytes a) (le_bytes b) = Some s \<and> unat s = unat (le_bytes a) + unat (le_bytes b)"
proof -
  have "unat (le_bytes a) + unat (le_bytes b) < 2 ^ 64"
    using assms by (simp add: valid_bytes_def MAX_BYTES_PER_ENTRY_def word_le_nat_alt)
  then have "checked_add (le_bytes a) (le_bytes b) = Some (le_bytes a + le_bytes b)
    \<and> unat (le_bytes a + le_bytes b) = unat (le_bytes a) + unat (le_bytes b)"
    by (simp add: checked_add_def unat_word_ariths)
  then show ?thesis by blast
qed

lemma mset_ids_update: "i < length c \<Longrightarrow> le_id e = le_id (c ! i) \<Longrightarrow> List.map le_id (c[i := e]) = List.map le_id c"
  by (metis list_update_id map_update nth_map)

lemma filter_update_other:
  "i < length c \<Longrightarrow> \<not> P (c ! i) \<Longrightarrow> \<not> P e \<Longrightarrow> filter P (c[i := e]) = filter P c"
  by (induction c arbitrary: i) (auto split: nat.splits)

lemma absorb_bucket:
  assumes "bucket a = bucket e"
    and "e' = a\<lparr>le_bytes := b, le_recorded_at := max (le_recorded_at a) (le_recorded_at e)\<rparr>"
  shows "bucket e' = bucket e"
  using assms by (auto simp: bucket_def source_key_def max_def)

lemma group_index_absorb:
  assumes "group_index_ok c g" "i < length c" "bucket e' = bucket (c ! i)"
  shows "group_index_ok (c[i := e']) g"
proof (rule group_index_okI)
  fix k "is" j
  assume "bt_get g k = Some is" "j \<in> set is"
  note this = group_index_okD [OF assms(1) this]
  then show "j < length (c[i := e']) \<and> le_kind (c[i := e'] ! j) = Committed \<and> group_key (c[i := e'] ! j) = k"
    using assms(2,3) by (cases "j = i") (auto simp: bucket_def group_key_def source_key_def)
qed (use assms(1) in \<open>simp add: group_index_ok_def\<close>)

lemma compacts_absorb:
  assumes ok: "compacts es c" and i: "i < length c" and e: "valid_bytes e"
    and same: "bucket (c ! i) = bucket e" "le_kind e = Committed"
    and e': "e' = (c ! i)\<lparr>le_bytes := b, le_recorded_at := max (le_recorded_at (c ! i)) (le_recorded_at e)\<rparr>"
    and b: "unat b = unat (le_bytes (c ! i)) + unat (le_bytes e)" "b \<le> MAX_BYTES_PER_ENTRY"
  shows "compacts (es @ [e]) (c[i := e'])"
proof -
  have bucket: "bucket e' = bucket e" "bucket e' = bucket (c ! i)"
    using absorb_bucket [OF same(1) e'] same(1) by simp_all
  have sum: "unat (le_bytes e') = unat (le_bytes (c ! i)) + unat (le_bytes e)"
    using b by (simp add: e')
  have kept: "charge_of (\<lambda>e. P (bucket e)) (c[i := e']) = charge_of (\<lambda>e. P (bucket e)) (es @ [e])" for P
    using charge_of_update [OF i, of "\<lambda>e. P (bucket e)" e'] ok sum bucket same
    by (auto simp: compacts_def split: if_splits)
  have live: "charge_of (\<lambda>e. P (bucket e) \<and> t < le_recorded_at e) (es @ [e])
      \<le> charge_of (\<lambda>e. P (bucket e) \<and> t < le_recorded_at e) (c[i := e'])" for P t
  proof -
    let ?P = "\<lambda>e. P (bucket e) \<and> t < le_recorded_at e"
    have "charge_of ?P es \<le> charge_of ?P c" using ok by (simp add: compacts_def)
    moreover have "le_recorded_at e' = max (le_recorded_at (c ! i)) (le_recorded_at e)" by (simp add: e')
    ultimately show ?thesis
      using charge_of_update [OF i, of ?P e'] sum bucket same by (auto split: if_splits)
  qed
  have ids: "List.map le_id (c[i := e']) = List.map le_id c"
    by (rule mset_ids_update [OF i]) (simp add: e')
  have res: "filter (\<lambda>e. le_kind e = Reserved) (c[i := e']) = filter (\<lambda>e. le_kind e = Reserved) c"
    using same by (intro filter_update_other [OF i]) (auto simp: e' bucket_def)
  have count: "key_count k (c[i := e']) = key_count k c" for k
    using bucket(2) by (intro key_count_update [OF i]) (simp add: bucket_def)
  have "0 < unat (le_bytes e)" using e by (simp add: valid_bytes_def unat_gt_0)
  then have e'_bytes: "valid_bytes e'"
    using b by (auto simp: e' valid_bytes_def)
  have e'_props: "le_host_id e' = le_host_id (c ! i)"
    "le_recorded_at e' = le_recorded_at (c ! i) \<or> le_recorded_at e' = le_recorded_at e" "c ! i \<in> set c"
    using i by (auto simp: e' max_def)
  have entry: "x = e' \<or> x \<in> set c" if "x \<in> set (c[i := e'])" for x
    using that set_update_subset_insert [of c i e'] by blast
  have old: "valid_bytes y \<and> le_host_id y \<in> le_host_id ` set (es @ [e])
      \<and> le_recorded_at y \<in> le_recorded_at ` set (es @ [e])" if "y \<in> set c" for y
    using compacts_entry [OF ok that] unfolding set_append image_Un by blast
  have new: "valid_bytes x \<and> le_host_id x \<in> le_host_id ` set (es @ [e])
      \<and> le_recorded_at x \<in> le_recorded_at ` set (es @ [e])" if "x \<in> set (c[i := e'])" for x
  proof (cases "x \<in> set c")
    case False
    then have x: "x = e'" using entry [OF that] by blast
    have "le_recorded_at e \<in> le_recorded_at ` set (es @ [e])" by simp
    with old [OF e'_props(3)] e'_bytes e'_props(1,2) show ?thesis unfolding x by metis
  qed (rule old)
  show ?thesis
    unfolding compacts_def
  proof (intro conjI allI ballI subsetI; (elim imageE; hypsubst)?)
    show "mset (List.map le_id (c[i := e'])) \<subseteq># mset (List.map le_id (es @ [e]))"
      using ok unfolding ids compacts_def map_append mset_append
      by (intro subset_mset.order_trans [OF _ mset_subset_eq_add_left]) blast
    show "key_count k (c[i := e']) \<le> key_count k (es @ [e])" for k
      using ok by (simp add: count compacts_def le_SucI)
    show "mset (filter (\<lambda>e. le_kind e = Reserved) (c[i := e']))
        = mset (filter (\<lambda>e. le_kind e = Reserved) (es @ [e]))"
      using ok same(2) unfolding res by (simp add: compacts_def)
  qed (use kept live new in blast)+
qed

lemma merge_step_ok:
  assumes ok: "compacts es c" "group_index_ok c g" and e: "valid_bytes e"
  shows "\<exists>c' g'. merge_step e (c, g) = Inr (c', g') \<and> compacts (es @ [e]) c' \<and> group_index_ok c' g'"
proof (cases "le_kind e")
  case Reserved
  then show ?thesis
    using compacts_push [OF ok(1) e] group_index_push(1) [OF ok(2)] by (simp add: merge_step_def)
next
  case Committed
  note push = compacts_push [OF ok(1) e] group_index_push(2) [OF ok(2) Committed]
  show ?thesis
  proof (cases "bt_get g (group_key e)")
    case None
    with push Committed show ?thesis by (simp add: merge_step_def Let_def)
  next
    case (Some "is")
    show ?thesis
    proof (cases "is = []")
      case True
      with push Committed Some show ?thesis by (simp add: merge_step_def Let_def)
    next
      case False
      let ?i = "last is"
      note i = group_index_okD [OF ok(2) Some last_in_set [OF False]]
      have same: "bucket (c ! ?i) = bucket e" using i Committed by (simp add: bucket_group_key)
      have "valid_bytes (c ! ?i)" using ok(1) i(1) by (simp add: compacts_def)
      then obtain b where b: "checked_add (le_bytes (c ! ?i)) (le_bytes e) = Some b"
          "unat b = unat (le_bytes (c ! ?i)) + unat (le_bytes e)"
        using valid_bytes_sum e by blast
      let ?e = "(c ! ?i)\<lparr>le_bytes := b, le_recorded_at := max (le_recorded_at (c ! ?i)) (le_recorded_at e)\<rparr>"
      have "bucket ?e = bucket (c ! ?i)" using absorb_bucket [OF same refl] same by simp
      then show ?thesis
        using push Committed Some False b compacts_absorb [OF ok(1) i(1) e same Committed refl b(2)]
          group_index_absorb [OF ok(2) i(1)]
        by (cases "b \<le> MAX_BYTES_PER_ENTRY") (simp_all add: merge_step_def Let_def)
    qed
  qed
qed

lemma merge_fold_ok:
  assumes "list_all valid_bytes es"
  shows "\<exists>c g. fold_ok merge_step es ([], []) = Inr (c, g) \<and> compacts es c \<and> group_index_ok c g"
  using assms
proof (induction es rule: rev_induct)
  case Nil
  then show ?case by (simp add: compacts_def group_index_ok_def)
next
  case (snoc e es)
  then obtain c g where cg: "fold_ok merge_step es ([], []) = Inr (c, g)" "compacts es c" "group_index_ok c g"
    by auto
  moreover from this snoc.prems obtain c' g' where
    "merge_step e (c, g) = Inr (c', g')" "compacts (es @ [e]) c'" "group_index_ok c' g'"
    using merge_step_ok [OF cg(2,3), of e] by auto
  ultimately show ?case by (simp add: fold_ok_append)
qed

lemma key_count_mset: "mset es = mset fs \<Longrightarrow> key_count k es = key_count k fs"
  unfolding key_count_def by (metis mset_filter size_mset)

lemma compacts_mset:
  assumes "mset es = mset es'" "mset c = mset c'" "compacts es c"
  shows "compacts es' c'"
  using assms(3) charge_of_mset [OF assms(1)] charge_of_mset [OF assms(2)] assms(1,2)
    key_count_mset [OF assms(1)] key_count_mset [OF assms(2)] mset_eq_setD [OF assms(1)] mset_eq_setD [OF assms(2)]
  by (simp add: compacts_def)

lemma sort_entries_strict:
  assumes "distinct (List.map le_id es)"
  shows "sorted_wrt (<) (List.map entry_key (sort_entries es))"
proof -
  have "distinct (List.map le_id (sort_entries es))"
    using assms by (metis mset_map mset_eq_imp_distinct_iff mset_sort sort_entries_def)
  then have "distinct (List.map entry_key (sort_entries es))"
    by (auto simp: distinct_map inj_on_def entry_key_def)
  then show ?thesis by (simp add: strict_sorted_iff sort_entries_def)
qed

lemma valid_entries_sort:
  assumes "list_all (valid_entry rng) es" "distinct (List.map le_id es)"
    "\<And>k. key_count k es \<le> MAX_ENTRIES_PER_SOURCE"
  shows "valid_entries rng (sort_entries es)"
proof -
  have m: "mset (sort_entries es) = mset es" by (simp add: sort_entries_def)
  have "distinct (List.map le_id (sort_entries es))"
    using assms(2) m by (metis mset_map mset_eq_imp_distinct_iff)
  then show ?thesis
    using assms sort_entries_strict [OF assms(2)] mset_eq_setD [OF m] key_count_mset [OF m]
    by (simp add: valid_entries_def list_all_iff)
qed

lemma distinct_submset: "mset xs \<subseteq># mset ys \<Longrightarrow> distinct ys \<Longrightarrow> distinct xs"
  unfolding distinct_count_atmost_1
  by (metis count_mset_0_iff le_less mset_subset_eq_count set_mset_mset mset_subset_eqD le_antisym less_one)

lemma compacts_valid:
  assumes es: "list_all (valid_entry rng) es" "distinct (List.map le_id es)"
      "\<And>k. key_count k es \<le> MAX_ENTRIES_PER_SOURCE"
    and c: "compacts es c"
  shows "valid_entries rng (sort_entries c)" "length c \<le> length es"
proof -
  have ids: "mset (List.map le_id c) \<subseteq># mset (List.map le_id es)" using c by (simp add: compacts_def)
  have "valid_entry rng e" if e: "e \<in> set c" for e
  proof -
    obtain e1 e2 e3 where "e1 \<in> set es" "le_host_id e = le_host_id e1"
        "e2 \<in> set es" "le_recorded_at e = le_recorded_at e2" "e3 \<in> set es" "le_id e = le_id e3"
      using compacts_entry(2,3) [OF c e] mset_subset_eqD [OF ids, of "le_id e"] e by auto
    then show ?thesis
      using es(1) compacts_entry(1) [OF c e] by (auto simp: valid_entry_def valid_bytes_def list_all_iff)
  qed
  then show "valid_entries rng (sort_entries c)"
    using c es(3) distinct_submset [OF ids es(2)]
    by (intro valid_entries_sort) (auto simp: list_all_iff compacts_def intro: order_trans)
  show "length c \<le> length es" using size_mset_mono [OF ids] by simp
qed

lemma merge_ok:
  assumes es: "list_all (valid_entry rng) (ld_entries l)" "distinct (List.map le_id (ld_entries l))"
      "\<And>k. key_count k (ld_entries l) \<le> MAX_ENTRIES_PER_SOURCE"
  obtains c where "merge_committed_minute_buckets l = Inr (l\<lparr>ld_entries := c\<rparr>)"
    "compacts (ld_entries l) c" "valid_entries rng c" "length c \<le> length (ld_entries l)"
proof -
  let ?s = "sort_entries (ld_entries l)"
  have m: "mset ?s = mset (ld_entries l)" by (simp add: sort_entries_def)
  have "list_all valid_bytes ?s"
    using es(1) mset_eq_setD [OF m] by (simp add: list_all_iff valid_entry_def valid_bytes_def)
  then obtain c g where c: "fold_ok merge_step ?s ([], []) = Inr (c, g)" "compacts ?s c"
    using merge_fold_ok by blast
  then have "compacts (ld_entries l) c" using compacts_mset [OF m refl] by blast
  moreover from this have "compacts (ld_entries l) (sort_entries c)"
    by (rule compacts_mset [rotated 2]) (simp_all add: sort_entries_def)
  moreover have "merge_committed_minute_buckets l = Inr (l\<lparr>ld_entries := sort_entries c\<rparr>)"
    using c by (simp add: merge_committed_minute_buckets_def)
  ultimately show thesis
    using compacts_valid [OF es] that by (simp add: sort_entries_def)
qed

end
