(* ===== verification/State_Store.thy ===== *)
theory State_Store
  imports Rust_Prelude
begin

text \<open>
  The contract of the file-backed stores (\<open>src/remote_bandwidth_budget.rs\<close>,
  \<open>src/remote_sync_health.rs\<close>): a locked read, an operation on the decoded document, the
  validation of the result, and a write only when everything succeeded.  The laws are
  what the clients of a store rely on; the lemmas are proved once from them.
\<close>

locale state_store =
  fixes load :: "'s \<Rightarrow> 'e + 'd"
    and save :: "'d \<Rightarrow> 's"
    and valid :: "'d \<Rightarrow> bool"
    and run :: "('d \<Rightarrow> 'e + 'r \<times> 'd) \<Rightarrow> 's \<Rightarrow> ('e + 'r) \<times> 's"
  assumes load_valid: "load s = Inr d \<Longrightarrow> valid d"
    and load_save: "valid d \<Longrightarrow> load (save d) = Inr d"
    and run_ok: "run op s = (Inr r, s') \<Longrightarrow>
      \<exists>d d'. load s = Inr d \<and> op d = Inr (r, d') \<and> valid d' \<and> s' = save d'"
    and run_error: "run op s = (Inl e, s') \<Longrightarrow> s' = s"
begin

text \<open>A readable store stays readable, whatever the operation does.\<close>

lemma run_loadable:
  assumes "load s = Inr d"
  shows "\<exists>d'. load (snd (run op s)) = Inr d'"
proof (cases "run op s")
  case (Pair a s')
  then show ?thesis
  proof (cases a)
    case (Inl e)
    with Pair assms run_error show ?thesis by fastforce
  next
    case (Inr r)
    with Pair run_ok [of op s r s'] load_save show ?thesis by auto
  qed
qed

text \<open>An invariant of the documents that the operation keeps is an invariant of the store.\<close>

lemma run_invariant:
  assumes "\<And>d. load s = Inr d \<Longrightarrow> I d"
    and "\<And>d r d'. valid d \<Longrightarrow> I d \<Longrightarrow> op d = Inr (r, d') \<Longrightarrow> I d'"
    and "load (snd (run op s)) = Inr d'"
  shows "I d'"
proof (cases "run op s")
  case (Pair a s')
  then show ?thesis
  proof (cases a)
    case (Inl e)
    with Pair assms run_error show ?thesis by fastforce
  next
    case (Inr r)
    with Pair run_ok [of op s r s'] obtain d d'' where
      "load s = Inr d" "op d = Inr (r, d'')" "valid d''" "s' = save d''" by auto
    then have "I d''" "load s' = Inr d''" using assms(1,2) load_valid load_save by blast+
    then show ?thesis using Pair assms(3) by simp
  qed
qed

text \<open>What the operation returned and what a later read sees agree.\<close>

lemma run_then_load:
  assumes "run op s = (Inr r, s')"
  obtains d d' where "load s = Inr d" "op d = Inr (r, d')" "load s' = Inr d'" "valid d'"
  using run_ok [OF assms] load_save by auto

end

end
