(* ===== verification/Bandwidth_Safety.thy ===== *)
theory Bandwidth_Safety
  imports Bandwidth_Ledger State_Store
begin

text \<open>
  Correctness of the bandwidth store: the admission decision against the exact charge of
  the last 24 hours, settlement and cancellation, the resumption instant, the bound on a
  synchronization report, progress, and the hard limit as an invariant of every sequence
  of calls.  The store is an instance of the interface \<open>state_store\<close>.
\<close>

section \<open>Specification\<close>

definition budget_limit :: "transfer_kind \<Rightarrow> u64 option" where
  "budget_limit kind = (case kind of AutomaticBulk \<Rightarrow> Some SOFT_LIMIT_BYTES
     | AutomaticIncremental \<Rightarrow> Some HARD_LIMIT_BYTES | Manual \<Rightarrow> Some HARD_LIMIT_BYTES
     | AutomaticProbe \<Rightarrow> None | ManualOverride \<Rightarrow> None)"

definition live_charge :: "datetime \<Rightarrow> string \<Rightarrow> node_id option \<Rightarrow> ledger \<Rightarrow> nat" where
  "live_charge now host node l =
    charge_of (\<lambda>e. matches_source host node e \<and> now - window_duration_24h < le_recorded_at e) (ld_entries l)"

definition source_charge :: "string \<Rightarrow> node_id option \<Rightarrow> ledger \<Rightarrow> nat" where
  "source_charge host node l = charge_of (matches_source host node) (ld_entries l)"

definition reservation_entry :: "reservation \<Rightarrow> ledger_entry" where
  "reservation_entry v = \<lparr>le_id = rv_id v, le_host_id = rv_host_id v, le_node_id = rv_node_id v,
     le_recorded_at = rv_started_at v, le_bytes = rv_reserved_bytes v, le_kind = Reserved\<rparr>"

definition same_source :: "string \<Rightarrow> node_id option \<Rightarrow> string \<Rightarrow> node_id option \<Rightarrow> bool" where
  "same_source host node host' node' = (source_storage_key host node = source_storage_key host' node')"

definition settled_entry :: "reservation \<Rightarrow> datetime \<Rightarrow> u64 \<Rightarrow> ledger_entry" where
  "settled_entry v t actual = (reservation_entry v)\<lparr>le_recorded_at := t, le_bytes := actual, le_kind := Committed\<rparr>"

definition settled :: "reservation \<Rightarrow> datetime \<Rightarrow> u64 \<Rightarrow> nat \<Rightarrow> ledger \<Rightarrow> ledger" where
  "settled v t actual i l = l\<lparr>ld_entries := remove_at i (ld_entries l)
       @ (if 0 < actual then [settled_entry v t actual] else []),
     ld_last_observed_at := observe t (ld_last_observed_at l)\<rparr>"

datatype ledger_call =
    CallBegin string "node_id option" datetime transfer_kind byte_request
  | CallComplete reservation datetime usize
  | CallCancel reservation datetime
  | CallUsage string "node_id option" datetime
  | CallCheck string "node_id option" datetime transfer_kind

fun perform :: "bandwidth_env \<Rightarrow> ledger_call \<Rightarrow> bandwidth_store \<Rightarrow> bandwidth_store" where
  "perform env (CallBegin host node now kind b) s = snd (begin_attempt_inner env host node now kind b s)"
| "perform env (CallComplete v t actual) s = snd (complete_attempt env v t actual s)"
| "perform env (CallCancel v t) s = snd (cancel_attempt env v t s)"
| "perform env (CallUsage host node now) s = snd (store_usage env host node now s)"
| "perform env (CallCheck host node now kind) s = snd (check env host node now kind s)"

text \<open>A run of the store: every call draws its own random bytes.\<close>

definition run_calls :: "bandwidth_env \<Rightarrow> ((nat \<Rightarrow> string option) \<times> ledger_call) list \<Rightarrow> bandwidth_store" where
  "run_calls env calls = fold (\<lambda>(draws, c). perform (env\<lparr>be_random := draws\<rparr>) c) calls None"

fun within_budget :: "ledger_call \<Rightarrow> bool" where
  "within_budget (CallBegin host node now kind b) = (\<not> override_hard kind)"
| "within_budget (CallComplete v t actual) = (actual \<le> rv_reserved_bytes v)"
| "within_budget _ = True"

definition below_hard :: "ledger \<Rightarrow> bool" where
  "below_hard l = (\<forall>h n. source_charge h n l \<le> unat HARD_LIMIT_BYTES)"

text \<open>A concrete environment, request and ledger, to run the operations on.\<close>

definition sample_env :: bandwidth_env where
  "sample_env = \<lparr>be_chrono = \<lparr>min_utc = - hours 72000000, max_utc = hours 72000000\<rparr>,
     be_json_len = (\<lambda>l. 100 + 300 * length (ld_entries l)),
     be_random = (\<lambda>i. Some (List.map char_of [i + 1 ..< i + 17]))\<rparr>"

definition no_entropy_env :: bandwidth_env where
  "no_entropy_env = sample_env\<lparr>be_random := (\<lambda>i. if i = 0 then Some (replicate 16 (char_of (0::nat))) else None)\<rparr>"

definition sample_request :: byte_request where
  "sample_request = \<lparr>br_requested_total_bytes = 1048576, br_reserved_transport_overhead_bytes = 307200,
     br_minimum_grant_bytes = 400000\<rparr>"

definition sample_reservation :: reservation where
  "sample_reservation = \<lparr>rv_id = hex_of_bytes (List.map char_of [1::nat ..< 17]), rv_host_id = ''box'',
     rv_node_id = None, rv_started_at = hours 400000, rv_reserved_bytes = 1048576,
     rv_reserved_transport_overhead_bytes = 307200, rv_kind = Manual\<rparr>"

definition sample_ledger :: ledger where
  "sample_ledger = \<lparr>ld_schema_version = 1, ld_last_observed_at = Some (hours 400000),
     ld_entries = [reservation_entry sample_reservation]\<rparr>"

definition sample_committed :: "datetime \<Rightarrow> string \<Rightarrow> ledger_entry" where
  "sample_committed t i = \<lparr>le_id = i, le_host_id = ''box'', le_node_id = None, le_recorded_at = t,
     le_bytes = 1000, le_kind = Committed\<rparr>"

lemma filter_subseq_counts:
  "key_count k (filter P es) \<le> key_count k es"
  by (induction es) auto

lemma valid_entries_filter: "valid_entries rng es \<Longrightarrow> valid_entries rng (filter P es)"
  unfolding valid_entries_def
  by (auto simp: list_all_iff distinct_map_filter sorted_wrt_map intro: sorted_wrt_filter order_trans [OF filter_subseq_counts])

lemma clock_anomaly_None:
  "clock_anomaly_at l now = None \<longleftrightarrow> (case ld_last_observed_at l of Some t \<Rightarrow> t \<le> now | None \<Rightarrow> True)
    \<and> list_all (\<lambda>e. le_recorded_at e \<le> now) (ld_entries l)"
  by (auto simp: clock_anomaly_at_def filter_empty_conv list_all_iff not_less split: option.splits)

lemma prune_ok:
  assumes "advance_clock_and_prune rng now l = Inr l1" "ledger_validate rng l = Inr ()"
  shows "ledger_validate rng l1 = Inr ()" "ld_last_observed_at l1 = Some now"
    "ld_entries l1 = filter (\<lambda>e. now - window_duration_24h < le_recorded_at e) (ld_entries l)"
    "clock_anomaly_at l now = None"
proof -
  show l1: "ld_last_observed_at l1 = Some now"
    "ld_entries l1 = filter (\<lambda>e. now - window_duration_24h < le_recorded_at e) (ld_entries l)"
    "clock_anomaly_at l now = None"
    using assms(1) by (auto simp: advance_clock_and_prune_def result_simps checked_sub_signed_Some split: if_splits)
  have "ld_schema_version l1 = ld_schema_version l"
    using assms(1) by (auto simp: advance_clock_and_prune_def result_simps split: if_splits)
  then show "ledger_validate rng l1 = Inr ()"
    using assms(2) l1 order_trans [OF length_filter_le]
    by (auto simp: ledger_validate_iff valid_entries_filter observed_ok_def clock_anomaly_None list_all_iff)
qed

lemma compacts_charge:
  "compacts es c \<Longrightarrow> charge_of (\<lambda>e. P (bucket e)) c = charge_of (\<lambda>e. P (bucket e)) es"
  by (simp add: compacts_def)

lemma compacts_source_charge:
  assumes "compacts es c"
  shows "charge_of (matches_source host node) c = charge_of (matches_source host node) es"
  using compacts_charge [OF assms, where P = "\<lambda>b. fst b = source_storage_key host node"]
  by (simp add: matches_source_iff [abs_def] bucket_def source_key_def)

lemma valid_mergeD:
  assumes "ledger_validate rng l = Inr ()"
  obtains c where "merge_committed_minute_buckets l = Inr (l\<lparr>ld_entries := c\<rparr>)"
    "compacts (ld_entries l) c" "ledger_validate rng (l\<lparr>ld_entries := c\<rparr>) = Inr ()"
proof -
  have v: "valid_entries rng (ld_entries l)" "length (ld_entries l) \<le> MAX_LEDGER_ENTRIES"
    "ld_schema_version l = 1" "observed_ok l"
    using assms by (auto simp: ledger_validate_iff)
  then obtain c where c: "merge_committed_minute_buckets l = Inr (l\<lparr>ld_entries := c\<rparr>)"
    "compacts (ld_entries l) c" "valid_entries rng c" "length c \<le> length (ld_entries l)"
    using merge_ok [of rng l] by (auto simp: valid_entries_def)
  have "observed_ok (l\<lparr>ld_entries := c\<rparr>)"
    using v(4) compacts_entry(3) [OF c(2)] by (fastforce simp: observed_ok_def list_all_iff split: option.splits)
  with c v that show thesis by (auto simp: ledger_validate_iff)
qed

text \<open>The entries an admission decides on.\<close>

lemma prepare_ok:
  assumes "ledger_validate rng l = Inr ()" "advance_clock_and_prune rng now l = Inr l1"
    "merge_committed_minute_buckets l1 = Inr l2"
  shows "ledger_validate rng l2 = Inr ()"
    "source_charge host node l2 = live_charge now host node l"
    "list_all (\<lambda>e. now - window_duration_24h < le_recorded_at e \<and> le_recorded_at e \<le> now) (ld_entries l2)"
    "unat (rolling_bytes (ledger_usage rng l2 host node)) = live_charge now host node l"
    "ld_last_observed_at l2 = Some now"
proof -
  note l1 = prune_ok [OF assms(2,1)]
  obtain c where c: "l2 = l1\<lparr>ld_entries := c\<rparr>" "compacts (ld_entries l1) c" "ledger_validate rng l2 = Inr ()"
    using valid_mergeD [OF l1(1)] assms(3) by auto
  show "ledger_validate rng l2 = Inr ()" by (rule c(3))
  show sc: "source_charge host node l2 = live_charge now host node l"
    using compacts_source_charge [OF c(2)] l1(3)
    by (simp add: source_charge_def live_charge_def c(1) charge_of_def conj_commute)
  have "le_recorded_at e \<in> le_recorded_at ` set (ld_entries l1)" if "e \<in> set c" for e
    using compacts_entry(3) [OF c(2) that] .
  then show "list_all (\<lambda>e. now - window_duration_24h < le_recorded_at e \<and> le_recorded_at e \<le> now) (ld_entries l2)"
    using l1(3,4) by (fastforce simp: c(1) list_all_iff clock_anomaly_None)
  show "unat (rolling_bytes (ledger_usage rng l2 host node)) = live_charge now host node l"
    using c(3) sc by (simp add: rolling_exact ledger_validate_iff source_charge_def)
  show "ld_last_observed_at l2 = Some now" using l1 c(1) by simp
qed

lemma source_charge_live:
  "list_all (\<lambda>e. now - window_duration_24h < le_recorded_at e \<and> le_recorded_at e \<le> now) (ld_entries l)
    \<Longrightarrow> live_charge now host node l = source_charge host node l"
  unfolding live_charge_def source_charge_def charge_of_def
  by (rule arg_cong [where f = charge], rule filter_cong) (auto simp: list_all_iff)

lemma unat_limits: "unat SOFT_LIMIT_BYTES = 157286400" "unat HARD_LIMIT_BYTES = 262144000"
  by (simp_all add: SOFT_LIMIT_BYTES_def HARD_LIMIT_BYTES_def)

lemma grant_bytes_exact:
  assumes "unat rolling < unat HARD_LIMIT_BYTES \<or> override_hard kind"
  shows "unat (grant_bytes kind requested rolling) = (case budget_limit kind of
     None \<Rightarrow> unat requested | Some limit \<Rightarrow> min (unat requested) (unat limit - unat rolling))"
  by (cases kind) (auto simp: grant_bytes_def override_hard_def budget_limit_def unat_sat_sub unat_limits
      min_def word_le_nat_alt)

section \<open>Store\<close>

lemma read_optional_valid:
  "read_optional_ledger env store = Inr l \<Longrightarrow> ledger_validate (be_chrono env) l = Inr ()"
  by (auto simp: read_optional_ledger_def result_simps ledger_validate_iff ledger_default_def
      valid_entries_def observed_ok_def split: option.splits)

lemma mutate_Inr:
  "mutate env operation store = (Inr r, store') \<longleftrightarrow> (\<exists>l l'. read_optional_ledger env store = Inr l
    \<and> operation l = Inr (r, l') \<and> ledger_validate (be_chrono env) l' = Inr ()
    \<and> be_json_len env l' + 1 \<le> MAX_BUDGET_FILE_BYTES \<and> store' = Some l')"
  by (auto simp: mutate_def result_simps serialize_ledger_def split: sum.splits)

lemma mutate_Inl: "mutate env operation store = (Inl e, store') \<Longrightarrow> store' = store"
  by (auto simp: mutate_def split: sum.splits)

lemma is_reservation_entry_iff: "is_reservation_entry v e \<longleftrightarrow> e = reservation_entry v"
  by (auto simp: is_reservation_entry_def reservation_entry_def)

lemma admit_Granted:
  assumes "admit env host node now kind b l = Inr (Granted v, l')"
  shows "rv_host_id v = host" "rv_node_id v = node" "rv_started_at v = now" "rv_kind v = kind"
    "rv_reserved_bytes v = grant_bytes kind (br_requested_total_bytes b)
      (rolling_bytes (ledger_usage (be_chrono env) l host node))"
    "rv_reserved_transport_overhead_bytes v = br_reserved_transport_overhead_bytes b"
    "l' = l\<lparr>ld_entries := sort_entries (ld_entries l @ [reservation_entry v])\<rparr>"
    "br_minimum_grant_bytes b \<le> rv_reserved_bytes v"
    "rolling_bytes (ledger_usage (be_chrono env) l host node) < HARD_LIMIT_BYTES \<or> override_hard kind"
    "length (ld_entries l) < MAX_LEDGER_ENTRIES" "source_entry_count l host node < MAX_ENTRIES_PER_SOURCE"
    "allocate_entry_id (be_random env) (ld_entries l) 0 ENTRY_ID_ATTEMPTS = Inr (rv_id v)"
  using assms
  by (auto simp: admit_def Let_def result_simps reservation_entry_def split: if_splits)

lemma admit_Paused:
  assumes "admit env host node now kind b l = Inr (Paused p, l')"
    and rolling: "unat (rolling_bytes (ledger_usage (be_chrono env) l host node)) = n"
    and minimum: "0 < br_minimum_grant_bytes b" "br_minimum_grant_bytes b \<le> br_requested_total_bytes b"
  shows "l' = l" "bp_usage p = ledger_usage (be_chrono env) l host node"
    "bp_reason p = LimitReached \<and> (\<exists>limit. budget_limit kind = Some limit
        \<and> unat limit < n + unat (br_minimum_grant_bytes b))
     \<or> bp_reason p = LedgerCapacity \<and> (MAX_LEDGER_ENTRIES \<le> length (ld_entries l)
        \<or> MAX_ENTRIES_PER_SOURCE \<le> source_entry_count l host node)"
proof -
  let ?r = "rolling_bytes (ledger_usage (be_chrono env) l host node)"
  show "l' = l" "bp_usage p = ledger_usage (be_chrono env) l host node"
    using assms(1) by (auto simp: admit_def Let_def result_simps pause_def split: if_splits)
  have min: "0 < unat (br_minimum_grant_bytes b)"
      "unat (br_minimum_grant_bytes b) \<le> unat (br_requested_total_bytes b)"
    using minimum by (simp_all add: word_less_nat_alt word_le_nat_alt)
  consider (hard) "\<not> override_hard kind" "HARD_LIMIT_BYTES \<le> ?r" "bp_reason p = LimitReached"
    | (soft) "kind = AutomaticBulk" "SOFT_LIMIT_BYTES \<le> ?r" "bp_reason p = LimitReached"
    | (capacity) "bp_reason p = LedgerCapacity" "MAX_LEDGER_ENTRIES \<le> length (ld_entries l)
        \<or> MAX_ENTRIES_PER_SOURCE \<le> source_entry_count l host node"
    | (room) "?r < HARD_LIMIT_BYTES \<or> override_hard kind" "bp_reason p = LimitReached"
        "grant_bytes kind (br_requested_total_bytes b) ?r < br_minimum_grant_bytes b"
    using assms(1) by (auto simp: admit_def Let_def result_simps pause_def not_le split: if_splits)
  then show "bp_reason p = LimitReached \<and> (\<exists>limit. budget_limit kind = Some limit
        \<and> unat limit < n + unat (br_minimum_grant_bytes b))
     \<or> bp_reason p = LedgerCapacity \<and> (MAX_LEDGER_ENTRIES \<le> length (ld_entries l)
        \<or> MAX_ENTRIES_PER_SOURCE \<le> source_entry_count l host node)"
  proof cases
    case hard
    then show ?thesis
      using min rolling by (cases kind) (simp_all add: override_hard_def budget_limit_def word_le_nat_alt unat_limits)
  next
    case soft
    then show ?thesis using min rolling by (simp add: budget_limit_def word_le_nat_alt)
  next
    case room
    have "unat (grant_bytes kind (br_requested_total_bytes b) ?r) < unat (br_minimum_grant_bytes b)"
      using room(3) by (simp add: word_less_nat_alt)
    moreover have "unat ?r < unat HARD_LIMIT_BYTES \<or> override_hard kind"
      using room(1) by (simp add: word_less_nat_alt)
    ultimately show ?thesis
      using min room(2) rolling by (auto simp: grant_bytes_exact split: option.splits)
  qed simp
qed

lemma validate_request_minimum:
  "validate_request host kind b = Inr () \<Longrightarrow> 0 < br_minimum_grant_bytes b
    \<and> br_minimum_grant_bytes b \<le> br_requested_total_bytes b \<and> br_requested_total_bytes b \<le> MAX_BYTES_PER_ENTRY
    \<and> br_reserved_transport_overhead_bytes b < br_minimum_grant_bytes b"
  by (auto simp: validate_request_def Let_def result_simps word_gt_0 split: if_splits)

lemma begin_operation_cases:
  assumes "begin_operation env host node now kind b l = Inr (a, l')"
  obtains (anomaly) t where "clock_anomaly_at l now = Some t" "l' = l"
      "a = Paused (pause (ledger_usage (be_chrono env) l host node) HardLevel ClockAnomaly HARD_LIMIT_BYTES (Some t))"
  | (admitted) l1 l2 where "advance_clock_and_prune (be_chrono env) now l = Inr l1"
      "merge_committed_minute_buckets l1 = Inr l2" "admit env host node now kind b l2 = Inr (a, l')"
  using assms by (auto simp: begin_operation_def result_simps split: option.splits)

lemma granted_accounting:
  assumes valid: "ledger_validate (be_chrono env) l = Inr ()"
    and prep: "advance_clock_and_prune (be_chrono env) now l = Inr l1" "merge_committed_minute_buckets l1 = Inr l2"
    and admit: "admit env host node now kind b l2 = Inr (Granted v, l')"
  shows "unat (rv_reserved_bytes v) = (case budget_limit kind of
            None \<Rightarrow> unat (br_requested_total_bytes b)
          | Some limit \<Rightarrow> min (unat (br_requested_total_bytes b)) (unat limit - live_charge now host node l))"
    and "source_charge h n l' = live_charge now h n l
             + (if same_source h n host node then unat (rv_reserved_bytes v) else 0)"
    and "list_all (\<lambda>e. now - window_duration_24h < le_recorded_at e \<and> le_recorded_at e \<le> now) (ld_entries l')"
    and "list_ex (is_reservation_entry v) (ld_entries l')"
proof -
  note l2 = prepare_ok [OF valid prep]
  note g = admit_Granted [OF admit]
  have "unat (rolling_bytes (ledger_usage (be_chrono env) l2 host node)) < unat HARD_LIMIT_BYTES \<or> override_hard kind"
    using g(9) by (simp add: word_less_nat_alt)
  from grant_bytes_exact [OF this] show "unat (rv_reserved_bytes v) = (case budget_limit kind of
            None \<Rightarrow> unat (br_requested_total_bytes b)
          | Some limit \<Rightarrow> min (unat (br_requested_total_bytes b)) (unat limit - live_charge now host node l))"
    by (simp only: g(5) l2(4))
  have m: "mset (ld_entries l') = mset (ld_entries l2 @ [reservation_entry v])"
    using g(7) by (simp add: sort_entries_def)
  show "source_charge h n l' = live_charge now h n l
             + (if same_source h n host node then unat (rv_reserved_bytes v) else 0)"
    using l2(2) [of h n] charge_of_mset [OF m, of "matches_source h n"] g(1,2)
    by (auto simp: source_charge_def matches_source_iff same_source_def reservation_entry_def)
  show "list_all (\<lambda>e. now - window_duration_24h < le_recorded_at e \<and> le_recorded_at e \<le> now) (ld_entries l')"
    using l2(3) mset_eq_setD [OF m] g(3)
    by (auto simp: list_all_iff reservation_entry_def window_duration_24h_def hours_def minutes_def seconds_def)
  show "list_ex (is_reservation_entry v) (ld_entries l')"
    using mset_eq_setD [OF m] by (auto simp: list_ex_iff is_reservation_entry_iff)
qed

text \<open>
  C37. The admission decision is exact.  When a call of \<open>begin_attempt_inner\<close> succeeds, the
  stored ledger is valid and: a grant is the requested size cut to what the limit of the
  kind leaves over the exact charge of the source in the last 24 hours, is at least the
  minimum, is recorded as an entry of the ledger, adds exactly its size to its source and
  nothing to any other, and leaves the source within the limit; a pause for the limit
  happens only when the minimum does not fit; a pause for the clock leaves the ledger as
  it was and names the instant of the anomaly; a capacity pause happens only at capacity.
\<close>

theorem admission_decision:
  assumes "read_optional_ledger env store = Inr l"
    and "begin_attempt_inner env host node now kind b store = (Inr a, store')"
  shows "\<exists>l'. store' = Some l' \<and> ledger_validate (be_chrono env) l' = Inr () \<and> (case a of
      Granted v \<Rightarrow>
        clock_anomaly_at l now = None
        \<and> list_ex (is_reservation_entry v) (ld_entries l')
        \<and> list_all (\<lambda>e. now - window_duration_24h < le_recorded_at e \<and> le_recorded_at e \<le> now) (ld_entries l')
        \<and> unat (rv_reserved_bytes v) = (case budget_limit kind of
            None \<Rightarrow> unat (br_requested_total_bytes b)
          | Some limit \<Rightarrow> min (unat (br_requested_total_bytes b)) (unat limit - live_charge now host node l))
        \<and> br_minimum_grant_bytes b \<le> rv_reserved_bytes v
        \<and> (\<forall>h n. source_charge h n l' = live_charge now h n l
             + (if same_source h n host node then unat (rv_reserved_bytes v) else 0))
        \<and> (case budget_limit kind of None \<Rightarrow> True | Some limit \<Rightarrow> source_charge host node l' \<le> unat limit)
    | Paused p \<Rightarrow> (case bp_reason p of
        ClockAnomaly \<Rightarrow> l' = l \<and> bp_resume_at p = clock_anomaly_at l now \<and> bp_resume_at p \<noteq> None
      | LimitReached \<Rightarrow> (\<exists>limit. budget_limit kind = Some limit
          \<and> unat limit < live_charge now host node l + unat (br_minimum_grant_bytes b))
      | LedgerCapacity \<Rightarrow> MAX_LEDGER_ENTRIES \<le> length (ld_entries l')
          \<or> MAX_ENTRIES_PER_SOURCE \<le> source_entry_count l' host node))"
proof -
  have req: "validate_request host kind b = Inr ()"
    and run: "mutate env (begin_operation env host node now kind b) store = (Inr a, store')"
    using assms(2) by (auto simp: begin_attempt_inner_def split: sum.splits)
  from run assms(1) obtain l' where op: "begin_operation env host node now kind b l = Inr (a, l')"
    and l': "ledger_validate (be_chrono env) l' = Inr ()" "store' = Some l'"
    by (auto simp: mutate_Inr)
  have valid: "ledger_validate (be_chrono env) l = Inr ()" by (rule read_optional_valid [OF assms(1)])
  note minimum = validate_request_minimum [OF req]
  show ?thesis
    using op
  proof (cases rule: begin_operation_cases)
    case (anomaly t)
    then show ?thesis using l' by (simp add: pause_def)
  next
    case (admitted l1 l2)
    note l2 = prepare_ok [OF valid admitted(1,2)]
    show ?thesis
    proof (cases a)
      case (Granted v)
      note g = admit_Granted [OF admitted(3) [unfolded Granted]]
      note account = granted_accounting [OF valid admitted(1,2) admitted(3) [unfolded Granted]]
      have "0 < unat (rv_reserved_bytes v)"
        using minimum g(8) by (simp add: word_less_nat_alt word_le_nat_alt)
      then have "case budget_limit kind of None \<Rightarrow> True | Some limit \<Rightarrow> source_charge host node l' \<le> unat limit"
        using account(1) account(2) [of host node] by (auto simp: same_source_def split: option.splits)
      then show ?thesis
        using l' Granted account g(8) prune_ok(4) [OF admitted(1) valid] by simp
    next
      case (Paused p)
      note p = admit_Paused [OF admitted(3) [unfolded Paused] l2(4)]
      show ?thesis using p minimum l' Paused by auto
    qed
  qed
qed

section \<open>Settlement\<close>

lemma find_reservation_Inr:
  "find_reservation v es = Inr i \<Longrightarrow> i < length es \<and> es ! i = reservation_entry v"
  by (induction es arbitrary: i) (auto simp: result_simps is_reservation_entry_iff split: if_splits)

lemma find_reservation_ok: "list_ex (is_reservation_entry v) es \<longleftrightarrow> (\<exists>i. find_reservation v es = Inr i)"
  by (induction es) (auto simp: result_simps)

lemma mset_remove_at: "i < length es \<Longrightarrow> mset es = add_mset (es ! i) (mset (remove_at i es))"
  unfolding remove_at_def by (metis id_take_nth_drop mset.simps(2) mset_append union_mset_add_mset_right)

lemma valid_entries_count: "valid_entries rng es \<Longrightarrow> key_count k es \<le> MAX_ENTRIES_PER_SOURCE"
  by (simp add: valid_entries_def)

lemma valid_parts:
  assumes "mset es = add_mset r (mset fs)" "valid_entries rng es"
  shows "list_all (valid_entry rng) fs" "distinct (List.map le_id (r # fs))" "valid_entry rng r"
    "(if source_key r = k then 1 else 0) + key_count k fs \<le> MAX_ENTRIES_PER_SOURCE"
proof -
  have m: "mset es = mset (r # fs)" using assms(1) by simp
  have "list_all (valid_entry rng) (r # fs)"
    using assms(2) mset_eq_setD [OF m] by (simp add: valid_entries_def list_all_iff)
  then show "list_all (valid_entry rng) fs" "valid_entry rng r" by simp_all
  show "distinct (List.map le_id (r # fs))"
    using assms(2) m unfolding valid_entries_def by (metis mset_map mset_eq_imp_distinct_iff)
  show "(if source_key r = k then 1 else 0) + key_count k fs \<le> MAX_ENTRIES_PER_SOURCE"
    using valid_entries_count [OF assms(2), of k] key_count_mset [OF m, of k] by simp
qed

lemma complete_operation_eq:
  "complete_operation env v t actual l = and_then (ensure (rv_started_at v \<le> t) CompletionClockBackwards) (\<lambda>_.
    and_then (find_reservation v (ld_entries l)) (\<lambda>i.
    and_then (merge_committed_minute_buckets (settled v t actual i l)) (\<lambda>l.
      Inr (ledger_usage (be_chrono env) l (rv_host_id v) (rv_node_id v), l))))"
  by (simp add: complete_operation_def ensure_completion_clock_def settled_def settled_entry_def
      reservation_entry_def Let_def cong: if_cong)

lemma observe_ge: "observe t p = Some u \<Longrightarrow> t \<le> u \<and> (\<forall>s. p = Some s \<longrightarrow> s \<le> u)"
  by (auto simp: observe_def split: option.splits)

lemma source_key_settled [simp]:
  "source_key (settled_entry v t actual) = source_key (reservation_entry v)"
  "source_key (reservation_entry v) = source_storage_key (rv_host_id v) (rv_node_id v)"
  by (simp_all add: source_key_def settled_entry_def reservation_entry_def)

lemma settled_parts:
  assumes valid: "ledger_validate rng l = Inr ()" and i: "find_reservation v (ld_entries l) = Inr i"
    and actual: "actual \<le> MAX_BYTES_PER_ENTRY"
    and t: "rv_started_at v \<le> t" "t + window_duration_24h \<le> max_utc rng"
  shows "list_all (valid_entry rng) (ld_entries (settled v t actual i l))"
    "distinct (List.map le_id (ld_entries (settled v t actual i l)))"
    "key_count k (ld_entries (settled v t actual i l)) \<le> MAX_ENTRIES_PER_SOURCE"
    "length (ld_entries (settled v t actual i l)) \<le> length (ld_entries l)"
proof -
  let ?fs = "remove_at i (ld_entries l)"
  have m: "mset (ld_entries l) = add_mset (reservation_entry v) (mset ?fs)"
    using mset_remove_at find_reservation_Inr [OF i] by metis
  have v: "valid_entries rng (ld_entries l)" using valid by (simp add: ledger_validate_iff)
  note p = valid_parts [OF m v]
  have "valid_entry rng (settled_entry v t actual)" if "0 < actual"
    using p(3) actual t that by (simp add: valid_entry_def settled_entry_def reservation_entry_def word_gt_0)
  then show "list_all (valid_entry rng) (ld_entries (settled v t actual i l))"
    using p(1) by (simp add: settled_def)
  have "le_id (settled_entry v t actual) = le_id (reservation_entry v)" by (simp add: settled_entry_def)
  then show "distinct (List.map le_id (ld_entries (settled v t actual i l)))"
    using p(2) by (auto simp: settled_def)
  show "key_count k (ld_entries (settled v t actual i l)) \<le> MAX_ENTRIES_PER_SOURCE"
    using p(4) [of k] by (auto simp: settled_def split: if_splits)
  have "length (ld_entries l) = Suc (length ?fs)" using arg_cong [OF m, of size] by simp
  then show "length (ld_entries (settled v t actual i l)) \<le> length (ld_entries l)"
    by (simp add: settled_def)
qed

lemma settled_charge:
  assumes i: "find_reservation v (ld_entries l) = Inr i"
  shows "source_charge h n (settled v t actual i l)
      + (if same_source h n (rv_host_id v) (rv_node_id v) then unat (rv_reserved_bytes v) else 0)
    = source_charge h n l + (if same_source h n (rv_host_id v) (rv_node_id v) then unat actual else 0)"
    and "add_mset (reservation_entry v) (mset (filter (\<lambda>e. le_kind e = Reserved) (ld_entries (settled v t actual i l))))
      = mset (filter (\<lambda>e. le_kind e = Reserved) (ld_entries l))"
proof -
  let ?fs = "remove_at i (ld_entries l)"
  have m: "mset (ld_entries l) = mset (reservation_entry v # ?fs)"
    using mset_remove_at find_reservation_Inr [OF i] by (metis mset.simps(2))
  show "source_charge h n (settled v t actual i l)
      + (if same_source h n (rv_host_id v) (rv_node_id v) then unat (rv_reserved_bytes v) else 0)
    = source_charge h n l + (if same_source h n (rv_host_id v) (rv_node_id v) then unat actual else 0)"
    using charge_of_mset [OF m, of "matches_source h n"]
    by (auto simp: source_charge_def settled_def matches_source_iff same_source_def settled_entry_def
        reservation_entry_def word_gt_0)
  show "add_mset (reservation_entry v) (mset (filter (\<lambda>e. le_kind e = Reserved) (ld_entries (settled v t actual i l))))
      = mset (filter (\<lambda>e. le_kind e = Reserved) (ld_entries l))"
    unfolding mset_filter m by (simp add: settled_def settled_entry_def reservation_entry_def)
qed

lemma settled_observed_ok:
  assumes valid: "ledger_validate rng l = Inr ()" and i: "find_reservation v (ld_entries l) = Inr i"
    and last: "ld_last_observed_at l = Some p"
  shows "observed_ok (settled v t actual i l)"
proof -
  have "set (remove_at i (ld_entries l)) \<subseteq> set (ld_entries l)"
    by (auto simp: remove_at_def dest: in_set_takeD in_set_dropD)
  moreover have "\<forall>e\<in>set (ld_entries l). le_recorded_at e \<le> p"
    using valid last by (simp add: ledger_validate_iff observed_ok_def list_all_iff)
  ultimately show ?thesis
    using last by (force simp: observed_ok_def observe_def settled_def settled_entry_def list_all_iff)
qed

lemma complete_operation_ok:
  assumes valid: "ledger_validate (be_chrono env) l = Inr ()" and last: "ld_last_observed_at l \<noteq> None"
    and reserved: "list_ex (is_reservation_entry v) (ld_entries l)"
    and clock: "rv_started_at v \<le> t" "t + window_duration_24h \<le> max_utc (be_chrono env)"
    and actual: "actual \<le> MAX_BYTES_PER_ENTRY"
  obtains i c where "find_reservation v (ld_entries l) = Inr i"
    "complete_operation env v t actual l = Inr (ledger_usage (be_chrono env)
        ((settled v t actual i l)\<lparr>ld_entries := c\<rparr>) (rv_host_id v) (rv_node_id v),
      (settled v t actual i l)\<lparr>ld_entries := c\<rparr>)"
    "compacts (ld_entries (settled v t actual i l)) c"
    "ledger_validate (be_chrono env) ((settled v t actual i l)\<lparr>ld_entries := c\<rparr>) = Inr ()"
proof -
  obtain i where i: "find_reservation v (ld_entries l) = Inr i" using reserved find_reservation_ok by blast
  let ?s = "settled v t actual i l"
  note parts = settled_parts [OF valid i actual clock]
  obtain c where c: "merge_committed_minute_buckets ?s = Inr (?s\<lparr>ld_entries := c\<rparr>)"
      "compacts (ld_entries ?s) c" "valid_entries (be_chrono env) c" "length c \<le> length (ld_entries ?s)"
    using merge_ok [OF parts(1-3)] .
  have "observed_ok ?s" using settled_observed_ok [OF valid i] last by blast
  then have "observed_ok (?s\<lparr>ld_entries := c\<rparr>)"
    using compacts_entry(3) [OF c(2)] by (fastforce simp: observed_ok_def list_all_iff split: option.splits)
  moreover have "ld_schema_version ?s = 1" "length (ld_entries ?s) \<le> MAX_LEDGER_ENTRIES"
    using valid parts(4) by (simp_all add: ledger_validate_iff settled_def)
  ultimately have "ledger_validate (be_chrono env) (?s\<lparr>ld_entries := c\<rparr>) = Inr ()"
    using c(3,4) by (simp add: ledger_validate_iff)
  with that i c clock(1) show thesis by (simp add: complete_operation_eq)
qed

lemma compacts_reserved:
  "compacts es c \<Longrightarrow> mset (filter (\<lambda>e. le_kind e = Reserved) c) = mset (filter (\<lambda>e. le_kind e = Reserved) es)"
  by (simp add: compacts_def)

lemma reservation_gone:
  assumes "distinct (List.map le_id es)"
    and "add_mset (reservation_entry v) (mset (filter (\<lambda>e. le_kind e = Reserved) fs))
      = mset (filter (\<lambda>e. le_kind e = Reserved) es)"
  shows "\<not> list_ex (is_reservation_entry v) fs"
proof
  assume "list_ex (is_reservation_entry v) fs"
  then have "reservation_entry v \<in># mset (filter (\<lambda>e. le_kind e = Reserved) fs)"
    by (auto simp: list_ex_iff is_reservation_entry_iff reservation_entry_def)
  then have "2 \<le> count (mset (filter (\<lambda>e. le_kind e = Reserved) es)) (reservation_entry v)"
    unfolding assms(2) [symmetric] by (simp add: Suc_le_eq count_greater_zero_iff)
  moreover have "distinct es" using assms(1) by (simp add: distinct_map)
  then have "distinct (filter (\<lambda>e. le_kind e = Reserved) es)" by simp
  then have "count (mset (filter (\<lambda>e. le_kind e = Reserved) es)) (reservation_entry v) \<le> 1"
    by (simp add: distinct_count_atmost_1)
  ultimately show False by simp
qed

text \<open>
  Settling a reservation that is in the ledger, not before it started and for at most
  the per-entry bound, always succeeds (when the encoded ledger fits the file), replaces
  exactly its reserved bytes by the actual bytes in the charge of its source, changes the
  charge of no other source, keeps every other reservation, and returns the exact usage.
\<close>

theorem settlement_exact:
  assumes load: "read_optional_ledger env store = Inr l" "ld_last_observed_at l \<noteq> None"
    and reserved: "list_ex (is_reservation_entry v) (ld_entries l)"
    and clock: "rv_started_at v \<le> t" "t + window_duration_24h \<le> max_utc (be_chrono env)"
    and actual: "actual \<le> MAX_BYTES_PER_ENTRY"
    and fits: "\<And>l'. ledger_validate (be_chrono env) l' = Inr () \<Longrightarrow> be_json_len env l' < MAX_BUDGET_FILE_BYTES"
  shows "\<exists>u l'. complete_attempt env v t actual store = (Inr u, Some l')
    \<and> ledger_validate (be_chrono env) l' = Inr ()
    \<and> unat (rolling_bytes u) = source_charge (rv_host_id v) (rv_node_id v) l'
    \<and> (\<forall>h n. source_charge h n l' + (if same_source h n (rv_host_id v) (rv_node_id v) then unat (rv_reserved_bytes v) else 0)
        = source_charge h n l + (if same_source h n (rv_host_id v) (rv_node_id v) then unat actual else 0))
    \<and> add_mset (reservation_entry v) (mset (filter (\<lambda>e. le_kind e = Reserved) (ld_entries l')))
      = mset (filter (\<lambda>e. le_kind e = Reserved) (ld_entries l))
    \<and> \<not> list_ex (is_reservation_entry v) (ld_entries l')"
proof -
  note valid = read_optional_valid [OF load(1)]
  obtain i c where i: "find_reservation v (ld_entries l) = Inr i"
    and op: "complete_operation env v t actual l = Inr (ledger_usage (be_chrono env)
        ((settled v t actual i l)\<lparr>ld_entries := c\<rparr>) (rv_host_id v) (rv_node_id v),
      (settled v t actual i l)\<lparr>ld_entries := c\<rparr>)"
    and c: "compacts (ld_entries (settled v t actual i l)) c"
    and l': "ledger_validate (be_chrono env) ((settled v t actual i l)\<lparr>ld_entries := c\<rparr>) = Inr ()"
    using complete_operation_ok [OF valid load(2) reserved clock actual] .
  let ?l = "(settled v t actual i l)\<lparr>ld_entries := c\<rparr>"
  let ?u = "ledger_usage (be_chrono env) ?l (rv_host_id v) (rv_node_id v)"
  have run: "complete_attempt env v t actual store = (Inr ?u, Some ?l)"
    using actual load op l' fits [OF l'] by (simp add: complete_attempt_def mutate_Inr not_less)
  have reserved': "add_mset (reservation_entry v) (mset (filter (\<lambda>e. le_kind e = Reserved) (ld_entries ?l)))
      = mset (filter (\<lambda>e. le_kind e = Reserved) (ld_entries l))"
    using settled_charge(2) [OF i, of t actual] compacts_reserved [OF c] by simp
  have "source_charge h n ?l = source_charge h n (settled v t actual i l)" for h n
    using compacts_source_charge [OF c] by (simp add: source_charge_def)
  moreover have "unat (rolling_bytes ?u) = source_charge (rv_host_id v) (rv_node_id v) ?l"
    using l' by (simp add: rolling_exact ledger_validate_iff source_charge_def)
  moreover have "distinct (List.map le_id (ld_entries l))"
    using valid by (simp add: ledger_validate_iff valid_entries_def)
  ultimately show ?thesis
    using run l' settled_charge(1) [OF i, where t = t and actual = actual] reserved' reservation_gone by auto
qed

section \<open>Resumption\<close>

lemma unat_fold_sat_sub:
  "unat (fold (\<lambda>x r. sat_sub r (le_bytes x)) es r) = unat r - charge es"
  by (induction es arbitrary: r) (simp_all add: unat_sat_sub)

lemma sorted_dropWhile_later:
  assumes "sorted (List.map le_recorded_at (e # es))" "x \<in> set (dropWhile (\<lambda>x. le_recorded_at x = le_recorded_at e) (e # es))"
  shows "le_recorded_at e < le_recorded_at x"
  using assms
proof (induction es)
  case (Cons a es)
  then show ?case by (auto split: if_splits)
qed simp

lemma charge_of_split:
  "es = xs @ ys \<Longrightarrow> charge_of P es = charge_of P xs + charge_of P ys"
  by simp

lemma charge_of_all: "(\<And>e. e \<in> set es \<Longrightarrow> P e) \<Longrightarrow> charge_of P es = charge es"
  by (induction es) auto

lemma charge_of_const:
  "(\<And>e. e \<in> set es \<Longrightarrow> le_recorded_at e = a)
    \<Longrightarrow> charge_of (\<lambda>e. u < le_recorded_at e) es = (if u < a then charge es else 0)"
  by (induction es) auto

lemma resume_loop_earliest:
  assumes "sorted (List.map le_recorded_at es)" "unat remaining = charge es"
    and "0 < unat threshold" "unat threshold \<le> charge es"
    and "\<And>e. e \<in> set es \<Longrightarrow> min_utc rng \<le> le_recorded_at e + window_duration_24h
      \<and> le_recorded_at e + window_duration_24h \<le> max_utc rng"
  shows "\<exists>t. resume_loop rng es remaining threshold = Some t
    \<and> charge_of (\<lambda>e. t - window_duration_24h < le_recorded_at e) es < unat threshold
    \<and> (\<forall>u<t. unat threshold \<le> charge_of (\<lambda>e. u - window_duration_24h < le_recorded_at e) es)"
  using assms
proof (induction rng es remaining threshold rule: resume_loop.induct)
  case (2 rng e es remaining threshold)
  let ?at = "le_recorded_at e"
  let ?same = "takeWhile (\<lambda>x. le_recorded_at x = ?at) (e # es)"
  let ?rest = "dropWhile (\<lambda>x. le_recorded_at x = ?at) (e # es)"
  let ?left = "fold (\<lambda>x r. sat_sub r (le_bytes x)) ?same remaining"
  have split: "e # es = ?same @ ?rest" by (rule takeWhile_dropWhile_id [symmetric])
  have left: "unat ?left = charge ?rest"
    using "2.prems"(2) arg_cong [OF split, of charge] unfolding unat_fold_sat_sub charge_simps(3) by linarith
  have same: "le_recorded_at x = ?at" if "x \<in> set ?same" for x using that by (rule set_takeWhileD [THEN conjunct2])
  have later: "?at < le_recorded_at x" if "x \<in> set ?rest" for x
    by (rule sorted_dropWhile_later [OF "2.prems"(1) that])
  have sub: "set ?rest \<subseteq> set (e # es)" by (rule set_dropWhileD [THEN subsetI])
  have live: "charge_of (\<lambda>x. u < le_recorded_at x) (e # es)
      = (if u < ?at then charge ?same else 0) + charge_of (\<lambda>x. u < le_recorded_at x) ?rest" for u
    by (rule trans [OF charge_of_split [OF split]]) (simp only: charge_of_const [OF same])
  show ?case
  proof (cases "?left < threshold")
    case True
    let ?t = "?at + window_duration_24h"
    have "resume_loop rng (e # es) remaining threshold = Some ?t"
      using True "2.prems"(5) [of e] by (simp add: Let_def checked_add_signed_def)
    moreover have "charge_of (\<lambda>x. ?t - window_duration_24h < le_recorded_at x) (e # es) < unat threshold"
      using True left later by (simp only: live) (simp add: charge_of_all word_less_nat_alt)
    moreover have "unat threshold \<le> charge_of (\<lambda>x. u - window_duration_24h < le_recorded_at x) (e # es)"
      if "u < ?t" for u
    proof -
      have "le_recorded_at e \<le> le_recorded_at x" if "x \<in> set (e # es)" for x
        using "2.prems"(1) that by auto
      then have "charge_of (\<lambda>x. u - window_duration_24h < le_recorded_at x) (e # es) = charge (e # es)"
        using \<open>u < ?t\<close> by (intro charge_of_all) fastforce
      with "2.prems"(4) show ?thesis by simp
    qed
    ultimately show ?thesis by blast
  next
    case False
    have "sorted (List.map le_recorded_at ?rest)"
      using "2.prems"(1) by (metis sorted_append map_append split)
    moreover have "unat threshold \<le> charge ?rest" using False left by (simp add: word_less_nat_alt)
    ultimately obtain t where t: "resume_loop rng ?rest ?left threshold = Some t"
        "charge_of (\<lambda>e. t - window_duration_24h < le_recorded_at e) ?rest < unat threshold"
        "\<And>u. u < t \<Longrightarrow> unat threshold \<le> charge_of (\<lambda>e. u - window_duration_24h < le_recorded_at e) ?rest"
      using "2.IH" [OF refl refl refl refl False] left "2.prems"(3,5) sub by blast
    have "\<not> t - window_duration_24h < ?at"
    proof
      assume "t - window_duration_24h < ?at"
      then have "charge_of (\<lambda>e. t - window_duration_24h < le_recorded_at e) ?rest = charge ?rest"
        using later by (intro charge_of_all) (rule less_trans)
      with t(2) \<open>unat threshold \<le> charge ?rest\<close> show False by simp
    qed
    then have "charge_of (\<lambda>e. t - window_duration_24h < le_recorded_at e) (e # es) < unat threshold"
      using t(2) by (simp only: live) simp
    moreover have "unat threshold \<le> charge_of (\<lambda>e. u - window_duration_24h < le_recorded_at e) (e # es)" if "u < t" for u
      using t(3) [OF that] by (simp only: live if_False add_0)
    moreover have "resume_loop rng (e # es) remaining threshold = Some t"
      using False t(1) by (simp add: Let_def)
    ultimately show ?thesis by blast
  qed
qed simp

text \<open>
  The instant a pause reports is the earliest one: on a valid ledger whose source is at
  or above the threshold, \<open>resume_below\<close> returns an instant at which the charge of the
  preceding 24 hours is below the threshold, and at every earlier instant it is not.
\<close>

theorem resume_below_earliest:
  assumes "ledger_validate rng l = Inr ()" "0 < unat threshold" "unat threshold \<le> source_charge host node l"
  shows "\<exists>t. resume_below rng l host node threshold = Some t
    \<and> live_charge t host node l < unat threshold
    \<and> (\<forall>u<t. unat threshold \<le> live_charge u host node l)"
proof -
  let ?es = "sort_key le_recorded_at (source_entries l host node)"
  have m: "mset ?es = mset (filter (matches_source host node) (ld_entries l))" by (simp add: source_entries_def)
  have charge: "charge ?es = source_charge host node l"
    using charge_mset [OF m] by (simp add: source_charge_def charge_of_def)
  have "unat (rolling_bytes (ledger_usage rng l host node)) = charge ?es"
    using assms(1) charge by (simp add: rolling_exact ledger_validate_iff source_charge_def)
  moreover have "min_utc rng \<le> le_recorded_at e + window_duration_24h \<and> le_recorded_at e + window_duration_24h \<le> max_utc rng"
    if "e \<in> set ?es" for e
    using that assms(1) by (auto simp: ledger_validate_iff valid_entries_def valid_entry_def list_all_iff source_entries_def)
  moreover have "charge_of (\<lambda>e. u - window_duration_24h < le_recorded_at e) ?es = live_charge u host node l" for u
    using charge_of_mset [OF m, of "\<lambda>e. u - window_duration_24h < le_recorded_at e"]
    by (simp add: live_charge_def charge_of_def conj_commute)
  ultimately show ?thesis
    using resume_loop_earliest [of ?es "rolling_bytes (ledger_usage rng l host node)" threshold rng]
      assms(2,3) charge by (simp add: resume_below_def)
qed

section \<open>Requests of a synchronization\<close>

lemma sync_byte_request_Inr:
  assumes "sync_byte_request max_response max_exchanges = Inr b"
  shows "unat (br_reserved_transport_overhead_bytes b) = unat max_exchanges * unat SSH_EXCHANGE_OVERHEAD_BYTES"
    "unat (br_requested_total_bytes b) = unat max_response + unat max_exchanges * unat SSH_EXCHANGE_OVERHEAD_BYTES"
    "unat (br_minimum_grant_bytes b)
      = unat MIN_REMOTE_SYNC_RESPONSE_BYTES + unat max_exchanges * unat SSH_EXCHANGE_OVERHEAD_BYTES"
  using assms by (auto simp: sync_byte_request_def result_simps checked_iffs)

lemma begin_granted:
  assumes "begin_attempt_inner env host node now kind b store = (Inr (Granted v), store')"
  obtains l l1 l2 l' where "read_optional_ledger env store = Inr l" "validate_request host kind b = Inr ()"
    "advance_clock_and_prune (be_chrono env) now l = Inr l1" "merge_committed_minute_buckets l1 = Inr l2"
    "admit env host node now kind b l2 = Inr (Granted v, l')" "store' = Some l'"
proof -
  obtain l l' where l: "read_optional_ledger env store = Inr l" "validate_request host kind b = Inr ()"
      "begin_operation env host node now kind b l = Inr (Granted v, l')" "store' = Some l'"
    using assms by (auto simp: begin_attempt_inner_def mutate_Inr split: sum.splits)
  from l(3) show thesis
    by (cases rule: begin_operation_cases) (use l that in auto)
qed

lemma report_within_reservation:
  assumes "begin_sync_attempt env host node now kind max_response max_exchanges store = (Inr (Granted v), store')"
  shows "\<exists>g. granted_response_bytes v = Inr g \<and> MIN_REMOTE_SYNC_RESPONSE_BYTES \<le> g \<and> g \<le> max_response
    \<and> (\<forall>r total. rr_exchanges r \<le> max_exchanges \<longrightarrow> rr_response_bytes r \<le> g
        \<longrightarrow> estimated_network_bytes r = Inr total \<longrightarrow> total \<le> rv_reserved_bytes v)"
proof -
  obtain b where b: "sync_byte_request max_response max_exchanges = Inr b"
    and run: "begin_attempt_inner env host node now kind b store = (Inr (Granted v), store')"
    using assms by (auto simp: begin_sync_attempt_def split: sum.splits)
  obtain l l1 l2 l' where l: "read_optional_ledger env store = Inr l"
      "advance_clock_and_prune (be_chrono env) now l = Inr l1" "merge_committed_minute_buckets l1 = Inr l2"
      "admit env host node now kind b l2 = Inr (Granted v, l')"
    using run by (rule begin_granted) blast
  note bytes = sync_byte_request_Inr [OF b]
  note g = admit_Granted(6,8) [OF l(4)]
  have upper: "unat (rv_reserved_bytes v) \<le> unat (br_requested_total_bytes b)"
    using granted_accounting(1) [OF read_optional_valid [OF l(1)] l(2-4)] by (auto split: option.splits)
  have lower: "unat (br_minimum_grant_bytes b) \<le> unat (rv_reserved_bytes v)"
    using g(2) by (simp add: word_le_nat_alt)
  obtain r where r: "checked_sub (rv_reserved_bytes v) (rv_reserved_transport_overhead_bytes v) = Some r"
    using lower bytes g(1) by (cases "checked_sub (rv_reserved_bytes v) (rv_reserved_transport_overhead_bytes v)")
      (auto simp: checked_iffs)
  then have r': "unat r = unat (rv_reserved_bytes v) - unat max_exchanges * unat SSH_EXCHANGE_OVERHEAD_BYTES"
    using bytes g(1) by (auto simp: checked_iffs)
  have "total \<le> rv_reserved_bytes v"
    if "rr_exchanges rep \<le> max_exchanges" "rr_response_bytes rep \<le> r" "estimated_network_bytes rep = Inr total"
    for rep total
  proof -
    have "unat total = unat (rr_response_bytes rep) + unat (rr_exchanges rep) * unat SSH_EXCHANGE_OVERHEAD_BYTES"
      using that(3) by (auto simp: estimated_network_bytes_def Let_def result_simps checked_iffs split: if_splits)
    moreover have "unat (rr_exchanges rep) * unat SSH_EXCHANGE_OVERHEAD_BYTES
        \<le> unat max_exchanges * unat SSH_EXCHANGE_OVERHEAD_BYTES"
      using that(1) by (simp add: word_le_nat_alt)
    ultimately show ?thesis using that(2) r' lower bytes unfolding word_le_nat_alt by linarith
  qed
  moreover have "MIN_REMOTE_SYNC_RESPONSE_BYTES \<le> r" "r \<le> max_response"
    using r' lower upper bytes by (simp_all add: word_le_nat_alt)
  ultimately show ?thesis using r by (auto simp: granted_response_bytes_def)
qed

text \<open>
  The estimate of a synchronization stays within its reservation: a grant of
  \<open>begin_sync_attempt\<close> leaves at least the smallest frame and at most the requested size
  for responses, and every report with no more exchanges than reserved and no more
  response bytes than granted is charged at most the reserved bytes.
\<close>

theorem sync_report_within_reservation:
  assumes "begin_sync_attempt env host node now kind max_response max_exchanges store = (Inr (Granted v), store')"
  shows "\<exists>g. granted_response_bytes v = Inr g \<and> MIN_REMOTE_SYNC_RESPONSE_BYTES \<le> g \<and> g \<le> max_response
    \<and> (\<forall>r total. rr_exchanges r \<le> max_exchanges \<longrightarrow> rr_response_bytes r \<le> g
        \<longrightarrow> estimated_network_bytes r = Inr total \<longrightarrow> total \<le> rv_reserved_bytes v)"
  by (rule report_within_reservation [OF assms])

interpretation ledger_file: state_store "read_optional_ledger env" Some
  "\<lambda>l. ledger_validate (be_chrono env) l = Inr ()" "mutate env" for env
  by unfold_locales
    (auto simp: mutate_Inr read_optional_valid dest: mutate_Inl, simp add: read_optional_ledger_def)

lemma live_charge_le: "live_charge now h n l \<le> source_charge h n l"
  unfolding live_charge_def source_charge_def by (rule charge_of_le) simp

lemma pruned_charge:
  assumes "advance_clock_and_prune rng now l = Inr l'" "ledger_validate rng l = Inr ()"
  shows "source_charge h n l' = live_charge now h n l"
  using prune_ok(3) [OF assms] by (simp add: source_charge_def live_charge_def charge_of_def conj_commute)

lemma budget_limit_le_hard:
  "\<not> override_hard kind \<Longrightarrow> \<exists>limit. budget_limit kind = Some limit \<and> unat limit \<le> unat HARD_LIMIT_BYTES"
  by (cases kind) (simp_all add: override_hard_def budget_limit_def unat_limits)

lemma begin_below_hard:
  assumes valid: "ledger_validate (be_chrono env) l = Inr ()" and below: "below_hard l"
    and kind: "\<not> override_hard kind" and minimum: "0 < br_minimum_grant_bytes b"
    and op: "begin_operation env host node now kind b l = Inr (a, l')"
  shows "below_hard l'"
  using op
proof (cases rule: begin_operation_cases)
  case (admitted l1 l2)
  have live: "live_charge now h n l \<le> unat HARD_LIMIT_BYTES" for h n
    using below live_charge_le [of now h n l] by (meson below_hard_def order_trans)
  show ?thesis
  proof (cases a)
    case (Granted v)
    note account = granted_accounting(1,2) [OF valid admitted(1,2) admitted(3) [unfolded Granted]]
    have "0 < unat (rv_reserved_bytes v)"
      using minimum admit_Granted(8) [OF admitted(3) [unfolded Granted]]
      by (simp add: word_less_nat_alt word_le_nat_alt)
    with account(1) have "live_charge now host node l + unat (rv_reserved_bytes v) \<le> unat HARD_LIMIT_BYTES"
      using budget_limit_le_hard [OF kind] by auto
    moreover have "live_charge now h n l = live_charge now host node l" if "same_source h n host node" for h n
      using that by (simp add: live_charge_def matches_source_iff same_source_def)
    ultimately show ?thesis
      using account(2) live by (auto simp: below_hard_def)
  next
    case (Paused p)
    then have "l' = l2" using admitted(3) by (auto simp: admit_def Let_def result_simps split: if_splits)
    with prepare_ok(2) [OF valid admitted(1,2)] live show ?thesis by (simp add: below_hard_def)
  qed
qed (simp add: below)

lemma settled_below_hard:
  assumes "find_reservation v (ld_entries l) = Inr i" "actual \<le> rv_reserved_bytes v" "below_hard l"
  shows "below_hard (settled v t actual i l)"
  unfolding below_hard_def
proof (intro allI)
  fix h n
  have "source_charge h n (settled v t actual i l) \<le> source_charge h n l"
    using settled_charge(1) [OF assms(1), of h n t actual] assms(2)
    by (simp add: word_le_nat_alt split: if_splits)
  then show "source_charge h n (settled v t actual i l) \<le> unat HARD_LIMIT_BYTES"
    using assms(3) by (meson below_hard_def order_trans)
qed

lemma merge_compacts:
  assumes "list_all valid_bytes (ld_entries l)" "merge_committed_minute_buckets l = Inr l'"
  shows "compacts (ld_entries l) (ld_entries l')"
proof -
  have m: "mset (sort_entries (ld_entries l)) = mset (ld_entries l)" by (simp add: sort_entries_def)
  then have "list_all valid_bytes (sort_entries (ld_entries l))"
    using assms(1) by (simp add: list_all_iff mset_eq_setD [OF m])
  then obtain c g where "fold_ok merge_step (sort_entries (ld_entries l)) ([], []) = Inr (c, g)"
      and c: "compacts (sort_entries (ld_entries l)) c"
    using merge_fold_ok by blast
  then have "mset c = mset (ld_entries l')"
    using assms(2) by (auto simp: merge_committed_minute_buckets_def sort_entries_def)
  from compacts_mset [OF m this c] show ?thesis .
qed

lemma valid_settled_bytes:
  assumes "ledger_validate rng l = Inr ()" "find_reservation v (ld_entries l) = Inr i"
    and "actual \<le> MAX_BYTES_PER_ENTRY"
  shows "list_all valid_bytes (ld_entries (settled v t actual i l))"
proof -
  have bytes: "valid_bytes e" if "e \<in> set (ld_entries l)" for e
    using that assms(1)
    by (auto simp: ledger_validate_iff valid_entries_def valid_entry_def valid_bytes_def list_all_iff)
  moreover have "set (remove_at i (ld_entries l)) \<subseteq> set (ld_entries l)"
    by (auto simp: remove_at_def dest: in_set_takeD in_set_dropD)
  ultimately show ?thesis
    using assms(3) by (auto simp: settled_def settled_entry_def valid_bytes_def list_all_iff)
qed

lemma reserved_bytes_bound:
  assumes "ledger_validate rng l = Inr ()" "find_reservation v (ld_entries l) = Inr i"
  shows "rv_reserved_bytes v \<le> MAX_BYTES_PER_ENTRY"
proof -
  have "reservation_entry v \<in> set (ld_entries l)"
    using find_reservation_Inr [OF assms(2)] by (metis nth_mem)
  then show ?thesis
    using assms(1) by (auto simp: ledger_validate_iff valid_entries_def valid_entry_def list_all_iff reservation_entry_def)
qed

lemma complete_below_hard:
  assumes "ledger_validate (be_chrono env) l = Inr ()" "below_hard l" "actual \<le> rv_reserved_bytes v"
    and "complete_operation env v t actual l = Inr (u, l')"
  shows "below_hard l'"
proof -
  obtain i where i: "find_reservation v (ld_entries l) = Inr i"
      "merge_committed_minute_buckets (settled v t actual i l) = Inr l'"
    using assms(4) by (auto simp: complete_operation_eq result_simps)
  have "actual \<le> MAX_BYTES_PER_ENTRY"
    using assms(3) reserved_bytes_bound [OF assms(1) i(1)] by (rule order_trans)
  then have "compacts (ld_entries (settled v t actual i l)) (ld_entries l')"
    using merge_compacts [OF valid_settled_bytes [OF assms(1) i(1)] i(2)] by blast
  from compacts_source_charge [OF this] show ?thesis
    using settled_below_hard [OF i(1) assms(3,2)] by (simp add: below_hard_def source_charge_def)
qed

lemma cancel_operation_eq:
  "cancel_operation env v t l = and_then (ensure (rv_started_at v \<le> t) CompletionClockBackwards) (\<lambda>_.
    and_then (find_reservation v (ld_entries l)) (\<lambda>i.
      Inr (ledger_usage (be_chrono env) (settled v t 0 i l) (rv_host_id v) (rv_node_id v), settled v t 0 i l)))"
  by (simp add: cancel_operation_def ensure_completion_clock_def settled_def Let_def)

lemma cancel_below_hard:
  "below_hard l \<Longrightarrow> cancel_operation env v t l = Inr (u, l') \<Longrightarrow> below_hard l'"
  by (auto simp: cancel_operation_eq result_simps settled_below_hard)

lemma observed_below_hard:
  assumes "ledger_validate (be_chrono env) l = Inr ()" "below_hard l"
    and "observed_policy env host node now policy l = Inr (r, l')"
  shows "below_hard l'"
proof (cases "clock_anomaly_at l now")
  case None
  then have "advance_clock_and_prune (be_chrono env) now l = Inr l'"
    using assms(3) by (auto simp: observed_policy_def result_simps)
  with pruned_charge [OF _ assms(1)] live_charge_le show ?thesis
    using assms(2) unfolding below_hard_def by (metis order_trans)
qed (use assms in \<open>simp add: observed_policy_def\<close>)

lemmas below_hard_ops = begin_below_hard complete_below_hard cancel_below_hard observed_below_hard

lemma call_invariant:
  assumes "s' = s \<or> s' = snd (mutate env operation s)"
    and "\<And>l. read_optional_ledger env s = Inr l \<Longrightarrow> I l"
    and "\<And>l r l'. ledger_validate (be_chrono env) l = Inr () \<Longrightarrow> I l \<Longrightarrow> operation l = Inr (r, l') \<Longrightarrow> I l'"
    and "read_optional_ledger env s' = Inr l'"
  shows "I l'"
  using assms(1)
proof
  assume "s' = snd (mutate env operation s)"
  with assms(4) have "read_optional_ledger env (snd (mutate env operation s)) = Inr l'" by simp
  from ledger_file.run_invariant [OF assms(2,3) this] show ?thesis .
qed (use assms(2,4) in simp)

text \<open>Every public operation leaves the file alone or is one transaction on it.\<close>

lemma store_calls:
  "snd (begin_attempt_inner env host node now kind b s) = s
    \<or> validate_request host kind b = Inr ()
      \<and> snd (begin_attempt_inner env host node now kind b s) = snd (mutate env (begin_operation env host node now kind b) s)"
  "snd (complete_attempt env v t actual s) = s
    \<or> snd (complete_attempt env v t actual s) = snd (mutate env (complete_operation env v t actual) s)"
  "snd (cancel_attempt env v t s) = snd (mutate env (cancel_operation env v t) s)"
  "snd (store_usage env host node now s) = s \<or> snd (store_usage env host node now s)
    = snd (mutate env (observed_policy env host node now (\<lambda>l. Inr (ledger_usage (be_chrono env) l host node))) s)"
  "snd (check env host node now kind s) = s \<or> snd (check env host node now kind s)
    = snd (mutate env (observed_policy env host node now (\<lambda>l. check_loaded_policy (be_chrono env) l host node kind)) s)"
  by (auto simp: begin_attempt_inner_def complete_attempt_def cancel_attempt_def store_usage_def check_def
      split: sum.splits)

lemma perform_below_hard:
  assumes budget: "within_budget c" and below: "\<And>l. read_optional_ledger env s = Inr l \<Longrightarrow> below_hard l"
    and load: "read_optional_ledger env (perform env c s) = Inr l'"
  shows "below_hard l'"
proof (cases c)
  case (CallBegin host node now kind b)
  then have kind: "\<not> override_hard kind" using budget by simp
  show ?thesis
  proof (cases "validate_request host kind b = Inr ()")
    case True
    have calls: "perform env c s = s \<or> perform env c s = snd (mutate env (begin_operation env host node now kind b) s)"
      using store_calls(1) [of env host node now kind b s] CallBegin by auto
    show ?thesis
      by (rule call_invariant [OF calls below _ load])
        (use kind validate_request_minimum [OF True] in \<open>blast intro: begin_below_hard\<close>)+
  qed (use store_calls(1) [of env host node now kind b s] CallBegin load below in simp)
next
  case (CallComplete v t actual)
  then have actual: "actual \<le> rv_reserved_bytes v" using budget by simp
  have calls: "perform env c s = s \<or> perform env c s = snd (mutate env (complete_operation env v t actual) s)"
    using store_calls(2) [of env v t actual s] CallComplete by simp
  show ?thesis
    by (rule call_invariant [OF calls below _ load]) (use actual in \<open>blast intro: complete_below_hard\<close>)+
next
  case (CallCancel v t)
  then have calls: "perform env c s = s \<or> perform env c s = snd (mutate env (cancel_operation env v t) s)"
    using store_calls(3) [of env v t s] by simp
  show ?thesis by (rule call_invariant [OF calls below _ load]) (blast intro: cancel_below_hard)+
next
  case (CallUsage host node now)
  then have calls: "perform env c s = s \<or> perform env c s = snd (mutate env (observed_policy env host node now
      (\<lambda>l. Inr (ledger_usage (be_chrono env) l host node))) s)"
    using store_calls(4) [of env host node now s] by simp
  show ?thesis by (rule call_invariant [OF calls below _ load]) (blast intro: observed_below_hard)+
next
  case (CallCheck host node now kind)
  then have calls: "perform env c s = s \<or> perform env c s = snd (mutate env (observed_policy env host node now
      (\<lambda>l. check_loaded_policy (be_chrono env) l host node kind)) s)"
    using store_calls(5) [of env host node now kind s] by simp
  show ?thesis by (rule call_invariant [OF calls below _ load]) (blast intro: observed_below_hard)+
qed

lemma perform_loadable:
  assumes "read_optional_ledger env s = Inr l"
  shows "\<exists>l'. read_optional_ledger env (perform env c s) = Inr l'"
proof (cases c)
  case (CallBegin host node now kind b)
  then show ?thesis
    using assms store_calls(1) [of env host node now kind b s] ledger_file.run_loadable [OF assms] by auto
next
  case (CallComplete v t actual)
  then show ?thesis
    using assms store_calls(2) [of env v t actual s] ledger_file.run_loadable [OF assms] by auto
next
  case (CallCancel v t)
  then show ?thesis using store_calls(3) [of env v t s] ledger_file.run_loadable [OF assms] by auto
next
  case (CallUsage host node now)
  then show ?thesis
    using assms store_calls(4) [of env host node now s] ledger_file.run_loadable [OF assms] by auto
next
  case (CallCheck host node now kind)
  then show ?thesis
    using assms store_calls(5) [of env host node now kind s] ledger_file.run_loadable [OF assms] by auto
qed

lemma read_with_draws [simp]:
  "read_optional_ledger (env\<lparr>be_random := draws\<rparr>) = read_optional_ledger env"
  by (simp add: read_optional_ledger_def fun_eq_iff split: option.split)

lemma run_calls_snoc:
  "run_calls env (calls @ [(draws, c)]) = perform (env\<lparr>be_random := draws\<rparr>) c (run_calls env calls)"
  by (simp add: run_calls_def)

text \<open>
  C36. The hard limit is an invariant: starting from no ledger file, after every sequence of
  calls of the store in which no call overrides the limit and every settlement is within
  its reservation, whatever the clock readings, the failures and the random bytes each
  call draws, the ledger is readable and no source is charged more than 250 MiB.
\<close>

theorem hard_limit_invariant:
  assumes "list_all (\<lambda>(draws, c). within_budget c) calls"
  shows "\<exists>l. read_optional_ledger env (run_calls env calls) = Inr l \<and> below_hard l"
  using assms
proof (induction calls rule: rev_induct)
  case Nil
  show ?case by (simp add: run_calls_def read_optional_ledger_def ledger_default_def below_hard_def source_charge_def)
next
  case (snoc x calls)
  obtain draws c where x: "x = (draws, c)" by force
  let ?env = "env\<lparr>be_random := draws\<rparr>" and ?s = "run_calls env calls"
  from snoc obtain l where l: "read_optional_ledger ?env ?s = Inr l" "below_hard l" by auto
  obtain l' where l': "read_optional_ledger ?env (perform ?env c ?s) = Inr l'"
    using perform_loadable [OF l(1)] by blast
  moreover have "below_hard l'"
    by (rule perform_below_hard [OF _ _ l']) (use snoc.prems x l in auto)
  ultimately show ?case by (simp add: x run_calls_snoc)
qed

lemma minute_later: "t < s \<Longrightarrow> utc_minute_key t \<le> utc_minute_key s"
  by (simp add: utc_minute_key_def timestamp_secs_def zdiv_mono1)

lemma minute_recent: "utc_minute_key t \<le> utc_minute_key s \<Longrightarrow> t - seconds 60 < s"
  unfolding utc_minute_key_def timestamp_secs_def seconds_def by (simp add: zdiv_zmult2_eq [symmetric])

lemma compacts_live:
  assumes "compacts es c"
  shows "charge_of (\<lambda>e. matches_source h n e \<and> t < le_recorded_at e) es
      \<le> charge_of (\<lambda>e. matches_source h n e \<and> t < le_recorded_at e) c"
    and "charge_of (\<lambda>e. matches_source h n e \<and> t < le_recorded_at e) c
      \<le> charge_of (\<lambda>e. matches_source h n e \<and> t - seconds 60 < le_recorded_at e) es"
proof -
  have src: "matches_source h n e = (fst (bucket e) = source_storage_key h n)" for e
    by (simp add: matches_source_iff bucket_def source_key_def)
  have min: "utc_minute_key (le_recorded_at e) = snd (snd (bucket e))" for e by (simp add: bucket_def)
  have lower: "\<And>P t. charge_of (\<lambda>e. P (bucket e) \<and> t < le_recorded_at e) es
      \<le> charge_of (\<lambda>e. P (bucket e) \<and> t < le_recorded_at e) c"
    using assms by (simp add: compacts_def)
  show "charge_of (\<lambda>e. matches_source h n e \<and> t < le_recorded_at e) es
      \<le> charge_of (\<lambda>e. matches_source h n e \<and> t < le_recorded_at e) c"
    unfolding src by (rule lower)
  have "charge_of (\<lambda>e. matches_source h n e \<and> t < le_recorded_at e) c
      \<le> charge_of (\<lambda>e. fst (bucket e) = source_storage_key h n \<and> utc_minute_key t \<le> snd (snd (bucket e))) c"
    unfolding src min [symmetric] by (rule charge_of_le) (simp add: minute_later)
  also have "\<dots> = charge_of (\<lambda>e. fst (bucket e) = source_storage_key h n \<and> utc_minute_key t \<le> snd (snd (bucket e))) es"
    using compacts_charge [OF assms, where P = "\<lambda>b. fst b = source_storage_key h n \<and> utc_minute_key t \<le> snd (snd b)"] .
  also have "\<dots> \<le> charge_of (\<lambda>e. matches_source h n e \<and> t - seconds 60 < le_recorded_at e) es"
    unfolding src min [symmetric] by (rule charge_of_le) (simp add: minute_recent)
  finally show "charge_of (\<lambda>e. matches_source h n e \<and> t < le_recorded_at e) c
      \<le> charge_of (\<lambda>e. matches_source h n e \<and> t - seconds 60 < le_recorded_at e) es" .
qed

text \<open>
  C38. Minute compaction never fails on a valid ledger and is conservative: it keeps the
  ledger valid, keeps every reservation and the exact charge of every source, and at every
  instant the charge of the preceding 24 hours does not drop and is at most the charge of
  the original ledger 60 seconds earlier.
\<close>

theorem compaction_conservative:
  assumes "ledger_validate rng l = Inr ()"
  shows "\<exists>l'. merge_committed_minute_buckets l = Inr l' \<and> ledger_validate rng l' = Inr ()
    \<and> length (ld_entries l') \<le> length (ld_entries l)
    \<and> ld_last_observed_at l' = ld_last_observed_at l
    \<and> mset (filter (\<lambda>e. le_kind e = Reserved) (ld_entries l')) = mset (filter (\<lambda>e. le_kind e = Reserved) (ld_entries l))
    \<and> (\<forall>h n. source_charge h n l' = source_charge h n l)
    \<and> (\<forall>h n t. live_charge t h n l \<le> live_charge t h n l'
        \<and> live_charge t h n l' \<le> live_charge (t - seconds 60) h n l)"
proof -
  obtain c where c: "merge_committed_minute_buckets l = Inr (l\<lparr>ld_entries := c\<rparr>)"
    "compacts (ld_entries l) c" "ledger_validate rng (l\<lparr>ld_entries := c\<rparr>) = Inr ()"
    using valid_mergeD [OF assms] .
  have "live_charge t h n l \<le> live_charge t h n (l\<lparr>ld_entries := c\<rparr>)
      \<and> live_charge t h n (l\<lparr>ld_entries := c\<rparr>) \<le> live_charge (t - seconds 60) h n l" for t h n
    using compacts_live [OF c(2), of h n "t - window_duration_24h"]
    by (simp add: live_charge_def algebra_simps)
  moreover have "length c \<le> length (ld_entries l)"
    using c(2) by (metis compacts_def length_map size_mset size_mset_mono)
  ultimately show ?thesis
    using c compacts_reserved [OF c(2)] compacts_source_charge [OF c(2)] by (simp add: source_charge_def)
qed

section \<open>Identifiers\<close>

lemma is_hex_hex_digit:
  assumes "n < 16"
  shows "is_ascii_digit (hex_digit n) \<or> 97 \<le> byte (hex_digit n) \<and> byte (hex_digit n) \<le> 102"
    and "hex_digit n = CHR ''0'' \<longleftrightarrow> n = 0"
proof -
  have "list_all (\<lambda>n. (is_ascii_digit (hex_digit n) \<or> 97 \<le> byte (hex_digit n) \<and> byte (hex_digit n) \<le> 102)
      \<and> (hex_digit n = CHR ''0'' \<longleftrightarrow> n = 0)) [0..<16]"
    by code_simp
  then show "is_ascii_digit (hex_digit n) \<or> 97 \<le> byte (hex_digit n) \<and> byte (hex_digit n) \<le> 102"
    "hex_digit n = CHR ''0'' \<longleftrightarrow> n = 0"
    using assms by (simp_all add: list_all_iff)
qed

lemma byte_less: "byte c < 256"
  by (simp add: byte_def of_char_def)

lemma hex_of_bytes_shape:
  assumes "length bs = 16" "\<not> list_all (\<lambda>b. byte b = 0) bs"
  shows "entry_id_has_valid_shape (hex_of_bytes bs)"
proof -
  have nibbles: "byte b div 16 < 16" "byte b mod 16 < 16" for b using byte_less [of b] by auto
  have "length (hex_of_bytes bs) = 2 * length bs"
    unfolding hex_of_bytes_def by (induction bs) auto
  moreover have "list_all (\<lambda>c. is_ascii_digit c \<or> (97 \<le> byte c \<and> byte c \<le> 102)) (hex_of_bytes bs)"
    unfolding hex_of_bytes_def using is_hex_hex_digit(1) nibbles by (induction bs) auto
  moreover have "list_all (\<lambda>c. c = CHR ''0'') (hex_of_bytes bs) \<longleftrightarrow> list_all (\<lambda>b. byte b = 0) bs"
    unfolding hex_of_bytes_def using is_hex_hex_digit(2) nibbles by (induction bs) auto
  ultimately show ?thesis using assms by (simp add: entry_id_has_valid_shape_def)
qed

lemma allocate_entry_id_fresh:
  "allocate_entry_id draws es i k = Inr s \<Longrightarrow> s \<notin> le_id ` set es"
  by (induction draws es i k rule: allocate_entry_id.induct)
    (auto simp: list_ex_iff split: option.splits if_splits)

lemma allocate_entry_id_shape:
  "allocate_entry_id draws es i k = Inr s \<Longrightarrow> (\<And>j bs. draws j = Some bs \<Longrightarrow> length bs = 16)
    \<Longrightarrow> entry_id_has_valid_shape s"
  by (induction draws es i k rule: allocate_entry_id.induct)
    (auto simp: hex_of_bytes_shape split: option.splits if_splits)

section \<open>Progress\<close>

lemma source_entry_count_key:
  "source_entry_count l host node = key_count (source_storage_key host node) (ld_entries l)"
  by (simp add: source_entry_count_def source_entries_def key_count_def matches_source_iff [abs_def] source_key_def)

lemma granted_valid:
  assumes valid: "ledger_validate (be_chrono env) l = Inr ()" and last: "ld_last_observed_at l = Some now"
    and admit: "admit env host node now kind b l = Inr (Granted v, l')"
    and shape: "host_id_has_valid_shape host" "entry_id_has_valid_shape (rv_id v)"
    and bytes: "rv_reserved_bytes v \<noteq> 0" "rv_reserved_bytes v \<le> MAX_BYTES_PER_ENTRY"
    and now: "min_utc (be_chrono env) \<le> now + window_duration_24h" "now + window_duration_24h \<le> max_utc (be_chrono env)"
  shows "ledger_validate (be_chrono env) l' = Inr ()"
proof -
  note g = admit_Granted [OF admit]
  let ?es = "ld_entries l @ [reservation_entry v]"
  have v: "valid_entries (be_chrono env) (ld_entries l)" using valid by (simp add: ledger_validate_iff)
  have "valid_entry (be_chrono env) (reservation_entry v)"
    using g(1-3) shape bytes now by (simp add: valid_entry_def reservation_entry_def)
  moreover have "rv_id v \<notin> le_id ` set (ld_entries l)" using g(12) by (rule allocate_entry_id_fresh)
  moreover have "key_count k ?es \<le> MAX_ENTRIES_PER_SOURCE" for k
    using g(1,2,11) valid_entries_count [OF v, of k]
    by (auto simp: source_entry_count_key)
  ultimately have "valid_entries (be_chrono env) (sort_entries ?es)"
    using v by (intro valid_entries_sort) (auto simp: valid_entries_def reservation_entry_def)
  moreover have "observed_ok l'"
    using valid last g(3,7)
    by (auto simp: ledger_validate_iff observed_ok_def list_all_iff sort_entries_def reservation_entry_def)
  ultimately show ?thesis
    using g(7,10) valid by (simp add: ledger_validate_iff sort_entries_def)
qed

lemma allocate_entry_id_fails:
  "allocate_entry_id draws es i k = Inl e \<Longrightarrow>
    e = RandomUnavailable \<and> (\<exists>j. i \<le> j \<and> j < i + k \<and> draws j = None)
    \<or> e = NoUniqueId \<and> (\<forall>j. i \<le> j \<and> j < i + k \<longrightarrow> (\<exists>bytes. draws j = Some bytes
        \<and> (list_all (\<lambda>c. byte c = 0) bytes \<or> hex_of_bytes bytes \<in> le_id ` set es)))"
proof (induction draws es i k rule: allocate_entry_id.induct)
  case (2 draws es i k)
  show ?case
  proof (cases "draws i")
    case None
    with 2(3) show ?thesis by force
  next
    case (Some bytes)
    let ?used = "list_all (\<lambda>c. byte c = 0) bytes \<or> hex_of_bytes bytes \<in> le_id ` set es"
    have ids: "list_ex (\<lambda>e. le_id e = s) es \<longleftrightarrow> s \<in> le_id ` set es" for s
      by (auto simp: list_ex_iff)
    then have used: ?used and rest: "allocate_entry_id draws es (Suc i) k = Inl e"
      using 2(3) Some by (auto split: if_splits)
    have IH: "e = RandomUnavailable \<and> (\<exists>j. Suc i \<le> j \<and> j < Suc i + k \<and> draws j = None)
      \<or> e = NoUniqueId \<and> (\<forall>j. Suc i \<le> j \<and> j < Suc i + k \<longrightarrow> (\<exists>bytes. draws j = Some bytes
        \<and> (list_all (\<lambda>c. byte c = 0) bytes \<or> hex_of_bytes bytes \<in> le_id ` set es)))"
    proof (cases "list_all (\<lambda>c. byte c = 0) bytes")
      case True
      from 2(1) [OF Some True rest] show ?thesis .
    next
      case False
      with used ids have "list_ex (\<lambda>e. le_id e = hex_of_bytes bytes) es" by simp
      from 2(2) [OF Some False this rest] show ?thesis .
    qed
    then show ?thesis
    proof (elim disjE conjE exE)
      fix j
      assume "e = RandomUnavailable" "Suc i \<le> j" "j < Suc i + k" "draws j = None"
      then show ?thesis by (intro disjI1) (auto intro!: exI [of _ j])
    next
      assume all: "e = NoUniqueId" "\<forall>j. Suc i \<le> j \<and> j < Suc i + k \<longrightarrow> (\<exists>bytes. draws j = Some bytes
        \<and> (list_all (\<lambda>c. byte c = 0) bytes \<or> hex_of_bytes bytes \<in> le_id ` set es))"
      have "\<exists>bytes. draws j = Some bytes \<and> (list_all (\<lambda>c. byte c = 0) bytes \<or> hex_of_bytes bytes \<in> le_id ` set es)"
        if "i \<le> j" "j < i + Suc k" for j
        using that all(2) Some used by (cases "j = i") auto
      with all(1) show ?thesis by blast
    qed
  qed
qed auto

lemma admit_fails:
  "admit env host node now kind b l = Inl e
    \<Longrightarrow> allocate_entry_id (be_random env) (ld_entries l) 0 ENTRY_ID_ATTEMPTS = Inl e"
  by (auto simp: admit_def Let_def result_simps split: if_splits)

lemma compacts_ids: "compacts es c \<Longrightarrow> le_id ` set c \<subseteq> le_id ` set es"
proof -
  assume "compacts es c"
  then have "mset (List.map le_id c) \<subseteq># mset (List.map le_id es)" by (simp add: compacts_def)
  from set_mset_mono [OF this] show ?thesis by simp
qed

text \<open>
  Once the clock is a day inside chrono's range, pruning and compaction cannot fail: an
  admission fails only when it finds no identifier, and otherwise its ledger is valid.
\<close>

lemma begin_operation_outcomes:
  assumes valid: "ledger_validate (be_chrono env) l = Inr ()" and req: "validate_request host kind b = Inr ()"
    and now: "min_utc (be_chrono env) \<le> now - window_duration_24h" "now + window_duration_24h \<le> max_utc (be_chrono env)"
    and draws: "\<forall>i bytes. be_random env i = Some bytes \<longrightarrow> length bytes = 16"
    and clock: "clock_anomaly_at l now = None"
  obtains (ok) a l' where "begin_operation env host node now kind b l = Inr (a, l')" "ledger_validate (be_chrono env) l' = Inr ()"
  | (no_id) e es where "begin_operation env host node now kind b l = Inl e" "le_id ` set es \<subseteq> le_id ` set (ld_entries l)"
      "allocate_entry_id (be_random env) es 0 ENTRY_ID_ATTEMPTS = Inl e"
proof -
  have w: "0 < window_duration_24h" by (simp add: window_duration_24h_def hours_def minutes_def seconds_def)
  obtain l1 where l1: "advance_clock_and_prune (be_chrono env) now l = Inr l1"
    using clock now w by (auto simp: advance_clock_and_prune_def checked_sub_signed_def)
  note pruned = prune_ok [OF l1 valid]
  obtain c where c: "merge_committed_minute_buckets l1 = Inr (l1\<lparr>ld_entries := c\<rparr>)" "compacts (ld_entries l1) c"
    "ledger_validate (be_chrono env) (l1\<lparr>ld_entries := c\<rparr>) = Inr ()"
    using valid_mergeD [OF pruned(1)] .
  let ?l = "l1\<lparr>ld_entries := c\<rparr>"
  have ids: "le_id ` set (ld_entries ?l) \<subseteq> le_id ` set (ld_entries l)"
    using compacts_ids [OF c(2)] pruned(3) by auto
  have begin_eq: "begin_operation env host node now kind b l = admit env host node now kind b ?l"
    using clock l1 c(1) by (simp add: begin_operation_def)
  show thesis
  proof (cases "admit env host node now kind b ?l")
    case (Inl e)
    with ids begin_eq show thesis by (intro no_id [of e "ld_entries ?l"]) (simp_all only: admit_fails)
  next
    case (Inr r)
    obtain a l' where r: "r = (a, l')" by force
    have "ledger_validate (be_chrono env) l' = Inr ()"
    proof (cases a)
      case (Granted v)
      note a = Inr [unfolded r Granted] and g = admit_Granted(5,8,12) [OF Inr [unfolded r Granted]]
      have "rv_reserved_bytes v \<le> br_requested_total_bytes b"
        unfolding g(1) by (auto simp: grant_bytes_def Let_def min_le_iff_disj)
      then have "rv_reserved_bytes v \<le> MAX_BYTES_PER_ENTRY" "rv_reserved_bytes v \<noteq> 0"
        using validate_request_minimum [OF req] g(2) by auto
      then show ?thesis
        using granted_valid [OF c(3) _ a] req now w pruned(2) allocate_entry_id_shape [OF g(3)] draws
        by (simp add: validate_request_def Let_def result_simps validate_host_id_def)
    next
      case (Paused p)
      with Inr r have "l' = ?l" by (auto simp: admit_def Let_def result_simps split: if_splits)
      with c(3) show ?thesis by simp
    qed
    with Inr r begin_eq show thesis by (intro ok [of a l']) simp_all
  qed
qed

lemma begin_attempt_computed:
  assumes "read_optional_ledger env store = Inr l" "validate_request host kind b = Inr ()"
  shows "begin_operation env host node now kind b l = Inl e
      \<Longrightarrow> begin_attempt_inner env host node now kind b store = (Inl e, store)"
    and "begin_operation env host node now kind b l = Inr (a, l') \<Longrightarrow> ledger_validate (be_chrono env) l' = Inr ()
      \<Longrightarrow> begin_attempt_inner env host node now kind b store
        = (if be_json_len env l' < MAX_BUDGET_FILE_BYTES then (Inr a, Some l') else (Inl LedgerFileTooLarge, store))"
  using assms by (simp_all add: begin_attempt_inner_def mutate_def serialize_ledger_def ensure_def)

text \<open>
  C39. The outcomes of an admission on a readable ledger, for a well-formed request, a clock
  a day inside chrono's range and draws of sixteen bytes.  Either the call returns an
  admission and stores a ledger that reads back, or it leaves the file as it was and
  reports one of three errors, each for its own reason: one of the first 128 draws failed;
  all 128 draws were zero or an identifier of the ledger; or the valid ledger to be
  written does not fit the 32 MiB file.  No other error is possible: in particular, what
  the call computes never fails the validation of the ledger.
\<close>

theorem admission_outcomes:
  assumes load: "read_optional_ledger env store = Inr l"
    and req: "validate_request host kind b = Inr ()"
    and now: "min_utc (be_chrono env) \<le> now - window_duration_24h" "now + window_duration_24h \<le> max_utc (be_chrono env)"
    and draws: "\<forall>i bytes. be_random env i = Some bytes \<longrightarrow> length bytes = 16"
  shows "(\<exists>a l'. begin_attempt_inner env host node now kind b store = (Inr a, Some l')
        \<and> read_optional_ledger env (Some l') = Inr l')
    \<or> (\<exists>e. begin_attempt_inner env host node now kind b store = (Inl e, store)
        \<and> (e = RandomUnavailable \<and> (\<exists>i<ENTRY_ID_ATTEMPTS. be_random env i = None)
         \<or> e = NoUniqueId \<and> (\<forall>i<ENTRY_ID_ATTEMPTS. \<exists>bytes. be_random env i = Some bytes
             \<and> (list_all (\<lambda>c. byte c = 0) bytes \<or> hex_of_bytes bytes \<in> le_id ` set (ld_entries l)))
         \<or> e = LedgerFileTooLarge \<and> (\<exists>a l'. begin_operation env host node now kind b l = Inr (a, l')
             \<and> ledger_validate (be_chrono env) l' = Inr () \<and> MAX_BUDGET_FILE_BYTES \<le> be_json_len env l')))"
proof -
  note valid = read_optional_valid [OF load]
  consider (ok) a l' where "begin_operation env host node now kind b l = Inr (a, l')" "ledger_validate (be_chrono env) l' = Inr ()"
    | (no_id) e es where "begin_operation env host node now kind b l = Inl e" "le_id ` set es \<subseteq> le_id ` set (ld_entries l)"
      "allocate_entry_id (be_random env) es 0 ENTRY_ID_ATTEMPTS = Inl e"
  proof (cases "clock_anomaly_at l now")
    case None
    from begin_operation_outcomes [OF valid req now draws None] that show thesis by blast
  qed (use that(1) valid in \<open>simp add: begin_operation_def\<close>)
  then show ?thesis
  proof cases
    case ok
    note run = begin_attempt_computed(2) [OF load req ok]
    show ?thesis
    proof (cases "be_json_len env l' < MAX_BUDGET_FILE_BYTES")
      case True
      then show ?thesis
        using run ok(2) by (intro disjI1 exI [of _ a] exI [of _ l']) (simp add: read_optional_ledger_def)
    next
      case False
      then show ?thesis
        using run ok by (intro disjI2 exI [of _ LedgerFileTooLarge]) (simp add: not_less)
    qed
  next
    case no_id
    note run = begin_attempt_computed(1) [OF load req no_id(1)]
    from allocate_entry_id_fails [OF no_id(3)] consider (unavailable) "e = RandomUnavailable" "\<exists>i<ENTRY_ID_ATTEMPTS. be_random env i = None"
      | (taken) "e = NoUniqueId" "\<forall>i<ENTRY_ID_ATTEMPTS. \<exists>bytes. be_random env i = Some bytes
          \<and> (list_all (\<lambda>c. byte c = 0) bytes \<or> hex_of_bytes bytes \<in> le_id ` set es)"
      by auto
    then show ?thesis
    proof cases
      case unavailable
      with run show ?thesis by blast
    next
      case taken
      have "\<exists>bytes. be_random env i = Some bytes
          \<and> (list_all (\<lambda>c. byte c = 0) bytes \<or> hex_of_bytes bytes \<in> le_id ` set (ld_entries l))"
        if i: "i < ENTRY_ID_ATTEMPTS" for i
        using taken(2) [rule_format, OF i] subsetD [OF no_id(2)] by (elim exE conjE disjE) simp_all
      with run taken(1) show ?thesis by (intro disjI2 exI [of _ e]) simp
    qed
  qed
qed

section \<open>Settled reservations\<close>

lemma settle_again_fails:
  assumes load: "read_optional_ledger env (Some l) = Inr l" and gone: "\<not> list_ex (is_reservation_entry v) (ld_entries l)"
  shows "\<exists>e. complete_attempt env v t actual (Some l) = (Inl e, Some l)"
    and "\<exists>e. cancel_attempt env v t (Some l) = (Inl e, Some l)"
proof -
  obtain e where "find_reservation v (ld_entries l) = Inl e"
    using gone find_reservation_ok [of v "ld_entries l"] by (cases "find_reservation v (ld_entries l)") auto
  then show "\<exists>e. complete_attempt env v t actual (Some l) = (Inl e, Some l)"
    "\<exists>e. cancel_attempt env v t (Some l) = (Inl e, Some l)"
    using load
    by (cases "rv_started_at v \<le> t"; simp add: complete_attempt_def cancel_attempt_def mutate_def
        complete_operation_eq cancel_operation_eq)+
qed

lemma settled_gone:
  assumes "ledger_validate rng l = Inr ()" "find_reservation v (ld_entries l) = Inr i"
    and "mset (filter (\<lambda>e. le_kind e = Reserved) es)
      = mset (filter (\<lambda>e. le_kind e = Reserved) (ld_entries (settled v t actual i l)))"
  shows "\<not> list_ex (is_reservation_entry v) es"
proof (rule reservation_gone)
  show "distinct (List.map le_id (ld_entries l))"
    using assms(1) by (simp add: ledger_validate_iff valid_entries_def)
  show "add_mset (reservation_entry v) (mset (filter (\<lambda>e. le_kind e = Reserved) es))
      = mset (filter (\<lambda>e. le_kind e = Reserved) (ld_entries l))"
    unfolding assms(3) by (rule settled_charge(2) [OF assms(2)])
qed

text \<open>
  A reservation is settled at most once: after a successful completion or cancellation,
  every further completion or cancellation of it fails and leaves the store as it is.
\<close>

theorem reservation_settles_once:
  assumes "(\<exists>actual. complete_attempt env v t actual store = (Inr u, store')) \<or> cancel_attempt env v t store = (Inr u, store')"
  shows "(\<exists>e. complete_attempt env v t' actual' store' = (Inl e, store'))
    \<and> (\<exists>e. cancel_attempt env v t' store' = (Inl e, store'))"
proof -
  obtain l where l: "read_optional_ledger env (Some l) = Inr l" "store' = Some l"
    "\<not> list_ex (is_reservation_entry v) (ld_entries l)"
    using assms
  proof (elim disjE exE)
    fix actual
    assume "complete_attempt env v t actual store = (Inr u, store')"
    then obtain l i l' where l: "read_optional_ledger env store = Inr l" "find_reservation v (ld_entries l) = Inr i"
      "merge_committed_minute_buckets (settled v t actual i l) = Inr l'" "actual \<le> MAX_BYTES_PER_ENTRY"
      "ledger_validate (be_chrono env) l' = Inr ()" "store' = Some l'"
      by (auto simp: complete_attempt_def mutate_Inr complete_operation_eq result_simps not_less split: if_splits)
    note valid = read_optional_valid [OF l(1)]
    have "compacts (ld_entries (settled v t actual i l)) (ld_entries l')"
      using merge_compacts [OF valid_settled_bytes [OF valid l(2,4)] l(3)] .
    from settled_gone [OF valid l(2) compacts_reserved [OF this]] l show ?thesis
      by (intro that [of l']) (simp_all add: read_optional_ledger_def)
  next
    assume "cancel_attempt env v t store = (Inr u, store')"
    then obtain l i where l: "read_optional_ledger env store = Inr l" "find_reservation v (ld_entries l) = Inr i"
      "ledger_validate (be_chrono env) (settled v t 0 i l) = Inr ()" "store' = Some (settled v t 0 i l)"
      by (auto simp: cancel_attempt_def mutate_Inr cancel_operation_eq result_simps)
    from settled_gone [OF read_optional_valid [OF l(1)] l(2) refl] l show ?thesis
      by (intro that [of "settled v t 0 i l"]) (simp_all add: read_optional_ledger_def)
  qed
  then show ?thesis using settle_again_fails by simp
qed

section \<open>Read-only checks\<close>

lemma check_Inr:
  assumes "fst (check env host node now kind store) = Inr r" "read_optional_ledger env store = Inr l"
  shows "validate_host_id host = Inr ()"
    "clock_anomaly_at l now = Some t \<Longrightarrow> r
      = Inl (pause (ledger_usage (be_chrono env) l host node) HardLevel ClockAnomaly HARD_LIMIT_BYTES (Some t))"
    "clock_anomaly_at l now = None \<Longrightarrow> advance_clock_and_prune (be_chrono env) now l = Inr l'
      \<Longrightarrow> r = check_loaded_policy (be_chrono env) l' host node kind"
    "clock_anomaly_at l now = None \<Longrightarrow> \<exists>l'. advance_clock_and_prune (be_chrono env) now l = Inr l'"
  using assms
  by (cases "check env host node now kind store",
      auto simp: check_def mutate_Inr observed_policy_def result_simps split: sum.splits option.splits)+

text \<open>
  The read-only check of many sources returns what the store's own check returns for
  each of them, in order, whenever those checks succeed.
\<close>

theorem read_only_check_agrees:
  assumes "read_optional_ledger env store = Inr l" "sources \<noteq> []"
    and "map_ok (\<lambda>(host, node). fst (check env host node now kind store)) sources = Inr rs"
  shows "check_many_read_only env sources now kind store = Inr rs"
proof -
  have each: "list_all2 (\<lambda>(host, node) r. fst (check env host node now kind store) = Inr r) sources rs"
    using assms(3) by (simp add: map_ok_Inr case_prod_unfold)
  have hosts: "each_ok (\<lambda>(host, _). validate_host_id host) sources = Inr ()"
    using each check_Inr(1) [OF _ assms(1)] by (fastforce simp: each_ok_Inr list_all2_conv_all_nth in_set_conv_nth)
  show ?thesis
  proof (cases "clock_anomaly_at l now")
    case None
    obtain host node ss r where "sources = (host, node) # ss" "fst (check env host node now kind store) = Inr r"
      using assms(2) each by (cases sources) (auto simp: list_all2_Cons1)
    with check_Inr(4) [OF _ assms(1)] None obtain l' where
      l': "advance_clock_and_prune (be_chrono env) now l = Inr l'" by blast
    have "list_all2 (\<lambda>(host, node) r. r = check_loaded_policy (be_chrono env) l' host node kind) sources rs"
      using each by (rule list_all2_mono) (use check_Inr(3) [OF _ assms(1) None l'] in \<open>auto split: prod.splits\<close>)
    then have "rs = List.map (\<lambda>(host, node). check_loaded_policy (be_chrono env) l' host node kind) sources"
      by (auto simp: list_all2_conv_all_nth case_prod_unfold intro: nth_equalityI)
    with hosts assms(1) None l' show ?thesis by (simp add: check_many_read_only_def)
  next
    case (Some t)
    have "list_all2 (\<lambda>(host, node) r. r = Inl (pause (ledger_usage (be_chrono env) l host node) HardLevel
        ClockAnomaly HARD_LIMIT_BYTES (Some t))) sources rs"
      using each by (rule list_all2_mono) (use check_Inr(2) [OF _ assms(1) Some] in \<open>auto split: prod.splits\<close>)
    then have "rs = List.map (\<lambda>(host, node). Inl (pause (ledger_usage (be_chrono env) l host node) HardLevel
        ClockAnomaly HARD_LIMIT_BYTES (Some t))) sources"
      by (auto simp: list_all2_conv_all_nth case_prod_unfold intro: nth_equalityI)
    with hosts assms(1) Some show ?thesis by (simp add: check_many_read_only_def)
  qed
qed

section \<open>Concrete runs\<close>

lemma sample_begin: "begin_attempt_inner sample_env ''box'' None (hours 400000) Manual sample_request None
    = (Inr (Granted sample_reservation), Some sample_ledger)"
  by code_simp

lemma sample_load: "read_optional_ledger sample_env (Some sample_ledger) = Inr sample_ledger"
  by code_simp
lemma sample_none: "read_optional_ledger sample_env None = Inr ledger_default"
  by (simp add: read_optional_ledger_def)

lemma sample_fits: "ledger_validate (be_chrono sample_env) l = Inr () \<Longrightarrow> be_json_len sample_env l < MAX_BUDGET_FILE_BYTES"
  by (auto simp: ledger_validate_iff sample_env_def MAX_LEDGER_ENTRIES_def MAX_BUDGET_FILE_BYTES_def)

lemma sample_facts: "list_ex (is_reservation_entry sample_reservation) (ld_entries sample_ledger)"
 "ld_last_observed_at sample_ledger \<noteq> None" "rv_started_at sample_reservation \<le> hours 400001"
 "hours 400001 + window_duration_24h \<le> max_utc (be_chrono sample_env)"
 "(500000::usize) \<le> MAX_BYTES_PER_ENTRY" "validate_request ''box'' Manual sample_request = Inr ()"
 "min_utc (be_chrono sample_env) \<le> hours 400000 - window_duration_24h" 
 "hours 400000 + window_duration_24h \<le> max_utc (be_chrono sample_env)"
 "be_random sample_env 0 = Some (List.map char_of [1::nat ..< 17])"
 "\<not> list_all (\<lambda>c. byte c = 0) (List.map char_of [1::nat ..< 17])"
 "ledger_validate (be_chrono sample_env) sample_ledger = Inr ()"
 "source_charge ''box'' None sample_ledger = 1048576"
 by code_simp+


theorem admission_decision_witness:
  "begin_attempt_inner sample_env ''box'' None (hours 400000) Manual sample_request None
      = (Inr (Granted sample_reservation), Some sample_ledger)
    \<and> source_charge ''box'' None sample_ledger
      = live_charge (hours 400000) ''box'' None ledger_default + 1048576"
proof -
  have "rv_reserved_bytes sample_reservation = 1048576" by (simp add: sample_reservation_def)
  then show ?thesis
    using admission_decision [OF sample_none sample_begin] sample_begin
    by (auto simp: same_source_def)
qed

theorem settlement_exact_witness:
  "\<exists>u l'. complete_attempt sample_env sample_reservation (hours 400001) 500000 (Some sample_ledger) = (Inr u, Some l')
    \<and> source_charge ''box'' None l' + 1048576 = source_charge ''box'' None sample_ledger + 500000"
proof -
  have v: "rv_host_id sample_reservation = ''box''" "rv_node_id sample_reservation = None"
    "unat (rv_reserved_bytes sample_reservation) = 1048576" by (simp_all add: sample_reservation_def)
  have "same_source ''box'' None ''box'' None" by (simp add: same_source_def)
  moreover obtain u l' where run:
      "complete_attempt sample_env sample_reservation (hours 400001) 500000 (Some sample_ledger) = (Inr u, Some l')"
    and charge: "\<forall>h n. source_charge h n l' + (if same_source h n ''box'' None then 1048576 else 0)
      = source_charge h n sample_ledger + (if same_source h n ''box'' None then unat (500000 :: usize) else 0)"
    using settlement_exact [OF sample_load sample_facts(2,1,3,4,5)] sample_fits unfolding v by blast
  ultimately show ?thesis
    using run charge [rule_format, of "''box''" None] by simp
qed

theorem resume_below_earliest_witness:
  "\<exists>t. resume_below (be_chrono sample_env) sample_ledger ''box'' None 1000000 = Some t
    \<and> live_charge t ''box'' None sample_ledger < 1000000
    \<and> list_all (\<lambda>d. 1000000 \<le> live_charge (t - d) ''box'' None sample_ledger) [1, 2, 3]"
  using resume_below_earliest [of "be_chrono sample_env" sample_ledger 1000000 "''box''" None] sample_facts(11,12)
  by auto

theorem sync_report_within_reservation_witness:
  "\<exists>v g. fst (begin_sync_attempt sample_env ''box'' None (hours 400000) Manual 1048576 2 None) = Inr (Granted v)
    \<and> granted_response_bytes v = Inr g \<and> MIN_REMOTE_SYNC_RESPONSE_BYTES \<le> g \<and> g \<le> 1048576"
proof -
  have "result_is_ok (fst (begin_sync_attempt sample_env ''box'' None (hours 400000) Manual 1048576 2 None))
    \<and> (case fst (begin_sync_attempt sample_env ''box'' None (hours 400000) Manual 1048576 2 None) of
        Inr (Granted v) \<Rightarrow> True | _ \<Rightarrow> False)"
    by code_simp
  then obtain v s where "begin_sync_attempt sample_env ''box'' None (hours 400000) Manual 1048576 2 None = (Inr (Granted v), s)"
    by (cases "begin_sync_attempt sample_env ''box'' None (hours 400000) Manual 1048576 2 None")
      (auto split: sum.splits admission.splits)
  then show ?thesis using sync_report_within_reservation by fastforce
qed

lemma sample_two_admissions:
  "case read_optional_ledger sample_env (run_calls sample_env
        [(be_random sample_env, CallBegin ''box'' None (hours 400000) Manual sample_request),
         (\<lambda>i. be_random sample_env (i + 1), CallBegin ''box'' None (hours 400001) Manual sample_request),
         (be_random sample_env, CallComplete sample_reservation (hours 400001) 500000)]) of
     Inr l \<Rightarrow> source_charge ''box'' None l = 1548576 \<and> length (ld_entries l) = 2 | Inl e \<Rightarrow> False"
  by code_simp

theorem hard_limit_invariant_witness:
  "\<exists>l. read_optional_ledger sample_env (run_calls sample_env
        [(be_random sample_env, CallBegin ''box'' None (hours 400000) Manual sample_request),
         (\<lambda>i. be_random sample_env (i + 1), CallBegin ''box'' None (hours 400001) Manual sample_request),
         (be_random sample_env, CallComplete sample_reservation (hours 400001) 500000)]) = Inr l
    \<and> below_hard l \<and> source_charge ''box'' None l = 1548576 \<and> length (ld_entries l) = 2"
proof -
  have "list_all (\<lambda>(draws, c). within_budget c)
        [(be_random sample_env, CallBegin ''box'' None (hours 400000) Manual sample_request),
         (\<lambda>i. be_random sample_env (i + 1), CallBegin ''box'' None (hours 400001) Manual sample_request),
         (be_random sample_env, CallComplete sample_reservation (hours 400001) 500000)]"
    by code_simp
  from hard_limit_invariant [OF this, of sample_env] sample_two_admissions show ?thesis by auto
qed

theorem compaction_conservative_witness:
  "\<exists>l'. merge_committed_minute_buckets sample_ledger = Inr l' \<and> source_charge ''box'' None l' = 1048576
    \<and> ledger_validate (be_chrono sample_env) l' = Inr ()"
  using compaction_conservative [OF sample_facts(11)] sample_facts(12) by auto

lemma sample_draws: "\<forall>i bytes. be_random sample_env i = Some bytes \<longrightarrow> length bytes = 16"
  "\<forall>i bytes. be_random no_entropy_env i = Some bytes \<longrightarrow> length bytes = 16"
  by (auto simp: sample_env_def no_entropy_env_def split: if_splits)

lemma no_entropy_facts: "read_optional_ledger no_entropy_env None = Inr ledger_default"
  "min_utc (be_chrono no_entropy_env) \<le> hours 400000 - window_duration_24h"
  "hours 400000 + window_duration_24h \<le> max_utc (be_chrono no_entropy_env)"
  "fst (begin_attempt_inner no_entropy_env ''box'' None (hours 400000) Manual sample_request None) = Inl RandomUnavailable"
  by code_simp+

theorem admission_outcomes_witness:
  "(\<exists>a l'. begin_attempt_inner sample_env ''box'' None (hours 400000) Manual sample_request None = (Inr a, Some l')
      \<and> read_optional_ledger sample_env (Some l') = Inr l')
   \<and> begin_attempt_inner no_entropy_env ''box'' None (hours 400000) Manual sample_request None = (Inl RandomUnavailable, None)
   \<and> (\<exists>i<ENTRY_ID_ATTEMPTS. be_random no_entropy_env i = None)"
proof (intro conjI)
  show "\<exists>a l'. begin_attempt_inner sample_env ''box'' None (hours 400000) Manual sample_request None = (Inr a, Some l')
      \<and> read_optional_ledger sample_env (Some l') = Inr l'"
    using admission_outcomes [OF sample_none sample_facts(6-8) sample_draws(1), of None] sample_begin by simp
  from admission_outcomes [OF no_entropy_facts(1) sample_facts(6) no_entropy_facts(2,3) sample_draws(2), of None]
    no_entropy_facts(4)
  show "begin_attempt_inner no_entropy_env ''box'' None (hours 400000) Manual sample_request None = (Inl RandomUnavailable, None)"
    "\<exists>i<ENTRY_ID_ATTEMPTS. be_random no_entropy_env i = None"
    by auto
qed

theorem reservation_settles_once_witness:
  "\<exists>u s e. cancel_attempt sample_env sample_reservation (hours 400001) (Some sample_ledger) = (Inr u, s)
    \<and> complete_attempt sample_env sample_reservation (hours 400002) 500000 s = (Inl e, s)"
proof -
  have "result_is_ok (fst (cancel_attempt sample_env sample_reservation (hours 400001) (Some sample_ledger)))"
    by code_simp
  then obtain u s where "cancel_attempt sample_env sample_reservation (hours 400001) (Some sample_ledger) = (Inr u, s)"
    by (cases "cancel_attempt sample_env sample_reservation (hours 400001) (Some sample_ledger)")
      (auto simp: result_is_ok_iff)
  then show ?thesis using reservation_settles_once by blast
qed

theorem read_only_check_agrees_witness:
  "\<exists>rs. map_ok (\<lambda>(host, node). fst (check sample_env host node (hours 400003) AutomaticBulk (Some sample_ledger)))
      [(''box'', None), (''other'', None)] = Inr rs
    \<and> check_many_read_only sample_env [(''box'', None), (''other'', None)] (hours 400003) AutomaticBulk (Some sample_ledger)
      = Inr rs"
proof -
  have "result_is_ok (map_ok (\<lambda>(host, node). fst (check sample_env host node (hours 400003) AutomaticBulk (Some sample_ledger)))
      [(''box'', None), (''other'', None)])"
    by code_simp
  then show ?thesis
    unfolding result_is_ok_iff using read_only_check_agrees [OF sample_load] by blast
qed

text \<open>
  The retention of compacted bytes can exceed 59 seconds: bytes of the start of a minute and
  bytes of 59.5 seconds later are merged into one entry of the later instant.
\<close>

lemma compaction_retains_beyond_59_seconds:
  "case merge_committed_minute_buckets \<lparr>ld_schema_version = 1, ld_last_observed_at = None,
       ld_entries = [sample_committed 0 ''a'', sample_committed 59500000000 ''b'']\<rparr> of
     Inr l \<Rightarrow> List.map le_recorded_at (ld_entries l) = [59500000000] \<and> List.map le_bytes (ld_entries l) = [2000]
   | Inl _ \<Rightarrow> False"
  by code_simp

end
