(* ===== verification/Quota_Merge.thy ===== *)
theory Quota_Merge
  imports Domain
begin

text \<open>
  The projection of quota observations of one account, \<open>src/quota_merge.rs\<close>: sorting,
  clustering of reset instants around their earliest one, one point per five-minute sample,
  and the final order.  Comparator chains are lexicographic tuple keys; \<open>total_cmp\<close> is
  the integer order of \<^const>\<open>f64_total_key\<close>, negated where the code compares backwards.
\<close>

section \<open>Model\<close>

(* history.rs:83-93 QuotaPoint *)
record quota_point =
  qp_observed_at :: datetime
  qp_limit_id :: string
  qp_duration_mins :: int
  qp_resets_at :: datetime
  qp_used_percent :: f64
  qp_remaining_percent :: f64
  qp_provenance :: provenance

(* quota_merge.rs:10-10 SAMPLE_SECONDS *)
definition SAMPLE_SECONDS :: int where "SAMPLE_SECONDS = 300"

(* quota_merge.rs:11-11 RESET_DRIFT_SECONDS *)
definition QUOTA_RESET_DRIFT_SECONDS :: int where "QUOTA_RESET_DRIFT_SECONDS = 120"

(* quota_merge.rs:85-96 provenance_rank *)
fun provenance_rank :: "provenance \<Rightarrow> nat" where
  "provenance_rank ProvenanceUnknown = 0"
| "provenance_rank Estimated = 1"
| "provenance_rank Inferred = 2"
| "provenance_rank ProvenanceStale = 3"
| "provenance_rank LocalExact = 4"
| "provenance_rank ServerSnapshot = 5"
| "provenance_rank Live = 6"

definition quota_group :: "quota_point \<Rightarrow> string \<times> int" where
  "quota_group p = (to_ascii_lowercase (qp_limit_id p), qp_duration_mins p)"

(* quota_merge.rs:57-66 merge_quota_points (newer) *)
definition newer_key :: "quota_point \<Rightarrow> datetime \<times> int \<times> int \<times> string \<times> nat" where
  "newer_key p = (qp_observed_at p, f64_total_key (qp_used_percent p),
     - f64_total_key (qp_remaining_percent p), qp_limit_id p, provenance_rank (qp_provenance p))"

(* quota_merge.rs:18-29 merge_quota_points (sort) *)
definition quota_sort_key ::
  "quota_point \<Rightarrow> (string \<times> int) \<times> datetime \<times> datetime \<times> int \<times> int \<times> string \<times> nat" where
  "quota_sort_key p = (quota_group p, qp_resets_at p, newer_key p)"

type_synonym quota_cycle = "(string \<times> int) \<times> datetime"

(* quota_merge.rs:34-48 merge_quota_points (anchor) *)
definition next_cycle :: "quota_cycle option \<Rightarrow> quota_point \<Rightarrow> quota_cycle" where
  "next_cycle cycle p = (case cycle of
      Some (cluster, reset) \<Rightarrow>
        if cluster = quota_group p \<and> num_seconds (qp_resets_at p - reset) \<le> QUOTA_RESET_DRIFT_SECONDS
        then (cluster, reset) else (quota_group p, qp_resets_at p)
    | None \<Rightarrow> (quota_group p, qp_resets_at p))"

type_synonym quota_key = "(string \<times> int) \<times> datetime \<times> int"

(* quota_merge.rs:49-55 merge_quota_points (key) *)
definition sample_key :: "quota_point \<Rightarrow> quota_key" where
  "sample_key p = (quota_group p, qp_resets_at p, timestamp_secs (qp_observed_at p) div SAMPLE_SECONDS)"

(* quota_merge.rs:56-72 merge_quota_points (entry) *)
definition keep_newest ::
  "quota_point \<Rightarrow> (quota_key, quota_point) btree \<Rightarrow> (quota_key, quota_point) btree" where
  "keep_newest p m = (case bt_get m (sample_key p) of
      None \<Rightarrow> bt_insert (sample_key p) p m
    | Some old \<Rightarrow> if newer_key old < newer_key p then bt_insert (sample_key p) p m else m)"

(* quota_merge.rs:32-73 merge_quota_points (loop) *)
definition quota_step ::
  "quota_point \<Rightarrow> (quota_key, quota_point) btree \<times> quota_cycle option
    \<Rightarrow> (quota_key, quota_point) btree \<times> quota_cycle option" where
  "quota_step p = (\<lambda>(merged, cycle).
    let cycle = next_cycle cycle p
    in (keep_newest (p\<lparr>qp_resets_at := snd cycle\<rparr>) merged, Some cycle))"

(* quota_merge.rs:75-81 merge_quota_points (result) *)
definition result_key :: "quota_point \<Rightarrow> datetime \<times> int \<times> string \<times> datetime" where
  "result_key p = (qp_observed_at p, qp_duration_mins p, qp_limit_id p, qp_resets_at p)"

(* quota_merge.rs:17-83 merge_quota_points *)
definition merge_quota_points :: "quota_point list \<Rightarrow> quota_point list" where
  "merge_quota_points points =
    (let (merged, _) = fold quota_step (sort_key quota_sort_key points) ([], None)
     in sort_key result_key (bt_values merged))"

section \<open>Specification\<close>

text \<open>The points with their anchors, in the order of the loop.\<close>

fun anchored :: "quota_cycle option \<Rightarrow> quota_point list \<Rightarrow> quota_point list" where
  "anchored c [] = []"
| "anchored c (p # ps) = p\<lparr>qp_resets_at := snd (next_cycle c p)\<rparr> # anchored (Some (next_cycle c p)) ps"

text \<open>Two instants belong to different clusters.\<close>

definition apart :: "datetime \<Rightarrow> datetime \<Rightarrow> bool" where
  "apart a b = (QUOTA_RESET_DRIFT_SECONDS < num_seconds (b - a))"

definition separated :: "quota_point \<Rightarrow> quota_point \<Rightarrow> bool" where
  "separated p q = (quota_group p \<noteq> quota_group q \<or> qp_resets_at p = qp_resets_at q
     \<or> apart (qp_resets_at p) (qp_resets_at q))"

definition newest :: "quota_point option \<Rightarrow> quota_point \<Rightarrow> quota_point" where
  "newest old p = (case old of None \<Rightarrow> p | Some q \<Rightarrow> if newer_key q < newer_key p then p else q)"

definition cycle_le :: "quota_cycle option \<Rightarrow> quota_point \<Rightarrow> bool" where
  "cycle_le c p = (case c of None \<Rightarrow> True | Some (g, r) \<Rightarrow> (g, r) \<le> (quota_group p, qp_resets_at p))"

text \<open>Every anchored point is a point of the list, moved to an anchor at most the drift before it.\<close>

definition anchors :: "quota_point \<Rightarrow> quota_point \<Rightarrow> bool" where
  "anchors q p = (q = p\<lparr>qp_resets_at := qp_resets_at q\<rparr> \<and> qp_resets_at q \<le> qp_resets_at p
     \<and> \<not> apart (qp_resets_at q) (qp_resets_at p))"

text \<open>The values of the map, by key.\<close>

definition merged_map :: "quota_point list \<Rightarrow> (quota_key, quota_point) btree" where
  "merged_map ps = fold keep_newest (anchored None (sort_key quota_sort_key ps)) []"

text \<open>An observation of the five-hour window, for concrete runs.\<close>

definition sample_point :: "int \<Rightarrow> int \<Rightarrow> f64 \<Rightarrow> quota_point" where
  "sample_point observed drift used = \<lparr>qp_observed_at = minutes observed, qp_limit_id = ''codex'',
     qp_duration_mins = 300, qp_resets_at = hours 5 + seconds drift, qp_used_percent = used,
     qp_remaining_percent = 0, qp_provenance = Live\<rparr>"

section \<open>Orders\<close>

lemma f64_total_key_inj: "f64_total_key a = f64_total_key b \<Longrightarrow> a = b"
proof -
  assume eq: "f64_total_key a = f64_total_key b"
  have "unat c = f64_mag c + (if f64_neg c then 2 ^ 63 else 0)" for c :: f64
    using unat_bound [of c] by (simp add: f64_mag_def f64_neg_def le_mod_geq)
  moreover from eq have "f64_neg a = f64_neg b \<and> f64_mag a = f64_mag b"
    by (auto simp: f64_total_key_def split: if_splits)
  ultimately show "a = b" by (simp add: word_unat_eq_iff)
qed

lemma provenance_rank_inj: "provenance_rank a = provenance_rank b \<Longrightarrow> a = b"
  by (cases a; cases b) auto

lemma newer_key_inj:
  "newer_key p = newer_key q \<Longrightarrow> qp_observed_at p = qp_observed_at q \<and> qp_limit_id p = qp_limit_id q
    \<and> qp_used_percent p = qp_used_percent q \<and> qp_remaining_percent p = qp_remaining_percent q
    \<and> qp_provenance p = qp_provenance q"
  by (auto simp: newer_key_def dest: f64_total_key_inj provenance_rank_inj)

lemma quota_sort_key_inj: "inj quota_sort_key"
  by (rule injI) (auto simp: quota_sort_key_def quota_group_def intro: quota_point.equality dest: newer_key_inj)

lemma apart_trans: "apart a b \<Longrightarrow> b \<le> c \<Longrightarrow> apart a c"
  by (auto simp: apart_def num_seconds_def QUOTA_RESET_DRIFT_SECONDS_def split: if_splits
      intro: order_less_le_trans zdiv_mono1)

lemma apart_less: "apart a b \<Longrightarrow> a < b"
  by (auto simp: apart_def num_seconds_def QUOTA_RESET_DRIFT_SECONDS_def split: if_splits)

lemma not_apart: "\<not> apart a b \<longleftrightarrow> num_seconds (b - a) \<le> QUOTA_RESET_DRIFT_SECONDS"
  by (simp add: apart_def not_less)


section \<open>Clusters\<close>

lemma lex_fst_le: "(a, b) \<le> (c, d) \<Longrightarrow> a \<le> c" for a c :: "'a::order" and b d :: "'b::ord"
  by (auto simp: less_eq_prod_def)

lemma sorted_by_reset:
  "sorted (List.map quota_sort_key ps) \<Longrightarrow> sorted (List.map (\<lambda>p. (quota_group p, qp_resets_at p)) ps)"
  by (induction ps) (auto simp: quota_sort_key_def less_eq_prod_def)

lemma next_cycle_group [simp]: "fst (next_cycle c p) = quota_group p"
  by (auto simp: next_cycle_def split: option.splits prod.splits)

lemma next_cycle_cases:
  obtains (same) r where "c = Some (quota_group p, r)" "\<not> apart r (qp_resets_at p)" "next_cycle c p = (quota_group p, r)"
  | (fresh) "next_cycle c p = (quota_group p, qp_resets_at p)"
      "\<And>r. c = Some (quota_group p, r) \<Longrightarrow> apart r (qp_resets_at p)"
  by (cases "case c of Some (g, r) \<Rightarrow> g = quota_group p \<and> \<not> apart r (qp_resets_at p) | None \<Rightarrow> False")
    (auto simp: next_cycle_def apart_def not_less split: option.splits prod.splits if_splits)

lemma next_cycle_reset:
  "quota_group p = g \<Longrightarrow> snd (next_cycle (Some (g, r)) p) = r \<or> apart r (snd (next_cycle (Some (g, r)) p))"
  by (simp add: next_cycle_def apart_def)

lemma cycle_le_next:
  assumes "sorted (List.map (\<lambda>p. (quota_group p, qp_resets_at p)) (p # ps))" "cycle_le c p" "q \<in> set ps"
  shows "cycle_le (Some (next_cycle c p)) q"
  using next_cycle_cases [of c p]
proof cases
  case (same r)
  with assms show ?thesis by (auto simp: cycle_le_def less_eq_prod_def)
next
  case fresh
  with assms show ?thesis by (auto simp: cycle_le_def less_eq_prod_def)
qed

lemma newer_key_reset [simp]: "newer_key (p\<lparr>qp_resets_at := r\<rparr>) = newer_key p"
  by (simp add: newer_key_def)

lemma quota_group_reset [simp]: "quota_group (p\<lparr>qp_resets_at := r\<rparr>) = quota_group p"
  by (simp add: quota_group_def)

lemma anchors_refl: "anchors p p"
  by (simp add: anchors_def apart_def num_seconds_def QUOTA_RESET_DRIFT_SECONDS_def)

lemma anchored_anchors:
  assumes "sorted (List.map (\<lambda>p. (quota_group p, qp_resets_at p)) ps)" "\<And>p. p \<in> set ps \<Longrightarrow> cycle_le c p"
  shows "list_all2 anchors (anchored c ps) ps"
  using assms
proof (induction ps arbitrary: c)
  case (Cons p ps)
  have "anchors (p\<lparr>qp_resets_at := snd (next_cycle c p)\<rparr>) p"
    using next_cycle_cases [of c p]
  proof cases
    case (same r)
    then show ?thesis using Cons.prems(2) [of p] by (auto simp: anchors_def cycle_le_def)
  next
    case fresh
    then show ?thesis using anchors_refl [of p] by simp
  qed
  moreover have "list_all2 anchors (anchored (Some (next_cycle c p)) ps) ps"
    by (rule Cons.IH) (use Cons.prems cycle_le_next [OF Cons.prems(1)] in auto)
  ultimately show ?case by simp
qed simp

lemma anchors_group: "anchors q p \<Longrightarrow> quota_group q = quota_group p"
  by (metis anchors_def quota_group_reset)

lemma list_all2_in1: "list_all2 P xs ys \<Longrightarrow> x \<in> set xs \<Longrightarrow> \<exists>y\<in>set ys. P x y"
  by (induction rule: list_all2_induct) auto

lemma list_all2_in2: "list_all2 P xs ys \<Longrightarrow> y \<in> set ys \<Longrightarrow> \<exists>x\<in>set xs. P x y"
  by (induction rule: list_all2_induct) auto

lemma anchored_after_cycle:
  assumes "sorted (List.map (\<lambda>p. (quota_group p, qp_resets_at p)) ps)" "\<And>p. p \<in> set ps \<Longrightarrow> cycle_le (Some (g, r)) p"
    and "q \<in> set (anchored (Some (g, r)) ps)" "quota_group q = g"
  shows "qp_resets_at q = r \<or> apart r (qp_resets_at q)"
  using assms
proof (induction ps arbitrary: r)
  case (Cons p ps)
  let ?c = "next_cycle (Some (g, r)) p"
  have le: "cycle_le (Some ?c) x" if "x \<in> set ps" for x
    using cycle_le_next [OF Cons.prems(1) _ that] Cons.prems(2) by simp
  show ?case
  proof (cases "q = p\<lparr>qp_resets_at := snd ?c\<rparr>")
    case True
    with Cons.prems(4) next_cycle_reset [of p g r] show ?thesis by simp
  next
    case False
    then have q: "q \<in> set (anchored (Some ?c) ps)" using Cons.prems(3) by simp
    obtain x where x: "x \<in> set ps" "quota_group x = g"
      using list_all2_in1 [OF anchored_anchors [OF _ le] q] Cons.prems(1,4) anchors_group by fastforce
    have "g \<le> quota_group p" using Cons.prems(2) [of p] by (auto simp: cycle_le_def dest: lex_fst_le)
    moreover have "quota_group p \<le> quota_group x" using Cons.prems(1) x(1) by (auto dest: lex_fst_le)
    ultimately have g: "quota_group p = g" using x(2) by simp
    then obtain a where c: "?c = (g, a)" by (metis next_cycle_group prod.collapse)
    have "qp_resets_at q = a \<or> apart a (qp_resets_at q)"
      by (rule Cons.IH) (use Cons.prems(1,4) le q c in auto)
    moreover have "a = r \<or> apart r a"
      using next_cycle_reset [OF g, of r] c by simp
    ultimately show ?thesis by (metis apart_less apart_trans less_imp_le)
  qed
qed simp

lemma anchored_separated:
  assumes "sorted (List.map (\<lambda>p. (quota_group p, qp_resets_at p)) ps)" "\<And>p. p \<in> set ps \<Longrightarrow> cycle_le c p"
  shows "sorted_wrt separated (anchored c ps)"
  using assms
proof (induction ps arbitrary: c)
  case (Cons p ps)
  let ?c = "next_cycle c p"
  have le: "cycle_le (Some ?c) x" if "x \<in> set ps" for x
    using cycle_le_next [OF Cons.prems(1) _ that] Cons.prems(2) by simp
  obtain a where c: "?c = (quota_group p, a)" by (metis next_cycle_group prod.collapse)
  have "separated (p\<lparr>qp_resets_at := snd ?c\<rparr>) q" if "q \<in> set (anchored (Some ?c) ps)" for q
    using anchored_after_cycle [of ps "quota_group p" a q] Cons.prems(1) le that c
    by (auto simp: separated_def)
  moreover have "sorted_wrt separated (anchored (Some ?c) ps)"
    by (rule Cons.IH) (use Cons.prems(1) le in auto)
  ultimately show ?case by simp
qed simp

lemma separated_fixpoint:
  assumes "sorted_wrt separated ps" "sorted (List.map (\<lambda>p. (quota_group p, qp_resets_at p)) ps)"
    and "\<And>g r p. c = Some (g, r) \<Longrightarrow> p \<in> set ps \<Longrightarrow> quota_group p = g \<Longrightarrow> qp_resets_at p = r \<or> apart r (qp_resets_at p)"
  shows "anchored c ps = ps"
  using assms
proof (induction ps arbitrary: c)
  case (Cons p ps)
  have n: "next_cycle c p = (quota_group p, qp_resets_at p)"
    using next_cycle_cases [of c p] Cons.prems(3) [of _ _ p] by (cases) auto
  have "anchored (Some (quota_group p, qp_resets_at p)) ps = ps"
    by (rule Cons.IH) (use Cons.prems(1,2) in \<open>auto simp: separated_def\<close>)
  with n show ?case by simp
qed simp

section \<open>The merged samples\<close>

lemma fold_quota_step:
  "fst (fold quota_step ps (m, c)) = fold keep_newest (anchored c ps) m"
  by (induction ps arbitrary: m c) (simp_all add: quota_step_def Let_def)

lemma keep_newest_get:
  assumes "bt_wf m"
  shows "bt_wf (keep_newest p m)"
    "bt_get (keep_newest p m) k = (if k = sample_key p then Some (newest (bt_get m k) p) else bt_get m k)"
  using assms by (auto simp: keep_newest_def newest_def bt_wf_insert bt_get_insert split: option.splits)

lemma fold_keep_newest:
  assumes "bt_wf m"
  shows "bt_wf (fold keep_newest ps m)"
    "bt_get (fold keep_newest ps m) k
      = fold (\<lambda>p old. Some (newest old p)) (filter (\<lambda>p. sample_key p = k) ps) (bt_get m k)"
  using assms by (induction ps arbitrary: m) (auto simp: keep_newest_get)

lemma fold_newest:
  "fold (\<lambda>p old. Some (newest old p)) ps (Some q) = Some r
    \<Longrightarrow> (r = q \<or> r \<in> set ps) \<and> newer_key q \<le> newer_key r \<and> (\<forall>p\<in>set ps. newer_key p \<le> newer_key r)"
  by (induction ps arbitrary: q) (fastforce simp: newest_def split: if_splits)+

lemma fold_newest_None:
  "fold (\<lambda>p old. Some (newest old p)) ps None = Some r
    \<Longrightarrow> r \<in> set ps \<and> (\<forall>p\<in>set ps. newer_key p \<le> newer_key r)"
  using fold_newest by (cases ps) (auto simp: newest_def)

lemma fold_newest_exists: "ps \<noteq> [] \<Longrightarrow> \<exists>r. fold (\<lambda>p old. Some (newest old p)) ps o' = Some r"
  by (induction ps arbitrary: o') (auto, metis fold_simps(1))

lemma merge_quota_points_eq: "merge_quota_points ps = sort_key result_key (bt_values (merged_map ps))"
  using fold_quota_step [of "sort_key quota_sort_key ps" "[]" None]
  by (simp add: merge_quota_points_def merged_map_def case_prod_unfold)

lemma merged_map_get:
  "bt_get (merged_map ps) k = Some q \<Longrightarrow> sample_key q = k
    \<and> q \<in> set (anchored None (sort_key quota_sort_key ps))
    \<and> (\<forall>p\<in>set (anchored None (sort_key quota_sort_key ps)). sample_key p = k \<longrightarrow> newer_key p \<le> newer_key q)"
  unfolding merged_map_def
  using fold_newest_None by (fastforce simp: fold_keep_newest(2))

lemma merged_map_wf: "bt_wf (merged_map ps)"
  unfolding merged_map_def by (rule fold_keep_newest) simp

lemma merged_map_covers:
  assumes "p \<in> set (anchored None (sort_key quota_sort_key ps))"
  shows "\<exists>q. bt_get (merged_map ps) (sample_key p) = Some q"
  unfolding merged_map_def fold_keep_newest(2) [OF bt_wf_Nil]
  by (rule fold_newest_exists) (use assms in \<open>auto simp: filter_empty_conv\<close>)

lemma set_merge: "set (merge_quota_points ps) = {q. \<exists>k. bt_get (merged_map ps) k = Some q}"
  unfolding merge_quota_points_eq bt_values_def
  by (force simp: bt_get_Some_iff [OF merged_map_wf])

lemma in_merge: "bt_get (merged_map ps) k = Some q \<Longrightarrow> q \<in> set (merge_quota_points ps)"
  unfolding set_merge by blast

lemma sorted_input: "sorted (List.map (\<lambda>p. (quota_group p, qp_resets_at p)) (sort_key quota_sort_key ps))"
  by (rule sorted_by_reset) simp

lemma anchored_input:
  "list_all2 anchors (anchored None (sort_key quota_sort_key ps)) (sort_key quota_sort_key ps)"
  "sorted_wrt separated (anchored None (sort_key quota_sort_key ps))"
  using anchored_anchors [OF sorted_input] anchored_separated [OF sorted_input] by (auto simp: cycle_le_def)

lemma sorted_wrt_either: "sorted_wrt R xs \<Longrightarrow> x \<in> set xs \<Longrightarrow> y \<in> set xs \<Longrightarrow> x = y \<or> R x y \<or> R y x"
  by (induction xs) auto

lemma distinct_merge_keys: "distinct (List.map sample_key (merge_quota_points ps))"
proof -
  have "List.map sample_key (bt_values (merged_map ps)) = List.map fst (merged_map ps)"
    using merged_map_get bt_get_Some_iff [OF merged_map_wf] by (fastforce simp: bt_values_def)
  then have "distinct (List.map sample_key (bt_values (merged_map ps)))"
    using bt_wf_distinct [OF merged_map_wf] by simp
  then show ?thesis
    unfolding merge_quota_points_eq by (metis mset_eq_imp_distinct_iff mset_map mset_sort)
qed

lemma merge_in_anchored:
  "q \<in> set (merge_quota_points ps) \<Longrightarrow> q \<in> set (anchored None (sort_key quota_sort_key ps))"
  using merged_map_get by (auto simp: set_merge)

lemma merge_separated:
  "q \<in> set (merge_quota_points ps) \<Longrightarrow> r \<in> set (merge_quota_points ps) \<Longrightarrow> separated q r \<or> separated r q"
  using sorted_wrt_either [OF anchored_input(2)] merge_in_anchored by (metis separated_def)

lemma sorted_separated:
  assumes "sorted (List.map (\<lambda>p. (quota_group p, qp_resets_at p)) ps)"
    and "\<And>p q. p \<in> set ps \<Longrightarrow> q \<in> set ps \<Longrightarrow> separated p q \<or> separated q p"
  shows "sorted_wrt separated ps"
  using assms
proof (induction ps)
  case (Cons p ps)
  have "separated p q" if "q \<in> set ps" for q
  proof (cases "separated q p \<and> quota_group p = quota_group q")
    case True
    then have "qp_resets_at p \<le> qp_resets_at q" using Cons.prems(1) that by (auto simp: less_eq_prod_def)
    with True show ?thesis by (auto simp: separated_def dest: apart_less)
  qed (use Cons.prems(2) [of p q] that in \<open>auto simp: separated_def\<close>)
  with Cons show ?case by simp
qed simp

text \<open>
  C34. The merged points cover the observations and nothing else.  Every merged point is an
  observation whose reset instant was moved back to its cluster's anchor, by at most the
  drift of 120 whole seconds; every observation is represented by a merged point of the same
  limit, duration and five-minute sample that is at least as new; no two merged points
  share limit, duration, reset instant and sample; and the reset instants of one limit
  and duration are equal or more than 120 whole seconds apart.
\<close>

theorem merge_quota_points_correct:
  "list_all (\<lambda>q. list_ex (\<lambda>p. anchors q p) ps) (merge_quota_points ps)
    \<and> list_all (\<lambda>p. list_ex (\<lambda>q. anchors (p\<lparr>qp_resets_at := qp_resets_at q\<rparr>) p
          \<and> sample_key (p\<lparr>qp_resets_at := qp_resets_at q\<rparr>) = sample_key q
          \<and> newer_key p \<le> newer_key q) (merge_quota_points ps)) ps
    \<and> distinct (List.map sample_key (merge_quota_points ps))
    \<and> list_all (\<lambda>q. list_all (\<lambda>r. separated q r \<or> separated r q) (merge_quota_points ps)) (merge_quota_points ps)"
proof -
  let ?a = "anchored None (sort_key quota_sort_key ps)"
  have "\<exists>p\<in>set ps. anchors q p" if "q \<in> set (merge_quota_points ps)" for q
    using list_all2_in1 [OF anchored_input(1) merge_in_anchored [OF that]] by simp
  moreover have "\<exists>q\<in>set (merge_quota_points ps). anchors (p\<lparr>qp_resets_at := qp_resets_at q\<rparr>) p
      \<and> sample_key (p\<lparr>qp_resets_at := qp_resets_at q\<rparr>) = sample_key q \<and> newer_key p \<le> newer_key q"
    if "p \<in> set ps" for p
  proof -
    obtain p' where p': "p' \<in> set ?a" "anchors p' p"
      using list_all2_in2 [OF anchored_input(1), of p] \<open>p \<in> set ps\<close> by auto
    obtain q where q: "bt_get (merged_map ps) (sample_key p') = Some q" using merged_map_covers [OF p'(1)] by blast
    note g = merged_map_get [OF q]
    have "qp_resets_at q = qp_resets_at p'" using g by (simp add: sample_key_def)
    then have "p\<lparr>qp_resets_at := qp_resets_at q\<rparr> = p'" using p'(2) unfolding anchors_def by metis
    moreover have "newer_key p = newer_key p'"
      using p'(2) unfolding anchors_def by (metis newer_key_reset)
    ultimately show ?thesis using p' g in_merge [OF q] by (intro bexI [of _ q]) auto
  qed
  moreover have "distinct (List.map sample_key (merge_quota_points ps))"
    by (rule distinct_merge_keys)
  ultimately show ?thesis using merge_separated by (simp add: list_all_iff list_ex_iff)
qed

text \<open>
  C35. The projection does not depend on the order in which sources delivered the
  observations: permuting the input changes nothing.
\<close>

theorem merge_quota_points_permutation:
  assumes "mset ps = mset qs"
  shows "merge_quota_points ps = merge_quota_points qs"
proof -
  have "sort_key quota_sort_key ps = sort_key quota_sort_key qs"
    by (rule sort_key_inj_key_eq) (use assms inj_on_subset [OF quota_sort_key_inj] in simp_all)
  then show ?thesis by (simp add: merge_quota_points_def)
qed

theorem merge_quota_points_permutation_witness:
  "merge_quota_points [sample_point 0 0 5, sample_point 7 60 6] = merge_quota_points [sample_point 7 60 6, sample_point 0 0 5]"
  by (rule merge_quota_points_permutation) simp

text \<open>
  Merging is idempotent: the projection of a projection is the projection itself.
\<close>

theorem merge_quota_points_idempotent:
  "merge_quota_points (merge_quota_points ps) = merge_quota_points ps"
proof -
  let ?q = "merge_quota_points ps"
  have "sorted_wrt separated (sort_key quota_sort_key ?q)"
    by (rule sorted_separated [OF sorted_input]) (use merge_separated in simp)
  then have fixed: "anchored None (sort_key quota_sort_key ?q) = sort_key quota_sort_key ?q"
    by (rule separated_fixpoint [OF _ sorted_input]) simp
  have key_inj: "p = r" if "p \<in> set ?q" "r \<in> set ?q" "sample_key p = sample_key r" for p r
    using that distinct_merge_keys [of ps] by (auto simp: distinct_map dest: inj_onD)
  have sub: "set (merge_quota_points ?q) \<subseteq> set ?q"
    using merge_in_anchored [of _ ?q] by (auto simp: fixed)
  have "p \<in> set (merge_quota_points ?q)" if p: "p \<in> set ?q" for p
  proof -
    obtain r where r: "bt_get (merged_map ?q) (sample_key p) = Some r"
      using merged_map_covers [of p ?q] p by (auto simp: fixed)
    then have "r \<in> set (merge_quota_points ?q)" "sample_key r = sample_key p"
      using merged_map_get [OF r] in_merge [OF r] by auto
    with key_inj [of r p] sub p show ?thesis by blast
  qed
  with sub have sets: "set (merge_quota_points ?q) = set ?q" by blast
  have "inj_on result_key (set ?q)"
    by (rule inj_onI, rule key_inj) (auto simp: result_key_def sample_key_def quota_group_def)
  moreover have "distinct ?q" "distinct (merge_quota_points ?q)"
    using distinct_merge_keys by (auto simp: distinct_map)
  moreover have "sorted (List.map result_key ?q)" "sorted (List.map result_key (merge_quota_points ?q))"
    by (simp_all add: merge_quota_points_eq)
  ultimately show ?thesis
    using sets by (intro map_sorted_distinct_set_unique [of result_key]) (simp_all add: distinct_map)
qed

end
