(* ===== verification/Remotes_Config.thy ===== *)
theory Remotes_Config
  imports Sync_Types
begin

text \<open>
  The remote-host allowlist of \<open>src/remotes_config.rs\<close>: field validation, the nine
  mutations behind the revision-bumping \<open>mutate\<close>, decoding with defaults, and the store
  with its compare-and-swap transactions and current-host fences.

  The store is what the configuration file holds after JSON decoding: absent, not
  decodable, or a document.  Every operation that publishes takes the outcome of the atomic
  write as an argument; a failed write leaves the file as it was.  Locks serialize the
  operations, so each one is a step on the store; a busy lock of the nonblocking variants
  is an argument.
\<close>

section \<open>Data\<close>

(* remotes_config.rs:47-51 RemoteHostState *)
datatype remote_host_state = ConfiguredUnpaired | PairedDisabled | PairedEnabled

(* remotes_config.rs:54-60 RemoteHostState::as_str *)
fun host_state_str :: "remote_host_state \<Rightarrow> string" where
  "host_state_str ConfiguredUnpaired = ''configured-unpaired''"
| "host_state_str PairedDisabled = ''paired-disabled''"
| "host_state_str PairedEnabled = ''paired-enabled''"

(* remotes_config.rs:65-85 RemoteHostConfig *)
record host_config =
  hc_id :: string
  hc_ssh_host :: string
  hc_agent_executable :: string
  hc_sync_enabled :: bool
  hc_redact_content :: bool
  hc_expected_source :: "source_generation option"
  hc_previous_source :: "source_generation option"

(* remotes_config.rs:118-124 RemoteHostConfig::state *)
definition host_state :: "host_config \<Rightarrow> remote_host_state" where
  "host_state h = (case hc_expected_source h of
      None \<Rightarrow> ConfiguredUnpaired
    | Some _ \<Rightarrow> if hc_sync_enabled h then PairedEnabled else PairedDisabled)"

(* remotes_config.rs:126-128 RemoteHostConfig::is_paired *)
definition is_paired :: "host_config \<Rightarrow> bool" where
  "is_paired h = (hc_expected_source h \<noteq> None)"

(* remotes_config.rs:148-152 RemoteHostEdit *)
record host_edit =
  ed_ssh_host :: "string option"
  ed_agent_executable :: "string option"
  ed_redact_content :: "bool option"

(* remotes_config.rs:156-167 RemotesConfig *)
record remotes_config =
  rc_version :: u32
  rc_config_revision :: u64
  rc_auto_sync_enabled :: bool
  rc_active_interval_seconds :: u64
  rc_idle_interval_seconds :: u64
  rc_hosts :: "host_config list"

(* remotes_config.rs:169-180 RemotesConfig::default *)
definition remotes_config_default :: remotes_config where
  "remotes_config_default = \<lparr>rc_version = 1, rc_config_revision = 0, rc_auto_sync_enabled = False,
     rc_active_interval_seconds = 60, rc_idle_interval_seconds = 300, rc_hosts = []\<rparr>"

(* remotes_config.rs:247-282 RemotesConfigMutation *)
datatype config_mutation =
    AddHost string string
  | EditHost string host_edit
  | PairPin string source_generation
  | UnpairHost string
  | EnableHost string
  | DisableHost string
  | RemoveHost string
  | SetAutoSyncEnabled bool
  | SetIntervals u64 u64

datatype config_error =
    UnsupportedVersion | ActiveIntervalRange | IdleIntervalRange | IdleBelowActive
  | TooManyHosts | InvalidHostId | InvalidSshHost | InvalidAgentExecutable
  | DuplicateHostId | PreviousWhilePaired | SourceShared | NodeShared | EnabledBeforePairing
  | HostExists | HostNotFound | PairedWithOther | NodePairedElsewhere | MustPairFirst
  | RevisionExhausted | StaleRevision | StaleHost | ConfigMissing | ConfigUnreadable
  | WriteFailed | RevisionNotAdvanced | SourceAttached | OperationFailed

section \<open>Field validation\<close>

definition MAX_HOSTS :: nat where "MAX_HOSTS = 256"
definition MAX_SSH_HOST_BYTES :: nat where "MAX_SSH_HOST_BYTES = 255"
definition MAX_AGENT_EXECUTABLE_BYTES :: nat where "MAX_AGENT_EXECUTABLE_BYTES = 512"

(* remotes_config.rs:1202-1219 validate_intervals *)
definition validate_intervals :: "u64 \<Rightarrow> u64 \<Rightarrow> config_error + unit" where
  "validate_intervals active idle =
    and_then (ensure (30 \<le> active \<and> active \<le> 3600) ActiveIntervalRange) (\<lambda>_.
    and_then (ensure (60 \<le> idle \<and> idle \<le> 86400) IdleIntervalRange) (\<lambda>_.
    ensure (active \<le> idle) IdleBelowActive))"

(* remotes_config.rs:1235-1251 validate_host_id *)
definition validate_config_host_id :: "string \<Rightarrow> config_error + unit" where
  "validate_config_host_id s = ensure (s \<noteq> [] \<and> length s \<le> 64 \<and> is_ascii_alphanumeric (hd s)
     \<and> list_all (\<lambda>c. is_ascii_alphanumeric c \<or> c = CHR ''-'' \<or> c = CHR ''_'') s) InvalidHostId"

(* remotes_config.rs:1253-1269 validate_ssh_host *)
definition validate_ssh_host :: "string \<Rightarrow> config_error + unit" where
  "validate_ssh_host s = ensure (s \<noteq> [] \<and> length s \<le> MAX_SSH_HOST_BYTES \<and> \<not> starts_with ''-'' s
     \<and> \<not> list_ex char_is_control (utf8_chars s) \<and> \<not> list_ex char_is_whitespace (utf8_chars s)) InvalidSshHost"

definition is_drive_path :: "string \<Rightarrow> bool" where
  "is_drive_path s = (case s of a # b # c # _ \<Rightarrow> is_ascii_alphabetic a \<and> b = CHR '':''
     \<and> (c = CHR ''/'' \<or> byte c = 92) | _ \<Rightarrow> False)"

definition backslash :: char where "backslash = char_of (92 :: nat)"

(* remote_transport.rs:1806-1820 is_windows_executable_path *)
definition is_windows_executable_path :: "string \<Rightarrow> bool" where
  "is_windows_executable_path s = (starts_with [CHR ''.'', backslash] s
     \<or> starts_with [backslash, backslash] s \<or> is_drive_path s
     \<or> \<not> starts_with ''/'' s \<and> \<not> starts_with ''~/'' s \<and> \<not> starts_with ''./'' s
        \<and> backslash \<in> set s \<and> ends_with ''.exe'' (to_ascii_lowercase s))"

(* remote_transport.rs:1838-1852 validate_windows_shell_literal *)
definition windows_shell_literal_ok :: "string \<Rightarrow> bool" where
  "windows_shell_literal_ok s = (\<not> list_ex (\<lambda>g. char_is_control g
     \<or> (case List.map byte g of
          [a] \<Rightarrow> a \<in> {36, 96, 37, 33, 34, 94}
        | [a, b, c] \<Rightarrow> a = 226 \<and> b = 128 \<and> 152 \<le> c \<and> c \<le> 159
        | _ \<Rightarrow> False)) (utf8_chars s))"

(* remotes_config.rs:1290-1297 validate_agent_executable (explicit_path) *)
definition is_explicit_path :: "string \<Rightarrow> bool" where
  "is_explicit_path s = (starts_with ''/'' s \<or> starts_with ''./'' s \<or> starts_with ''~/'' s
     \<or> starts_with [CHR ''.'', backslash] s \<or> starts_with [backslash, backslash] s \<or> is_drive_path s)"

definition is_command_byte :: "char \<Rightarrow> bool" where
  "is_command_byte c = (is_ascii_alphanumeric c \<or> c \<in> set ''/._:+~-'' \<or> c = backslash)"

(* remotes_config.rs:1271-1314 validate_agent_executable *)
definition validate_agent_executable :: "string \<Rightarrow> config_error + unit" where
  "validate_agent_executable s =
    and_then (ensure (s \<noteq> [] \<and> length s \<le> MAX_AGENT_EXECUTABLE_BYTES) InvalidAgentExecutable) (\<lambda>_.
    and_then (ensure (\<not> is_windows_executable_path s \<or> windows_shell_literal_ok s
      \<and> \<not> ends_with ''.cmd'' (to_ascii_lowercase s) \<and> \<not> ends_with ''.bat'' (to_ascii_lowercase s))
      InvalidAgentExecutable) (\<lambda>_.
    if is_explicit_path s \<and> \<not> list_ex char_is_control (utf8_chars s) then Inr ()
    else and_then (ensure (list_all is_command_byte s) InvalidAgentExecutable) (\<lambda>_.
      ensure (\<not> (backslash \<in> set s \<and> \<not> ends_with ''.exe'' s)) InvalidAgentExecutable)))"

(* remotes_config.rs:1225-1233 validate_remote_host_input *)
definition validate_remote_host_input :: "string \<Rightarrow> string \<Rightarrow> string \<Rightarrow> config_error + unit" where
  "validate_remote_host_input hid ssh agent =
    and_then (validate_config_host_id hid) (\<lambda>_.
    and_then (validate_ssh_host ssh) (\<lambda>_. validate_agent_executable agent))"

section \<open>The document\<close>

record reference_state =
  rf_host_ids :: "string list"
  rf_node_ids :: "node_id list"
  rf_sources :: "source_generation list"

definition claim_source ::
  "source_generation \<Rightarrow> reference_state \<Rightarrow> config_error + reference_state" where
  "claim_source src s =
    and_then (ensure (src \<notin> set (rf_sources s)) SourceShared) (\<lambda>_.
    and_then (ensure (sg_node_id src \<notin> set (rf_node_ids s)) NodeShared) (\<lambda>_.
    Inr (s\<lparr>rf_node_ids := sg_node_id src # rf_node_ids s, rf_sources := rf_sources s @ [src]\<rparr>)))"

(* remotes_config.rs:425-478 RemotesConfig::validate (loop) *)
definition validate_host ::
  "host_config \<Rightarrow> reference_state \<Rightarrow> config_error + reference_state" where
  "validate_host h s =
    and_then (validate_remote_host_input (hc_id h) (hc_ssh_host h) (hc_agent_executable h)) (\<lambda>_.
    and_then (ensure (hc_id h \<notin> set (rf_host_ids s)) DuplicateHostId) (\<lambda>_.
    let s = s\<lparr>rf_host_ids := hc_id h # rf_host_ids s\<rparr> in
    and_then (ensure (\<not> (hc_expected_source h \<noteq> None \<and> hc_previous_source h \<noteq> None)) PreviousWhilePaired) (\<lambda>_.
    and_then (case hc_expected_source h of
        Some src \<Rightarrow> claim_source src s
      | None \<Rightarrow> if hc_sync_enabled h then Inl EnabledBeforePairing else Inr s) (\<lambda>s.
    case hc_previous_source h of
        Some src \<Rightarrow> claim_source src s
      | None \<Rightarrow> Inr s))))"

(* remotes_config.rs:407-481 RemotesConfig::validate *)
definition config_validate :: "remotes_config \<Rightarrow> config_error + unit" where
  "config_validate c =
    and_then (ensure (rc_version c = 1) UnsupportedVersion) (\<lambda>_.
    and_then (validate_intervals (rc_active_interval_seconds c) (rc_idle_interval_seconds c)) (\<lambda>_.
    and_then (ensure (length (rc_hosts c) \<le> MAX_HOSTS) TooManyHosts) (\<lambda>_.
    and_then (fold_ok validate_host (rc_hosts c) \<lparr>rf_host_ids = [], rf_node_ids = [], rf_sources = []\<rparr>)
      (\<lambda>_. Inr ()))))"

(* remotes_config.rs:483-485 RemotesConfig::host *)
definition config_host :: "remotes_config \<Rightarrow> string \<Rightarrow> host_config option" where
  "config_host c hid = List.find (\<lambda>h. hc_id h = hid) (rc_hosts c)"

(* remotes_config.rs:400-405 RemotesConfig::automatic_hosts *)
definition automatic_hosts :: "remotes_config \<Rightarrow> host_config list" where
  "automatic_hosts c = filter (\<lambda>h. rc_auto_sync_enabled c \<and> hc_sync_enabled h \<and> hc_expected_source h \<noteq> None)
     (rc_hosts c)"

section \<open>Mutations\<close>

text \<open>An operation on the candidate returns whether it changed it.\<close>

type_synonym config_operation = "remotes_config \<Rightarrow> config_error + bool \<times> remotes_config"

(* remotes_config.rs:677-693 RemotesConfig::mutate *)
definition config_mutate :: "config_operation \<Rightarrow> config_operation" where
  "config_mutate operation c =
    and_then (config_validate c) (\<lambda>_.
    and_then (operation c) (\<lambda>(changed, candidate).
    if \<not> changed then Inr (False, c)
    else and_then (ok_or (checked_add (rc_config_revision candidate) 1) RevisionExhausted) (\<lambda>revision.
      let candidate = candidate\<lparr>rc_config_revision := revision\<rparr> in
      and_then (config_validate candidate) (\<lambda>_. Inr (True, candidate)))))"

text \<open>\<open>host_mut_or_error\<close> and an update of the first host with the identifier in place.\<close>

fun update_host :: "string \<Rightarrow> (host_config \<Rightarrow> host_config) \<Rightarrow> host_config list \<Rightarrow> host_config list" where
  "update_host hid f [] = []"
| "update_host hid f (h # hs) = (if hc_id h = hid then f h # hs else h # update_host hid f hs)"

(* remotes_config.rs:656-675 RemotesConfig::host_or_error, RemotesConfig::host_mut_or_error *)
definition host_or_error :: "remotes_config \<Rightarrow> string \<Rightarrow> config_error + host_config" where
  "host_or_error c hid = ok_or (config_host c hid) HostNotFound"

definition set_host :: "string \<Rightarrow> (host_config \<Rightarrow> host_config) \<Rightarrow> remotes_config \<Rightarrow> remotes_config" where
  "set_host hid f c = c\<lparr>rc_hosts := update_host hid f (rc_hosts c)\<rparr>"

(* remotes_config.rs:487-508 RemotesConfig::add_host *)
definition add_host :: "string \<Rightarrow> string \<Rightarrow> config_operation" where
  "add_host hid ssh = config_mutate (\<lambda>c.
    if config_host c hid \<noteq> None then Inl HostExists
    else Inr (True, c\<lparr>rc_hosts := rc_hosts c @ [\<lparr>hc_id = hid, hc_ssh_host = ssh,
      hc_agent_executable = ''codex-usage-monit'', hc_sync_enabled = False, hc_redact_content = True,
      hc_expected_source = None, hc_previous_source = None\<rparr>]\<rparr>))"

definition edit_fields :: "host_edit \<Rightarrow> host_config \<Rightarrow> host_config" where
  "edit_fields e h = h\<lparr>
     hc_ssh_host := (case ed_ssh_host e of Some s \<Rightarrow> s | None \<Rightarrow> hc_ssh_host h),
     hc_agent_executable := (case ed_agent_executable e of Some s \<Rightarrow> s | None \<Rightarrow> hc_agent_executable h),
     hc_redact_content := (case ed_redact_content e of Some b \<Rightarrow> b | None \<Rightarrow> hc_redact_content h)\<rparr>"

(* remotes_config.rs:512-530 RemotesConfig::edit_host *)
definition edit_host :: "string \<Rightarrow> host_edit \<Rightarrow> config_operation" where
  "edit_host hid e = config_mutate (\<lambda>c.
    and_then (host_or_error c hid) (\<lambda>h.
      let changed = (case ed_ssh_host e of Some s \<Rightarrow> hc_ssh_host h \<noteq> s | None \<Rightarrow> False)
            \<or> (case ed_agent_executable e of Some s \<Rightarrow> hc_agent_executable h \<noteq> s | None \<Rightarrow> False)
            \<or> (case ed_redact_content e of Some b \<Rightarrow> hc_redact_content h \<noteq> b | None \<Rightarrow> False)
      in Inr (changed, set_host hid (edit_fields e) c)))"

definition references :: "source_generation option \<Rightarrow> node_id \<Rightarrow> bool" where
  "references s n = (case s of Some src \<Rightarrow> sg_node_id src = n | None \<Rightarrow> False)"

(* remotes_config.rs:535-582 RemotesConfig::pair_pin *)
definition pair_pin :: "string \<Rightarrow> source_generation \<Rightarrow> config_operation" where
  "pair_pin hid src = config_mutate (\<lambda>c.
    and_then (host_or_error c hid) (\<lambda>h. case hc_expected_source h of
      Some current \<Rightarrow> if current = src then Inr (False, c) else Inl PairedWithOther
    | None \<Rightarrow>
        if list_ex (\<lambda>h. hc_id h \<noteq> hid \<and> references (hc_expected_source h) (sg_node_id src)) (rc_hosts c)
        then Inl NodePairedElsewhere
        else Inr (True, set_host hid (\<lambda>h. h\<lparr>hc_previous_source := None, hc_expected_source := Some src\<rparr>)
          (c\<lparr>rc_hosts := List.map (\<lambda>h. if references (hc_previous_source h) (sg_node_id src)
             then h\<lparr>hc_previous_source := None\<rparr> else h) (rc_hosts c)\<rparr>))))"

(* remotes_config.rs:588-599 RemotesConfig::unpair_host *)
definition unpair_host :: "string \<Rightarrow> config_operation" where
  "unpair_host hid = config_mutate (\<lambda>c.
    and_then (host_or_error c hid) (\<lambda>h.
      Inr (hc_expected_source h \<noteq> None \<or> hc_sync_enabled h,
        set_host hid (\<lambda>h. h\<lparr>hc_expected_source := None,
          hc_previous_source := (case hc_expected_source h of Some src \<Rightarrow> Some src | None \<Rightarrow> hc_previous_source h),
          hc_sync_enabled := False\<rparr>) c)))"

(* remotes_config.rs:601-614 RemotesConfig::enable_host *)
definition enable_host :: "string \<Rightarrow> config_operation" where
  "enable_host hid = config_mutate (\<lambda>c.
    and_then (host_or_error c hid) (\<lambda>h.
      if \<not> is_paired h then Inl MustPairFirst
      else Inr (\<not> hc_sync_enabled h, set_host hid (\<lambda>h. h\<lparr>hc_sync_enabled := True\<rparr>) c)))"

(* remotes_config.rs:616-623 RemotesConfig::disable_host *)
definition disable_host :: "string \<Rightarrow> config_operation" where
  "disable_host hid = config_mutate (\<lambda>c.
    and_then (host_or_error c hid) (\<lambda>h.
      Inr (hc_sync_enabled h, set_host hid (\<lambda>h. h\<lparr>hc_sync_enabled := False\<rparr>) c)))"

fun remove_first_host :: "string \<Rightarrow> host_config list \<Rightarrow> host_config list" where
  "remove_first_host hid [] = []"
| "remove_first_host hid (h # hs) = (if hc_id h = hid then hs else h # remove_first_host hid hs)"

(* remotes_config.rs:625-636 RemotesConfig::remove_host *)
definition remove_host :: "string \<Rightarrow> config_operation" where
  "remove_host hid = config_mutate (\<lambda>c.
    and_then (host_or_error c hid) (\<lambda>_. Inr (True, c\<lparr>rc_hosts := remove_first_host hid (rc_hosts c)\<rparr>)))"

(* remotes_config.rs:638-644 RemotesConfig::set_auto_sync_enabled *)
definition set_auto_sync_enabled :: "bool \<Rightarrow> config_operation" where
  "set_auto_sync_enabled enabled = config_mutate (\<lambda>c.
    Inr (rc_auto_sync_enabled c \<noteq> enabled, c\<lparr>rc_auto_sync_enabled := enabled\<rparr>))"

(* remotes_config.rs:646-654 RemotesConfig::set_intervals *)
definition set_intervals :: "u64 \<Rightarrow> u64 \<Rightarrow> config_operation" where
  "set_intervals active idle = config_mutate (\<lambda>c.
    Inr (rc_active_interval_seconds c \<noteq> active \<or> rc_idle_interval_seconds c \<noteq> idle,
      c\<lparr>rc_active_interval_seconds := active, rc_idle_interval_seconds := idle\<rparr>))"

(* remotes_config.rs:695-712 RemotesConfig::apply_mutation *)
fun apply_mutation :: "config_mutation \<Rightarrow> config_operation" where
  "apply_mutation (AddHost hid ssh) = add_host hid ssh"
| "apply_mutation (EditHost hid e) = edit_host hid e"
| "apply_mutation (PairPin hid src) = pair_pin hid src"
| "apply_mutation (UnpairHost hid) = unpair_host hid"
| "apply_mutation (EnableHost hid) = enable_host hid"
| "apply_mutation (DisableHost hid) = disable_host hid"
| "apply_mutation (RemoveHost hid) = remove_host hid"
| "apply_mutation (SetAutoSyncEnabled enabled) = set_auto_sync_enabled enabled"
| "apply_mutation (SetIntervals active idle) = set_intervals active idle"

section \<open>Decoding\<close>

text \<open>The wire records after JSON decoding: an absent field is \<^const>\<open>None\<close>.\<close>

(* remotes_config.rs:184-197 RemoteHostConfigWire *)
record host_wire =
  hw_id :: string
  hw_ssh_host :: string
  hw_agent_executable :: "string option"
  hw_sync_enabled :: "bool option"
  hw_redact_content :: "bool option"
  hw_expected_source :: "source_generation option"
  hw_previous_source :: "source_generation option"

(* remotes_config.rs:201-213 RemotesConfigWire *)
record config_wire =
  cw_version :: "u32 option"
  cw_config_revision :: "u64 option"
  cw_auto_sync_enabled :: "bool option"
  cw_active_interval_seconds :: "u64 option"
  cw_idle_interval_seconds :: "u64 option"
  cw_hosts :: "host_wire list"

definition or_default :: "'a \<Rightarrow> 'a option \<Rightarrow> 'a" where
  "or_default d x = (case x of Some v \<Rightarrow> v | None \<Rightarrow> d)"

definition host_of_wire :: "host_wire \<Rightarrow> host_config" where
  "host_of_wire w = \<lparr>hc_id = hw_id w, hc_ssh_host = hw_ssh_host w,
     hc_agent_executable = or_default ''codex-usage-monit'' (hw_agent_executable w),
     hc_sync_enabled = or_default False (hw_sync_enabled w),
     hc_redact_content = or_default True (hw_redact_content w),
     hc_expected_source = hw_expected_source w, hc_previous_source = hw_previous_source w\<rparr>"

(* remotes_config.rs:216-243 RemotesConfig::deserialize *)
definition config_of_wire :: "u32 \<Rightarrow> config_wire \<Rightarrow> remotes_config" where
  "config_of_wire version w = \<lparr>rc_version = version,
     rc_config_revision = or_default 0 (cw_config_revision w),
     rc_auto_sync_enabled = or_default False (cw_auto_sync_enabled w),
     rc_active_interval_seconds = or_default 60 (cw_active_interval_seconds w),
     rc_idle_interval_seconds = or_default 300 (cw_idle_interval_seconds w),
     rc_hosts = List.map host_of_wire (cw_hosts w)\<rparr>"

(* remotes_config.rs:1179-1195 deserialize_config *)
definition deserialize_config :: "config_wire \<Rightarrow> config_error + remotes_config" where
  "deserialize_config w = (case cw_version w of
      None \<Rightarrow> Inl UnsupportedVersion
    | Some version \<Rightarrow> and_then (ensure (version = 1) UnsupportedVersion) (\<lambda>_.
        and_then (config_validate (config_of_wire version w)) (\<lambda>_. Inr (config_of_wire version w))))"

text \<open>The encoding writes every field, so that decoding needs no default.\<close>

definition wire_of_host :: "host_config \<Rightarrow> host_wire" where
  "wire_of_host h = \<lparr>hw_id = hc_id h, hw_ssh_host = hc_ssh_host h,
     hw_agent_executable = Some (hc_agent_executable h), hw_sync_enabled = Some (hc_sync_enabled h),
     hw_redact_content = Some (hc_redact_content h), hw_expected_source = hc_expected_source h,
     hw_previous_source = hc_previous_source h\<rparr>"

(* remotes_config.rs:1171-1177 serialize_config *)
definition serialize_config :: "remotes_config \<Rightarrow> config_error + config_wire" where
  "serialize_config c = and_then (config_validate c) (\<lambda>_.
     Inr \<lparr>cw_version = Some (rc_version c), cw_config_revision = Some (rc_config_revision c),
       cw_auto_sync_enabled = Some (rc_auto_sync_enabled c),
       cw_active_interval_seconds = Some (rc_active_interval_seconds c),
       cw_idle_interval_seconds = Some (rc_idle_interval_seconds c),
       cw_hosts = List.map wire_of_host (rc_hosts c)\<rparr>)"

section \<open>The store\<close>

datatype config_file = NoFile | Undecodable | ConfigFile config_wire

(* remotes_config.rs:1397-1424 read_config *)
definition read_config :: "config_file \<Rightarrow> config_error + remotes_config" where
  "read_config f = (case f of
      NoFile \<Rightarrow> Inl ConfigMissing
    | Undecodable \<Rightarrow> Inl ConfigUnreadable
    | ConfigFile w \<Rightarrow> deserialize_config w)"

text \<open>The result of a store operation and the file it leaves.\<close>

type_synonym 'r config_run = "(config_error + 'r) \<times> config_file"

definition publish :: "bool \<Rightarrow> remotes_config \<Rightarrow> 'r \<Rightarrow> config_file \<Rightarrow> 'r config_run" where
  "publish written c r f = (case serialize_config c of
      Inl e \<Rightarrow> (Inl e, f)
    | Inr w \<Rightarrow> if written then (Inr r, ConfigFile w) else (Inl WriteFailed, f))"

(* remotes_config.rs:1378-1395 load_or_create_locked *)
definition load_or_create_locked :: "bool \<Rightarrow> config_file \<Rightarrow> remotes_config config_run" where
  "load_or_create_locked written f = (case read_config f of
      Inr c \<Rightarrow> (Inr c, f)
    | Inl ConfigMissing \<Rightarrow> publish written remotes_config_default remotes_config_default f
    | Inl e \<Rightarrow> (Inl e, f))"

definition run_then :: "'a config_run \<Rightarrow> ('a \<Rightarrow> config_file \<Rightarrow> 'b config_run) \<Rightarrow> 'b config_run" where
  "run_then r k = (case r of (Inl e, f) \<Rightarrow> (Inl e, f) | (Inr x, f) \<Rightarrow> k x f)"

definition lift_result :: "config_error + 'a \<Rightarrow> config_file \<Rightarrow> 'a config_run" where
  "lift_result r f = (r, f)"

(* remotes_config.rs:1107-1117 ensure_expected_revision *)
definition ensure_expected_revision :: "u64 \<Rightarrow> u64 \<Rightarrow> config_error + unit" where
  "ensure_expected_revision expected actual = ensure (expected = actual) StaleRevision"

(* remotes_config.rs:1119-1142 ensure_expected_host *)
definition ensure_expected_host :: "remotes_config \<Rightarrow> host_config \<Rightarrow> config_error + unit" where
  "ensure_expected_host current expected =
    and_then (ok_or (config_host current (hc_id expected)) StaleHost) (\<lambda>actual.
      ensure (actual = expected) StaleHost)"

(* remotes_config.rs:770-775 RemotesConfigStore::load *)
definition store_load :: "config_file \<Rightarrow> config_error + remotes_config" where
  "store_load f = read_config f"

(* remotes_config.rs:738-741 TryLoadRemotesConfig *)
datatype try_load = Loaded remotes_config | LoadBusy

(* remotes_config.rs:783-790 RemotesConfigStore::try_load *)
definition store_try_load :: "bool \<Rightarrow> config_file \<Rightarrow> config_error + try_load" where
  "store_try_load busy f = (if busy then Inr LoadBusy else and_then (read_config f) (\<lambda>c. Inr (Loaded c)))"

(* remotes_config.rs:798-812 RemotesConfigStore::try_load_or_create *)
definition store_try_load_or_create :: "bool \<Rightarrow> bool \<Rightarrow> bool \<Rightarrow> config_file \<Rightarrow> try_load config_run" where
  "store_try_load_or_create shared_busy exclusive_busy written f = (case store_try_load shared_busy f of
      Inr loaded \<Rightarrow> (Inr loaded, f)
    | Inl ConfigMissing \<Rightarrow>
        if exclusive_busy then (Inr LoadBusy, f)
        else run_then (load_or_create_locked written f) (\<lambda>c f. (Inr (Loaded c), f))
    | Inl e \<Rightarrow> (Inl e, f))"

(* remotes_config.rs:891-897 RemotesConfigStore::load_or_create *)
definition store_load_or_create :: "bool \<Rightarrow> config_file \<Rightarrow> remotes_config config_run" where
  "store_load_or_create written f = load_or_create_locked written f"

text \<open>The fences run an operation of the caller, given as its result.\<close>

(* remotes_config.rs:818-831 RemotesConfigStore::with_current_host *)
definition with_current_host ::
  "u64 \<Rightarrow> host_config \<Rightarrow> (config_error + 'r) \<Rightarrow> config_file \<Rightarrow> config_error + 'r" where
  "with_current_host revision host operation f =
    and_then (read_config f) (\<lambda>current.
    and_then (ensure_expected_revision revision (rc_config_revision current)) (\<lambda>_.
    and_then (ensure_expected_host current host) (\<lambda>_. operation)))"

(* remotes_config.rs:726-730 TryCurrentHost *)
datatype 'r try_current_host = CurrentHost 'r | HostBusy | HostChanged

(* remotes_config.rs:836-854 RemotesConfigStore::try_with_current_host *)
definition try_with_current_host ::
  "bool \<Rightarrow> u64 \<Rightarrow> host_config \<Rightarrow> (config_error + 'r) \<Rightarrow> config_file \<Rightarrow> config_error + 'r try_current_host" where
  "try_with_current_host busy revision host operation f =
    (if busy then Inr HostBusy
     else and_then (read_config f) (\<lambda>current.
       if rc_config_revision current \<noteq> revision \<or> config_host current (hc_id host) \<noteq> Some host
       then Inr HostChanged
       else and_then operation (\<lambda>r. Inr (CurrentHost r))))"

(* remotes_config.rs:864-887 RemotesConfigStore::with_unattached_source *)
definition with_unattached_source ::
  "bool \<Rightarrow> node_id \<Rightarrow> (config_error + 'r) \<Rightarrow> config_file \<Rightarrow> 'r config_run" where
  "with_unattached_source written source_id operation f =
    run_then (load_or_create_locked written f) (\<lambda>current.
      lift_result (and_then (ensure (\<not> list_ex (\<lambda>h. references (hc_expected_source h) source_id)
        (rc_hosts current)) SourceAttached) (\<lambda>_. operation)))"

(* remotes_config.rs:335-339 RemotesConfigTransaction *)
record config_transaction =
  ct_expected_revision :: u64
  ct_config :: remotes_config
  ct_changed :: bool

(* remotes_config.rs:361-365 RemotesConfigTransaction::apply *)
definition transaction_apply :: "config_mutation \<Rightarrow> config_transaction \<Rightarrow> config_error + config_transaction" where
  "transaction_apply m t = and_then (apply_mutation m (ct_config t)) (\<lambda>(changed, c).
     Inr (t\<lparr>ct_config := c, ct_changed := ct_changed t \<or> changed\<rparr>))"

(* remotes_config.rs:903-910 RemotesConfigStore::begin_transaction *)
definition begin_transaction :: "bool \<Rightarrow> config_file \<Rightarrow> config_transaction config_run" where
  "begin_transaction written f = run_then (store_load_or_create written f) (\<lambda>c f.
     (Inr \<lparr>ct_expected_revision = rc_config_revision c, ct_config = c, ct_changed = False\<rparr>, f))"

(* remotes_config.rs:916-938 RemotesConfigStore::commit *)
definition commit_transaction :: "bool \<Rightarrow> config_transaction \<Rightarrow> config_file \<Rightarrow> remotes_config config_run" where
  "commit_transaction written t f =
    run_then (lift_result (and_then (read_config f) (\<lambda>current.
        and_then (ensure_expected_revision (ct_expected_revision t) (rc_config_revision current)) (\<lambda>_.
        and_then (config_validate (ct_config t)) (\<lambda>_. Inr current)))) f) (\<lambda>current f.
      if \<not> ct_changed t then (Inr current, f)
      else if rc_config_revision (ct_config t) \<le> ct_expected_revision t then (Inl RevisionNotAdvanced, f)
      else publish written (ct_config t) (ct_config t) f)"

(* remotes_config.rs:944-961 RemotesConfigStore::update *)
definition store_update ::
  "bool \<Rightarrow> bool \<Rightarrow> u64 \<Rightarrow> config_mutation \<Rightarrow> config_file \<Rightarrow> remotes_config config_run" where
  "store_update created written expected m f =
    run_then (load_or_create_locked created f) (\<lambda>current f.
    run_then (lift_result (and_then (ensure_expected_revision expected (rc_config_revision current))
      (\<lambda>_. apply_mutation m current)) f) (\<lambda>(changed, c) f.
      if changed then publish written c c f else (Inr c, f)))"

text \<open>\<open>precommit\<close> is the caller's side effect, given the old and the new document.\<close>

(* remotes_config.rs:973-1003 RemotesConfigStore::update_after_precommit *)
definition update_after_precommit ::
  "bool \<Rightarrow> bool \<Rightarrow> u64 \<Rightarrow> config_mutation
    \<Rightarrow> (remotes_config \<Rightarrow> remotes_config \<Rightarrow> config_error + 'r) \<Rightarrow> config_file \<Rightarrow> (remotes_config \<times> 'r) config_run" where
  "update_after_precommit created written expected m precommit f =
    run_then (load_or_create_locked created f) (\<lambda>previous f.
    run_then (lift_result (and_then (ensure_expected_revision expected (rc_config_revision previous)) (\<lambda>_.
      and_then (apply_mutation m previous) (\<lambda>(changed, c).
      and_then (precommit previous c) (\<lambda>r. Inr (changed, c, r))))) f) (\<lambda>(changed, c, r) f.
      if changed then publish written c (c, r) f else (Inr (c, r), f)))"

(* remotes_config.rs:1062-1095 RemotesConfigStore::save_probe_if_current_checked *)
definition save_probe_if_current ::
  "bool \<Rightarrow> bool \<Rightarrow> u64 \<Rightarrow> host_config \<Rightarrow> string \<Rightarrow> source_generation option \<Rightarrow> (config_error + unit)
    \<Rightarrow> config_file \<Rightarrow> remotes_config config_run" where
  "save_probe_if_current created written expected host agent src precondition f =
    run_then (load_or_create_locked created f) (\<lambda>current f.
    run_then (lift_result (and_then (ensure_expected_revision expected (rc_config_revision current)) (\<lambda>_.
      and_then (ensure_expected_host current host) (\<lambda>_.
      and_then precondition (\<lambda>_.
      and_then (apply_mutation (EditHost (hc_id host) \<lparr>ed_ssh_host = None, ed_agent_executable = Some agent,
        ed_redact_content = None\<rparr>) current) (\<lambda>(edited, c). case src of
          None \<Rightarrow> Inr (edited, c)
        | Some source \<Rightarrow> and_then (apply_mutation (PairPin (hc_id host) source) c) (\<lambda>(paired, c).
            Inr (edited \<or> paired, c))))))) f) (\<lambda>(changed, c) f.
      if changed then publish written c c f else (Inr c, f)))"

section \<open>Location\<close>

(* remotes_config.rs:1327-1331 Platform *)
datatype platform = MacOs | Windows | Unix

(* remotes_config.rs:1368-1370 nonempty_path *)
definition nonempty_path :: "string option \<Rightarrow> string option" where
  "nonempty_path p = (case p of Some [] \<Rightarrow> None | _ \<Rightarrow> p)"

text \<open>\<open>join\<close> is \<open>Path::join\<close> of the platform.\<close>

(* remotes_config.rs:1343-1366 resolve_remotes_config_path *)
definition resolve_remotes_config_path ::
  "(string \<Rightarrow> string \<Rightarrow> string) \<Rightarrow> string option \<Rightarrow> string option \<Rightarrow> string option \<Rightarrow> string option \<Rightarrow> string option
    \<Rightarrow> platform \<Rightarrow> string option" where
  "resolve_remotes_config_path join override_directory xdg home local_app_data user_profile platform =
    (case nonempty_path override_directory of
       Some d \<Rightarrow> Some (join d ''remotes.json'')
     | None \<Rightarrow> (case nonempty_path xdg of
         Some d \<Rightarrow> Some (join (join d ''codex-usage-monit'') ''remotes.json'')
       | None \<Rightarrow> map_option (\<lambda>d. join (join d ''codex-usage-monit'') ''remotes.json'') (case platform of
           MacOs \<Rightarrow> map_option (\<lambda>h. join h ''Library/Application Support'') (nonempty_path home)
         | Windows \<Rightarrow> (case nonempty_path local_app_data of
             Some d \<Rightarrow> Some d
           | None \<Rightarrow> map_option (\<lambda>p. join (join p ''AppData'') ''Local'') (nonempty_path user_profile))
         | Unix \<Rightarrow> map_option (\<lambda>h. join h ''.config'') (nonempty_path home))))"

end
