(* ===== verification/Remotes_Safety.thy ===== *)
theory Remotes_Safety
  imports Remotes_Config
begin

text \<open>
  Correctness of the remote-host allowlist: what \<open>validate\<close> accepts, the mutations that must
  never fail, the exact effect of pairing, the fail-closed authorization of automatic
  hosts over every history of mutations, and the store as a compare-and-swap register whose
  revision only grows.
\<close>

section \<open>Specification\<close>

definition host_nodes :: "host_config \<Rightarrow> node_id list" where
  "host_nodes h = (case hc_expected_source h of Some s \<Rightarrow> [sg_node_id s] | None \<Rightarrow> [])
     @ (case hc_previous_source h of Some s \<Rightarrow> [sg_node_id s] | None \<Rightarrow> [])"

definition valid_host :: "host_config \<Rightarrow> bool" where
  "valid_host h = (validate_remote_host_input (hc_id h) (hc_ssh_host h) (hc_agent_executable h) = Inr ()
     \<and> (hc_expected_source h = None \<or> hc_previous_source h = None)
     \<and> (hc_sync_enabled h \<longrightarrow> hc_expected_source h \<noteq> None))"

definition valid_hosts :: "host_config list \<Rightarrow> bool" where
  "valid_hosts hs = (list_all valid_host hs \<and> distinct (List.map hc_id hs)
     \<and> distinct (concat (List.map host_nodes hs)))"

definition reference_ok :: "host_config list \<Rightarrow> reference_state \<Rightarrow> bool" where
  "reference_ok hs s = (set (rf_host_ids s) = hc_id ` set hs
     \<and> set (rf_node_ids s) = set (concat (List.map host_nodes hs))
     \<and> (\<forall>x\<in>set (rf_sources s). sg_node_id x \<in> set (rf_node_ids s)))"

definition unpaired :: "host_config \<Rightarrow> host_config" where
  "unpaired h = h\<lparr>hc_expected_source := None,
     hc_previous_source := (case hc_expected_source h of Some s \<Rightarrow> Some s | None \<Rightarrow> hc_previous_source h),
     hc_sync_enabled := False\<rparr>"

text \<open>A mutation of one host in place.\<close>

definition host_operation :: "(host_config \<Rightarrow> bool) \<Rightarrow> (host_config \<Rightarrow> host_config) \<Rightarrow> string \<Rightarrow> config_operation" where
  "host_operation changes f hid c =
    and_then (host_or_error c hid) (\<lambda>h. Inr (changes h, set_host hid f c))"

definition released :: "node_id \<Rightarrow> host_config \<Rightarrow> host_config" where
  "released n h = (if references (hc_previous_source h) n then h\<lparr>hc_previous_source := None\<rparr> else h)"

definition pinned :: "source_generation \<Rightarrow> host_config \<Rightarrow> host_config" where
  "pinned src h = h\<lparr>hc_previous_source := None, hc_expected_source := Some src\<rparr>"

definition run_mutation :: "config_mutation \<Rightarrow> remotes_config \<Rightarrow> remotes_config" where
  "run_mutation m c = (case apply_mutation m c of Inr (_, c') \<Rightarrow> c' | Inl _ \<Rightarrow> c)"

definition authorized :: "config_mutation list \<Rightarrow> remotes_config \<Rightarrow> bool" where
  "authorized ms c = ((rc_auto_sync_enabled c \<longrightarrow> SetAutoSyncEnabled True \<in> set ms)
     \<and> (\<forall>h\<in>set (rc_hosts c). (hc_sync_enabled h \<longrightarrow> EnableHost (hc_id h) \<in> set ms)
         \<and> (\<forall>s. hc_expected_source h = Some s \<longrightarrow> PairPin (hc_id h) s \<in> set ms)))"

text \<open>What a host can be after one mutation.\<close>

definition comes_from :: "config_mutation \<Rightarrow> remotes_config \<Rightarrow> host_config \<Rightarrow> bool" where
  "comes_from m c h' = ((hc_sync_enabled h' \<longrightarrow> m = EnableHost (hc_id h')
       \<or> (\<exists>h\<in>set (rc_hosts c). hc_id h = hc_id h' \<and> hc_sync_enabled h))
     \<and> (\<forall>s. hc_expected_source h' = Some s \<longrightarrow> m = PairPin (hc_id h') s
       \<or> (\<exists>h\<in>set (rc_hosts c). hc_id h = hc_id h' \<and> hc_expected_source h = Some s)))"

definition weakens :: "(host_config \<Rightarrow> host_config) \<Rightarrow> bool" where
  "weakens f = (\<forall>h. hc_id (f h) = hc_id h \<and> (hc_sync_enabled (f h) \<longrightarrow> hc_sync_enabled h)
     \<and> (\<forall>s. hc_expected_source (f h) = Some s \<longrightarrow> hc_expected_source h = Some s))"

definition keeps_revision :: "config_operation \<Rightarrow> bool" where
  "keeps_revision operation = (\<forall>c changed d. operation c = Inr (changed, d) \<longrightarrow> rc_config_revision d = rc_config_revision c)"


text \<open>How one call changes a file that holds a configuration.\<close>

definition advances :: "config_file \<Rightarrow> config_file \<Rightarrow> bool" where
  "advances f f' = (f' = f \<or> (\<forall>c. read_config f = Inr c
     \<longrightarrow> (\<exists>c'. read_config f' = Inr c' \<and> rc_config_revision c < rc_config_revision c')))"

definition apply_all :: "config_mutation list \<Rightarrow> remotes_config \<Rightarrow> config_error + remotes_config" where
  "apply_all = fold_ok (\<lambda>m c. and_then (apply_mutation m c) (\<lambda>(_, c'). Inr c'))"

definition transaction_ok :: "remotes_config \<Rightarrow> config_transaction \<Rightarrow> bool" where
  "transaction_ok c t = (ct_expected_revision t = rc_config_revision c \<and> config_validate (ct_config t) = Inr ()
     \<and> (if ct_changed t then rc_config_revision c < rc_config_revision (ct_config t) else ct_config t = c))"

definition sample_host :: host_config where
  "sample_host = \<lparr>hc_id = ''lab'', hc_ssh_host = ''lab'', hc_agent_executable = ''codex-usage-monit'',
     hc_sync_enabled = False, hc_redact_content = True, hc_expected_source = None, hc_previous_source = None\<rparr>"

definition sample_remotes :: remotes_config where
  "sample_remotes = remotes_config_default\<lparr>rc_config_revision := 1, rc_hosts := [sample_host]\<rparr>"

definition sample_source :: source_generation where
  "sample_source = \<lparr>sg_node_id = ''node-1'', sg_generation = 9\<rparr>"

definition sample_file :: config_file where
  "sample_file = snd (load_or_create_locked True NoFile)"

definition sample_transaction :: config_transaction where
  "sample_transaction = \<lparr>ct_expected_revision = 0, ct_config = remotes_config_default, ct_changed = False\<rparr>"

lemma claim_source_Inr:
  assumes "\<forall>x\<in>set (rf_sources s). sg_node_id x \<in> set (rf_node_ids s)"
  shows "claim_source src s = Inr s' \<longleftrightarrow> sg_node_id src \<notin> set (rf_node_ids s)
    \<and> s' = s\<lparr>rf_node_ids := sg_node_id src # rf_node_ids s, rf_sources := rf_sources s @ [src]\<rparr>"
  using assms by (auto simp: claim_source_def result_simps)

lemma validate_host_Inr:
  assumes ok: "reference_ok hs s"
  shows "(\<exists>s'. validate_host h s = Inr s') \<longleftrightarrow> valid_host h \<and> hc_id h \<notin> hc_id ` set hs
      \<and> distinct (host_nodes h) \<and> set (host_nodes h) \<inter> set (concat (List.map host_nodes hs)) = {}"
    and "validate_host h s = Inr s' \<Longrightarrow> reference_ok (hs @ [h]) s'"
proof -
  have sub: "\<forall>x\<in>set (rf_sources s). sg_node_id x \<in> set (rf_node_ids s)"
    and nodes: "set (rf_node_ids s) = set (concat (List.map host_nodes hs))"
    and ids: "set (rf_host_ids s) = hc_id ` set hs"
    using ok by (auto simp: reference_ok_def)
  let ?s = "s\<lparr>rf_host_ids := hc_id h # rf_host_ids s\<rparr>"
  have claim: "claim_source src ?s = Inr s'' \<longleftrightarrow> sg_node_id src \<notin> set (concat (List.map host_nodes hs))
      \<and> s'' = ?s\<lparr>rf_node_ids := sg_node_id src # rf_node_ids s, rf_sources := rf_sources s @ [src]\<rparr>" for src s''
    using claim_source_Inr [of ?s src s''] sub nodes by simp
  show "(\<exists>s'. validate_host h s = Inr s') \<longleftrightarrow> valid_host h \<and> hc_id h \<notin> hc_id ` set hs
      \<and> distinct (host_nodes h) \<and> set (host_nodes h) \<inter> set (concat (List.map host_nodes hs)) = {}"
    by (cases "hc_expected_source h"; cases "hc_previous_source h")
      (auto simp: validate_host_def result_simps Let_def valid_host_def host_nodes_def [of h] ids claim)
  show "reference_ok (hs @ [h]) s'" if "validate_host h s = Inr s'"
    using that sub
    by (cases "hc_expected_source h"; cases "hc_previous_source h")
      (auto simp: validate_host_def result_simps Let_def reference_ok_def host_nodes_def [of h] ids nodes claim
        split: if_splits)
qed

lemma valid_hosts_snoc:
  "valid_hosts (hs @ [h]) \<longleftrightarrow> valid_hosts hs \<and> valid_host h \<and> hc_id h \<notin> hc_id ` set hs
    \<and> distinct (host_nodes h) \<and> set (host_nodes h) \<inter> set (concat (List.map host_nodes hs)) = {}"
  by (auto simp: valid_hosts_def)

lemma validate_hosts_fold:
  "case fold_ok validate_host hs \<lparr>rf_host_ids = [], rf_node_ids = [], rf_sources = []\<rparr> of
     Inl _ \<Rightarrow> \<not> valid_hosts hs | Inr s \<Rightarrow> valid_hosts hs \<and> reference_ok hs s"
proof (induction hs rule: rev_induct)
  case Nil
  show ?case by (simp add: valid_hosts_def reference_ok_def)
next
  case (snoc h hs)
  show ?case
  proof (cases "fold_ok validate_host hs \<lparr>rf_host_ids = [], rf_node_ids = [], rf_sources = []\<rparr>")
    case (Inl e)
    with snoc show ?thesis by (simp add: fold_ok_append valid_hosts_snoc)
  next
    case (Inr s)
    with snoc have s: "valid_hosts hs" "reference_ok hs s" by auto
    show ?thesis
    proof (cases "validate_host h s")
      case (Inl e)
      then have "\<not> valid_hosts (hs @ [h])"
        using validate_host_Inr(1) [OF s(2), of h] s(1) unfolding valid_hosts_snoc by auto
      with Inl show ?thesis by (simp add: fold_ok_append Inr)
    next
      case next_state: (Inr s')
      then have "valid_hosts (hs @ [h])"
        using validate_host_Inr(1) [OF s(2), of h] s(1) unfolding valid_hosts_snoc by blast
      with next_state validate_host_Inr(2) [OF s(2) next_state] show ?thesis by (simp add: fold_ok_append Inr)
    qed
  qed
qed

lemma config_validate_iff:
  "config_validate c = Inr u \<longleftrightarrow> rc_version c = 1
    \<and> validate_intervals (rc_active_interval_seconds c) (rc_idle_interval_seconds c) = Inr ()
    \<and> length (rc_hosts c) \<le> MAX_HOSTS \<and> valid_hosts (rc_hosts c)"
  using validate_hosts_fold [of "rc_hosts c"]
  by (auto simp: config_validate_def result_simps split: sum.splits)

section \<open>Lookups and updates\<close>

lemma config_host_Some:
  "config_host c hid = Some h \<Longrightarrow> h \<in> set (rc_hosts c) \<and> hc_id h = hid"
  by (auto simp: config_host_def find_Some_iff)

lemma config_host_None: "config_host c hid = None \<longleftrightarrow> hid \<notin> hc_id ` set (rc_hosts c)"
  by (auto simp: config_host_def find_None_iff)

lemma find_update_host:
  assumes "\<And>h. hc_id (f h) = hc_id h"
  shows "List.find (\<lambda>h. hc_id h = k) (update_host hid f hs)
    = (if k = hid then map_option f (List.find (\<lambda>h. hc_id h = k) hs) else List.find (\<lambda>h. hc_id h = k) hs)"
  using assms by (induction hs) auto

lemma update_host_map:
  assumes "distinct (List.map hc_id hs)"
  shows "update_host hid f hs = List.map (\<lambda>h. if hc_id h = hid then f h else h) hs"
  using assms
proof (induction hs)
  case (Cons h hs)
  have "List.map (\<lambda>h. if hc_id h = hid then f h else h) hs = hs" if "hid \<notin> hc_id ` set hs"
    using that by (intro map_idI) auto
  with Cons show ?case by auto
qed simp

lemma distinct_append_sub:
  "distinct a \<Longrightarrow> set a \<subseteq> set b \<Longrightarrow> distinct n \<Longrightarrow> set n \<inter> set b = {} \<Longrightarrow> m = n \<or> m = []
    \<Longrightarrow> distinct (m @ a) \<and> set (m @ a) \<subseteq> set (n @ b)"
  by auto

text \<open>Hosts changed one by one, without new node references, stay valid.\<close>

lemma valid_hosts_map:
  assumes "valid_hosts hs" "\<And>h. h \<in> set hs \<Longrightarrow> hc_id (f h) = hc_id h"
    and "\<And>h. h \<in> set hs \<Longrightarrow> valid_host (f h)"
    and "\<And>h. h \<in> set hs \<Longrightarrow> host_nodes (f h) = host_nodes h \<or> host_nodes (f h) = []"
  shows "valid_hosts (List.map f hs)"
proof -
  have "List.map hc_id (List.map f hs) = List.map hc_id hs" using assms(2) by simp
  then have "distinct (List.map hc_id (List.map f hs))" using assms(1) unfolding valid_hosts_def by metis
  moreover have "distinct (concat (List.map (host_nodes \<circ> f) hs))
      \<and> set (concat (List.map (host_nodes \<circ> f) hs)) \<subseteq> set (concat (List.map host_nodes hs))"
    if "distinct (concat (List.map host_nodes hs))"
    using that assms(4)
  proof (induction hs)
    case (Cons h hs)
    have "distinct (host_nodes h)" "set (host_nodes h) \<inter> set (concat (List.map host_nodes hs)) = {}"
      "distinct (concat (List.map host_nodes hs))"
      using Cons.prems(1) by simp_all
    with Cons distinct_append_sub [of "concat (List.map (host_nodes \<circ> f) hs)" "concat (List.map host_nodes hs)"
        "host_nodes h" "host_nodes (f h)"]
    show ?case by (simp add: comp_def)
  qed simp
  ultimately show ?thesis using assms(1,3) by (simp add: valid_hosts_def list_all_iff comp_def)
qed

lemma config_mutate_Inr:
  "config_mutate operation c = Inr (changed, c') \<longleftrightarrow> config_validate c = Inr ()
    \<and> (\<exists>d. operation c = Inr (changed, d)
        \<and> (if changed then \<exists>r. checked_add (rc_config_revision d) 1 = Some r \<and> c' = d\<lparr>rc_config_revision := r\<rparr>
             \<and> config_validate c' = Inr () else c' = c))"
  by (cases changed) (auto simp: config_mutate_def result_simps Let_def split: if_splits)

text \<open>Every mutation is one guarded operation on the candidate.\<close>

lemmas mutation_defs = add_host_def edit_host_def pair_pin_def unpair_host_def enable_host_def
  disable_host_def remove_host_def set_auto_sync_enabled_def set_intervals_def

lemma config_validate_revision [simp]:
  "config_validate (c\<lparr>rc_config_revision := r\<rparr>) = config_validate c"
  by (simp add: config_validate_def)

lemma config_host_revision [simp]: "config_host (c\<lparr>rc_config_revision := r\<rparr>) = config_host c"
  by (rule ext) (simp add: config_host_def)

lemma update_host_length [simp]: "length (update_host hid f hs) = length hs"
  by (induction hs) auto

lemma config_host_set_host:
  "(\<And>h. hc_id (f h) = hc_id h) \<Longrightarrow> config_host (set_host hid f c) k
    = (if k = hid then map_option f (config_host c k) else config_host c k)"
  by (simp add: config_host_def set_host_def find_update_host)

lemma valid_host_fields:
  assumes "valid_host h" "hc_id h' = hc_id h" "hc_ssh_host h' = hc_ssh_host h"
    "hc_agent_executable h' = hc_agent_executable h"
    "hc_expected_source h' = None \<or> hc_previous_source h' = None"
    "hc_sync_enabled h' \<longrightarrow> hc_expected_source h' \<noteq> None"
  shows "valid_host h'"
  using assms by (simp add: valid_host_def)

lemma valid_set_host:
  assumes "config_validate c = Inr ()" "\<And>h. hc_id (f h) = hc_id h"
    and "\<And>h. valid_host h \<Longrightarrow> hc_id h = hid \<Longrightarrow> h \<in> set (rc_hosts c) \<Longrightarrow> valid_host (f h)
      \<and> (host_nodes (f h) = host_nodes h \<or> host_nodes (f h) = [])"
  shows "config_validate (set_host hid f c) = Inr ()"
proof -
  have v: "valid_hosts (rc_hosts c)" using assms(1) by (simp add: config_validate_iff)
  have "valid_hosts (List.map (\<lambda>h. if hc_id h = hid then f h else h) (rc_hosts c))"
    by (rule valid_hosts_map [OF v]) (use assms(2,3) v in \<open>auto simp: valid_hosts_def list_all_iff\<close>)
  then show ?thesis
    using assms(1) v by (simp add: config_validate_iff set_host_def update_host_map valid_hosts_def)
qed

lemma revision_succ: "unat r + 1 < 2 ^ 64 \<Longrightarrow> checked_add r 1 = Some (r + 1)" for r :: u64
  by (simp add: checked_add_def)

lemma config_mutate_total:
  assumes "config_validate c = Inr ()" "operation c = Inr (changed, d)"
    and "changed \<Longrightarrow> config_validate d = Inr ()" "rc_config_revision d = rc_config_revision c"
    and "unat (rc_config_revision c) + 1 < 2 ^ 64"
  shows "config_mutate operation c = Inr (changed, if changed then d\<lparr>rc_config_revision := rc_config_revision c + 1\<rparr> else c)"
  using assms by (cases changed) (simp_all add: config_mutate_def revision_succ Let_def)

lemma unpaired_valid: "valid_host h \<Longrightarrow> valid_host (unpaired h) \<and> host_nodes (unpaired h) = host_nodes h"
  by (auto simp: valid_host_def unpaired_def host_nodes_def split: option.splits)

lemma host_or_error_Some: "config_host c hid = Some h \<Longrightarrow> host_or_error c hid = Inr h"
  by (simp add: host_or_error_def)

lemma set_host_revision: "rc_config_revision (set_host hid f c) = rc_config_revision c"
  by (simp add: set_host_def)

lemma update_host_idem: "(\<And>h. h \<in> set hs \<Longrightarrow> hc_id h = hid \<Longrightarrow> f h = h) \<Longrightarrow> update_host hid f hs = hs"
  by (induction hs) auto

lemma remove_first_host_filter:
  "distinct (List.map hc_id hs) \<Longrightarrow> remove_first_host hid hs = filter (\<lambda>h. hc_id h \<noteq> hid) hs"
proof (induction hs)
  case (Cons h hs)
  have "filter (\<lambda>h. hc_id h \<noteq> hid) hs = hs" if "hid \<notin> hc_id ` set hs"
    using that by (auto intro!: filter_True)
  with Cons show ?case by auto
qed simp

lemma valid_hosts_filter: "valid_hosts hs \<Longrightarrow> valid_hosts (filter P hs)"
proof -
  assume v: "valid_hosts hs"
  have "distinct (concat (List.map host_nodes (filter P hs)))"
    using v by (induction hs) (auto simp: valid_hosts_def)
  with v show ?thesis by (auto simp: valid_hosts_def list_all_iff distinct_map_filter)
qed

lemma host_operation_total:
  assumes valid: "config_validate c = Inr ()" and host: "config_host c hid = Some h"
    and revision: "unat (rc_config_revision c) + 1 < 2 ^ 64"
    and f: "\<And>h. hc_id (f h) = hc_id h"
      "\<And>h. valid_host h \<Longrightarrow> valid_host (f h) \<and> (host_nodes (f h) = host_nodes h \<or> host_nodes (f h) = [])"
      "\<not> changes h \<Longrightarrow> f h = h"
  shows "\<exists>c'. config_mutate (host_operation changes f hid) c = Inr (changes h, c')
    \<and> config_validate c' = Inr () \<and> config_host c' = (config_host c)(hid \<mapsto> f h)"
proof -
  have d: "config_validate (set_host hid f c) = Inr ()"
    by (rule valid_set_host [OF valid f(1)]) (use f(2) in simp)
  have look: "config_host (set_host hid f c) = (config_host c)(hid \<mapsto> f h)"
    using host by (auto simp: config_host_set_host [OF f(1)])
  have same: "config_host c = (config_host c)(hid \<mapsto> f h)" if "\<not> changes h"
    using f(3) [OF that] host by (auto simp: fun_eq_iff)
  have op: "host_operation changes f hid c = Inr (changes h, set_host hid f c)"
    by (simp add: host_operation_def host_or_error_Some [OF host])
  show ?thesis
    using config_mutate_total [where operation = "host_operation changes f hid" and d = "set_host hid f c",
        OF valid op d set_host_revision revision] d look same valid
    by (cases "changes h") simp_all
qed

lemma host_mutations:
  "unpair_host hid = config_mutate (host_operation (\<lambda>h. hc_expected_source h \<noteq> None \<or> hc_sync_enabled h) unpaired hid)"
  "disable_host hid = config_mutate (host_operation hc_sync_enabled (\<lambda>h. h\<lparr>hc_sync_enabled := False\<rparr>) hid)"
  by (simp_all add: unpair_host_def disable_host_def host_operation_def [abs_def] unpaired_def [abs_def])

lemma disabled_valid:
  "valid_host h \<Longrightarrow> valid_host (h\<lparr>hc_sync_enabled := False\<rparr>) \<and> host_nodes (h\<lparr>hc_sync_enabled := False\<rparr>) = host_nodes h"
  by (simp add: valid_host_def host_nodes_def)

lemma remove_host_total:
  assumes valid: "config_validate c = Inr ()" and host: "config_host c hid = Some h"
    and revision: "unat (rc_config_revision c) + 1 < 2 ^ 64"
  shows "\<exists>c'. remove_host hid c = Inr (True, c') \<and> config_validate c' = Inr ()
    \<and> config_host c' = (config_host c)(hid := None)"
proof -
  have dist: "distinct (List.map hc_id (rc_hosts c))" using valid by (simp add: config_validate_iff valid_hosts_def)
  let ?d = "c\<lparr>rc_hosts := filter (\<lambda>h. hc_id h \<noteq> hid) (rc_hosts c)\<rparr>"
  have d: "config_validate ?d = Inr ()"
    using valid by (auto simp: config_validate_iff valid_hosts_filter intro: order_trans [OF length_filter_le])
  have "List.find (\<lambda>h. hc_id h = k) (filter (\<lambda>h. hc_id h \<noteq> hid) hs)
      = (if k = hid then None else List.find (\<lambda>h. hc_id h = k) hs)" for k and hs :: "host_config list"
    by (induction hs) auto
  then have look: "config_host ?d = (config_host c)(hid := None)"
    by (auto simp: config_host_def fun_eq_iff)
  show ?thesis
    using config_mutate_total [OF valid _ d _ revision, of "\<lambda>c. and_then (host_or_error c hid)
        (\<lambda>_. Inr (True, c\<lparr>rc_hosts := remove_first_host hid (rc_hosts c)\<rparr>))" True] d look
    by (simp add: remove_host_def host_or_error_Some [OF host] remove_first_host_filter [OF dist])
qed

text \<open>
  The fail-closed mutations never fail: on a valid configuration below the last
  revision, unpairing, disabling and removing a configured host and switching the global
  automation off succeed with a valid configuration.  Afterwards the host is unpaired and
  disabled with its source kept for the later removal, disabled, or gone, the other hosts
  are as before, and with the switch off no host is automatic.
\<close>

theorem fail_closed_mutations_succeed:
  assumes valid: "config_validate c = Inr ()" and host: "config_host c hid = Some h"
    and revision: "unat (rc_config_revision c) + 1 < 2 ^ 64"
  shows "(\<exists>changed c'. apply_mutation (UnpairHost hid) c = Inr (changed, c') \<and> config_validate c' = Inr ()
      \<and> config_host c' = (config_host c)(hid \<mapsto> unpaired h))
    \<and> (\<exists>changed c'. apply_mutation (DisableHost hid) c = Inr (changed, c') \<and> config_validate c' = Inr ()
      \<and> config_host c' = (config_host c)(hid \<mapsto> h\<lparr>hc_sync_enabled := False\<rparr>))
    \<and> (\<exists>c'. apply_mutation (RemoveHost hid) c = Inr (True, c') \<and> config_validate c' = Inr ()
      \<and> config_host c' = (config_host c)(hid := None))
    \<and> (\<exists>changed c'. apply_mutation (SetAutoSyncEnabled False) c = Inr (changed, c') \<and> config_validate c' = Inr ()
      \<and> config_host c' = config_host c \<and> automatic_hosts c' = [])"
proof (intro conjI)
  note total = host_operation_total [OF valid host revision]
  show "\<exists>changed c'. apply_mutation (UnpairHost hid) c = Inr (changed, c') \<and> config_validate c' = Inr ()
      \<and> config_host c' = (config_host c)(hid \<mapsto> unpaired h)"
    using total [of unpaired "\<lambda>h. hc_expected_source h \<noteq> None \<or> hc_sync_enabled h"] unpaired_valid
    by (auto simp: host_mutations unpaired_def)
  show "\<exists>changed c'. apply_mutation (DisableHost hid) c = Inr (changed, c') \<and> config_validate c' = Inr ()
      \<and> config_host c' = (config_host c)(hid \<mapsto> h\<lparr>hc_sync_enabled := False\<rparr>)"
    using total [of "\<lambda>h. h\<lparr>hc_sync_enabled := False\<rparr>" hc_sync_enabled] disabled_valid
    by (auto simp: host_mutations)
  show "\<exists>c'. apply_mutation (RemoveHost hid) c = Inr (True, c') \<and> config_validate c' = Inr ()
      \<and> config_host c' = (config_host c)(hid := None)"
    using remove_host_total [OF valid host revision] by simp
  have "config_validate (c\<lparr>rc_auto_sync_enabled := False\<rparr>) = Inr ()" using valid by (simp add: config_validate_iff)
  moreover have "config_host (c\<lparr>rc_auto_sync_enabled := False\<rparr>) = config_host c"
    by (rule ext) (simp add: config_host_def)
  ultimately show "\<exists>changed c'. apply_mutation (SetAutoSyncEnabled False) c = Inr (changed, c')
      \<and> config_validate c' = Inr () \<and> config_host c' = config_host c \<and> automatic_hosts c' = []"
    using valid revision_succ [OF revision]
    by (auto simp: set_auto_sync_enabled_def config_mutate_def automatic_hosts_def Let_def)
qed

section \<open>Pairing\<close>

lemma released_simps [simp]:
  "hc_id (released n h) = hc_id h" "hc_expected_source (released n h) = hc_expected_source h"
  "hc_id (pinned src h) = hc_id h" "hc_sync_enabled (released n h) = hc_sync_enabled h"
  by (simp_all add: released_def pinned_def)

lemma released_valid:
  "valid_host h \<Longrightarrow> valid_host (released n h) \<and> (host_nodes (released n h) = host_nodes h \<or> host_nodes (released n h) = [])"
  by (auto simp: valid_host_def released_def host_nodes_def references_def split: option.splits)

lemma valid_hosts_pin:
  assumes v: "valid_hosts hs" and h: "h \<in> set hs" "hc_id h = hid" "hc_expected_source h = None"
    and fresh: "sg_node_id src \<notin> set (concat (List.map host_nodes hs))"
  shows "valid_hosts (update_host hid (pinned src) hs)"
proof -
  obtain as bs where hs: "hs = as @ h # bs" using h(1) by (meson split_list)
  have ids: "hid \<notin> hc_id ` set as" using v h(2) by (auto simp: hs valid_hosts_def)
  have "update_host hid (pinned src) (xs @ h # bs) = xs @ pinned src h # bs" if "hid \<notin> hc_id ` set xs" for xs
    using that h(2) by (induction xs) auto
  then have eq: "update_host hid (pinned src) hs = as @ pinned src h # bs" using ids by (simp add: hs)
  have nodes: "host_nodes (pinned src h) = [sg_node_id src]" by (simp add: host_nodes_def pinned_def)
  have "valid_host (pinned src h)" using v h by (auto simp: hs valid_hosts_def valid_host_def pinned_def)
  with v fresh show ?thesis unfolding eq by (auto simp: hs valid_hosts_def nodes)
qed

lemma find_map_same_id:
  "(\<And>h. hc_id (f h) = hc_id h) \<Longrightarrow> List.find (\<lambda>h. hc_id h = k) (List.map f hs)
    = map_option f (List.find (\<lambda>h. hc_id h = k) hs)"
  by (induction hs) auto

lemma pair_pin_eq:
  "pair_pin hid src = config_mutate (\<lambda>c. and_then (host_or_error c hid) (\<lambda>h. case hc_expected_source h of
      Some current \<Rightarrow> if current = src then Inr (False, c) else Inl PairedWithOther
    | None \<Rightarrow> if list_ex (\<lambda>h. hc_id h \<noteq> hid \<and> references (hc_expected_source h) (sg_node_id src)) (rc_hosts c)
        then Inl NodePairedElsewhere
        else Inr (True, set_host hid (pinned src) (c\<lparr>rc_hosts := List.map (released (sg_node_id src)) (rc_hosts c)\<rparr>))))"
  unfolding pair_pin_def pinned_def [abs_def] released_def [abs_def] ..

lemma pair_candidate_valid:
  assumes valid: "config_validate c = Inr ()" and host: "config_host c hid = Some h" "hc_expected_source h = None"
    and free: "\<not> list_ex (\<lambda>h. hc_id h \<noteq> hid \<and> references (hc_expected_source h) (sg_node_id src)) (rc_hosts c)"
  shows "config_validate (set_host hid (pinned src) (c\<lparr>rc_hosts := List.map (released (sg_node_id src)) (rc_hosts c)\<rparr>)) = Inr ()"
proof -
  let ?n = "sg_node_id src"
  let ?hs = "List.map (released ?n) (rc_hosts c)"
  have v: "valid_hosts (rc_hosts c)" using valid by (simp add: config_validate_iff)
  have v': "valid_hosts ?hs"
    by (rule valid_hosts_map [OF v]) (use v released_valid in \<open>auto simp: valid_hosts_def list_all_iff\<close>)
  have h: "h \<in> set (rc_hosts c)" "hc_id h = hid" using config_host_Some [OF host(1)] by auto
  have "?n \<notin> set (host_nodes (released ?n x))" if x: "x \<in> set (rc_hosts c)" for x
  proof -
    have "hc_id x = hid \<Longrightarrow> x = h"
      using v x h by (auto simp: valid_hosts_def distinct_map dest: inj_onD)
    then have "\<not> references (hc_expected_source x) ?n"
      using free host(2) x by (auto simp: list_ex_iff references_def)
    then show ?thesis by (auto simp: host_nodes_def released_def references_def split: option.splits)
  qed
  then have "valid_hosts (update_host hid (pinned src) ?hs)"
    using h host(2) by (intro valid_hosts_pin [OF v', of "released ?n h"]) auto
  then show ?thesis using valid by (simp add: config_validate_iff set_host_def)
qed

text \<open>
  Pairing pins exactly one owner: on a valid configuration below the last revision,
  pairing an unpaired host with a source whose node is not actively paired elsewhere
  succeeds with a valid configuration in which that host, with its switches unchanged, is
  pinned to the source, every other host only loses a kept previous source of the same
  node, and no host is enabled by it.
\<close>

theorem pair_pin_exact:
  assumes valid: "config_validate c = Inr ()" and host: "config_host c hid = Some h" "hc_expected_source h = None"
    and free: "\<not> list_ex (\<lambda>h. hc_id h \<noteq> hid \<and> references (hc_expected_source h) (sg_node_id src)) (rc_hosts c)"
    and revision: "unat (rc_config_revision c) + 1 < 2 ^ 64"
  shows "\<exists>c'. apply_mutation (PairPin hid src) c = Inr (True, c') \<and> config_validate c' = Inr ()
    \<and> rc_config_revision c' = rc_config_revision c + 1
    \<and> config_host c' hid = Some (pinned src h)
    \<and> (\<forall>k. k = hid \<or> config_host c' k = map_option (released (sg_node_id src)) (config_host c k))
    \<and> List.map hc_sync_enabled (rc_hosts c') = List.map hc_sync_enabled (rc_hosts c)"
proof -
  let ?n = "sg_node_id src"
  let ?c = "c\<lparr>rc_hosts := List.map (released ?n) (rc_hosts c)\<rparr>"
  let ?d = "set_host hid (pinned src) ?c"
  note d = pair_candidate_valid [OF valid host free]
  have ch: "config_host ?c k = map_option (released ?n) (config_host c k)" for k
    by (simp add: config_host_def find_map_same_id)
  have "pinned src (released ?n h) = pinned src h" by (simp add: pinned_def released_def)
  then have look: "config_host ?d k = (if k = hid then Some (pinned src h) else map_option (released ?n) (config_host c k))" for k
    using host(1) by (simp add: config_host_set_host ch)
  have sync: "List.map hc_sync_enabled (update_host hid (pinned src) hs) = List.map hc_sync_enabled hs" for hs
    by (induction hs) (auto simp: pinned_def)
  let ?op = "\<lambda>c. and_then (host_or_error c hid) (\<lambda>h. case hc_expected_source h of
      Some current \<Rightarrow> if current = src then Inr (False, c) else Inl PairedWithOther
    | None \<Rightarrow> if list_ex (\<lambda>h. hc_id h \<noteq> hid \<and> references (hc_expected_source h) ?n) (rc_hosts c)
        then Inl NodePairedElsewhere
        else Inr (True, set_host hid (pinned src) (c\<lparr>rc_hosts := List.map (released ?n) (rc_hosts c)\<rparr>)))"
  have "?op c = Inr (True, ?d)"
    using free host by (simp add: host_or_error_Some)
  then have "config_mutate ?op c = Inr (True, ?d\<lparr>rc_config_revision := rc_config_revision c + 1\<rparr>)"
    using config_mutate_total [where operation = ?op and d = ?d, OF valid _ d _ revision, of True]
    by (simp add: set_host_def)
  then have "apply_mutation (PairPin hid src) c = Inr (True, ?d\<lparr>rc_config_revision := rc_config_revision c + 1\<rparr>)"
    by (simp only: apply_mutation.simps pair_pin_eq)
  then show ?thesis using d look sync by (simp add: set_host_def comp_def)
qed

section \<open>Histories of mutations\<close>

lemma update_host_in: "h' \<in> set (update_host hid f hs) \<Longrightarrow> h' \<in> set hs \<or> (\<exists>h\<in>set hs. hc_id h = hid \<and> h' = f h)"
  by (induction hs) (auto split: if_splits)

lemma remove_first_host_in: "h \<in> set (remove_first_host hid hs) \<Longrightarrow> h \<in> set hs"
  by (induction hs) (auto split: if_splits)

lemma comes_from_self: "h \<in> set (rc_hosts c) \<Longrightarrow> comes_from m c h"
  by (auto simp: comes_from_def)

lemma comes_from_keep:
  "h \<in> set (rc_hosts c) \<Longrightarrow> hc_id h' = hc_id h \<Longrightarrow> (hc_sync_enabled h' \<Longrightarrow> hc_sync_enabled h)
    \<Longrightarrow> (\<And>s. hc_expected_source h' = Some s \<Longrightarrow> hc_expected_source h = Some s) \<Longrightarrow> comes_from m c h'"
  by (auto simp: comes_from_def)

lemma weakens_updates [intro, simp]:
  "weakens (edit_fields e)" "weakens unpaired" "weakens (\<lambda>h. h\<lparr>hc_sync_enabled := False\<rparr>)"
  by (auto simp: weakens_def edit_fields_def unpaired_def)

lemma comes_from_update:
  "h' \<in> set (update_host hid f (rc_hosts c)) \<Longrightarrow> weakens f \<Longrightarrow> comes_from m c h'"
  by (auto simp: weakens_def dest!: update_host_in intro: comes_from_self comes_from_keep)

lemma pair_comes_from:
  assumes "h' \<in> set (update_host hid (pinned src) (List.map (released (sg_node_id src)) (rc_hosts c)))"
  shows "comes_from (PairPin hid src) c h'"
  using update_host_in [OF assms] by (auto simp: comes_from_def pinned_def)

lemma checked_add_one: "checked_add r 1 = Some r' \<Longrightarrow> unat r' = unat r + 1" for r :: u64
  by (simp add: checked_add_Some_iff)

lemma config_mutate_sound:
  assumes "config_mutate operation c = Inr (changed, c')" "keeps_revision operation"
  shows "config_validate c' = Inr () \<and> (if changed then unat (rc_config_revision c') = unat (rc_config_revision c) + 1
      else c' = c)"
  using assms by (cases changed) (auto simp: config_mutate_Inr keeps_revision_def dest: checked_add_one)

text \<open>Every mutation that changes something advances the revision by one, and its result is valid.\<close>

lemma apply_mutation_sound:
  assumes "apply_mutation m c = Inr (changed, c')"
  shows "config_validate c' = Inr () \<and> (if changed then unat (rc_config_revision c') = unat (rc_config_revision c) + 1
      else c' = c)"
proof -
  have "\<exists>operation. apply_mutation m = config_mutate operation \<and> keeps_revision operation"
    by (induction m) (unfold apply_mutation.simps mutation_defs, (intro exI conjI, rule refl,
        auto simp: keeps_revision_def result_simps set_host_def Let_def split: if_splits option.splits)+)
  with assms config_mutate_sound show ?thesis by metis
qed

lemma apply_mutation_origin:
  assumes "apply_mutation m c = Inr (changed, c')"
  shows "(\<forall>h\<in>set (rc_hosts c'). comes_from m c h)
    \<and> (rc_auto_sync_enabled c' \<longrightarrow> m = SetAutoSyncEnabled True \<or> rc_auto_sync_enabled c)"
proof (cases m)
  case (AddHost a b)
  then show ?thesis using assms
    by (auto simp: add_host_def config_mutate_Inr comes_from_self split: if_splits) (auto simp: comes_from_def)
next
  case (EditHost a e)
  then show ?thesis using assms
    by (auto simp: edit_host_def config_mutate_Inr result_simps comes_from_self Let_def set_host_def
      intro: comes_from_update split: if_splits)
next
  case (PairPin a s)
  then show ?thesis using assms
    by (auto simp: pair_pin_eq config_mutate_Inr result_simps comes_from_self set_host_def pair_comes_from
      split: if_splits option.splits)
next
  case (UnpairHost a)
  then show ?thesis using assms
    by (auto simp: host_mutations host_operation_def config_mutate_Inr result_simps comes_from_self set_host_def
      intro: comes_from_update split: if_splits)
next
  case (EnableHost a)
  then show ?thesis using assms
    by (auto simp: enable_host_def config_mutate_Inr result_simps comes_from_self set_host_def
      dest!: update_host_in split: if_splits) (auto simp: comes_from_def)
next
  case (DisableHost a)
  then show ?thesis using assms
    by (auto simp: host_mutations host_operation_def config_mutate_Inr result_simps comes_from_self set_host_def
      intro: comes_from_update split: if_splits)
next
  case (RemoveHost a)
  then show ?thesis using assms
    by (auto simp: remove_host_def config_mutate_Inr result_simps comes_from_self
      dest!: remove_first_host_in split: if_splits)
next
  case (SetAutoSyncEnabled b)
  then show ?thesis using assms
    by (auto simp: set_auto_sync_enabled_def config_mutate_Inr comes_from_self split: if_splits)
next
  case (SetIntervals a b)
  then show ?thesis using assms
    by (auto simp: set_intervals_def config_mutate_Inr comes_from_self split: if_splits)
qed

lemma authorized_step:
  assumes "authorized ms c"
  shows "authorized (ms @ [m]) (run_mutation m c)"
proof (cases "apply_mutation m c")
  case (Inl e)
  then show ?thesis using assms by (auto simp: run_mutation_def authorized_def)
next
  case (Inr r)
  obtain changed c' where r: "r = (changed, c')" by force
  have "(\<forall>h\<in>set (rc_hosts c'). comes_from m c h)
    \<and> (rc_auto_sync_enabled c' \<longrightarrow> m = SetAutoSyncEnabled True \<or> rc_auto_sync_enabled c)"
    using apply_mutation_origin Inr r by simp
  then show ?thesis using assms Inr r
    by (fastforce simp: run_mutation_def authorized_def comes_from_def)
qed

lemma expected_in_nodes:
  "hc_expected_source h = Some s \<Longrightarrow> h \<in> set hs \<Longrightarrow> sg_node_id s \<in> set (concat (List.map host_nodes hs))"
  by (force simp: host_nodes_def)

lemma distinct_expected:
  assumes "distinct (concat (List.map host_nodes hs))" "\<And>h. P h \<Longrightarrow> hc_expected_source h \<noteq> None"
  shows "distinct (List.map (\<lambda>h. map_option sg_node_id (hc_expected_source h)) (filter P hs))"
  using assms(1)
proof (induction hs)
  case (Cons h hs)
  have False if "P h" "k \<in> set hs" "P k"
    "map_option sg_node_id (hc_expected_source k) = map_option sg_node_id (hc_expected_source h)" for k
  proof -
    note same = that
    obtain s t where s: "hc_expected_source h = Some s" and t: "hc_expected_source k = Some t"
      using assms(2) same by blast
    then have "sg_node_id t \<in> set (host_nodes h)" using same(4) by (auto simp: host_nodes_def)
    with expected_in_nodes [OF t same(2)] Cons.prems show False by auto
  qed
  with Cons show ?case by (auto simp: image_iff) metis
qed simp

text \<open>
  C31. Automatic synchronization is fail-closed: in the configuration that any sequence of
  mutations leaves of the default one, failed mutations included, a host that may be
  synchronized automatically was enabled and was paired with exactly the source it is
  pinned to, and the global switch was turned on, by explicit mutations of the sequence;
  the configuration is valid, and no two such hosts share a node.
\<close>

theorem automatic_hosts_authorized:
  "let c = fold run_mutation ms remotes_config_default in
     config_validate c = Inr ()
     \<and> list_all (\<lambda>h. \<exists>s. hc_expected_source h = Some s \<and> PairPin (hc_id h) s \<in> set ms
         \<and> EnableHost (hc_id h) \<in> set ms \<and> SetAutoSyncEnabled True \<in> set ms) (automatic_hosts c)
     \<and> distinct (List.map (\<lambda>h. map_option sg_node_id (hc_expected_source h)) (automatic_hosts c))"
proof -
  let ?c = "fold run_mutation ms remotes_config_default"
  have auth: "authorized ms ?c"
  proof (induction ms rule: rev_induct)
    case Nil
    show ?case by (simp add: authorized_def remotes_config_default_def)
  qed (simp add: authorized_step)
  have "config_validate remotes_config_default = Inr ()"
    by (simp add: config_validate_def remotes_config_default_def validate_intervals_def MAX_HOSTS_def)
  then have valid: "config_validate ?c = Inr ()"
  proof (induction ms rule: rev_induct)
    case (snoc m ms)
    then show ?case by (auto simp: run_mutation_def apply_mutation_sound split: sum.splits)
  qed simp
  then have "distinct (List.map (\<lambda>h. map_option sg_node_id (hc_expected_source h)) (automatic_hosts ?c))"
    by (auto simp: automatic_hosts_def config_validate_iff valid_hosts_def intro: distinct_expected)
  with auth valid show ?thesis
    by (auto simp: Let_def list_all_iff automatic_hosts_def authorized_def)
qed

section \<open>The store\<close>

lemma host_wire_roundtrip [simp]: "host_of_wire (wire_of_host h) = h"
  by (simp add: host_of_wire_def wire_of_host_def or_default_def)

lemma config_roundtrip: "serialize_config c = Inr w \<longleftrightarrow> config_validate c = Inr () \<and> deserialize_config w = Inr c
    \<and> serialize_config c = Inr w"
  by (auto simp: serialize_config_def deserialize_config_def config_of_wire_def result_simps or_default_def comp_def
     config_validate_iff)

lemma read_config_valid: "read_config f = Inr c \<Longrightarrow> config_validate c = Inr ()"
  by (auto simp: read_config_def deserialize_config_def result_simps split: config_file.splits option.splits)

lemma publish_cases:
  "(\<exists>e. publish written c r f = (Inl e, f))
    \<or> (\<exists>f'. publish written c r f = (Inr r, f') \<and> read_config f' = Inr c)"
  using config_roundtrip [of c] by (auto simp: publish_def read_config_def split: sum.splits)


lemma advances_refl [simp]: "advances f f"
  by (simp add: advances_def)


lemma mutation_advances:
  "apply_mutation m c = Inr (changed, c') \<Longrightarrow> rc_config_revision c \<le> rc_config_revision c'
    \<and> (changed \<longrightarrow> rc_config_revision c < rc_config_revision c')"
  using apply_mutation_sound [of m c changed c'] by (cases changed) (auto simp: word_le_nat_alt word_less_nat_alt)



lemma run_then_simps [simp]: "run_then (Inr x, f) k = k x f" "run_then (Inl e, f) k = (Inl e, f)"
  by (simp_all add: run_then_def)






section \<open>Transactions\<close>

lemma transaction_ok_apply:
  "transaction_ok c t \<Longrightarrow> transaction_apply m t = Inr t' \<Longrightarrow> transaction_ok c t'"
  using mutation_advances [of m "ct_config t"] apply_mutation_sound [of m "ct_config t"]
  by (auto simp: transaction_ok_def transaction_apply_def result_simps split: if_splits dest!: meta_spec)

lemma transaction_fold:
  "fold_ok transaction_apply ms t = Inr t' \<Longrightarrow> transaction_ok c t
    \<Longrightarrow> transaction_ok c t' \<and> apply_all ms (ct_config t) = Inr (ct_config t')"
proof (induction ms arbitrary: t)
  case Nil
  then show ?case by (simp add: apply_all_def)
next
  case (Cons m ms)
  then obtain t1 where t1: "transaction_apply m t = Inr t1" "fold_ok transaction_apply ms t1 = Inr t'"
    by (auto simp: result_simps)
  then have "apply_all (m # ms) (ct_config t) = apply_all ms (ct_config t1)"
    by (auto simp: apply_all_def transaction_apply_def result_simps)
  then show ?case using Cons.IH [OF t1(2)] transaction_ok_apply [OF Cons.prems(2) t1(1)] by simp
qed

lemma load_or_create_ok:
  assumes "load_or_create_locked created f = (Inr c, f')"
  shows "read_config f' = Inr c \<and> (f' = f \<or> read_config f = Inl ConfigMissing \<and> c = remotes_config_default)"
  using assms publish_cases [of created remotes_config_default remotes_config_default f]
  by (auto simp: load_or_create_locked_def split: sum.splits config_error.splits)

lemma begin_transaction_ok:
  assumes "begin_transaction created f = (Inr t, f')"
  shows "\<exists>c. read_config f' = Inr c \<and> transaction_ok c t \<and> ct_config t = c
    \<and> (f' = f \<or> read_config f = Inl ConfigMissing \<and> c = remotes_config_default)"
proof -
  obtain c where l: "load_or_create_locked created f = (Inr c, f')"
    and t: "t = \<lparr>ct_expected_revision = rc_config_revision c, ct_config = c, ct_changed = False\<rparr>"
    using assms by (auto simp: begin_transaction_def run_then_def store_load_or_create_def split: prod.splits sum.splits)
  with load_or_create_ok [OF l] show ?thesis by (auto simp: transaction_ok_def dest: read_config_valid)
qed

lemma commit_transaction_ok:
  assumes "read_config f = Inr c" "transaction_ok c t"
  shows "\<exists>f'. commit_transaction True t f = (Inr (ct_config t), f') \<and> read_config f' = Inr (ct_config t)"
proof (cases "ct_changed t")
  case True
  then obtain w where w: "serialize_config (ct_config t) = Inr w"
    using assms(2) by (auto simp: transaction_ok_def serialize_config_def)
  then have "deserialize_config w = Inr (ct_config t)" using config_roundtrip by blast
  with w True assms show ?thesis
    by (auto simp: commit_transaction_def transaction_ok_def ensure_expected_revision_def lift_result_def
      publish_def read_config_def not_le [symmetric])
next
  case False
  with assms show ?thesis
    by (auto simp: commit_transaction_def transaction_ok_def ensure_expected_revision_def lift_result_def)
qed

text \<open>
  Transactions: a transaction that is begun, collects mutations that all succeed and is
  committed with a successful write before anything else changed the file returns the
  configuration that the mutations make one after the other out of the one that was
  stored, or of the default one when there was no file, and the file then reads back as
  exactly that.
\<close>

theorem transaction_roundtrip:
  assumes "begin_transaction created f = (Inr t, f1)" "fold_ok transaction_apply ms t = Inr t'"
  shows "\<exists>c c' f2. (read_config f = Inr c \<or> read_config f = Inl ConfigMissing \<and> c = remotes_config_default)
    \<and> apply_all ms c = Inr c' \<and> commit_transaction True t' f1 = (Inr c', f2) \<and> read_config f2 = Inr c'
    \<and> config_validate c' = Inr ()"
proof -
  obtain c where c: "read_config f1 = Inr c" "transaction_ok c t" "ct_config t = c"
    and f: "f1 = f \<or> read_config f = Inl ConfigMissing \<and> c = remotes_config_default"
    using begin_transaction_ok [OF assms(1)] by blast
  have t': "transaction_ok c t'" "apply_all ms c = Inr (ct_config t')"
    using transaction_fold [OF assms(2) c(2)] c(3) by simp_all
  with commit_transaction_ok [OF c(1) t'(1)] c(1) f read_config_valid show ?thesis by metis
qed

lemma sample_remotes_added: "apply_mutation (AddHost ''lab'' ''lab'') remotes_config_default = Inr (True, sample_remotes)"
  by code_simp

lemma sample_remotes_valid: "config_validate sample_remotes = Inr ()"
  using apply_mutation_sound [OF sample_remotes_added] by simp

lemma sample_remotes_host: "config_host sample_remotes ''lab'' = Some sample_host"
  by (simp add: config_host_def sample_remotes_def sample_host_def)

theorem fail_closed_mutations_succeed_witness:
  "\<exists>changed c'. apply_mutation (UnpairHost ''lab'') sample_remotes = Inr (changed, c')
    \<and> config_host c' ''lab'' = Some (unpaired sample_host)"
  using fail_closed_mutations_succeed [OF sample_remotes_valid sample_remotes_host]
  by (auto simp: sample_remotes_def)

theorem pair_pin_exact_witness:
  "\<exists>c'. apply_mutation (PairPin ''lab'' sample_source) sample_remotes = Inr (True, c')
    \<and> config_host c' ''lab'' = Some (sample_host\<lparr>hc_expected_source := Some sample_source\<rparr>)"
  using pair_pin_exact [OF sample_remotes_valid sample_remotes_host, of sample_source]
  by (auto simp: sample_remotes_def sample_host_def pinned_def)



theorem transaction_roundtrip_witness:
  "\<exists>c' f2 t'. fold_ok transaction_apply [AddHost ''lab'' ''lab'', PairPin ''lab'' sample_source, EnableHost ''lab'']
      sample_transaction = Inr t' \<and> commit_transaction True t' sample_file = (Inr c', f2) \<and> read_config f2 = Inr c'"
proof -
  have b: "begin_transaction True NoFile = (Inr sample_transaction, sample_file)" by code_simp
  have "\<not> isl (fold_ok transaction_apply [AddHost ''lab'' ''lab'', PairPin ''lab'' sample_source, EnableHost ''lab'']
      sample_transaction)" by code_simp
  then obtain t' where t: "fold_ok transaction_apply [AddHost ''lab'' ''lab'', PairPin ''lab'' sample_source, EnableHost ''lab'']
      sample_transaction = Inr t'" by (metis isl_def sum.exhaust)
  then show ?thesis using transaction_roundtrip [OF b t] by blast
qed

end
