(* ===== verification/Remote_Protocol.thy ===== *)
theory Remote_Protocol
  imports Sync_Types
begin

text \<open>
  The wire protocol of \<open>src/remote_protocol.rs\<close>: the single-frame codec with its header,
  limits and error order, the request and response envelopes with their validation, and the
  relation of a page to the request it answers.

  A protocol error is its kind.  JSON and gzip are third-party codecs and an argument of the
  frame functions, as is the message's own validation; page payloads are validated by the
  implementations of a trait, an argument of the envelope functions.  Types that are never
  zero (\<open>NonZeroU32\<close>, \<open>NonZeroU64\<close>) are words.
\<close>

section \<open>Errors and limits\<close>

type_synonym u8 = "8 word"
type_synonym u16 = "16 word"

(* remote_protocol.rs:122-137 RemoteProtocolErrorKind *)
datatype protocol_error =
    InvalidFrameLimits | InvalidMessage | InvalidMagic | UnsupportedFrameVersion
  | UnsupportedEncoding | InvalidHeader | EncodedLimitExceeded | DecodedLimitExceeded
  | TruncatedFrame | TrailingFrameData | LengthMismatch | CompressionError
  | TrailingCompressedData | InvalidJson

(* remote_protocol.rs:40-40 MAX_REMOTE_FRAME_DECODED_BYTES *)
definition MAX_REMOTE_FRAME_DECODED_BYTES :: usize where
  "MAX_REMOTE_FRAME_DECODED_BYTES = 32 * 1024 * 1024"

(* remote_protocol.rs:42-42 REMOTE_IDENTITY_THRESHOLD_BYTES *)
definition REMOTE_IDENTITY_THRESHOLD_BYTES :: usize where
  "REMOTE_IDENTITY_THRESHOLD_BYTES = 32 * 1024"

(* remote_protocol.rs:44-44 FRAME_MAGIC *)
definition FRAME_MAGIC :: "u8 list" where
  "FRAME_MAGIC = [67, 85, 77, 82, 77, 84, 48, 49]"

(* remote_protocol.rs:45-45 FRAME_VERSION *)
definition FRAME_VERSION :: u8 where "FRAME_VERSION = 1"

(* remote_protocol.rs:46-46 FRAME_HEADER_BYTES *)
definition FRAME_HEADER_BYTES :: nat where "FRAME_HEADER_BYTES = 20"

(* remote_protocol.rs:47-47 ENCODING_IDENTITY *)
definition ENCODING_IDENTITY :: u8 where "ENCODING_IDENTITY = 0"

(* remote_protocol.rs:48-48 ENCODING_GZIP *)
definition ENCODING_GZIP :: u8 where "ENCODING_GZIP = 1"

(* remote_protocol.rs:87-91 RemoteFrameLimits *)
record frame_limits =
  fl_max_encoded_bytes :: usize
  fl_max_decoded_bytes :: usize
  fl_identity_threshold_bytes :: usize

(* remote_protocol.rs:93-101 RemoteFrameLimits::default *)
definition frame_limits_default :: frame_limits where
  "frame_limits_default = \<lparr>fl_max_encoded_bytes = MAX_REMOTE_FRAME_ENCODED_BYTES,
     fl_max_decoded_bytes = MAX_REMOTE_FRAME_DECODED_BYTES,
     fl_identity_threshold_bytes = REMOTE_IDENTITY_THRESHOLD_BYTES\<rparr>"

(* remote_protocol.rs:104-117 RemoteFrameLimits::validate *)
definition frame_limits_validate :: "frame_limits \<Rightarrow> protocol_error + unit" where
  "frame_limits_validate l = ensure (\<not> (fl_max_encoded_bytes l = 0 \<or> fl_max_decoded_bytes l = 0
     \<or> 4294967295 < fl_max_encoded_bytes l \<or> 4294967295 < fl_max_decoded_bytes l
     \<or> fl_max_decoded_bytes l < fl_identity_threshold_bytes l)) InvalidFrameLimits"

section \<open>Frames\<close>

text \<open>
  The gzip decoder reads the first member of its input: the bytes it can deliver, and,
  unless the member is corrupt, the input position after the member.
\<close>

record gzip_member =
  gm_bytes :: "u8 list"
  gm_end :: "nat option"

record 'm codec =
  cd_to_json :: "'m \<Rightarrow> u8 list option"
  cd_from_json :: "u8 list \<Rightarrow> 'm option"
  cd_gzip :: "u8 list \<Rightarrow> u8 list option"
  cd_gunzip :: "u8 list \<Rightarrow> gzip_member"

definition to_be_bytes :: "u32 \<Rightarrow> u8 list" where
  "to_be_bytes w = [of_nat (unat w div 16777216), of_nat (unat w div 65536), of_nat (unat w div 256), of_nat (unat w)]"

(* remote_protocol.rs:573-575 read_u32 *)
fun read_u32 :: "u8 list \<Rightarrow> u32" where
  "read_u32 [a, b, c, d] = of_nat (unat a * 16777216 + unat b * 65536 + unat c * 256 + unat d)"
| "read_u32 _ = 0"

definition frame_header :: "u8 \<Rightarrow> nat \<Rightarrow> nat \<Rightarrow> u8 list" where
  "frame_header encoding encoded_len decoded_len = FRAME_MAGIC @ [FRAME_VERSION, encoding, 0, 0]
     @ to_be_bytes (of_nat encoded_len) @ to_be_bytes (of_nat decoded_len)"

text \<open>\<open>LimitedJsonBuffer\<close> refuses the write that passes its maximum.\<close>

(* remote_protocol.rs:213-263 encode_remote_frame *)
definition encode_remote_frame ::
  "'m codec \<Rightarrow> ('m \<Rightarrow> protocol_error + unit) \<Rightarrow> 'm \<Rightarrow> frame_limits \<Rightarrow> protocol_error + u8 list" where
  "encode_remote_frame cd valid message limits =
    and_then (frame_limits_validate limits) (\<lambda>_.
    and_then (valid message) (\<lambda>_.
    and_then (ok_or (cd_to_json cd message) InvalidJson) (\<lambda>json.
    and_then (ensure (length json \<le> unat (fl_max_decoded_bytes limits)) DecodedLimitExceeded) (\<lambda>_.
    and_then (if length json \<le> unat (fl_identity_threshold_bytes limits) then Inr (ENCODING_IDENTITY, json)
      else and_then (ok_or (cd_gzip cd json) CompressionError) (\<lambda>payload. Inr (ENCODING_GZIP, payload)))
      (\<lambda>(encoding, payload).
    and_then (ensure (length payload \<le> unat (fl_max_encoded_bytes limits)) EncodedLimitExceeded) (\<lambda>_.
    Inr (frame_header encoding (length payload) (length json) @ payload)))))))"

(* remote_protocol.rs:520-564 decode_gzip_exact *)
definition decode_gzip_exact :: "'m codec \<Rightarrow> u8 list \<Rightarrow> nat \<Rightarrow> protocol_error + u8 list" where
  "decode_gzip_exact cd payload expected =
    (let m = cd_gunzip cd payload in
     if expected < length (gm_bytes m) then Inl LengthMismatch
     else case gm_end m of
         None \<Rightarrow> Inl CompressionError
       | Some consumed \<Rightarrow>
           and_then (ensure (length (gm_bytes m) = expected) LengthMismatch) (\<lambda>_.
           and_then (ensure (consumed = length payload) TrailingCompressedData) (\<lambda>_.
           Inr (gm_bytes m))))"

(* remote_protocol.rs:357-457 decode_remote_frame *)
definition decode_remote_frame ::
  "'m codec \<Rightarrow> ('m \<Rightarrow> protocol_error + unit) \<Rightarrow> u8 list \<Rightarrow> frame_limits \<Rightarrow> protocol_error + 'm" where
  "decode_remote_frame cd valid frame limits =
    and_then (frame_limits_validate limits) (\<lambda>_.
    and_then (ensure (FRAME_HEADER_BYTES \<le> length frame) TruncatedFrame) (\<lambda>_.
    and_then (ensure (take (length FRAME_MAGIC) frame = FRAME_MAGIC) InvalidMagic) (\<lambda>_.
    and_then (ensure (frame ! 8 = FRAME_VERSION) UnsupportedFrameVersion) (\<lambda>_.
    let encoding = frame ! 9 in
    and_then (ensure (encoding = ENCODING_IDENTITY \<or> encoding = ENCODING_GZIP) UnsupportedEncoding) (\<lambda>_.
    and_then (ensure (take 2 (drop 10 frame) = [0, 0]) InvalidHeader) (\<lambda>_.
    let encoded_len = unat (read_u32 (take 4 (drop 12 frame)));
        decoded_len = unat (read_u32 (take 4 (drop 16 frame))) in
    and_then (ensure (encoded_len \<le> unat (fl_max_encoded_bytes limits)) EncodedLimitExceeded) (\<lambda>_.
    and_then (ensure (decoded_len \<le> unat (fl_max_decoded_bytes limits)) DecodedLimitExceeded) (\<lambda>_.
    and_then (ensure (FRAME_HEADER_BYTES + encoded_len \<le> length frame) TruncatedFrame) (\<lambda>_.
    and_then (ensure (length frame \<le> FRAME_HEADER_BYTES + encoded_len) TrailingFrameData) (\<lambda>_.
    let payload = drop FRAME_HEADER_BYTES frame in
    and_then (if encoding = ENCODING_IDENTITY
      then and_then (ensure (encoded_len = decoded_len) LengthMismatch) (\<lambda>_. Inr payload)
      else decode_gzip_exact cd payload decoded_len) (\<lambda>json.
    and_then (ok_or (cd_from_json cd json) InvalidJson) (\<lambda>message.
    and_then (valid message) (\<lambda>_. Inr message)))))))))))))"

text \<open>
  A stream is the bytes it delivers and whether it ends or fails after them; at most the
  header, the encoded maximum and one byte of tail detection are read.
\<close>

(* remote_protocol.rs:324-353 read_remote_frame *)
definition read_remote_frame ::
  "'m codec \<Rightarrow> ('m \<Rightarrow> protocol_error + unit) \<Rightarrow> u8 list \<times> bool \<Rightarrow> frame_limits \<Rightarrow> protocol_error + 'm" where
  "read_remote_frame cd valid reader limits =
    and_then (frame_limits_validate limits) (\<lambda>_.
    let read_limit = FRAME_HEADER_BYTES + unat (fl_max_encoded_bytes limits) + 1; (bytes, complete) = reader in
    and_then (ensure (complete \<or> read_limit \<le> length bytes) TruncatedFrame) (\<lambda>_.
    decode_remote_frame cd valid (take read_limit bytes) limits))"

(* remote_protocol.rs:463-471 decoded_remote_frame_payload_len *)
definition decoded_remote_frame_payload_len :: "u8 list \<Rightarrow> protocol_error + usize" where
  "decoded_remote_frame_payload_len frame =
    and_then (ensure (FRAME_HEADER_BYTES \<le> length frame) TruncatedFrame) (\<lambda>_.
    Inr (ucast (read_u32 (take 4 (drop 16 frame)))))"

section \<open>Text fields\<close>

(* remote_protocol.rs:596-609 BinaryVersion::from_str *)
definition parse_binary_version :: "string \<Rightarrow> protocol_error + string" where
  "parse_binary_version s = (if s = [] \<or> 96 < length s
     \<or> \<not> list_all (\<lambda>c. is_ascii_alphanumeric c \<or> c \<in> set ''.-_+'') s then Inl InvalidMessage else Inr s)"

(* remote_protocol.rs:745-755 opaque_wire_type::from_str *)
definition parse_opaque_token :: "string \<Rightarrow> protocol_error + string" where
  "parse_opaque_token s = (if s = [] \<or> 1024 < length s
     \<or> \<not> list_all (\<lambda>c. is_ascii_alphanumeric c \<or> c \<in> set ''-_.~'') s then Inl InvalidMessage else Inr s)"

definition is_lower_hex :: "char \<Rightarrow> bool" where
  "is_lower_hex c = (is_ascii_digit c \<or> 97 \<le> byte c \<and> byte c \<le> 102)"

(* remote_protocol.rs:3251-3270 validate_prefixed_lower_hex *)
definition validate_prefixed_lower_hex :: "string \<Rightarrow> string \<Rightarrow> nat \<Rightarrow> protocol_error + unit" where
  "validate_prefixed_lower_hex s prefix hex_bytes =
    (if take (length prefix) s \<noteq> prefix then Inl InvalidMessage
     else ensure (length (drop (length prefix) s) = hex_bytes
       \<and> list_all is_lower_hex (drop (length prefix) s)) InvalidMessage)"

(* remote_protocol.rs:1068-1076 ModelCatalogFingerprint::from_str *)
definition parse_model_catalog_fingerprint :: "string \<Rightarrow> protocol_error + string" where
  "parse_model_catalog_fingerprint s =
    and_then (validate_prefixed_lower_hex s ''model-catalog-sha256-v1-'' 64) (\<lambda>_. Inr s)"

text \<open>U+2028 and U+2029 as UTF-8 bytes.\<close>

definition is_line_separator :: "string \<Rightarrow> bool" where
  "is_line_separator g = (List.map byte g \<in> {[226, 128, 168], [226, 128, 169]})"

section \<open>Envelopes\<close>

(* source_history.rs:266-269 RedactionProfile *)
datatype redaction_profile = Redacted | PreviewEnabled

(* remote_protocol.rs:643-650 ProtocolRevisions *)
record protocol_revisions =
  pr_history_format :: u32
  pr_metric :: u32
  pr_estimator :: u32
  pr_project_breakdown :: u32
  pr_api_pricing_catalog :: u32
  pr_model_catalog_fingerprint :: string

(* remote_protocol.rs:655-658 AcceptedRevisionRange *)
record revision_range =
  vr_min :: u32
  vr_max :: u32

(* remote_protocol.rs:661-668 AcceptedRevisionRange::validate *)
definition revision_range_validate :: "revision_range \<Rightarrow> protocol_error + unit" where
  "revision_range_validate r = ensure (vr_min r \<le> vr_max r) InvalidMessage"

(* remote_protocol.rs:670-672 AcceptedRevisionRange::accepts *)
definition revision_range_accepts :: "revision_range \<Rightarrow> u32 \<Rightarrow> bool" where
  "revision_range_accepts r v = (vr_min r \<le> v \<and> v \<le> vr_max r)"

(* remote_protocol.rs:678-685 AcceptedRevisions *)
record accepted_revisions =
  ar_history_format :: revision_range
  ar_metric :: revision_range
  ar_estimator :: revision_range
  ar_project_breakdown :: revision_range
  ar_api_pricing_catalog :: revision_range
  ar_model_catalog_fingerprint :: string

(* remote_protocol.rs:688-695 AcceptedRevisions::validate *)
definition accepted_revisions_validate :: "accepted_revisions \<Rightarrow> protocol_error + unit" where
  "accepted_revisions_validate a = each_ok revision_range_validate
     [ar_history_format a, ar_metric a, ar_estimator a, ar_project_breakdown a, ar_api_pricing_catalog a]"

(* remote_protocol.rs:697-706 AcceptedRevisions::accepts *)
definition revisions_accept :: "accepted_revisions \<Rightarrow> protocol_revisions \<Rightarrow> bool" where
  "revisions_accept a r = (revision_range_accepts (ar_history_format a) (pr_history_format r)
     \<and> revision_range_accepts (ar_metric a) (pr_metric r)
     \<and> revision_range_accepts (ar_estimator a) (pr_estimator r)
     \<and> revision_range_accepts (ar_project_breakdown a) (pr_project_breakdown r)
     \<and> revision_range_accepts (ar_api_pricing_catalog a) (pr_api_pricing_catalog r)
     \<and> ar_model_catalog_fingerprint a = pr_model_catalog_fingerprint r)"

(* remote_protocol.rs:720-723 FactCursor *)
record fact_cursor =
  fc_fact_generation :: u64
  fc_through_sequence :: u64

(* remote_protocol.rs:815-818 ProbeRequest *)
record probe_request =
  pq_check_state_writable :: bool
  pq_check_rollout_readable :: bool

(* remote_protocol.rs:828-836 ExportRange::validate *)
definition export_range_validate :: "export_range \<Rightarrow> protocol_error + unit" where
  "export_range_validate r =
    and_then (ensure (er_from r < er_to r) InvalidMessage) (\<lambda>_.
    ensure (er_to r - er_from r \<le> hours (35 * 24)) InvalidMessage)"

(* remote_protocol.rs:841-856 DeltaRequest *)
record delta_request =
  dq_delta_cursor :: "delta_cursor option"
  dq_range :: export_range
  dq_overlap_minutes :: u16
  dq_include_live :: bool
  dq_known_live_revision :: "u64 option"

(* remote_protocol.rs:867-884 SessionFactsPosition *)
datatype session_facts_position =
    SnapshotStart
  | SnapshotContinue string u64 u64 string
  | DeltaStart fact_cursor
  | DeltaContinue fact_cursor string u64 string

(* remote_protocol.rs:901-913 SessionFactsDigestBinding *)
record digest_binding =
  db_range_start :: datetime
  db_range_end :: datetime
  db_covered_through :: datetime
  db_coverage_complete :: bool
  db_fingerprint :: string
  db_project_breakdown_fingerprint :: string
  db_event_count :: u64
  db_metric_revision :: u32
  db_estimator_revision :: u32
  db_project_breakdown_revision :: u32
  db_api_pricing_catalog_revision :: u32

(* remote_protocol.rs:888-897 SessionFactsRequest *)
record session_facts_request =
  sf_thread_id :: string
  sf_retention_days :: u16
  sf_expected_digests :: "digest_binding list"
  sf_position :: session_facts_position

(* remote_protocol.rs:807-811 RemoteExportRequestBody *)
datatype request_body =
    ProbeBody probe_request
  | DeltaBody delta_request
  | SessionFactsBody session_facts_request

(* remote_protocol.rs:789-798 RemoteExportRequest *)
record export_request =
  rq_protocol_version :: u32
  rq_client_version :: string
  rq_expected_source :: "source_generation option"
  rq_redaction_profile :: redaction_profile
  rq_max_page_bytes :: u32
  rq_accepted_revisions :: accepted_revisions
  rq_request :: request_body

(* remote_protocol.rs:916-943 SessionFactsDigestBinding::validate *)
definition digest_binding_validate :: "accepted_revisions \<Rightarrow> digest_binding \<Rightarrow> protocol_error + unit" where
  "digest_binding_validate a b =
    and_then (ensure (\<not> (db_range_end b \<le> db_range_start b
      \<or> hours 24 < db_range_end b - db_range_start b
      \<or> db_covered_through b < db_range_start b \<or> db_range_end b < db_covered_through b
      \<or> db_coverage_complete b \<and> db_covered_through b \<noteq> db_range_end b)) InvalidMessage) (\<lambda>_.
    ensure (revision_range_accepts (ar_metric a) (db_metric_revision b)
      \<and> revision_range_accepts (ar_estimator a) (db_estimator_revision b)
      \<and> revision_range_accepts (ar_project_breakdown a) (db_project_breakdown_revision b)
      \<and> revision_range_accepts (ar_api_pricing_catalog a) (db_api_pricing_catalog_revision b)) InvalidMessage)"

definition digest_binding_step ::
  "accepted_revisions \<Rightarrow> digest_binding \<Rightarrow> datetime option \<Rightarrow> protocol_error + datetime option" where
  "digest_binding_step a b previous =
    and_then (digest_binding_validate a b) (\<lambda>_.
    and_then (ensure (case previous of Some start \<Rightarrow> start < db_range_start b | None \<Rightarrow> True) InvalidMessage) (\<lambda>_.
    Inr (Some (db_range_start b))))"

definition REMOTE_PROTOCOL_VERSION :: u32 where "REMOTE_PROTOCOL_VERSION = 5"

(* remote_protocol.rs:947-1009 RemoteExportRequest::validate_remote_protocol *)
definition request_validate :: "export_request \<Rightarrow> protocol_error + unit" where
  "request_validate q =
    and_then (ensure (rq_protocol_version q = REMOTE_PROTOCOL_VERSION) InvalidMessage) (\<lambda>_.
    and_then (ensure (\<not> (MAX_REMOTE_FRAME_ENCODED_BYTES < ucast (rq_max_page_bytes q)
      \<or> ucast (rq_max_page_bytes q) < MIN_REMOTE_RESPONSE_ENCODED_BYTES)) InvalidMessage) (\<lambda>_.
    and_then (accepted_revisions_validate (rq_accepted_revisions q)) (\<lambda>_.
    case rq_request q of
        ProbeBody _ \<Rightarrow> Inr ()
      | DeltaBody d \<Rightarrow>
          and_then (ensure (rq_expected_source q \<noteq> None) InvalidMessage) (\<lambda>_.
          and_then (export_range_validate (dq_range d)) (\<lambda>_.
          and_then (ensure (dq_overlap_minutes d \<le> 24 * 60) InvalidMessage) (\<lambda>_.
          ensure (\<not> (\<not> dq_include_live d \<and> dq_known_live_revision d \<noteq> None)) InvalidMessage)))
      | SessionFactsBody s \<Rightarrow>
          and_then (ensure (rq_expected_source q \<noteq> None) InvalidMessage) (\<lambda>_.
          and_then (ensure (\<not> (sf_retention_days s = 0 \<or> 35 < sf_retention_days s)) InvalidMessage) (\<lambda>_.
          and_then (ensure (sf_expected_digests s \<noteq> [] \<and> length (sf_expected_digests s) \<le> 36) InvalidMessage) (\<lambda>_.
          and_then (fold_ok (digest_binding_step (rq_accepted_revisions q)) (sf_expected_digests s) None) (\<lambda>_.
          Inr ())))))))"

(* remote_protocol.rs:1014-1023 RemoteCapability *)
datatype remote_capability =
    DeltaJournal | QuotaHistory | LiveSnapshot | SessionFactSnapshot | SessionFactDelta
  | RedactedContent | PreviewContent | GzipFrame

(* remote_protocol.rs:1027-1031 ProbeResult *)
record probe_result =
  pb_capabilities :: "remote_capability list"
  pb_state_writable :: bool
  pb_rollout_readable :: bool

(* remote_protocol.rs:1034-1040 ProbeResult::validate *)
definition probe_result_validate :: "probe_result \<Rightarrow> protocol_error + unit" where
  "probe_result_validate r = ensure (distinct (pb_capabilities r)) InvalidMessage"

(* remote_protocol.rs:1466-1472 DeltaPage *)
record delta_page =
  dp_generation :: u64
  dp_from_sequence :: u64
  dp_through_sequence :: u64
  dp_next_delta_cursor :: delta_cursor
  dp_has_more :: bool

(* remote_protocol.rs:1475-1494 DeltaPage::validate *)
definition delta_page_validate :: "delta_page \<Rightarrow> protocol_error + unit" where
  "delta_page_validate p =
    and_then (ensure (dp_from_sequence p \<le> dp_through_sequence p) InvalidMessage) (\<lambda>_.
    and_then (ensure (\<not> (0 < dp_through_sequence p \<and> dp_from_sequence p = 0
      \<or> dp_through_sequence p = 0 \<and> dp_has_more p)) InvalidMessage) (\<lambda>_.
    ensure (dc_generation (dp_next_delta_cursor p) = dp_generation p
      \<and> dc_sequence (dp_next_delta_cursor p) = dp_through_sequence p) InvalidMessage))"

(* remote_protocol.rs:2823-2833 FactSnapshotPage *)
record fact_snapshot_page =
  fsp_thread_id :: string
  fsp_snapshot_id :: string
  fsp_fact_generation :: u64
  fsp_snapshot_watermark :: u64
  fsp_next_page_token :: "string option"
  fsp_activate_fact_cursor :: "fact_cursor option"
  fsp_has_more :: bool

(* remote_protocol.rs:2849-2859 FactDeltaPage *)
record fact_delta_page =
  fdp_thread_id :: string
  fdp_batch_id :: string
  fdp_fact_generation :: u64
  fdp_delta_watermark :: u64
  fdp_next_page_token :: "string option"
  fdp_activate_fact_cursor :: "fact_cursor option"
  fdp_has_more :: bool

(* remote_protocol.rs:2873-2899 validate_fact_page_completion *)
definition validate_fact_page_completion ::
  "u64 \<Rightarrow> u64 \<Rightarrow> bool \<Rightarrow> bool \<Rightarrow> fact_cursor option \<Rightarrow> protocol_error + unit" where
  "validate_fact_page_completion generation watermark has_more has_next_token activate =
    and_then (if has_more then ensure (\<not> (\<not> has_next_token \<or> activate \<noteq> None)) InvalidMessage
      else ensure (\<not> (has_next_token \<or> activate = None)) InvalidMessage) (\<lambda>_.
    case activate of
      Some c \<Rightarrow> ensure (fc_fact_generation c = generation \<and> fc_through_sequence c = watermark) InvalidMessage
    | None \<Rightarrow> Inr ())"

(* remote_protocol.rs:2836-2844 FactSnapshotPage::validate *)
definition fact_snapshot_page_validate :: "fact_snapshot_page \<Rightarrow> protocol_error + unit" where
  "fact_snapshot_page_validate p = validate_fact_page_completion (fsp_fact_generation p)
     (fsp_snapshot_watermark p) (fsp_has_more p) (fsp_next_page_token p \<noteq> None) (fsp_activate_fact_cursor p)"

(* remote_protocol.rs:2862-2870 FactDeltaPage::validate *)
definition fact_delta_page_validate :: "fact_delta_page \<Rightarrow> protocol_error + unit" where
  "fact_delta_page_validate p = validate_fact_page_completion (fdp_fact_generation p)
     (fdp_delta_watermark p) (fdp_has_more p) (fdp_next_page_token p \<noteq> None) (fdp_activate_fact_cursor p)"

(* remote_protocol.rs:2903-2915 RemoteFailureKind *)
datatype failure_kind =
    VersionMismatch | IdentityMismatch | RedactionMismatch | CursorExpired | FactCursorExpired
  | FactEvidenceUnavailable | FactDigestChanged | FactInventoryTooLarge | FailureBusy
  | FailureInvalidRequest | FailureInternal

(* remote_protocol.rs:2919-2924 RemoteFailure *)
record remote_failure =
  rf_kind :: failure_kind
  rf_message :: string
  rf_retry_after_seconds :: "u32 option"

(* remote_protocol.rs:2927-2943 RemoteFailure::validate *)
definition remote_failure_validate :: "remote_failure \<Rightarrow> protocol_error + unit" where
  "remote_failure_validate f =
    and_then (ensure (\<not> (rf_message f = [] \<or> 512 < length (utf8_chars (rf_message f))
      \<or> trim (rf_message f) \<noteq> rf_message f
      \<or> list_ex (\<lambda>g. char_is_control g \<or> is_line_separator g) (utf8_chars (rf_message f)))) InvalidMessage) (\<lambda>_.
    ensure (\<not> (rf_retry_after_seconds f \<noteq> None \<and> rf_kind f \<noteq> FailureBusy)) InvalidMessage)"

(* remote_protocol.rs:2955-2961 RemoteExportResponseBody *)
datatype ('d, 'f) response_body =
    ProbeResponse probe_result
  | DeltaResponse delta_page 'd
  | FactSnapshotResponse fact_snapshot_page 'f
  | FactDeltaResponse fact_delta_page 'f
  | FailureResponse remote_failure

(* remote_protocol.rs:2965-2968 RemoteTiming *)
record remote_timing =
  rt_remote_received_at :: datetime
  rt_remote_sent_at :: datetime

(* remote_protocol.rs:2971-2979 RemoteTiming::validate *)
definition remote_timing_validate :: "remote_timing \<Rightarrow> protocol_error + unit" where
  "remote_timing_validate t = (let d = rt_remote_sent_at t - rt_remote_received_at t in
     ensure (\<not> (d < 0 \<or> hours 24 < d)) InvalidMessage)"

(* remote_protocol.rs:2984-2993 RemoteExportResponse *)
record ('d, 'f) export_response =
  rs_protocol_version :: u32
  rs_server_version :: string
  rs_source :: source_generation
  rs_redaction_profile :: redaction_profile
  rs_revisions :: protocol_revisions
  rs_observed_at :: datetime
  rs_timing :: remote_timing
  rs_result :: "('d, 'f) response_body"

(* remote_protocol.rs:2538-2545 RemoteDeltaPayloadContext *)
record delta_context =
  dx_page :: delta_page
  dx_request :: "delta_request option"
  dx_source :: source_generation
  dx_redaction_profile :: redaction_profile
  dx_revisions :: protocol_revisions
  dx_observed_at :: datetime

(* remote_protocol.rs:1964-1967 RemoteFactPageContext *)
datatype fact_page_context = SnapshotPageContext fact_snapshot_page | DeltaPageContext fact_delta_page

(* remote_protocol.rs:1969-1974 RemoteFactPayloadContext *)
record fact_context =
  fx_page :: fact_page_context
  fx_request :: "session_facts_request option"
  fx_revisions :: protocol_revisions
  fx_observed_at :: datetime

text \<open>The implementations of \<open>RemotePagePayload\<close> for the two payload types.\<close>

(* remote_protocol.rs:173-195 RemotePagePayload *)
record ('d, 'f) payload_checks =
  pk_delta_payload :: "'d \<Rightarrow> protocol_error + unit"
  pk_delta_context :: "'d \<Rightarrow> delta_context \<Rightarrow> protocol_error + unit"
  pk_fact_payload :: "'f \<Rightarrow> protocol_error + unit"
  pk_fact_context :: "'f \<Rightarrow> fact_context \<Rightarrow> protocol_error + unit"

definition delta_context_of ::
  "('d, 'f) export_response \<Rightarrow> delta_page \<Rightarrow> delta_request option \<Rightarrow> delta_context" where
  "delta_context_of r p q = \<lparr>dx_page = p, dx_request = q, dx_source = rs_source r,
     dx_redaction_profile = rs_redaction_profile r, dx_revisions = rs_revisions r,
     dx_observed_at = rs_observed_at r\<rparr>"

definition fact_context_of ::
  "('d, 'f) export_response \<Rightarrow> fact_page_context \<Rightarrow> session_facts_request option \<Rightarrow> fact_context" where
  "fact_context_of r p q = \<lparr>fx_page = p, fx_request = q, fx_revisions = rs_revisions r,
     fx_observed_at = rs_observed_at r\<rparr>"

(* remote_protocol.rs:3198-3248 RemoteExportResponse::validate_remote_protocol *)
definition response_validate ::
  "('d, 'f) payload_checks \<Rightarrow> ('d, 'f) export_response \<Rightarrow> protocol_error + unit" where
  "response_validate k r =
    and_then (ensure (rs_protocol_version r = REMOTE_PROTOCOL_VERSION) InvalidMessage) (\<lambda>_.
    and_then (remote_timing_validate (rs_timing r)) (\<lambda>_.
    and_then (ensure (\<not> (rs_observed_at r < rt_remote_received_at (rs_timing r)
      \<or> rt_remote_sent_at (rs_timing r) < rs_observed_at r)) InvalidMessage) (\<lambda>_.
    case rs_result r of
        ProbeResponse p \<Rightarrow> probe_result_validate p
      | DeltaResponse p d \<Rightarrow>
          and_then (delta_page_validate p) (\<lambda>_.
          and_then (pk_delta_payload k d) (\<lambda>_. pk_delta_context k d (delta_context_of r p None)))
      | FactSnapshotResponse p f \<Rightarrow>
          and_then (fact_snapshot_page_validate p) (\<lambda>_.
          and_then (pk_fact_payload k f) (\<lambda>_. pk_fact_context k f (fact_context_of r (SnapshotPageContext p) None)))
      | FactDeltaResponse p f \<Rightarrow>
          and_then (fact_delta_page_validate p) (\<lambda>_.
          and_then (pk_fact_payload k f) (\<lambda>_. pk_fact_context k f (fact_context_of r (DeltaPageContext p) None)))
      | FailureResponse f \<Rightarrow> remote_failure_validate f)))"

section \<open>Pages and their requests\<close>

(* remote_protocol.rs:3080-3110 validate_delta_page_for_request *)
definition validate_delta_page_for_request :: "delta_request \<Rightarrow> delta_page \<Rightarrow> protocol_error + unit" where
  "validate_delta_page_for_request q p = (case dq_delta_cursor q of
      None \<Rightarrow> Inr ()
    | Some c \<Rightarrow>
        and_then (ensure (\<not> (dp_generation p \<noteq> dc_generation c \<or> dp_through_sequence p < dc_sequence c))
          InvalidMessage) (\<lambda>_.
        if dp_through_sequence p = dc_sequence c
        then ensure (\<not> (dp_from_sequence p \<noteq> dc_sequence c \<or> dp_has_more p)) InvalidMessage
        else and_then (ok_or (checked_add (dc_sequence c) 1) InvalidMessage) (\<lambda>expected_from.
          ensure (dp_from_sequence p = expected_from) InvalidMessage)))"

(* remote_protocol.rs:3112-3143 validate_fact_snapshot_page_for_request *)
definition validate_fact_snapshot_page_for_request ::
  "session_facts_request \<Rightarrow> fact_snapshot_page \<Rightarrow> protocol_error + unit" where
  "validate_fact_snapshot_page_for_request q p =
    and_then (ensure (fsp_thread_id p = sf_thread_id q) InvalidMessage) (\<lambda>_.
    case sf_position q of
        SnapshotStart \<Rightarrow> Inr ()
      | SnapshotContinue snapshot_id generation watermark _ \<Rightarrow>
          ensure (snapshot_id = fsp_snapshot_id p \<and> generation = fsp_fact_generation p
            \<and> watermark = fsp_snapshot_watermark p) InvalidMessage
      | DeltaStart _ \<Rightarrow> Inl InvalidMessage
      | DeltaContinue _ _ _ _ \<Rightarrow> Inl InvalidMessage)"

(* remote_protocol.rs:3178-3191 validate_fact_delta_cursor *)
definition validate_fact_delta_cursor :: "fact_cursor \<Rightarrow> fact_delta_page \<Rightarrow> protocol_error + unit" where
  "validate_fact_delta_cursor c p = ensure (\<not> (fdp_fact_generation p \<noteq> fc_fact_generation c
     \<or> fdp_delta_watermark p < fc_through_sequence c
     \<or> fdp_has_more p \<and> fdp_delta_watermark p = fc_through_sequence c)) InvalidMessage"

(* remote_protocol.rs:3145-3176 validate_fact_delta_page_for_request *)
definition validate_fact_delta_page_for_request ::
  "session_facts_request \<Rightarrow> fact_delta_page \<Rightarrow> protocol_error + unit" where
  "validate_fact_delta_page_for_request q p =
    and_then (ensure (fdp_thread_id p = sf_thread_id q) InvalidMessage) (\<lambda>_.
    case sf_position q of
        DeltaStart c \<Rightarrow> validate_fact_delta_cursor c p
      | DeltaContinue c batch_id watermark _ \<Rightarrow>
          and_then (validate_fact_delta_cursor c p) (\<lambda>_.
          ensure (batch_id = fdp_batch_id p \<and> watermark = fdp_delta_watermark p) InvalidMessage)
      | SnapshotStart \<Rightarrow> Inl InvalidMessage
      | SnapshotContinue _ _ _ _ \<Rightarrow> Inl InvalidMessage)"

(* remote_protocol.rs:3006-3077 RemoteExportResponse::validate_for_request *)
definition validate_for_request ::
  "('d, 'f) payload_checks \<Rightarrow> ('d, 'f) export_response \<Rightarrow> export_request \<Rightarrow> protocol_error + unit" where
  "validate_for_request k r q =
    and_then (request_validate q) (\<lambda>_.
    and_then (response_validate k r) (\<lambda>_.
    case rs_result r of FailureResponse _ \<Rightarrow> Inr () | _ \<Rightarrow>
    and_then (ensure (rs_redaction_profile r = rq_redaction_profile q) InvalidMessage) (\<lambda>_.
    and_then (ensure (case rq_expected_source q of Some s \<Rightarrow> s = rs_source r | None \<Rightarrow> True) InvalidMessage) (\<lambda>_.
    and_then (ensure (revisions_accept (rq_accepted_revisions q) (rs_revisions r)) InvalidMessage) (\<lambda>_.
    case (rq_request q, rs_result r) of
        (ProbeBody _, ProbeResponse _) \<Rightarrow> Inr ()
      | (DeltaBody d, DeltaResponse p x) \<Rightarrow>
          and_then (validate_delta_page_for_request d p) (\<lambda>_.
          pk_delta_context k x (delta_context_of r p (Some d)))
      | (SessionFactsBody s, FactSnapshotResponse p x) \<Rightarrow>
          and_then (validate_fact_snapshot_page_for_request s p) (\<lambda>_.
          pk_fact_context k x (fact_context_of r (SnapshotPageContext p) (Some s)))
      | (SessionFactsBody s, FactDeltaResponse p x) \<Rightarrow>
          and_then (validate_fact_delta_page_for_request s p) (\<lambda>_.
          pk_fact_context k x (fact_context_of r (DeltaPageContext p) (Some s)))
      | _ \<Rightarrow> Inl InvalidMessage)))))"

section \<open>Negotiated frames\<close>

(* remote_protocol.rs:508-518 negotiated_response_limits *)
definition negotiated_response_limits :: "export_request \<Rightarrow> frame_limits \<Rightarrow> protocol_error + frame_limits" where
  "negotiated_response_limits q limits =
    and_then (frame_limits_validate limits) (\<lambda>_.
    let limits = limits\<lparr>fl_max_encoded_bytes := min (fl_max_encoded_bytes limits) (ucast (rq_max_page_bytes q))\<rparr> in
    and_then (frame_limits_validate limits) (\<lambda>_. Inr limits))"

(* remote_protocol.rs:475-487 encode_remote_response_for_request *)
definition encode_remote_response_for_request ::
  "('d, 'f) export_response codec \<Rightarrow> ('d, 'f) payload_checks \<Rightarrow> ('d, 'f) export_response \<Rightarrow> export_request
    \<Rightarrow> frame_limits \<Rightarrow> protocol_error + u8 list" where
  "encode_remote_response_for_request cd k r q limits =
    and_then (request_validate q) (\<lambda>_.
    and_then (validate_for_request k r q) (\<lambda>_.
    and_then (negotiated_response_limits q limits) (\<lambda>limits.
    encode_remote_frame cd (response_validate k) r limits)))"

(* remote_protocol.rs:492-506 decode_remote_response_for_request *)
definition decode_remote_response_for_request ::
  "('d, 'f) export_response codec \<Rightarrow> ('d, 'f) payload_checks \<Rightarrow> u8 list \<Rightarrow> export_request
    \<Rightarrow> frame_limits \<Rightarrow> protocol_error + ('d, 'f) export_response" where
  "decode_remote_response_for_request cd k frame q limits =
    and_then (request_validate q) (\<lambda>_.
    and_then (negotiated_response_limits q limits) (\<lambda>limits.
    and_then (decode_remote_frame cd (response_validate k) frame limits) (\<lambda>r.
    and_then (validate_for_request k r q) (\<lambda>_. Inr r))))"

end
