(* ===== verification/Protocol_Safety.thy ===== *)
theory Protocol_Safety
  imports Remote_Protocol
begin

text \<open>
  Correctness of the wire protocol: frames decode to what was encoded, are self-delimiting,
  and stay within the negotiated size.
\<close>

section \<open>Specification\<close>

definition codec_ok :: "'m codec \<Rightarrow> bool" where
  "codec_ok cd = ((\<forall>m j. cd_to_json cd m = Some j \<longrightarrow> cd_from_json cd j = Some m)
     \<and> (\<forall>b z. cd_gzip cd b = Some z \<longrightarrow> cd_gunzip cd z = \<lparr>gm_bytes = b, gm_end = Some (length z)\<rparr>))"

definition sample_codec :: "'m::equal \<Rightarrow> 'm codec" where
  "sample_codec m = \<lparr>cd_to_json = (\<lambda>x. if x = m then Some [123, 125] else None),
     cd_from_json = (\<lambda>j. if j = [123, 125] then Some m else None),
     cd_gzip = (\<lambda>b. Some (31 # b)), cd_gunzip = (\<lambda>z. \<lparr>gm_bytes = tl z, gm_end = Some (length z)\<rparr>)\<rparr>"

definition sample_frame :: "u8 list" where
  "sample_frame = (let json = [123, 125] in frame_header ENCODING_IDENTITY (length json) (length json) @ json)"

definition sample_probe_request :: export_request where
  "sample_probe_request = \<lparr>rq_protocol_version = 5, rq_client_version = ''1.0'', rq_expected_source = None,
     rq_redaction_profile = Redacted, rq_max_page_bytes = 65536,
     rq_accepted_revisions = (let any = \<lparr>vr_min = 1, vr_max = 9\<rparr> in
       \<lparr>ar_history_format = any, ar_metric = any, ar_estimator = any, ar_project_breakdown = any,
        ar_api_pricing_catalog = any, ar_model_catalog_fingerprint = ''f''\<rparr>),
     rq_request = ProbeBody \<lparr>pq_check_state_writable = True, pq_check_rollout_readable = True\<rparr>\<rparr>"

definition sample_probe_response :: "(unit, unit) export_response" where
  "sample_probe_response = \<lparr>rs_protocol_version = 5, rs_server_version = ''1.0'',
     rs_source = \<lparr>sg_node_id = ''node-1'', sg_generation = 1\<rparr>, rs_redaction_profile = Redacted,
     rs_revisions = \<lparr>pr_history_format = 1, pr_metric = 5, pr_estimator = 1, pr_project_breakdown = 2,
       pr_api_pricing_catalog = 1, pr_model_catalog_fingerprint = ''f''\<rparr>,
     rs_observed_at = 0, rs_timing = \<lparr>rt_remote_received_at = 0, rt_remote_sent_at = 0\<rparr>,
     rs_result = ProbeResponse \<lparr>pb_capabilities = [DeltaJournal, GzipFrame], pb_state_writable = True,
       pb_rollout_readable = True\<rparr>\<rparr>"

definition sample_checks :: "('d, 'f) payload_checks" where
  "sample_checks = \<lparr>pk_delta_payload = (\<lambda>_. Inr ()), pk_delta_context = (\<lambda>_ _. Inr ()),
     pk_fact_payload = (\<lambda>_. Inr ()), pk_fact_context = (\<lambda>_ _. Inr ())\<rparr>"

section \<open>Header fields\<close>

lemma unat_byte: "unat (of_nat n :: u8) = n mod 256"
  by (simp add: unat_of_nat)

lemma base_256_digits:
  assumes "n < 4294967296"
  shows "(n div 16777216) mod 256 * 16777216 + (n div 65536) mod 256 * 65536 + (n div 256) mod 256 * 256 + n mod 256 = (n :: nat)"
proof -
  define a b c where "a = n div 256" and "b = a div 256" and "c = b div 256"
  have eq: "n div 65536 = b" "n div 16777216 = c"
    by (simp_all add: a_def b_def c_def div_mult2_eq [symmetric])
  have "c < 256" using assms eq(2) by (simp add: less_mult_imp_div_less)
  then have "c mod 256 = c" by simp
  moreover have "n = a * 256 + n mod 256" "a = b * 256 + a mod 256" "b = c * 256 + b mod 256"
    by (simp_all add: a_def b_def c_def)
  ultimately show ?thesis unfolding eq a_def [symmetric] by linarith
qed

lemma read_be_bytes: "read_u32 (to_be_bytes w) = w"
proof -
  have "unat w < 4294967296" using unat_bound [of w] by simp
  from base_256_digits [OF this] have "read_u32 (to_be_bytes w) = of_nat (unat w)"
    by (simp only: to_be_bytes_def read_u32.simps unat_byte)
  then show ?thesis by simp
qed

lemma to_be_bytes_length [simp]: "length (to_be_bytes w) = 4"
  by (simp add: to_be_bytes_def)

lemma frame_header_length [simp]: "length (frame_header encoding e d) = 20"
  by (simp add: frame_header_def FRAME_MAGIC_def)

lemma FRAME_MAGIC_length [simp]: "length FRAME_MAGIC = 8"
  by (simp add: FRAME_MAGIC_def)

lemma frame_header_fields:
  "take 8 (frame_header encoding e d @ payload) = FRAME_MAGIC"
  "(frame_header encoding e d @ payload) ! 8 = FRAME_VERSION"
  "(frame_header encoding e d @ payload) ! 9 = encoding"
  "take 2 (drop 10 (frame_header encoding e d @ payload)) = [0, 0]"
  "take 4 (drop 12 (frame_header encoding e d @ payload)) = to_be_bytes (of_nat e)"
  "take 4 (drop 16 (frame_header encoding e d @ payload)) = to_be_bytes (of_nat d)"
  "drop 20 (frame_header encoding e d @ payload) = payload"
  by (simp_all add: frame_header_def FRAME_MAGIC_def to_be_bytes_def)

lemma unat_of_nat_u32: "n \<le> 4294967295 \<Longrightarrow> unat (of_nat n :: u32) = n"
  by (simp add: unat_of_nat)

lemma frame_limits_ok:
  assumes "frame_limits_validate l = Inr u"
  shows "unat (fl_max_encoded_bytes l) \<le> 4294967295" "unat (fl_max_decoded_bytes l) \<le> 4294967295"
  using assms by (auto simp: frame_limits_validate_def result_simps not_less word_le_nat_alt)

lemma encode_frame_Inr:
  assumes "encode_remote_frame cd valid m limits = Inr frame"
  obtains json encoding payload where "frame_limits_validate limits = Inr ()" "valid m = Inr ()"
    "cd_to_json cd m = Some json" "length json \<le> unat (fl_max_decoded_bytes limits)"
    "encoding = ENCODING_IDENTITY \<and> payload = json \<or> encoding = ENCODING_GZIP \<and> cd_gzip cd json = Some payload"
    "length payload \<le> unat (fl_max_encoded_bytes limits)"
    "frame = frame_header encoding (length payload) (length json) @ payload"
  using assms by (auto simp: encode_remote_frame_def result_simps split: if_splits)

lemma decode_frame_built:
  assumes limits: "frame_limits_validate limits = Inr ()"
    and encoding: "encoding = ENCODING_IDENTITY \<or> encoding = ENCODING_GZIP"
    and len: "length payload \<le> unat (fl_max_encoded_bytes limits)" "d \<le> unat (fl_max_decoded_bytes limits)"
  shows "decode_remote_frame cd valid (frame_header encoding (length payload) d @ payload) limits
    = and_then (if encoding = ENCODING_IDENTITY
        then and_then (ensure (length payload = d) LengthMismatch) (\<lambda>_. Inr payload)
        else decode_gzip_exact cd payload d) (\<lambda>json.
      and_then (ok_or (cd_from_json cd json) InvalidJson) (\<lambda>message.
      and_then (valid message) (\<lambda>_. Inr message)))"
proof -
  have u: "unat (of_nat (length payload) :: u32) = length payload" "unat (of_nat d :: u32) = d"
    using frame_limits_ok [OF limits] len by (auto intro!: unat_of_nat_u32)
  define frame where "frame = frame_header encoding (length payload) d @ payload"
  note fields = frame_header_fields [of encoding "length payload" d payload, folded frame_def]
  have "length frame = 20 + length payload" by (simp add: frame_def)
  then show ?thesis
    unfolding frame_def [symmetric] using limits encoding len
    by (simp add: decode_remote_frame_def FRAME_HEADER_BYTES_def fields read_be_bytes u Let_def)
qed

lemma frame_roundtrip_decode:
  assumes "codec_ok cd" "encode_remote_frame cd valid m limits = Inr frame"
  shows "decode_remote_frame cd valid frame limits = Inr m"
proof -
  obtain json encoding payload where f: "frame_limits_validate limits = Inr ()" "valid m = Inr ()"
    "cd_to_json cd m = Some json" "length json \<le> unat (fl_max_decoded_bytes limits)"
    "encoding = ENCODING_IDENTITY \<and> payload = json \<or> encoding = ENCODING_GZIP \<and> cd_gzip cd json = Some payload"
    "length payload \<le> unat (fl_max_encoded_bytes limits)"
    "frame = frame_header encoding (length payload) (length json) @ payload"
    by (rule encode_frame_Inr [OF assms(2)])
  have json: "cd_from_json cd json = Some m" using assms(1) f(3) by (simp add: codec_ok_def)
  have gz: "decode_gzip_exact cd payload (length json) = Inr json" if "cd_gzip cd json = Some payload"
    using assms(1) that by (simp add: codec_ok_def decode_gzip_exact_def)
  show ?thesis
    unfolding f(7) using f(5) by (subst decode_frame_built [OF f(1) _ f(6,4)])
      (auto simp: json f(2) gz ENCODING_IDENTITY_def ENCODING_GZIP_def)
qed


lemma decode_frame_Inr:
  assumes "decode_remote_frame cd valid frame limits = Inr m"
  shows "frame_limits_validate limits = Inr ()" "20 \<le> length frame"
    "length frame = 20 + unat (read_u32 (take 4 (drop 12 frame)))"
    "unat (read_u32 (take 4 (drop 12 frame))) \<le> unat (fl_max_encoded_bytes limits)" "valid m = Inr ()"
  using assms by (auto simp: decode_remote_frame_def result_simps Let_def FRAME_HEADER_BYTES_def)

lemma decode_frame_header:
  assumes "decode_remote_frame cd valid frame limits = Inr m"
  shows "take 8 frame = FRAME_MAGIC" "frame ! 8 = FRAME_VERSION"
    "frame ! 9 = ENCODING_IDENTITY \<or> frame ! 9 = ENCODING_GZIP" "take 2 (drop 10 frame) = [0, 0]"
    "unat (read_u32 (take 4 (drop 16 frame))) \<le> unat (fl_max_decoded_bytes limits)"
  using assms by (auto simp: decode_remote_frame_def result_simps Let_def FRAME_HEADER_BYTES_def)

lemma same_header:
  assumes "take 20 f' = take 20 f" "i + k \<le> 20"
  shows "take k (drop i f') = take k (drop i f)"
proof -
  have "take (i + k) (take 20 f') = take (i + k) (take 20 f)" using assms(1) by simp
  then have "take (k + i) f' = take (k + i) f" using assms(2) by (simp add: min_def add.commute)
  then show ?thesis by (simp add: take_drop)
qed

lemma decode_frame_length:
  assumes ok: "decode_remote_frame cd valid frame limits = Inr m"
    and same: "take 20 frame' = take 20 frame" and long: "20 \<le> length frame'"
  shows "length frame' < length frame \<Longrightarrow> decode_remote_frame cd valid frame' limits = Inl TruncatedFrame"
    and "length frame < length frame' \<Longrightarrow> decode_remote_frame cd valid frame' limits = Inl TrailingFrameData"
proof -
  have len: "20 \<le> length frame" using decode_frame_Inr(2) [OF ok] .
  have nth: "frame' ! i = frame ! i" if "i < 20" for i
    using same that len long by (metis nth_take)
  note fields = same_header [OF same, of 0 8, simplified] nth [of 8, simplified] nth [of 9, simplified]
    same_header [OF same, of 10 2, simplified] same_header [OF same, of 12 4, simplified]
    same_header [OF same, of 16 4, simplified]
  define e d where "e = unat (read_u32 (take 4 (drop 12 frame)))" and "d = unat (read_u32 (take 4 (drop 16 frame)))"
  have e: "length frame = 20 + e" "e \<le> unat (fl_max_encoded_bytes limits)"
    using decode_frame_Inr(3,4) [OF ok] unfolding e_def by blast+
  note header = decode_frame_header [OF ok, folded d_def]
  note eval = decode_remote_frame_def Let_def FRAME_HEADER_BYTES_def fields e_def [symmetric] d_def [symmetric]
  show "length frame' < length frame \<Longrightarrow> decode_remote_frame cd valid frame' limits = Inl TruncatedFrame"
    using header decode_frame_Inr(1) [OF ok] long e by (simp add: eval)
  show "length frame < length frame' \<Longrightarrow> decode_remote_frame cd valid frame' limits = Inl TrailingFrameData"
    using header decode_frame_Inr(1) [OF ok] long e by (simp add: eval)
qed

text \<open>
  Frames are self-delimiting: of an accepted frame every proper prefix is refused as
  truncated and every proper extension as carrying trailing data, so that no two accepted
  frames are prefixes of each other, and an accepted frame is exactly the header and the
  declared payload, within the encoded limit.
\<close>

theorem frame_self_delimiting:
  assumes ok: "decode_remote_frame cd valid frame limits = Inr m"
  shows "length frame = 20 + unat (read_u32 (take 4 (drop 12 frame)))
    \<and> length frame \<le> 20 + unat (fl_max_encoded_bytes limits)
    \<and> (\<forall>k. length frame \<le> k \<or> decode_remote_frame cd valid (take k frame) limits = Inl TruncatedFrame)
    \<and> (\<forall>t. t = [] \<or> decode_remote_frame cd valid (frame @ t) limits = Inl TrailingFrameData)"
proof -
  note f = decode_frame_Inr [OF ok]
  have "decode_remote_frame cd valid (take k frame) limits = Inl TruncatedFrame" if k: "k < length frame" for k
  proof (cases "k < 20")
    case True
    then show ?thesis using f(1) k by (simp add: decode_remote_frame_def FRAME_HEADER_BYTES_def)
  next
    case False
    then show ?thesis using k by (intro decode_frame_length(1) [OF ok]) auto
  qed
  moreover have "decode_remote_frame cd valid (frame @ t) limits = Inl TrailingFrameData" if "t \<noteq> []" for t
    using that f(2) by (intro decode_frame_length(2) [OF ok]) auto
  ultimately show ?thesis using f(3,4) by (metis add_left_mono not_le)
qed

section \<open>Negotiated responses\<close>

lemma unat_ucast_usize: "unat (ucast w :: usize) = unat w" for w :: u32
  using unat_bound [of w] by (simp add: unsigned_ucast_eq take_bit_nat_eq_self)

lemma negotiated_Inr:
  "negotiated_response_limits q limits = Inr l \<Longrightarrow> unat (fl_max_encoded_bytes l) \<le> unat (rq_max_page_bytes q)"
  by (auto simp: negotiated_response_limits_def result_simps Let_def min_def word_le_nat_alt unat_ucast_usize)

lemma decode_response_length:
  assumes "decode_remote_response_for_request cd k frame q limits = Inr r"
  shows "length frame \<le> 20 + unat (rq_max_page_bytes q)" "validate_for_request k r q = Inr ()"
proof -
  obtain l where l: "negotiated_response_limits q limits = Inr l" "validate_for_request k r q = Inr ()"
    "decode_remote_frame cd (response_validate k) frame l = Inr r"
    using assms by (auto simp: decode_remote_response_for_request_def result_simps)
  show "length frame \<le> 20 + unat (rq_max_page_bytes q)"
    using negotiated_Inr [OF l(1)] decode_frame_Inr(3,4) [OF l(3)] by linarith
  show "validate_for_request k r q = Inr ()" by (rule l(2))
qed

text \<open>
  Negotiated responses round-trip: the frame of a response to a request fits the page
  size of the request and the header, decodes on the requesting side to that response, and
  every frame of any origin that is accepted for the request fits as well and carries a
  response that is valid for it.
\<close>

theorem response_frame_negotiated:
  assumes "codec_ok cd" "encode_remote_response_for_request cd k r q limits = Inr frame"
  shows "decode_remote_response_for_request cd k frame q limits = Inr r
    \<and> length frame \<le> 20 + unat (rq_max_page_bytes q)
    \<and> (\<forall>frame' r'. decode_remote_response_for_request cd k frame' q limits \<noteq> Inr r'
        \<or> length frame' \<le> 20 + unat (rq_max_page_bytes q) \<and> validate_for_request k r' q = Inr ())"
proof -
  obtain l where l: "request_validate q = Inr ()" "validate_for_request k r q = Inr ()"
    "negotiated_response_limits q limits = Inr l" "encode_remote_frame cd (response_validate k) r l = Inr frame"
    using assms(2) by (auto simp: encode_remote_response_for_request_def result_simps)
  have "decode_remote_response_for_request cd k frame q limits = Inr r"
    using frame_roundtrip_decode [OF assms(1)] l by (simp add: decode_remote_response_for_request_def)
  then show ?thesis using decode_response_length by blast
qed

section \<open>Concrete frames\<close>

lemma sample_codec_ok: "codec_ok (sample_codec m)"
  by (simp add: codec_ok_def sample_codec_def)

lemma sample_frame_encoded:
  "encode_remote_frame (sample_codec m) (\<lambda>_. Inr ()) m frame_limits_default = Inr sample_frame"
  by (simp add: encode_remote_frame_def sample_codec_def sample_frame_def frame_limits_validate_def
    frame_limits_default_def MAX_REMOTE_FRAME_ENCODED_BYTES_def MAX_REMOTE_FRAME_DECODED_BYTES_def
    REMOTE_IDENTITY_THRESHOLD_BYTES_def Let_def)


theorem frame_self_delimiting_witness:
  "decode_remote_frame (sample_codec True) (\<lambda>_. Inr ()) sample_frame frame_limits_default = Inr True
    \<and> decode_remote_frame (sample_codec True) (\<lambda>_. Inr ()) (take 21 sample_frame) frame_limits_default = Inl TruncatedFrame
    \<and> decode_remote_frame (sample_codec True) (\<lambda>_. Inr ()) (sample_frame @ [0]) frame_limits_default = Inl TrailingFrameData"
proof -
  have ok: "decode_remote_frame (sample_codec True) (\<lambda>_. Inr ()) sample_frame frame_limits_default = Inr True"
    by (rule frame_roundtrip_decode [OF sample_codec_ok sample_frame_encoded])
  note delimited = frame_self_delimiting [OF ok, THEN conjunct2, THEN conjunct2]
  have "\<not> length sample_frame \<le> 21" by (simp add: sample_frame_def)
  then show ?thesis
    using ok delimited [THEN conjunct1, rule_format, of 21] delimited [THEN conjunct2, rule_format, of "[0]"] by blast
qed

theorem response_frame_negotiated_witness:
  "encode_remote_response_for_request (sample_codec sample_probe_response) sample_checks sample_probe_response
      sample_probe_request frame_limits_default = Inr sample_frame
    \<and> decode_remote_response_for_request (sample_codec sample_probe_response) sample_checks sample_frame
      sample_probe_request frame_limits_default = Inr sample_probe_response"
proof -
  have enc: "encode_remote_response_for_request (sample_codec sample_probe_response) sample_checks sample_probe_response
      sample_probe_request frame_limits_default = Inr sample_frame"
    by code_simp
  then show ?thesis using response_frame_negotiated [OF sample_codec_ok enc] by simp
qed

end
