(* ===== verification/Remote_Sync.thy ===== *)
theory Remote_Sync
  imports Remotes_Config Remote_Protocol Bandwidth_Budget
begin

text \<open>
  The bounded synchronization run of \<open>src/remote_sync.rs\<close> and the admitted attempt of
  \<open>src/remote_sync_attempt.rs\<close>: host selection, limits, the request for the next page, the
  page loop with its fences, and the settlement of the bandwidth reservation.

  The transport and the local phases are traits of the code.  Here they are functions on a
  world, which also holds the configuration file, so that other processes may change it
  between two calls.  Every call of a trait method is recorded with the world it was made
  in; the record is not read by the run.  The tracing spans are left out.
\<close>

section \<open>Errors\<close>

text \<open>An \<open>io::Error\<close> of the configuration store, of a local phase, or of the run itself.\<close>

datatype io_error =
    StoreIo config_error | PhaseIo string | ConfigBusy | PositionChanged | NotDelta
  | InconsistentPosition | NotFreshBootstrap | IngestPolicy | MetricRevision
  | BudgetPausedIo budget_pause

(* remote_bandwidth_budget.rs:266-271 budget_pause_from_io_error *)
fun budget_pause_from_io_error :: "io_error \<Rightarrow> budget_pause option" where
  "budget_pause_from_io_error (BudgetPausedIo p) = Some p"
| "budget_pause_from_io_error _ = None"

text \<open>The flag of a constructor tells whether it carries a cleanup error.\<close>

(* remote_transport.rs:459-503 RemoteTransportError *)
datatype transport_error =
    TransportInvalidHost | TransportInvalidAgentExecutable | TransportInvalidTimeout
  | TransportInvalidResponseLimit | TransportSpawn bool | TransportProcessIsolation bool
  | TransportRequestWrite | TransportWait bool | TransportTimeout bool | TransportCancelled bool
  | TransportOutputRead | TransportStdoutLimitExceeded bool | TransportStderrLimitExceeded bool
  | TransportExitFailure "int option" | TransportProtocol protocol_error | TransportRemote remote_failure
  | TransportUnexpectedResponse | TransportWorkerPanicked | TransportProcessCleanup bool

(* remote_transport.rs:521-533 RemoteTransportError::process_containment_uncertain *)
fun process_containment_uncertain :: "transport_error \<Rightarrow> bool" where
  "process_containment_uncertain (TransportSpawn c) = c"
| "process_containment_uncertain (TransportProcessIsolation c) = c"
| "process_containment_uncertain (TransportWait c) = c"
| "process_containment_uncertain (TransportTimeout c) = c"
| "process_containment_uncertain (TransportCancelled c) = c"
| "process_containment_uncertain (TransportStdoutLimitExceeded c) = c"
| "process_containment_uncertain (TransportStderrLimitExceeded c) = c"
| "process_containment_uncertain (TransportProcessCleanup _) = True"
| "process_containment_uncertain _ = False"

(* remote_sync.rs:1262-1297 RemoteSyncError *)
datatype sync_error =
    HostNotPaired string | HostNotEnabledForAutomaticSync string | StaleHostSelection string
  | ConfigurationChanged string | PreTransportConfigurationChanged string
  | InvalidLimits | InvalidStartedAt | ResponseBudgetExceeded | UnboundResponseEnvelope
  | UnexpectedResponse | PreTransportLocal io_error | Local io_error
  | Protocol protocol_error | Transport transport_error | ProcessContainment | Remote remote_failure

section \<open>Selection\<close>

(* remote_sync.rs:77-80 RemoteSyncHostSnapshot *)
record host_snapshot =
  hs_config_revision :: u64
  hs_host :: host_config

(* remote_sync.rs:107-126 RemoteSyncHostSnapshot::capture_inner *)
definition capture_inner :: "remotes_config \<Rightarrow> host_config \<Rightarrow> sync_error + host_snapshot" where
  "capture_inner c h =
    and_then (case config_validate c of Inl e \<Rightarrow> Inl (Local (StoreIo e)) | Inr _ \<Rightarrow> Inr ()) (\<lambda>_.
    and_then (ensure (config_host c (hc_id h) = Some h) (StaleHostSelection (hc_id h))) (\<lambda>_.
    and_then (ensure (is_paired h) (HostNotPaired (hc_id h))) (\<lambda>_.
    Inr \<lparr>hs_config_revision = rc_config_revision c, hs_host = h\<rparr>)))"

(* remote_sync.rs:85-90 RemoteSyncHostSnapshot::capture_manual *)
definition capture_manual :: "remotes_config \<Rightarrow> host_config \<Rightarrow> sync_error + host_snapshot" where
  "capture_manual c h = capture_inner c h"

(* remote_sync.rs:95-105 RemoteSyncHostSnapshot::capture_for_automatic *)
definition capture_for_automatic :: "remotes_config \<Rightarrow> host_config \<Rightarrow> sync_error + host_snapshot" where
  "capture_for_automatic c h =
    (if \<not> rc_auto_sync_enabled c \<or> \<not> hc_sync_enabled h then Inl (HostNotEnabledForAutomaticSync (hc_id h))
     else capture_inner c h)"

section \<open>Limits\<close>

(* remote_sync.rs:384-393 RemoteSyncLimits::default *)
definition sync_limits_default :: sync_limits where
  "sync_limits_default = \<lparr>sl_max_pages = 4,
     sl_max_response_bytes = 4 * (MAX_REMOTE_FRAME_ENCODED_BYTES + REMOTE_FRAME_HEADER_BYTES),
     sl_exchange_timeout = seconds 60\<rparr>"

(* remote_sync.rs:396-417 RemoteSyncLimits::validate *)
definition sync_limits_validate :: "sync_limits \<Rightarrow> sync_error + sync_limits" where
  "sync_limits_validate l =
    and_then (ensure (sl_max_pages l \<le> 32) InvalidLimits) (\<lambda>_.
    and_then (ensure (\<not> (sl_max_response_bytes l < MIN_REMOTE_SYNC_RESPONSE_BYTES
      \<or> 128 * 1024 * 1024 < sl_max_response_bytes l)) InvalidLimits) (\<lambda>_.
    and_then (ensure (\<not> (sl_exchange_timeout l = 0 \<or> seconds 120 < sl_exchange_timeout l)) InvalidLimits) (\<lambda>_.
    Inr l)))"

section \<open>Binding\<close>

(* remote_ingest_state.rs:68-72 RemoteDeltaRangePolicy *)
record range_policy =
  gp_window_minutes :: u32
  gp_overlap_minutes :: u16
  gp_include_live :: bool

(* remote_ingest_state.rs:101-113 RemoteDeltaRangePolicy::validate *)
definition range_policy_validate :: "range_policy \<Rightarrow> io_error + unit" where
  "range_policy_validate p =
    and_then (ensure (gp_window_minutes p \<le> 35 * 24 * 60) IngestPolicy) (\<lambda>_.
    ensure (gp_overlap_minutes p \<le> 24 * 60) IngestPolicy)"

(* remote_ingest_state.rs:133-144 RemoteDeltaIngestBinding *)
record ingest_binding =
  ib_protocol_version :: u32
  ib_profile_id :: string
  ib_source :: source_generation
  ib_redaction_profile :: redaction_profile
  ib_revisions :: protocol_revisions
  ib_range_policy :: range_policy

definition HISTORY_METRIC_REVISION :: u32 where "HISTORY_METRIC_REVISION = 5"

(* remote_ingest_state.rs:194-202 RemoteDeltaIngestBinding::validate *)
definition ingest_binding_validate :: "ingest_binding \<Rightarrow> io_error + unit" where
  "ingest_binding_validate b =
    and_then (range_policy_validate (ib_range_policy b)) (\<lambda>_.
    ensure (pr_metric (ib_revisions b) = HISTORY_METRIC_REVISION) MetricRevision)"

definition local_result :: "io_error + 'a \<Rightarrow> sync_error + 'a" where
  "local_result r = (case r of Inl e \<Rightarrow> Inl (Local e) | Inr x \<Rightarrow> Inr x)"

text \<open>\<open>revisions\<close> is what \<open>current_revisions\<close> returns.\<close>

(* remote_sync.rs:1040-1067 build_remote_delta_ingest_binding *)
definition build_remote_delta_ingest_binding ::
  "protocol_revisions \<Rightarrow> host_snapshot \<Rightarrow> string \<Rightarrow> sync_error + ingest_binding" where
  "build_remote_delta_ingest_binding revisions selected profile_id =
    (let h = hs_host selected in
     and_then (ok_or (hc_expected_source h) (HostNotPaired (hc_id h))) (\<lambda>src.
     let policy = \<lparr>gp_window_minutes = 31 * 24 * 60, gp_overlap_minutes = 60, gp_include_live = True\<rparr> in
     and_then (local_result (range_policy_validate policy)) (\<lambda>_.
     let b = \<lparr>ib_protocol_version = REMOTE_PROTOCOL_VERSION, ib_profile_id = profile_id, ib_source = src,
       ib_redaction_profile = (if hc_redact_content h then Redacted else PreviewEnabled),
       ib_revisions = revisions, ib_range_policy = policy\<rparr> in
     and_then (local_result (ingest_binding_validate b)) (\<lambda>_. Inr b))))"

section \<open>Requests\<close>

(* remote_agent.rs:561-577 current_accepted_revisions *)
definition current_accepted_revisions :: "protocol_revisions \<Rightarrow> accepted_revisions" where
  "current_accepted_revisions r =
    (let exact = \<lambda>v. \<lparr>vr_min = v, vr_max = v\<rparr> in
     \<lparr>ar_history_format = exact (pr_history_format r), ar_metric = exact (pr_metric r),
      ar_estimator = exact (pr_estimator r), ar_project_breakdown = exact (pr_project_breakdown r),
      ar_api_pricing_catalog = exact (pr_api_pricing_catalog r),
      ar_model_catalog_fingerprint = pr_model_catalog_fingerprint r\<rparr>)"

text \<open>\<open>version\<close> is the package version of the build.\<close>

(* remote_sync.rs:1085-1109 build_delta_request *)
definition build_delta_request ::
  "string \<Rightarrow> protocol_revisions \<Rightarrow> ingest_binding \<Rightarrow> delta_cursor option \<Rightarrow> u64 option \<Rightarrow> export_range \<Rightarrow> u32
    \<Rightarrow> sync_error + export_request" where
  "build_delta_request version revisions b cursor known_live rg max_page_bytes =
    (case parse_binary_version version of
       Inl e \<Rightarrow> Inl (Protocol e)
     | Inr v \<Rightarrow> Inr \<lparr>rq_protocol_version = REMOTE_PROTOCOL_VERSION, rq_client_version = v,
         rq_expected_source = Some (ib_source b), rq_redaction_profile = ib_redaction_profile b,
         rq_max_page_bytes = max_page_bytes, rq_accepted_revisions = current_accepted_revisions revisions,
         rq_request = DeltaBody \<lparr>dq_delta_cursor = cursor, dq_range = rg, dq_overlap_minutes = 60,
           dq_include_live = True, dq_known_live_revision = known_live\<rparr>\<rparr>)"

(* remote_sync.rs:1111-1116 rolling_range *)
definition rolling_range :: "chrono_range \<Rightarrow> datetime \<Rightarrow> sync_error + export_range" where
  "rolling_range rng t =
    and_then (ok_or (checked_sub_signed rng t (minutes (31 * 24 * 60))) InvalidStartedAt) (\<lambda>from.
    Inr \<lparr>er_from = from, er_to = t\<rparr>)"

(* remote_sync.rs:1118-1125 delta_request *)
definition request_delta :: "export_request \<Rightarrow> sync_error + delta_request" where
  "request_delta q = (case rq_request q of DeltaBody d \<Rightarrow> Inr d | _ \<Rightarrow> Inl UnexpectedResponse)"

text \<open>What the run reads of a delta payload.\<close>

(* remote_protocol.rs:2401-2405 RemoteLiveState *)
record 's live_state =
  lv_live_revision :: u64
  lv_snapshot :: "'s option"

(* remote_protocol.rs:2512-2527 DeltaPayload *)
record ('b, 's) delta_payload =
  dl_bucket_changes :: "'b list"
  dl_session_digest_changes :: "'b list"
  dl_live :: "'s live_state option"

type_synonym ('b, 's) delta_response = "(('b, 's) delta_payload, unit) export_response"

(* remote_sync.rs:1127-1141 validate_bound_envelope *)
definition validate_bound_envelope ::
  "ingest_binding \<Rightarrow> export_request \<Rightarrow> ('d, 'f) export_response \<Rightarrow> sync_error + unit" where
  "validate_bound_envelope b q r = ensure (rq_expected_source q = Some (ib_source b)
     \<and> rq_redaction_profile q = ib_redaction_profile b \<and> rs_source r = ib_source b
     \<and> rs_redaction_profile r = ib_redaction_profile b \<and> rs_revisions r = ib_revisions b)
     UnboundResponseEnvelope"

section \<open>The world\<close>

(* remote_transport.rs:447-456 RemoteExchangeReport *)
record ('b, 's) exchange_report =
  xr_response :: "('b, 's) delta_response"
  xr_elapsed :: timedelta
  xr_request_bytes :: usize
  xr_response_bytes :: usize
  xr_response_decoded_bytes :: usize
  xr_stderr_bytes :: usize

text \<open>
  The methods of \<open>RemoteDeltaTransport\<close> and \<open>RemoteDeltaLocalPhases\<close>, the observation of
  the configuration file, of a busy configuration lock, of the wall clock and of the time
  since the start of the run, and what the run needs of the build and of the payload type.
\<close>

(* remote_sync.rs:520-575 RemoteDeltaLocalPhases *)
record ('w, 'b, 's, 'p) sync_env =
  se_chrono :: chrono_range
  se_version :: string
  se_revisions :: protocol_revisions
  se_checks :: "(('b, 's) delta_payload, unit) payload_checks"
  se_file :: "'w \<Rightarrow> config_file"
  se_busy :: "'w \<Rightarrow> bool"
  se_now :: "'w \<Rightarrow> datetime"
  se_elapsed :: "'w \<Rightarrow> timedelta"
  se_exchange_host :: "host_config \<Rightarrow> export_request \<Rightarrow> timedelta \<Rightarrow> 'w \<Rightarrow> (transport_error + ('b, 's) exchange_report) \<times> 'w"
  se_recover_and_position :: "ingest_binding \<Rightarrow> datetime \<Rightarrow> 'w \<Rightarrow> (io_error + request_position) \<times> 'w"
  se_restart_bootstrap :: "ingest_binding \<Rightarrow> export_request \<Rightarrow> datetime \<Rightarrow> 'w \<Rightarrow> (io_error + request_position) \<times> 'w"
  se_prepare_page :: "ingest_binding \<Rightarrow> export_request \<Rightarrow> ('b, 's) delta_response \<Rightarrow> datetime \<Rightarrow> 'w \<Rightarrow> (io_error + 'p) \<times> 'w"
  se_publish_prepared_page :: "'p \<Rightarrow> 'w \<Rightarrow> (io_error + 'p) \<times> 'w"
  se_finish_page_publication :: "'w \<Rightarrow> (io_error + unit) \<times> 'w"
  se_commit_page :: "ingest_binding \<Rightarrow> export_request \<Rightarrow> ('b, 's) delta_response \<Rightarrow> 'p \<Rightarrow> datetime \<Rightarrow> 'w
    \<Rightarrow> (io_error + request_position) \<times> 'w"

text \<open>The calls of a run, in order, each with the world it was made in.\<close>

datatype ('b, 's) sync_call =
    CallRecover
  | CallExchange export_request
  | CallPrepare
  | CallPublish
  | CallFinish
  | CallCommit export_request "('b, 's) delta_response"
  | CallRestart export_request

record ('w, 'b, 's) sync_state =
  ss_world :: 'w
  ss_calls :: "(('b, 's) sync_call \<times> 'w) list"

type_synonym ('w, 'b, 's, 'r) sync_run =
  "('w, 'b, 's) sync_state \<Rightarrow> (sync_error + 'r) \<times> ('w, 'b, 's) sync_state"

definition sync_return :: "sync_error + 'r \<Rightarrow> ('w, 'b, 's, 'r) sync_run" where
  "sync_return r st = (r, st)"

definition sync_bind ::
  "('w, 'b, 's, 'a) sync_run \<Rightarrow> ('a \<Rightarrow> ('w, 'b, 's, 'r) sync_run) \<Rightarrow> ('w, 'b, 's, 'r) sync_run" where
  "sync_bind m k st = (case m st of (Inl e, st) \<Rightarrow> (Inl e, st) | (Inr x, st) \<Rightarrow> k x st)"

text \<open>Reads the state, for a clock or for the configuration file.\<close>

definition sync_get ::
  "(('w, 'b, 's) sync_state \<Rightarrow> ('w, 'b, 's, 'r) sync_run) \<Rightarrow> ('w, 'b, 's, 'r) sync_run" where
  "sync_get m st = m st st"

definition sync_call ::
  "('b, 's) sync_call \<Rightarrow> ('e \<Rightarrow> sync_error) \<Rightarrow> ('w \<Rightarrow> ('e + 'r) \<times> 'w) \<Rightarrow> ('w, 'b, 's, 'r) sync_run" where
  "sync_call c err op st = (case op (ss_world st) of (r, w) \<Rightarrow>
     (case r of Inl e \<Rightarrow> Inl (err e) | Inr x \<Rightarrow> Inr x,
      \<lparr>ss_world = w, ss_calls = ss_calls st @ [(c, ss_world st)]\<rparr>))"

section \<open>Fences\<close>

(* remote_sync.rs:1143-1156 ensure_config_is_current *)
definition ensure_config_is_current :: "config_file \<Rightarrow> host_snapshot \<Rightarrow> sync_error + unit" where
  "ensure_config_is_current f selected =
    and_then (case store_load f of Inl e \<Rightarrow> Inl (Local (StoreIo e)) | Inr c \<Rightarrow> Inr c) (\<lambda>current.
    ensure (\<not> (rc_config_revision current \<noteq> hs_config_revision selected
      \<or> config_host current (hc_id (hs_host selected)) \<noteq> Some (hs_host selected)))
      (ConfigurationChanged (hc_id (hs_host selected))))"

text \<open>The operation runs under the lock of the configuration, after the check of the file.\<close>

(* remote_sync.rs:1158-1166 with_current_config *)
definition with_current_config ::
  "('w, 'b, 's, 'p) sync_env \<Rightarrow> host_snapshot \<Rightarrow> ('w, 'b, 's, 'r) sync_run \<Rightarrow> ('w, 'b, 's, 'r) sync_run" where
  "with_current_config env selected operation st =
    (case with_current_host (hs_config_revision selected) (hs_host selected) (Inr ()) (se_file env (ss_world st)) of
       Inl e \<Rightarrow> (Inl (Local (StoreIo e)), st)
     | Inr _ \<Rightarrow> operation st)"

(* remote_sync.rs:1168-1186 try_with_current_config *)
definition try_with_current_config ::
  "('w, 'b, 's, 'p) sync_env \<Rightarrow> host_snapshot \<Rightarrow> ('w, 'b, 's, 'r) sync_run \<Rightarrow> ('w, 'b, 's, 'r) sync_run" where
  "try_with_current_config env selected operation st =
    (case try_with_current_host (se_busy env (ss_world st)) (hs_config_revision selected) (hs_host selected)
       (Inr ()) (se_file env (ss_world st)) of
       Inl e \<Rightarrow> (Inl (Local (StoreIo e)), st)
     | Inr (CurrentHost _) \<Rightarrow> operation st
     | Inr HostBusy \<Rightarrow> (Inl (Local ConfigBusy), st)
     | Inr HostChanged \<Rightarrow> (Inl (ConfigurationChanged (hc_id (hs_host selected))), st))"

(* remote_sync.rs:1188-1196 mark_pre_transport_error *)
fun mark_pre_transport_error :: "sync_error \<Rightarrow> sync_error" where
  "mark_pre_transport_error (Local e) = PreTransportLocal e"
| "mark_pre_transport_error (ConfigurationChanged h) = PreTransportConfigurationChanged h"
| "mark_pre_transport_error e = e"

definition mark_pre_transport :: "('w, 'b, 's, 'r) sync_run \<Rightarrow> ('w, 'b, 's, 'r) sync_run" where
  "mark_pre_transport m st = (case m st of
      (Inl e, st) \<Rightarrow> (Inl (mark_pre_transport_error e), st) | (Inr x, st) \<Rightarrow> (Inr x, st))"

definition check_current :: "('w, 'b, 's, 'p) sync_env \<Rightarrow> host_snapshot \<Rightarrow> ('w, 'b, 's, unit) sync_run" where
  "check_current env selected st = (ensure_config_is_current (se_file env (ss_world st)) selected, st)"

(* remote_sync.rs:1069-1083 preflight_remote_delta_position *)
definition preflight_remote_delta_position ::
  "('w, 'b, 's, 'p) sync_env \<Rightarrow> host_snapshot \<Rightarrow> ingest_binding \<Rightarrow> datetime
    \<Rightarrow> ('w, 'b, 's, request_position) sync_run" where
  "preflight_remote_delta_position env selected b observed_at =
    sync_bind (mark_pre_transport (check_current env selected)) (\<lambda>_.
    mark_pre_transport (with_current_config env selected
      (sync_call CallRecover Local (se_recover_and_position env b observed_at))))"

(* remote_sync.rs:1198-1221 ensure_request_position *)
definition ensure_request_position :: "request_position \<Rightarrow> export_request \<Rightarrow> io_error + unit" where
  "ensure_request_position p q = (case rq_request q of
      DeltaBody d \<Rightarrow> ensure (\<not> (rp_delta_cursor p \<noteq> dq_delta_cursor d
        \<or> rp_known_live_revision p \<noteq> dq_known_live_revision d
        \<or> (case rp_exact_range p of Some rg \<Rightarrow> rg \<noteq> dq_range d | None \<Rightarrow> False))) PositionChanged
    | _ \<Rightarrow> Inl NotDelta)"

(* remote_sync.rs:1223-1247 ensure_committed_position *)
definition ensure_committed_position ::
  "request_position \<Rightarrow> export_request \<Rightarrow> delta_page \<Rightarrow> ('b, 's) delta_payload \<Rightarrow> sync_error + unit" where
  "ensure_committed_position position q p x = (case rq_request q of
      DeltaBody d \<Rightarrow> ensure (\<not> (rp_delta_cursor position \<noteq> Some (dp_next_delta_cursor p)
        \<or> rp_exact_range position \<noteq> (if dp_has_more p then Some (dq_range d) else None)
        \<or> rp_known_live_revision position \<noteq> map_option lv_live_revision (dl_live x)))
        (Local InconsistentPosition)
    | _ \<Rightarrow> Inl (Local NotDelta))"

(* remote_sync.rs:1249-1259 ensure_cursorless_bootstrap_position *)
definition ensure_cursorless_bootstrap_position :: "request_position \<Rightarrow> sync_error + unit" where
  "ensure_cursorless_bootstrap_position p =
    ensure (\<not> (rp_delta_cursor p \<noteq> None \<or> rp_exact_range p \<noteq> None)) (Local NotFreshBootstrap)"

section \<open>The page loop\<close>

text \<open>One validated page: prepared without a lock, published and committed under the fence.\<close>

(* remote_sync.rs:960-973 sync_remote_delta_bounded (page commit) *)
definition commit_delta_page ::
  "('w, 'b, 's, 'p) sync_env \<Rightarrow> host_snapshot \<Rightarrow> ingest_binding \<Rightarrow> export_request \<Rightarrow> ('b, 's) delta_response
    \<Rightarrow> delta_page \<Rightarrow> ('b, 's) delta_payload \<Rightarrow> datetime \<Rightarrow> ('w, 'b, 's, request_position) sync_run" where
  "commit_delta_page env selected b q r p x received_at =
    sync_bind (sync_call CallPrepare Local (se_prepare_page env b q r received_at)) (\<lambda>prepared.
    sync_bind (try_with_current_config env selected
      (sync_call CallPublish Local (se_publish_prepared_page env prepared))) (\<lambda>prepared.
    sync_bind (sync_call CallFinish Local (se_finish_page_publication env)) (\<lambda>_.
    sync_bind (try_with_current_config env selected
      (sync_call (CallCommit q r) Local (\<lambda>w. se_commit_page env b q r prepared (se_now env w) w))) (\<lambda>position.
    sync_bind (sync_return (ensure_committed_position position q p x)) (\<lambda>_.
    sync_return (Inr position))))))"

(* remote_sync.rs:1014-1019 sync_remote_delta_bounded (cursor expiry) *)
definition restart_after_expiry ::
  "('w, 'b, 's, 'p) sync_env \<Rightarrow> host_snapshot \<Rightarrow> ingest_binding \<Rightarrow> export_request \<Rightarrow> ('b, 's) delta_response
    \<Rightarrow> ('w, 'b, 's, request_position) sync_run" where
  "restart_after_expiry env selected b q r =
    sync_bind (sync_return (validate_bound_envelope b q r)) (\<lambda>_.
    sync_bind (check_current env selected) (\<lambda>_.
    sync_bind (with_current_config env selected
      (sync_call (CallRestart q) Local (\<lambda>w. se_restart_bootstrap env b q (se_now env w) w))) (\<lambda>position.
    sync_bind (sync_return (ensure_cursorless_bootstrap_position position)) (\<lambda>_.
    sync_return (Inr position)))))"

definition live_changed :: "('b, 's) delta_payload \<Rightarrow> u64 option \<Rightarrow> bool" where
  "live_changed x known = (case dl_live x of
      Some live \<Rightarrow> lv_snapshot live \<noteq> None \<and> Some (lv_live_revision live) \<noteq> known
    | None \<Rightarrow> False)"

definition MAX_REMOTE_SYNC_RUN_TIME :: timedelta where "MAX_REMOTE_SYNC_RUN_TIME = seconds 300"

text \<open>
  The range and the page size of the next request; no request is sent when the remaining
  budget does not admit one framed page.
\<close>

(* remote_sync.rs:913-934 sync_remote_delta_bounded (next request) *)
definition next_request ::
  "('w, 'b, 's, 'p) sync_env \<Rightarrow> ingest_binding \<Rightarrow> datetime \<Rightarrow> request_position \<Rightarrow> usize \<Rightarrow> sync_error + export_request" where
  "next_request env b started_at position remaining =
    (let max_page_bytes = ucast (min (sat_sub remaining REMOTE_FRAME_HEADER_BYTES) MAX_REMOTE_FRAME_ENCODED_BYTES) in
     and_then (case rp_exact_range position of Some rg \<Rightarrow> Inr rg | None \<Rightarrow> rolling_range (se_chrono env) started_at) (\<lambda>rg.
     build_delta_request (se_version env) (se_revisions env) b (rp_delta_cursor position)
       (rp_known_live_revision position) rg max_page_bytes))"

(* remote_sync.rs:940-949 sync_remote_delta_bounded (response budget) *)
definition charge_response :: "sync_limits \<Rightarrow> sync_report \<Rightarrow> usize \<Rightarrow> sync_error + sync_report" where
  "charge_response limits report bytes =
    and_then (ok_or (checked_add (rr_response_bytes report) bytes) ResponseBudgetExceeded) (\<lambda>next_total.
    and_then (ensure (next_total \<le> sl_max_response_bytes limits) ResponseBudgetExceeded) (\<lambda>_.
    Inr (report\<lparr>rr_exchanges := sat_add (rr_exchanges report) 1, rr_response_bytes := next_total\<rparr>)))"

text \<open>What one iteration of the loop does next: return the report, or go on with a position.\<close>

datatype page_outcome = Finished sync_report | NextPage request_position sync_report

(* remote_sync.rs:956-1031 sync_remote_delta_bounded (response) *)
definition handle_response ::
  "('w, 'b, 's, 'p) sync_env \<Rightarrow> host_snapshot \<Rightarrow> ingest_binding \<Rightarrow> export_request \<Rightarrow> ('b, 's) delta_response
    \<Rightarrow> datetime \<Rightarrow> sync_report \<Rightarrow> ('w, 'b, 's, page_outcome) sync_run" where
  "handle_response env selected b q r received_at report = (case rs_result r of
      DeltaResponse p payload \<Rightarrow>
        sync_bind (sync_return (validate_bound_envelope b q r)) (\<lambda>_.
        sync_bind (sync_return (request_delta q)) (\<lambda>d.
        sync_bind (commit_delta_page env selected b q r p payload received_at) (\<lambda>position.
        let report = report\<lparr>rr_pages_committed := rr_pages_committed report + 1,
          rr_changes_committed := rr_changes_committed report
            + of_nat (length (dl_bucket_changes payload) + length (dl_session_digest_changes payload)),
          rr_live_state_changed := rr_live_state_changed report
            \<or> live_changed payload (dq_known_live_revision d)\<rparr> in
        if \<not> dp_has_more p then sync_return (Inr (Finished (report\<lparr>rr_completion := Complete\<rparr>)))
        else sync_return (Inr (NextPage position (report\<lparr>rr_completion := Continuation position\<rparr>))))))
    | FailureResponse failure \<Rightarrow>
        sync_bind (sync_return (request_delta q)) (\<lambda>d.
        if rf_kind failure = CursorExpired \<and> dq_delta_cursor d \<noteq> None
        then sync_bind (restart_after_expiry env selected b q r) (\<lambda>position.
          sync_return (Inr (Finished (report\<lparr>rr_completion := BootstrapRestarted position\<rparr>))))
        else sync_return (Inl (Remote failure)))
    | _ \<Rightarrow> sync_return (Inl UnexpectedResponse))"

definition protocol_result :: "protocol_error + 'a \<Rightarrow> sync_error + 'a" where
  "protocol_result r = (case r of Inl e \<Rightarrow> Inl (Protocol e) | Inr x \<Rightarrow> Inr x)"

(* remote_sync.rs:938-954 sync_remote_delta_bounded (exchange) *)
definition exchange_page ::
  "('w, 'b, 's, 'p) sync_env \<Rightarrow> host_snapshot \<Rightarrow> ingest_binding \<Rightarrow> sync_limits \<Rightarrow> timedelta \<Rightarrow> export_request
    \<Rightarrow> sync_report \<Rightarrow> ('w, 'b, 's, page_outcome) sync_run" where
  "exchange_page env selected b limits remaining_time q report =
    sync_bind (sync_call (CallExchange q) Transport
      (se_exchange_host env (hs_host selected) q (min (sl_exchange_timeout limits) remaining_time))) (\<lambda>x.
    sync_get (\<lambda>st. let received_at = se_now env (ss_world st); r = xr_response x in
      sync_bind (sync_return (charge_response limits report (xr_response_bytes x))) (\<lambda>report.
      sync_bind (sync_return (protocol_result (validate_for_request (se_checks env) r q))) (\<lambda>_.
      handle_response env selected b q r received_at report))))"

(* remote_sync.rs:908-1031 sync_remote_delta_bounded (iteration) *)
definition sync_page ::
  "('w, 'b, 's, 'p) sync_env \<Rightarrow> host_snapshot \<Rightarrow> ingest_binding \<Rightarrow> datetime \<Rightarrow> sync_limits
    \<Rightarrow> request_position \<Rightarrow> sync_report \<Rightarrow> ('w, 'b, 's, page_outcome) sync_run" where
  "sync_page env selected b started_at limits position report = sync_get (\<lambda>st.
     let remaining_time = max 0 (MAX_REMOTE_SYNC_RUN_TIME - se_elapsed env (ss_world st));
         remaining = sat_sub (sl_max_response_bytes limits) (rr_response_bytes report) in
     if remaining_time = 0 \<or> remaining < MIN_REMOTE_RESPONSE_ENCODED_BYTES + REMOTE_FRAME_HEADER_BYTES
     then sync_return (Inr (Finished report))
     else sync_bind (sync_return (next_request env b started_at position remaining)) (\<lambda>q.
       exchange_page env selected b limits remaining_time q report))"

(* remote_sync.rs:908-1031 sync_remote_delta_bounded (loop) *)
fun sync_loop ::
  "('w, 'b, 's, 'p) sync_env \<Rightarrow> host_snapshot \<Rightarrow> ingest_binding \<Rightarrow> datetime \<Rightarrow> sync_limits \<Rightarrow> nat
    \<Rightarrow> request_position \<Rightarrow> sync_report \<Rightarrow> ('w, 'b, 's, sync_report) sync_run" where
  "sync_loop env selected b started_at limits 0 position report = sync_return (Inr report)"
| "sync_loop env selected b started_at limits (Suc n) position report =
    sync_bind (sync_page env selected b started_at limits position report) (\<lambda>outcome. case outcome of
        Finished report \<Rightarrow> sync_return (Inr report)
      | NextPage position report \<Rightarrow> sync_loop env selected b started_at limits n position report)"

(* remote_sync.rs:884-1034 sync_remote_delta_bounded *)
definition sync_remote_delta_bounded ::
  "('w, 'b, 's, 'p) sync_env \<Rightarrow> host_snapshot \<Rightarrow> string \<Rightarrow> datetime \<Rightarrow> sync_limits
    \<Rightarrow> ('w, 'b, 's, sync_report) sync_run" where
  "sync_remote_delta_bounded env selected profile_id started_at limits =
    sync_bind (sync_return (sync_limits_validate limits)) (\<lambda>limits.
    sync_bind (sync_return (build_remote_delta_ingest_binding (se_revisions env) selected profile_id)) (\<lambda>b.
    sync_bind (preflight_remote_delta_position env selected b started_at) (\<lambda>position.
    sync_loop env selected b started_at limits (unat (sl_max_pages limits)) position
      \<lparr>rr_exchanges = 0, rr_pages_committed = 0, rr_changes_committed = 0, rr_live_state_changed = False,
       rr_response_bytes = 0, rr_completion = Continuation position\<rparr>)))"

section \<open>The admitted attempt\<close>

(* remote_sync_attempt.rs:111-115 RemoteAggregateAttemptError *)
datatype attempt_error = AttemptSync sync_error | AttemptSettlement bandwidth_error | AttemptFence sync_error

(* remote_sync_attempt.rs:215-223 remote_sync_error_proves_transport_not_started *)
fun proves_transport_not_started :: "sync_error \<Rightarrow> bool" where
  "proves_transport_not_started (HostNotPaired _) = True"
| "proves_transport_not_started InvalidLimits = True"
| "proves_transport_not_started (PreTransportConfigurationChanged _) = True"
| "proves_transport_not_started (PreTransportLocal _) = True"
| "proves_transport_not_started _ = False"

text \<open>\<open>after\<close> is the caller's selection fence.\<close>

(* remote_sync_attempt.rs:180-191 settle_successful_remote_aggregate *)
definition settle_successful_remote_aggregate ::
  "bandwidth_env \<Rightarrow> reservation \<Rightarrow> sync_report \<Rightarrow> datetime \<Rightarrow> (sync_error + unit) \<Rightarrow> bandwidth_store
    \<Rightarrow> (attempt_error + unit) \<times> bandwidth_store" where
  "settle_successful_remote_aggregate benv v report completed_at after store =
    (case complete_report benv v completed_at report store of
       (Inl e, store) \<Rightarrow> (Inl (AttemptSettlement e), store)
     | (Inr _, store) \<Rightarrow> (case after of Inl e \<Rightarrow> Inl (AttemptFence e) | Inr u \<Rightarrow> Inr u, store))"

text \<open>
  \<open>cancelled_at\<close> and \<open>completed_at\<close> are the wall clock read after a failed and after a
  successful run.
\<close>

(* remote_sync_attempt.rs:141-177 AdmittedRemoteAggregateAttempt::execute *)
definition execute_attempt ::
  "('w, 'b, 's, 'p) sync_env \<Rightarrow> bandwidth_env \<Rightarrow> host_snapshot \<Rightarrow> string \<Rightarrow> reservation \<Rightarrow> datetime \<Rightarrow> sync_limits
    \<Rightarrow> datetime \<Rightarrow> datetime \<Rightarrow> (('w, 'b, 's) sync_state \<Rightarrow> sync_error + unit)
    \<Rightarrow> ('w, 'b, 's) sync_state \<Rightarrow> bandwidth_store
    \<Rightarrow> (attempt_error + sync_report) \<times> ('w, 'b, 's) sync_state \<times> bandwidth_store" where
  "execute_attempt env benv selected profile_id v attempted_at limits cancelled_at completed_at after st store =
    (case sync_remote_delta_bounded env selected profile_id attempted_at limits st of
       (Inl e, st) \<Rightarrow> (Inl (AttemptSync e), st,
          if proves_transport_not_started e
          then snd (cancel_attempt benv v (max cancelled_at (rv_started_at v)) store) else store)
     | (Inr report, st) \<Rightarrow>
         (case settle_successful_remote_aggregate benv v report (max completed_at (rv_started_at v)) (after st) store of
            (Inl e, store) \<Rightarrow> (Inl e, st, store)
          | (Inr _, store) \<Rightarrow> (Inr report, st, store)))"

end
