(* ===== verification/Sync_Safety.thy ===== *)
theory Sync_Safety
  imports Remote_Sync Remotes_Safety Bandwidth_Safety Protocol_Safety
begin

text \<open>
  Correctness of a synchronization run: weakest preconditions of the phases, one invariant of
  the page loop over the recorded calls, and from it the fences, the order of the pages, the
  bounds of a run, the settlement of the reservation and the response budget.
\<close>

section \<open>Specification\<close>

definition wp ::
  "('w, 'b, 's, 'r) sync_run \<Rightarrow> (sync_error + 'r \<Rightarrow> ('w, 'b, 's) sync_state \<Rightarrow> bool) \<Rightarrow> ('w, 'b, 's) sync_state \<Rightarrow> bool" where
  "wp m Q st = (case m st of (r, st') \<Rightarrow> Q r st')"

definition on_ok :: "(sync_error + 'r \<Rightarrow> 'a \<Rightarrow> bool) \<Rightarrow> ('x \<Rightarrow> 'a \<Rightarrow> bool) \<Rightarrow> sync_error + 'x \<Rightarrow> 'a \<Rightarrow> bool" where
  "on_ok Q K r st = (case r of Inl e \<Rightarrow> Q (Inl e) st | Inr x \<Rightarrow> K x st)"

definition current :: "('w, 'b, 's, 'p) sync_env \<Rightarrow> host_snapshot \<Rightarrow> 'w \<Rightarrow> bool" where
  "current env selected w = (\<exists>c. read_config (se_file env w) = Inr c
     \<and> rc_config_revision c = hs_config_revision selected
     \<and> config_host c (hc_id (hs_host selected)) = Some (hs_host selected))"

text \<open>
  The rule of the page loop: what has to hold at each exit of one iteration, and the loop
  invariant for the next one.
\<close>

definition charged :: "sync_limits \<Rightarrow> sync_report \<Rightarrow> usize \<Rightarrow> sync_report \<Rightarrow> bool" where
  "charged limits report bytes report' = (unat (rr_response_bytes report) + unat bytes \<le> unat (sl_max_response_bytes limits)
     \<and> report' = report\<lparr>rr_exchanges := sat_add (rr_exchanges report) 1,
         rr_response_bytes := rr_response_bytes report + bytes\<rparr>)"

fun request_of :: "('b, 's) sync_call \<times> 'w \<Rightarrow> export_request list" where
  "request_of (CallExchange q, _) = [q]"
| "request_of _ = []"

fun commit_of :: "('b, 's) sync_call \<times> 'w \<Rightarrow> (export_request \<times> ('b, 's) delta_response) list" where
  "commit_of (CallCommit q r, _) = [(q, r)]"
| "commit_of _ = []"

definition requests :: "(('b, 's) sync_call \<times> 'w) list \<Rightarrow> export_request list" where
  "requests calls = concat (List.map request_of calls)"

definition commits :: "(('b, 's) sync_call \<times> 'w) list \<Rightarrow> (export_request \<times> ('b, 's) delta_response) list" where
  "commits calls = concat (List.map commit_of calls)"

fun fence_required :: "('b, 's) sync_call \<Rightarrow> bool" where
  "fence_required (CallExchange _) = False"
| "fence_required CallPrepare = False"
| "fence_required CallFinish = False"
| "fence_required _ = True"

definition fenced :: "('w, 'b, 's, 'p) sync_env \<Rightarrow> host_snapshot \<Rightarrow> (('b, 's) sync_call \<times> 'w) list \<Rightarrow> bool" where
  "fenced env selected calls = list_all (\<lambda>(c, w). fence_required c \<longrightarrow> current env selected w) calls"

definition commit_ok :: "('w, 'b, 's, 'p) sync_env \<Rightarrow> ingest_binding \<Rightarrow> export_request \<times> ('b, 's) delta_response \<Rightarrow> bool" where
  "commit_ok env b = (\<lambda>(q, r). validate_for_request (se_checks env) r q = Inr () \<and> validate_bound_envelope b q r = Inr ()
     \<and> (\<exists>d p x. rq_request q = DeltaBody d \<and> rs_result r = DeltaResponse p x))"

text \<open>The page that a commit stores, and the delta parameters of its request.\<close>

definition page_of :: "export_request \<times> ('b, 's) delta_response \<Rightarrow> delta_page" where
  "page_of c = (case rs_result (snd c) of DeltaResponse p _ \<Rightarrow> p)"

definition delta_of :: "export_request \<Rightarrow> delta_request" where
  "delta_of q = (case rq_request q of DeltaBody d \<Rightarrow> d)"

text \<open>The second page continues the first one: same range, next sequence, or nothing new.\<close>

definition continues :: "export_request \<times> ('b, 's) delta_response \<Rightarrow> export_request \<Rightarrow> bool" where
  "continues c q = (dq_delta_cursor (delta_of q) = Some (dp_next_delta_cursor (page_of c))
     \<and> dq_range (delta_of q) = dq_range (delta_of (fst c)) \<and> dp_has_more (page_of c))"

definition follows :: "export_request \<times> ('b, 's) delta_response \<Rightarrow> export_request \<times> ('b, 's) delta_response \<Rightarrow> bool" where
  "follows c c' = (continues c (fst c') \<and> dp_generation (page_of c') = dp_generation (page_of c)
     \<and> (if dp_through_sequence (page_of c') = dp_through_sequence (page_of c)
        then dp_from_sequence (page_of c') = dp_through_sequence (page_of c) \<and> \<not> dp_has_more (page_of c')
        else dp_through_sequence (page_of c) < dp_through_sequence (page_of c')
          \<and> unat (dp_from_sequence (page_of c')) = unat (dp_through_sequence (page_of c)) + 1))"

definition sound_calls ::
  "('w, 'b, 's, 'p) sync_env \<Rightarrow> host_snapshot \<Rightarrow> ingest_binding \<Rightarrow> (('b, 's) sync_call \<times> 'w) list \<Rightarrow> bool" where
  "sound_calls env selected b calls = (fenced env selected calls \<and> list_all (commit_ok env b) (commits calls)
     \<and> successively follows (commits calls))"

text \<open>At the head of the loop every request was answered and its page committed.\<close>

definition at_head ::
  "('w, 'b, 's, 'p) sync_env \<Rightarrow> host_snapshot \<Rightarrow> ingest_binding \<Rightarrow> request_position
    \<Rightarrow> (('b, 's) sync_call \<times> 'w) list \<Rightarrow> bool" where
  "at_head env selected b position calls = (sound_calls env selected b calls
     \<and> List.map fst (commits calls) = requests calls
     \<and> (commits calls \<noteq> [] \<longrightarrow> rp_delta_cursor position = Some (dp_next_delta_cursor (page_of (last (commits calls))))
        \<and> rp_exact_range position = Some (dq_range (delta_of (fst (last (commits calls)))))
        \<and> dp_has_more (page_of (last (commits calls)))))"

text \<open>After an exchange: the last request is still to be committed.\<close>

definition in_page ::
  "('w, 'b, 's, 'p) sync_env \<Rightarrow> host_snapshot \<Rightarrow> ingest_binding \<Rightarrow> export_request
    \<Rightarrow> (('b, 's) sync_call \<times> 'w) list \<Rightarrow> bool" where
  "in_page env selected b q calls = (sound_calls env selected b calls
     \<and> requests calls = List.map fst (commits calls) @ [q] \<and> (\<exists>d. rq_request q = DeltaBody d)
     \<and> (commits calls \<noteq> [] \<longrightarrow> continues (last (commits calls)) q))"

definition at_exit ::
  "('w, 'b, 's, 'p) sync_env \<Rightarrow> host_snapshot \<Rightarrow> ingest_binding \<Rightarrow> (('b, 's) sync_call \<times> 'w) list \<Rightarrow> bool" where
  "at_exit env selected b calls = (sound_calls env selected b calls
     \<and> (\<exists>rest. requests calls = List.map fst (commits calls) @ rest \<and> length rest \<le> 1))"

definition late :: "sync_error \<Rightarrow> bool" where
  "late e = (\<not> proves_transport_not_started e)"

definition failed_page ::
  "('w, 'b, 's, 'p) sync_env \<Rightarrow> host_snapshot \<Rightarrow> ingest_binding \<Rightarrow> (('b, 's) sync_call \<times> 'w) list
    \<Rightarrow> sync_error \<Rightarrow> ('w, 'b, 's) sync_state \<Rightarrow> bool" where
  "failed_page env selected b calls e st = (late e \<and> at_exit env selected b (ss_calls st)
     \<and> requests (ss_calls st) = requests calls)"

text \<open>The report counts the calls.\<close>

definition counted :: "sync_limits \<Rightarrow> (('b, 's) sync_call \<times> 'w) list \<Rightarrow> sync_report \<Rightarrow> bool" where
  "counted limits calls report = (unat (rr_exchanges report) = length (requests calls)
     \<and> unat (rr_pages_committed report) = length (commits calls)
     \<and> unat (rr_response_bytes report) \<le> unat (sl_max_response_bytes limits))"

definition page_post ::
  "('w, 'b, 's, 'p) sync_env \<Rightarrow> host_snapshot \<Rightarrow> ingest_binding \<Rightarrow> sync_limits \<Rightarrow> nat
    \<Rightarrow> sync_error + page_outcome \<Rightarrow> ('w, 'b, 's) sync_state \<Rightarrow> bool" where
  "page_post env selected b limits n r st = (length (requests (ss_calls st)) \<le> n \<and> (case r of
      Inl e \<Rightarrow> late e \<and> at_exit env selected b (ss_calls st)
    | Inr (Finished report) \<Rightarrow> at_exit env selected b (ss_calls st) \<and> counted limits (ss_calls st) report
    | Inr (NextPage position report) \<Rightarrow> at_head env selected b position (ss_calls st) \<and> counted limits (ss_calls st) report))"

definition run_post ::
  "('w, 'b, 's, 'p) sync_env \<Rightarrow> host_snapshot \<Rightarrow> ingest_binding \<Rightarrow> sync_limits \<Rightarrow> nat
    \<Rightarrow> sync_error + sync_report \<Rightarrow> ('w, 'b, 's) sync_state \<Rightarrow> bool" where
  "run_post env selected b limits n r st = (length (requests (ss_calls st)) \<le> n \<and> at_exit env selected b (ss_calls st)
     \<and> (case r of Inl e \<Rightarrow> late e | Inr report \<Rightarrow> counted limits (ss_calls st) report))"

definition started :: "'w \<Rightarrow> ('w, 'b, 's) sync_state" where
  "started w = \<lparr>ss_world = w, ss_calls = []\<rparr>"

text \<open>
  The transport returns a response that it decoded from the frame it received, and counts
  the bytes of the frame.
\<close>

definition framed_transport ::
  "('w, 'b, 's, 'p) sync_env \<Rightarrow> ('b, 's) delta_response codec \<Rightarrow> frame_limits \<Rightarrow> bool" where
  "framed_transport env cd frame_limits = (\<forall>host q t w x w'. se_exchange_host env host q t w = (Inr x, w')
     \<longrightarrow> (\<exists>frame. decode_remote_response_for_request cd (se_checks env) frame q frame_limits = Inr (xr_response x)
           \<and> xr_response_bytes x = of_nat (length frame)))"

definition budget_kept :: "sync_error + 'r \<Rightarrow> ('w, 'b, 's) sync_state \<Rightarrow> bool" where
  "budget_kept r st = (r \<noteq> Inl ResponseBudgetExceeded)"

text \<open>
  A world of one page: the configuration pairs and enables one host, the remote answers the
  bootstrap request with a final page, and the local phases accept it.
\<close>

definition sample_config :: remotes_config where
  "sample_config = remotes_config_default\<lparr>rc_config_revision := 4, rc_auto_sync_enabled := True,
     rc_hosts := [sample_host\<lparr>hc_sync_enabled := True, hc_expected_source := Some sample_source\<rparr>]\<rparr>"

definition sample_config_file :: config_file where
  "sample_config_file = (case serialize_config sample_config of Inr f \<Rightarrow> ConfigFile f | Inl _ \<Rightarrow> NoFile)"

definition sample_revisions :: protocol_revisions where
  "sample_revisions = \<lparr>pr_history_format = 1, pr_metric = 5, pr_estimator = 1, pr_project_breakdown = 2,
     pr_api_pricing_catalog = 1, pr_model_catalog_fingerprint = ''f''\<rparr>"

definition sample_page :: delta_page where
  "sample_page = \<lparr>dp_generation = 1, dp_from_sequence = 1, dp_through_sequence = 3,
     dp_next_delta_cursor = \<lparr>dc_generation = 1, dc_sequence = 3\<rparr>, dp_has_more = False\<rparr>"

definition sample_response :: "(nat, nat) delta_response" where
  "sample_response = \<lparr>rs_protocol_version = 5, rs_server_version = ''1'', rs_source = sample_source,
     rs_redaction_profile = Redacted, rs_revisions = sample_revisions, rs_observed_at = 0,
     rs_timing = \<lparr>rt_remote_received_at = 0, rt_remote_sent_at = 0\<rparr>,
     rs_result = DeltaResponse sample_page
       \<lparr>dl_bucket_changes = [1, 2], dl_session_digest_changes = [3], dl_live = None\<rparr>\<rparr>"

definition sample_sync_env :: "(nat, nat, nat, unit) sync_env" where
  "sample_sync_env = \<lparr>se_chrono = \<lparr>min_utc = - hours 1000000, max_utc = hours 1000000\<rparr>, se_version = ''1.0'',
     se_revisions = sample_revisions,
     se_checks = \<lparr>pk_delta_payload = (\<lambda>_. Inr ()), pk_delta_context = (\<lambda>_ _. Inr ()),
       pk_fact_payload = (\<lambda>_. Inr ()), pk_fact_context = (\<lambda>_ _. Inr ())\<rparr>,
     se_file = (\<lambda>_. sample_config_file), se_busy = (\<lambda>_. False), se_now = (\<lambda>w. int w), se_elapsed = (\<lambda>_. 0),
     se_exchange_host = (\<lambda>_ _ _ w. (Inr \<lparr>xr_response = sample_response, xr_elapsed = 1, xr_request_bytes = 100,
       xr_response_bytes = 1000, xr_response_decoded_bytes = 2000, xr_stderr_bytes = 0\<rparr>, w + 1)),
     se_recover_and_position = (\<lambda>_ _ w. (Inr \<lparr>rp_delta_cursor = None, rp_exact_range = None,
       rp_known_live_revision = None\<rparr>, w + 1)),
     se_restart_bootstrap = (\<lambda>_ _ _ w. (Inl (PhaseIo ''unused''), w)),
     se_prepare_page = (\<lambda>_ _ _ _ w. (Inr (), w)),
     se_publish_prepared_page = (\<lambda>_ w. (Inr (), w)),
     se_finish_page_publication = (\<lambda>w. (Inr (), w)),
     se_commit_page = (\<lambda>_ _ _ _ _ w. (Inr \<lparr>rp_delta_cursor = Some \<lparr>dc_generation = 1, dc_sequence = 3\<rparr>,
       rp_exact_range = None, rp_known_live_revision = None\<rparr>, w + 1))\<rparr>"

definition sample_snapshot :: host_snapshot where
  "sample_snapshot = \<lparr>hs_config_revision = 4,
     hs_host = sample_host\<lparr>hc_sync_enabled := True, hc_expected_source := Some sample_source\<rparr>\<rparr>"

definition sample_run :: "(sync_error + sync_report) \<times> (nat, nat, nat) sync_state" where
  "sample_run = sync_remote_delta_bounded sample_sync_env sample_snapshot ''profile'' (hours 1000)
     sync_limits_default (started 0)"

definition sample_framed_env :: "(nat, nat, nat, unit) sync_env" where
  "sample_framed_env = sample_sync_env\<lparr>se_exchange_host := (\<lambda>_ q _ w.
     case decode_remote_response_for_request (sample_codec sample_response) (se_checks sample_sync_env) sample_frame q
       frame_limits_default of
       Inl _ \<Rightarrow> (Inl (TransportProtocol InvalidMessage), w)
     | Inr r \<Rightarrow> (Inr \<lparr>xr_response = r, xr_elapsed = 1, xr_request_bytes = 100,
         xr_response_bytes = of_nat (length sample_frame), xr_response_decoded_bytes = 2, xr_stderr_bytes = 0\<rparr>, w + 1))\<rparr>"

definition sample_admission :: "(bandwidth_error + admission) \<times> bandwidth_store" where
  "sample_admission = begin_sync_attempt sample_env ''lab'' (Some ''node-1'') (hours 400000) Manual 1048576 4 None"

definition sample_limits :: sync_limits where
  "sample_limits = \<lparr>sl_max_pages = 4, sl_max_response_bytes = 1048576, sl_exchange_timeout = seconds 60\<rparr>"

definition sample_attempt ::
  "reservation \<Rightarrow> (attempt_error + sync_report) \<times> (nat, nat, nat) sync_state \<times> bandwidth_store" where
  "sample_attempt v = execute_attempt sample_sync_env sample_env sample_snapshot ''profile'' v (hours 400000)
     sample_limits (hours 400000) (hours 400001) (\<lambda>_. Inr ()) (started 0) (snd sample_admission)"

section \<open>Weakest preconditions\<close>

lemma on_ok_simps [simp]: "on_ok Q K (Inl e) st = Q (Inl e) st" "on_ok Q K (Inr x) st = K x st"
  by (simp_all add: on_ok_def)

lemma on_okI:
  "(\<And>e. r = Inl e \<Longrightarrow> Q (Inl e) st) \<Longrightarrow> (\<And>x. r = Inr x \<Longrightarrow> K x st) \<Longrightarrow> on_ok Q K r st"
  by (cases r) simp_all

lemma wp_return [simp]: "wp (sync_return r) Q st = Q r st"
  by (simp add: wp_def sync_return_def)

lemma wp_bind [simp]: "wp (sync_bind m k) Q st = wp m (on_ok Q (\<lambda>x. wp (k x) Q)) st"
  by (auto simp: wp_def sync_bind_def split: prod.splits sum.splits)

lemma wp_get [simp]: "wp (sync_get m) Q st = wp (m st) Q st"
  by (simp add: wp_def sync_get_def)

lemma wp_mono: "wp m Q st \<Longrightarrow> (\<And>r st'. Q r st' \<Longrightarrow> Q' r st') \<Longrightarrow> wp m Q' st"
  by (auto simp: wp_def)

lemma wp_call:
  assumes "\<And>e w. Q (Inl (err e)) \<lparr>ss_world = w, ss_calls = ss_calls st @ [(c, ss_world st)]\<rparr>"
    and "\<And>x w. op (ss_world st) = (Inr x, w) \<Longrightarrow> Q (Inr x) \<lparr>ss_world = w, ss_calls = ss_calls st @ [(c, ss_world st)]\<rparr>"
  shows "wp (sync_call c err op) Q st"
  using assms by (auto simp: wp_def sync_call_def split: prod.splits sum.splits)

lemma wp_with_current:
  assumes "\<And>e. Q (Inl (Local (StoreIo e))) st"
    and "current env selected (ss_world st) \<Longrightarrow> wp op Q st"
  shows "wp (with_current_config env selected op) Q st"
  using assms
  by (auto simp: wp_def with_current_config_def with_current_host_def ensure_expected_revision_def
    ensure_expected_host_def result_simps current_def split: sum.splits)

lemma wp_try_with_current:
  assumes "\<And>e. Q (Inl (Local e)) st" "Q (Inl (ConfigurationChanged (hc_id (hs_host selected)))) st"
    and "current env selected (ss_world st) \<Longrightarrow> wp op Q st"
  shows "wp (try_with_current_config env selected op) Q st"
  using assms
  by (auto simp: wp_def try_with_current_config_def try_with_current_host_def result_simps current_def
    split: sum.splits try_current_host.splits if_splits)

lemma wp_check_current:
  assumes "\<And>e. Q (Inl (Local e)) st" "Q (Inl (ConfigurationChanged (hc_id (hs_host selected)))) st"
    and "current env selected (ss_world st) \<Longrightarrow> Q (Inr ()) st"
  shows "wp (check_current env selected) Q st"
  using assms
  by (auto simp: wp_def check_current_def ensure_config_is_current_def store_load_def current_def ensure_def
    split: sum.splits)

lemma wp_mark [simp]:
  "wp (mark_pre_transport m) Q st = wp m (\<lambda>r. Q (case r of Inl e \<Rightarrow> Inl (mark_pre_transport_error e) | Inr x \<Rightarrow> Inr x)) st"
  by (auto simp: wp_def mark_pre_transport_def split: prod.splits sum.splits)

section \<open>One iteration\<close>

lemma charge_response_Inr:
  "charge_response limits report bytes = Inr report' \<longleftrightarrow> charged limits report bytes report'"
  using unat_bound [of "sl_max_response_bytes limits"]
  by (auto simp: charge_response_def charged_def result_simps checked_add_def word_le_nat_alt unat_word_ariths)

lemma charge_response_Inl: "charge_response limits report bytes = Inl e \<Longrightarrow> e = ResponseBudgetExceeded"
  by (auto simp: charge_response_def result_simps)

section \<open>The calls of a run\<close>

lemma calls_simps [simp]:
  "requests [] = []" "requests (c # cs) = request_of c @ requests cs" "requests (cs @ ds) = requests cs @ requests ds"
  "commits [] = []" "commits (c # cs) = commit_of c @ commits cs" "commits (cs @ ds) = commits cs @ commits ds"
  by (simp_all add: requests_def commits_def)

lemma fenced_simps [simp]:
  "fenced env selected []"
  "fenced env selected ((c, w) # cs) = ((fence_required c \<longrightarrow> current env selected w) \<and> fenced env selected cs)"
  "fenced env selected (cs @ ds) = (fenced env selected cs \<and> fenced env selected ds)"
  by (auto simp: fenced_def)

lemma at_head_exit: "at_head env selected b position calls \<Longrightarrow> at_exit env selected b calls"
  by (auto simp: at_head_def at_exit_def)

lemma in_page_exit: "in_page env selected b q calls \<Longrightarrow> at_exit env selected b calls"
  by (auto simp: in_page_def at_exit_def)

text \<open>Calls that neither ask nor commit keep the phase.\<close>

lemma same_phase:
  assumes "fenced env selected calls'" "requests calls' = requests calls" "commits calls' = commits calls"
  shows "in_page env selected b q calls \<Longrightarrow> at_exit env selected b calls'"
    and "at_head env selected b p calls \<Longrightarrow> at_head env selected b p calls'"
  using assms by (auto simp: in_page_def at_head_def at_exit_def sound_calls_def)

lemma phase_fenced:
  "in_page env selected b q calls \<Longrightarrow> fenced env selected calls"
  "at_head env selected b p calls \<Longrightarrow> fenced env selected calls"
  by (auto simp: in_page_def at_head_def sound_calls_def)

section \<open>Pages\<close>

lemma page_validated:
  assumes "validate_for_request k r q = Inr ()" "rs_result r = DeltaResponse p x" "rq_request q = DeltaBody d"
  shows "delta_page_validate p = Inr ()" "validate_delta_page_for_request d p = Inr ()"
  using assms by (auto simp: validate_for_request_def response_validate_def result_simps)

lemma follows_validated:
  assumes "commit_ok env b c" "commit_ok env b c'" "continues c (fst c')"
  shows "follows c c'"
proof -
  obtain q r q' r' where c: "c = (q, r)" "c' = (q', r')" by (metis prod.exhaust)
  obtain d p x where p: "rq_request q = DeltaBody d" "rs_result r = DeltaResponse p x"
    using assms(1) by (auto simp: c commit_ok_def)
  obtain d' p' x' where p': "rq_request q' = DeltaBody d'" "rs_result r' = DeltaResponse p' x'"
    using assms(2) by (auto simp: c commit_ok_def)
  have "delta_page_validate p = Inr ()" "validate_delta_page_for_request d' p' = Inr ()"
    using assms(1,2) page_validated p p' by (auto simp: c commit_ok_def)
  with assms(3) show ?thesis
    by (auto simp: c follows_def continues_def page_of_def delta_of_def p p' delta_page_validate_def
      validate_delta_page_for_request_def result_simps checked_iffs not_less split: if_splits)
qed

section \<open>The phases of a page\<close>

lemma late_simps [simp]:
  "late (Local i)" "late (ConfigurationChanged h)" "late UnboundResponseEnvelope" "late UnexpectedResponse"
  "late (Remote f)" "late (Protocol p)" "late (Transport t)" "late ResponseBudgetExceeded" "late InvalidStartedAt"
  by (simp_all add: late_def)

lemma in_page_commit:
  assumes page: "in_page env selected b q calls" and ok: "commit_ok env b (q, r)"
    and calls': "fenced env selected calls'" "requests calls' = requests calls"
      "commits calls' = commits calls \<or> commits calls' = commits calls @ [(q, r)]"
  shows "at_exit env selected b calls'"
proof -
  have "follows (last (commits calls)) (q, r)" if "commits calls \<noteq> []"
    using page ok that
    by (intro follows_validated [of env b]) (auto simp: in_page_def sound_calls_def list_all_iff)
  then show ?thesis
    using page ok calls' by (elim disjE) (auto simp: in_page_def at_exit_def sound_calls_def successively_append_iff)
qed

lemma ensure_committed_Inr:
  "ensure_committed_position position q p x = Inr u \<longleftrightarrow> (\<exists>d. rq_request q = DeltaBody d
    \<and> rp_delta_cursor position = Some (dp_next_delta_cursor p)
    \<and> rp_exact_range position = (if dp_has_more p then Some (dq_range d) else None)
    \<and> rp_known_live_revision position = map_option lv_live_revision (dl_live x))"
  by (auto simp: ensure_committed_position_def result_simps split: request_body.splits)

lemma ensure_committed_Inl: "ensure_committed_position position q p x = Inl e \<Longrightarrow> late e"
  by (auto simp: ensure_committed_position_def result_simps split: request_body.splits)

lemma wp_commit_delta_page:
  assumes page: "in_page env selected b q (ss_calls st)" and ok: "commit_ok env b (q, r)"
    and error: "\<And>e st'. failed_page env selected b (ss_calls st) e st' \<Longrightarrow> Q (Inl e) st'"
    and success: "\<And>position st'. at_exit env selected b (ss_calls st') \<Longrightarrow> requests (ss_calls st') = requests (ss_calls st)
      \<Longrightarrow> commits (ss_calls st') = commits (ss_calls st) @ [(q, r)]
      \<Longrightarrow> ensure_committed_position position q p x = Inr () \<Longrightarrow> Q (Inr position) st'"
  shows "wp (commit_delta_page env selected b q r p x received_at) Q st"
  unfolding commit_delta_page_def
  using page
  by (auto intro!: wp_call wp_try_with_current error success on_okI in_page_commit [OF page ok]
    simp: failed_page_def phase_fenced in_page_exit ensure_committed_Inl)

lemma wp_restart_after_expiry:
  assumes page: "in_page env selected b q (ss_calls st)"
    and error: "\<And>e st'. failed_page env selected b (ss_calls st) e st' \<Longrightarrow> Q (Inl e) st'"
    and success: "\<And>position st'. at_exit env selected b (ss_calls st') \<Longrightarrow> requests (ss_calls st') = requests (ss_calls st)
      \<Longrightarrow> commits (ss_calls st') = commits (ss_calls st) \<Longrightarrow> Q (Inr position) st'"
  shows "wp (restart_after_expiry env selected b q r) Q st"
  unfolding restart_after_expiry_def
  using page
  by (auto intro!: wp_call wp_with_current wp_check_current error success on_okI same_phase(1) [OF _ _ _ page]
    simp: failed_page_def phase_fenced in_page_exit validate_bound_envelope_def
      ensure_cursorless_bootstrap_position_def result_simps)

lemma unat_Suc_small: "unat w < 100 \<Longrightarrow> unat (w + 1) = unat w + 1" for w :: usize
  by (simp add: unat_word_ariths)

lemma handle_response_post:
  assumes page: "in_page env selected b q (ss_calls st)"
    and valid: "validate_for_request (se_checks env) r q = Inr ()"
    and report: "unat (rr_exchanges report) = length (requests (ss_calls st))"
      "unat (rr_pages_committed report) = length (commits (ss_calls st))"
      "unat (rr_response_bytes report) \<le> unat (sl_max_response_bytes limits)"
    and n: "length (requests (ss_calls st)) \<le> n" "n \<le> 32"
  shows "wp (handle_response env selected b q r received_at report) (page_post env selected b limits n) st"
proof -
  obtain d where d: "rq_request q = DeltaBody d" using page by (auto simp: in_page_def)
  have small: "unat (rr_pages_committed report) < 100" using page report(2) n by (auto simp: in_page_def)
  have fail: "page_post env selected b limits n (Inl e) st'" if "failed_page env selected b (ss_calls st) e st'" for e st'
    using that n by (auto simp: page_post_def failed_page_def)
  have here: "failed_page env selected b (ss_calls st) e st" if "late e" for e
    using that page by (simp add: failed_page_def in_page_exit)
  show ?thesis
  proof (cases "rs_result r")
    case (DeltaResponse p x)
    have commit: "commit_ok env b (q, r)" if "validate_bound_envelope b q r = Inr ()"
      using that valid d DeltaResponse by (auto simp: commit_ok_def)
    have head: "at_head env selected b position (ss_calls st')"
      if "at_exit env selected b (ss_calls st')" "requests (ss_calls st') = requests (ss_calls st)"
        "commits (ss_calls st') = commits (ss_calls st) @ [(q, r)]"
        "ensure_committed_position position q p x = Inr ()" "dp_has_more p" for position st'
      using that page d DeltaResponse
      by (auto simp: at_head_def at_exit_def in_page_def ensure_committed_Inr page_of_def delta_of_def)
    show ?thesis
      using n small report page
      by (auto simp: handle_response_def DeltaResponse request_delta_def d Let_def unat_Suc_small page_post_def
        counted_def head here validate_bound_envelope_def result_simps in_page_exit
        intro!: on_okI wp_commit_delta_page [OF page commit] fail)
  next
    case (FailureResponse f)
    show ?thesis
      using n report page
      by (auto simp: handle_response_def FailureResponse request_delta_def d page_post_def counted_def in_page_exit
        failed_page_def intro!: wp_restart_after_expiry [OF page])
  qed (use n page in \<open>auto simp: handle_response_def page_post_def in_page_exit\<close>)
qed

text \<open>The request of a page continues the last committed one.\<close>

lemma next_request_Inr:
  assumes "next_request env b started_at position remaining = Inr q"
  shows "\<exists>d. rq_request q = DeltaBody d \<and> dq_delta_cursor d = rp_delta_cursor position
    \<and> (rp_exact_range position = None \<or> rp_exact_range position = Some (dq_range d))
    \<and> rq_max_page_bytes q = ucast (min (sat_sub remaining REMOTE_FRAME_HEADER_BYTES) MAX_REMOTE_FRAME_ENCODED_BYTES)
    \<and> rq_expected_source q = Some (ib_source b) \<and> rq_redaction_profile q = ib_redaction_profile b"
  using assms
  by (cases "parse_binary_version (se_version env)"; cases "rp_exact_range position")
    (auto simp: next_request_def build_delta_request_def result_simps Let_def)

lemma next_request_Inl: "next_request env b started_at position remaining = Inl e \<Longrightarrow> late e"
  by (cases "parse_binary_version (se_version env)"; cases "rp_exact_range position")
    (auto simp: next_request_def build_delta_request_def rolling_range_def result_simps Let_def)

lemma head_exchange:
  assumes "at_head env selected b position calls" "next_request env b started_at position remaining = Inr q"
  shows "in_page env selected b q (calls @ [(CallExchange q, w)])"
  using assms(1) next_request_Inr [OF assms(2)]
  by (auto simp: at_head_def in_page_def sound_calls_def continues_def delta_of_def)

lemma exchange_page_post:
  assumes page: "in_page env selected b q (ss_calls st @ [(CallExchange q, ss_world st)])"
    and report: "counted limits (ss_calls st) report" and n: "length (requests (ss_calls st)) < n" "n \<le> 32"
  shows "wp (exchange_page env selected b limits t q report) (page_post env selected b limits n) st"
proof -
  let ?calls = "ss_calls st @ [(CallExchange q, ss_world st)]"
  have fail: "page_post env selected b limits n (Inl e) \<lparr>ss_world = w, ss_calls = ?calls\<rparr>" if "late e" for e w
    using that in_page_exit [OF page] n by (simp add: page_post_def)
  have ex: "unat (sat_add (rr_exchanges report) 1) = unat (rr_exchanges report) + 1"
    using report n by (simp add: counted_def sat_add_def checked_add_def unat_word_ariths)
  have bytes: "unat (rr_response_bytes report + x) \<le> unat (sl_max_response_bytes limits)"
    if "unat (rr_response_bytes report) + unat x \<le> unat (sl_max_response_bytes limits)" for x
    using that unat_bound [of "sl_max_response_bytes limits"] by (simp add: unat_word_ariths)
  have run: "wp (handle_response env selected b q r t' report') (page_post env selected b limits n) \<lparr>ss_world = w, ss_calls = ?calls\<rparr>"
    if "validate_for_request (se_checks env) r q = Inr ()" "charged limits report x report'" for r t' report' w x
    using that report n page
    by (intro handle_response_post) (auto simp: charged_def counted_def ex bytes)
  show ?thesis
    unfolding exchange_page_def wp_bind Let_def
    by (rule wp_call) (auto intro!: on_okI fail run simp: charge_response_Inr
      protocol_result_def dest: charge_response_Inl split: sum.splits)
qed

section \<open>The loop\<close>

lemma sync_page_post:
  assumes head: "at_head env selected b position (ss_calls st)" and report: "counted limits (ss_calls st) report"
    and n: "length (requests (ss_calls st)) < n" "n \<le> 32"
  shows "wp (sync_page env selected b started_at limits position report) (page_post env selected b limits n) st"
  using assms
  by (auto simp: sync_page_def Let_def page_post_def [of _ _ _ _ _ "Inl _"] page_post_def [of _ _ _ _ _ "Inr (Finished _)"]
    at_head_exit next_request_Inl intro!: on_okI exchange_page_post head_exchange [OF head])

lemma sync_loop_post:
  assumes "at_head env selected b position (ss_calls st)" "counted limits (ss_calls st) report"
    and "length (requests (ss_calls st)) + k \<le> n" "n \<le> 32"
  shows "wp (sync_loop env selected b started_at limits k position report) (run_post env selected b limits n) st"
  using assms
proof (induction k arbitrary: position report st)
  case 0
  then show ?case by (simp add: run_post_def at_head_exit)
next
  case (Suc k)
  have page: "wp (sync_page env selected b started_at limits position report)
      (page_post env selected b limits (Suc (length (requests (ss_calls st))))) st"
    using Suc.prems by (intro sync_page_post) auto
  show ?case
    unfolding sync_loop.simps wp_bind
  proof (rule wp_mono [OF page], rule on_okI)
    fix r st' e
    assume "page_post env selected b limits (Suc (length (requests (ss_calls st)))) r st'" "r = Inl e"
    then show "run_post env selected b limits n (Inl e) st'"
      using Suc.prems(3) by (auto simp: page_post_def run_post_def)
  next
    fix r st' outcome
    assume post: "page_post env selected b limits (Suc (length (requests (ss_calls st)))) r st'" "r = Inr outcome"
    show "wp (case outcome of Finished report \<Rightarrow> sync_return (Inr report)
        | NextPage position report \<Rightarrow> sync_loop env selected b started_at limits k position report)
        (run_post env selected b limits n) st'"
    proof (cases outcome)
      case (Finished report')
      with post show ?thesis using Suc.prems(3) by (simp add: page_post_def run_post_def)
    next
      case (NextPage position' report')
      with post show ?thesis using Suc.prems(3,4) by (auto simp: page_post_def intro!: Suc.IH)
    qed
  qed
qed

section \<open>The run\<close>

lemma limits_Inr:
  "sync_limits_validate l = Inr l' \<Longrightarrow> l' = l \<and> unat (sl_max_pages l) \<le> 32"
  by (auto simp: sync_limits_validate_def result_simps word_le_nat_alt)

lemma wp_preflight:
  assumes "\<And>e cs w. requests cs = [] \<Longrightarrow> commits cs = [] \<Longrightarrow> fenced env selected cs
      \<Longrightarrow> Q (Inl e) \<lparr>ss_world = w, ss_calls = cs\<rparr>"
    and "\<And>p cs w. requests cs = [] \<Longrightarrow> commits cs = [] \<Longrightarrow> fenced env selected cs
      \<Longrightarrow> Q (Inr p) \<lparr>ss_world = w, ss_calls = cs\<rparr>"
  shows "wp (preflight_remote_delta_position env selected b t) Q \<lparr>ss_world = w, ss_calls = []\<rparr>"
  unfolding preflight_remote_delta_position_def
  by (auto intro!: wp_check_current wp_with_current wp_call assms)

lemma run_cases:
  assumes "sync_remote_delta_bounded env selected profile t limits (started w) = (r, st)"
  shows "fenced env selected (ss_calls st) \<and> (requests (ss_calls st) = [] \<and> commits (ss_calls st) = [] \<and> (\<exists>e. r = Inl e)
    \<or> (\<exists>b. build_remote_delta_ingest_binding (se_revisions env) selected profile = Inr b
        \<and> run_post env selected b limits (unat (sl_max_pages limits)) r st))"
proof -
  define Q where "Q = (\<lambda>r st. fenced env selected (ss_calls st) \<and> (requests (ss_calls st) = [] \<and> commits (ss_calls st) = [] \<and> (\<exists>e. r = Inl e)
    \<or> (\<exists>b. build_remote_delta_ingest_binding (se_revisions env) selected profile = Inr b
        \<and> run_post env selected b limits (unat (sl_max_pages limits)) r st)))"
  have early: "Q (Inl e) \<lparr>ss_world = w, ss_calls = cs\<rparr>"
    if "requests cs = []" "commits cs = []" "fenced env selected cs" for e w cs
    using that by (simp add: Q_def)
  have loop: "wp (sync_loop env selected b t l (unat (sl_max_pages l)) p
      \<lparr>rr_exchanges = 0, rr_pages_committed = 0, rr_changes_committed = 0, rr_live_state_changed = False,
       rr_response_bytes = 0, rr_completion = Continuation p\<rparr>) Q \<lparr>ss_world = w, ss_calls = cs\<rparr>"
    if "requests cs = []" "commits cs = []" "fenced env selected cs"
      "build_remote_delta_ingest_binding (se_revisions env) selected profile = Inr b"
      "sync_limits_validate limits = Inr l" for b p cs w l
    using that limits_Inr [OF that(5)]
    by (intro wp_mono [OF sync_loop_post [where n = "unat (sl_max_pages limits)"]])
      (auto simp: at_head_def sound_calls_def counted_def Q_def run_post_def at_exit_def)
  have "wp (sync_remote_delta_bounded env selected profile t limits) Q (started w)"
    unfolding sync_remote_delta_bounded_def wp_bind wp_return started_def
    by (auto intro!: on_okI wp_preflight loop early)
  then show ?thesis using assms by (simp add: wp_def Q_def)
qed

text \<open>
  C24. Every local mutation is fenced: whatever the outcome of a run and whatever other
  processes do to the configuration meanwhile, recovery, the publication and the commit of
  a page and the restart of a bootstrap are called only in a state whose configuration
  file holds the captured revision and exactly the captured host entry.
\<close>

theorem sync_mutations_fenced:
  assumes "sync_remote_delta_bounded env selected profile t limits (started w) = (r, st)"
  shows "list_all (\<lambda>(call, w'). fence_required call \<longrightarrow> (\<exists>c. read_config (se_file env w') = Inr c
    \<and> rc_config_revision c = hs_config_revision selected
    \<and> config_host c (hc_id (hs_host selected)) = Some (hs_host selected))) (ss_calls st)"
  using run_cases [OF assms] by (simp add: fenced_def current_def)

lemma commit_ok_source:
  "build_remote_delta_ingest_binding v selected profile = Inr b \<Longrightarrow> commit_ok env b (q, r)
    \<Longrightarrow> hc_expected_source (hs_host selected) = Some (rs_source r)"
  by (auto simp: build_remote_delta_ingest_binding_def commit_ok_def validate_bound_envelope_def result_simps Let_def)

text \<open>
  C25. Pages are committed in order and without gaps: the committed pages answer the first
  requests of the run one by one, at most one request is left without a page, each page
  was validated for its request and comes from the paired source, and each next page
  continues the one before: same range, the cursor the page ended with, the same
  generation, and either the next sequence number or a final page with nothing new.
\<close>

theorem sync_pages_contiguous:
  assumes "sync_remote_delta_bounded env selected profile t limits (started w) = (r, st)"
  shows "successively follows (commits (ss_calls st))
    \<and> (\<exists>rest. requests (ss_calls st) = List.map fst (commits (ss_calls st)) @ rest \<and> length rest \<le> 1)
    \<and> list_all (\<lambda>(q, p). validate_for_request (se_checks env) p q = Inr ()
        \<and> hc_expected_source (hs_host selected) = Some (rs_source p)) (commits (ss_calls st))"
proof -
  have "commits (ss_calls st) = [] \<and> requests (ss_calls st) = []
    \<or> (\<exists>b. build_remote_delta_ingest_binding (se_revisions env) selected profile = Inr b
        \<and> at_exit env selected b (ss_calls st))"
    using run_cases [OF assms] by (auto simp: run_post_def)
  then show ?thesis
  proof (elim disjE exE conjE)
    fix b
    assume b: "build_remote_delta_ingest_binding (se_revisions env) selected profile = Inr b"
      and exit: "at_exit env selected b (ss_calls st)"
    have "list_all (\<lambda>(q, p). validate_for_request (se_checks env) p q = Inr ()
        \<and> hc_expected_source (hs_host selected) = Some (rs_source p)) (commits (ss_calls st))"
      using exit commit_ok_source [OF b]
      by (fastforce simp: at_exit_def sound_calls_def list_all_iff commit_ok_def)
    with exit show ?thesis by (simp add: at_exit_def sound_calls_def)
  qed simp
qed

text \<open>
  C26. A run is bounded by its limits: it makes at most \<open>max_pages\<close> exchanges, whatever its
  outcome, and the report of a successful run counts exactly the exchanges and the
  committed pages, of which there are no more than exchanges, with at most
  \<open>max_response_bytes\<close> bytes of responses.
\<close>

theorem sync_run_bounded:
  assumes "sync_remote_delta_bounded env selected profile t limits (started w) = (r, st)"
  shows "length (requests (ss_calls st)) \<le> unat (sl_max_pages limits)
    \<and> (case r of Inl e \<Rightarrow> True | Inr report \<Rightarrow>
        unat (rr_exchanges report) = length (requests (ss_calls st))
        \<and> unat (rr_pages_committed report) = length (commits (ss_calls st))
        \<and> rr_pages_committed report \<le> rr_exchanges report \<and> rr_exchanges report \<le> sl_max_pages limits
        \<and> rr_response_bytes report \<le> sl_max_response_bytes limits)"
  using run_cases [OF assms]
  by (auto simp: run_post_def counted_def at_exit_def word_le_nat_alt split: sum.splits)

lemma not_started_no_requests:
  assumes "sync_remote_delta_bounded env selected profile t limits (started w) = (Inl e, st)"
    and "proves_transport_not_started e"
  shows "requests (ss_calls st) = []"
  using run_cases [OF assms(1)] assms(2) by (auto simp: run_post_def late_def)

section \<open>The admitted attempt\<close>

lemma complete_report_cases:
  "(\<exists>e. complete_report benv v t report store = (Inl e, store))
    \<or> (\<exists>total u store'. estimated_network_bytes report = Inr total
        \<and> complete_attempt benv v t total store = (Inr u, store') \<and> complete_report benv v t report store = (Inr u, store'))"
proof (cases "estimated_network_bytes report")
  case (Inr total)
  obtain r store' where run: "complete_attempt benv v t total store = (r, store')" by force
  show ?thesis
  proof (cases r)
    case (Inl e)
    with run have "store' = store"
      by (auto simp: complete_attempt_def split: if_splits dest: ledger_file.run_error)
    with run Inl Inr show ?thesis by (simp add: complete_report_def)
  next
    case ok: (Inr u)
    with run Inr show ?thesis by (simp add: complete_report_def)
  qed
qed (simp add: complete_report_def)

text \<open>
  C23. An attempt settles its own reservation: when the reservation was granted for the
  limits the run uses, a successful run, also one whose final fence then fails, replaces
  the reservation by the estimate of its report, which is at most the reserved bytes; a
  failed settlement changes nothing; and a failed run leaves the ledger alone, so that the
  whole reservation stays charged, unless it made no exchange at all.
\<close>

theorem attempt_settles_within_reservation:
  assumes granted: "begin_sync_attempt benv host node now kind max_response (sl_max_pages limits) store0
      = (Inr (Granted v), store1)"
    and budgeted: "granted_response_bytes v = Inr (sl_max_response_bytes limits)"
    and run: "execute_attempt env benv selected profile v t limits ca co fence (started w) store = (r, st, store')"
  shows "case r of
      Inl (AttemptSync e) \<Rightarrow> store' = store \<or> requests (ss_calls st) = []
    | Inl (AttemptSettlement e) \<Rightarrow> store' = store
    | _ \<Rightarrow> \<exists>report total u. estimated_network_bytes report = Inr total \<and> total \<le> rv_reserved_bytes v
        \<and> unat (rr_exchanges report) = length (requests (ss_calls st))
        \<and> complete_attempt benv v (max co (rv_started_at v)) total store = (Inr u, store')"
proof -
  obtain res st1 where sync: "sync_remote_delta_bounded env selected profile t limits (started w) = (res, st1)" by force
  show ?thesis
  proof (cases res)
    case (Inl e)
    with run sync not_started_no_requests [of env selected profile t limits w e st1] show ?thesis
      by (auto simp: execute_attempt_def)
  next
    case (Inr report)
    have "rr_exchanges report \<le> sl_max_pages limits" "rr_response_bytes report \<le> sl_max_response_bytes limits"
      using run_cases [OF sync] Inr by (auto simp: run_post_def counted_def word_le_nat_alt)
    then have within: "total \<le> rv_reserved_bytes v" if "estimated_network_bytes report = Inr total" for total
      using report_within_reservation [OF granted] budgeted that by force
    have count: "unat (rr_exchanges report) = length (requests (ss_calls st1))"
      using run_cases [OF sync] Inr by (auto simp: run_post_def counted_def)
    have st: "st = st1" using run sync Inr
      by (auto simp: execute_attempt_def split: prod.splits sum.splits)
    show ?thesis
      using complete_report_cases [of benv v "max co (rv_started_at v)" report store]
    proof (elim disjE exE conjE)
      fix e assume "complete_report benv v (max co (rv_started_at v)) report store = (Inl e, store)"
      with run sync Inr show ?thesis
        by (auto simp: execute_attempt_def settle_successful_remote_aggregate_def)
    next
      fix total u s
      assume total: "estimated_network_bytes report = Inr total"
        "complete_attempt benv v (max co (rv_started_at v)) total store = (Inr u, s)"
        "complete_report benv v (max co (rv_started_at v)) report store = (Inr u, s)"
      have s: "s = store'" and r: "r = Inr report \<or> (\<exists>e. r = Inl (AttemptFence e))"
        using run sync Inr total(3)
        by (auto simp: execute_attempt_def settle_successful_remote_aggregate_def split: sum.splits)
      have settled: "\<exists>report total u. estimated_network_bytes report = Inr total \<and> total \<le> rv_reserved_bytes v
          \<and> unat (rr_exchanges report) = length (requests (ss_calls st))
          \<and> complete_attempt benv v (max co (rv_started_at v)) total store = (Inr u, store')"
        using total(1,2) within [OF total(1)] count st s by blast
      from r show ?thesis
      proof (elim disjE exE)
        show ?thesis if "r = Inr report" unfolding that sum.case by (rule settled)
        show ?thesis if "r = Inl (AttemptFence e)" for e unfolding that sum.case attempt_error.case by (rule settled)
      qed
    qed
  qed
qed

section \<open>Response budget\<close>

lemma framed_transport_bytes:
  assumes "framed_transport env cd fl" "se_exchange_host env host q t w = (Inr x, w')"
  shows "unat (xr_response_bytes x) \<le> 20 + unat (rq_max_page_bytes q)"
proof -
  obtain frame where f: "decode_remote_response_for_request cd (se_checks env) frame q fl = Inr (xr_response x)"
    "xr_response_bytes x = of_nat (length frame)"
    using assms unfolding framed_transport_def by blast
  have "unat (of_nat n :: usize) \<le> n" for n by (simp add: unat_of_nat)
  then show ?thesis using decode_response_length(1) [OF f(1)] f(2) by (metis order_trans)
qed

lemma unat_ucast_le: "unat (ucast x :: u32) \<le> unat x" for x :: usize
  by (simp add: unsigned_ucast_eq take_bit_nat_eq_self_iff take_bit_nat_less_eq_self)

lemma page_bytes_fit:
  assumes "\<not> remaining < MIN_REMOTE_RESPONSE_ENCODED_BYTES + REMOTE_FRAME_HEADER_BYTES"
  shows "20 + unat (ucast (min (sat_sub remaining REMOTE_FRAME_HEADER_BYTES) MAX_REMOTE_FRAME_ENCODED_BYTES) :: u32)
    \<le> unat remaining"
proof -
  have r: "4116 \<le> unat remaining"
    using assms by (simp add: MIN_REMOTE_RESPONSE_ENCODED_BYTES_def REMOTE_FRAME_HEADER_BYTES_def not_less word_le_nat_alt)
  have "unat (min a c) \<le> unat a" for a c :: usize by (simp add: min_def word_le_nat_alt)
  then have "unat (ucast (min (sat_sub remaining REMOTE_FRAME_HEADER_BYTES) MAX_REMOTE_FRAME_ENCODED_BYTES) :: u32)
      \<le> unat (sat_sub remaining REMOTE_FRAME_HEADER_BYTES)"
    using unat_ucast_le order_trans by blast
  also have "\<dots> = unat remaining - 20"
    by (simp add: unat_sat_sub REMOTE_FRAME_HEADER_BYTES_def)
  finally show ?thesis using r by linarith
qed

lemma handle_within_budget: "wp (handle_response env selected b q r t report) budget_kept st"
  by (auto simp: handle_response_def commit_delta_page_def restart_after_expiry_def budget_kept_def Let_def
    validate_bound_envelope_def request_delta_def ensure_committed_position_def
    ensure_cursorless_bootstrap_position_def result_simps
    intro!: on_okI wp_call wp_try_with_current wp_with_current wp_check_current
    split: response_body.splits request_body.splits)

text \<open>The response bytes already counted leave the remaining budget.\<close>

lemma charge_fits:
  assumes "unat (rr_response_bytes report) \<le> unat (sl_max_response_bytes limits)"
    and "unat bytes \<le> unat (sat_sub (sl_max_response_bytes limits) (rr_response_bytes report))"
  shows "charge_response limits report bytes \<noteq> Inl e"
proof -
  have "unat (rr_response_bytes report) + unat bytes \<le> unat (sl_max_response_bytes limits)"
    using assms by (simp add: unat_sat_sub)
  then have "\<exists>report'. charged limits report bytes report'" by (simp add: charged_def)
  then show ?thesis by (auto simp flip: charge_response_Inr)
qed

lemma sync_page_within_budget:
  assumes "framed_transport env cd fl" "unat (rr_response_bytes report) \<le> unat (sl_max_response_bytes limits)"
  shows "wp (sync_page env selected b t limits position report) budget_kept st"
proof -
  let ?remaining = "sat_sub (sl_max_response_bytes limits) (rr_response_bytes report)"
  have exchange: "wp (exchange_page env selected b limits d q report) budget_kept st"
    if q: "next_request env b t position ?remaining = Inr q"
      and left: "\<not> ?remaining < MIN_REMOTE_RESPONSE_ENCODED_BYTES + REMOTE_FRAME_HEADER_BYTES" for d q
  proof -
    have ok: "charge_response limits report (xr_response_bytes x) \<noteq> Inl e"
      if "se_exchange_host env host q d' w = (Inr x, w')" for x e host d' w w'
      using framed_transport_bytes [OF assms(1) that] page_bytes_fit [OF left] next_request_Inr [OF q]
      by (intro charge_fits assms(2)) auto
    show ?thesis
      unfolding exchange_page_def wp_bind Let_def
      by (rule wp_call) (auto simp: budget_kept_def [of "Inl _"] protocol_result_def intro!: on_okI
        handle_within_budget dest: ok split: sum.splits)
  qed
  have "e \<noteq> ResponseBudgetExceeded" if "next_request env b t position r = Inl e" for r e
    using that by (cases "parse_binary_version (se_version env)"; cases "rp_exact_range position")
      (auto simp: next_request_def build_delta_request_def rolling_range_def result_simps Let_def)
  then show ?thesis
    by (auto simp: sync_page_def Let_def budget_kept_def [of "Inl _"] budget_kept_def [of "Inr _"]
      intro!: on_okI exchange)
qed

lemma wp_conj: "wp m Q st \<Longrightarrow> wp m R st \<Longrightarrow> wp m (\<lambda>r st. Q r st \<and> R r st) st"
  by (auto simp: wp_def)

lemma sync_loop_within_budget:
  assumes framed: "framed_transport env cd fl"
    and "at_head env selected b position (ss_calls st)" "counted limits (ss_calls st) report"
    and "length (requests (ss_calls st)) + k \<le> 32"
  shows "wp (sync_loop env selected b t limits k position report) budget_kept st"
  using assms(2-)
proof (induction k arbitrary: position report st)
  case 0
  then show ?case by (simp add: budget_kept_def)
next
  case (Suc k)
  have page: "wp (sync_page env selected b t limits position report)
      (\<lambda>r st'. page_post env selected b limits (Suc (length (requests (ss_calls st)))) r st' \<and> budget_kept r st') st"
    using Suc.prems
    by (intro wp_conj sync_page_post sync_page_within_budget [OF framed]) (auto simp: counted_def)
  show ?case
    unfolding sync_loop.simps wp_bind
    by (rule wp_mono [OF page], rule on_okI)
      (use Suc.prems(3) in \<open>auto simp: page_post_def budget_kept_def intro!: Suc.IH split: page_outcome.splits\<close>)
qed

lemma local_result_iff [result_simps]:
  "local_result r = Inl e \<longleftrightarrow> (\<exists>i. r = Inl i \<and> e = Local i)" "local_result r = Inr x \<longleftrightarrow> r = Inr x"
  by (cases r; auto simp: local_result_def)+

lemma preflight_within_budget: "wp (preflight_remote_delta_position env selected b t) budget_kept \<lparr>ss_world = w, ss_calls = []\<rparr>"
  unfolding preflight_remote_delta_position_def
  by (auto simp: budget_kept_def intro!: wp_check_current wp_with_current wp_call)

text \<open>
  The response budget is never exceeded by a transport that decodes its frames: such a
  transport delivers at most the requested page and its header, the requested page always
  fits the remaining budget, and so no run fails with an exceeded response budget.
\<close>

theorem response_budget_never_exceeded:
  assumes "framed_transport env cd fl"
  shows "fst (sync_remote_delta_bounded env selected profile t limits (started w)) \<noteq> Inl ResponseBudgetExceeded"
proof -
  have loop: "wp (sync_loop env selected b t l (unat (sl_max_pages l)) p
      \<lparr>rr_exchanges = 0, rr_pages_committed = 0, rr_changes_committed = 0, rr_live_state_changed = False,
       rr_response_bytes = 0, rr_completion = Continuation p\<rparr>) budget_kept st"
    if "requests (ss_calls st) = []" "commits (ss_calls st) = []" "fenced env selected (ss_calls st)"
      "sync_limits_validate limits = Inr l" for b p st l
    using that limits_Inr [OF that(4)]
    by (intro sync_loop_within_budget [OF assms]) (auto simp: at_head_def sound_calls_def counted_def)
  have phases: "wp (preflight_remote_delta_position env selected b t)
      (\<lambda>r st. budget_kept r st \<and> requests (ss_calls st) = [] \<and> commits (ss_calls st) = [] \<and> fenced env selected (ss_calls st))
      \<lparr>ss_world = w, ss_calls = []\<rparr>" for b
    by (intro wp_conj preflight_within_budget wp_preflight) auto
  have "wp (sync_remote_delta_bounded env selected profile t limits) budget_kept (started w)"
    unfolding sync_remote_delta_bounded_def wp_bind wp_return started_def
  proof (intro on_okI)
    fix l b
    assume "sync_limits_validate limits = Inr l"
    then show "wp (preflight_remote_delta_position env selected b t) (on_ok budget_kept (\<lambda>p.
        wp (sync_loop env selected b t l (unat (sl_max_pages l)) p
          \<lparr>rr_exchanges = 0, rr_pages_committed = 0, rr_changes_committed = 0, rr_live_state_changed = False,
           rr_response_bytes = 0, rr_completion = Continuation p\<rparr>) budget_kept)) \<lparr>ss_world = w, ss_calls = []\<rparr>"
      by (intro wp_mono [OF phases] on_okI) (auto simp: budget_kept_def intro!: loop)
  qed (auto simp: budget_kept_def sync_limits_validate_def build_remote_delta_ingest_binding_def
      result_simps Let_def)
  then show ?thesis by (auto simp: wp_def budget_kept_def)
qed

section \<open>A concrete run\<close>

lemma sample_run_facts:
  "case sample_run of
     (Inr report, st) \<Rightarrow> rr_exchanges report = 1 \<and> rr_pages_committed report = 1 \<and> rr_changes_committed report = 3
       \<and> rr_response_bytes report = 1000 \<and> rr_completion report = Complete \<and> length (ss_calls st) = 6
       \<and> length (commits (ss_calls st)) = 1 \<and> length (filter (fence_required \<circ> fst) (ss_calls st)) = 3
   | _ \<Rightarrow> False"
  by code_simp

lemma sample_framed: "framed_transport sample_framed_env (sample_codec sample_response) frame_limits_default"
  by (auto simp: framed_transport_def sample_framed_env_def split: sum.splits)

lemma run_report:
  assumes "case x of (Inr report, st) \<Rightarrow> P report st | _ \<Rightarrow> False"
  obtains report where "fst x = Inr report" "P report (snd x)"
  using assms by (cases x; cases "fst x") auto

lemma sample_run_ok:
  "\<exists>report. fst sample_run = Inr report \<and> rr_exchanges report = 1"
  "length (commits (ss_calls (snd sample_run))) = 1"
  "length (filter (fence_required \<circ> fst) (ss_calls (snd sample_run))) = 3"
  by (rule run_report [OF sample_run_facts], blast)+

lemma sample_run_pair:
  "sync_remote_delta_bounded sample_sync_env sample_snapshot ''profile'' (hours 1000) sync_limits_default (started 0)
    = (fst sample_run, snd sample_run)"
  by (simp add: sample_run_def)

theorem sync_mutations_fenced_witness:
  "length (filter (fence_required \<circ> fst) (ss_calls (snd sample_run))) = 3
    \<and> list_all (\<lambda>(c, w). fence_required c \<longrightarrow> (\<exists>c'. read_config (se_file sample_sync_env w) = Inr c'
      \<and> rc_config_revision c' = 4)) (ss_calls (snd sample_run))"
  using sync_mutations_fenced [OF sample_run_pair] sample_run_ok(3)
  by (fastforce simp: list_all_iff sample_snapshot_def)

theorem sync_pages_contiguous_witness:
  "commits (ss_calls (snd sample_run)) \<noteq> [] \<and> successively follows (commits (ss_calls (snd sample_run)))
    \<and> list_all (\<lambda>(q, p). rs_source p = sample_source) (commits (ss_calls (snd sample_run)))"
  using sync_pages_contiguous [OF sample_run_pair] sample_run_ok(2)
  by (auto simp: list_all_iff sample_snapshot_def)

theorem sync_run_bounded_witness:
  "\<exists>report. fst sample_run = Inr report \<and> rr_exchanges report = 1
    \<and> rr_exchanges report \<le> sl_max_pages sync_limits_default"
  using sync_run_bounded [OF sample_run_pair] sample_run_ok(1) by auto

theorem response_budget_never_exceeded_witness:
  "result_is_ok (fst (sync_remote_delta_bounded sample_framed_env sample_snapshot ''profile'' (hours 1000)
      sync_limits_default (started 0)))
    \<and> fst (sync_remote_delta_bounded sample_framed_env sample_snapshot ''profile'' (hours 1000)
      sync_limits_default (started 0)) \<noteq> Inl ResponseBudgetExceeded"
proof
  show "result_is_ok (fst (sync_remote_delta_bounded sample_framed_env sample_snapshot ''profile'' (hours 1000)
      sync_limits_default (started 0)))" by code_simp
  show "fst (sync_remote_delta_bounded sample_framed_env sample_snapshot ''profile'' (hours 1000)
      sync_limits_default (started 0)) \<noteq> Inl ResponseBudgetExceeded"
    by (rule response_budget_never_exceeded [OF sample_framed])
qed

theorem attempt_settles_within_reservation_witness:
  "\<exists>v report total u. fst sample_admission = Inr (Granted v) \<and> estimated_network_bytes report = Inr total
    \<and> total \<le> rv_reserved_bytes v
    \<and> complete_attempt sample_env v (max (hours 400001) (rv_started_at v)) total (snd sample_admission)
      = (Inr u, snd (snd (sample_attempt v)))"
proof -
  have "case fst sample_admission of
      Inr (Granted v) \<Rightarrow> granted_response_bytes v = Inr 1048576 \<and> result_is_ok (fst (sample_attempt v)) | _ \<Rightarrow> False"
    by code_simp
  then obtain v where v: "fst sample_admission = Inr (Granted v)" "granted_response_bytes v = Inr 1048576"
    "result_is_ok (fst (sample_attempt v))"
    by (auto split: sum.splits admission.splits)
  obtain report where ok: "fst (sample_attempt v) = Inr report" using v(3) by (auto simp: result_is_ok_iff)
  have granted: "begin_sync_attempt sample_env ''lab'' (Some ''node-1'') (hours 400000) Manual 1048576
      (sl_max_pages sample_limits) None = (Inr (Granted v), snd sample_admission)"
    using v(1) unfolding sample_admission_def by (simp add: sample_limits_def prod_eq_iff)
  have run: "execute_attempt sample_sync_env sample_env sample_snapshot ''profile'' v (hours 400000) sample_limits
      (hours 400000) (hours 400001) (\<lambda>_. Inr ()) (started 0) (snd sample_admission)
    = (fst (sample_attempt v), fst (snd (sample_attempt v)), snd (snd (sample_attempt v)))"
    by (simp add: sample_attempt_def)
  have budget: "granted_response_bytes v = Inr (sl_max_response_bytes sample_limits)" using v(2) by (simp add: sample_limits_def)
  show ?thesis
    using attempt_settles_within_reservation [OF granted budget run] v(1) unfolding ok by auto
qed

end
