(* ===== verification/Sync_Scheduler.thy ===== *)
theory Sync_Scheduler
  imports Remote_Sync
begin

text \<open>
  The single-worker scheduler of automatic synchronization, \<open>src/remote_sync_scheduler.rs\<close>:
  the schedule of a host, the reconciliation with the allowlist, round-robin selection,
  backoff with stable jitter, and one tick.

  Durations are nanoseconds, bounded by the largest duration of the standard library.  The
  executor and the clock are traits of the code, here functions on a world; the calls of
  \<open>sync_host\<close> are recorded.  A failing \<open>expect\<close> is the error \<open>SchedulerPanic\<close>.
\<close>

section \<open>Durations\<close>

type_synonym duration = nat

definition DURATION_MAX :: duration where
  "DURATION_MAX = 18446744073709551615999999999"

definition from_secs :: "u64 \<Rightarrow> duration" where
  "from_secs s = unat s * 1000000000"

definition dur_add :: "duration \<Rightarrow> duration \<Rightarrow> duration" where
  "dur_add a b = min (a + b) DURATION_MAX"

(* remote_sync_scheduler.rs:34-34 AUTOMATIC_REMOTE_SYNC_ACTIVITY_HYSTERESIS *)
definition ACTIVITY_HYSTERESIS :: duration where "ACTIVITY_HYSTERESIS = from_secs (10 * 60)"

(* remote_sync_scheduler.rs:37-37 MIN_DISPATCH_SPACING *)
definition MIN_DISPATCH_SPACING :: duration where "MIN_DISPATCH_SPACING = from_secs 1"

(* remote_sync_scheduler.rs:38-38 FAILURE_BACKOFF_SECONDS *)
definition FAILURE_BACKOFF_SECONDS :: "u64 list" where
  "FAILURE_BACKOFF_SECONDS = [60, 2 * 60, 5 * 60, 10 * 60, 30 * 60]"

(* remote_sync_health.rs:29-29 REMOTE_SYNC_HARD_PAUSE_PROBE_INTERVAL_SECONDS *)
definition HARD_PAUSE_PROBE_INTERVAL_SECONDS :: u64 where "HARD_PAUSE_PROBE_INTERVAL_SECONDS = 30 * 60"

(* remote_sync_scheduler.rs:634-640 strictly_positive *)
definition strictly_positive :: "duration \<Rightarrow> duration" where
  "strictly_positive d = (if d = 0 then MIN_DISPATCH_SPACING else d)"

(* remote_sync_scheduler.rs:630-632 configured_idle_delay *)
definition configured_idle_delay :: "remotes_config \<Rightarrow> duration" where
  "configured_idle_delay c = strictly_positive (from_secs (rc_idle_interval_seconds c))"

section \<open>Backoff\<close>

definition fnv_step :: "u64 \<Rightarrow> u64 \<Rightarrow> u64" where
  "fnv_step hash b = xor hash b * 0x00000100000001b3"

definition to_le_bytes :: "u32 \<Rightarrow> u64 list" where
  "to_le_bytes w = List.map (\<lambda>k. of_nat (unat w div 256 ^ k mod 256)) [0, 1, 2, 3]"

(* remote_sync_scheduler.rs:655-667 stable_jitter *)
definition stable_jitter :: "string \<Rightarrow> u32 \<Rightarrow> u64" where
  "stable_jitter host_id failures =
    foldl fnv_step 0xcbf29ce484222325 (List.map (\<lambda>c. of_nat (byte c)) host_id @ to_le_bytes failures)"

(* remote_sync_scheduler.rs:642-651 retry_delay *)
definition retry_delay :: "string \<Rightarrow> u32 \<Rightarrow> duration" where
  "retry_delay host_id failures =
    (let index = min (unat (sat_sub failures 1)) (length FAILURE_BACKOFF_SECONDS - 1);
         nominal = FAILURE_BACKOFF_SECONDS ! index;
         jitter_percent = 80 + stable_jitter host_id failures mod 41;
         jittered = sat_add (sat_mul nominal jitter_percent) 99 div 100
     in from_secs (max jittered 1))"

section \<open>Schedules\<close>

(* remote_sync_scheduler.rs:122-128 RemoteSyncScheduleSeed *)
record schedule_seed =
  sx_source :: source_generation
  sx_next_eligible_in :: duration
  sx_consecutive_failures :: u32
  sx_active_until_in :: "duration option"
  sx_process_containment_paused :: bool

(* remote_sync_scheduler.rs:131-143 RemoteSyncScheduleSeed::new *)
definition new_seed :: "source_generation \<Rightarrow> duration \<Rightarrow> u32 \<Rightarrow> schedule_seed" where
  "new_seed source next_in failures = \<lparr>sx_source = source, sx_next_eligible_in = next_in,
     sx_consecutive_failures = failures, sx_active_until_in = None, sx_process_containment_paused = False\<rparr>"

(* remote_sync_scheduler.rs:147-150 RemoteSyncScheduleSeed::with_active_until_in *)
definition with_active_until_in :: "duration option \<Rightarrow> schedule_seed \<Rightarrow> schedule_seed" where
  "with_active_until_in d x = x\<lparr>sx_active_until_in := (if d = Some 0 then None else d)\<rparr>"

(* remote_sync_scheduler.rs:154-157 RemoteSyncScheduleSeed::with_process_containment_paused *)
definition with_process_containment_paused :: "bool \<Rightarrow> schedule_seed \<Rightarrow> schedule_seed" where
  "with_process_containment_paused paused x = x\<lparr>sx_process_containment_paused := paused\<rparr>"

(* remote_sync_scheduler.rs:229-251 LastAttempt *)
datatype last_attempt =
    Never
  | ActiveSuccess duration
  | IdleSuccess duration
  | BudgetPause duration bool u32
  | ProcessContainmentPause
  | Failure duration u32
  | Restored duration u32

(* remote_sync_scheduler.rs:254-261 HostSchedule *)
record host_schedule =
  ho_configured_host :: host_config
  ho_last_attempt :: last_attempt
  ho_active_until :: "duration option"

(* remote_sync_scheduler.rs:264-270 HostSchedule::new *)
definition new_schedule :: "host_config \<Rightarrow> host_schedule" where
  "new_schedule h = \<lparr>ho_configured_host = h, ho_last_attempt = Never, ho_active_until = None\<rparr>"

(* remote_sync_scheduler.rs:272-302 HostSchedule::due_at *)
definition due_at :: "remotes_config \<Rightarrow> host_schedule \<Rightarrow> duration option" where
  "due_at c s = (case ho_last_attempt s of
      Never \<Rightarrow> Some 0
    | ActiveSuccess finished_at \<Rightarrow>
        (let interval_due = dur_add finished_at (from_secs (rc_active_interval_seconds c)) in
         Some (case ho_active_until s of
             Some active_until \<Rightarrow> if finished_at < active_until then min interval_due active_until else interval_due
           | None \<Rightarrow> interval_due))
    | IdleSuccess finished_at \<Rightarrow> Some (dur_add finished_at (from_secs (rc_idle_interval_seconds c)))
    | BudgetPause finished_at hard _ \<Rightarrow> Some (dur_add finished_at
        (if hard then min (from_secs (rc_idle_interval_seconds c)) (from_secs HARD_PAUSE_PROBE_INTERVAL_SECONDS)
         else from_secs (rc_idle_interval_seconds c)))
    | Failure finished_at failures \<Rightarrow>
        Some (dur_add finished_at (retry_delay (hc_id (ho_configured_host s)) failures))
    | ProcessContainmentPause \<Rightarrow> None
    | Restored due _ \<Rightarrow> Some due)"

(* remote_sync_scheduler.rs:312-319 RemoteSyncScheduler *)
record scheduler =
  sd_hosts :: "string \<rightharpoonup> host_schedule"
  sd_last_dispatched_host :: "string option"
  sd_last_dispatch_finished_at :: "duration option"
  sd_last_observed_now :: duration
  sd_restore_durable_state :: bool

(* remote_sync_scheduler.rs:322-331 RemoteSyncScheduler::new *)
definition new_scheduler :: scheduler where
  "new_scheduler = \<lparr>sd_hosts = (\<lambda>_. None), sd_last_dispatched_host = None, sd_last_dispatch_finished_at = None,
     sd_last_observed_now = 0, sd_restore_durable_state = True\<rparr>"

(* remote_sync_scheduler.rs:78-112 AutomaticRemoteSyncExecutor *)
record 'w executor =
  ex_now :: "'w \<Rightarrow> duration"
  ex_restore_host_schedule :: "host_config \<Rightarrow> 'w \<Rightarrow> (sync_error + schedule_seed option) \<times> 'w"
  ex_paused_hosts :: "host_config list \<Rightarrow> 'w \<Rightarrow> (sync_error + (string \<rightharpoonup> bool) option) \<times> 'w"
  ex_take_containment_signal :: "host_config \<Rightarrow> 'w \<Rightarrow> bool \<times> 'w"
  ex_sync_host :: "host_snapshot \<Rightarrow> sync_limits \<Rightarrow> 'w \<Rightarrow> (sync_error + sync_report) \<times> 'w"

(* remote_sync_scheduler.rs:183-213 RemoteSyncSchedulerTick *)
datatype scheduler_tick =
    Disabled duration
  | NoEligibleHosts duration
  | Waiting duration
  | Attempted string u64 "source_generation option" bool "sync_error + sync_report" duration duration

(* remote_sync_scheduler.rs:218-225 RemoteSyncSchedulerTick::next_wake_in *)
fun next_wake_in :: "scheduler_tick \<Rightarrow> duration" where
  "next_wake_in (Disabled d) = d"
| "next_wake_in (NoEligibleHosts d) = d"
| "next_wake_in (Waiting d) = d"
| "next_wake_in (Attempted _ _ _ _ _ _ d) = d"

datatype scheduler_error = SchedulerSync sync_error | SchedulerPanic

section \<open>Reconciliation\<close>

(* remote_sync_scheduler.rs:491-497 RemoteSyncScheduler::monotonic_now *)
definition monotonic_now :: "duration \<Rightarrow> scheduler \<Rightarrow> scheduler" where
  "monotonic_now observed sc = sc\<lparr>sd_last_observed_now := max (sd_last_observed_now sc) observed\<rparr>"

(* remote_sync_scheduler.rs:499-503 RemoteSyncScheduler::clear_ineligible_state *)
definition clear_ineligible_state :: "scheduler \<Rightarrow> scheduler" where
  "clear_ineligible_state sc = sc\<lparr>sd_hosts := (\<lambda>_. None), sd_last_dispatched_host := None,
     sd_last_dispatch_finished_at := None\<rparr>"

definition paused_flag :: "(string \<rightharpoonup> bool) option \<Rightarrow> string \<Rightarrow> bool option" where
  "paused_flag pauses host_id = (case pauses of Some p \<Rightarrow> p host_id | None \<Rightarrow> None)"

(* remote_sync_scheduler.rs:517-531 RemoteSyncScheduler::reconcile_hosts (kept) *)
definition keep_schedule :: "(string \<rightharpoonup> bool) option \<Rightarrow> host_schedule \<Rightarrow> host_schedule" where
  "keep_schedule pauses s = (case paused_flag pauses (hc_id (ho_configured_host s)) of
      Some True \<Rightarrow> s\<lparr>ho_last_attempt := ProcessContainmentPause\<rparr>
    | Some False \<Rightarrow> if ho_last_attempt s = ProcessContainmentPause then s\<lparr>ho_last_attempt := Never\<rparr> else s
    | None \<Rightarrow> s)"

(* remote_sync_scheduler.rs:533-549 RemoteSyncScheduler::reconcile_hosts (seed) *)
definition seed_schedule :: "duration \<Rightarrow> host_config \<Rightarrow> schedule_seed option \<Rightarrow> host_schedule" where
  "seed_schedule now h seed = (case seed of
      None \<Rightarrow> new_schedule h
    | Some x \<Rightarrow> if hc_expected_source h \<noteq> Some (sx_source x) then new_schedule h
        else (new_schedule h)\<lparr>
          ho_last_attempt := (if sx_process_containment_paused x then ProcessContainmentPause
            else Restored (dur_add now (sx_next_eligible_in x)) (sx_consecutive_failures x)),
          ho_active_until := map_option (dur_add now) (sx_active_until_in x)\<rparr>)"

(* remote_sync_scheduler.rs:515-559 RemoteSyncScheduler::reconcile_hosts (host) *)
definition reconcile_host ::
  "'w executor \<Rightarrow> duration \<Rightarrow> bool \<Rightarrow> (string \<rightharpoonup> bool) option \<Rightarrow> host_config
    \<Rightarrow> (string \<rightharpoonup> host_schedule) \<Rightarrow> 'w \<Rightarrow> sync_error option \<times> (string \<rightharpoonup> host_schedule) \<times> 'w" where
  "reconcile_host ex now restore pauses h hosts w = (case hosts (hc_id h) of
      Some s \<Rightarrow>
        (None, hosts(hc_id h \<mapsto> if ho_configured_host s = h then keep_schedule pauses s else new_schedule h), w)
    | None \<Rightarrow>
        (case (if restore then ex_restore_host_schedule ex h w else (Inr None, w)) of
           (Inl e, w) \<Rightarrow> (Some e, hosts, w)
         | (Inr seed, w) \<Rightarrow>
             let s = seed_schedule now h seed;
                 s = (if paused_flag pauses (hc_id h) = Some True
                   then s\<lparr>ho_last_attempt := ProcessContainmentPause\<rparr> else s)
             in (None, hosts(hc_id h \<mapsto> s), w)))"

text \<open>An error ends the loop and leaves the schedules as far as they were reconciled.\<close>

(* remote_sync_scheduler.rs:515-559 RemoteSyncScheduler::reconcile_hosts (loop) *)
fun reconcile_loop ::
  "'w executor \<Rightarrow> duration \<Rightarrow> bool \<Rightarrow> (string \<rightharpoonup> bool) option \<Rightarrow> host_config list
    \<Rightarrow> (string \<rightharpoonup> host_schedule) \<Rightarrow> 'w \<Rightarrow> sync_error option \<times> (string \<rightharpoonup> host_schedule) \<times> 'w" where
  "reconcile_loop ex now restore pauses [] hosts w = (None, hosts, w)"
| "reconcile_loop ex now restore pauses (h # hs) hosts w = (case reconcile_host ex now restore pauses h hosts w of
      (Some e, hosts, w) \<Rightarrow> (Some e, hosts, w)
    | (None, hosts, w) \<Rightarrow> reconcile_loop ex now restore pauses hs hosts w)"

(* remote_sync_scheduler.rs:505-568 RemoteSyncScheduler::reconcile_hosts *)
definition reconcile_hosts ::
  "'w executor \<Rightarrow> host_config list \<Rightarrow> duration \<Rightarrow> bool \<Rightarrow> (string \<rightharpoonup> bool) option \<Rightarrow> scheduler \<Rightarrow> 'w
    \<Rightarrow> sync_error option \<times> scheduler \<times> 'w" where
  "reconcile_hosts ex eligible now restore pauses sc w =
    (let kept = (\<lambda>k. if k \<in> hc_id ` set eligible then sd_hosts sc k else None) in
     case reconcile_loop ex now restore pauses eligible kept w of
       (Some e, hosts, w) \<Rightarrow> (Some e, sc\<lparr>sd_hosts := hosts\<rparr>, w)
     | (None, hosts, w) \<Rightarrow>
         (None, sc\<lparr>sd_hosts := hosts, sd_last_dispatched_host := (case sd_last_dispatched_host sc of
             Some k \<Rightarrow> if hosts k = None then None else Some k
           | None \<Rightarrow> None)\<rparr>, w))"

section \<open>Selection\<close>

fun position_of :: "string \<Rightarrow> host_config list \<Rightarrow> nat option" where
  "position_of k [] = None"
| "position_of k (h # hs) = (if hc_id h = k then Some 0 else map_option Suc (position_of k hs))"

(* remote_sync_scheduler.rs:587-592 RemoteSyncScheduler::next_due_host_index (due) *)
definition host_is_due :: "remotes_config \<Rightarrow> duration \<Rightarrow> scheduler \<Rightarrow> host_config \<Rightarrow> bool" where
  "host_is_due c now sc h = (case sd_hosts sc (hc_id h) of
      Some s \<Rightarrow> (case due_at c s of Some due \<Rightarrow> due \<le> now | None \<Rightarrow> False)
    | None \<Rightarrow> False)"

(* remote_sync_scheduler.rs:580-585 RemoteSyncScheduler::next_due_host_index (start) *)
definition start_index :: "scheduler \<Rightarrow> host_config list \<Rightarrow> nat" where
  "start_index sc eligible = (case sd_last_dispatched_host sc of
      Some k \<Rightarrow> (case position_of k eligible of Some i \<Rightarrow> (i + 1) mod length eligible | None \<Rightarrow> 0)
    | None \<Rightarrow> 0)"

(* remote_sync_scheduler.rs:570-594 RemoteSyncScheduler::next_due_host_index *)
definition next_due_host_index ::
  "host_config list \<Rightarrow> remotes_config \<Rightarrow> duration \<Rightarrow> duration \<Rightarrow> scheduler \<Rightarrow> nat option" where
  "next_due_host_index eligible c now global_due sc =
    (if now < global_due then None
     else List.find (\<lambda>i. host_is_due c now sc (eligible ! i))
       (List.map (\<lambda>offset. (start_index sc eligible + offset) mod length eligible) [0 ..< length eligible]))"

(* remote_sync_scheduler.rs:596-611 RemoteSyncScheduler::next_wake_delay *)
definition next_wake_delay ::
  "host_config list \<Rightarrow> remotes_config \<Rightarrow> duration \<Rightarrow> duration \<Rightarrow> scheduler \<Rightarrow> duration" where
  "next_wake_delay eligible c now global_due sc =
    (let dues = List.map (\<lambda>due. max due global_due)
           (List.map_filter (due_at c) (List.map_filter (\<lambda>h. sd_hosts sc (hc_id h)) eligible));
         next_due = (case list_min dues of Some due \<Rightarrow> due | None \<Rightarrow> dur_add now (configured_idle_delay c))
     in strictly_positive (next_due - now))"

section \<open>One tick\<close>

(* remote_sync_scheduler.rs:614-621 automatic_remote_sync_limits *)
definition automatic_remote_sync_limits :: sync_limits where
  "automatic_remote_sync_limits = \<lparr>sl_max_pages = 1,
     sl_max_response_bytes = MAX_REMOTE_FRAME_ENCODED_BYTES + REMOTE_FRAME_HEADER_BYTES,
     sl_exchange_timeout = seconds 30\<rparr>"

(* remote_sync_scheduler.rs:623-628 report_requires_immediate_active_polling *)
fun report_requires_immediate_active_polling :: "sync_completion \<Rightarrow> bool" where
  "report_requires_immediate_active_polling Complete = False"
| "report_requires_immediate_active_polling _ = True"

(* remote_sync_scheduler.rs:398-416 RemoteSyncScheduler::tick (failures) *)
fun previous_failures :: "last_attempt \<Rightarrow> u32" where
  "previous_failures (Failure _ n) = n"
| "previous_failures (Restored _ n) = n"
| "previous_failures (BudgetPause _ _ n) = n"
| "previous_failures _ = 0"

(* remote_sync_scheduler.rs:391-395 RemoteSyncScheduler::tick (uncertain) *)
definition uncertain_error :: "sync_error + sync_report \<Rightarrow> bool" where
  "uncertain_error r = (case r of
      Inl ProcessContainment \<Rightarrow> True
    | Inl (Transport e) \<Rightarrow> process_containment_uncertain e
    | _ \<Rightarrow> False)"

(* remote_sync_scheduler.rs:417-467 RemoteSyncScheduler::tick (outcome) *)
definition record_outcome ::
  "bool \<Rightarrow> duration \<Rightarrow> sync_error + sync_report \<Rightarrow> host_schedule \<Rightarrow> host_schedule" where
  "record_outcome uncertain finished_at r s =
    (if uncertain then s\<lparr>ho_last_attempt := ProcessContainmentPause\<rparr>
     else case r of
       Inr report \<Rightarrow>
         let active_until = (if report_has_activity report then Some (dur_add finished_at ACTIVITY_HYSTERESIS)
               else case ho_active_until s of
                   Some t \<Rightarrow> if t \<le> finished_at then None else Some t
                 | None \<Rightarrow> None);
             still_active = (case active_until of Some t \<Rightarrow> finished_at < t | None \<Rightarrow> False)
         in s\<lparr>ho_active_until := active_until, ho_last_attempt :=
              (if report_requires_immediate_active_polling (rr_completion report) \<or> still_active
               then ActiveSuccess finished_at else IdleSuccess finished_at)\<rparr>
     | Inl e \<Rightarrow>
         s\<lparr>ho_last_attempt := (case (case e of Local i \<Rightarrow> budget_pause_from_io_error i | _ \<Rightarrow> None) of
             Some p \<Rightarrow> BudgetPause finished_at (bp_level p = HardLevel) (previous_failures (ho_last_attempt s))
           | None \<Rightarrow> Failure finished_at (sat_add (previous_failures (ho_last_attempt s)) 1))\<rparr>)"

text \<open>The state of the program between two ticks, with the attempts made so far.\<close>

record 'w sched_state =
  st_scheduler :: scheduler
  st_world :: 'w
  st_attempts :: "(host_snapshot \<times> sync_limits) list"

text \<open>
  The release build is modelled: the \<open>debug_assert!\<close> that the announced delay is not zero
  (remote_sync_scheduler.rs:477) is compiled out there and is not a branch of the attempt.
\<close>

(* remote_sync_scheduler.rs:383-488 RemoteSyncScheduler::tick (attempt) *)
definition attempt_host ::
  "'w executor \<Rightarrow> remotes_config \<Rightarrow> host_config list \<Rightarrow> host_config \<Rightarrow> 'w sched_state
    \<Rightarrow> (scheduler_error + scheduler_tick) \<times> 'w sched_state" where
  "attempt_host ex c eligible h st = (case capture_for_automatic c h of
      Inl e \<Rightarrow> (Inl (SchedulerSync e), st)
    | Inr selected \<Rightarrow>
        let limits = automatic_remote_sync_limits;
            (r, w) = ex_sync_host ex selected limits (st_world st);
            attempts = st_attempts st @ [(selected, limits)];
            (signal, w) = (if uncertain_error r then (False, w) else ex_take_containment_signal ex h w);
            uncertain = (uncertain_error r \<or> signal);
            sc = monotonic_now (ex_now ex w) (st_scheduler st);
            finished_at = sd_last_observed_now sc
        in (case sd_hosts sc (hc_id h) of
              None \<Rightarrow> (Inl SchedulerPanic, \<lparr>st_scheduler = sc, st_world = w, st_attempts = attempts\<rparr>)
            | Some s \<Rightarrow>
                let s = record_outcome uncertain finished_at r s;
                    sc = sc\<lparr>sd_hosts := (sd_hosts sc)(hc_id h \<mapsto> s), sd_last_dispatched_host := Some (hc_id h),
                      sd_last_dispatch_finished_at := Some finished_at\<rparr>;
                    next_eligible_in = (case due_at c s of Some due \<Rightarrow> due - finished_at | None \<Rightarrow> DURATION_MAX);
                    wake = next_wake_delay eligible c finished_at (dur_add finished_at MIN_DISPATCH_SPACING) sc
                in (Inr (Attempted (hc_id h) (hs_config_revision selected) (hc_expected_source h) uncertain r
                     next_eligible_in wake), \<lparr>st_scheduler = sc, st_world = w, st_attempts = attempts\<rparr>)))"

(* remote_sync_scheduler.rs:337-489 RemoteSyncScheduler::tick *)
definition tick ::
  "'w executor \<Rightarrow> remotes_config \<Rightarrow> 'w sched_state \<Rightarrow> (scheduler_error + scheduler_tick) \<times> 'w sched_state" where
  "tick ex c st =
    (let sc = monotonic_now (ex_now ex (st_world st)) (st_scheduler st);
         now = sd_last_observed_now sc;
         eligible = automatic_hosts c;
         cleared = st\<lparr>st_scheduler := (clear_ineligible_state sc)\<lparr>sd_restore_durable_state := False\<rparr>\<rparr>
     in if \<not> rc_auto_sync_enabled c then (Inr (Disabled (configured_idle_delay c)), cleared)
     else if eligible = [] then (Inr (NoEligibleHosts (configured_idle_delay c)), cleared)
     else case ex_paused_hosts ex eligible (st_world st) of
         (Inl e, w) \<Rightarrow> (Inl (SchedulerSync e), st\<lparr>st_scheduler := sc, st_world := w\<rparr>)
       | (Inr pauses, w) \<Rightarrow>
           (case reconcile_hosts ex eligible now (sd_restore_durable_state sc) pauses sc w of
              (Some e, sc, w) \<Rightarrow> (Inl (SchedulerSync e), st\<lparr>st_scheduler := sc, st_world := w\<rparr>)
            | (None, sc, w) \<Rightarrow>
                let sc = sc\<lparr>sd_restore_durable_state := False\<rparr>;
                    st = st\<lparr>st_scheduler := sc, st_world := w\<rparr>;
                    global_due = (case sd_last_dispatch_finished_at sc of
                        Some t \<Rightarrow> dur_add t MIN_DISPATCH_SPACING | None \<Rightarrow> 0)
                in (case next_due_host_index eligible c now global_due sc of
                      None \<Rightarrow> (Inr (Waiting (next_wake_delay eligible c now global_due sc)), st)
                    | Some i \<Rightarrow> attempt_host ex c eligible (eligible ! i) st)))"

end
