(* ===== verification/Scheduler_Safety.thy ===== *)
theory Scheduler_Safety
  imports Sync_Scheduler Remotes_Safety
begin

text \<open>
  Correctness of the scheduler: what reconciliation keeps, the shape of a tick, and over
  sequences of ticks, between which the world changes freely, the allowlist, the exact wake,
  the backoff of a host and round-robin fairness by the cyclic distance of a due host.
\<close>

section \<open>Specification\<close>

definition host_snapshot_of :: "remotes_config \<Rightarrow> host_config \<Rightarrow> host_snapshot" where
  "host_snapshot_of c h = \<lparr>hs_config_revision = rc_config_revision c, hs_host = h\<rparr>"

definition global_due :: "scheduler \<Rightarrow> duration" where
  "global_due sc = (case sd_last_dispatch_finished_at sc of
      Some t \<Rightarrow> dur_add t MIN_DISPATCH_SPACING | None \<Rightarrow> 0)"

definition observed :: "'w executor \<Rightarrow> 'w sched_state \<Rightarrow> duration" where
  "observed ex st = max (sd_last_observed_now (st_scheduler st)) (ex_now ex (st_world st))"

inductive ticks :: "'w executor \<Rightarrow> remotes_config \<Rightarrow> 'w sched_state \<Rightarrow> 'w sched_state \<Rightarrow> bool" for ex c where
  no_tick: "ticks ex c st st"
| one_more: "ticks ex c st st' \<Longrightarrow> tick ex c (st'\<lparr>st_world := w\<rparr>) = (r, st'') \<Longrightarrow> ticks ex c st st''"

definition host_distance :: "scheduler \<Rightarrow> host_config list \<Rightarrow> nat \<Rightarrow> nat" where
  "host_distance sc hs i = (i + length hs - start_index sc hs) mod length hs"

definition never_paused :: "'w executor \<Rightarrow> string \<Rightarrow> bool" where
  "never_paused ex k \<longleftrightarrow> (\<forall>hs w p w'. ex_paused_hosts ex hs w = (Inr p, w') \<longrightarrow> paused_flag p k \<noteq> Some True)"

text \<open>The executor's report of the paused hosts is what their schedules already say.\<close>

definition pauses_agree :: "(string \<rightharpoonup> bool) option \<Rightarrow> host_config list \<Rightarrow> scheduler \<Rightarrow> bool" where
  "pauses_agree pauses hs sc = list_all (\<lambda>h. case (paused_flag pauses (hc_id h), sd_hosts sc (hc_id h)) of
      (Some b, Some s) \<Rightarrow> b = (ho_last_attempt s = ProcessContainmentPause) | _ \<Rightarrow> True) hs"

text \<open>
  Ticks that leave the schedule of a host alone: each has its own valid configuration and
  its own world; the row of the host stays on the allowlist, the two polling intervals are
  those of the first configuration, and the executor does not report the host paused.
\<close>

definition undisturbed :: "'w executor \<Rightarrow> remotes_config \<Rightarrow> host_config \<Rightarrow> remotes_config \<Rightarrow> 'w \<Rightarrow> bool" where
  "undisturbed ex c h c' w \<longleftrightarrow> config_validate c' = Inr () \<and> h \<in> set (automatic_hosts c')
     \<and> rc_active_interval_seconds c' = rc_active_interval_seconds c
     \<and> rc_idle_interval_seconds c' = rc_idle_interval_seconds c
     \<and> (case ex_paused_hosts ex (automatic_hosts c') w of
          (Inr p, _) \<Rightarrow> paused_flag p (hc_id h) \<noteq> Some True | (Inl _, _) \<Rightarrow> True)"

inductive host_ticks :: "'w executor \<Rightarrow> remotes_config \<Rightarrow> host_config \<Rightarrow> 'w sched_state \<Rightarrow> 'w sched_state \<Rightarrow> bool"
  for ex c h where
  no_host_tick: "host_ticks ex c h st st"
| next_host_tick: "host_ticks ex c h st st' \<Longrightarrow> undisturbed ex c h c' w \<Longrightarrow> tick ex c' (st'\<lparr>st_world := w\<rparr>) = (r, st'')
    \<Longrightarrow> host_ticks ex c h st st''"

definition transport_failure :: "sync_error + sync_report \<Rightarrow> bool" where
  "transport_failure r = (case r of
      Inl (Local i) \<Rightarrow> budget_pause_from_io_error i = None
    | Inl _ \<Rightarrow> True
    | Inr _ \<Rightarrow> False)"

definition sample_pair :: "string \<Rightarrow> string \<Rightarrow> host_config" where
  "sample_pair hid node = sample_host\<lparr>hc_id := hid, hc_sync_enabled := True,
     hc_expected_source := Some \<lparr>sg_node_id = node, sg_generation = 9\<rparr>\<rparr>"

definition sample_fleet :: remotes_config where
  "sample_fleet = remotes_config_default\<lparr>rc_config_revision := 5, rc_auto_sync_enabled := True,
     rc_hosts := [sample_pair ''lab'' ''node-1'', sample_pair ''desk'' ''node-2'']\<rparr>"

text \<open>The world is the clock; no host is paused and every attempt fails.\<close>

definition sample_executor :: "nat executor" where
  "sample_executor = \<lparr>ex_now = (\<lambda>w. w), ex_restore_host_schedule = (\<lambda>h w. (Inr None, w)),
     ex_paused_hosts = (\<lambda>hs w. (Inr (Some (\<lambda>k. if k \<in> hc_id ` set hs then Some False else None)), w)), ex_take_containment_signal = (\<lambda>h w. (False, w)),
     ex_sync_host = (\<lambda>snap limits w. (Inl (HostNotPaired (hc_id (hs_host snap))), w + 1))\<rparr>"

definition sample_start :: "nat sched_state" where
  "sample_start = \<lparr>st_scheduler = new_scheduler, st_world = 0, st_attempts = []\<rparr>"

definition tick_at :: "nat \<Rightarrow> nat sched_state \<Rightarrow> (scheduler_error + scheduler_tick) \<times> nat sched_state" where
  "tick_at t st = tick sample_executor sample_fleet (st\<lparr>st_world := t\<rparr>)"

definition sample_schedule :: "host_config \<Rightarrow> last_attempt \<Rightarrow> host_schedule" where
  "sample_schedule h a = \<lparr>ho_configured_host = h, ho_last_attempt = a, ho_active_until = None\<rparr>"

definition sample_sched :: "last_attempt \<Rightarrow> last_attempt \<Rightarrow> string \<Rightarrow> duration \<Rightarrow> duration \<Rightarrow> nat sched_state" where
  "sample_sched lab desk k t attempts = \<lparr>st_scheduler = \<lparr>
     sd_hosts = [''desk'' \<mapsto> sample_schedule (sample_pair ''desk'' ''node-2'') desk,
       ''lab'' \<mapsto> sample_schedule (sample_pair ''lab'' ''node-1'') lab],
     sd_last_dispatched_host = Some k, sd_last_dispatch_finished_at = Some t, sd_last_observed_now = t,
     sd_restore_durable_state = False\<rparr>, st_world = t, st_attempts = take attempts
       [(host_snapshot_of sample_fleet (sample_pair ''lab'' ''node-1''), automatic_remote_sync_limits),
        (host_snapshot_of sample_fleet (sample_pair ''desk'' ''node-2''), automatic_remote_sync_limits),
        (host_snapshot_of sample_fleet (sample_pair ''lab'' ''node-1''), automatic_remote_sync_limits)]\<rparr>"

definition sample_st1 :: "nat sched_state" where
  "sample_st1 = sample_sched (Failure 1 1) Never ''lab'' 1 1"

definition sample_st2 :: "nat sched_state" where
  "sample_st2 = sample_sched (Failure 1 1) (Failure 1000000000001 1) ''desk'' 1000000000001 2"

definition sample_st3 :: "nat sched_state" where
  "sample_st3 = sample_sched (Failure 3000000000001 2) (Failure 1000000000001 1) ''lab'' 3000000000001 3"

lemma mod_length_less: "i < length xs \<Longrightarrow> k mod length xs < length xs"
  by (rule mod_less_divisor) auto

section \<open>Reconciliation\<close>

lemma reconcile_host_frame:
  assumes "reconcile_host ex now restore pauses h hosts w = (e, hosts', w')"
  shows "k \<noteq> hc_id h \<Longrightarrow> hosts' k = hosts k" "hosts k \<noteq> None \<Longrightarrow> hosts' k \<noteq> None"
    and "e = None \<Longrightarrow> map_option ho_configured_host (hosts' (hc_id h)) = Some h"
  using assms
  by (auto simp: reconcile_host_def Let_def keep_schedule_def new_schedule_def seed_schedule_def
      split: option.splits if_splits sum.splits prod.splits bool.splits)

lemma reconcile_host_kept:
  assumes "reconcile_host ex now restore pauses h hosts w = (e, hosts', w')" "hosts (hc_id h) = Some s"
    "ho_configured_host s = h"
  shows "e = None \<and> w' = w \<and> hosts' = hosts(hc_id h \<mapsto> keep_schedule pauses s)"
  using assms by (auto simp: reconcile_host_def)

lemma reconcile_loop_frame:
  assumes "reconcile_loop ex now restore pauses hs hosts w = (e, hosts', w')"
  shows "k \<notin> hc_id ` set hs \<Longrightarrow> hosts' k = hosts k" "hosts k \<noteq> None \<Longrightarrow> hosts' k \<noteq> None"
proof -
  show "k \<notin> hc_id ` set hs \<Longrightarrow> hosts' k = hosts k"
    using assms
    by (induction hs arbitrary: hosts w) (auto split: prod.splits option.splits dest: reconcile_host_frame(1))
  show "hosts k \<noteq> None \<Longrightarrow> hosts' k \<noteq> None"
    using assms
  proof (induction hs arbitrary: hosts w)
    case (Cons h hs)
    then show ?case
      using reconcile_host_frame(2) [of ex now restore pauses h hosts w _ _ _ k]
      by (auto split: prod.splits option.splits)
  qed simp
qed

lemma reconcile_loop_at:
  assumes "reconcile_loop ex now restore pauses hs hosts w = (None, hosts', w')" "distinct (List.map hc_id hs)"
    "h \<in> set hs"
  obtains m m' v v' where "reconcile_host ex now restore pauses h m v = (None, m', v')"
    "m (hc_id h) = hosts (hc_id h)" "hosts' (hc_id h) = m' (hc_id h)"
  using assms
proof (induction hs arbitrary: hosts w thesis)
  case (Cons k hs)
  then obtain mid w1 where k: "reconcile_host ex now restore pauses k hosts w = (None, mid, w1)"
    and rest: "reconcile_loop ex now restore pauses hs mid w1 = (None, hosts', w')"
    by (auto split: prod.splits option.splits)
  show ?case
  proof (cases "h \<in> set hs")
    case True
    then have "hc_id h \<in> hc_id ` set hs" by simp
    with Cons.prems have "hc_id h \<noteq> hc_id k" by auto
    then have same: "mid (hc_id h) = hosts (hc_id h)" by (rule reconcile_host_frame(1) [OF k])
    show ?thesis using Cons.IH [OF _ rest _ True] Cons.prems(1,3) same by auto
  next
    case False
    with Cons.prems have "h = k" "hc_id h \<notin> hc_id ` set hs" by auto
    then show ?thesis using Cons.prems(1) k reconcile_loop_frame(1) [OF rest] by blast
  qed
qed simp

lemma reconcile_loop_configured:
  assumes "reconcile_loop ex now restore pauses hs hosts w = (None, hosts', w')" "distinct (List.map hc_id hs)"
    "h \<in> set hs"
  shows "map_option ho_configured_host (hosts' (hc_id h)) = Some h"
  by (rule reconcile_loop_at [OF assms]) (simp add: reconcile_host_frame(3))

lemma reconcile_loop_paused:
  assumes "reconcile_loop ex now restore pauses hs hosts w = (None, hosts', w')" "distinct (List.map hc_id hs)"
    "h \<in> set hs" and "case hosts (hc_id h) of Some s \<Rightarrow> ho_configured_host s = h | None \<Rightarrow> True"
    and "paused_flag pauses (hc_id h) = Some True"
  shows "map_option ho_last_attempt (hosts' (hc_id h)) = Some ProcessContainmentPause"
  by (rule reconcile_loop_at [OF assms(1-3)])
    (use assms(4,5) in \<open>auto simp: reconcile_host_def keep_schedule_def Let_def split: option.splits sum.splits prod.splits if_splits\<close>)

lemma reconcile_loop_kept:
  assumes "reconcile_loop ex now restore pauses hs hosts w = (e, hosts', w')" "distinct (List.map hc_id hs)"
    "h \<in> set hs" "hosts (hc_id h) = Some s" "ho_configured_host s = h" "keep_schedule pauses s = s"
  shows "hosts' (hc_id h) = Some s"
  using assms(1-4)
proof (induction hs arbitrary: hosts w)
  case (Cons k hs)
  obtain e1 mid w1 where k: "reconcile_host ex now restore pauses k hosts w = (e1, mid, w1)"
    by (cases "reconcile_host ex now restore pauses k hosts w")
  have mid: "mid (hc_id h) = Some s"
  proof (cases "h = k")
    case True
    with k Cons.prems assms(5,6) show ?thesis using reconcile_host_kept by fastforce
  next
    case False
    with Cons.prems have "hc_id h \<in> hc_id ` set hs" by simp
    with Cons.prems have "hc_id h \<noteq> hc_id k" by auto
    with k Cons.prems show ?thesis by (simp add: reconcile_host_frame(1))
  qed
  show ?case
  proof (cases e1)
    case None
    with k Cons.prems have rest: "reconcile_loop ex now restore pauses hs mid w1 = (e, hosts', w')" by simp
    show ?thesis
    proof (cases "h \<in> set hs")
      case True
      with Cons rest mid show ?thesis by simp
    next
      case False
      with Cons.prems have "hc_id h \<notin> hc_id ` set hs" by auto
      with rest mid show ?thesis by (simp add: reconcile_loop_frame(1))
    qed
  qed (use k Cons.prems mid in simp)
qed simp

lemma keep_schedule_agrees:
  "(case paused_flag pauses (hc_id (ho_configured_host s)) of Some b \<Rightarrow> b = (ho_last_attempt s = ProcessContainmentPause) | None \<Rightarrow> True)
    \<Longrightarrow> keep_schedule pauses s = s"
  by (auto simp: keep_schedule_def split: option.splits bool.splits)

lemma reconcile_loop_same:
  assumes "\<And>h. h \<in> set hs \<Longrightarrow> \<exists>s. hosts (hc_id h) = Some s \<and> ho_configured_host s = h \<and> keep_schedule pauses s = s"
  shows "reconcile_loop ex now restore pauses hs hosts w = (None, hosts, w)"
  using assms
proof (induction hs)
  case (Cons h hs)
  then obtain s where "hosts (hc_id h) = Some s" "ho_configured_host s = h" "keep_schedule pauses s = s" by force
  moreover from this have "hosts(hc_id h \<mapsto> s) = hosts" by auto
  ultimately show ?case using Cons by (simp add: reconcile_host_def)
qed simp

section \<open>Selection\<close>

lemma automatic_hosts_valid:
  assumes "config_validate c = Inr ()"
  shows "distinct (List.map hc_id (automatic_hosts c))"
    and "h \<in> set (automatic_hosts c) \<Longrightarrow> capture_for_automatic c h
      = Inr \<lparr>hs_config_revision = rc_config_revision c, hs_host = h\<rparr>"
proof -
  have d: "distinct (List.map hc_id (rc_hosts c))"
    using assms by (simp add: config_validate_iff valid_hosts_def)
  then show "distinct (List.map hc_id (automatic_hosts c))"
    by (simp add: automatic_hosts_def distinct_map_filter)
  assume h: "h \<in> set (automatic_hosts c)"
  with d have "config_host c (hc_id h) = Some h"
    by (auto simp: config_host_def find_Some_iff automatic_hosts_def in_set_conv_nth distinct_conv_nth)
  with h assms show "capture_for_automatic c h = Inr \<lparr>hs_config_revision = rc_config_revision c, hs_host = h\<rparr>"
    by (auto simp: capture_for_automatic_def capture_inner_def automatic_hosts_def is_paired_def result_simps)
qed

lemma position_of_nth:
  "distinct (List.map hc_id hs) \<Longrightarrow> i < length hs \<Longrightarrow> position_of (hc_id (hs ! i)) hs = Some i"
  by (induction hs arbitrary: i) (auto simp: nth_Cons split: nat.splits)

lemma next_due_Some:
  assumes "next_due_host_index hs c now g sc = Some i"
  shows "g \<le> now" "i < length hs" "host_is_due c now sc (hs ! i)"
  using assms
  by (auto simp: next_due_host_index_def find_Some_iff split: if_splits intro: mod_length_less)

lemma next_due_None:
  assumes "hs \<noteq> []"
  shows "next_due_host_index hs c now g sc = None
    \<longleftrightarrow> now < g \<or> (\<forall>h\<in>set hs. \<not> host_is_due c now sc h)"
proof -
  let ?n = "length hs" let ?at = "\<lambda>off. (start_index sc hs + off) mod ?n"
  have "set hs = (\<lambda>off. hs ! ?at off) ` {0..<?n}"
  proof -
    have "\<exists>off<?n. ?at off = i" if "i < ?n" for i
    proof
      let ?s = "start_index sc hs mod ?n"
      show "(i + (?n - ?s)) mod ?n < ?n \<and> ?at ((i + (?n - ?s)) mod ?n) = i"
      proof
        have s: "?s \<le> ?n" using that by (simp add: mod_length_less less_imp_le)
        have "?at ((i + (?n - ?s)) mod ?n) = (?s + (i + (?n - ?s))) mod ?n"
          by (simp add: mod_simps)
        also have "\<dots> = i" using s that by simp
        finally show "?at ((i + (?n - ?s)) mod ?n) = i" .
      qed (use that in \<open>simp add: mod_length_less\<close>)
    qed
    note offset = this
    show ?thesis
    proof (intro equalityI subsetI)
      fix h assume "h \<in> set hs"
      then obtain i where i: "i < ?n" "h = hs ! i" by (metis in_set_conv_nth)
      with offset obtain off where "off < ?n" "?at off = i" by blast
      with i show "h \<in> (\<lambda>off. hs ! ?at off) ` {0..<?n}" by auto
    qed (auto intro!: nth_mem mod_length_less)
  qed
  then show ?thesis by (auto simp: next_due_host_index_def find_None_iff)
qed

section \<open>The shape of a tick\<close>

lemma attempt_host_ok:
  assumes "config_validate c = Inr ()" "h \<in> set (automatic_hosts c)" "sd_hosts (st_scheduler st) (hc_id h) = Some s"
    and "attempt_host ex c hs h st = (r, st')"
  obtains w u res t wake where
    "r = Inr (Attempted (hc_id h) (rc_config_revision c) (hc_expected_source h) u res
       (case due_at c (record_outcome u t res s) of Some due \<Rightarrow> due - t | None \<Rightarrow> DURATION_MAX) wake)"
    "ex_sync_host ex (host_snapshot_of c h) automatic_remote_sync_limits (st_world st) = (res, w)"
    "uncertain_error res \<longrightarrow> u"
    "sd_last_observed_now (st_scheduler st) \<le> t"
    "st_scheduler st' = (st_scheduler st)\<lparr>sd_hosts := (sd_hosts (st_scheduler st))(hc_id h \<mapsto> record_outcome u t res s),
       sd_last_dispatched_host := Some (hc_id h), sd_last_dispatch_finished_at := Some t, sd_last_observed_now := t\<rparr>"
    "st_attempts st' = st_attempts st @ [(host_snapshot_of c h, automatic_remote_sync_limits)]"
    "wake = next_wake_delay hs c t (dur_add t MIN_DISPATCH_SPACING) (st_scheduler st')"
proof -
  obtain res w where res: "ex_sync_host ex (host_snapshot_of c h) automatic_remote_sync_limits (st_world st) = (res, w)"
    by (cases "ex_sync_host ex (host_snapshot_of c h) automatic_remote_sync_limits (st_world st)")
  obtain sig w' where sig: "(if uncertain_error res then (False, w) else ex_take_containment_signal ex h w) = (sig, w')"
    by (cases "if uncertain_error res then (False, w) else ex_take_containment_signal ex h w")
  show ?thesis
    by (rule that [where res = res and w = w and u = "uncertain_error res \<or> sig"
          and wake = "next_wake_delay hs c (sd_last_observed_now (st_scheduler st'))
              (dur_add (sd_last_observed_now (st_scheduler st')) MIN_DISPATCH_SPACING) (st_scheduler st')"
          and t = "max (sd_last_observed_now (st_scheduler st)) (ex_now ex w')"])
      (use assms(3,4) automatic_hosts_valid(2) [OF assms(1,2)] res sig
        in \<open>auto simp: attempt_host_def host_snapshot_of_def Let_def monotonic_now_def
          split: option.split\<close>)
qed

lemma tick_cases:
  assumes valid: "config_validate c = Inr ()" and tick: "tick ex c st = (r, st')"
  obtains (idle) d where "automatic_hosts c = []" "r = Inr (Disabled d) \<or> r = Inr (NoEligibleHosts d)"
      "d = configured_idle_delay c" "st_attempts st' = st_attempts st"
      "sd_last_observed_now (st_scheduler st') = observed ex st"
    | (paused_error) e w where "automatic_hosts c \<noteq> []" "r = Inl (SchedulerSync e)"
      "ex_paused_hosts ex (automatic_hosts c) (st_world st) = (Inl e, w)"
      "st_attempts st' = st_attempts st"
      "st_scheduler st' = (st_scheduler st)\<lparr>sd_last_observed_now := observed ex st\<rparr>"
    | (restore_error) e pauses w where "automatic_hosts c \<noteq> []" "r = Inl (SchedulerSync e)"
      "ex_paused_hosts ex (automatic_hosts c) (st_world st) = (Inr pauses, w)"
      "reconcile_hosts ex (automatic_hosts c) (observed ex st) (sd_restore_durable_state (st_scheduler st)) pauses
         ((st_scheduler st)\<lparr>sd_last_observed_now := observed ex st\<rparr>) w = (Some e, st_scheduler st', st_world st')"
      "st_attempts st' = st_attempts st"
    | (reconciled) pauses w sc w' where "automatic_hosts c \<noteq> []"
      "ex_paused_hosts ex (automatic_hosts c) (st_world st) = (Inr pauses, w)"
      "reconcile_hosts ex (automatic_hosts c) (observed ex st) (sd_restore_durable_state (st_scheduler st)) pauses
         ((st_scheduler st)\<lparr>sd_last_observed_now := observed ex st\<rparr>) w = (None, sc, w')"
      "(case next_due_host_index (automatic_hosts c) c (observed ex st) (global_due sc)
            (sc\<lparr>sd_restore_durable_state := False\<rparr>) of
          None \<Rightarrow> r = Inr (Waiting (next_wake_delay (automatic_hosts c) c (observed ex st) (global_due sc)
              (sc\<lparr>sd_restore_durable_state := False\<rparr>)))
            \<and> st' = st\<lparr>st_scheduler := sc\<lparr>sd_restore_durable_state := False\<rparr>, st_world := w'\<rparr>
        | Some i \<Rightarrow> attempt_host ex c (automatic_hosts c) (automatic_hosts c ! i)
            (st\<lparr>st_scheduler := sc\<lparr>sd_restore_durable_state := False\<rparr>, st_world := w'\<rparr>) = (r, st'))"
proof -
  let ?sc = "(st_scheduler st)\<lparr>sd_last_observed_now := observed ex st\<rparr>"
  have mono: "monotonic_now (ex_now ex (st_world st)) (st_scheduler st) = ?sc"
    by (simp add: monotonic_now_def observed_def)
  show ?thesis
  proof (cases "automatic_hosts c = []")
    case True
    then show ?thesis
      using tick by (intro idle) (auto simp: tick_def mono Let_def clear_ineligible_state_def split: if_splits)
  next
    case ne: False
    then have auto: "rc_auto_sync_enabled c" by (auto simp: automatic_hosts_def filter_empty_conv)
    obtain p w where p: "ex_paused_hosts ex (automatic_hosts c) (st_world st) = (p, w)" by fastforce
    show ?thesis
    proof (cases p)
      case (Inl e)
      then show ?thesis using tick p auto ne by (intro paused_error) (auto simp: tick_def mono Let_def)
    next
      case (Inr pauses)
      obtain e sc w' where rec: "reconcile_hosts ex (automatic_hosts c) (observed ex st)
          (sd_restore_durable_state (st_scheduler st)) pauses ?sc w = (e, sc, w')" by (metis prod_cases3)
      show ?thesis
      proof (cases e)
        case None
        show ?thesis
          using tick p Inr rec None auto ne
          by (intro reconciled [OF ne p [unfolded Inr] rec [unfolded None]])
            (auto simp: tick_def mono Let_def global_due_def split: option.splits)
      next
        case (Some e')
        then show ?thesis
          using tick p Inr rec auto ne by (intro restore_error [of e' pauses w]) (auto simp: tick_def mono Let_def)
      qed
    qed
  qed
qed

section \<open>Sequences of ticks\<close>

lemma start_index_less: "hs \<noteq> [] \<Longrightarrow> start_index sc hs < length hs"
  by (auto simp: start_index_def split: option.split)

lemma start_index_cong:
  "sd_last_dispatched_host sc = sd_last_dispatched_host sc' \<Longrightarrow> start_index sc hs = start_index sc' hs"
  by (simp add: start_index_def)

lemma host_distance_eqI:
  assumes "i < length hs" "d < length hs" "(start_index sc hs + d) mod length hs = i"
  shows "host_distance sc hs i = d"
proof -
  have s: "start_index sc hs < length hs" using assms(1) by (intro start_index_less) auto
  show ?thesis
  proof (cases "start_index sc hs + d < length hs")
    case True
    with assms s have "i = start_index sc hs + d" by simp
    with assms show ?thesis by (simp add: host_distance_def)
  next
    case False
    with assms s have i: "i = start_index sc hs + d - length hs" by (simp add: le_mod_geq)
    with False assms s show ?thesis by (simp add: host_distance_def)
  qed
qed

lemma host_distance_offset:
  assumes "i < length hs"
  shows "(start_index sc hs + host_distance sc hs i) mod length hs = i" "host_distance sc hs i < length hs"
proof -
  have s: "start_index sc hs < length hs" using assms by (intro start_index_less) auto
  then have "start_index sc hs + (i + length hs - start_index sc hs) = i + length hs" by simp
  with assms show "(start_index sc hs + host_distance sc hs i) mod length hs = i"
    by (simp add: host_distance_def mod_simps)
qed (use assms in \<open>simp add: host_distance_def mod_length_less\<close>)

lemma dispatch_shortens_distance:
  assumes ids: "distinct (List.map hc_id hs)" and i: "i < length hs" "host_is_due c now sc (hs ! i)"
    and j: "next_due_host_index hs c now g sc = Some j" "j \<noteq> i"
    and last: "sd_last_dispatched_host sc' = Some (hc_id (hs ! j))"
  shows "host_distance sc' hs i < host_distance sc hs i"
proof -
  let ?n = "length hs" let ?s = "start_index sc hs" let ?d = "host_distance sc hs i"
  obtain off where off: "off < ?n" "j = (?s + off) mod ?n" "\<And>x. x < off \<Longrightarrow> \<not> host_is_due c now sc (hs ! ((?s + x) mod ?n))"
    using j(1) by (auto simp: next_due_host_index_def find_Some_iff split: if_splits)
  have less: "off < ?d"
    using off(2,3) i j(2) host_distance_offset [OF i(1), of sc] by (metis linorder_neqE_nat)
  have jn: "j < ?n" using next_due_Some(2) [OF j(1)] .
  then have "start_index sc' hs = (j + 1) mod ?n"
    using last position_of_nth [OF ids jn] by (simp add: start_index_def)
  then have "(start_index sc' hs + (?d - off - 1)) mod ?n = (?s + off + 1 + (?d - off - 1)) mod ?n"
    unfolding off(2) by (simp add: mod_simps)
  also have "?s + off + 1 + (?d - off - 1) = ?s + ?d" using less by simp
  finally have "host_distance sc' hs i = ?d - off - 1"
    using host_distance_offset [OF i(1), of sc] i(1) by (intro host_distance_eqI) auto
  with less show ?thesis by simp
qed

lemma reconcile_hosts_spec:
  assumes "reconcile_hosts ex hs now restore pauses sc w = (e, sc', w')" "distinct (List.map hc_id hs)"
  shows "start_index sc' hs = start_index sc hs"
    and "sd_last_dispatch_finished_at sc' = sd_last_dispatch_finished_at sc"
    and "sd_last_observed_now sc' = sd_last_observed_now sc"
    and "h \<in> set hs \<Longrightarrow> sd_hosts sc (hc_id h) = Some s \<Longrightarrow> ho_configured_host s = h
      \<Longrightarrow> keep_schedule pauses s = s \<Longrightarrow> sd_hosts sc' (hc_id h) = Some s"
    and "e = None \<Longrightarrow> h \<in> set hs \<Longrightarrow> map_option ho_configured_host (sd_hosts sc' (hc_id h)) = Some h"
    and "e = None \<Longrightarrow> h \<in> set hs \<Longrightarrow> (case sd_hosts sc (hc_id h) of Some s \<Rightarrow> ho_configured_host s = h | None \<Rightarrow> True)
      \<Longrightarrow> paused_flag pauses (hc_id h) = Some True
      \<Longrightarrow> map_option ho_last_attempt (sd_hosts sc' (hc_id h)) = Some ProcessContainmentPause"
proof -
  let ?kept = "\<lambda>k. if k \<in> hc_id ` set hs then sd_hosts sc k else None"
  obtain e' hosts w1 where loop: "reconcile_loop ex now restore pauses hs ?kept w = (e', hosts, w1)"
    by (metis prod_cases3)
  with assms have e: "e' = e" and hosts: "sd_hosts sc' = hosts"
    by (auto simp: reconcile_hosts_def split: option.splits)
  show configured: "map_option ho_configured_host (sd_hosts sc' (hc_id h)) = Some h" if "e = None" "h \<in> set hs" for h
    using reconcile_loop_configured [OF loop [unfolded e that(1)] assms(2) that(2)] hosts by simp
  show "map_option ho_last_attempt (sd_hosts sc' (hc_id h)) = Some ProcessContainmentPause"
    if "e = None" "h \<in> set hs" "case sd_hosts sc (hc_id h) of Some s \<Rightarrow> ho_configured_host s = h | None \<Rightarrow> True"
      "paused_flag pauses (hc_id h) = Some True"
    using reconcile_loop_paused [OF loop [unfolded e that(1)] assms(2) that(2) _ that(4)] that(2,3) hosts by simp
  show "sd_hosts sc' (hc_id h) = Some s" if "h \<in> set hs" "sd_hosts sc (hc_id h) = Some s" "ho_configured_host s = h"
    "keep_schedule pauses s = s"
    using reconcile_loop_kept [OF loop assms(2) that(1) _ that(3,4)] that(1,2) hosts by simp
  have "position_of k hs = None" if "e = None" "hosts k = None" for k
  proof -
    have "position_of k hs = None" if "\<forall>h\<in>set hs. hc_id h \<noteq> k" using that by (induction hs) auto
    moreover have "hc_id h \<noteq> k" if "h \<in> set hs" for h
      using configured [OF \<open>e = None\<close> that] \<open>hosts k = None\<close> hosts by auto
    ultimately show ?thesis by blast
  qed
  then show "start_index sc' hs = start_index sc hs"
    using assms(1) loop e by (auto simp: reconcile_hosts_def start_index_def split: option.splits if_splits)
  show "sd_last_dispatch_finished_at sc' = sd_last_dispatch_finished_at sc"
    "sd_last_observed_now sc' = sd_last_observed_now sc"
    using assms(1) loop by (auto simp: reconcile_hosts_def split: option.splits)
qed

lemma due_schedule_kept:
  "due_at c s \<noteq> None \<Longrightarrow> paused_flag p (hc_id (ho_configured_host s)) \<noteq> Some True \<Longrightarrow> keep_schedule p s = s"
  by (auto simp: keep_schedule_def due_at_def split: option.splits bool.splits)

lemma observed_world [simp]: "observed ex (st\<lparr>st_world := w\<rparr>) = max (sd_last_observed_now (st_scheduler st)) (ex_now ex w)"
  by (simp add: observed_def)

lemma host_is_due_cong:
  "sd_hosts sc = sd_hosts sc' \<Longrightarrow> host_is_due c now sc h = host_is_due c now sc' h"
  by (simp add: host_is_due_def)

lemma reconciled_attempt:
  assumes valid: "config_validate c = Inr ()"
    and rec: "reconcile_hosts ex (automatic_hosts c) now restore pauses sc0 w0 = (None, sc, w)"
    and due: "next_due_host_index (automatic_hosts c) c now g (sc\<lparr>sd_restore_durable_state := False\<rparr>) = Some j"
    and att: "attempt_host ex c (automatic_hosts c) (automatic_hosts c ! j)
      (st\<lparr>st_scheduler := sc\<lparr>sd_restore_durable_state := False\<rparr>, st_world := w\<rparr>) = (r, st')"
  obtains h s u res w' t wake where "h = automatic_hosts c ! j" "h \<in> set (automatic_hosts c)"
    "sd_hosts sc (hc_id h) = Some s" "ho_configured_host s = h" "g \<le> now"
    "case due_at c s of Some d \<Rightarrow> d \<le> now | None \<Rightarrow> False"
    "r = Inr (Attempted (hc_id h) (rc_config_revision c) (hc_expected_source h) u res
       (case due_at c (record_outcome u t res s) of Some due \<Rightarrow> due - t | None \<Rightarrow> DURATION_MAX) wake)"
    "ex_sync_host ex (host_snapshot_of c h) automatic_remote_sync_limits w = (res, w')"
    "uncertain_error res \<longrightarrow> u" "sd_last_observed_now sc \<le> t"
    "st_scheduler st' = sc\<lparr>sd_hosts := (sd_hosts sc)(hc_id h \<mapsto> record_outcome u t res s),
       sd_last_dispatched_host := Some (hc_id h), sd_last_dispatch_finished_at := Some t,
       sd_last_observed_now := t, sd_restore_durable_state := False\<rparr>"
    "st_attempts st' = st_attempts st @ [(host_snapshot_of c h, automatic_remote_sync_limits)]"
    "wake = next_wake_delay (automatic_hosts c) c t (dur_add t MIN_DISPATCH_SPACING) (st_scheduler st')"
proof -
  let ?k = "automatic_hosts c ! j"
  have j: "?k \<in> set (automatic_hosts c)" "g \<le> now" "host_is_due c now sc ?k"
    using next_due_Some [OF due] by (auto cong: host_is_due_cong)
  obtain s where s: "sd_hosts sc (hc_id ?k) = Some s" "ho_configured_host s = ?k"
    using reconcile_hosts_spec(5) [OF rec automatic_hosts_valid(1) [OF valid] refl j(1)] by auto
  show ?thesis
    apply (rule attempt_host_ok [OF valid j(1) _ att])
     apply (simp add: s)
    subgoal premises p for wa u res t wake
      by (rule that [OF refl j(1) s j(2), where u = u and res = res and t = t and wake = wake and w' = wa])
        (use p s j(3) in \<open>simp_all add: host_is_due_def\<close>)
    done
qed

lemma tick_attempts:
  assumes "config_validate c = Inr ()" "tick ex c st = (r, st')"
  shows "\<exists>new. st_attempts st' = st_attempts st @ new" "observed ex st \<le> sd_last_observed_now (st_scheduler st')"
proof -
  note ids = automatic_hosts_valid(1) [OF assms(1)]
  have "(\<exists>new. st_attempts st' = st_attempts st @ new) \<and> observed ex st \<le> sd_last_observed_now (st_scheduler st')"
    using assms
  proof (cases rule: tick_cases)
    case (restore_error e pauses w)
    with reconcile_hosts_spec(3) [OF restore_error(4) ids] show ?thesis by simp
  next
    case (reconciled pauses w sc w')
    note now = reconcile_hosts_spec(3) [OF reconciled(3) ids]
    show ?thesis
    proof (cases "next_due_host_index (automatic_hosts c) c (observed ex st) (global_due sc)
        (sc\<lparr>sd_restore_durable_state := False\<rparr>)")
      case None
      with reconciled(4) now show ?thesis by simp
    next
      case (Some j)
      with reconciled(4) have att: "attempt_host ex c (automatic_hosts c) (automatic_hosts c ! j)
        (st\<lparr>st_scheduler := sc\<lparr>sd_restore_durable_state := False\<rparr>, st_world := w'\<rparr>) = (r, st')" by simp
      show ?thesis
        by (rule reconciled_attempt [OF assms(1) reconciled(3) Some att]) (use now in auto)
    qed
  qed auto
  then show "\<exists>new. st_attempts st' = st_attempts st @ new" "observed ex st \<le> sd_last_observed_now (st_scheduler st')"
    by auto
qed

text \<open>
  What one tick does to the schedule of a host that has one and is not paused: it stays, or
  the host is attempted when it was due.
\<close>

lemma tick_schedule:
  assumes valid: "config_validate c = Inr ()" and tick: "tick ex c st = (r, st')" and h: "h \<in> set (automatic_hosts c)"
    and s: "sd_hosts (st_scheduler st) (hc_id h) = Some s" "ho_configured_host s = h" "due_at c s = Some due"
    and unpaused: "\<forall>p w. ex_paused_hosts ex (automatic_hosts c) (st_world st) = (Inr p, w) \<longrightarrow> paused_flag p (hc_id h) \<noteq> Some True"
  obtains
    (stays) "sd_hosts (st_scheduler st') (hc_id h) = Some s" "observed ex st \<le> sd_last_observed_now (st_scheduler st')"
      "st_attempts st' = st_attempts st" "start_index (st_scheduler st') (automatic_hosts c) = start_index (st_scheduler st) (automatic_hosts c)"
  | (other) j sc where "sd_hosts (st_scheduler st') (hc_id h) = Some s" "observed ex st \<le> sd_last_observed_now (st_scheduler st')"
      "st_attempts st' = st_attempts st @ [(host_snapshot_of c (automatic_hosts c ! j), automatic_remote_sync_limits)]"
      "start_index sc (automatic_hosts c) = start_index (st_scheduler st) (automatic_hosts c)"
      "sd_hosts sc (hc_id h) = Some s" "automatic_hosts c ! j \<noteq> h"
      "next_due_host_index (automatic_hosts c) c (observed ex st) (global_due sc) sc = Some j"
      "sd_last_dispatched_host (st_scheduler st') = Some (hc_id (automatic_hosts c ! j))"
  | (attempted) "due \<le> observed ex st" "observed ex st \<le> sd_last_observed_now (st_scheduler st')"
      "st_attempts st' = st_attempts st @ [(host_snapshot_of c h, automatic_remote_sync_limits)]"
proof -
  have ids: "distinct (List.map hc_id (automatic_hosts c))" using valid by (rule automatic_hosts_valid)
  have keep: "keep_schedule p s = s" if "ex_paused_hosts ex (automatic_hosts c) (st_world st) = (Inr p, w)" for p w
    using unpaused that s by (intro due_schedule_kept) auto
  show ?thesis using valid tick
  proof (cases rule: tick_cases)
    case (idle d)
    with h show ?thesis by simp
  next
    case (paused_error e w)
    with s show ?thesis by (intro stays) (auto intro: start_index_cong)
  next
    case (restore_error e pauses w)
    note spec = reconcile_hosts_spec [OF restore_error(4) ids]
    show ?thesis
      using spec(1,3) spec(4) [OF h _ s(2) keep [OF restore_error(3)]] s restore_error(5)
      by (intro stays) (auto cong: start_index_cong)
  next
    case (reconciled pauses w sc w')
    let ?sc = "sc\<lparr>sd_restore_durable_state := False\<rparr>"
    note spec = reconcile_hosts_spec [OF reconciled(3) ids]
    have sched: "sd_hosts sc (hc_id h) = Some s"
      using spec(4) [OF h _ s(2) keep [OF reconciled(2)]] s(1) by simp
    have start: "start_index ?sc (automatic_hosts c) = start_index (st_scheduler st) (automatic_hosts c)"
      using spec(1) by (simp cong: start_index_cong)
    have now: "sd_last_observed_now sc = observed ex st" using spec(3) by simp
    show ?thesis
    proof (cases "next_due_host_index (automatic_hosts c) c (observed ex st) (global_due sc) ?sc")
      case None
      with reconciled(4) sched start now show ?thesis by (intro stays) auto
    next
      case (Some j)
      let ?k = "automatic_hosts c ! j"
      have att: "attempt_host ex c (automatic_hosts c) ?k (st\<lparr>st_scheduler := ?sc, st_world := w'\<rparr>) = (r, st')"
        using reconciled(4) Some by simp
      obtain sk u res t where j: "?k \<in> set (automatic_hosts c)" "sd_hosts sc (hc_id ?k) = Some sk"
          "case due_at c sk of Some d \<Rightarrow> d \<le> observed ex st | None \<Rightarrow> False"
        and t: "sd_last_observed_now sc \<le> t"
        and st': "st_scheduler st' = sc\<lparr>sd_hosts := (sd_hosts sc)(hc_id ?k \<mapsto> record_outcome u t res sk),
            sd_last_dispatched_host := Some (hc_id ?k), sd_last_dispatch_finished_at := Some t,
            sd_last_observed_now := t, sd_restore_durable_state := False\<rparr>"
          "st_attempts st' = st_attempts st @ [(host_snapshot_of c ?k, automatic_remote_sync_limits)]"
        by (rule reconciled_attempt [OF valid reconciled(3) Some att]) (use that in auto)
      show ?thesis
      proof (cases "?k = h")
        case True
        with j sched s st' t now show ?thesis by (intro attempted) auto
      next
        case False
        with ids j(1) h have "hc_id ?k \<noteq> hc_id h" by (auto simp: distinct_map dest: inj_onD)
        with st' t now sched start Some False show ?thesis
          by (intro other [of j ?sc]) (auto simp: global_due_def)
      qed
    qed
  qed
qed

lemma ticks_due_host:
  assumes ticks: "ticks ex c st st'" and valid: "config_validate c = Inr ()"
    and h: "i < length (automatic_hosts c)" "h = automatic_hosts c ! i"
    and s: "sd_hosts (st_scheduler st) (hc_id h) = Some s" "ho_configured_host s = h" "due_at c s = Some due"
      "due \<le> sd_last_observed_now (st_scheduler st)"
    and never: "never_paused ex (hc_id h)"
  shows "\<exists>new. st_attempts st' = st_attempts st @ new
    \<and> ((host_snapshot_of c h, automatic_remote_sync_limits) \<in> set new
      \<or> sd_hosts (st_scheduler st') (hc_id h) = Some s \<and> due \<le> sd_last_observed_now (st_scheduler st')
        \<and> length new + host_distance (st_scheduler st') (automatic_hosts c) i < length (automatic_hosts c))"
  using ticks s(1,4)
proof induction
  case (no_tick st)
  with h show ?case by (auto simp: host_distance_offset(2))
next
  case (one_more st st' w r st'')
  let ?hs = "automatic_hosts c" let ?snap = "(host_snapshot_of c h, automatic_remote_sync_limits)"
  from one_more obtain new where new: "st_attempts st' = st_attempts st @ new"
    "?snap \<in> set new \<or> sd_hosts (st_scheduler st') (hc_id h) = Some s \<and> due \<le> sd_last_observed_now (st_scheduler st')
        \<and> length new + host_distance (st_scheduler st') ?hs i < length ?hs" by blast
  have mem: "h \<in> set ?hs" and ids: "distinct (List.map hc_id ?hs)"
    using h automatic_hosts_valid(1) [OF valid] by auto
  show ?case
  proof (cases "?snap \<in> set new")
    case True
    obtain more where "st_attempts st'' = st_attempts st' @ more"
      using tick_attempts [OF valid one_more.hyps(2)] by auto
    with True new show ?thesis by auto
  next
    case False
    with new have sched: "sd_hosts (st_scheduler (st'\<lparr>st_world := w\<rparr>)) (hc_id h) = Some s"
      and due: "due \<le> sd_last_observed_now (st_scheduler st')"
      and len: "length new + host_distance (st_scheduler st') ?hs i < length ?hs" by auto
    have unpaused: "\<forall>p v. ex_paused_hosts ex ?hs (st_world (st'\<lparr>st_world := w\<rparr>)) = (Inr p, v) \<longrightarrow> paused_flag p (hc_id h) \<noteq> Some True"
      using never by (auto simp: never_paused_def)
    show ?thesis using valid one_more.hyps(2) mem sched s(2,3) unpaused
    proof (cases rule: tick_schedule)
      case stays
      with new due len show ?thesis by (auto simp: host_distance_def)
    next
      case (other j sc)
      have "host_is_due c (observed ex (st'\<lparr>st_world := w\<rparr>)) sc (?hs ! i)"
        using other(5) s(3) due h(2) by (simp add: host_is_due_def)
      then have "host_distance (st_scheduler st'') ?hs i < host_distance sc ?hs i"
        using other(6,7,8) h by (intro dispatch_shortens_distance [OF ids]) auto
      also have "\<dots> = host_distance (st_scheduler st') ?hs i" using other(4) by (simp add: host_distance_def)
      finally show ?thesis using other(1,2,3) new(1) due len by (intro exI [of _ "new @ _"]) auto
    next
      case attempted
      with new(1) show ?thesis by auto
    qed
  qed
qed

text \<open>
  C28. Round-robin fairness: a host of the allowlist whose schedule is due is attempted before
  as many attempts are made as the allowlist has hosts, whatever the executor returns, with
  failed ticks in between and however the clock and the world change between the ticks, as
  long as the executor does not report it paused.
\<close>

theorem due_host_served:
  assumes "config_validate c = Inr ()" "h \<in> set (automatic_hosts c)"
    and "sd_hosts (st_scheduler st) (hc_id h) = Some s" "ho_configured_host s = h"
    and "due_at c s = Some due" "due \<le> sd_last_observed_now (st_scheduler st)"
    and "never_paused ex (hc_id h)"
    and "ticks ex c st st'"
    and "length (st_attempts st) + length (automatic_hosts c) \<le> length (st_attempts st')"
  shows "(host_snapshot_of c h, automatic_remote_sync_limits) \<in> set (drop (length (st_attempts st)) (st_attempts st'))"
proof -
  obtain i where i: "i < length (automatic_hosts c)" "h = automatic_hosts c ! i"
    using assms(2) by (metis in_set_conv_nth)
  then show ?thesis using ticks_due_host [OF assms(8,1) i assms(3-7)] assms(9) by auto
qed

lemma strictly_positive_pos: "0 < strictly_positive d"
  by (simp add: strictly_positive_def MIN_DISPATCH_SPACING_def from_secs_def)

lemma paused_never_due: "ho_last_attempt s = ProcessContainmentPause \<longleftrightarrow> due_at c s = None"
  by (auto simp: due_at_def Let_def split: last_attempt.splits)

text \<open>
  C27. One tick under a valid configuration never panics and makes at most one attempt.  An
  attempted host is on the automatic allowlist, is attempted with the automatic limits
  under the revision of this configuration and its pinned source, not before the dispatch
  spacing has passed, and not while the executor reports it paused, unless its row was
  edited since it was scheduled.  An error comes from the executor and leaves no attempt,
  and the announced wake is strictly later.
\<close>

theorem tick_safe:
  assumes valid: "config_validate c = Inr ()" and tick: "tick ex c st = (r, st')"
  shows "case r of
      Inl e \<Rightarrow> (\<exists>x. e = SchedulerSync x) \<and> st_attempts st' = st_attempts st
    | Inr (Attempted k revision source uncertain res next_in wake) \<Rightarrow> (\<exists>h. h \<in> set (automatic_hosts c)
        \<and> hc_id h = k \<and> revision = rc_config_revision c \<and> source = hc_expected_source h \<and> source \<noteq> None
        \<and> st_attempts st' = st_attempts st @ [(host_snapshot_of c h, automatic_remote_sync_limits)]
        \<and> (\<exists>w. fst (ex_sync_host ex (host_snapshot_of c h) automatic_remote_sync_limits w) = res)
        \<and> global_due (st_scheduler st) \<le> observed ex st \<and> 0 < wake
        \<and> (\<forall>p w. ex_paused_hosts ex (automatic_hosts c) (st_world st) = (Inr p, w) \<longrightarrow> paused_flag p k = Some True
            \<longrightarrow> (\<exists>s. sd_hosts (st_scheduler st) k = Some s \<and> ho_configured_host s \<noteq> h)))
    | Inr t \<Rightarrow> st_attempts st' = st_attempts st \<and> 0 < next_wake_in t"
  using valid tick
proof (cases rule: tick_cases)
  case (idle d)
  then show ?thesis by (auto simp: configured_idle_delay_def strictly_positive_pos)
next
  case (reconciled pauses w sc w')
  note ids = automatic_hosts_valid(1) [OF valid]
  note spec = reconcile_hosts_spec [OF reconciled(3) ids]
  let ?sc = "sc\<lparr>sd_restore_durable_state := False\<rparr>"
  show ?thesis
  proof (cases "next_due_host_index (automatic_hosts c) c (observed ex st) (global_due sc) ?sc")
    case None
    with reconciled(4) show ?thesis by (simp add: next_wake_delay_def Let_def strictly_positive_pos)
  next
    case (Some j)
    with reconciled(4) have att: "attempt_host ex c (automatic_hosts c) (automatic_hosts c ! j)
      (st\<lparr>st_scheduler := ?sc, st_world := w'\<rparr>) = (r, st')" by simp
    have g: "global_due sc = global_due (st_scheduler st)" using spec(2) by (simp add: global_due_def)
    obtain h s u res w1 next_in wake where h: "h \<in> set (automatic_hosts c)" "sd_hosts sc (hc_id h) = Some s"
        "global_due sc \<le> observed ex st" "case due_at c s of Some d \<Rightarrow> d \<le> observed ex st | None \<Rightarrow> False"
      and r: "r = Inr (Attempted (hc_id h) (rc_config_revision c) (hc_expected_source h) u res next_in wake)" "0 < wake"
      and a: "st_attempts st' = st_attempts st @ [(host_snapshot_of c h, automatic_remote_sync_limits)]"
        "ex_sync_host ex (host_snapshot_of c h) automatic_remote_sync_limits w' = (res, w1)"
      by (rule reconciled_attempt [OF valid reconciled(3) Some att])
        (use that in \<open>auto simp: next_wake_delay_def Let_def strictly_positive_pos\<close>)
    have "\<exists>s. sd_hosts (st_scheduler st) (hc_id h) = Some s \<and> ho_configured_host s \<noteq> h"
      if "paused_flag pauses (hc_id h) = Some True"
    proof (rule ccontr)
      assume "\<not> ?thesis"
      then have "map_option ho_last_attempt (sd_hosts sc (hc_id h)) = Some ProcessContainmentPause"
        using that by (intro spec(6) [OF refl h(1)]) (auto split: option.split)
      with h(2,4) show False by (auto simp: due_at_def)
    qed
    moreover have "\<exists>w. fst (ex_sync_host ex (host_snapshot_of c h) automatic_remote_sync_limits w) = res"
      using a(2) by (intro exI [of _ w']) simp
    moreover have "hc_expected_source h \<noteq> None" using h(1) by (simp add: automatic_hosts_def)
    ultimately show ?thesis using r a(1) h reconciled(2) g by auto
  qed
qed auto

lemma next_wake_waiting:
  assumes hs: "hs \<noteq> []" and none: "next_due_host_index hs c now g sc = None"
    and d: "d = next_wake_delay hs c now g sc"
  shows "t < now + d \<Longrightarrow> next_due_host_index hs c t g sc = None"
    and "now + d \<le> t \<Longrightarrow> h \<in> set hs \<Longrightarrow> sd_hosts sc (hc_id h) = Some s \<Longrightarrow> due_at c s \<noteq> None
      \<Longrightarrow> next_due_host_index hs c t g sc \<noteq> None"
proof -
  define dues where "dues = List.map (\<lambda>due. max due g)
    (List.map_filter (due_at c) (List.map_filter (\<lambda>h. sd_hosts sc (hc_id h)) hs))"
  have mem: "set dues = {max due g |h s due. h \<in> set hs \<and> sd_hosts sc (hc_id h) = Some s \<and> due_at c s = Some due}"
    unfolding dues_def by (auto simp: map_filter_def) (metis (mono_tags, lifting) image_eqI mem_Collect_eq option.sel option.simps(3))+
  have iff: "next_due_host_index hs c t g sc = None \<longleftrightarrow> (\<forall>x\<in>set dues. t < x)" for t
  proof -
    have "(\<forall>x\<in>set dues. t < x) \<longleftrightarrow> (\<forall>h\<in>set hs. \<forall>s due. sd_hosts sc (hc_id h) = Some s \<longrightarrow> due_at c s = Some due
        \<longrightarrow> t < max due g)" unfolding mem by blast
    then show ?thesis by (auto simp: next_due_None [OF hs] host_is_due_def less_max_iff_disj split: option.splits)
        (metis not_le)
  qed
  have exact: "now + d = m" if "list_min dues = Some m" for m
  proof -
    have "now < m" using list_min_Some [OF that] none by (auto simp: iff)
    with that d show ?thesis by (simp add: next_wake_delay_def dues_def [symmetric] Let_def strictly_positive_def)
  qed
  show "next_due_host_index hs c t g sc = None" if t: "t < now + d"
  proof (cases "list_min dues")
    case (Some m)
    with exact [OF Some] t list_min_Some [OF Some] show ?thesis unfolding iff by fastforce
  qed (simp add: iff)
  show "next_due_host_index hs c t g sc \<noteq> None" if t: "now + d \<le> t" and h: "h \<in> set hs" "sd_hosts sc (hc_id h) = Some s"
    "due_at c s \<noteq> None"
  proof -
    have "set dues \<noteq> {}" using h unfolding mem by blast
    then have "list_min dues \<noteq> None" by auto
    then obtain m where m: "list_min dues = Some m" by blast
    with exact [OF m] t list_min_Some [OF m] show ?thesis unfolding iff by fastforce
  qed
qed

lemma reconcile_hosts_agreed:
  assumes conf: "\<And>h. h \<in> set hs \<Longrightarrow> map_option ho_configured_host (sd_hosts sc (hc_id h)) = Some h"
    and agree: "pauses_agree pauses hs sc"
  obtains sc' where "reconcile_hosts ex hs now restore pauses sc w = (None, sc', w)"
    "\<And>h. h \<in> set hs \<Longrightarrow> sd_hosts sc' (hc_id h) = sd_hosts sc (hc_id h)" "global_due sc' = global_due sc"
proof -
  let ?kept = "\<lambda>k. if k \<in> hc_id ` set hs then sd_hosts sc k else None"
  have "\<exists>s. sd_hosts sc (hc_id h) = Some s \<and> ho_configured_host s = h \<and> keep_schedule pauses s = s" if h: "h \<in> set hs" for h
  proof -
    obtain s where s: "sd_hosts sc (hc_id h) = Some s" "ho_configured_host s = h" using conf [OF h] by auto
    have "keep_schedule pauses s = s"
      using agree h s by (intro keep_schedule_agrees) (fastforce simp: pauses_agree_def list_all_iff split: option.splits)
    with s show ?thesis by blast
  qed
  then have "reconcile_loop ex now restore pauses hs ?kept w = (None, ?kept, w)"
    by (intro reconcile_loop_same) simp
  then show ?thesis using that unfolding reconcile_hosts_def by (auto simp: global_due_def)
qed

lemma next_due_None_cong:
  assumes "hs \<noteq> []" "\<And>h. h \<in> set hs \<Longrightarrow> sd_hosts sc' (hc_id h) = sd_hosts sc (hc_id h)"
  shows "next_due_host_index hs c t g sc' = None \<longleftrightarrow> next_due_host_index hs c t g sc = None"
  using assms by (simp add: next_due_None host_is_due_def)

text \<open>
  C29. A waiting tick announces the exact wake.  Under the same configuration, when the
  executor's report of the paused hosts agrees with the schedules (no pause began or was
  cleared in between), the next tick waits again when the clock is earlier; when it is not
  earlier an attempt is made, unless every host is paused for process containment.
\<close>

theorem wake_exact:
  assumes valid: "config_validate c = Inr ()" and tick: "tick ex c st = (Inr (Waiting d), st')"
    and report: "ex_paused_hosts ex (automatic_hosts c) w = (Inr pauses, w1)"
    and agree: "pauses_agree pauses (automatic_hosts c) (st_scheduler st')"
  shows "if ex_now ex w < observed ex st + d
     then \<exists>d' st''. tick ex c (st'\<lparr>st_world := w\<rparr>) = (Inr (Waiting d'), st'')
     else (\<exists>h s. h \<in> set (automatic_hosts c) \<and> sd_hosts (st_scheduler st') (hc_id h) = Some s
         \<and> ho_last_attempt s \<noteq> ProcessContainmentPause)
       \<longrightarrow> (\<exists>k revision source u res next_in wake st''.
             tick ex c (st'\<lparr>st_world := w\<rparr>) = (Inr (Attempted k revision source u res next_in wake), st''))"
proof -
  let ?hs = "automatic_hosts c"
  note ids = automatic_hosts_valid(1) [OF valid]
  obtain sc where hs: "?hs \<noteq> []" and sc: "st_scheduler st' = sc" "sd_last_observed_now sc = observed ex st"
    and none: "next_due_host_index ?hs c (observed ex st) (global_due sc) sc = None"
    and d: "d = next_wake_delay ?hs c (observed ex st) (global_due sc) sc"
    and conf: "\<And>h. h \<in> set ?hs \<Longrightarrow> map_option ho_configured_host (sd_hosts sc (hc_id h)) = Some h"
    using valid tick
  proof (cases rule: tick_cases)
    case (reconciled pauses v sc v')
    note spec = reconcile_hosts_spec [OF reconciled(3) ids]
    let ?sc = "sc\<lparr>sd_restore_durable_state := False\<rparr>"
    show ?thesis
    proof (cases "next_due_host_index ?hs c (observed ex st) (global_due sc) ?sc")
      case None
      with reconciled(1,4) spec(3,5) show ?thesis by (intro that [of ?sc]) (auto simp: global_due_def)
    next
      case (Some j)
      with reconciled(4) have att: "attempt_host ex c ?hs (?hs ! j) (st\<lparr>st_scheduler := ?sc, st_world := v'\<rparr>)
        = (Inr (Waiting d), st')" by simp
      show ?thesis by (rule reconciled_attempt [OF valid reconciled(3) Some att]) simp
    qed
  qed auto
  let ?now = "max (observed ex st) (ex_now ex w)" let ?sc0 = "sc\<lparr>sd_last_observed_now := ?now\<rparr>"
  obtain sc' where rec: "reconcile_hosts ex ?hs ?now (sd_restore_durable_state sc) pauses ?sc0 w1 = (None, sc', w1)"
    and same: "\<And>h. h \<in> set ?hs \<Longrightarrow> sd_hosts sc' (hc_id h) = sd_hosts sc (hc_id h)" "global_due sc' = global_due sc"
    by (rule reconcile_hosts_agreed [where sc = ?sc0]) (use conf agree sc(1) in \<open>auto simp: global_due_def pauses_agree_def\<close>)
  let ?next = "next_due_host_index ?hs c ?now (global_due sc') (sc'\<lparr>sd_restore_durable_state := False\<rparr>)"
  have next_iff: "?next = None \<longleftrightarrow> next_due_host_index ?hs c ?now (global_due sc) sc = None"
    using next_due_None_cong [OF hs, of "sc'\<lparr>sd_restore_durable_state := False\<rparr>" sc] same by simp
  obtain r st'' where second: "tick ex c (st'\<lparr>st_world := w\<rparr>) = (r, st'')" by fastforce
  have result: "case ?next of None \<Rightarrow> \<exists>d'. r = Inr (Waiting d')
     | Some j \<Rightarrow> \<exists>k revision source u res next_in wake. r = Inr (Attempted k revision source u res next_in wake)"
    using valid second
  proof (cases rule: tick_cases)
    case (reconciled p v sc2 v')
    with report rec sc have "sc2 = sc'" "v' = w1" by auto
    show ?thesis
    proof (cases ?next)
      case None
      with reconciled(4) sc show ?thesis by (auto simp: \<open>sc2 = sc'\<close>)
    next
      case (Some j)
      with reconciled(4) sc have att: "attempt_host ex c ?hs (?hs ! j)
        (st'\<lparr>st_world := w, st_scheduler := sc'\<lparr>sd_restore_durable_state := False\<rparr>, st_world := w1\<rparr>) = (r, st'')"
        by (simp add: \<open>sc2 = sc'\<close> \<open>v' = w1\<close>)
      show ?thesis by (rule reconciled_attempt [OF valid rec Some att]) (simp add: Some)
    qed
  qed (use hs report rec sc in auto)
  show ?thesis
  proof (cases "ex_now ex w < observed ex st + d")
    case True
    have "0 < d" using d by (simp add: next_wake_delay_def Let_def strictly_positive_pos)
    with True next_wake_waiting(1) [OF hs none d, of ?now] have "?next = None" using next_iff by simp
    with result second True show ?thesis by auto
  next
    case False
    have "?next \<noteq> None" if "h \<in> set ?hs" "sd_hosts sc (hc_id h) = Some s" "ho_last_attempt s \<noteq> ProcessContainmentPause" for h s
      using next_wake_waiting(2) [OF hs none d, of ?now h s] that False next_iff paused_never_due by auto
    with result second False sc show ?thesis by (auto split: option.splits) blast
  qed
qed

section \<open>Backoff\<close>

lemma jittered_bounds:
  fixes nominal p :: u64
  assumes "60 \<le> unat nominal" "unat nominal \<le> 1800" "80 \<le> unat p" "unat p \<le> 120"
  shows "48 \<le> unat (sat_add (sat_mul nominal p) 99 div 100)" "unat (sat_add (sat_mul nominal p) 99 div 100) \<le> 2160"
proof -
  let ?x = "unat nominal * unat p"
  have x: "4800 \<le> ?x" "?x \<le> 216000"
    using mult_le_mono [OF assms(1,3)] mult_le_mono [OF assms(2,4)] by simp_all
  then have "unat (sat_add (sat_mul nominal p) 99 div 100) = (?x + 99) div 100"
    by (simp add: unat_div unat_sat_add unat_sat_mul)
  moreover have "48 \<le> (?x + 99) div 100" "(?x + 99) div 100 \<le> 2160"
    using x div_le_mono [of 4800 "?x + 99" 100] div_le_mono [of "?x + 99" 216099 100] by simp_all
  ultimately show "48 \<le> unat (sat_add (sat_mul nominal p) 99 div 100)"
    "unat (sat_add (sat_mul nominal p) 99 div 100) \<le> 2160" by simp_all
qed

lemma unat_max: "unat (max a b) = max (unat a) (unat b)"
  by (simp add: max_def word_le_nat_alt)

lemma retry_delay_bounds: "from_secs 48 \<le> retry_delay k n" "retry_delay k n \<le> from_secs 2160"
proof -
  let ?p = "80 + stable_jitter k n mod 41"
  have "unat (stable_jitter k n mod 41) < 41" by (simp add: unat_mod)
  then have p: "80 \<le> unat ?p" "unat ?p \<le> 120" by (simp_all add: unat_word_ariths)
  obtain nominal where n: "FAILURE_BACKOFF_SECONDS ! min (unat (sat_sub n 1)) (length FAILURE_BACKOFF_SECONDS - 1) = nominal"
    "nominal \<in> set FAILURE_BACKOFF_SECONDS"
    by (metis FAILURE_BACKOFF_SECONDS_def diff_less length_greater_0_conv list.distinct(1) min.strict_coboundedI2 nth_mem zero_less_one)
  from n(2) have b: "60 \<le> unat nominal" "unat nominal \<le> 1800" by (auto simp: FAILURE_BACKOFF_SECONDS_def)
  have "retry_delay k n = max (unat (sat_add (sat_mul nominal ?p) 99 div 100)) 1 * 1000000000"
    unfolding retry_delay_def Let_def n(1) by (simp add: from_secs_def unat_max)
  then show "from_secs 48 \<le> retry_delay k n" "retry_delay k n \<le> from_secs 2160"
    using jittered_bounds [OF b p] by (simp_all add: from_secs_def max_def)
qed

lemma record_outcome_host [simp]: "ho_configured_host (record_outcome u t r s) = ho_configured_host s"
  by (auto simp: record_outcome_def Let_def split: sum.split)

lemma dur_add_exact: "a + b \<le> DURATION_MAX \<Longrightarrow> dur_add a b = a + b"
  by (simp add: dur_add_def)

lemma valid_delays:
  assumes "config_validate c = Inr ()"
  shows "from_secs 30 \<le> from_secs (rc_active_interval_seconds c)" "from_secs (rc_active_interval_seconds c) \<le> from_secs 86400"
    "from_secs 60 \<le> from_secs (rc_idle_interval_seconds c)" "from_secs (rc_idle_interval_seconds c) \<le> from_secs 86400"
  using assms by (auto simp: config_validate_iff validate_intervals_def result_simps from_secs_def word_le_nat_alt)

lemma outcome_delay:
  assumes valid: "config_validate c = Inr ()" and t: "t + from_secs 86400 \<le> DURATION_MAX"
  obtains due where "due_at c (record_outcome False t r s) = Some due" "t < due" "due \<le> t + from_secs 86400"
    "transport_failure r \<longrightarrow> t + from_secs 48 \<le> due \<and> due \<le> t + from_secs 2160"
proof -
  note delays = valid_delays [OF valid]
  let ?k = "hc_id (ho_configured_host s)"
  have secs: "0 < from_secs 30" "0 < from_secs 60" "0 < from_secs 48" "from_secs 2160 \<le> from_secs 86400"
    by (simp_all add: from_secs_def)
  have add: "dur_add t d = t + d" if "d \<le> from_secs 86400" for d
    using that t by (intro dur_add_exact) simp
  show ?thesis
  proof (cases r)
    case (Inr report)
    define s' where "s' = record_outcome False t r s"
    have "ho_last_attempt s' = ActiveSuccess t \<or> ho_last_attempt s' = IdleSuccess t"
      using Inr by (simp add: s'_def record_outcome_def Let_def)
    moreover have "0 < from_secs (rc_active_interval_seconds c)" "0 < from_secs (rc_idle_interval_seconds c)"
      using delays secs by linarith+
    ultimately have "\<exists>due. due_at c s' = Some due \<and> t < due \<and> due \<le> t + from_secs 86400"
      using delays(2,4) by (auto simp: due_at_def Let_def add min_def split: option.split)
    then obtain due where "due_at c s' = Some due" "t < due" "due \<le> t + from_secs 86400" by blast
    with Inr show ?thesis by (intro that [of due]) (simp_all add: s'_def transport_failure_def)
  next
    case (Inl e)
    show ?thesis
    proof (cases "transport_failure r")
      case True
      then obtain n where n: "due_at c (record_outcome False t r s) = Some (dur_add t (retry_delay ?k n))"
        using Inl by (auto simp: record_outcome_def due_at_def transport_failure_def split: sync_error.splits)
      have "retry_delay ?k n \<le> from_secs 86400" using retry_delay_bounds(2) [of ?k n] secs(4) by linarith
      with n retry_delay_bounds [of ?k n] secs show ?thesis
        by (intro that [of "dur_add t (retry_delay ?k n)"]) (auto simp: add)
    next
      case False
      define hard where "hard = min (from_secs (rc_idle_interval_seconds c)) (from_secs HARD_PAUSE_PROBE_INTERVAL_SECONDS)"
      have hd: "0 < hard" "hard \<le> from_secs 86400"
        using delays(3,4) secs by (auto simp: hard_def HARD_PAUSE_PROBE_INTERVAL_SECONDS_def from_secs_def min_def)
      from False obtain due where due: "due_at c (record_outcome False t r s) = Some due"
        "due = dur_add t hard \<or> due = dur_add t (from_secs (rc_idle_interval_seconds c))"
        using Inl by (auto simp: record_outcome_def due_at_def transport_failure_def hard_def split: sync_error.splits)
      with False hd delays(3,4) secs show ?thesis by (intro that [of due]) (auto simp: add)
    qed
  qed
qed

lemma tick_attempted:
  assumes valid: "config_validate c = Inr ()"
    and tick: "tick ex c st = (Inr (Attempted k revision source u res next_in wake), st')"
  obtains h s t where "h \<in> set (automatic_hosts c)" "hc_id h = k" "ho_configured_host s = h"
    "sd_last_observed_now (st_scheduler st') = t" "sd_hosts (st_scheduler st') k = Some (record_outcome u t res s)"
    "next_in = (case due_at c (record_outcome u t res s) of Some due \<Rightarrow> due - t | None \<Rightarrow> DURATION_MAX)"
    "st_attempts st' = st_attempts st @ [(host_snapshot_of c h, automatic_remote_sync_limits)]"
  using valid tick
proof (cases rule: tick_cases)
  case (reconciled pauses v sc v')
  let ?sc = "sc\<lparr>sd_restore_durable_state := False\<rparr>" let ?hs = "automatic_hosts c"
  show ?thesis
  proof (cases "next_due_host_index ?hs c (observed ex st) (global_due sc) ?sc")
    case (Some j)
    with reconciled(4) have att: "attempt_host ex c ?hs (?hs ! j) (st\<lparr>st_scheduler := ?sc, st_world := v'\<rparr>)
      = (Inr (Attempted k revision source u res next_in wake), st')" by simp
    show ?thesis by (rule reconciled_attempt [OF valid reconciled(3) Some att]) (auto intro!: that cong: option.case_cong)
  qed (use reconciled(4) in simp)
qed auto

lemma undisturbedD:
  assumes "undisturbed ex c h c' w"
  shows "config_validate c' = Inr ()" "h \<in> set (automatic_hosts c')" "due_at c' s = due_at c s"
    "\<forall>p v. ex_paused_hosts ex (automatic_hosts c') w = (Inr p, v) \<longrightarrow> paused_flag p (hc_id h) \<noteq> Some True"
  using assms by (auto simp: undisturbed_def due_at_def split: last_attempt.split)

lemma host_ticks_backoff:
  assumes ticks: "host_ticks ex c h st st'"
    and s: "sd_hosts (st_scheduler st) (hc_id h) = Some s" "ho_configured_host s = h" "due_at c s = Some due"
  shows "sd_last_observed_now (st_scheduler st) \<le> sd_last_observed_now (st_scheduler st')
    \<and> (sd_hosts (st_scheduler st') (hc_id h) = Some s \<or> due \<le> sd_last_observed_now (st_scheduler st'))"
  using ticks s(1)
proof induction
  case (next_host_tick st st' c' w r st'')
  then have IH: "sd_last_observed_now (st_scheduler st) \<le> sd_last_observed_now (st_scheduler st')"
    "sd_hosts (st_scheduler st') (hc_id h) = Some s \<or> due \<le> sd_last_observed_now (st_scheduler st')" by auto
  note u = undisturbedD [OF next_host_tick.hyps(2)] and tick = next_host_tick.hyps(3)
  have mono: "observed ex (st'\<lparr>st_world := w\<rparr>) \<le> sd_last_observed_now (st_scheduler st'')"
    by (rule tick_attempts(2) [OF u(1) tick])
  have later: "sd_last_observed_now (st_scheduler st') \<le> sd_last_observed_now (st_scheduler st'')"
    using mono by simp
  show ?case
  proof (cases "due \<le> sd_last_observed_now (st_scheduler st')")
    case False
    with IH have sched: "sd_hosts (st_scheduler (st'\<lparr>st_world := w\<rparr>)) (hc_id h) = Some s" by simp
    have due: "due_at c' s = Some due" using s(3) u(3) by simp
    show ?thesis
      by (rule tick_schedule [OF u(1) tick u(2) sched s(2) due]) (use u(4) IH(1) later in auto)
  qed (use IH(1) later in linarith)
qed simp

text \<open>
  C30. The announced delay of a host is kept: between an attempt without containment
  uncertainty and the next attempt of the host the announced delay passes on the scheduler's
  clock, over every sequence of ticks, failed ones included, in which the row of the host
  stays on the allowlist, the polling intervals stay and the executor does not report it
  paused; the clock, the world, the other hosts and every other setting may change.  The
  delay is positive and at most one day, and after a failure other than a budget pause it
  is between 48 seconds and 36 minutes.  (A pause that is cleared, a row that is disabled and
  enabled or edited, and a changed interval do reschedule the host.)
\<close>

theorem attempt_backoff:
  assumes valid: "config_validate c = Inr ()"
    and first: "tick ex c st = (Inr (Attempted k revision source False res next_in wake), st1)"
    and h: "h \<in> set (automatic_hosts c)" "hc_id h = k"
    and ticks: "host_ticks ex c h st1 st2" and last: "undisturbed ex c h c' w"
    and again: "tick ex c' (st2\<lparr>st_world := w\<rparr>) = (Inr (Attempted k revision' source' u' res' next_in' wake'), st3)"
    and clock: "sd_last_observed_now (st_scheduler st1) + from_secs 86400 \<le> DURATION_MAX"
  shows "sd_last_observed_now (st_scheduler st1) + next_in \<le> observed ex (st2\<lparr>st_world := w\<rparr>)
    \<and> 0 < next_in \<and> next_in \<le> from_secs 86400
    \<and> (transport_failure res \<longrightarrow> from_secs 48 \<le> next_in \<and> next_in \<le> from_secs 2160)"
proof -
  have same: "h1 = h2" if "config_validate d = Inr ()" "h1 \<in> set (automatic_hosts d)" "h2 \<in> set (automatic_hosts d)"
      "hc_id h1 = hc_id h2" for d h1 h2
    using that automatic_hosts_valid(1) [OF that(1)] by (auto simp: distinct_map dest: inj_onD)
  note u = undisturbedD [OF last]
  obtain h0 s t where h0: "h0 \<in> set (automatic_hosts c)" "hc_id h0 = k" "ho_configured_host s = h0"
    and t: "sd_last_observed_now (st_scheduler st1) = t"
    and s: "sd_hosts (st_scheduler st1) k = Some (record_outcome False t res s)"
    and n: "next_in = (case due_at c (record_outcome False t res s) of Some due \<Rightarrow> due - t | None \<Rightarrow> DURATION_MAX)"
    using tick_attempted [OF valid first] by metis
  have "h0 = h" using same [OF valid h0(1) h(1)] h0(2) h(2) by simp
  let ?s = "record_outcome False t res s"
  have row: "ho_configured_host ?s = h" using h0(3) \<open>h0 = h\<close> by simp
  obtain due where due: "due_at c ?s = Some due" "t < due" "due \<le> t + from_secs 86400"
    "transport_failure res \<longrightarrow> t + from_secs 48 \<le> due \<and> due \<le> t + from_secs 2160"
    using outcome_delay [OF valid clock [unfolded t]] by blast
  have "due \<le> observed ex (st2\<lparr>st_world := w\<rparr>)"
  proof (cases "due \<le> sd_last_observed_now (st_scheduler st2)")
    case False
    then have sched: "sd_hosts (st_scheduler (st2\<lparr>st_world := w\<rparr>)) (hc_id h) = Some ?s"
      using host_ticks_backoff [OF ticks _ row due(1)] s h(2) by auto
    obtain h' where h': "h' \<in> set (automatic_hosts c')" "hc_id h' = k"
      "st_attempts st3 = st_attempts (st2\<lparr>st_world := w\<rparr>) @ [(host_snapshot_of c' h', automatic_remote_sync_limits)]"
      using tick_attempted [OF u(1) again] by metis
    have "h' = h" using same [OF u(1) h'(1) u(2)] h'(2) h(2) by simp
    moreover have "due_at c' ?s = Some due" using due(1) u(3) by simp
    ultimately show ?thesis
      using h' u(4) by (cases rule: tick_schedule [OF u(1) again u(2) sched row]) (auto simp: host_snapshot_of_def)
  qed simp
  with due n t show ?thesis by auto
qed

lemma sample_fleet_valid: "config_validate sample_fleet = Inr ()"
  by code_simp

lemma sample_fleet_hosts: "automatic_hosts sample_fleet = [sample_pair ''lab'' ''node-1'', sample_pair ''desk'' ''node-2'']"
  by code_simp

lemma sample_pair_id [simp]: "hc_id (sample_pair k n) = k"
  by (simp add: sample_pair_def)

lemma sample_pair_source [simp]: "hc_expected_source (sample_pair k n) = Some \<lparr>sg_node_id = n, sg_generation = 9\<rparr>"
  by (simp add: sample_pair_def)

lemma sample_fleet_fields: "rc_auto_sync_enabled sample_fleet" "rc_config_revision sample_fleet = 5"
  by (simp_all add: sample_fleet_def)

lemma sample_capture:
  "capture_for_automatic sample_fleet (sample_pair ''lab'' ''node-1'') = Inr (host_snapshot_of sample_fleet (sample_pair ''lab'' ''node-1''))"
  "capture_for_automatic sample_fleet (sample_pair ''desk'' ''node-2'') = Inr (host_snapshot_of sample_fleet (sample_pair ''desk'' ''node-2''))"
  using automatic_hosts_valid(2) [OF sample_fleet_valid]
  by (simp_all add: sample_fleet_hosts host_snapshot_of_def)

lemmas sample_tick_simps = sample_fleet_hosts sample_fleet_fields sample_capture tick_def attempt_host_def
  monotonic_now_def reconcile_hosts_def reconcile_host_def keep_schedule_def paused_flag_def seed_schedule_def
  new_schedule_def next_due_host_index_def start_index_def host_is_due_def due_at_def record_outcome_def uncertain_error_def
  sample_executor_def sample_start_def new_scheduler_def Let_def

lemmas sample_states = sample_st1_def sample_st2_def sample_st3_def sample_sched_def sample_schedule_def

lemma sample_retry: "t + from_secs 2160 \<le> DURATION_MAX \<Longrightarrow> dur_add t (retry_delay k n) = t + retry_delay k n"
  using retry_delay_bounds [of k n] by (simp add: dur_add_exact)

lemma snapshot_fields [simp]: "hs_config_revision (host_snapshot_of c h) = rc_config_revision c" "hs_host (host_snapshot_of c h) = h"
  by (simp_all add: host_snapshot_of_def)

lemma sample_tick1:
  "\<exists>wake. tick_at 0 sample_start = (Inr (Attempted ''lab'' 5 (Some \<lparr>sg_node_id = ''node-1'', sg_generation = 9\<rparr>) False
     (Inl (HostNotPaired ''lab'')) (dur_add 1 (retry_delay ''lab'' 1) - 1) wake), sample_st1)"
  by (simp add: tick_at_def sample_tick_simps sample_states fun_eq_iff)

lemma sample_tick2:
  "\<exists>r. tick_at 1000000000000 sample_st1 =
     (r, sample_st2)"
  by (simp add: tick_at_def sample_tick_simps sample_states fun_eq_iff upt_rec dur_add_def MIN_DISPATCH_SPACING_def
   from_secs_def DURATION_MAX_def)

lemma sat_add_two: "sat_add 1 1 = (2 :: u32)"
  by code_simp

lemma sample_tick3:
  "\<exists>n w. tick_at 3000000000000 sample_st2 =
     (Inr (Attempted ''lab'' 5 (Some \<lparr>sg_node_id = ''node-1'', sg_generation = 9\<rparr>) False
     (Inl (HostNotPaired ''lab'')) n w), sample_st3)"
  using sample_retry [of 1 "''lab''" 1] retry_delay_bounds(2) [of "''lab''" 1]
  by (simp add: tick_at_def sample_tick_simps sample_states fun_eq_iff upt_rec MIN_DISPATCH_SPACING_def
   from_secs_def DURATION_MAX_def dur_add_def sat_add_two)

lemma sample_waits:
  "\<exists>d. tick_at 1000000000001 sample_st2 =
     (Inr (Waiting d), sample_st2)"
  by (simp add: tick_at_def sample_tick_simps sample_states fun_eq_iff upt_rec MIN_DISPATCH_SPACING_def
   from_secs_def DURATION_MAX_def dur_add_def)

lemma sample_never_paused: "never_paused sample_executor k"
  by (simp add: never_paused_def sample_executor_def paused_flag_def)

lemma sample_undisturbed: "undisturbed sample_executor sample_fleet (sample_pair ''lab'' ''node-1'') sample_fleet w"
  by (simp add: undisturbed_def sample_fleet_valid sample_fleet_hosts sample_executor_def paused_flag_def)

lemma sample_host_ticks: "host_ticks sample_executor sample_fleet (sample_pair ''lab'' ''node-1'') sample_st1 sample_st2"
  using sample_tick2 unfolding tick_at_def
  by (elim exE) (rule host_ticks.next_host_tick [OF host_ticks.no_host_tick sample_undisturbed])

lemma sample_ticks:
  "ticks sample_executor sample_fleet sample_st1 sample_st2" "ticks sample_executor sample_fleet sample_st1 sample_st3"
proof -
  show two: "ticks sample_executor sample_fleet sample_st1 sample_st2"
    using sample_tick2 unfolding tick_at_def by (elim exE) (rule ticks.one_more [OF ticks.no_tick])
  show "ticks sample_executor sample_fleet sample_st1 sample_st3"
    using sample_tick3 unfolding tick_at_def by (elim exE) (rule ticks.one_more [OF two])
qed

theorem tick_safe_witness:
  "\<exists>next_in wake. tick_at 0 sample_start = (Inr (Attempted ''lab'' 5 (Some \<lparr>sg_node_id = ''node-1'', sg_generation = 9\<rparr>)
       False (Inl (HostNotPaired ''lab'')) next_in wake), sample_st1)
     \<and> 0 < wake \<and> length (st_attempts sample_st1) = 1"
proof -
  obtain next_in wake where t: "tick_at 0 sample_start = (Inr (Attempted ''lab'' 5
      (Some \<lparr>sg_node_id = ''node-1'', sg_generation = 9\<rparr>) False (Inl (HostNotPaired ''lab'')) next_in wake),
      sample_st1)" using sample_tick1 by blast
  have "0 < wake \<and> length (st_attempts sample_st1) = 1"
    using tick_safe [OF sample_fleet_valid t [unfolded tick_at_def]] by (auto simp: sample_start_def)
  with t show ?thesis by blast
qed

theorem wake_exact_witness:
  "\<exists>d. tick_at 1000000000001 sample_st2 =
       (Inr (Waiting d), sample_st2)
     \<and> (\<exists>k revision source u res next_in wake st''.
          tick_at (1000000000001 + d) sample_st2 =
            (Inr (Attempted k revision source u res next_in wake), st''))"
proof -
  obtain d where d: "tick_at 1000000000001 sample_st2 = (Inr (Waiting d), sample_st2)" using sample_waits by blast
  have now: "observed sample_executor (sample_st2\<lparr>st_world := 1000000000001\<rparr>) = 1000000000001"
    by (simp add: observed_def sample_executor_def sample_states)
  let ?pauses = "Some (\<lambda>k. if k \<in> hc_id ` set (automatic_hosts sample_fleet) then Some False else None)"
  have "ex_paused_hosts sample_executor (automatic_hosts sample_fleet) (1000000000001 + d) = (Inr ?pauses, 1000000000001 + d)"
    by (simp add: sample_executor_def)
  moreover have "pauses_agree ?pauses (automatic_hosts sample_fleet) (st_scheduler sample_st2)"
    by (simp add: pauses_agree_def sample_fleet_hosts sample_states paused_flag_def)
  ultimately have "if ex_now sample_executor (1000000000001 + d) < observed sample_executor (sample_st2\<lparr>st_world := 1000000000001\<rparr>) + d
     then \<exists>d' st''. tick sample_executor sample_fleet (sample_st2\<lparr>st_world := 1000000000001 + d\<rparr>) = (Inr (Waiting d'), st'')
     else (\<exists>h s. h \<in> set (automatic_hosts sample_fleet) \<and> sd_hosts (st_scheduler sample_st2) (hc_id h) = Some s
         \<and> ho_last_attempt s \<noteq> ProcessContainmentPause)
       \<longrightarrow> (\<exists>k revision source u res next_in wake st''.
             tick sample_executor sample_fleet (sample_st2\<lparr>st_world := 1000000000001 + d\<rparr>)
               = (Inr (Attempted k revision source u res next_in wake), st''))"
    by (rule wake_exact [OF sample_fleet_valid d [unfolded tick_at_def]])
  then
  have "\<exists>k revision source u res next_in wake st''.
      tick_at (1000000000001 + d) sample_st2 = (Inr (Attempted k revision source u res next_in wake), st'')"
    unfolding now tick_at_def
    by (auto simp: sample_executor_def sample_fleet_hosts sample_states)
  with d show ?thesis by blast
qed

theorem due_host_served_witness:
  "(host_snapshot_of sample_fleet (sample_pair ''desk'' ''node-2''), automatic_remote_sync_limits)
    \<in> set (drop (length (st_attempts sample_st1))
        (st_attempts sample_st3))"
  by (rule due_host_served [where s = "sample_schedule (sample_pair ''desk'' ''node-2'') Never" and due = 0,
        OF sample_fleet_valid _ _ _ _ _ sample_never_paused sample_ticks(2)])
    (simp_all add: sample_fleet_hosts sample_states due_at_def)

theorem attempt_backoff_witness:
  "\<exists>next_in wake. tick_at 0 sample_start = (Inr (Attempted ''lab'' 5 (Some \<lparr>sg_node_id = ''node-1'', sg_generation = 9\<rparr>)
       False (Inl (HostNotPaired ''lab'')) next_in wake), sample_st1)
     \<and> 1 + next_in \<le> 3000000000000 \<and> from_secs 48 \<le> next_in \<and> next_in \<le> from_secs 2160"
proof -
  obtain next_in wake where t: "tick_at 0 sample_start = (Inr (Attempted ''lab'' 5
      (Some \<lparr>sg_node_id = ''node-1'', sg_generation = 9\<rparr>) False (Inl (HostNotPaired ''lab'')) next_in wake),
      sample_st1)" using sample_tick1 by blast
  obtain n w st3 where again: "tick_at 3000000000000 sample_st2 = (Inr (Attempted ''lab'' 5 (Some \<lparr>sg_node_id = ''node-1'', sg_generation = 9\<rparr>) False
     (Inl (HostNotPaired ''lab'')) n w), st3)"
    using sample_tick3 by (elim exE) (rule that)
  have clock: "sd_last_observed_now (st_scheduler sample_st1) + from_secs 86400 \<le> DURATION_MAX"
    by (simp add: sample_states from_secs_def DURATION_MAX_def)
  have "1 + next_in \<le> 3000000000000 \<and> from_secs 48 \<le> next_in \<and> next_in \<le> from_secs 2160"
    using attempt_backoff [OF sample_fleet_valid t [unfolded tick_at_def] _ _ sample_host_ticks sample_undisturbed
        again [unfolded tick_at_def] clock]
    by (simp add: observed_def sample_states sample_executor_def transport_failure_def sample_fleet_hosts)
  with t show ?thesis by blast
qed

end
