(* ===== verification/Export_Journal.thy ===== *)
theory Export_Journal
  imports Remote_Protocol
begin

text \<open>
  The durable journal of the aggregate exporter, \<open>src/remote_export_state.rs\<close>: a materialized
  set of records, the journal of its transitions, retention by age, count and bytes, cursors and
  pages.

  A state is the decoded contents of the state file; the live snapshot stored beside the journal
  and the private directories are left out.  The sizes of JSON encodings are parameters, \<open>None\<close>
  when counting overflows.  An operation of a session returns its result and the durable state,
  which is unchanged after an error.
\<close>

section \<open>Limits\<close>

(* remote_export_state.rs:41-41 STATE_FORMAT_VERSION *)
definition STATE_FORMAT_VERSION :: "32 word" where "STATE_FORMAT_VERSION = 3"
(* remote_export_state.rs:42-42 ANCHOR_FORMAT_VERSION *)
definition ANCHOR_FORMAT_VERSION :: "32 word" where "ANCHOR_FORMAT_VERSION = 1"
(* remote_export_state.rs:43-43 JOURNAL_RETENTION_DAYS *)
definition JOURNAL_RETENTION_DAYS :: int where "JOURNAL_RETENTION_DAYS = 35"
(* remote_export_state.rs:44-44 MAX_JOURNAL_STATE_BYTES *)
definition MAX_JOURNAL_STATE_BYTES :: u64 where "MAX_JOURNAL_STATE_BYTES = 128 * 1024 * 1024"
(* remote_export_state.rs:45-45 MAX_JOURNAL_ENTRIES *)
definition MAX_JOURNAL_ENTRIES :: nat where "MAX_JOURNAL_ENTRIES = 262144"
(* remote_export_state.rs:46-46 MAX_CHANGE_ID_BYTES *)
definition MAX_CHANGE_ID_BYTES :: nat where "MAX_CHANGE_ID_BYTES = 192"
(* remote_export_state.rs:47-47 MAX_CHANGE_PAYLOAD_BYTES *)
definition MAX_CHANGE_PAYLOAD_BYTES :: nat where "MAX_CHANGE_PAYLOAD_BYTES = 1024 * 1024"
(* remote_export_state.rs:48-48 MAX_APPEND_BATCH_ENTRIES *)
definition MAX_APPEND_BATCH_ENTRIES :: nat where "MAX_APPEND_BATCH_ENTRIES = 4096"
(* remote_export_state.rs:49-49 MAX_MATERIALIZED_RECORDS *)
definition MAX_MATERIALIZED_RECORDS :: nat where "MAX_MATERIALIZED_RECORDS = 65536"
(* remote_export_state.rs:50-50 MAX_MATERIALIZED_KEY_BYTES *)
definition MAX_MATERIALIZED_KEY_BYTES :: nat where "MAX_MATERIALIZED_KEY_BYTES = 512"
(* remote_export_state.rs:51-51 MAX_PAGE_ENTRIES *)
definition MAX_PAGE_ENTRIES :: nat where "MAX_PAGE_ENTRIES = 4096"
(* remote_export_state.rs:52-52 MAX_PAGE_BYTES *)
definition MAX_PAGE_BYTES :: u64 where "MAX_PAGE_BYTES = 8 * 1024 * 1024"
(* remote_export_state.rs:55-55 RETENTION_CLOCK_MAX_UNCONFIRMED_FORWARD_HOURS *)
definition RETENTION_CLOCK_MAX_UNCONFIRMED_FORWARD_HOURS :: int where
  "RETENTION_CLOCK_MAX_UNCONFIRMED_FORWARD_HOURS = 24"
(* remote_export_state.rs:56-56 RETENTION_CLOCK_CONFIRMATION_HOURS *)
definition RETENTION_CLOCK_CONFIRMATION_HOURS :: int where "RETENTION_CLOCK_CONFIRMATION_HOURS = 48"
(* remote_export_state.rs:57-57 RETENTION_CLOCK_MIN_CONFIRMATIONS *)
definition RETENTION_CLOCK_MIN_CONFIRMATIONS :: "32 word" where "RETENTION_CLOCK_MIN_CONFIRMATIONS = 3"
(* remote_export_state.rs:58-58 RECONCILE_MAINTENANCE_INTERVAL_HOURS *)
definition RECONCILE_MAINTENANCE_INTERVAL_HOURS :: int where "RECONCILE_MAINTENANCE_INTERVAL_HOURS = 12"

(* remote_export_state.rs:369-375 RemoteExportLimits *)
record export_limits =
  xl_retention_days :: int
  xl_maximum_state_bytes :: u64
  xl_maximum_entries :: nat
  xl_maximum_page_entries :: nat
  xl_maximum_page_bytes :: u64

(* remote_export_state.rs:377-387 RemoteExportLimits::default *)
definition export_limits_default :: export_limits where
  "export_limits_default = \<lparr>xl_retention_days = JOURNAL_RETENTION_DAYS, xl_maximum_state_bytes = MAX_JOURNAL_STATE_BYTES,
     xl_maximum_entries = MAX_JOURNAL_ENTRIES, xl_maximum_page_entries = MAX_PAGE_ENTRIES,
     xl_maximum_page_bytes = MAX_PAGE_BYTES\<rparr>"

section \<open>Data\<close>

datatype export_error =
    InvalidChangeId | InvalidLogicalKey | SharedChangeId | PayloadTooLarge | SameChangeId
  | UnsupportedStateFormat | BindingMismatch | InvalidRetentionClock | InvalidJournalBounds | InvalidEmptyJournal
  | FloorCannotAdvance | RangeNotCovered | SequenceOverflowed | OrderInvalid | ChangeIdReused | RecordsNotSorted
  | UpsertBeforeFloor | UpsertNotRetained | UpsertMismatch | LaterTombstone | TombstoneConflict
  | BatchTooLarge | RepeatedTransition | ZeroSequence | TooManyDesired | DesiredNotSorted | ExpiryChanged
  | OwnerConflict | MissingUpsert | NotAppendedOnce | SizeOverflowed | EnvelopeTooLarge | DropExceedsEntries
  | CannotFit | ReportOverflowed | CursorAhead | InvalidPageLimits | PageLimitTooSmall | InvalidPreflightLimits
  | StateMissing | StateTooLarge | AnchorMismatch | NoGeneration

(* remote_export_state.rs:112-115 RemoteExportChange *)
record export_change =
  xc_change_id :: string
  xc_payload :: string

(* remote_export_state.rs:147-152 RemoteExportDesiredRecord *)
record desired_record =
  dr_logical_key :: string
  dr_expires_at :: datetime
  dr_upsert :: export_change
  dr_tombstone :: export_change

(* remote_export_state.rs:206-211 RemoteExportReconcileMode *)
datatype reconcile_mode = UpsertOnly | Authoritative

(* remote_export_state.rs:217-221 RemoteExportJournalEntry *)
record journal_entry =
  je_sequence :: u64
  je_committed_at :: datetime
  je_change :: export_change

(* remote_export_state.rs:238-241 RemoteDeltaCursorExpiryReason *)
datatype expiry_reason = GenerationMismatch | RetentionExpired

(* remote_export_state.rs:246-254 RemoteDeltaCursorExpired *)
record cursor_expired =
  ce_reason :: expiry_reason
  ce_requested :: delta_cursor
  ce_current_generation :: u64
  ce_retention_floor :: u64
  ce_through_sequence :: u64

(* remote_export_state.rs:257-264 RemoteExportDeltaPage *)
record export_page =
  ep_generation :: u64
  ep_from_sequence :: u64
  ep_through_sequence :: u64
  ep_next_cursor :: delta_cursor
  ep_has_more :: bool
  ep_entries :: "journal_entry list"

(* remote_export_state.rs:267-270 RemoteDeltaPageRead *)
datatype page_read = PageRead export_page | CursorExpired cursor_expired

(* remote_export_state.rs:277-285 RemoteExportReconcileDeltaPreflight *)
datatype delta_preflight = PreflightReady delta_cursor nat usize | PreflightExpired cursor_expired | PreflightLimitExceeded

(* remote_export_state.rs:310-315 RemoteExportMaterializedUpsert *)
record materialized_upsert =
  mu_logical_key :: string
  mu_expires_at :: datetime
  mu_revision :: u64
  mu_change :: export_change

(* remote_export_state.rs:336-350 RemoteExportAppendReport *)
record append_report =
  ar_cursor :: delta_cursor
  ar_appended :: usize
  ar_duplicates :: usize
  ar_pruned_by_age :: usize
  ar_pruned_by_capacity :: usize
  ar_retention_floor :: u64
  ar_materialized_refreshes :: usize
  ar_expired_records :: usize
  ar_retention_deferred :: bool

(* remote_export_state.rs:353-366 RemoteExportReconcileReport *)
record reconcile_report =
  xr_cursor :: delta_cursor
  xr_upserts_appended :: usize
  xr_tombstones_appended :: usize
  xr_expired_records :: usize
  xr_bootstrap_upserts_appended :: usize
  xr_current_records :: usize
  xr_pruned_by_age :: usize
  xr_pruned_by_capacity :: usize
  xr_retention_floor :: u64
  xr_retention_deferred :: bool

(* remote_export_state.rs:393-398 RemoteExportStateStore *)
record export_store =
  xt_source :: source_generation
  xt_redaction_profile :: redaction_profile
  xt_limits :: export_limits

(* remote_export_state.rs:1679-1687 RetentionClock *)
record retention_clock =
  rk_trusted_at :: datetime
  rk_pending_started_at :: "datetime option"
  rk_pending_last_at :: "datetime option"
  rk_pending_confirmations :: "32 word"

(* remote_export_state.rs:1637-1643 StoredMaterializedRecord *)
record materialized_record =
  mr_logical_key :: string
  mr_expires_at :: datetime
  mr_current_change_id :: string
  mr_last_upsert_sequence :: u64
  mr_tombstone :: export_change

(* remote_export_state.rs:1336-1348 StoredExportState *)
record export_state =
  xs_format_version :: "32 word"
  xs_source :: source_generation
  xs_redaction_profile :: redaction_profile
  xs_delta_generation :: u64
  xs_current_sequence :: u64
  xs_retention_floor :: u64
  xs_retention_clock :: retention_clock
  xs_entries :: "journal_entry list"
  xs_materialized_records :: "materialized_record list"

(* remote_export_state.rs:1647-1652 StoredExportAnchor *)
record export_anchor =
  xa_format_version :: "32 word"
  xa_source :: source_generation
  xa_redaction_profile :: redaction_profile
  xa_delta_generation :: u64

text \<open>The range of instants and the sizes of JSON encodings.\<close>

record export_env =
  xe_range :: chrono_range
  xe_state_size :: "export_state \<Rightarrow> u64 option"
  xe_entry_size :: "journal_entry \<Rightarrow> u64 option"

section \<open>Validation\<close>

definition is_path_safe :: "char \<Rightarrow> bool" where
  "is_path_safe c = (is_ascii_alphanumeric c \<or> c \<in> set ''-_.:'')"

(* remote_export_state.rs:63-75 validate_change_id *)
definition validate_change_id :: "string \<Rightarrow> export_error + unit" where
  "validate_change_id s = ensure (s \<noteq> [] \<and> length s \<le> MAX_CHANGE_ID_BYTES \<and> list_all is_path_safe s) InvalidChangeId"

(* remote_export_state.rs:77-89 validate_materialized_key *)
definition validate_materialized_key :: "string \<Rightarrow> export_error + unit" where
  "validate_materialized_key s =
    ensure (s \<noteq> [] \<and> length s \<le> MAX_MATERIALIZED_KEY_BYTES \<and> list_all is_path_safe s) InvalidLogicalKey"

text \<open>The owners are a hash map from change identities to a key and a role.\<close>

(* remote_export_state.rs:1993-1996 MaterializedChangeRole *)
datatype change_role = UpsertRole | TombstoneRole

type_synonym id_owners = "(string, string \<times> change_role) btree"

(* remote_export_state.rs:91-103 validate_materialized_id_owner *)
definition validate_materialized_id_owner :: "string \<Rightarrow> string \<Rightarrow> change_role \<Rightarrow> id_owners \<Rightarrow> export_error + id_owners" where
  "validate_materialized_id_owner change_id logical_key role owners =
    (if bt_get owners change_id \<noteq> None then Inl SharedChangeId else Inr (bt_insert change_id (logical_key, role) owners))"

(* remote_export_state.rs:135-141 RemoteExportChange::validate *)
definition change_validate :: "export_change \<Rightarrow> export_error + unit" where
  "change_validate c = and_then (validate_change_id (xc_change_id c)) (\<lambda>_.
     ensure (length (xc_payload c) \<le> MAX_CHANGE_PAYLOAD_BYTES) PayloadTooLarge)"

(* remote_export_state.rs:118-125 RemoteExportChange::new *)
definition change_new :: "string \<Rightarrow> string \<Rightarrow> export_error + export_change" where
  "change_new change_id payload = (let c = \<lparr>xc_change_id = change_id, xc_payload = payload\<rparr>
     in and_then (change_validate c) (\<lambda>_. Inr c))"

(* remote_export_state.rs:190-200 RemoteExportDesiredRecord::validate *)
definition desired_validate :: "desired_record \<Rightarrow> export_error + unit" where
  "desired_validate d =
    and_then (validate_materialized_key (dr_logical_key d)) (\<lambda>_.
    and_then (change_validate (dr_upsert d)) (\<lambda>_.
    and_then (change_validate (dr_tombstone d)) (\<lambda>_.
    ensure (xc_change_id (dr_upsert d) \<noteq> xc_change_id (dr_tombstone d)) SameChangeId)))"

(* remote_export_state.rs:155-169 RemoteExportDesiredRecord::new *)
definition desired_new :: "string \<Rightarrow> datetime \<Rightarrow> export_change \<Rightarrow> export_change \<Rightarrow> export_error + desired_record" where
  "desired_new key expires upsert tombstone =
    (let d = \<lparr>dr_logical_key = key, dr_expires_at = expires, dr_upsert = upsert, dr_tombstone = tombstone\<rparr>
     in and_then (desired_validate d) (\<lambda>_. Inr d))"

(* remote_export_state.rs:1708-1720 RetentionClock::validate *)
definition clock_validate :: "retention_clock \<Rightarrow> export_error + unit" where
  "clock_validate k = (case (rk_pending_started_at k, rk_pending_last_at k) of
      (None, None) \<Rightarrow> ensure (rk_pending_confirmations k = 0) InvalidRetentionClock
    | (Some started, Some last_at) \<Rightarrow>
        ensure (0 < rk_pending_confirmations k \<and> started \<le> last_at \<and> rk_trusted_at k < started) InvalidRetentionClock
    | _ \<Rightarrow> Inl InvalidRetentionClock)"

(* remote_export_state.rs:1550-1556 StoredExportState::entry_at_sequence *)
definition entry_at_sequence :: "export_state \<Rightarrow> u64 \<Rightarrow> journal_entry option" where
  "entry_at_sequence st sequence =
    Option.bind (checked_sub sequence (xs_retention_floor st)) (\<lambda>d.
    Option.bind (checked_sub d 1) (\<lambda>offset.
    if unat offset < length (xs_entries st)
    then opt_filter (\<lambda>e. je_sequence e = sequence) (Some (xs_entries st ! unat offset)) else None))"

definition has_later_tombstone :: "export_state \<Rightarrow> materialized_record \<Rightarrow> bool" where
  "has_later_tombstone st r = list_ex (\<lambda>e. mr_last_upsert_sequence r < je_sequence e
     \<and> xc_change_id (je_change e) = xc_change_id (mr_tombstone r)) (xs_entries st)"

(* remote_export_state.rs:1489-1547 StoredExportState::validate_materialized_records (record) *)
definition validate_materialized_record ::
  "export_state \<Rightarrow> (string, string) btree \<Rightarrow> materialized_record \<Rightarrow> string option \<times> id_owners
    \<Rightarrow> export_error + string option \<times> id_owners" where
  "validate_materialized_record st journal_ids r = (\<lambda>(previous_key, owners).
    and_then (validate_materialized_key (mr_logical_key r)) (\<lambda>_.
    and_then (validate_change_id (mr_current_change_id r)) (\<lambda>_.
    and_then (change_validate (mr_tombstone r)) (\<lambda>_.
    and_then (ensure (case previous_key of None \<Rightarrow> True | Some k \<Rightarrow> k < mr_logical_key r) RecordsNotSorted) (\<lambda>_.
    and_then (ensure (mr_current_change_id r \<noteq> xc_change_id (mr_tombstone r)) SameChangeId) (\<lambda>_.
    and_then (validate_materialized_id_owner (mr_current_change_id r) (mr_logical_key r) UpsertRole owners) (\<lambda>owners.
    and_then (validate_materialized_id_owner (xc_change_id (mr_tombstone r)) (mr_logical_key r) TombstoneRole owners)
      (\<lambda>owners.
    and_then (ensure (xs_retention_floor st < mr_last_upsert_sequence r) UpsertBeforeFloor) (\<lambda>_.
    and_then (ok_or (entry_at_sequence st (mr_last_upsert_sequence r)) UpsertNotRetained) (\<lambda>entry.
    and_then (ensure (xc_change_id (je_change entry) = mr_current_change_id r) UpsertMismatch) (\<lambda>_.
    and_then (ensure (\<not> has_later_tombstone st r) LaterTombstone) (\<lambda>_.
    and_then (ensure (case bt_get journal_ids (xc_change_id (mr_tombstone r)) of
        None \<Rightarrow> True | Some payload \<Rightarrow> payload = xc_payload (mr_tombstone r)) TombstoneConflict) (\<lambda>_.
    Inr (Some (mr_logical_key r), owners))))))))))))))"

(* remote_export_state.rs:1486-1548 StoredExportState::validate_materialized_records *)
definition validate_materialized_records :: "export_state \<Rightarrow> (string, string) btree \<Rightarrow> export_error + unit" where
  "validate_materialized_records st journal_ids =
    and_then (fold_ok (validate_materialized_record st journal_ids) (xs_materialized_records st) (None, [])) (\<lambda>_. Inr ())"

(* remote_export_state.rs:1458-1481 StoredExportState::validate (entry) *)
definition validate_entry ::
  "journal_entry \<Rightarrow> u64 \<times> datetime \<times> (string, string) btree \<Rightarrow> export_error + u64 \<times> datetime \<times> (string, string) btree" where
  "validate_entry e = (\<lambda>(previous_sequence, previous_committed_at, ids).
    and_then (change_validate (je_change e)) (\<lambda>_.
    and_then (ok_or (checked_add previous_sequence 1) SequenceOverflowed) (\<lambda>expected.
    and_then (ensure (je_sequence e = expected \<and> previous_committed_at \<le> je_committed_at e) OrderInvalid) (\<lambda>_.
    and_then (ensure (case bt_get ids (xc_change_id (je_change e)) of
        None \<Rightarrow> True | Some existing \<Rightarrow> existing = xc_payload (je_change e)) ChangeIdReused) (\<lambda>_.
    Inr (je_sequence e, je_committed_at e,
      bt_insert (xc_change_id (je_change e)) (xc_payload (je_change e)) ids))))))"

(* remote_export_state.rs:1407-1484 StoredExportState::validate *)
definition state_validate :: "chrono_range \<Rightarrow> export_store \<Rightarrow> export_state \<Rightarrow> export_error + unit" where
  "state_validate rng store st =
    and_then (ensure (xs_format_version st = STATE_FORMAT_VERSION) UnsupportedStateFormat) (\<lambda>_.
    and_then (ensure (xs_source st = xt_source store \<and> xs_redaction_profile st = xt_redaction_profile store)
      BindingMismatch) (\<lambda>_.
    and_then (clock_validate (xs_retention_clock st)) (\<lambda>_.
    and_then (ensure (xs_retention_floor st \<le> xs_current_sequence st
        \<and> length (xs_entries st) \<le> xl_maximum_entries (xt_limits store)
        \<and> length (xs_materialized_records st) \<le> MAX_MATERIALIZED_RECORDS) InvalidJournalBounds) (\<lambda>_.
    if xs_entries st = [] then
      ensure (xs_retention_floor st = xs_current_sequence st \<and> xs_materialized_records st = []) InvalidEmptyJournal
    else
      and_then (ok_or (checked_add (xs_retention_floor st) 1) FloorCannotAdvance) (\<lambda>expected_first.
      and_then (ensure (je_sequence (hd (xs_entries st)) = expected_first
          \<and> je_sequence (last (xs_entries st)) = xs_current_sequence st) RangeNotCovered) (\<lambda>_.
      and_then (fold_ok validate_entry (xs_entries st) (xs_retention_floor st, min_utc rng, [])) (\<lambda>(_, _, ids).
      validate_materialized_records st ids)))))))"

section \<open>The retention clock\<close>

(* remote_export_state.rs:1690-1697 RetentionClock::current *)
definition clock_current :: "datetime \<Rightarrow> retention_clock" where
  "clock_current trusted_at = \<lparr>rk_trusted_at = trusted_at, rk_pending_started_at = None, rk_pending_last_at = None,
     rk_pending_confirmations = 0\<rparr>"

(* remote_export_state.rs:1699-1706 RetentionClock::pending *)
definition clock_pending :: "datetime \<Rightarrow> datetime \<Rightarrow> retention_clock" where
  "clock_pending trusted_at observed_at = \<lparr>rk_trusted_at = trusted_at, rk_pending_started_at = Some observed_at,
     rk_pending_last_at = Some observed_at, rk_pending_confirmations = 1\<rparr>"

definition trusted_forward_limit :: "chrono_range \<Rightarrow> retention_clock \<Rightarrow> datetime" where
  "trusted_forward_limit rng k =
    (case checked_add_signed rng (rk_trusted_at k) (hours RETENTION_CLOCK_MAX_UNCONFIRMED_FORWARD_HOURS) of
       Some t \<Rightarrow> t | None \<Rightarrow> max_utc rng)"

(* remote_export_state.rs:1723-1760 next_retention_clock *)
definition next_retention_clock :: "chrono_range \<Rightarrow> retention_clock \<Rightarrow> datetime \<Rightarrow> retention_clock \<times> bool" where
  "next_retention_clock rng k observed_at =
    (if observed_at \<le> rk_trusted_at k then (clock_current (rk_trusted_at k), False)
     else if observed_at \<le> trusted_forward_limit rng k then (clock_current observed_at, False)
     else if \<not> (case rk_pending_last_at k of None \<Rightarrow> False | Some last_at \<Rightarrow> last_at \<le> observed_at)
     then (clock_pending (rk_trusted_at k) observed_at, True)
     else
       let k = k\<lparr>rk_pending_last_at := Some observed_at, rk_pending_confirmations := sat_add (rk_pending_confirmations k) 1\<rparr>;
           stable_since = (case Option.bind (rk_pending_started_at k) (\<lambda>started.
               checked_add_signed rng started (hours RETENTION_CLOCK_CONFIRMATION_HOURS)) of
             Some t \<Rightarrow> t | None \<Rightarrow> max_utc rng)
       in if stable_since \<le> observed_at \<and> RETENTION_CLOCK_MIN_CONFIRMATIONS \<le> rk_pending_confirmations k
          then (clock_current observed_at, False) else (k, True))"

section \<open>The journal\<close>

(* remote_export_state.rs:1400-1405 StoredExportState::cursor *)
definition state_cursor :: "export_state \<Rightarrow> delta_cursor" where
  "state_cursor st = \<lparr>dc_generation = xs_delta_generation st, dc_sequence = xs_current_sequence st\<rparr>"

(* remote_export_state.rs:2455-2470 drop_oldest_entries *)
definition drop_oldest_entries :: "nat \<Rightarrow> export_state \<Rightarrow> export_error + export_state" where
  "drop_oldest_entries taken st =
    (if taken = 0 then Inr st
     else if length (xs_entries st) < taken then Inl DropExceedsEntries
     else
       let rest = drop taken (xs_entries st)
       in Inr (st\<lparr>xs_entries := rest, xs_retention_floor := (if rest = [] then xs_current_sequence st
            else je_sequence (xs_entries st ! (taken - 1)))\<rparr>))"

(* remote_export_state.rs:2053-2056 RetainedDuplicatePolicy *)
datatype duplicate_policy = SkipDuplicate | AppendDuplicate

(* remote_export_state.rs:2069-2079 append_change_batch (retained) *)
definition retained_changes :: "journal_entry list \<Rightarrow> export_error + (string, export_change) btree" where
  "retained_changes entries = fold_ok (\<lambda>e m. case bt_get m (xc_change_id (je_change e)) of
      Some existing \<Rightarrow> if existing \<noteq> je_change e then Inl ChangeIdReused
        else Inr (bt_insert (xc_change_id (je_change e)) (je_change e) m)
    | None \<Rightarrow> Inr (bt_insert (xc_change_id (je_change e)) (je_change e) m)) entries []"

text \<open>The batch, the selected changes and the number of duplicates.\<close>

type_synonym batch_selection = "(string, export_change) btree \<times> export_change list \<times> nat"

(* remote_export_state.rs:2083-2112 append_change_batch (selection) *)
definition select_change ::
  "duplicate_policy \<Rightarrow> (string, export_change) btree \<Rightarrow> export_change \<Rightarrow> batch_selection \<Rightarrow> export_error + batch_selection" where
  "select_change policy retained c = (\<lambda>(batch, selected, duplicates).
    and_then (change_validate c) (\<lambda>_.
    let known = bt_get retained (xc_change_id c) in
    if known \<noteq> None \<and> known \<noteq> Some c then Inl ChangeIdReused
    else if known \<noteq> None \<and> policy = SkipDuplicate then Inr (batch, selected, duplicates + 1)
    else
      let batch' = bt_insert (xc_change_id c) c batch
      in (case bt_get batch (xc_change_id c) of
            None \<Rightarrow> Inr (batch', selected @ [c], duplicates)
          | Some existing \<Rightarrow>
              if existing \<noteq> c then Inl ChangeIdReused
              else if policy = SkipDuplicate then Inr (batch', selected, duplicates + 1)
              else Inl RepeatedTransition)))"

(* remote_export_state.rs:2118-2122 append_change_batch (commit time) *)
definition commit_time :: "datetime \<Rightarrow> export_state \<Rightarrow> datetime" where
  "commit_time observed_at st = max (if xs_entries st = [] then observed_at
     else max (je_committed_at (last (xs_entries st))) observed_at) (rk_trusted_at (xs_retention_clock st))"

(* remote_export_state.rs:2124-2140 append_change_batch (push) *)
definition push_change ::
  "datetime \<Rightarrow> export_change \<Rightarrow> u64 list \<times> export_state \<Rightarrow> export_error + u64 list \<times> export_state" where
  "push_change committed_at c = (\<lambda>(sequences, st).
    and_then (ok_or (checked_add (xs_current_sequence st) 1) SequenceOverflowed) (\<lambda>sequence.
    and_then (ensure (sequence \<noteq> 0) ZeroSequence) (\<lambda>_.
    Inr (sequences @ [sequence], st\<lparr>xs_entries := xs_entries st @ [\<lparr>je_sequence = sequence,
      je_committed_at = committed_at, je_change = c\<rparr>], xs_current_sequence := sequence\<rparr>))))"

(* remote_export_state.rs:2063-2146 append_change_batch *)
definition append_change_batch ::
  "datetime \<Rightarrow> export_change list \<Rightarrow> duplicate_policy \<Rightarrow> export_state \<Rightarrow> export_error + (u64 list \<times> nat) \<times> export_state" where
  "append_change_batch observed_at changes policy st =
    and_then (retained_changes (xs_entries st)) (\<lambda>retained.
    and_then (fold_ok (select_change policy retained) changes ([], [], 0)) (\<lambda>(_, selected, duplicates).
    and_then (ok_or (if length selected < 2 ^ 64 then checked_add (xs_current_sequence st) (of_nat (length selected)) else None)
      SequenceOverflowed) (\<lambda>_.
    and_then (fold_ok (push_change (commit_time observed_at st)) selected ([], st)) (\<lambda>(sequences, st).
    Inr ((sequences, duplicates), st)))))"

(* remote_export_state.rs:2148-2165 advance_retention_and_prune_age *)
definition advance_retention_and_prune_age ::
  "chrono_range \<Rightarrow> datetime \<Rightarrow> int \<Rightarrow> export_state \<Rightarrow> export_error + (nat \<times> bool) \<times> export_state" where
  "advance_retention_and_prune_age rng observed_at retention_days st =
    (let (clock, deferred) = next_retention_clock rng (xs_retention_clock st) observed_at;
         st = st\<lparr>xs_retention_clock := clock\<rparr>;
         cutoff = (case checked_sub_signed rng (rk_trusted_at clock) (hours (24 * retention_days)) of
             Some t \<Rightarrow> t | None \<Rightarrow> min_utc rng);
         age_count = length (takeWhile (\<lambda>e. je_committed_at e < cutoff) (xs_entries st))
     in and_then (drop_oldest_entries age_count st) (\<lambda>st. Inr ((age_count, deferred), st)))"

section \<open>Compaction\<close>

(* remote_export_state.rs:2439-2450 compact_to_limits (count) *)
fun reclaim_count :: "(journal_entry \<Rightarrow> u64 option) \<Rightarrow> u64 \<Rightarrow> u64 \<Rightarrow> nat \<Rightarrow> journal_entry list \<Rightarrow> export_error + nat" where
  "reclaim_count bytes_of excess reclaimed taken [] = Inr taken"
| "reclaim_count bytes_of excess reclaimed taken (e # es) =
    and_then (ok_or (Option.bind (bytes_of e) (\<lambda>n. Option.bind (checked_add reclaimed n) (\<lambda>m. checked_add m 1))) SizeOverflowed)
      (\<lambda>reclaimed. if excess \<le> reclaimed then Inr (taken + 1) else reclaim_count bytes_of excess reclaimed (taken + 1) es)"

lemma reclaim_count_grows: "reclaim_count bytes_of excess reclaimed taken es = Inr n \<Longrightarrow> es \<noteq> [] \<Longrightarrow> taken < n"
proof (induction es arbitrary: reclaimed taken)
  case (Cons e es)
  then show ?case by (cases es) (force simp: result_simps split: if_splits)+
qed simp

(* remote_export_state.rs:3103-3107 encoded_state_size *)
definition encoded_state_size :: "export_env \<Rightarrow> export_state \<Rightarrow> export_error + u64" where
  "encoded_state_size env st = ok_or (Option.bind (xe_state_size env st) (\<lambda>n. checked_add n 1)) SizeOverflowed"

(* remote_export_state.rs:2428-2452 compact_to_limits (loop) *)
function compact_loop :: "export_env \<Rightarrow> u64 \<Rightarrow> export_state \<Rightarrow> export_error + export_state" where
  "compact_loop env maximum st =
    and_then (encoded_state_size env st) (\<lambda>bytes_of.
    if bytes_of \<le> maximum then Inr st
    else if xs_entries st = [] then Inl EnvelopeTooLarge
    else case reclaim_count (xe_entry_size env) (bytes_of - maximum) 0 0 (xs_entries st) of
        Inl e \<Rightarrow> Inl e
      | Inr taken \<Rightarrow> (case drop_oldest_entries taken st of
            Inl e \<Rightarrow> Inl e
          | Inr st' \<Rightarrow> compact_loop env maximum st'))"
  by pat_completeness auto
termination
  by (relation "measure (\<lambda>(env, maximum, st). length (xs_entries st))")
    (auto simp: drop_oldest_entries_def Let_def split: if_splits dest: reclaim_count_grows)

declare compact_loop.simps [simp del]

(* remote_export_state.rs:2419-2453 compact_to_limits *)
definition compact_to_limits :: "export_env \<Rightarrow> export_limits \<Rightarrow> export_state \<Rightarrow> export_error + export_state" where
  "compact_to_limits env limits st =
    and_then (if xl_maximum_entries limits < length (xs_entries st)
        then drop_oldest_entries (length (xs_entries st) - xl_maximum_entries limits) st else Inr st)
      (compact_loop env (xl_maximum_state_bytes limits))"

section \<open>The materialized set\<close>

(* remote_export_state.rs:2218-2228 capture_materialized_upserts (record) *)
definition capture_upsert ::
  "export_state \<Rightarrow> materialized_record \<Rightarrow> (string, export_change) btree \<Rightarrow> export_error + (string, export_change) btree" where
  "capture_upsert st r upserts =
    and_then (ok_or (entry_at_sequence st (mr_last_upsert_sequence r)) UpsertNotRetained) (\<lambda>entry.
    and_then (ensure (xc_change_id (je_change entry) = mr_current_change_id r) UpsertMismatch) (\<lambda>_.
    Inr (bt_insert (mr_logical_key r) (je_change entry) upserts)))"

(* remote_export_state.rs:2214-2230 capture_materialized_upserts *)
definition capture_materialized_upserts :: "export_state \<Rightarrow> export_error + (string, export_change) btree" where
  "capture_materialized_upserts st = fold_ok (capture_upsert st) (xs_materialized_records st) []"

definition upsert_retained :: "export_state \<Rightarrow> materialized_record \<Rightarrow> bool" where
  "upsert_retained st r = (case entry_at_sequence st (mr_last_upsert_sequence r) of
      None \<Rightarrow> False | Some entry \<Rightarrow> xc_change_id (je_change entry) = mr_current_change_id r)"

(* remote_export_state.rs:2232-2243 materialized_bootstrap_is_complete *)
definition materialized_bootstrap_is_complete :: "export_state \<Rightarrow> bool" where
  "materialized_bootstrap_is_complete st = list_all (\<lambda>r. xs_retention_floor st < mr_last_upsert_sequence r
     \<and> upsert_retained st r \<and> \<not> has_later_tombstone st r) (xs_materialized_records st)"

(* remote_export_state.rs:2258-2272 refresh_materialized_bootstrap_if_needed (changes) *)
definition bootstrap_changes ::
  "(string, export_change) btree \<Rightarrow> materialized_record list \<Rightarrow> export_error + export_change list" where
  "bootstrap_changes upserts = map_ok (\<lambda>r.
    and_then (ok_or (bt_get upserts (mr_logical_key r)) MissingUpsert) (\<lambda>upsert.
    and_then (ensure (xc_change_id upsert = mr_current_change_id r) UpsertMismatch) (\<lambda>_. Inr upsert)))"

text \<open>The number of refreshed records, the capacity count and the state.\<close>

(* remote_export_state.rs:2245-2304 refresh_materialized_bootstrap_if_needed *)
definition refresh_materialized_bootstrap_if_needed ::
  "export_env \<Rightarrow> export_limits \<Rightarrow> datetime \<Rightarrow> (string, export_change) btree \<Rightarrow> usize \<Rightarrow> export_state
    \<Rightarrow> export_error + (nat \<times> usize) \<times> export_state" where
  "refresh_materialized_bootstrap_if_needed env limits observed_at upserts pruned st =
    (if materialized_bootstrap_is_complete st then Inr ((0, pruned), st)
     else
       and_then (ensure (length upserts = length (xs_materialized_records st)) MissingUpsert) (\<lambda>_.
       and_then (bootstrap_changes upserts (xs_materialized_records st)) (\<lambda>changes.
       and_then (append_change_batch observed_at changes AppendDuplicate st) (\<lambda>((sequences, duplicates), st).
       and_then (ensure (length sequences = length (xs_materialized_records st) \<and> duplicates = 0) NotAppendedOnce) (\<lambda>_.
       let st = st\<lparr>xs_materialized_records := List.map (\<lambda>(r, sequence). r\<lparr>mr_last_upsert_sequence := sequence\<rparr>)
             (zip (xs_materialized_records st) sequences)\<rparr>
       in and_then (compact_to_limits env limits st) (\<lambda>st'.
          and_then (ok_or (checked_add pruned (of_nat (length (xs_entries st) - length (xs_entries st')))) ReportOverflowed)
            (\<lambda>pruned.
          and_then (ensure (materialized_bootstrap_is_complete st') CannotFit) (\<lambda>_.
          Inr ((length sequences, pruned), st')))))))))"

(* remote_export_state.rs:2167-2212 expire_materialized_records *)
definition expire_materialized_records ::
  "datetime \<Rightarrow> datetime \<Rightarrow> (string, export_change) btree \<Rightarrow> export_state
    \<Rightarrow> export_error + (nat \<times> (string, export_change) btree) \<times> export_state" where
  "expire_materialized_records observed_at trusted_at upserts st =
    (let expired = filter (\<lambda>r. mr_expires_at r \<le> trusted_at) (xs_materialized_records st) in
     if expired = [] then Inr ((0, upserts), st)
     else
       and_then (append_change_batch observed_at (List.map mr_tombstone expired) AppendDuplicate st)
         (\<lambda>((sequences, duplicates), st).
       and_then (ensure (length sequences = length expired \<and> duplicates = 0) NotAppendedOnce) (\<lambda>_.
       let keys = remdups (List.map mr_logical_key expired);
           st = st\<lparr>xs_materialized_records := filter (\<lambda>r. mr_logical_key r \<notin> set keys) (xs_materialized_records st)\<rparr>
       in and_then (fold_ok (\<lambda>k m. if bt_get m k = None then Inl MissingUpsert else Inr (bt_remove k m)) keys upserts)
            (\<lambda>upserts. Inr ((length keys, upserts), st)))))"

(* remote_export_state.rs:1762-1802 append_and_compact *)
definition append_and_compact ::
  "export_env \<Rightarrow> export_store \<Rightarrow> datetime \<Rightarrow> export_change list \<Rightarrow> export_state \<Rightarrow> export_error + append_report \<times> export_state" where
  "append_and_compact env store observed_at changes st =
    and_then (state_validate (xe_range env) store st) (\<lambda>_.
    and_then (capture_materialized_upserts st) (\<lambda>upserts.
    and_then (append_change_batch observed_at changes SkipDuplicate st) (\<lambda>((sequences, duplicates), st).
    and_then (advance_retention_and_prune_age (xe_range env) observed_at (xl_retention_days (xt_limits store)) st)
      (\<lambda>((age_count, deferred), st).
    and_then (expire_materialized_records observed_at (rk_trusted_at (xs_retention_clock st)) upserts st)
      (\<lambda>((expired, upserts), st1).
    and_then (compact_to_limits env (xt_limits store) st1) (\<lambda>st.
    and_then (refresh_materialized_bootstrap_if_needed env (xt_limits store) observed_at upserts
        (of_nat (length (xs_entries st1) - length (xs_entries st))) st) (\<lambda>((refreshes, pruned), st).
    and_then (state_validate (xe_range env) store st) (\<lambda>_.
    and_then (ok_or (checked_add (of_nat (length sequences)) (of_nat expired)) ReportOverflowed) (\<lambda>appended.
    Inr (\<lparr>ar_cursor = state_cursor st, ar_appended = appended, ar_duplicates = of_nat duplicates,
       ar_pruned_by_age = of_nat age_count, ar_pruned_by_capacity = pruned, ar_retention_floor = xs_retention_floor st,
       ar_materialized_refreshes = of_nat refreshes, ar_expired_records = of_nat expired,
       ar_retention_deferred = deferred\<rparr>, st))))))))))"

section \<open>Reconciliation\<close>

(* remote_export_state.rs:2307-2311 ReconcileTransitionKind *)
datatype transition_kind = UpsertTransition | TombstoneTransition | ExpiryTombstone

(* remote_export_state.rs:2313-2317 ReconcileTransition *)
record reconcile_transition =
  rt_kind :: transition_kind
  rt_bootstrap :: bool
  rt_change :: export_change

(* remote_export_state.rs:2319-2323 PendingMaterializedRecord *)
record pending_record =
  pn_stored :: materialized_record
  pn_upsert :: export_change
  pn_transition :: "nat option"

type_synonym merge_state = "reconcile_transition list \<times> pending_record list"

(* remote_export_state.rs:2325-2364 merge_desired_record *)
definition merge_desired_record ::
  "export_state \<Rightarrow> materialized_record option \<Rightarrow> desired_record \<Rightarrow> merge_state \<Rightarrow> merge_state" where
  "merge_desired_record st old d = (\<lambda>(transitions, pending).
    let unchanged = (case old of None \<Rightarrow> False | Some r \<Rightarrow> mr_current_change_id r = xc_change_id (dr_upsert d));
        retained = (case old of None \<Rightarrow> False | Some r \<Rightarrow> upsert_retained st r);
        keep = unchanged \<and> retained;
        record = \<lparr>pn_stored = \<lparr>mr_logical_key = dr_logical_key d, mr_expires_at = dr_expires_at d,
            mr_current_change_id = xc_change_id (dr_upsert d),
            mr_last_upsert_sequence = (case old of None \<Rightarrow> 1 | Some r \<Rightarrow> mr_last_upsert_sequence r),
            mr_tombstone = dr_tombstone d\<rparr>,
          pn_upsert = dr_upsert d, pn_transition = (if keep then None else Some (length transitions))\<rparr>
    in (if keep then transitions else transitions @ [\<lparr>rt_kind = UpsertTransition, rt_bootstrap = unchanged,
          rt_change = dr_upsert d\<rparr>], pending @ [record]))"

(* remote_export_state.rs:2366-2375 merge_expired_old_record *)
definition merge_expired_old_record :: "materialized_record \<Rightarrow> merge_state \<Rightarrow> merge_state" where
  "merge_expired_old_record old = (\<lambda>(transitions, pending).
    (transitions @ [\<lparr>rt_kind = ExpiryTombstone, rt_bootstrap = False, rt_change = mr_tombstone old\<rparr>], pending))"

(* remote_export_state.rs:2377-2417 merge_omitted_old_record *)
definition merge_omitted_old_record ::
  "export_state \<Rightarrow> (string, export_change) btree \<Rightarrow> reconcile_mode \<Rightarrow> materialized_record \<Rightarrow> merge_state
    \<Rightarrow> export_error + merge_state" where
  "merge_omitted_old_record st upserts mode old = (\<lambda>(transitions, pending).
    if mode = Authoritative
    then Inr (transitions @ [\<lparr>rt_kind = TombstoneTransition, rt_bootstrap = False, rt_change = mr_tombstone old\<rparr>], pending)
    else and_then (ok_or (bt_get upserts (mr_logical_key old)) MissingUpsert) (\<lambda>upsert.
      let retained = upsert_retained st old
      in Inr (if retained then transitions
           else transitions @ [\<lparr>rt_kind = UpsertTransition, rt_bootstrap = True, rt_change = upsert\<rparr>],
         pending @ [\<lparr>pn_stored = old, pn_upsert = upsert,
           pn_transition = (if retained then None else Some (length transitions))\<rparr>])))"

(* remote_export_state.rs:1825-1837 reconcile_and_compact (old record) *)
definition merge_old ::
  "export_state \<Rightarrow> (string, export_change) btree \<Rightarrow> reconcile_mode \<Rightarrow> datetime \<Rightarrow> materialized_record \<Rightarrow> merge_state
    \<Rightarrow> export_error + merge_state" where
  "merge_old st upserts mode trusted_at old acc =
    (if mr_expires_at old \<le> trusted_at then Inr (merge_expired_old_record old acc)
     else merge_omitted_old_record st upserts mode old acc)"

(* remote_export_state.rs:1860-1865 reconcile_and_compact (new record) *)
definition merge_new :: "export_state \<Rightarrow> datetime \<Rightarrow> desired_record \<Rightarrow> merge_state \<Rightarrow> merge_state" where
  "merge_new st trusted_at d acc = (if trusted_at < dr_expires_at d then merge_desired_record st None d acc else acc)"

(* remote_export_state.rs:1818-1888 reconcile_and_compact (merge) *)
fun merge_records ::
  "export_state \<Rightarrow> (string, export_change) btree \<Rightarrow> reconcile_mode \<Rightarrow> datetime \<Rightarrow> materialized_record list
    \<Rightarrow> desired_record list \<Rightarrow> merge_state \<Rightarrow> export_error + merge_state" where
  "merge_records st upserts mode trusted_at [] [] acc = Inr acc"
| "merge_records st upserts mode trusted_at (r # rs) [] acc =
    and_then (merge_old st upserts mode trusted_at r acc) (merge_records st upserts mode trusted_at rs [])"
| "merge_records st upserts mode trusted_at [] (d # ds) acc =
    merge_records st upserts mode trusted_at [] ds (merge_new st trusted_at d acc)"
| "merge_records st upserts mode trusted_at (r # rs) (d # ds) acc =
    (if mr_logical_key r < dr_logical_key d then
       and_then (merge_old st upserts mode trusted_at r acc) (merge_records st upserts mode trusted_at rs (d # ds))
     else if mr_logical_key r = dr_logical_key d then
       merge_records st upserts mode trusted_at rs ds
         (if mr_expires_at r \<le> trusted_at then merge_expired_old_record r acc
          else merge_desired_record st (Some r) d acc)
     else merge_records st upserts mode trusted_at (r # rs) ds (merge_new st trusted_at d acc))"

(* remote_export_state.rs:1966-1990 validate_desired_records (record) *)
definition validate_desired_record ::
  "desired_record \<Rightarrow> string option \<times> id_owners \<Rightarrow> export_error + string option \<times> id_owners" where
  "validate_desired_record d = (\<lambda>(previous_key, owners).
    and_then (desired_validate d) (\<lambda>_.
    and_then (ensure (case previous_key of None \<Rightarrow> True | Some k \<Rightarrow> k < dr_logical_key d) DesiredNotSorted) (\<lambda>_.
    and_then (validate_materialized_id_owner (xc_change_id (dr_upsert d)) (dr_logical_key d) UpsertRole owners) (\<lambda>owners.
    and_then (validate_materialized_id_owner (xc_change_id (dr_tombstone d)) (dr_logical_key d) TombstoneRole owners)
      (\<lambda>owners.
    Inr (Some (dr_logical_key d), owners))))))"

(* remote_export_state.rs:1960-1990 validate_desired_records *)
definition validate_desired_records :: "desired_record list \<Rightarrow> export_error + unit" where
  "validate_desired_records desired =
    and_then (ensure (length desired \<le> MAX_MATERIALIZED_RECORDS) TooManyDesired) (\<lambda>_.
    and_then (fold_ok validate_desired_record desired (None, [])) (\<lambda>_. Inr ()))"

text \<open>Owners are records of the old set, found by their index; the binary search is by key.\<close>

(* remote_export_state.rs:2003-2013 validate_reconcile_change_ownership (owners) *)
definition old_owners :: "materialized_record list \<Rightarrow> (string, materialized_record \<times> change_role) btree" where
  "old_owners old = fold (\<lambda>r m. bt_insert (xc_change_id (mr_tombstone r)) (r, TombstoneRole)
     (bt_insert (mr_current_change_id r) (r, UpsertRole) m)) old []"

(* remote_export_state.rs:2023-2048 validate_reconcile_change_ownership (change) *)
definition check_change_owner ::
  "(string, materialized_record \<times> change_role) btree \<Rightarrow> (string, export_change) btree \<Rightarrow> string \<Rightarrow> export_change
    \<Rightarrow> change_role \<Rightarrow> export_error + unit" where
  "check_change_owner owners upserts key c role = (case bt_get owners (xc_change_id c) of
      None \<Rightarrow> Inr ()
    | Some (old, old_role) \<Rightarrow>
        and_then (ensure (mr_logical_key old = key \<and> old_role = role) OwnerConflict) (\<lambda>_.
        and_then (if role = UpsertRole then ok_or (bt_get upserts (mr_logical_key old)) MissingUpsert
            else Inr (mr_tombstone old)) (\<lambda>old_change.
        ensure (old_change = c) ChangeIdReused)))"

(* remote_export_state.rs:1998-2050 validate_reconcile_change_ownership *)
definition validate_reconcile_change_ownership ::
  "materialized_record list \<Rightarrow> (string, export_change) btree \<Rightarrow> desired_record list \<Rightarrow> export_error + unit" where
  "validate_reconcile_change_ownership old upserts desired =
    (let owners = old_owners old
     in each_ok (\<lambda>d.
          and_then (ensure (case List.find (\<lambda>r. mr_logical_key r = dr_logical_key d) old of
              None \<Rightarrow> True | Some r \<Rightarrow> mr_expires_at r = dr_expires_at d) ExpiryChanged) (\<lambda>_.
          and_then (check_change_owner owners upserts (dr_logical_key d) (dr_upsert d) UpsertRole) (\<lambda>_.
          check_change_owner owners upserts (dr_logical_key d) (dr_tombstone d) TombstoneRole))) desired)"

text \<open>A missing index is a panic of the code; it is never reached.\<close>

(* remote_export_state.rs:1905-1909 reconcile_and_compact (sequences) *)
definition assign_sequence :: "u64 list \<Rightarrow> pending_record \<Rightarrow> pending_record" where
  "assign_sequence sequences p = (case pn_transition p of
      None \<Rightarrow> p
    | Some i \<Rightarrow> p\<lparr>pn_stored := (pn_stored p)\<lparr>mr_last_upsert_sequence := sequences ! i\<rparr>\<rparr>)"

(* remote_export_state.rs:1804-1958 reconcile_and_compact *)
definition reconcile_and_compact ::
  "export_env \<Rightarrow> export_store \<Rightarrow> datetime \<Rightarrow> desired_record list \<Rightarrow> reconcile_mode \<Rightarrow> export_state
    \<Rightarrow> export_error + reconcile_report \<times> export_state" where
  "reconcile_and_compact env store observed_at desired mode st =
    and_then (state_validate (xe_range env) store st) (\<lambda>_.
    and_then (capture_materialized_upserts st) (\<lambda>previous_upserts.
    and_then (validate_reconcile_change_ownership (xs_materialized_records st) previous_upserts desired) (\<lambda>_.
    and_then (advance_retention_and_prune_age (xe_range env) observed_at (xl_retention_days (xt_limits store)) st)
      (\<lambda>((age_count, deferred), st).
    and_then (merge_records st previous_upserts mode (rk_trusted_at (xs_retention_clock st)) (xs_materialized_records st)
        desired ([], [])) (\<lambda>(transitions, pending).
    and_then (append_change_batch observed_at (List.map rt_change transitions) AppendDuplicate st)
      (\<lambda>((sequences, duplicates), st).
    and_then (ensure (length sequences = length transitions \<and> duplicates = 0) NotAppendedOnce) (\<lambda>_.
    let pending = List.map (assign_sequence sequences) pending;
        upserts = length (filter (\<lambda>t. rt_kind t = UpsertTransition) transitions);
        tombstones = length transitions - upserts;
        expired = length (filter (\<lambda>t. rt_kind t = ExpiryTombstone) transitions);
        bootstrap = length (filter rt_bootstrap transitions);
        active = fold (\<lambda>p. bt_insert (mr_logical_key (pn_stored p)) (pn_upsert p)) pending [];
        st1 = st\<lparr>xs_materialized_records := List.map pn_stored pending\<rparr>
    in and_then (compact_to_limits env (xt_limits store) st1) (\<lambda>st.
       and_then (refresh_materialized_bootstrap_if_needed env (xt_limits store) observed_at active
           (of_nat (length (xs_entries st1) - length (xs_entries st))) st) (\<lambda>((refreshed, pruned), st).
       and_then (ok_or (checked_add (of_nat upserts) (of_nat refreshed)) ReportOverflowed) (\<lambda>upserts.
       and_then (ok_or (checked_add (of_nat bootstrap) (of_nat refreshed)) ReportOverflowed) (\<lambda>bootstrap.
       and_then (state_validate (xe_range env) store st) (\<lambda>_.
       Inr (\<lparr>xr_cursor = state_cursor st, xr_upserts_appended = upserts, xr_tombstones_appended = of_nat tombstones,
          xr_expired_records = of_nat expired, xr_bootstrap_upserts_appended = bootstrap,
          xr_current_records = of_nat (length (xs_materialized_records st)), xr_pruned_by_age = of_nat age_count,
          xr_pruned_by_capacity = pruned, xr_retention_floor = xs_retention_floor st,
          xr_retention_deferred = deferred\<rparr>, st)))))))))))))"

section \<open>Sessions\<close>

(* remote_export_state.rs:650-659 RemoteExportStateStore::write_state *)
definition write_state :: "export_env \<Rightarrow> export_store \<Rightarrow> export_state \<Rightarrow> export_error + u64" where
  "write_state env store st =
    and_then (state_validate (xe_range env) store st) (\<lambda>_.
    and_then (encoded_state_size env st) (\<lambda>written.
    and_then (ensure (written \<le> xl_maximum_state_bytes (xt_limits store)) StateTooLarge) (\<lambda>_. Inr written)))"

(* remote_export_state.rs:860-889 RemoteExportSession::materialized_upserts *)
definition materialized_upserts :: "export_state \<Rightarrow> export_error + materialized_upsert list" where
  "materialized_upserts st =
    and_then (capture_materialized_upserts st) (\<lambda>upserts.
    let latest_revision = fold (\<lambda>e. bt_insert (xc_change_id (je_change e)) (je_sequence e)) (xs_entries st) [] in
    map_ok (\<lambda>r.
      and_then (ok_or (bt_get upserts (mr_logical_key r)) MissingUpsert) (\<lambda>change.
      and_then (ok_or (bt_get latest_revision (mr_current_change_id r)) MissingUpsert) (\<lambda>revision.
      Inr \<lparr>mu_logical_key = mr_logical_key r, mu_expires_at = mr_expires_at r, mu_revision = revision,
        mu_change = change\<rparr>))) (xs_materialized_records st))"

(* remote_export_state.rs:891-926 RemoteExportSession::append_changes *)
definition append_changes ::
  "export_env \<Rightarrow> export_store \<Rightarrow> datetime \<Rightarrow> export_change list \<Rightarrow> export_state
    \<Rightarrow> (export_error + append_report) \<times> export_state" where
  "append_changes env store observed_at changes st =
    (case and_then (ensure (length changes \<le> MAX_APPEND_BATCH_ENTRIES) BatchTooLarge) (\<lambda>_.
        and_then (each_ok change_validate changes) (\<lambda>_.
        and_then (append_and_compact env store observed_at changes st) (\<lambda>(report, st').
        and_then (write_state env store st') (\<lambda>_. Inr (report, st'))))) of
       Inl e \<Rightarrow> (Inl e, st)
     | Inr (report, st') \<Rightarrow> (Inr report, st'))"

(* remote_export_state.rs:1268-1289 materialized_set_matches *)
definition materialized_set_matches :: "export_state \<Rightarrow> desired_record list \<Rightarrow> export_error + bool" where
  "materialized_set_matches st desired =
    (if length (xs_materialized_records st) \<noteq> length desired then Inr False
     else and_then (capture_materialized_upserts st) (\<lambda>upserts.
       Inr (list_all (\<lambda>(current, wanted). mr_logical_key current = dr_logical_key wanted
           \<and> mr_expires_at current = dr_expires_at wanted
           \<and> mr_current_change_id current = xc_change_id (dr_upsert wanted)
           \<and> mr_tombstone current = dr_tombstone wanted
           \<and> bt_get upserts (mr_logical_key current) = Some (dr_upsert wanted))
         (zip (xs_materialized_records st) desired))))"

(* remote_export_state.rs:1291-1332 reconcile_maintenance_due *)
definition reconcile_maintenance_due :: "chrono_range \<Rightarrow> export_state \<Rightarrow> datetime \<Rightarrow> export_store \<Rightarrow> bool" where
  "reconcile_maintenance_due rng st observed_at store =
    (let k = xs_retention_clock st;
         last_maintenance = (case rk_pending_last_at k of None \<Rightarrow> rk_trusted_at k | Some t \<Rightarrow> t) in
     xl_retention_days (xt_limits store) \<le> 0
     \<or> observed_at \<le> trusted_forward_limit rng k
        \<and> list_ex (\<lambda>r. mr_expires_at r \<le> observed_at) (xs_materialized_records st)
     \<or> rk_pending_last_at k \<noteq> None \<and> observed_at < last_maintenance
     \<or> (case checked_add_signed rng last_maintenance (hours RECONCILE_MAINTENANCE_INTERVAL_HOURS) of
          None \<Rightarrow> False | Some due \<Rightarrow> due \<le> observed_at))"

(* remote_export_state.rs:941-956 RemoteExportSession::reconcile_materialized_records (unchanged) *)
definition unchanged_report :: "export_state \<Rightarrow> reconcile_report" where
  "unchanged_report st = \<lparr>xr_cursor = state_cursor st, xr_upserts_appended = 0, xr_tombstones_appended = 0,
     xr_expired_records = 0, xr_bootstrap_upserts_appended = 0,
     xr_current_records = of_nat (length (xs_materialized_records st)), xr_pruned_by_age = 0, xr_pruned_by_capacity = 0,
     xr_retention_floor = xs_retention_floor st,
     xr_retention_deferred = (rk_pending_started_at (xs_retention_clock st) \<noteq> None)\<rparr>"

(* remote_export_state.rs:931-980 RemoteExportSession::reconcile_materialized_records *)
definition reconcile_materialized_records ::
  "export_env \<Rightarrow> export_store \<Rightarrow> datetime \<Rightarrow> desired_record list \<Rightarrow> reconcile_mode \<Rightarrow> export_state
    \<Rightarrow> (export_error + reconcile_report) \<times> export_state" where
  "reconcile_materialized_records env store observed_at desired mode st =
    (case and_then (validate_desired_records desired) (\<lambda>_.
        and_then (materialized_set_matches st desired) (\<lambda>matches.
        if matches \<and> \<not> reconcile_maintenance_due (xe_range env) st observed_at store
        then Inr (unchanged_report st, st)
        else and_then (reconcile_and_compact env store observed_at desired mode st) (\<lambda>(report, st').
          and_then (write_state env store st') (\<lambda>_. Inr (report, st'))))) of
       Inl e \<Rightarrow> (Inl e, st)
     | Inr (report, st') \<Rightarrow> (Inr report, st'))"

text \<open>A cursor is refused with the reason of its expiry, or as ahead of the journal.\<close>

(* remote_export_state.rs:1115-1141 RemoteExportSession::read_page (cursor) *)
definition check_cursor :: "export_state \<Rightarrow> delta_cursor \<Rightarrow> export_error + cursor_expired option" where
  "check_cursor st c =
    (let expired = (\<lambda>reason. Inr (Some \<lparr>ce_reason = reason, ce_requested = c,
           ce_current_generation = xs_delta_generation st, ce_retention_floor = xs_retention_floor st,
           ce_through_sequence = xs_current_sequence st\<rparr>))
     in if dc_generation c \<noteq> xs_delta_generation st then expired GenerationMismatch
        else if dc_sequence c < xs_retention_floor st then expired RetentionExpired
        else if xs_current_sequence st < dc_sequence c then Inl CursorAhead
        else Inr None)"

(* remote_export_state.rs:1083-1098 RemoteExportSession::preflight_reconciled_delta (records) *)
fun preflight_records ::
  "nat \<Rightarrow> usize \<Rightarrow> usize \<Rightarrow> (journal_entry \<Rightarrow> export_error + usize) \<Rightarrow> journal_entry list \<Rightarrow> nat \<Rightarrow> usize
    \<Rightarrow> export_error + (nat \<times> usize) option" where
  "preflight_records maximum_entries maximum_record maximum record_bytes [] entries bytes = Inr (Some (entries, bytes))"
| "preflight_records maximum_entries maximum_record maximum record_bytes (e # es) entries bytes =
    (if maximum_entries < entries + 1 then Inr None
     else and_then (record_bytes e) (\<lambda>n.
       if maximum_record < n then Inr None
       else (case checked_add bytes n of
           None \<Rightarrow> Inr None
         | Some serialized \<Rightarrow> if serialized \<le> maximum
             then preflight_records maximum_entries maximum_record maximum record_bytes es (entries + 1) serialized
             else Inr None)))"

(* remote_export_state.rs:987-1106 RemoteExportSession::preflight_reconciled_delta *)
definition preflight_reconciled_delta ::
  "export_env \<Rightarrow> export_store \<Rightarrow> datetime \<Rightarrow> desired_record list \<Rightarrow> reconcile_mode \<Rightarrow> delta_cursor \<Rightarrow> nat \<Rightarrow> usize \<Rightarrow> usize
    \<Rightarrow> usize \<Rightarrow> (journal_entry \<Rightarrow> export_error + usize) \<Rightarrow> export_state \<Rightarrow> export_error + delta_preflight" where
  "preflight_reconciled_delta env store observed_at desired mode c maximum_entries initial maximum_record maximum
      record_bytes st =
    and_then (validate_desired_records desired) (\<lambda>_.
    and_then (ensure (maximum_entries \<noteq> 0 \<and> maximum_record \<noteq> 0 \<and> maximum \<noteq> 0 \<and> initial \<le> maximum)
      InvalidPreflightLimits) (\<lambda>_.
    and_then (check_cursor st c) (\<lambda>expired.
    case expired of Some x \<Rightarrow> Inr (PreflightExpired x) | None \<Rightarrow>
    and_then (materialized_set_matches st desired) (\<lambda>matches.
    and_then (if \<not> matches \<or> reconcile_maintenance_due (xe_range env) st observed_at store
        then and_then (reconcile_and_compact env store observed_at desired mode st) (\<lambda>(_, st'). Inr st')
        else Inr st) (\<lambda>preview.
    and_then (check_cursor preview c) (\<lambda>expired.
    case expired of Some x \<Rightarrow> Inr (PreflightExpired x) | None \<Rightarrow>
    and_then (preflight_records maximum_entries maximum_record maximum record_bytes
        (dropWhile (\<lambda>e. je_sequence e \<le> dc_sequence c) (xs_entries preview)) 0 initial) (\<lambda>outcome.
    case outcome of
      None \<Rightarrow> Inr PreflightLimitExceeded
    | Some (entries, bytes) \<Rightarrow> Inr (PreflightReady (state_cursor preview) entries bytes))))))))"

(* remote_export_state.rs:1154-1180 RemoteExportSession::read_page (entries) *)
fun page_entries ::
  "(journal_entry \<Rightarrow> u64 option) \<Rightarrow> nat \<Rightarrow> u64 \<Rightarrow> journal_entry list \<Rightarrow> journal_entry list \<Rightarrow> u64
    \<Rightarrow> export_error + journal_entry list" where
  "page_entries bytes_of maximum_entries maximum_bytes [] taken encoded = Inr taken"
| "page_entries bytes_of maximum_entries maximum_bytes (e # es) taken encoded =
    (if length taken = maximum_entries then Inr taken
     else and_then (ok_or (Option.bind (bytes_of e) (\<lambda>n. Option.bind (checked_add encoded n)
         (\<lambda>total. checked_add total (if taken = [] then 0 else 1)))) SizeOverflowed) (\<lambda>next_bytes.
       if maximum_bytes < next_bytes then (if taken = [] then Inl PageLimitTooSmall else Inr taken)
       else page_entries bytes_of maximum_entries maximum_bytes es (taken @ [e]) next_bytes))"

(* remote_export_state.rs:1108-1199 RemoteExportSession::read_page *)
definition read_page ::
  "export_env \<Rightarrow> export_store \<Rightarrow> delta_cursor \<Rightarrow> nat \<Rightarrow> u64 \<Rightarrow> export_state \<Rightarrow> export_error + page_read" where
  "read_page env store c maximum_entries maximum_bytes st =
    and_then (check_cursor st c) (\<lambda>expired.
    case expired of Some x \<Rightarrow> Inr (CursorExpired x) | None \<Rightarrow>
    and_then (ensure (maximum_entries \<noteq> 0 \<and> maximum_entries \<le> xl_maximum_page_entries (xt_limits store)
        \<and> maximum_bytes \<noteq> 0 \<and> maximum_bytes \<le> xl_maximum_page_bytes (xt_limits store)) InvalidPageLimits) (\<lambda>_.
    let first_sequence = sat_add (dc_sequence c) 1 in
    and_then (page_entries (xe_entry_size env) maximum_entries maximum_bytes
        (dropWhile (\<lambda>e. je_sequence e < first_sequence) (xs_entries st)) [] 0) (\<lambda>entries.
    let through_sequence = (if entries = [] then dc_sequence c else je_sequence (last entries)) in
    Inr (PageRead \<lparr>ep_generation = xs_delta_generation st,
      ep_from_sequence = (if entries = [] then dc_sequence c else je_sequence (hd entries)),
      ep_through_sequence = through_sequence,
      ep_next_cursor = \<lparr>dc_generation = xs_delta_generation st, dc_sequence = through_sequence\<rparr>,
      ep_has_more = (through_sequence < xs_current_sequence st), ep_entries = entries\<rparr>))))"

text \<open>The cursor of a request without one.\<close>

(* remote_exporter.rs:372-375 prepare_remote_delta_page (cursor) *)
definition bootstrap_cursor :: "export_state \<Rightarrow> delta_cursor" where
  "bootstrap_cursor st = \<lparr>dc_generation = xs_delta_generation st, dc_sequence = xs_retention_floor st\<rparr>"

section \<open>Opening a store\<close>

text \<open>The random draws are a list; an empty list and a failed draw are failures of the provider.\<close>

(* remote_export_state.rs:2472-2487 generate_delta_generation *)
fun generate_delta_generation :: "nat \<Rightarrow> u64 option list \<Rightarrow> export_error + u64" where
  "generate_delta_generation 0 draws = Inl NoGeneration"
| "generate_delta_generation (Suc n) [] = Inl NoGeneration"
| "generate_delta_generation (Suc n) (None # draws) = Inl NoGeneration"
| "generate_delta_generation (Suc n) (Some g # draws) = (if g \<noteq> 0 then Inr g else generate_delta_generation n draws)"

(* remote_export_state.rs:1381-1398 StoredExportState::new *)
definition state_new ::
  "source_generation \<Rightarrow> redaction_profile \<Rightarrow> datetime \<Rightarrow> u64 option list \<Rightarrow> export_error + export_state" where
  "state_new source profile observed_at draws =
    and_then (generate_delta_generation 16 draws) (\<lambda>generation.
    Inr \<lparr>xs_format_version = STATE_FORMAT_VERSION, xs_source = source, xs_redaction_profile = profile,
      xs_delta_generation = generation, xs_current_sequence = 0, xs_retention_floor = 0,
      xs_retention_clock = clock_current observed_at, xs_entries = [], xs_materialized_records = []\<rparr>)"

(* remote_export_state.rs:1655-1662 StoredExportAnchor::from_state *)
definition anchor_from_state :: "export_state \<Rightarrow> export_anchor" where
  "anchor_from_state st = \<lparr>xa_format_version = ANCHOR_FORMAT_VERSION, xa_source = xs_source st,
     xa_redaction_profile = xs_redaction_profile st, xa_delta_generation = xs_delta_generation st\<rparr>"

(* remote_export_state.rs:1664-1674 StoredExportAnchor::validate *)
definition anchor_validate :: "export_store \<Rightarrow> export_anchor \<Rightarrow> export_error + unit" where
  "anchor_validate store a = ensure (xa_format_version a = ANCHOR_FORMAT_VERSION \<and> xa_source a = xt_source store
     \<and> xa_redaction_profile a = xt_redaction_profile store) AnchorMismatch"

text \<open>The two files of a namespace, \<open>None\<close> when a file does not exist.\<close>

record export_disk =
  xd_state :: "export_state option"
  xd_anchor :: "export_anchor option"

(* remote_export_state.rs:639-648 RemoteExportStateStore::read_state *)
definition read_state :: "export_env \<Rightarrow> export_store \<Rightarrow> export_state \<Rightarrow> export_error + export_state" where
  "read_state env store st =
    and_then (encoded_state_size env st) (\<lambda>n.
    and_then (ensure (n \<le> xl_maximum_state_bytes (xt_limits store)) StateTooLarge) (\<lambda>_.
    and_then (state_validate (xe_range env) store st) (\<lambda>_. Inr st)))"

(* remote_export_state.rs:672-700 RemoteExportStateStore::ensure_anchor *)
definition ensure_anchor :: "export_store \<Rightarrow> export_state \<Rightarrow> export_disk \<Rightarrow> (export_error + unit) \<times> export_disk" where
  "ensure_anchor store st disk = (case xd_anchor disk of
      Some a \<Rightarrow> (and_then (anchor_validate store a) (\<lambda>_. ensure (a = anchor_from_state st) AnchorMismatch), disk)
    | None \<Rightarrow> (Inr (), disk\<lparr>xd_anchor := Some (anchor_from_state st)\<rparr>))"

(* remote_export_state.rs:609-637 RemoteExportStateStore::load_or_create_state *)
definition load_or_create_state ::
  "export_env \<Rightarrow> export_store \<Rightarrow> u64 option list \<Rightarrow> datetime \<Rightarrow> export_disk \<Rightarrow> (export_error + export_state) \<times> export_disk" where
  "load_or_create_state env store draws observed_at disk = (case xd_state disk of
      Some st \<Rightarrow> (case read_state env store st of
          Inl e \<Rightarrow> (Inl e, disk)
        | Inr st \<Rightarrow> (let (r, disk) = ensure_anchor store st disk in (and_then r (\<lambda>_. Inr st), disk)))
    | None \<Rightarrow> (case xd_anchor disk of
          Some a \<Rightarrow> (and_then (anchor_validate store a) (\<lambda>_. Inl StateMissing), disk)
        | None \<Rightarrow> (case and_then (state_new (xt_source store) (xt_redaction_profile store) observed_at draws) (\<lambda>st.
              and_then (write_state env store st) (\<lambda>_. Inr st)) of
            Inl e \<Rightarrow> (Inl e, disk)
          | Inr st \<Rightarrow> (let (r, disk) = ensure_anchor store st (disk\<lparr>xd_state := Some st\<rparr>)
              in (and_then r (\<lambda>_. Inr st), disk)))))"

(* remote_export_state.rs:548-560 RemoteExportStateStore::try_begin *)
definition try_begin ::
  "export_env \<Rightarrow> export_store \<Rightarrow> u64 option list \<Rightarrow> datetime \<Rightarrow> export_disk
    \<Rightarrow> (export_error + export_state \<times> u64) \<times> export_disk" where
  "try_begin env store draws observed_at disk =
    (let (r, disk) = load_or_create_state env store draws observed_at disk
     in (and_then r (\<lambda>st. and_then (encoded_state_size env st) (\<lambda>n. Inr (st, n))), disk))"

end
