(* ===== verification/Export_History.thy ===== *)
theory Export_History
  imports Export_Journal
begin

text \<open>
  Histories of the export journal: replaying changes, the history behind a journal state, and how
  appending, dropping, expiring, refreshing and merging relate the materialized set to it.
\<close>

section \<open>Followers\<close>

text \<open>The meaning of a change for a follower: the key it sets (\<open>True\<close>) or clears (\<open>False\<close>).\<close>

type_synonym change_codec = "export_change \<Rightarrow> (string \<times> bool) option"
type_synonym replica = "string \<rightharpoonup> export_change"

definition apply_change :: "change_codec \<Rightarrow> export_change \<Rightarrow> replica \<Rightarrow> replica" where
  "apply_change decode c m = (case decode c of
      None \<Rightarrow> m
    | Some (k, live) \<Rightarrow> m(k := (if live then Some c else None)))"

definition replay :: "change_codec \<Rightarrow> export_change list \<Rightarrow> replica \<Rightarrow> replica" where
  "replay decode cs m = fold (apply_change decode) cs m"

definition mentions :: "change_codec \<Rightarrow> string \<Rightarrow> export_change \<Rightarrow> bool" where
  "mentions decode k c = (case decode c of None \<Rightarrow> False | Some (k', _) \<Rightarrow> k' = k)"

lemma replay_simps [simp]:
  "replay decode [] m = m"
  "replay decode (c # cs) m = replay decode cs (apply_change decode c m)"
  "replay decode (cs @ ds) m = replay decode ds (replay decode cs m)"
  by (simp_all add: replay_def)

lemma apply_change_other: "\<not> mentions decode k c \<Longrightarrow> apply_change decode c m k = m k"
  by (auto simp: apply_change_def mentions_def split: option.splits)

lemma apply_change_same: "mentions decode k c \<Longrightarrow> apply_change decode c m k = apply_change decode c m' k"
  by (auto simp: apply_change_def mentions_def split: option.splits)

lemma replay_untouched: "list_all (\<lambda>c. \<not> mentions decode k c) cs \<Longrightarrow> replay decode cs m k = m k"
  by (induction cs arbitrary: m) (auto simp: apply_change_other)

lemma replay_cong: "m k = m' k \<Longrightarrow> replay decode cs m k = replay decode cs m' k"
proof (induction cs arbitrary: m m')
  case (Cons c cs)
  have "apply_change decode c m k = apply_change decode c m' k"
    using Cons.prems by (simp add: apply_change_def split: option.split)
  then have "replay decode cs (apply_change decode c m) k = replay decode cs (apply_change decode c m') k" by (rule Cons.IH)
  then show ?case by simp
qed simp

lemma replay_touched:
  assumes "list_ex (mentions decode k) cs"
  shows "replay decode cs m k = replay decode cs m' k"
proof -
  obtain as c bs where cs: "cs = as @ c # bs" and c: "mentions decode k c"
    using assms by (auto simp: list_ex_iff dest: split_list)
  have "replay decode bs (apply_change decode c (replay decode as m)) k
      = replay decode bs (apply_change decode c (replay decode as m')) k"
    by (rule replay_cong, rule apply_change_same, rule c)
  then show ?thesis by (simp add: cs)
qed

lemma replay_Some:
  "replay decode cs m k = Some u \<Longrightarrow> m k = Some u \<or> decode u = Some (k, True)"
proof (induction cs arbitrary: m)
  case (Cons c cs)
  then show ?case by (fastforce simp: apply_change_def split: option.splits if_splits)
qed simp

lemma replay_neutral: "list_all (\<lambda>c. decode c = None) cs \<Longrightarrow> replay decode cs m = m"
  by (induction cs) (simp_all add: apply_change_def)

lemma replay_same: "list_all (\<lambda>c. \<exists>k. decode c = Some (k, True) \<and> m k = Some c) cs \<Longrightarrow> replay decode cs m = m"
  by (induction cs) (auto simp: apply_change_def fun_upd_idem)

lemma replay_clear:
  "list_all2 (\<lambda>c k. decode c = Some (k, False)) cs ks \<Longrightarrow> replay decode cs m = m |` (- set ks)"
proof (induction cs ks arbitrary: m rule: list_all2_induct)
  case (Cons c cs k ks)
  then show ?case by (auto simp: apply_change_def restrict_map_def fun_eq_iff)
qed (simp add: restrict_map_def)

text \<open>A replica that starts empty at a cut of a log is complete when every key of the result is set after the cut.\<close>

lemma replay_suffix:
  assumes "\<And>k u. replay decode (as @ bs) Map.empty k = Some u \<Longrightarrow> u \<in> set bs"
  shows "replay decode bs Map.empty = replay decode (as @ bs) Map.empty"
proof
  fix k
  show "replay decode bs Map.empty k = replay decode (as @ bs) Map.empty k"
  proof (cases "list_ex (mentions decode k) bs")
    case True
    then show ?thesis by (simp add: replay_touched [OF True, of "replay decode as Map.empty" Map.empty])
  next
    case False
    then have none: "list_all (\<lambda>c. \<not> mentions decode k c) bs" by (auto simp: list_ex_iff list_all_iff)
    have "replay decode (as @ bs) Map.empty k = None"
    proof (rule ccontr)
      assume "replay decode (as @ bs) Map.empty k \<noteq> None"
      then obtain u where u: "replay decode (as @ bs) Map.empty k = Some u" by auto
      then have "u \<in> set bs" "mentions decode k u" using assms [OF u] replay_Some [OF u] by (auto simp: mentions_def)
      then show False using none by (auto simp: list_all_iff)
    qed
    then show ?thesis using replay_untouched [OF none, of Map.empty] by simp
  qed
qed

section \<open>Histories\<close>

text \<open>A history is the list of all changes ever appended; a state holds its suffix from the retention floor.\<close>

definition history_of :: "export_change list \<Rightarrow> export_state \<Rightarrow> bool" where
  "history_of H st \<longleftrightarrow> unat (xs_current_sequence st) = length H \<and> xs_retention_floor st \<le> xs_current_sequence st
     \<and> List.map je_change (xs_entries st) = drop (unat (xs_retention_floor st)) H
     \<and> List.map (\<lambda>e. unat (je_sequence e)) (xs_entries st) = [unat (xs_retention_floor st) + 1..<length H + 1]"

lemma history_lengths:
  assumes "history_of H st"
  shows "length (xs_entries st) = length H - unat (xs_retention_floor st)" "unat (xs_retention_floor st) \<le> length H"
    "length H < 2 ^ 64"
  using arg_cong [of _ _ length, OF conjunct1 [OF conjunct2 [OF conjunct2 [OF assms [unfolded history_of_def]]]]] assms
    unat_bound [of "xs_current_sequence st"]
  by (auto simp: history_of_def word_le_nat_alt)

lemma history_entry:
  assumes "history_of H st" "i < length (xs_entries st)"
  shows "je_change (xs_entries st ! i) = H ! (unat (xs_retention_floor st) + i)"
    "unat (je_sequence (xs_entries st ! i)) = unat (xs_retention_floor st) + i + 1"
proof -
  have "List.map je_change (xs_entries st) ! i = drop (unat (xs_retention_floor st)) H ! i"
    "List.map (\<lambda>e. unat (je_sequence e)) (xs_entries st) ! i = [unat (xs_retention_floor st) + 1..<length H + 1] ! i"
    using assms(1) by (simp_all add: history_of_def)
  then show "je_change (xs_entries st ! i) = H ! (unat (xs_retention_floor st) + i)"
    "unat (je_sequence (xs_entries st ! i)) = unat (xs_retention_floor st) + i + 1"
    using assms(2) history_lengths [OF assms(1)] by (simp_all del: upt_Suc)
qed

lemma history_entry_at:
  assumes "history_of H st" "entry_at_sequence st s = Some e"
  shows "unat (xs_retention_floor st) < unat s" "unat s \<le> length H" "je_change e = H ! (unat s - 1)"
proof -
  obtain d x where d: "checked_sub s (xs_retention_floor st) = Some d" and x: "checked_sub d 1 = Some x"
    and e: "unat x < length (xs_entries st)" "e = xs_entries st ! unat x"
    using assms(2) by (auto simp: entry_at_sequence_def opt_filter_def bind_eq_Some_conv split: if_splits)
  have s: "unat s = unat (xs_retention_floor st) + unat x + 1"
    using d x by (simp add: checked_iffs)
  show "unat (xs_retention_floor st) < unat s" "unat s \<le> length H" "je_change e = H ! (unat s - 1)"
    using s e history_entry [OF assms(1) e(1)] history_lengths [OF assms(1)] by simp_all
qed

text \<open>Appending and dropping entries keep everything else of a state.\<close>

definition journal_frame :: "export_state \<Rightarrow> export_state \<Rightarrow> bool" where
  "journal_frame st st' \<longleftrightarrow> xs_delta_generation st' = xs_delta_generation st
     \<and> xs_materialized_records st' = xs_materialized_records st \<and> xs_retention_clock st' = xs_retention_clock st"

lemma journal_frame_refl [simp]: "journal_frame st st"
  by (simp add: journal_frame_def)

lemma journal_frame_trans: "journal_frame a b \<Longrightarrow> journal_frame b c \<Longrightarrow> journal_frame a c"
  by (simp add: journal_frame_def)

lemma history_push:
  assumes "history_of H st" "push_change t c (ss, st) = Inr (ss', st')"
  shows "history_of (H @ [c]) st' \<and> journal_frame st st' \<and> List.map unat ss' = List.map unat ss @ [length H + 1]"
proof -
  obtain s where s: "unat s = length H + 1" and r: "ss' = ss @ [s]"
    "st' = st\<lparr>xs_entries := xs_entries st @ [\<lparr>je_sequence = s, je_committed_at = t, je_change = c\<rparr>],
       xs_current_sequence := s\<rparr>"
    using assms by (auto simp: push_change_def result_simps checked_iffs history_of_def)
  show ?thesis using assms(1) s unfolding r
    by (auto simp: history_of_def journal_frame_def word_le_nat_alt)
qed

lemma history_pushes:
  assumes "history_of H st" "fold_ok (push_change t) cs (ss, st) = Inr (ss', st')"
  shows "history_of (H @ cs) st' \<and> journal_frame st st'
    \<and> List.map unat ss' = List.map unat ss @ [length H + 1..<length H + 1 + length cs]"
  using assms
proof (induction cs arbitrary: H ss st)
  case (Cons c cs)
  obtain ss1 st1 where p: "push_change t c (ss, st) = Inr (ss1, st1)" and q: "fold_ok (push_change t) cs (ss1, st1) = Inr (ss', st')"
    using Cons.prems(2) by (auto simp: result_simps)
  note h = history_push [OF Cons.prems(1) p]
  have g: "history_of ((H @ [c]) @ cs) st' \<and> journal_frame st1 st'
    \<and> List.map unat ss' = List.map unat ss1 @ [length (H @ [c]) + 1..<length (H @ [c]) + 1 + length cs]"
    by (rule Cons.IH [OF conjunct1 [OF h] q])
  have "[length H + 1..<length H + 1 + length (c # cs)] = (length H + 1) # [length (H @ [c]) + 1..<length (H @ [c]) + 1 + length cs]"
    by (subst upt_conv_Cons) simp_all
  with g h journal_frame_trans [of st st1 st'] show ?case by (simp del: upt_Suc)
qed simp

lemma select_append:
  "fold_ok (select_change AppendDuplicate retained) cs (batch, selected, d) = Inr (batch', selected', d') \<Longrightarrow>
   selected' = selected @ cs \<and> d' = d"
proof (induction cs arbitrary: batch selected)
  case (Cons c cs)
  then obtain b s e where s: "select_change AppendDuplicate retained c (batch, selected, d) = Inr (b, s, e)"
    and r: "fold_ok (select_change AppendDuplicate retained) cs (b, s, e) = Inr (batch', selected', d')"
    by (auto simp: result_simps)
  have "s = selected @ [c] \<and> e = d"
    using s by (auto simp: select_change_def result_simps Let_def split: if_splits option.splits)
  then show ?case using Cons.IH [of b s] r by simp
qed simp

lemma select_subset:
  "fold_ok (select_change policy retained) cs (batch, selected, d) = Inr (batch', selected', d') \<Longrightarrow>
   set selected' \<subseteq> set selected \<union> set cs"
proof (induction cs arbitrary: batch selected d)
  case (Cons c cs)
  then obtain b s e where s: "select_change policy retained c (batch, selected, d) = Inr (b, s, e)"
    and r: "fold_ok (select_change policy retained) cs (b, s, e) = Inr (batch', selected', d')"
    by (auto simp: result_simps)
  have "set s \<subseteq> set selected \<union> {c}"
    using s by (auto simp: select_change_def result_simps Let_def split: if_splits option.splits)
  then show ?case using Cons.IH [OF r] by auto
qed simp

lemma history_append_batch:
  assumes "history_of H st" "append_change_batch t cs policy st = Inr ((ss, d), st')"
  obtains sel where "history_of (H @ sel) st'" "journal_frame st st'" "set sel \<subseteq> set cs"
    "List.map unat ss = [length H + 1..<length H + 1 + length sel]" "policy = AppendDuplicate \<Longrightarrow> sel = cs"
proof -
  obtain retained batch sel where sel: "fold_ok (select_change policy retained) cs ([], [], 0) = Inr (batch, sel, d)"
    and p: "fold_ok (push_change (commit_time t st)) sel ([], st) = Inr (ss, st')"
    using assms(2) by (auto simp: append_change_batch_def result_simps split: prod.splits)
  show ?thesis
    using that [of sel] history_pushes [OF assms(1) p] select_subset [OF sel] select_append sel by fastforce
qed

lemma history_drop:
  assumes "history_of H st" "drop_oldest_entries n st = Inr st'"
  shows "history_of H st' \<and> journal_frame st st'"
proof (cases "n = 0")
  case True
  then show ?thesis using assms by (simp add: drop_oldest_entries_def)
next
  case False
  let ?f = "unat (xs_retention_floor st)"
  have n: "n \<le> length (xs_entries st)" and st': "st' = st\<lparr>xs_entries := drop n (xs_entries st), xs_retention_floor :=
      (if drop n (xs_entries st) = [] then xs_current_sequence st else je_sequence (xs_entries st ! (n - 1)))\<rparr>"
    using assms(2) False by (auto simp: drop_oldest_entries_def Let_def split: if_splits)
  have "unat (je_sequence (xs_entries st ! (n - 1))) = ?f + n"
    using history_entry(2) [OF assms(1), of "n - 1"] n False by simp
  then have f: "unat (xs_retention_floor st') = ?f + n"
    using n history_lengths [OF assms(1)] assms(1) by (auto simp: st' history_of_def)
  have m: "List.map je_change (xs_entries st') = drop n (drop ?f H)"
    "List.map (\<lambda>e. unat (je_sequence e)) (xs_entries st') = drop n [?f + 1..<length H + 1]"
    using assms(1) by (simp_all add: st' history_of_def drop_map [symmetric] del: upt_Suc)
  show ?thesis
    using f m n le_diff_conv2 [OF history_lengths(2) [OF assms(1)], of n] history_lengths [OF assms(1)] assms(1)
    by (simp add: history_of_def journal_frame_def st' word_le_nat_alt add.commute del: upt_Suc)
qed

lemma history_compact_loop:
  "compact_loop env maximum st = Inr st' \<Longrightarrow> history_of H st \<Longrightarrow> history_of H st' \<and> journal_frame st st'"
proof (induction env maximum st rule: compact_loop.induct)
  case (1 env maximum st)
  show ?case
  proof (cases "xs_entries st = []")
    case True
    then show ?thesis using 1 by (subst (asm) compact_loop.simps) (auto simp: result_simps split: if_splits)
  next
    case False
    obtain n where n: "encoded_state_size env st = Inr n"
      using 1(2) by (subst (asm) compact_loop.simps) (auto simp: result_simps)
    show ?thesis
    proof (cases "n \<le> maximum")
      case True
      then show ?thesis using 1 n by (subst (asm) compact_loop.simps) (auto simp: result_simps)
    next
      case le: False
      obtain taken st1 where t: "reclaim_count (xe_entry_size env) (n - maximum) 0 0 (xs_entries st) = Inr taken"
        and d: "drop_oldest_entries taken st = Inr st1" and c: "compact_loop env maximum st1 = Inr st'"
        using 1(2) n le False by (subst (asm) compact_loop.simps) (auto split: sum.splits)
      have "history_of H st1 \<and> journal_frame st st1" by (rule history_drop [OF 1(3) d])
      moreover from this have "history_of H st' \<and> journal_frame st1 st'"
        using 1(1) [OF le False t d c] by blast
      ultimately show ?thesis using journal_frame_trans by blast
    qed
  qed
qed

lemma history_compact:
  assumes "compact_to_limits env limits st = Inr st'" "history_of H st"
  shows "history_of H st' \<and> journal_frame st st'"
proof -
  obtain st1 where s: "(if xl_maximum_entries limits < length (xs_entries st)
        then drop_oldest_entries (length (xs_entries st) - xl_maximum_entries limits) st else Inr st) = Inr st1"
    and c: "compact_loop env (xl_maximum_state_bytes limits) st1 = Inr st'"
    using assms(1) by (auto simp: compact_to_limits_def and_then_Inr)
  have "history_of H st1 \<and> journal_frame st st1"
    using s assms(2) history_drop [OF assms(2)] by (auto split: if_splits)
  then show ?thesis using history_compact_loop [OF c] journal_frame_trans by blast
qed

lemma history_prune:
  assumes "advance_retention_and_prune_age rng t days st = Inr ((n, deferred), st')" "history_of H st"
  shows "history_of H st'" "xs_delta_generation st' = xs_delta_generation st"
    "xs_materialized_records st' = xs_materialized_records st"
    "xs_retention_clock st' = fst (next_retention_clock rng (xs_retention_clock st) t)"
proof -
  let ?k = "fst (next_retention_clock rng (xs_retention_clock st) t)"
  have h: "history_of H (st\<lparr>xs_retention_clock := ?k\<rparr>)" using assms(2) by (simp add: history_of_def)
  have d: "drop_oldest_entries n (st\<lparr>xs_retention_clock := ?k\<rparr>) = Inr st'"
    using assms(1) by (auto simp: advance_retention_and_prune_age_def Let_def result_simps split: prod.splits)
  show "history_of H st'" "xs_delta_generation st' = xs_delta_generation st"
    "xs_materialized_records st' = xs_materialized_records st" "xs_retention_clock st' = ?k"
    using history_drop [OF h d] by (simp_all add: journal_frame_def)
qed

section \<open>The materialized set\<close>

text \<open>Every record is the result of replaying the history, and its last upsert is that entry of the history.\<close>

definition record_ok :: "change_codec \<Rightarrow> export_change list \<Rightarrow> materialized_record \<Rightarrow> bool" where
  "record_ok decode H r \<longleftrightarrow> 0 < unat (mr_last_upsert_sequence r) \<and> unat (mr_last_upsert_sequence r) \<le> length H
     \<and> replay decode H Map.empty (mr_logical_key r) = Some (H ! (unat (mr_last_upsert_sequence r) - 1))
     \<and> xc_change_id (H ! (unat (mr_last_upsert_sequence r) - 1)) = mr_current_change_id r
     \<and> decode (mr_tombstone r) = Some (mr_logical_key r, False)"

definition records_ok :: "change_codec \<Rightarrow> export_change list \<Rightarrow> materialized_record list \<Rightarrow> bool" where
  "records_ok decode H rs \<longleftrightarrow> distinct (List.map mr_logical_key rs) \<and> list_all (record_ok decode H) rs
     \<and> dom (replay decode H Map.empty) = mr_logical_key ` set rs"

lemma record_okD:
  assumes "record_ok decode H r"
  shows "decode (mr_tombstone r) = Some (mr_logical_key r, False)"
    "decode (H ! (unat (mr_last_upsert_sequence r) - 1)) = Some (mr_logical_key r, True)"
  using assms replay_Some [of decode H Map.empty "mr_logical_key r"] by (auto simp: record_ok_def)

lemma record_ok_extend:
  assumes "record_ok decode H r" "replay decode (H @ cs) Map.empty (mr_logical_key r) = replay decode H Map.empty (mr_logical_key r)"
  shows "record_ok decode (H @ cs) r"
  using assms by (auto simp: record_ok_def nth_append simp del: replay_simps)

lemma records_ok_extend:
  assumes "records_ok decode H rs" "replay decode cs (replay decode H Map.empty) = replay decode H Map.empty"
  shows "records_ok decode (H @ cs) rs"
  using assms record_ok_extend [of decode H _ cs] by (auto simp: records_ok_def list_all_iff)

lemma capture_fold:
  assumes "history_of H st" "list_all (record_ok decode H) rs" "bt_wf m"
    "fold_ok (capture_upsert st) rs m = Inr m'"
  shows "bt_wf m' \<and> (\<forall>k. bt_get m' k = (if k \<in> mr_logical_key ` set rs then replay decode H Map.empty k else bt_get m k))"
  using assms(2-4)
proof (induction rs arbitrary: m)
  case (Cons r rs)
  obtain e where e: "entry_at_sequence st (mr_last_upsert_sequence r) = Some e"
    and f: "fold_ok (capture_upsert st) rs (bt_insert (mr_logical_key r) (je_change e) m) = Inr m'"
    using Cons.prems(3) by (auto simp: and_then_Inr capture_upsert_def [of st r] result_simps)
  have "replay decode H Map.empty (mr_logical_key r) = Some (je_change e)"
    using Cons.prems(1) history_entry_at(3) [OF assms(1) e] by (simp add: record_ok_def)
  then show ?case
    using Cons.IH [OF _ bt_wf_insert [OF Cons.prems(2)] f] Cons.prems by (auto simp: bt_get_insert)
qed simp

lemma capture_is_replay:
  assumes "history_of H st" "records_ok decode H (xs_materialized_records st)" "capture_materialized_upserts st = Inr upserts"
  shows "bt_wf upserts \<and> bt_get upserts = replay decode H Map.empty"
proof -
  have "bt_wf upserts \<and> (\<forall>k. bt_get upserts k = (if k \<in> mr_logical_key ` set (xs_materialized_records st)
      then replay decode H Map.empty k else None))"
    using capture_fold [OF assms(1), of decode "xs_materialized_records st" "[]" upserts] assms(2,3)
    by (simp add: capture_materialized_upserts_def records_ok_def)
  moreover have "k \<notin> mr_logical_key ` set (xs_materialized_records st) \<Longrightarrow> replay decode H Map.empty k = None" for k
    using assms(2) by (auto simp: records_ok_def)
  ultimately show ?thesis by (auto simp: fun_eq_iff)
qed

lemma refresh_records:
  assumes "history_of H st"
    and rs: "records_ok decode H (xs_materialized_records st)"
    and u: "bt_get upserts = replay decode H Map.empty"
    and r: "refresh_materialized_bootstrap_if_needed env limits t upserts pruned st = Inr (out, st')"
  shows "\<exists>cs. history_of (H @ cs) st' \<and> records_ok decode (H @ cs) (xs_materialized_records st')
    \<and> replay decode (H @ cs) Map.empty = replay decode H Map.empty
    \<and> xs_delta_generation st' = xs_delta_generation st \<and> xs_retention_clock st' = xs_retention_clock st"
proof (cases "materialized_bootstrap_is_complete st")
  case True
  then have "st' = st" using r by (simp add: refresh_materialized_bootstrap_if_needed_def)
  then show ?thesis using assms by (intro exI [of _ "[]"]) simp
next
  case False
  let ?rs = "xs_materialized_records st" and ?m = "replay decode H Map.empty"
  obtain cs ss d st1 where cs: "bootstrap_changes upserts ?rs = Inr cs"
    and ap: "append_change_batch t cs AppendDuplicate st = Inr ((ss, d), st1)"
    and len: "length ss = length (xs_materialized_records st1)"
    and c: "compact_to_limits env limits (st1\<lparr>xs_materialized_records := List.map (\<lambda>(r, s). r\<lparr>mr_last_upsert_sequence := s\<rparr>)
        (zip (xs_materialized_records st1) ss)\<rparr>) = Inr st'"
    using r False by (auto simp: refresh_materialized_bootstrap_if_needed_def result_simps Let_def)
  obtain sel where h: "history_of (H @ cs) st1" and f: "journal_frame st st1"
    and ss: "List.map unat ss = [length H + 1..<length H + 1 + length cs]"
    using history_append_batch [OF assms(1) ap] by metis
  have all2: "list_all2 (\<lambda>r c. ?m (mr_logical_key r) = Some c \<and> xc_change_id c = mr_current_change_id r) ?rs cs"
    using cs u by (auto simp: bootstrap_changes_def map_ok_Inr result_simps elim!: list_all2_mono)
  have same: "replay decode cs ?m = ?m"
  proof (rule replay_same)
    show "list_all (\<lambda>c. \<exists>k. decode c = Some (k, True) \<and> ?m k = Some c) cs"
      using all2 replay_Some [of decode H Map.empty] by (fastforce simp: list_all2_conv_all_nth list_all_length)
  qed
  have lens: "length ?rs = length cs" "length ss = length cs"
    using all2 len f by (auto simp: list_all2_lengthD journal_frame_def)
  define rs' where "rs' = List.map (\<lambda>(r, s). r\<lparr>mr_last_upsert_sequence := s\<rparr>) (zip ?rs ss)"
  have keys: "List.map mr_logical_key rs' = List.map mr_logical_key ?rs"
    using lens by (intro nth_equalityI) (simp_all add: rs'_def)
  have "record_ok decode (H @ cs) (rs' ! i)" if i: "i < length cs" for i
  proof -
    have s: "unat (ss ! i) = length H + 1 + i"
      using arg_cong [OF ss, of "\<lambda>l. l ! i"] i lens by (simp del: upt_Suc)
    have "rs' ! i = (?rs ! i)\<lparr>mr_last_upsert_sequence := ss ! i\<rparr>" using i lens by (simp add: rs'_def)
    moreover have "?m (mr_logical_key (?rs ! i)) = Some (cs ! i)" "xc_change_id (cs ! i) = mr_current_change_id (?rs ! i)"
      using all2 i lens by (auto simp: list_all2_conv_all_nth)
    moreover have "decode (mr_tombstone (?rs ! i)) = Some (mr_logical_key (?rs ! i), False)"
      using rs i lens by (auto simp: records_ok_def list_all_length record_ok_def)
    ultimately show ?thesis using s i same by (simp add: record_ok_def nth_append)
  qed
  then have "list_all (record_ok decode (H @ cs)) rs'" using lens by (simp add: list_all_length rs'_def)
  moreover have "mr_logical_key ` set rs' = mr_logical_key ` set ?rs"
    using arg_cong [OF keys, of set] by simp
  ultimately have rs': "records_ok decode (H @ cs) rs'" using rs keys same by (simp add: records_ok_def)
  have "history_of (H @ cs) (st1\<lparr>xs_materialized_records := rs'\<rparr>)" using h by (simp add: history_of_def)
  moreover have "xs_materialized_records st1 = ?rs" using f by (simp add: journal_frame_def)
  ultimately have "history_of (H @ cs) st' \<and> journal_frame (st1\<lparr>xs_materialized_records := rs'\<rparr>) st'"
    using history_compact c by (metis rs'_def)
  then show ?thesis using rs' same f by (intro exI [of _ cs]) (simp add: journal_frame_def)
qed

lemma remove_keys:
  "fold_ok (\<lambda>k m. if bt_get m k = None then Inl MissingUpsert else Inr (bt_remove k m)) ks m = Inr m' \<Longrightarrow>
   bt_get m' = bt_get m |` (- set ks)"
proof (induction ks arbitrary: m)
  case (Cons k ks)
  then have "bt_get m' = bt_get (bt_remove k m) |` (- set ks)" by (auto split: if_splits)
  then show ?case by (auto simp: bt_get_remove restrict_map_def fun_eq_iff)
qed (simp add: restrict_map_def)

lemma expire_records:
  assumes "history_of H st"
    and rs: "records_ok decode H (xs_materialized_records st)"
    and u: "bt_get upserts = replay decode H Map.empty"
    and r: "expire_materialized_records t trusted_at upserts st = Inr ((n, upserts'), st')"
  shows "\<exists>cs. history_of (H @ cs) st' \<and> records_ok decode (H @ cs) (xs_materialized_records st')
    \<and> bt_get upserts' = replay decode (H @ cs) Map.empty
    \<and> replay decode (H @ cs) Map.empty = replay decode H Map.empty
        |` (- mr_logical_key ` {r \<in> set (xs_materialized_records st). mr_expires_at r \<le> trusted_at})
    \<and> xs_delta_generation st' = xs_delta_generation st \<and> xs_retention_clock st' = xs_retention_clock st"
proof (cases "filter (\<lambda>r. mr_expires_at r \<le> trusted_at) (xs_materialized_records st) = []")
  case True
  then have e: "{r \<in> set (xs_materialized_records st). mr_expires_at r \<le> trusted_at} = {}" by (auto simp: filter_empty_conv)
  have "st' = st" "upserts' = upserts" using r True by (simp_all add: expire_materialized_records_def)
  then show ?thesis using assms(1,2) u unfolding e by (intro exI [of _ "[]"]) (simp add: restrict_map_def)
next
  case False
  let ?rs = "xs_materialized_records st" and ?m = "replay decode H Map.empty"
  let ?ex = "filter (\<lambda>r. mr_expires_at r \<le> trusted_at) ?rs"
  let ?ks = "List.map mr_logical_key ?ex" and ?cs = "List.map mr_tombstone ?ex"
  obtain ss d st1 where ap: "append_change_batch t ?cs AppendDuplicate st = Inr ((ss, d), st1)"
    and st': "st' = st1\<lparr>xs_materialized_records := filter (\<lambda>r. mr_logical_key r \<notin> set (remdups ?ks)) (xs_materialized_records st1)\<rparr>"
    and rem: "fold_ok (\<lambda>k m. if bt_get m k = None then Inl MissingUpsert else Inr (bt_remove k m)) (remdups ?ks) upserts = Inr upserts'"
    using r False by (auto simp: expire_materialized_records_def result_simps Let_def)
  have h: "history_of (H @ ?cs) st1" and f: "journal_frame st st1"
    using history_append_batch [OF assms(1) ap] by metis+
  have "list_all2 (\<lambda>c k. decode c = Some (k, False)) ?cs ?ks"
    using rs by (auto simp: records_ok_def list_all_iff record_ok_def list_all2_conv_all_nth dest!: nth_mem)
  then have m: "replay decode (H @ ?cs) Map.empty = ?m |` (- set ?ks)" by (simp add: replay_clear)
  have keys: "mr_logical_key ` {r \<in> set ?rs. mr_expires_at r \<le> trusted_at} = set ?ks" by auto
  have rs1: "xs_materialized_records st' = filter (\<lambda>r. mr_logical_key r \<notin> set ?ks) ?rs"
    using f by (simp add: st' journal_frame_def)
  have "records_ok decode (H @ ?cs) (xs_materialized_records st')"
    unfolding rs1 records_ok_def
  proof (intro conjI)
    show "distinct (List.map mr_logical_key (filter (\<lambda>r. mr_logical_key r \<notin> set ?ks) ?rs))"
      using rs by (simp add: records_ok_def distinct_map_filter)
    show "list_all (record_ok decode (H @ ?cs)) (filter (\<lambda>r. mr_logical_key r \<notin> set ?ks) ?rs)"
      unfolding list_all_iff
    proof
      fix x assume "x \<in> set (filter (\<lambda>r. mr_logical_key r \<notin> set ?ks) ?rs)"
      then have x: "x \<in> set ?rs" "mr_logical_key x \<notin> set ?ks" by auto
      show "record_ok decode (H @ ?cs) x"
        using rs x m by (intro record_ok_extend) (auto simp: records_ok_def list_all_iff restrict_map_def)
    qed
    show "dom (replay decode (H @ ?cs) Map.empty) = mr_logical_key ` set (filter (\<lambda>r. mr_logical_key r \<notin> set ?ks) ?rs)"
      unfolding m using rs by (auto simp: records_ok_def)
  qed
  moreover have "history_of (H @ ?cs) st'" using h by (simp add: st' history_of_def)
  moreover have "bt_get upserts' = ?m |` (- set ?ks)" using remove_keys [OF rem] u by simp
  moreover have "xs_delta_generation st' = xs_delta_generation st \<and> xs_retention_clock st' = xs_retention_clock st"
    using f by (simp add: st' journal_frame_def)
  ultimately show ?thesis unfolding keys using m by (intro exI [of _ ?cs]) simp
qed

text \<open>A state with its history: valid, covered by the history, and materialized from it.\<close>

definition exports_history :: "change_codec \<Rightarrow> export_change list \<Rightarrow> export_state \<Rightarrow> bool" where
  "exports_history decode H st \<longleftrightarrow> history_of H st \<and> records_ok decode H (xs_materialized_records st)"

lemma append_and_compact_history:
  assumes "exports_history decode H st" "list_all (\<lambda>c. decode c = None) changes"
    and r: "append_and_compact env store t changes st = Inr (report, st')"
  shows "\<exists>cs. exports_history decode (H @ cs) st' \<and> xs_delta_generation st' = xs_delta_generation st"
proof -
  let ?m = "replay decode H Map.empty"
  obtain up ss d st1 ac df st2 ex up' st3 st4 rf pr where
    cap: "capture_materialized_upserts st = Inr up"
    and ap: "append_change_batch t changes SkipDuplicate st = Inr ((ss, d), st1)"
    and pr: "advance_retention_and_prune_age (xe_range env) t (xl_retention_days (xt_limits store)) st1 = Inr ((ac, df), st2)"
    and ex: "expire_materialized_records t (rk_trusted_at (xs_retention_clock st2)) up st2 = Inr ((ex, up'), st3)"
    and co: "compact_to_limits env (xt_limits store) st3 = Inr st4"
    and rf: "refresh_materialized_bootstrap_if_needed env (xt_limits store) t up'
        (of_nat (length (xs_entries st3) - length (xs_entries st4))) st4 = Inr ((rf, pr), st')"
    using r by (auto simp: append_and_compact_def result_simps)
  have H: "history_of H st" "records_ok decode H (xs_materialized_records st)"
    using assms(1) by (simp_all add: exports_history_def)
  obtain sel where sel: "history_of (H @ sel) st1" "journal_frame st st1" "set sel \<subseteq> set changes"
    using history_append_batch [OF H(1) ap] by metis
  have same: "replay decode sel ?m = ?m" using sel(3) assms(2) by (intro replay_neutral) (auto simp: list_all_iff)
  have u: "bt_get up = replay decode (H @ sel) Map.empty" using capture_is_replay [OF H cap] same by simp
  have h2: "history_of (H @ sel) st2" and k2: "xs_delta_generation st2 = xs_delta_generation st"
    and r2: "records_ok decode (H @ sel) (xs_materialized_records st2)"
    using history_prune [OF pr sel(1)] sel(2) records_ok_extend [OF H(2) same] by (simp_all add: journal_frame_def)
  obtain cs3 where h3: "history_of ((H @ sel) @ cs3) st3" "records_ok decode ((H @ sel) @ cs3) (xs_materialized_records st3)"
    "bt_get up' = replay decode ((H @ sel) @ cs3) Map.empty" "xs_delta_generation st3 = xs_delta_generation st2"
    using expire_records [OF h2 r2 u ex] by blast
  have h4: "history_of ((H @ sel) @ cs3) st4" "journal_frame st3 st4" using history_compact [OF co h3(1)] by simp_all
  have r4: "records_ok decode ((H @ sel) @ cs3) (xs_materialized_records st4)" using h4(2) h3(2) by (simp add: journal_frame_def)
  obtain cs4 where "history_of (((H @ sel) @ cs3) @ cs4) st'"
    "records_ok decode (((H @ sel) @ cs3) @ cs4) (xs_materialized_records st')" "xs_delta_generation st' = xs_delta_generation st4"
    using refresh_records [OF h4(1) r4 h3(3) rf] by blast
  then show ?thesis using k2 h3(4) h4(2)
    by (intro exI [of _ "sel @ cs3 @ cs4"]) (simp add: exports_history_def journal_frame_def del: replay_simps)
qed

section \<open>Reconciliation\<close>

text \<open>What a reconciliation has to reach: expired records are gone, omitted ones only in the authoritative mode.\<close>

definition reconcile_target ::
  "reconcile_mode \<Rightarrow> datetime \<Rightarrow> materialized_record list \<Rightarrow> desired_record list \<Rightarrow> replica \<Rightarrow> replica" where
  "reconcile_target mode trusted_at old desired m k =
    (case List.find (\<lambda>r. mr_logical_key r = k) old of
       Some r \<Rightarrow> if mr_expires_at r \<le> trusted_at then None
         else (case List.find (\<lambda>d. dr_logical_key d = k) desired of
             Some d \<Rightarrow> Some (dr_upsert d)
           | None \<Rightarrow> if mode = Authoritative then None else m k)
     | None \<Rightarrow> (case List.find (\<lambda>d. dr_logical_key d = k) desired of
           Some d \<Rightarrow> if trusted_at < dr_expires_at d then Some (dr_upsert d) else None
         | None \<Rightarrow> None))"

definition desired_decodes :: "change_codec \<Rightarrow> desired_record \<Rightarrow> bool" where
  "desired_decodes decode d \<longleftrightarrow> decode (dr_upsert d) = Some (dr_logical_key d, True)
     \<and> decode (dr_tombstone d) = Some (dr_logical_key d, False)"

definition pending_key :: "pending_record \<Rightarrow> string" where
  "pending_key p = mr_logical_key (pn_stored p)"

definition pending_map :: "pending_record list \<Rightarrow> replica" where
  "pending_map P = map_of (List.map (\<lambda>p. (pending_key p, pn_upsert p)) P)"

definition pending_ok :: "change_codec \<Rightarrow> export_change list \<Rightarrow> reconcile_transition list \<Rightarrow> pending_record \<Rightarrow> bool" where
  "pending_ok decode H T p \<longleftrightarrow> decode (mr_tombstone (pn_stored p)) = Some (pending_key p, False)
     \<and> xc_change_id (pn_upsert p) = mr_current_change_id (pn_stored p)
     \<and> (case pn_transition p of
          None \<Rightarrow> 0 < unat (mr_last_upsert_sequence (pn_stored p)) \<and> unat (mr_last_upsert_sequence (pn_stored p)) \<le> length H
            \<and> H ! (unat (mr_last_upsert_sequence (pn_stored p)) - 1) = pn_upsert p
        | Some i \<Rightarrow> i < length T \<and> rt_change (T ! i) = pn_upsert p)"

text \<open>The merge has handled the keys \<open>K\<close>: its transitions lead there to the pending records.\<close>

definition merge_inv :: "change_codec \<Rightarrow> export_change list \<Rightarrow> string set \<Rightarrow> merge_state \<Rightarrow> bool" where
  "merge_inv decode H K = (\<lambda>(T, P).
     (\<forall>t\<in>set T. \<exists>k\<in>K. mentions decode k (rt_change t)) \<and> pending_key ` set P \<subseteq> K \<and> distinct (List.map pending_key P)
     \<and> (\<forall>p\<in>set P. pending_ok decode H T p)
     \<and> (\<forall>k\<in>K. replay decode (List.map rt_change T) (replay decode H Map.empty) k = pending_map P k))"

lemma pending_map_None: "k \<notin> pending_key ` set P \<Longrightarrow> pending_map P k = None"
  by (simp add: pending_map_def map_of_eq_None_iff image_image)

lemma pending_map_append: "pending_key p \<notin> pending_key ` set P \<Longrightarrow> pending_map (P @ [p]) = (pending_map P)(pending_key p \<mapsto> pn_upsert p)"
  using pending_map_None [of "pending_key p" P]
  by (auto simp: pending_map_def map_add_def fun_eq_iff split: option.splits)

lemma pending_ok_append: "pending_ok decode H T p \<Longrightarrow> pending_ok decode H (T @ [t]) p"
  by (auto simp: pending_ok_def nth_append split: option.splits)

lemma mentions_unique: "mentions decode k c \<Longrightarrow> mentions decode k' c \<Longrightarrow> k = k'"
  by (auto simp: mentions_def split: option.splits)

lemma merge_inv_untouched:
  assumes "merge_inv decode H K (T, P)" "k \<notin> K"
  shows "replay decode (List.map rt_change T) m k = m k"
proof (rule replay_untouched)
  show "list_all (\<lambda>c. \<not> mentions decode k c) (List.map rt_change T)"
    using assms by (auto simp: merge_inv_def list_all_iff dest: mentions_unique)
qed

lemma merge_inv_fresh: "merge_inv decode H K (T, P) \<Longrightarrow> k \<notin> K \<Longrightarrow> pending_map P k = None"
  by (rule pending_map_None) (auto simp: merge_inv_def)

lemma merge_inv_tombstone:
  assumes "merge_inv decode H K (T, P)" "k \<notin> K" "decode (rt_change t) = Some (k, False)"
  shows "merge_inv decode H (Set.insert k K) (T @ [t], P)"
  using assms merge_inv_fresh [OF assms(1,2)]
  by (auto simp: merge_inv_def mentions_def apply_change_def intro: pending_ok_append)

lemma merge_inv_upsert:
  assumes "merge_inv decode H K (T, P)" "k \<notin> K" "decode (rt_change t) = Some (k, True)"
    "pending_key p = k" "pn_upsert p = rt_change t" "pn_transition p = Some (length T)"
    "decode (mr_tombstone (pn_stored p)) = Some (k, False)" "xc_change_id (rt_change t) = mr_current_change_id (pn_stored p)"
  shows "merge_inv decode H (Set.insert k K) (T @ [t], P @ [p]) \<and> pending_map (P @ [p]) = (pending_map P)(k \<mapsto> rt_change t)"
proof -
  have p: "pending_ok decode H (T @ [t]) p" using assms(4-8) by (simp add: pending_ok_def)
  have m: "pending_map (P @ [p]) = (pending_map P)(k \<mapsto> rt_change t)"
    using assms pending_map_append [of p P] by (auto simp: merge_inv_def)
  show ?thesis using assms p m by (auto simp: merge_inv_def mentions_def apply_change_def intro: pending_ok_append)
qed

lemma merge_inv_keep:
  assumes "merge_inv decode H K (T, P)" "k \<notin> K" "replay decode H Map.empty k = Some (pn_upsert p)"
    "pending_key p = k" "pn_transition p = None" "pending_ok decode H T p"
  shows "merge_inv decode H (Set.insert k K) (T, P @ [p]) \<and> pending_map (P @ [p]) = (pending_map P)(k \<mapsto> pn_upsert p)"
proof -
  have m: "pending_map (P @ [p]) = (pending_map P)(k \<mapsto> pn_upsert p)"
    using assms pending_map_append [of p P] by (auto simp: merge_inv_def)
  show ?thesis
    using assms m merge_inv_untouched [OF assms(1,2), of "replay decode H Map.empty"] by (auto simp: merge_inv_def)
qed

lemma merge_inv_skip:
  assumes "merge_inv decode H K (T, P)" "k \<notin> K" "replay decode H Map.empty k = None"
  shows "merge_inv decode H (Set.insert k K) (T, P)"
  using assms merge_inv_untouched [OF assms(1,2), of "replay decode H Map.empty"] merge_inv_fresh [OF assms(1,2)]
  by (auto simp: merge_inv_def)

text \<open>One step of the merge handles the key \<open>k\<close> and leaves \<open>x\<close> there.\<close>

definition merge_handles ::
  "change_codec \<Rightarrow> export_change list \<Rightarrow> string set \<Rightarrow> string \<Rightarrow> export_change option \<Rightarrow> merge_state \<Rightarrow> merge_state \<Rightarrow> bool" where
  "merge_handles decode H K k x acc acc' \<longleftrightarrow>
     merge_inv decode H (Set.insert k K) acc' \<and> pending_map (snd acc') = (pending_map (snd acc))(k := x)"

lemma merge_expired_handles:
  assumes "merge_inv decode H K acc" "mr_logical_key r \<notin> K" "record_ok decode H r"
  shows "merge_handles decode H K (mr_logical_key r) None acc (merge_expired_old_record r acc)"
proof -
  obtain T P where acc: "acc = (T, P)" by (cases acc)
  have "pending_map P (mr_logical_key r) = None" using assms(1,2) unfolding acc by (rule merge_inv_fresh)
  then show ?thesis
    using assms merge_inv_tombstone [of decode H K T P "mr_logical_key r"] record_okD [OF assms(3)]
    by (auto simp: merge_handles_def acc merge_expired_old_record_def fun_upd_idem)
qed

lemma merge_omitted_handles:
  assumes "merge_inv decode H K acc" "mr_logical_key r \<notin> K" "record_ok decode H r" "history_of H st"
    "bt_get upserts = replay decode H Map.empty" "merge_omitted_old_record st upserts mode r acc = Inr acc'"
  shows "merge_handles decode H K (mr_logical_key r) (if mode = Authoritative then None else replay decode H Map.empty (mr_logical_key r))
    acc acc'"
proof -
  obtain T P where acc: "acc = (T, P)" by (cases acc)
  have none: "pending_map P (mr_logical_key r) = None" using assms(1,2) unfolding acc by (rule merge_inv_fresh)
  have r: "replay decode H Map.empty (mr_logical_key r) = Some (H ! (unat (mr_last_upsert_sequence r) - 1))"
    "xc_change_id (H ! (unat (mr_last_upsert_sequence r) - 1)) = mr_current_change_id r"
    "0 < unat (mr_last_upsert_sequence r)" "unat (mr_last_upsert_sequence r) \<le> length H"
    using assms(3) by (simp_all add: record_ok_def)
  note inv = assms(1) [unfolded acc] and dec = record_okD [OF assms(3)]
  show ?thesis
  proof (cases "mode = Authoritative")
    case True
    then show ?thesis using assms(6) none inv assms(2) dec merge_inv_tombstone [of decode H K T P "mr_logical_key r"]
      by (auto simp: merge_handles_def acc merge_omitted_old_record_def fun_upd_idem)
  next
    case False
    let ?u = "H ! (unat (mr_last_upsert_sequence r) - 1)"
    show ?thesis
    proof (cases "upsert_retained st r")
      case True
      have "pending_ok decode H T \<lparr>pn_stored = r, pn_upsert = ?u, pn_transition = None\<rparr>"
        using r dec by (simp add: pending_ok_def pending_key_def)
      then show ?thesis
        using assms(5,6) False True r inv assms(2)
          merge_inv_keep [of decode H K T P "mr_logical_key r" "\<lparr>pn_stored = r, pn_upsert = ?u, pn_transition = None\<rparr>"]
        by (auto simp: merge_handles_def acc merge_omitted_old_record_def result_simps Let_def pending_key_def)
    next
      case nr: False
      show ?thesis
        using assms(5,6) False nr r inv assms(2) dec
          merge_inv_upsert [of decode H K T P "mr_logical_key r"
            "\<lparr>rt_kind = UpsertTransition, rt_bootstrap = True, rt_change = ?u\<rparr>"
            "\<lparr>pn_stored = r, pn_upsert = ?u, pn_transition = Some (length T)\<rparr>"]
        by (auto simp: merge_handles_def acc merge_omitted_old_record_def result_simps Let_def pending_key_def)
    qed
  qed
qed

lemma merge_desired_handles:
  assumes "merge_inv decode H K acc" "dr_logical_key d \<notin> K" "desired_decodes decode d" "history_of H st"
    and old: "\<And>r. old = Some r \<Longrightarrow> record_ok decode H r \<and> mr_logical_key r = dr_logical_key d"
    and owner: "\<And>r. old = Some r \<Longrightarrow> mr_current_change_id r = xc_change_id (dr_upsert d)
      \<Longrightarrow> replay decode H Map.empty (dr_logical_key d) = Some (dr_upsert d)"
  shows "merge_handles decode H K (dr_logical_key d) (Some (dr_upsert d)) acc (merge_desired_record st old d acc)"
proof -
  obtain T P where acc: "acc = (T, P)" by (cases acc)
  define stored where "stored = \<lparr>mr_logical_key = dr_logical_key d, mr_expires_at = dr_expires_at d,
    mr_current_change_id = xc_change_id (dr_upsert d),
    mr_last_upsert_sequence = (case old of None \<Rightarrow> 1 | Some r \<Rightarrow> mr_last_upsert_sequence r), mr_tombstone = dr_tombstone d\<rparr>"
  note inv = assms(1) [unfolded acc]
  show ?thesis
  proof (cases "\<exists>r. old = Some r \<and> mr_current_change_id r = xc_change_id (dr_upsert d) \<and> upsert_retained st r")
    case True
    then obtain r where r: "old = Some r" "mr_current_change_id r = xc_change_id (dr_upsert d)" "upsert_retained st r" by blast
    have u: "replay decode H Map.empty (dr_logical_key d) = Some (dr_upsert d)" using owner r by blast
    let ?p = "\<lparr>pn_stored = stored, pn_upsert = dr_upsert d, pn_transition = None\<rparr>"
    have "pending_ok decode H T ?p"
      using old [OF r(1)] u assms(3) by (auto simp: pending_ok_def pending_key_def stored_def r(1) record_ok_def desired_decodes_def)
    moreover have "merge_desired_record st old d acc = (T, P @ [?p])"
      using r by (simp add: merge_desired_record_def acc stored_def)
    ultimately show ?thesis
      using merge_inv_keep [OF inv assms(2), of ?p] u by (simp add: merge_handles_def acc pending_key_def stored_def)
  next
    case False
    define t where "t = \<lparr>rt_kind = UpsertTransition,
      rt_bootstrap = (case old of None \<Rightarrow> False | Some r \<Rightarrow> mr_current_change_id r = xc_change_id (dr_upsert d)),
      rt_change = dr_upsert d\<rparr>"
    let ?p = "\<lparr>pn_stored = stored, pn_upsert = dr_upsert d, pn_transition = Some (length T)\<rparr>"
    have "merge_desired_record st old d acc = (T @ [t], P @ [?p])"
      using False by (auto simp: merge_desired_record_def acc stored_def t_def split: option.splits)
    then show ?thesis
      using merge_inv_upsert [OF inv assms(2), of t ?p] assms(3)
      by (simp add: merge_handles_def acc pending_key_def stored_def t_def desired_decodes_def)
  qed
qed

lemma find_key_fresh: "k \<notin> f ` set xs \<Longrightarrow> List.find (\<lambda>x. f x = k) xs = None"
  by (auto simp: find_None_iff)

lemma merge_target_old:
  assumes "k \<noteq> mr_logical_key r"
  shows "reconcile_target mode t (r # rs) ds m k = reconcile_target mode t rs ds m k"
  using assms by (simp add: reconcile_target_def)

lemma merge_target_new:
  assumes "k \<noteq> dr_logical_key d"
  shows "reconcile_target mode t rs (d # ds) m k = reconcile_target mode t rs ds m k"
  using assms by (simp add: reconcile_target_def split: option.split)

text \<open>What the ownership check gives: an unchanged identity is the unchanged content.\<close>

definition owned :: "change_codec \<Rightarrow> export_change list \<Rightarrow> materialized_record list \<Rightarrow> desired_record list \<Rightarrow> bool" where
  "owned decode H rs ds \<longleftrightarrow> (\<forall>r\<in>set rs. \<forall>d\<in>set ds. mr_logical_key r = dr_logical_key d
     \<longrightarrow> mr_current_change_id r = xc_change_id (dr_upsert d)
     \<longrightarrow> replay decode H Map.empty (dr_logical_key d) = Some (dr_upsert d))"

definition merge_ready ::
  "change_codec \<Rightarrow> export_change list \<Rightarrow> materialized_record list \<Rightarrow> desired_record list \<Rightarrow> string set \<Rightarrow> bool" where
  "merge_ready decode H rs ds K \<longleftrightarrow> sorted_wrt (<) (List.map mr_logical_key rs) \<and> sorted_wrt (<) (List.map dr_logical_key ds)
     \<and> list_all (record_ok decode H) rs \<and> list_all (desired_decodes decode) ds \<and> owned decode H rs ds
     \<and> dom (replay decode H Map.empty) \<subseteq> K \<union> mr_logical_key ` set rs
     \<and> K \<inter> (mr_logical_key ` set rs \<union> dr_logical_key ` set ds) = {}"

lemma merge_old_handles:
  assumes "merge_inv decode H K acc" "mr_logical_key r \<notin> K" "record_ok decode H r" "history_of H st"
    "bt_get upserts = replay decode H Map.empty" "merge_old st upserts mode t r acc = Inr acc'"
    "mr_logical_key r \<notin> dr_logical_key ` set ds"
  shows "merge_handles decode H K (mr_logical_key r)
    (reconcile_target mode t (r # rs) ds (replay decode H Map.empty) (mr_logical_key r)) acc acc'"
  using assms merge_omitted_handles [OF assms(1-5), of mode acc'] merge_expired_handles [OF assms(1-3)]
    find_key_fresh [OF assms(7)]
  by (auto simp: merge_old_def reconcile_target_def split: if_splits)

lemma merge_new_handles:
  assumes "merge_inv decode H K acc" "dr_logical_key d \<notin> K" "desired_decodes decode d" "history_of H st"
    "replay decode H Map.empty (dr_logical_key d) = None" "dr_logical_key d \<notin> mr_logical_key ` set rs"
  shows "merge_handles decode H K (dr_logical_key d)
    (reconcile_target mode t rs (d # ds) (replay decode H Map.empty) (dr_logical_key d)) acc (merge_new st t d acc)"
proof (cases "t < dr_expires_at d")
  case True
  then show ?thesis using merge_desired_handles [OF assms(1-4), of None] find_key_fresh [OF assms(6)]
    by (simp add: merge_new_def reconcile_target_def)
next
  case False
  obtain T P where acc: "acc = (T, P)" by (cases acc)
  show ?thesis
    using False find_key_fresh [OF assms(6)] merge_inv_skip [OF assms(1) [unfolded acc] assms(2,5)]
      merge_inv_fresh [OF assms(1) [unfolded acc] assms(2)]
    by (simp add: merge_new_def reconcile_target_def merge_handles_def acc fun_upd_idem)
qed

lemma merge_both_handles:
  assumes "merge_inv decode H K acc" "mr_logical_key r \<notin> K" "record_ok decode H r" "history_of H st"
    "desired_decodes decode d" "mr_logical_key r = dr_logical_key d"
    "mr_current_change_id r = xc_change_id (dr_upsert d) \<Longrightarrow> replay decode H Map.empty (dr_logical_key d) = Some (dr_upsert d)"
  shows "merge_handles decode H K (mr_logical_key r)
    (reconcile_target mode t (r # rs) (d # ds) (replay decode H Map.empty) (mr_logical_key r)) acc
    (if mr_expires_at r \<le> t then merge_expired_old_record r acc else merge_desired_record st (Some r) d acc)"
  using merge_expired_handles [OF assms(1-3)] merge_desired_handles [OF assms(1) _ assms(5,4), of "Some r"] assms(2,3,6,7)
  by (simp add: reconcile_target_def)

text \<open>A step that handles a key and the rest of the merge compose.\<close>

lemma merge_compose:
  assumes "merge_handles decode H K k x acc acc1"
    "merge_inv decode H (Set.insert k K \<union> A) acc'"
    "\<And>j. j \<in> A \<Longrightarrow> pending_map (snd acc') j = f j" "\<And>j. j \<in> Set.insert k K \<Longrightarrow> pending_map (snd acc') j = pending_map (snd acc1) j"
    "k \<notin> K" "k \<notin> A" "x = g k" "\<And>j. j \<noteq> k \<Longrightarrow> f j = g j" "B = Set.insert k A" 
  shows "merge_inv decode H (K \<union> B) acc' \<and> (\<forall>j\<in>B. pending_map (snd acc') j = g j)
    \<and> (\<forall>j\<in>K. pending_map (snd acc') j = pending_map (snd acc) j)"
proof -
  have "K \<union> B = Set.insert k K \<union> A" using assms(9) by auto
  then show ?thesis using assms unfolding merge_handles_def by (metis fun_upd_apply insert_iff)
qed

lemma merge_records_reach:
  assumes "merge_records st upserts mode t rs ds acc = Inr acc'" "merge_inv decode H K acc"
    "merge_ready decode H rs ds K" "history_of H st" "bt_get upserts = replay decode H Map.empty"
  shows "merge_inv decode H (K \<union> (mr_logical_key ` set rs \<union> dr_logical_key ` set ds)) acc'
    \<and> (\<forall>k\<in>mr_logical_key ` set rs \<union> dr_logical_key ` set ds.
        pending_map (snd acc') k = reconcile_target mode t rs ds (replay decode H Map.empty) k)
    \<and> (\<forall>k\<in>K. pending_map (snd acc') k = pending_map (snd acc) k)"
  using assms
proof (induction st upserts mode t rs ds acc arbitrary: K rule: merge_records.induct)
  case (1 st upserts mode t acc)
  then show ?case by simp
next
  case (2 st upserts mode t r rs acc)
  obtain a where a: "merge_old st upserts mode t r acc = Inr a" "merge_records st upserts mode t rs [] a = Inr acc'"
    using "2.prems"(1) by (auto simp: result_simps)
  let ?k = "mr_logical_key r"
  have k: "?k \<notin> K" "record_ok decode H r" "?k \<notin> mr_logical_key ` set rs"
    using "2.prems"(3) by (auto simp: merge_ready_def)
  have h: "merge_handles decode H K ?k (reconcile_target mode t (r # rs) [] (replay decode H Map.empty) ?k) acc a"
    by (rule merge_old_handles [OF "2.prems"(2) k(1,2) "2.prems"(4,5) a(1)]) simp
  have ready: "merge_ready decode H rs [] (Set.insert ?k K)" using "2.prems"(3) k(3) by (auto simp: merge_ready_def owned_def)
  have inv: "merge_inv decode H (Set.insert ?k K) a" using h by (simp add: merge_handles_def)
  show ?case
    using "2.IH" [OF a(2) inv ready "2.prems"(4,5)] k by (intro merge_compose [OF h]) (auto simp: merge_target_old)
next
  case (3 st upserts mode t d ds acc)
  let ?k = "dr_logical_key d"
  have k: "?k \<notin> K" "desired_decodes decode d" "?k \<notin> dr_logical_key ` set ds" "replay decode H Map.empty ?k = None"
    using "3.prems"(3) by (auto simp: merge_ready_def)
  have h: "merge_handles decode H K ?k (reconcile_target mode t [] (d # ds) (replay decode H Map.empty) ?k) acc (merge_new st t d acc)"
    by (rule merge_new_handles [OF "3.prems"(2) k(1,2) "3.prems"(4) k(4)]) simp
  have ready: "merge_ready decode H [] ds (Set.insert ?k K)" using "3.prems"(3) k(3) by (auto simp: merge_ready_def owned_def)
  have inv: "merge_inv decode H (Set.insert ?k K) (merge_new st t d acc)" using h by (simp add: merge_handles_def)
  show ?case
    using "3.IH" [OF _ inv ready "3.prems"(4,5)] "3.prems"(1) k by (intro merge_compose [OF h]) (auto simp: merge_target_new)
next
  case (4 st upserts mode t r rs d ds acc)
  have k: "mr_logical_key r \<notin> K" "dr_logical_key d \<notin> K" "record_ok decode H r" "desired_decodes decode d"
    "mr_logical_key r \<notin> mr_logical_key ` set rs" "dr_logical_key d \<notin> dr_logical_key ` set ds"
    using "4.prems"(3) by (auto simp: merge_ready_def)
  consider (less) "mr_logical_key r < dr_logical_key d" | (eq) "mr_logical_key r = dr_logical_key d"
    | (greater) "dr_logical_key d < mr_logical_key r" by (rule linorder_cases)
  then show ?case
  proof cases
    case less
    let ?k = "mr_logical_key r"
    obtain a where a: "merge_old st upserts mode t r acc = Inr a" "merge_records st upserts mode t rs (d # ds) a = Inr acc'"
      using "4.prems"(1) less by (auto simp: result_simps)
    have f: "?k \<notin> dr_logical_key ` set (d # ds)" using less "4.prems"(3) by (fastforce simp: merge_ready_def)
    note h = merge_old_handles [OF "4.prems"(2) k(1,3) "4.prems"(4,5) a(1) f, of rs]
    have ready: "merge_ready decode H rs (d # ds) (Set.insert ?k K)"
      using "4.prems"(3) k(5) f by (auto simp: merge_ready_def owned_def)
    have inv: "merge_inv decode H (Set.insert ?k K) a" using h by (simp add: merge_handles_def)
    show ?thesis
      using "4.IH"(1) [OF less a(2) inv ready "4.prems"(4,5)] k f
      by (intro merge_compose [OF h, where A = "mr_logical_key ` set rs \<union> dr_logical_key ` set (d # ds)"])
        (auto simp: merge_target_old)
  next
    case eq
    let ?k = "mr_logical_key r"
    let ?a = "if mr_expires_at r \<le> t then merge_expired_old_record r acc else merge_desired_record st (Some r) d acc"
    have "mr_current_change_id r = xc_change_id (dr_upsert d) \<Longrightarrow> replay decode H Map.empty (dr_logical_key d) = Some (dr_upsert d)"
      using "4.prems"(3) eq by (auto simp: merge_ready_def owned_def)
    note h = merge_both_handles [OF "4.prems"(2) k(1,3) "4.prems"(4) k(4) eq this, of mode t rs ds]
    have ready: "merge_ready decode H rs ds (Set.insert ?k K)"
      using "4.prems"(3) k(5,6) eq by (auto simp: merge_ready_def owned_def)
    have inv: "merge_inv decode H (Set.insert ?k K) ?a" using h by (simp add: merge_handles_def)
    have m: "merge_records st upserts mode t rs ds ?a = Inr acc'" using "4.prems"(1) eq by simp
    show ?thesis
      using "4.IH"(2) [OF _ eq m inv ready "4.prems"(4,5)] k eq
      by (intro merge_compose [OF h, where A = "mr_logical_key ` set rs \<union> dr_logical_key ` set ds"])
        (auto simp: merge_target_old merge_target_new)
  next
    case greater
    let ?k = "dr_logical_key d"
    have f: "?k \<notin> mr_logical_key ` set (r # rs)" using greater "4.prems"(3) by (fastforce simp: merge_ready_def)
    have none: "replay decode H Map.empty ?k = None" using "4.prems"(3) f k(2) by (auto simp: merge_ready_def)
    note h = merge_new_handles [OF "4.prems"(2) k(2,4) "4.prems"(4) none f, of mode t ds]
    have ready: "merge_ready decode H (r # rs) ds (Set.insert ?k K)"
      using "4.prems"(3) k(6) f by (auto simp: merge_ready_def owned_def)
    have inv: "merge_inv decode H (Set.insert ?k K) (merge_new st t d acc)" using h by (simp add: merge_handles_def)
    have m: "merge_records st upserts mode t (r # rs) ds (merge_new st t d acc) = Inr acc'" using "4.prems"(1) less_imp_not_less [OF greater] less_imp_not_eq2 [OF greater] by simp
    show ?thesis
      using "4.IH"(3) [OF _ _ m inv ready "4.prems"(4,5)] k f greater
      by (intro merge_compose [OF h, where A = "mr_logical_key ` set (r # rs) \<union> dr_logical_key ` set ds"])
        (auto simp: merge_target_new)
  qed
qed

lemma sorted_by_fold:
  assumes "fold_ok f xs (previous, z) = Inr out"
    and step: "\<And>x p o1 p' o2. f x (p, o1) = Inr (p', o2) \<Longrightarrow> p' = Some (key x) \<and> (\<forall>k. p = Some k \<longrightarrow> k < key x)"
  shows "sorted_wrt (<) (List.map key xs) \<and> (\<forall>k. previous = Some k \<longrightarrow> (\<forall>x\<in>set xs. k < (key x :: string)))"
  using assms(1)
proof (induction xs arbitrary: previous z)
  case (Cons x xs)
  then obtain p o2 where s: "f x (previous, z) = Inr (p, o2)" and r: "fold_ok f xs (p, o2) = Inr out"
    by (auto simp: result_simps)
  then show ?case using Cons.IH [OF r] step [OF s] by (auto intro: less_trans)
qed simp

lemma valid_records_sorted:
  assumes "state_validate rng store st = Inr ()"
  shows "sorted_wrt (<) (List.map mr_logical_key (xs_materialized_records st))"
proof (cases "xs_entries st = []")
  case True
  then show ?thesis using assms by (simp add: state_validate_def result_simps)
next
  case False
  then obtain ids out where f: "fold_ok (validate_materialized_record st ids) (xs_materialized_records st) (None, []) = Inr out"
    using assms by (auto simp: state_validate_def validate_materialized_records_def result_simps split: prod.splits)
  show ?thesis
    by (rule conjunct1 [OF sorted_by_fold [OF f, of mr_logical_key]])
      (auto simp: validate_materialized_record_def result_simps split: option.splits)
qed

lemma desired_sorted:
  assumes "validate_desired_records ds = Inr ()"
  shows "sorted_wrt (<) (List.map dr_logical_key ds)"
proof -
  obtain out where f: "fold_ok validate_desired_record ds (None, []) = Inr out"
    using assms by (auto simp: validate_desired_records_def result_simps)
  show ?thesis
    by (rule conjunct1 [OF sorted_by_fold [OF f, of dr_logical_key]])
      (auto simp: validate_desired_record_def result_simps split: option.splits)
qed

lemma old_owners_fold:
  assumes "bt_wf m"
  shows "bt_wf (fold (\<lambda>r m. bt_insert (xc_change_id (mr_tombstone r)) (r, TombstoneRole)
      (bt_insert (mr_current_change_id r) (r, UpsertRole) m)) rs m)
    \<and> (\<forall>i. bt_get m i \<noteq> None \<or> i \<in> mr_current_change_id ` set rs \<longrightarrow>
       bt_get (fold (\<lambda>r m. bt_insert (xc_change_id (mr_tombstone r)) (r, TombstoneRole)
      (bt_insert (mr_current_change_id r) (r, UpsertRole) m)) rs m) i \<noteq> None)"
  using assms
proof (induction rs arbitrary: m)
  case (Cons r rs)
  let ?m = "bt_insert (xc_change_id (mr_tombstone r)) (r, TombstoneRole) (bt_insert (mr_current_change_id r) (r, UpsertRole) m)"
  have wf: "bt_wf ?m" using Cons.prems by (simp add: bt_wf_insert)
  have "bt_get m i \<noteq> None \<or> i = mr_current_change_id r \<Longrightarrow> bt_get ?m i \<noteq> None" for i
    using Cons.prems by (auto simp: bt_get_insert bt_wf_insert)
  then show ?case using Cons.IH [OF wf] by auto
qed simp

lemma ownership_owned:
  assumes "validate_reconcile_change_ownership rs upserts ds = Inr ()" "bt_get upserts = replay decode H Map.empty"
  shows "owned decode H rs ds"
  unfolding owned_def
proof (intro ballI impI)
  fix r d assume r: "r \<in> set rs" and d: "d \<in> set ds" and k: "mr_logical_key r = dr_logical_key d"
    and i: "mr_current_change_id r = xc_change_id (dr_upsert d)"
  obtain old role where o: "bt_get (old_owners rs) (xc_change_id (dr_upsert d)) = Some (old, role)"
    using old_owners_fold [of "[]" rs] r i unfolding old_owners_def by fastforce
  have "check_change_owner (old_owners rs) upserts (dr_logical_key d) (dr_upsert d) UpsertRole = Inr ()"
    using assms(1) d by (auto simp: validate_reconcile_change_ownership_def Let_def result_simps)
  then have "bt_get upserts (dr_logical_key d) = Some (dr_upsert d)"
    using o by (auto simp: check_change_owner_def result_simps)
  then show "replay decode H Map.empty (dr_logical_key d) = Some (dr_upsert d)" using assms(2) by simp
qed

lemma active_upserts:
  assumes "bt_wf m" "distinct (List.map pending_key P)"
  shows "bt_get (fold (\<lambda>p. bt_insert (mr_logical_key (pn_stored p)) (pn_upsert p)) P m) = bt_get m ++ pending_map P"
  using assms
proof (induction P arbitrary: m)
  case (Cons p P)
  have "bt_get (bt_insert (pending_key p) (pn_upsert p) m) ++ pending_map P = bt_get m ++ pending_map (p # P)"
    using Cons.prems pending_map_None [of "pending_key p" P]
    by (auto simp: fun_eq_iff map_add_def bt_get_insert pending_map_def split: option.splits)
  then show ?case using Cons by (simp add: bt_wf_insert pending_key_def)
qed (simp add: pending_map_def)

lemma assign_sequence_key [simp]:
  "mr_logical_key (pn_stored (assign_sequence ss p)) = pending_key p" "pending_key (assign_sequence ss p) = pending_key p"
  "pn_upsert (assign_sequence ss p) = pn_upsert p"
  by (simp_all add: assign_sequence_def pending_key_def split: option.split)

lemma pending_records_ok:
  assumes inv: "merge_inv decode H K (T, P)" and dom: "dom (replay decode H Map.empty) \<subseteq> K"
    and ss: "List.map unat ss = [length H + 1..<length H + 1 + length T]"
  shows "replay decode (H @ List.map rt_change T) Map.empty = pending_map P"
    "records_ok decode (H @ List.map rt_change T) (List.map pn_stored (List.map (assign_sequence ss) P))"
proof -
  let ?H = "H @ List.map rt_change T"
  have m: "replay decode ?H Map.empty k = pending_map P k" for k
  proof (cases "k \<in> K")
    case True then show ?thesis using inv by (simp add: merge_inv_def)
  next
    case False
    then show ?thesis
      using merge_inv_untouched [OF inv False, of "replay decode H Map.empty"] merge_inv_fresh [OF inv False] dom by auto
  qed
  then show eq: "replay decode ?H Map.empty = pending_map P" by auto
  have "record_ok decode ?H (pn_stored (assign_sequence ss p))" if p: "p \<in> set P" for p
  proof -
    have u: "pending_map P (pending_key p) = Some (pn_upsert p)"
      using inv p unfolding pending_map_def by (intro map_of_is_SomeI) (auto simp: merge_inv_def comp_def)
    have ok: "pending_ok decode H T p" using inv p by (simp add: merge_inv_def)
    show ?thesis
    proof (cases "pn_transition p")
      case None
      then show ?thesis using ok u eq
        by (auto simp: pending_ok_def record_ok_def assign_sequence_def nth_append pending_key_def simp del: replay_simps)
    next
      case (Some i)
      then have i: "i < length T" using ok by (simp add: pending_ok_def)
      have "length ss = length T" using arg_cong [OF ss, of length] by (simp del: upt_Suc)
      then have s: "unat (ss ! i) = length H + 1 + i" using arg_cong [OF ss, of "\<lambda>l. l ! i"] i by (simp del: upt_Suc)
      show ?thesis using ok u eq Some s i
        by (auto simp: pending_ok_def record_ok_def assign_sequence_def nth_append pending_key_def simp del: replay_simps)
    qed
  qed
  then have all: "list_all (record_ok decode ?H) (List.map pn_stored (List.map (assign_sequence ss) P))"
    by (auto simp: list_all_iff)
  have "distinct (List.map pending_key P)" using inv by (simp add: merge_inv_def)
  moreover have "dom (pending_map P) = pending_key ` set P" by (auto simp: pending_map_def dom_map_of_conv_image_fst image_image)
  ultimately show "records_ok decode ?H (List.map pn_stored (List.map (assign_sequence ss) P))"
    using all eq by (simp add: records_ok_def comp_def image_image del: replay_simps)
qed

lemma reconcile_merge:
  assumes H: "history_of H st1" "records_ok decode H rs" and u: "bt_get up = replay decode H Map.empty"
    and sorted: "sorted_wrt (<) (List.map mr_logical_key rs)" "sorted_wrt (<) (List.map dr_logical_key desired)"
    and desired: "list_all (desired_decodes decode) desired" "validate_reconcile_change_ownership rs up desired = Inr ()"
    and mg: "merge_records st1 up mode t rs desired ([], []) = Inr (T, P)"
  shows "merge_inv decode H (mr_logical_key ` set rs \<union> dr_logical_key ` set desired) (T, P)"
    "pending_map P = reconcile_target mode t rs desired (replay decode H Map.empty)"
proof -
  let ?K = "mr_logical_key ` set rs \<union> dr_logical_key ` set desired" and ?m = "replay decode H Map.empty"
  have ready: "merge_ready decode H rs desired {}"
    using sorted H(2) desired(1) ownership_owned [OF desired(2) u] by (simp add: merge_ready_def records_ok_def)
  show inv: "merge_inv decode H ?K (T, P)"
    using merge_records_reach [OF mg _ ready H(1) u] by (simp add: merge_inv_def)
  have target: "\<forall>k\<in>?K. pending_map P k = reconcile_target mode t rs desired ?m k"
    using merge_records_reach [OF mg _ ready H(1) u] by (simp add: merge_inv_def)
  show "pending_map P = reconcile_target mode t rs desired ?m"
  proof
    fix k show "pending_map P k = reconcile_target mode t rs desired ?m k"
    proof (cases "k \<in> ?K")
      case False
      then show ?thesis using merge_inv_fresh [OF inv False] find_key_fresh [of k mr_logical_key rs]
        find_key_fresh [of k dr_logical_key desired] by (simp add: reconcile_target_def)
    qed (simp add: target)
  qed
qed

text \<open>Storing the pending records and restoring the bootstrap.\<close>

lemma reconcile_store:
  assumes inv: "merge_inv decode H K (T, P)" and dom: "dom (replay decode H Map.empty) \<subseteq> K" and "history_of H st1"
    and ap: "append_change_batch t (List.map rt_change T) AppendDuplicate st1 = Inr ((ss, d), st2)"
    and co: "compact_to_limits env limits
        (st2\<lparr>xs_materialized_records := List.map pn_stored (List.map (assign_sequence ss) P)\<rparr>) = Inr st4"
    and rf: "refresh_materialized_bootstrap_if_needed env limits t
        (fold (\<lambda>p. bt_insert (mr_logical_key (pn_stored p)) (pn_upsert p)) (List.map (assign_sequence ss) P) [])
        pruned st4 = Inr (out, st')"
  shows "\<exists>cs. exports_history decode (H @ cs) st' \<and> replay decode (H @ cs) Map.empty = pending_map P
    \<and> xs_delta_generation st' = xs_delta_generation st1 \<and> xs_retention_clock st' = xs_retention_clock st1"
proof -
  let ?H = "H @ List.map rt_change T"
  have h2: "history_of ?H st2" and f2: "journal_frame st1 st2"
    and ss: "List.map unat ss = [length H + 1..<length H + 1 + length T]"
    using history_append_batch [OF assms(3) ap] by (metis length_map)+
  define rs' where "rs' = List.map pn_stored (List.map (assign_sequence ss) P)"
  have m2: "replay decode ?H Map.empty = pending_map P" and r2: "records_ok decode ?H rs'"
    using pending_records_ok [OF inv dom ss] unfolding rs'_def by auto
  have h3: "history_of ?H (st2\<lparr>xs_materialized_records := rs'\<rparr>)" using h2 by (simp add: history_of_def)
  have h4: "history_of ?H st4" "journal_frame (st2\<lparr>xs_materialized_records := rs'\<rparr>) st4"
    using history_compact [OF co [folded rs'_def] h3] by simp_all
  have r4: "records_ok decode ?H (xs_materialized_records st4)" using h4(2) r2 by (simp add: journal_frame_def)
  have "distinct (List.map pending_key (List.map (assign_sequence ss) P))" using inv by (simp add: merge_inv_def comp_def)
  moreover have "pending_map (List.map (assign_sequence ss) P) = pending_map P" by (simp add: pending_map_def comp_def)
  ultimately have u4: "bt_get (fold (\<lambda>p. bt_insert (mr_logical_key (pn_stored p)) (pn_upsert p)) (List.map (assign_sequence ss) P) [])
      = replay decode ?H Map.empty"
    using active_upserts [of "[]"] m2 by (simp add: map_add_def fun_eq_iff split: option.split del: replay_simps)
  obtain cs where "history_of (?H @ cs) st'" "records_ok decode (?H @ cs) (xs_materialized_records st')"
    "replay decode (?H @ cs) Map.empty = replay decode ?H Map.empty"
    "xs_delta_generation st' = xs_delta_generation st4" "xs_retention_clock st' = xs_retention_clock st4"
    using refresh_records [OF h4(1) r4 u4 rf] by blast
  then show ?thesis using m2 h4(2) f2
    by (intro exI [of _ "List.map rt_change T @ cs"]) (simp add: exports_history_def journal_frame_def)
qed

lemma reconcile_and_compact_history:
  assumes "exports_history decode H st" "validate_desired_records desired = Inr ()" "list_all (desired_decodes decode) desired"
    and r: "reconcile_and_compact env store t desired mode st = Inr (report, st')"
  shows "\<exists>cs. exports_history decode (H @ cs) st' \<and> xs_delta_generation st' = xs_delta_generation st
    \<and> xs_retention_clock st' = fst (next_retention_clock (xe_range env) (xs_retention_clock st) t)
    \<and> replay decode (H @ cs) Map.empty = reconcile_target mode (rk_trusted_at (xs_retention_clock st'))
        (xs_materialized_records st) desired (replay decode H Map.empty)"
proof -
  let ?m = "replay decode H Map.empty" and ?rs = "xs_materialized_records st"
  obtain up ac df st1 T P ss d st2 st4 rf pr where
    val: "state_validate (xe_range env) store st = Inr ()"
    and cap: "capture_materialized_upserts st = Inr up"
    and own: "validate_reconcile_change_ownership ?rs up desired = Inr ()"
    and pr: "advance_retention_and_prune_age (xe_range env) t (xl_retention_days (xt_limits store)) st = Inr ((ac, df), st1)"
    and mg: "merge_records st1 up mode (rk_trusted_at (xs_retention_clock st1)) (xs_materialized_records st1) desired ([], []) = Inr (T, P)"
    and ap: "append_change_batch t (List.map rt_change T) AppendDuplicate st1 = Inr ((ss, d), st2)"
    and co: "compact_to_limits env (xt_limits store)
        (st2\<lparr>xs_materialized_records := List.map pn_stored (List.map (assign_sequence ss) P)\<rparr>) = Inr st4"
    and rf: "refresh_materialized_bootstrap_if_needed env (xt_limits store) t
        (fold (\<lambda>p. bt_insert (mr_logical_key (pn_stored p)) (pn_upsert p)) (List.map (assign_sequence ss) P) [])
        (of_nat (length (xs_entries st2) - length (xs_entries st4))) st4 = Inr ((rf, pr), st')"
    using r unfolding reconcile_and_compact_def and_then_Inr Let_def
    by (auto simp: result_simps simp del: List.map_map split: prod.splits)
  have H: "history_of H st" "records_ok decode H ?rs" using assms(1) by (simp_all add: exports_history_def)
  have u: "bt_get up = ?m" using capture_is_replay [OF H cap] by simp
  note p = history_prune [OF pr H(1)]
  note merged = reconcile_merge [OF p(1) H(2) u valid_records_sorted [OF val] desired_sorted [OF assms(2)] assms(3) own
      mg [unfolded p(3)]]
  have "dom ?m \<subseteq> mr_logical_key ` set ?rs \<union> dr_logical_key ` set desired" using H(2) by (auto simp: records_ok_def)
  then show ?thesis using reconcile_store [OF merged(1) _ p(1) ap co rf] merged(2) p(2,4) by metis
qed

end
