(* ===== verification/Export_Safety.thy ===== *)
theory Export_Safety
  imports Export_History
begin

text \<open>
  Properties of the export journal: followers converge and catch up, reconciliation reaches its
  target, pages are exact, the trusted time, the pinned generation and the preflight.
\<close>

section \<open>Valid states\<close>

lemma validate_entries_consecutive:
  "fold_ok validate_entry es (s, t, ids) = Inr out \<Longrightarrow>
   List.map (\<lambda>e. unat (je_sequence e)) es = [unat s + 1..<unat s + 1 + length es] \<and> unat s + length es < 2 ^ 64"
proof (induction es arbitrary: s t ids)
  case Nil
  then show ?case using unat_bound [of s] by simp
next
  case (Cons e es)
  then obtain t' ids' where s: "unat (je_sequence e) = unat s + 1"
    and r: "fold_ok validate_entry es (je_sequence e, t', ids') = Inr out"
    by (auto simp: validate_entry_def [of e] result_simps checked_iffs)
  show ?case using Cons.IH [OF r] s by (auto simp: upt_conv_Cons simp del: upt_Suc)
qed

lemma valid_history:
  assumes "state_validate rng store st = Inr ()"
  shows "\<exists>H. history_of H st"
proof (cases "xs_entries st = []")
  case True
  then show ?thesis using assms
    by (intro exI [of _ "replicate (unat (xs_retention_floor st)) undefined"]) (auto simp: state_validate_def history_of_def result_simps)
next
  case False
  let ?f = "unat (xs_retention_floor st)" and ?es = "xs_entries st"
  obtain out where out: "fold_ok validate_entry ?es (xs_retention_floor st, min_utc rng, []) = Inr out"
    and l: "je_sequence (last ?es) = xs_current_sequence st" "xs_retention_floor st \<le> xs_current_sequence st"
    using assms False by (auto simp: state_validate_def result_simps)
  have s: "List.map (\<lambda>e. unat (je_sequence e)) ?es = [?f + 1..<?f + 1 + length ?es]"
    using validate_entries_consecutive [OF out] by simp
  have "unat (je_sequence (last ?es)) = last (List.map (\<lambda>e. unat (je_sequence e)) ?es)" using False by (simp add: last_map)
  then have "unat (xs_current_sequence st) = ?f + length ?es" using s l(1) False by (simp add: last_upt del: upt_Suc)
  then show ?thesis using s l(2)
    by (intro exI [of _ "replicate ?f undefined @ List.map je_change ?es"]) (simp add: history_of_def add.commute)
qed

lemma valid_record:
  assumes "fold_ok (validate_materialized_record st ids) rs acc = Inr out" "r \<in> set rs"
  shows "xs_retention_floor st < mr_last_upsert_sequence r
    \<and> (\<exists>e. entry_at_sequence st (mr_last_upsert_sequence r) = Some e \<and> xc_change_id (je_change e) = mr_current_change_id r)"
  using assms
proof (induction rs arbitrary: acc)
  case (Cons x xs)
  obtain acc1 where x: "validate_materialized_record st ids x acc = Inr acc1"
    and xs: "fold_ok (validate_materialized_record st ids) xs acc1 = Inr out"
    using Cons.prems(1) by (auto simp: result_simps)
  show ?case
  proof (cases "r = x")
    case True
    then show ?thesis using x by (auto simp: validate_materialized_record_def result_simps split: prod.splits)
  next
    case False
    then show ?thesis using Cons.IH [OF xs] Cons.prems(2) by simp
  qed
qed simp

lemma valid_records:
  assumes "state_validate rng store st = Inr ()" "r \<in> set (xs_materialized_records st)"
  shows "xs_retention_floor st < mr_last_upsert_sequence r
    \<and> (\<exists>e. entry_at_sequence st (mr_last_upsert_sequence r) = Some e \<and> xc_change_id (je_change e) = mr_current_change_id r)"
proof -
  have "xs_entries st \<noteq> []" using assms by (auto simp: state_validate_def result_simps)
  then obtain ids out where "fold_ok (validate_materialized_record st ids) (xs_materialized_records st) (None, []) = Inr out"
    using assms(1) by (auto simp: state_validate_def validate_materialized_records_def result_simps split: prod.splits)
  then show ?thesis by (rule valid_record) (rule assms(2))
qed

lemma valid_capture:
  assumes "state_validate rng store st = Inr ()"
  shows "\<exists>u. capture_materialized_upserts st = Inr u"
proof -
  have "\<exists>u. fold_ok (capture_upsert st) rs m = Inr u" if "set rs \<subseteq> set (xs_materialized_records st)" for rs m
    using that
  proof (induction rs arbitrary: m)
    case (Cons r rs)
    then have r: "r \<in> set (xs_materialized_records st)" by simp
    obtain m' where "capture_upsert st r m = Inr m'"
      using valid_records [OF assms r] by (auto simp: capture_upsert_def ok_or_def ensure_def)
    then show ?case using Cons by simp
  qed simp
  then show ?thesis by (simp add: capture_materialized_upserts_def)
qed

lemma valid_bootstrap:
  assumes "state_validate rng store st = Inr ()" "exports_history decode H st"
  shows "replay decode (drop (unat (xs_retention_floor st)) H) Map.empty = replay decode H Map.empty"
proof -
  let ?f = "unat (xs_retention_floor st)"
  have H: "H = take ?f H @ drop ?f H" by simp
  have "u \<in> set (drop ?f H)" if u: "replay decode H Map.empty k = Some u" for k u
  proof -
    have "k \<in> mr_logical_key ` set (xs_materialized_records st)"
      using assms(2) u by (auto simp: exports_history_def records_ok_def)
    then obtain r where r: "r \<in> set (xs_materialized_records st)" "mr_logical_key r = k" by blast
    let ?s = "unat (mr_last_upsert_sequence r)"
    have s: "?f < ?s" using valid_records [OF assms(1) r(1)] by (simp add: word_less_nat_alt)
    have "?s \<le> length H" "u = H ! (?s - 1)"
      using assms(2) r u by (auto simp: exports_history_def records_ok_def list_all_iff record_ok_def)
    then have "u = drop ?f H ! (?s - 1 - ?f)" "?s - 1 - ?f < length (drop ?f H)" using s by auto
    then show ?thesis by (metis nth_mem)
  qed
  then show ?thesis using replay_suffix [of decode "take ?f H" "drop ?f H"] by (metis H)
qed

section \<open>Pages\<close>

lemma page_entries_prefix:
  "page_entries f n b es taken k = Inr out \<Longrightarrow> length taken \<le> n \<Longrightarrow>
   \<exists>j. out = taken @ take j es \<and> j \<le> length es \<and> length out \<le> n \<and> (taken = [] \<longrightarrow> es \<noteq> [] \<longrightarrow> n \<noteq> 0 \<longrightarrow> 0 < j)"
proof (induction f n b es taken k rule: page_entries.induct)
  case (2 f n b e es taken k)
  show ?case
  proof (cases "out = taken \<and> (taken \<noteq> [] \<or> n = 0)")
    case True
    then show ?thesis using "2.prems" by (intro exI [of _ 0]) auto
  next
    case False
    then obtain next_bytes where nb: "ok_or (Option.bind (f e) (\<lambda>n. Option.bind (checked_add k n)
        (\<lambda>total. checked_add total (if taken = [] then 0 else 1)))) SizeOverflowed = Inr next_bytes"
      "length taken \<noteq> n" "\<not> b < next_bytes" and r: "page_entries f n b es (taken @ [e]) next_bytes = Inr out"
      using "2.prems" by (auto simp: result_simps split: if_splits)
    obtain j where "out = (taken @ [e]) @ take j es" "j \<le> length es" "length out \<le> n"
      using "2.IH" [OF nb(2) nb(3) r] "2.prems"(2) nb(2) by auto
    then show ?thesis by (intro exI [of _ "Suc j"]) simp
  qed
qed auto

lemma filter_is_drop:
  assumes "\<And>i. i < length xs \<Longrightarrow> P (xs ! i) \<longleftrightarrow> n \<le> i"
  shows "filter P xs = drop n xs"
proof -
  have "filter P (take n xs) = []" using assms by (auto simp: filter_empty_conv in_set_conv_nth)
  moreover have "filter P (drop n xs) = drop n xs" using assms by (auto simp: filter_id_conv in_set_conv_nth)
  ultimately have "filter P (take n xs @ drop n xs) = drop n xs" by (simp only: filter_append append_Nil)
  then show ?thesis by simp
qed

lemma dropWhile_is_drop:
  assumes "\<And>i. i < length xs \<Longrightarrow> P (xs ! i) \<longleftrightarrow> i < n" "n \<le> length xs"
  shows "dropWhile P xs = drop n xs"
  using takeWhile_eq_take_P_nth [of n xs P] assms by (simp add: dropWhile_eq_drop)

lemma cursor_suffix:
  assumes h: "history_of H st" and "xs_retention_floor st \<le> c" "c \<le> xs_current_sequence st"
  shows "filter (\<lambda>e. c < je_sequence e) (xs_entries st) = drop (unat c - unat (xs_retention_floor st)) (xs_entries st)"
    "dropWhile (\<lambda>e. je_sequence e \<le> c) (xs_entries st) = drop (unat c - unat (xs_retention_floor st)) (xs_entries st)"
proof -
  have c: "unat (xs_retention_floor st) \<le> unat c" "unat c \<le> length H"
    using assms(2,3) h by (auto simp: word_le_nat_alt history_of_def)
  show "filter (\<lambda>e. c < je_sequence e) (xs_entries st) = drop (unat c - unat (xs_retention_floor st)) (xs_entries st)"
    using c history_entry(2) [OF h] by (intro filter_is_drop) (auto simp: word_less_nat_alt)
  show "dropWhile (\<lambda>e. je_sequence e \<le> c) (xs_entries st) = drop (unat c - unat (xs_retention_floor st)) (xs_entries st)"
    using c history_entry(2) [OF h] history_lengths [OF h] by (intro dropWhile_is_drop) (auto simp: word_le_nat_alt)
qed

lemma page_suffix:
  assumes h: "history_of H st" and "xs_retention_floor st \<le> c" "c \<le> xs_current_sequence st" "c \<noteq> - 1"
  shows "dropWhile (\<lambda>e. je_sequence e < sat_add c 1) (xs_entries st) = drop (unat c - unat (xs_retention_floor st)) (xs_entries st)"
proof -
  have "unat c \<noteq> unat (- 1 :: u64)" using assms(4) by (simp add: word_unat_eq_iff)
  then have s: "unat (sat_add c 1) = unat c + 1" using unat_bound [of c] by (simp add: unat_sat_add unat_max_word)
  then have "(\<lambda>e :: journal_entry. je_sequence e < sat_add c 1) = (\<lambda>e. je_sequence e \<le> c)"
    by (auto simp: fun_eq_iff word_less_nat_alt word_le_nat_alt)
  then show ?thesis using cursor_suffix(2) [OF assms(1-3)] by simp
qed

text \<open>A page that was read, by its entries.\<close>

definition page_of :: "export_state \<Rightarrow> u64 \<Rightarrow> journal_entry list \<Rightarrow> export_page" where
  "page_of st c es = \<lparr>ep_generation = xs_delta_generation st, ep_from_sequence = (if es = [] then c else je_sequence (hd es)),
     ep_through_sequence = (if es = [] then c else je_sequence (last es)),
     ep_next_cursor = \<lparr>dc_generation = xs_delta_generation st, dc_sequence = (if es = [] then c else je_sequence (last es))\<rparr>,
     ep_has_more = ((if es = [] then c else je_sequence (last es)) < xs_current_sequence st), ep_entries = es\<rparr>"

lemma read_page_pages:
  "read_page env store c n b st =
    and_then (check_cursor st c) (\<lambda>expired.
    case expired of Some x \<Rightarrow> Inr (CursorExpired x) | None \<Rightarrow>
    and_then (ensure (n \<noteq> 0 \<and> n \<le> xl_maximum_page_entries (xt_limits store)
        \<and> b \<noteq> 0 \<and> b \<le> xl_maximum_page_bytes (xt_limits store)) InvalidPageLimits) (\<lambda>_.
    and_then (page_entries (xe_entry_size env) n b (dropWhile (\<lambda>e. je_sequence e < sat_add (dc_sequence c) 1) (xs_entries st)) [] 0)
      (\<lambda>es. Inr (PageRead (page_of st (dc_sequence c) es)))))"
  unfolding read_page_def page_of_def Let_def by (rule refl)

lemma read_page_Page:
  assumes "read_page env store c n b st = Inr (PageRead p)"
  obtains es where "dc_generation c = xs_delta_generation st" "xs_retention_floor st \<le> dc_sequence c"
    "dc_sequence c \<le> xs_current_sequence st" "n \<noteq> 0" "p = page_of st (dc_sequence c) es"
    "page_entries (xe_entry_size env) n b (dropWhile (\<lambda>e. je_sequence e < sat_add (dc_sequence c) 1) (xs_entries st)) [] 0 = Inr es"
  using assms that unfolding read_page_pages
  by (auto simp: check_cursor_def result_simps Let_def not_less split: if_splits option.splits)

text \<open>The last entry of a page read from \<open>c\<close> is \<open>j\<close> entries further.\<close>

lemma page_through:
  assumes h: "history_of H st" and "xs_retention_floor st \<le> c" "c \<le> xs_current_sequence st"
    and es: "es = take j (drop (unat c - unat (xs_retention_floor st)) (xs_entries st))"
    and "j \<le> length (drop (unat c - unat (xs_retention_floor st)) (xs_entries st))"
  shows "unat (dc_sequence (ep_next_cursor (page_of st c es))) = unat c + j" "List.map je_change es = take j (drop (unat c) H)"
proof -
  let ?f = "unat (xs_retention_floor st)"
  have c: "?f \<le> unat c" "unat c \<le> length H" using assms(2,3) h by (auto simp: word_le_nat_alt history_of_def)
  have "unat (je_sequence (last es)) = unat c + j" if "es \<noteq> []"
  proof -
    have j: "0 < j" "length es = j" using that es assms(5) by auto
    have "last es = xs_entries st ! (unat c - ?f + (j - 1))" using that j assms(5) es by (simp add: last_conv_nth)
    moreover have "unat c - ?f + (j - 1) < length (xs_entries st)" using j assms(5) by auto
    ultimately show ?thesis using history_entry(2) [OF h] c j by simp
  qed
  moreover have "es = [] \<Longrightarrow> j = 0" using es assms(5) by auto
  ultimately show "unat (dc_sequence (ep_next_cursor (page_of st c es))) = unat c + j" by (auto simp: page_of_def)
  have "List.map je_change (drop (unat c - ?f) (xs_entries st)) = drop (unat c - ?f) (drop ?f H)"
    using h by (simp add: history_of_def drop_map [symmetric])
  then have "List.map je_change (drop (unat c - ?f) (xs_entries st)) = drop (unat c) H" using c(1) by simp
  then show "List.map je_change es = take j (drop (unat c) H)" unfolding es by (simp add: take_map [symmetric])
qed

section \<open>Change feeds\<close>

text \<open>
  What a follower relies on: steps of the source only extend its history, a page is the next slice of it, and a follower
  that starts at the floor misses nothing that is still there.
\<close>

locale change_feed =
  fixes history :: "'c list \<Rightarrow> 's \<Rightarrow> bool"
    and advance :: "'s \<Rightarrow> 's \<Rightarrow> bool"
    and page :: "'s \<Rightarrow> nat \<Rightarrow> nat \<Rightarrow> 'c list \<Rightarrow> bool"
    and floor_of :: "'s \<Rightarrow> nat"
    and run :: "'c list \<Rightarrow> 'm \<Rightarrow> 'm"
    and empty_view :: 'm
  assumes run_append: "run (cs @ ds) m = run ds (run cs m)"
    and advance_extends: "history H s \<Longrightarrow> advance s s' \<Longrightarrow> \<exists>cs. history (H @ cs) s'"
    and page_slice: "history H s \<Longrightarrow> page s n n' cs \<Longrightarrow> \<exists>j. cs = take j (drop n H) \<and> n' = n + j \<and> n' \<le> length H"
    and floor_complete: "history H s \<Longrightarrow>
      floor_of s \<le> length H \<and> run (drop (floor_of s) H) empty_view = run H empty_view"
begin

text \<open>The view \<open>m\<close> at position \<open>n\<close> of a history is completed by the rest of it.\<close>

definition completed :: "'c list \<Rightarrow> nat \<Rightarrow> 'm \<Rightarrow> bool" where
  "completed H n m \<longleftrightarrow> n \<le> length H \<and> run (drop n H) m = run H empty_view"

definition tracks :: "'s \<Rightarrow> nat \<Rightarrow> 'm \<Rightarrow> bool" where
  "tracks s n m \<longleftrightarrow> (\<exists>H. history H s \<and> completed H n m)"

lemma tracks_floor: "history H s \<Longrightarrow> tracks s (floor_of s) empty_view"
  using floor_complete by (auto simp: tracks_def completed_def)

lemma tracks_advance:
  assumes "tracks s n m" "advance s s'"
  shows "tracks s' n m"
proof -
  obtain H where H: "history H s" "completed H n m" using assms(1) by (auto simp: tracks_def)
  obtain cs where "history (H @ cs) s'" using advance_extends [OF H(1) assms(2)] by blast
  then show ?thesis using H(2) by (auto simp: tracks_def completed_def run_append intro!: exI [of _ "H @ cs"])
qed

lemma tracks_page:
  assumes "tracks s n m" "page s n n' cs"
  shows "tracks s n' (run cs m)"
proof -
  obtain H where H: "history H s" "completed H n m" using assms(1) by (auto simp: tracks_def)
  obtain j where j: "cs = take j (drop n H)" "n' = n + j" "n' \<le> length H" using page_slice [OF H(1) assms(2)] by blast
  have "run (take j (drop n H) @ drop j (drop n H)) m = run H empty_view"
    unfolding append_take_drop_id using H(2) by (simp add: completed_def)
  then have "run (drop n' H) (run cs m) = run H empty_view" by (simp add: run_append j add.commute)
  then show ?thesis using H(1) j(3) by (auto simp: tracks_def completed_def)
qed

lemma tracks_end:
  assumes "tracks s n m" "\<And>H. history H s \<Longrightarrow> length H = n"
  shows "\<exists>H. history H s \<and> run [] m = run H empty_view"
  using assms by (auto simp: tracks_def completed_def)

end

section \<open>Exporting\<close>

text \<open>
  The states of an exporter: a new journal, then appends and reconciliations with any sizes, times and
  results.  Appended changes carry no materialized record, and the changes of a desired record set and clear its key.
\<close>

inductive export_step :: "chrono_range \<Rightarrow> export_store \<Rightarrow> change_codec \<Rightarrow> export_state \<Rightarrow> export_state \<Rightarrow> bool"
  for rng store decode where
  step_append: "xe_range env = rng \<Longrightarrow> list_all (\<lambda>c. decode c = None) changes \<Longrightarrow>
    append_changes env store t changes st = (r, st') \<Longrightarrow> export_step rng store decode st st'"
| step_reconcile: "xe_range env = rng \<Longrightarrow> list_all (desired_decodes decode) desired \<Longrightarrow>
    reconcile_materialized_records env store t desired mode st = (rr, st') \<Longrightarrow> export_step rng store decode st st'"

inductive exporting :: "chrono_range \<Rightarrow> export_store \<Rightarrow> change_codec \<Rightarrow> export_state \<Rightarrow> bool"
  for rng store decode where
  exporting_new: "state_new (xt_source store) (xt_redaction_profile store) t draws = Inr st \<Longrightarrow> exporting rng store decode st"
| exporting_step: "exporting rng store decode st \<Longrightarrow> export_step rng store decode st st' \<Longrightarrow> exporting rng store decode st'"

text \<open>
  A follower starts empty at the bootstrap cursor of some state, applies the pages it reads and continues from their
  cursors, while the exporter goes on.  The last representable sequence is never read past.
\<close>

inductive replicates :: "chrono_range \<Rightarrow> export_store \<Rightarrow> change_codec \<Rightarrow> export_state \<Rightarrow> delta_cursor \<Rightarrow> replica \<Rightarrow> bool"
  for rng store decode where
  follow_start: "exporting rng store decode st \<Longrightarrow> replicates rng store decode st (bootstrap_cursor st) Map.empty"
| follow_export: "replicates rng store decode st c m \<Longrightarrow> export_step rng store decode st st' \<Longrightarrow> replicates rng store decode st' c m"
| follow_page: "replicates rng store decode st c m \<Longrightarrow> dc_sequence c \<noteq> - 1 \<Longrightarrow>
    read_page env store c n b st = Inr (PageRead p) \<Longrightarrow>
    replicates rng store decode st (ep_next_cursor p) (replay decode (List.map je_change (ep_entries p)) m)"

lemma write_state_valid: "write_state env store st = Inr n \<Longrightarrow> state_validate (xe_range env) store st = Inr ()"
  by (auto simp: write_state_def result_simps)

lemma export_step_history:
  assumes "export_step rng store decode st st'" "exports_history decode H st" "state_validate rng store st = Inr ()"
  shows "\<exists>cs. exports_history decode (H @ cs) st' \<and> xs_delta_generation st' = xs_delta_generation st"
    "state_validate rng store st' = Inr ()"
proof -
  have "(\<exists>cs. exports_history decode (H @ cs) st' \<and> xs_delta_generation st' = xs_delta_generation st) \<and> state_validate rng store st' = Inr ()"
    using assms(1)
  proof cases
    case (step_append env changes t r)
    show ?thesis
    proof (cases r)
      case (Inr report)
      then have a: "append_and_compact env store t changes st = Inr (report, st')" and w: "\<exists>n. write_state env store st' = Inr n"
        using step_append(3) by (auto simp: append_changes_def result_simps split: sum.splits)
      show ?thesis using append_and_compact_history [OF assms(2) step_append(2) a] w write_state_valid step_append(1) by blast
    next
      case (Inl e)
      then have "st' = st" using step_append(3) by (auto simp: append_changes_def split: sum.splits)
      then show ?thesis using assms(2,3) by (auto intro: exI [of _ "[]"])
    qed
  next
    case (step_reconcile env desired t mode r)
    show ?thesis
    proof (cases "st' = st")
      case True
      then show ?thesis using assms(2,3) by (auto intro: exI [of _ "[]"])
    next
      case False
      then obtain report n where d: "validate_desired_records desired = Inr ()" and w: "write_state env store st' = Inr n"
        and a: "reconcile_and_compact env store t desired mode st = Inr (report, st')"
        using step_reconcile(3) by (auto simp: reconcile_materialized_records_def result_simps split: sum.splits if_splits)
      show ?thesis
        using reconcile_and_compact_history [OF assms(2) d step_reconcile(2) a] write_state_valid [OF w] step_reconcile(1) by blast
    qed
  qed
  then show "\<exists>cs. exports_history decode (H @ cs) st' \<and> xs_delta_generation st' = xs_delta_generation st"
    "state_validate rng store st' = Inr ()" by blast+
qed

lemma state_new_history:
  assumes "state_new (xt_source store) (xt_redaction_profile store) t draws = Inr st"
  shows "exports_history decode [] st" "state_validate rng store st = Inr ()"
  using assms
  by (auto simp: state_new_def result_simps exports_history_def history_of_def records_ok_def state_validate_def
      clock_validate_def clock_current_def)

lemma exporting_history:
  assumes "exporting rng store decode st"
  shows "(\<exists>H. exports_history decode H st) \<and> state_validate rng store st = Inr ()"
  using assms
proof induction
  case (exporting_new t draws st)
  then show ?case using state_new_history by blast
next
  case (exporting_step st st')
  then show ?case using export_step_history by blast
qed

lemma page_history:
  assumes h: "history_of H st" and c: "dc_sequence c \<noteq> - 1"
    and r: "read_page env store c n b st = Inr (PageRead p)"
  shows "\<exists>j. List.map je_change (ep_entries p) = take j (drop (unat (dc_sequence c)) H)
    \<and> unat (dc_sequence (ep_next_cursor p)) = unat (dc_sequence c) + j \<and> dc_generation (ep_next_cursor p) = xs_delta_generation st
    \<and> unat (dc_sequence c) + j \<le> length H \<and> (unat (dc_sequence c) < length H \<longrightarrow> 0 < j)
    \<and> ep_entries p = take j (filter (\<lambda>e. dc_sequence c < je_sequence e) (xs_entries st))
    \<and> j \<le> n \<and> j \<le> length (filter (\<lambda>e. dc_sequence c < je_sequence e) (xs_entries st))
    \<and> ep_has_more p = (unat (dc_sequence c) + j < length H)"
proof -
  let ?f = "unat (xs_retention_floor st)" and ?c = "unat (dc_sequence c)"
  obtain es where cc: "xs_retention_floor st \<le> dc_sequence c" "dc_sequence c \<le> xs_current_sequence st" "n \<noteq> 0"
    and p: "p = page_of st (dc_sequence c) es"
    and es: "page_entries (xe_entry_size env) n b (dropWhile (\<lambda>e. je_sequence e < sat_add (dc_sequence c) 1) (xs_entries st)) [] 0 = Inr es"
    using read_page_Page [OF r] by blast
  note suffix = page_suffix [OF h cc(1,2) c] cursor_suffix(1) [OF h cc(1,2)]
  let ?rest = "drop (?c - ?f) (xs_entries st)"
  obtain j where j: "es = take j ?rest" "j \<le> length ?rest" "length es \<le> n" "?rest \<noteq> [] \<longrightarrow> 0 < j"
    using page_entries_prefix [OF es [unfolded suffix(1)]] cc(3) by auto
  note t = page_through [OF h cc(1,2) j(1,2)]
  have l: "length ?rest = length H - ?c" "?c \<le> length H" "?f \<le> ?c"
    using history_lengths [OF h] h cc by (auto simp: history_of_def word_le_nat_alt)
  have more: "ep_has_more p = (unat (dc_sequence (ep_next_cursor p)) < length H)"
    using h by (auto simp: p page_of_def word_less_nat_alt history_of_def)
  show ?thesis
    using t j l more suffix(2) unfolding p
    by (intro exI [of _ j]) (auto simp: page_of_def)
qed

text \<open>The journal is a change feed.\<close>

definition journal_feed :: "chrono_range \<Rightarrow> export_store \<Rightarrow> change_codec \<Rightarrow> u64 \<Rightarrow> export_change list \<Rightarrow> export_state \<Rightarrow> bool" where
  "journal_feed rng store decode g H st \<longleftrightarrow>
     exports_history decode H st \<and> state_validate rng store st = Inr () \<and> xs_delta_generation st = g"

definition journal_page :: "export_store \<Rightarrow> export_state \<Rightarrow> nat \<Rightarrow> nat \<Rightarrow> export_change list \<Rightarrow> bool" where
  "journal_page store st n n' cs \<longleftrightarrow> (\<exists>env c k b p. dc_sequence c \<noteq> - 1 \<and> unat (dc_sequence c) = n
     \<and> read_page env store c k b st = Inr (PageRead p) \<and> n' = unat (dc_sequence (ep_next_cursor p))
     \<and> cs = List.map je_change (ep_entries p))"

interpretation feed: change_feed "journal_feed rng store decode g" "export_step rng store decode" "journal_page store"
    "\<lambda>st. unat (xs_retention_floor st)" "replay decode" Map.empty
  for rng store decode g
proof unfold_locales
  fix H st st' n n' cs
  show "replay decode (cs @ ds) m = replay decode ds (replay decode cs m)" for ds m by simp
  show "\<exists>cs. journal_feed rng store decode g (H @ cs) st'"
    if "journal_feed rng store decode g H st" "export_step rng store decode st st'"
    using that export_step_history by (auto simp: journal_feed_def)
  assume f: "journal_feed rng store decode g H st"
  then have h: "history_of H st" by (simp add: journal_feed_def exports_history_def)
  show "unat (xs_retention_floor st) \<le> length H
      \<and> replay decode (drop (unat (xs_retention_floor st)) H) Map.empty = replay decode H Map.empty"
    using f history_lengths(2) [OF h] valid_bootstrap by (auto simp: journal_feed_def)
  show "\<exists>j. cs = take j (drop n H) \<and> n' = n + j \<and> n' \<le> length H" if "journal_page store st n n' cs"
    using that page_history [OF h] unfolding journal_page_def by metis
qed

lemma replicates_tracks:
  assumes "replicates rng store decode st c m"
  shows "dc_generation c = xs_delta_generation st
    \<and> feed.tracks rng store decode (xs_delta_generation st) st (unat (dc_sequence c)) m"
  using assms
proof induction
  case (follow_start st)
  obtain H where "journal_feed rng store decode (xs_delta_generation st) H st"
    using exporting_history [OF follow_start] by (auto simp: journal_feed_def)
  then show ?case using feed.tracks_floor by (auto simp: bootstrap_cursor_def)
next
  case (follow_export st c m st')
  have t: "feed.tracks rng store decode (xs_delta_generation st) st' (unat (dc_sequence c)) m"
    using feed.tracks_advance follow_export by blast
  then have "xs_delta_generation st' = xs_delta_generation st" by (auto simp: feed.tracks_def journal_feed_def)
  then show ?case using t follow_export.IH by simp
next
  case (follow_page st c m env n b p)
  obtain H where "journal_feed rng store decode (xs_delta_generation st) H st" using follow_page.IH by (auto simp: feed.tracks_def)
  then have "dc_generation (ep_next_cursor p) = xs_delta_generation st"
    using page_history [OF _ follow_page.hyps(2,3)] by (auto simp: journal_feed_def exports_history_def)
  moreover have "journal_page store st (unat (dc_sequence c)) (unat (dc_sequence (ep_next_cursor p))) (List.map je_change (ep_entries p))"
    unfolding journal_page_def using follow_page.hyps by blast
  ultimately show ?case using feed.tracks_page follow_page.IH by blast
qed

section \<open>A concrete journal\<close>

lemma compact_loop_done: "encoded_state_size env st = Inr n \<Longrightarrow> n \<le> maximum \<Longrightarrow> compact_loop env maximum st = Inr st"
  by (simp add: compact_loop.simps)

definition sample_range :: chrono_range where
  "sample_range = \<lparr>min_utc = - (10 ^ 20), max_utc = 10 ^ 20\<rparr>"

definition sample_store :: export_store where
  "sample_store = \<lparr>xt_source = \<lparr>sg_node_id = ''n'', sg_generation = 1\<rparr>, xt_redaction_profile = Redacted, xt_limits = export_limits_default\<rparr>"

definition sample_env :: export_env where
  "sample_env = \<lparr>xe_range = sample_range, xe_state_size = \<lambda>_. Some 100, xe_entry_size = \<lambda>_. Some 10\<rparr>"

definition sample_upsert :: export_change where "sample_upsert = \<lparr>xc_change_id = ''u1'', xc_payload = ''x''\<rparr>"
definition sample_tombstone :: export_change where "sample_tombstone = \<lparr>xc_change_id = ''t1'', xc_payload = ''''\<rparr>"

definition sample_decode :: change_codec where
  "sample_decode c = (if xc_change_id c = ''u1'' then Some (''k'', True) else if xc_change_id c = ''t1'' then Some (''k'', False) else None)"

definition sample_desired :: desired_record where
  "sample_desired = \<lparr>dr_logical_key = ''k'', dr_expires_at = 5000, dr_upsert = sample_upsert, dr_tombstone = sample_tombstone\<rparr>"

definition sample_new :: export_state where
  "sample_new = \<lparr>xs_format_version = STATE_FORMAT_VERSION, xs_source = xt_source sample_store, xs_redaction_profile = Redacted,
      xs_delta_generation = 7, xs_current_sequence = 0, xs_retention_floor = 0,
      xs_retention_clock = clock_current 1000, xs_entries = [], xs_materialized_records = []\<rparr>"

definition sample_state :: export_state where
  "sample_state = sample_new\<lparr>xs_current_sequence := 1, xs_entries := [\<lparr>je_sequence = 1, je_committed_at = 2000, je_change = sample_upsert\<rparr>],
     xs_retention_clock := clock_current 2000,
     xs_materialized_records := [\<lparr>mr_logical_key = ''k'', mr_expires_at = 5000, mr_current_change_id = ''u1'',
       mr_last_upsert_sequence = 1, mr_tombstone = sample_tombstone\<rparr>]\<rparr>"

lemmas sample_defs = sample_range_def sample_store_def sample_env_def sample_upsert_def sample_tombstone_def sample_desired_def
  sample_new_def sample_state_def export_limits_default_def STATE_FORMAT_VERSION_def

lemmas export_eval = validate_desired_records_def validate_desired_record_def desired_validate_def validate_materialized_key_def
  validate_change_id_def change_validate_def validate_materialized_id_owner_def is_path_safe_def
  is_ascii_alphanumeric_def is_ascii_alphabetic_def is_ascii_digit_def byte_def
  MAX_CHANGE_ID_BYTES_def MAX_CHANGE_PAYLOAD_BYTES_def MAX_MATERIALIZED_KEY_BYTES_def MAX_MATERIALIZED_RECORDS_def
  MAX_JOURNAL_ENTRIES_def MAX_JOURNAL_STATE_BYTES_def MAX_PAGE_ENTRIES_def MAX_PAGE_BYTES_def JOURNAL_RETENTION_DAYS_def
  state_validate_def clock_validate_def clock_current_def validate_materialized_records_def validate_materialized_record_def
  validate_entry_def entry_at_sequence_def has_later_tombstone_def opt_filter_def checked_add_def checked_sub_def
  ensure_def ok_or_def encoded_state_size_def Let_def capture_materialized_upserts_def capture_upsert_def

lemma sample_created: "state_new (xt_source sample_store) (xt_redaction_profile sample_store) 1000 [Some 7] = Inr sample_new"
  by (simp add: state_new_def sample_defs clock_current_def generate_delta_generation.simps(4) [of 15, simplified])

lemma sample_valid: "state_validate sample_range sample_store sample_state = Inr ()"
  by (simp add: sample_defs export_eval)

lemma sample_new_valid: "state_validate sample_range sample_store sample_new = Inr ()"
  by (simp add: sample_defs export_eval)

lemma sample_matches: "materialized_set_matches sample_new [sample_desired] = Inr False"
  by (simp add: sample_defs materialized_set_matches_def)

lemma sample_desired_valid: "validate_desired_records [sample_desired] = Inr ()"
  by (simp add: sample_defs export_eval)

lemmas reconcile_eval = reconcile_and_compact_def validate_reconcile_change_ownership_def old_owners_def check_change_owner_def
  advance_retention_and_prune_age_def next_retention_clock_def trusted_forward_limit_def checked_add_signed_def checked_sub_signed_def
  hours_def minutes_def seconds_def RETENTION_CLOCK_MAX_UNCONFIRMED_FORWARD_HOURS_def drop_oldest_entries_def
  merge_new_def merge_desired_record_def append_change_batch_def retained_changes_def select_change_def commit_time_def push_change_def
  assign_sequence_def compact_to_limits_def compact_loop_done refresh_materialized_bootstrap_if_needed_def
  materialized_bootstrap_is_complete_def upsert_retained_def write_state_def

lemma sample_reconcile:
  "\<exists>report. reconcile_materialized_records sample_env sample_store 2000 [sample_desired] Authoritative sample_new = (Inr report, sample_state)"
  by (simp add: reconcile_materialized_records_def sample_desired_valid sample_matches)
    (simp add: reconcile_eval sample_defs export_eval)

lemma sample_exporting: "exporting sample_range sample_store sample_decode sample_new"
  by (rule exporting_new [OF sample_created])

lemma sample_step: "export_step sample_range sample_store sample_decode sample_new sample_state"
proof -
  obtain report where r: "reconcile_materialized_records sample_env sample_store 2000 [sample_desired] Authoritative sample_new = (Inr report, sample_state)"
    using sample_reconcile by blast
  show ?thesis
    by (rule step_reconcile [OF _ _ r]) (simp_all add: sample_env_def desired_decodes_def sample_decode_def sample_desired_def
        sample_upsert_def sample_tombstone_def)
qed

lemma sample_page:
  "read_page sample_env sample_store \<lparr>dc_generation = 7, dc_sequence = 0\<rparr> 5 100 sample_state
    = Inr (PageRead (page_of sample_state 0 (xs_entries sample_state)))"
  by (simp add: read_page_pages check_cursor_def sample_defs export_eval unat_sat_add sat_add_def)

lemma sample_replicates:
  "replicates sample_range sample_store sample_decode sample_state \<lparr>dc_generation = 7, dc_sequence = 1\<rparr> [''k'' \<mapsto> sample_upsert]"
proof -
  have "bootstrap_cursor sample_new = \<lparr>dc_generation = 7, dc_sequence = 0\<rparr>" by (simp add: bootstrap_cursor_def sample_new_def)
  then have "replicates sample_range sample_store sample_decode sample_state \<lparr>dc_generation = 7, dc_sequence = 0\<rparr> Map.empty"
    using follow_export [OF follow_start [OF sample_exporting] sample_step] by simp
  from follow_page [OF this _ sample_page] show ?thesis
    by (simp add: page_of_def sample_state_def sample_new_def sample_decode_def sample_upsert_def apply_change_def)
qed

section \<open>Properties of followers\<close>

text \<open>
  C2. A follower that has read everything holds exactly the materialized set, whatever the exporter appended,
  reconciled, expired, pruned and compacted meanwhile, and wherever the follower started.
\<close>

theorem followers_converge:
  assumes "replicates rng store decode st c m" "dc_sequence c = xs_current_sequence st"
  shows "c = state_cursor st \<and> (\<exists>upserts. capture_materialized_upserts st = Inr upserts \<and> m = bt_get upserts)"
proof -
  have g: "dc_generation c = xs_delta_generation st"
    and t: "feed.tracks rng store decode (xs_delta_generation st) st (unat (dc_sequence c)) m"
    using replicates_tracks [OF assms(1)] by simp_all
  obtain H where H: "journal_feed rng store decode (xs_delta_generation st) H st" "m = replay decode H Map.empty"
    using feed.tracks_end [OF t] assms(2) by (auto simp: journal_feed_def exports_history_def history_of_def)
  have h: "history_of H st" "records_ok decode H (xs_materialized_records st)" "state_validate rng store st = Inr ()"
    using H(1) by (simp_all add: journal_feed_def exports_history_def)
  obtain u where u: "capture_materialized_upserts st = Inr u" using valid_capture [OF h(3)] by blast
  then show ?thesis
    using capture_is_replay [OF h(1,2) u] H(2) g assms(2) by (auto simp: state_cursor_def intro: delta_cursor.equality)
qed

theorem followers_converge_witness:
  "\<exists>upserts. capture_materialized_upserts sample_state = Inr upserts \<and> [''k'' \<mapsto> sample_upsert] = bt_get upserts"
  using followers_converge [OF sample_replicates] by (simp add: sample_state_def)

text \<open>Reading pages until there are no more, with a bound on the number of reads.\<close>

fun drain :: "export_env \<Rightarrow> export_store \<Rightarrow> change_codec \<Rightarrow> nat \<Rightarrow> u64 \<Rightarrow> nat \<Rightarrow> export_state \<Rightarrow> delta_cursor \<Rightarrow> replica
    \<Rightarrow> (delta_cursor \<times> replica) option" where
  "drain env store decode n b 0 st c m = None"
| "drain env store decode n b (Suc fuel) st c m = (case read_page env store c n b st of
      Inr (PageRead p) \<Rightarrow>
        (let m' = replay decode (List.map je_change (ep_entries p)) m
         in if ep_has_more p then drain env store decode n b fuel st (ep_next_cursor p) m'
            else Some (ep_next_cursor p, m'))
    | _ \<Rightarrow> None)"

lemma page_entries_total:
  assumes "list_all (\<lambda>e. \<exists>k. f e = Some k \<and> k \<le> b) es" "2 * unat b + 1 < 2 ^ 64"
  shows "k \<le> b \<Longrightarrow> taken = [] \<longrightarrow> k = 0 \<Longrightarrow> \<exists>out. page_entries f n b es taken k = Inr out"
  using assms(1)
proof (induction es arbitrary: taken k)
  case (Cons e es)
  obtain x where x: "f e = Some x" "x \<le> b" using Cons.prems(3) by auto
  obtain y where y: "checked_add k x = Some y" "unat y = unat k + unat x"
    using x(2) Cons.prems(1) assms(2) by (cases "checked_add k x") (auto simp: checked_iffs word_le_nat_alt)
  obtain z where z: "checked_add y (if taken = [] then 0 else 1) = Some z" "unat z = unat y + (if taken = [] then 0 else 1)"
    using y(2) x(2) Cons.prems(1) assms(2)
    by (cases "checked_add y (if taken = [] then 0 else 1)") (auto simp: checked_iffs word_le_nat_alt split: if_splits)
  have "taken = [] \<Longrightarrow> z \<le> b" using y z x(2) Cons.prems(2) by (simp add: word_le_nat_alt)
  then show ?case
    using x y z Cons.IH [of z "taken @ [e]"] Cons.prems(3) by (auto simp: ok_or_def not_less)
qed simp

lemma read_page_total:
  assumes "dc_generation c = xs_delta_generation st" "xs_retention_floor st \<le> dc_sequence c" "dc_sequence c \<le> xs_current_sequence st"
    and limits: "0 < n" "n \<le> xl_maximum_page_entries (xt_limits store)" "b \<noteq> 0" "b \<le> xl_maximum_page_bytes (xt_limits store)"
      "2 * unat b + 1 < 2 ^ 64"
    and sizes: "list_all (\<lambda>e. \<exists>k. xe_entry_size env e = Some k \<and> k \<le> b) (xs_entries st)"
  shows "\<exists>p. read_page env store c n b st = Inr (PageRead p)"
proof -
  have "list_all (\<lambda>e. \<exists>k. xe_entry_size env e = Some k \<and> k \<le> b)
      (dropWhile (\<lambda>e. je_sequence e < sat_add (dc_sequence c) 1) (xs_entries st))"
    using sizes by (auto simp: list_all_iff dest: set_dropWhileD)
  then show ?thesis
    using page_entries_total [of "xe_entry_size env" b _ 0 "[]" n] assms
    by (fastforce simp: read_page_pages check_cursor_def ensure_def not_less)
qed

lemma drain_reaches:
  assumes h: "history_of H st" and limits: "0 < n" "n \<le> xl_maximum_page_entries (xt_limits store)" "b \<noteq> 0"
      "b \<le> xl_maximum_page_bytes (xt_limits store)" "2 * unat b + 1 < 2 ^ 64" "length H < 2 ^ 64 - 1"
    and sizes: "list_all (\<lambda>e. \<exists>k. xe_entry_size env e = Some k \<and> k \<le> b) (xs_entries st)"
  shows "dc_generation c = xs_delta_generation st \<Longrightarrow> xs_retention_floor st \<le> dc_sequence c \<Longrightarrow>
    unat (dc_sequence c) \<le> length H \<Longrightarrow> length H - unat (dc_sequence c) \<le> fuel \<Longrightarrow> 0 < fuel \<Longrightarrow>
    drain env store decode n b fuel st c m = Some (state_cursor st, replay decode (drop (unat (dc_sequence c)) H) m)"
proof (induction fuel arbitrary: c m)
  case (Suc fuel)
  let ?c = "unat (dc_sequence c)"
  have cur: "dc_sequence c \<le> xs_current_sequence st" using h Suc.prems(3) by (simp add: history_of_def word_le_nat_alt)
  have ne: "dc_sequence c \<noteq> - 1" using Suc.prems(3) limits(6) by (auto simp: unat_max_word)
  obtain p where p: "read_page env store c n b st = Inr (PageRead p)"
    using read_page_total [OF Suc.prems(1,2) cur limits(1-5) sizes] by blast
  obtain j where j: "List.map je_change (ep_entries p) = take j (drop ?c H)"
    "unat (dc_sequence (ep_next_cursor p)) = ?c + j" "dc_generation (ep_next_cursor p) = xs_delta_generation st"
    "?c + j \<le> length H" "?c < length H \<longrightarrow> 0 < j" "ep_has_more p = (?c + j < length H)"
    using page_history [OF h ne p] by blast
  have split: "replay decode (drop ?c H) m = replay decode (drop (?c + j) H) (replay decode (take j (drop ?c H)) m)"
    using arg_cong [OF append_take_drop_id [of j "drop ?c H"], of "\<lambda>l. replay decode l m"] by (simp add: add.commute)
  show ?case
  proof (cases "?c + j < length H")
    case True
    have "xs_retention_floor st \<le> dc_sequence (ep_next_cursor p)"
      using Suc.prems(2) j(2) by (simp add: word_le_nat_alt)
    moreover have "length H - unat (dc_sequence (ep_next_cursor p)) \<le> fuel" "0 < fuel"
      using Suc.prems(4) True j(2,5) by auto
    ultimately show ?thesis using Suc.IH [OF j(3)] True j p split by (simp add: Let_def)
  next
    case False
    then have "unat (dc_sequence (ep_next_cursor p)) = unat (xs_current_sequence st)" using j(2,4) h by (simp add: history_of_def)
    then have "ep_next_cursor p = state_cursor st"
      using j(3) by (auto simp: state_cursor_def word_unat_eq_iff intro: delta_cursor.equality)
    then show ?thesis using False j p split by (simp add: Let_def)
  qed
qed simp

text \<open>
  C10. A follower that starts without a cursor and keeps reading a journal that does not change reaches its end within one
  read for each retained entry (one read in all when none is retained), holding exactly the materialized set.  It asks for
  pages within the store's limits, of a size every retained entry fits (the code refuses an entry that does not) and that is
  below 2 ^ 63 bytes (the store's default maximum is 8 MiB), and the journal has not used the last sequence number.
\<close>

theorem followers_catch_up:
  assumes "exporting rng store decode st" "xs_current_sequence st < - 1"
    and "0 < n" "n \<le> xl_maximum_page_entries (xt_limits store)" "b \<noteq> 0"
      "b \<le> xl_maximum_page_bytes (xt_limits store)" "2 * unat b + 1 < 2 ^ 64"
    and "list_all (\<lambda>e. \<exists>k. xe_entry_size env e = Some k \<and> k \<le> b) (xs_entries st)"
    and "length (xs_entries st) \<le> reads" "0 < reads"
  shows "\<exists>upserts. capture_materialized_upserts st = Inr upserts
    \<and> drain env store decode n b reads st (bootstrap_cursor st) Map.empty = Some (state_cursor st, bt_get upserts)"
proof -
  obtain H where H: "exports_history decode H st" and v: "state_validate rng store st = Inr ()"
    using exporting_history [OF assms(1)] by blast
  have h: "history_of H st" "records_ok decode H (xs_materialized_records st)" using H by (simp_all add: exports_history_def)
  obtain u where u: "capture_materialized_upserts st = Inr u" using valid_capture [OF v] by blast
  have l: "length H < 2 ^ 64 - 1" using assms(2) h(1) by (simp add: history_of_def word_less_nat_alt unat_max_word)
  have "drain env store decode n b reads st (bootstrap_cursor st) Map.empty
    = Some (state_cursor st, replay decode (drop (unat (xs_retention_floor st)) H) Map.empty)"
    using drain_reaches [OF h(1) assms(3-7) l assms(8), of "bootstrap_cursor st" reads] history_lengths [OF h(1)] assms(9,10)
    by (simp add: bootstrap_cursor_def)
  then show ?thesis using u valid_bootstrap [OF v H] capture_is_replay [OF h u] by simp
qed

theorem followers_catch_up_witness:
  "\<exists>upserts. capture_materialized_upserts sample_state = Inr upserts
    \<and> drain sample_env sample_store sample_decode 5 100 1 sample_state (bootstrap_cursor sample_state) Map.empty
      = Some (state_cursor sample_state, bt_get upserts)"
  by (rule followers_catch_up [OF exporting_step [OF sample_exporting sample_step]])
    (simp_all add: sample_defs MAX_PAGE_ENTRIES_def MAX_PAGE_BYTES_def word_less_nat_alt unat_max_word)

text \<open>
  C9. A successful reconciliation either leaves a matching set alone, or makes the materialized set the
  target: records expired at the trusted time are gone, records omitted by an authoritative set are gone, omitted
  records of a partial set stay, and every other desired record has its desired content.
\<close>

theorem reconcile_reaches_target:
  assumes "exporting rng store decode st" "xe_range env = rng" "list_all (desired_decodes decode) desired"
    "capture_materialized_upserts st = Inr upserts"
    "reconcile_materialized_records env store t desired mode st = (Inr report, st')"
  shows "st' = st \<and> materialized_set_matches st desired = Inr True \<and> \<not> reconcile_maintenance_due rng st t store
    \<or> (\<exists>upserts'. capture_materialized_upserts st' = Inr upserts'
        \<and> xs_retention_clock st' = fst (next_retention_clock rng (xs_retention_clock st) t)
        \<and> bt_get upserts' = reconcile_target mode (rk_trusted_at (xs_retention_clock st')) (xs_materialized_records st)
            desired (bt_get upserts))"
proof -
  obtain H where H: "exports_history decode H st" and v: "state_validate rng store st = Inr ()"
    using exporting_history [OF assms(1)] by blast
  have h: "history_of H st" "records_ok decode H (xs_materialized_records st)" using H by (simp_all add: exports_history_def)
  have u: "bt_get upserts = replay decode H Map.empty" using capture_is_replay [OF h assms(4)] by simp
  consider "st' = st \<and> materialized_set_matches st desired = Inr True \<and> \<not> reconcile_maintenance_due rng st t store"
    | n where "validate_desired_records desired = Inr ()" "reconcile_and_compact env store t desired mode st = Inr (report, st')"
      "write_state env store st' = Inr n"
    using assms(2,5) by (auto simp: reconcile_materialized_records_def result_simps split: sum.splits if_splits)
  then show ?thesis
  proof cases
    case 1
    then show ?thesis by blast
  next
    case (2 n)
    obtain cs where cs: "exports_history decode (H @ cs) st'"
      "xs_retention_clock st' = fst (next_retention_clock rng (xs_retention_clock st) t)"
      "replay decode (H @ cs) Map.empty = reconcile_target mode (rk_trusted_at (xs_retention_clock st'))
        (xs_materialized_records st) desired (replay decode H Map.empty)"
      using reconcile_and_compact_history [OF H 2(1) assms(3) 2(2)] assms(2) by blast
    obtain u' where u': "capture_materialized_upserts st' = Inr u'"
      using valid_capture [OF write_state_valid [OF 2(3)]] by blast
    have "bt_get u' = replay decode (H @ cs) Map.empty"
      using cs(1) capture_is_replay [OF _ _ u'] by (simp add: exports_history_def del: replay_simps)
    then show ?thesis using cs(2,3) u u' by (intro disjI2 exI [of _ u']) simp
  qed
qed

theorem reconcile_reaches_target_witness:
  "\<exists>upserts'. capture_materialized_upserts sample_state = Inr upserts'
    \<and> bt_get upserts' = reconcile_target Authoritative 2000 [] [sample_desired] Map.empty
    \<and> bt_get upserts' ''k'' = Some sample_upsert"
proof -
  obtain report where r: "reconcile_materialized_records sample_env sample_store 2000 [sample_desired] Authoritative sample_new = (Inr report, sample_state)"
    using sample_reconcile by blast
  have d: "list_all (desired_decodes sample_decode) [sample_desired]"
    by (simp add: desired_decodes_def sample_decode_def sample_desired_def sample_upsert_def sample_tombstone_def)
  have c: "capture_materialized_upserts sample_new = Inr []" by (simp add: capture_materialized_upserts_def sample_new_def)
  have t: "rk_trusted_at (xs_retention_clock sample_state) = 2000" "xs_materialized_records sample_new = []"
    by (simp_all add: sample_state_def sample_new_def clock_current_def)
  have e: "bt_get [] = (Map.empty :: replica)" by (simp add: fun_eq_iff)
  have "xe_range sample_env = sample_range" by (simp add: sample_env_def)
  from reconcile_reaches_target [OF sample_exporting this d c r] sample_matches
  obtain u where u: "capture_materialized_upserts sample_state = Inr u"
    "bt_get u = reconcile_target Authoritative 2000 [] [sample_desired] Map.empty"
    by (auto simp: t e)
  then show ?thesis by (intro exI [of _ u]) (simp add: reconcile_target_def sample_desired_def)
qed

text \<open>
  C14. A page holds the entries after its cursor, in order and without a gap, at most as many as asked for and
  at least one when there is one; its next cursor is their end, and it says exactly whether entries are left.
\<close>

theorem pages_are_exact:
  assumes "state_validate rng store st = Inr ()" "dc_sequence c \<noteq> - 1"
    "read_page env store c n b st = Inr (PageRead p)"
  shows "\<exists>j. let rest = filter (\<lambda>e. dc_sequence c < je_sequence e) (xs_entries st) in
    ep_entries p = take j rest \<and> j \<le> length rest \<and> j \<le> n \<and> (rest \<noteq> [] \<longrightarrow> 0 < j)
    \<and> unat (dc_sequence (ep_next_cursor p)) = unat (dc_sequence c) + j \<and> dc_generation (ep_next_cursor p) = xs_delta_generation st
    \<and> ep_has_more p = (j < length rest)"
proof -
  obtain H where h: "history_of H st" using valid_history [OF assms(1)] by blast
  have c: "xs_retention_floor st \<le> dc_sequence c" "dc_sequence c \<le> xs_current_sequence st"
    using read_page_Page [OF assms(3)] by metis+
  let ?rest = "filter (\<lambda>e. dc_sequence c < je_sequence e) (xs_entries st)"
  have l: "length ?rest = length H - unat (dc_sequence c)" "unat (dc_sequence c) \<le> length H"
    using cursor_suffix(1) [OF h c] history_lengths [OF h] c h by (auto simp: history_of_def word_le_nat_alt)
  obtain j where "ep_entries p = take j ?rest" "j \<le> length ?rest" "j \<le> n" "unat (dc_sequence c) < length H \<longrightarrow> 0 < j"
    "unat (dc_sequence (ep_next_cursor p)) = unat (dc_sequence c) + j" "dc_generation (ep_next_cursor p) = xs_delta_generation st"
    "ep_has_more p = (unat (dc_sequence c) + j < length H)"
    using page_history [OF h assms(2,3)] by blast
  moreover have "?rest \<noteq> [] \<longrightarrow> unat (dc_sequence c) < length H" "unat (dc_sequence c) + j < length H \<longleftrightarrow> j < length ?rest"
    using l length_greater_0_conv [of ?rest] by linarith+
  ultimately show ?thesis unfolding Let_def by blast
qed

theorem pages_are_exact_witness:
  "unat (dc_sequence (ep_next_cursor (page_of sample_state 0 (xs_entries sample_state)))) = 1
   \<and> \<not> ep_has_more (page_of sample_state 0 (xs_entries sample_state))"
proof -
  have "length (filter (\<lambda>e. 0 < je_sequence e) (xs_entries sample_state)) = 1" by (simp add: sample_state_def)
  then show ?thesis using pages_are_exact [OF sample_valid _ sample_page] by (auto simp: Let_def)
qed

section \<open>The retention clock\<close>

definition clock_run :: "chrono_range \<Rightarrow> datetime \<Rightarrow> datetime list \<Rightarrow> retention_clock" where
  "clock_run rng t0 ts = fold (\<lambda>t k. fst (next_retention_clock rng k t)) ts (clock_current t0)"

text \<open>A pending clock counts a run of late observations at the end of the history.\<close>

definition clock_explained :: "chrono_range \<Rightarrow> datetime list \<Rightarrow> retention_clock \<Rightarrow> bool" where
  "clock_explained rng ts k \<longleftrightarrow> (case rk_pending_started_at k of
      None \<Rightarrow> rk_pending_last_at k = None
    | Some started \<Rightarrow> (\<exists>us vs. ts = us @ started # vs \<and> rk_pending_last_at k = Some (last (started # vs))
        \<and> sorted (started # vs) \<and> list_all (\<lambda>v. trusted_forward_limit rng k < v) (started # vs)
        \<and> unat (rk_pending_confirmations k) \<le> length (started # vs)))"

lemma trusted_forward_limit_cong: "rk_trusted_at k = rk_trusted_at k' \<Longrightarrow> trusted_forward_limit rng k = trusted_forward_limit rng k'"
  by (simp add: trusted_forward_limit_def)

lemma clock_explainedI:
  assumes "rk_pending_started_at k = Some started" "ts = us @ started # vs" "rk_pending_last_at k = Some (last (started # vs))"
    "sorted (started # vs)" "list_all (\<lambda>v. trusted_forward_limit rng k < v) (started # vs)"
    "unat (rk_pending_confirmations k) \<le> length (started # vs)"
  shows "clock_explained rng ts k"
  unfolding clock_explained_def assms(1) option.case using assms(2-6) by blast

lemma sorted_snoc:
  fixes y :: "'a :: linorder"
  assumes "sorted xs" "xs \<noteq> []" "last xs \<le> y"
  shows "sorted (xs @ [y])"
proof -
  have "x \<le> last xs" if "x \<in> set xs" for x
    using that assms(1,2) by (auto simp: in_set_conv_nth last_conv_nth intro!: sorted_nth_mono)
  then show ?thesis using assms(1,3) by (auto simp: sorted_append intro: order_trans)
qed

text \<open>The four cases of a step: in the past, within the limit, a new suspicion, a confirmation.\<close>

lemma clock_step_cases:
  obtains (near) "\<not> trusted_forward_limit rng k < t \<or> t \<le> rk_trusted_at k"
      "fst (next_retention_clock rng k t) = clock_current (max (rk_trusted_at k) t)"
    | (suspect) "trusted_forward_limit rng k < t" "rk_trusted_at k < t"
      "fst (next_retention_clock rng k t) = clock_pending (rk_trusted_at k) t"
    | (confirmed) last_at where "trusted_forward_limit rng k < t" "rk_trusted_at k < t" "rk_pending_last_at k = Some last_at"
      "last_at \<le> t" "RETENTION_CLOCK_MIN_CONFIRMATIONS \<le> sat_add (rk_pending_confirmations k) 1"
      "\<And>started. rk_pending_started_at k = Some started \<Longrightarrow> min (started + hours RETENTION_CLOCK_CONFIRMATION_HOURS) (max_utc rng) \<le> t"
      "fst (next_retention_clock rng k t) = clock_current t"
    | (waiting) last_at where "trusted_forward_limit rng k < t" "rk_trusted_at k < t" "rk_pending_last_at k = Some last_at" "last_at \<le> t"
      "fst (next_retention_clock rng k t) = k\<lparr>rk_pending_last_at := Some t, rk_pending_confirmations := sat_add (rk_pending_confirmations k) 1\<rparr>"
proof (cases "t \<le> rk_trusted_at k \<or> t \<le> trusted_forward_limit rng k")
  case True
  then show ?thesis using near by (auto simp: next_retention_clock_def max_def not_less)
next
  case far: False
  show ?thesis
  proof (cases "rk_pending_last_at k")
    case None
    then show ?thesis using far suspect by (simp add: next_retention_clock_def)
  next
    case (Some last_at)
    show ?thesis
    proof (cases "last_at \<le> t")
      case False
      then show ?thesis using Some far suspect by (simp add: next_retention_clock_def)
    next
      case True
      define stable where "stable = (case Option.bind (rk_pending_started_at k) (\<lambda>started.
        checked_add_signed rng started (hours RETENTION_CLOCK_CONFIRMATION_HOURS)) of Some t \<Rightarrow> t | None \<Rightarrow> max_utc rng)"
      have st: "stable \<le> t \<Longrightarrow> rk_pending_started_at k = Some started \<Longrightarrow>
          min (started + hours RETENTION_CLOCK_CONFIRMATION_HOURS) (max_utc rng) \<le> t" for started
        by (auto simp: stable_def checked_add_signed_def min_def split: if_splits)
      have "fst (next_retention_clock rng k t) = (if stable \<le> t \<and> RETENTION_CLOCK_MIN_CONFIRMATIONS \<le> sat_add (rk_pending_confirmations k) 1
          then clock_current t
          else k\<lparr>rk_pending_last_at := Some t, rk_pending_confirmations := sat_add (rk_pending_confirmations k) 1\<rparr>)"
        using far Some True by (simp add: next_retention_clock_def Let_def stable_def)
      then show ?thesis using confirmed [OF _ _ Some True _ st] waiting [OF _ _ Some True] far by (auto split: if_splits)
    qed
  qed
qed

lemma clock_step_explained:
  assumes "clock_explained rng ts k"
  shows "clock_explained rng (ts @ [t]) (fst (next_retention_clock rng k t))"
proof (cases rule: clock_step_cases [of rng k t])
  case near
  then show ?thesis by (simp add: clock_explained_def clock_current_def)
next
  case suspect
  then show ?thesis
    by (intro clock_explainedI [of _ t _ ts "[]"]) (simp_all add: clock_pending_def trusted_forward_limit_def)
next
  case (confirmed last_at)
  then show ?thesis by (simp add: clock_explained_def clock_current_def)
next
  case (waiting last_at)
  obtain started us vs where s: "rk_pending_started_at k = Some started" "ts = us @ started # vs" "last_at = last (started # vs)"
    "sorted (started # vs)" "list_all (\<lambda>v. trusted_forward_limit rng k < v) (started # vs)"
    "unat (rk_pending_confirmations k) \<le> length (started # vs)"
    using assms waiting(3) by (auto simp: clock_explained_def split: option.splits)
  have "sorted ((started # vs) @ [t])" using s(3,4) waiting(4) by (intro sorted_snoc) auto
  moreover have "unat (sat_add (rk_pending_confirmations k) 1) \<le> length (started # vs @ [t])" using s(6) by (simp add: unat_sat_add)
  moreover have "trusted_forward_limit rng (k\<lparr>rk_pending_last_at := Some t, rk_pending_confirmations := sat_add (rk_pending_confirmations k) 1\<rparr>)
      = trusted_forward_limit rng k" by (simp add: trusted_forward_limit_def)
  ultimately show ?thesis unfolding waiting(5)
    using s(1,2,5) waiting(1) by (intro clock_explainedI [of _ started _ us "vs @ [t]"]) simp_all
qed

lemma clock_run_explained: "clock_explained rng ts (clock_run rng t0 ts)"
proof (induction ts rule: rev_induct)
  case Nil
  then show ?case by (simp add: clock_run_def clock_explained_def clock_current_def)
next
  case (snoc t ts)
  then show ?case using clock_step_explained [OF snoc] by (simp add: clock_run_def)
qed

lemma clock_run_snoc: "clock_run rng t0 (ts @ [t]) = fst (next_retention_clock rng (clock_run rng t0 ts) t)"
  by (simp add: clock_run_def)

text \<open>
  C11. The trusted time of the retention clock never goes back, and it moves past its 24 hour forward limit only to the last of at
  least three consecutive, non-decreasing observations beyond that limit that span 48 hours (or reach the last instant).
\<close>

theorem trusted_time_needs_confirmation:
  "rk_trusted_at (clock_run rng t0 ts) \<le> rk_trusted_at (clock_run rng t0 (ts @ [t]))
   \<and> (trusted_forward_limit rng (clock_run rng t0 ts) < rk_trusted_at (clock_run rng t0 (ts @ [t])) \<longrightarrow>
      rk_trusted_at (clock_run rng t0 ts) < rk_trusted_at (clock_run rng t0 (ts @ [t])) \<longrightarrow>
      (\<exists>us started vs. ts = us @ started # vs \<and> rk_trusted_at (clock_run rng t0 (ts @ [t])) = t
        \<and> 1 \<le> length vs \<and> sorted (started # vs @ [t])
        \<and> list_all (\<lambda>v. trusted_forward_limit rng (clock_run rng t0 ts) < v) (started # vs @ [t])
        \<and> min (started + hours RETENTION_CLOCK_CONFIRMATION_HOURS) (max_utc rng) \<le> t))"
proof -
  let ?k = "clock_run rng t0 ts"
  have ex: "clock_explained rng ts ?k" by (rule clock_run_explained)
  show ?thesis
  proof (cases rule: clock_step_cases [of rng ?k t])
    case near
    then show ?thesis by (auto simp: clock_run_snoc clock_current_def max_def split: if_splits)
  next
    case suspect
    then show ?thesis by (simp add: clock_run_snoc clock_pending_def)
  next
    case (confirmed last_at)
    obtain started us vs where s: "rk_pending_started_at ?k = Some started" "ts = us @ started # vs" "last_at = last (started # vs)"
      "sorted (started # vs)" "list_all (\<lambda>v. trusted_forward_limit rng ?k < v) (started # vs)"
      "unat (rk_pending_confirmations ?k) \<le> length (started # vs)"
      using ex confirmed(3) by (auto simp: clock_explained_def split: option.splits)
    have "sorted ((started # vs) @ [t])" using s(3,4) confirmed(4) by (intro sorted_snoc) auto
    moreover have "1 \<le> length vs"
      using s(6) confirmed(5) by (auto simp: word_le_nat_alt unat_sat_add RETENTION_CLOCK_MIN_CONFIRMATIONS_def)
    moreover have "rk_trusted_at (clock_run rng t0 (ts @ [t])) = t" using confirmed(7) by (simp add: clock_run_snoc clock_current_def)
    moreover have "list_all (\<lambda>v. trusted_forward_limit rng ?k < v) (started # vs @ [t])" using s(5) confirmed(1) by simp
    ultimately show ?thesis using s(2) confirmed(2) confirmed(6) [OF s(1)] by (metis append_Cons less_imp_le)
  next
    case (waiting last_at)
    then show ?thesis by (simp add: clock_run_snoc)
  qed
qed

theorem trusted_time_needs_confirmation_witness:
  "rk_trusted_at (clock_run sample_range 0 [hours 30, hours 60, hours 80]) = hours 80
   \<and> (\<exists>us started vs. [hours 30, hours 60] = us @ started # vs \<and> 1 \<le> length vs
      \<and> started + hours RETENTION_CLOCK_CONFIRMATION_HOURS \<le> hours 80)"
proof -
  have k: "clock_run sample_range 0 [hours 30, hours 60] = \<lparr>rk_trusted_at = 0, rk_pending_started_at = Some (hours 30),
      rk_pending_last_at = Some (hours 60), rk_pending_confirmations = 2\<rparr>"
    by (simp add: clock_run_def next_retention_clock_def clock_current_def clock_pending_def trusted_forward_limit_def
        checked_add_signed_def sample_range_def hours_def minutes_def seconds_def sat_add_def checked_add_def
        RETENTION_CLOCK_MAX_UNCONFIRMED_FORWARD_HOURS_def RETENTION_CLOCK_CONFIRMATION_HOURS_def RETENTION_CLOCK_MIN_CONFIRMATIONS_def)
  have k': "rk_trusted_at (clock_run sample_range 0 ([hours 30, hours 60] @ [hours 80])) = hours 80"
    unfolding clock_run_snoc k
    by (simp add: next_retention_clock_def clock_current_def trusted_forward_limit_def checked_add_signed_def sample_range_def
        hours_def minutes_def seconds_def sat_add_def checked_add_def RETENTION_CLOCK_MAX_UNCONFIRMED_FORWARD_HOURS_def
        RETENTION_CLOCK_CONFIRMATION_HOURS_def RETENTION_CLOCK_MIN_CONFIRMATIONS_def)
  have "trusted_forward_limit sample_range (clock_run sample_range 0 [hours 30, hours 60]) < hours 80"
    "rk_trusted_at (clock_run sample_range 0 [hours 30, hours 60]) < hours 80"
    unfolding k by (simp_all add: trusted_forward_limit_def checked_add_signed_def sample_range_def hours_def minutes_def seconds_def
        RETENTION_CLOCK_MAX_UNCONFIRMED_FORWARD_HOURS_def)
  then obtain us started vs where w: "[hours 30, hours 60] = us @ started # vs" "1 \<le> length vs"
    "min (started + hours RETENTION_CLOCK_CONFIRMATION_HOURS) (max_utc sample_range) \<le> hours 80"
    using trusted_time_needs_confirmation [of sample_range 0 "[hours 30, hours 60]" "hours 80"] unfolding k' by blast
  have "hours 80 < max_utc sample_range" by (simp add: sample_range_def hours_def minutes_def seconds_def)
  then have "started + hours RETENTION_CLOCK_CONFIRMATION_HOURS \<le> hours 80" using w(3) by simp
  moreover have "rk_trusted_at (clock_run sample_range 0 [hours 30, hours 60, hours 80]) = hours 80" using k' by simp
  ultimately show ?thesis using w(1,2) by blast
qed

section \<open>Opening a namespace\<close>

lemma valid_binding:
  "state_validate rng store st = Inr () \<Longrightarrow> xs_source st = xt_source store \<and> xs_redaction_profile st = xt_redaction_profile store"
  by (auto simp: state_validate_def result_simps)

lemma load_pins_anchor:
  assumes "load_or_create_state env store draws t disk = (Inr st, disk')"
  shows "xd_anchor disk' = Some (anchor_from_state st) \<and> (xd_anchor disk \<noteq> None \<longrightarrow> xd_anchor disk = xd_anchor disk')
    \<and> (\<forall>found. xd_state disk = Some found \<longrightarrow> st = found) \<and> anchor_validate store (anchor_from_state st) = Inr ()"
  using assms
  by (auto simp: load_or_create_state_def ensure_anchor_def read_state_def state_new_def anchor_validate_def anchor_from_state_def
      write_state_def result_simps Let_def dest!: valid_binding split: option.splits sum.splits prod.splits)

lemma load_keeps_anchor:
  assumes "load_or_create_state env store draws t disk = (r, disk')" "xd_anchor disk \<noteq> None"
  shows "xd_anchor disk' = xd_anchor disk"
  using assms by (auto simp: load_or_create_state_def ensure_anchor_def Let_def split: option.splits sum.splits prod.splits)

text \<open>
  C12. A namespace keeps its generation for ever: whatever happens to the state file between two successful
  openings, the second sees the generation of the first; without a state file it fails instead of starting a new journal.
\<close>

theorem generation_is_pinned:
  assumes "load_or_create_state env store draws t disk = (Inr st, disk')"
    and "load_or_create_state env' store draws' t' (disk'\<lparr>xd_state := found\<rparr>) = (r, disk'')"
  shows "xd_anchor disk'' = xd_anchor disk' \<and> (found = None \<longrightarrow> r = Inl StateMissing)
    \<and> (\<forall>st'. r = Inr st' \<longrightarrow> found = Some st' \<and> xs_delta_generation st' = xs_delta_generation st)"
proof -
  have a: "xd_anchor disk' = Some (anchor_from_state st)" "anchor_validate store (anchor_from_state st) = Inr ()"
    using load_pins_anchor [OF assms(1)] by simp_all
  have keep: "xd_anchor disk'' = xd_anchor disk'" using load_keeps_anchor [OF assms(2)] a(1) by simp
  have none: "found = None \<Longrightarrow> r = Inl StateMissing" using assms(2) a by (simp add: load_or_create_state_def)
  have "found = Some st' \<and> xs_delta_generation st' = xs_delta_generation st" if r: "r = Inr st'" for st'
  proof -
    obtain f where f: "found = Some f" using none r by auto
    have "anchor_from_state st' = anchor_from_state st" "st' = f"
      using load_pins_anchor [OF assms(2) [unfolded r]] a(1) f keep by simp_all
    then show ?thesis using f by (simp add: anchor_from_state_def)
  qed
  then show ?thesis using keep none by blast
qed

theorem generation_is_pinned_witness:
  "fst (load_or_create_state sample_env sample_store [Some 9] 3000 \<lparr>xd_state = None, xd_anchor = Some (anchor_from_state sample_new)\<rparr>)
    = Inl StateMissing"
proof -
  have l: "load_or_create_state sample_env sample_store [Some 7] 1000 \<lparr>xd_state = None, xd_anchor = None\<rparr>
    = (Inr sample_new, \<lparr>xd_state = Some sample_new, xd_anchor = Some (anchor_from_state sample_new)\<rparr>)"
    using sample_created sample_new_valid
    by (simp add: load_or_create_state_def write_state_def ensure_anchor_def sample_env_def encoded_state_size_def ok_or_def checked_add_def
        ensure_def sample_store_def export_limits_default_def MAX_JOURNAL_STATE_BYTES_def)
  obtain r d where r: "load_or_create_state sample_env sample_store [Some 9] 3000
      (\<lparr>xd_state = Some sample_new, xd_anchor = Some (anchor_from_state sample_new)\<rparr>\<lparr>xd_state := None\<rparr>) = (r, d)" by fastforce
  show ?thesis using generation_is_pinned [OF l r] r by simp
qed

section \<open>Preflight\<close>

lemma compact_loop_fits: "compact_loop env maximum st = Inr st' \<Longrightarrow> \<exists>n. encoded_state_size env st' = Inr n \<and> n \<le> maximum"
proof (induction env maximum st rule: compact_loop.induct)
  case (1 env maximum st)
  obtain n where n: "encoded_state_size env st = Inr n"
    using 1(2) by (subst (asm) compact_loop.simps) (auto simp: result_simps)
  show ?case
  proof (cases "n \<le> maximum")
    case True
    then show ?thesis using 1 n by (subst (asm) compact_loop.simps) (auto simp: result_simps)
  next
    case le: False
    then have "xs_entries st \<noteq> []" using 1(2) n by (subst (asm) compact_loop.simps) auto
    moreover obtain taken st1 where "reclaim_count (xe_entry_size env) (n - maximum) 0 0 (xs_entries st) = Inr taken"
      "drop_oldest_entries taken st = Inr st1" "compact_loop env maximum st1 = Inr st'"
      using 1(2) n le calculation by (subst (asm) compact_loop.simps) (auto split: sum.splits)
    ultimately show ?thesis using 1(1) le by blast
  qed
qed

lemma compact_fits: "compact_to_limits env limits st = Inr st' \<Longrightarrow> \<exists>n. encoded_state_size env st' = Inr n \<and> n \<le> xl_maximum_state_bytes limits"
  by (auto simp: compact_to_limits_def and_then_Inr dest: compact_loop_fits)

lemma refresh_fits:
  assumes "refresh_materialized_bootstrap_if_needed env limits t upserts pruned st = Inr (out, st')"
    "\<exists>n. encoded_state_size env st = Inr n \<and> n \<le> xl_maximum_state_bytes limits"
  shows "\<exists>n. encoded_state_size env st' = Inr n \<and> n \<le> xl_maximum_state_bytes limits"
  using assms
  by (auto simp: refresh_materialized_bootstrap_if_needed_def result_simps Let_def dest: compact_fits split: if_splits)

lemma reconcile_written:
  assumes "reconcile_and_compact env store t desired mode st = Inr (report, st')"
  shows "\<exists>n. write_state env store st' = Inr n" "xr_cursor report = state_cursor st'"
proof -
  obtain st3 st4 up pruned out where co: "compact_to_limits env (xt_limits store) st3 = Inr st4"
    and rf: "refresh_materialized_bootstrap_if_needed env (xt_limits store) t up pruned st4 = Inr (out, st')"
    and v: "state_validate (xe_range env) store st' = Inr ()" and c: "xr_cursor report = state_cursor st'"
    using assms unfolding reconcile_and_compact_def and_then_Inr Let_def by (auto simp: and_then_Inr split: prod.splits)
  show "\<exists>n. write_state env store st' = Inr n"
    using refresh_fits [OF rf compact_fits [OF co]] v by (auto simp: write_state_def ensure_def)
  show "xr_cursor report = state_cursor st'" by (rule c)
qed

lemma preflight_counts:
  "preflight_records me mr mx f es k bytes = Inr (Some (k', bytes')) \<Longrightarrow> k \<le> me \<Longrightarrow> bytes \<le> mx \<Longrightarrow>
   k' = k + length es \<and> k' \<le> me \<and> bytes' \<le> mx"
proof (induction es arbitrary: k bytes)
  case (Cons e es)
  then show ?case by (fastforce simp: result_simps split: if_splits option.splits)
qed simp

text \<open>
  C13. A preflight that says ready predicts the reconciliation: run at the same instant it succeeds, stops at the predicted
  cursor, and the entries a follower at the cursor still has to read are as many as predicted, within the limits.
\<close>

theorem preflight_predicts_reconcile:
  assumes "state_validate (xe_range env) store st = Inr ()"
    "preflight_reconciled_delta env store t desired mode c maximum_entries initial maximum_record maximum record_bytes st
      = Inr (PreflightReady reached entries bytes)"
  shows "\<exists>report st'. reconcile_materialized_records env store t desired mode st = (Inr report, st')
    \<and> xr_cursor report = reached \<and> state_cursor st' = reached
    \<and> length (filter (\<lambda>e. dc_sequence c < je_sequence e) (xs_entries st')) = entries
    \<and> entries \<le> maximum_entries \<and> bytes \<le> maximum"
proof -
  obtain matches preview where d: "validate_desired_records desired = Inr ()" "initial \<le> maximum"
    and m: "materialized_set_matches st desired = Inr matches"
    and p: "(if \<not> matches \<or> reconcile_maintenance_due (xe_range env) st t store
        then and_then (reconcile_and_compact env store t desired mode st) (\<lambda>(_, st'). Inr st') else Inr st) = Inr preview"
    and c: "check_cursor preview c = Inr None" and reached: "reached = state_cursor preview"
    and n: "preflight_records maximum_entries maximum_record maximum record_bytes
        (dropWhile (\<lambda>e. je_sequence e \<le> dc_sequence c) (xs_entries preview)) 0 initial = Inr (Some (entries, bytes))"
    using assms(2) unfolding preflight_reconciled_delta_def by (auto simp: result_simps split: option.splits)
  obtain report where r: "reconcile_materialized_records env store t desired mode st = (Inr report, preview)"
    "xr_cursor report = reached" and v: "state_validate (xe_range env) store preview = Inr ()"
  proof (cases "\<not> matches \<or> reconcile_maintenance_due (xe_range env) st t store")
    case True
    then obtain report where rc: "reconcile_and_compact env store t desired mode st = Inr (report, preview)"
      using p by (auto simp: result_simps)
    then show ?thesis
      using that [of report] reconcile_written [OF rc] write_state_valid True d(1) m reached
      by (fastforce simp: reconcile_materialized_records_def)
  next
    case False
    then show ?thesis
      using that [of "unchanged_report st"] p d(1) m reached assms(1) by (simp add: reconcile_materialized_records_def unchanged_report_def)
  qed
  obtain H where h: "history_of H preview" using valid_history [OF v] by blast
  have cc: "xs_retention_floor preview \<le> dc_sequence c" "dc_sequence c \<le> xs_current_sequence preview"
    using c by (auto simp: check_cursor_def Let_def not_less split: if_splits)
  show ?thesis
    using r reached preflight_counts [OF n _ d(2)] cursor_suffix [OF h cc] by (intro exI [of _ report] exI [of _ preview]) simp
qed

theorem preflight_predicts_reconcile_witness:
  "\<exists>report st'. reconcile_materialized_records sample_env sample_store 2000 [sample_desired] Authoritative sample_new = (Inr report, st')
    \<and> xr_cursor report = \<lparr>dc_generation = 7, dc_sequence = 1\<rparr>
    \<and> length (filter (\<lambda>e. 0 < je_sequence e) (xs_entries st')) = 1"
proof -
  have m: "validate_desired_records [sample_desired] = Inr ()" "materialized_set_matches sample_new [sample_desired] = Inr False"
    by (rule sample_desired_valid, rule sample_matches)
  have r: "\<exists>report. reconcile_and_compact sample_env sample_store 2000 [sample_desired] Authoritative sample_new = Inr (report, sample_state)"
    by (simp add: reconcile_eval sample_defs export_eval)
  have p: "preflight_reconciled_delta sample_env sample_store 2000 [sample_desired] Authoritative \<lparr>dc_generation = 7, dc_sequence = 0\<rparr>
      5 10 50 100 (\<lambda>_. Inr 20) sample_new = Inr (PreflightReady \<lparr>dc_generation = 7, dc_sequence = 1\<rparr> 1 30)"
    using m r by (auto simp: preflight_reconciled_delta_def check_cursor_def Let_def sample_new_def sample_state_def ensure_def
        checked_add_def state_cursor_def)
  have v: "state_validate (xe_range sample_env) sample_store sample_new = Inr ()" using sample_new_valid by (simp add: sample_env_def)
  show ?thesis using preflight_predicts_reconcile [OF v p] by auto
qed

end
