(* ===== verification/Project_Mapping.thy ===== *)
theory Project_Mapping
  imports Remote_Protocol "HOL-Library.Product_Lexorder"
begin

text \<open>
  The mapping of observed projects to physical instances and logical projects,
  \<open>src/project_mapping.rs\<close>: observations, aliases, explicit merges and splits, the read-only projection and
  the suggestions of merges.

  The mapping file is its decoded contents, \<open>None\<close> when it does not exist; the size of its JSON text is a
  parameter.  Lists searched by \<open>binary_search_by\<close> are strictly sorted, so a search is a look-up by key.
  Random identifiers are a list of draws.
\<close>

section \<open>Data\<close>

(* project_mapping.rs:36-36 PROJECT_MAPPING_VERSION *)
definition PROJECT_MAPPING_VERSION :: "32 word" where "PROJECT_MAPPING_VERSION = 2"
(* project_mapping.rs:43-43 MAX_MAPPING_FILE_BYTES *)
definition MAX_MAPPING_FILE_BYTES :: u64 where "MAX_MAPPING_FILE_BYTES = 8 * 1024 * 1024"
(* project_mapping.rs:44-44 MAX_INSTANCES *)
definition MAX_INSTANCES :: nat where "MAX_INSTANCES = 32768"
(* project_mapping.rs:45-45 MAX_LOGICAL_PROJECTS *)
definition MAX_LOGICAL_PROJECTS :: nat where "MAX_LOGICAL_PROJECTS = 32768"
(* project_mapping.rs:46-46 MAX_OBSERVATIONS_PER_INSTANCE *)
definition MAX_OBSERVATIONS_PER_INSTANCE :: nat where "MAX_OBSERVATIONS_PER_INSTANCE = 256"
(* project_mapping.rs:47-47 MAX_TOTAL_OBSERVATIONS *)
definition MAX_TOTAL_OBSERVATIONS :: nat where "MAX_TOTAL_OBSERVATIONS = 131072"
(* project_mapping.rs:48-48 MAX_REPOSITORY_RELATIVE_ROOT_BYTES *)
definition MAX_REPOSITORY_RELATIVE_ROOT_BYTES :: nat where "MAX_REPOSITORY_RELATIVE_ROOT_BYTES = 4096"

datatype mapping_error =
    MappingInvalid | MappingTooLarge | MappingCapacity | MappingStale | MappingNotFound | MappingExists
  | MappingInput | MappingRandom | MappingRevisionOverflow

text \<open>Identities are ordered by source, then by key.\<close>

(* project_mapping.rs:59-62 SourceObservedProject *)
datatype observed_project = ObservedProject (op_source_id: node_id) (op_observed_project_key: string)

instantiation observed_project :: linorder
begin

definition less_eq_observed_project :: "observed_project \<Rightarrow> observed_project \<Rightarrow> bool" where
  "less_eq_observed_project a b \<longleftrightarrow> op_source_id a < op_source_id b
     \<or> op_source_id a = op_source_id b \<and> op_observed_project_key a \<le> op_observed_project_key b"

definition less_observed_project :: "observed_project \<Rightarrow> observed_project \<Rightarrow> bool" where
  "less_observed_project a b \<longleftrightarrow> op_source_id a < op_source_id b
     \<or> op_source_id a = op_source_id b \<and> op_observed_project_key a < op_observed_project_key b"

instance
  by standard (auto simp: less_eq_observed_project_def less_observed_project_def intro: observed_project.expand)

end

(* remote_protocol.rs:1361-1370 RemoteGitRepositoryEvidence *)
datatype git_evidence =
    GitUnavailable
  | ConfirmedNonRepository
  | GitRepository (ge_fingerprint: "string option") (ge_root: string)

(* remote_protocol.rs:1391-1399 RemoteGitRepositoryEvidence::repository_relative_workspace_root *)
definition repository_relative_workspace_root :: "git_evidence \<Rightarrow> string option" where
  "repository_relative_workspace_root e = (case e of GitRepository _ path \<Rightarrow> Some path | _ \<Rightarrow> None)"

(* remote_protocol.rs:1384-1389 RemoteGitRepositoryEvidence::fingerprint *)
definition git_fingerprint :: "git_evidence \<Rightarrow> string option" where
  "git_fingerprint e = (case e of GitRepository fingerprint _ \<Rightarrow> fingerprint | _ \<Rightarrow> None)"

text \<open>\<open>ProjectObservation\<close> and \<open>StoredObservation\<close> have the same fields.\<close>

(* project_mapping.rs:190-195 StoredObservation *)
record stored_observation =
  so_identity :: observed_project
  so_display_label :: "string option"
  so_git_evidence :: git_evidence

(* project_mapping.rs:235-240 ProjectInstanceMapping *)
record instance_mapping =
  im_instance_id :: string
  im_observations :: "stored_observation list"
  im_logical_project_id :: "string option"

(* project_mapping.rs:258-261 LogicalProjectMapping *)
record logical_mapping =
  lm_logical_project_id :: string
  lm_display_label :: string

(* project_mapping.rs:276-281 ProjectMappings *)
record project_mappings =
  pm_version :: "32 word"
  pm_revision :: u64
  pm_instances :: "instance_mapping list"
  pm_logical_projects :: "logical_mapping list"

(* project_mapping.rs:283-292 ProjectMappings::default *)
definition project_mappings_default :: project_mappings where
  "project_mappings_default = \<lparr>pm_version = PROJECT_MAPPING_VERSION, pm_revision = 0, pm_instances = [], pm_logical_projects = []\<rparr>"

section \<open>Validation\<close>

(* project_mapping.rs:1579-1612 validate_repository_relative_root *)
definition validate_repository_relative_root :: "string option \<Rightarrow> mapping_error + unit" where
  "validate_repository_relative_root v = (case v of
      None \<Rightarrow> Inr ()
    | Some s \<Rightarrow>
        if s = ''.'' then Inr ()
        else ensure (\<not> (s = [] \<or> MAX_REPOSITORY_RELATIVE_ROOT_BYTES < length s \<or> starts_with ''/'' s \<or> CHR 0x5C \<in> set s
            \<or> list_ex (\<lambda>g. char_is_control g \<or> is_bidi_control g \<or> is_line_separator g) (utf8_chars s)
            \<or> list_ex (\<lambda>c. c = [] \<or> c = ''.'' \<or> c = ''..'') (split_char CHR ''/'' s))) MappingInvalid)"

(* project_mapping.rs:1614-1616 validate_git_evidence *)
definition validate_git_evidence :: "git_evidence \<Rightarrow> mapping_error + unit" where
  "validate_git_evidence e = validate_repository_relative_root (repository_relative_workspace_root e)"

(* project_mapping.rs:178-185 ProjectObservation::with_git_evidence_state *)
definition with_git_evidence_state :: "git_evidence \<Rightarrow> stored_observation \<Rightarrow> mapping_error + stored_observation" where
  "with_git_evidence_state e obs = and_then (validate_git_evidence e) (\<lambda>_. Inr (obs\<lparr>so_git_evidence := e\<rparr>))"

(* project_mapping.rs:153-176 ProjectObservation::with_git_evidence *)
definition with_git_evidence :: "string option \<Rightarrow> string option \<Rightarrow> stored_observation \<Rightarrow> mapping_error + stored_observation" where
  "with_git_evidence fingerprint path obs = (case (fingerprint, path) of
      (None, None) \<Rightarrow> with_git_evidence_state GitUnavailable obs
    | (f, Some r) \<Rightarrow> with_git_evidence_state (GitRepository f r) obs
    | (Some _, None) \<Rightarrow> Inl MappingInvalid)"

(* project_mapping.rs:118-128 ProjectObservation::from_remote_descriptor *)
definition from_remote_descriptor ::
  "node_id \<Rightarrow> string \<Rightarrow> string \<Rightarrow> git_evidence \<Rightarrow> mapping_error + stored_observation" where
  "from_remote_descriptor source_id key label evidence =
    with_git_evidence_state evidence \<lparr>so_identity = ObservedProject source_id key, so_display_label = Some label,
      so_git_evidence = GitUnavailable\<rparr>"

(* project_mapping.rs:198-205 StoredObservation::from_observation *)
definition from_observation :: "stored_observation \<Rightarrow> mapping_error + stored_observation" where
  "from_observation obs = and_then (validate_git_evidence (so_git_evidence obs)) (\<lambda>_. Inr obs)"

(* project_mapping.rs:207-228 StoredObservation::refresh_from *)
definition refresh_from :: "stored_observation \<Rightarrow> stored_observation \<Rightarrow> mapping_error + bool \<times> stored_observation" where
  "refresh_from stored obs =
    and_then (from_observation obs) (\<lambda>replacement.
    and_then (ensure (so_identity stored = so_identity replacement) MappingInvalid) (\<lambda>_.
    let replacement = (if so_git_evidence replacement = GitUnavailable
          then replacement\<lparr>so_git_evidence := so_git_evidence stored\<rparr> else replacement)
    in Inr (stored \<noteq> replacement, replacement)))"

text \<open>The observations seen so far are a hash set.\<close>

(* project_mapping.rs:467-492 ProjectMappings::validate (observation) *)
definition validate_observation ::
  "stored_observation \<Rightarrow> observed_project option \<times> node_id option \<times> observed_project list \<times> nat
    \<Rightarrow> mapping_error + observed_project option \<times> node_id option \<times> observed_project list \<times> nat" where
  "validate_observation obs = (\<lambda>(previous, source_id, seen, total_count).
    and_then (ensure (case previous of None \<Rightarrow> True | Some p \<Rightarrow> p < so_identity obs) MappingInvalid) (\<lambda>_.
    and_then (ensure (case source_id of None \<Rightarrow> True | Some s \<Rightarrow> s = op_source_id (so_identity obs)) MappingInvalid) (\<lambda>_.
    and_then (ensure (so_identity obs \<notin> set seen) MappingInvalid) (\<lambda>_.
    and_then (validate_git_evidence (so_git_evidence obs)) (\<lambda>_.
    Inr (Some (so_identity obs), Some (op_source_id (so_identity obs)), so_identity obs # seen, total_count + 1))))))"

(* project_mapping.rs:451-493 ProjectMappings::validate (instance) *)
definition validate_instance ::
  "instance_mapping \<Rightarrow> string option \<times> observed_project list \<times> nat \<Rightarrow> mapping_error + string option \<times> observed_project list \<times> nat" where
  "validate_instance i = (\<lambda>(previous, seen, total_count).
    and_then (ensure (case previous of None \<Rightarrow> True | Some p \<Rightarrow> p < im_instance_id i) MappingInvalid) (\<lambda>_.
    and_then (ensure (im_observations i \<noteq> [] \<and> length (im_observations i) \<le> MAX_OBSERVATIONS_PER_INSTANCE) MappingInvalid) (\<lambda>_.
    and_then (fold_ok validate_observation (im_observations i) (None, None, seen, total_count)) (\<lambda>(_, _, seen, total_count).
    Inr (Some (im_instance_id i), seen, total_count)))))"

(* project_mapping.rs:502-510 ProjectMappings::validate (logical) *)
definition validate_logical :: "logical_mapping \<Rightarrow> string option \<times> string list \<Rightarrow> mapping_error + string option \<times> string list" where
  "validate_logical l = (\<lambda>(previous, ids).
    and_then (ensure (case previous of None \<Rightarrow> True | Some p \<Rightarrow> p < lm_logical_project_id l) MappingInvalid) (\<lambda>_.
    Inr (Some (lm_logical_project_id l), List.insert (lm_logical_project_id l) ids)))"

(* project_mapping.rs:513-522 ProjectMappings::validate (reference) *)
definition validate_reference :: "string list \<Rightarrow> instance_mapping \<Rightarrow> string list \<Rightarrow> mapping_error + string list" where
  "validate_reference ids i referenced = (case im_logical_project_id i of
      None \<Rightarrow> Inr referenced
    | Some l \<Rightarrow> and_then (ensure (l \<in> set ids) MappingInvalid) (\<lambda>_. Inr (List.insert l referenced)))"

(* project_mapping.rs:430-529 ProjectMappings::validate *)
definition mappings_validate :: "project_mappings \<Rightarrow> mapping_error + unit" where
  "mappings_validate m =
    and_then (ensure (pm_version m = PROJECT_MAPPING_VERSION) MappingInvalid) (\<lambda>_.
    and_then (ensure (length (pm_instances m) \<le> MAX_INSTANCES) MappingInvalid) (\<lambda>_.
    and_then (ensure (length (pm_logical_projects m) \<le> MAX_LOGICAL_PROJECTS) MappingInvalid) (\<lambda>_.
    and_then (fold_ok validate_instance (pm_instances m) (None, [], 0)) (\<lambda>(_, _, total_count).
    and_then (ensure (total_count \<le> MAX_TOTAL_OBSERVATIONS) MappingInvalid) (\<lambda>_.
    and_then (fold_ok validate_logical (pm_logical_projects m) (None, [])) (\<lambda>(_, ids).
    and_then (fold_ok (validate_reference ids) (pm_instances m) []) (\<lambda>referenced.
    ensure (length referenced = length ids) MappingInvalid)))))))"

section \<open>Queries\<close>

definition find_index :: "('a \<Rightarrow> bool) \<Rightarrow> 'a list \<Rightarrow> nat option" where
  "find_index P xs = (let i = length (takeWhile (\<lambda>x. \<not> P x) xs) in if i < length xs then Some i else None)"

(* project_mapping.rs:337-342 ProjectMappings::instance *)
definition mappings_instance :: "string \<Rightarrow> project_mappings \<Rightarrow> instance_mapping option" where
  "mappings_instance k m = List.find (\<lambda>i. im_instance_id i = k) (pm_instances m)"

(* project_mapping.rs:344-349 ProjectMappings::logical_project *)
definition mappings_logical_project :: "string \<Rightarrow> project_mappings \<Rightarrow> logical_mapping option" where
  "mappings_logical_project k m = List.find (\<lambda>l. lm_logical_project_id l = k) (pm_logical_projects m)"

(* project_mapping.rs:351-361 ProjectMappings::instance_for_observation *)
definition instance_for_observation :: "observed_project \<Rightarrow> project_mappings \<Rightarrow> instance_mapping option" where
  "instance_for_observation identity m =
    List.find (\<lambda>i. list_ex (\<lambda>obs. so_identity obs = identity) (im_observations i)) (pm_instances m)"

(* project_mapping.rs:1423-1431 find_instance_index *)
definition find_instance_index :: "project_mappings \<Rightarrow> string \<Rightarrow> mapping_error + nat" where
  "find_instance_index m k = ok_or (find_index (\<lambda>i. im_instance_id i = k) (pm_instances m)) MappingNotFound"

(* project_mapping.rs:1433-1448 find_observation_indices *)
definition find_observation_indices :: "project_mappings \<Rightarrow> observed_project \<Rightarrow> (nat \<times> nat) option" where
  "find_observation_indices m identity =
    Option.bind (find_index (\<lambda>i. list_ex (\<lambda>obs. so_identity obs = identity) (im_observations i)) (pm_instances m)) (\<lambda>i.
    map_option (\<lambda>j. (i, j)) (find_index (\<lambda>obs. so_identity obs = identity) (im_observations (pm_instances m ! i))))"

(* project_mapping.rs:1522-1528 total_observation_count *)
definition total_observation_count :: "project_mappings \<Rightarrow> nat" where
  "total_observation_count m = sum_list (List.map (\<lambda>i. length (im_observations i)) (pm_instances m))"

(* project_mapping.rs:611-614 ProjectAggregateId *)
datatype aggregate_id = InstanceAggregate string | LogicalAggregate string

(* project_mapping.rs:626-630 ProjectProjection *)
record project_projection =
  pj_instance_id :: string
  pj_aggregate_id :: aggregate_id
  pj_display_label :: "string option"

definition min_label :: "string list \<Rightarrow> string option" where
  "min_label ls = (if ls = [] then None else Some (Min (set ls)))"

definition instance_labels :: "instance_mapping \<Rightarrow> string list" where
  "instance_labels i = List.map_filter so_display_label (im_observations i)"

(* project_mapping.rs:672-681 ProjectMappingProjection::from_mappings (aggregate) *)
definition instance_projection :: "(string, string) btree \<Rightarrow> instance_mapping \<Rightarrow> project_projection" where
  "instance_projection logical_labels i = (case im_logical_project_id i of
      Some l \<Rightarrow> \<lparr>pj_instance_id = im_instance_id i, pj_aggregate_id = LogicalAggregate l, pj_display_label = bt_get logical_labels l\<rparr>
    | None \<Rightarrow> \<lparr>pj_instance_id = im_instance_id i, pj_aggregate_id = InstanceAggregate (im_instance_id i),
        pj_display_label = min_label (instance_labels i)\<rparr>)"

(* project_mapping.rs:653-693 ProjectMappingProjection::from_mappings *)
definition from_mappings :: "project_mappings \<Rightarrow> (observed_project, project_projection) btree" where
  "from_mappings m =
    (let logical_labels = fold (\<lambda>l. bt_insert (lm_logical_project_id l) (lm_display_label l)) (pm_logical_projects m) []
     in fold (\<lambda>i observations. fold (\<lambda>obs. bt_insert (so_identity obs) (instance_projection logical_labels i))
          (im_observations i) observations) (pm_instances m) [])"

(* project_mapping.rs:695-704 ProjectMappingProjection::resolve *)
definition projection_resolve ::
  "(observed_project, project_projection) btree \<Rightarrow> node_id \<Rightarrow> string \<Rightarrow> project_projection option" where
  "projection_resolve p source_id key = bt_get p (ObservedProject source_id key)"

section \<open>Suggestions\<close>

text \<open>The key of a group is a fingerprint and a path; sets are lists without duplicates, sorted.\<close>

definition set_insert :: "'a :: linorder \<Rightarrow> 'a list \<Rightarrow> 'a list" where
  "set_insert x xs = (if x \<in> set xs then xs else insort x xs)"

(* project_mapping.rs:730-733 ProjectMergeSuggestion *)
record merge_suggestion =
  ms_fingerprint :: string
  ms_root :: string
  ms_instance_ids :: "string list"

(* project_mapping.rs:372-395 ProjectMappings::merge_suggestions (groups) *)
definition git_groups :: "project_mappings \<Rightarrow> (string \<times> string, string list) btree" where
  "git_groups m = fold (\<lambda>i groups. fold (\<lambda>obs groups. case so_git_evidence obs of
       GitRepository (Some f) path \<Rightarrow> bt_update (f, path) [] (set_insert (im_instance_id i)) groups
     | _ \<Rightarrow> groups) (im_observations i) groups) (pm_instances m) []"

definition aggregate_of :: "instance_mapping \<Rightarrow> aggregate_id" where
  "aggregate_of i = (case im_logical_project_id i of Some l \<Rightarrow> LogicalAggregate l | None \<Rightarrow> InstanceAggregate (im_instance_id i))"

(* project_mapping.rs:413-428 ProjectMappings::suggestion_changes_mapping *)
definition suggestion_changes_mapping :: "project_mappings \<Rightarrow> string list \<Rightarrow> bool" where
  "suggestion_changes_mapping m ids =
    (2 \<le> length ids \<and> list_all (\<lambda>k. mappings_instance k m \<noteq> None) ids
     \<and> 1 < length (remdups (List.map_filter (\<lambda>k. map_option aggregate_of (mappings_instance k m)) ids)))"

(* project_mapping.rs:371-411 ProjectMappings::merge_suggestions *)
definition merge_suggestions :: "project_mappings \<Rightarrow> merge_suggestion list" where
  "merge_suggestions m = sort_key (\<lambda>s. (ms_fingerprint s, ms_root s, ms_instance_ids s))
     (List.map (\<lambda>((f, path), ids). \<lparr>ms_fingerprint = f, ms_root = path, ms_instance_ids = ids\<rparr>)
       (filter (\<lambda>(_, ids). suggestion_changes_mapping m ids) (git_groups m)))"

section \<open>Labels\<close>

(* source_model.rs:310-325 ProjectDisplayLabel::from_str *)
definition display_label_from_str :: "string \<Rightarrow> mapping_error + string" where
  "display_label_from_str v =
    and_then (ensure (\<not> (v = [] \<or> trim v \<noteq> v \<or> 512 < length v \<or> 160 < length (utf8_chars v) \<or> v = ''.'' \<or> v = ''..''
        \<or> list_ex (\<lambda>g. char_is_control g \<or> is_bidi_control g \<or> is_line_separator g \<or> g = ''/'' \<or> g = [CHR 0x5C]) (utf8_chars v)))
      MappingInvalid) (\<lambda>_. Inr v)"

(* project_mapping.rs:566-583 manual_merge_display_label (labels) *)
definition merge_labels :: "project_mappings \<Rightarrow> string \<Rightarrow> string list \<Rightarrow> mapping_error + string list" where
  "merge_labels m k labels =
    and_then (ok_or (mappings_instance k m) MappingNotFound) (\<lambda>i.
    and_then (ensure (im_logical_project_id i = None) MappingInput) (\<lambda>_.
    Inr (labels @ instance_labels i)))"

(* project_mapping.rs:555-607 manual_merge_display_label *)
definition manual_merge_display_label :: "project_mappings \<Rightarrow> string list \<Rightarrow> mapping_error + string" where
  "manual_merge_display_label m ids =
    (let unique = sort (remdups ids) in
     and_then (ensure (2 \<le> length unique \<and> length unique = length ids) MappingInput) (\<lambda>_.
     and_then (fold_ok (merge_labels m) unique []) (\<lambda>labels.
     case min_label labels of
       Some l \<Rightarrow> Inr l
     | None \<Rightarrow> display_label_from_str (concat (take 8 (utf8_chars
         (case strip_prefix ''project-instance-'' (hd unique) of Some s \<Rightarrow> s | None \<Rightarrow> hd unique)))))))"

section \<open>Mutations\<close>

(* project_mapping.rs:531-537 ProjectMappings::advance_revision *)
definition advance_revision :: "project_mappings \<Rightarrow> mapping_error + project_mappings" where
  "advance_revision m = and_then (ok_or (checked_add (pm_revision m) 1) MappingRevisionOverflow) (\<lambda>r. Inr (m\<lparr>pm_revision := r\<rparr>))"

(* project_mapping.rs:539-547 ProjectMappings::remove_empty_logical_projects *)
definition remove_empty_logical_projects :: "project_mappings \<Rightarrow> project_mappings" where
  "remove_empty_logical_projects m =
    (let referenced = List.map_filter im_logical_project_id (pm_instances m)
     in m\<lparr>pm_logical_projects := filter (\<lambda>l. lm_logical_project_id l \<in> set referenced) (pm_logical_projects m)\<rparr>)"

(* project_mapping.rs:1565-1577 canonicalize *)
definition canonicalize :: "project_mappings \<Rightarrow> project_mappings" where
  "canonicalize m = m\<lparr>pm_instances := sort_key im_instance_id
      (List.map (\<lambda>i. i\<lparr>im_observations := sort_key so_identity (im_observations i)\<rparr>) (pm_instances m)),
     pm_logical_projects := sort_key lm_logical_project_id (pm_logical_projects m)\<rparr>"

text \<open>A search takes at most as many draws as given and returns the rest; no draw left is a failure of the provider.\<close>

(* project_mapping.rs:1539-1551 generate_unique_instance_id_from_set *)
fun generate_unique_id :: "nat \<Rightarrow> string list \<Rightarrow> string list \<Rightarrow> mapping_error + string \<times> string list" where
  "generate_unique_id 0 allocated draws = Inl MappingRandom"
| "generate_unique_id (Suc n) allocated [] = Inl MappingRandom"
| "generate_unique_id (Suc n) allocated (d # draws) =
    (if d \<in> set allocated then generate_unique_id n allocated draws else Inr (d, draws))"

(* project_mapping.rs:1530-1537 generate_unique_instance_id *)
definition generate_unique_instance_id :: "string list \<Rightarrow> project_mappings \<Rightarrow> mapping_error + string" where
  "generate_unique_instance_id draws m =
    and_then (generate_unique_id 8 (List.map im_instance_id (pm_instances m)) draws) (\<lambda>(k, _). Inr k)"

(* project_mapping.rs:1553-1563 generate_unique_logical_project_id *)
definition generate_unique_logical_project_id :: "string list \<Rightarrow> project_mappings \<Rightarrow> mapping_error + string" where
  "generate_unique_logical_project_id draws m =
    and_then (generate_unique_id 8 (List.map lm_logical_project_id (pm_logical_projects m)) draws) (\<lambda>(k, _). Inr k)"

definition refresh_at :: "nat \<Rightarrow> nat \<Rightarrow> stored_observation \<Rightarrow> project_mappings \<Rightarrow> mapping_error + bool \<times> project_mappings" where
  "refresh_at i j obs m =
    and_then (refresh_from (im_observations (pm_instances m ! i) ! j) obs) (\<lambda>(changed, replacement).
    Inr (changed, m\<lparr>pm_instances := (pm_instances m)[i := (pm_instances m ! i)
      \<lparr>im_observations := (im_observations (pm_instances m ! i))[j := replacement]\<rparr>]\<rparr>))"

type_synonym 'r mapping_operation = "project_mappings \<Rightarrow> mapping_error + ('r \<times> bool) \<times> project_mappings"

(* project_mapping.rs:971-995 ProjectMappingStore::resolve_or_create (operation) *)
definition resolve_operation :: "string list \<Rightarrow> stored_observation \<Rightarrow> (string \<times> bool) mapping_operation" where
  "resolve_operation draws obs m = (case find_observation_indices m (so_identity obs) of
      Some (i, j) \<Rightarrow>
        and_then (refresh_at i j obs m) (\<lambda>(changed, m'). Inr (((im_instance_id (pm_instances m ! i), False), changed), m'))
    | None \<Rightarrow>
        and_then (ensure (length (pm_instances m) < MAX_INSTANCES \<and> total_observation_count m < MAX_TOTAL_OBSERVATIONS)
          MappingCapacity) (\<lambda>_.
        and_then (generate_unique_instance_id draws m) (\<lambda>k.
        and_then (from_observation obs) (\<lambda>stored.
        Inr (((k, True), True), canonicalize (m\<lparr>pm_instances := pm_instances m
          @ [\<lparr>im_instance_id = k, im_observations = [stored], im_logical_project_id = None\<rparr>]\<rparr>))))))"

(* project_mapping.rs:1450-1462 validate_observation_batch *)
definition validate_observation_batch :: "stored_observation list \<Rightarrow> mapping_error + unit" where
  "validate_observation_batch batch = ensure (distinct (List.map so_identity batch)) MappingInput"

text \<open>The state of the batch loop: the mappings, the index of the observations, the number of observations, the
  allocated identifiers and the remaining draws, the resolved identifiers, the number created and whether anything changed.\<close>

record batch_state =
  bs_mappings :: project_mappings
  bs_indices :: "(observed_project, nat \<times> nat) btree"
  bs_total :: nat
  bs_allocated :: "string list"
  bs_draws :: "string list"
  bs_instance_ids :: "string list"
  bs_created :: nat
  bs_changed :: bool

(* project_mapping.rs:1472-1480 resolve_observation_batch (index) *)
definition observation_index :: "project_mappings \<Rightarrow> (observed_project, nat \<times> nat) btree" where
  "observation_index m = fold (\<lambda>(i, inst) t. fold (\<lambda>(j, obs). bt_insert (so_identity obs) (i, j))
     (List.enumerate 0 (im_observations inst)) t) (List.enumerate 0 (pm_instances m)) []"

(* project_mapping.rs:1491-1517 resolve_observation_batch (observation) *)
definition resolve_batch_step :: "stored_observation \<Rightarrow> batch_state \<Rightarrow> mapping_error + batch_state" where
  "resolve_batch_step obs b = (let m = bs_mappings b in case bt_get (bs_indices b) (so_identity obs) of
      Some (i, j) \<Rightarrow>
        and_then (refresh_at i j obs m) (\<lambda>(changed, m').
        Inr (b\<lparr>bs_mappings := m', bs_changed := bs_changed b \<or> changed,
          bs_instance_ids := bs_instance_ids b @ [im_instance_id (pm_instances m ! i)]\<rparr>))
    | None \<Rightarrow>
        and_then (ensure (length (pm_instances m) < MAX_INSTANCES \<and> bs_total b < MAX_TOTAL_OBSERVATIONS) MappingCapacity) (\<lambda>_.
        and_then (generate_unique_id 8 (bs_allocated b) (bs_draws b)) (\<lambda>(k, draws).
        and_then (from_observation obs) (\<lambda>stored.
        Inr (b\<lparr>bs_mappings := m\<lparr>pm_instances := pm_instances m
              @ [\<lparr>im_instance_id = k, im_observations = [stored], im_logical_project_id = None\<rparr>]\<rparr>,
            bs_indices := bt_insert (so_identity obs) (length (pm_instances m), 0) (bs_indices b),
            bs_total := bs_total b + 1, bs_allocated := k # bs_allocated b, bs_draws := draws,
            bs_instance_ids := bs_instance_ids b @ [k], bs_created := bs_created b + 1, bs_changed := True\<rparr>)))))"

(* project_mapping.rs:1468-1520 resolve_observation_batch *)
definition resolve_observation_batch :: "string list \<Rightarrow> stored_observation list \<Rightarrow> (string list \<times> nat) mapping_operation" where
  "resolve_observation_batch draws batch m =
    and_then (fold_ok resolve_batch_step batch \<lparr>bs_mappings = m, bs_indices = observation_index m,
      bs_total = length (observation_index m), bs_allocated = List.map im_instance_id (pm_instances m), bs_draws = draws,
      bs_instance_ids = [], bs_created = 0, bs_changed = False\<rparr>) (\<lambda>b.
    Inr (((bs_instance_ids b, bs_created b), bs_changed b), canonicalize (bs_mappings b)))"

(* project_mapping.rs:1099-1136 ProjectMappingStore::bind_alias (operation) *)
definition bind_operation :: "string \<Rightarrow> stored_observation \<Rightarrow> unit mapping_operation" where
  "bind_operation instance_id obs m =
    and_then (find_instance_index m instance_id) (\<lambda>t.
    and_then (ensure (op_source_id (so_identity (hd (im_observations (pm_instances m ! t)))) = op_source_id (so_identity obs))
      MappingInput) (\<lambda>_.
    case find_observation_indices m (so_identity obs) of
      Some (owner, j) \<Rightarrow>
        if owner = t then and_then (refresh_at t j obs m) (\<lambda>(changed, m'). Inr (((), changed), m')) else Inl MappingExists
    | None \<Rightarrow>
        and_then (ensure (length (im_observations (pm_instances m ! t)) < MAX_OBSERVATIONS_PER_INSTANCE
            \<and> total_observation_count m < MAX_TOTAL_OBSERVATIONS) MappingCapacity) (\<lambda>_.
        and_then (from_observation obs) (\<lambda>stored.
        Inr (((), True), canonicalize (m\<lparr>pm_instances := (pm_instances m)[t := (pm_instances m ! t)
          \<lparr>im_observations := im_observations (pm_instances m ! t) @ [stored]\<rparr>]\<rparr>))))))"

definition remove_index :: "nat \<Rightarrow> 'a list \<Rightarrow> 'a list" where
  "remove_index i xs = take i xs @ drop (i + 1) xs"

(* project_mapping.rs:1192-1197 ProjectMappingStore::move_observation_alias (removal) *)
definition take_observation :: "nat \<Rightarrow> nat \<Rightarrow> instance_mapping list \<Rightarrow> instance_mapping list" where
  "take_observation i j is = (let rest = remove_index j (im_observations (is ! i))
     in if rest = [] then remove_index i is else is[i := (is ! i)\<lparr>im_observations := rest\<rparr>])"

(* project_mapping.rs:1150-1203 ProjectMappingStore::move_observation_alias (operation) *)
definition move_operation :: "observed_project \<Rightarrow> string \<Rightarrow> unit mapping_operation" where
  "move_operation identity target m =
    and_then (ok_or (find_observation_indices m identity) MappingNotFound) (\<lambda>(i, j).
    and_then (find_instance_index m target) (\<lambda>t.
    if i = t then Inr (((), False), m)
    else
      and_then (ensure (op_source_id (so_identity (hd (im_observations (pm_instances m ! t)))) = op_source_id identity)
        MappingInput) (\<lambda>_.
      and_then (ensure (length (im_observations (pm_instances m ! t)) < MAX_OBSERVATIONS_PER_INSTANCE) MappingCapacity) (\<lambda>_.
      let owner_logical = im_logical_project_id (pm_instances m ! i);
          target_logical = im_logical_project_id (pm_instances m ! t) in
      and_then (ensure (\<not> (owner_logical \<noteq> None \<and> target_logical \<noteq> None \<and> owner_logical \<noteq> target_logical)) MappingInput) (\<lambda>_.
      let obs = im_observations (pm_instances m ! i) ! j;
          m = m\<lparr>pm_instances := take_observation i j (pm_instances m)\<rparr> in
      and_then (find_instance_index m target) (\<lambda>t.
      Inr (((), True), canonicalize (remove_empty_logical_projects (m\<lparr>pm_instances := (pm_instances m)[t := (pm_instances m ! t)
        \<lparr>im_observations := im_observations (pm_instances m ! t) @ [obs]\<rparr>]\<rparr>)))))))))"

(* project_mapping.rs:1215-1241 ProjectMappingStore::split_observation (operation) *)
definition split_observation_operation :: "string list \<Rightarrow> observed_project \<Rightarrow> (string \<times> bool) mapping_operation" where
  "split_observation_operation draws identity m =
    and_then (ok_or (find_observation_indices m identity) MappingNotFound) (\<lambda>(i, j).
    let inst = pm_instances m ! i in
    if length (im_observations inst) = 1 then Inr (((im_instance_id inst, False), False), m)
    else
      and_then (ensure (length (pm_instances m) < MAX_INSTANCES) MappingCapacity) (\<lambda>_.
      let obs = im_observations inst ! j;
          m = m\<lparr>pm_instances := (pm_instances m)[i := inst\<lparr>im_observations := remove_index j (im_observations inst)\<rparr>]\<rparr> in
      and_then (generate_unique_instance_id draws m) (\<lambda>k.
      Inr (((k, True), True), canonicalize (m\<lparr>pm_instances := pm_instances m
        @ [\<lparr>im_instance_id = k, im_observations = [obs], im_logical_project_id = None\<rparr>]\<rparr>)))))"

(* project_mapping.rs:1279-1312 ProjectMappingStore::merge_instances (target) *)
definition merge_target ::
  "string list \<Rightarrow> string option \<Rightarrow> string option \<Rightarrow> project_mappings \<Rightarrow> mapping_error + (string \<times> bool) \<times> project_mappings" where
  "merge_target draws logical label m = (case logical of
      Some k \<Rightarrow>
        and_then (ensure (label = None) MappingInput) (\<lambda>_.
        and_then (ensure (mappings_logical_project k m \<noteq> None) MappingNotFound) (\<lambda>_. Inr ((k, False), m)))
    | None \<Rightarrow>
        and_then (ensure (length (pm_logical_projects m) < MAX_LOGICAL_PROJECTS) MappingCapacity) (\<lambda>_.
        and_then (ok_or label MappingInput) (\<lambda>l.
        and_then (generate_unique_logical_project_id draws m) (\<lambda>k.
        Inr ((k, True), m\<lparr>pm_logical_projects := pm_logical_projects m
          @ [\<lparr>lm_logical_project_id = k, lm_display_label = l\<rparr>]\<rparr>)))))"

definition assign_logical :: "string option \<Rightarrow> nat list \<Rightarrow> instance_mapping list \<Rightarrow> instance_mapping list" where
  "assign_logical v indexes is = fold (\<lambda>i is. is[i := (is ! i)\<lparr>im_logical_project_id := v\<rparr>]) indexes is"

(* project_mapping.rs:1266-1322 ProjectMappingStore::merge_instances (operation) *)
definition merge_operation ::
  "string list \<Rightarrow> string option \<Rightarrow> string option \<Rightarrow> string list \<Rightarrow> (string \<times> bool) mapping_operation" where
  "merge_operation draws logical label ids m =
    and_then (ensure (distinct ids) MappingInput) (\<lambda>_.
    and_then (map_ok (find_instance_index m) (sort ids)) (\<lambda>indexes.
    and_then (merge_target draws logical label m) (\<lambda>((target, created), m).
    let changed = (created \<or> list_ex (\<lambda>i. im_logical_project_id (pm_instances m ! i) \<noteq> Some target) indexes)
    in Inr (((target, created), changed), canonicalize (remove_empty_logical_projects
      (m\<lparr>pm_instances := assign_logical (Some target) indexes (pm_instances m)\<rparr>))))))"

(* project_mapping.rs:1346-1368 ProjectMappingStore::split_instances (operation) *)
definition split_instances_operation :: "string list \<Rightarrow> unit mapping_operation" where
  "split_instances_operation ids m =
    and_then (ensure (distinct ids) MappingInput) (\<lambda>_.
    and_then (map_ok (find_instance_index m) (sort ids)) (\<lambda>indexes.
    let changed = list_ex (\<lambda>i. im_logical_project_id (pm_instances m ! i) \<noteq> None) indexes
    in Inr (((), changed), canonicalize (remove_empty_logical_projects
      (m\<lparr>pm_instances := assign_logical None indexes (pm_instances m)\<rparr>)))))"

(* project_mapping.rs:1378-1388 ProjectMappingStore::rename_logical_project (operation) *)
definition rename_operation :: "string \<Rightarrow> string \<Rightarrow> unit mapping_operation" where
  "rename_operation k label m =
    and_then (ok_or (find_index (\<lambda>l. lm_logical_project_id l = k) (pm_logical_projects m)) MappingNotFound) (\<lambda>i.
    let l = pm_logical_projects m ! i
    in Inr (((), lm_display_label l \<noteq> label), m\<lparr>pm_logical_projects := (pm_logical_projects m)[i := l\<lparr>lm_display_label := label\<rparr>]\<rparr>))"

section \<open>The store\<close>

type_synonym mapping_file = "project_mappings option"

text \<open>The size of the JSON text of a document, \<open>None\<close> when it does not fit 64 bits.\<close>

type_synonym mapping_size = "project_mappings \<Rightarrow> u64 option"

(* project_mapping.rs:1630-1639 serialize_mappings *)
definition serialize_mappings :: "mapping_size \<Rightarrow> project_mappings \<Rightarrow> mapping_error + unit" where
  "serialize_mappings bytes_of m =
    and_then (mappings_validate m) (\<lambda>_.
    ensure (case bytes_of m of Some n \<Rightarrow> n \<le> MAX_MAPPING_FILE_BYTES | None \<Rightarrow> False) MappingTooLarge)"

(* project_mapping.rs:1751-1777 read_mappings *)
definition read_mappings :: "mapping_size \<Rightarrow> project_mappings \<Rightarrow> mapping_error + project_mappings" where
  "read_mappings bytes_of m =
    and_then (ensure (case bytes_of m of Some n \<Rightarrow> n \<le> MAX_MAPPING_FILE_BYTES | None \<Rightarrow> False) MappingTooLarge) (\<lambda>_.
    and_then (mappings_validate m) (\<lambda>_. Inr m))"

(* project_mapping.rs:1735-1749 load_or_create_locked *)
definition load_mappings_locked :: "mapping_size \<Rightarrow> mapping_file \<Rightarrow> (mapping_error + project_mappings) \<times> mapping_file" where
  "load_mappings_locked bytes_of file_state = (case file_state of
      Some m \<Rightarrow> (read_mappings bytes_of m, file_state)
    | None \<Rightarrow> (case serialize_mappings bytes_of project_mappings_default of
          Inl e \<Rightarrow> (Inl e, None)
        | Inr _ \<Rightarrow> (Inr project_mappings_default, Some project_mappings_default)))"

(* project_mapping.rs:1618-1628 ensure_expected_revision *)
definition ensure_mapping_revision :: "u64 \<Rightarrow> u64 \<Rightarrow> mapping_error + unit" where
  "ensure_mapping_revision expected actual = ensure (expected = actual) MappingStale"

definition commit_mappings :: "mapping_size \<Rightarrow> project_mappings \<Rightarrow> mapping_error + project_mappings" where
  "commit_mappings bytes_of m =
    and_then (advance_revision m) (\<lambda>m.
    let m = canonicalize m in and_then (mappings_validate m) (\<lambda>_. and_then (serialize_mappings bytes_of m) (\<lambda>_. Inr m)))"

(* project_mapping.rs:1392-1411 ProjectMappingStore::mutate *)
definition mutate_mappings ::
  "mapping_size \<Rightarrow> u64 \<Rightarrow> 'r mapping_operation \<Rightarrow> mapping_file \<Rightarrow> (mapping_error + project_mappings \<times> 'r) \<times> mapping_file" where
  "mutate_mappings bytes_of expected operation file_state =
    (let (loaded, file_state) = load_mappings_locked bytes_of file_state in
     case and_then loaded (\<lambda>m.
        and_then (ensure_mapping_revision expected (pm_revision m)) (\<lambda>_. operation m)) of
       Inl e \<Rightarrow> (Inl e, file_state)
     | Inr ((r, changed), m) \<Rightarrow>
         if changed then (case commit_mappings bytes_of m of
             Inl e \<Rightarrow> (Inl e, file_state)
           | Inr m \<Rightarrow> (Inr (m, r), Some m))
         else (Inr (m, r), file_state))"

(* project_mapping.rs:946-951 ProjectMappingStore::purge_source_observations (retain) *)
definition retain_other_sources :: "node_id \<Rightarrow> instance_mapping list \<Rightarrow> instance_mapping list" where
  "retain_other_sources source_id = filter (\<lambda>i. case im_observations i of
      [] \<Rightarrow> False | obs # _ \<Rightarrow> op_source_id (so_identity obs) \<noteq> source_id)"

(* project_mapping.rs:935-961 ProjectMappingStore::purge_source_observations *)
definition purge_source_observations :: "mapping_size \<Rightarrow> node_id \<Rightarrow> mapping_file \<Rightarrow> (mapping_error + nat) \<times> mapping_file" where
  "purge_source_observations bytes_of source_id file_state =
    (let (loaded, file_state) = load_mappings_locked bytes_of file_state in
     case loaded of
       Inl e \<Rightarrow> (Inl e, file_state)
     | Inr m \<Rightarrow>
         let kept = retain_other_sources source_id (pm_instances m);
             removed = length (pm_instances m) - length kept in
         if removed = 0 then (Inr 0, file_state)
         else (case commit_mappings bytes_of (remove_empty_logical_projects (m\<lparr>pm_instances := kept\<rparr>)) of
             Inl e \<Rightarrow> (Inl e, file_state)
           | Inr m \<Rightarrow> (Inr removed, Some m)))"

section \<open>The operations of the store\<close>

type_synonym 'r store_operation = "mapping_file \<Rightarrow> (mapping_error + project_mappings \<times> 'r) \<times> mapping_file"

(* project_mapping.rs:966-1001 ProjectMappingStore::resolve_or_create *)
definition resolve_or_create :: "mapping_size \<Rightarrow> u64 \<Rightarrow> string list \<Rightarrow> stored_observation \<Rightarrow> (string \<times> bool) store_operation" where
  "resolve_or_create bytes_of expected draws obs = mutate_mappings bytes_of expected (resolve_operation draws obs)"

(* project_mapping.rs:1011-1027 ProjectMappingStore::resolve_or_create_batch *)
definition resolve_or_create_batch ::
  "mapping_size \<Rightarrow> u64 \<Rightarrow> string list \<Rightarrow> stored_observation list \<Rightarrow> (string list \<times> nat) store_operation" where
  "resolve_or_create_batch bytes_of expected draws batch file_state = (case validate_observation_batch batch of
      Inl e \<Rightarrow> (Inl e, file_state)
    | Inr _ \<Rightarrow> mutate_mappings bytes_of expected (resolve_observation_batch draws batch) file_state)"

(* project_mapping.rs:1093-1138 ProjectMappingStore::bind_alias *)
definition bind_alias :: "mapping_size \<Rightarrow> u64 \<Rightarrow> string \<Rightarrow> stored_observation \<Rightarrow> unit store_operation" where
  "bind_alias bytes_of expected instance_id obs = mutate_mappings bytes_of expected (bind_operation instance_id obs)"

(* project_mapping.rs:1144-1205 ProjectMappingStore::move_observation_alias *)
definition move_observation_alias :: "mapping_size \<Rightarrow> u64 \<Rightarrow> observed_project \<Rightarrow> string \<Rightarrow> unit store_operation" where
  "move_observation_alias bytes_of expected identity target = mutate_mappings bytes_of expected (move_operation identity target)"

(* project_mapping.rs:1210-1247 ProjectMappingStore::split_observation *)
definition split_observation :: "mapping_size \<Rightarrow> u64 \<Rightarrow> string list \<Rightarrow> observed_project \<Rightarrow> (string \<times> bool) store_operation" where
  "split_observation bytes_of expected draws identity = mutate_mappings bytes_of expected (split_observation_operation draws identity)"

(* project_mapping.rs:1252-1330 ProjectMappingStore::merge_instances *)
definition merge_instances ::
  "mapping_size \<Rightarrow> u64 \<Rightarrow> string list \<Rightarrow> string option \<Rightarrow> string option \<Rightarrow> string list \<Rightarrow> (string \<times> bool) store_operation" where
  "merge_instances bytes_of expected draws logical label ids file_state =
    (if ids = [] then (Inl MappingInput, file_state)
     else mutate_mappings bytes_of expected (merge_operation draws logical label ids) file_state)"

(* project_mapping.rs:1335-1370 ProjectMappingStore::split_instances *)
definition split_instances :: "mapping_size \<Rightarrow> u64 \<Rightarrow> string list \<Rightarrow> unit store_operation" where
  "split_instances bytes_of expected ids file_state =
    (if ids = [] then (Inl MappingInput, file_state)
     else mutate_mappings bytes_of expected (split_instances_operation ids) file_state)"

(* project_mapping.rs:1372-1390 ProjectMappingStore::rename_logical_project *)
definition rename_logical_project :: "mapping_size \<Rightarrow> u64 \<Rightarrow> string \<Rightarrow> string \<Rightarrow> unit store_operation" where
  "rename_logical_project bytes_of expected k label = mutate_mappings bytes_of expected (rename_operation k label)"

end
