(* ===== verification/Project_View.thy ===== *)
theory Project_View
  imports Project_Mapping
begin

text \<open>
  Valid project mappings and their view (\<open>src/project_mapping.rs\<close>): what validation demands, written as
  one predicate; the placement of every observation in an instance and a logical project; and the
  edits the operations are made of, with what they do to the placements.
\<close>

section \<open>Valid mappings\<close>

definition identities :: "instance_mapping \<Rightarrow> observed_project list" where
  "identities i = List.map so_identity (im_observations i)"

definition instance_ok :: "instance_mapping \<Rightarrow> bool" where
  "instance_ok i \<longleftrightarrow> im_observations i \<noteq> [] \<and> length (im_observations i) \<le> MAX_OBSERVATIONS_PER_INSTANCE \<and> distinct (identities i)
     \<and> (\<exists>s. \<forall>x\<in>set (identities i). op_source_id x = s)
     \<and> (\<forall>obs\<in>set (im_observations i). validate_git_evidence (so_git_evidence obs) = Inr ())"

text \<open>What validation demands apart from the order of the lists.\<close>

definition mappings_ok :: "project_mappings \<Rightarrow> bool" where
  "mappings_ok m \<longleftrightarrow> pm_version m = PROJECT_MAPPING_VERSION \<and> length (pm_instances m) \<le> MAX_INSTANCES
     \<and> length (pm_logical_projects m) \<le> MAX_LOGICAL_PROJECTS \<and> distinct (List.map im_instance_id (pm_instances m))
     \<and> (\<forall>i\<in>set (pm_instances m). instance_ok i)
     \<and> (\<forall>i\<in>set (pm_instances m). \<forall>j\<in>set (pm_instances m). im_instance_id i \<noteq> im_instance_id j
          \<longrightarrow> set (identities i) \<inter> set (identities j) = {})
     \<and> total_observation_count m \<le> MAX_TOTAL_OBSERVATIONS
     \<and> distinct (List.map lm_logical_project_id (pm_logical_projects m))
     \<and> lm_logical_project_id ` set (pm_logical_projects m) = {l. \<exists>i\<in>set (pm_instances m). im_logical_project_id i = Some l}"

definition mappings_sorted :: "project_mappings \<Rightarrow> bool" where
  "mappings_sorted m \<longleftrightarrow> sorted (List.map im_instance_id (pm_instances m)) \<and> (\<forall>i\<in>set (pm_instances m). sorted (identities i))
     \<and> sorted (List.map lm_logical_project_id (pm_logical_projects m))"

lemma validate_observation_step:
  "validate_observation obs (p, s, seen, n) = Inr out \<longleftrightarrow>
     (\<forall>k. p = Some k \<longrightarrow> k < so_identity obs) \<and> (\<forall>k. s = Some k \<longrightarrow> op_source_id (so_identity obs) = k)
     \<and> so_identity obs \<notin> set seen \<and> validate_git_evidence (so_git_evidence obs) = Inr ()
     \<and> out = (Some (so_identity obs), Some (op_source_id (so_identity obs)), so_identity obs # seen, n + 1)"
  by (auto simp: validate_observation_def result_simps split: option.splits)

lemma validate_observations_out:
  "fold_ok validate_observation obs (p, s, seen, n) = Inr (p', s', seen', n') \<Longrightarrow>
   seen' = rev (List.map so_identity obs) @ seen \<and> n' = n + length obs"
proof (induction obs arbitrary: p s seen n)
  case (Cons o1 obs)
  then obtain p1 s1 seen1 n1 where o1: "validate_observation o1 (p, s, seen, n) = Inr (p1, s1, seen1, n1)"
    and r: "fold_ok validate_observation obs (p1, s1, seen1, n1) = Inr (p', s', seen', n')"
    by (auto simp: result_simps)
  show ?case using Cons.IH [OF r] o1 unfolding validate_observation_step by simp
qed simp

lemma validate_observations_some:
  "(\<exists>out. fold_ok validate_observation obs (Some k, Some s, seen, n) = Inr out) \<longleftrightarrow>
     sorted_wrt (<) (k # List.map so_identity obs)
     \<and> (\<forall>x\<in>set obs. op_source_id (so_identity x) = s \<and> so_identity x \<notin> set seen \<and> validate_git_evidence (so_git_evidence x) = Inr ())"
proof (induction obs arbitrary: k s seen n)
  case (Cons o1 obs)
  let ?ok = "\<lambda>x. validate_git_evidence (so_git_evidence x) = Inr ()"
  have "(\<exists>out. fold_ok validate_observation (o1 # obs) (Some k, Some s, seen, n) = Inr out) \<longleftrightarrow>
      k < so_identity o1 \<and> op_source_id (so_identity o1) = s \<and> so_identity o1 \<notin> set seen \<and> ?ok o1
      \<and> (\<exists>out. fold_ok validate_observation obs (Some (so_identity o1), Some s, so_identity o1 # seen, n + 1) = Inr out)"
    by (auto simp: and_then_Inr validate_observation_step)
  also have "\<dots> \<longleftrightarrow> k < so_identity o1 \<and> op_source_id (so_identity o1) = s \<and> so_identity o1 \<notin> set seen \<and> ?ok o1
      \<and> (\<forall>x\<in>set obs. so_identity o1 < so_identity x) \<and> sorted_wrt (<) (List.map so_identity obs)
      \<and> (\<forall>x\<in>set obs. op_source_id (so_identity x) = s \<and> so_identity x \<notin> set seen \<and> ?ok x)"
  proof -
    have "so_identity x \<notin> set (so_identity o1 # seen) \<longleftrightarrow> so_identity x \<notin> set seen" if "so_identity o1 < so_identity x" for x
      using that by auto
    then have "(\<forall>x\<in>set obs. so_identity o1 < so_identity x) \<Longrightarrow>
        (\<forall>x\<in>set obs. op_source_id (so_identity x) = s \<and> so_identity x \<notin> set (so_identity o1 # seen) \<and> ?ok x)
        \<longleftrightarrow> (\<forall>x\<in>set obs. op_source_id (so_identity x) = s \<and> so_identity x \<notin> set seen \<and> ?ok x)" by blast
    moreover have "sorted_wrt (<) (so_identity o1 # List.map so_identity obs) \<longleftrightarrow>
        (\<forall>x\<in>set obs. so_identity o1 < so_identity x) \<and> sorted_wrt (<) (List.map so_identity obs)" by simp
    ultimately show ?thesis unfolding Cons.IH by blast
  qed
  also have "\<dots> \<longleftrightarrow> sorted_wrt (<) (k # List.map so_identity (o1 # obs))
      \<and> (\<forall>x\<in>set (o1 # obs). op_source_id (so_identity x) = s \<and> so_identity x \<notin> set seen \<and> ?ok x)"
    unfolding list.map(2) sorted_wrt.simps list.set set_map ball_simps bex_simps image_insert using less_trans by blast
  finally show ?case .
qed simp

lemma validate_observations:
  assumes "im_observations i \<noteq> []"
  shows "(\<exists>out. fold_ok validate_observation (im_observations i) (None, None, seen, n) = Inr out) \<longleftrightarrow>
     sorted_wrt (<) (identities i) \<and> (\<exists>s. \<forall>x\<in>set (identities i). op_source_id x = s)
     \<and> set (identities i) \<inter> set seen = {} \<and> (\<forall>x\<in>set (im_observations i). validate_git_evidence (so_git_evidence x) = Inr ())"
proof -
  obtain o1 obs where obs: "im_observations i = o1 # obs" using assms by (cases "im_observations i") auto
  have "(\<exists>out. fold_ok validate_observation (o1 # obs) (None, None, seen, n) = Inr out) \<longleftrightarrow>
      so_identity o1 \<notin> set seen \<and> validate_git_evidence (so_git_evidence o1) = Inr ()
      \<and> (\<exists>out. fold_ok validate_observation obs (Some (so_identity o1), Some (op_source_id (so_identity o1)), so_identity o1 # seen, n + 1) = Inr out)"
    by (auto simp: and_then_Inr validate_observation_step)
  also have "\<dots> \<longleftrightarrow> sorted_wrt (<) (identities i) \<and> (\<forall>x\<in>set (identities i). op_source_id x = op_source_id (so_identity o1))
     \<and> set (identities i) \<inter> set seen = {} \<and> (\<forall>x\<in>set (im_observations i). validate_git_evidence (so_git_evidence x) = Inr ())"
    unfolding validate_observations_some by (auto simp: identities_def obs)
  also have "(\<forall>x\<in>set (identities i). op_source_id x = op_source_id (so_identity o1))
      \<longleftrightarrow> (\<exists>s. \<forall>x\<in>set (identities i). op_source_id x = s)"
    by (auto simp: identities_def obs)
  finally show ?thesis by (simp only: obs)
qed

definition instance_valid :: "instance_mapping \<Rightarrow> bool" where
  "instance_valid i \<longleftrightarrow> instance_ok i \<and> sorted (identities i)"

lemma validate_instance_step:
  "validate_instance i (p, seen, n) = Inr out \<longleftrightarrow>
     (\<forall>k. p = Some k \<longrightarrow> k < im_instance_id i) \<and> instance_valid i \<and> set (identities i) \<inter> set seen = {}
     \<and> out = (Some (im_instance_id i), rev (identities i) @ seen, n + length (im_observations i))"
proof -
  have "validate_instance i (p, seen, n) = Inr out \<longleftrightarrow> (\<forall>k. p = Some k \<longrightarrow> k < im_instance_id i)
     \<and> im_observations i \<noteq> [] \<and> length (im_observations i) \<le> MAX_OBSERVATIONS_PER_INSTANCE
     \<and> (\<exists>out. fold_ok validate_observation (im_observations i) (None, None, seen, n) = Inr out)
     \<and> out = (Some (im_instance_id i), rev (identities i) @ seen, n + length (im_observations i))"
    by (auto simp: validate_instance_def result_simps identities_def dest: validate_observations_out split: option.splits)
  then show ?thesis
    using validate_observations [of i seen n] by (auto simp: instance_valid_def instance_ok_def strict_sorted_iff)
qed

definition disjoint_instances :: "instance_mapping list \<Rightarrow> bool" where
  "disjoint_instances is \<longleftrightarrow> (\<forall>i\<in>set is. \<forall>j\<in>set is. im_instance_id i \<noteq> im_instance_id j \<longrightarrow> set (identities i) \<inter> set (identities j) = {})"

lemma disjoint_instances_Cons:
  "(\<forall>j\<in>set is. im_instance_id i \<noteq> im_instance_id j) \<Longrightarrow>
   disjoint_instances (i # is) \<longleftrightarrow> disjoint_instances is \<and> (\<forall>j\<in>set is. set (identities i) \<inter> set (identities j) = {})"
  unfolding disjoint_instances_def list.set by blast

lemma validate_instances:
  "(\<exists>out. fold_ok validate_instance is (p, seen, n) = Inr out \<and> snd (snd out) = k) \<longleftrightarrow>
     sorted_wrt (<) (List.map im_instance_id is) \<and> (\<forall>q. p = Some q \<longrightarrow> (\<forall>i\<in>set is. q < im_instance_id i))
     \<and> (\<forall>i\<in>set is. instance_valid i \<and> set (identities i) \<inter> set seen = {}) \<and> disjoint_instances is
     \<and> k = n + sum_list (List.map (\<lambda>i. length (im_observations i)) is)"
proof (induction "is" arbitrary: p seen n)
  case Nil
  then show ?case by (auto simp: disjoint_instances_def)
next
  case (Cons i "is")
  let ?sum = "sum_list (List.map (\<lambda>i. length (im_observations i)) is)"
  have "(\<exists>out. fold_ok validate_instance (i # is) (p, seen, n) = Inr out \<and> snd (snd out) = k) \<longleftrightarrow>
      (\<forall>q. p = Some q \<longrightarrow> q < im_instance_id i) \<and> instance_valid i \<and> set (identities i) \<inter> set seen = {}
      \<and> (\<exists>out. fold_ok validate_instance is (Some (im_instance_id i), rev (identities i) @ seen, n + length (im_observations i)) = Inr out
           \<and> snd (snd out) = k)"
    by (auto simp: and_then_Inr validate_instance_step)
  also have "\<dots> \<longleftrightarrow> (\<forall>q. p = Some q \<longrightarrow> q < im_instance_id i) \<and> instance_valid i \<and> set (identities i) \<inter> set seen = {}
      \<and> sorted_wrt (<) (List.map im_instance_id is) \<and> (\<forall>j\<in>set is. im_instance_id i < im_instance_id j)
      \<and> (\<forall>j\<in>set is. instance_valid j \<and> set (identities j) \<inter> set (rev (identities i) @ seen) = {}) \<and> disjoint_instances is
      \<and> k = n + length (im_observations i) + ?sum"
    unfolding Cons.IH by blast
  also have "\<dots> \<longleftrightarrow> sorted_wrt (<) (List.map im_instance_id (i # is)) \<and> (\<forall>q. p = Some q \<longrightarrow> (\<forall>i\<in>set (i # is). q < im_instance_id i))
     \<and> (\<forall>i\<in>set (i # is). instance_valid i \<and> set (identities i) \<inter> set seen = {}) \<and> disjoint_instances (i # is)
     \<and> k = n + sum_list (List.map (\<lambda>i. length (im_observations i)) (i # is))" (is "?L \<longleftrightarrow> ?R")
  proof (cases "\<forall>j\<in>set is. im_instance_id i < im_instance_id j")
    case True
    then have ne: "\<forall>j\<in>set is. im_instance_id i \<noteq> im_instance_id j" by auto
    have "\<forall>q. p = Some q \<longrightarrow> q < im_instance_id i \<longrightarrow> (\<forall>j\<in>set is. q < im_instance_id j)" using True less_trans by blast
    moreover have "k = n + sum_list (List.map (\<lambda>i. length (im_observations i)) (i # is)) \<longleftrightarrow> k = n + length (im_observations i) + ?sum" by (simp add: add.assoc)
    moreover have "sorted_wrt (<) (List.map im_instance_id (i # is)) \<longleftrightarrow> sorted_wrt (<) (List.map im_instance_id is)" using True by simp
    ultimately show ?thesis using True unfolding disjoint_instances_Cons [OF ne] list.set set_append set_rev by blast
  next
    case False
    then have "\<not> sorted_wrt (<) (List.map im_instance_id (i # is))" by auto
    then show ?thesis using False by blast
  qed
  finally show ?case .
qed

lemma validate_logicals:
  "(\<exists>out. fold_ok validate_logical ls (p, ids) = Inr out \<and> snd out = ids') \<longleftrightarrow>
     sorted_wrt (<) (List.map lm_logical_project_id ls) \<and> (\<forall>q. p = Some q \<longrightarrow> (\<forall>l\<in>set ls. q < lm_logical_project_id l))
     \<and> ids' = fold (\<lambda>l. List.insert (lm_logical_project_id l)) ls ids"
proof (induction ls arbitrary: p ids)
  case Nil
  then show ?case by auto
next
  case (Cons l ls)
  have "(\<exists>out. fold_ok validate_logical (l # ls) (p, ids) = Inr out \<and> snd out = ids') \<longleftrightarrow>
      (\<forall>q. p = Some q \<longrightarrow> q < lm_logical_project_id l)
      \<and> (\<exists>out. fold_ok validate_logical ls (Some (lm_logical_project_id l), List.insert (lm_logical_project_id l) ids) = Inr out \<and> snd out = ids')"
    by (auto simp: and_then_Inr validate_logical_def [of l] result_simps split: option.splits)
  also have "\<dots> \<longleftrightarrow> (\<forall>q. p = Some q \<longrightarrow> q < lm_logical_project_id l) \<and> sorted_wrt (<) (List.map lm_logical_project_id ls)
      \<and> (\<forall>j\<in>set ls. lm_logical_project_id l < lm_logical_project_id j)
      \<and> ids' = fold (\<lambda>l. List.insert (lm_logical_project_id l)) (l # ls) ids"
    unfolding Cons.IH by simp
  also have "\<dots> \<longleftrightarrow> sorted_wrt (<) (List.map lm_logical_project_id (l # ls))
      \<and> (\<forall>q. p = Some q \<longrightarrow> (\<forall>j\<in>set (l # ls). q < lm_logical_project_id j))
      \<and> ids' = fold (\<lambda>l. List.insert (lm_logical_project_id l)) (l # ls) ids"
    unfolding list.map(2) sorted_wrt.simps list.set set_map using less_trans by blast
  finally show ?case .
qed

lemma validate_references:
  "fold_ok (validate_reference ids) is r = Inr r' \<longleftrightarrow>
     (\<forall>i\<in>set is. \<forall>l. im_logical_project_id i = Some l \<longrightarrow> l \<in> set ids)
     \<and> r' = fold List.insert (List.map_filter im_logical_project_id is) r"
proof (induction "is" arbitrary: r)
  case Nil
  then show ?case by (auto simp: map_filter_simps)
next
  case (Cons i "is")
  show ?case
  proof (cases "im_logical_project_id i")
    case None
    then show ?thesis using Cons.IH by (simp add: validate_reference_def [of ids i] map_filter_simps)
  next
    case (Some l)
    then show ?thesis using Cons.IH by (auto simp: validate_reference_def [of ids i] map_filter_simps result_simps)
  qed
qed

lemma distinct_fold_insert: "distinct r \<Longrightarrow> distinct (fold List.insert xs r) \<and> set (fold List.insert xs r) = set xs \<union> set r"
  by (induction xs arbitrary: r) auto

lemma set_map_filter_Some: "set (List.map_filter f xs) = {y. \<exists>x\<in>set xs. f x = Some y}"
  by (induction xs) (auto simp: map_filter_simps split: option.splits)

theorem mappings_valid_iff: "mappings_validate m = Inr () \<longleftrightarrow> mappings_ok m \<and> mappings_sorted m"
proof -
  let ?ids = "fold (\<lambda>l. List.insert (lm_logical_project_id l)) (pm_logical_projects m) []"
  let ?ref = "fold List.insert (List.map_filter im_logical_project_id (pm_instances m)) []"
  have ids: "?ids = fold List.insert (List.map lm_logical_project_id (pm_logical_projects m)) []" by (simp add: fold_map comp_def)
  have d: "distinct ?ids" "set ?ids = lm_logical_project_id ` set (pm_logical_projects m)"
    "distinct ?ref" "set ?ref = {l. \<exists>i\<in>set (pm_instances m). im_logical_project_id i = Some l}"
    unfolding ids by (simp_all add: distinct_fold_insert set_map_filter_Some)
  have card: "length ?ref = length ?ids \<longleftrightarrow> set ?ref = set ?ids" if "set ?ref \<subseteq> set ?ids"
    using that d(1,3) by (metis card_subset_eq distinct_card finite_set)
  have "mappings_validate m = Inr () \<longleftrightarrow> pm_version m = PROJECT_MAPPING_VERSION \<and> length (pm_instances m) \<le> MAX_INSTANCES
     \<and> length (pm_logical_projects m) \<le> MAX_LOGICAL_PROJECTS
     \<and> (\<exists>k. (\<exists>out. fold_ok validate_instance (pm_instances m) (None, [], 0) = Inr out \<and> snd (snd out) = k) \<and> k \<le> MAX_TOTAL_OBSERVATIONS)
     \<and> (\<exists>ids. (\<exists>out. fold_ok validate_logical (pm_logical_projects m) (None, []) = Inr out \<and> snd out = ids)
         \<and> (\<exists>r. fold_ok (validate_reference ids) (pm_instances m) [] = Inr r \<and> length r = length ids))"
    by (auto simp: mappings_validate_def result_simps)
  also have "\<dots> \<longleftrightarrow> pm_version m = PROJECT_MAPPING_VERSION \<and> length (pm_instances m) \<le> MAX_INSTANCES
     \<and> length (pm_logical_projects m) \<le> MAX_LOGICAL_PROJECTS
     \<and> sorted_wrt (<) (List.map im_instance_id (pm_instances m)) \<and> (\<forall>i\<in>set (pm_instances m). instance_valid i)
     \<and> disjoint_instances (pm_instances m) \<and> total_observation_count m \<le> MAX_TOTAL_OBSERVATIONS
     \<and> sorted_wrt (<) (List.map lm_logical_project_id (pm_logical_projects m)) \<and> set ?ref \<subseteq> set ?ids \<and> length ?ref = length ?ids"
    unfolding validate_instances validate_logicals validate_references d(4) by (auto simp: total_observation_count_def)
  also have "\<dots> \<longleftrightarrow> mappings_ok m \<and> mappings_sorted m"
    unfolding mappings_ok_def mappings_sorted_def strict_sorted_iff instance_valid_def disjoint_instances_def
    using card d(2,4) by auto
  finally show ?thesis .
qed

lemma map_insort_key: "List.map f (insort_key f x xs) = insort (f x) (List.map f xs)"
  by (induction xs) auto

lemma map_sort_key: "List.map f (sort_key f xs) = sort (List.map f xs)"
  by (induction xs) (simp_all add: map_insort_key)

lemma identities_canonical [simp]:
  "identities (i\<lparr>im_observations := sort_key so_identity (im_observations i)\<rparr>) = sort (identities i)"
  by (simp add: identities_def map_sort_key)

definition canonical_instance :: "instance_mapping \<Rightarrow> instance_mapping" where
  "canonical_instance i = i\<lparr>im_observations := sort_key so_identity (im_observations i)\<rparr>"

lemma canonical_instance_simps [simp]:
  "im_instance_id (canonical_instance i) = im_instance_id i" "im_logical_project_id (canonical_instance i) = im_logical_project_id i"
  "set (im_observations (canonical_instance i)) = set (im_observations i)"
  "length (im_observations (canonical_instance i)) = length (im_observations i)"
  "identities (canonical_instance i) = sort (identities i)" "im_observations (canonical_instance i) = [] \<longleftrightarrow> im_observations i = []"
  by (simp_all add: canonical_instance_def) (metis length_0_conv length_sort)

lemma canonicalize_instances:
  "pm_instances (canonicalize m) = sort_key im_instance_id (List.map canonical_instance (pm_instances m))"
  "set (pm_instances (canonicalize m)) = canonical_instance ` set (pm_instances m)"
  "set (pm_logical_projects (canonicalize m)) = set (pm_logical_projects m)" "pm_version (canonicalize m) = pm_version m"
  "pm_revision (canonicalize m) = pm_revision m"
  by (simp_all add: canonicalize_def canonical_instance_def [abs_def])

lemma sum_list_sort_key: "sum_list (List.map f (sort_key g xs)) = (sum_list (List.map f xs) :: nat)"
proof (induction xs)
  case (Cons x xs)
  have "sum_list (List.map f (insort_key g x ys)) = f x + sum_list (List.map f ys)" for ys by (induction ys) auto
  then show ?case using Cons by simp
qed simp

lemma canonicalize_total: "total_observation_count (canonicalize m) = total_observation_count m"
  by (simp add: total_observation_count_def canonicalize_instances(1) sum_list_sort_key comp_def)

lemma canonicalize_ok:
  assumes "mappings_ok m"
  shows "mappings_ok (canonicalize m) \<and> mappings_sorted (canonicalize m)"
proof -
  have "instance_ok (canonical_instance i)" if "instance_ok i" for i using that by (auto simp: instance_ok_def)
  moreover have "distinct (List.map im_instance_id (pm_instances (canonicalize m)))"
    using assms unfolding mappings_ok_def canonicalize_instances(1) map_sort_key distinct_sort by (simp add: comp_def)
  moreover have "distinct (List.map lm_logical_project_id (pm_logical_projects (canonicalize m)))"
    using assms by (simp add: canonicalize_def map_sort_key mappings_ok_def)
  moreover have "length (pm_instances (canonicalize m)) = length (pm_instances m)"
    "length (pm_logical_projects (canonicalize m)) = length (pm_logical_projects m)" by (simp_all add: canonicalize_def)
  ultimately have "mappings_ok (canonicalize m)"
    using assms unfolding mappings_ok_def canonicalize_instances canonicalize_total by (auto simp: canonicalize_instances)
  moreover have "mappings_sorted (canonicalize m)"
    unfolding mappings_sorted_def canonicalize_instances(2) by (simp add: canonicalize_def map_sort_key)
  ultimately show ?thesis by blast
qed

lemma commit_never_invalid:
  assumes "mappings_ok m"
  shows "commit_mappings bytes_of m \<noteq> Inl MappingInvalid"
    "commit_mappings bytes_of m = Inr m' \<Longrightarrow> mappings_validate m' = Inr () \<and> m' = (canonicalize m)\<lparr>pm_revision := pm_revision m + 1\<rparr>"
proof -
  have c: "canonicalize (m\<lparr>pm_revision := r\<rparr>) = (canonicalize m)\<lparr>pm_revision := r\<rparr>" for r by (simp add: canonicalize_def)
  have ok: "mappings_ok (m\<lparr>pm_revision := r\<rparr>)" for r using assms by (simp add: mappings_ok_def total_observation_count_def)
  have v: "mappings_validate (canonicalize (m\<lparr>pm_revision := r\<rparr>)) = Inr ()" for r
    using canonicalize_ok [OF ok] by (simp add: mappings_valid_iff)
  show "commit_mappings bytes_of m \<noteq> Inl MappingInvalid"
    using v by (auto simp: commit_mappings_def advance_revision_def serialize_mappings_def result_simps Let_def split: option.splits)
  show "commit_mappings bytes_of m = Inr m' \<Longrightarrow> mappings_validate m' = Inr () \<and> m' = (canonicalize m)\<lparr>pm_revision := pm_revision m + 1\<rparr>"
    using v by (auto simp: commit_mappings_def advance_revision_def serialize_mappings_def result_simps Let_def checked_add_def c split: if_splits)
qed

section \<open>The view of a mapping\<close>

text \<open>An observation with its instance and the logical project of that instance.\<close>

definition placed :: "instance_mapping \<Rightarrow> (observed_project \<times> string \<times> string option) set" where
  "placed i = (\<lambda>x. (x, im_instance_id i, im_logical_project_id i)) ` set (identities i)"

definition placements :: "project_mappings \<Rightarrow> (observed_project \<times> string \<times> string option) set" where
  "placements m = (\<Union>i\<in>set (pm_instances m). placed i)"

lemma placed_iff: "(x, k, v) \<in> placed i \<longleftrightarrow> x \<in> set (identities i) \<and> k = im_instance_id i \<and> v = im_logical_project_id i"
  by (auto simp: placed_def)

lemma placements_iff:
  "(x, k, v) \<in> placements m \<longleftrightarrow>
     (\<exists>i\<in>set (pm_instances m). x \<in> set (identities i) \<and> k = im_instance_id i \<and> v = im_logical_project_id i)"
  by (simp add: placements_def placed_iff)

lemma placed_canonical [simp]: "placed (canonical_instance i) = placed i"
  by (simp add: placed_def)

definition view :: "project_mappings \<Rightarrow> observed_project \<rightharpoonup> string \<times> string option" where
  "view m x = map_option (\<lambda>i. (im_instance_id i, im_logical_project_id i)) (instance_for_observation x m)"

lemma list_ex_identities: "list_ex (\<lambda>obs. so_identity obs = x) (im_observations i) \<longleftrightarrow> x \<in> set (identities i)"
  by (auto simp: list_ex_iff identities_def)

text \<open>The demands of validation that do not depend on empty logical projects.\<close>

definition base_ok :: "project_mappings \<Rightarrow> bool" where
  "base_ok m \<longleftrightarrow> pm_version m = PROJECT_MAPPING_VERSION \<and> length (pm_instances m) \<le> MAX_INSTANCES
     \<and> length (pm_logical_projects m) \<le> MAX_LOGICAL_PROJECTS \<and> distinct (List.map im_instance_id (pm_instances m))
     \<and> (\<forall>i\<in>set (pm_instances m). instance_ok i) \<and> disjoint_instances (pm_instances m)
     \<and> total_observation_count m \<le> MAX_TOTAL_OBSERVATIONS
     \<and> distinct (List.map lm_logical_project_id (pm_logical_projects m))
     \<and> {l. \<exists>i\<in>set (pm_instances m). im_logical_project_id i = Some l} \<subseteq> lm_logical_project_id ` set (pm_logical_projects m)"

lemma mappings_ok_base:
  "mappings_ok m \<longleftrightarrow> base_ok m
     \<and> lm_logical_project_id ` set (pm_logical_projects m) \<subseteq> {l. \<exists>i\<in>set (pm_instances m). im_logical_project_id i = Some l}"
  unfolding mappings_ok_def base_ok_def disjoint_instances_def by blast

lemma base_ok_functional:
  assumes "base_ok m" "(x, k, v) \<in> placements m" "(x, k', v') \<in> placements m"
  shows "k' = k" "v' = v"
proof -
  obtain i j where i: "i \<in> set (pm_instances m)" "x \<in> set (identities i)" "k = im_instance_id i" "v = im_logical_project_id i"
    and j: "j \<in> set (pm_instances m)" "x \<in> set (identities j)" "k' = im_instance_id j" "v' = im_logical_project_id j"
    using assms(2,3) by (auto simp: placements_iff)
  have "im_instance_id i = im_instance_id j"
    using assms(1) i j unfolding base_ok_def disjoint_instances_def by blast
  moreover have "inj_on im_instance_id (set (pm_instances m))" using assms(1) by (simp add: base_ok_def distinct_map)
  ultimately show "k' = k" "v' = v" using i j by (metis inj_onD)+
qed

lemma view_iff:
  assumes "base_ok m"
  shows "view m x = Some kv \<longleftrightarrow> (x, kv) \<in> placements m"
proof
  assume "view m x = Some kv"
  then show "(x, kv) \<in> placements m"
    by (cases kv) (auto simp: view_def instance_for_observation_def placements_iff list_ex_identities find_Some_iff)
next
  assume p: "(x, kv) \<in> placements m"
  then obtain i where i: "i \<in> set (pm_instances m)" "x \<in> set (identities i)" by (cases kv) (auto simp: placements_iff)
  then obtain j where j: "instance_for_observation x m = Some j"
    unfolding instance_for_observation_def list_ex_identities by (metis (no_types, lifting) find_None_iff not_None_eq)
  then have "(x, im_instance_id j, im_logical_project_id j) \<in> placements m"
    by (auto simp: instance_for_observation_def placements_iff list_ex_identities find_Some_iff)
  then show "view m x = Some kv" using base_ok_functional [OF assms] p j by (cases kv) (auto simp: view_def)
qed

lemma view_eqI:
  assumes "base_ok m" "\<And>x kv. f x = Some kv \<longleftrightarrow> (x, kv) \<in> placements m"
  shows "view m = f"
  using view_iff [OF assms(1)] assms(2) by (intro ext) (metis not_Some_eq)

lemma placements_canonicalize [simp]: "placements (canonicalize m) = placements m"
  by (simp add: placements_def canonicalize_instances)

lemma placements_revision [simp]: "placements (m\<lparr>pm_revision := r\<rparr>) = placements m"
  "placements (m\<lparr>pm_logical_projects := ls\<rparr>) = placements m"
  by (simp_all add: placements_def)

lemma placements_remove_empty [simp]: "placements (remove_empty_logical_projects m) = placements m"
  by (simp add: remove_empty_logical_projects_def Let_def)

lemma remove_empty_ok: "base_ok m \<Longrightarrow> mappings_ok (remove_empty_logical_projects m)"
proof -
  assume ok: "base_ok m"
  let ?R = "{l. \<exists>i\<in>set (pm_instances m). im_logical_project_id i = Some l}"
  let ?ls = "filter (\<lambda>l. lm_logical_project_id l \<in> ?R) (pm_logical_projects m)"
  have r: "remove_empty_logical_projects m = m\<lparr>pm_logical_projects := ?ls\<rparr>"
    by (simp add: remove_empty_logical_projects_def set_map_filter_Some)
  have "?R \<subseteq> lm_logical_project_id ` set (pm_logical_projects m)" using ok by (simp add: base_ok_def)
  then have "lm_logical_project_id ` set ?ls = ?R" unfolding set_filter by blast
  moreover have "length ?ls \<le> MAX_LOGICAL_PROJECTS" using ok length_filter_le le_trans unfolding base_ok_def by blast
  ultimately show ?thesis
    using ok unfolding mappings_ok_base base_ok_def r total_observation_count_def by (simp add: distinct_map_filter)
qed

section \<open>Changing one instance\<close>

lemma find_index_Some: "find_index P xs = Some i \<Longrightarrow> i < length xs \<and> P (xs ! i)"
  by (auto simp: find_index_def Let_def split: if_splits dest: nth_length_takeWhile)

lemma find_index_None: "find_index P xs = None \<longleftrightarrow> (\<forall>x\<in>set xs. \<not> P x)"
proof -
  have "length (takeWhile (\<lambda>x. \<not> P x) xs) < length xs \<longleftrightarrow> (\<exists>x\<in>set xs. P x)"
    by (induction xs) auto
  then show ?thesis by (auto simp: find_index_def Let_def)
qed

lemma find_instance_index_Inr:
  "find_instance_index m k = Inr t \<Longrightarrow> t < length (pm_instances m) \<and> im_instance_id (pm_instances m ! t) = k"
  by (auto simp: find_instance_index_def result_simps dest: find_index_Some)

lemma find_observation_Some:
  assumes "find_observation_indices m x = Some (i, j)"
  shows "i < length (pm_instances m)" "j < length (im_observations (pm_instances m ! i))"
    "so_identity (im_observations (pm_instances m ! i) ! j) = x"
  using assms by (auto simp: find_observation_indices_def bind_eq_Some_conv dest: find_index_Some)

lemma find_observation_None:
  "find_observation_indices m x = None \<longleftrightarrow> (\<forall>i\<in>set (pm_instances m). x \<notin> set (identities i))"
proof (cases "find_index (\<lambda>i. x \<in> set (identities i)) (pm_instances m)")
  case None
  then have "\<forall>i\<in>set (pm_instances m). x \<notin> set (identities i)" by (simp add: find_index_None)
  then show ?thesis using None unfolding find_observation_indices_def list_ex_identities by simp
next
  case (Some t)
  then have t: "t < length (pm_instances m)" "x \<in> set (identities (pm_instances m ! t))" using find_index_Some by force+
  then have "find_index (\<lambda>obs. so_identity obs = x) (im_observations (pm_instances m ! t)) \<noteq> None"
    by (auto simp: find_index_None identities_def)
  then show ?thesis using Some t by (auto simp: find_observation_indices_def list_ex_identities)
qed

text \<open>Replacing an instance by one with the same identifier.\<close>

definition replace :: "nat \<Rightarrow> instance_mapping \<Rightarrow> project_mappings \<Rightarrow> project_mappings" where
  "replace t y m = m\<lparr>pm_instances := (pm_instances m)[t := y]\<rparr>"

lemma distinct_instances: "base_ok m \<Longrightarrow> distinct (pm_instances m)"
  by (simp add: base_ok_def distinct_map)

lemma set_replace:
  assumes "base_ok m" "t < length (pm_instances m)"
  shows "set (pm_instances (replace t y m)) = Set.insert y (set (pm_instances m) - {pm_instances m ! t})"
  using set_update_distinct [OF distinct_instances [OF assms(1)] assms(2)] by (simp add: replace_def)

lemma sum_list_map_update: "t < length xs \<Longrightarrow> sum_list (List.map f (xs[t := y])) + f (xs ! t) = sum_list (List.map f xs) + (f y :: nat)"
proof (induction xs arbitrary: t)
  case (Cons x xs)
  then show ?case by (cases t) (auto simp: add.assoc)
qed simp

lemma total_replace:
  assumes "t < length (pm_instances m)"
  shows "total_observation_count (replace t y m) + length (im_observations (pm_instances m ! t))
    = total_observation_count m + length (im_observations y)"
  using sum_list_map_update [OF assms, of "\<lambda>i. length (im_observations i)" y] by (simp add: total_observation_count_def replace_def)

lemma base_replace:
  assumes ok: "base_ok m" "t < length (pm_instances m)" and y: "instance_ok y" "im_instance_id y = im_instance_id (pm_instances m ! t)"
    and fresh: "\<And>j. j \<in> set (pm_instances m) \<Longrightarrow> j \<noteq> pm_instances m ! t \<Longrightarrow> set (identities y) \<inter> set (identities j) = {}"
    and total: "total_observation_count (replace t y m) \<le> MAX_TOTAL_OBSERVATIONS"
    and logical: "\<And>l. im_logical_project_id y = Some l \<Longrightarrow> l \<in> lm_logical_project_id ` set (pm_logical_projects m)"
  shows "base_ok (replace t y m)"
    "placements (replace t y m) = {p \<in> placements m. fst (snd p) \<noteq> im_instance_id y}
       \<union> placed y"
proof -
  let ?i = "pm_instances m ! t" and ?rest = "set (pm_instances m) - {pm_instances m ! t}"
  have set: "set (pm_instances (replace t y m)) = Set.insert y ?rest" by (rule set_replace [OF ok])
  have ids: "List.map im_instance_id ((pm_instances m)[t := y]) = List.map im_instance_id (pm_instances m)"
    using ok(2) y(2) by (metis list_update_id map_update nth_map)
  have inj: "inj_on im_instance_id (set (pm_instances m))" using ok(1) by (simp add: base_ok_def distinct_map)
  have other: "im_instance_id j \<noteq> im_instance_id y" if "j \<in> ?rest" for j
    using that inj ok(2) y(2) by (metis DiffD1 DiffD2 inj_onD insertI1 nth_mem)
  have "disjoint_instances (pm_instances (replace t y m))"
    unfolding disjoint_instances_def set
    using ok(1) fresh unfolding base_ok_def disjoint_instances_def by (metis DiffD1 DiffD2 Int_commute insertE insertI1)
  moreover have "instance_ok i" if "i \<in> Set.insert y ?rest" for i using that y(1) ok(1) unfolding base_ok_def by blast
  moreover have "{l. \<exists>i\<in>Set.insert y ?rest. im_logical_project_id i = Some l} \<subseteq> lm_logical_project_id ` set (pm_logical_projects m)"
    using logical ok(1) unfolding base_ok_def by blast
  ultimately show "base_ok (replace t y m)"
    using ok(1) ids total set unfolding base_ok_def by (simp add: replace_def)
  have "{p \<in> placements m. fst (snd p) \<noteq> im_instance_id y} = (\<Union>i\<in>?rest. placed i)"
    unfolding placements_def placed_def using other y(2) by auto
  then show "placements (replace t y m) = {p \<in> placements m. fst (snd p) \<noteq> im_instance_id y} \<union> placed y"
    unfolding placements_def set by auto
qed

section \<open>Adding and removing instances\<close>

lemma mappings_ok_placements:
  "mappings_ok m \<longleftrightarrow> base_ok m \<and> (\<forall>l\<in>set (pm_logical_projects m). \<exists>x k. (x, k, Some (lm_logical_project_id l)) \<in> placements m)"
proof -
  have "{l. \<exists>i\<in>set (pm_instances m). im_logical_project_id i = Some l} = {l. \<exists>x k. (x, k, Some l) \<in> placements m}" if "base_ok m"
  proof -
    have "\<exists>x. x \<in> set (identities i)" if "i \<in> set (pm_instances m)" for i
      using that \<open>base_ok m\<close> by (auto simp: base_ok_def instance_ok_def identities_def neq_Nil_conv)
    then show ?thesis unfolding placements_iff by fastforce
  qed
  moreover have "lm_logical_project_id ` set (pm_logical_projects m) \<subseteq> {l. \<exists>x k. (x, k, Some l) \<in> placements m}
      \<longleftrightarrow> (\<forall>l\<in>set (pm_logical_projects m). \<exists>x k. (x, k, Some (lm_logical_project_id l)) \<in> placements m)" by blast
  ultimately show ?thesis unfolding mappings_ok_base by (metis (no_types, lifting))
qed

lemma base_ok_instance: "base_ok m \<Longrightarrow> i \<in> set (pm_instances m) \<Longrightarrow> instance_ok i"
  by (simp add: base_ok_def)

lemma base_ok_same: "base_ok m \<Longrightarrow> i \<in> set (pm_instances m) \<Longrightarrow> j \<in> set (pm_instances m) \<Longrightarrow> im_instance_id i = im_instance_id j \<Longrightarrow> i = j"
  by (auto simp: base_ok_def distinct_map dest: inj_onD)

lemma base_ok_disjoint:
  assumes "base_ok m" "i \<in> set (pm_instances m)" "j \<in> set (pm_instances m)" "i \<noteq> j"
  shows "set (identities i) \<inter> set (identities j) = {}"
proof -
  have "im_instance_id i \<noteq> im_instance_id j" using base_ok_same assms by blast
  then show ?thesis using assms unfolding base_ok_def disjoint_instances_def by blast
qed

lemma base_ok_logical: "base_ok m \<Longrightarrow> i \<in> set (pm_instances m) \<Longrightarrow> im_logical_project_id i = Some l \<Longrightarrow> l \<in> lm_logical_project_id ` set (pm_logical_projects m)"
  unfolding base_ok_def by blast

lemma placements_of_instance:
  assumes "base_ok m" "i \<in> set (pm_instances m)"
  shows "{p \<in> placements m. fst (snd p) = im_instance_id i} = placed i"
proof -
  have "p \<in> placed i" if "p \<in> placements m" "fst (snd p) = im_instance_id i" for p
    using that base_ok_same [OF assms(1) _ assms(2)] unfolding placements_def placed_def by fastforce
  moreover have "placed i \<subseteq> {p \<in> placements m. fst (snd p) = im_instance_id i}" using assms(2) by (auto simp: placements_def placed_def)
  ultimately show ?thesis by blast
qed

lemma mappings_okI:
  assumes "mappings_ok m" "base_ok m'" "pm_logical_projects m' = pm_logical_projects m"
    "\<And>x k l. (x, k, Some l) \<in> placements m \<Longrightarrow> \<exists>x k. (x, k, Some l) \<in> placements m'"
  shows "mappings_ok m'"
  using assms unfolding mappings_ok_placements by metis

definition add_instance :: "instance_mapping \<Rightarrow> project_mappings \<Rightarrow> project_mappings" where
  "add_instance y m = m\<lparr>pm_instances := pm_instances m @ [y]\<rparr>"

lemma base_extend:
  assumes "base_ok m" "instance_ok y" "im_instance_id y \<notin> im_instance_id ` set (pm_instances m)"
    "\<And>x. x \<in> set (identities y) \<Longrightarrow> x \<notin> fst ` placements m" "length (pm_instances m) < MAX_INSTANCES"
    "total_observation_count m + length (im_observations y) \<le> MAX_TOTAL_OBSERVATIONS" "im_logical_project_id y = None"
  shows "base_ok (add_instance y m)" "placements (add_instance y m) = placements m \<union> placed y"
proof -
  have "set (identities y) \<inter> set (identities j) = {}" if "j \<in> set (pm_instances m)" for j
    using that assms(4) by (force simp: placements_def placed_def)
  then have "disjoint_instances (pm_instances m @ [y])"
    using assms(1) unfolding base_ok_def disjoint_instances_def set_append by (auto simp: Int_commute)
  then show "base_ok (add_instance y m)" "placements (add_instance y m) = placements m \<union> placed y"
    using assms by (auto simp: base_ok_def add_instance_def total_observation_count_def placements_def)
qed

definition keep :: "(instance_mapping \<Rightarrow> bool) \<Rightarrow> project_mappings \<Rightarrow> project_mappings" where
  "keep P m = m\<lparr>pm_instances := filter P (pm_instances m)\<rparr>"

lemma sum_list_filter_le: "sum_list (List.map f (filter P xs)) \<le> (sum_list (List.map f xs) :: nat)"
  by (induction xs) auto

lemma base_keep: "base_ok m \<Longrightarrow> base_ok (keep P m)"
  unfolding base_ok_def keep_def disjoint_instances_def total_observation_count_def
  by (auto simp: distinct_map_filter intro: order_trans [OF length_filter_le] order_trans [OF sum_list_filter_le])

lemma remove_index_filter:
  assumes "distinct xs" "i < length xs"
  shows "remove_index i xs = filter (\<lambda>y. y \<noteq> xs ! i) xs"
proof -
  have "xs = take i xs @ xs ! i # drop (Suc i) xs" using assms(2) by (rule id_take_nth_drop)
  then have d: "distinct (take i xs @ xs ! i # drop (Suc i) xs)" and f: "filter (\<lambda>y. y \<noteq> xs ! i) xs
    = filter (\<lambda>y. y \<noteq> xs ! i) (take i xs @ xs ! i # drop (Suc i) xs)" using assms(1) by simp_all
  have "filter (\<lambda>y. y \<noteq> xs ! i) (take i xs) = take i xs" "filter (\<lambda>y. y \<noteq> xs ! i) (drop (Suc i) xs) = drop (Suc i) xs"
    using d by (auto simp: filter_id_conv)
  then show ?thesis unfolding f by (simp add: remove_index_def)
qed

lemma generate_unique_fresh: "generate_unique_id n allocated draws = Inr (k, rest) \<Longrightarrow> k \<notin> set allocated"
  by (induction n allocated draws rule: generate_unique_id.induct) (auto split: if_splits)

lemma generate_unique_error: "generate_unique_id n allocated draws = Inl e \<Longrightarrow> e = MappingRandom"
  by (induction n allocated draws rule: generate_unique_id.induct) (auto split: if_splits)

section \<open>Observations of one instance\<close>

lemma from_observation_Inr [simp]: "from_observation obs = Inr stored \<longleftrightarrow> stored = obs \<and> validate_git_evidence (so_git_evidence obs) = Inr ()"
  by (auto simp: from_observation_def result_simps)

lemma refresh_from_Inr:
  assumes "refresh_from stored obs = Inr (changed, new)" "validate_git_evidence (so_git_evidence stored) = Inr ()"
  shows "so_identity new = so_identity stored" "validate_git_evidence (so_git_evidence new) = Inr ()" "\<not> changed \<Longrightarrow> new = stored"
  using assms by (auto simp: refresh_from_def result_simps Let_def split: if_splits)

lemma instance_ok_observations:
  assumes "instance_ok i" "obs' \<noteq> []" "length obs' \<le> MAX_OBSERVATIONS_PER_INSTANCE" "distinct (List.map so_identity obs')"
    "\<And>x. x \<in> set obs' \<Longrightarrow> op_source_id (so_identity x) = op_source_id (so_identity (hd (im_observations i))) \<and> validate_git_evidence (so_git_evidence x) = Inr ()"
  shows "instance_ok (i\<lparr>im_observations := obs'\<rparr>)"
  using assms by (auto simp: instance_ok_def identities_def)

lemma instance_source:
  assumes "instance_ok i" "x \<in> set (im_observations i)"
  shows "op_source_id (so_identity x) = op_source_id (so_identity (hd (im_observations i)))"
  using assms unfolding instance_ok_def identities_def set_map by (metis imageI list.set_sel(1))

lemma refresh_ok:
  assumes ok: "mappings_ok m" and t: "find_observation_indices m (so_identity obs) = Some (i, j)"
    and r: "refresh_at i j obs m = Inr (changed, m')"
  shows "mappings_ok m'" "placements m' = placements m" "\<not> changed \<Longrightarrow> m' = m"
proof -
  let ?i = "pm_instances m ! i"
  let ?old = "im_observations ?i ! j"
  have b: "base_ok m" using ok by (simp add: mappings_ok_base)
  note t = find_observation_Some [OF t]
  have i: "?i \<in> set (pm_instances m)" "instance_ok ?i" using t(1) b by (auto simp: base_ok_def)
  have old: "validate_git_evidence (so_git_evidence ?old) = Inr ()" using i(2) t(2) by (simp add: instance_ok_def)
  obtain new where new: "refresh_from ?old obs = Inr (changed, new)"
    and m': "m' = replace i (?i\<lparr>im_observations := (im_observations ?i)[j := new]\<rparr>) m" (is "_ = replace i ?y m")
    using r by (auto simp: refresh_at_def result_simps replace_def)
  note n = refresh_from_Inr [OF new old]
  have ids: "identities ?y = identities ?i" by (simp add: identities_def map_update n(1) list_update_same_conv t(2))
  have y: "instance_ok ?y"
  proof (rule instance_ok_observations [OF i(2)])
    show "distinct (List.map so_identity ((im_observations ?i)[j := new]))"
      using i(2) ids by (simp add: instance_ok_def identities_def)
    show "op_source_id (so_identity x) = op_source_id (so_identity (hd (im_observations ?i))) \<and> validate_git_evidence (so_git_evidence x) = Inr ()"
      if "x \<in> set ((im_observations ?i)[j := new])" for x
    proof -
      have "x = new \<or> x \<in> set (im_observations ?i)" using that set_update_subset_insert by fastforce
      moreover have "op_source_id (so_identity new) = op_source_id (so_identity (hd (im_observations ?i)))"
        using n(1) instance_source [OF i(2)] t(2) by simp
      ultimately show ?thesis using n(2) instance_source [OF i(2)] i(2) unfolding instance_ok_def by blast
    qed
  qed (use i(2) t(2) in \<open>auto simp: instance_ok_def\<close>)
  have fresh: "set (identities ?y) \<inter> set (identities k) = {}" if "k \<in> set (pm_instances m)" "k \<noteq> ?i" for k
    using base_ok_disjoint [OF b i(1) that(1)] that(2) ids by simp
  have "total_observation_count m' = total_observation_count m" using total_replace [OF t(1), of ?y] unfolding m' by simp
  moreover have "im_logical_project_id ?y = Some l \<Longrightarrow> l \<in> lm_logical_project_id ` set (pm_logical_projects m)" for l
    using base_ok_logical [OF b i(1)] by simp
  ultimately have R: "base_ok m'" "placements m' = {p \<in> placements m. fst (snd p) \<noteq> im_instance_id ?y} \<union> placed ?y"
    using base_replace [OF b t(1) y _ fresh] b unfolding m' base_ok_def by auto
  have p: "placed ?y = placed ?i" using ids by (simp add: placed_def)
  have "{p \<in> placements m. fst (snd p) = im_instance_id ?y} = placed ?i" using placements_of_instance [OF b i(1)] by simp
  then show P: "placements m' = placements m" unfolding R(2) p by auto
  show "mappings_ok m'" by (rule mappings_okI [OF ok R(1)]) (use P in \<open>auto simp: m' replace_def\<close>)
  show "\<not> changed \<Longrightarrow> m' = m" using n(3) unfolding m' by (simp add: replace_def)
qed

lemma append_observation_ok:
  assumes ok: "base_ok m" "t < length (pm_instances m)" and i: "i = pm_instances m ! t"
    and obs: "length (im_observations i) < MAX_OBSERVATIONS_PER_INSTANCE" "total_observation_count m < MAX_TOTAL_OBSERVATIONS"
      "op_source_id (so_identity (hd (im_observations i))) = op_source_id (so_identity obs)"
      "validate_git_evidence (so_git_evidence obs) = Inr ()" "so_identity obs \<notin> fst ` placements m"
  defines "y \<equiv> i\<lparr>im_observations := im_observations i @ [obs]\<rparr>"
  shows "base_ok (replace t y m)"
    "placements (replace t y m) = Set.insert (so_identity obs, im_instance_id i, im_logical_project_id i) (placements m)"
proof -
  have mem: "i \<in> set (pm_instances m)" "instance_ok i" using ok i by (auto simp: base_ok_def)
  have new: "so_identity obs \<notin> set (identities j)" if "j \<in> set (pm_instances m)" for j
    using that obs(5) by (force simp: placements_def placed_def)
  have ids: "identities y = identities i @ [so_identity obs]" by (simp add: identities_def y_def)
  have y: "instance_ok y"
    using instance_source [OF mem(2)] mem(2) obs(1,3,4) new [OF mem(1)]
    unfolding y_def by (intro instance_ok_observations [OF mem(2)]) (auto simp: instance_ok_def identities_def)
  have fresh: "set (identities y) \<inter> set (identities j) = {}" if "j \<in> set (pm_instances m)" "j \<noteq> pm_instances m ! t" for j
    using base_ok_disjoint [OF ok(1) mem(1) that(1)] that(2) i new [OF that(1)] by (simp add: ids)
  have total: "total_observation_count (replace t y m) \<le> MAX_TOTAL_OBSERVATIONS"
    using total_replace [OF ok(2), of y] obs(2) i by (simp add: y_def)
  have l: "l \<in> lm_logical_project_id ` set (pm_logical_projects m)" if "im_logical_project_id y = Some l" for l
    using that base_ok_logical [OF ok(1) mem(1)] by (simp add: y_def)
  note R = base_replace [OF ok y _ fresh total l]
  show "base_ok (replace t y m)" by (rule R(1)) (simp_all add: i y_def)
  have "placed y = Set.insert (so_identity obs, im_instance_id i, im_logical_project_id i) (placed i)" by (simp add: placed_def ids) (simp add: y_def)
  moreover have "placements (replace t y m) = {p \<in> placements m. fst (snd p) \<noteq> im_instance_id y} \<union> placed y"
    by (rule R(2)) (simp_all add: i y_def)
  moreover have "placements m = {p \<in> placements m. fst (snd p) \<noteq> im_instance_id i} \<union> placed i"
    using placements_of_instance [OF ok(1) mem(1)] by blast
  ultimately show "placements (replace t y m) = Set.insert (so_identity obs, im_instance_id i, im_logical_project_id i) (placements m)"
    by (simp add: y_def)
qed

lemma set_remove_index:
  assumes "distinct (List.map f xs)" "j < length xs"
  shows "set (remove_index j xs) = {x \<in> set xs. f x \<noteq> f (xs ! j)}" "distinct (List.map f (remove_index j xs))"
    "length (remove_index j xs) = length xs - 1"
proof -
  have d: "distinct xs" and inj: "inj_on f (set xs)" using assms(1) by (auto simp: distinct_map)
  have "x \<noteq> xs ! j \<longleftrightarrow> f x \<noteq> f (xs ! j)" if "x \<in> set xs" for x
    using that inj assms(2) nth_mem inj_onD by metis
  then show "set (remove_index j xs) = {x \<in> set xs. f x \<noteq> f (xs ! j)}" unfolding remove_index_filter [OF d assms(2)] by auto
  show "distinct (List.map f (remove_index j xs))" unfolding remove_index_filter [OF d assms(2)]
    using assms(1) by (rule distinct_map_filter)
  show "length (remove_index j xs) = length xs - 1" using assms(2) by (simp add: remove_index_def)
qed

lemma remove_index_Nil: "j < length xs \<Longrightarrow> remove_index j xs = [] \<longleftrightarrow> length xs = 1"
  by (cases xs) (auto simp: remove_index_def)

lemma take_observation_ok:
  assumes ok: "base_ok m" and x: "find_observation_indices m x = Some (i, j)"
  defines "m' \<equiv> m\<lparr>pm_instances := take_observation i j (pm_instances m)\<rparr>"
  shows "base_ok m'" "placements m' = {p \<in> placements m. fst p \<noteq> x}" "total_observation_count m' < total_observation_count m"
    "\<And>k. k \<in> set (pm_instances m) \<Longrightarrow> k \<noteq> pm_instances m ! i \<Longrightarrow> k \<in> set (pm_instances m')"
proof -
  let ?i = "pm_instances m ! i"
  let ?rest = "remove_index j (im_observations ?i)"
  note f = find_observation_Some [OF x]
  have i: "?i \<in> set (pm_instances m)" "instance_ok ?i" using f(1) ok by (auto simp: base_ok_def)
  have d: "distinct (List.map so_identity (im_observations ?i))" using i(2) by (simp add: instance_ok_def identities_def)
  note r = set_remove_index [OF d f(2), unfolded f(3)]
  have other: "\<forall>p\<in>placements m. fst p = x \<longrightarrow> p \<in> placed ?i"
  proof (intro ballI impI)
    fix p assume p: "p \<in> placements m" "fst p = x"
    then obtain k where k: "k \<in> set (pm_instances m)" "x \<in> set (identities k)" "p \<in> placed k" by (auto simp: placements_def placed_def)
    moreover have "x \<in> set (identities ?i)" using f(2,3) by (auto simp: identities_def)
    ultimately show "p \<in> placed ?i" using base_ok_disjoint [OF ok k(1) i(1)] by blast
  qed
  have all: "base_ok m' \<and> placements m' = {p \<in> placements m. fst p \<noteq> x} \<and> total_observation_count m' < total_observation_count m
    \<and> (\<forall>k\<in>set (pm_instances m). k \<noteq> ?i \<longrightarrow> k \<in> set (pm_instances m'))"
  proof (cases "?rest = []")
    case True
    have m': "m' = keep (\<lambda>k. k \<noteq> ?i) m"
      unfolding m'_def keep_def take_observation_def Let_def using True f(1) remove_index_filter [OF distinct_instances [OF ok]] by simp
    obtain o1 where o1: "im_observations ?i = [o1]" using True f(2) by (auto simp: remove_index_Nil length_Suc_conv)
    have b: "base_ok m'" unfolding m' by (rule base_keep [OF ok])
    have "placements m' = {p \<in> placements m. fst (snd p) \<noteq> im_instance_id ?i}"
      unfolding m' placements_def placed_def keep_def using base_ok_same [OF ok _ i(1)] by auto
    moreover have "placed ?i = {(x, im_instance_id ?i, im_logical_project_id ?i)}" using f(2,3) o1 by (simp add: placed_def identities_def)
    ultimately have pl: "placements m' = {p \<in> placements m. fst p \<noteq> x}"
      using placements_of_instance [OF ok i(1)] other by auto
    have "remove1 ?i (pm_instances m) = filter (\<lambda>k. k \<noteq> ?i) (pm_instances m)"
      using distinct_remove1_removeAll [OF distinct_instances [OF ok]] by (simp add: removeAll_filter_not_eq eq_commute)
    then have less: "total_observation_count m' < total_observation_count m"
      using sum_list_map_remove1 [OF i(1), of "\<lambda>k. length (im_observations k)"] o1
      by (simp add: total_observation_count_def m' keep_def)
    have "\<forall>k\<in>set (pm_instances m). k \<noteq> ?i \<longrightarrow> k \<in> set (pm_instances m')" by (simp add: m' keep_def)
    then show ?thesis using b pl less by blast
  next
    case False
    let ?y = "?i\<lparr>im_observations := ?rest\<rparr>"
    have m': "m' = replace i ?y m" using False by (simp add: m'_def replace_def take_observation_def)
    have ids: "set (identities ?y) = set (identities ?i) - {x}" using r(1) by (auto simp: identities_def)
    have y: "instance_ok ?y"
    proof (rule instance_ok_observations [OF i(2) False _ r(2)])
      show "length ?rest \<le> MAX_OBSERVATIONS_PER_INSTANCE" using i(2) r(3) unfolding instance_ok_def by linarith
      show "op_source_id (so_identity z) = op_source_id (so_identity (hd (im_observations ?i))) \<and> validate_git_evidence (so_git_evidence z) = Inr ()"
        if "z \<in> set ?rest" for z using that r(1) instance_source [OF i(2)] i(2) unfolding instance_ok_def by blast
    qed
    have fresh: "set (identities ?y) \<inter> set (identities k) = {}" if "k \<in> set (pm_instances m)" "k \<noteq> ?i" for k
      using base_ok_disjoint [OF ok i(1) that(1)] that(2) ids by auto
    have t: "total_observation_count (replace i ?y m) + length (im_observations ?i) = total_observation_count m + length ?rest"
      using total_replace [OF f(1), of ?y] by simp
    then have less: "total_observation_count m' < total_observation_count m" using r(3) f(2) unfolding m' by linarith
    then have total: "total_observation_count (replace i ?y m) \<le> MAX_TOTAL_OBSERVATIONS" using ok unfolding base_ok_def m' by linarith
    have l: "l \<in> lm_logical_project_id ` set (pm_logical_projects m)" if "im_logical_project_id ?y = Some l" for l
      using that base_ok_logical [OF ok i(1)] by simp
    note R = base_replace [OF ok f(1) y _ fresh total l]
    have b: "base_ok m'" unfolding m' by (rule R(1)) simp_all
    have "placements (replace i ?y m) = {p \<in> placements m. fst (snd p) \<noteq> im_instance_id ?y} \<union> placed ?y" by (rule R(2)) simp_all
    then have "placements m' = {p \<in> placements m. fst (snd p) \<noteq> im_instance_id ?i} \<union> placed ?y" unfolding m' by simp
    moreover have "placed ?y = {p \<in> placed ?i. fst p \<noteq> x}"
    proof -
      have "(z, w) \<in> placed ?y \<longleftrightarrow> (z, w) \<in> placed ?i \<and> z \<noteq> x" for z w
        by (cases w) (auto simp add: placed_iff ids)
      then show ?thesis by auto
    qed
    ultimately have pl: "placements m' = {p \<in> placements m. fst p \<noteq> x}"
      using placements_of_instance [OF ok i(1)] other by blast
    have "\<forall>k\<in>set (pm_instances m). k \<noteq> ?i \<longrightarrow> k \<in> set (pm_instances m')" unfolding m' set_replace [OF ok f(1)] by simp
    then show ?thesis using b pl less by blast
  qed
  then show "base_ok m'" "placements m' = {p \<in> placements m. fst p \<noteq> x}" "total_observation_count m' < total_observation_count m"
    "\<And>k. k \<in> set (pm_instances m) \<Longrightarrow> k \<noteq> ?i \<Longrightarrow> k \<in> set (pm_instances m')" by blast+
qed

section \<open>Relabelling instances\<close>

definition relabelled :: "string option \<Rightarrow> string set \<Rightarrow> instance_mapping \<Rightarrow> instance_mapping" where
  "relabelled v ids i = (if im_instance_id i \<in> ids then i\<lparr>im_logical_project_id := v\<rparr> else i)"

definition relabel :: "string option \<Rightarrow> string set \<Rightarrow> project_mappings \<Rightarrow> project_mappings" where
  "relabel v ids m = m\<lparr>pm_instances := List.map (relabelled v ids) (pm_instances m)\<rparr>"

lemma length_assign_logical [simp]: "length (assign_logical v idxs is) = length is"
  by (induction idxs arbitrary: "is") (auto simp: assign_logical_def)

lemma nth_assign_logical:
  "n < length is \<Longrightarrow> assign_logical v idxs is ! n = (if n \<in> set idxs then (is ! n)\<lparr>im_logical_project_id := v\<rparr> else is ! n)"
proof (induction idxs arbitrary: "is")
  case (Cons i idxs)
  have "assign_logical v (i # idxs) is = assign_logical v idxs (is[i := (is ! i)\<lparr>im_logical_project_id := v\<rparr>])"
    by (simp add: assign_logical_def)
  then show ?case using Cons by (cases "n = i") (auto simp: nth_list_update)
qed (simp add: assign_logical_def)

lemma map_ok_set: "map_ok f xs = Inr ys \<Longrightarrow> y \<in> set ys \<longleftrightarrow> (\<exists>x\<in>set xs. f x = Inr y)"
  by (induction xs arbitrary: ys) (auto simp: and_then_Inr)

lemma map_ok_each: "map_ok f xs = Inr ys \<Longrightarrow> x \<in> set xs \<Longrightarrow> \<exists>y\<in>set ys. f x = Inr y"
  by (induction xs arbitrary: ys) (auto simp: and_then_Inr)

lemma assign_logical_relabel:
  assumes "base_ok m" "map_ok (find_instance_index m) ids = Inr idxs"
  shows "m\<lparr>pm_instances := assign_logical v idxs (pm_instances m)\<rparr> = relabel v (set ids) m"
proof -
  have d: "distinct (List.map im_instance_id (pm_instances m))" using assms(1) by (simp add: base_ok_def)
  have "n \<in> set idxs \<longleftrightarrow> im_instance_id (pm_instances m ! n) \<in> set ids" if n: "n < length (pm_instances m)" for n
  proof
    assume "n \<in> set idxs"
    then obtain k where "k \<in> set ids" "find_instance_index m k = Inr n" using map_ok_set [OF assms(2)] by blast
    then show "im_instance_id (pm_instances m ! n) \<in> set ids" using find_instance_index_Inr by blast
  next
    assume "im_instance_id (pm_instances m ! n) \<in> set ids"
    then obtain t where t: "t \<in> set idxs" "find_instance_index m (im_instance_id (pm_instances m ! n)) = Inr t"
      using map_ok_each [OF assms(2)] by blast
    then have "t < length (pm_instances m)" "im_instance_id (pm_instances m ! t) = im_instance_id (pm_instances m ! n)"
      using find_instance_index_Inr by blast+
    then have "t = n" using d n by (metis length_map nth_eq_iff_index_eq nth_map)
    then show "n \<in> set idxs" using t by simp
  qed
  then have "assign_logical v idxs (pm_instances m)
      = List.map (relabelled v (set ids)) (pm_instances m)"
    by (intro nth_equalityI) (simp_all add: nth_assign_logical relabelled_def)
  then show ?thesis by (simp add: relabel_def)
qed

definition reassign :: "string option \<Rightarrow> string set \<Rightarrow> string \<times> string option \<Rightarrow> string \<times> string option" where
  "reassign v ids kv = (fst kv, if fst kv \<in> ids then v else snd kv)"

lemma relabel_ok:
  assumes ok: "base_ok m" and v: "\<And>l. v = Some l \<Longrightarrow> l \<in> lm_logical_project_id ` set (pm_logical_projects m)"
  shows "base_ok (relabel v ids m)" "placements (relabel v ids m) = map_prod id (reassign v ids) ` placements m"
proof -
  let ?g = "relabelled v ids"
  have g: "im_instance_id (?g i) = im_instance_id i" "im_observations (?g i) = im_observations i" "identities (?g i) = identities i"
    "instance_ok (?g i) \<longleftrightarrow> instance_ok i" "placed (?g i) = map_prod id (reassign v ids) ` placed i"
    "im_logical_project_id (?g i) = (if im_instance_id i \<in> ids then v else im_logical_project_id i)"
    for i by (simp_all add: relabelled_def identities_def instance_ok_def placed_def reassign_def image_image)
  have "List.map im_instance_id (List.map ?g (pm_instances m)) = List.map im_instance_id (pm_instances m)"
    "sum_list (List.map (\<lambda>i. length (im_observations i)) (List.map ?g (pm_instances m)))
      = sum_list (List.map (\<lambda>i. length (im_observations i)) (pm_instances m))"
    by (simp_all only: List.map_map comp_def g)
  moreover have "disjoint_instances (List.map ?g (pm_instances m))"
    using ok unfolding base_ok_def disjoint_instances_def set_map ball_simps g by blast
  moreover have "\<forall>i\<in>set (List.map ?g (pm_instances m)). instance_ok i" using ok unfolding base_ok_def set_map ball_simps g by blast
  moreover have "{l. \<exists>i\<in>set (List.map ?g (pm_instances m)). im_logical_project_id i = Some l} \<subseteq> lm_logical_project_id ` set (pm_logical_projects m)"
    unfolding set_map bex_simps g using v base_ok_logical [OF ok] by (auto split: if_splits)
  ultimately show "base_ok (relabel v ids m)" using ok unfolding base_ok_def relabel_def total_observation_count_def by (simp del: List.map_map set_map)
  show "placements (relabel v ids m) = map_prod id (reassign v ids) ` placements m"
    by (simp add: placements_def relabel_def g(5) image_UN)
qed

section \<open>The operations\<close>

definition map_instances :: "project_mappings \<Rightarrow> string set" where
  "map_instances m = im_instance_id ` set (pm_instances m)"

lemma dom_view: "base_ok m \<Longrightarrow> x \<in> fst ` placements m \<longleftrightarrow> x \<in> dom (view m)"
  using view_iff [of m x] by (force simp: dom_def)

lemma find_observation_dom: "base_ok m \<Longrightarrow> find_observation_indices m x = None \<longleftrightarrow> x \<notin> dom (view m)"
  unfolding find_observation_None dom_view [symmetric] by (force simp: placements_def placed_def)

lemma ok_base: "mappings_ok m \<Longrightarrow> base_ok m" by (simp add: mappings_ok_base)

lemma view_cong: "base_ok m \<Longrightarrow> base_ok m' \<Longrightarrow> placements m' = placements m \<Longrightarrow> view m' = view m"
  by (rule view_eqI) (simp_all add: view_iff)

lemma view_upd:
  assumes "base_ok m" "base_ok m'" "placements m' = Set.insert (x, kv) {p \<in> placements m. fst p \<noteq> x}"
  shows "view m' = (view m)(x \<mapsto> kv)"
  using assms by (intro view_eqI) (auto simp: view_iff)

end
