(* ===== verification/Project_Operations.thy ===== *)
theory Project_Operations
  imports Project_View
begin

text \<open>
  The effect of every operation on a project mapping (\<open>src/project_mapping.rs\<close>): it keeps the mapping
  valid and changes the view as its lemma says.  A batch does what its observations, resolved one after
  another, do.
\<close>

lemmas operation_simps = result_simps and_then_Inr ensure_def

lemma canonicalize_ok_view:
  assumes "mappings_ok m"
  shows "mappings_ok (canonicalize m)" "view (canonicalize m) = view m"
  using canonicalize_ok [OF assms] view_cong [OF ok_base ok_base placements_canonicalize] assms by auto

lemma remove_empty_ok_view:
  assumes "base_ok m"
  shows "mappings_ok (canonicalize (remove_empty_logical_projects m))" "view (canonicalize (remove_empty_logical_projects m)) = view m"
  using canonicalize_ok_view [OF remove_empty_ok [OF assms]]
    view_cong [OF assms ok_base [OF remove_empty_ok [OF assms]] placements_remove_empty] by auto

lemma extend_base_view:
  assumes b: "base_ok m" and obs: "validate_git_evidence (so_git_evidence obs) = Inr ()" "so_identity obs \<notin> dom (view m)"
    and k: "k \<notin> map_instances m" and cap: "length (pm_instances m) < MAX_INSTANCES" "total_observation_count m < MAX_TOTAL_OBSERVATIONS"
  defines "m' \<equiv> add_instance \<lparr>im_instance_id = k, im_observations = [obs], im_logical_project_id = None\<rparr> m"
  shows "base_ok m'" "placements m' = Set.insert (so_identity obs, k, None) (placements m)"
    "view m' = (view m)(so_identity obs \<mapsto> (k, None))"
proof -
  let ?y = "\<lparr>im_instance_id = k, im_observations = [obs], im_logical_project_id = None\<rparr>"
  have y: "instance_ok ?y" using obs(1) by (simp add: instance_ok_def identities_def MAX_OBSERVATIONS_PER_INSTANCE_def)
  have new: "so_identity obs \<notin> fst ` placements m" using obs(2) dom_view [OF b] by blast
  have p: "placed ?y = {(so_identity obs, k, None)}" by (simp add: placed_def identities_def)
  have "base_ok m'" "placements m' = placements m \<union> placed ?y"
    unfolding m'_def using base_extend [OF b y] k new cap by (auto simp: map_instances_def identities_def)
  moreover have "{p \<in> placements m. fst p \<noteq> so_identity obs} = placements m" using new by force
  ultimately show "base_ok m'" "placements m' = Set.insert (so_identity obs, k, None) (placements m)"
    "view m' = (view m)(so_identity obs \<mapsto> (k, None))"
    using view_upd [OF b, of m'] unfolding p by auto
qed

lemma extend_ok_view:
  assumes ok: "mappings_ok m" and obs: "validate_git_evidence (so_git_evidence obs) = Inr ()" "so_identity obs \<notin> dom (view m)"
    and k: "k \<notin> map_instances m" and cap: "length (pm_instances m) < MAX_INSTANCES" "total_observation_count m < MAX_TOTAL_OBSERVATIONS"
  defines "m' \<equiv> add_instance \<lparr>im_instance_id = k, im_observations = [obs], im_logical_project_id = None\<rparr> m"
  shows "mappings_ok m'" "view m' = (view m)(so_identity obs \<mapsto> (k, None))"
proof -
  note E = extend_base_view [OF ok_base [OF ok] obs k cap, folded m'_def]
  have "pm_logical_projects m' = pm_logical_projects m" by (simp add: m'_def add_instance_def)
  then show "mappings_ok m'" by (rule mappings_okI [OF ok E(1)]) (auto simp: E(2))
  show "view m' = (view m)(so_identity obs \<mapsto> (k, None))" by (rule E(3))
qed

lemma generate_instance_fresh:
  "generate_unique_instance_id draws m = Inr k \<Longrightarrow> k \<notin> map_instances m"
  by (auto simp: generate_unique_instance_id_def operation_simps map_instances_def dest: generate_unique_fresh)

lemma map_instances_iff: "base_ok m \<Longrightarrow> k \<in> map_instances m \<longleftrightarrow> (\<exists>x v. view m x = Some (k, v))"
proof -
  assume b: "base_ok m"
  have "\<exists>x. x \<in> set (identities i)" if "i \<in> set (pm_instances m)" for i
    using that base_ok_instance [OF b] by (fastforce simp: instance_ok_def identities_def neq_Nil_conv)
  then show ?thesis unfolding view_iff [OF b] placements_iff map_instances_def by blast
qed

text \<open>What a call of the store does to the view.\<close>

lemma resolve_effect:
  assumes ok: "mappings_ok m" and r: "resolve_operation draws obs m = Inr (((k, created), changed), m')"
  shows "mappings_ok m'" "\<not> changed \<Longrightarrow> m' = m" "created \<longleftrightarrow> so_identity obs \<notin> dom (view m)"
    "if created then k \<notin> map_instances m \<and> view m' = (view m)(so_identity obs \<mapsto> (k, None))
     else view m' = view m \<and> (\<exists>v. view m (so_identity obs) = Some (k, v))"
proof -
  have "mappings_ok m' \<and> (\<not> changed \<longrightarrow> m' = m) \<and> (created \<longleftrightarrow> so_identity obs \<notin> dom (view m))
    \<and> (if created then k \<notin> map_instances m \<and> view m' = (view m)(so_identity obs \<mapsto> (k, None))
     else view m' = view m \<and> (\<exists>v. view m (so_identity obs) = Some (k, v)))"
  proof (cases "find_observation_indices m (so_identity obs)")
    case None
    then have new: "so_identity obs \<notin> dom (view m)" using find_observation_dom [OF ok_base [OF ok]] by blast
    have r: "created" "changed" "length (pm_instances m) < MAX_INSTANCES" "total_observation_count m < MAX_TOTAL_OBSERVATIONS"
      "generate_unique_instance_id draws m = Inr k" "validate_git_evidence (so_git_evidence obs) = Inr ()"
      "m' = canonicalize (add_instance \<lparr>im_instance_id = k, im_observations = [obs], im_logical_project_id = None\<rparr> m)"
      using r None by (auto simp: resolve_operation_def operation_simps add_instance_def split: if_splits)
    note k = generate_instance_fresh [OF r(5)]
    show ?thesis using canonicalize_ok_view [OF extend_ok_view(1) [OF ok r(6) new k r(3,4)]] extend_ok_view(2) [OF ok r(6) new k r(3,4)] new k
      by (simp add: r)
  next
    case (Some ij)
    then obtain i j where ij: "find_observation_indices m (so_identity obs) = Some (i, j)" by (cases ij) auto
    have r: "\<not> created" "refresh_at i j obs m = Inr (changed, m')" "k = im_instance_id (pm_instances m ! i)"
      using r ij by (auto simp: resolve_operation_def operation_simps)
    note f = find_observation_Some [OF ij]
    have "(so_identity obs, k, im_logical_project_id (pm_instances m ! i)) \<in> placements m"
      using f r(3) by (metis image_eqI identities_def list.set_map nth_mem placements_iff)
    then have v: "\<exists>v. view m (so_identity obs) = Some (k, v)" using view_iff [OF ok_base [OF ok]] by blast
    note R = refresh_ok [OF ok ij r(2)]
    have "view m' = view m" by (rule view_cong [OF ok_base [OF ok] ok_base [OF R(1)] R(2)])
    then show ?thesis using R(1,3) r(1) v by auto
  qed
  then show "mappings_ok m'" "\<not> changed \<Longrightarrow> m' = m" "created \<longleftrightarrow> so_identity obs \<notin> dom (view m)"
    "if created then k \<notin> map_instances m \<and> view m' = (view m)(so_identity obs \<mapsto> (k, None))
     else view m' = view m \<and> (\<exists>v. view m (so_identity obs) = Some (k, v))" by blast+
qed

lemma replace_logical [simp]: "pm_logical_projects (replace t y m) = pm_logical_projects m"
  by (simp add: replace_def)

lemma view_instance:
  assumes "base_ok m" "i \<in> set (pm_instances m)" "x \<in> set (identities i)"
  shows "view m x = Some (im_instance_id i, im_logical_project_id i)"
  using assms by (auto simp: view_iff placements_iff)

lemma view_found:
  assumes "base_ok m" "find_observation_indices m x = Some (i, j)"
  shows "view m x = Some (im_instance_id (pm_instances m ! i), im_logical_project_id (pm_instances m ! i))"
proof (rule view_instance [OF assms(1)])
  note f = find_observation_Some [OF assms(2)]
  show "pm_instances m ! i \<in> set (pm_instances m)" using f(1) by simp
  show "x \<in> set (identities (pm_instances m ! i))" using f(2,3) by (force simp: identities_def)
qed

text \<open>The logical project of an instance.\<close>

definition logical_of :: "string \<Rightarrow> project_mappings \<Rightarrow> string option" where
  "logical_of k m = Option.bind (mappings_instance k m) im_logical_project_id"

lemma mappings_instance_unique: "base_ok m \<Longrightarrow> i \<in> set (pm_instances m) \<Longrightarrow> mappings_instance (im_instance_id i) m = Some i"
proof -
  assume b: "base_ok m" "i \<in> set (pm_instances m)"
  then obtain j where j: "mappings_instance (im_instance_id i) m = Some j"
    by (cases "mappings_instance (im_instance_id i) m") (auto simp: mappings_instance_def find_None_iff)
  then have "j \<in> set (pm_instances m)" "im_instance_id j = im_instance_id i" by (auto simp: mappings_instance_def find_Some_iff)
  then show ?thesis using j base_ok_same [OF b(1) _ b(2)] by simp
qed

lemma logical_of_index: "base_ok m \<Longrightarrow> t < length (pm_instances m) \<Longrightarrow> logical_of (im_instance_id (pm_instances m ! t)) m = im_logical_project_id (pm_instances m ! t)"
  by (simp add: logical_of_def mappings_instance_unique)

lemma bind_effect:
  assumes ok: "mappings_ok m" and r: "bind_operation k obs m = Inr (((), changed), m')"
  shows "mappings_ok m' \<and> (\<not> changed \<longrightarrow> m' = m) \<and> view m' = (view m)(so_identity obs \<mapsto> (k, logical_of k m))
    \<and> (so_identity obs \<notin> dom (view m) \<or> (\<exists>v. view m (so_identity obs) = Some (k, v))) \<and> k \<in> map_instances m"
proof -
  note b = ok_base [OF ok]
  obtain t where t: "find_instance_index m k = Inr t" using r by (auto simp: bind_operation_def operation_simps)
  note T = find_instance_index_Inr [OF t]
  have k: "k = im_instance_id (pm_instances m ! t)" "k \<in> map_instances m" using T by (auto simp: map_instances_def)
  have log: "logical_of k m = im_logical_project_id (pm_instances m ! t)" using logical_of_index [OF b] T by blast
  show ?thesis
  proof (cases "find_observation_indices m (so_identity obs)")
    case None
    then have new: "so_identity obs \<notin> dom (view m)" using find_observation_dom [OF b] by blast
    let ?y = "(pm_instances m ! t)\<lparr>im_observations := im_observations (pm_instances m ! t) @ [obs]\<rparr>"
    have r: "changed" "length (im_observations (pm_instances m ! t)) < MAX_OBSERVATIONS_PER_INSTANCE" "total_observation_count m < MAX_TOTAL_OBSERVATIONS"
      "op_source_id (so_identity (hd (im_observations (pm_instances m ! t)))) = op_source_id (so_identity obs)"
      "validate_git_evidence (so_git_evidence obs) = Inr ()" "m' = canonicalize (replace t ?y m)"
      using r None t by (auto simp: bind_operation_def operation_simps replace_def split: if_splits)
    have out: "so_identity obs \<notin> fst ` placements m" using new dom_view [OF b] by blast
    note A = append_observation_ok [OF b conjunct1 [OF T] refl r(2,3,4,5) out]
    have "mappings_ok (replace t ?y m)" by (rule mappings_okI [OF ok A(1)]) (auto simp: A(2))
    moreover have "{p \<in> placements m. fst p \<noteq> so_identity obs} = placements m" using out by force
    then have "view (replace t ?y m) = (view m)(so_identity obs \<mapsto> (k, logical_of k m))"
      using view_upd [OF b A(1)] A(2) log k(1) by simp
    ultimately show ?thesis using canonicalize_ok_view new k(2) r(1,6) by auto
  next
    case (Some ij)
    then obtain i j where ij: "find_observation_indices m (so_identity obs) = Some (i, j)" by (cases ij) auto
    have r: "i = t" "refresh_at i j obs m = Inr (changed, m')"
      using r ij t by (auto simp: bind_operation_def operation_simps split: if_splits)
    note R = refresh_ok [OF ok ij r(2)]
    have v: "view m' = view m" by (rule view_cong [OF b ok_base [OF R(1)] R(2)])
    have "view m (so_identity obs) = Some (k, logical_of k m)" using view_found [OF b ij] log k(1) r(1) by simp
    then show ?thesis using R(1,3) v k(2) by (auto simp: fun_upd_idem)
  qed
qed

lemma move_effect:
  assumes ok: "mappings_ok m" and r: "move_operation x k m = Inr (((), changed), m')"
  shows "mappings_ok m' \<and> (\<not> changed \<longrightarrow> m' = m) \<and> view m' = (view m)(x \<mapsto> (k, logical_of k m)) \<and> x \<in> dom (view m) \<and> k \<in> map_instances m"
proof -
  note b = ok_base [OF ok]
  obtain i j where ij: "find_observation_indices m x = Some (i, j)" using r by (auto simp: move_operation_def operation_simps)
  obtain t where t: "find_instance_index m k = Inr t" using r by (auto simp: move_operation_def operation_simps)
  note T = find_instance_index_Inr [OF t] and v = view_found [OF b ij]
  let ?t = "pm_instances m ! t"
  have k: "k = im_instance_id ?t" "k \<in> map_instances m" using T by (auto simp: map_instances_def)
  have log: "logical_of k m = im_logical_project_id ?t" using logical_of_index [OF b] T by blast
  show ?thesis
  proof (cases "i = t")
    case True
    then have "\<not> changed" "m' = m" using r ij t by (auto simp: move_operation_def operation_simps)
    then show ?thesis using ok v True k log by (auto simp: fun_upd_idem)
  next
    case False
    let ?obs = "im_observations (pm_instances m ! i) ! j" and ?m = "m\<lparr>pm_instances := take_observation i j (pm_instances m)\<rparr>"
    have r: "changed" "op_source_id (so_identity (hd (im_observations ?t))) = op_source_id x"
      "length (im_observations ?t) < MAX_OBSERVATIONS_PER_INSTANCE"
      and "\<exists>u. find_instance_index ?m k = Inr u \<and> m' = canonicalize (remove_empty_logical_projects (?m\<lparr>pm_instances := (pm_instances ?m)[u := (pm_instances ?m ! u)
        \<lparr>im_observations := im_observations (pm_instances ?m ! u) @ [?obs]\<rparr>]\<rparr>))"
      using r ij t False by (auto simp: move_operation_def operation_simps Let_def split: if_splits)
    then obtain u where u: "find_instance_index ?m k = Inr u"
      and m': "m' = canonicalize (remove_empty_logical_projects (replace u ((pm_instances ?m ! u)\<lparr>im_observations := im_observations (pm_instances ?m ! u) @ [?obs]\<rparr>) ?m))"
      by (auto simp: replace_def)
    note A = take_observation_ok [OF b ij] and U = find_instance_index_Inr [OF u] and f = find_observation_Some [OF ij]
    have ti: "?t \<noteq> pm_instances m ! i" using False T f(1) distinct_instances [OF b] by (simp add: nth_eq_iff_index_eq)
    have mem: "pm_instances ?m ! u \<in> set (pm_instances ?m)" "im_instance_id (pm_instances ?m ! u) = k" using U by simp_all
    have "?t \<in> set (pm_instances ?m)" using A(4) ti T by simp
    then have same: "pm_instances ?m ! u = ?t" using base_ok_same [OF A(1)] mem k(1) by metis
    have ev: "validate_git_evidence (so_git_evidence ?obs) = Inr ()"
      using base_ok_instance [OF b nth_mem [OF f(1)]] nth_mem [OF f(2)] unfolding instance_ok_def by blast
    have cap: "total_observation_count ?m < MAX_TOTAL_OBSERVATIONS" using A(3) b unfolding base_ok_def by linarith
    have src: "op_source_id (so_identity (hd (im_observations (pm_instances ?m ! u)))) = op_source_id (so_identity ?obs)"
      using r(2) f(3) unfolding same by simp
    have len: "length (im_observations (pm_instances ?m ! u)) < MAX_OBSERVATIONS_PER_INSTANCE" using r(3) unfolding same .
    have out: "so_identity ?obs \<notin> fst ` placements ?m" using A(2) f(3) by auto
    note B = append_observation_ok [OF A(1) conjunct1 [OF U] refl len cap src ev out]
    have "placements (replace u ((pm_instances ?m ! u)\<lparr>im_observations := im_observations (pm_instances ?m ! u) @ [?obs]\<rparr>) ?m)
        = Set.insert (x, k, logical_of k m) {p \<in> placements m. fst p \<noteq> x}"
      using B(2) A(2) log k(1) unfolding f(3) same by simp
    then have "view m' = (view m)(x \<mapsto> (k, logical_of k m))" using view_upd [OF b B(1)] remove_empty_ok_view(2) [OF B(1)] unfolding m' by simp
    then show ?thesis using r(1) remove_empty_ok_view(1) [OF B(1)] v k(2) unfolding m' by auto
  qed
qed

lemma split_effect:
  assumes ok: "mappings_ok m" and r: "split_observation_operation draws x m = Inr (((k, created), changed), m')"
  shows "mappings_ok m' \<and> (\<not> changed \<longrightarrow> m' = m) \<and> x \<in> dom (view m)
    \<and> (created \<longleftrightarrow> (\<exists>y\<in>dom (view m). y \<noteq> x \<and> fst (the (view m y)) = fst (the (view m x))))
    \<and> (if created then k \<notin> map_instances m \<and> view m' = (view m)(x \<mapsto> (k, None)) else view m' = view m \<and> k = fst (the (view m x)))"
proof -
  note b = ok_base [OF ok]
  obtain i j where ij: "find_observation_indices m x = Some (i, j)"
    using r by (auto simp: split_observation_operation_def operation_simps)
  note f = find_observation_Some [OF ij] and v = view_found [OF b ij]
  let ?i = "pm_instances m ! i"
  let ?obs = "im_observations ?i ! j" and ?m = "m\<lparr>pm_instances := take_observation i j (pm_instances m)\<rparr>"
  show ?thesis
  proof (cases "length (im_observations ?i) = 1")
    case True
    then have e: "\<not> created" "\<not> changed" "m' = m" "k = im_instance_id ?i"
      using r ij by (auto simp: split_observation_operation_def operation_simps Let_def)
    have "identities ?i = [x]" using True f(2,3) by (auto simp: identities_def length_Suc_conv)
    then have "placed ?i = {(x, k, im_logical_project_id ?i)}" by (simp add: placed_def e(4))
    then have "{p \<in> placements m. fst (snd p) = k} = {(x, k, im_logical_project_id ?i)}"
      using placements_of_instance [OF b nth_mem [OF f(1)]] e(4) by simp
    then have alone: "\<forall>y v. view m y = Some (k, v) \<longrightarrow> y = x" unfolding view_iff [OF b] by fastforce
    have "fst (the (view m y)) \<noteq> k" if "y \<in> dom (view m)" "y \<noteq> x" for y
      using that alone by (cases "view m y") auto
    then show ?thesis using ok v e by auto
  next
    case False
    then have t: "take_observation i j (pm_instances m) = (pm_instances m)[i := ?i\<lparr>im_observations := remove_index j (im_observations ?i)\<rparr>]"
      using remove_index_Nil [OF f(2)] by (simp add: take_observation_def)
    have r: "created" "changed" "length (pm_instances m) < MAX_INSTANCES" "generate_unique_instance_id draws ?m = Inr k"
      "m' = canonicalize (add_instance \<lparr>im_instance_id = k, im_observations = [?obs], im_logical_project_id = None\<rparr> ?m)"
      using r ij False unfolding t by (auto simp: split_observation_operation_def operation_simps Let_def add_instance_def split: if_splits)
    note A = take_observation_ok [OF b ij]
    have ev: "validate_git_evidence (so_git_evidence ?obs) = Inr ()"
      using base_ok_instance [OF b nth_mem [OF f(1)]] nth_mem [OF f(2)] unfolding instance_ok_def by blast
    have "List.map im_instance_id (take_observation i j (pm_instances m)) = List.map im_instance_id (pm_instances m)"
      unfolding t using f(1) by (simp add: map_update list_update_same_conv)
    then have "set (List.map im_instance_id (take_observation i j (pm_instances m))) = set (List.map im_instance_id (pm_instances m))"
      by simp
    then have ids: "map_instances ?m = map_instances m" "length (pm_instances ?m) = length (pm_instances m)"
      unfolding map_instances_def by (simp, simp add: t)
    have vm: "view ?m = (view m)(x := None)"
      by (rule view_eqI [OF A(1)]) (auto simp: A(2) view_iff [OF b])
    have cap: "total_observation_count ?m < MAX_TOTAL_OBSERVATIONS" using A(3) b unfolding base_ok_def by linarith
    have k: "k \<notin> map_instances ?m" by (rule generate_instance_fresh [OF r(4)])
    have new: "so_identity ?obs \<notin> dom (view ?m)" using vm f(3) by auto
    have len: "length (pm_instances ?m) < MAX_INSTANCES" using r(3) ids(2) by simp
    note E = extend_base_view [OF A(1) ev new k len cap]
    obtain z where z: "z \<in> set (identities ?i)" "z \<noteq> x"
    proof -
      have "set (remove_index j (im_observations ?i)) \<noteq> {}" using remove_index_Nil [OF f(2)] False by simp
      moreover have "distinct (List.map so_identity (im_observations ?i))"
        using base_ok_instance [OF b nth_mem [OF f(1)]] by (simp add: instance_ok_def identities_def)
      ultimately obtain z where "z \<in> set (im_observations ?i)" "so_identity z \<noteq> x"
        using set_remove_index(1) [OF _ f(2), of so_identity] f(3) by auto
      then show ?thesis using that by (auto simp: identities_def)
    qed
    let ?m2 = "add_instance \<lparr>im_instance_id = k, im_observations = [?obs], im_logical_project_id = None\<rparr> ?m"
    have "\<exists>y k. (y, k, Some l) \<in> placements ?m2" if l: "(y, k', Some l) \<in> placements m" for y k' l
    proof (cases "y = x")
      case True
      then have "view m x = Some (k', Some l)" using l view_iff [OF b] by blast
      then have "im_logical_project_id ?i = Some l" using v by simp
      then have "(z, im_instance_id ?i, Some l) \<in> placements m" using z(1) f(1) by (auto simp: placements_iff)
      then show ?thesis using z(2) unfolding E(2) A(2) by auto
    qed (use l in \<open>auto simp: E(2) A(2)\<close>)
    then have ok2: "mappings_ok ?m2" by (intro mappings_okI [OF ok E(1)]) (simp_all add: add_instance_def)
    have "view m' = (view m)(x \<mapsto> (k, None))" using canonicalize_ok_view(2) [OF ok2] E(3) vm f(3) unfolding r(5) by simp
    moreover have "\<exists>y\<in>dom (view m). y \<noteq> x \<and> fst (the (view m y)) = fst (the (view m x))"
      using view_instance [OF b nth_mem [OF f(1)] z(1)] z(2) v by (intro bexI [of _ z]) (auto simp: domI)
    ultimately show ?thesis using canonicalize_ok_view(1) [OF ok2] r(1,2,5) k ids(1) v by (simp add: domI)
  qed
qed

definition map_logicals :: "project_mappings \<Rightarrow> string set" where
  "map_logicals m = lm_logical_project_id ` set (pm_logical_projects m)"

lemma relabel_view:
  assumes b: "base_ok m" and v: "\<And>l. v = Some l \<Longrightarrow> l \<in> map_logicals m"
  shows "view (relabel v ids m) = map_option (reassign v ids) \<circ> view m"
proof -
  have R: "base_ok (relabel v ids m)" "placements (relabel v ids m) = map_prod id (reassign v ids) ` placements m"
    using relabel_ok [OF b, of v ids] v by (simp_all add: map_logicals_def)
  have "map_option (reassign v ids) (view m x) = Some kv \<longleftrightarrow> (x, kv) \<in> map_prod id (reassign v ids) ` placements m" for x kv
    using view_iff [OF b, of x] by (force simp: map_prod_def)
  then show ?thesis by (intro view_eqI [OF R(1)]) (simp add: R(2))
qed

lemma unchanged_relabel:
  assumes b: "base_ok m" and m: "map_ok (find_instance_index m) ids = Inr idxs"
    and u: "\<not> list_ex (\<lambda>i. im_logical_project_id (pm_instances m ! i) \<noteq> v) idxs"
  shows "map_option (reassign v (set ids)) \<circ> view m = view m"
proof
  fix x
  have "w = v" if w: "view m x = Some (k, w)" and k: "k \<in> set ids" for k w
  proof -
    obtain t where t: "t \<in> set idxs" "find_instance_index m k = Inr t" using map_ok_each [OF m k] by blast
    note T = find_instance_index_Inr [OF t(2)]
    obtain i where i: "i \<in> set (pm_instances m)" "im_instance_id i = k" "im_logical_project_id i = w"
      using w by (auto simp: view_iff [OF b] placements_iff)
    have "i = pm_instances m ! t" using base_ok_same [OF b i(1)] T i(2) by (metis nth_mem)
    then show ?thesis using u t(1) i(3) by (auto simp: list_ex_iff)
  qed
  then show "(map_option (reassign v (set ids)) \<circ> view m) x = view m x"
    by (cases "view m x") (auto simp: reassign_def split: prod.splits)
qed

lemma merge_target_ok:
  assumes b: "base_ok m" and r: "merge_target draws logical label m = Inr ((l, created), m1)"
  shows "base_ok m1" "view m1 = view m" "l \<in> map_logicals m1" "pm_instances m1 = pm_instances m"
    "case logical of Some k \<Rightarrow> l = k \<and> \<not> created \<and> l \<in> map_logicals m | None \<Rightarrow> created \<and> l \<notin> map_logicals m"
proof -
  have new: "l \<notin> map_logicals m" if "generate_unique_logical_project_id draws m = Inr l"
    using that by (auto simp: generate_unique_logical_project_id_def operation_simps map_logicals_def dest: generate_unique_fresh)
  have *: "base_ok m1 \<and> l \<in> map_logicals m1 \<and> pm_instances m1 = pm_instances m
    \<and> (case logical of Some k \<Rightarrow> l = k \<and> \<not> created \<and> l \<in> map_logicals m | None \<Rightarrow> created \<and> l \<notin> map_logicals m)"
  proof (cases logical)
    case None
    then obtain n where "length (pm_logical_projects m) < MAX_LOGICAL_PROJECTS" "generate_unique_logical_project_id draws m = Inr l" "created"
      and m1: "m1 = m\<lparr>pm_logical_projects := pm_logical_projects m @ [\<lparr>lm_logical_project_id = l, lm_display_label = n\<rparr>]\<rparr>"
      using r by (auto simp: merge_target_def operation_simps split: if_splits)
    moreover note new
    ultimately show ?thesis using b None by (auto simp: base_ok_def map_logicals_def total_observation_count_def)
  next
    case (Some k)
    then have m1: "m1 = m" "l = k" "\<not> created" "mappings_logical_project k m \<noteq> None"
      using r by (auto simp: merge_target_def operation_simps split: if_splits)
    then have "l \<in> map_logicals m" by (auto simp: mappings_logical_project_def find_Some_iff map_logicals_def)
    then show ?thesis using b m1 Some by simp
  qed
  then show "base_ok m1" "l \<in> map_logicals m1" "pm_instances m1 = pm_instances m"
    "case logical of Some k \<Rightarrow> l = k \<and> \<not> created \<and> l \<in> map_logicals m | None \<Rightarrow> created \<and> l \<notin> map_logicals m" by blast+
  then show "view m1 = view m" by (simp add: view_def [abs_def] instance_for_observation_def)
qed

lemma find_instance_index_cong: "pm_instances m1 = pm_instances m \<Longrightarrow> find_instance_index m1 = find_instance_index m"
  by (simp add: find_instance_index_def [abs_def])

lemma named_instances:
  assumes "map_ok (find_instance_index m) (sort ids) = Inr idxs"
  shows "set ids \<subseteq> map_instances m"
proof
  fix k assume "k \<in> set ids"
  then obtain t where "find_instance_index m k = Inr t" using map_ok_each [OF assms] by auto
  then show "k \<in> map_instances m" using find_instance_index_Inr [of m k t] by (auto simp: map_instances_def)
qed

lemma merge_effect:
  assumes ok: "mappings_ok m" and r: "merge_operation draws logical label ids m = Inr (((l, created), changed), m')"
  shows "mappings_ok m' \<and> (\<not> changed \<longrightarrow> view m' = view m) \<and> set ids \<subseteq> map_instances m
    \<and> view m' = map_option (reassign (Some l) (set ids)) \<circ> view m
    \<and> (case logical of Some k \<Rightarrow> l = k \<and> \<not> created \<and> l \<in> map_logicals m | None \<Rightarrow> created \<and> l \<notin> map_logicals m)"
proof -
  note b = ok_base [OF ok]
  obtain idxs m1 where i: "map_ok (find_instance_index m) (sort ids) = Inr idxs" and t: "merge_target draws logical label m = Inr ((l, created), m1)"
    and c: "changed \<longleftrightarrow> created \<or> list_ex (\<lambda>i. im_logical_project_id (pm_instances m1 ! i) \<noteq> Some l) idxs"
    and m': "m' = canonicalize (remove_empty_logical_projects (m1\<lparr>pm_instances := assign_logical (Some l) idxs (pm_instances m1)\<rparr>))"
    using r by (auto simp: merge_operation_def operation_simps Let_def split: if_splits)
  note T = merge_target_ok [OF b t]
  have i1: "map_ok (find_instance_index m1) (sort ids) = Inr idxs" using i find_instance_index_cong [OF T(4)] by simp
  have m': "m' = canonicalize (remove_empty_logical_projects (relabel (Some l) (set ids) m1))"
    using assign_logical_relabel [OF T(1) i1] unfolding m' by simp
  have R: "base_ok (relabel (Some l) (set ids) m1)" using relabel_ok(1) [OF T(1), of "Some l"] T(3) by (simp add: map_logicals_def)
  have V: "view m' = map_option (reassign (Some l) (set ids)) \<circ> view m"
    using remove_empty_ok_view(2) [OF R] relabel_view [OF T(1), of "Some l" "set ids"] T(2,3) unfolding m' by simp
  moreover have "\<not> changed \<longrightarrow> map_option (reassign (Some l) (set ids)) \<circ> view m = view m"
    using unchanged_relabel [OF T(1) i1, of "Some l"] c T(2) by simp
  ultimately show ?thesis using remove_empty_ok_view(1) [OF R] named_instances [OF i] T(5) unfolding m' by auto
qed

lemma split_instances_effect:
  assumes ok: "mappings_ok m" and r: "split_instances_operation ids m = Inr (((), changed), m')"
  shows "mappings_ok m' \<and> (\<not> changed \<longrightarrow> view m' = view m) \<and> set ids \<subseteq> map_instances m
    \<and> view m' = map_option (reassign None (set ids)) \<circ> view m"
proof -
  note b = ok_base [OF ok]
  obtain idxs where i: "map_ok (find_instance_index m) (sort ids) = Inr idxs"
    and c: "changed \<longleftrightarrow> list_ex (\<lambda>i. im_logical_project_id (pm_instances m ! i) \<noteq> None) idxs"
    and m': "m' = canonicalize (remove_empty_logical_projects (m\<lparr>pm_instances := assign_logical None idxs (pm_instances m)\<rparr>))"
    using r by (auto simp: split_instances_operation_def operation_simps Let_def split: if_splits)
  have m': "m' = canonicalize (remove_empty_logical_projects (relabel None (set ids) m))"
    using assign_logical_relabel [OF b i] unfolding m' by simp
  have R: "base_ok (relabel None (set ids) m)" using relabel_ok(1) [OF b] by auto
  have V: "view m' = map_option (reassign None (set ids)) \<circ> view m"
    using remove_empty_ok_view(2) [OF R] relabel_view [OF b, of None "set ids"] unfolding m' by simp
  moreover have "\<not> changed \<longrightarrow> map_option (reassign None (set ids)) \<circ> view m = view m"
    using unchanged_relabel [OF b i, of None] c by simp
  ultimately show ?thesis using remove_empty_ok_view(1) [OF R] named_instances [OF i] unfolding m' by auto
qed

lemma rename_effect:
  assumes ok: "mappings_ok m" and r: "rename_operation k label m = Inr (((), changed), m')"
  shows "mappings_ok m' \<and> view m' = view m \<and> k \<in> map_logicals m"
proof -
  obtain i where i: "find_index (\<lambda>l. lm_logical_project_id l = k) (pm_logical_projects m) = Some i"
    and m': "m' = m\<lparr>pm_logical_projects := (pm_logical_projects m)[i := (pm_logical_projects m ! i)\<lparr>lm_display_label := label\<rparr>]\<rparr>"
    using r by (auto simp: rename_operation_def operation_simps Let_def)
  note I = find_index_Some [OF i]
  have ids: "List.map lm_logical_project_id (pm_logical_projects m') = List.map lm_logical_project_id (pm_logical_projects m)"
    using I by (simp add: m' map_update list_update_same_conv)
  then have s: "lm_logical_project_id ` set (pm_logical_projects m') = lm_logical_project_id ` set (pm_logical_projects m)"
    by (metis list.set_map)
  have "pm_instances m' = pm_instances m" "pm_version m' = pm_version m" "length (pm_logical_projects m') = length (pm_logical_projects m)"
    by (simp_all add: m')
  then have "mappings_ok m'" using ok unfolding mappings_ok_def total_observation_count_def s ids by simp
  moreover have "view m' = view m" by (simp add: m' view_def [abs_def] instance_for_observation_def)
  moreover have "k \<in> map_logicals m" using I by (auto simp: map_logicals_def)
  ultimately show ?thesis by blast
qed

section \<open>Batches\<close>

definition rows :: "project_mappings \<Rightarrow> observed_project list list" where
  "rows m = List.map identities (pm_instances m)"

definition cell :: "observed_project list list \<Rightarrow> observed_project \<Rightarrow> nat \<times> nat \<Rightarrow> bool" where
  "cell rs x = (\<lambda>(i, j). i < length rs \<and> j < length (rs ! i) \<and> rs ! i ! j = x)"

lemma cell_mem: "cell (List.map f is) x ij \<Longrightarrow> \<exists>i\<in>set is. x \<in> set (f i)"
  by (cases ij) (auto simp: cell_def dest: nth_mem, metis nth_mem)

lemma cell_unique:
  assumes "base_ok m" "cell (rows m) x ij" "cell (rows m) x ij'"
  shows "ij' = ij"
proof -
  obtain i j i' j' where ij: "ij = (i, j)" "ij' = (i', j')" by (cases ij, cases ij')
  have c: "i < length (pm_instances m)" "j < length (identities (pm_instances m ! i))" "identities (pm_instances m ! i) ! j = x"
    and c': "i' < length (pm_instances m)" "j' < length (identities (pm_instances m ! i'))" "identities (pm_instances m ! i') ! j' = x"
    using assms(2,3) by (auto simp: cell_def rows_def ij)
  have "pm_instances m ! i = pm_instances m ! i'"
    using base_ok_disjoint [OF assms(1) nth_mem [OF c(1)] nth_mem [OF c'(1)]] nth_mem [OF c(2)] nth_mem [OF c'(2)] c(3) c'(3) by auto
  then have "i = i'" using distinct_instances [OF assms(1)] c(1) c'(1) by (simp add: nth_eq_iff_index_eq)
  moreover have "distinct (identities (pm_instances m ! i))" using base_ok_instance [OF assms(1) nth_mem [OF c(1)]] by (simp add: instance_ok_def)
  ultimately show ?thesis using c c' ij by (auto simp: nth_eq_iff_index_eq)
qed

lemma find_cell:
  assumes "base_ok m"
  shows "find_observation_indices m x = Some ij \<longleftrightarrow> cell (rows m) x ij"
proof -
  have f: "cell (rows m) x ij" if "find_observation_indices m x = Some ij" for ij
  proof -
    obtain i j where ij: "ij = (i, j)" by (cases ij)
    show ?thesis using find_observation_Some [OF that [unfolded ij]] by (simp add: cell_def rows_def identities_def ij)
  qed
  moreover have "find_observation_indices m x \<noteq> None" if "cell (rows m) x ij"
    using cell_mem [OF that [unfolded rows_def]] unfolding find_observation_None by blast
  ultimately show ?thesis using cell_unique [OF assms] by (metis not_Some_eq)
qed

lemma cell_snoc:
  "cell (rs @ [r]) x (i, j) \<longleftrightarrow> cell rs x (i, j) \<or> i = length rs \<and> j < length r \<and> r ! j = x"
  by (auto simp: cell_def nth_append less_Suc_eq)

lemma index_row:
  fixes n :: nat
  assumes "bt_wf t" "distinct (List.map so_identity obs)" "\<forall>ob\<in>set obs. bt_get t (so_identity ob) = None"
  defines "t' \<equiv> fold (\<lambda>(j, ob). bt_insert (so_identity ob) (n, j)) (List.enumerate 0 obs) t"
  shows "bt_wf t' \<and> (\<forall>x ij. bt_get t' x = Some ij \<longleftrightarrow> bt_get t x = Some ij \<or> fst ij = n \<and> snd ij < length obs \<and> so_identity (obs ! snd ij) = x)
    \<and> length t' = length t + length obs"
  using assms(2,3) unfolding t'_def
proof (induction obs rule: rev_induct)
  case Nil
  then show ?case using assms(1) by simp
next
  case (snoc ob obs)
  let ?u = "fold (\<lambda>(j, ob). bt_insert (so_identity ob) (n, j)) (List.enumerate 0 obs) t"
  have IH: "bt_wf ?u" "\<And>x ij. bt_get ?u x = Some ij \<longleftrightarrow> bt_get t x = Some ij \<or> fst ij = n \<and> snd ij < length obs \<and> so_identity (obs ! snd ij) = x"
    "length ?u = length t + length obs" using snoc by auto
  have e: "fold (\<lambda>(j, ob). bt_insert (so_identity ob) (n, j)) (List.enumerate 0 (obs @ [ob])) t = bt_insert (so_identity ob) (n, length obs) ?u"
    by (simp add: enumerate_append_eq)
  have "bt_get ?u (so_identity ob) \<noteq> Some ij" for ij
    using snoc.prems IH(2) [of "so_identity ob" ij] by auto (metis imageI nth_mem)
  then have none: "bt_get ?u (so_identity ob) = None" by (cases "bt_get ?u (so_identity ob)") auto
  have "bt_get (bt_insert (so_identity ob) (n, length obs) ?u) x = Some ij \<longleftrightarrow>
      bt_get t x = Some ij \<or> fst ij = n \<and> snd ij < length (obs @ [ob]) \<and> so_identity ((obs @ [ob]) ! snd ij) = x" for x ij
  proof (cases "x = so_identity ob")
    case True
    then show ?thesis using none IH(2) [of x ij] IH(1) by (cases ij) (auto simp: bt_get_insert nth_append less_Suc_eq)
  next
    case False
    then show ?thesis using IH(2) [of x ij] IH(1) by (cases ij) (auto simp: bt_get_insert nth_append less_Suc_eq)
  qed
  then show ?case unfolding e using IH(1,3) none by (simp add: bt_wf_insert length_bt_insert)
qed

lemma distinct_rows:
  assumes "base_ok m"
  shows "distinct (concat (List.map identities (pm_instances m)))"
proof (rule distinct_concat)
  have ne: "identities i \<noteq> []" if "i \<in> set (pm_instances m)" for i
    using base_ok_instance [OF assms that] by (simp add: instance_ok_def identities_def)
  have "i = j" if "i \<in> set (pm_instances m)" "j \<in> set (pm_instances m)" "identities i = identities j" for i j
    using base_ok_disjoint [OF assms that(1,2)] ne [OF that(1)] that(3) by auto
  then show "distinct (List.map identities (pm_instances m))"
    using distinct_instances [OF assms] by (simp add: distinct_map inj_on_def)
  show "distinct r" if "r \<in> set (List.map identities (pm_instances m))" for r
    using that base_ok_instance [OF assms] by (auto simp: instance_ok_def)
  show "set r \<inter> set r' = {}" if rs: "r \<in> set (List.map identities (pm_instances m))" "r' \<in> set (List.map identities (pm_instances m))" "r \<noteq> r'" for r r'
  proof -
    obtain i j where "i \<in> set (pm_instances m)" "j \<in> set (pm_instances m)" "r = identities i" "r' = identities j" using rs(1,2) by auto
    then show ?thesis using base_ok_disjoint [OF assms, of i j] rs(3) by blast
  qed
qed

lemma observation_index_ok:
  assumes "base_ok m"
  shows "bt_wf (observation_index m)" "bt_get (observation_index m) x = find_observation_indices m x"
    "length (observation_index m) = total_observation_count m"
proof -
  let ?ix = "\<lambda>is. fold (\<lambda>(i, inst) t. fold (\<lambda>(j, obs). bt_insert (so_identity obs) (i, j))
     (List.enumerate 0 (im_observations inst)) t) (List.enumerate 0 is) []"
  have "bt_wf (?ix is) \<and> (\<forall>x ij. bt_get (?ix is) x = Some ij \<longleftrightarrow> cell (List.map identities is) x ij)
      \<and> length (?ix is) = sum_list (List.map (\<lambda>i. length (im_observations i)) is)"
    if "distinct (concat (List.map identities is))" for "is"
    using that
  proof (induction "is" rule: rev_induct)
    case Nil
    then show ?case by (simp add: cell_def)
  next
    case (snoc i "is")
    have IH: "bt_wf (?ix is)" "\<And>x ij. bt_get (?ix is) x = Some ij \<longleftrightarrow> cell (List.map identities is) x ij"
      "length (?ix is) = sum_list (List.map (\<lambda>i. length (im_observations i)) is)" using snoc by auto
    have e: "?ix (is @ [i]) = fold (\<lambda>(j, ob). bt_insert (so_identity ob) (length is, j)) (List.enumerate 0 (im_observations i)) (?ix is)"
      by (simp add: enumerate_append_eq)
    have "bt_get (?ix is) (so_identity ob) = None" if ob: "ob \<in> set (im_observations i)" for ob
    proof (cases "bt_get (?ix is) (so_identity ob)")
      case (Some ij)
      then have "cell (List.map identities is) (so_identity ob) ij" using IH(2) by blast
      then have "so_identity ob \<in> set (concat (List.map identities is))" using cell_mem by fastforce
      moreover have "so_identity ob \<in> set (identities i)" using ob by (simp add: identities_def)
      ultimately show ?thesis using snoc.prems by auto
    qed simp
    then have row: "\<forall>ob\<in>set (im_observations i). bt_get (?ix is) (so_identity ob) = None" by blast
    have d: "distinct (List.map so_identity (im_observations i))" using snoc.prems by (simp add: identities_def)
    have "cell (List.map identities (is @ [i])) x ij \<longleftrightarrow> cell (List.map identities is) x ij
        \<or> fst ij = length is \<and> snd ij < length (im_observations i) \<and> so_identity (im_observations i ! snd ij) = x" for x ij
      by (cases ij) (auto simp: cell_snoc identities_def [of i])
    then show ?case unfolding e using index_row [OF IH(1) d row, of "length is"] IH(2,3) by simp
  qed
  moreover note distinct_rows [OF assms]
  ultimately have R: "bt_wf (observation_index m)" "\<And>x ij. bt_get (observation_index m) x = Some ij \<longleftrightarrow> cell (rows m) x ij"
    "length (observation_index m) = total_observation_count m"
    unfolding observation_index_def rows_def total_observation_count_def by blast+
  show "bt_wf (observation_index m)" "length (observation_index m) = total_observation_count m" by (rule R)+
  show "bt_get (observation_index m) x = find_observation_indices m x"
    using R(2) [of x] find_cell [OF assms, of x] by (metis not_Some_eq)
qed

type_synonym project_view = "observed_project \<rightharpoonup> string \<times> string option"

definition view_instances :: "project_view \<Rightarrow> string set" where
  "view_instances v = fst ` ran v"

lemma view_instances: "base_ok m \<Longrightarrow> view_instances (view m) = map_instances m"
  using map_instances_iff [of m] by (force simp: view_instances_def ran_def)

definition resolve_spec :: "observed_project \<Rightarrow> project_view \<Rightarrow> string \<Rightarrow> project_view \<Rightarrow> bool" where
  "resolve_spec x v k v' = (if x \<in> dom v then v' = v \<and> k = fst (the (v x))
     else k \<notin> view_instances v \<and> v' = v(x \<mapsto> (k, None)))"

fun resolve_all_spec :: "observed_project list \<Rightarrow> project_view \<Rightarrow> string list \<Rightarrow> project_view \<Rightarrow> bool" where
  "resolve_all_spec [] v ks v' = (ks = [] \<and> v' = v)"
| "resolve_all_spec (x # xs) v ks v' = (\<exists>k ks' u. ks = k # ks' \<and> resolve_spec x v k u \<and> resolve_all_spec xs u ks' v')"

definition batch_ok :: "batch_state \<Rightarrow> bool" where
  "batch_ok b \<longleftrightarrow> mappings_ok (bs_mappings b) \<and> bs_total b = total_observation_count (bs_mappings b)
     \<and> set (bs_allocated b) = map_instances (bs_mappings b) \<and> bt_wf (bs_indices b)
     \<and> (\<forall>x. bt_get (bs_indices b) x = find_observation_indices (bs_mappings b) x)"

lemma refresh_rows:
  assumes "find_observation_indices m (so_identity obs) = Some (i, j)" "refresh_at i j obs m = Inr (changed, m')"
  shows "rows m' = rows m" "total_observation_count m' = total_observation_count m" "map_instances m' = map_instances m"
proof -
  let ?i = "pm_instances m ! i"
  note f = find_observation_Some [OF assms(1)]
  obtain new where new: "refresh_from (im_observations ?i ! j) obs = Inr (changed, new)"
    and m': "m' = m\<lparr>pm_instances := (pm_instances m)[i := ?i\<lparr>im_observations := (im_observations ?i)[j := new]\<rparr>]\<rparr>"
    using assms(2) by (auto simp: refresh_at_def operation_simps)
  have "so_identity new = so_identity (im_observations ?i ! j)"
    using new by (auto simp: refresh_from_def operation_simps Let_def split: if_splits)
  then have "identities (?i\<lparr>im_observations := (im_observations ?i)[j := new]\<rparr>) = identities ?i"
    using f(2) by (simp add: identities_def map_update list_update_same_conv)
  then show r: "rows m' = rows m" using f(1) by (simp add: rows_def m' map_update list_update_same_conv)
  have t: "total_observation_count m = sum_list (List.map length (rows m))" for m
    by (simp add: total_observation_count_def rows_def comp_def identities_def)
  show "total_observation_count m' = total_observation_count m" by (simp add: t r)
  have "List.map im_instance_id (pm_instances m') = List.map im_instance_id (pm_instances m)"
    using f(1) by (simp add: m' map_update list_update_same_conv)
  then show "map_instances m' = map_instances m" unfolding map_instances_def by (metis list.set_map)
qed

lemma batch_step:
  assumes ok: "batch_ok b" and r: "resolve_batch_step obs b = Inr b'"
  shows "batch_ok b' \<and> (\<exists>k. bs_instance_ids b' = bs_instance_ids b @ [k]
      \<and> resolve_spec (so_identity obs) (view (bs_mappings b)) k (view (bs_mappings b')))
    \<and> (\<not> bs_changed b' \<longrightarrow> \<not> bs_changed b \<and> bs_mappings b' = bs_mappings b)"
proof -
  let ?m = "bs_mappings b"
  have m: "mappings_ok ?m" using ok by (simp add: batch_ok_def)
  note b = ok_base [OF m]
  have ix: "bt_get (bs_indices b) (so_identity obs) = find_observation_indices ?m (so_identity obs)" using ok by (simp add: batch_ok_def)
  show ?thesis
  proof (cases "find_observation_indices ?m (so_identity obs)")
    case None
    then have new: "so_identity obs \<notin> dom (view ?m)" using find_observation_dom [OF b] by blast
    obtain k draws where e: "length (pm_instances ?m) < MAX_INSTANCES" "bs_total b < MAX_TOTAL_OBSERVATIONS"
      "generate_unique_id 8 (bs_allocated b) (bs_draws b) = Inr (k, draws)" "validate_git_evidence (so_git_evidence obs) = Inr ()"
      and b': "b' = b\<lparr>bs_mappings := add_instance \<lparr>im_instance_id = k, im_observations = [obs], im_logical_project_id = None\<rparr> ?m,
            bs_indices := bt_insert (so_identity obs) (length (pm_instances ?m), 0) (bs_indices b),
            bs_total := bs_total b + 1, bs_allocated := k # bs_allocated b, bs_draws := draws,
            bs_instance_ids := bs_instance_ids b @ [k], bs_created := bs_created b + 1, bs_changed := True\<rparr>"
      using r None by (auto simp: resolve_batch_step_def ix Let_def operation_simps add_instance_def split: if_splits)
    let ?m' = "add_instance \<lparr>im_instance_id = k, im_observations = [obs], im_logical_project_id = None\<rparr> ?m"
    have k: "k \<notin> map_instances ?m" using generate_unique_fresh [OF e(3)] ok by (simp add: batch_ok_def)
    have cap: "total_observation_count ?m < MAX_TOTAL_OBSERVATIONS" using e(2) ok by (simp add: batch_ok_def)
    note E = extend_ok_view [OF m e(4) new k e(1) cap]
    have rows: "rows ?m' = rows ?m @ [[so_identity obs]]" by (simp add: rows_def add_instance_def identities_def)
    have "bt_get (bs_indices b') x = find_observation_indices ?m' x" for x
    proof -
      have "find_observation_indices ?m' x = Some ij \<longleftrightarrow> bt_get (bs_indices b') x = Some ij" for ij
      proof -
        have "bt_get (bs_indices b) x = find_observation_indices ?m x" using ok by (simp add: batch_ok_def)
        moreover have "bt_wf (bs_indices b)" using ok by (simp add: batch_ok_def)
        ultimately have "bt_get (bs_indices b') x = Some ij \<longleftrightarrow>
            (if x = so_identity obs then ij = (length (pm_instances ?m), 0) else cell (rows ?m) x ij)"
          using find_cell [OF b] by (auto simp: b' bt_get_insert)
        moreover have "\<not> cell (rows ?m) (so_identity obs) ij" using None find_cell [OF b, of "so_identity obs" ij] by simp
        ultimately show ?thesis unfolding find_cell [OF ok_base [OF E(1)]] rows
          by (cases ij) (auto simp: cell_snoc rows_def)
      qed
      then show ?thesis by (metis not_Some_eq)
    qed
    then have "batch_ok b'" using ok E(1) unfolding batch_ok_def b'
      by (simp add: bt_wf_insert add_instance_def total_observation_count_def map_instances_def)
    then show ?thesis using E(2) new k view_instances [OF b] by (simp add: b' resolve_spec_def)
  next
    case (Some ij)
    then obtain i j where ij: "find_observation_indices ?m (so_identity obs) = Some (i, j)" by (cases ij) auto
    obtain changed m' where e: "refresh_at i j obs ?m = Inr (changed, m')"
      and b': "b' = b\<lparr>bs_mappings := m', bs_changed := bs_changed b \<or> changed,
          bs_instance_ids := bs_instance_ids b @ [im_instance_id (pm_instances ?m ! i)]\<rparr>"
      using r ij by (auto simp: resolve_batch_step_def ix Let_def operation_simps)
    note R = refresh_ok [OF m ij e] and W = refresh_rows [OF ij e] and v = view_found [OF b ij]
    have "find_observation_indices m' x = find_observation_indices ?m x" for x
      using find_cell [OF b, of x] find_cell [OF ok_base [OF R(1)], of x] W(1) by (metis not_Some_eq)
    then have "batch_ok b'" using ok R(1) W(2,3) by (simp add: batch_ok_def b')
    moreover have "view m' = view ?m" by (rule view_cong [OF b ok_base [OF R(1)] R(2)])
    ultimately show ?thesis using R(3) v by (auto simp: b' resolve_spec_def)
  qed
qed

lemma batch_steps:
  assumes "batch_ok b" "fold_ok resolve_batch_step batch b = Inr b'"
  shows "batch_ok b' \<and> (\<exists>ks. bs_instance_ids b' = bs_instance_ids b @ ks
      \<and> resolve_all_spec (List.map so_identity batch) (view (bs_mappings b)) ks (view (bs_mappings b')))
    \<and> (\<not> bs_changed b' \<longrightarrow> \<not> bs_changed b \<and> bs_mappings b' = bs_mappings b)"
  using assms
proof (induction batch arbitrary: b)
  case (Cons obs batch)
  then obtain b1 where b1: "resolve_batch_step obs b = Inr b1" "fold_ok resolve_batch_step batch b1 = Inr b'" by (auto simp: and_then_Inr)
  note S = batch_step [OF Cons.prems(1) b1(1)]
  obtain k where k: "bs_instance_ids b1 = bs_instance_ids b @ [k]" "resolve_spec (so_identity obs) (view (bs_mappings b)) k (view (bs_mappings b1))"
    using S by blast
  obtain ks where ks: "bs_instance_ids b' = bs_instance_ids b1 @ ks"
    "resolve_all_spec (List.map so_identity batch) (view (bs_mappings b1)) ks (view (bs_mappings b'))"
    using Cons.IH [OF conjunct1 [OF S] b1(2)] by blast
  have "bs_instance_ids b' = bs_instance_ids b @ (k # ks)" using k(1) ks(1) by simp
  moreover have "resolve_all_spec (List.map so_identity (obs # batch)) (view (bs_mappings b)) (k # ks) (view (bs_mappings b'))"
    using k(2) ks(2) by auto
  moreover have "\<not> bs_changed b' \<longrightarrow> \<not> bs_changed b \<and> bs_mappings b' = bs_mappings b"
    using S Cons.IH [OF conjunct1 [OF S] b1(2)] by auto
  ultimately show ?case using Cons.IH [OF conjunct1 [OF S] b1(2)] by blast
qed simp

lemma batch_effect:
  assumes ok: "mappings_ok m" and r: "resolve_observation_batch draws batch m = Inr (((ks, created), changed), m')"
  shows "mappings_ok m' \<and> (\<not> changed \<longrightarrow> view m' = view m) \<and> resolve_all_spec (List.map so_identity batch) (view m) ks (view m')"
proof -
  let ?b = "\<lparr>bs_mappings = m, bs_indices = observation_index m,
      bs_total = length (observation_index m), bs_allocated = List.map im_instance_id (pm_instances m), bs_draws = draws,
      bs_instance_ids = [], bs_created = 0, bs_changed = False\<rparr>"
  obtain b where f: "fold_ok resolve_batch_step batch ?b = Inr b" and o: "ks = bs_instance_ids b" "changed = bs_changed b" "m' = canonicalize (bs_mappings b)"
    using r by (auto simp: resolve_observation_batch_def operation_simps)
  have "batch_ok ?b" using ok observation_index_ok [OF ok_base [OF ok]] by (simp add: batch_ok_def map_instances_def)
  note S = batch_steps [OF this f]
  have ok': "mappings_ok (bs_mappings b)" using S by (simp add: batch_ok_def)
  note C = canonicalize_ok_view [OF ok']
  show ?thesis using S C canonicalize_ok_view(2) [OF ok] unfolding o by auto
qed

end
