(* ===== verification/Project_Safety.thy ===== *)
theory Project_Safety
  imports Project_Operations
begin

text \<open>
  Properties of the project mapping store (\<open>src/project_mapping.rs\<close>): the contract of an operation as
  a locale, interpreted for every operation of the code, the calls of the store as refinements of
  operations on the view, the projection, merging and splitting, and the suggestions.
\<close>

section \<open>Purging a source\<close>

lemma retain_other_sources_keep:
  assumes "base_ok m"
  shows "m\<lparr>pm_instances := retain_other_sources s (pm_instances m)\<rparr> = keep (\<lambda>i. \<forall>x\<in>set (identities i). op_source_id x \<noteq> s) m"
proof -
  have "(case im_observations i of [] \<Rightarrow> False | obs # _ \<Rightarrow> op_source_id (so_identity obs) \<noteq> s) \<longleftrightarrow> (\<forall>x\<in>set (identities i). op_source_id x \<noteq> s)"
    if "i \<in> set (pm_instances m)" for i
    using base_ok_instance [OF assms that] by (auto simp: instance_ok_def identities_def split: list.splits)
  then show ?thesis by (simp add: retain_other_sources_def keep_def cong: filter_cong)
qed

lemma purge_effect:
  fixes s :: node_id
  assumes ok: "mappings_ok m"
  defines "m' \<equiv> remove_empty_logical_projects (m\<lparr>pm_instances := retain_other_sources s (pm_instances m)\<rparr>)"
  shows "mappings_ok m'" "view m' = view m |` {x. op_source_id x \<noteq> s}"
proof -
  note b = ok_base [OF ok]
  let ?k = "keep (\<lambda>i. \<forall>x\<in>set (identities i). op_source_id x \<noteq> s) m"
  have m': "m' = remove_empty_logical_projects ?k" by (simp add: m'_def retain_other_sources_keep [OF b])
  have k: "base_ok ?k" by (rule base_keep [OF b])
  show ok': "mappings_ok m'" unfolding m' by (rule remove_empty_ok [OF k])
  have "placements ?k = {p \<in> placements m. op_source_id (fst p) \<noteq> s}"
  proof -
    have "(\<forall>y\<in>set (identities i). op_source_id y \<noteq> s) \<longleftrightarrow> op_source_id x \<noteq> s" if ix: "i \<in> set (pm_instances m)" "x \<in> set (identities i)" for i x
    proof -
      obtain s' where "\<forall>x\<in>set (identities i). op_source_id x = s'" using base_ok_instance [OF b ix(1)] unfolding instance_ok_def by blast
      then show ?thesis using ix(2) by metis
    qed
    then have "(x, k, v) \<in> placements ?k \<longleftrightarrow> (x, k, v) \<in> placements m \<and> op_source_id x \<noteq> s" for x k v
      unfolding placements_iff keep_def by auto
    then show ?thesis by auto
  qed
  then have p: "placements m' = {p \<in> placements m. op_source_id (fst p) \<noteq> s}" by (simp add: m')
  show "view m' = view m |` {x. op_source_id x \<noteq> s}"
    by (rule view_eqI [OF ok_base [OF ok']]) (auto simp: p restrict_map_def view_iff [OF b])
qed

section \<open>Calls and their specification\<close>

text \<open>The calls of the store; identifiers drawn at random are given with the call.\<close>

datatype mapping_call =
    Resolve "string list" stored_observation
  | ResolveBatch "string list" "stored_observation list"
  | BindAlias string stored_observation
  | MoveAlias observed_project string
  | SplitObservation "string list" observed_project
  | MergeInstances "string list" "string option" "string option" "string list"
  | SplitInstances "string list"
  | RenameLogical string string
  | PurgeSource node_id

definition answer ::
  "('r \<Rightarrow> string list) \<Rightarrow> (mapping_error + project_mappings \<times> 'r) \<times> mapping_file \<Rightarrow> (mapping_error + string list) \<times> mapping_file" where
  "answer f out = (and_then (fst out) (\<lambda>(_, r). Inr (f r)), snd out)"

fun perform_mapping :: "mapping_size \<Rightarrow> u64 \<Rightarrow> mapping_call \<Rightarrow> mapping_file \<Rightarrow> (mapping_error + string list) \<times> mapping_file" where
  "perform_mapping bytes_of e (Resolve draws obs) f = answer (\<lambda>(k, _). [k]) (resolve_or_create bytes_of e draws obs f)"
| "perform_mapping bytes_of e (ResolveBatch draws batch) f = answer fst (resolve_or_create_batch bytes_of e draws batch f)"
| "perform_mapping bytes_of e (BindAlias k obs) f = answer (\<lambda>_. []) (bind_alias bytes_of e k obs f)"
| "perform_mapping bytes_of e (MoveAlias x k) f = answer (\<lambda>_. []) (move_observation_alias bytes_of e x k f)"
| "perform_mapping bytes_of e (SplitObservation draws x) f = answer (\<lambda>(k, _). [k]) (split_observation bytes_of e draws x f)"
| "perform_mapping bytes_of e (MergeInstances draws logical label ids) f = answer (\<lambda>(l, _). [l]) (merge_instances bytes_of e draws logical label ids f)"
| "perform_mapping bytes_of e (SplitInstances ids) f = answer (\<lambda>_. []) (split_instances bytes_of e ids f)"
| "perform_mapping bytes_of e (RenameLogical k label) f = answer (\<lambda>_. []) (rename_logical_project bytes_of e k label f)"
| "perform_mapping bytes_of e (PurgeSource s) f = (and_then (fst (purge_source_observations bytes_of s f)) (\<lambda>_. Inr []), snd (purge_source_observations bytes_of s f))"

definition view_logicals :: "project_view \<Rightarrow> string set" where
  "view_logicals v = {l. \<exists>k. (k, Some l) \<in> ran v}"

definition move_spec :: "observed_project \<Rightarrow> string \<Rightarrow> project_view \<Rightarrow> project_view \<Rightarrow> bool" where
  "move_spec x k v v' \<longleftrightarrow> (\<exists>w. (k, w) \<in> ran v \<and> v' = v(x \<mapsto> (k, w)))"

definition split_spec :: "observed_project \<Rightarrow> project_view \<Rightarrow> string \<Rightarrow> project_view \<Rightarrow> bool" where
  "split_spec x v k v' \<longleftrightarrow> x \<in> dom v \<and>
     (if \<exists>y\<in>dom v. y \<noteq> x \<and> fst (the (v y)) = fst (the (v x))
      then k \<notin> view_instances v \<and> v' = v(x \<mapsto> (k, None)) else v' = v \<and> k = fst (the (v x)))"

definition merge_spec :: "string option \<Rightarrow> string list \<Rightarrow> project_view \<Rightarrow> string \<Rightarrow> project_view \<Rightarrow> bool" where
  "merge_spec logical ids v l v' \<longleftrightarrow> set ids \<subseteq> view_instances v \<and> v' = map_option (reassign (Some l) (set ids)) \<circ> v
     \<and> (case logical of Some k \<Rightarrow> l = k \<and> l \<in> view_logicals v | None \<Rightarrow> l \<notin> view_logicals v)"

fun call_spec :: "mapping_call \<Rightarrow> project_view \<Rightarrow> string list \<Rightarrow> project_view \<Rightarrow> bool" where
  "call_spec (Resolve _ obs) v ans v' \<longleftrightarrow> (\<exists>k. ans = [k] \<and> resolve_spec (so_identity obs) v k v')"
| "call_spec (ResolveBatch _ batch) v ans v' \<longleftrightarrow> resolve_all_spec (List.map so_identity batch) v ans v'"
| "call_spec (BindAlias k obs) v ans v' \<longleftrightarrow> move_spec (so_identity obs) k v v'
     \<and> (\<forall>kw. v (so_identity obs) = Some kw \<longrightarrow> fst kw = k)"
| "call_spec (MoveAlias x k) v ans v' \<longleftrightarrow> x \<in> dom v \<and> move_spec x k v v'"
| "call_spec (SplitObservation _ x) v ans v' \<longleftrightarrow> (\<exists>k. ans = [k] \<and> split_spec x v k v')"
| "call_spec (MergeInstances _ logical _ ids) v ans v' \<longleftrightarrow> (\<exists>l. ans = [l] \<and> merge_spec logical ids v l v')"
| "call_spec (SplitInstances ids) v ans v' \<longleftrightarrow> set ids \<subseteq> view_instances v \<and> v' = map_option (reassign None (set ids)) \<circ> v"
| "call_spec (RenameLogical k _) v ans v' \<longleftrightarrow> k \<in> view_logicals v \<and> v' = v"
| "call_spec (PurgeSource s) v ans v' \<longleftrightarrow> v' = v |` {x. op_source_id x \<noteq> s}"

lemma view_logicals: "mappings_ok m \<Longrightarrow> view_logicals (view m) = map_logicals m"
proof -
  assume ok: "mappings_ok m"
  note b = ok_base [OF ok]
  have "(k, Some l) \<in> ran (view m) \<longleftrightarrow> (\<exists>x. (x, k, Some l) \<in> placements m)" for k l
    using view_iff [OF b] by (auto simp: ran_def)
  moreover have "l \<in> map_logicals m" if "(x, k, Some l) \<in> placements m" for x k l
    using that base_ok_logical [OF b] by (auto simp: placements_iff map_logicals_def)
  moreover have "\<exists>x k. (x, k, Some l) \<in> placements m" if "l \<in> map_logicals m" for l
    using that ok unfolding mappings_ok_placements map_logicals_def by blast
  ultimately show ?thesis unfolding view_logicals_def by blast
qed

section \<open>Transactions\<close>

definition mapping_readable :: "mapping_size \<Rightarrow> mapping_file \<Rightarrow> bool" where
  "mapping_readable bytes_of f = (case f of
      None \<Rightarrow> serialize_mappings bytes_of project_mappings_default = Inr ()
    | Some m \<Rightarrow> read_mappings bytes_of m = Inr m)"

definition file_view :: "mapping_file \<Rightarrow> project_view" where
  "file_view f = (case f of None \<Rightarrow> Map.empty | Some m \<Rightarrow> view m)"

lemma load_readable:
  assumes "mapping_readable bytes_of f"
  obtains m where "load_mappings_locked bytes_of f = (Inr m, Some m)" "mappings_ok m" "view m = file_view f" "mapping_readable bytes_of (Some m)"
proof (cases f)
  case None
  have v: "view project_mappings_default = Map.empty" by (simp add: view_def [abs_def] instance_for_observation_def project_mappings_default_def)
  have s: "serialize_mappings bytes_of project_mappings_default = Inr ()" using assms None by (simp add: mapping_readable_def)
  then have "mappings_validate project_mappings_default = Inr ()" "read_mappings bytes_of project_mappings_default = Inr project_mappings_default"
    by (auto simp: serialize_mappings_def read_mappings_def operation_simps)
  then show ?thesis using that [of project_mappings_default] None s v
    by (simp add: load_mappings_locked_def file_view_def mapping_readable_def mappings_valid_iff)
next
  case (Some m)
  then have "read_mappings bytes_of m = Inr m" using assms by (simp add: mapping_readable_def)
  moreover then have "mappings_validate m = Inr ()" by (auto simp: read_mappings_def operation_simps)
  ultimately show ?thesis using that [of m] Some by (simp add: load_mappings_locked_def file_view_def mapping_readable_def mappings_valid_iff)
qed

lemma commit_ok:
  assumes "mappings_ok m" "commit_mappings bytes_of m = Inr m'"
  shows "view m' = view m" "mapping_readable bytes_of (Some m')"
proof -
  note C = commit_never_invalid(2) [OF assms]
  have "view ((canonicalize m)\<lparr>pm_revision := r\<rparr>) = view (canonicalize m)" for r by (simp add: view_def [abs_def] instance_for_observation_def)
  then show "view m' = view m" using C canonicalize_ok_view(2) [OF assms(1)] by simp
  have "serialize_mappings bytes_of m' = Inr ()" using assms(2) by (auto simp: commit_mappings_def operation_simps Let_def)
  then show "mapping_readable bytes_of (Some m')"
    by (auto simp: mapping_readable_def read_mappings_def serialize_mappings_def operation_simps)
qed

text \<open>The contract of an operation that the transaction runs: it keeps a mapping valid, an operation that reports no
  change makes none, and its effect on the view is the specified one.\<close>

locale mapping_operation =
  fixes operation :: "'r mapping_operation"
    and spec :: "project_view \<Rightarrow> 'r \<Rightarrow> project_view \<Rightarrow> bool"
  assumes operation_ok: "mappings_ok m \<Longrightarrow> operation m = Inr ((r, changed), m') \<Longrightarrow> mappings_ok m'"
    and operation_unchanged: "mappings_ok m \<Longrightarrow> operation m = Inr ((r, False), m') \<Longrightarrow> view m' = view m"
    and operation_spec: "mappings_ok m \<Longrightarrow> operation m = Inr ((r, changed), m') \<Longrightarrow> spec (view m) r (view m')"
begin

lemma mutate_refines:
  assumes "mapping_readable bytes_of f" "mutate_mappings bytes_of expected operation f = (Inr (m, r), f')"
  shows "spec (file_view f) r (file_view f')" "mapping_readable bytes_of f'"
proof -
  obtain m0 where m0: "load_mappings_locked bytes_of f = (Inr m0, Some m0)" "mappings_ok m0" "view m0 = file_view f" "mapping_readable bytes_of (Some m0)"
    by (rule load_readable [OF assms(1)])
  obtain changed m1 where o: "operation m0 = Inr ((r, changed), m1)"
    and c: "if changed then \<exists>m2. commit_mappings bytes_of m1 = Inr m2 \<and> f' = Some m2 else f' = Some m0"
    using assms(2) m0(1) by (auto simp: mutate_mappings_def operation_simps split: sum.splits if_splits)
  note ok = operation_ok [OF m0(2) o] and s = operation_spec [OF m0(2) o]
  have "view m1 = file_view f' \<and> mapping_readable bytes_of f'"
    using c commit_ok [OF ok] operation_unchanged [OF m0(2), of r m1] o m0(4) by (cases changed) (auto simp: file_view_def)
  then show "spec (file_view f) r (file_view f')" "mapping_readable bytes_of f'" using s m0(3) by auto
qed

lemma mutate_fails:
  assumes "mapping_readable bytes_of f" "mutate_mappings bytes_of expected operation f = (Inl e, f')"
    and "\<And>m. mappings_ok m \<Longrightarrow> operation m \<noteq> Inl MappingInvalid"
  shows "e \<noteq> MappingInvalid" "file_view f' = file_view f" "mapping_readable bytes_of f'"
proof -
  obtain m0 where m0: "load_mappings_locked bytes_of f = (Inr m0, Some m0)" "mappings_ok m0" "view m0 = file_view f" "mapping_readable bytes_of (Some m0)"
    by (rule load_readable [OF assms(1)])
  have f': "f' = Some m0" using assms(2) m0(1) by (auto simp: mutate_mappings_def operation_simps split: sum.splits if_splits)
  then show "file_view f' = file_view f" "mapping_readable bytes_of f'" using m0(3,4) by (simp_all add: file_view_def)
  consider "e = MappingStale" | "operation m0 = Inl e" | r m1 where "operation m0 = Inr ((r, True), m1)" "commit_mappings bytes_of m1 = Inl e"
    using assms(2) m0(1) by (auto simp: mutate_mappings_def ensure_mapping_revision_def operation_simps split: sum.splits if_splits)
  then show "e \<noteq> MappingInvalid"
  proof cases
    case 3
    then show ?thesis using commit_never_invalid(1) [OF operation_ok [OF m0(2) 3(1)]] by auto
  qed (use assms(3) m0(2) in auto)
qed

end

interpretation resolve_op: mapping_operation "resolve_operation draws obs" "\<lambda>v r v'. resolve_spec (so_identity obs) v (fst r) v'" for draws obs
proof
  fix m r changed m'
  assume ok: "mappings_ok m" and r: "resolve_operation draws obs m = Inr ((r, changed), m')"
  obtain k created where [simp]: "r = (k, created)" by (cases r)
  note E = resolve_effect [OF ok r [unfolded \<open>r = (k, created)\<close>]]
  show "mappings_ok m'" by (rule E(1))
  show "resolve_spec (so_identity obs) (view m) (fst r) (view m')"
    using E(3,4) view_instances [OF ok_base [OF ok]] by (auto simp: resolve_spec_def split: if_splits)
next
  fix m r m'
  assume "mappings_ok m" "resolve_operation draws obs m = Inr ((r, False), m')"
  then show "view m' = view m" using resolve_effect(2) [of m draws obs "fst r" "snd r" False m'] by simp
qed

interpretation batch_op: mapping_operation "resolve_observation_batch draws batch"
  "\<lambda>v r v'. resolve_all_spec (List.map so_identity batch) v (fst r) v'" for draws batch
proof
  fix m r changed m'
  assume ok: "mappings_ok m" and r: "resolve_observation_batch draws batch m = Inr ((r, changed), m')"
  note E = batch_effect [of m draws batch "fst r" "snd r" changed m', simplified, OF ok r]
  show "mappings_ok m'" "resolve_all_spec (List.map so_identity batch) (view m) (fst r) (view m')"
    using E by (auto split: prod.splits)
next
  fix m r m'
  assume "mappings_ok m" "resolve_observation_batch draws batch m = Inr ((r, False), m')"
  then show "view m' = view m" using batch_effect [of m draws batch "fst r" "snd r" False m'] by simp
qed

lemma logical_of_ran:
  assumes "base_ok m" "k \<in> map_instances m"
  shows "(k, logical_of k m) \<in> ran (view m)"
proof -
  obtain i where i: "i \<in> set (pm_instances m)" "k = im_instance_id i" using assms(2) by (auto simp: map_instances_def)
  obtain x where "x \<in> set (identities i)" using base_ok_instance [OF assms(1) i(1)] by (fastforce simp: instance_ok_def identities_def neq_Nil_conv)
  then have "view m x = Some (k, logical_of k m)"
    using view_instance [OF assms(1) i(1)] i by (simp add: logical_of_def mappings_instance_unique [OF assms(1)])
  then show ?thesis by (rule ranI)
qed

interpretation bind_op: mapping_operation "bind_operation k obs"
  "\<lambda>v _ v'. move_spec (so_identity obs) k v v' \<and> (\<forall>kw. v (so_identity obs) = Some kw \<longrightarrow> fst kw = k)" for k obs
proof
  fix m r changed m'
  assume ok: "mappings_ok m" and r: "bind_operation k obs m = Inr ((r, changed), m')"
  note E = bind_effect [of m k obs changed m', OF ok, simplified, OF r [simplified]]
  show "mappings_ok m'" using E by blast
  have "move_spec (so_identity obs) k (view m) (view m')"
    unfolding move_spec_def using E logical_of_ran [OF ok_base [OF ok]] by blast
  then show "move_spec (so_identity obs) k (view m) (view m') \<and> (\<forall>kw. view m (so_identity obs) = Some kw \<longrightarrow> fst kw = k)"
    using E by auto
next
  fix m r m'
  assume "mappings_ok m" "bind_operation k obs m = Inr ((r, False), m')"
  then show "view m' = view m" using bind_effect [of m k obs False m'] by simp
qed

interpretation move_op: mapping_operation "move_operation x k" "\<lambda>v _ v'. x \<in> dom v \<and> move_spec x k v v'" for x k
proof
  fix m r changed m'
  assume ok: "mappings_ok m" and r: "move_operation x k m = Inr ((r, changed), m')"
  note E = move_effect [of m x k changed m', OF ok, simplified, OF r [simplified]]
  show "mappings_ok m'" using E by blast
  show "x \<in> dom (view m) \<and> move_spec x k (view m) (view m')"
    unfolding move_spec_def using E logical_of_ran [OF ok_base [OF ok]] by blast
next
  fix m r m'
  assume "mappings_ok m" "move_operation x k m = Inr ((r, False), m')"
  then show "view m' = view m" using move_effect [of m x k False m'] by simp
qed

interpretation split_op: mapping_operation "split_observation_operation draws x" "\<lambda>v r v'. split_spec x v (fst r) v'" for draws x
proof
  fix m r changed m'
  assume ok: "mappings_ok m" and r: "split_observation_operation draws x m = Inr ((r, changed), m')"
  obtain k created where [simp]: "r = (k, created)" by (cases r)
  note E = split_effect [OF ok r [unfolded \<open>r = (k, created)\<close>]]
  show "mappings_ok m'" using E by blast
  show "split_spec x (view m) (fst r) (view m')"
    using E view_instances [OF ok_base [OF ok]] unfolding split_spec_def \<open>r = (k, created)\<close> fst_conv by metis
next
  fix m r m'
  assume "mappings_ok m" "split_observation_operation draws x m = Inr ((r, False), m')"
  then show "view m' = view m" using split_effect [of m draws x "fst r" "snd r" False m'] by simp
qed

interpretation merge_op: mapping_operation "merge_operation draws logical label ids" "\<lambda>v r v'. merge_spec logical ids v (fst r) v'" for draws logical label ids
proof
  fix m r changed m'
  assume ok: "mappings_ok m" and r: "merge_operation draws logical label ids m = Inr ((r, changed), m')"
  obtain l created where [simp]: "r = (l, created)" by (cases r)
  note E = merge_effect [OF ok r [unfolded \<open>r = (l, created)\<close>]]
  show "mappings_ok m'" using E by blast
  show "merge_spec logical ids (view m) (fst r) (view m')"
    using E view_instances [OF ok_base [OF ok]] view_logicals [OF ok] by (auto simp: merge_spec_def split: option.splits)
next
  fix m r m'
  assume "mappings_ok m" "merge_operation draws logical label ids m = Inr ((r, False), m')"
  then show "view m' = view m" using merge_effect [of m draws logical label ids "fst r" "snd r" False m'] by simp
qed

interpretation split_instances_op: mapping_operation "split_instances_operation ids"
  "\<lambda>v _ v'. set ids \<subseteq> view_instances v \<and> v' = map_option (reassign None (set ids)) \<circ> v" for ids
proof
  fix m r changed m'
  assume ok: "mappings_ok m" and r: "split_instances_operation ids m = Inr ((r, changed), m')"
  note E = split_instances_effect [of m ids changed m', OF ok, simplified, OF r [simplified]]
  show "mappings_ok m'" using E by blast
  show "set ids \<subseteq> view_instances (view m) \<and> view m' = map_option (reassign None (set ids)) \<circ> view m"
    using E view_instances [OF ok_base [OF ok]] by blast
next
  fix m r m'
  assume "mappings_ok m" "split_instances_operation ids m = Inr ((r, False), m')"
  then show "view m' = view m" using split_instances_effect [of m ids False m'] by simp
qed

interpretation rename_op: mapping_operation "rename_operation k label" "\<lambda>v _ v'. k \<in> view_logicals v \<and> v' = v" for k label
proof
  fix m r changed m'
  assume ok: "mappings_ok m" and r: "rename_operation k label m = Inr ((r, changed), m')"
  note E = rename_effect [of m k label changed m', OF ok, simplified, OF r [simplified]]
  show "mappings_ok m'" "k \<in> view_logicals (view m) \<and> view m' = view m" using E view_logicals [OF ok] by blast+
next
  fix m r m'
  assume "mappings_ok m" "rename_operation k label m = Inr ((r, False), m')"
  then show "view m' = view m" using rename_effect [of m k label False m'] by simp
qed

section \<open>Operations never fail validation\<close>

fun call_evidence_ok :: "mapping_call \<Rightarrow> bool" where
  "call_evidence_ok (Resolve _ obs) \<longleftrightarrow> validate_git_evidence (so_git_evidence obs) = Inr ()"
| "call_evidence_ok (ResolveBatch _ batch) \<longleftrightarrow> list_all (\<lambda>obs. validate_git_evidence (so_git_evidence obs) = Inr ()) batch"
| "call_evidence_ok (BindAlias _ obs) \<longleftrightarrow> validate_git_evidence (so_git_evidence obs) = Inr ()"
| "call_evidence_ok _ \<longleftrightarrow> True"

lemma refresh_never_invalid:
  assumes "find_observation_indices m (so_identity obs) = Some (i, j)" "validate_git_evidence (so_git_evidence obs) = Inr ()"
    "refresh_at i j obs m = Inl e"
  shows False
  using find_observation_Some(3) [OF assms(1)] assms(2,3)
  by (auto simp: refresh_at_def refresh_from_def from_observation_def operation_simps Let_def)

lemma generate_never_invalid:
  "generate_unique_id n allocated draws \<noteq> Inl MappingInvalid" "generate_unique_instance_id draws m \<noteq> Inl MappingInvalid"
  "generate_unique_logical_project_id draws m \<noteq> Inl MappingInvalid"
  by (auto simp: generate_unique_instance_id_def generate_unique_logical_project_id_def operation_simps dest: generate_unique_error)

lemmas error_simps = and_then_Inl ensure_def ok_or_def Let_def generate_never_invalid

lemma find_instance_never_invalid: "find_instance_index m k \<noteq> Inl MappingInvalid"
  by (auto simp: find_instance_index_def error_simps split: option.splits)

lemma map_ok_never_invalid: "map_ok (find_instance_index m) ids \<noteq> Inl MappingInvalid"
  by (induction ids) (auto simp: error_simps find_instance_never_invalid)

lemma resolve_never_invalid:
  assumes "validate_git_evidence (so_git_evidence obs) = Inr ()"
  shows "resolve_operation draws obs m \<noteq> Inl MappingInvalid"
  using assms refresh_never_invalid [OF _ assms]
  by (auto simp: resolve_operation_def error_simps from_observation_def split: option.splits if_splits)

lemma bind_never_invalid:
  assumes "validate_git_evidence (so_git_evidence obs) = Inr ()"
  shows "bind_operation k obs m \<noteq> Inl MappingInvalid"
  using assms refresh_never_invalid [OF _ assms]
  by (auto simp: bind_operation_def error_simps from_observation_def find_instance_never_invalid split: option.splits if_splits)

lemma move_never_invalid: "move_operation x k m \<noteq> Inl MappingInvalid"
  by (auto simp: move_operation_def error_simps find_instance_never_invalid split: option.splits if_splits)

lemma split_never_invalid: "split_observation_operation draws x m \<noteq> Inl MappingInvalid"
  by (auto simp: split_observation_operation_def error_simps split: option.splits if_splits)

lemma merge_never_invalid: "merge_operation draws logical label ids m \<noteq> Inl MappingInvalid"
  by (auto simp: merge_operation_def merge_target_def error_simps map_ok_never_invalid split: option.splits if_splits)

lemma split_instances_never_invalid: "split_instances_operation ids m \<noteq> Inl MappingInvalid"
  by (auto simp: split_instances_operation_def error_simps map_ok_never_invalid split: option.splits if_splits)

lemma rename_never_invalid: "rename_operation k label m \<noteq> Inl MappingInvalid"
  by (auto simp: rename_operation_def error_simps split: option.splits if_splits)

lemma batch_never_invalid:
  assumes "mappings_ok m" "list_all (\<lambda>obs. validate_git_evidence (so_git_evidence obs) = Inr ()) batch"
  shows "resolve_observation_batch draws batch m \<noteq> Inl MappingInvalid"
proof -
  have "fold_ok resolve_batch_step batch b \<noteq> Inl MappingInvalid" if "batch_ok b" for b
    using that assms(2)
  proof (induction batch arbitrary: b)
    case (Cons obs batch)
    have ix: "bt_get (bs_indices b) (so_identity obs) = find_observation_indices (bs_mappings b) (so_identity obs)"
      using Cons.prems(1) by (simp add: batch_ok_def)
    have ev: "validate_git_evidence (so_git_evidence obs) = Inr ()" using Cons.prems(2) by simp
    have "resolve_batch_step obs b \<noteq> Inl MappingInvalid"
      using ev refresh_never_invalid [OF _ ev]
      by (auto simp: resolve_batch_step_def ix error_simps from_observation_def split: option.splits if_splits)
    moreover have "fold_ok resolve_batch_step batch b1 \<noteq> Inl MappingInvalid" if "resolve_batch_step obs b = Inr b1" for b1
      using Cons.IH [of b1] batch_step [OF Cons.prems(1) that] Cons.prems(2) by simp
    ultimately show ?case by (auto simp: and_then_Inl)
  qed simp
  then show ?thesis
    using assms(1) observation_index_ok [OF ok_base [OF assms(1)]]
    by (auto simp: resolve_observation_batch_def error_simps batch_ok_def map_instances_def)
qed

lemma purge_store:
  assumes "mapping_readable bytes_of f" and p: "purge_source_observations bytes_of s f = (out, f')"
  shows "out \<noteq> Inl MappingInvalid \<and> mapping_readable bytes_of f'
    \<and> (case out of Inl _ \<Rightarrow> file_view f' = file_view f | Inr _ \<Rightarrow> file_view f' = file_view f |` {x. op_source_id x \<noteq> s})"
proof -
  obtain m0 where m0: "load_mappings_locked bytes_of f = (Inr m0, Some m0)" "mappings_ok m0" "view m0 = file_view f" "mapping_readable bytes_of (Some m0)"
    by (rule load_readable [OF assms(1)])
  note E = purge_effect [OF m0(2), of s]
  let ?kept = "retain_other_sources s (pm_instances m0)"
  let ?m = "remove_empty_logical_projects (m0\<lparr>pm_instances := ?kept\<rparr>)"
  show ?thesis
  proof (cases "length (pm_instances m0) - length ?kept = 0")
    case True
    then have "out = Inr 0" "f' = Some m0" using p m0(1) by (auto simp: purge_source_observations_def Let_def)
    moreover have "?kept = pm_instances m0"
      using True unfolding retain_other_sources_def by (metis diff_is_0_eq filter_id_conv length_filter_less not_less)
    then have "view ?m = view m0" by (simp add: remove_empty_logical_projects_def view_def [abs_def] instance_for_observation_def Let_def)
    ultimately show ?thesis using E(2) m0(3,4) by (simp add: file_view_def)
  next
    case False
    then have o: "(out, f') = (case commit_mappings bytes_of ?m of Inl e \<Rightarrow> (Inl e, Some m0)
        | Inr m \<Rightarrow> (Inr (length (pm_instances m0) - length ?kept), Some m))"
      using p m0(1) by (simp add: purge_source_observations_def Let_def)
    show ?thesis
    proof (cases "commit_mappings bytes_of ?m")
      case (Inl e)
      then show ?thesis using o commit_never_invalid(1) [OF E(1)] m0(3,4) by (auto simp: file_view_def)
    next
      case (Inr m)
      then show ?thesis using o commit_ok [OF E(1) Inr] E(2) m0(3) by (auto simp: file_view_def)
    qed
  qed
qed

section \<open>The calls of the store\<close>

lemma answer_Inr: "answer g out = (Inr ans, f') \<longleftrightarrow> (\<exists>m r. out = (Inr (m, r), f') \<and> ans = g r)"
  by (cases out) (auto simp: answer_def operation_simps)

lemma answer_Inl: "answer g out = (Inl e, f') \<longleftrightarrow> out = (Inl e, f')"
  by (cases out) (auto simp: answer_def and_then_Inl)

text \<open>
  C15. Every successful call of the mapping store changes the placement of observations (their instance and logical project)
  exactly as its specification says.  Resolving keeps a known observation and gives an unknown one a fresh instance; a batch
  resolves its observations one after another; binding and moving place one observation in an existing instance; splitting
  gives it an instance of its own; merging and splitting instances change the logical project of the named instances only;
  renaming changes nothing and purging removes one source.
\<close>

theorem mapping_calls_refine:
  assumes "mapping_readable bytes_of f" "perform_mapping bytes_of expected call f = (Inr ans, f')"
  shows "call_spec call (file_view f) ans (file_view f')"
proof (cases call)
  case (Resolve draws obs)
  then show ?thesis using assms resolve_op.mutate_refines(1) [OF assms(1)] by (auto simp: answer_Inr resolve_or_create_def split: prod.splits)
next
  case (ResolveBatch draws batch)
  then show ?thesis using assms batch_op.mutate_refines(1) [OF assms(1)]
    by (auto simp: answer_Inr resolve_or_create_batch_def split: sum.splits)
next
  case (BindAlias k obs)
  then show ?thesis using assms bind_op.mutate_refines(1) [OF assms(1)] by (auto simp: answer_Inr bind_alias_def)
next
  case (MoveAlias x k)
  then show ?thesis using assms move_op.mutate_refines(1) [OF assms(1)] by (simp add: answer_Inr move_observation_alias_def) blast
next
  case (SplitObservation draws x)
  then show ?thesis using assms split_op.mutate_refines(1) [OF assms(1)] by (auto simp: answer_Inr split_observation_def split: prod.splits)
next
  case (MergeInstances draws logical label ids)
  then show ?thesis using assms merge_op.mutate_refines(1) [OF assms(1)]
    by (auto simp: answer_Inr merge_instances_def split: prod.splits if_splits)
next
  case (SplitInstances ids)
  then show ?thesis using assms split_instances_op.mutate_refines(1) [OF assms(1), of expected ids]
    by (simp add: answer_Inr split_instances_def split: if_splits) blast
next
  case (RenameLogical k label)
  then show ?thesis using assms rename_op.mutate_refines(1) [OF assms(1)] by (auto simp: answer_Inr rename_logical_project_def)
next
  case (PurgeSource s)
  then show ?thesis using assms purge_store [OF assms(1), of s "fst (purge_source_observations bytes_of s f)" f']
    by (cases "purge_source_observations bytes_of s f") (auto simp: operation_simps)
qed

lemma mutate_safe:
  assumes "mapping_operation operation spec" "mapping_readable bytes_of f" "\<And>m. mappings_ok m \<Longrightarrow> operation m \<noteq> Inl MappingInvalid"
  shows "case mutate_mappings bytes_of expected operation f of (out, f') \<Rightarrow>
    out \<noteq> Inl MappingInvalid \<and> mapping_readable bytes_of f' \<and> (isl out \<longrightarrow> file_view f' = file_view f)"
proof (cases "mutate_mappings bytes_of expected operation f")
  case (Pair out f')
  show ?thesis
  proof (cases out)
    case (Inl e)
    then show ?thesis using mapping_operation.mutate_fails [OF assms(1,2) _ assms(3), of expected e f'] Pair by auto
  next
    case (Inr mr)
    then show ?thesis using mapping_operation.mutate_refines(2) [OF assms(1,2), of expected "fst mr" "snd mr" f'] Pair by auto
  qed
qed

lemma answer_safe:
  "(case out of (r, f') \<Rightarrow> r \<noteq> Inl MappingInvalid \<and> mapping_readable bytes_of f' \<and> (isl r \<longrightarrow> file_view f' = v)) \<Longrightarrow>
   (case answer g out of (r, f') \<Rightarrow> r \<noteq> Inl MappingInvalid \<and> mapping_readable bytes_of f' \<and> (isl r \<longrightarrow> file_view f' = v))"
  by (cases out; cases "fst out") (auto simp: answer_def and_then_Inl)

text \<open>
  C16. On a readable mapping file, no call whose observations carry valid git evidence is ever refused as invalid: what the
  operations compute always passes the validation before the write.  The file stays readable, and a call that fails for any
  other reason leaves every placement as it was.
\<close>

theorem mapping_calls_never_invalid:
  assumes "mapping_readable bytes_of f" "call_evidence_ok call"
  shows "case perform_mapping bytes_of expected call f of (out, f') \<Rightarrow>
    out \<noteq> Inl MappingInvalid \<and> mapping_readable bytes_of f' \<and> (isl out \<longrightarrow> file_view f' = file_view f)"
proof (cases call)
  case (Resolve draws obs)
  then show ?thesis using assms(2)
    by (simp add: resolve_or_create_def answer_safe mutate_safe [OF resolve_op.mapping_operation_axioms assms(1)] resolve_never_invalid)
next
  case (ResolveBatch draws batch)
  show ?thesis
  proof (cases "validate_observation_batch batch")
    case (Inl e)
    then have "e = MappingInput" by (auto simp: validate_observation_batch_def ensure_def split: if_splits)
    then show ?thesis using ResolveBatch Inl assms(1) by (simp add: resolve_or_create_batch_def answer_def)
  next
    case (Inr u)
    then show ?thesis using ResolveBatch assms(2)
      by (simp add: resolve_or_create_batch_def answer_safe mutate_safe [OF batch_op.mapping_operation_axioms assms(1)] batch_never_invalid)
  qed
next
  case (BindAlias k obs)
  then show ?thesis using assms(2)
    by (simp add: bind_alias_def answer_safe mutate_safe [OF bind_op.mapping_operation_axioms assms(1)] bind_never_invalid)
next
  case (MoveAlias x k)
  then show ?thesis
    by (simp add: move_observation_alias_def answer_safe mutate_safe [OF move_op.mapping_operation_axioms assms(1)] move_never_invalid)
next
  case (SplitObservation draws x)
  then show ?thesis
    by (simp add: split_observation_def answer_safe mutate_safe [OF split_op.mapping_operation_axioms assms(1)] split_never_invalid)
next
  case (MergeInstances draws logical label ids)
  then show ?thesis using assms(1)
    by (cases "ids = []") (simp add: merge_instances_def answer_def,
      simp add: merge_instances_def answer_safe mutate_safe [OF merge_op.mapping_operation_axioms assms(1)] merge_never_invalid)
next
  case (SplitInstances ids)
  then show ?thesis using assms(1)
    by (cases "ids = []") (simp add: split_instances_def answer_def,
      simp add: split_instances_def answer_safe mutate_safe [OF split_instances_op.mapping_operation_axioms assms(1)] split_instances_never_invalid)
next
  case (RenameLogical k label)
  then show ?thesis
    by (simp add: rename_logical_project_def answer_safe mutate_safe [OF rename_op.mapping_operation_axioms assms(1)] rename_never_invalid)
next
  case (PurgeSource s)
  obtain out f' where p: "purge_source_observations bytes_of s f = (out, f')" by (cases "purge_source_observations bytes_of s f")
  then show ?thesis using purge_store [OF assms(1) p] PurgeSource by (cases out) auto
qed

section \<open>The projection\<close>

definition reference_projection :: "project_mappings \<Rightarrow> instance_mapping \<Rightarrow> project_projection" where
  "reference_projection m i = \<lparr>pj_instance_id = im_instance_id i, pj_aggregate_id = aggregate_of i,
     pj_display_label = (case im_logical_project_id i of
         Some l \<Rightarrow> map_option lm_display_label (mappings_logical_project l m) | None \<Rightarrow> min_label (instance_labels i))\<rparr>"

lemma bt_get_fold_insert:
  assumes "bt_wf t" "distinct (List.map key xs)"
  shows "bt_wf (fold (\<lambda>x. bt_insert (key x) (val x)) xs t)
    \<and> bt_get (fold (\<lambda>x. bt_insert (key x) (val x)) xs t) k = (case List.find (\<lambda>x. key x = k) xs of Some x \<Rightarrow> Some (val x) | None \<Rightarrow> bt_get t k)"
  using assms
proof (induction xs arbitrary: t)
  case (Cons x xs)
  have none: "List.find (\<lambda>y. key y = key x) xs = None" using Cons.prems(2) by (auto simp: find_None_iff) (metis imageI)
  show ?case using Cons none by (auto simp: bt_wf_insert bt_get_insert split: option.splits)
qed simp

lemma projection_rows:
  fixes P :: "instance_mapping \<Rightarrow> 'p"
  assumes "bt_wf t"
  defines "step \<equiv> \<lambda>i observations. fold (\<lambda>obs. bt_insert (so_identity obs) (P i)) (im_observations i) observations"
  assumes "\<forall>i\<in>set is. distinct (identities i)" "distinct (concat (List.map identities is))"
  shows "bt_get (fold step is t) x = (case List.find (\<lambda>i. x \<in> set (identities i)) is of Some i \<Rightarrow> Some (P i) | None \<Rightarrow> bt_get t x)"
  using assms(1,3,4)
proof (induction "is" arbitrary: t)
  case (Cons i "is")
  have d: "distinct (List.map so_identity (im_observations i))" using Cons.prems(2) by (simp add: identities_def)
  have s: "step i t = fold (\<lambda>obs. bt_insert (so_identity obs) (P i)) (im_observations i) t" by (simp add: step_def)
  note F = bt_get_fold_insert [OF Cons.prems(1) d, where val = "\<lambda>_. P i", folded s]
  have f: "List.find (\<lambda>obs. so_identity obs = x) (im_observations i) = None \<longleftrightarrow> x \<notin> set (identities i)"
    by (auto simp: find_None_iff identities_def)
  have IH: "bt_get (fold step is (step i t)) x = (case List.find (\<lambda>i. x \<in> set (identities i)) is of Some i \<Rightarrow> Some (P i) | None \<Rightarrow> bt_get (step i t) x)"
    using Cons F by simp
  show ?case
  proof (cases "x \<in> set (identities i)")
    case True
    then have "List.find (\<lambda>i. x \<in> set (identities i)) is = None" using Cons.prems(3) by (auto simp: find_None_iff)
    moreover have "bt_get (step i t) x = Some (P i)" using F [of x] f True by (auto split: option.splits)
    ultimately show ?thesis using IH True by simp
  next
    case False
    then have "bt_get (step i t) x = bt_get t x" using F [of x] f by simp
    then show ?thesis using IH False by (simp split: option.split)
  qed
qed simp

text \<open>
  The read-only projection agrees with the search in the mapping: an observation resolves to its instance, its aggregate and
  the label of its logical project, or the smallest label of the instance when it has none.
\<close>

theorem projection_agrees:
  assumes "mappings_validate m = Inr ()"
  shows "projection_resolve (from_mappings m) source_id key
    = map_option (reference_projection m) (instance_for_observation (ObservedProject source_id key) m)"
proof -
  have ok: "mappings_ok m" using assms by (simp add: mappings_valid_iff)
  note b = ok_base [OF ok]
  let ?labels = "fold (\<lambda>l. bt_insert (lm_logical_project_id l) (lm_display_label l)) (pm_logical_projects m) []"
  have "distinct (List.map lm_logical_project_id (pm_logical_projects m))" using b by (simp add: base_ok_def)
  then have "bt_get ?labels l = map_option lm_display_label (mappings_logical_project l m)" for l
    using bt_get_fold_insert [of "[]" lm_logical_project_id "pm_logical_projects m" lm_display_label l]
    by (auto simp: mappings_logical_project_def split: option.splits)
  then have p: "instance_projection ?labels = reference_projection m"
    by (intro ext) (simp add: instance_projection_def reference_projection_def aggregate_of_def split: option.splits)
  have "\<forall>i\<in>set (pm_instances m). distinct (identities i)" using base_ok_instance [OF b] by (simp add: instance_ok_def)
  then show ?thesis
    using projection_rows [OF bt_wf_Nil _ distinct_rows [OF b], of "reference_projection m" "ObservedProject source_id key"]
    unfolding projection_resolve_def from_mappings_def Let_def p instance_for_observation_def list_ex_identities
    by (simp add: option.case_eq_if map_option_case)
qed

section \<open>Merging and splitting\<close>

lemma canonicalize_sorted:
  assumes "mappings_sorted m"
  shows "canonicalize m = m"
proof -
  have "canonical_instance i = i" if "i \<in> set (pm_instances m)" for i
  proof -
    have "sorted (List.map so_identity (im_observations i))" using assms that by (simp add: mappings_sorted_def identities_def)
    then show ?thesis by (simp add: canonical_instance_def sorted_sort_id sort_key_id_if_sorted)
  qed
  then have "List.map canonical_instance (pm_instances m) = pm_instances m" by (simp add: map_idI)
  then show ?thesis using assms
    by (simp add: canonicalize_def canonical_instance_def [abs_def] mappings_sorted_def sort_key_id_if_sorted)
qed


lemma canonicalize_is_sorted: "mappings_sorted (canonicalize m)"
  unfolding mappings_sorted_def canonicalize_instances(2) by (simp add: canonicalize_def map_sort_key)

lemma named_none:
  assumes "base_ok m" "list_all (\<lambda>k. logical_of k m = None) ids" "i \<in> set (pm_instances m)" "im_instance_id i \<in> set ids"
  shows "im_logical_project_id i = None"
  using assms mappings_instance_unique [OF assms(1,3)] by (auto simp: list_all_iff logical_of_def)

lemma relabel_sorted:
  assumes "mappings_sorted m"
  shows "pm_instances (canonicalize (relabel v ids m)) = List.map (relabelled v ids) (pm_instances m)"
proof -
  have r: "im_instance_id (relabelled v ids i) = im_instance_id i" "identities (relabelled v ids i) = identities i" for i
    by (simp_all add: relabelled_def identities_def)
  have "mappings_sorted (relabel v ids m)"
    using assms by (simp add: mappings_sorted_def relabel_def r comp_def)
  then show ?thesis by (simp add: canonicalize_sorted) (simp add: relabel_def)
qed

lemma merge_effect_exact:
  assumes ok: "mappings_ok m" "mappings_sorted m" and ids: "ids \<noteq> []" "list_all (\<lambda>k. logical_of k m = None) ids"
    and r: "merge_operation draws None label ids m = Inr (((l, created), changed), m')"
  shows "changed" "pm_instances m' = List.map (relabelled (Some l) (set ids)) (pm_instances m)" "l \<notin> map_logicals m"
    "\<exists>n. pm_logical_projects m' = sort_key lm_logical_project_id (pm_logical_projects m @ [\<lparr>lm_logical_project_id = l, lm_display_label = n\<rparr>])"
    "pm_version m' = pm_version m" "pm_revision m' = pm_revision m" "mappings_sorted m'"
proof -
  note b = ok_base [OF ok(1)]
  obtain idxs n where i: "map_ok (find_instance_index m) (sort ids) = Inr idxs"
    and k: "generate_unique_logical_project_id draws m = Inr l" and c: created changed
    and m': "m' = canonicalize (remove_empty_logical_projects (m\<lparr>pm_logical_projects := pm_logical_projects m @ [\<lparr>lm_logical_project_id = l, lm_display_label = n\<rparr>],
       pm_instances := assign_logical (Some l) idxs (pm_instances m)\<rparr>))"
    using r by (auto simp: merge_operation_def merge_target_def operation_simps Let_def split: if_splits)
  let ?new = "\<lparr>lm_logical_project_id = l, lm_display_label = n\<rparr>"
  let ?is = "List.map (relabelled (Some l) (set ids)) (pm_instances m)"
  show changed by (rule c)
  show new: "l \<notin> map_logicals m"
    using k by (auto simp: generate_unique_logical_project_id_def operation_simps map_logicals_def dest: generate_unique_fresh)
  have assign: "assign_logical (Some l) idxs (pm_instances m) = ?is"
    using arg_cong [OF assign_logical_relabel [OF b i, of "Some l"], of pm_instances] by (simp add: relabel_def)
  have named: "im_logical_project_id i = None" if "i \<in> set (pm_instances m)" "im_instance_id i \<in> set ids" for i
    by (rule named_none [OF b ids(2) that])
  have old: "lm_logical_project_id x \<in> set (List.map_filter im_logical_project_id ?is)" if x: "x \<in> set (pm_logical_projects m)" for x
  proof -
    have "lm_logical_project_id x \<in> {l. \<exists>i\<in>set (pm_instances m). im_logical_project_id i = Some l}"
      using x ok(1) unfolding mappings_ok_def by blast
    then obtain i where i: "i \<in> set (pm_instances m)" "im_logical_project_id i = Some (lm_logical_project_id x)" by blast
    then have "relabelled (Some l) (set ids) i = i" using named [OF i(1)] by (auto simp: relabelled_def)
    then have "i \<in> set ?is" using i(1) by (metis image_eqI list.set_map)
    then show ?thesis unfolding set_map_filter_Some using i(2) by blast
  qed
  obtain k0 where k0: "k0 \<in> set ids" using ids(1) by (cases ids) auto
  then obtain i0 where i0: "i0 \<in> set (pm_instances m)" "im_instance_id i0 = k0" using named_instances [OF i] by (auto simp: map_instances_def)
  then have "relabelled (Some l) (set ids) i0 \<in> set ?is" "im_logical_project_id (relabelled (Some l) (set ids) i0) = Some l"
    using k0 by (auto simp: relabelled_def)
  then have "l \<in> set (List.map_filter im_logical_project_id ?is)" unfolding set_map_filter_Some by blast
  then have keep: "filter (\<lambda>x. lm_logical_project_id x \<in> set (List.map_filter im_logical_project_id ?is)) (pm_logical_projects m @ [?new])
      = pm_logical_projects m @ [?new]" using old by (intro filter_True) auto
  have e: "m' = canonicalize (m\<lparr>pm_instances := ?is, pm_logical_projects := pm_logical_projects m @ [?new]\<rparr>)"
    unfolding m' assign remove_empty_logical_projects_def Let_def using keep by simp
  show "\<exists>n. pm_logical_projects m' = sort_key lm_logical_project_id (pm_logical_projects m @ [\<lparr>lm_logical_project_id = l, lm_display_label = n\<rparr>])"
    "pm_version m' = pm_version m" "pm_revision m' = pm_revision m" unfolding e by (auto simp: canonicalize_def)
  show "mappings_sorted m'" unfolding e by (rule canonicalize_is_sorted)
  show "pm_instances m' = ?is"
    using relabel_sorted [OF ok(2), of "Some l" "set ids"] unfolding e by (simp add: canonicalize_def relabel_def)
qed

lemma mutate_exact:
  assumes "mapping_readable bytes_of (Some m)" "mutate_mappings bytes_of expected operation (Some m) = (Inr (m1, r), f1)"
  obtains changed m' where "operation m = Inr ((r, changed), m')" "mappings_ok m" "mappings_sorted m"
    "if changed then commit_mappings bytes_of m' = Inr m1 \<and> f1 = Some m1 else f1 = Some m \<and> m1 = m'"
proof -
  have "read_mappings bytes_of m = Inr m" using assms(1) by (simp add: mapping_readable_def)
  moreover from this have v: "mappings_validate m = Inr ()" by (auto simp: read_mappings_def operation_simps)
  ultimately obtain changed m' where "operation m = Inr ((r, changed), m')"
    "if changed then commit_mappings bytes_of m' = Inr m1 \<and> f1 = Some m1 else f1 = Some m \<and> m1 = m'"
    using assms(2) by (auto simp: mutate_mappings_def load_mappings_locked_def operation_simps split: sum.splits if_splits)
  then show ?thesis using that v by (auto simp: mappings_valid_iff)
qed

lemma commit_exact:
  assumes "mappings_ok m" "mappings_sorted m" "commit_mappings bytes_of m = Inr m'"
  shows "m' = m\<lparr>pm_revision := pm_revision m + 1\<rparr>"
  using commit_never_invalid(2) [OF assms(1,3)] canonicalize_sorted [OF assms(2)] by simp

lemma split_restores:
  assumes ok: "mappings_ok m" "mappings_sorted m" and ids: "ids \<noteq> []" "set ids \<subseteq> map_instances m" "list_all (\<lambda>k. logical_of k m = None) ids"
    and m1: "mappings_ok m1" "mappings_sorted m1" "pm_instances m1 = List.map (relabelled (Some l) (set ids)) (pm_instances m)"
      "pm_logical_projects m1 = sort_key lm_logical_project_id (pm_logical_projects m @ [new])" "lm_logical_project_id new = l" "l \<notin> map_logicals m"
    and r: "split_instances_operation ids m1 = Inr (((), changed), m2)"
  shows "changed" "pm_instances m2 = pm_instances m" "pm_logical_projects m2 = pm_logical_projects m" "pm_version m2 = pm_version m1"
    "pm_revision m2 = pm_revision m1" "mappings_sorted m2"
proof -
  note b = ok_base [OF ok(1)] and b1 = ok_base [OF m1(1)]
  obtain idxs where i: "map_ok (find_instance_index m1) (sort ids) = Inr idxs"
    and c: "changed \<longleftrightarrow> list_ex (\<lambda>i. im_logical_project_id (pm_instances m1 ! i) \<noteq> None) idxs"
    and m2: "m2 = canonicalize (remove_empty_logical_projects (relabel None (set ids) m1))"
    using r assign_logical_relabel [OF b1] by (auto simp: split_instances_operation_def operation_simps Let_def split: if_splits)
  have "relabelled None (set ids) (relabelled (Some l) (set ids) i) = i" if "i \<in> set (pm_instances m)" for i
    using named_none [OF b ids(3) that] by (auto simp: relabelled_def)
  then have same: "List.map (relabelled None (set ids)) (pm_instances m1) = pm_instances m" unfolding m1(3) by (simp add: map_idI)
  have "pm_instances m2 = pm_instances (canonicalize (relabel None (set ids) m1))"
    by (simp add: m2 canonicalize_def remove_empty_logical_projects_def Let_def)
  then show inst: "pm_instances m2 = pm_instances m" using relabel_sorted [OF m1(2)] same by simp
  have R: "set (List.map_filter im_logical_project_id (pm_instances m)) = map_logicals m"
    using ok(1) unfolding set_map_filter_Some mappings_ok_def map_logicals_def by blast
  have "filter (\<lambda>x. lm_logical_project_id x \<in> map_logicals m) (pm_logical_projects m @ [new]) = pm_logical_projects m"
    using m1(5,6) by (simp add: map_logicals_def filter_id_conv)
  then have "filter (\<lambda>x. lm_logical_project_id x \<in> map_logicals m) (pm_logical_projects m1) = pm_logical_projects m"
    using ok(2) by (simp add: m1(4) filter_sort mappings_sorted_def sort_key_id_if_sorted del: filter_append)
  then show "pm_logical_projects m2 = pm_logical_projects m"
    using ok(2) by (simp add: m2 canonicalize_def remove_empty_logical_projects_def Let_def relabel_def same R mappings_sorted_def sort_key_id_if_sorted)
  show "pm_version m2 = pm_version m1" "pm_revision m2 = pm_revision m1"
    by (simp_all add: m2 canonicalize_def remove_empty_logical_projects_def Let_def relabel_def)
  show "mappings_sorted m2" unfolding m2 by (rule canonicalize_is_sorted)
  obtain k where k: "k \<in> set ids" using ids(1) by (cases ids) auto
  then obtain t where t: "t \<in> set idxs" "find_instance_index m1 k = Inr t" using map_ok_each [OF i] by auto
  note T = find_instance_index_Inr [OF t(2)]
  have "pm_instances m1 ! t \<in> relabelled (Some l) (set ids) ` set (pm_instances m)" using T m1(3) by (metis list.set_map nth_mem)
  then have "im_logical_project_id (pm_instances m1 ! t) = Some l" using T k by (auto simp: relabelled_def split: if_splits)
  then show "changed" using c t(1) by (auto simp: list_ex_iff)
qed

text \<open>
  C17. Merging instances without a logical project into a new one and splitting the same instances again restores the stored
  mapping in every field, two revisions later.
\<close>

theorem merge_then_split_restores:
  assumes "mapping_readable bytes_of (Some m)" "list_all (\<lambda>k. logical_of k m = None) ids"
    and "merge_instances bytes_of expected draws None label ids (Some m) = (Inr (m1, r), f1)"
    and "split_instances bytes_of (pm_revision m1) ids f1 = (Inr (m2, ()), f2)"
  shows "m2 = m\<lparr>pm_revision := pm_revision m + 2\<rparr> \<and> f2 = Some m2"
proof -
  have ne: "ids \<noteq> []" using assms(3) by (auto simp: merge_instances_def split: if_splits)
  obtain l created where r: "r = (l, created)" by (cases r)
  have mu: "mutate_mappings bytes_of expected (merge_operation draws None label ids) (Some m) = (Inr (m1, (l, created)), f1)"
    using assms(3) ne r by (simp add: merge_instances_def)
  obtain changed m' where o: "merge_operation draws None label ids m = Inr (((l, created), changed), m')" and ok: "mappings_ok m" "mappings_sorted m"
    and c: "if changed then commit_mappings bytes_of m' = Inr m1 \<and> f1 = Some m1 else f1 = Some m \<and> m1 = m'"
    by (rule mutate_exact [OF assms(1) mu])
  note E = merge_effect_exact [OF ok ne assms(2) o]
  have m'ok: "mappings_ok m'" using merge_effect [OF ok(1) o] by blast
  have f1: "f1 = Some m1" "commit_mappings bytes_of m' = Inr m1" using c E(1) by auto
  have m1: "m1 = m'\<lparr>pm_revision := pm_revision m + 1\<rparr>" using commit_exact [OF m'ok E(7) f1(2)] E(6) by simp
  have mu2: "mutate_mappings bytes_of (pm_revision m1) (split_instances_operation ids) (Some m1) = (Inr (m2, ()), f2)"
    using assms(4) ne f1(1) by (simp add: split_instances_def)
  have rd: "mapping_readable bytes_of (Some m1)" using commit_ok(2) [OF m'ok f1(2)] .
  obtain changed2 m2' where o2: "split_instances_operation ids m1 = Inr (((), changed2), m2')" and ok1: "mappings_ok m1" "mappings_sorted m1"
    and c2: "if changed2 then commit_mappings bytes_of m2' = Inr m2 \<and> f2 = Some m2 else f2 = Some m1 \<and> m2 = m2'"
    by (rule mutate_exact [OF rd mu2])
  have i1: "pm_instances m1 = List.map (relabelled (Some l) (set ids)) (pm_instances m)" using E(2) by (simp add: m1)
  have S: "changed2" "pm_instances m2' = pm_instances m" "pm_logical_projects m2' = pm_logical_projects m" "pm_version m2' = pm_version m"
    "pm_revision m2' = pm_revision m + 1" "mappings_ok m2'" "mappings_sorted m2'"
  proof -
    obtain n where n: "pm_logical_projects m1 = sort_key lm_logical_project_id (pm_logical_projects m @ [\<lparr>lm_logical_project_id = l, lm_display_label = n\<rparr>])"
      using E(4) by (auto simp: m1)
    have sub: "set ids \<subseteq> map_instances m" using merge_effect [OF ok(1) o] by blast
    note X = split_restores [OF ok ne sub assms(2) ok1 i1 n _ E(3) o2]
    show "changed2" "pm_instances m2' = pm_instances m" "pm_logical_projects m2' = pm_logical_projects m" "mappings_sorted m2'"
      "pm_version m2' = pm_version m" "pm_revision m2' = pm_revision m + 1" using X E(5) by (simp_all add: m1)
    show "mappings_ok m2'" using split_instances_effect [OF ok1(1) o2] by blast
  qed
  then have "m2 = m2'\<lparr>pm_revision := pm_revision m2' + 1\<rparr>" "f2 = Some m2" using c2 commit_exact [OF S(6,7)] by auto
  then show ?thesis using S by (simp add: project_mappings.equality)
qed

section \<open>Suggestions\<close>

definition has_git :: "string \<Rightarrow> string \<Rightarrow> instance_mapping \<Rightarrow> bool" where
  "has_git f path i \<longleftrightarrow> (\<exists>obs\<in>set (im_observations i). so_git_evidence obs = GitRepository (Some f) path)"

definition git_instances :: "project_mappings \<Rightarrow> string \<Rightarrow> string \<Rightarrow> string set" where
  "git_instances m f path = im_instance_id ` {i \<in> set (pm_instances m). has_git f path i}"

definition git_key :: "stored_observation \<Rightarrow> (string \<times> string) option" where
  "git_key obs = (case so_git_evidence obs of GitRepository (Some f) path \<Rightarrow> Some (f, path) | _ \<Rightarrow> None)"

definition git_events :: "project_mappings \<Rightarrow> ((string \<times> string) \<times> string) list" where
  "git_events m = concat (List.map (\<lambda>i. List.map (\<lambda>k. (k, im_instance_id i)) (List.map_filter git_key (im_observations i))) (pm_instances m))"

lemma git_key_Some: "git_key obs = Some (f, path) \<longleftrightarrow> so_git_evidence obs = GitRepository (Some f) path"
  by (auto simp: git_key_def split: git_evidence.splits option.splits)

lemma git_events_iff: "((f, path), k) \<in> set (git_events m) \<longleftrightarrow> k \<in> git_instances m f path"
proof -
  have "((f, path), k) \<in> set (git_events m) \<longleftrightarrow> (\<exists>i\<in>set (pm_instances m). k = im_instance_id i \<and> (\<exists>obs\<in>set (im_observations i). git_key obs = Some (f, path)))"
    by (simp add: git_events_def set_map_filter_Some image_iff) blast
  then show ?thesis unfolding git_key_Some git_instances_def has_git_def by blast
qed

lemma git_groups_events: "git_groups m = fold (\<lambda>e. bt_update (fst e) [] (set_insert (snd e))) (git_events m) []"
proof -
  have "fold (\<lambda>obs groups. case so_git_evidence obs of
       GitRepository (Some f) path \<Rightarrow> bt_update (f, path) [] (set_insert k) groups | _ \<Rightarrow> groups) obs t
    = fold (\<lambda>e. bt_update (fst e) [] (set_insert (snd e))) (List.map (\<lambda>g. (g, k)) (List.map_filter git_key obs)) t" for k :: string and obs t
    by (induction obs arbitrary: t) (auto simp: map_filter_simps git_key_def split: git_evidence.splits option.splits)
  then have "fold (\<lambda>i groups. fold (\<lambda>obs groups. case so_git_evidence obs of
       GitRepository (Some f) path \<Rightarrow> bt_update (f, path) [] (set_insert (im_instance_id i)) groups
     | _ \<Rightarrow> groups) (im_observations i) groups) is t
    = fold (\<lambda>e. bt_update (fst e) [] (set_insert (snd e)))
        (concat (List.map (\<lambda>i. List.map (\<lambda>k. (k, im_instance_id i)) (List.map_filter git_key (im_observations i))) is)) t" for "is" t
    by (induction "is" arbitrary: t) simp_all
  then show ?thesis by (simp add: git_groups_def git_events_def)
qed

lemma fold_set_insert:
  "sorted xs \<Longrightarrow> distinct xs \<Longrightarrow> fold set_insert ys xs = sorted_list_of_set (set ys \<union> set xs)"
proof (induction ys arbitrary: xs)
  case (Cons y ys)
  have "sorted (set_insert y xs)" "distinct (set_insert y xs)" "set (set_insert y xs) = Set.insert y (set xs)"
    using Cons.prems by (auto simp: set_insert_def sorted_insort distinct_insort set_insort_key)
  then show ?case using Cons.IH by simp
qed (simp add: sorted_list_of_set.idem_if_sorted_distinct)

lemma git_groups_get:
  "bt_wf (git_groups m)"
  "bt_get (git_groups m) (f, path) = (if git_instances m f path = {} then None else Some (sorted_list_of_set (git_instances m f path)))"
proof -
  show "bt_wf (git_groups m)" unfolding git_groups_events by (rule bt_wf_fold_update) simp
  have s: "snd ` {e \<in> set (git_events m). fst e = (f, path)} = git_instances m f path"
    using git_events_iff [of f path _ m] by force
  have "(f, path) \<in> fst ` set (git_events m) \<longleftrightarrow> git_instances m f path \<noteq> {}"
    using git_events_iff [of f path _ m] by force
  moreover have "fold (\<lambda>e. set_insert (snd e)) xs [] = sorted_list_of_set (snd ` set xs)" for xs :: "((string \<times> string) \<times> string) list"
    using fold_set_insert [of "[]" "List.map snd xs"] by (simp add: fold_map comp_def)
  ultimately show "bt_get (git_groups m) (f, path) = (if git_instances m f path = {} then None else Some (sorted_list_of_set (git_instances m f path)))"
    unfolding git_groups_events by (subst bt_get_fold_update) (simp_all add: s)
qed

lemma suggestion_changes_iff:
  assumes b: "base_ok m" and W: "W \<subseteq> map_instances m"
  shows "suggestion_changes_mapping m (sorted_list_of_set W) \<longleftrightarrow>
    (\<exists>i\<in>set (pm_instances m). \<exists>j\<in>set (pm_instances m). im_instance_id i \<in> W \<and> im_instance_id j \<in> W \<and> aggregate_of i \<noteq> aggregate_of j)"
proof -
  have fin: "finite W" using W by (rule finite_subset) (simp add: map_instances_def)
  let ?A = "aggregate_of ` {i \<in> set (pm_instances m). im_instance_id i \<in> W}"
  define g where "g k = the (mappings_instance k m)" for k
  have g: "mappings_instance k m = Some (g k) \<and> g k \<in> set (pm_instances m) \<and> im_instance_id (g k) = k" if "k \<in> W" for k
    using that W mappings_instance_unique [OF b] by (auto simp: map_instances_def g_def)
  have gi: "g (im_instance_id i) = i" if "i \<in> set (pm_instances m)" for i using mappings_instance_unique [OF b that] by (simp add: g_def)
  have "{i \<in> set (pm_instances m). im_instance_id i \<in> W} = g ` W"
  proof (intro equalityI subsetI)
    fix i assume "i \<in> {i \<in> set (pm_instances m). im_instance_id i \<in> W}"
    then show "i \<in> g ` W" using gi [of i] by (metis (no_types, lifting) imageI mem_Collect_eq)
  next
    fix i assume "i \<in> g ` W"
    then show "i \<in> {i \<in> set (pm_instances m). im_instance_id i \<in> W}" using g by auto
  qed
  then have A: "?A = (\<lambda>k. aggregate_of (g k)) ` W" by (simp add: image_image)
  have each: "list_all (\<lambda>k. mappings_instance k m \<noteq> None) (sorted_list_of_set W)" using g fin by (simp add: list_all_iff)
  have "set (List.map_filter (\<lambda>k. map_option aggregate_of (mappings_instance k m)) (sorted_list_of_set W)) = (\<lambda>k. aggregate_of (g k)) ` W"
    unfolding set_map_filter_Some using g fin by (auto simp: image_iff)
  then have len: "length (remdups (List.map_filter (\<lambda>k. map_option aggregate_of (mappings_instance k m)) (sorted_list_of_set W))) = card ?A"
    unfolding A by (simp add: length_remdups_card_conv)
  have two: "1 < card ?A \<longleftrightarrow> (\<exists>i\<in>set (pm_instances m). \<exists>j\<in>set (pm_instances m). im_instance_id i \<in> W \<and> im_instance_id j \<in> W \<and> aggregate_of i \<noteq> aggregate_of j)"
  proof -
    have "finite ?A" by simp
    then have "1 < card ?A \<longleftrightarrow> \<not> (\<forall>a\<in>?A. \<forall>a'\<in>?A. a = a')"
      unfolding card_le_Suc0_iff_eq [OF \<open>finite ?A\<close>, symmetric] by linarith
    then show ?thesis by blast
  qed
  have "2 \<le> length (sorted_list_of_set W)" if "1 < card ?A"
    using that card_image_le [OF fin, of "\<lambda>k. aggregate_of (g k)"] unfolding A by simp
  then show ?thesis unfolding suggestion_changes_mapping_def len two [symmetric] using each by blast
qed

lemma suggestion_image:
  "s \<in> (\<lambda>((f, path), ids). \<lparr>ms_fingerprint = f, ms_root = path, ms_instance_ids = ids\<rparr>) ` X
   \<longleftrightarrow> ((ms_fingerprint s, ms_root s), ms_instance_ids s) \<in> X"
proof
  assume "((ms_fingerprint s, ms_root s), ms_instance_ids s) \<in> X"
  then show "s \<in> (\<lambda>((f, path), ids). \<lparr>ms_fingerprint = f, ms_root = path, ms_instance_ids = ids\<rparr>) ` X"
    by (rule image_eqI [rotated]) simp
qed auto

text \<open>
  C18. A merge is suggested exactly for a repository and a root that instances of different aggregates have observed, with all
  the instances that observed them, in order.
\<close>

theorem suggestions_exact:
  assumes "mappings_validate m = Inr ()"
  shows "s \<in> set (merge_suggestions m) \<longleftrightarrow>
    ms_instance_ids s = sorted_list_of_set (git_instances m (ms_fingerprint s) (ms_root s))
    \<and> (\<exists>i\<in>set (pm_instances m). \<exists>j\<in>set (pm_instances m). has_git (ms_fingerprint s) (ms_root s) i
         \<and> has_git (ms_fingerprint s) (ms_root s) j \<and> aggregate_of i \<noteq> aggregate_of j)"
proof -
  have b: "base_ok m" using assms by (simp add: mappings_valid_iff ok_base)
  let ?W = "git_instances m (ms_fingerprint s) (ms_root s)"
  have W: "?W \<subseteq> map_instances m" by (auto simp: git_instances_def map_instances_def)
  have mem: "im_instance_id i \<in> ?W \<longleftrightarrow> has_git (ms_fingerprint s) (ms_root s) i" if "i \<in> set (pm_instances m)" for i
  proof
    assume "im_instance_id i \<in> ?W"
    then obtain j where j: "j \<in> set (pm_instances m)" "im_instance_id j = im_instance_id i" "has_git (ms_fingerprint s) (ms_root s) j"
      by (auto simp: git_instances_def)
    then show "has_git (ms_fingerprint s) (ms_root s) i" using base_ok_same [OF b j(1) that j(2)] by simp
  next
    assume "has_git (ms_fingerprint s) (ms_root s) i"
    then show "im_instance_id i \<in> ?W" using that unfolding git_instances_def by blast
  qed
  have "s \<in> set (merge_suggestions m) \<longleftrightarrow> ((ms_fingerprint s, ms_root s), ms_instance_ids s) \<in> set (git_groups m)
      \<and> suggestion_changes_mapping m (ms_instance_ids s)"
    unfolding merge_suggestions_def set_sort set_map suggestion_image by simp
  also have "\<dots> \<longleftrightarrow> bt_get (git_groups m) (ms_fingerprint s, ms_root s) = Some (ms_instance_ids s)
      \<and> suggestion_changes_mapping m (ms_instance_ids s)"
    by (simp add: bt_get_Some_iff [OF git_groups_get(1)])
  also have "\<dots> \<longleftrightarrow> ms_instance_ids s = sorted_list_of_set ?W \<and> suggestion_changes_mapping m (sorted_list_of_set ?W)"
    unfolding git_groups_get(2) by (cases "?W = {}") (auto simp: suggestion_changes_mapping_def [of m "[]"])
  finally show ?thesis unfolding suggestion_changes_iff [OF b W] using mem by blast
qed

section \<open>A concrete mapping\<close>

definition sample_observation :: "node_id \<Rightarrow> string \<Rightarrow> stored_observation" where
  "sample_observation source key = \<lparr>so_identity = ObservedProject source key, so_display_label = Some ''tool'',
     so_git_evidence = GitRepository (Some ''ab'') ''.''\<rparr>"

definition sample_mappings :: project_mappings where
  "sample_mappings = \<lparr>pm_version = 2, pm_revision = 5,
     pm_instances = [\<lparr>im_instance_id = ''a'', im_observations = [sample_observation ''n'' ''x''], im_logical_project_id = None\<rparr>,
       \<lparr>im_instance_id = ''b'', im_observations = [sample_observation ''o'' ''y''], im_logical_project_id = None\<rparr>],
     pm_logical_projects = []\<rparr>"

definition sample_size :: mapping_size where "sample_size m = Some 100"

lemma generate_unique_id_code [code]:
  "generate_unique_id n allocated draws = (if n = 0 then Inl MappingRandom else (case draws of
      [] \<Rightarrow> Inl MappingRandom
    | d # draws \<Rightarrow> if d \<in> set allocated then generate_unique_id (n - 1) allocated draws else Inr (d, draws)))"
  by (cases n; cases draws) simp_all

lemma mapping_sample_valid: "mappings_validate sample_mappings = Inr ()"
  by code_simp

lemma mapping_sample_readable: "mapping_readable sample_size (Some sample_mappings)"
  by code_simp

definition sample_merged :: project_mappings where
  "sample_merged = \<lparr>pm_version = 2, pm_revision = 6,
     pm_instances = [\<lparr>im_instance_id = ''a'', im_observations = [sample_observation ''n'' ''x''], im_logical_project_id = Some ''l''\<rparr>,
       \<lparr>im_instance_id = ''b'', im_observations = [sample_observation ''o'' ''y''], im_logical_project_id = Some ''l''\<rparr>],
     pm_logical_projects = [\<lparr>lm_logical_project_id = ''l'', lm_display_label = ''tool''\<rparr>]\<rparr>"

lemma mapping_sample_merge:
  "merge_instances sample_size 5 [''l''] None (Some ''tool'') [''a'', ''b''] (Some sample_mappings) = (Inr (sample_merged, ''l'', True), Some sample_merged)"
  by code_simp

lemma mapping_sample_split:
  "split_instances sample_size 6 [''a'', ''b''] (Some sample_merged)
    = (Inr (sample_mappings\<lparr>pm_revision := 7\<rparr>, ()), Some (sample_mappings\<lparr>pm_revision := 7\<rparr>))"
  by code_simp

theorem mapping_calls_refine_witness:
  "call_spec (MergeInstances [''l''] None (Some ''tool'') [''a'', ''b'']) (view sample_mappings) [''l''] (view sample_merged)"
proof -
  have "perform_mapping sample_size 5 (MergeInstances [''l''] None (Some ''tool'') [''a'', ''b'']) (Some sample_mappings)
      = (Inr [''l''], Some sample_merged)" by (simp add: mapping_sample_merge answer_Inr)
  from mapping_calls_refine [OF mapping_sample_readable this] show ?thesis by (simp add: file_view_def)
qed

theorem mapping_calls_never_invalid_witness:
  "perform_mapping sample_size 4 (BindAlias ''a'' (sample_observation ''n'' ''z'')) (Some sample_mappings) = (Inl MappingStale, Some sample_mappings)
   \<and> mapping_readable sample_size (snd (perform_mapping sample_size 5 (BindAlias ''a'' (sample_observation ''n'' ''z'')) (Some sample_mappings)))"
proof
  have e: "call_evidence_ok (BindAlias ''a'' (sample_observation ''n'' ''z''))" by code_simp
  show "perform_mapping sample_size 4 (BindAlias ''a'' (sample_observation ''n'' ''z'')) (Some sample_mappings) = (Inl MappingStale, Some sample_mappings)"
    by code_simp
  show "mapping_readable sample_size (snd (perform_mapping sample_size 5 (BindAlias ''a'' (sample_observation ''n'' ''z'')) (Some sample_mappings)))"
    using mapping_calls_never_invalid [OF mapping_sample_readable e, of 5] by (simp add: case_prod_beta)
qed

theorem merge_then_split_restores_witness:
  "pm_revision sample_merged = 6 \<and> Some (sample_mappings\<lparr>pm_revision := 7\<rparr>)
    = snd (split_instances sample_size (pm_revision sample_merged) [''a'', ''b''] (Some sample_merged))"
proof -
  have l: "list_all (\<lambda>k. logical_of k sample_mappings = None) [''a'', ''b'']" by code_simp
  have r: "pm_revision sample_merged = 6" by (simp add: sample_merged_def)
  show ?thesis
    using merge_then_split_restores [OF mapping_sample_readable l mapping_sample_merge, unfolded r, OF mapping_sample_split] mapping_sample_split r by simp
qed

theorem projection_agrees_witness:
  "projection_resolve (from_mappings sample_mappings) ''n'' ''x''
    = map_option (reference_projection sample_mappings) (instance_for_observation (ObservedProject ''n'' ''x'') sample_mappings)
   \<and> instance_for_observation (ObservedProject ''n'' ''x'') sample_mappings = Some (hd (pm_instances sample_mappings))"
proof
  show "projection_resolve (from_mappings sample_mappings) ''n'' ''x''
    = map_option (reference_projection sample_mappings) (instance_for_observation (ObservedProject ''n'' ''x'') sample_mappings)"
    by (rule projection_agrees [OF mapping_sample_valid])
  show "instance_for_observation (ObservedProject ''n'' ''x'') sample_mappings = Some (hd (pm_instances sample_mappings))" by code_simp
qed

theorem suggestions_exact_witness: "sorted_list_of_set (git_instances sample_mappings ''ab'' ''.'') = [''a'', ''b'']"
proof -
  have "\<lparr>ms_fingerprint = ''ab'', ms_root = ''.'', ms_instance_ids = [''a'', ''b'']\<rparr> \<in> set (merge_suggestions sample_mappings)"
    by code_simp
  then show ?thesis using suggestions_exact [OF mapping_sample_valid] by simp
qed

end
