(* ===== verification/Spec2Isabelle.thy ===== *)
theory Spec2Isabelle
  imports Rollout_Dataset_Safety Attribution Bandwidth_Safety Quota_Merge Remotes_Safety Protocol_Safety Sync_Safety Scheduler_Safety Export_Safety Project_Safety
begin

text \<open>
  Verification development of codex-usage-monit, a monitor of token usage, quota and cost of
  coding sessions that collects local session logs and synchronizes the usage of other
  machines over SSH.

  \<^bold>\<open>Parts of the program.\<close>  The collector (\<open>src/rollout.rs\<close>) reads session logs, refreshes a cache of
  parsed files, replays them into threads and turns and materializes a dataset of token calls
  (\<open>src/domain.rs\<close>).
  The model catalog (\<open>src/model_catalog.rs\<close>) gives every model its rates; the cost module
  (\<open>src/api_cost.rs\<close>) prices calls with it, and attribution (\<open>src/attribution.rs\<close>) splits
  quota windows over threads and turns.  Remote machines are listed in an allowlist
  (\<open>src/remotes_config.rs\<close>).  A run (\<open>src/remote_sync.rs\<close>) fetches pages of one host through
  the wire protocol (\<open>src/remote_protocol.rs\<close>) and hands them to the local stores; the
  bandwidth ledger (\<open>src/remote_bandwidth_budget.rs\<close>) admits it before and is settled after
  it (\<open>src/remote_sync_attempt.rs\<close>).  The scheduler (\<open>src/remote_sync_scheduler.rs\<close>) decides
  which host runs next and when.  On the other machine the exporter keeps a journal
  (\<open>src/remote_export_state.rs\<close>) of a materialized set of records, which it reconciles with what it
  collected and serves in pages.  Quota observations of several machines are merged in
  \<open>src/quota_merge.rs\<close>, and the projects they observe are mapped to instances and logical projects
  in \<open>src/project_mapping.rs\<close>.

  \<^bold>\<open>Theories.\<close>
  \<^item> \<open>Rust_Prelude\<close>, \<open>Ordered_Map\<close>, \<open>Float64\<close>: machine words with checked and saturating
    operations, results, UTF-8 strings, instants, ordered maps and IEEE-754 doubles, with the
    collections \<open>result_simps\<close> and \<open>word_nat\<close>.
  \<^item> \<open>Domain\<close>, \<open>Model_Catalog\<close>, \<open>Api_Cost\<close>, \<open>Attribution\<close>: one theory per source file of the
    local side, each with its lemmas.
  \<^item> \<open>Json_Value\<close>, \<open>Rollout_Events\<close>, \<open>Rollout_Refresh\<close>, \<open>Rollout_Replay\<close>, \<open>Rollout_Dataset\<close>,
    \<open>Rollout_Plan\<close>, \<open>Rollout_Scan\<close>: the collector, from a decoded line to a scan (\<open>src/rollout.rs\<close>,
    \<open>src/rollout/request_evidence.rs\<close>, \<open>src/bounded_io.rs\<close>); \<open>Rollout_Parse_Safety\<close>,
    \<open>Rollout_Replay_Safety\<close>, \<open>Rollout_Scan_Safety\<close>, \<open>Rollout_Dataset_Safety\<close>: its lemmas and properties.
  \<^item> \<open>Export_Journal\<close>: the journal of the exporter; \<open>Export_History\<close>: the history of changes behind a
    journal; \<open>Export_Safety\<close>: the contract of a change feed as a locale, interpreted for the
    journal, and the properties of followers.
  \<^item> \<open>Project_Mapping\<close>: observed projects, their instances and logical projects, and the mapping file
    (\<open>src/project_mapping.rs\<close>); \<open>Project_View\<close>: valid mappings and the placement of observations;
    \<open>Project_Operations\<close>: the effect of every operation; \<open>Project_Safety\<close>: the contract of an operation as a
    locale, interpreted for each of them, and the properties of the store.
  \<^item> \<open>Quota_Merge\<close>: the projection of quota observations.
  \<^item> \<open>Sync_Types\<close>, \<open>Remotes_Config\<close>, \<open>Remote_Protocol\<close>, \<open>Bandwidth_Budget\<close>, \<open>Remote_Sync\<close>,
    \<open>Sync_Scheduler\<close>: the models of the remote side, definitions only.  A source comment before a definition names
    the lines it translates.
  \<^item> \<open>State_Store\<close>: the contract of the file-backed stores as a locale, interpreted for the
    ledger file.
  \<^item> \<open>Bandwidth_Ledger\<close>, \<open>Bandwidth_Safety\<close>, \<open>Remotes_Safety\<close>, \<open>Protocol_Safety\<close>,
    \<open>Sync_Safety\<close>, \<open>Scheduler_Safety\<close>: the lemmas and properties of these models.

  \<^bold>\<open>State and effects.\<close>  A store is the decoded contents of its file; an operation returns its
  result and the new contents, and a failed operation the old ones.  A run is a function on a
  state that holds a world (the configuration file, the clocks and whatever the transport and
  the local phases change) and the list of calls made so far.  Errors are values, one
  constructor for every error the code distinguishes; texts of messages are left out.  The
  scheduler ticks on a world of its own, which the environment may change between two ticks.

  \<^bold>\<open>What is shown.\<close>  Collector: refreshing an appended log whose records carry their time equals parsing all of it, incremental
  scans hold what a reduction from scratch holds, threads stay well formed, the books
  of cumulative counters balance across restarts and resets, tokens are conserved by the dataset, a native request is counted once, redaction hides
  every message, a view shows nothing later than its instant, and scans never panic.  Export
  journal: whatever was appended, reconciled, expired, pruned and compacted, a follower that has
  read everything holds the materialized set, one that keeps reading gets there, reconciliation
  reaches its target, pages are exact, the trusted time needs confirmations, the generation of a
  namespace is pinned and a preflight predicts the reconciliation.  Project mapping: every call refines
  its specification on the placement of observations, what is computed always passes validation, a
  merge of unmapped instances is undone by a split, and suggestions are exact.  Attribution: selected windows, exact aggregation, shares and quota
  percentages within 0 and 100.  Cost and catalog: exact prices, conserved aggregates, a
  catalog that always has its fallback rates, an injective fingerprint input.  Ledger: the
  hard limit over every sequence of calls that do not override it, each with its own random draws, exact admission and settlement, conservative
  compaction, and every way in which an admission can end.  Allowlist: automatic hosts are authorized by
  explicit mutations, the fail-closed mutations always succeed, pairing pins one owner,
  transactions store what they computed, and no update is lost.  Protocol: frames round-trip,
  are self-delimiting and fit the negotiated size.  Runs: local mutations happen only under
  the exact host fence, pages are contiguous and from the paired source, runs are bounded,
  the response budget is never exceeded by a framed transport, and an attempt settles its
  reservation with at most the reserved bytes.  Scheduler: a tick attempts at most one
  authorized host, announces the exact wake while no pause begins or ends, keeps the backoff of every host whose
  row is left alone, and serves every
  due host in round-robin order.  Quota: the merge covers exactly the
  observations, in any order, and is idempotent.

  \<^bold>\<open>Bounds and termination.\<close>  All definitions are total.  The page loop recurses on the page
  limit, which validation bounds by 32; \<open>resume_loop\<close>, \<open>compact_loop\<close>, \<open>utf8_chars\<close> and the decimal
  functions have termination proofs; a follower needs at most one read for each retained
  entry, and one when there is none; the identifier search of the ledger has the 128 attempts of the
  code.  Word sizes are those of the code, with \<open>usize\<close> of 64 bits.  The release
  build is modelled: \<open>debug_assert!\<close> is no branch of the model.

  \<^bold>\<open>Parameters.\<close>  JSON and TOML text, gzip, SHA-256, randomness, the range of chrono instants,
  the transport and the SQLite phases are arguments of the definitions; what a property needs
  of them is a named hypothesis with a concrete instance in its witness.

  \<^bold>\<open>Not modelled.\<close>  Directory discovery, the disk cache, session titles and the ledger of deleted
  sessions are inputs of a scan.  The live snapshot beside the export journal, the two-phase
  publication of a project mapping, the SQLite stores, the
  user interface, the command line, services, file locks, processes and the SSH transport are left
  out: their behaviour is that of libraries and of the operating system.  Payload validation of the
  wire protocol and the fact synchronization are next in line.
\<close>

end
